(* ===== verification/Prelude.thy ===== *)
theory Prelude
  imports Main "HOL-Library.Word" "HOL-Library.AList" "HOL-Library.List_Lexorder"
    "HOL-Library.Char_ord" "HOL-Library.Product_Lexorder"
begin

text \<open>
  What the component theories share: byte strings and their three-way comparison, the
  wrap-around of Go's \<open>int64\<close>, SQL tables as association lists keyed by the primary
  key, and the interface \<open>merge_lattice\<close> of a conflict-free merge. A Go \<open>string\<close> or
  \<open>[]byte\<close> is a \<^typ>\<open>string\<close> (a list of 8-bit characters); Go compares both bytewise,
  which is the lexicographic order of \<open>List_Lexorder\<close> over \<open>Char_ord\<close>. A nil byte
  slice and an empty one are the same value, as they are for \<open>bytes.Compare\<close>.
\<close>

named_theorems tbl \<open>lookups in tables after each kind of statement\<close>

type_synonym bytes = string

subsection \<open>Three-way comparison\<close>

definition cmp3 :: "'a::linorder \<Rightarrow> 'a \<Rightarrow> int" where
  "cmp3 a b = (if a < b then - 1 else if b < a then 1 else 0)"

lemma cmp3_eq_0 [simp]: "cmp3 a b = 0 \<longleftrightarrow> a = b"
  by (auto simp: cmp3_def)

lemma cmp3_gt_0 [simp]: "0 < cmp3 a b \<longleftrightarrow> b < a"
  by (auto simp: cmp3_def)

lemma cmp3_lt_0 [simp]: "cmp3 a b < 0 \<longleftrightarrow> a < b"
  by (auto simp: cmp3_def)

subsection \<open>64-bit signed integers\<close>

text \<open>The value of Go's \<open>int64\<close> after an arithmetic operation with mathematical result \<open>x\<close>.\<close>

definition wrap64 :: "int \<Rightarrow> int" where
  "wrap64 x = (x + 2 ^ 63) mod 2 ^ 64 - 2 ^ 63"

definition in_int64 :: "int \<Rightarrow> bool" where
  "in_int64 x \<longleftrightarrow> - (2 ^ 63) \<le> x \<and> x < 2 ^ 63"

lemma wrap64_id: "in_int64 x \<Longrightarrow> wrap64 x = x"
  by (simp add: wrap64_def in_int64_def)

lemma wrap64_in_int64: "in_int64 (wrap64 x)"
  by (simp add: wrap64_def in_int64_def)

lemma wrap64_over: "2 ^ 63 \<le> x \<Longrightarrow> x < 2 ^ 64 + 2 ^ 63 \<Longrightarrow> wrap64 x = x - 2 ^ 64"
proof -
  assume x: "2 ^ 63 \<le> x" "x < 2 ^ 64 + 2 ^ 63"
  have "(x + 2 ^ 63) mod 2 ^ 64 = ((x - 2 ^ 63) + 2 ^ 64) mod 2 ^ 64" by (simp add: algebra_simps)
  also have "\<dots> = (x - 2 ^ 63) mod 2 ^ 64" by (rule mod_add_self2)
  also have "\<dots> = x - 2 ^ 63" using x by (intro mod_pos_pos_trivial) simp_all
  finally show ?thesis by (simp add: wrap64_def)
qed

lemma wrap64_add_left: "wrap64 (wrap64 x + y) = wrap64 (x + y)"
proof -
  have "wrap64 (wrap64 x + y) = ((x + 2 ^ 63) mod 2 ^ 64 + y) mod 2 ^ 64 - 2 ^ 63"
    by (simp add: wrap64_def)
  also have "\<dots> = (x + 2 ^ 63 + y) mod 2 ^ 64 - 2 ^ 63" by (simp only: mod_add_left_eq)
  also have "\<dots> = wrap64 (x + y)" by (simp add: wrap64_def algebra_simps)
  finally show ?thesis .
qed

lemma wrap64_add_right: "wrap64 (x + wrap64 y) = wrap64 (x + y)"
  using wrap64_add_left [of y x] by (simp add: add.commute)

lemmas wrap64_add = wrap64_add_left wrap64_add_right

lemma wrap64_0 [simp]: "wrap64 0 = 0"
  by (simp add: wrap64_def)

subsection \<open>Tables\<close>

text \<open>
  A table is the list of its rows, each paired with its primary key. \<open>upsert\<close> is
  \<open>INSERT ... ON CONFLICT DO UPDATE SET\<close> with every column taken from the new row,
  \<open>upsert_with\<close> the same statement with columns computed from the old and the new row,
  \<open>delete_where\<close> is \<open>DELETE ... WHERE\<close>.
\<close>

type_synonym ('k, 'r) table = "('k \<times> 'r) list"

definition upsert :: "'k \<Rightarrow> 'r \<Rightarrow> ('k, 'r) table \<Rightarrow> ('k, 'r) table" where
  "upsert k r t = AList.update k r t"

definition upsert_with ::
  "('r \<Rightarrow> 'r \<Rightarrow> 'r) \<Rightarrow> 'k \<Rightarrow> 'r \<Rightarrow> ('k, 'r) table \<Rightarrow> ('k, 'r) table" where
  "upsert_with f k r t =
     upsert k (case map_of t k of None \<Rightarrow> r | Some c \<Rightarrow> f c r) t"

definition delete_where :: "('k \<Rightarrow> bool) \<Rightarrow> ('k, 'r) table \<Rightarrow> ('k, 'r) table" where
  "delete_where P t = filter (\<lambda>(k, _). \<not> P k) t"

definition unique_keys :: "('k, 'r) table \<Rightarrow> bool" where
  "unique_keys t \<longleftrightarrow> distinct (map fst t)"

lemma map_of_upsert [tbl]: "map_of (upsert k r t) k' = (if k' = k then Some r else map_of t k')"
  by (simp add: upsert_def AList.update_conv')

lemma map_of_upsert_with [tbl]:
  "map_of (upsert_with f k r t) k' =
     (if k' = k then Some (case map_of t k of None \<Rightarrow> r | Some c \<Rightarrow> f c r) else map_of t k')"
  by (simp add: upsert_with_def map_of_upsert)

lemma map_of_delete_where [tbl]:
  "map_of (delete_where P t) k = (if P k then None else map_of t k)"
  by (induction t) (auto simp: delete_where_def)

lemma unique_keys_upsert [simp]: "unique_keys t \<Longrightarrow> unique_keys (upsert k r t)"
  by (simp add: unique_keys_def upsert_def AList.distinct_update)

lemma unique_keys_upsert_with [simp]: "unique_keys t \<Longrightarrow> unique_keys (upsert_with f k r t)"
  by (simp add: upsert_with_def)

lemma unique_keys_delete_where [simp]: "unique_keys t \<Longrightarrow> unique_keys (delete_where P t)"
  by (simp add: unique_keys_def delete_where_def distinct_map_filter)

lemma rows_upsert: "snd ` set (upsert k r t) \<subseteq> insert r (snd ` set t)"
  unfolding upsert_def by (induction t) (auto split: if_splits)

lemma unique_keys_Nil [simp]: "unique_keys []"
  by (simp add: unique_keys_def)

lemma unique_keys_Cons:
  "unique_keys ((k, r) # t) \<longleftrightarrow> map_of t k = None \<and> unique_keys t"
  by (auto simp: unique_keys_def map_of_eq_None_iff)

lemma map_of_mem: "unique_keys t \<Longrightarrow> map_of t k = Some r \<longleftrightarrow> (k, r) \<in> set t"
  by (simp add: unique_keys_def)

lemma keys_mem: "k \<in> fst ` set t \<longleftrightarrow> map_of t k \<noteq> None"
  by (simp add: map_of_eq_None_iff)

lemma distinct_sort_key: "distinct (map f xs) \<Longrightarrow> distinct (map f (sort_key g xs))"
  by (simp add: distinct_map)

subsection \<open>Conflict-free merges\<close>

text \<open>
  Merging a list of keyed entries into a keyed collection, entry by entry. The replicated
  tables of the sync engine only ever change this way, with a different merge for each.
\<close>

definition merge_map ::
  "('v \<Rightarrow> 'v \<Rightarrow> 'v) \<Rightarrow> ('k \<times> 'v) list \<Rightarrow> ('k \<rightharpoonup> 'v) \<Rightarrow> ('k \<rightharpoonup> 'v)" where
  "merge_map f es m =
     fold (\<lambda>(k, v) m. m(k \<mapsto> (case m k of None \<Rightarrow> v | Some c \<Rightarrow> f c v))) es m"

lemma merge_map_simps [simp]:
  "merge_map f [] m = m"
  "merge_map f ((k, v) # es) m =
     merge_map f es (m(k \<mapsto> (case m k of None \<Rightarrow> v | Some c \<Rightarrow> f c v)))"
  by (simp_all add: merge_map_def)

lemma merge_map_append: "merge_map f (es @ fs) m = merge_map f fs (merge_map f es m)"
  by (simp add: merge_map_def)

lemma merge_map_None_iff: "merge_map f es m k = None \<longleftrightarrow> m k = None \<and> k \<notin> fst ` set es"
proof (induction es arbitrary: m)
  case (Cons e es)
  obtain k' v where "e = (k', v)" by (cases e)
  then show ?case by (simp add: Cons.IH)
qed simp

lemma merge_map_key_kept: "m k \<noteq> None \<Longrightarrow> merge_map f es m k \<noteq> None"
  by (simp only: merge_map_None_iff) simp

text \<open>
  \<open>joins ok le E m\<close>: the map \<open>m\<close> holds, at each key, the least upper bound of the
  entries of \<open>E\<close> with that key, and nothing at a key with no entry.
\<close>

definition joins :: "('v \<Rightarrow> bool) \<Rightarrow> ('v \<Rightarrow> 'v \<Rightarrow> bool) \<Rightarrow> ('k \<times> 'v) set \<Rightarrow> ('k \<rightharpoonup> 'v) \<Rightarrow> bool" where
  "joins ok le E m \<longleftrightarrow> (\<forall>k. case m k of
       None \<Rightarrow> (\<forall>v. (k, v) \<notin> E)
     | Some w \<Rightarrow> ok w \<and> (\<exists>v. (k, v) \<in> E) \<and>
         (\<forall>u. ok u \<longrightarrow> (le w u \<longleftrightarrow> (\<forall>v. (k, v) \<in> E \<longrightarrow> le v u))))"

text \<open>
  The interface of a merge: on the values \<open>ok\<close>, \<open>le\<close> is a partial order and the
  merge of two values is their least upper bound.
\<close>

locale merge_lattice =
  fixes ok :: "'v \<Rightarrow> bool" and le :: "'v \<Rightarrow> 'v \<Rightarrow> bool" and mrg :: "'v \<Rightarrow> 'v \<Rightarrow> 'v"
  assumes le_refl: "ok a \<Longrightarrow> le a a"
    and le_trans: "le a b \<Longrightarrow> le b c \<Longrightarrow> le a c"
    and le_antisym: "ok a \<Longrightarrow> ok b \<Longrightarrow> le a b \<Longrightarrow> le b a \<Longrightarrow> a = b"
    and mrg_ok: "ok a \<Longrightarrow> ok b \<Longrightarrow> ok (mrg a b)"
    and mrg_le_iff: "ok a \<Longrightarrow> ok b \<Longrightarrow> le (mrg a b) c \<longleftrightarrow> le a c \<and> le b c"
begin

lemma mrg_ub: "ok a \<Longrightarrow> ok b \<Longrightarrow> le a (mrg a b) \<and> le b (mrg a b)"
  using mrg_le_iff le_refl mrg_ok by blast

lemma mrg_eqI:
  assumes "ok a" "ok b" and "\<And>c. le a c \<longleftrightarrow> le b c"
  shows "a = b"
  using assms le_antisym le_refl by blast

lemma mrg_comm: "ok a \<Longrightarrow> ok b \<Longrightarrow> mrg a b = mrg b a"
  by (rule mrg_eqI) (auto simp: mrg_ok mrg_le_iff)

lemma mrg_assoc: "ok a \<Longrightarrow> ok b \<Longrightarrow> ok c \<Longrightarrow> mrg (mrg a b) c = mrg a (mrg b c)"
  by (rule mrg_eqI) (auto simp: mrg_ok mrg_le_iff)

lemma mrg_idem: "ok a \<Longrightarrow> mrg a a = a"
  by (rule mrg_eqI) (auto simp: mrg_ok mrg_le_iff)

lemma mrg_absorb: "ok a \<Longrightarrow> ok b \<Longrightarrow> le b a \<Longrightarrow> mrg a b = a"
  by (rule mrg_eqI) (auto simp: mrg_ok mrg_le_iff intro: le_trans)

lemma joins_ok: "joins ok le E m \<Longrightarrow> m k = Some w \<Longrightarrow> ok w"
  by (auto simp: joins_def dest!: spec [of _ k])

lemma joins_unique:
  assumes "joins ok le E m" "joins ok le E n"
  shows "m = n"
proof
  fix k
  have *: "case m k of None \<Rightarrow> (\<forall>v. (k, v) \<notin> E) | Some w \<Rightarrow> ok w \<and> (\<exists>v. (k, v) \<in> E) \<and>
      (\<forall>u. ok u \<longrightarrow> (le w u \<longleftrightarrow> (\<forall>v. (k, v) \<in> E \<longrightarrow> le v u)))"
    "case n k of None \<Rightarrow> (\<forall>v. (k, v) \<notin> E) | Some w \<Rightarrow> ok w \<and> (\<exists>v. (k, v) \<in> E) \<and>
      (\<forall>u. ok u \<longrightarrow> (le w u \<longleftrightarrow> (\<forall>v. (k, v) \<in> E \<longrightarrow> le v u)))"
    using assms by (auto simp: joins_def)
  show "m k = n k"
  proof (cases "m k"; cases "n k")
    fix v w assume vw: "m k = Some v" "n k = Some w"
    have "v = w" by (rule le_antisym) (use * vw le_refl in auto)
    then show ?thesis using vw by simp
  qed (use * in auto)
qed

lemma joins_upsert:
  assumes j: "joins ok le E m" and v: "ok v"
  shows "joins ok le (insert (k, v) E)
    (m(k \<mapsto> (case m k of None \<Rightarrow> v | Some c \<Rightarrow> mrg c v)))"
  unfolding joins_def
proof (rule allI, goal_cases)
  case (1 k')
  note jk = j [unfolded joins_def, rule_format, of k']
  show ?case
  proof (cases "k' = k")
    case False
    then show ?thesis using jk by (auto split: option.splits)
  next
    case True
    then show ?thesis using jk v by (auto simp: mrg_ok mrg_le_iff split: option.splits)
  qed
qed

lemma joins_merge_map:
  assumes "joins ok le E m" and "\<forall>(k, v) \<in> set es. ok v"
  shows "joins ok le (E \<union> set es) (merge_map mrg es m)"
  using assms
proof (induction es arbitrary: E m)
  case (Cons e es)
  obtain k v where e: "e = (k, v)" by (cases e)
  have "joins ok le (insert (k, v) E) (m(k \<mapsto> (case m k of None \<Rightarrow> v | Some c \<Rightarrow> mrg c v)))"
    using joins_upsert [OF Cons.prems(1)] Cons.prems(2) e by auto
  from Cons.IH [OF this] Cons.prems(2) show ?case by (simp add: e fun_upd_def)
qed simp

lemma joins_self: "\<forall>k v. m k = Some v \<longrightarrow> ok v \<Longrightarrow> joins ok le {(k, v). m k = Some v} m"
  by (auto simp: joins_def split: option.splits)

text \<open>Entries that are themselves joins stand for what they join.\<close>

lemma joins_absorb:
  assumes m: "joins ok le (E \<union> {(k, v). n k = Some v}) m" and n: "joins ok le F n"
  shows "joins ok le (E \<union> F) m"
  unfolding joins_def
proof (rule allI, goal_cases)
  case (1 k)
  note mk = m [unfolded joins_def, rule_format, of k]
  note nk = n [unfolded joins_def, rule_format, of k]
  show ?case using mk nk by (auto split: option.splits)
qed

lemma merge_map_set_determined:
  assumes "set es = set fs"
    and "\<forall>(k, v) \<in> set es. ok v" and "\<forall>k v. m k = Some v \<longrightarrow> ok v"
  shows "merge_map mrg es m = merge_map mrg fs m"
proof (rule joins_unique)
  let ?E = "{(k, v). m k = Some v}"
  have m: "joins ok le ?E m" using assms(3) by (intro joins_self) auto
  show "joins ok le (?E \<union> set es) (merge_map mrg es m)"
    using m assms(2) by (rule joins_merge_map)
  show "joins ok le (?E \<union> set es) (merge_map mrg fs m)"
    using joins_merge_map [OF m, of fs] assms(1,2) by simp
qed

lemma merge_map_twice:
  assumes "\<forall>(k, v) \<in> set es. ok v" and "\<forall>k v. m k = Some v \<longrightarrow> ok v"
  shows "merge_map mrg es (merge_map mrg es m) = merge_map mrg es m"
  unfolding merge_map_append [symmetric]
  using assms by (intro merge_map_set_determined) auto

lemma merge_map_swap:
  assumes "\<forall>(k, v) \<in> set es. ok v" and "\<forall>(k, v) \<in> set fs. ok v" and "\<forall>k v. m k = Some v \<longrightarrow> ok v"
  shows "merge_map mrg fs (merge_map mrg es m) = merge_map mrg es (merge_map mrg fs m)"
  unfolding merge_map_append [symmetric]
  using assms by (intro merge_map_set_determined) auto

lemma merge_map_ok:
  assumes "\<forall>(k, v) \<in> set es. ok v" and "\<forall>k v. m k = Some v \<longrightarrow> ok v"
    and "merge_map mrg es m k = Some v"
  shows "ok v"
  using joins_ok [OF joins_merge_map [OF joins_self [OF assms(2)] assms(1)] assms(3)] .

lemma merge_map_ub:
  assumes "\<forall>(k, v) \<in> set es. ok v" and "\<forall>k v. m k = Some v \<longrightarrow> ok v"
    and "m k = Some v \<or> (k, v) \<in> set es"
  obtains w where "merge_map mrg es m k = Some w" "le v w" "ok w"
proof -
  let ?m = "merge_map mrg es m"
  have j: "joins ok le ({(k, v). m k = Some v} \<union> set es) ?m"
    by (rule joins_merge_map [OF joins_self [OF assms(2)] assms(1)])
  then obtain w where w: "?m k = Some w"
    using assms(3) unfolding joins_def by (cases "?m k") (auto dest!: spec [of _ k])
  have "ok w" using j w by (rule joins_ok)
  moreover have "le v w"
    using j [unfolded joins_def, rule_format, of k] w assms(3) le_refl [OF \<open>ok w\<close>] by auto
  ultimately show thesis using w that by blast
qed

lemma merge_map_keeps:
  assumes "\<forall>(k, v) \<in> set es. ok v" and "\<forall>k v. m k = Some v \<longrightarrow> ok v"
    and "m k = Some r" and "\<And>v. (k, v) \<in> set es \<Longrightarrow> le v r"
  shows "merge_map mrg es m k = Some r"
proof -
  let ?E = "{(k, v). m k = Some v} \<union> set es"
  have j: "joins ok le ?E (merge_map mrg es m)"
    by (rule joins_merge_map [OF joins_self [OF assms(2)] assms(1)])
  obtain w where w: "merge_map mrg es m k = Some w" "le r w" "ok w"
    using merge_map_ub [OF assms(1,2), of k r] assms(3) by blast
  have "ok r" using assms(2,3) by blast
  have "le w r"
    using j [unfolded joins_def, rule_format, of k] w(1) \<open>ok r\<close> le_refl [OF \<open>ok r\<close>] assms(3,4) by auto
  with w \<open>ok r\<close> le_antisym show ?thesis by blast
qed

lemma merge_map_absorb:
  assumes "\<forall>k v. m k = Some v \<longrightarrow> ok v"
    and "\<forall>(k, v) \<in> set es. ok v \<and> (\<exists>c. m k = Some c \<and> le v c)"
  shows "merge_map mrg es m = m"
  using assms(2)
proof (induction es)
  case (Cons e es)
  obtain k v where e: "e = (k, v)" by (cases e)
  from Cons.prems e obtain c where c: "ok v" "m k = Some c" "le v c" by auto
  with assms(1) have "mrg c v = c" by (intro mrg_absorb) auto
  with c have "m(k \<mapsto> (case m k of None \<Rightarrow> v | Some c \<Rightarrow> mrg c v)) = m" by auto
  with Cons e show ?case by auto
qed simp

end

subsection \<open>Runs of an operation alphabet\<close>

text \<open>
  Components whose operations are methods of one object are driven by a list of calls;
  \<open>runs step\<close> executes it and collects what each call answered. Two contracts of a step
  function carry over to whole runs: \<open>kept\<close>, an invariant under calls that satisfy
  \<open>ok\<close>, and \<open>token_store\<close>, the accounting of one-time tokens.
\<close>

fun runs :: "('c \<Rightarrow> 's \<Rightarrow> 'e \<times> 's) \<Rightarrow> 'c list \<Rightarrow> 's \<Rightarrow> 'e list \<times> 's" where
  "runs step [] s = ([], s)"
| "runs step (c # cs) s =
     (case step c s of (e, s1) \<Rightarrow> case runs step cs s1 of (es, s2) \<Rightarrow> (e # es, s2))"

locale kept =
  fixes step :: "'c \<Rightarrow> 's \<Rightarrow> 'e \<times> 's" and ok :: "'c \<Rightarrow> bool" and inv :: "'s \<Rightarrow> bool"
  assumes inv_step: "\<lbrakk>ok c; inv s; step c s = (e, s')\<rbrakk> \<Longrightarrow> inv s'"
begin

lemma inv_runs: "\<lbrakk>list_all ok cs; inv s; runs step cs s = (es, s')\<rbrakk> \<Longrightarrow> inv s'"
proof (induction cs arbitrary: s es)
  case (Cons c cs)
  obtain e s1 where st: "step c s = (e, s1)" by (cases "step c s")
  obtain es' where "runs step cs s1 = (es', s')" using Cons.prems(3) st by (auto split: prod.splits)
  with Cons.IH inv_step [OF _ Cons.prems(2) st] Cons.prems(1) show ?case by simp
qed simp

end

locale token_store =
  fixes step :: "'c \<Rightarrow> 's \<Rightarrow> 'e \<times> 's"
    and issued redeemed :: "'k \<Rightarrow> 'e \<Rightarrow> bool"
    and present :: "'k \<Rightarrow> 's \<Rightarrow> bool"
  assumes account: "step c s = (e, s') \<Longrightarrow>
    of_bool (redeemed k e) + of_bool (present k s') \<le> of_bool (issued k e) + (of_bool (present k s) :: nat)"
begin

lemma runs_account:
  assumes "runs step cs s = (es, s')"
  shows "length (filter (redeemed k) es) + of_bool (present k s')
           \<le> length (filter (issued k) es) + of_bool (present k s)"
  using assms
proof (induction cs arbitrary: s es)
  case (Cons c cs)
  obtain e s1 where st: "step c s = (e, s1)" by (cases "step c s")
  obtain es1 where r: "runs step cs s1 = (es1, s')" "es = e # es1"
    using Cons.prems st by (auto split: prod.splits)
  show ?case using account [OF st, of k] Cons.IH [OF r(1)] r(2)
    by (auto simp: of_bool_def split: if_splits)
qed simp

end

subsection \<open>Fallible stateful code\<close>

text \<open>A call on a state of type \<open>'s\<close> that returns an error of type \<open>'e\<close> or a value, and the new state.\<close>

type_synonym ('s, 'e, 'a) comp = "'s \<Rightarrow> ('e + 'a) \<times> 's"

definition retS :: "'a \<Rightarrow> ('s, 'e, 'a) comp" where
  "retS x b = (Inr x, b)"

definition failS :: "'e \<Rightarrow> ('s, 'e, 'a) comp" where
  "failS e b = (Inl e, b)"

definition bindS :: "('s, 'e, 'a) comp \<Rightarrow> ('a \<Rightarrow> ('s, 'e, 'c) comp) \<Rightarrow> ('s, 'e, 'c) comp" where
  "bindS m f b = (case m b of (Inl e, b') \<Rightarrow> (Inl e, b') | (Inr x, b') \<Rightarrow> f x b')"

definition liftS :: "'e + 'a \<Rightarrow> ('s, 'e, 'a) comp" where
  "liftS r b = (r, b)"

lemma bindS_Inr: "bindS m f b = (Inr y, b') \<longleftrightarrow> (\<exists>x b1. m b = (Inr x, b1) \<and> f x b1 = (Inr y, b'))"
  by (auto simp: bindS_def split: prod.splits sum.splits)

lemma retS_Inr: "retS x b = (Inr y, b') \<longleftrightarrow> y = x \<and> b' = b"
  by (auto simp: retS_def)

lemma failS_Inr: "failS er b = (Inr y, b') \<longleftrightarrow> False"
  by (simp add: failS_def)

lemma liftS_Inr: "liftS r b = (Inr y, b') \<longleftrightarrow> r = Inr y \<and> b' = b"
  by (auto simp: liftS_def)

lemma bindS_go: "m b = (Inr x, b1) \<Longrightarrow> bindS m f b = f x b1"
  by (simp add: bindS_def)

lemmas comp_Inr = bindS_Inr retS_Inr failS_Inr liftS_Inr

lemma bindS_E:
  assumes "bindS m f b = (r, b')"
  obtains (stop) er where "m b = (Inl er, b')" "r = Inl er" | (go) x b1 where "m b = (Inr x, b1)" "f x b1 = (r, b')"
  using assms by (auto simp: bindS_def split: prod.splits sum.splits)

lemma bindS_assoc: "bindS (bindS m f) g = bindS m (\<lambda>x. bindS (f x) g)"
  by (rule ext) (auto simp: bindS_def split: prod.splits sum.splits)

text \<open>A guarded computation that succeeds has passed its guard.\<close>

lemma guard_Inr:
  "(case x of Inl a \<Rightarrow> failS (g a) | Inr y \<Rightarrow> f y) b = (Inr z, b') \<longleftrightarrow> (\<exists>y. x = Inr y \<and> f y b = (Inr z, b'))"
  "(case o' of Some a \<Rightarrow> failS (h a) | None \<Rightarrow> m) b = (Inr z, b') \<longleftrightarrow> o' = None \<and> m b = (Inr z, b')"
  "(case o' of None \<Rightarrow> failS er | Some a \<Rightarrow> k a) b = (Inr z, b') \<longleftrightarrow> (\<exists>a. o' = Some a \<and> k a b = (Inr z, b'))"
  "(if c then failS er else m) b = (Inr z, b') \<longleftrightarrow> \<not> c \<and> m b = (Inr z, b')"
  by (auto simp: failS_def split: sum.splits option.splits)

text \<open>
  The frame of a computation: a reflexive and transitive relation that holds between the
  states before and after it, whether it succeeds or fails.
\<close>

locale comp_frame =
  fixes rel :: "'s \<Rightarrow> 's \<Rightarrow> bool"
  assumes refl: "rel s s"
    and trans: "rel s t \<Longrightarrow> rel t u \<Longrightarrow> rel s u"
begin

definition within :: "('s, 'e, 'a) comp \<Rightarrow> bool" where
  "within m \<longleftrightarrow> (\<forall>s r s'. m s = (r, s') \<longrightarrow> rel s s')"

lemma withinD: "within m \<Longrightarrow> m s = (r, s') \<Longrightarrow> rel s s'"
  by (simp add: within_def)

lemma within_bind:
  assumes m: "within m" and f: "\<And>x. within (f x)"
  shows "within (bindS m f)"
  unfolding within_def
proof (intro allI impI)
  fix s r s' assume b: "bindS m f s = (r, s')"
  from b show "rel s s'"
  proof (cases rule: bindS_E)
    case (go x t)
    show ?thesis by (rule trans [OF withinD [OF m go(1)] withinD [OF f go(2)]])
  qed (rule withinD [OF m])
qed

lemma within_ret: "within (retS x)" "within (failS er)"
  by (simp_all add: within_def retS_def failS_def refl)

text \<open>The first step of a computation ends it inside the frame, or the rest runs.\<close>

lemma within_E:
  assumes "bindS m f s = (r, s')" "within m"
  obtains (failed) er where "r = Inl er" "rel s s'" | (went) x t where "m s = (Inr x, t)" "rel s t" "f x t = (r, s')"
  using assms(1) by (cases rule: bindS_E) (use withinD [OF assms(2)] failed went in blast)+

end

end
