(* ===== verification/Crdt_Types.thy ===== *)
theory Crdt_Types
  imports Prelude
begin

text \<open>
  The wire types of the sync engine and its hybrid logical clock
  (\<open>backend/internal/crdtsync/types.go\<close>): stamps and their total order, operations,
  version vectors, deltas and snapshots. \<open>Wall\<close> is only compared and copied, never added
  to, so it is an \<^typ>\<open>int\<close>; \<open>Logical\<close> is incremented and is a 32-bit word that wraps.
  Sequence numbers are \<^typ>\<open>nat\<close>: they count one box's own writes and are stored in a
  signed 64-bit column, so the model describes replicas that have made fewer than
  \<open>2 ^ 63\<close> writes.
\<close>

subsection \<open>Stamps\<close>

datatype Stamp = Stamp (Wall: int) (Logical: "32 word") (Actor: string)

definition Stamp_Compare :: "Stamp \<Rightarrow> Stamp \<Rightarrow> int" where
  "Stamp_Compare s other =
     (if Wall s < Wall other then - 1
      else if Wall s > Wall other then 1
      else if Logical s < Logical other then - 1
      else if Logical s > Logical other then 1
      else if Actor s < Actor other then - 1
      else if Actor s > Actor other then 1
      else 0)"

text \<open>Stamps are linearly ordered by \<open>Compare\<close>.\<close>

instantiation Stamp :: linorder
begin

definition less_eq_Stamp :: "Stamp \<Rightarrow> Stamp \<Rightarrow> bool" where
  "less_eq_Stamp s t \<longleftrightarrow> Stamp_Compare s t \<le> 0"

definition less_Stamp :: "Stamp \<Rightarrow> Stamp \<Rightarrow> bool" where
  "less_Stamp s t \<longleftrightarrow> Stamp_Compare s t < 0"

instance
proof
  fix s t u :: Stamp
  show "s < t \<longleftrightarrow> s \<le> t \<and> \<not> t \<le> s"
    by (auto simp: less_eq_Stamp_def less_Stamp_def Stamp_Compare_def)
  show "s \<le> s" by (simp add: less_eq_Stamp_def Stamp_Compare_def)
  show "s \<le> t \<Longrightarrow> t \<le> u \<Longrightarrow> s \<le> u"
    by (auto simp: less_eq_Stamp_def Stamp_Compare_def split: if_splits)
  show "s \<le> t \<Longrightarrow> t \<le> s \<Longrightarrow> s = t"
    by (cases s; cases t) (auto simp: less_eq_Stamp_def Stamp_Compare_def split: if_splits)
  show "s \<le> t \<or> t \<le> s"
    by (auto simp: less_eq_Stamp_def Stamp_Compare_def)
qed

end

lemma Stamp_Compare_cmp3: "Stamp_Compare s t = cmp3 s t"
  by (cases s; cases t) (auto simp: cmp3_def less_Stamp_def Stamp_Compare_def)

lemma Stamp_less_iff:
  "s < t \<longleftrightarrow> Wall s < Wall t \<or> Wall s = Wall t \<and>
     (Logical s < Logical t \<or> Logical s = Logical t \<and> Actor s < Actor t)"
  by (auto simp: less_Stamp_def Stamp_Compare_def)

subsection \<open>Operations, version vectors, deltas, snapshots\<close>

text \<open>
  \<open>OpKind\<close> is a Go string type with three constants; any other string is
  \<open>OtherKind\<close>.
\<close>

datatype OpKind = OpSet | OpDel | OpInc | OtherKind string

definition Valid :: "OpKind \<Rightarrow> bool" where
  "Valid k \<longleftrightarrow> k = OpSet \<or> k = OpDel \<or> k = OpInc"

record Op =
  op_Domain :: string
  op_Actor :: string
  op_Seq :: nat
  op_Key :: string
  op_Field :: string
  op_Kind :: OpKind
  op_Value :: bytes
  op_Stamp :: Stamp

text \<open>A version vector is the list of its entries; reading an absent actor gives 0.\<close>

type_synonym VersionVector = "(string, nat) table"

definition vv_get :: "VersionVector \<Rightarrow> string \<Rightarrow> nat" where
  "vv_get vv a = (case map_of vv a of None \<Rightarrow> 0 | Some n \<Rightarrow> n)"

definition Clone :: "VersionVector \<Rightarrow> VersionVector" where
  "Clone vv = fold (\<lambda>(k, v) out. upsert k v out) vv []"

definition Observe :: "VersionVector \<Rightarrow> string \<Rightarrow> nat \<Rightarrow> VersionVector" where
  "Observe vv actor seq = (if seq > vv_get vv actor then upsert actor seq vv else vv)"

definition Covers :: "VersionVector \<Rightarrow> string \<Rightarrow> nat \<Rightarrow> bool" where
  "Covers vv actor seq \<longleftrightarrow> vv_get vv actor \<ge> seq"

record RegisterState =
  rs_Key :: string
  rs_Field :: string
  rs_Value :: bytes
  rs_Deleted :: bool
  rs_Stamp :: Stamp

record CounterState =
  cs_Key :: string
  cs_Field :: string
  cs_Actor :: string
  cs_Pos :: int
  cs_Neg :: int

record Snapshot =
  sn_Domain :: string
  sn_VV :: VersionVector
  sn_Registers :: "RegisterState list"
  sn_Counters :: "CounterState list"
  sn_TakenAtMS :: int
  sn_SchemaVers :: int

definition SnapshotSchemaVersion :: int where
  "SnapshotSchemaVersion = 1"

record Delta =
  d_Domain :: string
  d_SenderVV :: VersionVector
  d_Ops :: "Op list"
  d_SnapshotRequired :: bool
  d_Snapshot :: "Snapshot option"
  d_Truncated :: bool

lemma vv_get_Observe:
  "vv_get (Observe vv a n) b = (if b = a then max n (vv_get vv a) else vv_get vv b)"
  by (auto simp: Observe_def vv_get_def tbl max_def)

lemma Covers_Observe: "Covers (Observe vv a n) b m \<longleftrightarrow> Covers vv b m \<or> b = a \<and> m \<le> n"
  by (auto simp: Covers_def vv_get_Observe)

lemma vv_get_Clone: "unique_keys vv \<Longrightarrow> vv_get (Clone vv) a = vv_get vv a"
proof -
  have "unique_keys vv \<Longrightarrow> map_of (fold (\<lambda>(k, v) out. upsert k v out) vv acc) a =
      (case map_of vv a of None \<Rightarrow> map_of acc a | Some v \<Rightarrow> Some v)" for acc
    by (induction vv arbitrary: acc) (auto simp: unique_keys_Cons tbl split: option.splits)
  then show "unique_keys vv \<Longrightarrow> ?thesis" by (simp add: Clone_def vv_get_def split: option.splits)
qed

subsection \<open>The hybrid logical clock\<close>

text \<open>
  The clock's mutex makes each of its two operations one step. \<open>nowMS\<close> is the reading of
  the host clock, which may go backwards from call to call.
\<close>

record clock =
  wall :: int
  logical :: "32 word"

definition newClock :: clock where
  "newClock = \<lparr>wall = 0, logical = 0\<rparr>"

definition tick :: "int \<Rightarrow> string \<Rightarrow> clock \<Rightarrow> Stamp \<times> clock" where
  "tick nowMS actor c =
     (let c' = (if nowMS > wall c then c\<lparr>wall := nowMS, logical := 0\<rparr>
                else c\<lparr>logical := logical c + 1\<rparr>)
      in (Stamp (wall c') (logical c') actor, c'))"

definition observe :: "int \<Rightarrow> Stamp \<Rightarrow> clock \<Rightarrow> clock" where
  "observe nowMS s c =
     (if Wall s > wall c \<and> Wall s \<ge> nowMS then c\<lparr>wall := Wall s, logical := Logical s\<rparr>
      else if Wall s = wall c \<and> Logical s > logical c then c\<lparr>logical := Logical s\<rparr>
      else if nowMS > wall c then c\<lparr>wall := nowMS, logical := 0\<rparr>
      else c)"

text \<open>The clock is at or past a stamp's (wall, logical) position.\<close>

definition clock_past :: "Stamp \<Rightarrow> clock \<Rightarrow> bool" where
  "clock_past s c \<longleftrightarrow> Wall s < wall c \<or> Wall s = wall c \<and> Logical s \<le> logical c"

text \<open>The next tick at this reading of the host clock does not wrap the logical counter.\<close>

definition tick_fits :: "int \<Rightarrow> clock \<Rightarrow> bool" where
  "tick_fits nowMS c \<longleftrightarrow> nowMS > wall c \<or> logical c < - 1"

lemma logical_Suc: "(l :: 32 word) < - 1 \<Longrightarrow> l < l + 1"
  by unat_arith

lemma clock_past_observe: "clock_past s (observe now s c)"
  by (auto simp: clock_past_def observe_def)

lemma clock_past_observe_keep: "clock_past t c \<Longrightarrow> clock_past t (observe now s c)"
  by (auto simp: clock_past_def observe_def)

lemma tick_after:
  assumes "clock_past s c" "tick_fits now c" "tick now a c = (t, c')"
  shows "s < t" "clock_past t c'" "clock_past s c'"
  using assms logical_Suc [of "logical c"]
  by (auto simp: tick_def Let_def clock_past_def tick_fits_def Stamp_less_iff split: if_splits)

lemma Actor_tick [simp]: "Actor (fst (tick now a c)) = a"
  by (simp add: tick_def Let_def)

text \<open>
  A run of the clock: local events and received stamps, each with the host clock's reading.
  \<open>clock_log\<close> lists the stamps in order, emitted ones marked \<open>True\<close>.
\<close>

datatype clock_event = Tick int | Receive int Stamp

fun clock_log :: "string \<Rightarrow> clock \<Rightarrow> clock_event list \<Rightarrow> (bool \<times> Stamp) list" where
  "clock_log a c [] = []"
| "clock_log a c (Tick now # es) = (let (s, c') = tick now a c in (True, s) # clock_log a c' es)"
| "clock_log a c (Receive now s # es) = (False, s) # clock_log a (observe now s c) es"

fun clock_fits :: "string \<Rightarrow> clock \<Rightarrow> clock_event list \<Rightarrow> bool" where
  "clock_fits a c [] = True"
| "clock_fits a c (Tick now # es) = (tick_fits now c \<and> clock_fits a (snd (tick now a c)) es)"
| "clock_fits a c (Receive now s # es) = clock_fits a (observe now s c) es"

lemma clock_log_after:
  "clock_past s c \<Longrightarrow> clock_fits a c es \<Longrightarrow> (True, t) \<in> set (clock_log a c es) \<Longrightarrow> s < t"
proof (induction a c es rule: clock_log.induct)
  case (2 a c now es)
  obtain u c' where u: "tick now a c = (u, c')" by (cases "tick now a c")
  from "2.prems" u have f: "tick_fits now c" "clock_fits a c' es" by auto
  note after = tick_after [OF "2.prems"(1) f(1) u]
  show ?case using "2.IH" [of "(u, c')" u c'] "2.prems"(3) u f after by auto
next
  case (3 a c now r es)
  then show ?case by (auto intro: clock_past_observe_keep)
qed simp

lemma marked_nth_mem: "j < length xs \<Longrightarrow> fst (xs ! j) \<Longrightarrow> (True, snd (xs ! j)) \<in> set xs"
  using nth_mem [of j xs] prod.collapse [of "xs ! j"] by (metis (full_types))

lemma clock_log_sorted:
  assumes "clock_fits a c es" and "i < j" and "j < length (clock_log a c es)"
    and "fst (clock_log a c es ! j)"
  shows "snd (clock_log a c es ! i) < snd (clock_log a c es ! j)"
  using assms
proof (induction a c es arbitrary: i j rule: clock_log.induct)
  case (2 a c now es)
  obtain u c' where u: "tick now a c = (u, c')" by (cases "tick now a c")
  from "2.prems"(1) u have f: "tick_fits now c" "clock_fits a c' es" by auto
  have past: "clock_past u c'" using u by (auto simp: tick_def Let_def clock_past_def)
  obtain j' where j: "j = Suc j'" using "2.prems"(2) by (cases j) auto
  have mem: "(True, snd (clock_log a c' es ! j')) \<in> set (clock_log a c' es)"
    using "2.prems"(3,4) u j by (intro marked_nth_mem) auto
  show ?case
    using "2.IH" [of "(u, c')" u c' "i - 1" j'] "2.prems" u f j clock_log_after [OF past f(2) mem]
    by (cases i) auto
next
  case (3 a c now r es)
  obtain j' where j: "j = Suc j'" using "3.prems"(2) by (cases j) auto
  have mem: "(True, snd (clock_log a (observe now r c) es ! j')) \<in>
      set (clock_log a (observe now r c) es)"
    using "3.prems"(3,4) j by (intro marked_nth_mem) auto
  show ?case
    using "3.IH" [of "i - 1" j'] "3.prems" j
      clock_log_after [OF clock_past_observe _ mem] by (cases i) auto
qed simp

end
