(* ===== verification/Go_Text.thy ===== *)
theory Go_Text
  imports Prelude
begin

text \<open>
  The parts of Go's \<open>strings\<close> and \<open>strconv\<close> packages the components use, on byte
  strings: \<open>TrimSpace\<close> for ASCII white space, \<open>SplitN(s, sep, 2)\<close> for a one-byte
  separator, \<open>FormatInt(i, 10)\<close> and \<open>ParseInt(s, 10, 64)\<close> with its range check.
\<close>

definition is_space :: "char \<Rightarrow> bool" where
  "is_space c \<longleftrightarrow> c = CHR '' '' \<or> c \<in> {CHR 0x09, CHR 0x0A, CHR 0x0B, CHR 0x0C, CHR 0x0D}"

definition TrimSpace :: "string \<Rightarrow> string" where
  "TrimSpace s = rev (dropWhile is_space (rev (dropWhile is_space s)))"

definition SplitN2 :: "char \<Rightarrow> string \<Rightarrow> string \<times> string option" where
  "SplitN2 sep s =
     (let a = takeWhile (\<lambda>c. c \<noteq> sep) s; b = dropWhile (\<lambda>c. c \<noteq> sep) s
      in (a, case b of [] \<Rightarrow> None | _ # rest \<Rightarrow> Some rest))"

lemma SplitN2_join:
  assumes "sep \<notin> set a"
  shows "SplitN2 sep (a @ sep # b) = (a, Some b)"
proof -
  have "\<forall>c \<in> set a. c \<noteq> sep" using assms by auto
  then show ?thesis by (simp add: SplitN2_def Let_def takeWhile_append2 dropWhile_append2)
qed

subsection \<open>Decimal integers\<close>

definition digit_char :: "nat \<Rightarrow> char" where
  "digit_char d = char_of (48 + d)"

definition is_digit :: "char \<Rightarrow> bool" where
  "is_digit c \<longleftrightarrow> 48 \<le> (of_char c :: nat) \<and> (of_char c :: nat) \<le> 57"

definition digit_val :: "char \<Rightarrow> nat" where
  "digit_val c = of_char c - 48"

fun format_nat :: "nat \<Rightarrow> string" where
  "format_nat n = (if n < 10 then [digit_char n] else format_nat (n div 10) @ [digit_char (n mod 10)])"

declare format_nat.simps [simp del]

definition FormatInt :: "int \<Rightarrow> string" where
  "FormatInt i = (if i < 0 then CHR ''-'' # format_nat (nat (- i)) else format_nat (nat i))"

definition parse_digits :: "string \<Rightarrow> nat" where
  "parse_digits s = foldl (\<lambda>n c. 10 * n + digit_val c) 0 s"

text \<open>\<open>None\<close> is Go's syntax or range error; both make every caller here fail the same way.\<close>

definition ParseInt :: "string \<Rightarrow> int option" where
  "ParseInt s =
     (let (neg, ds) = (case s of [] \<Rightarrow> (False, [])
                        | c # cs \<Rightarrow> if c = CHR ''-'' then (True, cs)
                                    else if c = CHR ''+'' then (False, cs) else (False, s));
          n = int (parse_digits ds)
      in if ds = [] \<or> \<not> list_all is_digit ds then None
         else if neg then (if n \<le> 2 ^ 63 then Some (- n) else None)
         else (if n < 2 ^ 63 then Some n else None))"

lemma digit_char_facts:
  assumes "d < 10"
  shows "is_digit (digit_char d)" "digit_val (digit_char d) = d"
    "digit_char d \<noteq> CHR ''-''" "digit_char d \<noteq> CHR ''+''" "digit_char d \<noteq> CHR '':''"
proof -
  have c: "of_char (digit_char d) = 48 + d"
    using assms by (simp add: digit_char_def)
  then show "is_digit (digit_char d)" "digit_val (digit_char d) = d"
    using assms by (simp_all add: is_digit_def digit_val_def)
  have "of_char (digit_char d) \<noteq> (of_char CHR ''-'' :: nat)"
    "of_char (digit_char d) \<noteq> (of_char CHR ''+'' :: nat)"
    "of_char (digit_char d) \<noteq> (of_char CHR '':'' :: nat)" using c assms by simp_all
  then show "digit_char d \<noteq> CHR ''-''" "digit_char d \<noteq> CHR ''+''" "digit_char d \<noteq> CHR '':''"
    by auto
qed

lemma format_nat_digits: "list_all is_digit (format_nat n)" "format_nat n \<noteq> []"
  "\<forall>c \<in> set (format_nat n). c \<noteq> CHR ''-'' \<and> c \<noteq> CHR ''+'' \<and> c \<noteq> CHR '':''"
proof (induction n rule: format_nat.induct)
  case (1 n)
  { case 1 show ?case using "1.IH"
      by (subst format_nat.simps) (auto simp: digit_char_facts) }
  { case 2 show ?case by (subst format_nat.simps) simp }
  { case 3 show ?case using "1.IH"
      by (subst format_nat.simps) (auto simp: digit_char_facts) }
qed

lemma parse_format_nat: "parse_digits (format_nat n) = n"
proof (induction n rule: format_nat.induct)
  case (1 n)
  show ?case
  proof (cases "n < 10")
    case True
    then show ?thesis by (subst format_nat.simps) (simp add: parse_digits_def digit_char_facts)
  next
    case False
    with 1 have "parse_digits (format_nat (n div 10)) = n div 10" by simp
    with False show ?thesis
      by (subst format_nat.simps) (simp add: parse_digits_def digit_char_facts)
  qed
qed

lemma ParseInt_FormatInt: "in_int64 i \<Longrightarrow> ParseInt (FormatInt i) = Some i"
proof -
  assume i: "in_int64 i"
  obtain c cs where f: "format_nat (nat i) = c # cs"
    using format_nat_digits(2) by (cases "format_nat (nat i)") auto
  have c: "c \<noteq> CHR ''-''" "c \<noteq> CHR ''+''" using format_nat_digits(3) [of "nat i"] f by auto
  show ?thesis
    using i c f format_nat_digits(1,2) [of "nat i"] format_nat_digits(1,2) [of "nat (- i)"]
      parse_format_nat [of "nat i"] parse_format_nat [of "nat (- i)"]
    by (auto simp: ParseInt_def FormatInt_def in_int64_def)
qed

lemma ParseInt_in_int64: "ParseInt s = Some i \<Longrightarrow> in_int64 i"
  by (auto simp: ParseInt_def in_int64_def Let_def split: list.splits if_splits)

lemma FormatInt_no_colon: "CHR '':'' \<notin> set (FormatInt i)"
  using format_nat_digits(3) [of "nat i"] format_nat_digits(3) [of "nat (- i)"]
  by (auto simp: FormatInt_def)

lemma FormatInt_inj: "FormatInt i = FormatInt j \<longleftrightarrow> i = j"
proof
  assume e: "FormatInt i = FormatInt j"
  have "CHR ''-'' \<notin> set (format_nat n)" for n using format_nat_digits(3) by blast
  then have neg: "i < 0 \<longleftrightarrow> j < 0" using e unfolding FormatInt_def by (metis list.set_intros(1))
  then have "format_nat (nat (if i < 0 then - i else i)) = format_nat (nat (if j < 0 then - j else j))"
    using e by (auto simp: FormatInt_def split: if_splits)
  then have "nat (if i < 0 then - i else i) = nat (if j < 0 then - j else j)" using parse_format_nat by metis
  then show "i = j" using neg by (auto split: if_splits)
qed simp

lemma colon_split: "FormatInt i @ CHR '':'' # a = FormatInt j @ CHR '':'' # b \<longleftrightarrow> i = j \<and> a = b"
  using SplitN2_join [OF FormatInt_no_colon, of i a] SplitN2_join [OF FormatInt_no_colon, of j b]
  by (metis FormatInt_inj option.inject prod.inject)

subsection \<open>Substrings, ASCII case and hexadecimal\<close>

text \<open>
  \<open>ToLower\<close> maps ASCII letters. Its callers lower host names and hexadecimal text, and search
  lowered text for ASCII markers no other letter lowers to.
\<close>

definition lower_char :: "char \<Rightarrow> char" where
  "lower_char c = (let n = (of_char c :: nat) in if 65 \<le> n \<and> n \<le> 90 then char_of (n + 32) else c)"

definition ToLower :: "string \<Rightarrow> string" where
  "ToLower s = map lower_char s"

definition HasPrefix :: "string \<Rightarrow> string \<Rightarrow> bool" where
  "HasPrefix s p \<longleftrightarrow> take (length p) s = p"

fun Contains :: "string \<Rightarrow> string \<Rightarrow> bool" where
  "Contains [] t = (t = [])"
| "Contains (c # s) t = (HasPrefix (c # s) t \<or> Contains s t)"

definition hex_digit :: "nat \<Rightarrow> char" where
  "hex_digit n = (if n < 10 then char_of (48 + n) else char_of (87 + n))"

definition EncodeToString :: "bytes \<Rightarrow> string" where
  "EncodeToString bs = concat (map (\<lambda>c. let n = (of_char c :: nat) in [hex_digit (n div 16), hex_digit (n mod 16)]) bs)"

end
