(* ===== verification/Crdt_Policy.thy ===== *)
theory Crdt_Policy
  imports Go_Text
begin

text \<open>
  Which domains replicate, and with which algebra
  (\<open>backend/internal/crdtsync/policy.go\<close>). The decision table is transcribed entry by
  entry; the \<open>Reason\<close> prose is left out, and an error that would quote it carries a flag
  instead. The enforcement point \<open>checkDomain\<close> is in \<open>Crdt_Store\<close>.
\<close>

record DomainDecision =
  Domain :: string
  Sync :: bool
  GrowOnly :: bool

definition DomainReminders :: string where
  "DomainReminders = ''sql:reminders''"

definition Decisions :: "DomainDecision list" where
  "Decisions =
    [\<lparr>Domain = DomainReminders, Sync = True, GrowOnly = False\<rparr>,
     \<lparr>Domain = ''sql:sessions'', Sync = False, GrowOnly = False\<rparr>,
     \<lparr>Domain = ''sql:users'', Sync = True, GrowOnly = False\<rparr>,
     \<lparr>Domain = ''sql:recovery_blobs'', Sync = False, GrowOnly = False\<rparr>,
     \<lparr>Domain = ''sql:master_key_blobs'', Sync = False, GrowOnly = False\<rparr>,
     \<lparr>Domain = ''sql:local_api_keys'', Sync = False, GrowOnly = False\<rparr>,
     \<lparr>Domain = ''sql:profiles'', Sync = True, GrowOnly = False\<rparr>,
     \<lparr>Domain = ''sql:app_registry'', Sync = False, GrowOnly = False\<rparr>,
     \<lparr>Domain = ''sql:app_desired'', Sync = False, GrowOnly = False\<rparr>,
     \<lparr>Domain = ''sql:storagemode'', Sync = False, GrowOnly = False\<rparr>,
     \<lparr>Domain = ''sql:push_subscriptions'', Sync = False, GrowOnly = False\<rparr>,
     \<lparr>Domain = ''sql:acctsec_sensitive_actions'', Sync = True, GrowOnly = True\<rparr>,
     \<lparr>Domain = ''sql:cgroup_slices'', Sync = False, GrowOnly = False\<rparr>]"

definition SyncableDomains :: "string list" where
  "SyncableDomains = sort (map Domain (filter Sync Decisions))"

definition GrowOnlyDomains :: "string list" where
  "GrowOnlyDomains = sort (map Domain (filter (\<lambda>d. Sync d \<and> GrowOnly d) Decisions))"

definition DecisionFor :: "string \<Rightarrow> DomainDecision option" where
  "DecisionFor domain = find (\<lambda>d. Domain d = domain) Decisions"

definition IsGrowOnly :: "string \<Rightarrow> bool" where
  "IsGrowOnly domain = (case DecisionFor domain of None \<Rightarrow> False | Some d \<Rightarrow> GrowOnly d)"

text \<open>The keys of the map \<open>allowSet\<close> builds; every value in it is \<open>true\<close>.\<close>

definition allowSet :: "string list \<Rightarrow> string list" where
  "allowSet domains = remdups (filter (\<lambda>d. d \<noteq> []) (map TrimSpace domains))"

end
