(* ===== verification/Crdt_Store.thy ===== *)
theory Crdt_Store
  imports Crdt_Types Crdt_Policy
begin

text \<open>
  The replica (\<open>backend/internal/crdtsync/store.go\<close>). The four SQLite tables are the
  record \<open>db\<close>, each table a list of rows with its primary key; a transaction is a
  function on \<open>db\<close> that may fail, and \<open>inTx\<close> keeps the old tables when it does. The
  clock is outside the database, so a failed transaction still leaves it ticked. Every
  exported method is one definition on the whole \<open>Store\<close>, returning its result or
  error together with the new store. A method that writes is one step: it holds the store's
  mutex and runs one transaction on the single connection. \<open>Delta\<close> and \<open>Snapshot\<close> take no lock and
  no transaction and issue several queries; \<open>Store_Delta\<close> and \<open>Store_Snapshot\<close> are what
  they return when nothing is written meanwhile, and \<open>Crdt_Query\<close> has them query by query.
  Sequence numbers and floors are natural numbers; the columns are signed 64 bit integers, so
  the model is exact for numbers below \<open>2 ^ 63\<close>.
  Database I/O itself does not fail in the model; a primary key violation does.
\<close>

subsection \<open>State\<close>

datatype op_row = OpRow (o_key: string) (o_field: string) (o_kind: OpKind) (o_value: bytes)
  (o_wall: int) (o_logical: "32 word")

datatype reg_row = RegRow (r_value: bytes) (r_deleted: bool) (r_stamp: Stamp)

record db =
  crdt_op :: "(string \<times> string \<times> nat, op_row) table"
  crdt_reg :: "(string \<times> string \<times> string, reg_row) table"
  crdt_ctr :: "(string \<times> string \<times> string \<times> string, int \<times> int) table"
  crdt_meta :: "(string \<times> string, nat \<times> nat) table"

definition empty_db :: db where
  "empty_db = \<lparr>crdt_op = [], crdt_reg = [], crdt_ctr = [], crdt_meta = []\<rparr>"

text \<open>
  \<open>allowed\<close> and \<open>growOnly\<close> are Go maps to \<open>true\<close>, kept as the lists of their
  keys. \<open>localChanges\<close> counts the calls of the \<open>onLocalChange\<close> hook.
\<close>

record Store =
  tables :: db
  actor :: string
  clk :: clock
  allowed :: "string list"
  growOnly :: "string list"
  localChanges :: nat

datatype crdt_error =
    ErrActorEmpty
  | ErrAllowEmpty
  | ErrRequired
  | ErrDomainNotAllowed string bool \<comment> \<open>the flag: the recorded reason of a refusal is attached\<close>
  | ErrGrowOnlyViolation string
  | ErrNilDelta
  | ErrNoSnapshot
  | ErrUnknownKind
  | ErrMalformedOp
  | ErrStampActor
  | ErrOpDomain
  | ErrSnapshotSchema
  | ErrCounterPayload
  | ErrKeepNegative
  | ErrPrimaryKey

type_synonym 'a result = "crdt_error + 'a"

definition bindE :: "'a result \<Rightarrow> ('a \<Rightarrow> 'b result) \<Rightarrow> 'b result" where
  "bindE r f = (case r of Inl e \<Rightarrow> Inl e | Inr x \<Rightarrow> f x)"

lemma bindE_Inr_iff [simp]: "bindE r f = Inr y \<longleftrightarrow> (\<exists>x. r = Inr x \<and> f x = Inr y)"
  by (auto simp: bindE_def split: sum.splits)

lemma bindE_simps [simp]: "bindE (Inr x) f = f x" "bindE (Inl e) f = Inl e"
  by (simp_all add: bindE_def)

fun foldE :: "('a \<Rightarrow> 'b \<Rightarrow> 'b result) \<Rightarrow> 'a list \<Rightarrow> 'b \<Rightarrow> 'b result" where
  "foldE f [] s = Inr s"
| "foldE f (x # xs) s = bindE (f x s) (foldE f xs)"

definition checkDomain :: "Store \<Rightarrow> string \<Rightarrow> crdt_error option" where
  "checkDomain s domain =
     (if domain \<in> set (allowed s) then None
      else case DecisionFor domain of
             Some d \<Rightarrow> if \<not> Sync d then Some (ErrDomainNotAllowed domain True)
                       else Some (ErrDomainNotAllowed domain False)
           | None \<Rightarrow> Some (ErrDomainNotAllowed domain False))"

subsection \<open>Statements on the tables\<close>

definition metaFor :: "db \<Rightarrow> string \<Rightarrow> string \<Rightarrow> nat \<times> nat" where
  "metaFor tx domain act = (case map_of (crdt_meta tx) (domain, act) of None \<Rightarrow> (0, 0) | Some p \<Rightarrow> p)"

definition putMeta :: "db \<Rightarrow> string \<Rightarrow> string \<Rightarrow> nat \<Rightarrow> nat \<Rightarrow> db" where
  "putMeta tx domain act seq floor = tx\<lparr>crdt_meta := upsert (domain, act) (seq, floor) (crdt_meta tx)\<rparr>"

definition setSeq :: "db \<Rightarrow> string \<Rightarrow> string \<Rightarrow> nat \<Rightarrow> db" where
  "setSeq tx domain act seq =
     (let (cur, floor) = metaFor tx domain act
      in if seq \<le> cur then tx else putMeta tx domain act seq floor)"

definition op_row_of :: "Op \<Rightarrow> op_row" where
  "op_row_of op = OpRow (op_Key op) (op_Field op) (op_Kind op) (op_Value op)
     (Wall (op_Stamp op)) (Logical (op_Stamp op))"

definition insertOp :: "db \<Rightarrow> Op \<Rightarrow> db result" where
  "insertOp tx op =
     (let k = (op_Domain op, op_Actor op, op_Seq op)
      in if map_of (crdt_op tx) k \<noteq> None then Inl ErrPrimaryKey
         else Inr (tx\<lparr>crdt_op := upsert k (op_row_of op) (crdt_op tx)\<rparr>))"

definition insertOpIfNew :: "db \<Rightarrow> Op \<Rightarrow> db \<times> nat" where
  "insertOpIfNew tx op =
     (let k = (op_Domain op, op_Actor op, op_Seq op)
      in if map_of (crdt_op tx) k \<noteq> None then (tx, 0)
         else (tx\<lparr>crdt_op := upsert k (op_row_of op) (crdt_op tx)\<rparr>, 1))"

definition op_of_row :: "string \<Rightarrow> string \<Rightarrow> nat \<Rightarrow> op_row \<Rightarrow> Op" where
  "op_of_row domain act seq r =
     \<lparr>op_Domain = domain, op_Actor = act, op_Seq = seq, op_Key = o_key r, op_Field = o_field r,
      op_Kind = o_kind r, op_Value = o_value r, op_Stamp = Stamp (o_wall r) (o_logical r) act\<rparr>"

definition opsAfter :: "db \<Rightarrow> string \<Rightarrow> string \<Rightarrow> nat \<Rightarrow> nat \<Rightarrow> Op list" where
  "opsAfter tx domain act after limit =
     take limit (sort_key op_Seq
       (map (\<lambda>((d, a, q), r). op_of_row d a q r)
         (filter (\<lambda>((d, a, q), r). d = domain \<and> a = act \<and> q > after) (crdt_op tx))))"

text \<open>
  The loop of \<open>advanceContiguous\<close>: step while the next sequence number has a log row.
  It ends because the log is finite.
\<close>

function contiguousEnd :: "db \<Rightarrow> string \<Rightarrow> string \<Rightarrow> nat \<Rightarrow> nat" where
  "contiguousEnd tx domain act next =
     (if map_of (crdt_op tx) (domain, act, next + 1) \<noteq> None
      then contiguousEnd tx domain act (next + 1) else next)"
  by pat_completeness auto
termination
proof (relation "measure (\<lambda>(tx, d, a, n). card {q. (d, a, q) \<in> fst ` set (crdt_op tx) \<and> q > n})")
  fix tx :: db and d a :: string and n :: nat
  assume "map_of (crdt_op tx) (d, a, n + 1) \<noteq> None"
  then have mem: "(d, a, n + 1) \<in> fst ` set (crdt_op tx)" by (rule keys_mem [THEN iffD2])
  have "{q. (d, a, q) \<in> fst ` set (crdt_op tx) \<and> q > n} \<subseteq> (\<lambda>(_, _, q). q) ` fst ` set (crdt_op tx)"
    by force
  then have fin: "finite {q. (d, a, q) \<in> fst ` set (crdt_op tx) \<and> q > n}"
    by (rule finite_subset) simp
  have "{q. (d, a, q) \<in> fst ` set (crdt_op tx) \<and> q > n + 1} \<subset>
      {q. (d, a, q) \<in> fst ` set (crdt_op tx) \<and> q > n}" using mem by auto
  from psubset_card_mono [OF fin this]
  show "((tx, d, a, n + 1), (tx, d, a, n)) \<in>
      measure (\<lambda>(tx, d, a, n). card {q. (d, a, q) \<in> fst ` set (crdt_op tx) \<and> q > n})" by simp
qed simp

declare contiguousEnd.simps [simp del]

definition advanceContiguous :: "db \<Rightarrow> string \<Rightarrow> string \<Rightarrow> db" where
  "advanceContiguous tx domain act =
     (let (cur, floor) = metaFor tx domain act; next = contiguousEnd tx domain act cur
      in if next = cur then tx else putMeta tx domain act next floor)"

subsection \<open>The merge rules\<close>

definition registerWins :: "Stamp \<Rightarrow> bool \<Rightarrow> bytes \<Rightarrow> Stamp \<Rightarrow> bool \<Rightarrow> bytes \<Rightarrow> bool" where
  "registerWins inStamp inDeleted inVal curStamp curDeleted curVal =
     (let c = Stamp_Compare inStamp curStamp
      in if c \<noteq> 0 then c > 0
         else if inDeleted \<noteq> curDeleted then \<not> inDeleted
         else cmp3 inVal curVal > 0)"

definition registerWinsIn ::
  "Store \<Rightarrow> string \<Rightarrow> Stamp \<Rightarrow> bool \<Rightarrow> bytes \<Rightarrow> Stamp \<Rightarrow> bool \<Rightarrow> bytes \<Rightarrow> bool" where
  "registerWinsIn s domain inStamp inDeleted inVal curStamp curDeleted curVal =
     (if domain \<in> set (growOnly s) then
        (let c = Stamp_Compare inStamp curStamp
         in if c \<noteq> 0 then c < 0 else cmp3 inVal curVal < 0)
      else registerWins inStamp inDeleted inVal curStamp curDeleted curVal)"

definition mergeRegister ::
  "Store \<Rightarrow> db \<Rightarrow> string \<Rightarrow> string \<Rightarrow> string \<Rightarrow> bytes \<Rightarrow> bool \<Rightarrow> Stamp \<Rightarrow> db" where
  "mergeRegister s tx domain key field val deleted stamp =
     (let write = tx\<lparr>crdt_reg := upsert (domain, key, field)
                        (RegRow (if deleted then [] else val) deleted stamp) (crdt_reg tx)\<rparr>
      in case map_of (crdt_reg tx) (domain, key, field) of
           None \<Rightarrow> write
         | Some cur \<Rightarrow>
             if \<not> registerWinsIn s domain stamp deleted val (r_stamp cur) (r_deleted cur) (r_value cur)
             then tx else write)"

definition max_totals :: "int \<times> int \<Rightarrow> int \<times> int \<Rightarrow> int \<times> int" where
  "max_totals c r = (max (fst c) (fst r), max (snd c) (snd r))"

definition mergeCounter ::
  "db \<Rightarrow> string \<Rightarrow> string \<Rightarrow> string \<Rightarrow> string \<Rightarrow> int \<Rightarrow> int \<Rightarrow> db" where
  "mergeCounter tx domain key field act pos neg =
     tx\<lparr>crdt_ctr := upsert_with max_totals (domain, key, field, act) (pos, neg) (crdt_ctr tx)\<rparr>"

definition encodeCounter :: "int \<Rightarrow> int \<Rightarrow> bytes" where
  "encodeCounter pos neg = FormatInt pos @ '':'' @ FormatInt neg"

definition decodeCounter :: "bytes \<Rightarrow> (int \<times> int) result" where
  "decodeCounter v =
     (case SplitN2 CHR '':'' v of
        (_, None) \<Rightarrow> Inl ErrCounterPayload
      | (a, Some b) \<Rightarrow>
          (case ParseInt a of
             None \<Rightarrow> Inl ErrCounterPayload
           | Some pos \<Rightarrow>
               (case ParseInt b of
                  None \<Rightarrow> Inl ErrCounterPayload
                | Some neg \<Rightarrow> if pos < 0 \<or> neg < 0 then Inl ErrCounterPayload else Inr (pos, neg))))"

definition applyToState :: "Store \<Rightarrow> db \<Rightarrow> Op \<Rightarrow> db result" where
  "applyToState s tx op =
     (case op_Kind op of
        OpSet \<Rightarrow> Inr (mergeRegister s tx (op_Domain op) (op_Key op) (op_Field op) (op_Value op) False (op_Stamp op))
      | OpDel \<Rightarrow> Inr (mergeRegister s tx (op_Domain op) (op_Key op) (op_Field op) [] True (op_Stamp op))
      | OpInc \<Rightarrow> bindE (decodeCounter (op_Value op)) (\<lambda>(pos, neg).
                   Inr (mergeCounter tx (op_Domain op) (op_Key op) (op_Field op) (op_Actor op) pos neg))
      | OtherKind _ \<Rightarrow> Inl ErrUnknownKind)"

subsection \<open>Opening a replica\<close>

definition maxStamp :: "db \<Rightarrow> Stamp option" where
  "maxStamp tx =
     (case map (r_stamp \<circ> snd) (crdt_reg tx) of [] \<Rightarrow> None | st # sts \<Rightarrow> Some (fold max sts st))"

text \<open>\<open>stored\<close> is what the database file holds, empty for a new one.\<close>

definition Open :: "int \<Rightarrow> db \<Rightarrow> string \<Rightarrow> string list \<Rightarrow> Store result" where
  "Open nowMS stored act allowedDomains =
     (if act = [] then Inl ErrActorEmpty
      else let allow = allowSet allowedDomains
           in if allow = [] then Inl ErrAllowEmpty
              else Inr \<lparr>tables = stored, actor = act,
                        clk = (case maxStamp stored of None \<Rightarrow> newClock
                               | Some st \<Rightarrow> observe nowMS st newClock),
                        allowed = allow, growOnly = filter IsGrowOnly allow, localChanges = 0\<rparr>)"

subsection \<open>Local mutations\<close>

definition inTx :: "(db \<Rightarrow> ('a \<times> db) result) \<Rightarrow> bool \<Rightarrow> Store \<Rightarrow> 'a result \<times> Store" where
  "inTx fn fireHook s =
     (case fn (tables s) of
        Inl e \<Rightarrow> (Inl e, s)
      | Inr (x, tx) \<Rightarrow>
          (Inr x, s\<lparr>tables := tx, localChanges := localChanges s + (if fireHook then 1 else 0)\<rparr>))"

definition appendLocal :: "Store \<Rightarrow> db \<Rightarrow> Op \<Rightarrow> db result" where
  "appendLocal s tx op0 =
     (let op = op0\<lparr>op_Seq := fst (metaFor tx (op_Domain op0) (actor s)) + 1\<rparr>
      in bindE (insertOp tx op) (\<lambda>tx1.
         bindE (applyToState s tx1 op) (\<lambda>tx2.
         Inr (setSeq tx2 (op_Domain op) (actor s) (op_Seq op)))))"

definition mkOp :: "Store \<Rightarrow> string \<Rightarrow> string \<Rightarrow> string \<Rightarrow> OpKind \<Rightarrow> bytes \<Rightarrow> Stamp \<Rightarrow> Op" where
  "mkOp s domain key field kind val stamp =
     \<lparr>op_Domain = domain, op_Actor = actor s, op_Seq = 0, op_Key = key, op_Field = field,
      op_Kind = kind, op_Value = val, op_Stamp = stamp\<rparr>"

definition local ::
  "int \<Rightarrow> Store \<Rightarrow> string \<Rightarrow> string \<Rightarrow> string \<Rightarrow> OpKind \<Rightarrow> bytes \<Rightarrow> unit result \<times> Store" where
  "local nowMS s domain key field kind val =
     (if domain = [] \<or> key = [] \<or> field = [] then (Inl ErrRequired, s)
      else case checkDomain s domain of
        Some e \<Rightarrow> (Inl e, s)
      | None \<Rightarrow>
          if kind = OpDel \<and> domain \<in> set (growOnly s) then (Inl (ErrGrowOnlyViolation domain), s)
          else let (stamp, c) = tick nowMS (actor s) (clk s)
               in inTx (\<lambda>tx. bindE (appendLocal s tx (mkOp s domain key field kind val stamp))
                          (\<lambda>tx'. Inr ((), tx'))) True (s\<lparr>clk := c\<rparr>))"

definition Store_Set :: "int \<Rightarrow> Store \<Rightarrow> string \<Rightarrow> string \<Rightarrow> string \<Rightarrow> bytes \<Rightarrow> unit result \<times> Store" where
  "Store_Set nowMS s domain key field val = local nowMS s domain key field OpSet val"

definition Store_Delete :: "int \<Rightarrow> Store \<Rightarrow> string \<Rightarrow> string \<Rightarrow> string \<Rightarrow> unit result \<times> Store" where
  "Store_Delete nowMS s domain key field = local nowMS s domain key field OpDel []"

text \<open>The cumulative totals \<open>Add\<close> puts in its operation: \<open>int64\<close> additions and negation.\<close>

definition addTotals :: "int \<times> int \<Rightarrow> int \<Rightarrow> int \<times> int" where
  "addTotals cur delta =
     (if delta \<ge> 0 then (wrap64 (fst cur + delta), snd cur)
      else (fst cur, wrap64 (snd cur + wrap64 (- delta))))"

definition ownTotals :: "db \<Rightarrow> string \<Rightarrow> string \<Rightarrow> string \<Rightarrow> string \<Rightarrow> int \<times> int" where
  "ownTotals tx domain key field act =
     (case map_of (crdt_ctr tx) (domain, key, field, act) of None \<Rightarrow> (0, 0) | Some p \<Rightarrow> p)"

definition Store_Add :: "int \<Rightarrow> Store \<Rightarrow> string \<Rightarrow> string \<Rightarrow> string \<Rightarrow> int \<Rightarrow> unit result \<times> Store" where
  "Store_Add nowMS s domain key field delta =
     (if domain = [] \<or> key = [] \<or> field = [] then (Inl ErrRequired, s)
      else case checkDomain s domain of
        Some e \<Rightarrow> (Inl e, s)
      | None \<Rightarrow>
          let (stamp, c) = tick nowMS (actor s) (clk s)
          in inTx (\<lambda>tx.
               let (pos, neg) = addTotals (ownTotals tx domain key field (actor s)) delta
               in bindE (appendLocal s tx (mkOp s domain key field OpInc (encodeCounter pos neg) stamp))
                    (\<lambda>tx'. Inr ((), tx'))) True (s\<lparr>clk := c\<rparr>))"

subsection \<open>Reads\<close>

definition Get :: "Store \<Rightarrow> string \<Rightarrow> string \<Rightarrow> string \<Rightarrow> bytes option" where
  "Get s domain key field =
     (case map_of (crdt_reg (tables s)) (domain, key, field) of
        None \<Rightarrow> None
      | Some r \<Rightarrow> if r_deleted r then None else Some (r_value r))"

definition Fields :: "Store \<Rightarrow> string \<Rightarrow> string \<Rightarrow> (string \<times> bytes) list" where
  "Fields s domain key =
     sort_key fst (map (\<lambda>((d, k, f), r). (f, r_value r))
       (filter (\<lambda>((d, k, f), r). d = domain \<and> k = key \<and> \<not> r_deleted r) (crdt_reg (tables s))))"

definition Keys :: "Store \<Rightarrow> string \<Rightarrow> string list" where
  "Keys s domain =
     sort (remdups (map (\<lambda>((d, k, f), r). k)
       (filter (\<lambda>((d, k, f), r). d = domain \<and> \<not> r_deleted r) (crdt_reg (tables s)))))"

definition AllKeys :: "Store \<Rightarrow> string \<Rightarrow> string list" where
  "AllKeys s domain =
     sort (remdups (map (\<lambda>((d, k, f), r). k)
       (filter (\<lambda>((d, k, f), r). d = domain) (crdt_reg (tables s)))))"

definition Counter :: "Store \<Rightarrow> string \<Rightarrow> string \<Rightarrow> string \<Rightarrow> int" where
  "Counter s domain key field =
     foldl (\<lambda>total ((d, k, f, a), (pos, neg)). wrap64 (total + wrap64 (pos - neg))) 0
       (filter (\<lambda>((d, k, f, a), _). d = domain \<and> k = key \<and> f = field) (crdt_ctr (tables s)))"

definition Domains :: "Store \<Rightarrow> string list" where
  "Domains s =
     sort (remdups (map (\<lambda>((d, a), _). d) (crdt_meta (tables s)) @
       map (\<lambda>((d, k, f), _). d) (crdt_reg (tables s)) @
       map (\<lambda>((d, k, f, a), _). d) (crdt_ctr (tables s))))"

definition VersionVector :: "db \<Rightarrow> string \<Rightarrow> VersionVector" where
  "VersionVector tx domain =
     map (\<lambda>((d, a), (q, fl)). (a, q))
       (filter (\<lambda>((d, a), (q, fl)). d = domain \<and> q > 0) (crdt_meta tx))"

definition floors :: "db \<Rightarrow> string \<Rightarrow> (string, nat) table" where
  "floors tx domain =
     map (\<lambda>((d, a), (q, fl)). (a, fl)) (filter (\<lambda>((d, a), (q, fl)). d = domain) (crdt_meta tx))"

definition LogSize :: "Store \<Rightarrow> string \<Rightarrow> nat" where
  "LogSize s domain = length (filter (\<lambda>((d, a, q), _). d = domain) (crdt_op (tables s)))"

subsection \<open>Reconciliation\<close>

definition Store_Snapshot :: "int \<Rightarrow> db \<Rightarrow> string \<Rightarrow> Snapshot" where
  "Store_Snapshot nowMS tx domain =
     \<lparr>sn_Domain = domain, sn_VV = VersionVector tx domain,
      sn_Registers = map (\<lambda>((d, k, f), r).
          \<lparr>rs_Key = k, rs_Field = f, rs_Value = r_value r, rs_Deleted = r_deleted r, rs_Stamp = r_stamp r\<rparr>)
        (sort_key (\<lambda>((d, k, f), r). (k, f)) (filter (\<lambda>((d, k, f), r). d = domain) (crdt_reg tx))),
      sn_Counters = map (\<lambda>((d, k, f, a), (pos, neg)).
          \<lparr>cs_Key = k, cs_Field = f, cs_Actor = a, cs_Pos = pos, cs_Neg = neg\<rparr>)
        (sort_key (\<lambda>((d, k, f, a), _). (k, f, a)) (filter (\<lambda>((d, k, f, a), _). d = domain) (crdt_ctr tx))),
      sn_TakenAtMS = nowMS, sn_SchemaVers = SnapshotSchemaVersion\<rparr>"

definition DefaultDeltaLimit :: int where
  "DefaultDeltaLimit = 2000"

fun deltaOps :: "db \<Rightarrow> string \<Rightarrow> VersionVector \<Rightarrow> VersionVector \<Rightarrow> nat \<Rightarrow> string list \<Rightarrow> Op list \<Rightarrow>
    Op list \<times> bool" where
  "deltaOps tx domain ourVV peerVV limit [] acc = (acc, False)"
| "deltaOps tx domain ourVV peerVV limit (a # as) acc =
     (if vv_get ourVV a \<le> vv_get peerVV a then deltaOps tx domain ourVV peerVV limit as acc
      else let remaining = limit - length acc
           in if remaining = 0 then (acc, True)
              else let ops = opsAfter tx domain a (vv_get peerVV a) (remaining + 1)
                   in if length ops > remaining then (acc @ take remaining ops, True)
                      else deltaOps tx domain ourVV peerVV limit as (acc @ ops))"

definition Store_Delta :: "int \<Rightarrow> Store \<Rightarrow> string \<Rightarrow> VersionVector \<Rightarrow> int \<Rightarrow> Delta result" where
  "Store_Delta nowMS s domain peerVV limit =
     (case checkDomain s domain of
        Some e \<Rightarrow> Inl e
      | None \<Rightarrow>
          let lim = nat (if limit \<le> 0 then DefaultDeltaLimit else limit);
              ourVV = VersionVector (tables s) domain;
              fls = floors (tables s) domain
          in if \<exists>(a, seq) \<in> set ourVV. vv_get peerVV a < vv_get fls a \<and> seq > vv_get peerVV a
             then Inr \<lparr>d_Domain = domain, d_SenderVV = ourVV, d_Ops = [], d_SnapshotRequired = True,
                       d_Snapshot = Some (Store_Snapshot nowMS (tables s) domain), d_Truncated = False\<rparr>
             else let (ops, truncated) =
                    deltaOps (tables s) domain ourVV peerVV lim (sort (map fst ourVV)) []
                  in Inr \<lparr>d_Domain = domain, d_SenderVV = ourVV, d_Ops = ops,
                          d_SnapshotRequired = False, d_Snapshot = None, d_Truncated = truncated\<rparr>)"

text \<open>The clock observes the stamps of a merged payload one by one, each at its own reading.\<close>

fun observeAll :: "(nat \<Rightarrow> int) \<Rightarrow> nat \<Rightarrow> Stamp list \<Rightarrow> clock \<Rightarrow> clock" where
  "observeAll now i [] c = c"
| "observeAll now i (st # sts) c = observeAll now (Suc i) sts (observe (now i) st c)"

definition applySnapshotReg :: "Store \<Rightarrow> string \<Rightarrow> RegisterState \<Rightarrow> db \<Rightarrow> db" where
  "applySnapshotReg s domain r tx =
     mergeRegister s tx domain (rs_Key r) (rs_Field r) (rs_Value r) (rs_Deleted r) (rs_Stamp r)"

definition applySnapshotCtr :: "string \<Rightarrow> CounterState \<Rightarrow> db \<Rightarrow> db" where
  "applySnapshotCtr domain c tx =
     mergeCounter tx domain (cs_Key c) (cs_Field c) (cs_Actor c) (cs_Pos c) (cs_Neg c)"

definition applySnapshotVV :: "string \<Rightarrow> string \<times> nat \<Rightarrow> db \<Rightarrow> db" where
  "applySnapshotVV domain e tx =
     (let (act, seq) = e; (cur, floor) = metaFor tx domain act;
          newSeq = (if seq > cur then seq else cur); newFloor = (if seq > floor then seq else floor);
          tx1 = putMeta tx domain act newSeq newFloor;
          tx2 = tx1\<lparr>crdt_op := delete_where (\<lambda>(d, a, q). d = domain \<and> a = act \<and> q \<le> newFloor) (crdt_op tx1)\<rparr>
      in advanceContiguous tx2 domain act)"

definition ApplySnapshot :: "(nat \<Rightarrow> int) \<Rightarrow> Store \<Rightarrow> Snapshot \<Rightarrow> unit result \<times> Store" where
  "ApplySnapshot now s snap =
     (case checkDomain s (sn_Domain snap) of
        Some e \<Rightarrow> (Inl e, s)
      | None \<Rightarrow>
          if sn_SchemaVers snap > SnapshotSchemaVersion then (Inl ErrSnapshotSchema, s)
          else if sn_Domain snap \<in> set (growOnly s) \<and> (\<exists>r \<in> set (sn_Registers snap). rs_Deleted r)
          then (Inl (ErrGrowOnlyViolation (sn_Domain snap)), s)
          else let (res, s1) = inTx (\<lambda>tx. Inr ((),
                     fold (applySnapshotVV (sn_Domain snap)) (sn_VV snap)
                       (fold (applySnapshotCtr (sn_Domain snap)) (sn_Counters snap)
                         (fold (applySnapshotReg s (sn_Domain snap)) (sn_Registers snap) tx)))) False s
               in (res, s1\<lparr>clk := observeAll now 0 (map rs_Stamp (sn_Registers snap)) (clk s1)\<rparr>))"

fun checkOps :: "Store \<Rightarrow> string \<Rightarrow> Op list \<Rightarrow> crdt_error option" where
  "checkOps s domain [] = None"
| "checkOps s domain (op # ops) =
     (if \<not> Valid (op_Kind op) then Some ErrUnknownKind
      else if op_Actor op = [] \<or> op_Seq op = 0 \<or> op_Key op = [] \<or> op_Field op = [] then Some ErrMalformedOp
      else if Actor (op_Stamp op) \<noteq> op_Actor op then Some ErrStampActor
      else if op_Kind op = OpDel \<and> domain \<in> set (growOnly s) then Some (ErrGrowOnlyViolation domain)
      else if op_Domain op \<noteq> [] \<and> op_Domain op \<noteq> domain then Some ErrOpDomain
      else checkOps s domain ops)"

definition mergeOp :: "Store \<Rightarrow> string \<Rightarrow> Op \<Rightarrow> nat \<times> db \<Rightarrow> (nat \<times> db) result" where
  "mergeOp s domain op0 st =
     (let (applied, tx) = st;
          op = (if op_Domain op0 = [] then op0\<lparr>op_Domain := domain\<rparr> else op0);
          (tx1, n) = insertOpIfNew tx op
      in bindE (applyToState s tx1 op) (\<lambda>tx2. Inr (applied + n, tx2)))"

definition Merge :: "(nat \<Rightarrow> int) \<Rightarrow> Store \<Rightarrow> Delta option \<Rightarrow> nat result \<times> Store" where
  "Merge now s od =
     (case od of
        None \<Rightarrow> (Inl ErrNilDelta, s)
      | Some d \<Rightarrow>
        (case checkDomain s (d_Domain d) of
           Some e \<Rightarrow> (Inl e, s)
         | None \<Rightarrow>
           if d_SnapshotRequired d then
             (case d_Snapshot d of
                None \<Rightarrow> (Inl ErrNoSnapshot, s)
              | Some snap \<Rightarrow>
                  (case ApplySnapshot now s snap of
                     (Inl e, s') \<Rightarrow> (Inl e, s')
                   | (Inr _, s') \<Rightarrow> (Inr (length (sn_Registers snap) + length (sn_Counters snap)), s')))
           else if d_Ops d = [] then (Inr 0, s)
           else
             (case checkOps s (d_Domain d) (d_Ops d) of
                Some e \<Rightarrow> (Inl e, s)
              | None \<Rightarrow>
                  (case inTx (\<lambda>tx. bindE (foldE (mergeOp s (d_Domain d)) (d_Ops d) (0, tx))
                           (\<lambda>(applied, tx'). Inr (applied,
                              fold (\<lambda>a tx. advanceContiguous tx (d_Domain d) a)
                                (remdups (map op_Actor (d_Ops d))) tx'))) False s of
                     (Inl e, s') \<Rightarrow> (Inl e, s')
                   | (Inr n, s') \<Rightarrow>
                       (Inr n, s'\<lparr>clk := observeAll now 0 (map op_Stamp (d_Ops d)) (clk s')\<rparr>)))))"

definition compactActor :: "string \<Rightarrow> int \<Rightarrow> (string \<times> nat \<times> nat) \<Rightarrow> nat \<times> db \<Rightarrow> nat \<times> db" where
  "compactActor domain keepPerActor m st =
     (let (act, seq, floor) = m; (pruned, tx) = st; newFloor = int seq - keepPerActor
      in if newFloor \<le> int floor then st
         else let P = (\<lambda>(d, a, q). d = domain \<and> a = act \<and> q \<le> nat newFloor);
                  n = length (filter (\<lambda>(k, _). P k) (crdt_op tx))
              in (pruned + n,
                  putMeta (tx\<lparr>crdt_op := delete_where P (crdt_op tx)\<rparr>) domain act seq (nat newFloor)))"

definition Compact :: "Store \<Rightarrow> string \<Rightarrow> int \<Rightarrow> nat result \<times> Store" where
  "Compact s domain keepPerActor =
     (if keepPerActor < 0 then (Inl ErrKeepNegative, s)
      else inTx (\<lambda>tx. Inr (fold (compactActor domain keepPerActor)
             (map (\<lambda>((d, a), (q, fl)). (a, q, fl)) (filter (\<lambda>((d, a), _). d = domain) (crdt_meta tx)))
             (0, tx))) False s)"

end
