(* ===== verification/Crdt_Merge.thy ===== *)
theory Crdt_Merge
  imports Crdt_Store
begin

text \<open>
  What the operations of the replica do to one domain. A domain's share of the database is
  four maps (\<open>dreg\<close>, \<open>dctr\<close>, \<open>dlog\<close>, \<open>metaFor\<close>); every operation of
  \<open>Crdt_Store\<close> is characterised on them, the register and counter rules are shown to be
  instances of the interface \<open>merge_lattice\<close>, and order independence, idempotence,
  loss-freedom and the grow-only guarantees follow from that interface.
\<close>

named_theorems view \<open>effect of each operation on the views of a domain\<close>

subsection \<open>Views\<close>

definition dreg :: "string \<Rightarrow> db \<Rightarrow> (string \<times> string \<rightharpoonup> reg_row)" where
  "dreg d tx = (\<lambda>(k, f). map_of (crdt_reg tx) (d, k, f))"

definition dctr :: "string \<Rightarrow> db \<Rightarrow> (string \<times> string \<times> string \<rightharpoonup> int \<times> int)" where
  "dctr d tx = (\<lambda>(k, f, a). map_of (crdt_ctr tx) (d, k, f, a))"

definition dlog :: "string \<Rightarrow> db \<Rightarrow> (string \<times> nat \<rightharpoonup> op_row)" where
  "dlog d tx = (\<lambda>(a, q). map_of (crdt_op tx) (d, a, q))"

text \<open>Tombstones store no value.\<close>

definition norm_rows :: "db \<Rightarrow> bool" where
  "norm_rows tx \<longleftrightarrow> (\<forall>r \<in> snd ` set (crdt_reg tx). r_deleted r \<longrightarrow> r_value r = [])"

lemma norm_rowsD: "norm_rows tx \<Longrightarrow> map_of (crdt_reg tx) k = Some r \<Longrightarrow> r_deleted r \<Longrightarrow> r_value r = []"
  by (force simp: norm_rows_def dest: map_of_SomeD)

subsection \<open>The register and counter rules as merge lattices\<close>

definition row_wins :: "bool \<Rightarrow> reg_row \<Rightarrow> reg_row \<Rightarrow> bool" where
  "row_wins go r c =
     (if go then r_stamp r < r_stamp c \<or> r_stamp r = r_stamp c \<and> r_value r < r_value c
      else r_stamp c < r_stamp r \<or> r_stamp r = r_stamp c \<and>
        (r_deleted c \<and> \<not> r_deleted r \<or> r_deleted r = r_deleted c \<and> r_value c < r_value r))"

definition reg_ok :: "bool \<Rightarrow> reg_row \<Rightarrow> bool" where
  "reg_ok go r \<longleftrightarrow> (go \<longrightarrow> \<not> r_deleted r)"

definition reg_le :: "bool \<Rightarrow> reg_row \<Rightarrow> reg_row \<Rightarrow> bool" where
  "reg_le go r c \<longleftrightarrow> \<not> row_wins go r c"

definition reg_merge :: "bool \<Rightarrow> reg_row \<Rightarrow> reg_row \<Rightarrow> reg_row" where
  "reg_merge go c r = (if row_wins go r c then r else c)"

definition ctr_le :: "int \<times> int \<Rightarrow> int \<times> int \<Rightarrow> bool" where
  "ctr_le p q \<longleftrightarrow> fst p \<le> fst q \<and> snd p \<le> snd q"

lemma reg_le_trans: "reg_le go a b \<Longrightarrow> reg_le go b c \<Longrightarrow> reg_le go a c"
  by (auto simp: reg_le_def row_wins_def split: if_splits)

lemma reg_le_total: "reg_le go a b \<or> reg_le go b a"
  by (auto simp: reg_le_def row_wins_def)

interpretation reg: merge_lattice "reg_ok go" "reg_le go" "reg_merge go" for go
proof
  fix a b c :: reg_row
  show "reg_le go a a" by (simp add: reg_le_def row_wins_def)
  show "reg_le go a b \<Longrightarrow> reg_le go b c \<Longrightarrow> reg_le go a c" by (rule reg_le_trans)
  show "reg_ok go a \<Longrightarrow> reg_ok go b \<Longrightarrow> reg_le go a b \<Longrightarrow> reg_le go b a \<Longrightarrow> a = b"
    by (cases a; cases b; cases go)
      (auto simp: reg_ok_def reg_le_def row_wins_def split: if_splits)
  show "reg_ok go a \<Longrightarrow> reg_ok go b \<Longrightarrow> reg_ok go (reg_merge go a b)"
    by (simp add: reg_merge_def)
  show "reg_le go (reg_merge go a b) c \<longleftrightarrow> reg_le go a c \<and> reg_le go b c"
    using reg_le_trans [of go a b c] reg_le_trans [of go b a c] reg_le_total [of go a b]
    by (auto simp: reg_merge_def reg_le_def)
qed

interpretation ctr: merge_lattice "\<lambda>_. True" ctr_le max_totals
  by unfold_locales (auto simp: ctr_le_def max_totals_def prod_eq_iff)

definition is_go :: "Store \<Rightarrow> string \<Rightarrow> bool" where
  "is_go s d \<longleftrightarrow> d \<in> set (growOnly s)"

definition mk_row :: "bytes \<Rightarrow> bool \<Rightarrow> Stamp \<Rightarrow> reg_row" where
  "mk_row v del st = RegRow (if del then [] else v) del st"

lemma registerWinsIn_row_wins:
  "registerWinsIn s d st del v (r_stamp c) (r_deleted c) (r_value c) = row_wins (is_go s d) (RegRow v del st) c"
  by (auto simp: registerWinsIn_def registerWins_def row_wins_def is_go_def Stamp_Compare_cmp3 Let_def)

lemma mergeRegister_upsert_with:
  assumes "norm_rows tx" and "is_go s d \<longrightarrow> \<not> del"
  shows "mergeRegister s tx d k f v del st =
    tx\<lparr>crdt_reg := upsert_with (reg_merge (is_go s d)) (d, k, f) (mk_row v del st) (crdt_reg tx)\<rparr>"
proof (cases "map_of (crdt_reg tx) (d, k, f)")
  case None
  then show ?thesis by (simp add: mergeRegister_def upsert_with_def mk_row_def)
next
  case (Some c)
  have n: "r_deleted c \<longrightarrow> r_value c = []" using norm_rowsD [OF assms(1) Some] by blast
  have triv: "upsert (d, k, f) c (crdt_reg tx) = crdt_reg tx"
    using Some by (simp add: upsert_def AList.update_triv)
  have "row_wins (is_go s d) (RegRow v del st) c \<Longrightarrow> \<not> row_wins (is_go s d) (mk_row v del st) c \<Longrightarrow>
      mk_row v del st = c"
    using n assms(2) by (cases c) (auto simp: row_wins_def mk_row_def split: if_splits)
  moreover have "row_wins (is_go s d) (mk_row v del st) c \<Longrightarrow> row_wins (is_go s d) (RegRow v del st) c"
    using n assms(2) by (cases c) (auto simp: row_wins_def mk_row_def split: if_splits)
  ultimately show ?thesis using Some triv
    by (auto simp: mergeRegister_def upsert_with_def reg_merge_def registerWinsIn_row_wins
        mk_row_def [symmetric])
qed

subsection \<open>Effects of the statements on the views\<close>

text \<open>What an operation on domain \<open>d\<close> leaves alone: everything in other domains.\<close>

definition same_outside :: "string \<Rightarrow> db \<Rightarrow> db \<Rightarrow> bool" where
  "same_outside d tx tx' \<longleftrightarrow> (\<forall>d'. d' \<noteq> d \<longrightarrow> dreg d' tx' = dreg d' tx \<and> dctr d' tx' = dctr d' tx \<and>
     dlog d' tx' = dlog d' tx \<and> (\<forall>a. metaFor tx' d' a = metaFor tx d' a))"

lemma same_outside_refl [simp]: "same_outside d tx tx"
  by (simp add: same_outside_def)

lemma same_outside_trans: "same_outside d tx ty \<Longrightarrow> same_outside d ty tz \<Longrightarrow> same_outside d tx tz"
  by (simp add: same_outside_def)

lemma mergeRegister_frame [simp]:
  "crdt_op (mergeRegister s tx d k f v del st) = crdt_op tx"
  "crdt_ctr (mergeRegister s tx d k f v del st) = crdt_ctr tx"
  "crdt_meta (mergeRegister s tx d k f v del st) = crdt_meta tx"
  by (auto simp: mergeRegister_def Let_def split: option.splits)

lemma mergeCounter_frame [simp]:
  "crdt_op (mergeCounter tx d k f a p n) = crdt_op tx"
  "crdt_reg (mergeCounter tx d k f a p n) = crdt_reg tx"
  "crdt_meta (mergeCounter tx d k f a p n) = crdt_meta tx"
  by (auto simp: mergeCounter_def)

lemma putMeta_frame [simp]:
  "crdt_op (putMeta tx d a q fl) = crdt_op tx"
  "crdt_reg (putMeta tx d a q fl) = crdt_reg tx"
  "crdt_ctr (putMeta tx d a q fl) = crdt_ctr tx"
  by (auto simp: putMeta_def)

lemma insertOpIfNew_frame [simp]:
  "crdt_reg (fst (insertOpIfNew tx op)) = crdt_reg tx"
  "crdt_ctr (fst (insertOpIfNew tx op)) = crdt_ctr tx"
  "crdt_meta (fst (insertOpIfNew tx op)) = crdt_meta tx"
  by (auto simp: insertOpIfNew_def Let_def)

lemma views_cong:
  "crdt_reg tx = crdt_reg ty \<Longrightarrow> dreg d tx = dreg d ty"
  "crdt_ctr tx = crdt_ctr ty \<Longrightarrow> dctr d tx = dctr d ty"
  "crdt_op tx = crdt_op ty \<Longrightarrow> dlog d tx = dlog d ty"
  "crdt_meta tx = crdt_meta ty \<Longrightarrow> metaFor tx d a = metaFor ty d a"
  "crdt_reg tx = crdt_reg ty \<Longrightarrow> norm_rows tx = norm_rows ty"
  by (auto simp: dreg_def dctr_def dlog_def metaFor_def norm_rows_def)

lemma metaFor_putMeta [view]:
  "metaFor (putMeta tx d a q fl) d' a' = (if d' = d \<and> a' = a then (q, fl) else metaFor tx d' a')"
  by (auto simp: metaFor_def putMeta_def tbl)

lemma dreg_mergeRegister [view]:
  assumes "norm_rows tx" and "is_go s d \<longrightarrow> \<not> del"
  shows "dreg d' (mergeRegister s tx d k f v del st) =
    (if d' = d then merge_map (reg_merge (is_go s d)) [((k, f), mk_row v del st)] (dreg d tx) else dreg d' tx)"
  unfolding mergeRegister_upsert_with [OF assms]
  by (auto simp: dreg_def tbl fun_eq_iff)

lemma norm_rows_mergeRegister:
  assumes "norm_rows tx"
  shows "norm_rows (mergeRegister s tx d k f v del st)"
  using assms rows_upsert [of "(d, k, f)" "RegRow (if del then [] else v) del st" "crdt_reg tx"]
  by (fastforce simp: mergeRegister_def norm_rows_def Let_def split: option.splits if_splits)

lemma dctr_mergeCounter [view]:
  "dctr d' (mergeCounter tx d k f a p n) =
    (if d' = d then merge_map max_totals [((k, f, a), (p, n))] (dctr d tx) else dctr d' tx)"
  by (auto simp: dctr_def mergeCounter_def tbl fun_eq_iff)

definition keep_first :: "'v \<Rightarrow> 'v \<Rightarrow> 'v" where
  "keep_first c r = c"

definition op_log :: "Op \<Rightarrow> (string \<times> nat) \<times> op_row" where
  "op_log op = ((op_Actor op, op_Seq op), op_row_of op)"

lemma dlog_insertOpIfNew [view]:
  "dlog d' (fst (insertOpIfNew tx op)) =
    (if d' = op_Domain op then merge_map keep_first [op_log op] (dlog d' tx) else dlog d' tx)"
  by (auto simp: dlog_def insertOpIfNew_def Let_def tbl fun_eq_iff op_log_def keep_first_def)

subsection \<open>Operations as entries\<close>

text \<open>The register rows and counter totals an operation contributes to its domain.\<close>

definition op_regs :: "Op \<Rightarrow> ((string \<times> string) \<times> reg_row) list" where
  "op_regs op = (case op_Kind op of
      OpSet \<Rightarrow> [((op_Key op, op_Field op), RegRow (op_Value op) False (op_Stamp op))]
    | OpDel \<Rightarrow> [((op_Key op, op_Field op), RegRow [] True (op_Stamp op))]
    | _ \<Rightarrow> [])"

definition op_ctrs :: "Op \<Rightarrow> ((string \<times> string \<times> string) \<times> (int \<times> int)) list" where
  "op_ctrs op = (case op_Kind op of
      OpInc \<Rightarrow> (case decodeCounter (op_Value op) of
                 Inl _ \<Rightarrow> [] | Inr p \<Rightarrow> [((op_Key op, op_Field op, op_Actor op), p)])
    | _ \<Rightarrow> [])"

definition op_applies :: "Op \<Rightarrow> bool" where
  "op_applies op = (case op_Kind op of
      OpInc \<Rightarrow> (case decodeCounter (op_Value op) of Inl _ \<Rightarrow> False | Inr _ \<Rightarrow> True)
    | OtherKind _ \<Rightarrow> False | _ \<Rightarrow> True)"

lemma applyToState_applies: "(\<exists>tx'. applyToState s tx op = Inr tx') \<longleftrightarrow> op_applies op"
  by (auto simp: applyToState_def op_applies_def split: OpKind.splits sum.splits)

lemma applyToState_effect:
  assumes "applyToState s tx op = Inr tx'" "norm_rows tx"
    and "is_go s (op_Domain op) \<longrightarrow> op_Kind op \<noteq> OpDel"
  shows "dreg d tx' = (if d = op_Domain op
      then merge_map (reg_merge (is_go s d)) (op_regs op) (dreg d tx) else dreg d tx)"
    and "dctr d tx' = (if d = op_Domain op then merge_map max_totals (op_ctrs op) (dctr d tx) else dctr d tx)"
    and "norm_rows tx'" "crdt_op tx' = crdt_op tx" "crdt_meta tx' = crdt_meta tx"
  using assms
  by (auto simp: applyToState_def op_regs_def op_ctrs_def view mk_row_def norm_rows_mergeRegister
      views_cong(5) [OF mergeCounter_frame(2)]
      intro: views_cong split: OpKind.splits option.splits)

subsection \<open>The contiguous run\<close>

lemma dlog_iff: "map_of (crdt_op tx) (d, a, q) = dlog d tx (a, q)"
  by (simp add: dlog_def)

lemma contiguousEnd_unfold:
  "contiguousEnd tx d a n = (if dlog d tx (a, Suc n) \<noteq> None then contiguousEnd tx d a (Suc n) else n)"
  by (subst contiguousEnd.simps) (simp add: dlog_iff)

lemma contiguousEnd_ge: "n \<le> contiguousEnd tx d a n"
proof (induction tx d a n rule: contiguousEnd.induct)
  case (1 tx d a n)
  then show ?case by (subst contiguousEnd.simps) auto
qed

lemma contiguousEnd_stop: "dlog d tx (a, Suc (contiguousEnd tx d a n)) = None"
proof (induction tx d a n rule: contiguousEnd.induct)
  case (1 tx d a n)
  then show ?case by (subst contiguousEnd_unfold) (auto simp: dlog_iff)
qed

lemma contiguousEnd_rows: "n < q \<Longrightarrow> q \<le> contiguousEnd tx d a n \<Longrightarrow> dlog d tx (a, q) \<noteq> None"
proof (induction tx d a n rule: contiguousEnd.induct)
  case (1 tx d a n)
  show ?case
  proof (cases "dlog d tx (a, Suc n) \<noteq> None")
    case True
    then show ?thesis using 1 contiguousEnd_unfold [of tx d a n]
      by (cases "q = Suc n") (auto simp: dlog_iff)
  next
    case False
    then show ?thesis using 1 contiguousEnd_unfold [of tx d a n] by simp
  qed
qed

lemma contiguousEnd_stuck: "dlog d tx (a, Suc n) = None \<Longrightarrow> contiguousEnd tx d a n = n"
  by (subst contiguousEnd_unfold) simp

lemma contiguousEnd_cong:
  "(\<And>q. dlog d tx (a, q) = dlog d ty (a, q)) \<Longrightarrow> contiguousEnd tx d a n = contiguousEnd ty d a n"
proof (induction tx d a n rule: contiguousEnd.induct)
  case (1 tx d a n)
  then show ?case
    using contiguousEnd_unfold [of tx d a n] contiguousEnd_unfold [of ty d a n]
    by (auto simp: dlog_iff)
qed

lemma contiguousEnd_reaches:
  assumes "n \<le> m" "\<And>q. n < q \<Longrightarrow> q \<le> m \<Longrightarrow> dlog d tx (a, q) \<noteq> None"
  shows "m \<le> contiguousEnd tx d a n"
proof (rule ccontr)
  assume "\<not> m \<le> contiguousEnd tx d a n"
  then show False using assms(2) [of "Suc (contiguousEnd tx d a n)"] contiguousEnd_ge [of n tx d a]
    contiguousEnd_stop [of d tx a n] by auto
qed

lemma advanceContiguous_frame [simp]:
  "crdt_op (advanceContiguous tx d a) = crdt_op tx"
  "crdt_reg (advanceContiguous tx d a) = crdt_reg tx"
  "crdt_ctr (advanceContiguous tx d a) = crdt_ctr tx"
  by (auto simp: advanceContiguous_def Let_def split: prod.splits)

lemma metaFor_advanceContiguous [view]:
  "metaFor (advanceContiguous tx d a) d' a' =
    (if d' = d \<and> a' = a then (contiguousEnd tx d a (fst (metaFor tx d a)), snd (metaFor tx d a))
     else metaFor tx d' a')"
  by (auto simp: advanceContiguous_def Let_def view split: prod.splits)

lemma contiguousEnd_idem: "contiguousEnd tx d a (contiguousEnd tx d a n) = contiguousEnd tx d a n"
  by (rule contiguousEnd_stuck [OF contiguousEnd_stop])

lemma advanceContiguous_dlog: "dlog d' (advanceContiguous tx d a) = dlog d' tx"
  by (rule views_cong) simp

lemma fold_advance:
  defines "adv \<equiv> \<lambda>d. fold (\<lambda>a tx. advanceContiguous tx d a)"
  shows "crdt_op (adv d as tx) = crdt_op tx" "crdt_reg (adv d as tx) = crdt_reg tx"
    "crdt_ctr (adv d as tx) = crdt_ctr tx"
    "metaFor (adv d as tx) d' a' =
      (if d' = d \<and> a' \<in> set as then (contiguousEnd tx d a' (fst (metaFor tx d a')), snd (metaFor tx d a'))
       else metaFor tx d' a')"
proof -
  show "crdt_op (adv d as tx) = crdt_op tx" "crdt_reg (adv d as tx) = crdt_reg tx"
    "crdt_ctr (adv d as tx) = crdt_ctr tx"
    unfolding adv_def by (induction as arbitrary: tx) auto
  have c: "contiguousEnd (advanceContiguous tx d a) d b n = contiguousEnd tx d b n" for tx a b n
    by (rule contiguousEnd_cong) (simp add: advanceContiguous_dlog)
  show "metaFor (adv d as tx) d' a' =
      (if d' = d \<and> a' \<in> set as then (contiguousEnd tx d a' (fst (metaFor tx d a')), snd (metaFor tx d a'))
       else metaFor tx d' a')"
    unfolding adv_def
    by (induction as arbitrary: tx) (auto simp: view c contiguousEnd_idem)
qed

subsection \<open>Merging a delta\<close>

lemma checkOps_None_iff:
  "checkOps s d ops = None \<longleftrightarrow> (\<forall>op \<in> set ops. Valid (op_Kind op) \<and> op_Actor op \<noteq> [] \<and> op_Seq op \<noteq> 0 \<and>
     op_Key op \<noteq> [] \<and> op_Field op \<noteq> [] \<and> Actor (op_Stamp op) = op_Actor op \<and>
     \<not> (op_Kind op = OpDel \<and> is_go s d) \<and> (op_Domain op = [] \<or> op_Domain op = d))"
  by (induction ops) (auto simp: is_go_def)

abbreviation regs_of :: "Op list \<Rightarrow> ((string \<times> string) \<times> reg_row) list" where
  "regs_of ops \<equiv> concat (map op_regs ops)"

abbreviation ctrs_of :: "Op list \<Rightarrow> ((string \<times> string \<times> string) \<times> (int \<times> int)) list" where
  "ctrs_of ops \<equiv> concat (map op_ctrs ops)"

lemma mergeOp_effect:
  assumes "mergeOp s d op (n, tx) = Inr (n', tx')" "norm_rows tx"
    and "op_Domain op = [] \<or> op_Domain op = d" "is_go s d \<longrightarrow> op_Kind op \<noteq> OpDel"
  shows "dreg d tx' = merge_map (reg_merge (is_go s d)) (op_regs op) (dreg d tx)"
    and "dctr d tx' = merge_map max_totals (op_ctrs op) (dctr d tx)"
    and "dlog d tx' = merge_map keep_first [op_log op] (dlog d tx)"
    and "norm_rows tx'" "crdt_meta tx' = crdt_meta tx" "same_outside d tx tx'"
proof -
  define op' where "op' = (if op_Domain op = [] then op\<lparr>op_Domain := d\<rparr> else op)"
  have d: "op_Domain op' = d" "op_regs op' = op_regs op" "op_ctrs op' = op_ctrs op"
    "op_log op' = op_log op" "op_Kind op' = op_Kind op"
    using assms(3) by (auto simp: op'_def op_regs_def op_ctrs_def op_log_def op_row_of_def
        split: OpKind.splits sum.splits)
  define t1 where "t1 = fst (insertOpIfNew tx op')"
  have ap: "applyToState s t1 op' = Inr tx'"
    using assms(1) by (auto simp: mergeOp_def t1_def op'_def Let_def split: prod.splits)
  have fr: "crdt_reg t1 = crdt_reg tx" "crdt_ctr t1 = crdt_ctr tx" "crdt_meta t1 = crdt_meta tx"
    by (simp_all add: t1_def)
  have n1: "norm_rows t1" using assms(2) views_cong(5) [OF fr(1)] by simp
  have go: "is_go s (op_Domain op') \<longrightarrow> op_Kind op' \<noteq> OpDel" using assms(4) d by simp
  note ef = applyToState_effect [OF ap n1 go]
  note vc = views_cong(1) [OF fr(1)] views_cong(2) [OF fr(2)]
  show "dreg d tx' = merge_map (reg_merge (is_go s d)) (op_regs op) (dreg d tx)"
    using ef(1) [of d] d vc by simp
  show "dctr d tx' = merge_map max_totals (op_ctrs op) (dctr d tx)"
    using ef(2) [of d] d vc by simp
  have lg: "dlog d' tx' = dlog d' t1" for d' using ef(4) by (rule views_cong)
  show "dlog d tx' = merge_map keep_first [op_log op] (dlog d tx)"
    using dlog_insertOpIfNew [of d tx op'] d lg by (simp add: t1_def)
  show "norm_rows tx'" "crdt_meta tx' = crdt_meta tx" using ef(3,5) fr by simp_all
  then show "same_outside d tx tx'"
    using ef(1,2) d vc lg dlog_insertOpIfNew [of _ tx op'] views_cong(4) [of tx' tx]
    by (auto simp: same_outside_def t1_def)
qed

lemma foldE_mergeOp_effect:
  assumes "foldE (mergeOp s d) ops (n, tx) = Inr (n', tx')" "norm_rows tx" "checkOps s d ops = None"
  shows "dreg d tx' = merge_map (reg_merge (is_go s d)) (regs_of ops) (dreg d tx) \<and>
    dctr d tx' = merge_map max_totals (ctrs_of ops) (dctr d tx) \<and>
    dlog d tx' = merge_map keep_first (map op_log ops) (dlog d tx) \<and>
    norm_rows tx' \<and> crdt_meta tx' = crdt_meta tx \<and> same_outside d tx tx'"
  using assms
proof (induction ops arbitrary: n tx)
  case (Cons op ops)
  obtain m ty where ty: "mergeOp s d op (n, tx) = Inr (m, ty)"
      "foldE (mergeOp s d) ops (m, ty) = Inr (n', tx')"
    using Cons.prems(1) by (auto simp: bindE_def split: sum.splits)
  have ck: "op_Domain op = [] \<or> op_Domain op = d" "is_go s d \<longrightarrow> op_Kind op \<noteq> OpDel"
      "checkOps s d ops = None"
    using Cons.prems(3) [unfolded checkOps_None_iff] by (auto simp: checkOps_None_iff)
  note ef = mergeOp_effect [OF ty(1) Cons.prems(2) ck(1,2)]
  show ?case using Cons.IH [OF ty(2) ef(4) ck(3)] ef
    by (auto simp: merge_map_append intro: same_outside_trans) (cases "op_log op", simp)
qed simp

lemma inTx_simps:
  "inTx fn h s = (Inr x, s') \<longleftrightarrow> (\<exists>tx. fn (tables s) = Inr (x, tx) \<and>
     s' = s\<lparr>tables := tx, localChanges := localChanges s + (if h then 1 else 0)\<rparr>)"
  "inTx fn h s = (Inl e, s') \<longleftrightarrow> fn (tables s) = Inl e \<and> s' = s"
  by (auto simp: inTx_def split: sum.splits)

lemma Merge_ops_cases:
  assumes "Merge now s (Some dl) = (Inr n, s')" "\<not> d_SnapshotRequired dl"
  obtains m tx where "checkOps s (d_Domain dl) (d_Ops dl) = None"
    "d_Domain dl \<in> set (allowed s)"
    "foldE (mergeOp s (d_Domain dl)) (d_Ops dl) (0, tables s) = Inr (m, tx)"
    "tables s' = fold (\<lambda>a tx. advanceContiguous tx (d_Domain dl) a) (remdups (map op_Actor (d_Ops dl))) tx"
    "actor s' = actor s" "allowed s' = allowed s" "growOnly s' = growOnly s" "n = m"
    "clk s' = observeAll now 0 (map op_Stamp (d_Ops dl)) (clk s)"
proof -
  have al: "d_Domain dl \<in> set (allowed s)"
    using assms by (auto simp: Merge_def checkDomain_def split: if_splits option.splits)
  show thesis
  proof (cases "d_Ops dl = []")
    case True
    then show thesis using assms al that [of 0 "tables s"]
      by (auto simp: Merge_def split: option.splits if_splits)
  next
    case False
    then show thesis using assms al that
      by (auto simp: Merge_def inTx_simps split: option.splits if_splits prod.splits sum.splits)
  qed
qed

lemma Merge_ops_effect:
  assumes "Merge now s (Some dl) = (Inr n, s')" "\<not> d_SnapshotRequired dl" "norm_rows (tables s)"
  defines "d \<equiv> d_Domain dl" and "ops \<equiv> d_Ops dl"
  shows "dreg d (tables s') = merge_map (reg_merge (is_go s d)) (regs_of ops) (dreg d (tables s))"
    and "dctr d (tables s') = merge_map max_totals (ctrs_of ops) (dctr d (tables s))"
    and "dlog d (tables s') = merge_map keep_first (map op_log ops) (dlog d (tables s))"
    and "metaFor (tables s') d a = (if a \<in> op_Actor ` set ops
      then (contiguousEnd (tables s') d a (fst (metaFor (tables s) d a)), snd (metaFor (tables s) d a))
      else metaFor (tables s) d a)"
    and "norm_rows (tables s')" "same_outside d (tables s) (tables s')"
proof -
  obtain m tx where tx: "checkOps s d ops = None" "foldE (mergeOp s d) ops (0, tables s) = Inr (m, tx)"
      "tables s' = fold (\<lambda>a tx. advanceContiguous tx d a) (remdups (map op_Actor ops)) tx"
    using Merge_ops_cases [OF assms(1,2)] unfolding d_def ops_def by metis
  note fa = fold_advance [of d "remdups (map op_Actor ops)" tx, folded tx(3)]
  note ef = foldE_mergeOp_effect [OF tx(2) assms(3) tx(1)]
  show "dreg d (tables s') = merge_map (reg_merge (is_go s d)) (regs_of ops) (dreg d (tables s))"
    "dctr d (tables s') = merge_map max_totals (ctrs_of ops) (dctr d (tables s))"
    "dlog d (tables s') = merge_map keep_first (map op_log ops) (dlog d (tables s))"
    "norm_rows (tables s')"
    using ef views_cong(1) [OF fa(2)] views_cong(2) [OF fa(3)] views_cong(3) [OF fa(1)]
      views_cong(5) [OF fa(2)] by auto
  have me: "metaFor tx d' b = metaFor (tables s) d' b" for d' b using ef by (intro views_cong(4)) auto
  have "contiguousEnd (tables s') d a q = contiguousEnd tx d a q" for q
    by (rule contiguousEnd_cong) (simp add: views_cong(3) [OF fa(1)])
  then show "metaFor (tables s') d a = (if a \<in> op_Actor ` set ops
      then (contiguousEnd (tables s') d a (fst (metaFor (tables s) d a)), snd (metaFor (tables s) d a))
      else metaFor (tables s) d a)"
    using fa(4) [of d a] me by auto
  have "same_outside d tx (tables s')"
    using fa(4) views_cong(1) [OF fa(2)] views_cong(2) [OF fa(3)] views_cong(3) [OF fa(1)]
    by (auto simp: same_outside_def)
  then show "same_outside d (tables s) (tables s')" using ef same_outside_trans by blast
qed

subsection \<open>Applying a snapshot\<close>

definition snap_reg :: "RegisterState \<Rightarrow> (string \<times> string) \<times> reg_row" where
  "snap_reg r = ((rs_Key r, rs_Field r), mk_row (rs_Value r) (rs_Deleted r) (rs_Stamp r))"

definition snap_ctr :: "CounterState \<Rightarrow> (string \<times> string \<times> string) \<times> (int \<times> int)" where
  "snap_ctr c = ((cs_Key c, cs_Field c, cs_Actor c), (cs_Pos c, cs_Neg c))"

lemma fold_applySnapshotReg:
  assumes "norm_rows tx" "\<forall>r \<in> set rs. is_go s d \<longrightarrow> \<not> rs_Deleted r"
  defines "ty \<equiv> fold (applySnapshotReg s d) rs tx"
  shows "dreg d ty = merge_map (reg_merge (is_go s d)) (map snap_reg rs) (dreg d tx) \<and>
    (\<forall>d'. d' \<noteq> d \<longrightarrow> dreg d' ty = dreg d' tx) \<and> norm_rows ty \<and>
    crdt_ctr ty = crdt_ctr tx \<and> crdt_op ty = crdt_op tx \<and> crdt_meta ty = crdt_meta tx"
  using assms(1,2) unfolding ty_def
  by (induction rs arbitrary: tx)
    (auto simp: applySnapshotReg_def snap_reg_def view norm_rows_mergeRegister)

lemma fold_applySnapshotCtr:
  fixes d :: string and cs :: "CounterState list"
  defines "ty \<equiv> \<lambda>tx. fold (applySnapshotCtr d) cs tx"
  shows "dctr d (ty tx) = merge_map max_totals (map snap_ctr cs) (dctr d tx) \<and>
    (\<forall>d'. d' \<noteq> d \<longrightarrow> dctr d' (ty tx) = dctr d' tx) \<and>
    crdt_reg (ty tx) = crdt_reg tx \<and> crdt_op (ty tx) = crdt_op tx \<and> crdt_meta (ty tx) = crdt_meta tx"
  unfolding ty_def
  by (induction cs arbitrary: tx) (auto simp: applySnapshotCtr_def snap_ctr_def view)

lemma applySnapshotVV_effect:
  fixes d a :: string and q :: nat
  defines "ty \<equiv> \<lambda>tx. applySnapshotVV d (a, q) tx"
  shows "crdt_reg (ty tx) = crdt_reg tx" "crdt_ctr (ty tx) = crdt_ctr tx"
    "dlog d' (ty tx) (b, n) = (if d' = d \<and> b = a \<and> n \<le> max q (snd (metaFor tx d a)) then None else dlog d' tx (b, n))"
    "metaFor (ty tx) d' b = (if d' = d \<and> b = a
      then (contiguousEnd (ty tx) d a (max q (fst (metaFor tx d a))), max q (snd (metaFor tx d a)))
      else metaFor tx d' b)"
proof -
  obtain cur fl where m: "metaFor tx d a = (cur, fl)" by (cases "metaFor tx d a")
  define t2 where "t2 = (putMeta tx d a (max q cur) (max q fl))\<lparr>crdt_op :=
    delete_where (\<lambda>(d'', a', n). d'' = d \<and> a' = a \<and> n \<le> max q fl) (crdt_op tx)\<rparr>"
  have ty: "ty tx = advanceContiguous t2 d a"
    by (simp add: ty_def applySnapshotVV_def m Let_def t2_def max_def not_less)
  show "crdt_reg (ty tx) = crdt_reg tx" "crdt_ctr (ty tx) = crdt_ctr tx"
    by (simp_all add: ty t2_def putMeta_def)
  have l: "dlog d' t2 (b, n) = (if d' = d \<and> b = a \<and> n \<le> max q fl then None else dlog d' tx (b, n))" for d' b n
    by (auto simp: dlog_def t2_def tbl)
  then show "dlog d' (ty tx) (b, n) = (if d' = d \<and> b = a \<and> n \<le> max q (snd (metaFor tx d a)) then None
      else dlog d' tx (b, n))"
    by (simp add: ty advanceContiguous_dlog m)
  have mm: "metaFor t2 d' b = (if d' = d \<and> b = a then (max q cur, max q fl) else metaFor tx d' b)" for d' b
    by (auto simp: t2_def metaFor_def putMeta_def tbl)
  have "contiguousEnd (ty tx) d a n = contiguousEnd t2 d a n" for n
    unfolding ty by (rule contiguousEnd_cong) (simp add: advanceContiguous_dlog)
  then show "metaFor (ty tx) d' b = (if d' = d \<and> b = a
      then (contiguousEnd (ty tx) d a (max q (fst (metaFor tx d a))), max q (snd (metaFor tx d a)))
      else metaFor tx d' b)"
    by (auto simp: ty view mm m)
qed

lemma fold_applySnapshotVV:
  assumes "unique_keys vv"
  defines "ty \<equiv> \<lambda>d tx. fold (applySnapshotVV d) vv tx"
  shows "crdt_reg (ty d tx) = crdt_reg tx \<and> crdt_ctr (ty d tx) = crdt_ctr tx \<and>
    (\<forall>d' b n. dlog d' (ty d tx) (b, n) = (case map_of vv b of
        None \<Rightarrow> dlog d' tx (b, n)
      | Some q \<Rightarrow> if d' = d \<and> n \<le> max q (snd (metaFor tx d b)) then None else dlog d' tx (b, n))) \<and>
    (\<forall>d' b. metaFor (ty d tx) d' b = (if d' \<noteq> d then metaFor tx d' b else case map_of vv b of
        None \<Rightarrow> metaFor tx d b
      | Some q \<Rightarrow> (contiguousEnd (ty d tx) d b (max q (fst (metaFor tx d b))), max q (snd (metaFor tx d b)))))"
  using assms(1) unfolding ty_def
proof (induction vv arbitrary: tx)
  case (Cons e vv)
  obtain a q where e: "e = (a, q)" by (cases e)
  define t1 where "t1 = applySnapshotVV d (a, q) tx"
  define t2 where "t2 = fold (applySnapshotVV d) vv t1"
  have u: "unique_keys vv" "map_of vv a = None" using Cons.prems by (auto simp: e unique_keys_Cons)
  note st = applySnapshotVV_effect [where d = d and a = a and q = q and tx = tx, folded t1_def]
  have f: "fold (applySnapshotVV d) (e # vv) tx = t2" by (simp add: e t1_def t2_def)
  note IH = Cons.IH [OF u(1), of t1, folded t2_def]
  have "contiguousEnd t2 d a m = contiguousEnd t1 d a m" for m
    by (rule contiguousEnd_cong) (simp add: IH u(2))
  then show ?case unfolding f using IH st u by (auto simp: e split: option.splits)
qed (auto split: option.splits)

lemma ApplySnapshot_cases:
  assumes "ApplySnapshot now s snap = (Inr u, s')"
  defines "d \<equiv> sn_Domain snap"
  obtains "d \<in> set (allowed s)" "sn_SchemaVers snap \<le> SnapshotSchemaVersion"
    "\<forall>r \<in> set (sn_Registers snap). is_go s d \<longrightarrow> \<not> rs_Deleted r"
    "tables s' = fold (applySnapshotVV d) (sn_VV snap) (fold (applySnapshotCtr d) (sn_Counters snap)
      (fold (applySnapshotReg s d) (sn_Registers snap) (tables s)))"
    "actor s' = actor s" "allowed s' = allowed s" "growOnly s' = growOnly s"
    "clk s' = observeAll now 0 (map rs_Stamp (sn_Registers snap)) (clk s)"
  using assms(1) that unfolding d_def
  by (auto simp: ApplySnapshot_def inTx_def checkDomain_def is_go_def split: option.splits if_splits)

lemma ApplySnapshot_effect:
  assumes "ApplySnapshot now s snap = (Inr u, s')" "norm_rows (tables s)" "unique_keys (sn_VV snap)"
  defines "d \<equiv> sn_Domain snap"
  shows "dreg d (tables s') =
      merge_map (reg_merge (is_go s d)) (map snap_reg (sn_Registers snap)) (dreg d (tables s))"
    and "dctr d (tables s') = merge_map max_totals (map snap_ctr (sn_Counters snap)) (dctr d (tables s))"
    and "dlog d (tables s') (b, n) = (case map_of (sn_VV snap) b of
        None \<Rightarrow> dlog d (tables s) (b, n)
      | Some q \<Rightarrow> if n \<le> max q (snd (metaFor (tables s) d b)) then None else dlog d (tables s) (b, n))"
    and "metaFor (tables s') d b = (case map_of (sn_VV snap) b of
        None \<Rightarrow> metaFor (tables s) d b
      | Some q \<Rightarrow> (contiguousEnd (tables s') d b (max q (fst (metaFor (tables s) d b))),
                   max q (snd (metaFor (tables s) d b))))"
    and "norm_rows (tables s')" "same_outside d (tables s) (tables s')"
proof -
  define t1 where "t1 = fold (applySnapshotReg s d) (sn_Registers snap) (tables s)"
  define t2 where "t2 = fold (applySnapshotCtr d) (sn_Counters snap) t1"
  have go: "\<forall>r \<in> set (sn_Registers snap). is_go s d \<longrightarrow> \<not> rs_Deleted r"
    and ts: "tables s' = fold (applySnapshotVV d) (sn_VV snap) t2"
    using ApplySnapshot_cases [OF assms(1)] unfolding d_def t1_def t2_def by metis+
  note r = fold_applySnapshotReg [OF assms(2) go, folded t1_def]
  note c = fold_applySnapshotCtr [of d "sn_Counters snap" t1, folded t2_def]
  note v = fold_applySnapshotVV [OF assms(3), of d t2, folded ts]
  have v12: "crdt_reg (tables s') = crdt_reg t2" "crdt_ctr (tables s') = crdt_ctr t2" using v by auto
  have vc: "dreg e (tables s') = dreg e t1" "dctr e (tables s') = dctr e t2"
    "dctr e t1 = dctr e (tables s)" "dlog e t2 = dlog e (tables s)"
    "metaFor t2 e b = metaFor (tables s) e b" for e b
    using v12 r c by (auto intro!: views_cong)
  show "dreg d (tables s') =
      merge_map (reg_merge (is_go s d)) (map snap_reg (sn_Registers snap)) (dreg d (tables s))"
    "dctr d (tables s') = merge_map max_totals (map snap_ctr (sn_Counters snap)) (dctr d (tables s))"
    using r c vc by auto
  show "dlog d (tables s') (b, n) = (case map_of (sn_VV snap) b of
        None \<Rightarrow> dlog d (tables s) (b, n)
      | Some q \<Rightarrow> if n \<le> max q (snd (metaFor (tables s) d b)) then None else dlog d (tables s) (b, n))"
    "metaFor (tables s') d b = (case map_of (sn_VV snap) b of
        None \<Rightarrow> metaFor (tables s) d b
      | Some q \<Rightarrow> (contiguousEnd (tables s') d b (max q (fst (metaFor (tables s) d b))),
                   max q (snd (metaFor (tables s) d b))))"
    using v vc by (auto split: option.splits)
  show "norm_rows (tables s')" using r c v12 views_cong(5) [of "tables s'" t1] by simp
  show "same_outside d (tables s) (tables s')"
    using r c v vc by (auto simp: same_outside_def fun_eq_iff split: option.splits)
qed

subsection \<open>Local writes\<close>

lemma appendLocal_effect:
  fixes op0 :: Op
  assumes "appendLocal s tx op0 = Inr tx'" "norm_rows tx" "op_Actor op0 = actor s"
    and "is_go s (op_Domain op0) \<longrightarrow> op_Kind op0 \<noteq> OpDel"
  defines "d \<equiv> op_Domain op0" and "cur \<equiv> fst (metaFor tx (op_Domain op0) (actor s))"
  defines "op \<equiv> op0\<lparr>op_Seq := cur + 1\<rparr>"
  shows "dreg d tx' = merge_map (reg_merge (is_go s d)) (op_regs op) (dreg d tx)"
    and "dctr d tx' = merge_map max_totals (op_ctrs op) (dctr d tx)"
    and "dlog d tx' = (dlog d tx)((actor s, cur + 1) \<mapsto> op_row_of op)"
    and "dlog d tx (actor s, cur + 1) = None"
    and "metaFor tx' d b = (if b = actor s then (cur + 1, snd (metaFor tx d b)) else metaFor tx d b)"
    and "norm_rows tx'" "same_outside d tx tx'" "op_applies op"
proof -
  have op: "op_Domain op = d" "op_Actor op = actor s" "op_Seq op = cur + 1" "op_Kind op = op_Kind op0"
    using assms(3) by (simp_all add: op_def d_def)
  obtain t1 t2 where t: "insertOp tx op = Inr t1" "applyToState s t1 op = Inr t2"
      "tx' = setSeq t2 d (actor s) (cur + 1)"
    using assms(1) by (auto simp: appendLocal_def Let_def op_def d_def cur_def)
  have none: "dlog d tx (actor s, cur + 1) = None"
    and t1: "t1 = tx\<lparr>crdt_op := upsert (d, actor s, cur + 1) (op_row_of op) (crdt_op tx)\<rparr>"
    using t(1) op by (auto simp: insertOp_def Let_def dlog_def split: if_splits)
  have n1: "norm_rows t1" using assms(2) by (simp add: t1 norm_rows_def)
  have go: "is_go s (op_Domain op) \<longrightarrow> op_Kind op \<noteq> OpDel" using assms(4) op d_def by simp
  note ef = applyToState_effect [OF t(2) n1 go]
  have meta: "metaFor t2 e b = metaFor tx e b" for e b
    using ef(5) by (intro views_cong) (simp add: t1)
  have tx': "tx' = putMeta t2 d (actor s) (cur + 1) (snd (metaFor tx d (actor s)))"
    using meta [of d "actor s"] unfolding t(3) setSeq_def cur_def d_def by (auto split: prod.splits)
  have vc: "dreg e tx' = dreg e t2" "dctr e tx' = dctr e t2" "dlog e tx' = dlog e t1"
    "dreg e t1 = dreg e tx" "dctr e t1 = dctr e tx" for e
    using ef(4) by (auto intro!: views_cong simp: tx') (simp_all add: t1)
  show "dreg d tx' = merge_map (reg_merge (is_go s d)) (op_regs op) (dreg d tx)"
    "dctr d tx' = merge_map max_totals (op_ctrs op) (dctr d tx)"
    using ef(1,2) [of d] vc op by auto
  have lg: "dlog e t1 = (if e = d then (dlog d tx)((actor s, cur + 1) \<mapsto> op_row_of op) else dlog e tx)" for e
    by (auto simp: dlog_def t1 tbl fun_eq_iff)
  then show "dlog d tx' = (dlog d tx)((actor s, cur + 1) \<mapsto> op_row_of op)" using vc by simp
  show "dlog d tx (actor s, cur + 1) = None" by (rule none)
  show "metaFor tx' d b = (if b = actor s then (cur + 1, snd (metaFor tx d b)) else metaFor tx d b)"
    by (auto simp: tx' view meta)
  show "norm_rows tx'" using ef(3) views_cong(5) [of tx' t2] by (simp add: tx')
  show "same_outside d tx tx'"
    using ef(1,2) vc op lg meta by (auto simp: same_outside_def tx' view)
  show "op_applies op" using t(2) applyToState_applies by blast
qed

text \<open>
  What a successful \<open>Set\<close>, \<open>Delete\<close> or \<open>Add\<close> is: one clock tick and one operation
  of this replica appended to an allowed domain, never a tombstone in a grow-only one.
\<close>

definition localOp :: "int \<Rightarrow> Store \<Rightarrow> string \<Rightarrow> string \<Rightarrow> string \<Rightarrow> OpKind \<Rightarrow> bytes \<Rightarrow> Op" where
  "localOp now s d k f kind v = mkOp s d k f kind v (fst (tick now (actor s) (clk s)))"

lemma local_cases:
  assumes "local now s d k f kind v = (Inr u, s')"
  obtains tx where "appendLocal s (tables s) (localOp now s d k f kind v) = Inr tx"
    "s' = s\<lparr>tables := tx, clk := snd (tick now (actor s) (clk s)), localChanges := localChanges s + 1\<rparr>"
    "d \<in> set (allowed s)" "is_go s d \<longrightarrow> kind \<noteq> OpDel" "d \<noteq> []" "k \<noteq> []" "f \<noteq> []"
  using assms that
  by (auto simp: local_def inTx_def checkDomain_def localOp_def is_go_def
      split: if_splits option.splits prod.splits sum.splits)

lemma Store_Add_cases:
  assumes "Store_Add now s d k f delta = (Inr u, s')"
  obtains tx v where "v = (case addTotals (ownTotals (tables s) d k f (actor s)) delta of (p, n) \<Rightarrow> encodeCounter p n)"
    "appendLocal s (tables s) (localOp now s d k f OpInc v) = Inr tx"
    "s' = s\<lparr>tables := tx, clk := snd (tick now (actor s) (clk s)), localChanges := localChanges s + 1\<rparr>"
    "d \<in> set (allowed s)" "d \<noteq> []" "k \<noteq> []" "f \<noteq> []"
  using assms that
  by (auto simp: Store_Add_def inTx_def checkDomain_def localOp_def
      split: if_splits option.splits prod.splits sum.splits)

subsection \<open>The invariant of a replica\<close>

text \<open>
  The retained log: for each actor the floor is at most the version vector entry, and every
  operation between them is in the log, so any peer at or above the floor can be served.
\<close>

definition log_ok :: "string \<Rightarrow> db \<Rightarrow> bool" where
  "log_ok d tx \<longleftrightarrow> (\<forall>a. snd (metaFor tx d a) \<le> fst (metaFor tx d a) \<and>
     (\<forall>n. snd (metaFor tx d a) < n \<and> n \<le> fst (metaFor tx d a) \<longrightarrow> dlog d tx (a, n) \<noteq> None))"

definition keys_ok :: "db \<Rightarrow> bool" where
  "keys_ok tx \<longleftrightarrow> unique_keys (crdt_op tx) \<and> unique_keys (crdt_reg tx) \<and>
     unique_keys (crdt_ctr tx) \<and> unique_keys (crdt_meta tx)"

definition go_ok :: "Store \<Rightarrow> bool" where
  "go_ok s \<longleftrightarrow> (\<forall>d k r. is_go s d \<longrightarrow> dreg d (tables s) k = Some r \<longrightarrow> \<not> r_deleted r)"

definition store_ok :: "Store \<Rightarrow> bool" where
  "store_ok s \<longleftrightarrow> norm_rows (tables s) \<and> keys_ok (tables s) \<and> (\<forall>d. log_ok d (tables s)) \<and> go_ok s"

lemma store_okD:
  assumes "store_ok s"
  shows "norm_rows (tables s)" "keys_ok (tables s)" "log_ok d (tables s)" "go_ok s"
  using assms by (auto simp: store_ok_def)

lemma log_ok_outside: "same_outside d tx tx' \<Longrightarrow> \<forall>e. log_ok e tx \<Longrightarrow> log_ok d tx' \<Longrightarrow> log_ok e tx'"
  by (cases "e = d") (auto simp: log_ok_def same_outside_def)

lemma go_ok_outside:
  assumes "same_outside d (tables s) (tables s')" "growOnly s' = growOnly s" "go_ok s"
    and "is_go s d \<Longrightarrow> (\<And>k r. dreg d (tables s') k = Some r \<Longrightarrow> \<not> r_deleted r)"
  shows "go_ok s'"
  using assms unfolding go_ok_def is_go_def same_outside_def by metis

lemma go_ok_reg_ok: "go_ok s \<Longrightarrow> dreg d (tables s) k = Some r \<Longrightarrow> reg_ok (is_go s d) r"
  by (cases k) (auto simp: go_ok_def reg_ok_def)

lemma go_ok_merged:
  assumes "same_outside d (tables s) (tables s')" "growOnly s' = growOnly s" "go_ok s"
    and "dreg d (tables s') = merge_map (reg_merge (is_go s d)) es (dreg d (tables s))"
    and "\<forall>(k, r) \<in> set es. reg_ok (is_go s d) r"
  shows "go_ok s'"
proof (rule go_ok_outside [OF assms(1-3)])
  fix k r assume "is_go s d" "dreg d (tables s') k = Some r"
  with reg.merge_map_ok [OF assms(5), of "dreg d (tables s)" k r] assms(3,4) go_ok_reg_ok
  show "\<not> r_deleted r" by (auto simp: reg_ok_def)
qed

lemma op_regs_ok: "is_go s d \<longrightarrow> op_Kind op \<noteq> OpDel \<Longrightarrow> \<forall>(k, r) \<in> set (op_regs op). reg_ok (is_go s d) r"
  by (auto simp: op_regs_def reg_ok_def split: OpKind.splits)

end
