(* ===== verification/Crdt_Replica.thy ===== *)
theory Crdt_Replica
  imports Crdt_Merge
begin

text \<open>
  One replica under every operation: the invariant \<open>store_ok\<close> is kept by local writes,
  by deltas and snapshots of any peer (also a hostile one) and by compaction; merging is
  atomic, independent of order and duplication, and never loses a winning local write; the
  allow-list and the grow-only rule cannot be bypassed.
\<close>

subsection \<open>Primary keys\<close>

lemma keys_ok_mergeRegister: "keys_ok tx \<Longrightarrow> keys_ok (mergeRegister s tx d k f v del st)"
  by (auto simp: keys_ok_def mergeRegister_def Let_def split: option.splits)

lemma keys_ok_mergeCounter: "keys_ok tx \<Longrightarrow> keys_ok (mergeCounter tx d k f a p n)"
  by (auto simp: keys_ok_def mergeCounter_def)

lemma keys_ok_putMeta: "keys_ok tx \<Longrightarrow> keys_ok (putMeta tx d a q fl)"
  by (auto simp: keys_ok_def putMeta_def)

lemma keys_ok_delete: "keys_ok tx \<Longrightarrow> keys_ok ty \<Longrightarrow> keys_ok (ty\<lparr>crdt_op := delete_where P (crdt_op tx)\<rparr>)"
  by (auto simp: keys_ok_def)

lemmas keys_ok_intros = keys_ok_mergeRegister keys_ok_mergeCounter keys_ok_putMeta keys_ok_delete

lemma keys_ok_advance: "keys_ok tx \<Longrightarrow> keys_ok (advanceContiguous tx d a)"
  by (auto simp: advanceContiguous_def Let_def intro: keys_ok_intros split: prod.splits)

lemma keys_ok_applyToState: "applyToState s tx op = Inr tx' \<Longrightarrow> keys_ok tx \<Longrightarrow> keys_ok tx'"
  by (auto simp: applyToState_def intro: keys_ok_intros split: OpKind.splits)

lemma keys_ok_insertOpIfNew: "keys_ok tx \<Longrightarrow> keys_ok (fst (insertOpIfNew tx op))"
  by (auto simp: keys_ok_def insertOpIfNew_def Let_def)

lemma keys_ok_appendLocal: "appendLocal s tx op = Inr tx' \<Longrightarrow> keys_ok tx \<Longrightarrow> keys_ok tx'"
proof -
  assume a: "appendLocal s tx op = Inr tx'" and k: "keys_ok tx"
  obtain op' t1 t2 where t: "insertOp tx op' = Inr t1" "applyToState s t1 op' = Inr t2"
      "tx' = setSeq t2 (op_Domain op') (actor s) (op_Seq op')"
    using a by (auto simp: appendLocal_def Let_def)
  have "keys_ok t1" using t(1) k by (auto simp: insertOp_def keys_ok_def Let_def split: if_splits)
  then have "keys_ok t2" using t(2) keys_ok_applyToState by blast
  then show ?thesis by (auto simp: t(3) setSeq_def intro: keys_ok_intros split: prod.splits)
qed

lemma keys_ok_fold: "(\<And>x tx. keys_ok tx \<Longrightarrow> keys_ok (f x tx)) \<Longrightarrow> keys_ok tx \<Longrightarrow> keys_ok (fold f xs tx)"
  by (induction xs arbitrary: tx) auto

lemma keys_ok_foldE_mergeOp: "foldE (mergeOp s d) ops (n, tx) = Inr (m, tx') \<Longrightarrow> keys_ok tx \<Longrightarrow> keys_ok tx'"
proof (induction ops arbitrary: n tx)
  case (Cons op ops)
  then obtain m ty where ty: "mergeOp s d op (n, tx) = Inr (m, ty)" "foldE (mergeOp s d) ops (m, ty) = Inr (m, tx') \<or>
      (\<exists>r. foldE (mergeOp s d) ops (m, ty) = Inr (r, tx'))"
    by (fastforce simp: bindE_def split: sum.splits)
  have "keys_ok ty" using ty(1) Cons.prems(2) keys_ok_insertOpIfNew
    by (auto simp: mergeOp_def Let_def split: prod.splits dest!: keys_ok_applyToState) (metis fst_conv)
  then show ?case using Cons.IH Cons.prems ty(1) by (auto simp: bindE_def split: sum.splits)
qed simp

lemma keys_ok_applySnapshotVV: "keys_ok tx \<Longrightarrow> keys_ok (applySnapshotVV d e tx)"
  by (auto simp: applySnapshotVV_def Let_def intro!: keys_ok_advance keys_ok_intros split: prod.splits)

subsection \<open>The invariant is kept\<close>

lemma store_okI:
  assumes "store_ok s" "growOnly s' = growOnly s" "same_outside d (tables s) (tables s')"
    and "norm_rows (tables s')" "keys_ok (tables s')" "log_ok d (tables s')"
    and "dreg d (tables s') = merge_map (reg_merge (is_go s d)) es (dreg d (tables s))"
    and "\<forall>(k, r) \<in> set es. reg_ok (is_go s d) r"
  shows "store_ok s'"
  using assms go_ok_merged [OF assms(3,2) store_okD(4) [OF assms(1)] assms(7,8)]
    log_ok_outside [OF assms(3) _ assms(6)] by (auto simp: store_ok_def)

lemma store_ok_appendLocal:
  assumes "store_ok s" "appendLocal s (tables s) (localOp now s d k f kind v) = Inr tx"
    and "is_go s d \<longrightarrow> kind \<noteq> OpDel"
  shows "store_ok (s\<lparr>tables := tx, clk := c, localChanges := n\<rparr>)"
proof -
  let ?o = "localOp now s d k f kind v"
  let ?op = "?o\<lparr>op_Seq := fst (metaFor (tables s) d (actor s)) + 1\<rparr>"
  have o: "op_Domain ?o = d" "op_Actor ?o = actor s" "op_Kind ?o = kind"
    by (simp_all add: localOp_def mkOp_def)
  note ef = appendLocal_effect [OF assms(2) store_okD(1) [OF assms(1)], unfolded o, OF refl assms(3)]
  have "log_ok d tx" using store_okD(3) [OF assms(1), of d] ef(3,5)
    by (auto simp: log_ok_def le_Suc_eq)
  moreover have "keys_ok tx" using keys_ok_appendLocal [OF assms(2)] store_okD(2) [OF assms(1)] .
  moreover have "\<forall>(k, r) \<in> set (op_regs ?op). reg_ok (is_go s d) r"
    using assms(3) o by (intro op_regs_ok) simp
  ultimately show ?thesis
    using store_okI [OF assms(1), of "s\<lparr>tables := tx, clk := c, localChanges := n\<rparr>" d "op_regs ?op"] ef
    by simp
qed

lemma Merge_ops_store_ok:
  assumes "store_ok s" "Merge now s (Some dl) = (Inr n, s')" "\<not> d_SnapshotRequired dl"
  shows "store_ok s'"
proof -
  let ?d = "d_Domain dl"
  note ef = Merge_ops_effect [OF assms(2,3) store_okD(1) [OF assms(1)]]
  obtain m tx where tx: "checkOps s ?d (d_Ops dl) = None" "growOnly s' = growOnly s"
      "foldE (mergeOp s ?d) (d_Ops dl) (0, tables s) = Inr (m, tx)"
      "tables s' = fold (\<lambda>a tx. advanceContiguous tx ?d a) (remdups (map op_Actor (d_Ops dl))) tx"
    using Merge_ops_cases [OF assms(2,3)] by metis
  have keep: "dlog ?d (tables s) k \<noteq> None \<Longrightarrow> dlog ?d (tables s') k \<noteq> None" for k
    unfolding ef(3) by (rule merge_map_key_kept)
  have log: "log_ok ?d (tables s')"
    unfolding log_ok_def
  proof (intro allI conjI impI)
    fix a
    let ?q = "fst (metaFor (tables s) ?d a)" and ?fl = "snd (metaFor (tables s) ?d a)"
    have old: "?fl \<le> ?q" "?fl < n \<Longrightarrow> n \<le> ?q \<Longrightarrow> dlog ?d (tables s') (a, n) \<noteq> None" for n
      using store_okD(3) [OF assms(1), of ?d] keep by (auto simp: log_ok_def)
    show "snd (metaFor (tables s') ?d a) \<le> fst (metaFor (tables s') ?d a)"
      using ef(4) [of a] old(1) contiguousEnd_ge [of ?q "tables s'" ?d a] by auto
    fix n
    assume n: "snd (metaFor (tables s') ?d a) < n \<and> n \<le> fst (metaFor (tables s') ?d a)"
    show "dlog ?d (tables s') (a, n) \<noteq> None"
      using n ef(4) [of a] old(2) [of n] contiguousEnd_rows [of ?q n "tables s'" ?d a]
      by (cases "n \<le> ?q") (auto split: if_splits)
  qed
  have "keys_ok tx" using keys_ok_foldE_mergeOp [OF tx(3)] store_okD(2) [OF assms(1)] .
  then have keys: "keys_ok (tables s')"
    unfolding tx(4) by (intro keys_ok_fold) (auto intro: keys_ok_advance)
  have regs: "\<forall>(k, r) \<in> set (regs_of (d_Ops dl)). reg_ok (is_go s ?d) r"
    using tx(1) op_regs_ok [of s ?d] by (fastforce simp: checkOps_None_iff)
  show ?thesis using store_okI [OF assms(1) tx(2) ef(6,5) keys log ef(1) regs] .
qed

lemma ApplySnapshot_store_ok:
  assumes "store_ok s" "ApplySnapshot now s snap = (Inr u, s')" "unique_keys (sn_VV snap)"
  shows "store_ok s'"
proof -
  let ?d = "sn_Domain snap"
  note ef = ApplySnapshot_effect [OF assms(2) store_okD(1) [OF assms(1)] assms(3)]
  obtain go: "\<forall>r \<in> set (sn_Registers snap). is_go s ?d \<longrightarrow> \<not> rs_Deleted r" "growOnly s' = growOnly s"
      "tables s' = fold (applySnapshotVV ?d) (sn_VV snap) (fold (applySnapshotCtr ?d) (sn_Counters snap)
      (fold (applySnapshotReg s ?d) (sn_Registers snap) (tables s)))"
    using ApplySnapshot_cases [OF assms(2)] by metis
  have log: "log_ok ?d (tables s')"
    unfolding log_ok_def
  proof (intro allI conjI impI)
    fix a
    let ?q = "fst (metaFor (tables s) ?d a)" and ?fl = "snd (metaFor (tables s) ?d a)"
    have old: "?fl \<le> ?q" "?fl < n \<Longrightarrow> n \<le> ?q \<Longrightarrow> dlog ?d (tables s) (a, n) \<noteq> None" for n
      using store_okD(3) [OF assms(1), of ?d] by (auto simp: log_ok_def)
    show "snd (metaFor (tables s') ?d a) \<le> fst (metaFor (tables s') ?d a)"
      using ef(4) [of a] old(1) contiguousEnd_ge [of "max q ?q" "tables s'" ?d a for q]
      by (auto split: option.splits intro: order_trans)
    fix n
    assume n: "snd (metaFor (tables s') ?d a) < n \<and> n \<le> fst (metaFor (tables s') ?d a)"
    show "dlog ?d (tables s') (a, n) \<noteq> None"
    proof (cases "map_of (sn_VV snap) a")
      case None
      then show ?thesis using n ef(3) [of a n] ef(4) [of a] old(2) [of n] by simp
    next
      case (Some q)
      show ?thesis
      proof (cases "n \<le> max q ?q")
        case True
        then show ?thesis using n Some ef(3) [of a n] ef(4) [of a] old(2) [of n] by auto
      next
        case False
        then show ?thesis using n Some ef(4) [of a] contiguousEnd_rows [of "max q ?q" n "tables s'" ?d a]
          by simp
      qed
    qed
  qed
  have keys: "keys_ok (tables s')"
    unfolding go(3) using store_okD(2) [OF assms(1)]
    by (intro keys_ok_fold keys_ok_applySnapshotVV)
      (auto simp: applySnapshotCtr_def applySnapshotReg_def intro: keys_ok_intros)
  have regs: "\<forall>(k, r) \<in> set (map snap_reg (sn_Registers snap)). reg_ok (is_go s ?d) r"
    using go(1) by (auto simp: snap_reg_def reg_ok_def mk_row_def)
  show ?thesis using store_okI [OF assms(1) go(2) ef(6,5) keys log ef(1) regs] .
qed

text \<open>A delta as it arrives from the wire: the version vector of its snapshot is a JSON object.\<close>

definition delta_wf :: "Delta \<Rightarrow> bool" where
  "delta_wf dl \<longleftrightarrow> (case d_Snapshot dl of None \<Rightarrow> True | Some snap \<Rightarrow> unique_keys (sn_VV snap))"

lemma Merge_snapshot_cases:
  assumes "Merge now s (Some dl) = (Inr n, s')" "d_SnapshotRequired dl"
  obtains snap where "d_Snapshot dl = Some snap" "ApplySnapshot now s snap = (Inr (), s')"
    "n = length (sn_Registers snap) + length (sn_Counters snap)" "d_Domain dl \<in> set (allowed s)"
  using assms that
  by (auto simp: Merge_def checkDomain_def split: option.splits if_splits prod.splits sum.splits)

lemma Merge_store_ok:
  assumes "store_ok s" "delta_wf dl" "Merge now s (Some dl) = (Inr n, s')"
  shows "store_ok s'"
proof (cases "d_SnapshotRequired dl")
  case True
  from Merge_snapshot_cases [OF assms(3) True] obtain snap where
    "d_Snapshot dl = Some snap" "ApplySnapshot now s snap = (Inr (), s')" by metis
  with assms(1,2) show ?thesis by (auto simp: delta_wf_def intro: ApplySnapshot_store_ok)
next
  case False
  with assms show ?thesis by (auto intro: Merge_ops_store_ok)
qed

subsection \<open>Compaction\<close>

lemma compactActor_effect:
  fixes keep :: int and n :: nat
  assumes "metaFor tx d a = (q, fl)"
  defines "nf \<equiv> nat (int q - keep)"
  defines "ty \<equiv> snd (compactActor d keep (a, q, fl) (n, tx))"
  shows "crdt_reg ty = crdt_reg tx" "crdt_ctr ty = crdt_ctr tx" "keys_ok tx \<Longrightarrow> keys_ok ty"
    "dlog d' ty (b, m) = (if d' = d \<and> b = a \<and> fl < nf \<and> m \<le> nf then None else dlog d' tx (b, m))"
    "metaFor ty d' b = (if d' = d \<and> b = a then (q, max fl nf) else metaFor tx d' b)"
proof -
  let ?P = "\<lambda>(d', a', m). d' = d \<and> a' = a \<and> m \<le> nf"
  have nf: "int q - keep \<le> int fl \<longleftrightarrow> nf \<le> fl" by (auto simp: nf_def)
  have ty: "ty = (if nf \<le> fl then tx else putMeta (tx\<lparr>crdt_op := delete_where ?P (crdt_op tx)\<rparr>) d a q nf)"
    unfolding ty_def compactActor_def Let_def using nf by (auto simp: nf_def)
  show "crdt_reg ty = crdt_reg tx" "crdt_ctr ty = crdt_ctr tx" by (auto simp: ty)
  show "keys_ok tx \<Longrightarrow> keys_ok ty" by (auto simp: ty intro: keys_ok_intros)
  show "dlog d' ty (b, m) = (if d' = d \<and> b = a \<and> fl < nf \<and> m \<le> nf then None else dlog d' tx (b, m))"
    by (auto simp: ty dlog_def tbl putMeta_def)
  show "metaFor ty d' b = (if d' = d \<and> b = a then (q, max fl nf) else metaFor tx d' b)"
    using assms(1) by (auto simp: ty metaFor_def putMeta_def tbl max_def)
qed

lemma fold_compactActor:
  fixes keep :: int and d :: string
  assumes "distinct (map fst ms)" "\<forall>(a, q, fl) \<in> set ms. metaFor tx d a = (q, fl)"
  defines "ty \<equiv> \<lambda>n tx. snd (fold (compactActor d keep) ms (n, tx))"
  shows "crdt_reg (ty n tx) = crdt_reg tx \<and> crdt_ctr (ty n tx) = crdt_ctr tx \<and> (keys_ok tx \<longrightarrow> keys_ok (ty n tx)) \<and>
    (\<forall>d' b m. dlog d' (ty n tx) (b, m) = (if d' = d \<and> b \<in> fst ` set ms \<and>
        snd (metaFor tx d b) < nat (int (fst (metaFor tx d b)) - keep) \<and>
        m \<le> nat (int (fst (metaFor tx d b)) - keep) then None else dlog d' tx (b, m))) \<and>
    (\<forall>d' b. metaFor (ty n tx) d' b = (if d' = d \<and> b \<in> fst ` set ms
      then (fst (metaFor tx d b), max (snd (metaFor tx d b)) (nat (int (fst (metaFor tx d b)) - keep)))
      else metaFor tx d' b))"
  using assms(1,2) unfolding ty_def
proof (induction ms arbitrary: n tx)
  case (Cons e ms)
  obtain a q fl where e: "e = (a, q, fl)" by (cases e)
  obtain n1 t1 where c: "compactActor d keep (a, q, fl) (n, tx) = (n1, t1)" by fastforce
  have m: "metaFor tx d a = (q, fl)" using Cons.prems(2) by (auto simp: e)
  note st = compactActor_effect [where keep = keep and n = n, OF m, unfolded c snd_conv]
  have a: "a \<notin> fst ` set ms" and ds: "distinct (map fst ms)" using Cons.prems(1) by (auto simp: e)
  have "\<forall>(b, q, fl) \<in> set ms. metaFor t1 d b = (q, fl)"
    using Cons.prems(2) a by (auto simp: e st(5) rev_image_eqI)
  from Cons.IH [OF ds this, of n1] show ?case
    using st m a by (auto simp: e c)
qed auto

lemma Compact_effect:
  assumes "Compact s d keep = (Inr n, s')" "store_ok s"
  defines "q \<equiv> \<lambda>b. fst (metaFor (tables s) d b)" and "fl \<equiv> \<lambda>b. snd (metaFor (tables s) d b)"
  shows "dreg e (tables s') = dreg e (tables s)" "dctr e (tables s') = dctr e (tables s)"
    "norm_rows (tables s')" "keys_ok (tables s')" "same_outside d (tables s) (tables s')"
    "metaFor (tables s') d b = (q b, max (fl b) (nat (int (q b) - keep)))"
    "dlog d (tables s') (b, m) = (if fl b < nat (int (q b) - keep) \<and> m \<le> nat (int (q b) - keep) then None
      else dlog d (tables s) (b, m))"
    "actor s' = actor s" "allowed s' = allowed s" "growOnly s' = growOnly s" "clk s' = clk s" "0 \<le> keep"
proof -
  let ?rows = "filter (\<lambda>((d', a), _). d' = d) (crdt_meta (tables s))"
  let ?ms = "map (\<lambda>((d, a), (q, fl)). (a, q, fl)) ?rows"
  have u: "unique_keys (crdt_meta (tables s))" using store_okD(2) [OF assms(2)] by (simp add: keys_ok_def)
  have s': "tables s' = snd (fold (compactActor d keep) ?ms (0, tables s))" and keep: "0 \<le> keep"
    and fr: "actor s' = actor s" "allowed s' = allowed s" "growOnly s' = growOnly s" "clk s' = clk s"
    using assms(1) by (auto simp: Compact_def inTx_def split: if_splits prod.splits)
  have mem: "\<forall>(a, q, fl) \<in> set ?ms. metaFor (tables s) d a = (q, fl)"
    by (auto simp: metaFor_def map_of_mem [OF u, THEN iffD2])
  have "map fst ?rows = map (\<lambda>a. (d, a)) (map fst ?ms)" by (auto simp: comp_def split: prod.splits)
  moreover have "distinct (map fst ?rows)" using u by (simp add: unique_keys_def distinct_map_filter)
  ultimately have ds: "distinct (map fst ?ms)" by (metis distinct_map)
  have out: "b \<notin> fst ` set ?ms \<Longrightarrow> metaFor (tables s) d b = (0, 0)" for b
  proof (cases "map_of (crdt_meta (tables s)) (d, b)")
    case (Some p)
    moreover assume "b \<notin> fst ` set ?ms"
    ultimately show ?thesis using map_of_SomeD [OF Some] by (force split: prod.splits)
  qed (simp add: metaFor_def)
  note f = fold_compactActor [where keep = keep and n = 0, OF ds mem, folded s']
  have vc: "crdt_reg (tables s') = crdt_reg (tables s)" "crdt_ctr (tables s') = crdt_ctr (tables s)"
    using f by auto
  show "dreg e (tables s') = dreg e (tables s)" "dctr e (tables s') = dctr e (tables s)"
    "norm_rows (tables s')" "keys_ok (tables s')"
    using views_cong(1) [OF vc(1)] views_cong(2) [OF vc(2)] views_cong(5) [OF vc(1)]
      store_okD(1,2) [OF assms(2)] f by auto
  show "metaFor (tables s') d b = (q b, max (fl b) (nat (int (q b) - keep)))"
    "dlog d (tables s') (b, m) = (if fl b < nat (int (q b) - keep) \<and> m \<le> nat (int (q b) - keep) then None
      else dlog d (tables s) (b, m))"
    using f out [of b] keep by (cases "b \<in> fst ` set ?ms"; simp add: q_def fl_def)+
  show "same_outside d (tables s) (tables s')"
    using f views_cong(1) [OF vc(1)] views_cong(2) [OF vc(2)] by (auto simp: same_outside_def fun_eq_iff)
  show "actor s' = actor s" "allowed s' = allowed s" "growOnly s' = growOnly s" "clk s' = clk s" "0 \<le> keep"
    using fr keep by auto
qed

lemma Compact_store_ok:
  assumes "store_ok s" "Compact s d keep = (Inr n, s')"
  shows "store_ok s'"
proof -
  note ef = Compact_effect [OF assms(2,1)]
  have "log_ok d (tables s')"
    using store_okD(3) [OF assms(1), of d] ef(12) unfolding log_ok_def
    by (auto simp: ef(6,7))
  then show ?thesis
    using store_okI [OF assms(1) ef(10,5,3,4), of "[]"] ef(1) by simp
qed

subsection \<open>Any delta as a list of entries\<close>

definition delta_target :: "Delta \<Rightarrow> string" where
  "delta_target dl = (if d_SnapshotRequired dl then (case d_Snapshot dl of None \<Rightarrow> d_Domain dl | Some snap \<Rightarrow> sn_Domain snap)
     else d_Domain dl)"

definition delta_regs :: "Delta \<Rightarrow> ((string \<times> string) \<times> reg_row) list" where
  "delta_regs dl = (if d_SnapshotRequired dl
     then (case d_Snapshot dl of None \<Rightarrow> [] | Some snap \<Rightarrow> map snap_reg (sn_Registers snap))
     else regs_of (d_Ops dl))"

definition delta_ctrs :: "Delta \<Rightarrow> ((string \<times> string \<times> string) \<times> (int \<times> int)) list" where
  "delta_ctrs dl = (if d_SnapshotRequired dl
     then (case d_Snapshot dl of None \<Rightarrow> [] | Some snap \<Rightarrow> map snap_ctr (sn_Counters snap))
     else ctrs_of (d_Ops dl))"

lemma Merge_effect_all:
  assumes "store_ok s" "delta_wf dl" "Merge now s (Some dl) = (Inr n, s')"
  defines "d \<equiv> delta_target dl"
  shows "dreg d (tables s') = merge_map (reg_merge (is_go s d)) (delta_regs dl) (dreg d (tables s)) \<and>
    dctr d (tables s') = merge_map max_totals (delta_ctrs dl) (dctr d (tables s)) \<and>
    (\<forall>(k, r) \<in> set (delta_regs dl). reg_ok (is_go s d) r) \<and>
    same_outside d (tables s) (tables s') \<and> d \<in> set (allowed s) \<and>
    growOnly s' = growOnly s \<and> allowed s' = allowed s \<and> actor s' = actor s"
proof (cases "d_SnapshotRequired dl")
  case True
  from Merge_snapshot_cases [OF assms(3) True] obtain snap where sn: "d_Snapshot dl = Some snap"
    "ApplySnapshot now s snap = (Inr (), s')" by metis
  have u: "unique_keys (sn_VV snap)" using assms(2) sn by (simp add: delta_wf_def)
  have d: "d = sn_Domain snap" using True sn by (simp add: d_def delta_target_def)
  obtain go: "\<forall>r \<in> set (sn_Registers snap). is_go s d \<longrightarrow> \<not> rs_Deleted r" "d \<in> set (allowed s)"
      "growOnly s' = growOnly s" "allowed s' = allowed s" "actor s' = actor s"
    using ApplySnapshot_cases [OF sn(2)] d by metis
  have "\<forall>(k, r) \<in> set (map snap_reg (sn_Registers snap)). reg_ok (is_go s d) r"
    using go(1) by (auto simp: snap_reg_def reg_ok_def mk_row_def)
  then show ?thesis
    using ApplySnapshot_effect [OF sn(2) store_okD(1) [OF assms(1)] u] go True sn
    by (simp add: d delta_regs_def delta_ctrs_def)
next
  case False
  obtain go: "checkOps s (d_Domain dl) (d_Ops dl) = None" "d_Domain dl \<in> set (allowed s)"
      "growOnly s' = growOnly s" "allowed s' = allowed s" "actor s' = actor s"
    using Merge_ops_cases [OF assms(3) False] by metis
  have "\<forall>(k, r) \<in> set (regs_of (d_Ops dl)). reg_ok (is_go s (d_Domain dl)) r"
    using go(1) op_regs_ok [of s "d_Domain dl"] by (fastforce simp: checkOps_None_iff)
  then show ?thesis
    using Merge_ops_effect [OF assms(3) False store_okD(1) [OF assms(1)]] go False
    by (simp add: d_def delta_target_def delta_regs_def delta_ctrs_def)
qed

lemma Merge_effect:
  assumes "store_ok s" "delta_wf dl" "Merge now s (Some dl) = (Inr n, s')"
  defines "d \<equiv> delta_target dl"
  shows "dreg d (tables s') = merge_map (reg_merge (is_go s d)) (delta_regs dl) (dreg d (tables s))"
    and "dctr d (tables s') = merge_map max_totals (delta_ctrs dl) (dctr d (tables s))"
    and "\<forall>(k, r) \<in> set (delta_regs dl). reg_ok (is_go s d) r"
    and "same_outside d (tables s) (tables s')" "d \<in> set (allowed s)"
    and "growOnly s' = growOnly s" "allowed s' = allowed s" "actor s' = actor s"
  using Merge_effect_all [OF assms(1-3)] unfolding d_def by auto

text \<open>A refused delta changes nothing at all.\<close>

lemma Merge_error: "Merge now s od = (Inl e, s') \<Longrightarrow> s' = s"
  by (auto simp: Merge_def ApplySnapshot_def inTx_def split: option.splits if_splits prod.splits sum.splits)

lemma ApplySnapshot_error: "ApplySnapshot now s snap = (Inl e, s') \<Longrightarrow> s' = s"
  by (auto simp: ApplySnapshot_def inTx_def split: option.splits if_splits prod.splits sum.splits)

lemma Compact_error: "Compact s d keep = (Inl e, s') \<Longrightarrow> s' = s"
  by (auto simp: Compact_def inTx_def split: if_splits prod.splits sum.splits)

lemma local_error:
  "local now s d k f kind v = (Inl e, s') \<Longrightarrow> s' = s \<or> s' = s\<lparr>clk := snd (tick now (actor s) (clk s))\<rparr>"
  by (auto simp: local_def inTx_def split: option.splits if_splits prod.splits sum.splits)

lemma Store_Add_error:
  "Store_Add now s d k f x = (Inl e, s') \<Longrightarrow> s' = s \<or> s' = s\<lparr>clk := snd (tick now (actor s) (clk s))\<rparr>"
  by (auto simp: Store_Add_def inTx_def split: option.splits if_splits prod.splits sum.splits)

end
