(* ===== verification/Crdt_Safety.thy ===== *)
theory Crdt_Safety
  imports Crdt_Replica
begin

text \<open>
  The guarantees of a single replica, whatever its callers and peers do. A step of the
  replica is any call of an exported mutating method, successful or refused, with any
  arguments: peers are not assumed honest.
\<close>

subsection \<open>Steps of a replica\<close>

inductive rstep :: "Store \<Rightarrow> Store \<Rightarrow> bool" where
  set: "rstep s (snd (Store_Set now s d k f v))"
| delete: "rstep s (snd (Store_Delete now s d k f))"
| add: "rstep s (snd (Store_Add now s d k f x))"
| merge: "delta_wf dl \<Longrightarrow> rstep s (snd (Merge nows s (Some dl)))"
| snapshot: "unique_keys (sn_VV snap) \<Longrightarrow> rstep s (snd (ApplySnapshot nows s snap))"
| compact: "rstep s (snd (Compact s d keep))"

text \<open>Every step is one of four kinds of change, or none but a clock tick.\<close>

definition ticked :: "Store \<Rightarrow> Store \<Rightarrow> bool" where
  "ticked s s' \<longleftrightarrow> (\<exists>c. s' = s\<lparr>clk := c\<rparr>)"

definition appended :: "Store \<Rightarrow> Store \<Rightarrow> bool" where
  "appended s s' \<longleftrightarrow> (\<exists>now d k f kind v tx c n.
     appendLocal s (tables s) (localOp now s d k f kind v) = Inr tx \<and>
     s' = s\<lparr>tables := tx, clk := c, localChanges := n\<rparr> \<and> d \<in> set (allowed s) \<and> (is_go s d \<longrightarrow> kind \<noteq> OpDel))"

lemma ticked_refl [simp]: "ticked s s"
  unfolding ticked_def by (rule exI [of _ "clk s"]) simp

lemma local_kinds: "ticked s (snd (local now s d k f kind v)) \<or> appended s (snd (local now s d k f kind v))"
proof (cases "local now s d k f kind v")
  case (Pair r s')
  show ?thesis
  proof (cases r)
    case (Inl e)
    then show ?thesis using local_error [of now s d k f kind v e s'] Pair by (auto simp: ticked_def [of s "s\<lparr>clk := _\<rparr>"])
  next
    case (Inr u)
    then show ?thesis using local_cases [of now s d k f kind v u s'] Pair unfolding appended_def by (metis snd_conv)
  qed
qed

lemma Store_Add_kinds: "ticked s (snd (Store_Add now s d k f x)) \<or> appended s (snd (Store_Add now s d k f x))"
proof (cases "Store_Add now s d k f x")
  case (Pair r s')
  show ?thesis
  proof (cases r)
    case (Inl e)
    then show ?thesis using Store_Add_error [of now s d k f x e s'] Pair by (auto simp: ticked_def [of s "s\<lparr>clk := _\<rparr>"])
  next
    case (Inr u)
    then show ?thesis using Store_Add_cases [of now s d k f x u s'] Pair
      unfolding appended_def by (metis snd_conv OpKind.distinct(7))
  qed
qed

lemma rstep_kinds:
  assumes "rstep s s'"
  obtains (ticked) "ticked s s'" | (appended) "appended s s'"
  | (merged) nows dl n where "delta_wf dl" "Merge nows s (Some dl) = (Inr n, s')"
  | (applied) nows snap where "unique_keys (sn_VV snap)" "ApplySnapshot nows s snap = (Inr (), s')"
  | (compacted) d keep n where "Compact s d keep = (Inr n, s')"
  using assms
proof cases
  case (merge dl nows)
  then show thesis using Merge_error [of nows s "Some dl"] merged ticked
    by (cases "Merge nows s (Some dl)"; cases "fst (Merge nows s (Some dl))") auto
next
  case (snapshot snap nows)
  then show thesis using ApplySnapshot_error [of nows s snap] applied ticked
    by (cases "ApplySnapshot nows s snap"; cases "fst (ApplySnapshot nows s snap)") auto
next
  case (compact d keep)
  then show thesis using Compact_error [of s d keep] compacted ticked
    by (cases "Compact s d keep"; cases "fst (Compact s d keep)") auto
next
  case (set now d k f v)
  then show thesis using local_kinds [of s now d k f OpSet v] ticked appended by (simp add: Store_Set_def) blast
next
  case (delete now d k f)
  then show thesis using local_kinds [of s now d k f OpDel "[]"] ticked appended by (simp add: Store_Delete_def) blast
next
  case (add now d k f x)
  then show thesis using Store_Add_kinds [of s now d k f x] ticked appended by blast
qed

lemma rstep_static:
  assumes "rstep s s'"
  shows "allowed s' = allowed s" "growOnly s' = growOnly s" "actor s' = actor s"
  using assms
  by (induction rule: rstep.induct)
    (auto simp: Store_Set_def Store_Delete_def Store_Add_def local_def Merge_def ApplySnapshot_def
      Compact_def inTx_def split: option.splits prod.splits sum.splits)

lemma ticked_store_ok: "ticked s s' \<Longrightarrow> store_ok s \<Longrightarrow> store_ok s'"
  by (auto simp: ticked_def store_ok_def go_ok_def is_go_def)

lemma appended_store_ok: "appended s s' \<Longrightarrow> store_ok s \<Longrightarrow> store_ok s'"
  by (auto simp: appended_def intro: store_ok_appendLocal)

lemma rstep_store_ok: "rstep s s' \<Longrightarrow> store_ok s \<Longrightarrow> store_ok s'"
  by (erule rstep_kinds)
    (auto intro: ticked_store_ok appended_store_ok Merge_store_ok ApplySnapshot_store_ok Compact_store_ok)

lemma rsteps_store_ok: "rstep\<^sup>*\<^sup>* s s' \<Longrightarrow> store_ok s \<Longrightarrow> store_ok s'"
  by (induction rule: rtranclp_induct) (auto intro: rstep_store_ok)

lemma rsteps_static:
  "rstep\<^sup>*\<^sup>* s s' \<Longrightarrow> allowed s' = allowed s \<and> growOnly s' = growOnly s \<and> actor s' = actor s"
  by (induction rule: rtranclp_induct) (auto simp: rstep_static)

lemma Open_store_ok:
  assumes "Open now empty_db a domains = Inr s"
  shows "store_ok s"
  using assms
  by (auto simp: Open_def Let_def store_ok_def norm_rows_def keys_ok_def log_ok_def go_ok_def
      dreg_def metaFor_def empty_db_def split: if_splits)

subsection \<open>Consequences of the merge interface\<close>

lemma is_go_cong: "growOnly s' = growOnly s \<Longrightarrow> is_go s' d = is_go s d"
  by (simp add: is_go_def)

lemma ops_same_state:
  assumes "store_ok s" "Merge nows s (Some dl) = (Inr n, s1)" "Merge nows' s (Some dl') = (Inr n', s2)"
    and "\<not> d_SnapshotRequired dl" "\<not> d_SnapshotRequired dl'" "d_Domain dl' = d_Domain dl"
    and "set (d_Ops dl') = set (d_Ops dl)"
  shows "dreg (d_Domain dl) (tables s1) = dreg (d_Domain dl) (tables s2)"
    "dctr (d_Domain dl) (tables s1) = dctr (d_Domain dl) (tables s2)"
    "metaFor (tables s1) (d_Domain dl) a = metaFor (tables s2) (d_Domain dl) a"
proof -
  let ?d = "d_Domain dl"
  have n: "norm_rows (tables s)" using store_okD(1) [OF assms(1)] .
  note e1 = Merge_ops_effect [OF assms(2,4) n] and e2 = Merge_ops_effect [OF assms(3,5) n]
  have wf: "checkOps s ?d (d_Ops dl) = None" using Merge_ops_cases [OF assms(2,4)] by metis
  have regs: "set (regs_of (d_Ops dl)) = set (regs_of (d_Ops dl'))"
    "set (ctrs_of (d_Ops dl)) = set (ctrs_of (d_Ops dl'))" using assms(7) by auto
  have ok: "\<forall>(k, r) \<in> set (regs_of (d_Ops dl)). reg_ok (is_go s ?d) r"
    using wf op_regs_ok [of s ?d] by (fastforce simp: checkOps_None_iff)
  show "dreg ?d (tables s1) = dreg ?d (tables s2)"
    unfolding e1(1) e2(1) [unfolded assms(6)] using go_ok_reg_ok [OF store_okD(4) [OF assms(1)]]
    by (intro reg.merge_map_set_determined [OF regs(1) ok]) auto
  show "dctr ?d (tables s1) = dctr ?d (tables s2)"
    unfolding e1(2) e2(2) [unfolded assms(6)]
    by (intro ctr.merge_map_set_determined [OF regs(2)]) auto
  have "(dlog ?d (tables s1) (a, q) = None) = (dlog ?d (tables s2) (a, q) = None)" for q
    unfolding e1(3) e2(3) [unfolded assms(6)] merge_map_None_iff using assms(7) by simp
  then have "contiguousEnd (tables s1) ?d a m = contiguousEnd (tables s2) ?d a m" for m
    by (intro antisym; intro contiguousEnd_reaches [OF contiguousEnd_ge]) (metis contiguousEnd_rows)+
  then show "metaFor (tables s1) ?d a = metaFor (tables s2) ?d a"
    using e1(4) [of a] e2(4) [of a] assms(6,7) by simp
qed

lemma Merge_twice_state:
  assumes "store_ok s" "delta_wf dl" "Merge nows s (Some dl) = (Inr n, s1)" "Merge nows' s1 (Some dl) = (Inr m, s2)"
  shows "dreg (delta_target dl) (tables s2) = dreg (delta_target dl) (tables s1)"
    "dctr (delta_target dl) (tables s2) = dctr (delta_target dl) (tables s1)"
proof -
  let ?d = "delta_target dl"
  have ok1: "store_ok s1" using Merge_store_ok [OF assms(1-3)] .
  note e1 = Merge_effect [OF assms(1-3)] and e2 = Merge_effect [OF ok1 assms(2,4)]
  have r0: "\<forall>k r. dreg ?d (tables s) k = Some r \<longrightarrow> reg_ok (is_go s ?d) r"
    using go_ok_reg_ok [OF store_okD(4) [OF assms(1)]] by blast
  show "dreg ?d (tables s2) = dreg ?d (tables s1)"
    unfolding e2(1) is_go_cong [OF e1(6)] e1(1) by (rule reg.merge_map_twice [OF e1(3) r0])
  show "dctr ?d (tables s2) = dctr ?d (tables s1)"
    unfolding e2(2) e1(2) by (rule ctr.merge_map_twice) auto
qed

lemma Merge_swap_state:
  assumes ok: "store_ok s" and wf: "delta_wf dl" "delta_wf dl'"
    and m: "Merge n1 s (Some dl) = (Inr i1, s1)" "Merge n2 s1 (Some dl') = (Inr i2, s12)"
      "Merge n3 s (Some dl') = (Inr i3, s2)" "Merge n4 s2 (Some dl) = (Inr i4, s21)"
    and d: "delta_target dl = d" "delta_target dl' = d"
  shows "dreg d (tables s12) = dreg d (tables s21)" "dctr d (tables s12) = dctr d (tables s21)"
proof -
  have ok1: "store_ok s1" "store_ok s2" using Merge_store_ok ok wf m by blast+
  note e1 = Merge_effect [OF ok wf(1) m(1), unfolded d] and e12 = Merge_effect [OF ok1(1) wf(2) m(2), unfolded d]
    and e2 = Merge_effect [OF ok wf(2) m(3), unfolded d] and e21 = Merge_effect [OF ok1(2) wf(1) m(4), unfolded d]
  note g = is_go_cong [OF e1(6), of d] is_go_cong [OF e2(6), of d]
  have r0: "\<forall>k r. dreg d (tables s) k = Some r \<longrightarrow> reg_ok (is_go s d) r"
    using go_ok_reg_ok [OF store_okD(4) [OF ok]] by blast
  show "dreg d (tables s12) = dreg d (tables s21)"
    unfolding e12(1) e21(1) g e1(1) e2(1) by (rule reg.merge_map_swap [OF e1(3) e2(3) r0])
  show "dctr d (tables s12) = dctr d (tables s21)"
    unfolding e12(2) e21(2) e1(2) e2(2) by (rule ctr.merge_map_swap) auto
qed

subsection \<open>What a step can do to a domain\<close>

lemma appended_dreg:
  assumes "appended s s'" "store_ok s"
  obtains e es cs where "dreg e (tables s') = merge_map (reg_merge (is_go s e)) es (dreg e (tables s))"
    "dctr e (tables s') = merge_map max_totals cs (dctr e (tables s))"
    "\<forall>(k, r) \<in> set es. reg_ok (is_go s e) r" "same_outside e (tables s) (tables s')" "e \<in> set (allowed s)"
proof -
  obtain now d k f kind v tx c n where a: "appendLocal s (tables s) (localOp now s d k f kind v) = Inr tx"
    "s' = s\<lparr>tables := tx, clk := c, localChanges := n\<rparr>" "d \<in> set (allowed s)" "is_go s d \<longrightarrow> kind \<noteq> OpDel"
    using assms(1) unfolding appended_def by blast
  let ?o = "localOp now s d k f kind v"
  have o: "op_Domain ?o = d" "op_Actor ?o = actor s" "op_Kind ?o = kind"
    by (simp_all add: localOp_def mkOp_def)
  note ef = appendLocal_effect [OF a(1) store_okD(1) [OF assms(2)], unfolded o, OF refl a(4)]
  let ?op = "?o\<lparr>op_Seq := fst (metaFor (tables s) d (actor s)) + 1\<rparr>"
  have "\<forall>(k, r) \<in> set (op_regs ?op). reg_ok (is_go s d) r"
    using a(4) o by (intro op_regs_ok) simp
  then show thesis using that [of d "op_regs ?op" "op_ctrs ?op"] ef a(2,3) by simp
qed

lemma rstep_domain:
  assumes "rstep s s'" "store_ok s"
  shows "\<exists>es cs. dreg d (tables s') = merge_map (reg_merge (is_go s d)) es (dreg d (tables s)) \<and>
    dctr d (tables s') = merge_map max_totals cs (dctr d (tables s)) \<and>
    (\<forall>(k, r) \<in> set es. reg_ok (is_go s d) r) \<and>
    (d \<notin> set (allowed s) \<longrightarrow> es = [] \<and> cs = [] \<and> dlog d (tables s') \<subseteq>\<^sub>m dlog d (tables s))"
proof -
  have quiet: ?thesis if "dreg d (tables s') = dreg d (tables s)" "dctr d (tables s') = dctr d (tables s)"
      "dlog d (tables s') \<subseteq>\<^sub>m dlog d (tables s)"
    using that by (intro exI [of _ "[]"]) simp
  have outside: ?thesis if "same_outside e (tables s) (tables s')" "d \<noteq> e" for e
    using that by (intro quiet) (auto simp: same_outside_def)
  from assms(1) show ?thesis
  proof (cases rule: rstep_kinds)
    case ticked
    then show ?thesis by (intro quiet) (auto simp: ticked_def)
  next
    case appended
    from appended_dreg [OF this assms(2)] obtain e es cs where
      e: "dreg e (tables s') = merge_map (reg_merge (is_go s e)) es (dreg e (tables s))"
      "dctr e (tables s') = merge_map max_totals cs (dctr e (tables s))"
      "\<forall>(k, r) \<in> set es. reg_ok (is_go s e) r" "same_outside e (tables s) (tables s')" "e \<in> set (allowed s)" .
    then show ?thesis using outside [OF e(4)] by (cases "d = e") blast+
  next
    case (merged nows dl n)
    note ef = Merge_effect [OF assms(2) merged]
    then show ?thesis using outside [OF ef(4)] by (cases "d = delta_target dl") blast+
  next
    case (applied nows snap)
    let ?e = "sn_Domain snap"
    note ef = ApplySnapshot_effect [OF applied(2) store_okD(1) [OF assms(2)] applied(1)]
    obtain go: "\<forall>r \<in> set (sn_Registers snap). is_go s ?e \<longrightarrow> \<not> rs_Deleted r" "?e \<in> set (allowed s)"
      using ApplySnapshot_cases [OF applied(2)] by metis
    have "\<forall>(k, r) \<in> set (map snap_reg (sn_Registers snap)). reg_ok (is_go s ?e) r"
      using go(1) by (auto simp: snap_reg_def reg_ok_def mk_row_def)
    then show ?thesis using ef(1,2) go(2) outside [OF ef(6)] by (cases "d = ?e") blast+
  next
    case (compacted e keep n)
    note ef = Compact_effect [OF compacted assms(2)]
    have "dlog e (tables s') \<subseteq>\<^sub>m dlog e (tables s)"
      by (auto simp: map_le_def ef(7) split: if_splits)
    then show ?thesis using quiet [OF ef(1,2)] outside [OF ef(5)] by (cases "d = e") blast+
  qed
qed

lemma rstep_grow_only:
  assumes "rstep s s'" "store_ok s" "is_go s d" "dreg d (tables s) k = Some r"
  shows "\<exists>r'. dreg d (tables s') k = Some r' \<and> \<not> r_deleted r' \<and> \<not> row_wins True r r'"
proof -
  obtain es where es: "dreg d (tables s') = merge_map (reg_merge (is_go s d)) es (dreg d (tables s))"
    "\<forall>(k, r) \<in> set es. reg_ok (is_go s d) r" using rstep_domain [OF assms(1,2), of d] by blast
  have r: "\<forall>k r. dreg d (tables s) k = Some r \<longrightarrow> reg_ok (is_go s d) r"
    using go_ok_reg_ok [OF store_okD(4) [OF assms(2)]] by blast
  from reg.merge_map_ub [OF es(2) r, of k r] assms(4) obtain w where
    "dreg d (tables s') k = Some w" "reg_le (is_go s d) r w" "reg_ok (is_go s d) w" using es(1) by metis
  then show ?thesis using assms(3) by (auto simp: reg_le_def reg_ok_def)
qed

lemma row_wins_trans: "\<not> row_wins go a b \<Longrightarrow> \<not> row_wins go b c \<Longrightarrow> \<not> row_wins go a c"
  using reg_le_trans [of go a b c] by (simp add: reg_le_def)

lemma rsteps_grow_only:
  assumes "rstep\<^sup>*\<^sup>* s s'" "store_ok s" "is_go s d" "dreg d (tables s) k = Some r"
  shows "\<exists>r'. dreg d (tables s') k = Some r' \<and> \<not> r_deleted r' \<and> \<not> row_wins True r r'"
  using assms(1)
proof (induction rule: rtranclp_induct)
  case base
  then show ?case using assms store_okD(4) [OF assms(2)]
    by (cases k) (auto simp: go_ok_def row_wins_def)
next
  case (step t u)
  then obtain r' where r': "dreg d (tables t) k = Some r'" "\<not> row_wins True r r'" by blast
  have "is_go t d" "store_ok t"
    using step.hyps(1) assms(2,3) rsteps_static rsteps_store_ok by (auto simp: is_go_def)
  from rstep_grow_only [OF step.hyps(2) this(2,1) r'(1)] show ?case
    using r'(2) row_wins_trans by blast
qed

lemma rsteps_outside_allowed:
  assumes "rstep\<^sup>*\<^sup>* s s'" "store_ok s" "d \<notin> set (allowed s)"
  shows "dreg d (tables s') = dreg d (tables s) \<and> dctr d (tables s') = dctr d (tables s) \<and>
    dlog d (tables s') \<subseteq>\<^sub>m dlog d (tables s)"
  using assms(1)
proof (induction rule: rtranclp_induct)
  case (step t u)
  have "d \<notin> set (allowed t)" "store_ok t"
    using step.hyps(1) assms(2,3) rsteps_static rsteps_store_ok by auto
  then show ?case using rstep_domain [OF step.hyps(2), of d] step.IH map_le_trans by fastforce
qed simp

lemma mergeOp_applies: "mergeOp s d op st = Inr st' \<Longrightarrow> op_applies op"
proof -
  assume "mergeOp s d op st = Inr st'"
  then obtain tx tx' op' where "applyToState s tx op' = Inr tx'" "op' = op \<or> op' = op\<lparr>op_Domain := d\<rparr>"
    by (auto simp: mergeOp_def Let_def split: prod.splits if_splits)
  then have "op_applies op'" "op' = op \<or> op' = op\<lparr>op_Domain := d\<rparr>" using applyToState_applies by blast+
  then show ?thesis by (auto simp: op_applies_def split: OpKind.splits)
qed

lemma foldE_mergeOp_applies:
  "foldE (mergeOp s d) ops st = Inr st' \<Longrightarrow> op \<in> set ops \<Longrightarrow> op_applies op"
  by (induction ops arbitrary: st) (auto dest: mergeOp_applies)

text \<open>An operation no replica may take into domain \<open>d\<close>.\<close>

definition bad_op :: "Store \<Rightarrow> string \<Rightarrow> Op \<Rightarrow> bool" where
  "bad_op s d op \<longleftrightarrow> \<not> op_applies op \<or> op_Actor op = [] \<or> op_Seq op = 0 \<or> op_Key op = [] \<or> op_Field op = [] \<or>
     Actor (op_Stamp op) \<noteq> op_Actor op \<or> op_Kind op = OpDel \<and> is_go s d \<or> op_Domain op \<noteq> [] \<and> op_Domain op \<noteq> d"

lemma Merge_ok_no_bad_op:
  assumes "Merge nows s (Some dl) = (Inr n, s')" "\<not> d_SnapshotRequired dl" "op \<in> set (d_Ops dl)"
  shows "\<not> bad_op s (d_Domain dl) op"
  using Merge_ops_cases [OF assms(1,2)] foldE_mergeOp_applies [OF _ assms(3)] assms(3)
  unfolding bad_op_def checkOps_None_iff by metis

subsection \<open>The guarantees\<close>

text \<open>
  Concrete replicas for the witnesses: \<open>''A''\<close> with an ordinary domain, the same with its
  audit domain, and a delta and an operation of a peer \<open>''B''\<close>.
\<close>

definition exA :: Store where
  "exA = \<lparr>tables = empty_db, actor = ''A'', clk = newClock, allowed = [''d''], growOnly = [],
     localChanges = 0\<rparr>"

definition exAudit :: Store where
  "exAudit = \<lparr>tables = empty_db, actor = ''A'', clk = newClock,
     allowed = [''sql:acctsec_sensitive_actions''], growOnly = [''sql:acctsec_sensitive_actions''],
     localChanges = 0\<rparr>"

definition exOp :: "nat \<Rightarrow> string \<Rightarrow> int \<Rightarrow> Op" where
  "exOp n v w = \<lparr>op_Domain = ''d'', op_Actor = ''B'', op_Seq = n, op_Key = ''k'', op_Field = ''f'',
     op_Kind = OpSet, op_Value = v, op_Stamp = Stamp w 0 ''B''\<rparr>"

definition exDelta :: "Op list \<Rightarrow> Delta" where
  "exDelta ops = \<lparr>d_Domain = ''d'', d_SenderVV = [], d_Ops = ops, d_SnapshotRequired = False,
     d_Snapshot = None, d_Truncated = False\<rparr>"

lemma exA_Open: "Open 0 empty_db ''A'' [''d''] = Inr exA"
  by code_simp

lemma exAudit_Open: "Open 0 empty_db ''A'' [''sql:acctsec_sensitive_actions''] = Inr exAudit"
  by code_simp

lemmas ex_ok = exA_Open [THEN Open_store_ok] exAudit_Open [THEN Open_store_ok]

lemma exDelta_wf [simp]: "delta_wf (exDelta ops)" "\<not> d_SnapshotRequired (exDelta ops)"
  "d_Domain (exDelta ops) = ''d''" "d_Ops (exDelta ops) = ops" "delta_target (exDelta ops) = ''d''"
  by (simp_all add: delta_wf_def exDelta_def delta_target_def)

text \<open>
  Delivery order and duplication do not matter: two deltas for one domain that
  carry the same set of operations, in any order and with any repetitions, leave a replica
  with the same registers, the same counters and the same version vector and floor.
\<close>

theorem merge_order_independent:
  assumes "store_ok s" "Merge nows s (Some dl) = (Inr n, s1)" "Merge nows' s (Some dl') = (Inr n', s2)"
    and "\<not> d_SnapshotRequired dl" "\<not> d_SnapshotRequired dl'" "d_Domain dl' = d_Domain dl"
    and "set (d_Ops dl') = set (d_Ops dl)"
  shows "dreg (d_Domain dl) (tables s1) = dreg (d_Domain dl) (tables s2) \<and>
    dctr (d_Domain dl) (tables s1) = dctr (d_Domain dl) (tables s2) \<and>
    (\<forall>a. metaFor (tables s1) (d_Domain dl) a = metaFor (tables s2) (d_Domain dl) a)"
  using ops_same_state [OF assms] by blast

text \<open>
  Two payloads for one domain commute, whether each is a list of operations or a
  snapshot and whoever sent it: merging them in either order gives the same registers and
  counters.
\<close>

theorem merge_commutes:
  assumes "store_ok s" "delta_wf dl" "delta_wf dl'"
    and "Merge n1 s (Some dl) = (Inr i1, s1)" "Merge n2 s1 (Some dl') = (Inr i2, s12)"
      "Merge n3 s (Some dl') = (Inr i3, s2)" "Merge n4 s2 (Some dl) = (Inr i4, s21)"
    and "delta_target dl = d" "delta_target dl' = d"
  shows "dreg d (tables s12) = dreg d (tables s21) \<and> dctr d (tables s12) = dctr d (tables s21)"
  using Merge_swap_state [OF assms] by blast

definition exMerged :: "Delta \<Rightarrow> Store \<Rightarrow> Store" where
  "exMerged dl s = snd (Merge (\<lambda>_. 6) s (Some dl))"

definition exSnap :: Delta where
  "exSnap = (exDelta [])\<lparr>d_SnapshotRequired := True,
     d_Snapshot := Some (Store_Snapshot 9 (tables (exMerged (exDelta [exOp 1 ''v'' 5]) exA)) ''d'')\<rparr>"

lemma exSnap_facts [simp]: "delta_wf exSnap" "delta_target exSnap = ''d''"
  by code_simp+

text \<open>
  Merging the same payload a second time changes no register and no counter.
\<close>

theorem merge_idempotent:
  assumes "store_ok s" "delta_wf dl" "Merge nows s (Some dl) = (Inr n, s1)" "Merge nows' s1 (Some dl) = (Inr m, s2)"
  shows "dreg (delta_target dl) (tables s2) = dreg (delta_target dl) (tables s1) \<and>
    dctr (delta_target dl) (tables s2) = dctr (delta_target dl) (tables s1)"
  using Merge_twice_state [OF assms] by blast

text \<open>
  Claim C29. An entry of a grow-only domain stays readable: after any sequence of local calls,
  peer deltas, peer snapshots and compactions it is still there and no tombstone, and the
  row it holds is the original one or one that wins under the merge rule of grow-only domains: a row
  with an earlier stamp, or, the code's tie-break, one with the same stamp and
  smaller value bytes. A later write never replaces it.
\<close>

theorem grow_only_entry_permanent:
  assumes "store_ok s" "rstep\<^sup>*\<^sup>* s s'" "d \<in> set (growOnly s)"
    and "map_of (crdt_reg (tables s)) (d, k, f) = Some r"
  shows "\<exists>r'. map_of (crdt_reg (tables s')) (d, k, f) = Some r' \<and> Get s' d k f = Some (r_value r') \<and>
    (r' = r \<or> r_stamp r' < r_stamp r \<or> r_stamp r' = r_stamp r \<and> r_value r' < r_value r)"
proof -
  have go: "is_go s d" and r: "dreg d (tables s) (k, f) = Some r" using assms(3,4) by (auto simp: is_go_def dreg_def)
  have live: "\<not> r_deleted r" using store_okD(4) [OF assms(1)] go r by (auto simp: go_ok_def)
  from rsteps_grow_only [OF assms(2,1) go r] obtain r' where
    r': "dreg d (tables s') (k, f) = Some r'" "\<not> r_deleted r'" "\<not> row_wins True r r'" by blast
  then show ?thesis using live
    by (cases r; cases r') (auto simp: dreg_def Get_def row_wins_def)
qed

theorem grow_only_entry_permanent_witness:
  "\<exists>r'. map_of (crdt_reg (tables (snd (Store_Delete 9
       (snd (Store_Set 5 exAudit ''sql:acctsec_sensitive_actions'' ''e1'' ''f'' ''login''))
       ''sql:acctsec_sensitive_actions'' ''e1'' ''f'')))) (''sql:acctsec_sensitive_actions'', ''e1'', ''f'') = Some r'"
proof -
  let ?d = "''sql:acctsec_sensitive_actions''"
  let ?s = "snd (Store_Set 5 exAudit ?d ''e1'' ''f'' ''login'')"
  have ok: "store_ok ?s" by (rule rstep_store_ok [OF rstep.set ex_ok(2)])
  have st: "rstep\<^sup>*\<^sup>* ?s (snd (Store_Delete 9 ?s ?d ''e1'' ''f''))" by (intro r_into_rtranclp rstep.delete)
  have r: "?d \<in> set (growOnly ?s)"
    "map_of (crdt_reg (tables ?s)) (?d, ''e1'', ''f'') = Some (RegRow ''login'' False (Stamp 5 0 ''A''))"
    by code_simp+
  show ?thesis using grow_only_entry_permanent [OF ok st r] by blast
qed

text \<open>
  The allow-list cannot be bypassed: for a domain that is not on it, no sequence
  of local calls, peer deltas, peer snapshots and compactions changes a register or a
  counter or adds a row to the operation log.
\<close>

theorem allow_list_enforced:
  assumes "store_ok s" "rstep\<^sup>*\<^sup>* s s'" "d \<notin> set (allowed s)"
  shows "dreg d (tables s') = dreg d (tables s) \<and> dctr d (tables s') = dctr d (tables s) \<and>
    dlog d (tables s') \<subseteq>\<^sub>m dlog d (tables s)"
  using rsteps_outside_allowed [OF assms(2,1,3)] .

theorem allow_list_enforced_witness:
  "dreg ''sql:sessions'' (tables (snd (Store_Set 5 exA ''sql:sessions'' ''k'' ''f'' ''v''))) = dreg ''sql:sessions'' (tables exA)"
proof -
  have st: "rstep\<^sup>*\<^sup>* exA (snd (Store_Set 5 exA ''sql:sessions'' ''k'' ''f'' ''v''))"
    by (intro r_into_rtranclp rstep.set)
  have "''sql:sessions'' \<notin> set (allowed exA)" by (simp add: exA_def)
  from allow_list_enforced [OF ex_ok(1) st this] show ?thesis by blast
qed

text \<open>
  A delta that carries even one operation the engine must not take (unknown kind,
  malformed counter payload, missing actor, sequence number, key or field, a stamp of
  another actor, a tombstone for a grow-only domain, an operation of another domain) is
  refused as a whole and leaves the store exactly as it was, its clock included.
\<close>

theorem bad_delta_refused:
  assumes "\<not> d_SnapshotRequired dl" "op \<in> set (d_Ops dl)" "bad_op s (d_Domain dl) op"
  shows "\<exists>e. Merge nows s (Some dl) = (Inl e, s)"
  using Merge_ok_no_bad_op [OF _ assms(1,2)] Merge_error [of nows s "Some dl"] assms(3)
  by (cases "Merge nows s (Some dl)"; cases "fst (Merge nows s (Some dl))") auto

text \<open>
  Compaction is invisible to readers: it changes no register, no counter and no
  version vector entry; only the log shrinks, and per actor the floor rises to leave
  the newest \<open>keepPerActor\<close> operations.
\<close>

theorem compact_keeps_state:
  assumes "store_ok s" "Compact s d keep = (Inr n, s')"
  shows "Get s' e k f = Get s e k f \<and> dctr e (tables s') = dctr e (tables s) \<and>
    fst (metaFor (tables s') d a) = fst (metaFor (tables s) d a) \<and>
    snd (metaFor (tables s') d a) = max (snd (metaFor (tables s) d a)) (nat (int (fst (metaFor (tables s) d a)) - keep))"
  using Compact_effect(1) [OF assms(2,1), of e] Compact_effect(2,6) [OF assms(2,1)]
  by (auto simp: Get_def dreg_def fun_eq_iff)

end
