(* ===== verification/Crdt_Local.thy ===== *)
theory Crdt_Local
  imports Crdt_Safety
begin

text \<open>
  Local calls and the reads after them: the counter payload round trip, exact addition with
  overflow refused, reading one's own writes, and the hybrid logical clock's order with the
  one way it can fail.
\<close>

subsection \<open>Counter payloads\<close>

lemma decode_encode:
  assumes "in_int64 p" "in_int64 n"
  shows "decodeCounter (encodeCounter p n) = (if p < 0 \<or> n < 0 then Inl ErrCounterPayload else Inr (p, n))"
  using SplitN2_join [OF FormatInt_no_colon, of p "FormatInt n"] assms
  by (simp add: decodeCounter_def encodeCounter_def ParseInt_FormatInt)

subsection \<open>Sums over a table\<close>

lemma sum_list_upsert:
  fixes g :: "'k \<times> 'r \<Rightarrow> int"
  assumes "unique_keys t"
  shows "sum_list (map g (filter P (upsert k r t))) = sum_list (map g (filter P t))
    - (case map_of t k of None \<Rightarrow> 0 | Some c \<Rightarrow> if P (k, c) then g (k, c) else 0) + (if P (k, r) then g (k, r) else 0)"
  using assms
proof (induction t)
  case (Cons e t)
  obtain k' r' where e: "e = (k', r')" by (cases e)
  have "upsert k r (e # t) = (if k' = k then (k, r) # t else e # upsert k r t)"
    by (simp add: upsert_def e)
  then show ?case using Cons by (auto simp: e unique_keys_Cons)
qed (simp add: upsert_def)

lemma foldl_wrap64:
  "foldl (\<lambda>total x. wrap64 (total + wrap64 (g x))) (wrap64 a) xs = wrap64 (a + sum_list (map g xs))"
proof (induction xs arbitrary: a)
  case (Cons x xs)
  show ?case using Cons [of "a + g x"] by (simp add: wrap64_add add.assoc)
qed simp

definition net :: "(string \<times> string \<times> string \<times> string) \<times> (int \<times> int) \<Rightarrow> int" where
  "net e = fst (snd e) - snd (snd e)"

definition at :: "string \<Rightarrow> string \<Rightarrow> string \<Rightarrow> (string \<times> string \<times> string \<times> string) \<times> (int \<times> int) \<Rightarrow> bool" where
  "at d k f e \<longleftrightarrow> fst e = (d, k, f, snd (snd (snd (fst e))))"

lemma Counter_sum: "Counter s d k f = wrap64 (sum_list (map net (filter (at d k f) (crdt_ctr (tables s)))))"
proof -
  have P: "(\<lambda>((d', k', f', a), _). d' = d \<and> k' = k \<and> f' = f) = at d k f" by (auto simp: at_def fun_eq_iff)
  have F: "(\<lambda>total ((d, k, f, a), (pos, neg)). wrap64 (total + wrap64 (pos - neg))) =
      (\<lambda>total x. wrap64 (total + wrap64 (net x)))" by (auto simp: net_def fun_eq_iff)
  have "Counter s d k f = foldl (\<lambda>total x. wrap64 (total + wrap64 (net x))) (wrap64 0)
      (filter (at d k f) (crdt_ctr (tables s)))"
    unfolding Counter_def P F by simp
  also have "\<dots> = wrap64 (0 + sum_list (map net (filter (at d k f) (crdt_ctr (tables s)))))"
    by (rule foldl_wrap64)
  finally show ?thesis by simp
qed

subsection \<open>Add\<close>

text \<open>
  The totals are what \<open>decodeCounter\<close> lets through: non-negative 64-bit numbers. The
  snapshot path does not check this, so it is a hypothesis here.
\<close>

definition totals_ok :: "db \<Rightarrow> bool" where
  "totals_ok tx \<longleftrightarrow> (\<forall>(p, n) \<in> snd ` set (crdt_ctr tx). 0 \<le> p \<and> 0 \<le> n \<and> in_int64 p \<and> in_int64 n)"

lemma ownTotals_int64: "totals_ok tx \<Longrightarrow> ownTotals tx d k f a = (p, n) \<Longrightarrow>
    0 \<le> n \<and> in_int64 p \<and> in_int64 n"
  by (auto simp: totals_ok_def ownTotals_def in_int64_def split: option.splits dest!: map_of_SomeD)

lemma addTotals_fits:
  assumes "in_int64 p" "in_int64 n" "in_int64 x" "addTotals (p, n) x = (p', n')" "0 \<le> p'" "0 \<le> n'" "0 \<le> n"
  shows "p \<le> p'" "n \<le> n'" "p' - n' = p - n + x"
proof -
  have w: "wrap64 (a + b) = a + b \<or> wrap64 (a + b) < 0" if "in_int64 a" "in_int64 b" "0 \<le> b" for a b
    using that wrap64_id [of "a + b"] wrap64_over [of "a + b"]
    by (cases "a + b < 2 ^ 63") (auto simp: in_int64_def)
  show "p \<le> p'" "n \<le> n'" "p' - n' = p - n + x"
  proof (atomize (full), cases "x = - (2 ^ 63)")
    case True
    have "wrap64 (n + wrap64 (2 ^ 63)) < 0"
      using assms(2,7) wrap64_id [of "n + - (2 ^ 63)"] by (simp add: wrap64_def in_int64_def)
    with True assms show "p \<le> p' \<and> n \<le> n' \<and> p' - n' = p - n + x" by (simp add: addTotals_def)
  next
    case False
    have i: "in_int64 (- x)" if "x < 0" using False assms(3) that by (auto simp: in_int64_def)
    show "p \<le> p' \<and> n \<le> n' \<and> p' - n' = p - n + x"
    proof (cases "0 \<le> x")
      case True
      then show ?thesis using assms w [of p x] by (auto simp: addTotals_def)
    next
      case False
      then show ?thesis
        using assms w [OF assms(2) i] wrap64_id [OF i] by (auto simp: addTotals_def)
    qed
  qed
qed

lemma addTotals_int64:
  "in_int64 p \<Longrightarrow> in_int64 n \<Longrightarrow> addTotals (p, n) x = (p', n') \<Longrightarrow> in_int64 p' \<and> in_int64 n'"
  using wrap64_in_int64 by (auto simp: addTotals_def split: if_splits)

lemma Store_Add_ctr:
  assumes "Store_Add now s d k f x = (Inr u, s')" "totals_ok (tables s)" "in_int64 x"
  obtains p n p' n' where "ownTotals (tables s) d k f (actor s) = (p, n)" "p \<le> p'" "n \<le> n'" "p' - n' = p - n + x"
    "crdt_ctr (tables s') = upsert_with max_totals (d, k, f, actor s) (p', n') (crdt_ctr (tables s))"
proof -
  obtain p n where o: "ownTotals (tables s) d k f (actor s) = (p, n)" by fastforce
  obtain p' n' where t: "addTotals (p, n) x = (p', n')" by fastforce
  have r: "in_int64 p" "in_int64 n" "0 \<le> n" using ownTotals_int64 [OF assms(2) o] by auto
  have r': "in_int64 p'" "in_int64 n'" using addTotals_int64 [OF r(1,2) t] by auto
  obtain tx v where v: "v = (case addTotals (ownTotals (tables s) d k f (actor s)) x of (p, n) \<Rightarrow> encodeCounter p n)"
    and ap: "appendLocal s (tables s) (localOp now s d k f OpInc v) = Inr tx"
    and s': "s' = s\<lparr>tables := tx, clk := snd (tick now (actor s) (clk s)), localChanges := localChanges s + 1\<rparr>"
    using Store_Add_cases [OF assms(1)] by metis
  have v: "v = encodeCounter p' n'" using v o t by simp
  let ?op = "(localOp now s d k f OpInc v)\<lparr>op_Seq := fst (metaFor (tables s) d (actor s)) + 1\<rparr>"
  obtain t1 t2 where t12: "insertOp (tables s) ?op = Inr t1" "applyToState s t1 ?op = Inr t2"
      "tx = setSeq t2 d (actor s) (fst (metaFor (tables s) d (actor s)) + 1)"
    using ap by (auto simp: appendLocal_def Let_def localOp_def mkOp_def)
  have dec: "decodeCounter v = Inr (p', n') \<and> 0 \<le> p' \<and> 0 \<le> n'"
    using t12(2) decode_encode [OF r'] v by (auto simp: applyToState_def localOp_def mkOp_def split: if_splits)
  have "crdt_ctr t1 = crdt_ctr (tables s)" using t12(1) by (auto simp: insertOp_def Let_def split: if_splits)
  then have "crdt_ctr tx = upsert_with max_totals (d, k, f, actor s) (p', n') (crdt_ctr (tables s))"
    using t12(2,3) dec by (auto simp: applyToState_def localOp_def mkOp_def mergeCounter_def setSeq_def putMeta_def
        split: prod.splits)
  then show thesis using that [OF o addTotals_fits [OF r(1,2) assms(3) t]] dec r s' by simp
qed

lemma upsert_with_upsert:
  "upsert_with f k r t = upsert k (case map_of t k of None \<Rightarrow> r | Some c \<Rightarrow> f c r) t"
  by (simp add: upsert_with_def)

lemma Store_Add_Counter:
  assumes "Store_Add now s d k f x = (Inr u, s')" "store_ok s" "totals_ok (tables s)" "in_int64 x"
  shows "Counter s' e k' f' = (if (e, k', f') = (d, k, f) then wrap64 (Counter s d k f + x) else Counter s e k' f')"
proof -
  obtain p n p' n' where o: "ownTotals (tables s) d k f (actor s) = (p, n)" "p \<le> p'" "n \<le> n'" "p' - n' = p - n + x"
    "crdt_ctr (tables s') = upsert_with max_totals (d, k, f, actor s) (p', n') (crdt_ctr (tables s))"
    by (rule Store_Add_ctr [OF assms(1,3,4)])
  let ?t = "crdt_ctr (tables s)" and ?key = "(d, k, f, actor s)"
  define r where "r = (case map_of ?t ?key of None \<Rightarrow> (p', n') | Some c \<Rightarrow> max_totals c (p', n'))"
  have u: "unique_keys ?t" using store_okD(2) [OF assms(2)] by (simp add: keys_ok_def)
  have net: "net (?key, r) = p' - n'"
    using o(1-3) by (auto simp: r_def net_def ownTotals_def max_totals_def split: option.splits)
  have old: "(case map_of ?t ?key of None \<Rightarrow> 0 | Some c \<Rightarrow> if P (?key, c) then net (?key, c) else 0) =
      (if P (?key, (p, n)) then p - n else 0)" if "\<And>c c'. P (?key, c) = P (?key, c')" for P
    using o(1) that [of "(p, n)"] by (auto simp: ownTotals_def net_def split: option.splits)
  have "sum_list (map net (filter (at e k' f') (crdt_ctr (tables s')))) =
      sum_list (map net (filter (at e k' f') ?t)) + (if (e, k', f') = (d, k, f) then x else 0)"
    unfolding o(5) upsert_with_upsert r_def [symmetric] sum_list_upsert [OF u] net
    using old [of "at e k' f'"] o(4) by (auto simp: at_def)
  then show ?thesis by (auto simp: Counter_sum wrap64_add)
qed

subsection \<open>The clock and the stored stamps\<close>

text \<open>
  The clock is at or past every stamp in the register table, so the next tick beats them
  all. \<open>Open\<close> establishes it from any stored database, and every call keeps it as long
  as the logical counter has room for one more tick.
\<close>

definition clock_ok :: "Store \<Rightarrow> bool" where
  "clock_ok s \<longleftrightarrow> (\<forall>d k r. dreg d (tables s) k = Some r \<longrightarrow> clock_past (r_stamp r) (clk s))"

definition clk_room :: "Store \<Rightarrow> bool" where
  "clk_room s \<longleftrightarrow> logical (clk s) < - 1"

definition rstep_room :: "Store \<Rightarrow> Store \<Rightarrow> bool" where
  "rstep_room s s' \<longleftrightarrow> rstep s s' \<and> clk_room s"

lemma merge_map_reg_mem:
  "merge_map (reg_merge go) es m k = Some r \<Longrightarrow> m k = Some r \<or> (k, r) \<in> set es"
proof (induction es arbitrary: m)
  case (Cons e es)
  obtain k' v where e: "e = (k', v)" by (cases e)
  from Cons.IH [OF Cons.prems [unfolded e merge_map_simps]] show ?case
    by (auto simp: e reg_merge_def split: if_splits option.splits)
qed simp

lemma observeAll_keep: "clock_past t c \<Longrightarrow> clock_past t (observeAll now i sts c)"
  by (induction sts arbitrary: i c) (auto intro: clock_past_observe_keep)

lemma observeAll_past: "t \<in> set sts \<Longrightarrow> clock_past t (observeAll now i sts c)"
  by (induction sts arbitrary: i c) (auto intro: clock_past_observe observeAll_keep)

lemma observeAll_past_map: "x \<in> set xs \<Longrightarrow> clock_past (g x) (observeAll now i (map g xs) c)"
  by (rule observeAll_past) simp

lemma clock_ok_merged:
  assumes "clock_ok s" "dreg d (tables s') = merge_map (reg_merge go) es (dreg d (tables s))"
    and "same_outside d (tables s) (tables s')"
    and "\<And>k r. (k, r) \<in> set es \<Longrightarrow> clock_past (r_stamp r) (clk s')"
    and "\<And>t. clock_past t (clk s) \<Longrightarrow> clock_past t (clk s')"
  shows "clock_ok s'"
  unfolding clock_ok_def
proof (intro allI impI)
  fix e k r assume r: "dreg e (tables s') k = Some r"
  show "clock_past (r_stamp r) (clk s')"
  proof (cases "e = d")
    case True
    then have "dreg d (tables s) k = Some r \<or> (k, r) \<in> set es"
      using r assms(2) merge_map_reg_mem by metis
    then show ?thesis using assms(1,4,5) unfolding clock_ok_def by blast
  next
    case False
    then have "dreg e (tables s') = dreg e (tables s)" using assms(3) by (simp add: same_outside_def)
    then show ?thesis using r assms(1,5) unfolding clock_ok_def by metis
  qed
qed

lemma clock_ok_clk:
  "clock_ok s \<Longrightarrow> (\<And>t. clock_past t (clk s) \<Longrightarrow> clock_past t c) \<Longrightarrow> clock_ok (s\<lparr>clk := c\<rparr>)"
  by (simp add: clock_ok_def)

lemma tick_room:
  assumes "clk_room s"
  shows "clock_past t (clk s) \<Longrightarrow> clock_past t (snd (tick now a (clk s)))"
    "clock_past t (clk s) \<Longrightarrow> t < fst (tick now a (clk s))"
    "clock_past (fst (tick now a (clk s))) (snd (tick now a (clk s)))"
proof -
  have f: "tick_fits now (clk s)" using assms by (simp add: tick_fits_def clk_room_def)
  show "clock_past t (clk s) \<Longrightarrow> clock_past t (snd (tick now a (clk s)))"
    "clock_past t (clk s) \<Longrightarrow> t < fst (tick now a (clk s))"
    using tick_after [OF _ f, of t a] by (metis prod.collapse)+
  show "clock_past (fst (tick now a (clk s))) (snd (tick now a (clk s)))"
    by (simp add: tick_def Let_def clock_past_def)
qed

lemma op_regs_stamp: "(k, r) \<in> set (op_regs op) \<Longrightarrow> r_stamp r = op_Stamp op"
  by (auto simp: op_regs_def split: OpKind.splits)

lemma clock_ok_append:
  assumes "store_ok s" "clock_ok s" "clk_room s" "is_go s d \<longrightarrow> kind \<noteq> OpDel"
    and "appendLocal s (tables s) (localOp now s d k f kind v) = Inr tx"
  shows "clock_ok (s\<lparr>tables := tx, clk := snd (tick now (actor s) (clk s)), localChanges := n\<rparr>)"
proof -
  let ?o = "localOp now s d k f kind v"
  have o: "op_Domain ?o = d" "op_Actor ?o = actor s" "op_Kind ?o = kind" "op_Stamp ?o = fst (tick now (actor s) (clk s))"
    by (simp_all add: localOp_def mkOp_def)
  note ef = appendLocal_effect [OF assms(5) store_okD(1) [OF assms(1)], unfolded o, OF refl assms(4)]
  show ?thesis
    using ef(1,7) op_regs_stamp [of _ _ "?o\<lparr>op_Seq := _\<rparr>"] tick_room [OF assms(3)] o
    by (intro clock_ok_merged [OF assms(2)]) auto
qed

lemma local_clock_ok:
  assumes "store_ok s" "clock_ok s" "clk_room s"
  shows "clock_ok (snd (local now s d k f kind v))"
proof (cases "local now s d k f kind v")
  case (Pair r s')
  show ?thesis
  proof (cases r)
    case (Inl e)
    then show ?thesis using local_error [of now s d k f kind v e s'] Pair assms(2)
      clock_ok_clk [OF assms(2) tick_room(1) [OF assms(3)]] by auto
  next
    case (Inr u)
    then show ?thesis using local_cases [of now s d k f kind v u s'] Pair clock_ok_append [OF assms]
      by (metis snd_conv)
  qed
qed

lemma Store_Add_clock_ok:
  assumes "store_ok s" "clock_ok s" "clk_room s"
  shows "clock_ok (snd (Store_Add now s d k f x))"
proof (cases "Store_Add now s d k f x")
  case (Pair r s')
  show ?thesis
  proof (cases r)
    case (Inl e)
    then show ?thesis using Store_Add_error [of now s d k f x e s'] Pair assms(2)
      clock_ok_clk [OF assms(2) tick_room(1) [OF assms(3)]] by auto
  next
    case (Inr u)
    then show ?thesis using Store_Add_cases [of now s d k f x u s'] Pair clock_ok_append [OF assms]
      by (metis snd_conv OpKind.distinct(7))
  qed
qed

lemma ApplySnapshot_clock_ok:
  assumes "store_ok s" "clock_ok s" "unique_keys (sn_VV snap)" "ApplySnapshot nows s snap = (Inr u, s')"
  shows "clock_ok s'"
proof -
  note ef = ApplySnapshot_effect [OF assms(4) store_okD(1) [OF assms(1)] assms(3)]
  have c: "clk s' = observeAll nows 0 (map rs_Stamp (sn_Registers snap)) (clk s)"
    using ApplySnapshot_cases [OF assms(4)] by metis
  show ?thesis using ef(1,6) c
    by (intro clock_ok_merged [OF assms(2)])
      (auto simp: snap_reg_def mk_row_def observeAll_keep observeAll_past_map [where g = rs_Stamp])
qed

lemma Merge_clock_ok:
  assumes "store_ok s" "clock_ok s" "delta_wf dl" "Merge nows s (Some dl) = (Inr n, s')"
  shows "clock_ok s'"
proof (cases "d_SnapshotRequired dl")
  case True
  from Merge_snapshot_cases [OF assms(4) True] obtain snap where
    "d_Snapshot dl = Some snap" "ApplySnapshot nows s snap = (Inr (), s')" by metis
  then show ?thesis using ApplySnapshot_clock_ok [OF assms(1,2)] assms(3) by (simp add: delta_wf_def)
next
  case False
  note ef = Merge_ops_effect [OF assms(4) False store_okD(1) [OF assms(1)]]
  have c: "clk s' = observeAll nows 0 (map op_Stamp (d_Ops dl)) (clk s)"
    using Merge_ops_cases [OF assms(4) False] by metis
  show ?thesis using ef(1,6) c
    by (intro clock_ok_merged [OF assms(2)])
      (auto dest!: op_regs_stamp simp: observeAll_keep observeAll_past_map [where g = op_Stamp])
qed

lemma rstep_clock_ok:
  assumes "rstep s s'" "store_ok s" "clock_ok s" "clk_room s"
  shows "clock_ok s'"
  using assms(1)
proof cases
  case (merge dl nows)
  then show ?thesis using Merge_error [of nows s "Some dl"] Merge_clock_ok [OF assms(2,3)] assms(3)
    by (cases "Merge nows s (Some dl)"; cases "fst (Merge nows s (Some dl))") auto
next
  case (snapshot snap nows)
  then show ?thesis using ApplySnapshot_error [of nows s snap] ApplySnapshot_clock_ok [OF assms(2,3)] assms(3)
    by (cases "ApplySnapshot nows s snap"; cases "fst (ApplySnapshot nows s snap)") auto
next
  case (compact d keep)
  show ?thesis
  proof (cases "fst (Compact s d keep)")
    case (Inl e)
    then show ?thesis using compact Compact_error [of s d keep e s'] assms(3) by (metis prod.collapse)
  next
    case (Inr n)
    then have "Compact s d keep = (Inr n, s')" using compact by (metis prod.collapse)
    note ef = Compact_effect [OF this assms(2)]
    show ?thesis using ef(1,11) assms(3) by (simp add: clock_ok_def)
  qed
qed (auto simp: Store_Set_def Store_Delete_def intro: local_clock_ok Store_Add_clock_ok assms)

lemma rsteps_clock_ok:
  "rstep_room\<^sup>*\<^sup>* s s' \<Longrightarrow> store_ok s \<Longrightarrow> clock_ok s \<Longrightarrow> store_ok s' \<and> clock_ok s'"
  by (induction rule: rtranclp_induct)
    (auto simp: rstep_room_def intro: rstep_clock_ok rstep_store_ok)

lemma fold_max_ge: "(x :: 'a :: linorder) \<in> insert a (set xs) \<Longrightarrow> x \<le> fold max xs a"
proof (induction xs arbitrary: a x)
  case (Cons y ys)
  have "max a y \<le> fold max ys (max a y)" by (rule Cons.IH) simp
  then have "a \<le> fold max ys (max a y)" "y \<le> fold max ys (max a y)" by simp_all
  then show ?case using Cons.IH [of x "max a y"] Cons.prems by (auto simp: max.commute)
qed simp

lemma clock_past_mono: "s \<le> t \<Longrightarrow> clock_past t c \<Longrightarrow> clock_past s c"
  by (cases "s = t") (auto simp: clock_past_def Stamp_less_iff dest!: order_neq_le_trans)

lemma Open_clock_ok:
  assumes "Open now stored a domains = Inr s"
  shows "clock_ok s"
  unfolding clock_ok_def
proof (intro allI impI)
  fix d k r assume "dreg d (tables s) k = Some r"
  moreover have t: "tables s = stored" using assms by (auto simp: Open_def Let_def split: if_splits)
  ultimately have mem: "r_stamp r \<in> set (map (r_stamp \<circ> snd) (crdt_reg stored))"
    by (cases k) (force simp: dreg_def dest: map_of_SomeD)
  then obtain st sts where st: "map (r_stamp \<circ> snd) (crdt_reg stored) = st # sts"
    by (metis list.set_cases list.exhaust empty_iff empty_set)
  have "clk s = observe now (fold max sts st) newClock"
    using assms st by (auto simp: Open_def Let_def maxStamp_def split: if_splits)
  moreover have "r_stamp r \<le> fold max sts st" using mem st fold_max_ge [of "r_stamp r" st sts] by simp
  ultimately show "clock_past (r_stamp r) (clk s)"
    using clock_past_mono clock_past_observe by metis
qed

subsection \<open>Local calls\<close>

lemma append_Get:
  assumes "store_ok s" "clock_ok s" "clk_room s" "\<not> is_go s d" "op_regs (localOp now s d k f kind v) = [((k, f), r)]"
    and "appendLocal s (tables s) (localOp now s d k f kind v) = Inr tx"
  shows "dreg d tx = (dreg d (tables s))((k, f) \<mapsto> r)" "same_outside d (tables s) tx"
proof -
  let ?o = "localOp now s d k f kind v"
  have o: "op_Domain ?o = d" "op_Actor ?o = actor s" "op_Stamp ?o = fst (tick now (actor s) (clk s))"
    by (simp_all add: localOp_def mkOp_def)
  note ef = appendLocal_effect [OF assms(6) store_okD(1) [OF assms(1)], unfolded o, OF refl]
  have "op_regs (?o\<lparr>op_Seq := n\<rparr>) = [((k, f), r)]" for n
    using assms(5) by (simp add: op_regs_def split: OpKind.splits)
  moreover have "reg_merge False c r = r" if "dreg d (tables s) (k, f) = Some c" for c
  proof -
    have "clock_past (r_stamp c) (clk s)" using assms(2) that by (auto simp: clock_ok_def)
    then have "r_stamp c < r_stamp r"
      using tick_room(2) [OF assms(3)] op_regs_stamp [of "(k, f)" r ?o] assms(5) o(3) by simp
    then show ?thesis by (simp add: reg_merge_def row_wins_def)
  qed
  ultimately show "dreg d tx = (dreg d (tables s))((k, f) \<mapsto> r)" "same_outside d (tables s) tx"
    using ef(1,7) assms(4) by (auto split: option.splits)
qed

lemma Get_dreg: "Get s d k f = (case dreg d (tables s) (k, f) of None \<Rightarrow> None
    | Some r \<Rightarrow> if r_deleted r then None else Some (r_value r))"
  by (simp add: Get_def dreg_def)

lemma local_Get:
  assumes "store_ok s" "clock_ok s" "clk_room s" "\<not> is_go s d" "kind = OpSet \<or> kind = OpDel"
    and "local now s d k f kind v = (Inr u, s')"
  shows "Get s' e k' f' = (if (e, k', f') = (d, k, f) then if kind = OpSet then Some v else None else Get s e k' f')"
proof -
  obtain tx where tx: "appendLocal s (tables s) (localOp now s d k f kind v) = Inr tx"
    "s' = s\<lparr>tables := tx, clk := snd (tick now (actor s) (clk s)), localChanges := localChanges s + 1\<rparr>"
    using local_cases [OF assms(6)] by metis
  let ?r = "RegRow (if kind = OpSet then v else []) (kind = OpDel) (fst (tick now (actor s) (clk s)))"
  have "op_regs (localOp now s d k f kind v) = [((k, f), ?r)]"
    using assms(5) by (auto simp: op_regs_def localOp_def mkOp_def)
  note ef = append_Get [OF assms(1-4) this tx(1)]
  show ?thesis
  proof (cases "e = d")
    case True
    then show ?thesis using ef(1) assms(5) tx(2) by (auto simp: Get_dreg)
  next
    case False
    then have "dreg e tx = dreg e (tables s)" using ef(2) by (simp add: same_outside_def)
    then show ?thesis using False tx(2) by (simp add: Get_dreg)
  qed
qed

subsection \<open>The guarantees\<close>

text \<open>
  A replica reads its own writes: for a replica opened on any well-formed stored
  database and after any sequence of calls, peer payloads included, a successful \<open>Set\<close> in a
  domain that is not grow-only is what \<open>Get\<close> returns, a successful \<open>Delete\<close> makes
  \<open>Get\<close> find nothing, and neither changes any other register. The clock's logical part
  must have room for the ticks, one less than \<open>2 ^ 32\<close>.
\<close>

theorem read_your_writes:
  assumes "Open now0 stored a domains = Inr s0" "store_ok s0" "rstep_room\<^sup>*\<^sup>* s0 s" "clk_room s"
    and "d \<notin> set (growOnly s)"
  shows "(Store_Set now s d k f v = (Inr u, s') \<longrightarrow>
      Get s' e k' f' = (if (e, k', f') = (d, k, f) then Some v else Get s e k' f')) \<and>
    (Store_Delete now s d k f = (Inr u, s') \<longrightarrow>
      Get s' e k' f' = (if (e, k', f') = (d, k, f) then None else Get s e k' f'))"
proof -
  have ok: "store_ok s" "clock_ok s" using rsteps_clock_ok [OF assms(3,2) Open_clock_ok [OF assms(1)]] by auto
  have g: "\<not> is_go s d" using assms(5) by (simp add: is_go_def)
  show ?thesis
    using local_Get [OF ok assms(4) g, of OpSet now k f v u s'] local_Get [OF ok assms(4) g, of OpDel now k f "[]" u s']
    by (simp add: Store_Set_def Store_Delete_def)
qed

theorem read_your_writes_witness:
  "Get (snd (Store_Set 5 (exMerged (exDelta [exOp 1 ''v'' 900]) exA) ''d'' ''k'' ''f'' ''mine'')) ''d'' ''k'' ''f'' = Some ''mine''"
proof -
  let ?s = "exMerged (exDelta [exOp 1 ''v'' 900]) exA"
  have "rstep exA ?s" unfolding exMerged_def by (rule rstep.merge) simp
  moreover have "clk_room exA" "clk_room ?s" "''d'' \<notin> set (growOnly ?s)"
    "Store_Set 5 ?s ''d'' ''k'' ''f'' ''mine'' = (Inr (), snd (Store_Set 5 ?s ''d'' ''k'' ''f'' ''mine''))"
    by code_simp+
  ultimately show ?thesis
    using read_your_writes [OF exA_Open ex_ok(1) _ _ _, of ?s "''d''" 5 "''k''" "''f''" "''mine''" "()" _ "''d''" "''k''" "''f''"]
    by (simp add: rstep_room_def r_into_rtranclp)
qed

text \<open>
  Claim C40. \<open>Add\<close> is exact or refused: when it succeeds, the counter it names has grown by
  exactly \<open>delta\<close> (as a Go \<open>int64\<close>), this replica's own cumulative totals have not
  wrapped, and no other counter has changed; when it fails, for instance because a total
  would overflow, the tables are as before.
\<close>

theorem add_exact_or_refused:
  assumes "store_ok s" "totals_ok (tables s)" "in_int64 x" "Store_Add now s d k f x = (r, s')"
  shows "case r of
      Inl e \<Rightarrow> tables s' = tables s
    | Inr u \<Rightarrow> Counter s' e k' f' = (if (e, k', f') = (d, k, f) then wrap64 (Counter s d k f + x) else Counter s e k' f') \<and>
        (case (ownTotals (tables s) d k f (actor s), ownTotals (tables s') d k f (actor s)) of
           ((p, n), (p', n')) \<Rightarrow> p \<le> p' \<and> n \<le> n' \<and> p' - n' = p - n + x)"
proof (cases r)
  case (Inl e)
  then show ?thesis using Store_Add_error [of now s d k f x e s'] assms(4) by auto
next
  case (Inr u)
  from Store_Add_ctr [OF assms(4) [unfolded Inr] assms(2,3)] obtain p n p' n' where
    o: "ownTotals (tables s) d k f (actor s) = (p, n)" "p \<le> p'" "n \<le> n'" "p' - n' = p - n + x"
    "crdt_ctr (tables s') = upsert_with max_totals (d, k, f, actor s) (p', n') (crdt_ctr (tables s))" by metis
  have "ownTotals (tables s') d k f (actor s) = (p', n')"
    using o by (auto simp: ownTotals_def tbl max_totals_def split: option.splits)
  then show ?thesis using Store_Add_Counter [OF assms(4) [unfolded Inr] assms(1-3)] o(1-4) Inr by simp
qed

theorem add_exact_or_refused_witness:
  "Counter (snd (Store_Add 5 (snd (Store_Add 5 exA ''d'' ''k'' ''f'' 40)) ''d'' ''k'' ''f'' (- 42))) ''d'' ''k'' ''f'' = - 2"
proof -
  let ?s = "snd (Store_Add 5 exA ''d'' ''k'' ''f'' 40)"
  have e: "Store_Add 5 ?s ''d'' ''k'' ''f'' (- 42) = (Inr (), snd (Store_Add 5 ?s ''d'' ''k'' ''f'' (- 42)))"
    "totals_ok (tables ?s)" "in_int64 (- 42)" "Counter ?s ''d'' ''k'' ''f'' = 40" "wrap64 (40 + - 42) = - 2" by code_simp+
  have "store_ok ?s" by (rule rstep_store_ok [OF rstep.add ex_ok(1)])
  from add_exact_or_refused [OF this e(2,3,1), of "''d''" "''k''" "''f''"] e(4,5) show ?thesis by simp
qed

text \<open>
  The wire form of a counter operation round-trips: decoding what \<open>encodeCounter\<close>
  wrote gives the totals back, and a negative total is refused.
\<close>

theorem counter_payload_roundtrip:
  assumes "in_int64 p" "in_int64 n"
  shows "decodeCounter (encodeCounter p n) = (if p < 0 \<or> n < 0 then Inl ErrCounterPayload else Inr (p, n))"
  by (rule decode_encode [OF assms])

text \<open>
  Claim C34. The clock is a hybrid logical clock: in any run of local events and received
  stamps, whatever the host clock reads at each, an emitted stamp sorts strictly after
  every stamp emitted or received before it, as long as no tick wraps the 32-bit logical
  part.
\<close>

theorem hlc_emits_after_all_seen:
  assumes "clock_fits a newClock es" "i < j" "j < length (clock_log a newClock es)" "fst (clock_log a newClock es ! j)"
  shows "snd (clock_log a newClock es ! i) < snd (clock_log a newClock es ! j)"
  using clock_log_sorted [OF assms] .

theorem hlc_emits_after_all_seen_witness:
  "Stamp 900 3 ''B'' < snd (clock_log ''A'' newClock [Tick 50, Receive 40 (Stamp 900 3 ''B''), Tick 10] ! 2)"
proof -
  let ?es = "[Tick 50, Receive 40 (Stamp 900 3 ''B''), Tick 10]"
  have e: "clock_fits ''A'' newClock ?es" "2 < length (clock_log ''A'' newClock ?es)" "fst (clock_log ''A'' newClock ?es ! 2)"
    "snd (clock_log ''A'' newClock ?es ! 1) = Stamp 900 3 ''B''" by code_simp+
  show ?thesis using hlc_emits_after_all_seen [OF e(1) _ e(2,3), of 1, unfolded e(4)] by simp
qed

text \<open>
  Where the clock's order breaks: after receiving any stamp with the largest
  logical value and a wall time the host clock has not passed, the next local stamp
  sorts strictly before the received one.
\<close>

theorem hlc_wraps_below_received:
  assumes "Wall s = w" "Logical s = - 1" "0 < w" "n1 \<le> w" "n2 \<le> w"
  shows "snd (clock_log a newClock [Receive n1 s, Tick n2] ! 1) < s"
proof -
  have "(0 :: 32 word) < - 1" by code_simp
  then show ?thesis using assms by (simp add: observe_def newClock_def tick_def Stamp_less_iff)
qed

theorem hlc_wraps_below_received_witness:
  "snd (clock_log ''A'' newClock [Receive 40 (Stamp 900 (- 1) ''B''), Tick 50] ! 1) < Stamp 900 (- 1) ''B''"
  using hlc_wraps_below_received [of "Stamp 900 (- 1) ''B''" 900 40 50 "''A''"] by simp

end
