(* ===== verification/Crdt_Spec.thy ===== *)
theory Crdt_Spec
  imports Crdt_Local
begin

text \<open>
  The abstract replica of a domain: it keeps the set of all register rows and the set of all
  counter totals that ever reached it, merging is set union, and a read returns the value of
  the row that beats every other. The store of \<open>store.go\<close> keeps one row per entry; here it
  is shown to implement the abstract replica.
\<close>

type_synonym row_set = "((string \<times> string) \<times> reg_row) set"

type_synonym total_set = "((string \<times> string \<times> string) \<times> (int \<times> int)) set"

definition spec_Get :: "bool \<Rightarrow> row_set \<Rightarrow> string \<Rightarrow> string \<Rightarrow> string \<Rightarrow> bool" where
  "spec_Get go E k f v \<longleftrightarrow> (\<exists>r. ((k, f), r) \<in> E \<and> \<not> r_deleted r \<and> r_value r = v \<and> (\<forall>r'. ((k, f), r') \<in> E \<longrightarrow> \<not> row_wins go r' r))"

text \<open>The store \<open>s\<close> represents the abstract replica \<open>(E, C)\<close> of domain \<open>d\<close>.\<close>

definition represents :: "string \<Rightarrow> Store \<Rightarrow> row_set \<Rightarrow> total_set \<Rightarrow> bool" where
  "represents d s E C \<longleftrightarrow> finite E \<and> (\<forall>(k, r) \<in> E. reg_ok (is_go s d) r)
     \<and> joins (reg_ok (is_go s d)) (reg_le (is_go s d)) E (dreg d (tables s)) \<and> joins (\<lambda>_. True) ctr_le C (dctr d (tables s))"

lemma finite_winner:
  assumes "finite R" "R \<noteq> {}"
  shows "\<exists>r \<in> R. \<forall>r' \<in> R. reg_le go r' r"
  using assms
proof (induction R rule: finite_ne_induct)
  case (singleton r)
  then show ?case by (simp add: reg_le_def row_wins_def)
next
  case (insert x R)
  then obtain r where r: "r \<in> R" "\<forall>r' \<in> R. reg_le go r' r" by blast
  show ?case
  proof (cases "reg_le go x r")
    case False
    then have "reg_le go r x" "reg_le go x x" using reg_le_total by blast+
    then show ?thesis using r reg_le_trans by blast
  qed (use r in blast)
qed

text \<open>The row an entry holds is one of the rows that reached it, and beats all of them.\<close>

lemma represents_row:
  assumes "represents d s E C"
  shows "dreg d (tables s) (k, f) = Some r \<longleftrightarrow> ((k, f), r) \<in> E \<and> (\<forall>r'. ((k, f), r') \<in> E \<longrightarrow> \<not> row_wins (is_go s d) r' r)"
proof -
  let ?go = "is_go s d" and ?R = "{r. ((k, f), r) \<in> E}"
  have ok: "\<And>r. r \<in> ?R \<Longrightarrow> reg_ok ?go r" using assms by (auto simp: represents_def)
  have "?R \<subseteq> snd ` E" by force
  then have "finite ?R" using assms finite_subset unfolding represents_def by blast
  then have ex: "?R \<noteq> {} \<Longrightarrow> \<exists>w. w \<in> ?R \<and> (\<forall>r' \<in> ?R. reg_le ?go r' w)" using finite_winner by blast
  have uniq: "a = b" if "a \<in> ?R" "b \<in> ?R" "reg_le ?go a b" "reg_le ?go b a" for a b using that ok reg.le_antisym by blast
  have j: "case dreg d (tables s) (k, f) of None \<Rightarrow> ?R = {} | Some w \<Rightarrow> reg_ok ?go w \<and> ?R \<noteq> {} \<and>
      (\<forall>u. reg_ok ?go u \<longrightarrow> (reg_le ?go w u \<longleftrightarrow> (\<forall>v \<in> ?R. reg_le ?go v u)))"
  proof -
    have "joins (reg_ok ?go) (reg_le ?go) E (dreg d (tables s))" using assms by (simp add: represents_def)
    from this [unfolded joins_def, rule_format, of "(k, f)"] show ?thesis by (auto split: option.splits)
  qed
  show ?thesis
  proof (cases "dreg d (tables s) (k, f)")
    case (Some w)
    then have w: "reg_ok ?go w" "?R \<noteq> {}" "\<And>u. reg_ok ?go u \<Longrightarrow> reg_le ?go w u \<longleftrightarrow> (\<forall>v \<in> ?R. reg_le ?go v u)" using j by auto
    obtain x where x: "x \<in> ?R" "\<forall>r' \<in> ?R. reg_le ?go r' x" using ex w(2) by blast
    have "reg_le ?go w x" using w(3) [OF ok [OF x(1)]] x(2) by blast
    moreover have "reg_le ?go x w" using w(3) [OF w(1)] reg.le_refl [OF w(1)] x(1) by blast
    ultimately have "w = x" using reg.le_antisym [OF w(1) ok [OF x(1)]] by blast
    then show ?thesis using Some x uniq by (auto simp: reg_le_def)
  qed (use j in auto)
qed

text \<open>
  Claim C20. Merging refines set union. If a store represents the rows and totals it has been
  sent so far, then after any accepted delta or snapshot it represents those together with
  the payload's, in the payload's domain, while every other domain represents what it did;
  and a read returns a value exactly when the abstract replica does. So the one row kept per
  entry loses nothing that a replica keeping everything could still return.
\<close>

theorem merge_refines_union:
  assumes "store_ok s" "delta_wf dl" "Merge nows s (Some dl) = (Inr n, s')" "represents (delta_target dl) s E C"
  shows "represents (delta_target dl) s' (E \<union> set (delta_regs dl)) (C \<union> set (delta_ctrs dl))
    \<and> (\<forall>d' E' C'. d' \<noteq> delta_target dl \<longrightarrow> represents d' s E' C' \<longrightarrow> represents d' s' E' C')
    \<and> (Get s' (delta_target dl) k f = Some v \<longleftrightarrow> spec_Get (is_go s (delta_target dl)) (E \<union> set (delta_regs dl)) k f v)"
proof -
  let ?d = "delta_target dl"
  note ef = Merge_effect [OF assms(1-3)]
  have go: "is_go s' x = is_go s x" for x by (rule is_go_cong [OF ef(6)])
  have 1: "represents ?d s' (E \<union> set (delta_regs dl)) (C \<union> set (delta_ctrs dl))"
    using assms(4) reg.joins_merge_map [OF _ ef(3), of E] ctr.joins_merge_map [of C _ "delta_ctrs dl"] ef(1-3)
    unfolding represents_def go by auto
  have 2: "represents d' s' E' C'" if "d' \<noteq> ?d" "represents d' s E' C'" for d' E' C'
    using that ef(4) unfolding represents_def go same_outside_def by simp
  have "Get s' ?d k f = Some v \<longleftrightarrow> (\<exists>r. dreg ?d (tables s') (k, f) = Some r \<and> \<not> r_deleted r \<and> r_value r = v)"
    by (auto simp: Get_dreg split: option.splits)
  also have "\<dots> \<longleftrightarrow> spec_Get (is_go s ?d) (E \<union> set (delta_regs dl)) k f v"
    unfolding represents_row [OF 1] spec_Get_def go by blast
  finally show ?thesis using 1 2 by blast
qed

lemma represents_empty: "represents d exA {} {}"
  by (simp add: represents_def joins_def dreg_def dctr_def exA_def empty_db_def split_beta)

theorem merge_refines_union_witness:
  "Get (exMerged (exDelta [exOp 2 ''x'' 7, exOp 1 ''v'' 5]) exA) ''d'' ''k'' ''f'' = Some ''x''"
proof -
  let ?dl = "exDelta [exOp 2 ''x'' 7, exOp 1 ''v'' 5]"
  have m: "Merge (\<lambda>_. 6) exA (Some ?dl) = (Inr 2, exMerged ?dl exA)" by code_simp
  have r: "delta_regs ?dl = [((''k'', ''f''), RegRow ''x'' False (Stamp 7 0 ''B'')), ((''k'', ''f''), RegRow ''v'' False (Stamp 5 0 ''B''))]" "\<not> is_go exA ''d''"
    by code_simp+
  show ?thesis using merge_refines_union [OF ex_ok(1) exDelta_wf(1) m represents_empty, of "''k''" "''f''" "''x''"] r
    by (auto simp: spec_Get_def row_wins_def Stamp_less_iff)
qed

end
