(* ===== verification/Crdt_Delta.thy ===== *)
theory Crdt_Delta
  imports Crdt_Local
begin

text \<open>
  What \<open>Store.Delta\<close> sends (\<open>backend/internal/crdtsync/store.go\<close>): a snapshot when the
  peer is below a compaction floor, otherwise for every actor a run of operations that starts
  right after the peer's version vector entry, complete unless the delta is truncated.
\<close>

subsection \<open>Version vectors of a replica\<close>

abbreviation vv_of :: "string \<Rightarrow> Store \<Rightarrow> string \<Rightarrow> nat" where
  "vv_of d s \<equiv> \<lambda>a. fst (metaFor (tables s) d a)"

lemma map_of_domain_rows:
  assumes "unique_keys t"
  shows "map_of (map (\<lambda>((d, a), (q, fl)). (a, g q fl)) (filter (\<lambda>((d', a), (q, fl)). d' = d \<and> P q) t)) b =
    (case map_of t (d, b) of None \<Rightarrow> None | Some (q, fl) \<Rightarrow> if P q then Some (g q fl) else None)"
  using assms
proof (induction t)
  case (Cons e t)
  obtain d' a q fl where e: "e = ((d', a), (q, fl))" by (metis surj_pair)
  have "(d', a) = (d, b) \<Longrightarrow> map_of t (d, b) = None" using Cons.prems by (simp add: e unique_keys_Cons)
  then show ?case using Cons by (auto simp: e unique_keys_Cons split: option.splits)
qed simp

lemma vv_get_VersionVector:
  "keys_ok tx \<Longrightarrow> vv_get (VersionVector tx d) a = fst (metaFor tx d a)"
  using map_of_domain_rows [of "crdt_meta tx" "\<lambda>q fl. q" d "\<lambda>q. q > 0" a]
  by (auto simp: vv_get_def VersionVector_def metaFor_def keys_ok_def split: option.splits)

lemma vv_get_floors: "keys_ok tx \<Longrightarrow> vv_get (floors tx d) a = snd (metaFor tx d a)"
  using map_of_domain_rows [of "crdt_meta tx" "\<lambda>q fl. fl" d "\<lambda>q. True" a]
  by (auto simp: vv_get_def floors_def metaFor_def keys_ok_def split: option.splits)

lemma unique_keys_VersionVector: "keys_ok tx \<Longrightarrow> unique_keys (VersionVector tx d)"
proof -
  let ?rows = "filter (\<lambda>((d', a), (q, fl)). d' = d \<and> q > 0) (crdt_meta tx)"
  assume "keys_ok tx"
  then have "distinct (map fst ?rows)" by (simp add: keys_ok_def unique_keys_def distinct_map_filter)
  moreover have "map fst ?rows = map (\<lambda>a. (d, a)) (map fst (VersionVector tx d))"
    by (auto simp: VersionVector_def comp_def split: prod.splits)
  ultimately show ?thesis unfolding unique_keys_def by (metis distinct_map)
qed

lemma VersionVector_mem:
  assumes "keys_ok tx"
  shows "(a, q) \<in> set (VersionVector tx d) \<longleftrightarrow> 0 < q \<and> q = fst (metaFor tx d a)"
proof -
  have "map_of (VersionVector tx d) a = (case map_of (crdt_meta tx) (d, a) of None \<Rightarrow> None
      | Some (q, fl) \<Rightarrow> if 0 < q then Some q else None)"
    using map_of_domain_rows [of "crdt_meta tx" "\<lambda>q fl. q" d "\<lambda>q. q > 0" a] assms
    by (simp add: VersionVector_def keys_ok_def)
  then show ?thesis using map_of_mem [OF unique_keys_VersionVector [OF assms], of d a q]
    by (auto simp: metaFor_def split: option.splits if_splits)
qed

subsection \<open>A delta serves complete runs\<close>

text \<open>
  What a replica may hold in its log: rows up to the version vector entry. (Rows above it
  come only from deltas with gaps, which honest peers do not send.)
\<close>

definition no_gap_rows :: "string \<Rightarrow> db \<Rightarrow> bool" where
  "no_gap_rows d tx \<longleftrightarrow> (\<forall>a n. dlog d tx (a, n) \<noteq> None \<longrightarrow> n \<le> fst (metaFor tx d a))"

definition in_log :: "string \<Rightarrow> db \<Rightarrow> Op \<Rightarrow> bool" where
  "in_log d tx op \<longleftrightarrow> (\<exists>r. dlog d tx (op_Actor op, op_Seq op) = Some r \<and> op = op_of_row d (op_Actor op) (op_Seq op) r)"

text \<open>The operations of actor \<open>a\<close> in a list carry exactly the numbers from \<open>p + 1\<close> to \<open>t\<close>.\<close>

definition run :: "Op list \<Rightarrow> string \<Rightarrow> nat \<Rightarrow> nat \<Rightarrow> bool" where
  "run ops a p t \<longleftrightarrow> p \<le> t \<and> op_Seq ` {op \<in> set ops. op_Actor op = a} = {p<..t}"

lemma opsAfter_seqs:
  fixes lim :: nat
  assumes "store_ok s" "no_gap_rows d (tables s)" "snd (metaFor (tables s) d a) \<le> p"
  defines "ops \<equiv> opsAfter (tables s) d a p lim"
  shows "map op_Seq ops = take lim [Suc p..<Suc (vv_of d s a)]"
    "\<forall>op \<in> set ops. op_Actor op = a \<and> in_log d (tables s) op"
proof -
  let ?rows = "filter (\<lambda>((d', a', q), r). d' = d \<and> a' = a \<and> q > p) (crdt_op (tables s))"
  let ?all = "map (\<lambda>((d, a, q), r). op_of_row d a q r) ?rows"
  have u: "unique_keys (crdt_op (tables s))" using store_okD(2) [OF assms(1)] by (simp add: keys_ok_def)
  have mem: "((d', a', q), r) \<in> set (crdt_op (tables s)) \<longleftrightarrow> dlog d' (tables s) (a', q) = Some r" for d' a' q r
    using map_of_mem [OF u] by (simp add: dlog_def)
  have all: "set ?all = {op_of_row d a q r | q r. q > p \<and> dlog d (tables s) (a, q) = Some r}"
    by (force simp: mem image_iff)
  have seqs: "set (map op_Seq ?all) = set [Suc p..<Suc (vv_of d s a)]"
  proof -
    have "op_Seq ` set ?all = {q. q > p \<and> dlog d (tables s) (a, q) \<noteq> None}"
      unfolding all by (force simp: op_of_row_def)
    also have "\<dots> = {q. p < q \<and> q \<le> vv_of d s a}"
      using store_okD(3) [OF assms(1), of d] assms(2,3) by (fastforce simp: log_ok_def no_gap_rows_def)
    also have "\<dots> = set [Suc p..<Suc (vv_of d s a)]" by (auto simp del: upt_Suc)
    finally show ?thesis by (simp only: set_map)
  qed
  have "map fst ?rows = map (\<lambda>q. (d, a, q)) (map op_Seq ?all)"
    by (auto simp: comp_def op_of_row_def split: prod.splits)
  moreover have "distinct (map fst ?rows)" using u by (simp add: unique_keys_def distinct_map_filter)
  ultimately have "distinct (map op_Seq ?all)" by (metis distinct_map)
  then have "distinct (map op_Seq (sort_key op_Seq ?all))" by (rule distinct_sort_key)
  then have "map op_Seq (sort_key op_Seq ?all) = [Suc p..<Suc (vv_of d s a)]"
  proof (intro sorted_distinct_set_unique)
    show "set (map op_Seq (sort_key op_Seq ?all)) = set [Suc p..<Suc (vv_of d s a)]"
      using seqs by (simp only: set_map set_sort)
  qed (simp_all del: upt_Suc)
  then show "map op_Seq ops = take lim [Suc p..<Suc (vv_of d s a)]"
    unfolding ops_def opsAfter_def by (metis take_map)
  have "set ops \<subseteq> set ?all" unfolding ops_def opsAfter_def using set_take_subset by fastforce
  then show "\<forall>op \<in> set ops. op_Actor op = a \<and> in_log d (tables s) op"
    using all by (force simp: in_log_def op_of_row_def)
qed

lemma take_upt_set: "p \<le> v \<Longrightarrow> set (take n [Suc p..<Suc v]) = {p<..min v (p + n)}"
  by (auto simp: min_def)

lemma opsAfter_run:
  assumes "store_ok s" "no_gap_rows d (tables s)" "snd (metaFor (tables s) d a) \<le> p" "p \<le> vv_of d s a"
  shows "run (opsAfter (tables s) d a p lim) a p (min (vv_of d s a) (p + lim))"
    "length (opsAfter (tables s) d a p lim) = min (vv_of d s a - p) lim"
proof -
  let ?ops = "opsAfter (tables s) d a p lim"
  note o = opsAfter_seqs [OF assms(1-3), of lim]
  have "op_Seq ` set ?ops = {p<..min (vv_of d s a) (p + lim)}"
    using o(1) take_upt_set [OF assms(4), of lim] by (metis set_map)
  moreover have "{op \<in> set ?ops. op_Actor op = a} = set ?ops" using o(2) by auto
  ultimately show "run ?ops a p (min (vv_of d s a) (p + lim))" using assms(4) by (simp add: run_def)
  show "length ?ops = min (vv_of d s a - p) lim" using arg_cong [OF o(1), of length] by (simp del: upt_Suc)
qed

text \<open>
  The operations \<open>Delta\<close> collects for a list of actors, none of them below the floor:
  a run from the peer's entry for each, a complete one unless the delta is truncated.
\<close>

lemma run_append_other:
  "\<forall>op \<in> set ys. op_Actor op \<noteq> a \<Longrightarrow> run (xs @ ys) a p t = run xs a p t"
  "\<forall>op \<in> set ys. op_Actor op \<noteq> a \<Longrightarrow> run (ys @ xs) a p t = run xs a p t"
  by (auto simp: run_def intro!: arg_cong [where f = "\<lambda>S. S = {p<..t}"] arg_cong [where f = "image op_Seq"])

lemma run_none: "\<forall>op \<in> set ops. op_Actor op \<noteq> a \<Longrightarrow> run ops a p p"
  by (auto simp: run_def)

lemma run_take:
  assumes "\<forall>op \<in> set ops. op_Actor op = a" "map op_Seq ops = take n [Suc p..<Suc v]" "p \<le> v"
  shows "run (take m ops) a p (min v (p + min m n))"
proof -
  have "map op_Seq (take m ops) = take (min m n) [Suc p..<Suc v]"
    using assms(2) by (metis take_map take_take)
  then have "op_Seq ` set (take m ops) = {p<..min v (p + min m n)}"
    using take_upt_set [OF assms(3)] by (metis set_map)
  moreover have "{op \<in> set (take m ops). op_Actor op = a} = set (take m ops)"
    using assms(1) by (auto dest: in_set_takeD)
  ultimately show ?thesis using assms(3) by (simp add: run_def)
qed

lemma deltaOps_runs:
  assumes "store_ok s" "no_gap_rows d (tables s)" "distinct as"
    and "\<And>a. a \<in> set as \<Longrightarrow> vv_get peer a < vv_of d s a \<Longrightarrow> snd (metaFor (tables s) d a) \<le> vv_get peer a"
    and "\<And>a. vv_get our a = vv_of d s a"
    and "deltaOps (tables s) d our peer lim as acc = (ops, trunc)"
  shows "\<exists>new top. ops = acc @ new \<and> (\<forall>op \<in> set new. op_Actor op \<in> set as \<and> in_log d (tables s) op) \<and>
    (\<forall>a \<in> set as. run new a (vv_get peer a) (top a)) \<and>
    (\<not> trunc \<longrightarrow> (\<forall>a \<in> set as. vv_of d s a \<le> top a))"
  using assms(3,4,6)
proof (induction as arbitrary: acc)
  case Nil
  then show ?case by auto
next
  case (Cons a as)
  let ?p = "vv_get peer a"
  let ?rem = "lim - length acc"
  let ?ops = "opsAfter (tables s) d a ?p (?rem + 1)"
  have IH: "\<exists>new top. ops = acc' @ new \<and> (\<forall>op \<in> set new. op_Actor op \<in> set as \<and> in_log d (tables s) op) \<and>
      (\<forall>a \<in> set as. run new a (vv_get peer a) (top a)) \<and> (\<not> trunc \<longrightarrow> (\<forall>a \<in> set as. vv_of d s a \<le> top a))"
    if "deltaOps (tables s) d our peer lim as acc' = (ops, trunc)" for acc'
    using Cons.IH [OF _ _ that] Cons.prems(1,2) by simp
  have nin: "a \<notin> set as" using Cons.prems(1) by simp
  show ?case
  proof (cases "vv_of d s a \<le> ?p")
    case True
    then obtain new top where n: "ops = acc @ new" "\<forall>op \<in> set new. op_Actor op \<in> set as \<and> in_log d (tables s) op"
      "\<forall>a \<in> set as. run new a (vv_get peer a) (top a)" "\<not> trunc \<longrightarrow> (\<forall>a \<in> set as. vv_of d s a \<le> top a)"
      using IH [of acc] Cons.prems(3) assms(5) by auto
    have "run new a ?p ?p" using n(2) nin by (intro run_none) auto
    then show ?thesis using n nin True
      by (intro exI [of _ new] exI [of _ "top(a := ?p)"]) auto
  next
    case False
    then have fl: "snd (metaFor (tables s) d a) \<le> ?p" using Cons.prems(2) by simp
    have le: "?p \<le> vv_of d s a" using False by simp
    note o = opsAfter_seqs [OF assms(1,2) fl, of "?rem + 1"]
      and l = opsAfter_run(2) [OF assms(1,2) fl le, of "?rem + 1"]
    consider (full) "?rem = 0" | (cut) "?rem \<noteq> 0" "length ?ops > ?rem" | (go) "?rem \<noteq> 0" "length ?ops \<le> ?rem"
      by linarith
    then show ?thesis
    proof cases
      case full
      then have "ops = acc" "trunc" using Cons.prems(3) assms(5) False by (auto simp: Let_def)
      then show ?thesis by (intro exI [of _ "[]"] exI [of _ "vv_get peer"]) (auto intro: run_none)
    next
      case cut
      then have e: "ops = acc @ take ?rem ?ops" "trunc" using Cons.prems(3) assms(5) False by (auto simp: Let_def)
      have r: "run (take ?rem ?ops) a ?p (min (vv_of d s a) (?p + min ?rem (?rem + 1)))"
        using o by (intro run_take [OF _ _ le]) auto
      have "run (take ?rem ?ops) b (vv_get peer b) (vv_get peer b)" if "b \<in> set as" for b
        using o(2) nin that by (intro run_none) (auto dest: in_set_takeD)
      then show ?thesis using e r o(2)
        by (intro exI [of _ "take ?rem ?ops"]
            exI [of _ "(vv_get peer)(a := min (vv_of d s a) (?p + min ?rem (?rem + 1)))"])
          (auto dest: in_set_takeD)
    next
      case go
      then obtain new top where n: "ops = (acc @ ?ops) @ new" "\<forall>op \<in> set new. op_Actor op \<in> set as \<and> in_log d (tables s) op"
        "\<forall>a \<in> set as. run new a (vv_get peer a) (top a)" "\<not> trunc \<longrightarrow> (\<forall>a \<in> set as. vv_of d s a \<le> top a)"
        using IH [of "acc @ ?ops"] Cons.prems(3) assms(5) False by (auto simp: Let_def)
      have "vv_of d s a - ?p < ?rem + 1" using l go by auto
      then have "run ?ops a ?p (vv_of d s a)"
        using opsAfter_run(1) [OF assms(1,2) fl le, of "?rem + 1"] by (simp add: min_def split: if_splits)
      then have "run (?ops @ new) a ?p (vv_of d s a)" using n(2) nin by (subst run_append_other(1)) auto
      moreover have "run (?ops @ new) b (vv_get peer b) (top b)" if "b \<in> set as" for b
        using n(3) o(2) nin that by (subst run_append_other(2)) auto
      ultimately show ?thesis using n o(2)
        by (intro exI [of _ "?ops @ new"] exI [of _ "top(a := vv_of d s a)"]) auto
    qed
  qed
qed

lemma Store_Delta_spec:
  assumes "store_ok s" "no_gap_rows d (tables s)" "Store_Delta now s d peer lim = Inr dl"
  obtains (snap) "d_Domain dl = d" "d_SnapshotRequired dl" "d_Snapshot dl = Some (Store_Snapshot now (tables s) d)"
      "\<not> d_Truncated dl"
  | (ops) top where "d_Domain dl = d" "\<not> d_SnapshotRequired dl" "d_Snapshot dl = None"
      "\<forall>op \<in> set (d_Ops dl). in_log d (tables s) op"
      "\<And>a. run (d_Ops dl) a (vv_get peer a) (top a)" "\<And>a. \<not> d_Truncated dl \<Longrightarrow> vv_of d s a \<le> top a"
proof -
  let ?our = "VersionVector (tables s) d" and ?fl = "floors (tables s) d"
  let ?lim = "nat (if lim \<le> 0 then DefaultDeltaLimit else lim)"
  let ?as = "sort (map fst ?our)"
  have k: "keys_ok (tables s)" using store_okD(2) [OF assms(1)] .
  have "set ?as = {a. \<exists>q. (a, q) \<in> set ?our}" by (simp add: set_eq_iff image_iff) (metis fst_conv surj_pair)
  then have as: "set ?as = {a. 0 < vv_of d s a}" by (simp only: VersionVector_mem [OF k]) simp
  have ds: "distinct ?as" using unique_keys_VersionVector [OF k] by (simp add: unique_keys_def)
  have dl: "dl = (if \<exists>(a, seq) \<in> set ?our. vv_get peer a < vv_get ?fl a \<and> seq > vv_get peer a
      then \<lparr>d_Domain = d, d_SenderVV = ?our, d_Ops = [], d_SnapshotRequired = True,
        d_Snapshot = Some (Store_Snapshot now (tables s) d), d_Truncated = False\<rparr>
      else case deltaOps (tables s) d ?our peer ?lim ?as [] of (ops, t) \<Rightarrow>
        \<lparr>d_Domain = d, d_SenderVV = ?our, d_Ops = ops, d_SnapshotRequired = False, d_Snapshot = None, d_Truncated = t\<rparr>)"
  proof -
    have "checkDomain s d = None" using assms(3) by (cases "checkDomain s d") (auto simp: Store_Delta_def)
    then show ?thesis using assms(3) unfolding Store_Delta_def Let_def
      by (simp only: option.case if_distrib [where f = Inr, symmetric] prod.case_distrib [where h = Inr, symmetric] sum.inject)
  qed
  show thesis
  proof (cases "\<exists>(a, seq) \<in> set ?our. vv_get peer a < vv_get ?fl a \<and> seq > vv_get peer a")
    case True
    then have "dl = \<lparr>d_Domain = d, d_SenderVV = ?our, d_Ops = [], d_SnapshotRequired = True,
        d_Snapshot = Some (Store_Snapshot now (tables s) d), d_Truncated = False\<rparr>" using dl by (simp only: if_True)
    then show thesis by (intro snap) simp_all
  next
    case False
    obtain ops t where e: "deltaOps (tables s) d ?our peer ?lim ?as [] = (ops, t)" by fastforce
    have d: "dl = \<lparr>d_Domain = d, d_SenderVV = ?our, d_Ops = ops, d_SnapshotRequired = False, d_Snapshot = None, d_Truncated = t\<rparr>"
      using dl False by (simp only: if_False e prod.case)
    have fl: "snd (metaFor (tables s) d a) \<le> vv_get peer a" if "a \<in> set ?as" "vv_get peer a < vv_of d s a" for a
    proof -
      have "(a, vv_of d s a) \<in> set ?our" using that(1) as VersionVector_mem [OF k] by simp
      then show ?thesis using False that(2) vv_get_floors [OF k, of d a] by force
    qed
    from deltaOps_runs [OF assms(1,2) ds fl _ e] vv_get_VersionVector [OF k] obtain top where
      t: "\<forall>op \<in> set ops. op_Actor op \<in> set ?as \<and> in_log d (tables s) op"
      "\<forall>a \<in> set ?as. run ops a (vv_get peer a) (top a)" "\<not> t \<longrightarrow> (\<forall>a \<in> set ?as. vv_of d s a \<le> top a)" by auto
    let ?top = "\<lambda>a. if a \<in> set ?as then top a else vv_get peer a"
    have "run ops a (vv_get peer a) (?top a)" for a
    proof (cases "a \<in> set ?as")
      case True
      then show ?thesis using t(2) by (simp only: if_True)
    next
      case False
      then have "run ops a (vv_get peer a) (vv_get peer a)" using t(1) by (intro run_none) metis
      then show ?thesis using False by (simp only: if_False)
    qed
    moreover have "\<not> t \<Longrightarrow> vv_of d s a \<le> ?top a" for a using t(3) unfolding as by auto
    ultimately show thesis using t(1) d by (intro ops [of ?top]) simp_all
  qed
qed

text \<open>A delta never carries an operation twice.\<close>

definition op_id :: "Op \<Rightarrow> string \<times> nat" where
  "op_id op = (op_Actor op, op_Seq op)"

lemma opsAfter_distinct:
  assumes "unique_keys (crdt_op tx)"
  shows "distinct (map op_id (opsAfter tx d a p lim))" "\<forall>op \<in> set (opsAfter tx d a p lim). op_Actor op = a"
proof -
  let ?rows = "filter (\<lambda>((d', a', q), r). d' = d \<and> a' = a \<and> q > p) (crdt_op tx)"
  let ?all = "map (\<lambda>((d, a, q), r). op_of_row d a q r) ?rows"
  have "map fst ?rows = map (\<lambda>q. (d, a, q)) (map op_Seq ?all)"
    by (auto simp: comp_def op_of_row_def split: prod.splits)
  moreover have "distinct (map fst ?rows)" using assms by (simp add: unique_keys_def distinct_map_filter)
  ultimately have "distinct (map op_Seq ?all)" by (metis distinct_map)
  then have "distinct (map op_Seq (sort_key op_Seq ?all))" by (rule distinct_sort_key)
  then have "distinct (map op_Seq (opsAfter tx d a p lim))"
    unfolding opsAfter_def take_map [symmetric] by (rule distinct_take)
  moreover have "map op_Seq (opsAfter tx d a p lim) = map snd (map op_id (opsAfter tx d a p lim))"
    by (simp add: op_id_def comp_def)
  ultimately show "distinct (map op_id (opsAfter tx d a p lim))" by (metis distinct_map)
  have "set (opsAfter tx d a p lim) \<subseteq> set ?all"
    unfolding opsAfter_def using set_take_subset by fastforce
  then show "\<forall>op \<in> set (opsAfter tx d a p lim). op_Actor op = a" by (force simp: op_of_row_def)
qed

lemma deltaOps_distinct:
  assumes "unique_keys (crdt_op tx)" "distinct as" "distinct (map op_id acc)" "\<forall>op \<in> set acc. op_Actor op \<notin> set as"
    and "deltaOps tx d our peer lim as acc = (ops, t)"
  shows "distinct (map op_id ops)"
  using assms(2-)
proof (induction as arbitrary: acc)
  case (Cons a as)
  let ?ops = "opsAfter tx d a (vv_get peer a) (lim - length acc + 1)"
  note o = opsAfter_distinct [OF assms(1), of d a "vv_get peer a" "lim - length acc + 1"]
  have ap: "distinct (map op_id (acc @ xs))" if "set xs \<subseteq> set ?ops" "distinct (map op_id xs)" for xs
  proof -
    have "\<forall>z \<in> op_id ` set xs. fst z = a" using that(1) o(2) by (auto simp: op_id_def)
    moreover have "\<forall>z \<in> op_id ` set acc. fst z \<noteq> a" using Cons.prems(3) by (simp add: op_id_def)
    ultimately have "op_id ` set acc \<inter> op_id ` set xs = {}" by blast
    then show ?thesis using Cons.prems(2) that(2) by simp
  qed
  have tk: "distinct (map op_id (acc @ take n ?ops))" for n
    using ap [of "take n ?ops"] o(1) by (simp add: set_take_subset flip: take_map)
  show ?case
  proof (cases "vv_get our a \<le> vv_get peer a \<or> lim - length acc = 0 \<or> length ?ops > lim - length acc")
    case True
    then show ?thesis using Cons.IH [of acc] Cons.prems tk by (auto simp: Let_def split: if_splits)
  next
    case False
    then have "deltaOps tx d our peer lim as (acc @ ?ops) = (ops, t)" using Cons.prems(4) by (simp add: Let_def)
    moreover have "\<forall>op \<in> set (acc @ ?ops). op_Actor op \<notin> set as" using Cons.prems(1,3) o(2) by auto
    ultimately show ?thesis using Cons.IH [of "acc @ ?ops"] Cons.prems(1) ap [of ?ops] o(1) by simp
  qed
qed simp

lemma Store_Delta_distinct:
  assumes "keys_ok (tables s)" "Store_Delta now s d peer lim = Inr dl"
  shows "distinct (map op_id (d_Ops dl))"
proof -
  have "unique_keys (crdt_op (tables s))" using assms(1) by (simp add: keys_ok_def)
  moreover have "distinct (sort (map fst (VersionVector (tables s) d)))"
    using unique_keys_VersionVector [OF assms(1)] by (simp add: unique_keys_def)
  ultimately have e: "distinct (map op_id ops)"
    if "deltaOps (tables s) d (VersionVector (tables s) d) peer n (sort (map fst (VersionVector (tables s) d))) [] = (ops, t)" for n ops t
    using deltaOps_distinct [OF _ _ _ _ that] by simp
  show ?thesis using assms(2) e
    by (auto simp: Store_Delta_def Let_def split: option.splits if_splits prod.splits)
qed

end
