(* ===== verification/Crdt_Net.thy ===== *)
theory Crdt_Net
  imports Crdt_Delta
begin

text \<open>
  Many replicas exchanging deltas (\<open>Store.Delta\<close> at the sender, \<open>Store.Merge\<close> at the
  receiver) over a network that may lose, delay, reorder and repeat messages, while every
  replica keeps writing and compacting its log between the answers it gives. Every replica's
  registers and counters are the joins of the operations its version vector covers. An answer
  is one step here: nothing is written to the sender between its queries. \<open>Crdt_Async\<close> lets
  writes fall between them.
\<close>

subsection \<open>The network\<close>

text \<open>
  \<open>node\<close> gives each box's replica by its actor name; \<open>wire\<close> holds every delta ever
  sent, with the box it was made for. A delta is made for a version vector the receiver
  announced, now or earlier. Delivery leaves the message on the wire, so it may arrive
  again, later and in any order, or never.
\<close>

record Net =
  node :: "string \<Rightarrow> Store"
  wire :: "(string \<times> Delta) set"

inductive nstep :: "string set \<Rightarrow> Net \<Rightarrow> Net \<Rightarrow> bool" for N where
  nset: "a \<in> N \<Longrightarrow> nstep N w (w\<lparr>node := (node w)(a := snd (Store_Set now (node w a) d k f v))\<rparr>)"
| ndelete: "a \<in> N \<Longrightarrow> nstep N w (w\<lparr>node := (node w)(a := snd (Store_Delete now (node w a) d k f))\<rparr>)"
| nadd: "a \<in> N \<Longrightarrow> nstep N w (w\<lparr>node := (node w)(a := snd (Store_Add now (node w a) d k f x))\<rparr>)"
| ncompact: "a \<in> N \<Longrightarrow> nstep N w (w\<lparr>node := (node w)(a := snd (Compact (node w a) d keep))\<rparr>)"
| nsend: "a \<in> N \<Longrightarrow> b \<in> N \<Longrightarrow> \<forall>c. vv_get vv c \<le> vv_of d (node w b) c \<Longrightarrow>
    Store_Delta now (node w a) d vv limit = Inr dl \<Longrightarrow> nstep N w (w\<lparr>wire := insert (b, dl) (wire w)\<rparr>)"
| ndeliver: "(b, dl) \<in> wire w \<Longrightarrow>
    nstep N w (w\<lparr>node := (node w)(b := snd (Merge nows (node w b) (Some dl)))\<rparr>)"

definition net_start :: "string set \<Rightarrow> string list \<Rightarrow> Net \<Rightarrow> bool" where
  "net_start N domains w \<longleftrightarrow> wire w = {} \<and> (\<forall>a \<in> N. \<exists>now. Open now empty_db a domains = Inr (node w a))"

subsection \<open>What every replica holds\<close>

definition covered :: "Op set \<Rightarrow> (string \<Rightarrow> nat) \<Rightarrow> Op set" where
  "covered H v = {op \<in> H. op_Seq op \<le> v (op_Actor op)}"

definition regE :: "Op set \<Rightarrow> ((string \<times> string) \<times> reg_row) set" where
  "regE S = (\<Union>op \<in> S. set (op_regs op))"

definition ctrE :: "Op set \<Rightarrow> ((string \<times> string \<times> string) \<times> int \<times> int) set" where
  "ctrE S = (\<Union>op \<in> S. set (op_ctrs op))"

text \<open>The registers and counters are the joins of the operations of \<open>S\<close>.\<close>

definition holds :: "bool \<Rightarrow> Op set \<Rightarrow> (string \<times> string \<rightharpoonup> reg_row) \<Rightarrow>
    (string \<times> string \<times> string \<rightharpoonup> int \<times> int) \<Rightarrow> bool" where
  "holds go S m c \<longleftrightarrow> joins (reg_ok go) (reg_le go) (regE S) m \<and> joins (\<lambda>_. True) ctr_le (ctrE S) c"

definition op_sound :: "bool \<Rightarrow> string \<Rightarrow> Op \<Rightarrow> bool" where
  "op_sound go d op \<longleftrightarrow> op_Domain op = d \<and> op_applies op \<and> op_Actor op \<noteq> [] \<and> op_Seq op \<noteq> 0 \<and> op_Key op \<noteq> [] \<and>
     op_Field op \<noteq> [] \<and> Actor (op_Stamp op) = op_Actor op \<and> \<not> (op_Kind op = OpDel \<and> go)"

definition hist_ok :: "bool \<Rightarrow> string \<Rightarrow> (string \<Rightarrow> nat) \<Rightarrow> Op set \<Rightarrow> bool" where
  "hist_ok go d own H \<longleftrightarrow> (\<forall>op \<in> H. op_sound go d op \<and> op_Seq op \<le> own (op_Actor op)) \<and>
     inj_on (\<lambda>op. (op_Actor op, op_Seq op)) H"

definition node_ok :: "bool \<Rightarrow> string \<Rightarrow> (string \<Rightarrow> nat) \<Rightarrow> Op set \<Rightarrow> Store \<Rightarrow> bool" where
  "node_ok go d own H s \<longleftrightarrow> store_ok s \<and> is_go s d = go \<and> actor s \<noteq> [] \<and> no_gap_rows d (tables s) \<and>
     (\<forall>a. vv_of d s a \<le> own a) \<and>
     (\<forall>a n r. dlog d (tables s) (a, n) = Some r \<longrightarrow> (\<exists>op \<in> H. op_log op = ((a, n), r))) \<and>
     holds go (covered H (vv_of d s)) (dreg d (tables s)) (dctr d (tables s))"

definition graph_of :: "('k \<rightharpoonup> 'v) \<Rightarrow> ('k \<times> 'v) set" where
  "graph_of m = {(k, v). m k = Some v}"

definition msg_ok :: "bool \<Rightarrow> string \<Rightarrow> (string \<Rightarrow> nat) \<Rightarrow> Op set \<Rightarrow> Store \<Rightarrow> Delta \<Rightarrow> bool" where
  "msg_ok go d own H s dl \<longleftrightarrow> delta_wf dl \<and> (delta_target dl = d \<longrightarrow>
     (if d_SnapshotRequired dl
      then \<exists>snap m c. d_Snapshot dl = Some snap \<and> set (delta_regs dl) = graph_of m \<and> set (delta_ctrs dl) = graph_of c \<and>
        holds go (covered H (vv_get (sn_VV snap))) m c \<and> (\<forall>a. vv_get (sn_VV snap) a \<le> own a)
      else set (d_Ops dl) \<subseteq> H \<and>
        (\<exists>from to. \<forall>a. from a \<le> vv_of d s a \<and> run (d_Ops dl) a (from a) (to a))))"

lemma covered_insert: "v (op_Actor op) < op_Seq op \<Longrightarrow> covered (insert op H) v = covered H v"
  by (auto simp: covered_def)

lemma holds_merge:
  assumes "holds go S m c" "\<forall>op \<in> set ops. \<not> (op_Kind op = OpDel \<and> go)"
  shows "holds go (S \<union> set ops) (merge_map (reg_merge go) (regs_of ops) m) (merge_map max_totals (ctrs_of ops) c)"
proof -
  have r: "\<forall>(k, r) \<in> set (regs_of ops). reg_ok go r"
    using assms(2) by (auto simp: op_regs_def reg_ok_def split: OpKind.splits)
  have "regE (S \<union> set ops) = regE S \<union> set (regs_of ops)" "ctrE (S \<union> set ops) = ctrE S \<union> set (ctrs_of ops)"
    by (auto simp: regE_def ctrE_def)
  then show ?thesis
    using reg.joins_merge_map [OF _ r] ctr.joins_merge_map [of "ctrE S" c "ctrs_of ops"] assms(1)
    by (auto simp: holds_def)
qed

lemma holds_absorb:
  assumes "holds go S m c" "holds go T m' c'" "set rs = graph_of m'" "set cs = graph_of c'"
  shows "holds go (S \<union> T) (merge_map (reg_merge go) rs m) (merge_map max_totals cs c)"
proof -
  have j: "joins (reg_ok go) (reg_le go) (regE S) m" "joins (reg_ok go) (reg_le go) (regE T) m'"
    "joins (\<lambda>_. True) ctr_le (ctrE S) c" "joins (\<lambda>_. True) ctr_le (ctrE T) c'"
    using assms(1,2) by (auto simp: holds_def)
  have "\<forall>(k, r) \<in> set rs. reg_ok go r" using reg.joins_ok [OF j(2)] assms(3) by (auto simp: graph_of_def)
  from reg.joins_absorb [OF reg.joins_merge_map [OF j(1) this, unfolded assms(3) graph_of_def] j(2)]
    ctr.joins_absorb [OF ctr.joins_merge_map [OF j(3), of cs, unfolded assms(4) graph_of_def] j(4)]
  show ?thesis by (auto simp: holds_def regE_def ctrE_def UN_Un)
qed

lemma holds_unique: "holds go S m c \<Longrightarrow> holds go S m' c' \<Longrightarrow> m = m' \<and> c = c'"
  using reg.joins_unique ctr.joins_unique by (auto simp: holds_def)

subsection \<open>The invariant of the network\<close>

definition own :: "string set \<Rightarrow> string \<Rightarrow> Net \<Rightarrow> string \<Rightarrow> nat" where
  "own N d w a = (if a \<in> N then vv_of d (node w a) a else 0)"

definition net_ok :: "bool \<Rightarrow> string \<Rightarrow> string set \<Rightarrow> Op set \<Rightarrow> Net \<Rightarrow> bool" where
  "net_ok go d N H w \<longleftrightarrow> hist_ok go d (own N d w) H \<and>
     (\<forall>a \<in> N. actor (node w a) = a \<and> node_ok go d (own N d w) H (node w a)) \<and>
     (\<forall>(b, dl) \<in> wire w. b \<in> N \<and> msg_ok go d (own N d w) H (node w b) dl)"

lemma node_okI:
  assumes "store_ok s" "is_go s d = go" "actor s \<noteq> []" "\<And>a. vv_of d s a \<le> ow a"
    and "\<And>a n r. dlog d (tables s) (a, n) = Some r \<Longrightarrow> (\<exists>op \<in> H. op_log op = ((a, n), r)) \<and> n \<le> vv_of d s a"
    and "holds go (covered H (vv_of d s)) (dreg d (tables s)) (dctr d (tables s))"
  shows "node_ok go d ow H s"
  using assms by (auto simp: node_ok_def no_gap_rows_def)

text \<open>New operations are numbered past everything any replica or message covers.\<close>

definition fresh :: "(string \<Rightarrow> nat) \<Rightarrow> Op set \<Rightarrow> Op set \<Rightarrow> bool" where
  "fresh ow H H' \<longleftrightarrow> H \<subseteq> H' \<and> (\<forall>op \<in> H' - H. ow (op_Actor op) < op_Seq op)"

lemma fresh_refl [simp]: "fresh ow H H"
  by (simp add: fresh_def)

lemma covered_fresh: "fresh ow H H' \<Longrightarrow> \<forall>a. v a \<le> ow a \<Longrightarrow> covered H' v = covered H v"
proof -
  assume f: "fresh ow H H'" and v: "\<forall>a. v a \<le> ow a"
  have "op \<in> H" if "op \<in> H'" "op_Seq op \<le> v (op_Actor op)" for op
    using f that v [rule_format, of "op_Actor op"] leD order_trans unfolding fresh_def by blast
  then show ?thesis using f by (auto simp: covered_def fresh_def)
qed

lemma node_ok_mono:
  assumes "node_ok go d ow H s" "fresh ow H H'" "\<forall>a. ow a \<le> ow' a"
  shows "node_ok go d ow' H' s"
proof -
  have "covered H' (vv_of d s) = covered H (vv_of d s)"
    using covered_fresh [OF assms(2)] assms(1) by (simp add: node_ok_def)
  moreover have "\<forall>a n r. dlog d (tables s) (a, n) = Some r \<longrightarrow> (\<exists>op \<in> H'. op_log op = ((a, n), r))"
    using assms(1,2) unfolding node_ok_def fresh_def by blast
  moreover have "\<forall>a. vv_of d s a \<le> ow' a" using assms(1,3) order_trans unfolding node_ok_def by blast
  ultimately show ?thesis using assms(1) by (simp add: node_ok_def)
qed

lemma msg_ok_mono:
  assumes "msg_ok go d ow H s dl" "fresh ow H H'" "\<forall>a. ow a \<le> ow' a" "\<forall>a. vv_of d s a \<le> vv_of d s' a"
  shows "msg_ok go d ow' H' s' dl"
proof (cases "delta_target dl = d")
  case True
  show ?thesis
  proof (cases "d_SnapshotRequired dl")
    case req: True
    from assms(1) True req obtain snap m c where sn: "d_Snapshot dl = Some snap" "set (delta_regs dl) = graph_of m"
      "set (delta_ctrs dl) = graph_of c" "holds go (covered H (vv_get (sn_VV snap))) m c" "\<forall>a. vv_get (sn_VV snap) a \<le> ow a"
      by (auto simp: msg_ok_def)
    have "covered H' (vv_get (sn_VV snap)) = covered H (vv_get (sn_VV snap))"
      using covered_fresh [OF assms(2)] sn(5) by simp
    moreover have "\<forall>a. vv_get (sn_VV snap) a \<le> ow' a" using sn(5) assms(3) order_trans by blast
    ultimately show ?thesis using assms(1) sn req unfolding msg_ok_def by auto
  next
    case False
    from assms(1) True False obtain fr to where ft: "set (d_Ops dl) \<subseteq> H"
      "\<forall>a. fr a \<le> vv_of d s a \<and> run (d_Ops dl) a (fr a) (to a)" by (auto simp: msg_ok_def)
    have "\<forall>a. fr a \<le> vv_of d s' a \<and> run (d_Ops dl) a (fr a) (to a)" using ft(2) assms(4) order_trans by blast
    moreover have "set (d_Ops dl) \<subseteq> H'" using ft(1) assms(2) by (auto simp: fresh_def)
    ultimately show ?thesis using assms(1) False unfolding msg_ok_def by auto
  qed
qed (use assms(1) in \<open>simp add: msg_ok_def\<close>)

lemma net_ok_update:
  assumes ok: "net_ok go d N H w" and a: "a \<in> N" "actor s' = a" and fr: "fresh (own N d w) H H'"
    and mono: "\<forall>c. vv_of d (node w a) c \<le> vv_of d s' c"
    and s': "node_ok go d ((own N d w)(a := vv_of d s' a)) H' s'"
    and h: "hist_ok go d ((own N d w)(a := vv_of d s' a)) H'"
  shows "net_ok go d N H' (w\<lparr>node := (node w)(a := s')\<rparr>)"
proof -
  let ?w = "w\<lparr>node := (node w)(a := s')\<rparr>"
  define ow where "ow = (own N d w)(a := vv_of d s' a)"
  have own: "own N d ?w = ow" using a(1) by (auto simp: ow_def own_def fun_eq_iff)
  have le: "\<forall>c. own N d w c \<le> ow c" using mono a(1) by (simp add: own_def ow_def)
  have n: "node_ok go d ow H' (node ?w c) \<and> actor (node ?w c) = c" if "c \<in> N" for c
  proof (cases "c = a")
    case False
    then show ?thesis using that ok node_ok_mono [OF _ fr le] by (simp add: net_ok_def)
  qed (use s' a(2) ow_def in simp)
  have "msg_ok go d ow H' (node ?w b) dl \<and> b \<in> N" if m: "(b, dl) \<in> wire w" for b dl
  proof -
    have "msg_ok go d (own N d w) H (node w b) dl" "b \<in> N" using ok m by (auto simp: net_ok_def)
    then show ?thesis using msg_ok_mono [OF _ fr le, of go d "node w b" dl "node ?w b"] mono by auto
  qed
  then show ?thesis using n h by (auto simp: net_ok_def own ow_def [symmetric])
qed

text \<open>A step that changes nothing in the domain but, at most, drops log rows.\<close>

lemma net_ok_quiet:
  assumes ok: "net_ok go d N H w" and a: "a \<in> N" and s': "store_ok s'" "actor s' = a" "is_go s' d = go"
    and same: "dreg d (tables s') = dreg d (tables (node w a))" "dctr d (tables s') = dctr d (tables (node w a))"
      "\<And>b. vv_of d s' b = vv_of d (node w a) b" "dlog d (tables s') \<subseteq>\<^sub>m dlog d (tables (node w a))"
  shows "net_ok go d N H (w\<lparr>node := (node w)(a := s')\<rparr>)"
proof -
  have n: "node_ok go d (own N d w) H (node w a)" "actor (node w a) = a" using ok a by (auto simp: net_ok_def)
  have ow: "(own N d w)(a := vv_of d s' a) = own N d w" using a same(3) by (auto simp: own_def fun_eq_iff)
  have log: "dlog d (tables s') x = Some r \<Longrightarrow> dlog d (tables (node w a)) x = Some r" for x r
    using same(4) unfolding map_le_def dom_def by (metis (mono_tags) mem_Collect_eq option.distinct(1))
  have "node_ok go d (own N d w) H s'"
    using n s' same(1-3) log unfolding node_ok_def no_gap_rows_def by auto
  moreover have "hist_ok go d (own N d w) H" using ok by (simp add: net_ok_def)
  ultimately show ?thesis
    using net_ok_update [OF ok a s'(2) fresh_refl] same(3) ow [unfolded same(3)] by simp
qed

text \<open>A local write in the domain.\<close>

lemma net_ok_append:
  assumes ok: "net_ok go d N H w" and a: "a \<in> N"
    and ap: "appendLocal (node w a) (tables (node w a)) (localOp now (node w a) d k f kind v) = Inr tx"
    and args: "d \<noteq> []" "k \<noteq> []" "f \<noteq> []" "is_go (node w a) d \<longrightarrow> kind \<noteq> OpDel"
  shows "\<exists>H'. net_ok go d N H' (w\<lparr>node := (node w)(a := (node w a)\<lparr>tables := tx, clk := c, localChanges := i\<rparr>)\<rparr>)"
proof -
  let ?s = "node w a" and ?o = "localOp now (node w a) d k f kind v"
  let ?s' = "?s\<lparr>tables := tx, clk := c, localChanges := i\<rparr>"
  define q where "q = fst (metaFor (tables ?s) d a)"
  define op where "op = ?o\<lparr>op_Seq := q + 1\<rparr>"
  have n: "node_ok go d (own N d w) H ?s" and act: "actor ?s = a" and h: "hist_ok go d (own N d w) H"
    using ok a by (auto simp: net_ok_def)
  have st: "store_ok ?s" and go: "is_go ?s d = go" using n by (auto simp: node_ok_def)
  have o: "op_Domain ?o = d" "op_Actor ?o = actor ?s" "op_Kind ?o = kind"
    by (simp_all add: localOp_def mkOp_def)
  note ef = appendLocal_effect [OF ap store_okD(1) [OF st], unfolded o, OF refl args(4), unfolded act, folded q_def, folded op_def]
  have opf: "op_Actor op = a" "op_Seq op = q + 1" "op_Domain op = d"
    using o act by (simp_all add: op_def)
  have own: "own N d w a = q" using a by (simp add: own_def q_def)
  have sound: "op_sound go d op" using ef(8) opf args go n act
    by (auto simp: op_sound_def op_def localOp_def mkOp_def node_ok_def)
  have fr: "fresh (own N d w) H (insert op H)" using opf own by (auto simp: fresh_def)
  have vv: "vv_of d ?s' = (vv_of d ?s)(a := q + 1)" using ef(5) by (auto simp: q_def fun_eq_iff)
  have hist: "hist_ok go d ((own N d w)(a := q + 1)) (insert op H)"
    using h sound opf own unfolding hist_ok_def by (auto simp: inj_on_insert)
  have cov: "covered (insert op H) (vv_of d ?s') = covered H (vv_of d ?s) \<union> {op}"
    using h opf own unfolding vv by (auto simp: covered_def hist_ok_def q_def split: if_splits)
  have "holds go (covered H (vv_of d ?s) \<union> set [op]) (dreg d tx) (dctr d tx)"
    using holds_merge [of go "covered H (vv_of d ?s)" _ _ "[op]"] n sound ef(1,2) go
    by (simp add: node_ok_def op_sound_def)
  then have hd: "holds go (covered (insert op H) (vv_of d ?s')) (dreg d (tables ?s')) (dctr d (tables ?s'))"
    unfolding cov by simp
  have "store_ok ?s'" using store_ok_appendLocal [OF st ap args(4)] .
  moreover have "(\<exists>op' \<in> insert op H. op_log op' = ((b, m), r)) \<and> m \<le> ((vv_of d ?s)(a := q + 1)) b"
    if "dlog d tx (b, m) = Some r" for b m r
  proof (cases "(b, m) = (a, q + 1)")
    case True
    then show ?thesis using that ef(3) opf by (simp add: op_log_def)
  next
    case False
    then have l: "dlog d (tables ?s) (b, m) = Some r" using that ef(3) by auto
    then have "m \<le> vv_of d ?s b" using n by (auto simp: node_ok_def no_gap_rows_def)
    moreover have "\<exists>op' \<in> H. op_log op' = ((b, m), r)" using l n by (simp add: node_ok_def)
    ultimately show ?thesis by (auto simp: q_def)
  qed
  moreover have "vv_of d ?s b \<le> own N d w b" for b using n by (simp add: node_ok_def)
  moreover have vb: "vv_of d ?s' b = ((vv_of d ?s)(a := q + 1)) b" for b using vv by metis
  note vb
  moreover have "actor ?s' \<noteq> []" "is_go ?s' d = go" using n by (simp_all add: node_ok_def is_go_def)
  ultimately have "node_ok go d ((own N d w)(a := q + 1)) (insert op H) ?s'"
    using hd by (intro node_okI) simp_all
  then have "net_ok go d N (insert op H) (w\<lparr>node := (node w)(a := ?s')\<rparr>)"
    using vb hist fr act by (intro net_ok_update [OF ok a]) (simp_all add: q_def)
  then show ?thesis by blast
qed

text \<open>A delivered list of operations.\<close>

lemma merge_map_keep_first_mem:
  "merge_map keep_first es m k = Some r \<Longrightarrow> m k = Some r \<or> (k, r) \<in> set es"
proof (induction es arbitrary: m)
  case (Cons e es)
  obtain k' v where e: "e = (k', v)" by (cases e)
  from Cons.IH [OF Cons.prems [unfolded e merge_map_simps]] show ?case
    by (auto simp: e keep_first_def split: if_splits option.splits)
qed simp

lemma run_mem: "run ops a p t \<Longrightarrow> p < q \<Longrightarrow> q \<le> t \<Longrightarrow> \<exists>op \<in> set ops. op_Actor op = a \<and> op_Seq op = q"
proof -
  assume "run ops a p t" "p < q" "q \<le> t"
  then have "q \<in> op_Seq ` {op \<in> set ops. op_Actor op = a}" by (simp add: run_def)
  then show ?thesis by auto
qed

lemma run_bound: "run ops a p t \<Longrightarrow> op \<in> set ops \<Longrightarrow> op_Actor op = a \<Longrightarrow> p < op_Seq op \<and> op_Seq op \<le> t"
proof -
  assume r: "run ops a p t" and "op \<in> set ops" "op_Actor op = a"
  then have "op_Seq op \<in> op_Seq ` {op \<in> set ops. op_Actor op = a}" by simp
  then show ?thesis using r by (simp add: run_def)
qed

lemma Merge_ops_vv:
  assumes "Merge nows s (Some dl) = (Inr n, s')" "\<not> d_SnapshotRequired dl" "store_ok s" "no_gap_rows (d_Domain dl) (tables s)"
    and "\<And>a. fr a \<le> vv_of (d_Domain dl) s a \<and> run (d_Ops dl) a (fr a) (to a)"
  shows "vv_of (d_Domain dl) s' a = max (vv_of (d_Domain dl) s a) (to a)"
proof -
  let ?d = "d_Domain dl" and ?v = "vv_of (d_Domain dl) s a"
  note ef = Merge_ops_effect [OF assms(1,2) store_okD(1) [OF assms(3)]]
  have row: "dlog ?d (tables s') (b, q) \<noteq> None \<longleftrightarrow> dlog ?d (tables s) (b, q) \<noteq> None \<or>
      (\<exists>op \<in> set (d_Ops dl). op_Actor op = b \<and> op_Seq op = q)" for b q
    unfolding ef(3) merge_map_None_iff [THEN arg_cong [where f = Not]] by (auto simp: op_log_def image_iff)
  show ?thesis
  proof (cases "a \<in> op_Actor ` set (d_Ops dl)")
    case False
    then have "{fr a<..to a} = {}" using assms(5) [of a] unfolding run_def by (metis (mono_tags, lifting) Collect_empty_eq image_empty image_eqI)
    then show ?thesis using assms(5) [of a] ef(4) [of a] False by auto
  next
    case True
    have "max ?v (to a) \<le> contiguousEnd (tables s') ?d a ?v"
      using run_mem [of "d_Ops dl" a "fr a" "to a"] assms(5) [of a] row
      by (intro contiguousEnd_reaches) (auto intro: order_le_less_trans)
    moreover have "contiguousEnd (tables s') ?d a ?v \<le> max ?v (to a)"
    proof (rule ccontr)
      let ?e = "contiguousEnd (tables s') ?d a ?v"
      assume "\<not> ?e \<le> max ?v (to a)"
      then have e: "?v < ?e" "to a < ?e" by auto
      have "dlog ?d (tables s) (a, ?e) = None" using assms(4) e(1) by (force simp: no_gap_rows_def)
      then obtain op where "op \<in> set (d_Ops dl)" "op_Actor op = a" "op_Seq op = ?e"
        using row [of a ?e] contiguousEnd_rows [OF e(1) order_refl] by blast
      then show False using run_bound assms(5) [of a] e(2) by fastforce
    qed
    ultimately have "contiguousEnd (tables s') ?d a ?v = max ?v (to a)" by (rule antisym [rotated])
    then show ?thesis using ef(4) [of a] True by simp
  qed
qed

lemma deliver_ops:
  assumes m: "Merge nows s (Some dl) = (Inr n, s')" "\<not> d_SnapshotRequired dl" "d_Domain dl = d"
    and n: "node_ok go d ow H s" and h: "hist_ok go d ow H" and sub: "set (d_Ops dl) \<subseteq> H"
    and ft: "\<And>a. fr a \<le> vv_of d s a \<and> run (d_Ops dl) a (fr a) (to a)"
  shows "node_ok go d ow H s'" "vv_of d s' a = max (vv_of d s a) (to a)"
proof -
  have st: "store_ok s" and gap: "no_gap_rows d (tables s)" using n by (auto simp: node_ok_def)
  note ef = Merge_ops_effect [OF m(1,2) store_okD(1) [OF st], unfolded m(3)]
  have vv: "vv_of d s' a = max (vv_of d s a) (to a)" for a
    using Merge_ops_vv [OF m(1,2) st, unfolded m(3), OF gap ft] .
  then show "vv_of d s' a = max (vv_of d s a) (to a)" .
  have static: "actor s' = actor s" "growOnly s' = growOnly s" using Merge_ops_cases [OF m(1,2)] by metis+
  have mem: "op \<in> H" "op_Seq op \<le> to (op_Actor op)" if "op \<in> set (d_Ops dl)" for op
    using that sub run_bound ft by blast+
  have cov: "covered H (vv_of d s') = covered H (vv_of d s) \<union> set (d_Ops dl)"
  proof (intro set_eqI iffI)
    fix op assume "op \<in> covered H (vv_of d s')"
    then have op: "op \<in> H" "op_Seq op \<le> vv_of d s (op_Actor op) \<or> op_Seq op \<le> to (op_Actor op)"
      by (auto simp: covered_def vv max_def split: if_splits)
    show "op \<in> covered H (vv_of d s) \<union> set (d_Ops dl)"
    proof (cases "op_Seq op \<le> vv_of d s (op_Actor op)")
      case False
      then have "fr (op_Actor op) < op_Seq op" using ft [of "op_Actor op"] by linarith
      then obtain op' where "op' \<in> set (d_Ops dl)" "op_Actor op' = op_Actor op" "op_Seq op' = op_Seq op"
        using run_mem [of "d_Ops dl" "op_Actor op" _ _ "op_Seq op"] ft op(2) False by blast
      then have "op' = op" using h op(1) sub unfolding hist_ok_def inj_on_def by blast
      then show ?thesis using \<open>op' \<in> set (d_Ops dl)\<close> by simp
    qed (use op(1) in \<open>simp add: covered_def\<close>)
  qed (auto simp: covered_def vv mem le_max_iff_disj)
  have "\<forall>op \<in> set (d_Ops dl). \<not> (op_Kind op = OpDel \<and> go)" using h mem(1) by (auto simp: hist_ok_def op_sound_def)
  moreover have "holds go (covered H (vv_of d s)) (dreg d (tables s)) (dctr d (tables s))" "is_go s d = go"
    using n by (auto simp: node_ok_def)
  ultimately have hd: "holds go (covered H (vv_of d s')) (dreg d (tables s')) (dctr d (tables s'))"
    unfolding cov using holds_merge [of go "covered H (vv_of d s)" "dreg d (tables s)" "dctr d (tables s)" "d_Ops dl"] ef(1,2)
    by simp
  have log: "(\<exists>op \<in> H. op_log op = ((b, q), r)) \<and> q \<le> vv_of d s' b" if "dlog d (tables s') (b, q) = Some r" for b q r
  proof -
    from merge_map_keep_first_mem [OF that [unfolded ef(3)]] consider
      "dlog d (tables s) (b, q) = Some r" | op where "op \<in> set (d_Ops dl)" "op_log op = ((b, q), r)" by auto
    then show ?thesis
    proof cases
      case 1
      then have "q \<le> vv_of d s b" using gap by (auto simp: no_gap_rows_def)
      then show ?thesis using 1 n vv [of b] by (auto simp: node_ok_def)
    next
      case 2
      then have "b = op_Actor op" "q = op_Seq op" by (auto simp: op_log_def)
      then show ?thesis using 2 mem [OF 2(1)] vv [of b] by auto
    qed
  qed
  have le: "vv_of d s' b \<le> ow b" for b
  proof (cases "fr b < to b")
    case True
    then obtain op where "op \<in> set (d_Ops dl)" "op_Actor op = b" "op_Seq op = to b" using run_mem ft by blast
    then have "to b \<le> ow b" using h mem(1) unfolding hist_ok_def by metis
    then show ?thesis using n by (simp add: vv node_ok_def)
  next
    case False
    then show ?thesis using n ft [of b] by (simp add: vv node_ok_def)
  qed
  have g: "is_go s' d = go" "actor s' \<noteq> []" using n static by (simp_all add: node_ok_def is_go_def)
  show "node_ok go d ow H s'"
    by (rule node_okI [OF Merge_ops_store_ok [OF st m(1,2)] g le log hd])
qed

text \<open>A delivered snapshot.\<close>

lemma deliver_snapshot:
  assumes ap: "ApplySnapshot nows s snap = (Inr u, s')" "unique_keys (sn_VV snap)" "sn_Domain snap = d"
    and n: "node_ok go d ow H s"
    and msg: "set (map snap_reg (sn_Registers snap)) = graph_of m" "set (map snap_ctr (sn_Counters snap)) = graph_of c"
      "holds go (covered H (vv_get (sn_VV snap))) m c" "\<forall>a. vv_get (sn_VV snap) a \<le> ow a"
  shows "node_ok go d ow H s'" "vv_of d s' a = max (vv_of d s a) (vv_get (sn_VV snap) a)"
proof -
  let ?v = "vv_get (sn_VV snap)"
  have st: "store_ok s" and gap: "no_gap_rows d (tables s)" using n by (auto simp: node_ok_def)
  note ef = ApplySnapshot_effect [OF ap(1) store_okD(1) [OF st] ap(2), unfolded ap(3)]
  have sub: "dlog d (tables s') (b, q) = Some r \<Longrightarrow> dlog d (tables s) (b, q) = Some r" for b q r
    using ef(3) [of b q] by (auto split: option.splits if_splits)
  have none: "dlog d (tables s') (b, Suc (max q (vv_of d s b))) = None" for b q
  proof (cases "dlog d (tables s') (b, Suc (max q (vv_of d s b)))")
    case (Some r)
    then have "Suc (max q (vv_of d s b)) \<le> vv_of d s b"
      using gap sub [OF Some] unfolding no_gap_rows_def by blast
    then show ?thesis by simp
  qed
  have vv: "vv_of d s' b = max (vv_of d s b) (?v b)" for b
    using ef(4) [of b] contiguousEnd_stuck [OF none]
    by (auto simp: vv_get_def max.commute split: option.splits)
  then show "vv_of d s' a = max (vv_of d s a) (?v a)" .
  have cov: "covered H (vv_of d s') = covered H (vv_of d s) \<union> covered H ?v"
    by (auto simp: covered_def vv)
  have go: "is_go s d = go" and h: "holds go (covered H (vv_of d s)) (dreg d (tables s)) (dctr d (tables s))"
    using n by (auto simp: node_ok_def)
  have hd: "holds go (covered H (vv_of d s')) (dreg d (tables s')) (dctr d (tables s'))"
    unfolding cov using holds_absorb [OF h msg(3,1,2)] ef(1,2) go by simp
  have log: "(\<exists>op \<in> H. op_log op = ((b, q), r)) \<and> q \<le> vv_of d s' b" if "dlog d (tables s') (b, q) = Some r" for b q r
  proof -
    have l: "dlog d (tables s) (b, q) = Some r" by (rule sub [OF that])
    then have "q \<le> vv_of d s b" using gap by (auto simp: no_gap_rows_def)
    then show ?thesis using l n by (auto simp: vv node_ok_def)
  qed
  have le: "vv_of d s' b \<le> ow b" for b using n msg(4) by (simp add: vv node_ok_def)
  have "actor s' = actor s" "growOnly s' = growOnly s" using ApplySnapshot_cases [OF ap(1)] by metis+
  then have g: "is_go s' d = go" "actor s' \<noteq> []" using n by (simp_all add: node_ok_def is_go_def)
  show "node_ok go d ow H s'"
    by (rule node_okI [OF ApplySnapshot_store_ok [OF st ap(1,2)] g le log hd])
qed

lemma deliver_msg:
  assumes m: "Merge nows s (Some dl) = (Inr n, s')" "delta_target dl = d"
    and n: "node_ok go d ow H s" and h: "hist_ok go d ow H" and msg: "msg_ok go d ow H s dl"
  shows "node_ok go d ow H s'" "vv_of d s a \<le> vv_of d s' a"
proof (atomize (full), cases "d_SnapshotRequired dl")
  case True
  from Merge_snapshot_cases [OF m(1) True] obtain snap where sn: "d_Snapshot dl = Some snap"
    "ApplySnapshot nows s snap = (Inr (), s')" by metis
  have u: "unique_keys (sn_VV snap)" "sn_Domain snap = d"
    using msg m(2) sn(1) True by (auto simp: msg_ok_def delta_wf_def delta_target_def)
  obtain mm c where mc: "set (map snap_reg (sn_Registers snap)) = graph_of mm" "set (map snap_ctr (sn_Counters snap)) = graph_of c"
      "holds go (covered H (vv_get (sn_VV snap))) mm c" "\<forall>a. vv_get (sn_VV snap) a \<le> ow a"
    using msg m(2) sn(1) True unfolding msg_ok_def by (auto simp: delta_regs_def delta_ctrs_def)
  show "node_ok go d ow H s' \<and> vv_of d s a \<le> vv_of d s' a"
    using deliver_snapshot [OF sn(2) u n mc] by simp
next
  case False
  then have d: "d_Domain dl = d" using m(2) by (simp add: delta_target_def)
  obtain fr to where ft: "set (d_Ops dl) \<subseteq> H" "\<And>a. fr a \<le> vv_of d s a \<and> run (d_Ops dl) a (fr a) (to a)"
    using msg m(2) False by (auto simp: msg_ok_def)
  show "node_ok go d ow H s' \<and> vv_of d s a \<le> vv_of d s' a"
    using deliver_ops [OF m(1) False d n h ft] by simp
qed

text \<open>A delta made for a peer.\<close>

lemma Snapshot_regs:
  assumes "norm_rows tx" "keys_ok tx"
  shows "set (map snap_reg (sn_Registers (Store_Snapshot now tx d))) = graph_of (dreg d tx)"
proof -
  have row: "mk_row (r_value r) (r_deleted r) (r_stamp r) = r" if "map_of (crdt_reg tx) x = Some r" for x r
    using norm_rowsD [OF assms(1) that] by (cases r) (auto simp: mk_row_def)
  have mem: "((d', k, f), r) \<in> set (crdt_reg tx) \<longleftrightarrow> map_of (crdt_reg tx) (d', k, f) = Some r" for d' k f r
    using map_of_mem [of "crdt_reg tx"] assms(2) by (simp add: keys_ok_def)
  show ?thesis
    by (force simp: Store_Snapshot_def snap_reg_def graph_of_def dreg_def mem row image_iff)
qed

lemma Snapshot_ctrs:
  assumes "keys_ok tx"
  shows "set (map snap_ctr (sn_Counters (Store_Snapshot now tx d))) = graph_of (dctr d tx)"
proof -
  have mem: "((d', k, f, a), p) \<in> set (crdt_ctr tx) \<longleftrightarrow> map_of (crdt_ctr tx) (d', k, f, a) = Some p" for d' k f a p
    using map_of_mem [of "crdt_ctr tx"] assms by (simp add: keys_ok_def)
  show ?thesis
    by (force simp: Store_Snapshot_def snap_ctr_def graph_of_def dctr_def mem image_iff)
qed

lemma Store_Delta_shape:
  assumes "Store_Delta now s d peer lim = Inr dl"
  shows "delta_target dl = d" "keys_ok (tables s) \<Longrightarrow> delta_wf dl"
proof -
  have "d_Domain dl = d \<and> (d_Snapshot dl = None \<and> \<not> d_SnapshotRequired dl \<or> d_Snapshot dl = Some (Store_Snapshot now (tables s) d))"
    using assms by (auto simp: Store_Delta_def Let_def split: option.splits if_splits prod.splits)
  then show "delta_target dl = d" "keys_ok (tables s) \<Longrightarrow> delta_wf dl"
    by (auto simp: delta_target_def delta_wf_def Store_Snapshot_def unique_keys_VersionVector split: option.splits)
qed

lemma send_msg_ok:
  assumes n: "node_ok go d ow H s" and h: "hist_ok go d ow H"
    and dl: "Store_Delta now s d' vv lim = Inr dl" and le: "\<forall>c. vv_get vv c \<le> vv_of d' r c"
  shows "msg_ok go d ow H r dl"
proof (cases "d' = d")
  case False
  then show ?thesis using Store_Delta_shape [OF dl] n by (auto simp: msg_ok_def node_ok_def dest: store_okD(2))
next
  case True
  have st: "store_ok s" and gap: "no_gap_rows d (tables s)" using n by (auto simp: node_ok_def)
  have k: "keys_ok (tables s)" "norm_rows (tables s)" using store_okD [OF st] by auto
  note sh = Store_Delta_shape [OF dl]
  show ?thesis
  proof (cases rule: Store_Delta_spec [OF st gap dl [unfolded True]])
    case 1
    let ?snap = "Store_Snapshot now (tables s) d"
    have "covered H (vv_get (sn_VV ?snap)) = covered H (vv_of d s)"
      using vv_get_VersionVector [OF k(1), of d] by (simp add: Store_Snapshot_def covered_def)
    moreover have "vv_get (sn_VV ?snap) a \<le> ow a" for a
      using vv_get_VersionVector [OF k(1), of d] n by (simp add: Store_Snapshot_def node_ok_def)
    ultimately show ?thesis
      using 1 sh k n Snapshot_regs [OF k(2,1), of now d] Snapshot_ctrs [OF k(1), of now d]
      unfolding msg_ok_def by (auto simp: node_ok_def delta_regs_def delta_ctrs_def)
  next
    case (2 top)
    have "op \<in> H" if op: "op \<in> set (d_Ops dl)" for op
    proof -
      obtain row where row: "dlog d (tables s) (op_Actor op, op_Seq op) = Some row"
        "op = op_of_row d (op_Actor op) (op_Seq op) row" using 2(4) op by (auto simp: in_log_def)
      obtain op' where op': "op' \<in> H" "op_log op' = ((op_Actor op, op_Seq op), row)"
        using n row(1) unfolding node_ok_def by blast
      have "op_sound go d op'" using h op'(1) by (simp add: hist_ok_def)
      then have "op' = op_of_row d (op_Actor op) (op_Seq op) row"
        using op'(2) by (cases "op_Stamp op'") (auto simp: op_log_def op_of_row_def op_row_of_def op_sound_def)
      then show ?thesis using op'(1) row(2) by simp
    qed
    moreover have "\<forall>a. vv_get vv a \<le> vv_of d r a \<and> run (d_Ops dl) a (vv_get vv a) (top a)" using le True 2(5) by simp
    ultimately show ?thesis using 2(2) sh k unfolding msg_ok_def by auto
  qed
qed

subsection \<open>Every step keeps the invariant\<close>

lemma net_okD:
  assumes "net_ok go d N H w" "a \<in> N"
  shows "store_ok (node w a)" "actor (node w a) = a" "is_go (node w a) d = go" "node_ok go d (own N d w) H (node w a)"
    "hist_ok go d (own N d w) H"
  using assms by (auto simp: net_ok_def node_ok_def)

lemma net_ok_clk:
  assumes "net_ok go d N H w" "a \<in> N"
  shows "net_ok go d N H (w\<lparr>node := (node w)(a := (node w a)\<lparr>clk := c\<rparr>)\<rparr>)"
proof (rule net_ok_quiet [OF assms])
  show "store_ok ((node w a)\<lparr>clk := c\<rparr>)"
    using ticked_store_ok [of "node w a" "(node w a)\<lparr>clk := c\<rparr>"] net_okD(1) [OF assms] by (auto simp: ticked_def)
qed (use net_okD [OF assms] in \<open>simp_all add: is_go_def\<close>)

lemma net_ok_same:
  assumes "net_ok go d N H w" "a \<in> N"
  shows "net_ok go d N H (w\<lparr>node := (node w)(a := node w a)\<rparr>)"
  using net_ok_clk [OF assms, of "clk (node w a)"] by simp

lemma net_ok_outside:
  assumes ok: "net_ok go d N H w" and a: "a \<in> N" and s': "store_ok s'" "actor s' = a" "growOnly s' = growOnly (node w a)"
    and out: "same_outside e (tables (node w a)) (tables s')" "e \<noteq> d"
  shows "net_ok go d N H (w\<lparr>node := (node w)(a := s')\<rparr>)"
proof -
  have "dreg d (tables s') = dreg d (tables (node w a))" "dctr d (tables s') = dctr d (tables (node w a))"
    "dlog d (tables s') = dlog d (tables (node w a))" "\<And>b. vv_of d s' b = vv_of d (node w a) b"
    using out by (auto simp: same_outside_def)
  then show ?thesis using s' net_okD(3) [OF ok a] by (intro net_ok_quiet [OF ok a]) (auto simp: is_go_def)
qed

lemma net_ok_appended:
  assumes ok: "net_ok go d N H w" and a: "a \<in> N"
    and ap: "appendLocal (node w a) (tables (node w a)) (localOp now (node w a) e k f kind v) = Inr tx"
    and args: "e \<noteq> []" "k \<noteq> []" "f \<noteq> []" "is_go (node w a) e \<longrightarrow> kind \<noteq> OpDel"
  shows "\<exists>H'. net_ok go d N H' (w\<lparr>node := (node w)(a := (node w a)\<lparr>tables := tx, clk := c, localChanges := i\<rparr>)\<rparr>)"
proof (cases "e = d")
  case True
  then show ?thesis using net_ok_append [OF ok a] ap args by blast
next
  case False
  let ?o = "localOp now (node w a) e k f kind v"
  have o: "op_Domain ?o = e" "op_Actor ?o = actor (node w a)" "op_Kind ?o = kind" by (simp_all add: localOp_def mkOp_def)
  note st = net_okD(1) [OF ok a]
  note ef = appendLocal_effect [OF ap store_okD(1) [OF st], unfolded o, OF refl args(4)]
  have "net_ok go d N H (w\<lparr>node := (node w)(a := (node w a)\<lparr>tables := tx, clk := c, localChanges := i\<rparr>)\<rparr>)"
    using ef(7) False store_ok_appendLocal [OF st ap args(4)] net_okD(2) [OF ok a]
    by (intro net_ok_outside [OF ok a, where e = e]) auto
  then show ?thesis by blast
qed

lemma net_ok_local:
  assumes ok: "net_ok go d N H w" and a: "a \<in> N"
  shows "\<exists>H'. net_ok go d N H' (w\<lparr>node := (node w)(a := snd (local now (node w a) e k f kind v))\<rparr>)"
proof (cases "local now (node w a) e k f kind v")
  case (Pair r s')
  show ?thesis
  proof (cases r)
    case (Inl er)
    then show ?thesis using local_error [of now "node w a" e k f kind v er s'] Pair net_ok_same [OF ok a] net_ok_clk [OF ok a]
      by (metis snd_conv)
  next
    case (Inr u)
    then show ?thesis using local_cases [of now "node w a" e k f kind v u s'] Pair net_ok_appended [OF ok a]
      by (metis snd_conv)
  qed
qed

lemma net_ok_add:
  assumes ok: "net_ok go d N H w" and a: "a \<in> N"
  shows "\<exists>H'. net_ok go d N H' (w\<lparr>node := (node w)(a := snd (Store_Add now (node w a) e k f x))\<rparr>)"
proof (cases "Store_Add now (node w a) e k f x")
  case (Pair r s')
  show ?thesis
  proof (cases r)
    case (Inl er)
    then show ?thesis using Store_Add_error [of now "node w a" e k f x er s'] Pair net_ok_same [OF ok a] net_ok_clk [OF ok a]
      by (metis snd_conv)
  next
    case (Inr u)
    then show ?thesis using Store_Add_cases [of now "node w a" e k f x u s'] Pair net_ok_appended [OF ok a]
      by (metis snd_conv OpKind.distinct(7))
  qed
qed

lemma net_ok_compact:
  assumes ok: "net_ok go d N H w" and a: "a \<in> N"
  shows "net_ok go d N H (w\<lparr>node := (node w)(a := snd (Compact (node w a) e keep))\<rparr>)"
proof (cases "fst (Compact (node w a) e keep)")
  case (Inl er)
  then have "snd (Compact (node w a) e keep) = node w a" using Compact_error by (metis prod.collapse)
  then show ?thesis using net_ok_same [OF ok a] by simp
next
  case (Inr n)
  let ?s' = "snd (Compact (node w a) e keep)"
  have c: "Compact (node w a) e keep = (Inr n, ?s')" using Inr by (metis prod.collapse)
  note st = net_okD(1) [OF ok a] and ef = Compact_effect [OF c net_okD(1) [OF ok a]]
  show ?thesis
  proof (cases "e = d")
    case True
    have "vv_of d ?s' b = vv_of d (node w a) b" for b using ef(6) [of b] True by simp
    moreover have "dlog d (tables ?s') \<subseteq>\<^sub>m dlog d (tables (node w a))"
      using ef(7) True by (auto simp: map_le_def split: if_splits)
    ultimately show ?thesis using ef(1,2,8,10) net_okD [OF ok a] Compact_store_ok [OF st c]
      by (intro net_ok_quiet [OF ok a]) (auto simp: is_go_def)
  next
    case False
    then show ?thesis using ef(5,8,10) net_okD(2) [OF ok a] Compact_store_ok [OF st c]
      by (intro net_ok_outside [OF ok a, where e = e]) auto
  qed
qed

lemma net_ok_deliver:
  assumes ok: "net_ok go d N H w" and m: "(b, dl) \<in> wire w"
  shows "net_ok go d N H (w\<lparr>node := (node w)(b := snd (Merge nows (node w b) (Some dl)))\<rparr>)"
proof -
  have b: "b \<in> N" and msg: "msg_ok go d (own N d w) H (node w b) dl" using ok m by (auto simp: net_ok_def)
  show ?thesis
  proof (cases "fst (Merge nows (node w b) (Some dl))")
    case (Inl er)
    then have "snd (Merge nows (node w b) (Some dl)) = node w b" using Merge_error by (metis prod.collapse)
    then show ?thesis using net_ok_same [OF ok b] by simp
  next
    case (Inr n)
    let ?s' = "snd (Merge nows (node w b) (Some dl))"
    have c: "Merge nows (node w b) (Some dl) = (Inr n, ?s')" using Inr by (metis prod.collapse)
    have wf: "delta_wf dl" using msg by (simp add: msg_ok_def)
    note D = net_okD [OF ok b] and ef = Merge_effect [OF net_okD(1) [OF ok b] wf c]
    show ?thesis
    proof (cases "delta_target dl = d")
      case True
      note dm = deliver_msg [OF c True D(4,5) msg]
      have up: "vv_of d ?s' b = own N d w b"
      proof (rule antisym)
        show "vv_of d ?s' b \<le> own N d w b" using dm(1) by (simp add: node_ok_def)
        show "own N d w b \<le> vv_of d ?s' b" using dm(2) [of b] b by (simp add: own_def)
      qed
      then have "(own N d w)(b := vv_of d ?s' b) = own N d w" by (metis fun_upd_triv)
      then show ?thesis using dm D(2,5) ef(8) by (intro net_ok_update [OF ok b]) simp_all
    next
      case False
      then show ?thesis using ef(4,6,8) D(2) Merge_store_ok [OF D(1) wf c]
        by (intro net_ok_outside [OF ok b, where e = "delta_target dl"]) auto
    qed
  qed
qed

lemma net_ok_send:
  assumes "net_ok go d N H w" "a \<in> N" "b \<in> N" "\<forall>c. vv_get vv c \<le> vv_of e (node w b) c"
    and "Store_Delta now (node w a) e vv limit = Inr dl"
  shows "net_ok go d N H (w\<lparr>wire := insert (b, dl) (wire w)\<rparr>)"
proof -
  have "own N d (w\<lparr>wire := insert (b, dl) (wire w)\<rparr>) = own N d w" by (simp add: own_def fun_eq_iff)
  then show ?thesis using assms(1,3) send_msg_ok [OF net_okD(4,5) [OF assms(1,2)] assms(5,4)] by (simp add: net_ok_def)
qed

lemma nstep_net_ok: "nstep N w w' \<Longrightarrow> net_ok go d N H w \<Longrightarrow> \<exists>H'. net_ok go d N H' w'"
  by (induction rule: nstep.induct)
    (auto simp: Store_Set_def Store_Delete_def intro: net_ok_local net_ok_add net_ok_compact net_ok_deliver net_ok_send)

lemma nsteps_net_ok: "(nstep N)\<^sup>*\<^sup>* w w' \<Longrightarrow> \<exists>H. net_ok go d N H w \<Longrightarrow> \<exists>H'. net_ok go d N H' w'"
  by (induction rule: rtranclp_induct) (auto dest: nstep_net_ok)

lemma joins_empty: "joins ok le {} (\<lambda>_. None)"
  by (simp add: joins_def)

lemma Open_fields:
  "Open now stored a domains = Inr s \<Longrightarrow> tables s = stored \<and> actor s = a \<and> a \<noteq> [] \<and>
    allowed s = allowSet domains \<and> growOnly s = filter IsGrowOnly (allowSet domains)"
  by (auto simp: Open_def Let_def split: if_splits)

lemma net_start_ok:
  assumes "net_start N domains w"
  shows "\<exists>go. net_ok go d N {} w"
proof -
  let ?go = "d \<in> set (filter IsGrowOnly (allowSet domains))"
  have "node_ok ?go d (own N d w) {} (node w a) \<and> actor (node w a) = a" if a: "a \<in> N" for a
  proof -
    obtain now where o: "Open now empty_db a domains = Inr (node w a)" using assms a by (auto simp: net_start_def)
    have t: "tables (node w a) = empty_db" "actor (node w a) = a" "a \<noteq> []" "growOnly (node w a) = filter IsGrowOnly (allowSet domains)"
      using Open_fields [OF o] by auto
    have e: "dreg d empty_db = (\<lambda>_. None)" "dctr d empty_db = (\<lambda>_. None)" "dlog d empty_db = (\<lambda>_. None)"
      "metaFor empty_db d b = (0, 0)" for b
      by (auto simp: dreg_def dctr_def dlog_def metaFor_def empty_db_def)
    show ?thesis using Open_store_ok [OF o] t
      by (simp add: node_ok_def is_go_def no_gap_rows_def e holds_def covered_def regE_def ctrE_def joins_empty)
  qed
  moreover have "hist_ok ?go d (own N d w) {}" by (simp add: hist_ok_def)
  moreover have "wire w = {}" using assms by (simp add: net_start_def)
  ultimately show ?thesis unfolding net_ok_def by blast
qed

lemma nstep_allowed: "nstep N w w' \<Longrightarrow> allowed (node w' a) = allowed (node w a)"
  by (induction rule: nstep.induct)
    (auto simp: Store_Set_def Store_Delete_def Store_Add_def local_def Merge_def ApplySnapshot_def
      Compact_def inTx_def split: option.splits prod.splits sum.splits)

lemma nsteps_allowed: "(nstep N)\<^sup>*\<^sup>* w w' \<Longrightarrow> allowed (node w' a) = allowed (node w a)"
  by (induction rule: rtranclp_induct) (simp_all add: nstep_allowed)

subsection \<open>Honest deltas are accepted\<close>

lemma foldE_mergeOp_total: "\<forall>op \<in> set ops. op_applies op \<Longrightarrow> \<exists>st'. foldE (mergeOp s d) ops st = Inr st'"
proof (induction ops arbitrary: st)
  case (Cons op ops)
  let ?op = "if op_Domain op = [] then op\<lparr>op_Domain := d\<rparr> else op"
  have "op_applies ?op" using Cons.prems by (auto simp: op_applies_def split: OpKind.splits)
  then obtain tx where "applyToState s (fst (insertOpIfNew (snd st) ?op)) ?op = Inr tx" using applyToState_applies by blast
  then have "\<exists>st1. mergeOp s d op st = Inr st1"
    by (simp only: mergeOp_def Let_def case_prod_beta bindE_simps) simp
  then show ?case using Cons by auto
qed simp

lemma honest_ops_accepted:
  assumes "d_Domain dl = d" "d \<in> set (allowed s)" "\<not> d_SnapshotRequired dl" "\<forall>op \<in> set (d_Ops dl). op_sound (is_go s d) d op"
  shows "\<exists>n s'. Merge nows s (Some dl) = (Inr n, s')"
proof -
  have "op_applies op \<Longrightarrow> Valid (op_Kind op)" for op
    by (cases "op_Kind op") (simp_all add: op_applies_def Valid_def)
  then have c: "checkOps s d (d_Ops dl) = None"
    using assms(4) by (auto simp: checkOps_None_iff op_sound_def)
  obtain n tx where "foldE (mergeOp s d) (d_Ops dl) (0, tables s) = Inr (n, tx)"
    using foldE_mergeOp_total [of "d_Ops dl" s d "(0, tables s)"] assms(4) by (auto simp: op_sound_def)
  then show ?thesis using assms(1-3) c by (cases "d_Ops dl = []") (simp_all add: Merge_def checkDomain_def inTx_def)
qed

lemma honest_snapshot_accepted:
  assumes "d \<in> set (allowed s)" "d_Domain dl = d" "d_SnapshotRequired dl" "d_Snapshot dl = Some (Store_Snapshot now tx d)"
    and "is_go s d \<Longrightarrow> \<forall>k r. dreg d tx k = Some r \<longrightarrow> \<not> r_deleted r" "keys_ok tx"
  shows "\<exists>n s'. Merge nows s (Some dl) = (Inr n, s')"
proof -
  have "\<not> rs_Deleted r" if "is_go s d" "r \<in> set (sn_Registers (Store_Snapshot now tx d))" for r
  proof -
    from that(2) obtain k f row where "((d, k, f), row) \<in> set (crdt_reg tx)" "rs_Deleted r = r_deleted row"
      by (auto simp: Store_Snapshot_def)
    then have "dreg d tx (k, f) = Some row" "rs_Deleted r = r_deleted row"
      using map_of_mem [of "crdt_reg tx"] assms(6) by (auto simp: dreg_def keys_ok_def)
    then show ?thesis using assms(5) [OF that(1)] by blast
  qed
  moreover have "sn_Domain (Store_Snapshot now tx d) = d" "sn_SchemaVers (Store_Snapshot now tx d) = SnapshotSchemaVersion"
    by (simp_all add: Store_Snapshot_def)
  ultimately have "\<exists>s'. ApplySnapshot nows s (Store_Snapshot now tx d) = (Inr (), s')"
    using assms(1) by (auto simp: ApplySnapshot_def checkDomain_def inTx_def is_go_def)
  then show ?thesis using assms(1-4) by (auto simp: Merge_def checkDomain_def)
qed

lemma deltaOps_truncated:
  "deltaOps tx d our peer lim as acc = (ops, True) \<Longrightarrow> length acc \<le> lim \<Longrightarrow> length ops = lim"
  by (induction tx d our peer lim as acc rule: deltaOps.induct) (auto simp: Let_def split: if_splits)

lemma Store_Delta_truncated:
  assumes "Store_Delta now s d peer lim = Inr dl" "d_Truncated dl"
  shows "length (d_Ops dl) = nat (if lim \<le> 0 then DefaultDeltaLimit else lim)"
  using assms deltaOps_truncated [of "tables s" d _ peer _ _ "[]" "d_Ops dl"]
  by (auto simp: Store_Delta_def Let_def split: option.splits if_splits prod.splits)

text \<open>A pull: the receiver announces its version vector and merges the answer.\<close>

lemma pull:
  assumes ok: "net_ok go d N H w" and ab: "a \<in> N" "b \<in> N" and al: "d \<in> set (allowed (node w b))"
    and dl: "Store_Delta now (node w a) d (VersionVector (tables (node w b)) d) limit = Inr dl"
  obtains n s' where "Merge nows (node w b) (Some dl) = (Inr n, s')"
    "\<And>c. vv_of d (node w b) c \<le> vv_of d s' c"
    "\<And>c. \<not> d_Truncated dl \<Longrightarrow> vv_of d s' c = max (vv_of d (node w b) c) (vv_of d (node w a) c)"
    "\<And>op. op \<in> set (d_Ops dl) \<Longrightarrow> vv_of d (node w b) (op_Actor op) < op_Seq op \<and> op_Seq op \<le> vv_of d s' (op_Actor op)"
    "\<And>c. vv_of d s' c \<le> max (vv_of d (node w b) c) (vv_of d (node w a) c)"
proof -
  let ?a = "node w a" and ?b = "node w b" and ?ow = "own N d w"
  note A = net_okD [OF ok ab(1)] and B = net_okD [OF ok ab(2)]
  have kb: "keys_ok (tables ?b)" "keys_ok (tables ?a)" using store_okD(2) A(1) B(1) by auto
  have vb: "vv_get (VersionVector (tables ?b) d) c = vv_of d ?b c" for c by (rule vv_get_VersionVector [OF kb(1)])
  have msg: "msg_ok go d ?ow H ?b dl" using send_msg_ok [OF A(4,5) dl] vb by simp
  have t: "delta_target dl = d" "delta_wf dl" using Store_Delta_shape [OF dl] kb by auto
  have gap: "no_gap_rows d (tables ?a)" using A(4) by (simp add: node_ok_def)
  show thesis
  proof (cases rule: Store_Delta_spec [OF A(1) gap dl])
    case 1
    have "is_go ?b d \<Longrightarrow> \<forall>k r. dreg d (tables ?a) k = Some r \<longrightarrow> \<not> r_deleted r"
      using store_okD(4) [OF A(1)] A(3) B(3) unfolding go_ok_def by blast
    from honest_snapshot_accepted [OF al 1(1-3) this kb(2)] obtain n s' where m: "Merge nows ?b (Some dl) = (Inr n, s')" by blast
    from Merge_snapshot_cases [OF m 1(2)] 1(3) have ap: "ApplySnapshot nows ?b (Store_Snapshot now (tables ?a) d) = (Inr (), s')" by auto
    let ?snap = "Store_Snapshot now (tables ?a) d"
    have v: "vv_get (sn_VV ?snap) c = vv_of d ?a c" for c
      using vv_get_VersionVector [OF kb(2), of d c] by (simp add: Store_Snapshot_def)
    have "covered H (vv_get (sn_VV ?snap)) = covered H (vv_of d ?a)" by (simp add: covered_def v)
    then have h: "holds go (covered H (vv_get (sn_VV ?snap))) (dreg d (tables ?a)) (dctr d (tables ?a))"
      using A(4) by (simp add: node_ok_def)
    have "vv_of d s' c = max (vv_of d ?b c) (vv_of d ?a c)" for c
      using deliver_snapshot(2) [OF ap _ _ B(4) Snapshot_regs Snapshot_ctrs h, of c] kb store_okD(1) [OF A(1)] A(4)
        unique_keys_VersionVector [OF kb(2)] v
      by (simp add: node_ok_def Store_Snapshot_def)
    moreover have "d_Ops dl = []" using dl 1(2) by (auto simp: Store_Delta_def Let_def split: option.splits if_splits prod.splits)
    ultimately show thesis by (intro that [OF m]) simp_all
  next
    case (2 top)
    have sub: "set (d_Ops dl) \<subseteq> H" using msg t(1) 2(2) by (auto simp: msg_ok_def)
    then have "\<forall>op \<in> set (d_Ops dl). op_sound (is_go ?b d) d op" using B(3,5) by (auto simp: hist_ok_def)
    from honest_ops_accepted [OF 2(1) al 2(2) this] obtain n s' where m: "Merge nows ?b (Some dl) = (Inr n, s')" by blast
    have run: "vv_get (VersionVector (tables ?b) d) c \<le> vv_of d ?b c \<and>
        run (d_Ops dl) c (vv_get (VersionVector (tables ?b) d) c) (top c)" for c using 2(5) vb by simp
    have v: "vv_of d s' c = max (vv_of d ?b c) (top c)" for c
      by (rule deliver_ops(2) [OF m 2(2,1) B(4,5) sub run])
    have up: "top c \<le> max (vv_of d ?b c) (vv_of d ?a c)" for c
    proof (cases "vv_of d ?b c < top c")
      case True
      then obtain op where op: "op \<in> set (d_Ops dl)" "op_Actor op = c" "op_Seq op = top c"
        using run_mem [OF 2(5), of c "top c"] unfolding vb by blast
      then have "dlog d (tables ?a) (c, top c) \<noteq> None" using 2(4) by (auto simp: in_log_def)
      then have "top c \<le> vv_of d ?a c" using gap unfolding no_gap_rows_def by blast
      then show ?thesis by simp
    qed simp
    have "vv_of d s' c = max (vv_of d ?b c) (vv_of d ?a c)" if "\<not> d_Truncated dl" for c
      using v [of c] up [of c] 2(6) [OF that, of c] by simp
    moreover have "vv_of d ?b (op_Actor op) < op_Seq op \<and> op_Seq op \<le> vv_of d s' (op_Actor op)"
      if "op \<in> set (d_Ops dl)" for op using run_bound [OF 2(5) that refl] vb v by auto
    ultimately show thesis using v up by (intro that [OF m]) simp_all
  qed
qed

end
