(* ===== verification/Peer_Auth.thy ===== *)
theory Peer_Auth
  imports Go_Text
begin

text \<open>
  Peer authentication of the replication endpoints
  (\<open>backend/internal/crdtsync/peerauth.go\<close> and \<open>SecretAuthorizer\<close> of \<open>syncer.go\<close>):
  signed request and response envelopes, the roster check, the replay cache and the
  composed authorizers. Bodies are of an abstract type \<open>'b\<close>; base64, JSON, SHA-256,
  Ed25519, the canonicaliser and RFC 3339 times are the record \<open>peer_prims\<close>, an argument
  of the definitions that use them. Times are nanoseconds. The verifier's mutex makes the
  replay check one step; the model runs a whole verification as one step.
\<close>

subsection \<open>Types\<close>

definition peerAuthRequestType :: string where
  "peerAuthRequestType = ''vulos-crdt/peer-auth/1''"

definition peerAuthResponseType :: string where
  "peerAuthResponseType = ''vulos-crdt/peer-auth-response/1''"

definition PeerAuthMaxAge :: int where
  "PeerAuthMaxAge = 5 * 60 * 1000000000"

definition PeerAuthClockSkew :: int where
  "PeerAuthClockSkew = 60 * 1000000000"

definition maxNonceCache :: nat where
  "maxNonceCache = 16384"

definition MaxBodyBytes :: nat where
  "MaxBodyBytes = 8 * 1024 * 1024"

record peerAuthEnvelope =
  q_Type :: string
  q_PeerKey :: string
  q_Audience :: string
  q_Method :: string
  q_Path :: string
  q_BodyHash :: string
  q_Nonce :: string
  q_IssuedAt :: string
  q_Sig :: string

record peerRespEnvelope =
  p_Type :: string
  p_PeerKey :: string
  p_Audience :: string
  p_ReqNonce :: string
  p_Status :: int
  p_BodyHash :: string
  p_Sig :: string

datatype envelope = ReqEnv peerAuthEnvelope | RespEnv peerRespEnvelope

record 'b peer_prims =
  pa_Public :: "bytes \<Rightarrow> bytes"
  pa_Sign :: "bytes \<Rightarrow> bytes \<Rightarrow> bytes"
  pa_Verify :: "bytes \<Rightarrow> bytes \<Rightarrow> bytes \<Rightarrow> bool"
  pa_Canonical :: "envelope \<Rightarrow> bytes"
  pa_RawURL :: "bytes \<Rightarrow> string"
  pa_decRawURL :: "string \<Rightarrow> bytes option"
  pa_decStd :: "string \<Rightarrow> bytes option"
  pa_decURL :: "string \<Rightarrow> bytes option"
  pa_decRawStd :: "string \<Rightarrow> bytes option"
  pa_Marshal :: "envelope \<Rightarrow> bytes"
  pa_UnmarshalReq :: "bytes \<Rightarrow> peerAuthEnvelope option"
  pa_UnmarshalResp :: "bytes \<Rightarrow> peerRespEnvelope option"
  pa_Format :: "int \<Rightarrow> string"
  pa_Parse :: "string \<Rightarrow> int option"
  pa_Sum256 :: "'b \<Rightarrow> bytes"
  pa_Len :: "'b \<Rightarrow> nat"

text \<open>An HTTP request: an absent header reads as the empty string, a body may fail to read.\<close>

record 'b Request =
  rq_Method :: string
  rq_Path :: string
  rq_PeerAuth :: string
  rq_FabricAuth :: string
  rq_Body :: "'b option"

datatype auth_error =
    NoHeader | HeaderBase64 | HeaderTooLarge | HeaderJSON | WrongType | BadPeerKey | WrongAudience | WrongMethod
  | WrongPath | BadIssuedAt | StaleRequest | FutureRequest | BodyRead | BodyTooLarge | BodyMismatch | MalformedSig
  | BadSignature | NotInRoster | EmptyNonce | NonceReplay | CacheFull | KeySize | NoRoster | NoAudience | NoRandom
  | WrongSigner | WrongNonce | WrongStatus

subsection \<open>Keys and envelopes\<close>

definition EncodePeerKey :: "'b peer_prims \<Rightarrow> bytes \<Rightarrow> string" where
  "EncodePeerKey pr pub = pa_RawURL pr pub"

definition DecodePeerKey :: "'b peer_prims \<Rightarrow> string \<Rightarrow> auth_error + bytes" where
  "DecodePeerKey pr s =
     (if s = [] then Inl BadPeerKey
      else case find (\<lambda>r. case r of Some raw \<Rightarrow> length raw = 32 | None \<Rightarrow> False)
                  (map (\<lambda>dec. dec s) [pa_decRawURL pr, pa_decStd pr, pa_decURL pr, pa_decRawStd pr]) of
             Some (Some raw) \<Rightarrow> Inr raw
           | _ \<Rightarrow> Inl BadPeerKey)"

definition samePeerKey :: "'b peer_prims \<Rightarrow> string \<Rightarrow> string \<Rightarrow> bool" where
  "samePeerKey pr a b =
     (case DecodePeerKey pr a of Inl _ \<Rightarrow> False
      | Inr ka \<Rightarrow> (case DecodePeerKey pr b of Inl _ \<Rightarrow> False | Inr kb \<Rightarrow> ka = kb))"

definition bodyHash :: "'b peer_prims \<Rightarrow> 'b \<Rightarrow> string" where
  "bodyHash pr b = pa_RawURL pr (pa_Sum256 pr b)"

definition encodeEnvelope :: "'b peer_prims \<Rightarrow> envelope \<Rightarrow> string" where
  "encodeEnvelope pr v = pa_RawURL pr (pa_Marshal pr v)"

definition decodeEnvelope :: "'b peer_prims \<Rightarrow> (bytes \<Rightarrow> 'e option) \<Rightarrow> string \<Rightarrow> auth_error + 'e" where
  "decodeEnvelope pr into header =
     (case pa_decRawURL pr header of
        None \<Rightarrow> Inl HeaderBase64
      | Some raw \<Rightarrow> if length raw > 8 * 1024 then Inl HeaderTooLarge
                    else (case into raw of None \<Rightarrow> Inl HeaderJSON | Some e \<Rightarrow> Inr e))"

subsection \<open>This box's identity\<close>

record PeerIdentity =
  id_priv :: bytes
  id_pub :: bytes
  id_id :: string

definition NewPeerIdentity :: "'b peer_prims \<Rightarrow> bytes \<Rightarrow> auth_error + PeerIdentity" where
  "NewPeerIdentity pr priv =
     (if length priv \<noteq> 64 then Inl KeySize
      else Inr \<lparr>id_priv = priv, id_pub = pa_Public pr priv, id_id = EncodePeerKey pr (pa_Public pr priv)\<rparr>)"

text \<open>\<open>rnd\<close> is the 16 random bytes of the nonce, \<open>None\<close> when the random source fails.\<close>

definition newNonce :: "'b peer_prims \<Rightarrow> bytes option \<Rightarrow> auth_error + string" where
  "newNonce pr rnd = (case rnd of None \<Rightarrow> Inl NoRandom | Some b \<Rightarrow> Inr (pa_RawURL pr b))"

definition signEnvelope :: "'b peer_prims \<Rightarrow> PeerIdentity \<Rightarrow> envelope \<Rightarrow> string" where
  "signEnvelope pr i v = pa_RawURL pr (pa_Sign pr (id_priv i) (pa_Canonical pr v))"

definition requestEnvelope :: "'b peer_prims \<Rightarrow> PeerIdentity \<Rightarrow> bytes \<Rightarrow> string \<Rightarrow> string \<Rightarrow> 'b \<Rightarrow> string \<Rightarrow> int \<Rightarrow> peerAuthEnvelope" where
  "requestEnvelope pr i audKey method path body nonce now =
     (let env = \<lparr>q_Type = peerAuthRequestType, q_PeerKey = id_id i, q_Audience = EncodePeerKey pr audKey, q_Method = method,
                 q_Path = path, q_BodyHash = bodyHash pr body, q_Nonce = nonce, q_IssuedAt = pa_Format pr now, q_Sig = []\<rparr>
      in env\<lparr>q_Sig := signEnvelope pr i (ReqEnv env)\<rparr>)"

definition SignRequest ::
  "'b peer_prims \<Rightarrow> bytes option \<Rightarrow> int \<Rightarrow> PeerIdentity \<Rightarrow> string \<Rightarrow> string \<Rightarrow> 'b \<Rightarrow> string \<Rightarrow> auth_error + (string \<times> string)" where
  "SignRequest pr rnd now i method path body audience =
     (if audience = [] then Inl NoAudience
      else case DecodePeerKey pr audience of
        Inl e \<Rightarrow> Inl e
      | Inr audKey \<Rightarrow>
          (case newNonce pr rnd of
             Inl e \<Rightarrow> Inl e
           | Inr nonce \<Rightarrow> Inr (encodeEnvelope pr (ReqEnv (requestEnvelope pr i audKey method path body nonce now)), nonce)))"

definition responseEnvelope :: "'b peer_prims \<Rightarrow> PeerIdentity \<Rightarrow> bytes \<Rightarrow> string \<Rightarrow> int \<Rightarrow> 'b \<Rightarrow> peerRespEnvelope" where
  "responseEnvelope pr i audKey reqNonce status body =
     (let env = \<lparr>p_Type = peerAuthResponseType, p_PeerKey = id_id i, p_Audience = EncodePeerKey pr audKey, p_ReqNonce = reqNonce,
                 p_Status = status, p_BodyHash = bodyHash pr body, p_Sig = []\<rparr>
      in env\<lparr>p_Sig := signEnvelope pr i (RespEnv env)\<rparr>)"

definition SignResponse :: "'b peer_prims \<Rightarrow> PeerIdentity \<Rightarrow> string \<Rightarrow> string \<Rightarrow> int \<Rightarrow> 'b \<Rightarrow> auth_error + string" where
  "SignResponse pr i audience reqNonce status body =
     (if audience = [] \<or> reqNonce = [] then Inl NoAudience
      else case DecodePeerKey pr audience of
        Inl e \<Rightarrow> Inl e
      | Inr audKey \<Rightarrow> Inr (encodeEnvelope pr (RespEnv (responseEnvelope pr i audKey reqNonce status body))))"

subsection \<open>Verification\<close>

text \<open>A roster: which keys are trusted now, and its \<open>AttributesPeers\<close> if it has that method.\<close>

record PeerRoster =
  TrustedPeer :: "bytes \<Rightarrow> bool"
  AttributesPeers :: "bool option"

definition CanAttributePeers :: "PeerRoster option \<Rightarrow> bool" where
  "CanAttributePeers r = (case r of None \<Rightarrow> True | Some ro \<Rightarrow> (case AttributesPeers ro of None \<Rightarrow> True | Some b \<Rightarrow> b))"

definition staticTrusted :: "bytes list \<Rightarrow> bytes \<Rightarrow> bool" where
  "staticTrusted keys pub = (if length pub \<noteq> 32 then False else list_ex (\<lambda>k. k = pub) keys)"

fun staticKeys :: "'b peer_prims \<Rightarrow> string list \<Rightarrow> auth_error + bytes list" where
  "staticKeys pr [] = Inr []"
| "staticKeys pr (k # ks) =
     (if k = [] then staticKeys pr ks
      else case DecodePeerKey pr k of
        Inl e \<Rightarrow> Inl e
      | Inr pub \<Rightarrow> (case staticKeys pr ks of Inl e \<Rightarrow> Inl e | Inr ps \<Rightarrow> Inr (pub # ps)))"

definition NewStaticPeerRoster :: "'b peer_prims \<Rightarrow> string list \<Rightarrow> auth_error + PeerRoster" where
  "NewStaticPeerRoster pr keys =
     (case staticKeys pr keys of Inl e \<Rightarrow> Inl e
      | Inr ks \<Rightarrow> Inr \<lparr>TrustedPeer = staticTrusted ks, AttributesPeers = Some (length ks > 0)\<rparr>)"

record PeerVerifier =
  v_self :: bytes
  v_selfID :: string
  v_seen :: "(string, int) table"

definition NewPeerVerifier :: "'b peer_prims \<Rightarrow> bytes \<Rightarrow> PeerRoster option \<Rightarrow> auth_error + PeerVerifier" where
  "NewPeerVerifier pr self roster =
     (if length self \<noteq> 32 then Inl KeySize
      else case roster of None \<Rightarrow> Inl NoRoster
           | Some _ \<Rightarrow> Inr \<lparr>v_self = self, v_selfID = EncodePeerKey pr self, v_seen = []\<rparr>)"

definition nonceKey :: "string \<Rightarrow> string \<Rightarrow> string" where
  "nonceKey peerKey nonce = peerKey @ [CHR 0x00] @ nonce"

definition rememberNonce :: "PeerVerifier \<Rightarrow> string \<Rightarrow> string \<Rightarrow> int \<Rightarrow> auth_error option \<times> PeerVerifier" where
  "rememberNonce v peerKey nonce now =
     (if nonce = [] then (Some EmptyNonce, v)
      else let key = nonceKey peerKey nonce
        in if map_of (v_seen v) key \<noteq> None then (Some NonceReplay, v)
           else let cutoff = now - (PeerAuthMaxAge + PeerAuthClockSkew);
                    v1 = (if length (v_seen v) \<ge> maxNonceCache then v\<lparr>v_seen := filter (\<lambda>(k, t). \<not> t < cutoff) (v_seen v)\<rparr> else v)
                in if length (v_seen v) \<ge> maxNonceCache \<and> length (v_seen v1) \<ge> maxNonceCache then (Some CacheFull, v1)
                   else (None, v1\<lparr>v_seen := upsert key now (v_seen v1)\<rparr>))"

text \<open>The checks of \<open>VerifyRequest\<close> before the replay cache, in their order.\<close>

definition checkEnvelope ::
  "'b peer_prims \<Rightarrow> (bytes \<Rightarrow> bool) \<Rightarrow> int \<Rightarrow> PeerVerifier \<Rightarrow> 'b Request \<Rightarrow> auth_error + peerAuthEnvelope" where
  "checkEnvelope pr trusted now v r =
     (if rq_PeerAuth r = [] then Inl NoHeader
      else case decodeEnvelope pr (pa_UnmarshalReq pr) (rq_PeerAuth r) of
        Inl e \<Rightarrow> Inl e
      | Inr env \<Rightarrow>
        if q_Type env \<noteq> peerAuthRequestType then Inl WrongType
        else case DecodePeerKey pr (q_PeerKey env) of
          Inl e \<Rightarrow> Inl e
        | Inr pub \<Rightarrow>
          if \<not> samePeerKey pr (q_Audience env) (v_selfID v) then Inl WrongAudience
          else if q_Method env \<noteq> rq_Method r then Inl WrongMethod
          else if q_Path env \<noteq> rq_Path r then Inl WrongPath
          else case pa_Parse pr (q_IssuedAt env) of
            None \<Rightarrow> Inl BadIssuedAt
          | Some issued \<Rightarrow>
            if issued < now - PeerAuthMaxAge then Inl StaleRequest
            else if issued > now + PeerAuthClockSkew then Inl FutureRequest
            else case rq_Body r of
              None \<Rightarrow> Inl BodyRead
            | Some body \<Rightarrow>
              if pa_Len pr body > MaxBodyBytes then Inl BodyTooLarge
              else if q_BodyHash env \<noteq> bodyHash pr body then Inl BodyMismatch
              else case pa_decRawURL pr (q_Sig env) of
                None \<Rightarrow> Inl MalformedSig
              | Some sig \<Rightarrow>
                if length sig \<noteq> 64 then Inl MalformedSig
                else if \<not> pa_Verify pr pub (pa_Canonical pr (ReqEnv (env\<lparr>q_Sig := []\<rparr>))) sig then Inl BadSignature
                else if \<not> trusted pub then Inl NotInRoster
                else Inr env)"

definition VerifyRequest ::
  "'b peer_prims \<Rightarrow> (bytes \<Rightarrow> bool) \<Rightarrow> int \<Rightarrow> PeerVerifier \<Rightarrow> 'b Request \<Rightarrow> (auth_error + string) \<times> PeerVerifier" where
  "VerifyRequest pr trusted now v r =
     (case checkEnvelope pr trusted now v r of
        Inl e \<Rightarrow> (Inl e, v)
      | Inr env \<Rightarrow> (case rememberNonce v (q_PeerKey env) (q_Nonce env) now of
                        (Some e, v') \<Rightarrow> (Inl e, v')
                      | (None, v') \<Rightarrow> (Inr (q_PeerKey env), v')))"

definition VerifyResponse ::
  "'b peer_prims \<Rightarrow> string \<Rightarrow> string \<Rightarrow> string \<Rightarrow> string \<Rightarrow> int \<Rightarrow> 'b \<Rightarrow> auth_error option" where
  "VerifyResponse pr header expectPeer selfID reqNonce status body =
     (if header = [] then Some NoHeader
      else case decodeEnvelope pr (pa_UnmarshalResp pr) header of
        Inl e \<Rightarrow> Some e
      | Inr env \<Rightarrow>
        if p_Type env \<noteq> peerAuthResponseType then Some WrongType
        else if \<not> samePeerKey pr (p_PeerKey env) expectPeer then Some WrongSigner
        else if \<not> samePeerKey pr (p_Audience env) selfID then Some WrongAudience
        else if p_ReqNonce env = [] \<or> p_ReqNonce env \<noteq> reqNonce then Some WrongNonce
        else if p_Status env \<noteq> status then Some WrongStatus
        else if p_BodyHash env \<noteq> bodyHash pr body then Some BodyMismatch
        else case DecodePeerKey pr (p_PeerKey env) of
          Inl e \<Rightarrow> Some e
        | Inr pub \<Rightarrow>
          (case pa_decRawURL pr (p_Sig env) of
             None \<Rightarrow> Some MalformedSig
           | Some sig \<Rightarrow>
               if length sig \<noteq> 64 then Some MalformedSig
               else if \<not> pa_Verify pr pub (pa_Canonical pr (RespEnv (env\<lparr>p_Sig := []\<rparr>))) sig then Some BadSignature
               else None))"

subsection \<open>Authorizers\<close>

text \<open>
  An authorizer may update the verifier's replay cache, so it passes the verifier through;
  \<open>None\<close> is Go's nil function.
\<close>

type_synonym 'b Authorizer = "'b Request \<Rightarrow> PeerVerifier \<Rightarrow> bool \<times> PeerVerifier"

definition PeerKeyAuthorizer :: "'b peer_prims \<Rightarrow> (bytes \<Rightarrow> bool) \<Rightarrow> int \<Rightarrow> bool \<Rightarrow> 'b Authorizer" where
  "PeerKeyAuthorizer pr trusted now nilVerifier =
     (\<lambda>r v. if nilVerifier then (False, v)
            else case VerifyRequest pr trusted now v r of (Inl _, v') \<Rightarrow> (False, v') | (Inr _, v') \<Rightarrow> (True, v'))"

definition SecretAuthorizer :: "string \<Rightarrow> 'b Authorizer" where
  "SecretAuthorizer secret = (\<lambda>r v. (if secret = [] then False else rq_FabricAuth r = secret, v))"

definition RingSecretAuthorizer :: "(string \<Rightarrow> bool) option \<Rightarrow> 'b Authorizer" where
  "RingSecretAuthorizer ring = (\<lambda>r v. (case ring of None \<Rightarrow> False | Some accepts \<Rightarrow> accepts (rq_FabricAuth r), v))"

fun AnyOfAuthorizer :: "'b Authorizer option list \<Rightarrow> 'b Authorizer" where
  "AnyOfAuthorizer [] r v = (False, v)"
| "AnyOfAuthorizer (None # as) r v = AnyOfAuthorizer as r v"
| "AnyOfAuthorizer (Some a # as) r v = (case a r v of (True, v') \<Rightarrow> (True, v') | (False, v') \<Rightarrow> AnyOfAuthorizer as r v')"

definition SignedOrBootstrapSecretAuthorizer :: "'b Authorizer option \<Rightarrow> 'b Authorizer option \<Rightarrow> PeerRoster option \<Rightarrow> 'b Authorizer" where
  "SignedOrBootstrapSecretAuthorizer signedA secretA roster =
     (\<lambda>r v. case (case signedA of None \<Rightarrow> (False, v) | Some a \<Rightarrow> a r v) of
              (True, v') \<Rightarrow> (True, v')
            | (False, v') \<Rightarrow>
                if CanAttributePeers roster then (False, v')
                else (case secretA of None \<Rightarrow> (False, v') | Some a \<Rightarrow> a r v'))"

end
