(* ===== verification/Crdt_Sync.thy ===== *)
theory Crdt_Sync
  imports Crdt_Converge Peer_Auth
begin

text \<open>
  The replication endpoints (\<open>backend/internal/crdtsync/handlers.go\<close>) and the loop that
  drives them (\<open>syncer.go\<close>). A serving box is its store and its request verifier; each
  handler maps it and a request to a response and the new box. JSON is the record \<open>codec\<close>
  over the abstract body type \<open>'b\<close>, \<open>net/url\<close> and the HTTP clients are fields of
  \<open>net_env\<close>, with the far side of the network as the state \<open>'w\<close> the clients act on.
\<close>

subsection \<open>Wire types\<close>

record PullRequest =
  pl_Domain :: string
  pl_VV :: VersionVector
  pl_Limit :: int

record PushResponse =
  ps_Applied :: nat

record DomainStatus =
  ds_Domain :: string
  ds_VV :: VersionVector
  ds_LogOps :: nat
  ds_Registers :: nat

record EngineStatus =
  es_Actor :: string
  es_Domains :: "DomainStatus list"

record 'b codec =
  c_Pull :: "PullRequest \<Rightarrow> 'b"
  c_unPull :: "'b \<Rightarrow> PullRequest option"
  c_Delta :: "Delta \<Rightarrow> 'b"
  c_unDelta :: "'b \<Rightarrow> Delta option"
  c_Push :: "PushResponse \<Rightarrow> 'b"
  c_unPush :: "'b \<Rightarrow> PushResponse option"
  c_Status :: "EngineStatus \<Rightarrow> 'b"
  c_Error :: "string \<Rightarrow> 'b"

record 'b Response =
  rs_Code :: int
  rs_PeerAuth :: string
  rs_Body :: 'b

record Box =
  box_store :: Store
  box_verifier :: PeerVerifier

subsection \<open>Handlers\<close>

definition Store_Status :: "Store \<Rightarrow> EngineStatus" where
  "Store_Status s =
     \<lparr>es_Actor = actor s, es_Domains = map (\<lambda>d.
        \<lparr>ds_Domain = d, ds_VV = VersionVector (tables s) d, ds_LogOps = LogSize s d,
         ds_Registers = length (filter (\<lambda>((d', k, f), r). d' = d \<and> \<not> r_deleted r) (crdt_reg (tables s)))\<rparr>) (sort (Domains s))\<rparr>"

definition httpError :: "'b codec \<Rightarrow> int \<Rightarrow> string \<Rightarrow> 'b Response" where
  "httpError c code msg = \<lparr>rs_Code = code, rs_PeerAuth = [], rs_Body = c_Error c msg\<rparr>"

definition decodeBody :: "'b peer_prims \<Rightarrow> ('b \<Rightarrow> 'x option) \<Rightarrow> 'b Request \<Rightarrow> (int \<times> string) + 'x" where
  "decodeBody pr un r =
     (case rq_Body r of
        None \<Rightarrow> Inl (400, ''read body'')
      | Some body \<Rightarrow> if pa_Len pr body > MaxBodyBytes then Inl (413, ''body too large'')
                     else (case un body of None \<Rightarrow> Inl (400, ''invalid body'') | Some x \<Rightarrow> Inr x))"

definition requesterEnvelopeRef :: "'b peer_prims \<Rightarrow> 'b Request \<Rightarrow> (string \<times> string) option" where
  "requesterEnvelopeRef pr r =
     (if rq_PeerAuth r = [] then None
      else case decodeEnvelope pr (pa_UnmarshalReq pr) (rq_PeerAuth r) of
        Inl _ \<Rightarrow> None
      | Inr env \<Rightarrow> if q_PeerKey env = [] \<or> q_Nonce env = [] then None else Some (q_PeerKey env, q_Nonce env))"

definition respond :: "'b peer_prims \<Rightarrow> PeerIdentity option \<Rightarrow> 'b Request \<Rightarrow> 'b \<Rightarrow> 'b Response" where
  "respond pr oid r body =
     \<lparr>rs_Code = 200,
      rs_PeerAuth = (case oid of None \<Rightarrow> []
        | Some i \<Rightarrow> (case requesterEnvelopeRef pr r of None \<Rightarrow> []
            | Some (aud, nonce) \<Rightarrow> (case SignResponse pr i aud nonce 200 body of Inl _ \<Rightarrow> [] | Inr sig \<Rightarrow> sig))),
      rs_Body = body\<rparr>"

definition isNotAllowed :: "crdt_error \<Rightarrow> bool" where
  "isNotAllowed e = (case e of ErrDomainNotAllowed _ _ \<Rightarrow> True | _ \<Rightarrow> False)"

definition handlePull :: "'b peer_prims \<Rightarrow> 'b codec \<Rightarrow> PeerIdentity option \<Rightarrow> int \<Rightarrow> 'b Authorizer \<Rightarrow> Box \<Rightarrow> 'b Request \<Rightarrow> 'b Response \<times> Box" where
  "handlePull pr c oid now authz bx r =
     (case authz r (box_verifier bx) of
        (False, v) \<Rightarrow> (httpError c 401 ''unauthorized'', bx\<lparr>box_verifier := v\<rparr>)
      | (True, v) \<Rightarrow>
        (case decodeBody pr (c_unPull c) r of
           Inl (code, msg) \<Rightarrow> (httpError c code msg, bx\<lparr>box_verifier := v\<rparr>)
         | Inr req \<Rightarrow>
             if pl_Domain req = [] then (httpError c 400 ''domain required'', bx\<lparr>box_verifier := v\<rparr>)
             else (case Store_Delta now (box_store bx) (pl_Domain req) (pl_VV req) (pl_Limit req) of
                     Inl e \<Rightarrow> (if isNotAllowed e then httpError c 403 ''domain not replicated'' else httpError c 500 ''internal error'',
                                bx\<lparr>box_verifier := v\<rparr>)
                   | Inr d \<Rightarrow> (respond pr oid r (c_Delta c d), bx\<lparr>box_verifier := v\<rparr>))))"

definition handlePush :: "'b peer_prims \<Rightarrow> 'b codec \<Rightarrow> PeerIdentity option \<Rightarrow> (nat \<Rightarrow> int) \<Rightarrow> 'b Authorizer \<Rightarrow> Box \<Rightarrow> 'b Request \<Rightarrow> 'b Response \<times> Box" where
  "handlePush pr c oid nows authz bx r =
     (case authz r (box_verifier bx) of
        (False, v) \<Rightarrow> (httpError c 401 ''unauthorized'', bx\<lparr>box_verifier := v\<rparr>)
      | (True, v) \<Rightarrow>
        (case decodeBody pr (c_unDelta c) r of
           Inl (code, msg) \<Rightarrow> (httpError c code msg, bx\<lparr>box_verifier := v\<rparr>)
         | Inr d \<Rightarrow>
             if d_Domain d = [] then (httpError c 400 ''domain required'', bx\<lparr>box_verifier := v\<rparr>)
             else (case Merge nows (box_store bx) (Some d) of
                     (Inl e, s') \<Rightarrow> (if isNotAllowed e then httpError c 403 ''domain not replicated'' else httpError c 400 ''merge failed'',
                                      \<lparr>box_store = s', box_verifier = v\<rparr>)
                   | (Inr n, s') \<Rightarrow> (respond pr oid r (c_Push c \<lparr>ps_Applied = n\<rparr>), \<lparr>box_store = s', box_verifier = v\<rparr>))))"

definition handleStatus :: "'b peer_prims \<Rightarrow> 'b codec \<Rightarrow> PeerIdentity option \<Rightarrow> 'b Authorizer \<Rightarrow> Box \<Rightarrow> 'b Request \<Rightarrow> 'b Response \<times> Box" where
  "handleStatus pr c oid authz bx r =
     (case authz r (box_verifier bx) of
        (False, v) \<Rightarrow> (httpError c 401 ''unauthorized'', bx\<lparr>box_verifier := v\<rparr>)
      | (True, v) \<Rightarrow> (respond pr oid r (c_Status c (Store_Status (box_store bx))), bx\<lparr>box_verifier := v\<rparr>))"

text \<open>
  The mux after \<open>RegisterHandlers\<close>: without an authorizer nothing is mounted and every
  path is unknown. \<open>nows\<close> are the clock readings while the request is served.
\<close>

definition RegisterHandlers ::
  "'b peer_prims \<Rightarrow> 'b codec \<Rightarrow> PeerIdentity option \<Rightarrow> (nat \<Rightarrow> int) \<Rightarrow> 'b Authorizer option \<Rightarrow> Box \<Rightarrow> 'b Request \<Rightarrow> 'b Response \<times> Box" where
  "RegisterHandlers pr c oid nows oauthz bx r =
     (case oauthz of
        None \<Rightarrow> (httpError c 404 ''404 page not found'', bx)
      | Some authz \<Rightarrow>
          if rq_Method r = ''POST'' \<and> rq_Path r = ''/api/crdt/pull'' then handlePull pr c oid (nows 0) authz bx r
          else if rq_Method r = ''POST'' \<and> rq_Path r = ''/api/crdt/push'' then handlePush pr c oid nows authz bx r
          else if rq_Method r = ''GET'' \<and> rq_Path r = ''/api/crdt/status'' then handleStatus pr c oid authz bx r
          else (httpError c (if rq_Path r \<in> {''/api/crdt/pull'', ''/api/crdt/push'', ''/api/crdt/status''} then 405 else 404) ''refused'', bx))"

subsection \<open>The syncer's configuration\<close>

record SyncPeer =
  sp_InstanceID :: string
  sp_BaseURL :: string
  sp_WAN :: bool
  sp_PublicKey :: string

definition DefaultSyncInterval :: int where
  "DefaultSyncInterval = 30 * 1000000000"

definition maxRoundsPerPeer :: nat where
  "maxRoundsPerPeer = 8"

text \<open>
  A client is a function on the state of the network's far side; \<open>None\<close> is a nil client.
  \<open>sc_HasPeers\<close> says whether a peer source is configured; what it answers is an argument
  of \<open>SyncOnce\<close>.
\<close>

type_synonym ('b, 'w) Doer = "string \<Rightarrow> 'b Request \<Rightarrow> 'w \<Rightarrow> 'b Response option \<times> 'w"

record ('b, 'w) SyncerConfig =
  sc_Store :: "Store option"
  sc_HasPeers :: bool
  sc_Domains :: "string list"
  sc_Secret :: string
  sc_HTTPClient :: "('b, 'w) Doer option"
  sc_WANHTTPClient :: "('b, 'w) Doer option"
  sc_SelfBaseURLs :: "string list"
  sc_Interval :: int
  sc_Identity :: "PeerIdentity option"

datatype sync_error =
    SyncStore | SyncPeers | SyncClient | SyncSecret | SyncDomains | SyncDomain crdt_error
  | NoWANClient | NoIdentity | NoPeerKey | BadKey | BadURL | NotHTTPS
  | PostURL | PostIdentity | PostSign auth_error | PostDo | PostTooLarge | PostStatus int | PostVerify auth_error | PostUnmarshal
  | MergePulled crdt_error | DeltaFailed crdt_error

definition checkDomains :: "Store \<Rightarrow> string list \<Rightarrow> crdt_error option" where
  "checkDomains s ds = (case List.extract (\<lambda>d. checkDomain s d \<noteq> None) ds of None \<Rightarrow> None | Some (_, d, _) \<Rightarrow> checkDomain s d)"

definition NewSyncer :: "('b, 'w) SyncerConfig \<Rightarrow> sync_error + ('b, 'w) SyncerConfig" where
  "NewSyncer cfg =
     (case sc_Store cfg of
        None \<Rightarrow> Inl SyncStore
      | Some s \<Rightarrow>
        if \<not> sc_HasPeers cfg then Inl SyncPeers
        else (case sc_HTTPClient cfg of None \<Rightarrow> Inl SyncClient
            | Some _ \<Rightarrow>
                if sc_Secret cfg = [] then Inl SyncSecret
                else if sc_Domains cfg = [] then Inl SyncDomains
                else case checkDomains s (sc_Domains cfg) of
                  Some e \<Rightarrow> Inl (SyncDomain e)
                | None \<Rightarrow> Inr (if sc_Interval cfg \<le> 0 then cfg\<lparr>sc_Interval := DefaultSyncInterval\<rparr> else cfg)))"

definition trimSlash :: "string \<Rightarrow> string" where
  "trimSlash s = rev (dropWhile (\<lambda>ch. ch = CHR ''/'') (rev s))"

definition EqualFold :: "string \<Rightarrow> string \<Rightarrow> bool" where
  "EqualFold a b \<longleftrightarrow> ToLower a = ToLower b"

definition isSelf :: "('b, 'w) SyncerConfig \<Rightarrow> Store \<Rightarrow> SyncPeer \<Rightarrow> bool" where
  "isSelf cfg s p =
     (if sp_InstanceID p \<noteq> [] \<and> sp_InstanceID p = actor s then True
      else list_ex (\<lambda>self. self \<noteq> [] \<and> EqualFold (trimSlash self) (trimSlash (sp_BaseURL p))) (sc_SelfBaseURLs cfg))"

text \<open>
  What a sync round reads from outside: URL parsing (path and scheme), randomness for
  nonces, and clocks, by round number.
\<close>

record net_env =
  ne_path :: "string \<Rightarrow> string option"
  ne_scheme :: "string \<Rightarrow> string option"
  ne_rnd :: "nat \<Rightarrow> bytes option"
  ne_now :: "nat \<Rightarrow> int"
  ne_nows :: "nat \<Rightarrow> nat \<Rightarrow> int"

definition clientFor :: "'b peer_prims \<Rightarrow> net_env \<Rightarrow> ('b, 'w) SyncerConfig \<Rightarrow> SyncPeer \<Rightarrow> sync_error + ('b, 'w) Doer" where
  "clientFor pr ne cfg p =
     (if \<not> sp_WAN p then (case sc_HTTPClient cfg of None \<Rightarrow> Inl SyncClient | Some cl \<Rightarrow> Inr cl)
      else case sc_WANHTTPClient cfg of
        None \<Rightarrow> Inl NoWANClient
      | Some cl \<Rightarrow>
        (case sc_Identity cfg of
           None \<Rightarrow> Inl NoIdentity
         | Some _ \<Rightarrow>
             if sp_PublicKey p = [] then Inl NoPeerKey
             else (case DecodePeerKey pr (sp_PublicKey p) of
                     Inl _ \<Rightarrow> Inl BadKey
                   | Inr _ \<Rightarrow>
                     (case ne_scheme ne (sp_BaseURL p) of
                        None \<Rightarrow> Inl BadURL
                      | Some sch \<Rightarrow> if \<not> EqualFold sch ''https'' then Inl NotHTTPS else Inr cl))))"

subsection \<open>Exchanging with one peer\<close>

definition post ::
  "'b peer_prims \<Rightarrow> net_env \<Rightarrow> ('b, 'w) SyncerConfig \<Rightarrow> bytes option \<Rightarrow> int \<Rightarrow> ('b, 'w) Doer \<Rightarrow> SyncPeer \<Rightarrow> string \<Rightarrow> 'b \<Rightarrow> ('b \<Rightarrow> 'x option) \<Rightarrow> 'w
     \<Rightarrow> (sync_error + 'x) \<times> 'w" where
  "post pr ne cfg rnd now cl p url raw un w =
     (case ne_path ne url of
        None \<Rightarrow> (Inl PostURL, w)
      | Some path \<Rightarrow>
        (case (if sp_WAN p
               then (case sc_Identity cfg of
                       None \<Rightarrow> Inl PostIdentity
                     | Some i \<Rightarrow> if sp_PublicKey p = [] then Inl PostIdentity
                                 else (case SignRequest pr rnd now i ''POST'' path raw (sp_PublicKey p) of
                                         Inl e \<Rightarrow> Inl (PostSign e) | Inr (h, n) \<Rightarrow> Inr (h, [], n)))
               else Inr ([], sc_Secret cfg, [])) of
           Inl e \<Rightarrow> (Inl e, w)
         | Inr (pa, fa, nonce) \<Rightarrow>
           (case cl url \<lparr>rq_Method = ''POST'', rq_Path = path, rq_PeerAuth = pa, rq_FabricAuth = fa, rq_Body = Some raw\<rparr> w of
              (None, w') \<Rightarrow> (Inl PostDo, w')
            | (Some resp, w') \<Rightarrow>
                if pa_Len pr (rs_Body resp) > MaxBodyBytes then (Inl PostTooLarge, w')
                else if rs_Code resp \<noteq> 200 then (Inl (PostStatus (rs_Code resp)), w')
                else case (if sp_WAN p
                           then (case sc_Identity cfg of None \<Rightarrow> Some NoHeader
                                 | Some i \<Rightarrow> VerifyResponse pr (rs_PeerAuth resp) (sp_PublicKey p) (id_id i) nonce (rs_Code resp) (rs_Body resp))
                           else None) of
                       Some e \<Rightarrow> (Inl (PostVerify e), w')
                     | None \<Rightarrow> (case un (rs_Body resp) of None \<Rightarrow> (Inl PostUnmarshal, w') | Some x \<Rightarrow> (Inr x, w')))))"

datatype outcome = Failed sync_error | Settled | OutOfRounds

text \<open>
  One round pulls and then pushes; \<open>Settled\<close> is the return after a round in which neither
  delta was truncated, \<open>OutOfRounds\<close> the end of the loop. \<open>k\<close> is the round number.
\<close>

fun syncRounds ::
  "'b peer_prims \<Rightarrow> 'b codec \<Rightarrow> net_env \<Rightarrow> ('b, 'w) SyncerConfig \<Rightarrow> ('b, 'w) Doer \<Rightarrow> SyncPeer \<Rightarrow> string \<Rightarrow> string \<Rightarrow> nat \<Rightarrow> nat \<Rightarrow> Store \<Rightarrow> 'w
     \<Rightarrow> outcome \<times> Store \<times> 'w" where
  "syncRounds pr c ne cfg cl p base domain 0 k s w = (OutOfRounds, s, w)"
| "syncRounds pr c ne cfg cl p base domain (Suc n) k s w =
     (case post pr ne cfg (ne_rnd ne (2 * k)) (ne_now ne k) cl p (base @ ''/api/crdt/pull'')
             (c_Pull c \<lparr>pl_Domain = domain, pl_VV = VersionVector (tables s) domain, pl_Limit = 0\<rparr>) (c_unDelta c) w of
        (Inl e, w1) \<Rightarrow> (Failed e, s, w1)
      | (Inr in0, w1) \<Rightarrow>
        let inD = (if d_Domain in0 = [] then in0\<lparr>d_Domain := domain\<rparr> else in0)
        in case Merge (ne_nows ne k) s (Some inD) of
             (Inl e, s1) \<Rightarrow> (Failed (MergePulled e), s1, w1)
           | (Inr _, s1) \<Rightarrow>
             (case Store_Delta (ne_now ne k) s1 domain (d_SenderVV inD) 0 of
                Inl e \<Rightarrow> (Failed (DeltaFailed e), s1, w1)
              | Inr out \<Rightarrow>
                (case (if d_Ops out \<noteq> [] \<or> d_SnapshotRequired out
                       then post pr ne cfg (ne_rnd ne (2 * k + 1)) (ne_now ne k) cl p (base @ ''/api/crdt/push'') (c_Delta c out) (c_unPush c) w1
                       else (Inr \<lparr>ps_Applied = 0\<rparr>, w1)) of
                   (Inl e, w2) \<Rightarrow> (Failed e, s1, w2)
                 | (Inr _, w2) \<Rightarrow>
                     if \<not> d_Truncated inD \<and> \<not> d_Truncated out then (Settled, s1, w2)
                     else syncRounds pr c ne cfg cl p base domain n (Suc k) s1 w2)))"

definition syncDomain ::
  "'b peer_prims \<Rightarrow> 'b codec \<Rightarrow> net_env \<Rightarrow> ('b, 'w) SyncerConfig \<Rightarrow> ('b, 'w) Doer \<Rightarrow> SyncPeer \<Rightarrow> string \<Rightarrow> string \<Rightarrow> Store \<Rightarrow> 'w
     \<Rightarrow> sync_error option \<times> Store \<times> 'w" where
  "syncDomain pr c ne cfg cl p base domain s w =
     (case syncRounds pr c ne cfg cl p base domain maxRoundsPerPeer 0 s w of
        (Failed e, s', w') \<Rightarrow> (Some e, s', w') | (_, s', w') \<Rightarrow> (None, s', w'))"

fun syncDomainsWith ::
  "'b peer_prims \<Rightarrow> 'b codec \<Rightarrow> net_env \<Rightarrow> ('b, 'w) SyncerConfig \<Rightarrow> ('b, 'w) Doer \<Rightarrow> SyncPeer \<Rightarrow> string list \<Rightarrow> Store \<Rightarrow> 'w
     \<Rightarrow> sync_error option \<times> Store \<times> 'w" where
  "syncDomainsWith pr c ne cfg cl p [] s w = (None, s, w)"
| "syncDomainsWith pr c ne cfg cl p (d # ds) s w =
     (case syncDomain pr c ne cfg cl p (trimSlash (sp_BaseURL p)) d s w of
        (Some e, s', w') \<Rightarrow> (Some e, s', w')
      | (None, s', w') \<Rightarrow> syncDomainsWith pr c ne cfg cl p ds s' w')"

definition syncPeer ::
  "'b peer_prims \<Rightarrow> 'b codec \<Rightarrow> net_env \<Rightarrow> ('b, 'w) SyncerConfig \<Rightarrow> SyncPeer \<Rightarrow> Store \<Rightarrow> 'w \<Rightarrow> sync_error option \<times> Store \<times> 'w" where
  "syncPeer pr c ne cfg p s w =
     (case clientFor pr ne cfg p of
        Inl e \<Rightarrow> (Some e, s, w)
      | Inr cl \<Rightarrow> syncDomainsWith pr c ne cfg cl p (sc_Domains cfg) s w)"

subsection \<open>The loop\<close>

record SyncerState =
  sy_lastErr :: "(string, sync_error) table"
  sy_lastSync :: "int option"
  sy_rounds :: nat
  sy_lastPeers :: "string list"
  sy_nudge :: bool

definition recordErr :: "string \<Rightarrow> sync_error option \<Rightarrow> SyncerState \<Rightarrow> SyncerState" where
  "recordErr peer oe st =
     (case oe of None \<Rightarrow> st\<lparr>sy_lastErr := delete_where (\<lambda>k. k = peer) (sy_lastErr st)\<rparr>
      | Some e \<Rightarrow> st\<lparr>sy_lastErr := upsert peer e (sy_lastErr st)\<rparr>)"

fun syncPeers ::
  "'b peer_prims \<Rightarrow> 'b codec \<Rightarrow> (nat \<Rightarrow> net_env) \<Rightarrow> ('b, 'w) SyncerConfig \<Rightarrow> SyncPeer list \<Rightarrow> nat \<Rightarrow> string list \<Rightarrow> SyncerState \<Rightarrow> Store \<Rightarrow> 'w
     \<Rightarrow> string list \<times> SyncerState \<times> Store \<times> 'w" where
  "syncPeers pr c ne cfg [] i dialled st s w = (dialled, st, s, w)"
| "syncPeers pr c ne cfg (p # ps) i dialled st s w =
     (if isSelf cfg s p then syncPeers pr c ne cfg ps (Suc i) dialled st s w
      else case syncPeer pr c (ne i) cfg p s w of
             (oe, s', w') \<Rightarrow> syncPeers pr c ne cfg ps (Suc i) (dialled @ [sp_BaseURL p]) (recordErr (sp_BaseURL p) oe st) s' w')"

definition SyncOnce ::
  "'b peer_prims \<Rightarrow> 'b codec \<Rightarrow> (nat \<Rightarrow> net_env) \<Rightarrow> int \<Rightarrow> ('b, 'w) SyncerConfig \<Rightarrow> SyncPeer list option \<Rightarrow> SyncerState \<Rightarrow> Store \<Rightarrow> 'w
     \<Rightarrow> SyncerState \<times> Store \<times> 'w" where
  "SyncOnce pr c ne now cfg opeers st s w =
     (case opeers of
        None \<Rightarrow> (st, s, w)
      | Some peers \<Rightarrow>
          (case syncPeers pr c ne cfg peers 0 [] st s w of
             (dialled, st', s', w') \<Rightarrow>
               (st'\<lparr>sy_lastSync := Some now, sy_rounds := sy_rounds st' + 1, sy_lastPeers := dialled\<rparr>, s', w')))"

definition Nudge :: "SyncerState \<Rightarrow> SyncerState" where
  "Nudge st = st\<lparr>sy_nudge := True\<rparr>"

text \<open>
  \<open>Run\<close> up to the cancellation of its context: one round, then one per event. The
  discovery answer, the environment and the clock of round \<open>i\<close> are functions of \<open>i\<close>.
\<close>

datatype loop_event = TickFired | NudgeTaken

fun syncLoop ::
  "'b peer_prims \<Rightarrow> 'b codec \<Rightarrow> (nat \<Rightarrow> nat \<Rightarrow> net_env) \<Rightarrow> (nat \<Rightarrow> int) \<Rightarrow> ('b, 'w) SyncerConfig \<Rightarrow> (nat \<Rightarrow> SyncPeer list option) \<Rightarrow> loop_event list \<Rightarrow> nat
     \<Rightarrow> SyncerState \<Rightarrow> Store \<Rightarrow> 'w \<Rightarrow> SyncerState \<times> Store \<times> 'w" where
  "syncLoop pr c ne now cfg peers [] i st s w = (st, s, w)"
| "syncLoop pr c ne now cfg peers (e # es) i st s w =
     (case SyncOnce pr c (ne i) (now i) cfg (peers i) (if e = NudgeTaken then st\<lparr>sy_nudge := False\<rparr> else st) s w of
        (st', s', w') \<Rightarrow> syncLoop pr c ne now cfg peers es (Suc i) st' s' w')"

definition Run ::
  "'b peer_prims \<Rightarrow> 'b codec \<Rightarrow> (nat \<Rightarrow> nat \<Rightarrow> net_env) \<Rightarrow> (nat \<Rightarrow> int) \<Rightarrow> ('b, 'w) SyncerConfig \<Rightarrow> (nat \<Rightarrow> SyncPeer list option) \<Rightarrow> loop_event list
     \<Rightarrow> SyncerState \<Rightarrow> Store \<Rightarrow> 'w \<Rightarrow> SyncerState \<times> Store \<times> 'w" where
  "Run pr c ne now cfg peers es st s w =
     (case SyncOnce pr c (ne 0) (now 0) cfg (peers 0) st s w of
        (st', s', w') \<Rightarrow> syncLoop pr c ne now cfg peers es 1 st' s' w')"

record SyncerStatus =
  ss_Actor :: string
  ss_Domains :: "string list"
  ss_Interval :: int
  ss_Rounds :: nat
  ss_Peers :: "string list"
  ss_LastSync :: "int option"
  ss_PeerErrors :: "(string, sync_error) table"

definition Syncer_Status :: "('b, 'w) SyncerConfig \<Rightarrow> SyncerState \<Rightarrow> Store \<Rightarrow> SyncerStatus" where
  "Syncer_Status cfg st s =
     \<lparr>ss_Actor = actor s, ss_Domains = sc_Domains cfg, ss_Interval = sc_Interval cfg, ss_Rounds = sy_rounds st,
      ss_Peers = sy_lastPeers st, ss_LastSync = sy_lastSync st, ss_PeerErrors = sy_lastErr st\<rparr>"

text \<open>\<open>GET /api/crdt/sync-status\<close>: the status, or 401.\<close>

definition RegisterSyncStatusHandler ::
  "'b Authorizer \<Rightarrow> ('b, 'w) SyncerConfig \<Rightarrow> SyncerState \<Rightarrow> Store \<Rightarrow> PeerVerifier \<Rightarrow> 'b Request \<Rightarrow> (int + SyncerStatus) \<times> PeerVerifier" where
  "RegisterSyncStatusHandler authz cfg st s v r =
     (case authz r v of (False, v') \<Rightarrow> (Inl 401, v') | (True, v') \<Rightarrow> (Inr (Syncer_Status cfg st s), v'))"

end
