(* ===== verification/Peer_Guard.thy ===== *)
theory Peer_Guard
  imports Peer_Auth
begin

text \<open>
  What the peer authentication guarantees: an accepted request was checked in full, no
  envelope is accepted twice although the replay cache forgets, honest requests and
  responses are accepted, and the shared secret admits nobody once a peer can be named.
\<close>

subsection \<open>Accepted requests\<close>

lemma checkEnvelope_Inr:
  assumes "checkEnvelope pr trusted now v r = Inr env"
  obtains pub issued body sig where "decodeEnvelope pr (pa_UnmarshalReq pr) (rq_PeerAuth r) = Inr env" "q_Type env = peerAuthRequestType"
    "DecodePeerKey pr (q_PeerKey env) = Inr pub" "samePeerKey pr (q_Audience env) (v_selfID v)" "q_Method env = rq_Method r" "q_Path env = rq_Path r"
    "pa_Parse pr (q_IssuedAt env) = Some issued" "now - PeerAuthMaxAge \<le> issued" "issued \<le> now + PeerAuthClockSkew"
    "rq_Body r = Some body" "pa_Len pr body \<le> MaxBodyBytes" "q_BodyHash env = bodyHash pr body" "pa_decRawURL pr (q_Sig env) = Some sig"
    "length sig = 64" "pa_Verify pr pub (pa_Canonical pr (ReqEnv (env\<lparr>q_Sig := []\<rparr>))) sig" "trusted pub"
proof -
  obtain env' where d: "decodeEnvelope pr (pa_UnmarshalReq pr) (rq_PeerAuth r) = Inr env'"
    using assms by (cases "decodeEnvelope pr (pa_UnmarshalReq pr) (rq_PeerAuth r)") (auto simp: checkEnvelope_def split: if_splits)
  obtain pub where p: "DecodePeerKey pr (q_PeerKey env') = Inr pub"
    using assms d by (cases "DecodePeerKey pr (q_PeerKey env')") (auto simp: checkEnvelope_def split: if_splits)
  obtain issued where i: "pa_Parse pr (q_IssuedAt env') = Some issued"
    using assms d p by (cases "pa_Parse pr (q_IssuedAt env')") (auto simp: checkEnvelope_def split: if_splits)
  obtain body where b: "rq_Body r = Some body"
    using assms d p i by (cases "rq_Body r") (auto simp: checkEnvelope_def split: if_splits)
  obtain sig where s: "pa_decRawURL pr (q_Sig env') = Some sig"
    using assms d p i b by (cases "pa_decRawURL pr (q_Sig env')") (auto simp: checkEnvelope_def split: if_splits)
  show thesis using assms d p i b s by (intro that) (auto simp: checkEnvelope_def split: if_splits)
qed

lemma rememberNonce_cases:
  assumes "rememberNonce v k n now = (oe, v')"
  shows "v' = v \<or> (v_self v' = v_self v \<and> v_selfID v' = v_selfID v)"
    and "oe = None \<Longrightarrow> n \<noteq> [] \<and> map_of (v_seen v) (nonceKey k n) = None \<and> map_of (v_seen v') (nonceKey k n) = Some now"
  using assms by (auto simp: rememberNonce_def Let_def map_of_upsert split: if_splits)

lemma map_of_purge:
  "unique_keys t \<Longrightarrow> map_of (filter (\<lambda>(k, x). \<not> x < lim) t) key = (case map_of t key of None \<Rightarrow> None | Some x \<Rightarrow> if x < lim then None else Some x)"
proof (induction t)
  case (Cons p t)
  obtain k x where p: "p = (k, x)" by (cases p)
  have u: "unique_keys t" "k \<notin> fst ` set t" using Cons.prems p by (auto simp: unique_keys_def)
  have "map_of t k = None" using u(2) by (simp add: map_of_eq_None_iff)
  then have "map_of (filter (\<lambda>(k, x). \<not> x < lim) t) k = None" using u(2) by (auto simp: map_of_eq_None_iff)
  then show ?case using Cons.IH [OF u(1)] p by auto
qed simp

lemma unique_keys_filter: "unique_keys t \<Longrightarrow> unique_keys (filter P t)"
  by (simp add: unique_keys_def distinct_map_filter)

lemma rememberNonce_seen:
  assumes "rememberNonce v k n now = (oe, v')" "unique_keys (v_seen v)" "map_of (v_seen v) key = Some t"
  shows "map_of (v_seen v') key = Some t \<or> t < now - (PeerAuthMaxAge + PeerAuthClockSkew)"
  using assms map_of_purge [OF assms(2), of "now - (PeerAuthMaxAge + PeerAuthClockSkew)" key]
  by (auto simp: rememberNonce_def Let_def map_of_upsert split: if_splits)

lemma rememberNonce_unique:
  "rememberNonce v k n now = (oe, v') \<Longrightarrow> unique_keys (v_seen v) \<Longrightarrow> unique_keys (v_seen v')"
  by (auto simp: rememberNonce_def Let_def unique_keys_filter split: if_splits)

subsection \<open>Sequences of verifications\<close>

text \<open>One verification: the clock reading, the roster at that moment, and the request.\<close>

type_synonym 'b visit = "int \<times> (bytes \<Rightarrow> bool) \<times> 'b Request"

definition visit_step :: "'b peer_prims \<Rightarrow> 'b visit \<Rightarrow> PeerVerifier \<Rightarrow> peerAuthEnvelope option \<times> PeerVerifier" where
  "visit_step pr c v =
     (case c of (now, trusted, r) \<Rightarrow>
        (case VerifyRequest pr trusted now v r of
           (Inl _, v') \<Rightarrow> (None, v')
         | (Inr _, v') \<Rightarrow> (case decodeEnvelope pr (pa_UnmarshalReq pr) (rq_PeerAuth r) of Inl _ \<Rightarrow> (None, v') | Inr env \<Rightarrow> (Some env, v'))))"

definition accepted :: "peerAuthEnvelope option list \<Rightarrow> peerAuthEnvelope list" where
  "accepted es = concat (map (\<lambda>e. case e of None \<Rightarrow> [] | Some x \<Rightarrow> [x]) es)"

definition stamp_of :: "peerAuthEnvelope \<Rightarrow> string \<times> string \<times> string" where
  "stamp_of e = (q_PeerKey e, q_Nonce e, q_IssuedAt e)"

text \<open>At time \<open>T\<close> an envelope is spent: its nonce is remembered, or it is stale for good.\<close>

definition spent :: "'b peer_prims \<Rightarrow> peerAuthEnvelope \<Rightarrow> int \<Rightarrow> PeerVerifier \<Rightarrow> bool" where
  "spent pr e T v \<longleftrightarrow> (\<exists>issued. pa_Parse pr (q_IssuedAt e) = Some issued \<and>
     ((\<exists>t. map_of (v_seen v) (nonceKey (q_PeerKey e) (q_Nonce e)) = Some t \<and> issued \<le> t + PeerAuthClockSkew)
      \<or> issued < T - PeerAuthMaxAge))"

lemma visit_step_cases:
  assumes "visit_step pr (now, trusted, r) v = (oe, v')"
  obtains (Skip) "oe = None" "v' = v"
  | (Checked) env ae where "checkEnvelope pr trusted now v r = Inr env" "rememberNonce v (q_PeerKey env) (q_Nonce env) now = (ae, v')"
      "oe = (if ae = None then Some env else None)"
proof (cases "checkEnvelope pr trusted now v r")
  case (Inl e)
  then show thesis using assms Skip by (simp add: visit_step_def VerifyRequest_def)
next
  case (Inr env)
  obtain ae v1 where m: "rememberNonce v (q_PeerKey env) (q_Nonce env) now = (ae, v1)" by (cases "rememberNonce v (q_PeerKey env) (q_Nonce env) now")
  have "decodeEnvelope pr (pa_UnmarshalReq pr) (rq_PeerAuth r) = Inr env" using Inr by (rule checkEnvelope_Inr)
  then show thesis using Checked [OF Inr, of ae] assms Inr m
    by (cases ae) (auto simp: visit_step_def VerifyRequest_def)
qed

lemma visit_unique: "visit_step pr c v = (oe, v') \<Longrightarrow> unique_keys (v_seen v) \<Longrightarrow> unique_keys (v_seen v')"
  by (cases c) (auto elim!: visit_step_cases dest: rememberNonce_unique)

lemma accept_spent:
  assumes "visit_step pr (now, trusted, r) v = (Some e, v')"
  shows "spent pr e now v'"
  using assms
proof (cases rule: visit_step_cases)
  case (Checked env ae)
  then have ae: "ae = None" "env = e" by (auto split: if_splits)
  obtain issued where "pa_Parse pr (q_IssuedAt e) = Some issued" "issued \<le> now + PeerAuthClockSkew"
    using Checked(1) ae(2) by (metis checkEnvelope_Inr)
  then show ?thesis using rememberNonce_cases(2) [OF Checked(2) ae(1)] ae(2) by (auto simp: spent_def)
qed simp

lemma spent_kept:
  assumes "spent pr e T v" "T \<le> now" "unique_keys (v_seen v)" "visit_step pr (now, trusted, r) v = (oe, v')"
  shows "spent pr e now v'"
  using assms(4)
proof (cases rule: visit_step_cases)
  case Skip
  then show ?thesis using assms(1,2) by (force simp: spent_def)
next
  case (Checked env ae)
  obtain issued where i: "pa_Parse pr (q_IssuedAt e) = Some issued" and
    c: "(\<exists>t. map_of (v_seen v) (nonceKey (q_PeerKey e) (q_Nonce e)) = Some t \<and> issued \<le> t + PeerAuthClockSkew) \<or> issued < T - PeerAuthMaxAge"
    using assms(1) by (auto simp: spent_def)
  from c show ?thesis
  proof
    assume "\<exists>t. map_of (v_seen v) (nonceKey (q_PeerKey e) (q_Nonce e)) = Some t \<and> issued \<le> t + PeerAuthClockSkew"
    then obtain t where t: "map_of (v_seen v) (nonceKey (q_PeerKey e) (q_Nonce e)) = Some t" "issued \<le> t + PeerAuthClockSkew" by blast
    then show ?thesis using rememberNonce_seen [OF Checked(2) assms(3) t(1)] i by (auto simp: spent_def)
  qed (use i assms(2) in \<open>auto simp: spent_def\<close>)
qed

lemma spent_refused:
  assumes "spent pr e T v" "T \<le> now" "visit_step pr (now, trusted, r) v = (Some e', v')"
  shows "stamp_of e' \<noteq> stamp_of e"
  using assms(3)
proof (cases rule: visit_step_cases)
  case (Checked env ae)
  then have ae: "ae = None" "env = e'" by (auto split: if_splits)
  obtain issued where "pa_Parse pr (q_IssuedAt e') = Some issued" "now - PeerAuthMaxAge \<le> issued"
    using Checked(1) ae(2) by (metis checkEnvelope_Inr)
  then show ?thesis using assms(1,2) rememberNonce_cases(2) [OF Checked(2) ae(1)] ae(2) by (auto simp: spent_def stamp_of_def)
qed simp

lemma spent_run:
  assumes "runs (visit_step pr) cs v = (es, v')" "spent pr e T v" "sorted (T # map fst cs)" "unique_keys (v_seen v)"
  shows "stamp_of e \<notin> stamp_of ` set (accepted es)"
  using assms
proof (induction cs arbitrary: v es T)
  case Nil
  then show ?case by (simp add: accepted_def)
next
  case (Cons c cs)
  obtain now trusted r where c: "c = (now, trusted, r)" by (cases c)
  obtain oe v1 where s: "visit_step pr (now, trusted, r) v = (oe, v1)" by (cases "visit_step pr (now, trusted, r) v")
  obtain es1 where r: "runs (visit_step pr) cs v1 = (es1, v')" "es = oe # es1"
    using Cons.prems(1) s c by (auto split: prod.splits)
  have T: "T \<le> now" using Cons.prems(3) c by simp
  have "stamp_of e \<notin> stamp_of ` set (accepted es1)"
    using Cons.IH [OF r(1) spent_kept [OF Cons.prems(2) T Cons.prems(4) s]] visit_unique [OF s Cons.prems(4)] Cons.prems(3) c by simp
  moreover have "oe = Some e' \<Longrightarrow> stamp_of e' \<noteq> stamp_of e" for e' using spent_refused [OF Cons.prems(2) T] s by blast
  ultimately show ?case using r(2) by (cases oe) (auto simp: accepted_def)
qed


subsection \<open>Honest exchanges\<close>

text \<open>
  What the code relies on of \<open>ed25519\<close> and unpadded URL base64; the JSON and time
  round trips are hypotheses on the one envelope and the one instant in question.
\<close>

definition peer_prims_ok :: "'b peer_prims \<Rightarrow> bool" where
  "peer_prims_ok pr \<longleftrightarrow>
     (\<forall>k m. length k = 64 \<longrightarrow> length (pa_Public pr k) = 32 \<and> length (pa_Sign pr k m) = 64 \<and> pa_Verify pr (pa_Public pr k) m (pa_Sign pr k m))
     \<and> (\<forall>b. pa_decRawURL pr (pa_RawURL pr b) = Some b) \<and> (\<forall>b. pa_RawURL pr b = [] \<longrightarrow> b = [])"

definition env_fits :: "'b peer_prims \<Rightarrow> envelope \<Rightarrow> bool" where
  "env_fits pr v \<longleftrightarrow> length (pa_Marshal pr v) \<le> 8 * 1024 \<and> pa_Marshal pr v \<noteq> []
     \<and> (case v of ReqEnv e \<Rightarrow> pa_UnmarshalReq pr (pa_Marshal pr v) = Some e | RespEnv e \<Rightarrow> pa_UnmarshalResp pr (pa_Marshal pr v) = Some e)"

lemma DecodePeerKey_encode:
  assumes "peer_prims_ok pr" "length pub = 32"
  shows "DecodePeerKey pr (EncodePeerKey pr pub) = Inr pub"
proof -
  have "pa_RawURL pr pub \<noteq> []" "pa_decRawURL pr (pa_RawURL pr pub) = Some pub" using assms by (auto simp: peer_prims_ok_def)
  then show ?thesis using assms(2) by (simp add: DecodePeerKey_def EncodePeerKey_def)
qed

lemma samePeerKey_encode: "peer_prims_ok pr \<Longrightarrow> length pub = 32 \<Longrightarrow> samePeerKey pr (EncodePeerKey pr pub) (EncodePeerKey pr pub)"
  by (simp add: samePeerKey_def DecodePeerKey_encode)

lemma encodeEnvelope_nonempty: "peer_prims_ok pr \<Longrightarrow> env_fits pr v \<Longrightarrow> encodeEnvelope pr v \<noteq> []"
  by (auto simp: peer_prims_ok_def env_fits_def encodeEnvelope_def)

lemma decode_encodeReq: "peer_prims_ok pr \<Longrightarrow> env_fits pr (ReqEnv e) \<Longrightarrow> decodeEnvelope pr (pa_UnmarshalReq pr) (encodeEnvelope pr (ReqEnv e)) = Inr e"
  by (simp add: peer_prims_ok_def env_fits_def encodeEnvelope_def decodeEnvelope_def)

lemma decode_encodeResp: "peer_prims_ok pr \<Longrightarrow> env_fits pr (RespEnv e) \<Longrightarrow> decodeEnvelope pr (pa_UnmarshalResp pr) (encodeEnvelope pr (RespEnv e)) = Inr e"
  by (simp add: peer_prims_ok_def env_fits_def encodeEnvelope_def decodeEnvelope_def)

lemma NewPeerIdentity_Inr:
  assumes "NewPeerIdentity pr priv = Inr i" "peer_prims_ok pr"
  shows "length priv = 64" "i = \<lparr>id_priv = priv, id_pub = pa_Public pr priv, id_id = EncodePeerKey pr (pa_Public pr priv)\<rparr>"
    "DecodePeerKey pr (id_id i) = Inr (pa_Public pr priv)" "samePeerKey pr (id_id i) (id_id i)" "id_id i \<noteq> []"
proof -
  show l: "length priv = 64" and i: "i = \<lparr>id_priv = priv, id_pub = pa_Public pr priv, id_id = EncodePeerKey pr (pa_Public pr priv)\<rparr>"
    using assms(1) by (auto simp: NewPeerIdentity_def split: if_splits)
  have p: "length (pa_Public pr priv) = 32" using assms(2) l by (simp add: peer_prims_ok_def)
  then show d: "DecodePeerKey pr (id_id i) = Inr (pa_Public pr priv)" "samePeerKey pr (id_id i) (id_id i)"
    using i DecodePeerKey_encode [OF assms(2) p] samePeerKey_encode [OF assms(2) p] by simp_all
  then show "id_id i \<noteq> []" by (auto simp: DecodePeerKey_def)
qed

lemma signed_ok:
  assumes "peer_prims_ok pr" "length (id_priv i) = 64"
  shows "\<exists>sig. pa_decRawURL pr (signEnvelope pr i v) = Some sig \<and> length sig = 64 \<and> pa_Verify pr (pa_Public pr (id_priv i)) (pa_Canonical pr v) sig"
  using assms by (simp add: peer_prims_ok_def signEnvelope_def)

lemma request_accepted:
  assumes pr: "peer_prims_ok pr" and i: "NewPeerIdentity pr priv = Inr i" and self: "length self = 32" "v_selfID v = EncodePeerKey pr self"
    and fits: "env_fits pr (ReqEnv (requestEnvelope pr i self m p body nonce t))"
    and r: "rq_PeerAuth r = encodeEnvelope pr (ReqEnv (requestEnvelope pr i self m p body nonce t))" "rq_Method r = m" "rq_Path r = p" "rq_Body r = Some body"
    and t: "pa_Parse pr (pa_Format pr t) = Some issued" "now \<le> issued + PeerAuthMaxAge" "issued \<le> now + PeerAuthClockSkew"
    and b: "pa_Len pr body \<le> MaxBodyBytes" and tr: "trusted (pa_Public pr priv)"
    and n: "nonce \<noteq> []" "map_of (v_seen v) (nonceKey (id_id i) nonce) = None" "length (v_seen v) < maxNonceCache"
  shows "\<exists>v'. VerifyRequest pr trusted now v r = (Inr (id_id i), v')"
proof -
  let ?env = "requestEnvelope pr i self m p body nonce t"
  note I = NewPeerIdentity_Inr [OF i pr]
  have f: "q_Type ?env = peerAuthRequestType" "q_PeerKey ?env = id_id i" "q_Audience ?env = EncodePeerKey pr self" "q_Method ?env = m" "q_Path ?env = p"
    "q_BodyHash ?env = bodyHash pr body" "q_Nonce ?env = nonce" "q_IssuedAt ?env = pa_Format pr t"
    "q_Sig ?env = signEnvelope pr i (ReqEnv (?env\<lparr>q_Sig := []\<rparr>))"
    by (simp_all add: requestEnvelope_def Let_def)
  obtain sig where s: "pa_decRawURL pr (q_Sig ?env) = Some sig" "length sig = 64"
    "pa_Verify pr (pa_Public pr priv) (pa_Canonical pr (ReqEnv (?env\<lparr>q_Sig := []\<rparr>))) sig"
    using signed_ok [OF pr, of i "ReqEnv (?env\<lparr>q_Sig := []\<rparr>)"] I(1,2) unfolding f(9) by auto
  have "checkEnvelope pr trusted now v r = Inr ?env"
    using encodeEnvelope_nonempty [OF pr fits] decode_encodeReq [OF pr fits] I(3) samePeerKey_encode [OF pr self(1)] r t b tr s self(2)
    by (simp add: checkEnvelope_def f(1-8))
  then show ?thesis using n by (simp add: VerifyRequest_def rememberNonce_def f Let_def)
qed

lemma response_accepted:
  assumes pr: "peer_prims_ok pr" and i: "NewPeerIdentity pr priv = Inr i" and j: "NewPeerIdentity pr priv' = Inr j"
    and fits: "env_fits pr (RespEnv (responseEnvelope pr j (id_pub i) nonce st body))" and n: "nonce \<noteq> []"
  shows "VerifyResponse pr (encodeEnvelope pr (RespEnv (responseEnvelope pr j (id_pub i) nonce st body))) (id_id j) (id_id i) nonce st body = None"
proof -
  let ?env = "responseEnvelope pr j (id_pub i) nonce st body"
  note I = NewPeerIdentity_Inr [OF i pr] and J = NewPeerIdentity_Inr [OF j pr]
  have f: "p_Type ?env = peerAuthResponseType" "p_PeerKey ?env = id_id j" "p_Audience ?env = id_id i" "p_ReqNonce ?env = nonce"
    "p_Status ?env = st" "p_BodyHash ?env = bodyHash pr body" "p_Sig ?env = signEnvelope pr j (RespEnv (?env\<lparr>p_Sig := []\<rparr>))"
    using I(2) by (simp_all add: responseEnvelope_def Let_def)
  obtain sig where s: "pa_decRawURL pr (p_Sig ?env) = Some sig" "length sig = 64"
    "pa_Verify pr (pa_Public pr priv') (pa_Canonical pr (RespEnv (?env\<lparr>p_Sig := []\<rparr>))) sig"
    using signed_ok [OF pr, of j "RespEnv (?env\<lparr>p_Sig := []\<rparr>)"] J(1,2) unfolding f(7) by auto
  show ?thesis using encodeEnvelope_nonempty [OF pr fits] decode_encodeResp [OF pr fits] I(4) J(3,4) s n
    by (simp add: VerifyResponse_def f(1-6))
qed

text \<open>
  An honest exchange goes through. A request signed by a box's identity for
  another box is accepted there when it arrives unchanged, in the freshness window, from a
  rostered key, with a nonce not seen before and room in the cache; and the response that box
  signs for it is accepted by the requester, who checks it against the key it asked for, its
  own nonce, the status and the body. It relies on \<open>ed25519\<close> and base64 as documented, on
  the two envelopes surviving JSON, and on the issue time parsing to within the window.
\<close>

theorem signed_exchange_roundtrip:
  assumes "peer_prims_ok pr" "NewPeerIdentity pr priv = Inr i" "NewPeerIdentity pr priv' = Inr j"
    and "NewPeerVerifier pr (id_pub j) roster = Inr v"
    and "SignRequest pr (Some rnd) t i m p body (id_id j) = Inr (hdr, nonce)" "rnd \<noteq> []"
    and "env_fits pr (ReqEnv (requestEnvelope pr i (id_pub j) m p body nonce t))"
    and "pa_Parse pr (pa_Format pr t) = Some issued" "now \<le> issued + PeerAuthMaxAge" "issued \<le> now + PeerAuthClockSkew"
    and "pa_Len pr body \<le> MaxBodyBytes" "trusted (id_pub i)"
    and "env_fits pr (RespEnv (responseEnvelope pr j (id_pub i) nonce 200 answer))"
  shows "\<exists>v' sig. VerifyRequest pr trusted now v \<lparr>rq_Method = m, rq_Path = p, rq_PeerAuth = hdr, rq_FabricAuth = fa, rq_Body = Some body\<rparr>
        = (Inr (id_id i), v')
    \<and> SignResponse pr j (id_id i) nonce 200 answer = Inr sig \<and> VerifyResponse pr sig (id_id j) (id_id i) nonce 200 answer = None"
proof -
  note I = NewPeerIdentity_Inr [OF assms(2,1)] and J = NewPeerIdentity_Inr [OF assms(3,1)]
  have jl: "length (id_pub j) = 32" "id_pub j = pa_Public pr priv'" "id_pub i = pa_Public pr priv"
    using J(1,2) I(2) assms(1) by (simp_all add: peer_prims_ok_def)
  have v: "v_selfID v = EncodePeerKey pr (id_pub j)" "v_seen v = []"
    using assms(4) by (auto simp: NewPeerVerifier_def split: if_splits option.splits)
  have h: "hdr = encodeEnvelope pr (ReqEnv (requestEnvelope pr i (id_pub j) m p body nonce t))" "nonce = pa_RawURL pr rnd"
    using assms(5) J(3,5) jl(2) by (auto simp: SignRequest_def newNonce_def)
  have n: "nonce \<noteq> []" using h(2) assms(1,6) by (auto simp: peer_prims_ok_def)
  obtain v' where "VerifyRequest pr trusted now v \<lparr>rq_Method = m, rq_Path = p, rq_PeerAuth = hdr, rq_FabricAuth = fa, rq_Body = Some body\<rparr>
        = (Inr (id_id i), v')"
    using request_accepted [OF assms(1,2) jl(1) v(1) assms(7), of "\<lparr>rq_Method = m, rq_Path = p, rq_PeerAuth = hdr, rq_FabricAuth = fa, rq_Body = Some body\<rparr>"
        issued now trusted] h(1) assms(8-12) n v(2) jl(3) by (auto simp: maxNonceCache_def)
  moreover have "SignResponse pr j (id_id i) nonce 200 answer = Inr (encodeEnvelope pr (RespEnv (responseEnvelope pr j (id_pub i) nonce 200 answer)))"
    using I(3,5) n jl(3) by (simp add: SignResponse_def)
  ultimately show ?thesis using response_accepted [OF assms(1-3,13) n] by blast
qed

text \<open>
  Claim C33. Once a box can name its peers, the shared secret alone admits nobody: a request
  the exchange door admits carries an envelope of the right type, addressed to this box, for
  exactly this method, path and body, fresh, signed by a key that the roster trusts at that
  moment. So a revoked peer that still holds the fleet secret is refused.
\<close>

theorem admitted_means_rostered_signature:
  assumes "CanAttributePeers roster"
    and "SignedOrBootstrapSecretAuthorizer (Some (PeerKeyAuthorizer pr trusted now False)) secretA roster r v = (True, v')"
  shows "\<exists>env pub sig body. decodeEnvelope pr (pa_UnmarshalReq pr) (rq_PeerAuth r) = Inr env \<and> q_Type env = peerAuthRequestType
    \<and> DecodePeerKey pr (q_PeerKey env) = Inr pub \<and> trusted pub \<and> samePeerKey pr (q_Audience env) (v_selfID v)
    \<and> q_Method env = rq_Method r \<and> q_Path env = rq_Path r \<and> rq_Body r = Some body \<and> q_BodyHash env = bodyHash pr body
    \<and> (\<exists>issued. pa_Parse pr (q_IssuedAt env) = Some issued \<and> now - PeerAuthMaxAge \<le> issued \<and> issued \<le> now + PeerAuthClockSkew)
    \<and> pa_decRawURL pr (q_Sig env) = Some sig \<and> pa_Verify pr pub (pa_Canonical pr (ReqEnv (env\<lparr>q_Sig := []\<rparr>))) sig"
proof -
  obtain env where "checkEnvelope pr trusted now v r = Inr env"
    using assms by (auto simp: SignedOrBootstrapSecretAuthorizer_def PeerKeyAuthorizer_def VerifyRequest_def split: prod.splits sum.splits bool.splits)
  then show ?thesis by (rule checkEnvelope_Inr) blast
qed

subsection \<open>A concrete exchange\<close>

definition exReq :: peerAuthEnvelope where
  "exReq = \<lparr>q_Type = peerAuthRequestType, q_PeerKey = CHR ''b'' # replicate 32 CHR ''i'', q_Audience = CHR ''b'' # replicate 32 CHR ''j'',
     q_Method = ''POST'', q_Path = ''/p'', q_BodyHash = ''bx'', q_Nonce = ''bn'', q_IssuedAt = ''T'', q_Sig = CHR ''b'' # replicate 64 CHR ''x''\<rparr>"

definition exResp :: peerRespEnvelope where
  "exResp = \<lparr>p_Type = peerAuthResponseType, p_PeerKey = CHR ''b'' # replicate 32 CHR ''j'', p_Audience = CHR ''b'' # replicate 32 CHR ''i'',
     p_ReqNonce = ''bn'', p_Status = 200, p_BodyHash = ''by'', p_Sig = CHR ''b'' # replicate 64 CHR ''x''\<rparr>"

definition exPeer :: "string peer_prims" where
  "exPeer = \<lparr>pa_Public = take 32, pa_Sign = (\<lambda>_ _. replicate 64 CHR ''x''), pa_Verify = (\<lambda>_ _ s. s = replicate 64 CHR ''x''),
     pa_Canonical = (\<lambda>_. []), pa_RawURL = (\<lambda>b. CHR ''b'' # b), pa_decRawURL = (\<lambda>s. Some (tl s)), pa_decStd = (\<lambda>_. None),
     pa_decURL = (\<lambda>_. None), pa_decRawStd = (\<lambda>_. None), pa_Marshal = (\<lambda>v. case v of ReqEnv _ \<Rightarrow> ''q'' | RespEnv _ \<Rightarrow> ''p''),
     pa_UnmarshalReq = (\<lambda>_. Some exReq), pa_UnmarshalResp = (\<lambda>_. Some exResp), pa_Format = (\<lambda>_. ''T''), pa_Parse = (\<lambda>_. Some 100),
     pa_Sum256 = (\<lambda>b. b), pa_Len = length\<rparr>"

definition exId :: "char \<Rightarrow> PeerIdentity" where
  "exId c = \<lparr>id_priv = replicate 64 c, id_pub = replicate 32 c, id_id = CHR ''b'' # replicate 32 c\<rparr>"

definition exRoster :: PeerRoster where
  "exRoster = \<lparr>TrustedPeer = (\<lambda>k. k = replicate 32 CHR ''i''), AttributesPeers = Some True\<rparr>"

definition exVerifier :: PeerVerifier where
  "exVerifier = \<lparr>v_self = replicate 32 CHR ''j'', v_selfID = CHR ''b'' # replicate 32 CHR ''j'', v_seen = []\<rparr>"

definition exRequest :: "string Request" where
  "exRequest = \<lparr>rq_Method = ''POST'', rq_Path = ''/p'', rq_PeerAuth = ''bq'', rq_FabricAuth = ''secret'', rq_Body = Some ''x''\<rparr>"

lemma exPeer_ok: "peer_prims_ok exPeer"
  by (simp add: peer_prims_ok_def exPeer_def)

lemma exIdentity: "NewPeerIdentity exPeer (replicate 64 c) = Inr (exId c)"
  by (simp add: NewPeerIdentity_def exPeer_def exId_def EncodePeerKey_def)

lemma exNewVerifier: "NewPeerVerifier exPeer (id_pub (exId CHR ''j'')) (Some exRoster) = Inr exVerifier"
  by (simp add: NewPeerVerifier_def exPeer_def exId_def EncodePeerKey_def exVerifier_def)

lemma exEnvelopes:
  "requestEnvelope exPeer (exId CHR ''i'') (id_pub (exId CHR ''j'')) ''POST'' ''/p'' ''x'' ''bn'' 100 = exReq"
  "responseEnvelope exPeer (exId CHR ''j'') (id_pub (exId CHR ''i'')) ''bn'' 200 ''y'' = exResp"
  "env_fits exPeer (ReqEnv exReq)" "env_fits exPeer (RespEnv exResp)"
  by (simp_all add: requestEnvelope_def responseEnvelope_def Let_def exPeer_def exId_def exReq_def exResp_def EncodePeerKey_def bodyHash_def
      signEnvelope_def env_fits_def)

lemma exSigned: "SignRequest exPeer (Some ''n'') 100 (exId CHR ''i'') ''POST'' ''/p'' ''x'' (id_id (exId CHR ''j'')) = Inr (''bq'', ''bn'')"
  by (simp add: SignRequest_def newNonce_def DecodePeerKey_def exPeer_def exId_def encodeEnvelope_def)

lemma exVisit:
  "visit_step exPeer (100, TrustedPeer exRoster, exRequest) exVerifier
     = (Some exReq, exVerifier\<lparr>v_seen := [(nonceKey (q_PeerKey exReq) ''bn'', 100)]\<rparr>)"
  by (simp add: visit_step_def VerifyRequest_def checkEnvelope_def decodeEnvelope_def DecodePeerKey_def samePeerKey_def exPeer_def exRequest_def
      exReq_def exVerifier_def exRoster_def rememberNonce_def Let_def maxNonceCache_def MaxBodyBytes_def bodyHash_def
      PeerAuthMaxAge_def PeerAuthClockSkew_def upsert_def)


theorem signed_exchange_roundtrip_witness:
  "\<exists>v' sig. VerifyRequest exPeer (TrustedPeer exRoster) 100 exVerifier exRequest = (Inr (id_id (exId CHR ''i'')), v')
    \<and> SignResponse exPeer (exId CHR ''j'') (id_id (exId CHR ''i'')) ''bn'' 200 ''y'' = Inr sig
    \<and> VerifyResponse exPeer sig (id_id (exId CHR ''j'')) (id_id (exId CHR ''i'')) ''bn'' 200 ''y'' = None"
proof -
  have 1: "env_fits exPeer (ReqEnv (requestEnvelope exPeer (exId CHR ''i'') (id_pub (exId CHR ''j'')) ''POST'' ''/p'' ''x'' ''bn'' 100))"
    "env_fits exPeer (RespEnv (responseEnvelope exPeer (exId CHR ''j'') (id_pub (exId CHR ''i'')) ''bn'' 200 ''y''))"
    by (simp_all add: exEnvelopes)
  have 2: "pa_Parse exPeer (pa_Format exPeer 100) = Some 100" "pa_Len exPeer ''x'' \<le> MaxBodyBytes" "TrustedPeer exRoster (id_pub (exId CHR ''i''))"
    by (simp_all add: exPeer_def exRoster_def exId_def MaxBodyBytes_def)
  show ?thesis
    using signed_exchange_roundtrip [where trusted = "TrustedPeer exRoster", OF exPeer_ok exIdentity exIdentity exNewVerifier exSigned _ 1(1) 2(1) _ _ 2(2,3) 1(2), of 100 "''secret''"]
    by (simp add: exRequest_def PeerAuthMaxAge_def PeerAuthClockSkew_def)
qed

theorem admitted_means_rostered_signature_witness:
  "SignedOrBootstrapSecretAuthorizer (Some (PeerKeyAuthorizer exPeer (TrustedPeer exRoster) 100 False)) (Some (SecretAuthorizer ''secret''))
     (Some exRoster) exRequest exVerifier = (True, exVerifier\<lparr>v_seen := [(nonceKey (q_PeerKey exReq) ''bn'', 100)]\<rparr>)
   \<and> (\<exists>pub. DecodePeerKey exPeer (q_PeerKey exReq) = Inr pub \<and> TrustedPeer exRoster pub)"
proof -
  have a: "SignedOrBootstrapSecretAuthorizer (Some (PeerKeyAuthorizer exPeer (TrustedPeer exRoster) 100 False)) (Some (SecretAuthorizer ''secret''))
     (Some exRoster) exRequest exVerifier = (True, exVerifier\<lparr>v_seen := [(nonceKey (q_PeerKey exReq) ''bn'', 100)]\<rparr>)"
    using exVisit by (auto simp: SignedOrBootstrapSecretAuthorizer_def PeerKeyAuthorizer_def visit_step_def split: prod.splits sum.splits)
  have c: "CanAttributePeers (Some exRoster)" by (simp add: CanAttributePeers_def exRoster_def)
  have "decodeEnvelope exPeer (pa_UnmarshalReq exPeer) (rq_PeerAuth exRequest) = Inr exReq"
    by (simp add: decodeEnvelope_def exPeer_def exRequest_def)
  then show ?thesis using admitted_means_rostered_signature [OF c a] a by auto
qed

end
