(* ===== verification/Crdt_Exchange.thy ===== *)
theory Crdt_Exchange
  imports Crdt_Sync Peer_Guard
begin

text \<open>
  What the endpoints and the sync loop guarantee together: requests change the store only
  through an authorised merge, the shared secret and the certificate-skipping client never
  reach a WAN peer, and a reconciliation with an honest peer whose messages all get across
  ends with both replicas equal unless more operations were missing than its rounds can carry.
\<close>

subsection \<open>Endpoints\<close>

text \<open>
  Claim C19. A request to the mounted endpoints leaves the replica exactly as it was, except a
  push that the authorizer accepts, whose body decodes within the size cap and whose delta
  \<open>Merge\<close> accepts; only then is the answer 200 and the store the merged one. Every refused,
  malformed or oversized request, and every request when no authorizer is configured, is inert.
\<close>

theorem store_changes_only_by_authorized_push:
  "box_store (snd (RegisterHandlers pr c oid nows oauthz bx r)) = box_store bx \<or>
   (\<exists>authz d n s'. oauthz = Some authz \<and> fst (authz r (box_verifier bx)) \<and> rq_Method r = ''POST'' \<and> rq_Path r = ''/api/crdt/push''
      \<and> decodeBody pr (c_unDelta c) r = Inr d \<and> d_Domain d \<noteq> [] \<and> Merge nows (box_store bx) (Some d) = (Inr n, s')
      \<and> box_store (snd (RegisterHandlers pr c oid nows oauthz bx r)) = s'
      \<and> rs_Code (fst (RegisterHandlers pr c oid nows oauthz bx r)) = 200)"
proof (cases oauthz)
  case (Some authz)
  obtain ok v where a: "authz r (box_verifier bx) = (ok, v)" by fastforce
  have pull: "box_store (snd (handlePull pr c oid (nows 0) authz bx r)) = box_store bx"
    by (auto simp: handlePull_def split: prod.splits sum.splits bool.splits)
  have stat: "box_store (snd (handleStatus pr c oid authz bx r)) = box_store bx"
    by (auto simp: handleStatus_def split: prod.splits bool.splits)
  have push: "box_store (snd (handlePush pr c oid nows authz bx r)) = box_store bx \<or>
    (\<exists>d n s'. ok \<and> decodeBody pr (c_unDelta c) r = Inr d \<and> d_Domain d \<noteq> [] \<and> Merge nows (box_store bx) (Some d) = (Inr n, s')
      \<and> box_store (snd (handlePush pr c oid nows authz bx r)) = s' \<and> rs_Code (fst (handlePush pr c oid nows authz bx r)) = 200)"
  proof (cases "decodeBody pr (c_unDelta c) r")
    case (Inr d)
    obtain res s' where m: "Merge nows (box_store bx) (Some d) = (res, s')" by fastforce
    show ?thesis using a Inr m Merge_error [of nows "box_store bx" "Some d"]
      by (cases ok; cases res) (auto simp: handlePush_def respond_def)
  qed (cases ok; auto simp: handlePush_def a split: prod.splits)
  show ?thesis using Some a pull stat push by (auto simp: RegisterHandlers_def)
qed (simp add: RegisterHandlers_def)

subsection \<open>WAN peers\<close>

lemma cfg_fields:
  "sc_Identity (cfg\<lparr>sc_HTTPClient := x, sc_Secret := y\<rparr>) = sc_Identity cfg"
  "sc_WANHTTPClient (cfg\<lparr>sc_HTTPClient := x, sc_Secret := y\<rparr>) = sc_WANHTTPClient cfg"
  "sc_Domains (cfg\<lparr>sc_HTTPClient := x, sc_Secret := y\<rparr>) = sc_Domains cfg"
  by simp_all

lemma post_wan:
  assumes "sp_WAN p"
  shows "post pr ne (cfg\<lparr>sc_HTTPClient := x, sc_Secret := y\<rparr>) rnd now cl p url raw un w = post pr ne cfg rnd now cl p url raw un w"
  unfolding post_def cfg_fields if_P [OF assms] ..

lemma syncRounds_wan:
  assumes "sp_WAN p"
  shows "syncRounds pr c ne (cfg\<lparr>sc_HTTPClient := x, sc_Secret := y\<rparr>) cl p base d n k s w = syncRounds pr c ne cfg cl p base d n k s w"
proof (induction n arbitrary: k s w)
  case (Suc n)
  show ?case unfolding syncRounds.simps post_wan [OF assms] Suc.IH ..
qed simp

lemma syncDomainsWith_wan:
  assumes "sp_WAN p"
  shows "syncDomainsWith pr c ne (cfg\<lparr>sc_HTTPClient := x, sc_Secret := y\<rparr>) cl p ds s w = syncDomainsWith pr c ne cfg cl p ds s w"
proof (induction ds arbitrary: s w)
  case (Cons d ds)
  show ?case unfolding syncDomainsWith.simps syncDomain_def syncRounds_wan [OF assms] Cons.IH ..
qed simp

text \<open>
  The shared fabric secret and the LAN client, which accepts any certificate, have
  no influence on what is exchanged with a WAN peer: replacing either by anything gives the
  same requests, the same outcome and the same replica. So neither is ever sent to, or used
  for, an address that came from a relay.
\<close>

theorem wan_exchange_ignores_lan_credentials:
  assumes "sp_WAN p"
  shows "syncPeer pr c ne (cfg\<lparr>sc_HTTPClient := x, sc_Secret := y\<rparr>) p s w = syncPeer pr c ne cfg p s w"
proof -
  have np: "(\<not> sp_WAN p) = False" using assms by simp
  show ?thesis unfolding syncPeer_def clientFor_def np if_False cfg_fields syncDomainsWith_wan [OF assms] ..
qed

text \<open>
  Nothing a WAN peer answers is used unless it is signed: when an exchange with a
  WAN peer returns a value, this box signed the request for that peer's pinned key, sent no
  shared secret, and the body it decoded carried a response envelope that verifies under the
  pinned key, for this box, this request's nonce and exactly this body.
\<close>

theorem wan_answer_verified:
  assumes "sp_WAN p" "post pr ne cfg rnd now cl p url raw un w = (Inr x, w')"
  shows "\<exists>i path hdr nonce resp. sc_Identity cfg = Some i \<and> SignRequest pr rnd now i ''POST'' path raw (sp_PublicKey p) = Inr (hdr, nonce)
    \<and> cl url \<lparr>rq_Method = ''POST'', rq_Path = path, rq_PeerAuth = hdr, rq_FabricAuth = [], rq_Body = Some raw\<rparr> w = (Some resp, w')
    \<and> rs_Code resp = 200 \<and> VerifyResponse pr (rs_PeerAuth resp) (sp_PublicKey p) (id_id i) nonce 200 (rs_Body resp) = None
    \<and> un (rs_Body resp) = Some x"
proof -
  obtain path where path: "ne_path ne url = Some path" using assms(2) by (cases "ne_path ne url") (auto simp: post_def)
  obtain i where i: "sc_Identity cfg = Some i" using assms path by (cases "sc_Identity cfg") (auto simp: post_def)
  obtain hdr nonce where h: "SignRequest pr rnd now i ''POST'' path raw (sp_PublicKey p) = Inr (hdr, nonce)"
    using assms path i by (cases "SignRequest pr rnd now i ''POST'' path raw (sp_PublicKey p)") (auto simp: post_def split: if_splits)
  let ?q = "\<lparr>rq_Method = ''POST'', rq_Path = path, rq_PeerAuth = hdr, rq_FabricAuth = [], rq_Body = Some raw\<rparr>"
  obtain resp w1 where r: "cl url ?q w = (Some resp, w1)"
    using assms path i h by (cases "cl url ?q w"; cases "fst (cl url ?q w)") (auto simp: post_def split: if_splits)
  show ?thesis using assms path i h r
    by (intro exI [of _ i] exI [of _ path] exI [of _ hdr] exI [of _ nonce] exI [of _ resp])
      (auto simp: post_def split: if_splits option.splits)
qed

subsection \<open>What two replicas are missing from each other\<close>

definition missing :: "(string \<Rightarrow> nat) \<Rightarrow> (string \<Rightarrow> nat) \<Rightarrow> (string \<times> nat) set" where
  "missing v u = {(c, q). min (v c) (u c) < q \<and> q \<le> max (v c) (u c)}"

lemma finite_missing: "finite (missing (vv_of d s) (vv_of d t))"
proof -
  let ?C = "snd ` fst ` set (crdt_meta (tables s)) \<union> snd ` fst ` set (crdt_meta (tables t))"
  have z: "vv_of d u c = 0" if "c \<notin> snd ` fst ` set (crdt_meta (tables u))" for u c
  proof -
    have "(d, c) \<notin> fst ` set (crdt_meta (tables u))" using that by force
    then show ?thesis by (simp add: metaFor_def map_of_eq_None_iff [THEN iffD2])
  qed
  have "missing (vv_of d s) (vv_of d t) \<subseteq> (SIGMA c : ?C. {..max (vv_of d s c) (vv_of d t c)})"
  proof
    fix x assume "x \<in> missing (vv_of d s) (vv_of d t)"
    then obtain c q where x: "x = (c, q)" "min (vv_of d s c) (vv_of d t c) < q" "q \<le> max (vv_of d s c) (vv_of d t c)" by (auto simp: missing_def)
    then have "\<not> (vv_of d s c = 0 \<and> vv_of d t c = 0)" by auto
    then have "c \<in> ?C" using z [of c s] z [of c t] by blast
    then show "x \<in> (SIGMA c : ?C. {..max (vv_of d s c) (vv_of d t c)})" using x by simp
  qed
  then show ?thesis by (rule finite_subset) auto
qed

lemma missing_shrinks:
  assumes fin: "finite (missing v u)" and up: "\<And>c. v c \<le> v' c" "\<And>c. u c \<le> u' c" "\<And>c. v' c \<le> max (v c) (u c)" "\<And>c. u' c \<le> max (v c) (u c)"
    and I: "distinct ids" "\<And>c q. (c, q) \<in> set ids \<Longrightarrow> min (v c) (u c) < q \<and> q \<le> v' c \<and> q \<le> u' c"
  shows "card (missing v' u') + length ids \<le> card (missing v u)"
proof -
  have "set ids \<subseteq> missing v u" using I(2) up(3) by (fastforce simp: missing_def intro: order_trans)
  moreover have "missing v' u' \<subseteq> missing v u - set ids"
  proof
    fix x assume "x \<in> missing v' u'"
    then obtain c q where x: "x = (c, q)" "min (v' c) (u' c) < q" "q \<le> max (v' c) (u' c)" by (auto simp: missing_def)
    have "min (v c) (u c) < q" "q \<le> max (v c) (u c)" using x(2,3) up(1,2) [of c] up(3,4) [of c] by linarith+
    moreover have "(c, q) \<notin> set ids" using I(2) [of c q] x(2) by linarith
    ultimately show "x \<in> missing v u - set ids" using x(1) by (simp add: missing_def)
  qed
  ultimately have "card (missing v' u') \<le> card (missing v u) - card (set ids)"
    using card_mono [OF _ \<open>missing v' u' \<subseteq> missing v u - set ids\<close>] fin by (simp add: card_Diff_subset)
  moreover have "card (set ids) \<le> card (missing v u)" using card_mono [OF fin \<open>set ids \<subseteq> missing v u\<close>] .
  ultimately show ?thesis using distinct_card [OF I(1)] by linarith
qed

subsection \<open>One round with an honest peer\<close>

lemma Store_Delta_total: "d \<in> set (allowed s) \<Longrightarrow> \<exists>dl. Store_Delta now s d vv lim = Inr dl"
  by (auto simp: Store_Delta_def checkDomain_def Let_def split: prod.splits)

lemma Merge_allowed: "Merge nows s (Some dl) = (Inr n, s') \<Longrightarrow> allowed s' = allowed s"
  by (cases "d_SnapshotRequired dl") (metis Merge_snapshot_cases ApplySnapshot_cases, metis Merge_ops_cases)

lemma Store_Delta_fields:
  "Store_Delta now s d vv lim = Inr dl \<Longrightarrow> d_Domain dl = d \<and> d_SenderVV dl = VersionVector (tables s) d"
  by (auto simp: Store_Delta_def Let_def split: option.splits if_splits prod.splits)

lemma sync_round:
  assumes st: "net_start N domains w0" "(nstep N)\<^sup>*\<^sup>* w0 w" and ab: "a \<in> N" "b \<in> N" "a \<noteq> b" and d: "d \<in> set (allowSet domains)"
    and dl: "Store_Delta now (node w b) d (VersionVector (tables (node w a)) d) 0 = Inr dl"
  obtains n s1 where "Merge nows (node w a) (Some dl) = (Inr n, s1)"
    "\<And>now' out nows'. Store_Delta now' s1 d (d_SenderVV dl) 0 = Inr out \<Longrightarrow>
      \<exists>m s2 w'. Merge nows' (node w b) (Some out) = (Inr m, s2) \<and> (nstep N)\<^sup>*\<^sup>* w0 w' \<and> node w' a = s1 \<and> node w' b = s2
        \<and> (\<not> d_Truncated dl \<and> \<not> d_Truncated out \<longrightarrow> (\<forall>c. vv_of d s1 c = vv_of d s2 c))
        \<and> (d_Truncated dl \<or> d_Truncated out \<longrightarrow>
             card (missing (vv_of d s1) (vv_of d s2)) + nat DefaultDeltaLimit \<le> card (missing (vv_of d (node w a)) (vv_of d (node w b))))"
proof -
  obtain go H where ok: "net_ok go d N H w" by (rule reachable_net_ok [OF st])
  note A = net_okD [OF ok ab(1)] and B = net_okD [OF ok ab(2)]
  have al: "d \<in> set (allowed (node w a))" "d \<in> set (allowed (node w b))" using reachable_allowed [OF st] ab d by simp_all
  obtain n s1 where m: "Merge nows (node w a) (Some dl) = (Inr n, s1)"
    and p: "\<And>c. vv_of d (node w a) c \<le> vv_of d s1 c"
      "\<And>c. \<not> d_Truncated dl \<Longrightarrow> vv_of d s1 c = max (vv_of d (node w a) c) (vv_of d (node w b) c)"
      "\<And>op. op \<in> set (d_Ops dl) \<Longrightarrow> vv_of d (node w a) (op_Actor op) < op_Seq op \<and> op_Seq op \<le> vv_of d s1 (op_Actor op)"
      "\<And>c. vv_of d s1 c \<le> max (vv_of d (node w a) c) (vv_of d (node w b) c)"
    by (rule pull [OF ok ab(2,1) al(1) dl, of nows]) blast
  let ?w1 = "w\<lparr>wire := insert (a, dl) (wire w)\<rparr>"
  let ?w2 = "?w1\<lparr>node := (node ?w1)(a := snd (Merge nows (node ?w1 a) (Some dl)))\<rparr>"
  have ka: "keys_ok (tables (node w a))" "keys_ok (tables (node w b))" using store_okD(2) A(1) B(1) by auto
  have "nstep N w ?w1" using nstep.nsend [OF ab(2,1) _ dl] vv_get_VersionVector [OF ka(1)] by simp
  moreover have "nstep N ?w1 ?w2" by (rule nstep.ndeliver) simp
  ultimately have r2: "(nstep N)\<^sup>*\<^sup>* w0 ?w2" using st(2) by (meson rtranclp.rtrancl_into_rtrancl)
  have nd: "node ?w2 a = s1" "node ?w2 b = node w b" using m ab(3) by simp_all
  show thesis
  proof (rule that [OF m])
    fix now' out nows' assume out: "Store_Delta now' s1 d (d_SenderVV dl) 0 = Inr out"
    obtain go' H' where ok2: "net_ok go' d N H' ?w2" by (rule reachable_net_ok [OF st(1) r2])
    have out2: "Store_Delta now' (node ?w2 a) d (VersionVector (tables (node ?w2 b)) d) 0 = Inr out"
      using out Store_Delta_fields [OF dl] unfolding nd by simp
    have al2: "d \<in> set (allowed (node ?w2 b))" using al(2) unfolding nd .
    obtain n' s2 where m2: "Merge nows' (node ?w2 b) (Some out) = (Inr n', s2)"
      and q: "\<And>c. vv_of d (node ?w2 b) c \<le> vv_of d s2 c"
        "\<And>c. \<not> d_Truncated out \<Longrightarrow> vv_of d s2 c = max (vv_of d (node ?w2 b) c) (vv_of d (node ?w2 a) c)"
        "\<And>op. op \<in> set (d_Ops out) \<Longrightarrow> vv_of d (node ?w2 b) (op_Actor op) < op_Seq op \<and> op_Seq op \<le> vv_of d s2 (op_Actor op)"
        "\<And>c. vv_of d s2 c \<le> max (vv_of d (node ?w2 b) c) (vv_of d (node ?w2 a) c)"
      by (rule pull [OF ok2 ab(1,2) al2 out2, of nows']) blast
    note q = q [unfolded nd] and m2 = m2 [unfolded nd]
    let ?w3 = "?w2\<lparr>wire := insert (b, out) (wire ?w2)\<rparr>"
    let ?w4 = "?w3\<lparr>node := (node ?w3)(b := snd (Merge nows' (node ?w3 b) (Some out)))\<rparr>"
    have "nstep N ?w2 ?w3" using nstep.nsend [OF ab(1,2) _ out2] vv_get_VersionVector [OF ka(2)] ab(3) by simp
    moreover have "nstep N ?w3 ?w4" by (rule nstep.ndeliver) simp
    ultimately have r4: "(nstep N)\<^sup>*\<^sup>* w0 ?w4" using r2 by (meson rtranclp.rtrancl_into_rtrancl)
    have nd4: "node ?w4 a = s1" "node ?w4 b = s2" using m m2 ab(3) by simp_all
    have mx: "vv_of d s2 c \<le> max (vv_of d (node w a) c) (vv_of d (node w b) c)" for c using q(4) [of c] p(4) [of c] by linarith
    have shrink: "card (missing (vv_of d s1) (vv_of d s2)) + length ids \<le> card (missing (vv_of d (node w a)) (vv_of d (node w b)))"
      if "distinct ids" "\<And>c x. (c, x) \<in> set ids \<Longrightarrow> min (vv_of d (node w a) c) (vv_of d (node w b) c) < x \<and> x \<le> vv_of d s1 c \<and> x \<le> vv_of d s2 c" for ids
      by (rule missing_shrinks [OF finite_missing p(1) q(1) p(4) mx that])
    have t1: "card (missing (vv_of d s1) (vv_of d s2)) + nat DefaultDeltaLimit \<le> card (missing (vv_of d (node w a)) (vv_of d (node w b)))"
      if t: "d_Truncated dl"
    proof -
      have "min (vv_of d (node w a) c) (vv_of d (node w b) c) < x \<and> x \<le> vv_of d s1 c \<and> x \<le> vv_of d s2 c"
        if "(c, x) \<in> set (map op_id (d_Ops dl))" for c x
      proof -
        from that obtain op where "op \<in> set (d_Ops dl)" "op_Actor op = c" "op_Seq op = x" by (auto simp: op_id_def)
        then show ?thesis using p(3) [of op] p(4) [of c] q(1) [of c] by auto
      qed
      from shrink [OF Store_Delta_distinct [OF ka(2) dl] this] show ?thesis using Store_Delta_truncated [OF dl t] by simp
    qed
    have t2: "card (missing (vv_of d s1) (vv_of d s2)) + nat DefaultDeltaLimit \<le> card (missing (vv_of d (node w a)) (vv_of d (node w b)))"
      if t: "d_Truncated out"
    proof -
      have "min (vv_of d (node w a) c) (vv_of d (node w b) c) < x \<and> x \<le> vv_of d s1 c \<and> x \<le> vv_of d s2 c"
        if "(c, x) \<in> set (map op_id (d_Ops out))" for c x
      proof -
        from that obtain op where "op \<in> set (d_Ops out)" "op_Actor op = c" "op_Seq op = x" by (auto simp: op_id_def)
        then show ?thesis using q(3) [of op] q(4) [of c] by auto
      qed
      moreover have "keys_ok (tables s1)" using net_okD(1) [OF ok2 ab(1)] store_okD(2) unfolding nd by blast
      ultimately show ?thesis using shrink [OF Store_Delta_distinct [OF _ out]] Store_Delta_truncated [OF out t] by simp
    qed
    have eq: "vv_of d s1 c = vv_of d s2 c" if "\<not> d_Truncated dl" "\<not> d_Truncated out" for c
      using p(2) [OF that(1), of c] q(2) [OF that(2), of c] by simp
    show "\<exists>m s2 w'. Merge nows' (node w b) (Some out) = (Inr m, s2) \<and> (nstep N)\<^sup>*\<^sup>* w0 w' \<and> node w' a = s1 \<and> node w' b = s2
        \<and> (\<not> d_Truncated dl \<and> \<not> d_Truncated out \<longrightarrow> (\<forall>c. vv_of d s1 c = vv_of d s2 c))
        \<and> (d_Truncated dl \<or> d_Truncated out \<longrightarrow>
             card (missing (vv_of d s1) (vv_of d s2)) + nat DefaultDeltaLimit \<le> card (missing (vv_of d (node w a)) (vv_of d (node w b))))"
      using m2 r4 nd4 eq t1 t2 by blast
  qed
qed

subsection \<open>Reconciling with an honest peer\<close>

text \<open>An honest LAN peer: a box that serves the endpoints behind the shared secret.\<close>

definition lanPeer :: "'b peer_prims \<Rightarrow> 'b codec \<Rightarrow> PeerIdentity option \<Rightarrow> (nat \<Rightarrow> int) \<Rightarrow> string \<Rightarrow> ('b, Box) Doer" where
  "lanPeer pr c oid nows secret url r bx =
     (case RegisterHandlers pr c oid nows (Some (SecretAuthorizer secret)) bx r of (resp, bx') \<Rightarrow> (Some resp, bx'))"

text \<open>
  A message gets across when its body is within the cap on both ends and decodes to
  what was encoded. A delta of many or long operations does not: \<open>DefaultDeltaLimit\<close> bounds
  their number, nothing their size.
\<close>

datatype message = PullMsg PullRequest | DeltaMsg Delta | PushMsg PushResponse

fun carried :: "'b peer_prims \<Rightarrow> 'b codec \<Rightarrow> message \<Rightarrow> bool" where
  "carried pr c (PullMsg x) \<longleftrightarrow> c_unPull c (c_Pull c x) = Some x \<and> pa_Len pr (c_Pull c x) \<le> MaxBodyBytes"
| "carried pr c (DeltaMsg x) \<longleftrightarrow> c_unDelta c (c_Delta c x) = Some x \<and> pa_Len pr (c_Delta c x) \<le> MaxBodyBytes"
| "carried pr c (PushMsg x) \<longleftrightarrow> c_unPush c (c_Push c x) = Some x \<and> pa_Len pr (c_Push c x) \<le> MaxBodyBytes"

text \<open>
  The messages of a reconciliation of \<open>n\<close> rounds between the replica \<open>s\<close> and the peer's
  replica \<open>t\<close>, when every one of them gets across.
\<close>

fun exchanged :: "(nat \<Rightarrow> int) \<Rightarrow> net_env \<Rightarrow> string \<Rightarrow> nat \<Rightarrow> nat \<Rightarrow> Store \<Rightarrow> Store \<Rightarrow> message list" where
  "exchanged nows ne d 0 k s t = []"
| "exchanged nows ne d (Suc n) k s t =
     PullMsg \<lparr>pl_Domain = d, pl_VV = VersionVector (tables s) d, pl_Limit = 0\<rparr> #
     (case Store_Delta (nows 0) t d (VersionVector (tables s) d) 0 of
        Inl _ \<Rightarrow> []
      | Inr dl \<Rightarrow> DeltaMsg dl #
        (case Merge (ne_nows ne k) s (Some dl) of
           (Inl _, _) \<Rightarrow> []
         | (Inr _, s1) \<Rightarrow>
           (case Store_Delta (ne_now ne k) s1 d (d_SenderVV dl) 0 of
              Inl _ \<Rightarrow> []
            | Inr out \<Rightarrow>
              (let rest = (\<lambda>t'. if \<not> d_Truncated dl \<and> \<not> d_Truncated out then [] else exchanged nows ne d n (Suc k) s1 t')
               in if d_Ops out \<noteq> [] \<or> d_SnapshotRequired out
                  then DeltaMsg out #
                    (case Merge nows t (Some out) of (Inl _, _) \<Rightarrow> [] | (Inr m, t') \<Rightarrow> PushMsg \<lparr>ps_Applied = m\<rparr> # rest t')
                  else rest t))))"

definition lan_route :: "net_env \<Rightarrow> string \<Rightarrow> bool" where
  "lan_route ne base \<longleftrightarrow> ne_path ne (base @ ''/api/crdt/pull'') = Some ''/api/crdt/pull'' \<and> ne_path ne (base @ ''/api/crdt/push'') = Some ''/api/crdt/push''"

lemma post_pull:
  assumes "carried pr c (PullMsg q) \<and> carried pr c (DeltaMsg dl)" "lan_route ne base" "\<not> sp_WAN p" "sc_Secret cfg = secret" "secret \<noteq> []" "pl_Domain q \<noteq> []"
    and "Store_Delta (nows 0) (box_store bx) (pl_Domain q) (pl_VV q) (pl_Limit q) = Inr dl"
  shows "post pr ne cfg rnd now (lanPeer pr c oid nows secret) p (base @ ''/api/crdt/pull'') (c_Pull c q) (c_unDelta c) bx = (Inr dl, bx)"
proof -
  have "pa_Len pr (c_Pull c q) \<le> MaxBodyBytes" "c_unPull c (c_Pull c q) = Some q" "c_unDelta c (c_Delta c dl) = Some dl" "pa_Len pr (c_Delta c dl) \<le> MaxBodyBytes"
    using assms(1) by simp_all
  then show ?thesis using assms(2-)
    by (simp add: post_def lan_route_def lanPeer_def RegisterHandlers_def handlePull_def SecretAuthorizer_def decodeBody_def respond_def)
qed

lemma post_push:
  assumes "carried pr c (DeltaMsg d) \<and> carried pr c (PushMsg \<lparr>ps_Applied = n\<rparr>)" "lan_route ne base" "\<not> sp_WAN p" "sc_Secret cfg = secret" "secret \<noteq> []" "d_Domain d \<noteq> []"
    and "Merge nows (box_store bx) (Some d) = (Inr n, s')"
  shows "post pr ne cfg rnd now (lanPeer pr c oid nows secret) p (base @ ''/api/crdt/push'') (c_Delta c d) (c_unPush c) bx
    = (Inr \<lparr>ps_Applied = n\<rparr>, bx\<lparr>box_store := s'\<rparr>)"
proof -
  have "pa_Len pr (c_Delta c d) \<le> MaxBodyBytes" "c_unDelta c (c_Delta c d) = Some d"
    "c_unPush c (c_Push c \<lparr>ps_Applied = n\<rparr>) = Some \<lparr>ps_Applied = n\<rparr>" "pa_Len pr (c_Push c \<lparr>ps_Applied = n\<rparr>) \<le> MaxBodyBytes"
    using assms(1) by simp_all
  then show ?thesis using assms(2-)
    by (cases bx) (simp add: post_def lan_route_def lanPeer_def RegisterHandlers_def handlePush_def SecretAuthorizer_def decodeBody_def respond_def)
qed

lemma syncRounds_honest:
  assumes c: "lan_route ne base" "\<not> sp_WAN p" "sc_Secret cfg = secret" "secret \<noteq> []"
    and st: "net_start N domains w0" and ab: "a \<in> N" "b \<in> N" "a \<noteq> b" and d: "d \<in> set (allowSet domains)"
  shows "(nstep N)\<^sup>*\<^sup>* w0 w \<Longrightarrow> box_store bx = node w b \<Longrightarrow> \<forall>m \<in> set (exchanged nows ne d n k (node w a) (node w b)). carried pr c m \<Longrightarrow>
    \<exists>res s' bx' w'. syncRounds pr c ne cfg (lanPeer pr c oid nows secret) p base d n k (node w a) bx = (res, s', bx')
      \<and> (nstep N)\<^sup>*\<^sup>* w0 w' \<and> node w' a = s' \<and> node w' b = box_store bx' \<and> (\<forall>e. res \<noteq> Failed e)
      \<and> (res = Settled \<longrightarrow> (\<forall>x. vv_of d s' x = vv_of d (box_store bx') x))
      \<and> (card (missing (vv_of d (node w a)) (vv_of d (node w b))) < nat DefaultDeltaLimit * n \<longrightarrow> res = Settled)"
proof (induction n arbitrary: w bx k)
  case 0
  then show ?case by auto
next
  case (Suc n)
  have dn: "d \<noteq> []" using d by (simp add: allowSet_def)
  have al: "d \<in> set (allowed (node w b))" using reachable_allowed [OF st Suc.prems(1) ab(2)] d by simp
  obtain dl where dl: "Store_Delta (nows 0) (node w b) d (VersionVector (tables (node w a)) d) 0 = Inr dl"
    using Store_Delta_total [OF al] by blast
  have pl: "post pr ne cfg (ne_rnd ne (2 * k)) (ne_now ne k) (lanPeer pr c oid nows secret) p (base @ ''/api/crdt/pull'')
      (c_Pull c \<lparr>pl_Domain = d, pl_VV = VersionVector (tables (node w a)) d, pl_Limit = 0\<rparr>) (c_unDelta c) bx = (Inr dl, bx)"
    by (rule post_pull [OF _ c]) (use Suc.prems(3) in \<open>simp_all add: dn dl Suc.prems(2)\<close>)
  have dd: "d_Domain dl = d" using Store_Delta_fields [OF dl] by simp
  obtain n1 s1 where m: "Merge (ne_nows ne k) (node w a) (Some dl) = (Inr n1, s1)"
    and R: "\<And>now' out nows'. Store_Delta now' s1 d (d_SenderVV dl) 0 = Inr out \<Longrightarrow>
      \<exists>m s2 w'. Merge nows' (node w b) (Some out) = (Inr m, s2) \<and> (nstep N)\<^sup>*\<^sup>* w0 w' \<and> node w' a = s1 \<and> node w' b = s2
        \<and> (\<not> d_Truncated dl \<and> \<not> d_Truncated out \<longrightarrow> (\<forall>c. vv_of d s1 c = vv_of d s2 c))
        \<and> (d_Truncated dl \<or> d_Truncated out \<longrightarrow>
             card (missing (vv_of d s1) (vv_of d s2)) + nat DefaultDeltaLimit \<le> card (missing (vv_of d (node w a)) (vv_of d (node w b))))"
    by (rule sync_round [OF st Suc.prems(1) ab d dl, of "ne_nows ne k"]) blast
  have "allowed s1 = allowed (node w a)" using Merge_allowed [OF m] .
  then obtain out where out: "Store_Delta (ne_now ne k) s1 d (d_SenderVV dl) 0 = Inr out"
    using Store_Delta_total [of d s1 "ne_now ne k" "d_SenderVV dl" 0] reachable_allowed [OF st Suc.prems(1) ab(1)] d by auto
  obtain m2 s2 w' where m2: "Merge nows (node w b) (Some out) = (Inr m2, s2)" "(nstep N)\<^sup>*\<^sup>* w0 w'" "node w' a = s1" "node w' b = s2"
    and eq: "\<not> d_Truncated dl \<and> \<not> d_Truncated out \<longrightarrow> (\<forall>c. vv_of d s1 c = vv_of d s2 c)"
    and sh: "d_Truncated dl \<or> d_Truncated out \<longrightarrow>
       card (missing (vv_of d s1) (vv_of d s2)) + nat DefaultDeltaLimit \<le> card (missing (vv_of d (node w a)) (vv_of d (node w b)))"
    using R [OF out, of nows] by metis
  obtain u bx' where ps: "(if d_Ops out \<noteq> [] \<or> d_SnapshotRequired out
      then post pr ne cfg (ne_rnd ne (2 * k + 1)) (ne_now ne k) (lanPeer pr c oid nows secret) p (base @ ''/api/crdt/push'') (c_Delta c out) (c_unPush c) bx
      else (Inr \<lparr>ps_Applied = 0\<rparr>, bx)) = (Inr u, bx')" and bx': "box_store bx' = s2"
  proof (cases "d_Ops out \<noteq> [] \<or> d_SnapshotRequired out")
    case True
    have od: "d_Domain out \<noteq> []" using Store_Delta_fields [OF out] dn by simp
    have mb: "Merge nows (box_store bx) (Some out) = (Inr m2, s2)" using m2(1) Suc.prems(2) by simp
    have "carried pr c (DeltaMsg out) \<and> carried pr c (PushMsg \<lparr>ps_Applied = m2\<rparr>)" using Suc.prems(3) dl m out m2(1) True by (simp add: Let_def)
    then show thesis using that post_push [OF _ c od mb] True by simp
  next
    case False
    then have "s2 = node w b" using m2(1) by (auto simp: Merge_def split: option.splits)
    then show thesis using that False Suc.prems(2) by simp
  qed
  have step: "syncRounds pr c ne cfg (lanPeer pr c oid nows secret) p base d (Suc n) k (node w a) bx =
      (if \<not> d_Truncated dl \<and> \<not> d_Truncated out then (Settled, s1, bx')
       else syncRounds pr c ne cfg (lanPeer pr c oid nows secret) p base d n (Suc k) s1 bx')"
    using dd dn by (simp only: syncRounds.simps pl m out ps prod.case sum.case Let_def if_False)
  show ?case
  proof (cases "\<not> d_Truncated dl \<and> \<not> d_Truncated out")
    case True
    then show ?thesis using step m2(2-4) bx' eq by auto
  next
    case False
    then have lt: "card (missing (vv_of d s1) (vv_of d s2)) < nat DefaultDeltaLimit * n"
      if "card (missing (vv_of d (node w a)) (vv_of d (node w b))) < nat DefaultDeltaLimit * Suc n" using sh that by simp
    have bw: "box_store bx' = node w' b" using bx' m2(4) by simp
    have "s2 = node w b" if "\<not> (d_Ops out \<noteq> [] \<or> d_SnapshotRequired out)" using m2(1) that by (auto simp: Merge_def split: option.splits)
    then have cr: "\<forall>m \<in> set (exchanged nows ne d n (Suc k) (node w' a) (node w' b)). carried pr c m"
      using Suc.prems(3) dl m out m2(1) False unfolding m2(3,4) by (cases "d_Ops out \<noteq> [] \<or> d_SnapshotRequired out") (simp_all add: Let_def)
    show ?thesis using Suc.IH [OF m2(2) bw cr] lt False unfolding step m2(3,4) by auto
  qed
qed


subsection \<open>A concrete reconciliation\<close>

datatype exBody = XPull PullRequest | XDelta Delta | XPush PushResponse | XText

definition exCodec :: "exBody codec" where
  "exCodec = \<lparr>c_Pull = XPull, c_unPull = (\<lambda>b. case b of XPull x \<Rightarrow> Some x | _ \<Rightarrow> None), c_Delta = XDelta,
     c_unDelta = (\<lambda>b. case b of XDelta x \<Rightarrow> Some x | _ \<Rightarrow> None), c_Push = XPush, c_unPush = (\<lambda>b. case b of XPush x \<Rightarrow> Some x | _ \<Rightarrow> None),
     c_Status = (\<lambda>_. XText), c_Error = (\<lambda>_. XText)\<rparr>"

text \<open>The length of a body grows with what it holds.\<close>

fun exLen :: "exBody \<Rightarrow> nat" where
  "exLen (XPull q) = 64 + length (pl_Domain q) + 64 * length (pl_VV q)"
| "exLen (XDelta dl) = 256 + length (d_Domain dl) + 64 * length (d_SenderVV dl) +
     sum_list (map (\<lambda>op. 256 + length (op_Actor op) + length (op_Key op) + length (op_Field op) + 2 * length (op_Value op)) (d_Ops dl)) +
     (case d_Snapshot dl of None \<Rightarrow> 0
      | Some sn \<Rightarrow> 64 * length (sn_VV sn) + sum_list (map (\<lambda>r. 256 + length (rs_Key r) + length (rs_Field r) + 2 * length (rs_Value r)) (sn_Registers sn)) +
          sum_list (map (\<lambda>r. 256 + length (cs_Key r) + length (cs_Field r) + length (cs_Actor r)) (sn_Counters sn)))"
| "exLen (XPush x) = 32"
| "exLen XText = 64"

definition exWire :: "exBody peer_prims" where
  "exWire = \<lparr>pa_Public = (\<lambda>k. k), pa_Sign = (\<lambda>_ _. []), pa_Verify = (\<lambda>_ _ _. False), pa_Canonical = (\<lambda>_. []), pa_RawURL = (\<lambda>b. b),
     pa_decRawURL = Some, pa_decStd = Some, pa_decURL = Some, pa_decRawStd = Some, pa_Marshal = (\<lambda>_. []), pa_UnmarshalReq = (\<lambda>_. None),
     pa_UnmarshalResp = (\<lambda>_. None), pa_Format = (\<lambda>_. []), pa_Parse = (\<lambda>_. None), pa_Sum256 = (\<lambda>_. []), pa_Len = exLen\<rparr>"

definition exNetEnv :: net_env where
  "exNetEnv = \<lparr>ne_path = (\<lambda>u. Some u), ne_scheme = (\<lambda>_. None), ne_rnd = (\<lambda>_. None), ne_now = (\<lambda>_. 9), ne_nows = (\<lambda>_ _. 9)\<rparr>"

definition exCfg :: "(exBody, Box) SyncerConfig" where
  "exCfg = \<lparr>sc_Store = None, sc_HasPeers = True, sc_Domains = [''d''], sc_Secret = ''s'', sc_HTTPClient = None, sc_WANHTTPClient = None,
     sc_SelfBaseURLs = [], sc_Interval = 1, sc_Identity = None\<rparr>"

definition exBox :: Box where
  "exBox = \<lparr>box_store = node exNet1 ''A'', box_verifier = \<lparr>v_self = [], v_selfID = [], v_seen = []\<rparr>\<rparr>"

definition exLan :: SyncPeer where
  "exLan = \<lparr>sp_InstanceID = [], sp_BaseURL = [], sp_WAN = False, sp_PublicKey = []\<rparr>"

lemma exMissing:
  "card (missing (\<lambda>x. fst (metaFor (tables (node exNet1 ''B'')) ''d'' x)) (\<lambda>x. fst (metaFor (tables (node exNet1 ''A'')) ''d'' x))) \<le> 2"
proof -
  have m: "crdt_meta (tables (node exNet1 ''A'')) = [((''d'', ''A''), (2, 0))]" "crdt_meta (tables (node exNet1 ''B'')) = []" by code_simp+
  have "missing (\<lambda>x. fst (metaFor (tables (node exNet1 ''B'')) ''d'' x)) (\<lambda>x. fst (metaFor (tables (node exNet1 ''A'')) ''d'' x))
      \<subseteq> {(''A'', 1), (''A'', 2)}"
    by (auto simp: missing_def metaFor_def m split: if_splits)
  from card_mono [OF _ this] show ?thesis by simp
qed

lemma ball_ex_carried:
  assumes "\<forall>m \<in> M. case m of PullMsg q \<Rightarrow> exLen (XPull q) \<le> 1500 | DeltaMsg dl \<Rightarrow> exLen (XDelta dl) \<le> 1500 | PushMsg u \<Rightarrow> True"
  shows "\<forall>m \<in> M. carried exWire exCodec m"
proof
  fix m assume "m \<in> M"
  then show "carried exWire exCodec m" using bspec [OF assms, of m] by (cases m) (simp_all add: exWire_def exCodec_def MaxBodyBytes_def del: exLen.simps(1,2))
qed


theorem wan_exchange_ignores_lan_credentials_witness:
  "sp_WAN (exLan\<lparr>sp_WAN := True\<rparr>) \<and>
   syncPeer exWire exCodec exNetEnv (exCfg\<lparr>sc_HTTPClient := None, sc_Secret := ''other''\<rparr>) (exLan\<lparr>sp_WAN := True\<rparr>) exB exBox
     = syncPeer exWire exCodec exNetEnv exCfg (exLan\<lparr>sp_WAN := True\<rparr>) exB exBox"
  using wan_exchange_ignores_lan_credentials
    [where p = "exLan\<lparr>sp_WAN := True\<rparr>" and pr = exWire and c = exCodec and ne = exNetEnv and cfg = exCfg and x = None and y = "''other''" and s = exB and w = exBox]
  by simp

definition exWanCfg :: "(string, unit) SyncerConfig" where
  "exWanCfg = \<lparr>sc_Store = None, sc_HasPeers = True, sc_Domains = [''d''], sc_Secret = ''s'', sc_HTTPClient = None, sc_WANHTTPClient = None,
     sc_SelfBaseURLs = [], sc_Interval = 1, sc_Identity = Some (exId CHR ''i'')\<rparr>"

definition exWan :: SyncPeer where
  "exWan = \<lparr>sp_InstanceID = [], sp_BaseURL = [], sp_WAN = True, sp_PublicKey = id_id (exId CHR ''j'')\<rparr>"

definition exAnswer :: "string Response" where
  "exAnswer = \<lparr>rs_Code = 200, rs_PeerAuth = ''bp'', rs_Body = ''y''\<rparr>"

end
