(* ===== verification/Crdt_Query.thy ===== *)
theory Crdt_Query
  imports Crdt_Delta
begin

text \<open>
  \<open>Store.Delta\<close> and \<open>Store.Snapshot\<close> (\<open>backend/internal/crdtsync/store.go\<close>) query by query.
  They take no lock and open no transaction: the version vector, the floors, the registers,
  the counters and the operations of each actor are read by queries of their own, and the
  replica may be written to, merged into or compacted between any two of them. One query is one step,
  because the store has a single database connection (\<open>SetMaxOpenConns(1)\<close>). With
  nothing in between, the result is that of \<open>Store_Delta\<close>.
\<close>

definition snapRegs :: "db \<Rightarrow> string \<Rightarrow> RegisterState list" where
  "snapRegs tx domain = map (\<lambda>((d, k, f), r).
      \<lparr>rs_Key = k, rs_Field = f, rs_Value = r_value r, rs_Deleted = r_deleted r, rs_Stamp = r_stamp r\<rparr>)
    (sort_key (\<lambda>((d, k, f), r). (k, f)) (filter (\<lambda>((d, k, f), r). d = domain) (crdt_reg tx)))"

definition snapCtrs :: "db \<Rightarrow> string \<Rightarrow> CounterState list" where
  "snapCtrs tx domain = map (\<lambda>((d, k, f, a), (pos, neg)).
      \<lparr>cs_Key = k, cs_Field = f, cs_Actor = a, cs_Pos = pos, cs_Neg = neg\<rparr>)
    (sort_key (\<lambda>((d, k, f, a), _). (k, f, a)) (filter (\<lambda>((d, k, f, a), _). d = domain) (crdt_ctr tx)))"

lemma Store_Snapshot_queries:
  "Store_Snapshot now tx domain = \<lparr>sn_Domain = domain, sn_VV = VersionVector tx domain, sn_Registers = snapRegs tx domain,
     sn_Counters = snapCtrs tx domain, sn_TakenAtMS = now, sn_SchemaVers = SnapshotSchemaVersion\<rparr>"
  by (simp add: Store_Snapshot_def snapRegs_def snapCtrs_def)

text \<open>
  How far a call of \<open>Delta\<close> has got, with what it has read: its next query is that of the version
  vector, of the floors, the three of \<open>Snapshot\<close>, or that of the operations of the next actor.
\<close>

datatype reading =
    ReadVV
  | ReadFloors VersionVector
  | ReadSnapVV VersionVector
  | ReadSnapRegs VersionVector VersionVector int
  | ReadSnapCtrs VersionVector VersionVector int "RegisterState list"
  | ReadOps VersionVector "string list" "Op list"
  | Answer Delta

definition opsAnswer :: "string \<Rightarrow> VersionVector \<Rightarrow> Op list \<Rightarrow> bool \<Rightarrow> reading" where
  "opsAnswer domain ourVV ops truncated = Answer \<lparr>d_Domain = domain, d_SenderVV = ourVV, d_Ops = ops,
     d_SnapshotRequired = False, d_Snapshot = None, d_Truncated = truncated\<rparr>"

fun deltaStep :: "int \<Rightarrow> db \<Rightarrow> string \<Rightarrow> VersionVector \<Rightarrow> int \<Rightarrow> reading \<Rightarrow> reading" where
  "deltaStep nowMS tx domain peerVV limit ReadVV = ReadFloors (VersionVector tx domain)"
| "deltaStep nowMS tx domain peerVV limit (ReadFloors ourVV) =
     (let fls = floors tx domain
      in if \<exists>(a, seq) \<in> set ourVV. vv_get peerVV a < vv_get fls a \<and> seq > vv_get peerVV a
         then ReadSnapVV ourVV else ReadOps ourVV (sort (map fst ourVV)) [])"
| "deltaStep nowMS tx domain peerVV limit (ReadSnapVV ourVV) = ReadSnapRegs ourVV (VersionVector tx domain) nowMS"
| "deltaStep nowMS tx domain peerVV limit (ReadSnapRegs ourVV vv t) = ReadSnapCtrs ourVV vv t (snapRegs tx domain)"
| "deltaStep nowMS tx domain peerVV limit (ReadSnapCtrs ourVV vv t regs) =
     Answer \<lparr>d_Domain = domain, d_SenderVV = ourVV, d_Ops = [], d_SnapshotRequired = True,
       d_Snapshot = Some \<lparr>sn_Domain = domain, sn_VV = vv, sn_Registers = regs, sn_Counters = snapCtrs tx domain,
         sn_TakenAtMS = t, sn_SchemaVers = SnapshotSchemaVersion\<rparr>, d_Truncated = False\<rparr>"
| "deltaStep nowMS tx domain peerVV limit (ReadOps ourVV [] acc) = opsAnswer domain ourVV acc False"
| "deltaStep nowMS tx domain peerVV limit (ReadOps ourVV (a # as) acc) =
     (if vv_get ourVV a \<le> vv_get peerVV a then ReadOps ourVV as acc
      else let remaining = nat (if limit \<le> 0 then DefaultDeltaLimit else limit) - length acc
           in if remaining = 0 then opsAnswer domain ourVV acc True
              else let ops = opsAfter tx domain a (vv_get peerVV a) (remaining + 1)
                   in if length ops > remaining then opsAnswer domain ourVV (acc @ take remaining ops) True
                      else ReadOps ourVV as (acc @ ops))"
| "deltaStep nowMS tx domain peerVV limit (Answer dl) = Answer dl"

fun deltaSteps :: "nat \<Rightarrow> int \<Rightarrow> db \<Rightarrow> string \<Rightarrow> VersionVector \<Rightarrow> int \<Rightarrow> reading \<Rightarrow> reading" where
  "deltaSteps 0 nowMS tx domain peerVV limit st = st"
| "deltaSteps (Suc n) nowMS tx domain peerVV limit st = deltaSteps n nowMS tx domain peerVV limit (deltaStep nowMS tx domain peerVV limit st)"

lemma deltaSteps_Answer [simp]: "deltaSteps n nowMS tx domain peerVV limit (Answer dl) = Answer dl"
  by (induction n) simp_all

lemma deltaSteps_ops:
  assumes "deltaOps tx domain ourVV peerVV (nat (if limit \<le> 0 then DefaultDeltaLimit else limit)) as acc = (ops, truncated)" "length as < n"
  shows "deltaSteps n nowMS tx domain peerVV limit (ReadOps ourVV as acc) = opsAnswer domain ourVV ops truncated"
  using assms
proof (induction as arbitrary: acc n)
  case Nil
  then show ?case by (cases n) (simp_all add: opsAnswer_def)
next
  case (Cons a as)
  then obtain m where n: "n = Suc m" "length as < m" by (cases n) auto
  let ?rem = "nat (if limit \<le> 0 then DefaultDeltaLimit else limit) - length acc"
  let ?ops = "opsAfter tx domain a (vv_get peerVV a) (?rem + 1)"
  consider (skip) "vv_get ourVV a \<le> vv_get peerVV a" | (full) "\<not> vv_get ourVV a \<le> vv_get peerVV a" "?rem = 0"
    | (cut) "\<not> vv_get ourVV a \<le> vv_get peerVV a" "?rem \<noteq> 0" "length ?ops > ?rem" | (go) "\<not> vv_get ourVV a \<le> vv_get peerVV a" "?rem \<noteq> 0" "\<not> length ?ops > ?rem"
    by blast
  then show ?case
  proof cases
    case skip
    then show ?thesis using Cons.IH [of acc m] Cons.prems(1) n by simp
  next
    case full
    then show ?thesis using Cons.prems(1) n by (simp add: opsAnswer_def Let_def)
  next
    case cut
    then show ?thesis using Cons.prems(1) n by (simp add: opsAnswer_def Let_def)
  next
    case go
    then show ?thesis using Cons.IH [of "acc @ ?ops" m] Cons.prems(1) n by (simp add: Let_def)
  qed
qed

text \<open>On a replica that does not change meanwhile, the queries give the delta of \<open>Store_Delta\<close>.\<close>

lemma Store_Delta_in_steps:
  assumes "Store_Delta now s d peerVV limit = Inr dl" "length (crdt_meta (tables s)) + 4 < n"
  shows "deltaSteps n now (tables s) d peerVV limit ReadVV = Answer dl"
proof -
  let ?our = "VersionVector (tables s) d"
  define m where "m = n - 5"
  have n: "n = Suc (Suc (Suc (Suc (Suc m))))" "length (crdt_meta (tables s)) \<le> m" using assms(2) by (simp_all add: m_def)
  have len: "length (sort (map fst ?our)) < Suc (Suc (Suc m))"
    using n(2) by (auto simp: VersionVector_def intro: le_less_trans [OF length_filter_le])
  have dom: "checkDomain s d = None" using assms(1) by (cases "checkDomain s d") (auto simp: Store_Delta_def)
  show ?thesis
  proof (cases "\<exists>(a, seq) \<in> set ?our. vv_get peerVV a < vv_get (floors (tables s) d) a \<and> seq > vv_get peerVV a")
    case True
    then show ?thesis using assms(1) dom n(1) by (simp add: Store_Delta_def Store_Snapshot_queries Let_def)
  next
    case False
    obtain ops t where o: "deltaOps (tables s) d ?our peerVV (nat (if limit \<le> 0 then DefaultDeltaLimit else limit)) (sort (map fst ?our)) [] = (ops, t)" by fastforce
    have "Answer dl = opsAnswer d ?our ops t" using assms(1) dom False o by (simp add: Store_Delta_def opsAnswer_def Let_def)
    moreover have "deltaSteps n now (tables s) d peerVV limit ReadVV = deltaSteps (Suc (Suc (Suc m))) now (tables s) d peerVV limit (ReadOps ?our (sort (map fst ?our)) [])"
      unfolding n(1) using False by (simp add: Let_def del: deltaSteps.simps(2)) (simp add: Let_def)
    ultimately show ?thesis using deltaSteps_ops [OF o len] by simp
  qed
qed

end
