(* ===== verification/Crdt_Async.thy ===== *)
theory Crdt_Async
  imports Crdt_Converge Crdt_Query
begin

text \<open>
  The replicated network with answers read query by query (\<open>Crdt_Query\<close>): while one box
  answers another it goes on writing, merging and compacting, so an answer may hold
  operations its version vector does not name yet, and may lack operations compacted away
  meanwhile. A replica then holds at least what its version vector covers, and possibly more.
\<close>

subsection \<open>The network\<close>

text \<open>
  \<open>cn_wire\<close> holds every delta ever sent; any box may receive it, at any time, any number of times
  or never. \<open>cn_reads\<close> holds the answers in the making, with the box, the domain, the announced
  version vector and the limit; any of them may stop at any stage.
\<close>

record CNet =
  cn_node :: "string \<Rightarrow> Store"
  cn_wire :: "Delta set"
  cn_reads :: "(string \<times> string \<times> VersionVector \<times> int \<times> reading) set"

definition putNode :: "string \<Rightarrow> Store \<Rightarrow> CNet \<Rightarrow> CNet" where
  "putNode a s w = w\<lparr>cn_node := (cn_node w)(a := s)\<rparr>"

inductive cstep :: "string set \<Rightarrow> CNet \<Rightarrow> CNet \<Rightarrow> bool" for N where
  cset: "a \<in> N \<Longrightarrow> cstep N w (putNode a (snd (Store_Set now (cn_node w a) d k f v)) w)"
| cdelete: "a \<in> N \<Longrightarrow> cstep N w (putNode a (snd (Store_Delete now (cn_node w a) d k f)) w)"
| cadd: "a \<in> N \<Longrightarrow> cstep N w (putNode a (snd (Store_Add now (cn_node w a) d k f x)) w)"
| ccompact: "a \<in> N \<Longrightarrow> cstep N w (putNode a (snd (Compact (cn_node w a) d keep)) w)"
| cask: "a \<in> N \<Longrightarrow> checkDomain (cn_node w a) d = None \<Longrightarrow> cstep N w (w\<lparr>cn_reads := insert (a, d, vv, limit, ReadVV) (cn_reads w)\<rparr>)"
| cquery: "(a, d, vv, limit, st) \<in> cn_reads w \<Longrightarrow>
    cstep N w (w\<lparr>cn_reads := insert (a, d, vv, limit, deltaStep now (tables (cn_node w a)) d vv limit st) (cn_reads w)\<rparr>)"
| csend: "(a, d, vv, limit, Answer dl) \<in> cn_reads w \<Longrightarrow> cstep N w (w\<lparr>cn_wire := insert dl (cn_wire w)\<rparr>)"
| cdeliver: "b \<in> N \<Longrightarrow> dl \<in> cn_wire w \<Longrightarrow> cstep N w (putNode b (snd (Merge nows (cn_node w b) (Some dl))) w)"

definition cnet_start :: "string set \<Rightarrow> string list \<Rightarrow> CNet \<Rightarrow> bool" where
  "cnet_start N domains w \<longleftrightarrow> cn_wire w = {} \<and> cn_reads w = {} \<and> (\<forall>a \<in> N. \<exists>now. Open now empty_db a domains = Inr (cn_node w a))"

subsection \<open>What every replica holds\<close>

text \<open>
  The registers are the join of some of the operations ever issued, at least of those below
  the vector \<open>v\<close>; so are the counters, of possibly others.
\<close>

definition regs_hold :: "bool \<Rightarrow> Op set \<Rightarrow> (string \<Rightarrow> nat) \<Rightarrow> Op set \<Rightarrow> (string \<times> string \<rightharpoonup> reg_row) \<Rightarrow> bool" where
  "regs_hold go H v S m \<longleftrightarrow> covered H v \<subseteq> S \<and> S \<subseteq> H \<and> joins (reg_ok go) (reg_le go) (regE S) m"

definition ctrs_hold :: "Op set \<Rightarrow> (string \<Rightarrow> nat) \<Rightarrow> Op set \<Rightarrow> (string \<times> string \<times> string \<rightharpoonup> int \<times> int) \<Rightarrow> bool" where
  "ctrs_hold H v S c \<longleftrightarrow> covered H v \<subseteq> S \<and> S \<subseteq> H \<and> joins (\<lambda>_. True) ctr_le (ctrE S) c"

definition log_from :: "string \<Rightarrow> Op set \<Rightarrow> Store \<Rightarrow> bool" where
  "log_from d S s \<longleftrightarrow> (\<forall>a n r. dlog d (tables s) (a, n) = Some r \<longrightarrow> (\<exists>op \<in> S. op_log op = ((a, n), r)))"

definition box_ok :: "bool \<Rightarrow> string \<Rightarrow> (string \<Rightarrow> nat) \<Rightarrow> Op set \<Rightarrow> Store \<Rightarrow> bool" where
  "box_ok go d ow H s \<longleftrightarrow> store_ok s \<and> is_go s d = go \<and> actor s \<noteq> [] \<and> (\<forall>a. vv_of d s a \<le> ow a) \<and>
     (\<exists>S T. regs_hold go H (vv_of d s) S (dreg d (tables s)) \<and> ctrs_hold H (vv_of d s) T (dctr d (tables s)) \<and> log_from d (S \<inter> T) s)"

definition answer_ok :: "bool \<Rightarrow> string \<Rightarrow> (string \<Rightarrow> nat) \<Rightarrow> Op set \<Rightarrow> Delta \<Rightarrow> bool" where
  "answer_ok go d ow H dl \<longleftrightarrow> delta_wf dl \<and> (delta_target dl = d \<longrightarrow>
     (if d_SnapshotRequired dl
      then \<exists>snap m c. d_Snapshot dl = Some snap \<and> set (map snap_reg (sn_Registers snap)) = graph_of m \<and> set (map snap_ctr (sn_Counters snap)) = graph_of c \<and>
        (\<forall>a. vv_get (sn_VV snap) a \<le> ow a) \<and> (\<exists>S. regs_hold go H (vv_get (sn_VV snap)) S m) \<and> (\<exists>T. ctrs_hold H (vv_get (sn_VV snap)) T c)
      else set (d_Ops dl) \<subseteq> H))"

text \<open>What an answer in the making has read of the box \<open>s\<close>.\<close>

fun reading_ok :: "bool \<Rightarrow> string \<Rightarrow> (string \<Rightarrow> nat) \<Rightarrow> Op set \<Rightarrow> Store \<Rightarrow> string \<Rightarrow> reading \<Rightarrow> bool" where
  "reading_ok go d ow H s e (ReadSnapRegs our vv t) \<longleftrightarrow> unique_keys vv \<and> (e = d \<longrightarrow> (\<forall>c. vv_get vv c \<le> vv_of d s c))"
| "reading_ok go d ow H s e (ReadSnapCtrs our vv t regs) \<longleftrightarrow> unique_keys vv \<and> (e = d \<longrightarrow> (\<forall>c. vv_get vv c \<le> vv_of d s c) \<and>
     (\<exists>S m. set (map snap_reg regs) = graph_of m \<and> regs_hold go H (vv_get vv) S m))"
| "reading_ok go d ow H s e (ReadOps our as acc) \<longleftrightarrow> (e = d \<longrightarrow> set acc \<subseteq> H)"
| "reading_ok go d ow H s e (Answer dl) \<longleftrightarrow> answer_ok go d ow H dl"
| "reading_ok go d ow H s e _ \<longleftrightarrow> True"

text \<open>The operations a box has issued, and the invariant of the network.\<close>

definition issued :: "string set \<Rightarrow> string \<Rightarrow> CNet \<Rightarrow> string \<Rightarrow> nat" where
  "issued N d w a = (if a \<in> N then vv_of d (cn_node w a) a else 0)"

definition cnet_ok :: "bool \<Rightarrow> string \<Rightarrow> string set \<Rightarrow> Op set \<Rightarrow> CNet \<Rightarrow> bool" where
  "cnet_ok go d N H w \<longleftrightarrow> hist_ok go d (issued N d w) H \<and>
     (\<forall>a \<in> N. actor (cn_node w a) = a \<and> box_ok go d (issued N d w) H (cn_node w a)) \<and>
     (\<forall>dl \<in> cn_wire w. answer_ok go d (issued N d w) H dl) \<and>
     (\<forall>(a, e, vv, limit, st) \<in> cn_reads w. a \<in> N \<and> reading_ok go d (issued N d w) H (cn_node w a) e st)"

subsection \<open>More operations, later boxes\<close>

lemma regs_hold_mono: "regs_hold go H v S m \<Longrightarrow> fresh ow H H' \<Longrightarrow> \<forall>a. v a \<le> ow a \<Longrightarrow> regs_hold go H' v S m"
  using covered_fresh [of ow H H' v] by (auto simp: regs_hold_def fresh_def)

lemma ctrs_hold_mono: "ctrs_hold H v S m \<Longrightarrow> fresh ow H H' \<Longrightarrow> \<forall>a. v a \<le> ow a \<Longrightarrow> ctrs_hold H' v S m"
  using covered_fresh [of ow H H' v] by (auto simp: ctrs_hold_def fresh_def)

lemma box_ok_mono:
  assumes "box_ok go d ow H s" "fresh ow H H'" "\<forall>a. ow a \<le> ow' a"
  shows "box_ok go d ow' H' s"
proof -
  have v: "\<forall>a. vv_of d s a \<le> ow a" using assms(1) by (simp add: box_ok_def)
  moreover from this have "\<forall>a. vv_of d s a \<le> ow' a" using assms(3) order_trans by blast
  ultimately show ?thesis using assms(1) regs_hold_mono [OF _ assms(2)] ctrs_hold_mono [OF _ assms(2)] unfolding box_ok_def by blast
qed

lemma answer_ok_mono:
  assumes "answer_ok go d ow H dl" "fresh ow H H'" "\<forall>a. ow a \<le> ow' a"
  shows "answer_ok go d ow' H' dl"
proof (cases "delta_target dl = d \<and> d_SnapshotRequired dl")
  case True
  then obtain snap m c S T where sn: "d_Snapshot dl = Some snap" "set (map snap_reg (sn_Registers snap)) = graph_of m"
    "set (map snap_ctr (sn_Counters snap)) = graph_of c" "\<forall>a. vv_get (sn_VV snap) a \<le> ow a"
    "regs_hold go H (vv_get (sn_VV snap)) S m" "ctrs_hold H (vv_get (sn_VV snap)) T c"
    using assms(1) unfolding answer_ok_def by auto
  have "\<forall>a. vv_get (sn_VV snap) a \<le> ow' a" using sn(4) assms(3) order_trans by blast
  then show ?thesis using assms(1) True sn(1-3) regs_hold_mono [OF sn(5) assms(2) sn(4)] ctrs_hold_mono [OF sn(6) assms(2) sn(4)]
    unfolding answer_ok_def by auto
next
  case False
  then show ?thesis using assms(1,2) unfolding answer_ok_def fresh_def by auto
qed

lemma reading_ok_mono:
  assumes "reading_ok go d ow H s e st" "fresh ow H H'" "\<forall>a. ow a \<le> ow' a" "\<forall>c. vv_of d s c \<le> vv_of d s' c" "\<forall>c. vv_of d s c \<le> ow c"
  shows "reading_ok go d ow' H' s' e st"
proof (cases st)
  case (ReadSnapRegs our vv t)
  then show ?thesis using assms(1,4) by (auto intro: order_trans)
next
  case (ReadSnapCtrs our vv t regs)
  have "\<forall>c. vv_get vv c \<le> vv_of d s' c" "\<exists>S m. set (map snap_reg regs) = graph_of m \<and> regs_hold go H' (vv_get vv) S m" if ed: "e = d"
  proof -
    have v: "\<forall>c. vv_get vv c \<le> vv_of d s c" using assms(1) ReadSnapCtrs ed by simp
    then show "\<forall>c. vv_get vv c \<le> vv_of d s' c" using assms(4) order_trans by blast
    have le: "\<forall>c. vv_get vv c \<le> ow c" using v assms(5) order_trans by blast
    obtain S m where "set (map snap_reg regs) = graph_of m" "regs_hold go H (vv_get vv) S m" using assms(1) ReadSnapCtrs ed by auto
    then show "\<exists>S m. set (map snap_reg regs) = graph_of m \<and> regs_hold go H' (vv_get vv) S m"
      using regs_hold_mono [OF _ assms(2) le] by blast
  qed
  then show ?thesis using assms(1) ReadSnapCtrs by simp
next
  case (ReadOps our as acc)
  then show ?thesis using assms(1,2) by (auto simp: fresh_def)
next
  case (Answer dl)
  then show ?thesis using assms(1) answer_ok_mono [OF _ assms(2,3)] by simp
qed simp_all

lemma putNode_simps [simp]:
  "cn_node (putNode a s w) = (cn_node w)(a := s)" "cn_wire (putNode a s w) = cn_wire w" "cn_reads (putNode a s w) = cn_reads w"
  by (simp_all add: putNode_def)

lemma cnet_ok_put:
  assumes ok: "cnet_ok go d N H w" and a: "a \<in> N" "actor s' = a" and fr: "fresh (issued N d w) H H'"
    and mono: "\<forall>c. vv_of d (cn_node w a) c \<le> vv_of d s' c"
    and s': "box_ok go d ((issued N d w)(a := vv_of d s' a)) H' s'"
    and h: "hist_ok go d ((issued N d w)(a := vv_of d s' a)) H'"
  shows "cnet_ok go d N H' (putNode a s' w)"
proof -
  define ow where "ow = (issued N d w)(a := vv_of d s' a)"
  have own: "issued N d (putNode a s' w) = ow" using a(1) by (auto simp: ow_def issued_def fun_eq_iff)
  have le: "\<forall>c. issued N d w c \<le> ow c" using mono a(1) by (simp add: issued_def ow_def)
  have "actor (cn_node (putNode a s' w) c) = c \<and> box_ok go d ow H' (cn_node (putNode a s' w) c)" if "c \<in> N" for c
  proof (cases "c = a")
    case False
    then show ?thesis using that ok box_ok_mono [OF _ fr le] by (simp add: cnet_ok_def)
  qed (use s' a(2) ow_def in simp)
  moreover have "answer_ok go d ow H' dl" if "dl \<in> cn_wire w" for dl
    using that ok answer_ok_mono [OF _ fr le] by (simp add: cnet_ok_def)
  moreover have "b \<in> N \<and> reading_ok go d ow H' (cn_node (putNode a s' w) b) e st" if "(b, e, vv, limit, st) \<in> cn_reads w" for b e vv limit st
  proof -
    have "b \<in> N" "reading_ok go d (issued N d w) H (cn_node w b) e st" using that ok by (auto simp: cnet_ok_def)
    moreover have "\<forall>c. vv_of d (cn_node w b) c \<le> issued N d w c" using ok \<open>b \<in> N\<close> by (simp add: cnet_ok_def box_ok_def)
    ultimately show ?thesis using reading_ok_mono [OF _ fr le, of go d "cn_node w b" e st "cn_node (putNode a s' w) b"] mono by auto
  qed
  ultimately show ?thesis using h unfolding cnet_ok_def own ow_def [symmetric] by auto
qed

subsection \<open>Local steps\<close>

lemma cnet_okD:
  assumes "cnet_ok go d N H w" "a \<in> N"
  shows "store_ok (cn_node w a)" "actor (cn_node w a) = a" "is_go (cn_node w a) d = go" "box_ok go d (issued N d w) H (cn_node w a)"
    "hist_ok go d (issued N d w) H" "\<forall>c. vv_of d (cn_node w a) c \<le> issued N d w c" "a \<noteq> []"
  using assms by (auto simp: cnet_ok_def box_ok_def)

lemma box_okI:
  assumes "store_ok s" "is_go s d = go" "actor s \<noteq> []" "\<And>a. vv_of d s a \<le> ow a"
    and "regs_hold go H (vv_of d s) S (dreg d (tables s))" "ctrs_hold H (vv_of d s) T (dctr d (tables s))" "log_from d (S \<inter> T) s"
  shows "box_ok go d ow H s"
  using assms unfolding box_ok_def by blast

text \<open>A step that changes nothing in the domain but, at most, drops log rows.\<close>

lemma cnet_ok_quiet:
  assumes ok: "cnet_ok go d N H w" and a: "a \<in> N" and s': "store_ok s'" "actor s' = a" "is_go s' d = go"
    and same: "dreg d (tables s') = dreg d (tables (cn_node w a))" "dctr d (tables s') = dctr d (tables (cn_node w a))"
      "\<And>b. vv_of d s' b = vv_of d (cn_node w a) b" "dlog d (tables s') \<subseteq>\<^sub>m dlog d (tables (cn_node w a))"
  shows "cnet_ok go d N H (putNode a s' w)"
proof -
  note n = cnet_okD [OF ok a]
  have ow: "(issued N d w)(a := vv_of d s' a) = issued N d w" using a same(3) by (auto simp: issued_def fun_eq_iff)
  have log: "dlog d (tables s') x = Some r \<Longrightarrow> dlog d (tables (cn_node w a)) x = Some r" for x r
    using same(4) unfolding map_le_def dom_def by (metis (mono_tags) mem_Collect_eq option.distinct(1))
  obtain S T where st: "regs_hold go H (vv_of d (cn_node w a)) S (dreg d (tables (cn_node w a)))" "ctrs_hold H (vv_of d (cn_node w a)) T (dctr d (tables (cn_node w a)))"
    "log_from d (S \<inter> T) (cn_node w a)" using n(4) by (auto simp: box_ok_def)
  have "log_from d (S \<inter> T) s'" using st(3) log unfolding log_from_def by blast
  moreover have "regs_hold go H (vv_of d s') S (dreg d (tables s'))" "ctrs_hold H (vv_of d s') T (dctr d (tables s'))"
    using st(1,2) by (simp_all only: same(1-3))
  ultimately have "box_ok go d (issued N d w) H s'" using n(6,7) s' same(3) by (intro box_okI [of s' d go]) simp_all
  then show ?thesis using cnet_ok_put [OF ok a s'(2) fresh_refl] same(3) ow n(5) by simp
qed

lemma cnet_ok_clk:
  assumes "cnet_ok go d N H w" "a \<in> N"
  shows "cnet_ok go d N H (putNode a ((cn_node w a)\<lparr>clk := c\<rparr>) w)"
proof (rule cnet_ok_quiet [OF assms])
  show "store_ok ((cn_node w a)\<lparr>clk := c\<rparr>)"
    using ticked_store_ok [of "cn_node w a" "(cn_node w a)\<lparr>clk := c\<rparr>"] cnet_okD(1) [OF assms] by (auto simp: ticked_def)
qed (use cnet_okD [OF assms] in \<open>simp_all add: is_go_def\<close>)

lemma cnet_ok_same: "cnet_ok go d N H w \<Longrightarrow> a \<in> N \<Longrightarrow> cnet_ok go d N H (putNode a (cn_node w a) w)"
  using cnet_ok_clk [of go d N H w a "clk (cn_node w a)"] by simp

lemma cnet_ok_outside:
  assumes ok: "cnet_ok go d N H w" and a: "a \<in> N" and s': "store_ok s'" "actor s' = a" "growOnly s' = growOnly (cn_node w a)"
    and out: "same_outside e (tables (cn_node w a)) (tables s')" "e \<noteq> d"
  shows "cnet_ok go d N H (putNode a s' w)"
proof -
  have "dreg d (tables s') = dreg d (tables (cn_node w a))" "dctr d (tables s') = dctr d (tables (cn_node w a))"
    "dlog d (tables s') = dlog d (tables (cn_node w a))" "\<And>b. vv_of d s' b = vv_of d (cn_node w a) b"
    using out by (auto simp: same_outside_def)
  then show ?thesis using s' cnet_okD(3) [OF ok a] by (intro cnet_ok_quiet [OF ok a]) (auto simp: is_go_def)
qed

lemma cnet_ok_compact:
  assumes ok: "cnet_ok go d N H w" and a: "a \<in> N"
  shows "cnet_ok go d N H (putNode a (snd (Compact (cn_node w a) e keep)) w)"
proof (cases "fst (Compact (cn_node w a) e keep)")
  case (Inl er)
  then have "snd (Compact (cn_node w a) e keep) = cn_node w a" using Compact_error by (metis prod.collapse)
  then show ?thesis using cnet_ok_same [OF ok a] by simp
next
  case (Inr n)
  let ?s' = "snd (Compact (cn_node w a) e keep)"
  have c: "Compact (cn_node w a) e keep = (Inr n, ?s')" using Inr by (metis prod.collapse)
  note st = cnet_okD(1) [OF ok a] and ef = Compact_effect [OF c cnet_okD(1) [OF ok a]]
  show ?thesis
  proof (cases "e = d")
    case True
    have "vv_of d ?s' b = vv_of d (cn_node w a) b" for b using ef(6) [of b] True by simp
    moreover have "dlog d (tables ?s') \<subseteq>\<^sub>m dlog d (tables (cn_node w a))"
      using ef(7) True by (auto simp: map_le_def split: if_splits)
    ultimately show ?thesis using ef(1,2,8,10) cnet_okD [OF ok a] Compact_store_ok [OF st c]
      by (intro cnet_ok_quiet [OF ok a]) (auto simp: is_go_def)
  next
    case False
    then show ?thesis using ef(5,8,10) cnet_okD(2) [OF ok a] Compact_store_ok [OF st c]
      by (intro cnet_ok_outside [OF ok a, where e = e]) auto
  qed
qed

text \<open>Applied operations join the sets that the registers and the counters stand for.\<close>

lemma holds_with_ops:
  assumes "joins (reg_ok go) (reg_le go) (regE S) m" "joins (\<lambda>_. True) ctr_le (ctrE T) c" "\<forall>op \<in> set ops. \<not> (op_Kind op = OpDel \<and> go)"
  shows "joins (reg_ok go) (reg_le go) (regE (S \<union> set ops)) (merge_map (reg_merge go) (regs_of ops) m)"
    "joins (\<lambda>_. True) ctr_le (ctrE (T \<union> set ops)) (merge_map max_totals (ctrs_of ops) c)"
proof -
  have r: "\<forall>(k, r) \<in> set (regs_of ops). reg_ok go r"
    using assms(3) by (auto simp: op_regs_def reg_ok_def split: OpKind.splits)
  have "regE (S \<union> set ops) = regE S \<union> set (regs_of ops)" "ctrE (T \<union> set ops) = ctrE T \<union> set (ctrs_of ops)"
    by (auto simp: regE_def ctrE_def)
  then show "joins (reg_ok go) (reg_le go) (regE (S \<union> set ops)) (merge_map (reg_merge go) (regs_of ops) m)"
    "joins (\<lambda>_. True) ctr_le (ctrE (T \<union> set ops)) (merge_map max_totals (ctrs_of ops) c)"
    using reg.joins_merge_map [OF assms(1) r] ctr.joins_merge_map [OF assms(2), of "ctrs_of ops"] by auto
qed

lemma cnet_ok_append:
  assumes ok: "cnet_ok go d N H w" and a: "a \<in> N"
    and ap: "appendLocal (cn_node w a) (tables (cn_node w a)) (localOp now (cn_node w a) d k f kind v) = Inr tx"
    and args: "d \<noteq> []" "k \<noteq> []" "f \<noteq> []" "is_go (cn_node w a) d \<longrightarrow> kind \<noteq> OpDel"
  shows "\<exists>H'. cnet_ok go d N H' (putNode a ((cn_node w a)\<lparr>tables := tx, clk := c, localChanges := i\<rparr>) w)"
proof -
  let ?s = "cn_node w a" and ?o = "localOp now (cn_node w a) d k f kind v"
  let ?s' = "?s\<lparr>tables := tx, clk := c, localChanges := i\<rparr>"
  define q where "q = fst (metaFor (tables ?s) d a)"
  define op where "op = ?o\<lparr>op_Seq := q + 1\<rparr>"
  note n = cnet_okD [OF ok a]
  have o: "op_Domain ?o = d" "op_Actor ?o = actor ?s" "op_Kind ?o = kind"
    by (simp_all add: localOp_def mkOp_def)
  note ef = appendLocal_effect [OF ap store_okD(1) [OF n(1)], unfolded o, OF refl args(4), unfolded n(2), folded q_def, folded op_def]
  have opf: "op_Actor op = a" "op_Seq op = q + 1" "op_Domain op = d"
    using o n(2) by (simp_all add: op_def)
  have own: "issued N d w a = q" using a by (simp add: issued_def q_def)
  have sound: "op_sound go d op" using ef(8) opf args n(2,3,7) by (auto simp: op_sound_def op_def localOp_def mkOp_def)
  have fr: "fresh (issued N d w) H (insert op H)" using opf own by (auto simp: fresh_def)
  have vv: "vv_of d ?s' = (vv_of d ?s)(a := q + 1)" using ef(5) by (auto simp: q_def fun_eq_iff)
  have hist: "hist_ok go d ((issued N d w)(a := q + 1)) (insert op H)"
    using n(5) sound opf own unfolding hist_ok_def by (auto simp: inj_on_insert)
  have cov: "covered (insert op H) (vv_of d ?s') = insert op (covered H (vv_of d ?s))"
    using n(5) opf own unfolding vv by (auto simp: covered_def hist_ok_def q_def split: if_splits)
  obtain S T where st: "regs_hold go H (vv_of d ?s) S (dreg d (tables ?s))" "ctrs_hold H (vv_of d ?s) T (dctr d (tables ?s))"
    "log_from d (S \<inter> T) ?s" using n(4) by (auto simp: box_ok_def)
  have j: "joins (reg_ok go) (reg_le go) (regE S) (dreg d (tables ?s))" "joins (\<lambda>_. True) ctr_le (ctrE T) (dctr d (tables ?s))"
    "covered H (vv_of d ?s) \<subseteq> S" "covered H (vv_of d ?s) \<subseteq> T" "S \<subseteq> H" "T \<subseteq> H"
    using st(1,2) by (auto simp: regs_hold_def ctrs_hold_def)
  have nd: "\<forall>x \<in> set [op]. \<not> (op_Kind x = OpDel \<and> go)" using sound by (simp add: op_sound_def)
  have r: "regs_hold go (insert op H) (vv_of d ?s') (insert op S) (dreg d (tables ?s'))"
    using holds_with_ops(1) [OF j(1,2) nd] ef(1) j(3,5) n(3) unfolding regs_hold_def cov by auto
  have cc: "ctrs_hold (insert op H) (vv_of d ?s') (insert op T) (dctr d (tables ?s'))"
    using holds_with_ops(2) [OF j(1,2) nd] ef(2) j(4,6) unfolding ctrs_hold_def cov by auto
  have l: "log_from d (insert op S \<inter> insert op T) ?s'" unfolding log_from_def
  proof (intro allI impI)
    fix b m r assume x: "dlog d (tables ?s') (b, m) = Some r"
    show "\<exists>op' \<in> insert op S \<inter> insert op T. op_log op' = ((b, m), r)"
    proof (cases "(b, m) = (a, q + 1)")
      case True
      then show ?thesis using x ef(3) opf by (simp add: op_log_def)
    next
      case False
      then have "dlog d (tables ?s) (b, m) = Some r" using x ef(3) by auto
      then show ?thesis using st(3) unfolding log_from_def by blast
    qed
  qed
  have "store_ok ?s'" using store_ok_appendLocal [OF n(1) ap args(4)] .
  moreover have vb: "vv_of d ?s' b = ((vv_of d ?s)(a := q + 1)) b" for b using vv by (rule fun_cong)
  moreover have "vv_of d ?s' b \<le> ((issued N d w)(a := q + 1)) b" for b unfolding vb using n(6) by simp
  moreover have "actor ?s' \<noteq> []" "is_go ?s' d = go" using n(2,3,7) by (simp_all add: is_go_def)
  ultimately have bx: "box_ok go d ((issued N d w)(a := q + 1)) (insert op H) ?s'" using r cc l by (intro box_okI) assumption+
  have va: "vv_of d ?s' a = q + 1" "\<forall>c. vv_of d ?s c \<le> vv_of d ?s' c" unfolding vb by (simp_all add: q_def)
  have "cnet_ok go d N (insert op H) (putNode a ?s' w)"
    by (rule cnet_ok_put [OF ok a _ fr va(2)]) (use bx hist n(2) in \<open>simp_all only: va(1), simp_all\<close>)
  then show ?thesis by blast
qed

lemma cnet_ok_appended:
  assumes ok: "cnet_ok go d N H w" and a: "a \<in> N"
    and ap: "appendLocal (cn_node w a) (tables (cn_node w a)) (localOp now (cn_node w a) e k f kind v) = Inr tx"
    and args: "e \<noteq> []" "k \<noteq> []" "f \<noteq> []" "is_go (cn_node w a) e \<longrightarrow> kind \<noteq> OpDel"
  shows "\<exists>H'. cnet_ok go d N H' (putNode a ((cn_node w a)\<lparr>tables := tx, clk := c, localChanges := i\<rparr>) w)"
proof (cases "e = d")
  case True
  then show ?thesis using cnet_ok_append [OF ok a] ap args by blast
next
  case False
  let ?o = "localOp now (cn_node w a) e k f kind v"
  have o: "op_Domain ?o = e" "op_Actor ?o = actor (cn_node w a)" "op_Kind ?o = kind" by (simp_all add: localOp_def mkOp_def)
  note st = cnet_okD(1) [OF ok a]
  note ef = appendLocal_effect [OF ap store_okD(1) [OF st], unfolded o, OF refl args(4)]
  have "cnet_ok go d N H (putNode a ((cn_node w a)\<lparr>tables := tx, clk := c, localChanges := i\<rparr>) w)"
    using ef(7) False store_ok_appendLocal [OF st ap args(4)] cnet_okD(2) [OF ok a]
    by (intro cnet_ok_outside [OF ok a, where e = e]) auto
  then show ?thesis by blast
qed

lemma cnet_ok_local:
  assumes ok: "cnet_ok go d N H w" and a: "a \<in> N"
  shows "\<exists>H'. cnet_ok go d N H' (putNode a (snd (local now (cn_node w a) e k f kind v)) w)"
proof (cases "local now (cn_node w a) e k f kind v")
  case (Pair r s')
  show ?thesis
  proof (cases r)
    case (Inl er)
    then show ?thesis using local_error [of now "cn_node w a" e k f kind v er s'] Pair cnet_ok_same [OF ok a] cnet_ok_clk [OF ok a]
      by (metis snd_conv)
  next
    case (Inr u)
    then show ?thesis using local_cases [of now "cn_node w a" e k f kind v u s'] Pair cnet_ok_appended [OF ok a]
      by (metis snd_conv)
  qed
qed

lemma cnet_ok_add:
  assumes ok: "cnet_ok go d N H w" and a: "a \<in> N"
  shows "\<exists>H'. cnet_ok go d N H' (putNode a (snd (Store_Add now (cn_node w a) e k f x)) w)"
proof (cases "Store_Add now (cn_node w a) e k f x")
  case (Pair r s')
  show ?thesis
  proof (cases r)
    case (Inl er)
    then show ?thesis using Store_Add_error [of now "cn_node w a" e k f x er s'] Pair cnet_ok_same [OF ok a] cnet_ok_clk [OF ok a]
      by (metis snd_conv)
  next
    case (Inr u)
    then show ?thesis using Store_Add_cases [of now "cn_node w a" e k f x u s'] Pair cnet_ok_appended [OF ok a]
      by (metis snd_conv OpKind.distinct(7))
  qed
qed

subsection \<open>Deliveries\<close>

text \<open>Operations with the same number of the same box are the same; what a log row stands for.\<close>

lemma same_op: "hist_ok go d ow H \<Longrightarrow> op \<in> H \<Longrightarrow> op' \<in> H \<Longrightarrow> op_Actor op' = op_Actor op \<Longrightarrow> op_Seq op' = op_Seq op \<Longrightarrow> op' = op"
  unfolding hist_ok_def inj_on_def by blast

text \<open>
  A replica that has got past the number \<open>n\<close> of a box only over rows of its log, and otherwise holds what
  it held or was given, holds all it covers.
\<close>

lemma covered_by_rows:
  assumes h: "hist_ok go d ow H" and sub: "U \<subseteq> H"
    and rows: "\<And>a q. v a < q \<Longrightarrow> q \<le> v' a \<Longrightarrow> \<exists>op \<in> U. op_Actor op = a \<and> op_Seq op = q"
    and old: "covered H v \<subseteq> U"
  shows "covered H v' \<subseteq> U"
proof
  fix op assume op: "op \<in> covered H v'"
  then have o: "op \<in> H" "op_Seq op \<le> v' (op_Actor op)" by (auto simp: covered_def)
  show "op \<in> U"
  proof (cases "op_Seq op \<le> v (op_Actor op)")
    case True
    then show ?thesis using o(1) old by (auto simp: covered_def)
  next
    case False
    then obtain op' where "op' \<in> U" "op_Actor op' = op_Actor op" "op_Seq op' = op_Seq op" using rows o(2) by (meson not_le)
    then show ?thesis using same_op [OF h o(1)] sub by blast
  qed
qed

lemma log_from_row:
  assumes "log_from d S s" "dlog d (tables s) (a, q) \<noteq> None"
  obtains op where "op \<in> S" "op_Actor op = a" "op_Seq op = q"
  using assms unfolding log_from_def op_log_def by fastforce

lemma log_bound:
  assumes "hist_ok go d ow H" "log_from d S s" "S \<subseteq> H" "dlog d (tables s) (a, q) \<noteq> None"
  shows "q \<le> ow a"
proof -
  obtain op where "op \<in> S" "op_Actor op = a" "op_Seq op = q" by (rule log_from_row [OF assms(2,4)])
  then show ?thesis using assms(1,3) unfolding hist_ok_def by blast
qed

lemma receive_ops:
  assumes m: "Merge nows s (Some dl) = (Inr n, s')" "\<not> d_SnapshotRequired dl" "d_Domain dl = d"
    and b: "box_ok go d ow H s" and h: "hist_ok go d ow H" and sub: "set (d_Ops dl) \<subseteq> H"
  shows "box_ok go d ow H s'" "vv_of d s a \<le> vv_of d s' a"
proof -
  have st: "store_ok s" and go: "is_go s d = go" and act: "actor s \<noteq> []" and le: "\<And>a. vv_of d s a \<le> ow a" using b by (auto simp: box_ok_def)
  obtain S T where S: "regs_hold go H (vv_of d s) S (dreg d (tables s))" and T: "ctrs_hold H (vv_of d s) T (dctr d (tables s))"
    and L: "log_from d (S \<inter> T) s" using b by (auto simp: box_ok_def)
  have j: "joins (reg_ok go) (reg_le go) (regE S) (dreg d (tables s))" "joins (\<lambda>_. True) ctr_le (ctrE T) (dctr d (tables s))"
    "covered H (vv_of d s) \<subseteq> S" "covered H (vv_of d s) \<subseteq> T" "S \<subseteq> H" "T \<subseteq> H"
    using S T by (auto simp: regs_hold_def ctrs_hold_def)
  note ef = Merge_ops_effect [OF m(1,2) store_okD(1) [OF st], unfolded m(3)]
  have static: "actor s' = actor s" "growOnly s' = growOnly s" using Merge_ops_cases [OF m(1,2)] by metis+
  let ?S = "S \<union> set (d_Ops dl)" and ?T = "T \<union> set (d_Ops dl)"
  have L': "log_from d (?S \<inter> ?T) s'" unfolding log_from_def
  proof (intro allI impI)
    fix b q r assume x: "dlog d (tables s') (b, q) = Some r"
    from merge_map_keep_first_mem [OF x [unfolded ef(3)]] consider
      "dlog d (tables s) (b, q) = Some r" | op where "op \<in> set (d_Ops dl)" "op_log op = ((b, q), r)" by auto
    then show "\<exists>op \<in> ?S \<inter> ?T. op_log op = ((b, q), r)"
    proof cases
      case 1
      then show ?thesis using L unfolding log_from_def by blast
    qed blast
  qed
  have vv: "vv_of d s' c = (if c \<in> op_Actor ` set (d_Ops dl) then contiguousEnd (tables s') d c (vv_of d s c) else vv_of d s c)" for c
    using ef(4) [of c] by simp
  show "vv_of d s a \<le> vv_of d s' a" unfolding vv using contiguousEnd_ge by simp
  have row: "dlog d (tables s') (c, q) \<noteq> None" if "vv_of d s c < q" "q \<le> vv_of d s' c" for c q
    using that contiguousEnd_rows [of "vv_of d s c" q "tables s'" d c] unfolding vv by (simp split: if_splits)
  have rows: "\<exists>op \<in> ?S \<inter> ?T. op_Actor op = c \<and> op_Seq op = q" if "vv_of d s c < q" "q \<le> vv_of d s' c" for c q
    using log_from_row [OF L' row [OF that]] by blast
  have HU: "?S \<subseteq> H" "?T \<subseteq> H" using j(5,6) sub by auto
  have cS: "covered H (vv_of d s') \<subseteq> ?S" by (rule covered_by_rows [OF h HU(1), of "vv_of d s"]) (use rows j(3) in auto)
  have cT: "covered H (vv_of d s') \<subseteq> ?T" by (rule covered_by_rows [OF h HU(2), of "vv_of d s"]) (use rows j(4) in auto)
  have nd: "\<forall>op \<in> set (d_Ops dl). \<not> (op_Kind op = OpDel \<and> go)" using h sub by (auto simp: hist_ok_def op_sound_def)
  note J = holds_with_ops [OF j(1,2) nd]
  have bd: "vv_of d s' c \<le> ow c" for c
  proof (cases "vv_of d s c < vv_of d s' c")
    case True
    have "S \<inter> T \<subseteq> H" "?S \<inter> ?T \<subseteq> H" using HU by auto
    then show ?thesis using log_bound [OF h L' _ row [OF True order_refl]] by blast
  qed (use le [of c] in simp)
  show "box_ok go d ow H s'"
  proof (rule box_okI)
    show "store_ok s'" by (rule Merge_ops_store_ok [OF st m(1,2)])
    show "is_go s' d = go" "actor s' \<noteq> []" using go act static by (simp_all add: is_go_def)
    show "regs_hold go H (vv_of d s') ?S (dreg d (tables s'))" using cS HU(1) J(1) ef(1) go by (simp add: regs_hold_def)
    show "ctrs_hold H (vv_of d s') ?T (dctr d (tables s'))" using cT HU(2) J(2) ef(2) by (simp add: ctrs_hold_def)
  qed (rule bd, rule L')
qed

lemma receive_snapshot:
  assumes ap: "ApplySnapshot nows s snap = (Inr u, s')" "unique_keys (sn_VV snap)" "sn_Domain snap = d"
    and b: "box_ok go d ow H s" and h: "hist_ok go d ow H"
    and msg: "set (map snap_reg (sn_Registers snap)) = graph_of m" "set (map snap_ctr (sn_Counters snap)) = graph_of c"
      "\<forall>a. vv_get (sn_VV snap) a \<le> ow a" "regs_hold go H (vv_get (sn_VV snap)) S' m" "ctrs_hold H (vv_get (sn_VV snap)) T' c"
  shows "box_ok go d ow H s'" "vv_of d s a \<le> vv_of d s' a"
proof -
  let ?v = "vv_get (sn_VV snap)"
  have st: "store_ok s" and go: "is_go s d = go" and act: "actor s \<noteq> []" and le: "\<And>a. vv_of d s a \<le> ow a" using b by (auto simp: box_ok_def)
  obtain S T where S: "regs_hold go H (vv_of d s) S (dreg d (tables s))" and T: "ctrs_hold H (vv_of d s) T (dctr d (tables s))"
    and L: "log_from d (S \<inter> T) s" using b by (auto simp: box_ok_def)
  note ef = ApplySnapshot_effect [OF ap(1) store_okD(1) [OF st] ap(2), unfolded ap(3)]
  have sub: "dlog d (tables s') (b, q) = Some r \<Longrightarrow> dlog d (tables s) (b, q) = Some r" for b q r
    using ef(3) [of b q] by (auto split: option.splits if_splits)
  have static: "actor s' = actor s" "growOnly s' = growOnly s" using ApplySnapshot_cases [OF ap(1)] by metis+
  let ?S = "S \<union> S'" and ?T = "T \<union> T'"
  have L': "log_from d (?S \<inter> ?T) s'" using L sub unfolding log_from_def by blast
  have vv: "max (vv_of d s c) (?v c) \<le> vv_of d s' c" "max (vv_of d s c) (?v c) < q \<Longrightarrow> q \<le> vv_of d s' c \<Longrightarrow> dlog d (tables s') (c, q) \<noteq> None" for c q
    using ef(4) [of c] contiguousEnd_ge [of "max (?v c) (vv_of d s c)" "tables s'" d c] contiguousEnd_rows [of "max (?v c) (vv_of d s c)" q "tables s'" d c]
    by (auto simp: vv_get_def max.commute split: option.splits)
  show "vv_of d s a \<le> vv_of d s' a" using vv(1) [of a] by simp
  have rows: "\<exists>op \<in> ?S \<inter> ?T. op_Actor op = c \<and> op_Seq op = q" if "max (vv_of d s c) (?v c) < q" "q \<le> vv_of d s' c" for c q
    using log_from_row [OF L' vv(2) [OF that]] by blast
  have j: "S \<subseteq> H" "S' \<subseteq> H" "T \<subseteq> H" "T' \<subseteq> H" using S T msg(4,5) by (auto simp: regs_hold_def ctrs_hold_def)
  have HU: "?S \<subseteq> H" "?T \<subseteq> H" using j by auto
  have mx: "covered H (\<lambda>c. max (vv_of d s c) (?v c)) = covered H (vv_of d s) \<union> covered H ?v" by (auto simp: covered_def)
  have old: "covered H (\<lambda>c. max (vv_of d s c) (?v c)) \<subseteq> ?S" "covered H (\<lambda>c. max (vv_of d s c) (?v c)) \<subseteq> ?T"
    unfolding mx using S T msg(4,5) by (auto simp: regs_hold_def ctrs_hold_def)
  have cS: "covered H (vv_of d s') \<subseteq> ?S" by (rule covered_by_rows [OF h HU(1) _ old(1)]) (use rows in blast)
  have cT: "covered H (vv_of d s') \<subseteq> ?T" by (rule covered_by_rows [OF h HU(2) _ old(2)]) (use rows in blast)
  have jr: "joins (reg_ok go) (reg_le go) (regE S) (dreg d (tables s))" "joins (reg_ok go) (reg_le go) (regE S') m"
    "joins (\<lambda>_. True) ctr_le (ctrE T) (dctr d (tables s))" "joins (\<lambda>_. True) ctr_le (ctrE T') c"
    using S T msg(4,5) by (auto simp: regs_hold_def ctrs_hold_def)
  have "\<forall>(k, r) \<in> set (map snap_reg (sn_Registers snap)). reg_ok go r" using reg.joins_ok [OF jr(2)] msg(1) by (auto simp: graph_of_def)
  note J = reg.joins_absorb [OF reg.joins_merge_map [OF jr(1) this, unfolded msg(1) graph_of_def] jr(2)]
    ctr.joins_absorb [OF ctr.joins_merge_map [OF jr(3), of "map snap_ctr (sn_Counters snap)", unfolded msg(2) graph_of_def] jr(4)]
  have un: "regE (S \<union> S') = regE S \<union> regE S'" "ctrE (T \<union> T') = ctrE T \<union> ctrE T'" by (auto simp: regE_def ctrE_def)
  have bd: "vv_of d s' c \<le> ow c" for c
  proof (cases "max (vv_of d s c) (?v c) < vv_of d s' c")
    case True
    have "?S \<inter> ?T \<subseteq> H" using HU by auto
    then show ?thesis using log_bound [OF h L' _ vv(2) [OF True order_refl]] by blast
  qed (use le [of c] msg(3) [rule_format, of c] in linarith)
  show "box_ok go d ow H s'"
  proof (rule box_okI)
    show "store_ok s'" by (rule ApplySnapshot_store_ok [OF st ap(1,2)])
    show "is_go s' d = go" "actor s' \<noteq> []" using go act static by (simp_all add: is_go_def)
    show "regs_hold go H (vv_of d s') ?S (dreg d (tables s'))" using cS HU(1) J(1) ef(1) go un(1) by (simp add: regs_hold_def)
    show "ctrs_hold H (vv_of d s') ?T (dctr d (tables s'))" using cT HU(2) J(2) ef(2) un(2) by (simp add: ctrs_hold_def)
  qed (rule bd, rule L')
qed

lemma receive_answer:
  assumes m: "Merge nows s (Some dl) = (Inr n, s')" "delta_target dl = d"
    and b: "box_ok go d ow H s" and h: "hist_ok go d ow H" and msg: "answer_ok go d ow H dl"
  shows "box_ok go d ow H s'" "vv_of d s a \<le> vv_of d s' a"
proof (atomize (full), cases "d_SnapshotRequired dl")
  case True
  from Merge_snapshot_cases [OF m(1) True] obtain snap where sn: "d_Snapshot dl = Some snap"
    "ApplySnapshot nows s snap = (Inr (), s')" by metis
  have u: "unique_keys (sn_VV snap)" "sn_Domain snap = d"
    using msg m(2) sn(1) True by (auto simp: answer_ok_def delta_wf_def delta_target_def)
  obtain mm c S T where mc: "set (map snap_reg (sn_Registers snap)) = graph_of mm" "set (map snap_ctr (sn_Counters snap)) = graph_of c"
      "\<forall>a. vv_get (sn_VV snap) a \<le> ow a" "regs_hold go H (vv_get (sn_VV snap)) S mm" "ctrs_hold H (vv_get (sn_VV snap)) T c"
    using msg m(2) sn(1) True unfolding answer_ok_def by auto
  show "box_ok go d ow H s' \<and> vv_of d s a \<le> vv_of d s' a"
    using receive_snapshot [OF sn(2) u b h mc] by simp
next
  case False
  then have d: "d_Domain dl = d" using m(2) by (simp add: delta_target_def)
  have "set (d_Ops dl) \<subseteq> H" using msg m(2) False by (simp add: answer_ok_def)
  from receive_ops [OF m(1) False d b h this] show "box_ok go d ow H s' \<and> vv_of d s a \<le> vv_of d s' a" by simp
qed

lemma cnet_ok_deliver:
  assumes ok: "cnet_ok go d N H w" and b: "b \<in> N" and m: "dl \<in> cn_wire w"
  shows "cnet_ok go d N H (putNode b (snd (Merge nows (cn_node w b) (Some dl))) w)"
proof (cases "fst (Merge nows (cn_node w b) (Some dl))")
  case (Inl er)
  then have "snd (Merge nows (cn_node w b) (Some dl)) = cn_node w b" using Merge_error by (metis prod.collapse)
  then show ?thesis using cnet_ok_same [OF ok b] by simp
next
  case (Inr n)
  let ?s' = "snd (Merge nows (cn_node w b) (Some dl))"
  have msg: "answer_ok go d (issued N d w) H dl" using ok m by (simp add: cnet_ok_def)
  have c: "Merge nows (cn_node w b) (Some dl) = (Inr n, ?s')" using Inr by (metis prod.collapse)
  have wf: "delta_wf dl" using msg by (simp add: answer_ok_def)
  note D = cnet_okD [OF ok b] and ef = Merge_effect [OF cnet_okD(1) [OF ok b] wf c]
  show ?thesis
  proof (cases "delta_target dl = d")
    case True
    note dm = receive_answer [OF c True D(4,5) msg]
    have "vv_of d ?s' b = issued N d w b"
    proof (rule antisym)
      show "vv_of d ?s' b \<le> issued N d w b" using dm(1) by (simp add: box_ok_def)
      show "issued N d w b \<le> vv_of d ?s' b" using dm(2) [of b] b by (simp add: issued_def)
    qed
    then have "(issued N d w)(b := vv_of d ?s' b) = issued N d w" by (metis fun_upd_triv)
    then show ?thesis using dm D(2,5) ef(8) by (intro cnet_ok_put [OF ok b]) simp_all
  next
    case False
    then show ?thesis using ef(4,6,8) D(2) Merge_store_ok [OF D(1) wf c]
      by (intro cnet_ok_outside [OF ok b, where e = "delta_target dl"]) auto
  qed
qed

subsection \<open>Queries\<close>

lemma opsAfter_in_log:
  assumes "keys_ok tx" "op \<in> set (opsAfter tx d a p lim)"
  shows "in_log d tx op"
proof -
  have u: "unique_keys (crdt_op tx)" using assms(1) by (simp add: keys_ok_def)
  have "op \<in> set (map (\<lambda>((d, a, q), r). op_of_row d a q r) (filter (\<lambda>((d', a', q), r). d' = d \<and> a' = a \<and> q > p) (crdt_op tx)))"
    using assms(2) set_take_subset unfolding opsAfter_def by fastforce
  then obtain q r where "((d, a, q), r) \<in> set (crdt_op tx)" "op = op_of_row d a q r" by auto
  then show ?thesis using map_of_mem [OF u, of "(d, a, q)" r] by (simp add: in_log_def dlog_def op_of_row_def)
qed

lemma logged_op:
  assumes h: "hist_ok go d ow H" and b: "box_ok go d ow H s" and op: "in_log d (tables s) op"
  shows "op \<in> H"
proof -
  obtain row where row: "dlog d (tables s) (op_Actor op, op_Seq op) = Some row" "op = op_of_row d (op_Actor op) (op_Seq op) row"
    using op by (auto simp: in_log_def)
  obtain op' where op': "op' \<in> H" "op_log op' = ((op_Actor op, op_Seq op), row)"
    using b row(1) unfolding box_ok_def regs_hold_def log_from_def by blast
  have "op_sound go d op'" using h op'(1) by (simp add: hist_ok_def)
  then have "op' = op_of_row d (op_Actor op) (op_Seq op) row"
    using op'(2) by (cases "op_Stamp op'") (auto simp: op_log_def op_of_row_def op_row_of_def op_sound_def)
  then show ?thesis using op'(1) row(2) by simp
qed

lemma opsAnswer_ok: "reading_ok go d ow H s e (opsAnswer e our acc t) \<longleftrightarrow> (e = d \<longrightarrow> set acc \<subseteq> H)"
  by (simp add: opsAnswer_def answer_ok_def delta_wf_def delta_target_def)

lemma covered_mono: "\<forall>c. v c \<le> v' c \<Longrightarrow> covered H v \<subseteq> covered H v'"
  unfolding covered_def using order_trans by blast

lemma deltaStep_ok:
  assumes h: "hist_ok go d ow H" and b: "box_ok go d ow H s" and r: "reading_ok go d ow H s e st"
  shows "reading_ok go d ow H s e (deltaStep now (tables s) e vv limit st)"
proof -
  have st: "store_ok s" and le: "\<And>a. vv_of d s a \<le> ow a" using b by (auto simp: box_ok_def)
  have k: "keys_ok (tables s)" "norm_rows (tables s)" using store_okD [OF st] by auto
  obtain S T where S: "regs_hold go H (vv_of d s) S (dreg d (tables s))" and T: "ctrs_hold H (vv_of d s) T (dctr d (tables s))"
    using b by (auto simp: box_ok_def)
  have ops: "set (opsAfter (tables s) d a p lim) \<subseteq> H" for a p lim using opsAfter_in_log [OF k(1)] logged_op [OF h b] by blast
  have tk: "set (take m (opsAfter (tables s) d a p lim)) \<subseteq> H" for m a p lim using ops set_take_subset by (meson order_trans)
  show ?thesis
  proof (cases st)
    case (ReadSnapVV our)
    then show ?thesis using unique_keys_VersionVector [OF k(1)] vv_get_VersionVector [OF k(1)] by simp
  next
    case (ReadSnapRegs our vv' t)
    have "regs_hold go H (vv_get vv') S (dreg d (tables s))" if "e = d"
      using S covered_mono [of "vv_get vv'" "vv_of d s" H] r ReadSnapRegs that by (auto simp: regs_hold_def)
    moreover have "set (map snap_reg (snapRegs (tables s) d)) = graph_of (dreg d (tables s))"
      using Snapshot_regs [OF k(2,1), of 0 d] by (simp add: Store_Snapshot_queries)
    ultimately show ?thesis using r ReadSnapRegs by auto
  next
    case (ReadSnapCtrs our vv' t regs)
    let ?dl = "\<lparr>d_Domain = e, d_SenderVV = our, d_Ops = [], d_SnapshotRequired = True,
       d_Snapshot = Some \<lparr>sn_Domain = e, sn_VV = vv', sn_Registers = regs, sn_Counters = snapCtrs (tables s) e,
         sn_TakenAtMS = t, sn_SchemaVers = SnapshotSchemaVersion\<rparr>, d_Truncated = False\<rparr>"
    have "answer_ok go d ow H ?dl"
    proof (cases "e = d")
      case True
      have v: "\<forall>c. vv_get vv' c \<le> vv_of d s c" "unique_keys vv'" using r ReadSnapCtrs True by auto
      obtain S' m where m: "set (map snap_reg regs) = graph_of m" "regs_hold go H (vv_get vv') S' m" using r ReadSnapCtrs True by auto
      have "ctrs_hold H (vv_get vv') T (dctr d (tables s))" using T covered_mono [OF v(1), of H] by (auto simp: ctrs_hold_def)
      moreover have "set (map snap_ctr (snapCtrs (tables s) d)) = graph_of (dctr d (tables s))"
        using Snapshot_ctrs [OF k(1), of 0 d] by (simp add: Store_Snapshot_queries)
      moreover have "\<forall>c. vv_get vv' c \<le> ow c" using v(1) le order_trans by blast
      ultimately show ?thesis using m v(2) True by (auto simp: answer_ok_def delta_wf_def)
    qed (use r ReadSnapCtrs in \<open>auto simp: answer_ok_def delta_wf_def delta_target_def\<close>)
    then show ?thesis using ReadSnapCtrs by simp
  next
    case (ReadOps our as acc)
    then show ?thesis using r ops tk by (cases as) (auto simp: opsAnswer_ok Let_def)
  qed (use r in \<open>simp_all add: Let_def\<close>)
qed

lemma cnet_ok_query:
  assumes ok: "cnet_ok go d N H w" and r: "(a, e, vv, limit, st) \<in> cn_reads w"
  shows "cnet_ok go d N H (w\<lparr>cn_reads := insert (a, e, vv, limit, deltaStep now (tables (cn_node w a)) e vv limit st) (cn_reads w)\<rparr>)"
proof -
  have a: "a \<in> N" "reading_ok go d (issued N d w) H (cn_node w a) e st" using ok r by (auto simp: cnet_ok_def)
  note D = cnet_okD [OF ok a(1)]
  have "reading_ok go d (issued N d w) H (cn_node w a) e (deltaStep now (tables (cn_node w a)) e vv limit st)" by (rule deltaStep_ok [OF D(5,4) a(2)])
  moreover have "issued N d (w\<lparr>cn_reads := rs\<rparr>) = issued N d w" for rs by (simp add: issued_def fun_eq_iff)
  ultimately show ?thesis using ok a(1) by (simp add: cnet_ok_def)
qed

lemma cnet_ok_ask:
  assumes "cnet_ok go d N H w" "a \<in> N"
  shows "cnet_ok go d N H (w\<lparr>cn_reads := insert (a, e, vv, limit, ReadVV) (cn_reads w)\<rparr>)"
proof -
  have "issued N d (w\<lparr>cn_reads := rs\<rparr>) = issued N d w" for rs by (simp add: issued_def fun_eq_iff)
  then show ?thesis using assms by (simp add: cnet_ok_def)
qed

lemma cnet_ok_send:
  assumes "cnet_ok go d N H w" "(a, e, vv, limit, Answer dl) \<in> cn_reads w"
  shows "cnet_ok go d N H (w\<lparr>cn_wire := insert dl (cn_wire w)\<rparr>)"
proof -
  have "issued N d (w\<lparr>cn_wire := rs\<rparr>) = issued N d w" for rs by (simp add: issued_def fun_eq_iff)
  moreover have "answer_ok go d (issued N d w) H dl" using assms by (auto simp: cnet_ok_def)
  ultimately show ?thesis using assms(1) by (simp add: cnet_ok_def)
qed

lemma cstep_ok: "cstep N w w' \<Longrightarrow> cnet_ok go d N H w \<Longrightarrow> \<exists>H'. cnet_ok go d N H' w'"
  by (induction rule: cstep.induct)
    (auto simp: Store_Set_def Store_Delete_def intro: cnet_ok_local cnet_ok_add cnet_ok_compact cnet_ok_deliver cnet_ok_send cnet_ok_ask cnet_ok_query)

lemma csteps_ok: "(cstep N)\<^sup>*\<^sup>* w w' \<Longrightarrow> \<exists>H. cnet_ok go d N H w \<Longrightarrow> \<exists>H'. cnet_ok go d N H' w'"
  by (induction rule: rtranclp_induct) (auto dest: cstep_ok)

lemma cnet_start_ok:
  assumes "cnet_start N domains w"
  shows "\<exists>go. cnet_ok go d N {} w"
proof -
  let ?go = "d \<in> set (filter IsGrowOnly (allowSet domains))"
  have "box_ok ?go d (issued N d w) {} (cn_node w a) \<and> actor (cn_node w a) = a" if a: "a \<in> N" for a
  proof -
    obtain now where o: "Open now empty_db a domains = Inr (cn_node w a)" using assms a by (auto simp: cnet_start_def)
    have t: "tables (cn_node w a) = empty_db" "actor (cn_node w a) = a" "a \<noteq> []" "growOnly (cn_node w a) = filter IsGrowOnly (allowSet domains)"
      using Open_fields [OF o] by auto
    have e: "dreg d empty_db = (\<lambda>_. None)" "dctr d empty_db = (\<lambda>_. None)" "dlog d empty_db = (\<lambda>_. None)" "metaFor empty_db d b = (0, 0)" for b
      by (auto simp: dreg_def dctr_def dlog_def metaFor_def empty_db_def)
    have "box_ok ?go d (issued N d w) {} (cn_node w a)"
      by (rule box_okI [where S = "{}" and T = "{}"]) (use Open_store_ok [OF o] t e in \<open>simp_all add: is_go_def regs_hold_def ctrs_hold_def log_from_def covered_def regE_def ctrE_def joins_empty\<close>)
    then show ?thesis using t(2) by simp
  qed
  moreover have "hist_ok ?go d (issued N d w) {}" by (simp add: hist_ok_def)
  ultimately show ?thesis using assms unfolding cnet_ok_def cnet_start_def by blast
qed

subsection \<open>Convergence\<close>

lemma complete_box:
  assumes ok: "cnet_ok go d N H w" and a: "a \<in> N" and full: "\<forall>c \<in> N. vv_of d (cn_node w a) c = vv_of d (cn_node w c) c"
  shows "joins (reg_ok go) (reg_le go) (regE H) (dreg d (tables (cn_node w a)))" "joins (\<lambda>_. True) ctr_le (ctrE H) (dctr d (tables (cn_node w a)))"
proof -
  note D = cnet_okD [OF ok a]
  have "op_Seq op \<le> vv_of d (cn_node w a) (op_Actor op)" if op: "op \<in> H" for op
  proof -
    have i: "op_Seq op \<le> issued N d w (op_Actor op)" "op_Seq op \<noteq> 0" using D(5) op by (auto simp: hist_ok_def op_sound_def)
    then have "op_Actor op \<in> N" by (auto simp: issued_def split: if_splits)
    then show ?thesis using i(1) full by (simp add: issued_def)
  qed
  then have "covered H (vv_of d (cn_node w a)) = H" by (auto simp: covered_def)
  then obtain S T where "H \<subseteq> S" "S \<subseteq> H" "joins (reg_ok go) (reg_le go) (regE S) (dreg d (tables (cn_node w a)))"
    "H \<subseteq> T" "T \<subseteq> H" "joins (\<lambda>_. True) ctr_le (ctrE T) (dctr d (tables (cn_node w a)))"
    using D(4) unfolding box_ok_def regs_hold_def ctrs_hold_def by auto
  moreover from this have "S = H" "T = H" by blast+
  ultimately show "joins (reg_ok go) (reg_le go) (regE H) (dreg d (tables (cn_node w a)))" "joins (\<lambda>_. True) ctr_le (ctrE H) (dctr d (tables (cn_node w a)))"
    by simp_all
qed

text \<open>
  Claim C1. Convergence: take any network of replicas opened on empty databases with the same
  domains, which write, delete, count and compact at any time, answer one another query by
  query while doing so, and receive answers late, again, in any order or never. Two replicas
  whose version vectors have reached, for every box, the number of operations that box has itself issued in
  a domain return the same registers and the same counters of it.
\<close>

theorem replicas_converge:
  assumes "cnet_start N domains w0" "(cstep N)\<^sup>*\<^sup>* w0 w" "a \<in> N" "b \<in> N"
    and "\<And>c. c \<in> N \<Longrightarrow> vv_get (VersionVector (tables (cn_node w a)) d) c = vv_get (VersionVector (tables (cn_node w c)) d) c"
    and "\<And>c. c \<in> N \<Longrightarrow> vv_get (VersionVector (tables (cn_node w b)) d) c = vv_get (VersionVector (tables (cn_node w c)) d) c"
  shows "Get (cn_node w a) d k f = Get (cn_node w b) d k f \<and> Counter (cn_node w a) d k f = Counter (cn_node w b) d k f"
proof -
  obtain go H where ok: "cnet_ok go d N H w" using cnet_start_ok [OF assms(1), of d] csteps_ok [OF assms(2)] by metis
  have k: "keys_ok (tables (cn_node w c))" if "c \<in> N" for c using store_okD(2) cnet_okD(1) [OF ok that] .
  have full: "\<forall>c \<in> N. vv_of d (cn_node w a) c = vv_of d (cn_node w c) c" "\<forall>c \<in> N. vv_of d (cn_node w b) c = vv_of d (cn_node w c) c"
    using assms(5,6) vv_get_VersionVector [OF k] assms(3,4) by simp_all
  note A = complete_box [OF ok assms(3) full(1)] and B = complete_box [OF ok assms(4) full(2)]
  have e: "dreg d (tables (cn_node w a)) = dreg d (tables (cn_node w b))" "dctr d (tables (cn_node w a)) = dctr d (tables (cn_node w b))"
    using reg.joins_unique [OF A(1) B(1)] ctr.joins_unique [OF A(2) B(2)] by simp_all
  show ?thesis using e(1) Counter_cong [OF k [OF assms(3)] k [OF assms(4)] e(2)] by (simp add: Get_dreg)
qed

subsection \<open>A write between two queries\<close>

text \<open>Several queries in a row, with nothing in between.\<close>

lemma cqueries:
  assumes "(a, d, vv, limit, st) \<in> cn_reads w"
  obtains w' where "(cstep N)\<^sup>*\<^sup>* w w'" "cn_node w' = cn_node w"
    "(a, d, vv, limit, deltaSteps n now (tables (cn_node w a)) d vv limit st) \<in> cn_reads w'"
  using assms
proof (induction n arbitrary: w st thesis)
  case (Suc n)
  let ?st = "deltaStep now (tables (cn_node w a)) d vv limit st"
  let ?w = "w\<lparr>cn_reads := insert (a, d, vv, limit, ?st) (cn_reads w)\<rparr>"
  have q: "cstep N w ?w" by (rule cstep.cquery [OF Suc.prems(2)])
  obtain w' where w': "(cstep N)\<^sup>*\<^sup>* ?w w'" "cn_node w' = cn_node ?w" "(a, d, vv, limit, deltaSteps n now (tables (cn_node ?w a)) d vv limit ?st) \<in> cn_reads w'"
    by (rule Suc.IH [of ?w ?st]) auto
  have "(cstep N)\<^sup>*\<^sup>* w w'" using q w'(1) by (rule converse_rtranclp_into_rtranclp)
  then show thesis by (rule Suc.prems(1)) (use w'(2,3) in simp_all)
qed auto

text \<open>
  Box \<open>''A''\<close> writes, starts to answer, and counts after its version vector is read; its answer carries both
  operations, and \<open>''B''\<close>, having merged it, has all that was issued.
\<close>

definition exC0 :: CNet where
  "exC0 = \<lparr>cn_node = (\<lambda>a. if a = ''A'' then exA else exB), cn_wire = {}, cn_reads = {}\<rparr>"

definition exFirst :: Store where
  "exFirst = snd (Store_Set 5 exA ''d'' ''k'' ''f'' ''v'')"

definition exLate :: Delta where
  "exLate = (case deltaSteps 3 7 (tables exWrote) ''d'' [] 0 (deltaStep 6 (tables exFirst) ''d'' [] 0 ReadVV) of Answer dl \<Rightarrow> dl | _ \<Rightarrow> exDelta [])"

definition exMergedB :: Store where
  "exMergedB = snd (Merge (\<lambda>_. 8) exB (Some exLate))"

lemma exLate_answer: "deltaSteps 3 7 (tables exWrote) ''d'' [] 0 (deltaStep 6 (tables exFirst) ''d'' [] 0 ReadVV) = Answer exLate"
  by code_simp

lemma exC_reachable:
  obtains w where "(cstep {''A'', ''B''})\<^sup>*\<^sup>* exC0 w" "cn_node w = (\<lambda>a. if a = ''A'' then exWrote else if a = ''B'' then exMergedB else exB)"
proof -
  let ?N = "{''A'', ''B''}"
  let ?w1 = "putNode ''A'' exFirst exC0"
  let ?w2 = "?w1\<lparr>cn_reads := insert (''A'', ''d'', [], 0, ReadVV) (cn_reads ?w1)\<rparr>"
  let ?st = "deltaStep 6 (tables exFirst) ''d'' [] 0 ReadVV"
  let ?w3 = "?w2\<lparr>cn_reads := insert (''A'', ''d'', [], 0, ?st) (cn_reads ?w2)\<rparr>"
  let ?w4 = "putNode ''A'' exWrote ?w3"
  have n: "cn_node exC0 ''A'' = exA" "cn_node exC0 ''B'' = exB" by (simp_all add: exC0_def)
  have d: "checkDomain exFirst ''d'' = None" by code_simp
  have "cstep ?N exC0 ?w1" using cstep.cset [of "''A''" ?N exC0 5 "''d''" "''k''" "''f''" "''v''"] n by (simp add: exFirst_def)
  moreover have "cstep ?N ?w1 ?w2" by (rule cstep.cask) (simp_all add: d)
  moreover have "cstep ?N ?w2 ?w3" using cstep.cquery [of "''A''" "''d''" "[]" 0 ReadVV ?w2 ?N 6] by simp
  moreover have "cstep ?N ?w3 ?w4" using cstep.cadd [of "''A''" ?N ?w3 6 "''d''" "''n''" "''c''" 3] by (simp add: exWrote_def exFirst_def)
  ultimately have r4: "(cstep ?N)\<^sup>*\<^sup>* exC0 ?w4" by auto
  obtain w5 where w5: "(cstep ?N)\<^sup>*\<^sup>* ?w4 w5" "cn_node w5 = cn_node ?w4" "(''A'', ''d'', [], 0, deltaSteps 3 7 (tables (cn_node ?w4 ''A'')) ''d'' [] 0 ?st) \<in> cn_reads w5"
    by (rule cqueries [of "''A''" "''d''" "[]" 0 ?st ?w4 ?N 3 7]) auto
  have "(''A'', ''d'', [], 0, Answer exLate) \<in> cn_reads w5" using w5(3) exLate_answer by simp
  let ?w6 = "w5\<lparr>cn_wire := insert exLate (cn_wire w5)\<rparr>"
  have "cstep ?N w5 ?w6" by (rule cstep.csend) fact
  moreover have "cstep ?N ?w6 (putNode ''B'' exMergedB ?w6)"
    using cstep.cdeliver [of "''B''" ?N exLate ?w6 "\<lambda>_. 8"] w5(2) n(2) by (simp add: exMergedB_def)
  ultimately have "(cstep ?N)\<^sup>*\<^sup>* exC0 (putNode ''B'' exMergedB ?w6)" using r4 w5(1) by (meson rtranclp.rtrancl_into_rtrancl rtranclp_trans)
  then show thesis by (rule that) (auto simp: w5(2) exC0_def fun_eq_iff)
qed

theorem replicas_converge_witness:
  "\<exists>w. (cstep {''A'', ''B''})\<^sup>*\<^sup>* exC0 w \<and> Get (cn_node w ''A'') ''d'' ''k'' ''f'' = Get (cn_node w ''B'') ''d'' ''k'' ''f'' \<and>
     Get (cn_node w ''B'') ''d'' ''k'' ''f'' = Some ''v'' \<and> Counter (cn_node w ''B'') ''d'' ''n'' ''c'' = 3"
proof -
  obtain w where r: "(cstep {''A'', ''B''})\<^sup>*\<^sup>* exC0 w" and n: "cn_node w = (\<lambda>a. if a = ''A'' then exWrote else if a = ''B'' then exMergedB else exB)"
    by (rule exC_reachable)
  have st: "cnet_start {''A'', ''B''} [''d''] exC0" using exNet_start by (auto simp: cnet_start_def net_start_def exC0_def exNet_def)
  have v: "VersionVector (tables exWrote) ''d'' = [(''A'', 2)]" "VersionVector (tables exMergedB) ''d'' = [(''A'', 2)]"
    "Get exMergedB ''d'' ''k'' ''f'' = Some ''v''" "Counter exMergedB ''d'' ''n'' ''c'' = 3" by code_simp+
  have p: "vv_get (VersionVector (tables (cn_node w ''A'')) ''d'') c = vv_get (VersionVector (tables (cn_node w c)) ''d'') c"
    "vv_get (VersionVector (tables (cn_node w ''B'')) ''d'') c = vv_get (VersionVector (tables (cn_node w c)) ''d'') c" if "c \<in> {''A'', ''B''}" for c
    using that v(1,2) by (auto simp: n)
  have "Get (cn_node w ''A'') ''d'' ''k'' ''f'' = Get (cn_node w ''B'') ''d'' ''k'' ''f''"
    using replicas_converge [OF st r _ _ p] by simp
  then show ?thesis using r v(3,4) by (auto simp: n)
qed

end
