(* ===== verification/Crdt_Width.thy ===== *)
theory Crdt_Width
  imports Crdt_Delta
begin

text \<open>
  The width of sequence numbers. In \<open>store.go\<close> a sequence number and a floor are \<open>uint64\<close>,
  and the columns of \<open>crdt_op\<close> and \<open>crdt_meta\<close> are signed 64 bit integers: every
  statement casts with \<open>int64\<close>, and \<open>VersionVector\<close> selects the rows with \<open>seq > 0\<close>. A number of
  \<open>2 ^ 63\<close> or more is stored negative, so the natural numbers of the model are exact as
  long as none is stored. This holds when no peer sends such a number and no box has issued
  \<open>2 ^ 63\<close> operations in one domain.
\<close>

definition fits :: "nat \<Rightarrow> bool" where
  "fits n \<longleftrightarrow> n < 2 ^ 63"

definition rows_fit :: "db \<Rightarrow> bool" where
  "rows_fit tx \<longleftrightarrow> (\<forall>((d, a), (q, fl)) \<in> set (crdt_meta tx). fits q \<and> fits fl) \<and> (\<forall>((d, a, q), r) \<in> set (crdt_op tx). fits q)"

definition vv_fits :: "VersionVector \<Rightarrow> bool" where
  "vv_fits vv \<longleftrightarrow> (\<forall>(a, q) \<in> set vv. fits q)"

definition delta_fits :: "Delta \<Rightarrow> bool" where
  "delta_fits dl \<longleftrightarrow> (\<forall>op \<in> set (d_Ops dl). fits (op_Seq op)) \<and> (case d_Snapshot dl of None \<Rightarrow> True | Some snap \<Rightarrow> vv_fits (sn_VV snap))"

definition own_room :: "Store \<Rightarrow> string \<Rightarrow> bool" where
  "own_room s d \<longleftrightarrow> fits (fst (metaFor (tables s) d (actor s)) + 1)"

text \<open>The steps of a replica that store no number of \<open>2 ^ 63\<close> or more.\<close>

inductive wstep :: "Store \<Rightarrow> Store \<Rightarrow> bool" where
  set: "own_room s d \<Longrightarrow> wstep s (snd (Store_Set now s d k f v))"
| delete: "own_room s d \<Longrightarrow> wstep s (snd (Store_Delete now s d k f))"
| add: "own_room s d \<Longrightarrow> wstep s (snd (Store_Add now s d k f x))"
| merge: "delta_wf dl \<Longrightarrow> delta_fits dl \<Longrightarrow> wstep s (snd (Merge nows s (Some dl)))"
| snapshot: "unique_keys (sn_VV snap) \<Longrightarrow> vv_fits (sn_VV snap) \<Longrightarrow> wstep s (snd (ApplySnapshot nows s snap))"
| compact: "wstep s (snd (Compact s d keep))"

lemma wstep_rstep: "wstep s s' \<Longrightarrow> rstep s s'"
  by (induction rule: wstep.induct) (auto intro: rstep.intros)

lemma wsteps_rsteps: "wstep\<^sup>*\<^sup>* s s' \<Longrightarrow> rstep\<^sup>*\<^sup>* s s'"
  by (induction rule: rtranclp_induct) (auto dest: wstep_rstep)

subsection \<open>Statements on the tables\<close>

lemma fits_0 [simp]: "fits 0"
  by (simp add: fits_def)

lemma fits_mono: "fits n \<Longrightarrow> m \<le> n \<Longrightarrow> fits m"
  by (simp add: fits_def)

lemma metaFor_fits: "rows_fit tx \<Longrightarrow> metaFor tx d a = (q, fl) \<Longrightarrow> fits q \<and> fits fl"
  by (auto simp: rows_fit_def metaFor_def split: option.splits dest!: map_of_SomeD)

lemma upsert_subset: "set (upsert k v t) \<subseteq> insert (k, v) (set t)"
  unfolding upsert_def by (induction t) (auto split: if_splits)

lemma rows_fit_putMeta: "rows_fit tx \<Longrightarrow> fits q \<Longrightarrow> fits fl \<Longrightarrow> rows_fit (putMeta tx d a q fl)"
  using upsert_subset [of "(d, a)" "(q, fl)" "crdt_meta tx"] by (fastforce simp: rows_fit_def putMeta_def)

lemma rows_fit_setSeq: "rows_fit tx \<Longrightarrow> fits q \<Longrightarrow> rows_fit (setSeq tx d a q)"
  by (auto simp: setSeq_def intro: rows_fit_putMeta dest: metaFor_fits split: prod.splits)

lemma rows_fit_log:
  assumes "rows_fit tx" "fits (op_Seq op)" "op_Domain op = d" "op_Actor op = a" "op_Seq op = q"
  shows "rows_fit (tx\<lparr>crdt_op := upsert (d, a, q) (op_row_of op) (crdt_op tx)\<rparr>)"
  using assms upsert_subset [of "(d, a, q)" "op_row_of op" "crdt_op tx"] by (fastforce simp: rows_fit_def)

lemma rows_fit_insertOp: "rows_fit tx \<Longrightarrow> fits (op_Seq op) \<Longrightarrow> insertOp tx op = Inr tx' \<Longrightarrow> rows_fit tx'"
  by (auto simp: insertOp_def Let_def intro: rows_fit_log split: if_splits)

lemma rows_fit_insertOpIfNew: "rows_fit tx \<Longrightarrow> fits (op_Seq op) \<Longrightarrow> rows_fit (fst (insertOpIfNew tx op))"
  by (auto simp: insertOpIfNew_def Let_def intro: rows_fit_log)

lemma rows_fit_contiguousEnd: "rows_fit tx \<Longrightarrow> fits n \<Longrightarrow> fits (contiguousEnd tx d a n)"
proof (induction tx d a n rule: contiguousEnd.induct)
  case (1 tx d a n)
  show ?case
  proof (cases "map_of (crdt_op tx) (d, a, n + 1)")
    case (Some r)
    then have "fits (n + 1)" using 1(2) by (auto simp: rows_fit_def dest!: map_of_SomeD)
    then show ?thesis using 1 Some by (subst contiguousEnd.simps) simp
  qed (use 1(3) in \<open>subst contiguousEnd.simps, simp\<close>)
qed

lemma rows_fit_advanceContiguous: "rows_fit tx \<Longrightarrow> rows_fit (advanceContiguous tx d a)"
  by (auto simp: advanceContiguous_def Let_def intro: rows_fit_putMeta rows_fit_contiguousEnd dest: metaFor_fits split: prod.splits)

lemma rows_fit_same: "rows_fit tx \<Longrightarrow> crdt_meta tx' = crdt_meta tx \<Longrightarrow> crdt_op tx' = crdt_op tx \<Longrightarrow> rows_fit tx'"
  by (simp add: rows_fit_def)

lemma rows_fit_mergeRegister: "rows_fit tx \<Longrightarrow> rows_fit (mergeRegister s tx d k f v del st)"
  by (erule rows_fit_same) (simp_all add: mergeRegister_def Let_def split: option.splits)

lemma rows_fit_mergeCounter: "rows_fit tx \<Longrightarrow> rows_fit (mergeCounter tx d k f a p n)"
  by (erule rows_fit_same) (simp_all add: mergeCounter_def)

lemma rows_fit_applyToState: "rows_fit tx \<Longrightarrow> applyToState s tx op = Inr tx' \<Longrightarrow> rows_fit tx'"
  by (auto simp: applyToState_def intro: rows_fit_mergeRegister rows_fit_mergeCounter split: OpKind.splits)

lemma rows_fit_delete: "rows_fit tx \<Longrightarrow> rows_fit (tx\<lparr>crdt_op := delete_where P (crdt_op tx)\<rparr>)"
  by (auto simp: rows_fit_def delete_where_def)

lemma rows_fit_fold: "rows_fit tx \<Longrightarrow> (\<And>x tx. x \<in> set xs \<Longrightarrow> rows_fit tx \<Longrightarrow> rows_fit (f x tx)) \<Longrightarrow> rows_fit (fold f xs tx)"
  by (induction xs arbitrary: tx) auto

subsection \<open>Steps\<close>

lemma rows_fit_appendLocal:
  assumes "rows_fit tx" "fits (fst (metaFor tx (op_Domain op) (actor s)) + 1)" "appendLocal s tx op = Inr tx'"
  shows "rows_fit tx'"
proof -
  let ?op = "op\<lparr>op_Seq := fst (metaFor tx (op_Domain op) (actor s)) + 1\<rparr>"
  obtain tx1 tx2 where t: "insertOp tx ?op = Inr tx1" "applyToState s tx1 ?op = Inr tx2" "tx' = setSeq tx2 (op_Domain op) (actor s) (op_Seq ?op)"
    using assms(3) by (auto simp: appendLocal_def Let_def)
  have "rows_fit tx2" using rows_fit_applyToState [OF rows_fit_insertOp [OF assms(1) _ t(1)] t(2)] assms(2) by simp
  then show ?thesis using rows_fit_setSeq [of tx2 "op_Seq ?op"] assms(2) t(3) by simp
qed

lemma rows_fit_local:
  assumes "rows_fit (tables s)" "own_room s d"
  shows "rows_fit (tables (snd (local now s d k f kind v)))" "rows_fit (tables (snd (Store_Add now s d k f x)))"
proof -
  have "rows_fit tx" if "appendLocal s (tables s) (mkOp s d k f kd u st) = Inr tx" for kd u st tx
    using rows_fit_appendLocal [OF assms(1) _ that] assms(2) by (simp add: own_room_def mkOp_def)
  then show "rows_fit (tables (snd (local now s d k f kind v)))" "rows_fit (tables (snd (Store_Add now s d k f x)))"
    using assms(1) by (auto simp: local_def Store_Add_def inTx_def bindE_def Let_def split: option.splits prod.splits sum.splits)
qed

lemma rows_fit_foldE:
  "foldE (mergeOp s d) ops (n, tx) = Inr (m, tx') \<Longrightarrow> rows_fit tx \<Longrightarrow> \<forall>op \<in> set ops. fits (op_Seq op) \<Longrightarrow> rows_fit tx'"
proof (induction ops arbitrary: n tx)
  case (Cons op ops)
  obtain n1 tx1 where st: "mergeOp s d op (n, tx) = Inr (n1, tx1)" "foldE (mergeOp s d) ops (n1, tx1) = Inr (m, tx')"
    using Cons.prems(1) by auto
  have "rows_fit tx1"
    using st(1) Cons.prems(2,3) rows_fit_insertOpIfNew [of tx "if op_Domain op = [] then op\<lparr>op_Domain := d\<rparr> else op"]
    by (auto simp: mergeOp_def Let_def intro: rows_fit_applyToState split: prod.splits if_splits)
  then show ?case using Cons.IH [OF st(2)] Cons.prems(3) by simp
qed simp

lemma rows_fit_applySnapshotVV:
  assumes "rows_fit tx" "fits (snd e)"
  shows "rows_fit (applySnapshotVV d e tx)"
proof -
  obtain cur fl where m: "metaFor tx d (fst e) = (cur, fl)" by fastforce
  let ?fl = "if snd e > fl then snd e else fl"
  let ?tx = "putMeta tx d (fst e) (if snd e > cur then snd e else cur) ?fl"
  have "rows_fit ?tx" using assms metaFor_fits [OF assms(1) m] by (simp add: rows_fit_putMeta)
  moreover have "applySnapshotVV d e tx =
      advanceContiguous (?tx\<lparr>crdt_op := delete_where (\<lambda>(d', a, q). d' = d \<and> a = fst e \<and> q \<le> ?fl) (crdt_op ?tx)\<rparr>) d (fst e)"
    using m by (cases e) (simp add: applySnapshotVV_def Let_def)
  ultimately show ?thesis using rows_fit_advanceContiguous [OF rows_fit_delete] by metis
qed

lemma rows_fit_ApplySnapshot:
  assumes "rows_fit (tables s)" "vv_fits (sn_VV snap)"
  shows "rows_fit (tables (snd (ApplySnapshot nows s snap)))"
proof -
  have "rows_fit (fold (applySnapshotVV (sn_Domain snap)) (sn_VV snap) (fold (applySnapshotCtr (sn_Domain snap)) (sn_Counters snap)
      (fold (applySnapshotReg s (sn_Domain snap)) (sn_Registers snap) (tables s))))"
    using assms by (intro rows_fit_fold)
      (fastforce simp: vv_fits_def applySnapshotCtr_def applySnapshotReg_def intro: rows_fit_applySnapshotVV rows_fit_mergeCounter rows_fit_mergeRegister)+
  then show ?thesis using assms(1) by (auto simp: ApplySnapshot_def inTx_def Let_def split: option.splits)
qed

lemma rows_fit_Merge:
  assumes "rows_fit (tables s)" "delta_fits dl"
  shows "rows_fit (tables (snd (Merge nows s (Some dl))))"
proof (cases "d_SnapshotRequired dl")
  case True
  have "rows_fit (tables s1)" if "d_Snapshot dl = Some snap" "ApplySnapshot nows s snap = (r, s1)" for snap r s1
    using rows_fit_ApplySnapshot [OF assms(1), of snap nows] assms(2) that by (simp add: delta_fits_def)
  then show ?thesis using True assms(1) by (auto simp: Merge_def split: option.splits prod.splits sum.splits)
next
  case False
  have "rows_fit (fold (\<lambda>a tx. advanceContiguous tx e a) as tx')" if "foldE (mergeOp s e) (d_Ops dl) (0, tables s) = Inr (m, tx')" for e as m tx'
    using rows_fit_foldE [OF that assms(1)] assms(2) by (intro rows_fit_fold rows_fit_advanceContiguous) (auto simp: delta_fits_def)
  then show ?thesis using False assms(1) by (auto simp: Merge_def inTx_def bindE_def split: option.splits prod.splits sum.splits)
qed

lemma rows_fit_compactActor:
  assumes "rows_fit tx" "fits q" "0 \<le> keep"
  shows "rows_fit (snd (compactActor d keep (a, q, fl) (n, tx)))"
proof -
  have "fits (nat (int q - keep))" using assms(2,3) by (simp add: fits_def nat_less_iff)
  then show ?thesis using assms by (auto simp: compactActor_def Let_def intro!: rows_fit_putMeta rows_fit_delete)
qed

lemma rows_fit_compactActors:
  "rows_fit tx \<Longrightarrow> 0 \<le> keep \<Longrightarrow> \<forall>(a, q, fl) \<in> set ms. fits q \<Longrightarrow> rows_fit (snd (fold (compactActor d keep) ms (n, tx)))"
proof (induction ms arbitrary: n tx)
  case (Cons x ms)
  obtain a q fl where x: "x = (a, q, fl)" by (cases x)
  obtain n1 tx1 where c: "compactActor d keep x (n, tx) = (n1, tx1)" by fastforce
  have "rows_fit tx1" using rows_fit_compactActor [OF Cons.prems(1), of q keep d a fl n] Cons.prems c x by simp
  then show ?case using Cons c by simp
qed simp

lemma rows_fit_Compact:
  assumes "rows_fit (tables s)"
  shows "rows_fit (tables (snd (Compact s d keep)))"
proof -
  let ?ms = "map (\<lambda>((d, a), (q, fl)). (a, q, fl)) (filter (\<lambda>((d', a), _). d' = d) (crdt_meta (tables s)))"
  have "\<forall>(a, q, fl) \<in> set ?ms. fits q" using assms by (fastforce simp: rows_fit_def)
  then show ?thesis using rows_fit_compactActors [OF assms, of keep ?ms d 0] assms by (auto simp: Compact_def inTx_def split: prod.splits)
qed

lemma wstep_rows_fit: "wstep s s' \<Longrightarrow> rows_fit (tables s) \<Longrightarrow> rows_fit (tables s')"
  by (induction rule: wstep.induct)
    (auto simp: Store_Set_def Store_Delete_def intro: rows_fit_local rows_fit_Merge rows_fit_ApplySnapshot rows_fit_Compact)

lemma wsteps_rows_fit: "wstep\<^sup>*\<^sup>* s s' \<Longrightarrow> rows_fit (tables s) \<Longrightarrow> rows_fit (tables s')"
  by (induction rule: rtranclp_induct) (auto intro: wstep_rows_fit)

subsection \<open>The log\<close>



end
