(* ===== verification/Lease.thy ===== *)
theory Lease
  imports Go_Text
begin

text \<open>
  The bucket-backed lease with fencing tokens (\<open>backend/services/lease/lease.go\<close>). The
  object store is a map from keys to bodies; \<open>tag\<close>, an argument of every definition that
  touches the store, is the store's ETag of a body, and the theorems assume of it only what
  an ETag is for: different bodies have different tags. Each method is split where the
  code talks to the store: a GET, a computation on the document it read, and a conditional
  PUT, so that other clients can act in between. A PUT may also fail in transport, before or
  after the store applied it.
\<close>

subsection \<open>Documents, errors, the store\<close>

datatype leaseState = stateFree | stateHeld | otherState string

record leaseDoc =
  State :: leaseState
  Holder :: string
  Fence :: int
  ExpiresAt :: int

text \<open>The stored bytes: the JSON form of a document, or bytes \<open>json.Unmarshal\<close> refuses.\<close>

datatype body = Marshal leaseDoc | Junk string

datatype lease_error = ErrLost | ErrNotHolder | ErrStaleFence | ErrLeaseMissing | ErrUnmarshal | ErrTransport

type_synonym bucket = "string \<rightharpoonup> body"

record Held =
  h_Scope :: string
  h_HolderID :: string
  h_Fence :: int
  h_etag :: string

definition zeroTime :: int where
  "zeroTime = - 62135596800000000000"

definition Unmarshal :: "body \<Rightarrow> lease_error + leaseDoc" where
  "Unmarshal b = (case b of Marshal d \<Rightarrow> Inr d | Junk _ \<Rightarrow> Inl ErrUnmarshal)"

text \<open>How a request to the store ends.\<close>

datatype transport = Answered | LostBefore | LostAfter

definition getWithETag :: "(body \<Rightarrow> string) \<Rightarrow> transport \<Rightarrow> bucket \<Rightarrow> string \<Rightarrow> lease_error + (body \<times> string)" where
  "getWithETag tag tr b key =
     (if tr \<noteq> Answered then Inl ErrTransport
      else case b key of None \<Rightarrow> Inl ErrLeaseMissing | Some x \<Rightarrow> Inr (x, tag x))"

definition putIfMatch ::
  "(body \<Rightarrow> string) \<Rightarrow> transport \<Rightarrow> bucket \<Rightarrow> string \<Rightarrow> body \<Rightarrow> string \<Rightarrow> (lease_error + string) \<times> bucket" where
  "putIfMatch tag tr b key x matchETag =
     (if tr = LostBefore then (Inl ErrTransport, b)
      else case b key of
        None \<Rightarrow> (Inl ErrTransport, b)
      | Some cur \<Rightarrow>
          if tag cur \<noteq> matchETag then (Inl (if tr = Answered then ErrLost else ErrTransport), b)
          else (if tr = Answered then Inr (tag x) else Inl ErrTransport, b(key \<mapsto> x)))"

definition putUnconditional :: "transport \<Rightarrow> bucket \<Rightarrow> string \<Rightarrow> body \<Rightarrow> lease_error option \<times> bucket" where
  "putUnconditional tr b key x =
     (if tr = LostBefore then (Some ErrTransport, b)
      else (if tr = Answered then None else Some ErrTransport, b(key \<mapsto> x)))"

definition objectKey :: "string \<Rightarrow> string" where
  "objectKey scope = ''leases/'' @ scope @ ''.json''"

subsection \<open>What each method does with the document it read\<close>

definition Acquire_doc :: "int \<Rightarrow> string \<Rightarrow> int \<Rightarrow> leaseDoc \<Rightarrow> lease_error + leaseDoc" where
  "Acquire_doc now holderID ttl doc =
     (if State doc = stateHeld \<and> Holder doc \<noteq> holderID \<and> now < ExpiresAt doc then Inl ErrNotHolder
      else Inr \<lparr>State = stateHeld, Holder = holderID, Fence = wrap64 (Fence doc + 1), ExpiresAt = now + ttl\<rparr>)"

definition Renew_doc :: "int \<Rightarrow> Held \<Rightarrow> int \<Rightarrow> leaseDoc \<Rightarrow> lease_error + leaseDoc" where
  "Renew_doc now held ttl doc =
     (if State doc \<noteq> stateHeld \<or> Holder doc \<noteq> h_HolderID held \<or> Fence doc \<noteq> h_Fence held then Inl ErrNotHolder
      else Inr \<lparr>State = stateHeld, Holder = h_HolderID held, Fence = wrap64 (Fence doc + 1), ExpiresAt = now + ttl\<rparr>)"

definition Release_doc :: "Held \<Rightarrow> leaseDoc \<Rightarrow> lease_error + leaseDoc" where
  "Release_doc held doc =
     (if State doc \<noteq> stateHeld \<or> Holder doc \<noteq> h_HolderID held \<or> Fence doc \<noteq> h_Fence held then Inl ErrNotHolder
      else Inr \<lparr>State = stateFree, Holder = [], Fence = Fence doc, ExpiresAt = zeroTime\<rparr>)"

definition initDoc :: leaseDoc where
  "initDoc = \<lparr>State = stateFree, Holder = [], Fence = 0, ExpiresAt = zeroTime\<rparr>"

definition ValidateFence :: "int \<Rightarrow> int \<Rightarrow> lease_error option" where
  "ValidateFence incoming lastSeen = (if incoming < lastSeen then Some ErrStaleFence else None)"

subsection \<open>The methods\<close>

text \<open>
  \<open>b\<close> is the store when the method reads, \<open>b'\<close> the store when it writes. The result
  is the caller's answer and the store afterwards; a method that stops before its PUT
  leaves the store as it finds it.
\<close>

definition readDoc :: "(body \<Rightarrow> string) \<Rightarrow> transport \<Rightarrow> bucket \<Rightarrow> string \<Rightarrow> lease_error + (leaseDoc \<times> string)" where
  "readDoc tag tr b key =
     (case getWithETag tag tr b key of
        Inl e \<Rightarrow> Inl e
      | Inr (x, etag) \<Rightarrow> (case Unmarshal x of Inl e \<Rightarrow> Inl e | Inr doc \<Rightarrow> Inr (doc, etag)))"

definition Acquire ::
  "(body \<Rightarrow> string) \<Rightarrow> transport \<times> transport \<Rightarrow> int \<Rightarrow> string \<Rightarrow> string \<Rightarrow> int \<Rightarrow> bucket \<Rightarrow> bucket \<Rightarrow>
   (lease_error + Held) \<times> bucket" where
  "Acquire tag tr now scope holderID ttl b b' =
     (case readDoc tag (fst tr) b (objectKey scope) of
        Inl e \<Rightarrow> (Inl e, b')
      | Inr (doc, etag) \<Rightarrow>
          (case Acquire_doc now holderID ttl doc of
             Inl e \<Rightarrow> (Inl e, b')
           | Inr newDoc \<Rightarrow>
               (case putIfMatch tag (snd tr) b' (objectKey scope) (Marshal newDoc) etag of
                  (Inl e, b'') \<Rightarrow> (Inl e, b'')
                | (Inr newETag, b'') \<Rightarrow>
                    (Inr \<lparr>h_Scope = scope, h_HolderID = holderID, h_Fence = Fence newDoc, h_etag = newETag\<rparr>, b''))))"

definition Renew ::
  "(body \<Rightarrow> string) \<Rightarrow> transport \<times> transport \<Rightarrow> int \<Rightarrow> Held \<Rightarrow> int \<Rightarrow> bucket \<Rightarrow> bucket \<Rightarrow>
   (lease_error + Held) \<times> bucket" where
  "Renew tag tr now held ttl b b' =
     (case readDoc tag (fst tr) b (objectKey (h_Scope held)) of
        Inl e \<Rightarrow> (Inl e, b')
      | Inr (doc, etag) \<Rightarrow>
          (case Renew_doc now held ttl doc of
             Inl e \<Rightarrow> (Inl e, b')
           | Inr newDoc \<Rightarrow>
               (case putIfMatch tag (snd tr) b' (objectKey (h_Scope held)) (Marshal newDoc) etag of
                  (Inl e, b'') \<Rightarrow> (Inl e, b'')
                | (Inr newETag, b'') \<Rightarrow> (Inr (held\<lparr>h_Fence := Fence newDoc, h_etag := newETag\<rparr>), b''))))"

definition Release ::
  "(body \<Rightarrow> string) \<Rightarrow> transport \<times> transport \<Rightarrow> Held \<Rightarrow> bucket \<Rightarrow> bucket \<Rightarrow> lease_error option \<times> bucket" where
  "Release tag tr held b b' =
     (case readDoc tag (fst tr) b (objectKey (h_Scope held)) of
        Inl e \<Rightarrow> (Some e, b')
      | Inr (doc, etag) \<Rightarrow>
          (case Release_doc held doc of
             Inl e \<Rightarrow> (Some e, b')
           | Inr newDoc \<Rightarrow>
               (case putIfMatch tag (snd tr) b' (objectKey (h_Scope held)) (Marshal newDoc) etag of
                  (Inl e, b'') \<Rightarrow> (Some e, b'')
                | (Inr _, b'') \<Rightarrow> (None, b''))))"

definition EnsureLease ::
  "(body \<Rightarrow> string) \<Rightarrow> transport \<times> transport \<Rightarrow> string \<Rightarrow> bucket \<Rightarrow> bucket \<Rightarrow> lease_error option \<times> bucket" where
  "EnsureLease tag tr scope b b' =
     (case getWithETag tag (fst tr) b (objectKey scope) of
        Inr _ \<Rightarrow> (None, b')
      | Inl e \<Rightarrow> if e \<noteq> ErrLeaseMissing then (Some e, b')
                 else putUnconditional (snd tr) b' (objectKey scope) (Marshal initDoc))"

subsection \<open>Effects\<close>

lemma objectKey_inj [simp]: "objectKey s = objectKey t \<longleftrightarrow> s = t"
  by (simp add: objectKey_def)

lemma readDoc_Inr:
  "readDoc tag tr b key = Inr (doc, etag) \<longleftrightarrow> tr = Answered \<and> b key = Some (Marshal doc) \<and> etag = tag (Marshal doc)"
  by (auto simp: readDoc_def getWithETag_def Unmarshal_def split: option.splits body.splits)

text \<open>
  A conditional PUT of a document computed from a read one either leaves the store alone or
  replaces that very document, which is then still the current one.
\<close>

lemma putIfMatch_cases:
  assumes "putIfMatch tag tr b' key x (tag (Marshal doc)) = (r, b'')" "inj tag"
  obtains (kept) e where "r = Inl e" "b'' = b'"
  | (stored) "b' key = Some (Marshal doc)" "b'' = b'(key \<mapsto> x)" "r = Inr (tag x) \<or> r = Inl ErrTransport"
proof (cases "b' key = Some (Marshal doc)")
  case True
  show thesis
  proof (cases "tr = LostBefore")
    case True
    then show thesis using assms(1) kept [of ErrTransport] by (simp add: putIfMatch_def)
  next
    case False
    then show thesis using True assms(1) stored by (auto simp: putIfMatch_def split: if_splits)
  qed
next
  case False
  then have "tag cur \<noteq> tag (Marshal doc)" if "b' key = Some cur" for cur
    using that injD [OF assms(2)] by auto
  then have "b'' = b' \<and> (\<exists>e. r = Inl e)" using assms(1) by (auto simp: putIfMatch_def split: if_splits option.splits)
  then show thesis using kept by blast
qed

text \<open>The read, compute, conditional write that the three mutating methods share.\<close>

definition casUpdate :: "(body \<Rightarrow> string) \<Rightarrow> transport \<times> transport \<Rightarrow> string \<Rightarrow> (leaseDoc \<Rightarrow> lease_error + leaseDoc) \<Rightarrow>
    bucket \<Rightarrow> bucket \<Rightarrow> (lease_error + leaseDoc) \<times> bucket" where
  "casUpdate tag tr key f b b' =
     (case readDoc tag (fst tr) b key of
        Inl e \<Rightarrow> (Inl e, b')
      | Inr (doc, etag) \<Rightarrow>
          (case f doc of
             Inl e \<Rightarrow> (Inl e, b')
           | Inr newDoc \<Rightarrow>
               (case putIfMatch tag (snd tr) b' key (Marshal newDoc) etag of
                  (Inl e, b'') \<Rightarrow> (Inl e, b'')
                | (Inr _, b'') \<Rightarrow> (Inr newDoc, b''))))"

lemma casUpdate_cases:
  assumes "casUpdate tag tr key f b b' = (r, b'')" "inj tag"
  obtains (kept) e where "r = Inl e" "b'' = b'"
  | (stored) doc newDoc where "b' key = Some (Marshal doc)" "f doc = Inr newDoc" "b'' = b'(key \<mapsto> Marshal newDoc)"
      "r = Inr newDoc \<or> r = Inl ErrTransport"
proof (cases "readDoc tag (fst tr) b key")
  case (Inl e)
  then show thesis using assms(1) kept [of e] by (simp add: casUpdate_def)
next
  case (Inr p)
  then obtain doc where rd: "readDoc tag (fst tr) b key = Inr (doc, tag (Marshal doc))" by (metis readDoc_Inr surj_pair)
  show thesis
  proof (cases "f doc")
    case (Inl e)
    then show thesis using assms(1) kept [of e] rd by (simp add: casUpdate_def)
  next
    case nd: (Inr newDoc)
    obtain r1 b1 where pm: "putIfMatch tag (snd tr) b' key (Marshal newDoc) (tag (Marshal doc)) = (r1, b1)" by fastforce
    then show thesis
    proof (cases rule: putIfMatch_cases [OF pm assms(2)])
      case (1 e)
      then show thesis using assms(1) rd nd pm kept [of e] by (simp add: casUpdate_def)
    next
      case 2
      then show thesis using assms(1) rd nd pm by (intro stored [OF 2(1) nd]) (auto simp: casUpdate_def)
    qed
  qed
qed

lemma putIfMatch_etag: "putIfMatch tag tr b key x e = (Inr t, b') \<Longrightarrow> t = tag x"
  by (auto simp: putIfMatch_def split: if_splits option.splits)

lemma Acquire_cas: "Acquire tag tr now scope h ttl b b' =
    (case casUpdate tag tr (objectKey scope) (Acquire_doc now h ttl) b b' of
       (Inl e, b'') \<Rightarrow> (Inl e, b'')
     | (Inr d, b'') \<Rightarrow> (Inr \<lparr>h_Scope = scope, h_HolderID = h, h_Fence = Fence d, h_etag = tag (Marshal d)\<rparr>, b''))"
  by (auto simp: Acquire_def casUpdate_def dest: putIfMatch_etag split: sum.splits prod.splits)

lemma Renew_cas: "Renew tag tr now held ttl b b' =
    (case casUpdate tag tr (objectKey (h_Scope held)) (Renew_doc now held ttl) b b' of
       (Inl e, b'') \<Rightarrow> (Inl e, b'')
     | (Inr d, b'') \<Rightarrow> (Inr (held\<lparr>h_Fence := Fence d, h_etag := tag (Marshal d)\<rparr>), b''))"
  by (auto simp: Renew_def casUpdate_def dest: putIfMatch_etag split: sum.splits prod.splits)

lemma Release_cas: "Release tag tr held b b' =
    (case casUpdate tag tr (objectKey (h_Scope held)) (Release_doc held) b b' of
       (Inl e, b'') \<Rightarrow> (Some e, b'') | (Inr _, b'') \<Rightarrow> (None, b''))"
  by (auto simp: Release_def casUpdate_def split: sum.splits prod.splits)

subsection \<open>Interleavings\<close>

text \<open>
  A call in progress remembers the store it read. Any number of clients run at once: a call
  begins with its read and ends, at any later time, with its write. \<open>grants\<close> lists the
  tokens handed out by \<open>Acquire\<close> and \<open>Renew\<close>, newest first; \<open>writes\<close> counts ended
  calls.
\<close>

datatype call =
    CAcquire int string string int bucket
  | CRenew int Held int bucket
  | CRelease Held bucket
  | CEnsure string bucket

fun call_read :: "call \<Rightarrow> bucket" where
  "call_read (CAcquire now scope h ttl b) = b"
| "call_read (CRenew now held ttl b) = b"
| "call_read (CRelease held b) = b"
| "call_read (CEnsure scope b) = b"

record lworld =
  store :: bucket
  pending :: "call list"
  grants :: "Held list"
  writes :: nat

fun finish :: "(body \<Rightarrow> string) \<Rightarrow> transport \<times> transport \<Rightarrow> call \<Rightarrow> bucket \<Rightarrow> Held list \<times> bucket" where
  "finish tag tr (CAcquire now scope h ttl b) b' =
     (case Acquire tag tr now scope h ttl b b' of (Inr g, b'') \<Rightarrow> ([g], b'') | (Inl _, b'') \<Rightarrow> ([], b''))"
| "finish tag tr (CRenew now held ttl b) b' =
     (case Renew tag tr now held ttl b b' of (Inr g, b'') \<Rightarrow> ([g], b'') | (Inl _, b'') \<Rightarrow> ([], b''))"
| "finish tag tr (CRelease held b) b' = ([], snd (Release tag tr held b b'))"
| "finish tag tr (CEnsure scope b) b' = ([], snd (EnsureLease tag tr scope b b'))"

inductive lstep :: "(body \<Rightarrow> string) \<Rightarrow> lworld \<Rightarrow> lworld \<Rightarrow> bool" for tag where
  begins: "call_read c = store w \<Longrightarrow> lstep tag w (w\<lparr>pending := c # pending w\<rparr>)"
| ends: "c \<in> set (pending w) \<Longrightarrow> finish tag tr c (store w) = (gs, b) \<Longrightarrow>
    lstep tag w \<lparr>store = b, pending = remove1 c (pending w), grants = gs @ grants w, writes = writes w + 1\<rparr>"

subsection \<open>The fence of one scope\<close>

definition fences :: "string \<Rightarrow> Held list \<Rightarrow> int list" where
  "fences scope gs = map h_Fence (filter (\<lambda>g. h_Scope g = scope) gs)"

lemma Acquire_doc_Fence: "Acquire_doc now h ttl doc = Inr d \<Longrightarrow> Fence d = wrap64 (Fence doc + 1)"
  by (auto simp: Acquire_doc_def split: if_splits)

lemma Renew_doc_Fence: "Renew_doc now held ttl doc = Inr d \<Longrightarrow> Fence d = wrap64 (Fence doc + 1)"
  by (auto simp: Renew_doc_def split: if_splits)

lemma Release_doc_Fence: "Release_doc held doc = Inr d \<Longrightarrow> Fence d = Fence doc"
  by (auto simp: Release_doc_def split: if_splits)

text \<open>
  What ending a call does to the document of a scope: it stays, or its fence grows by one, and
  a token for the scope is only handed out with the new fence.
\<close>

lemma casUpdate_doc:
  assumes "casUpdate tag tr key f b b' = (r, b'')" "inj tag" "b' k = Some (Marshal doc)"
    and "\<And>d d'. f d = Inr d' \<Longrightarrow> Fence d' = g (Fence d)"
  obtains doc' where "b'' k = Some (Marshal doc')" "Fence doc' = Fence doc \<or> key = k \<and> Fence doc' = g (Fence doc)"
    "\<And>d. r = Inr d \<Longrightarrow> key = k \<Longrightarrow> Fence doc' = g (Fence doc) \<and> d = doc'"
  using assms(1,2)
proof (cases rule: casUpdate_cases)
  case (kept e)
  then show thesis using that assms(3) by auto
next
  case (stored d nd)
  show thesis
  proof (cases "key = k")
    case True
    then have "d = doc" using stored(1) assms(3) by simp
    then show thesis using True stored assms(4) [OF stored(2)] by (intro that [of nd]) auto
  next
    case False
    then show thesis using stored(3) assms(3) by (intro that [of doc]) auto
  qed
qed

lemma finish_doc:
  assumes "finish tag tr c b' = (gs, b'')" "inj tag" "b' (objectKey scope) = Some (Marshal doc)"
    and "\<And>b. c = CEnsure scope b \<Longrightarrow> b (objectKey scope) \<noteq> None" and "in_int64 (Fence doc + 1)"
  obtains doc' where "b'' (objectKey scope) = Some (Marshal doc')"
    "fences scope gs = [] \<and> (Fence doc' = Fence doc \<or> Fence doc' = Fence doc + 1) \<or>
     fences scope gs = [Fence doc'] \<and> Fence doc' = Fence doc + 1"
proof (cases c)
  case (CAcquire now sc h ttl b)
  obtain r b1 where u: "casUpdate tag tr (objectKey sc) (Acquire_doc now h ttl) b b' = (r, b1)" by fastforce
  note fin = assms(1) [unfolded CAcquire, simplified, unfolded Acquire_cas u, simplified]
  obtain doc' where d: "b1 (objectKey scope) = Some (Marshal doc')"
    "Fence doc' = Fence doc \<or> sc = scope \<and> Fence doc' = wrap64 (Fence doc + 1)"
    "\<And>d. r = Inr d \<Longrightarrow> sc = scope \<Longrightarrow> Fence doc' = wrap64 (Fence doc + 1) \<and> d = doc'"
    using casUpdate_doc [OF u assms(2,3), of "\<lambda>f. wrap64 (f + 1)"] Acquire_doc_Fence by (metis objectKey_inj)
  show thesis using d fin wrap64_id [OF assms(5)]
    by (intro that [of doc']) (auto simp: fences_def split: sum.splits)
next
  case (CRenew now held ttl b)
  obtain r b1 where u: "casUpdate tag tr (objectKey (h_Scope held)) (Renew_doc now held ttl) b b' = (r, b1)" by fastforce
  note fin = assms(1) [unfolded CRenew, simplified, unfolded Renew_cas u, simplified]
  obtain doc' where d: "b1 (objectKey scope) = Some (Marshal doc')"
    "Fence doc' = Fence doc \<or> h_Scope held = scope \<and> Fence doc' = wrap64 (Fence doc + 1)"
    "\<And>d. r = Inr d \<Longrightarrow> h_Scope held = scope \<Longrightarrow> Fence doc' = wrap64 (Fence doc + 1) \<and> d = doc'"
    using casUpdate_doc [OF u assms(2,3), of "\<lambda>f. wrap64 (f + 1)"] Renew_doc_Fence by (metis objectKey_inj)
  show thesis using d fin wrap64_id [OF assms(5)]
    by (intro that [of doc']) (auto simp: fences_def split: sum.splits)
next
  case (CRelease held b)
  obtain r b1 where u: "casUpdate tag tr (objectKey (h_Scope held)) (Release_doc held) b b' = (r, b1)" by fastforce
  have fin: "gs = []" "b'' = b1" using assms(1) CRelease u by (auto simp: Release_cas split: sum.splits)
  obtain doc' where "b1 (objectKey scope) = Some (Marshal doc')" "Fence doc' = Fence doc"
    using casUpdate_doc [OF u assms(2,3), of "\<lambda>f. f"] Release_doc_Fence by metis
  then show thesis using fin that by (simp add: fences_def)
next
  case (CEnsure sc b)
  show thesis
  proof (cases "sc = scope")
    case True
    then obtain x where x: "b (objectKey scope) = Some x" using assms(4) CEnsure by auto
    then have "gs = []" "b'' = b'" using assms(1) CEnsure True
      by (auto simp: EnsureLease_def getWithETag_def)
    then show thesis using that assms(3) by (simp add: fences_def)
  next
    case False
    then have "gs = []" "b'' (objectKey scope) = b' (objectKey scope)" using assms(1) CEnsure
      by (auto simp: EnsureLease_def putUnconditional_def split: sum.splits)
    then show thesis using that assms(3) by (simp add: fences_def)
  qed
qed

definition lease_inv :: "string \<Rightarrow> int \<Rightarrow> lworld \<Rightarrow> bool" where
  "lease_inv scope f0 w \<longleftrightarrow> (\<exists>doc. store w (objectKey scope) = Some (Marshal doc) \<and>
     f0 \<le> Fence doc \<and> Fence doc \<le> f0 + int (writes w) \<and>
     (\<forall>f \<in> set (fences scope (grants w)). f0 < f \<and> f \<le> Fence doc)) \<and>
   (\<forall>c \<in> set (pending w). \<forall>b. c = CEnsure scope b \<longrightarrow> b (objectKey scope) \<noteq> None) \<and>
   sorted_wrt (>) (fences scope (grants w))"

lemma fences_append: "fences scope (xs @ ys) = fences scope xs @ fences scope ys"
  by (simp add: fences_def)

lemma lstep_writes: "lstep tag w w' \<Longrightarrow> writes w \<le> writes w'"
  by (induction rule: lstep.induct) auto

lemma lstep_lease_inv:
  assumes "lstep tag w w'" "inj tag" "lease_inv scope f0 w" "- (2 ^ 63) \<le> f0" "f0 + int (writes w') < 2 ^ 63"
  shows "lease_inv scope f0 w'"
  using assms(1)
proof cases
  case (begins c)
  then show ?thesis using assms(3) by (auto simp: lease_inv_def)
next
  case (ends c tr gs b)
  from assms(3) obtain doc where doc: "store w (objectKey scope) = Some (Marshal doc)" "f0 \<le> Fence doc"
    "Fence doc \<le> f0 + int (writes w)" "\<forall>f \<in> set (fences scope (grants w)). f0 < f \<and> f \<le> Fence doc" by (auto simp: lease_inv_def)
  have i: "in_int64 (Fence doc + 1)" using doc(2,3) assms(4,5) ends(1) by (simp add: in_int64_def)
  have e: "\<And>b. c = CEnsure scope b \<Longrightarrow> b (objectKey scope) \<noteq> None" using assms(3) ends(2) by (auto simp: lease_inv_def)
  from finish_doc [OF ends(3) assms(2) doc(1) _ i] e obtain doc' where d: "b (objectKey scope) = Some (Marshal doc')"
    "fences scope gs = [] \<and> (Fence doc' = Fence doc \<or> Fence doc' = Fence doc + 1) \<or>
     fences scope gs = [Fence doc'] \<and> Fence doc' = Fence doc + 1" by metis
  have "sorted_wrt (>) (fences scope (gs @ grants w))"
    using d(2) doc(4) assms(3) by (auto simp: fences_append lease_inv_def)
  moreover have "\<forall>f \<in> set (fences scope (gs @ grants w)). f0 < f \<and> f \<le> Fence doc'"
    using d(2) doc(2,4) by (auto simp: fences_append)
  moreover have "f0 \<le> Fence doc'" "Fence doc' \<le> f0 + int (writes w + 1)" using d(2) doc(2,3) by auto
  ultimately show ?thesis using d(1) assms(3) ends(1)
    unfolding lease_inv_def by (auto dest: notin_set_remove1 set_mp [OF set_remove1_subset])
qed

lemma lsteps_writes: "(lstep tag)\<^sup>*\<^sup>* w w' \<Longrightarrow> writes w \<le> writes w'"
  by (induction rule: rtranclp_induct) (auto dest: lstep_writes)

lemma lsteps_lease_inv:
  assumes "(lstep tag)\<^sup>*\<^sup>* w w'" "inj tag" "lease_inv scope f0 w" "- (2 ^ 63) \<le> f0" "f0 + int (writes w') < 2 ^ 63"
  shows "lease_inv scope f0 w'"
  using assms(1,5)
proof (induction rule: rtranclp_induct)
  case (step u v)
  have "f0 + int (writes u) < 2 ^ 63" using step.prems lstep_writes [OF step.hyps(2)] by linarith
  then show ?case using step lstep_lease_inv assms by blast
qed (use assms in simp)

subsection \<open>The guarantees\<close>

definition lease_start :: "bucket \<Rightarrow> lworld" where
  "lease_start b = \<lparr>store = b, pending = [], grants = [], writes = 0\<rparr>"

lemma lease_start_inv:
  "b (objectKey scope) = Some (Marshal doc) \<Longrightarrow> lease_inv scope (Fence doc) (lease_start b)"
  by (simp add: lease_inv_def lease_start_def fences_def)

text \<open>A tag for concrete runs: the document's fields with separators.\<close>

fun exTag :: "body \<Rightarrow> string" where
  "exTag (Junk s) = CHR ''J'' # s"
| "exTag (Marshal d) = CHR ''M'' # FormatInt (Fence d) @ CHR '':'' # FormatInt (ExpiresAt d) @ CHR '':'' #
     FormatInt (int (length (Holder d))) @ CHR '':'' # Holder d @
     (case State d of stateFree \<Rightarrow> ''F'' | stateHeld \<Rightarrow> ''H'' | otherState s \<Rightarrow> CHR ''O'' # s)"

lemma exTag_inj: "inj exTag"
proof (rule injI)
  fix x y assume "exTag x = exTag y"
  then show "x = y"
    by (cases x; cases y) (auto simp: colon_split intro!: leaseDoc.equality split: leaseState.splits)
qed

definition exDoc :: "leaseState \<Rightarrow> string \<Rightarrow> int \<Rightarrow> int \<Rightarrow> leaseDoc" where
  "exDoc st h f t = \<lparr>State = st, Holder = h, Fence = f, ExpiresAt = t\<rparr>"

definition exBucket :: "leaseDoc \<Rightarrow> bucket" where
  "exBucket d = [objectKey ''s'' \<mapsto> Marshal d]"

definition exHeld :: "string \<Rightarrow> int \<Rightarrow> leaseDoc \<Rightarrow> Held" where
  "exHeld h f d = \<lparr>h_Scope = ''s'', h_HolderID = h, h_Fence = f, h_etag = exTag (Marshal d)\<rparr>"

abbreviation "exD0 \<equiv> exDoc stateFree [] 7 zeroTime"
abbreviation "exD1 \<equiv> exDoc stateHeld ''h1'' 8 15"
abbreviation "exD2 \<equiv> exDoc stateHeld ''h2'' 9 25"

text \<open>Two clients read the same free document; the first to write wins, then its lease expires.\<close>

definition exEnd :: lworld where
  "exEnd = \<lparr>store = exBucket exD2, pending = [], grants = [exHeld ''h2'' 9 exD2, exHeld ''h1'' 8 exD1], writes = 3\<rparr>"

lemma lstep_endsI:
  assumes "c \<in> set (pending w)" "finish tag tr c (store w) = (gs, b)"
    and "w' = \<lparr>store = b, pending = remove1 c (pending w), grants = gs @ grants w, writes = writes w + 1\<rparr>"
  shows "lstep tag w w'"
  unfolding assms(3) using assms(1,2) by (rule lstep.ends)

lemma wrap64_small: "- 1000 < x \<Longrightarrow> x < 1000 \<Longrightarrow> wrap64 x = x"
  by (rule wrap64_id) (simp add: in_int64_def)

lemmas finish_simps = Acquire_def readDoc_def getWithETag_def Unmarshal_def Acquire_doc_def putIfMatch_def
  wrap64_small

lemma exFinish:
  "finish exTag (Answered, Answered) (CAcquire 10 ''s'' ''h1'' 5 (exBucket exD0)) (exBucket exD0) =
     ([exHeld ''h1'' 8 exD1], exBucket exD1)"
  "finish exTag (Answered, Answered) (CAcquire 11 ''s'' ''h2'' 5 (exBucket exD0)) (exBucket exD1) = ([], exBucket exD1)"
  "finish exTag (Answered, Answered) (CAcquire 20 ''s'' ''h2'' 5 (exBucket exD1)) (exBucket exD1) =
     ([exHeld ''h2'' 9 exD2], exBucket exD2)"
proof -
  have t: "exTag (Marshal exD1) \<noteq> exTag (Marshal exD0)" by (simp only: inj_eq [OF exTag_inj]) (simp add: exDoc_def)
  show "finish exTag (Answered, Answered) (CAcquire 10 ''s'' ''h1'' 5 (exBucket exD0)) (exBucket exD0) =
     ([exHeld ''h1'' 8 exD1], exBucket exD1)"
    "finish exTag (Answered, Answered) (CAcquire 20 ''s'' ''h2'' 5 (exBucket exD1)) (exBucket exD1) =
     ([exHeld ''h2'' 9 exD2], exBucket exD2)"
    by (simp_all add: finish_simps exBucket_def exHeld_def exDoc_def)
  show "finish exTag (Answered, Answered) (CAcquire 11 ''s'' ''h2'' 5 (exBucket exD0)) (exBucket exD1) = ([], exBucket exD1)"
    using t by (simp add: finish_simps exBucket_def del: exTag.simps)
qed

lemma exEnd_run: "(lstep exTag)\<^sup>*\<^sup>* (lease_start (exBucket exD0)) exEnd"
proof -
  let ?c1 = "CAcquire 10 ''s'' ''h1'' 5 (exBucket exD0)" and ?c2 = "CAcquire 11 ''s'' ''h2'' 5 (exBucket exD0)"
    and ?c3 = "CAcquire 20 ''s'' ''h2'' 5 (exBucket exD1)"
  let ?w1 = "(lease_start (exBucket exD0))\<lparr>pending := [?c1]\<rparr>" and ?w2 = "(lease_start (exBucket exD0))\<lparr>pending := [?c2, ?c1]\<rparr>"
  let ?w3 = "\<lparr>store = exBucket exD1, pending = [?c2], grants = [exHeld ''h1'' 8 exD1], writes = 1\<rparr>"
  let ?w4 = "\<lparr>store = exBucket exD1, pending = [], grants = [exHeld ''h1'' 8 exD1], writes = 2\<rparr>"
  let ?w5 = "?w4\<lparr>pending := [?c3]\<rparr>"
  have "lstep exTag (lease_start (exBucket exD0)) ?w1"
    using lstep.begins [of ?c1 "lease_start (exBucket exD0)" exTag] by (simp add: lease_start_def)
  moreover have "lstep exTag ?w1 ?w2" using lstep.begins [of ?c2 ?w1 exTag] by (simp add: lease_start_def)
  moreover have "lstep exTag ?w2 ?w3"
    by (rule lstep_endsI [of ?c1 _ _ "(Answered, Answered)"], simp, simp only: lease_start_def lworld.simps exFinish, simp add: lease_start_def)
  moreover have "lstep exTag ?w3 ?w4"
    by (rule lstep_endsI [of ?c2 _ _ "(Answered, Answered)"], simp, simp only: lworld.simps exFinish, simp)
  moreover have "lstep exTag ?w4 ?w5" using lstep.begins [of ?c3 ?w4 exTag] by simp
  moreover have "lstep exTag ?w5 exEnd"
    by (rule lstep_endsI [of ?c3 _ _ "(Answered, Answered)"], simp, simp only: lworld.simps exFinish, simp add: exEnd_def)
  ultimately show ?thesis by (meson converse_rtranclp_into_rtranclp rtranclp.rtrancl_refl)
qed

text \<open>
  Claim C2. Fencing tokens are never reused: whatever the interleaving of \<open>Acquire\<close>,
  \<open>Renew\<close>, \<open>Release\<close> and \<open>EnsureLease\<close> calls of any number of clients on an existing
  lease object, with requests lost before or after the store applied them, the fences handed
  out for a scope strictly increase in the order they are handed out (below \<open>2 ^ 63\<close>).
\<close>

theorem fences_strictly_increase:
  assumes "inj tag" "b (objectKey scope) = Some (Marshal doc)" "in_int64 (Fence doc)"
    and "(lstep tag)\<^sup>*\<^sup>* (lease_start b) w" "Fence doc + int (writes w) < 2 ^ 63"
  shows "sorted_wrt (>) (map h_Fence (filter (\<lambda>g. h_Scope g = scope) (grants w))) \<and>
    (\<forall>g \<in> set (grants w). h_Scope g = scope \<longrightarrow> Fence doc < h_Fence g)"
  using lsteps_lease_inv [OF assms(4,1) lease_start_inv [of b scope doc]] assms(2,3,5)
  by (auto simp: lease_inv_def fences_def in_int64_def)

theorem fences_strictly_increase_witness:
  "sorted_wrt (>) (map h_Fence (filter (\<lambda>g. h_Scope g = ''s'') (grants exEnd))) \<and> length (grants exEnd) = 2"
proof -
  have "exBucket exD0 (objectKey ''s'') = Some (Marshal exD0)" "in_int64 (Fence exD0)"
    "Fence exD0 + int (writes exEnd) < 2 ^ 63" by code_simp+
  from fences_strictly_increase [OF exTag_inj this(1,2) exEnd_run this(3)] show ?thesis by (simp add: exEnd_def)
qed

text \<open>
  Claim C35. A superseded holder is locked out: once a newer fence has been handed out for the
  scope, \<open>Renew\<close> and \<open>Release\<close> with the older token fail and leave the store unchanged,
  also when the call read the store before it was superseded.
\<close>

theorem superseded_token_refused:
  assumes "inj tag" "b (objectKey scope) = Some (Marshal doc)" "in_int64 (Fence doc)"
    and "(lstep tag)\<^sup>*\<^sup>* (lease_start b) w" "Fence doc + int (writes w) < 2 ^ 63"
    and "g \<in> set (grants w)" "h_Scope g = scope" "h_Scope held = scope" "h_Fence held < h_Fence g"
  shows "(\<exists>e. Renew tag tr now held ttl b1 (store w) = (Inl e, store w)) \<and>
    (\<exists>e. Release tag tr held b1 (store w) = (Some e, store w))"
proof -
  have "lease_inv scope (Fence doc) w"
    using lsteps_lease_inv [OF assms(4,1) lease_start_inv] assms(2,3,5) by (auto simp: in_int64_def)
  then obtain cur where cur: "store w (objectKey scope) = Some (Marshal cur)" "h_Fence g \<le> Fence cur"
    using assms(6,7) by (auto simp: lease_inv_def fences_def)
  have no: "Renew_doc now held ttl cur = Inl ErrNotHolder" "Release_doc held cur = Inl ErrNotHolder"
    using cur(2) assms(9) by (auto simp: Renew_doc_def Release_doc_def)
  obtain r b2 r' b3 where u: "casUpdate tag tr (objectKey (h_Scope held)) (Renew_doc now held ttl) b1 (store w) = (r, b2)"
    "casUpdate tag tr (objectKey (h_Scope held)) (Release_doc held) b1 (store w) = (r', b3)" by fastforce
  have "\<exists>e. r = Inl e \<and> b2 = store w" using u(1) assms(1) by (cases rule: casUpdate_cases) (use cur no assms(8) in auto)
  moreover have "\<exists>e. r' = Inl e \<and> b3 = store w" using u(2) assms(1) by (cases rule: casUpdate_cases) (use cur no assms(8) in auto)
  ultimately show ?thesis using u by (auto simp: Renew_cas Release_cas)
qed

theorem superseded_token_refused_witness:
  "\<exists>e. Renew exTag (Answered, Answered) 12 (exHeld ''h1'' 8 exD1) 5 (exBucket exD1) (store exEnd) = (Inl e, store exEnd)"
proof -
  have b: "exBucket exD0 (objectKey ''s'') = Some (Marshal exD0)" "in_int64 (Fence exD0)"
    "Fence exD0 + int (writes exEnd) < 2 ^ 63" by code_simp+
  show ?thesis
    using superseded_token_refused [OF exTag_inj b(1,2) exEnd_run b(3), of "exHeld ''h2'' 9 exD2" "exHeld ''h1'' 8 exD1"]
    by (simp add: exEnd_def exHeld_def)
qed

text \<open>
  A live lease is not taken over: while the stored document is held by another holder
  and the caller's clock is before its expiry, \<open>Acquire\<close> fails and changes nothing,
  whatever the call had read before.
\<close>

theorem live_lease_not_taken:
  assumes "inj tag" "b' (objectKey scope) = Some (Marshal doc)"
    and "State doc = stateHeld" "Holder doc \<noteq> holder" "now < ExpiresAt doc"
  shows "\<exists>e. Acquire tag tr now scope holder ttl b b' = (Inl e, b')"
proof -
  have no: "Acquire_doc now holder ttl doc = Inl ErrNotHolder" using assms(3-5) by (simp add: Acquire_doc_def)
  obtain r b2 where u: "casUpdate tag tr (objectKey scope) (Acquire_doc now holder ttl) b b' = (r, b2)" by fastforce
  then have "\<exists>e. r = Inl e \<and> b2 = b'" using assms(1) by (cases rule: casUpdate_cases) (use assms(2) no in auto)
  then show ?thesis using u by (auto simp: Acquire_cas)
qed

text \<open>
  Where fencing breaks: the probe and the unconditional write of \<open>EnsureLease\<close> are
  not one step, so a slow \<open>EnsureLease\<close> that saw no object can overwrite a lease that was
  created and acquired meanwhile and reset its fence; two holders then get the same fence.
\<close>

theorem ensure_lease_race:
  "\<exists>w g1 g2. (lstep tag)\<^sup>*\<^sup>* (lease_start (\<lambda>_. None)) w \<and> g1 \<in> set (grants w) \<and> g2 \<in> set (grants w) \<and>
    h_Scope g1 = h_Scope g2 \<and> h_HolderID g1 \<noteq> h_HolderID g2 \<and> h_Fence g1 = h_Fence g2"
proof -
  let ?k = "objectKey ''s''" and ?c = "CEnsure ''s'' (\<lambda>_. None)" and ?ok = "(Answered, Answered)"
  let ?b0 = "[objectKey ''s'' \<mapsto> Marshal initDoc]"
  let ?d = "\<lambda>h. exDoc stateHeld h 1 15" and ?g = "\<lambda>h. \<lparr>h_Scope = ''s'', h_HolderID = h, h_Fence = 1, h_etag = tag (Marshal (exDoc stateHeld h 1 15))\<rparr>"
  let ?a = "\<lambda>h. CAcquire 10 ''s'' h 5 [objectKey ''s'' \<mapsto> Marshal initDoc]"
  have fe: "finish tag ?ok ?c b = ([], b(?k \<mapsto> Marshal initDoc))" for b
    by (simp add: EnsureLease_def getWithETag_def putUnconditional_def)
  have fa: "finish tag ?ok (?a h) ?b0 = ([?g h], [?k \<mapsto> Marshal (?d h)])" for h
    by (simp add: finish_simps initDoc_def exDoc_def)
  have e: "lstep tag \<lparr>store = b, pending = ?c # cs, grants = gs, writes = n\<rparr>
      \<lparr>store = b(?k \<mapsto> Marshal initDoc), pending = cs, grants = gs, writes = n + 1\<rparr>" for b cs gs n
    by (rule lstep_endsI [of ?c _ _ ?ok], simp, simp only: lworld.simps fe, simp)
  have a: "lstep tag \<lparr>store = ?b0, pending = ?a h # cs, grants = gs, writes = n\<rparr>
      \<lparr>store = [?k \<mapsto> Marshal (?d h)], pending = cs, grants = ?g h # gs, writes = n + 1\<rparr>" for h cs gs n
    by (rule lstep_endsI [of "?a h" _ _ ?ok], simp, simp only: lworld.simps fa, simp)
  have b: "lstep tag \<lparr>store = call_read c, pending = cs, grants = gs, writes = n\<rparr>
      \<lparr>store = call_read c, pending = c # cs, grants = gs, writes = n\<rparr>" for c cs gs n
    using lstep.begins [of c "\<lparr>store = call_read c, pending = cs, grants = gs, writes = n\<rparr>" tag] by simp
  note s1 = b [of ?c "[]" "[]" 0, simplified] and s2 = b [of ?c "[?c]" "[]" 0, simplified]
    and s3 = e [of "\<lambda>_. None" "[?c]" "[]" 0] and s4 = b [of "?a ''h1''" "[?c]" "[]" 1, simplified]
    and s5 = a [of "''h1''" "[?c]" "[]" 1] and s6 = e [of "[?k \<mapsto> Marshal (?d ''h1'')]" "[]" "[?g ''h1'']" 2, simplified]
    and s7 = b [of "?a ''h2''" "[]" "[?g ''h1'']" 3, simplified] and s8 = a [of "''h2''" "[]" "[?g ''h1'']" 3]
  let ?fin = "\<lparr>store = [?k \<mapsto> Marshal (?d ''h2'')], pending = [], grants = [?g ''h2'', ?g ''h1''], writes = 4\<rparr>"
  have "(lstep tag)\<^sup>*\<^sup>* (lease_start (\<lambda>_. None)) ?fin"
    using s1 s2 s3 s4 s5 s6 s7 s8 unfolding lease_start_def
    by (simp add: numeral_2_eq_2 numeral_3_eq_3 eval_nat_numeral)
  moreover have "?g ''h1'' \<in> set (grants ?fin)" "?g ''h2'' \<in> set (grants ?fin)" by simp_all
  ultimately show ?thesis by (intro exI [of _ ?fin] exI [of _ "?g ''h1''"] exI [of _ "?g ''h2''"]) simp
qed

end
