(* ===== verification/Lease_Run.thy ===== *)
theory Lease_Run
  imports Lease
begin

text \<open>
  The users of the lease inside its package: run leases of singleton apps
  (\<open>runlease.go\<close>), once-per-cluster jobs (\<open>job.go\<close>) and the consistency guard with the
  manager's constructor (\<open>guard.go\<close>, \<open>lease.go\<close>). Other clients act between any two
  requests of a call: \<open>env i\<close> is what they do to the store before the call's \<open>i\<close>-th
  request, \<open>tr i\<close> how that request's transport ends and \<open>now i\<close> the clock read there.
\<close>

subsection \<open>The consistency guard\<close>

datatype TigrisBucketType = TigrisUnknown | TigrisSingleRegion | TigrisMultiRegion | TigrisGlobal | TigrisDualRegion
  | TigrisOther string

record ConsistencyConfig =
  cc_Endpoint :: string
  cc_BucketType :: TigrisBucketType
  cc_StrictMode :: bool

datatype guard_error = ErrUnsafeBucket | ErrNotConfigured | ErrMinio

definition knownTigrisHosts :: "string list" where
  "knownTigrisHosts = [''tigris.dev'', ''fly.storage.tigris.dev'', ''t3.storage.tigris.dev'']"

definition isTigrisEndpoint :: "string \<Rightarrow> bool" where
  "isTigrisEndpoint endpoint \<longleftrightarrow> (\<exists>h \<in> set knownTigrisHosts. Contains (ToLower endpoint) h)"

definition unsafeBucketTypes :: "TigrisBucketType list" where
  "unsafeBucketTypes = [TigrisGlobal, TigrisDualRegion]"

definition CheckConsistency :: "ConsistencyConfig \<Rightarrow> guard_error option" where
  "CheckConsistency cfg =
     (if \<not> isTigrisEndpoint (cc_Endpoint cfg) then None
      else if cc_BucketType cfg = TigrisUnknown then None
      else if cc_BucketType cfg \<in> set unsafeBucketTypes
      then (if cc_StrictMode cfg then Some ErrUnsafeBucket else None)
      else None)"

record S3Config =
  Endpoint :: string
  Bucket :: string
  AccessKey :: string
  SecretKey :: string
  UseSSL :: bool
  BucketType :: TigrisBucketType
  StrictConsistency :: bool

definition Configured :: "S3Config \<Rightarrow> bool" where
  "Configured c \<longleftrightarrow> AccessKey c \<noteq> [] \<and> SecretKey c \<noteq> [] \<and> Bucket c \<noteq> []"

text \<open>\<open>minio\<close> says whether \<open>minio.New\<close> accepts the endpoint; the result is the manager's bucket.\<close>

definition New :: "(S3Config \<Rightarrow> bool) \<Rightarrow> S3Config \<Rightarrow> guard_error + string" where
  "New minio cfg =
     (if \<not> Configured cfg then Inl ErrNotConfigured
      else case CheckConsistency \<lparr>cc_Endpoint = Endpoint cfg, cc_BucketType = BucketType cfg, cc_StrictMode = StrictConsistency cfg\<rparr> of
             Some e \<Rightarrow> Inl e
           | None \<Rightarrow> if \<not> minio cfg then Inl ErrMinio else Inr (Bucket cfg))"

subsection \<open>Run leases\<close>

type_synonym interference = "nat \<Rightarrow> bucket \<Rightarrow> bucket"

record RunLease =
  rl_held :: Held
  rl_Profile :: string
  rl_AppID :: string

datatype run_error = RunEnsure lease_error | RunRand | RunAcquire lease_error | RunNotHolder

definition RunScope :: "string \<Rightarrow> string \<Rightarrow> string" where
  "RunScope profile appID = ''run/'' @ profile @ ''/'' @ appID"

text \<open>\<open>nonce\<close> is \<open>None\<close> when the random source fails.\<close>

definition AcquireRunLease ::
  "(body \<Rightarrow> string) \<Rightarrow> (nat \<Rightarrow> transport) \<Rightarrow> interference \<Rightarrow> int \<Rightarrow> string \<Rightarrow> string \<Rightarrow> string \<Rightarrow> bytes option \<Rightarrow> int \<Rightarrow>
   bucket \<Rightarrow> (run_error + RunLease) \<times> bucket" where
  "AcquireRunLease tag tr env now profile appID holderID nonce ttl b =
     (let scope = RunScope profile appID; b0 = env 0 b
      in case EnsureLease tag (tr 0, tr 1) scope b0 (env 1 b0) of
           (Some e, b1) \<Rightarrow> (Inl (RunEnsure e), b1)
         | (None, b1) \<Rightarrow>
             (case nonce of
                None \<Rightarrow> (Inl RunRand, b1)
              | Some r \<Rightarrow>
                  let b2 = env 2 b1; uniqueHolder = holderID @ ''-'' @ EncodeToString r
                  in case Acquire tag (tr 2, tr 3) now scope uniqueHolder ttl b2 (env 3 b2) of
                       (Inl e, b3) \<Rightarrow>
                         (Inl (if e = ErrNotHolder \<or> e = ErrLost then RunNotHolder else RunAcquire e), b3)
                     | (Inr held, b3) \<Rightarrow> (Inr \<lparr>rl_held = held, rl_Profile = profile, rl_AppID = appID\<rparr>, b3)))"

definition RunLease_Renew ::
  "(body \<Rightarrow> string) \<Rightarrow> transport \<times> transport \<Rightarrow> int \<Rightarrow> RunLease \<Rightarrow> int \<Rightarrow> bucket \<Rightarrow> bucket \<Rightarrow>
   lease_error option \<times> RunLease \<times> bucket" where
  "RunLease_Renew tag tr now r ttl b b' =
     (case Renew tag tr now (rl_held r) ttl b b' of
        (Inl e, b'') \<Rightarrow> (Some e, r, b'')
      | (Inr held, b'') \<Rightarrow> (None, r\<lparr>rl_held := held\<rparr>, b''))"

definition RunLease_Release :: "(body \<Rightarrow> string) \<Rightarrow> transport \<times> transport \<Rightarrow> RunLease \<Rightarrow> bucket \<Rightarrow> bucket \<Rightarrow> bucket" where
  "RunLease_Release tag tr r b b' = snd (Release tag tr (rl_held r) b b')"

subsection \<open>Once-per-cluster jobs\<close>

text \<open>What the job body returns: \<open>None\<close>, its context's cancellation, or an error of its own.\<close>

datatype fn_error = Canceled | FnError string

datatype job_error =
    JobEnsure lease_error | JobRand | JobAcquire lease_error
  | JobLost lease_error | JobLostFn lease_error fn_error
  | JobReleaseFn fn_error lease_error | JobRelease lease_error | JobFn fn_error

definition jobScope :: "string \<Rightarrow> string" where
  "jobScope jobID = ''job/'' @ jobID"

text \<open>The renew goroutine over the \<open>n\<close> ticks that fire while the job runs; request numbers from \<open>i\<close>.\<close>

fun renewLoop ::
  "(body \<Rightarrow> string) \<Rightarrow> (nat \<Rightarrow> transport) \<Rightarrow> interference \<Rightarrow> (nat \<Rightarrow> int) \<Rightarrow> int \<Rightarrow> nat \<Rightarrow> nat \<Rightarrow> Held \<Rightarrow> bucket \<Rightarrow>
   lease_error option \<times> Held \<times> bucket" where
  "renewLoop tag tr env now ttl i 0 held b = (None, held, b)"
| "renewLoop tag tr env now ttl i (Suc n) held b =
     (let b1 = env i b
      in case Renew tag (tr i, tr (i + 1)) (now i) held ttl b1 (env (i + 1) b1) of
           (Inl e, b2) \<Rightarrow> (Some e, held, b2)
         | (Inr held', b2) \<Rightarrow> renewLoop tag tr env now ttl (i + 2) n held' b2)"

definition RunOnce ::
  "(body \<Rightarrow> string) \<Rightarrow> (nat \<Rightarrow> transport) \<Rightarrow> interference \<Rightarrow> (nat \<Rightarrow> int) \<Rightarrow> string \<Rightarrow> bytes option \<Rightarrow> int \<Rightarrow> nat \<Rightarrow>
   (bool \<Rightarrow> fn_error option) \<Rightarrow> bucket \<Rightarrow> (bool \<times> job_error option) \<times> bucket" where
  "RunOnce tag tr env now jobID nonce ttl ticks fn b =
     (let scope = jobScope jobID; b0 = env 0 b
      in case EnsureLease tag (tr 0, tr 1) scope b0 (env 1 b0) of
           (Some e, b1) \<Rightarrow> ((False, Some (JobEnsure e)), b1)
         | (None, b1) \<Rightarrow>
             (case nonce of
                None \<Rightarrow> ((False, Some JobRand), b1)
              | Some r \<Rightarrow>
                  let b2 = env 2 b1; holderID = jobID @ ''-runner-'' @ EncodeToString r
                  in case Acquire tag (tr 2, tr 3) (now 2) scope holderID ttl b2 (env 3 b2) of
                       (Inl e, b3) \<Rightarrow>
                         ((False, if e = ErrNotHolder \<or> e = ErrLost then None else Some (JobAcquire e)), b3)
                     | (Inr held, b3) \<Rightarrow>
                         (case renewLoop tag tr env now ttl 4 ticks held b3 of
                            (Some lost, held', b4) \<Rightarrow>
                              (case fn True of
                                 None \<Rightarrow> ((True, Some (JobLost lost)), b4)
                               | Some Canceled \<Rightarrow> ((True, Some (JobLost lost)), b4)
                               | Some e \<Rightarrow> ((True, Some (JobLostFn lost e)), b4))
                          | (None, held', b4) \<Rightarrow>
                              (let b5 = env (4 + 2 * ticks) b4
                               in case Release tag (tr (4 + 2 * ticks), tr (5 + 2 * ticks)) held' b5 (env (5 + 2 * ticks) b5) of
                                    (Some rerr, b6) \<Rightarrow>
                                      ((True, Some (case fn False of Some e \<Rightarrow> JobReleaseFn e rerr | None \<Rightarrow> JobRelease rerr)), b6)
                                  | (None, b6) \<Rightarrow> ((True, map_option JobFn (fn False)), b6)))))"

subsection \<open>The guarantees\<close>

lemma Acquire_Inr:
  assumes "Acquire tag tr now scope h ttl b b' = (Inr held, b'')" "inj tag"
  shows "h_Scope held = scope \<and> h_HolderID held = h \<and> in_int64 (h_Fence held) \<and>
    (\<exists>doc. b'' (objectKey scope) = Some (Marshal doc) \<and> State doc = stateHeld \<and> Holder doc = h \<and> Fence doc = h_Fence held)"
proof -
  obtain r b2 where u: "casUpdate tag tr (objectKey scope) (Acquire_doc now h ttl) b b' = (r, b2)" by fastforce
  show ?thesis using u assms(2)
  proof (cases rule: casUpdate_cases)
    case (kept e)
    then show ?thesis using assms(1) u by (simp add: Acquire_cas)
  next
    case (stored doc nd)
    then show ?thesis using assms(1) u wrap64_in_int64
      by (auto simp: Acquire_cas Acquire_doc_def split: if_splits)
  qed
qed

lemma Renew_Inr:
  assumes "Renew tag tr now held ttl b b' = (Inr held', b'')" "inj tag"
  shows "h_Scope held' = h_Scope held \<and> h_HolderID held' = h_HolderID held \<and> h_Fence held' = wrap64 (h_Fence held + 1)"
proof -
  obtain r b2 where u: "casUpdate tag tr (objectKey (h_Scope held)) (Renew_doc now held ttl) b b' = (r, b2)" by fastforce
  show ?thesis using u assms(2)
  proof (cases rule: casUpdate_cases)
    case (kept e)
    then show ?thesis using assms(1) u by (simp add: Renew_cas)
  next
    case (stored doc nd)
    then show ?thesis using assms(1) u by (auto simp: Renew_cas Renew_doc_def split: if_splits)
  qed
qed

lemma Release_None:
  assumes "Release tag tr held b b' = (None, b'')" "inj tag"
  shows "\<exists>doc. b'' (objectKey (h_Scope held)) = Some (Marshal doc) \<and> State doc = stateFree \<and> Fence doc = h_Fence held"
proof -
  obtain r b2 where u: "casUpdate tag tr (objectKey (h_Scope held)) (Release_doc held) b b' = (r, b2)" by fastforce
  show ?thesis using u assms(2)
  proof (cases rule: casUpdate_cases)
    case (kept e)
    then show ?thesis using assms(1) u by (simp add: Release_cas)
  next
    case (stored doc nd)
    then show ?thesis using assms(1) u by (auto simp: Release_cas Release_doc_def split: if_splits sum.splits)
  qed
qed

lemma renewLoop_None:
  assumes "renewLoop tag tr env now ttl i n held b = (None, held', b')" "inj tag" "in_int64 (h_Fence held)"
  shows "h_Scope held' = h_Scope held \<and> h_Fence held' = wrap64 (h_Fence held + int n)"
  using assms(1,3)
proof (induction n arbitrary: i held b)
  case 0
  then show ?case by (simp add: wrap64_id)
next
  case (Suc n)
  let ?b1 = "env i b"
  obtain h2 b2 where r: "Renew tag (tr i, tr (i + 1)) (now i) held ttl ?b1 (env (i + 1) ?b1) = (Inr h2, b2)"
    "renewLoop tag tr env now ttl (i + 2) n h2 b2 = (None, held', b')"
    using Suc.prems(1) by (auto simp: Let_def split: sum.splits prod.splits)
  note f = Renew_Inr [OF r(1) assms(2)]
  have "h_Scope held' = h_Scope h2 \<and> h_Fence held' = wrap64 (h_Fence h2 + int n)"
    using Suc.IH [OF r(2)] f wrap64_in_int64 by simp
  then show ?case using f by (simp add: wrap64_add algebra_simps)
qed

text \<open>
  A job that \<open>RunOnce\<close> reports as run without losing its lease really held the lease
  from its acquisition to its release: the lease object ends free, with exactly one fence
  bump per renewal tick since the acquisition, so no other holder was granted the lease in
  between, whatever other clients did to the store between its requests.
\<close>

theorem run_once_held_throughout:
  assumes "inj tag" "RunOnce tag tr env now jobID nonce ttl ticks fn b = ((True, err), b')"
    and "err = None \<or> (\<exists>e. err = Some (JobFn e))"
  shows "\<exists>r held b1 b2 b3 doc. nonce = Some r \<and>
    Acquire tag (tr 2, tr 3) (now 2) (jobScope jobID) (jobID @ ''-runner-'' @ EncodeToString r) ttl b1 b2 = (Inr held, b3) \<and>
    b' (objectKey (jobScope jobID)) = Some (Marshal doc) \<and> State doc = stateFree \<and>
    Fence doc = wrap64 (h_Fence held + int ticks)"
proof -
  let ?b0 = "env 0 b" and ?sc = "jobScope jobID"
  obtain b1 r where e: "EnsureLease tag (tr 0, tr 1) ?sc ?b0 (env 1 ?b0) = (None, b1)" "nonce = Some r"
    using assms(2) by (auto simp: RunOnce_def Let_def split: prod.splits option.splits)
  let ?h = "jobID @ ''-runner-'' @ EncodeToString r" and ?b2 = "env 2 b1"
  obtain held b3 where a: "Acquire tag (tr 2, tr 3) (now 2) ?sc ?h ttl ?b2 (env 3 ?b2) = (Inr held, b3)"
    using assms(2) e by (auto simp: RunOnce_def Let_def split: prod.splits sum.splits)
  obtain held' b4 where l: "renewLoop tag tr env now ttl 4 ticks held b3 = (None, held', b4)"
    using assms(2,3) e a by (auto simp: RunOnce_def Let_def split: prod.splits option.splits fn_error.splits)
  let ?b5 = "env (4 + 2 * ticks) b4"
  have rl: "Release tag (tr (4 + 2 * ticks), tr (5 + 2 * ticks)) held' ?b5 (env (5 + 2 * ticks) ?b5) = (None, b')"
    using assms(2,3) e a l by (auto simp: RunOnce_def Let_def split: prod.splits option.splits)
  note A = Acquire_Inr [OF a assms(1)]
  have L: "h_Scope held' = h_Scope held \<and> h_Fence held' = wrap64 (h_Fence held + int ticks)"
    using renewLoop_None [OF l assms(1)] A by simp
  show ?thesis using e(2) a Release_None [OF rl assms(1)] A L by auto
qed

theorem run_once_held_throughout_witness:
  "\<exists>doc. snd (RunOnce exTag (\<lambda>_. Answered) (\<lambda>_ b. b) (\<lambda>i. int i) ''j'' (Some []) 30 2 (\<lambda>_. None) (\<lambda>_. None))
     (objectKey (jobScope ''j'')) = Some (Marshal doc) \<and> State doc = stateFree"
proof -
  let ?run = "RunOnce exTag (\<lambda>_. Answered) (\<lambda>_ b. b) (\<lambda>i. int i) ''j'' (Some []) 30 2 (\<lambda>_. None) (\<lambda>_. None)"
  have "?run = ((True, None), snd ?run)" 
    by (simp add: RunOnce_def Let_def EnsureLease_def putUnconditional_def initDoc_def Renew_def Renew_doc_def
        Release_def Release_doc_def finish_simps numeral_2_eq_2 eval_nat_numeral del: exTag.simps)
  from run_once_held_throughout [OF exTag_inj this] show ?thesis by blast
qed

text \<open>
  A second runner steps aside: while the job's lease is held by another runner and not
  expired, \<open>RunOnce\<close> returns without running the job and without touching the store.
\<close>

theorem run_once_skips_when_held:
  assumes "b (objectKey (jobScope jobID)) = Some (Marshal doc)" "State doc = stateHeld"
    and "Holder doc \<noteq> jobID @ ''-runner-'' @ EncodeToString r" "now 2 < ExpiresAt doc"
  shows "RunOnce tag (\<lambda>_. Answered) (\<lambda>_ b. b) now jobID (Some r) ttl ticks fn b = ((False, None), b)"
  using assms by (simp add: RunOnce_def Let_def EnsureLease_def finish_simps)

end
