(* ===== verification/Pairing.thy ===== *)
theory Pairing
  imports Go_Text
begin

text \<open>
  Device pairing (\<open>backend/services/pairing/pairing.go\<close>): tickets issued by a trusted
  device, redeemed once by a new one, and the audit store of paired devices. The package's
  files are the record \<open>PairFiles\<close>; each exported function is one definition on it, which
  the package's mutex makes one step. The cryptographic and base64 functions of the
  standard library are the record \<open>prims\<close>, an argument of the definitions that use them.
  Signatures are over the payload structures; a time is the number of nanoseconds since the
  epoch. \<open>io i\<close> says whether the \<open>i\<close>-th file written by a call reaches the disk.
\<close>

subsection \<open>Types and files\<close>

definition DefaultTTL :: int where
  "DefaultTTL = 15 * 60 * 1000000000"

definition MaxTTL :: int where
  "MaxTTL = 60 * 60 * 1000000000"

definition maxPairedDevices :: nat where
  "maxPairedDevices = 512"

datatype pairing_error = ErrExpired | ErrInvalid | ErrBadDeviceKey | ErrTampered | ErrSelfPair | ErrUnknownDevice
  | ErrRead | ErrParse | ErrWrite | ErrRandom | ErrKeySize | ErrCapacity

record Ticket =
  t_Token :: string
  t_ShortCode :: string
  t_IssuerDeviceID :: string
  t_DeviceName :: string
  t_CreatedAt :: int
  t_ExpiresAt :: int
  t_Sig :: string

record ConnectionHints =
  ch_Bucket :: string
  ch_Region :: string
  ch_Endpoint :: string
  ch_UseSSL :: bool

record ClaimResult =
  cr_Status :: string
  cr_DeviceID :: string
  cr_IssuerDeviceID :: string
  cr_ApprovalSig :: string
  cr_Hints :: ConnectionHints
  cr_RequiresPassphrase :: bool

record PairedDevice =
  pd_DeviceID :: string
  pd_Name :: string
  pd_PublicKey :: string
  pd_IssuerDeviceID :: string
  pd_ApprovalSig :: string
  pd_PairedAt :: int
  pd_Revoked :: bool
  pd_RevokedAt :: "int option"

datatype payload =
    ticketSigPayload string string string string int int
  | attestationPayload string string string string int

record prims =
  NewKeyFromSeed :: "bytes \<Rightarrow> bytes"
  Public :: "bytes \<Rightarrow> bytes"
  Sign :: "bytes \<Rightarrow> payload \<Rightarrow> bytes"
  Verify :: "bytes \<Rightarrow> payload \<Rightarrow> bytes \<Rightarrow> bool"
  Sum256 :: "bytes \<Rightarrow> bytes"
  StdEncode :: "bytes \<Rightarrow> string"
  StdDecode :: "string \<Rightarrow> bytes option"
  RawURLEncode :: "bytes \<Rightarrow> string"
  RawURLDecode :: "string \<Rightarrow> bytes option"

text \<open>A file: absent, unreadable, not JSON of the expected shape, or its content.\<close>

datatype 'a diskFile = Missing | Unreadable | Malformed | Content 'a

record storageCfg =
  sc_Bucket :: string
  sc_BucketName :: string
  sc_Region :: string
  sc_Endpoint :: string
  sc_UseSSL :: bool

record PairFiles =
  ticketsFile :: "(string, Ticket) table diskFile"
  devicesFile :: "PairedDevice list diskFile"
  storageFile :: "storageCfg diskFile"
  authKeyFile :: "bytes diskFile"

subsection \<open>Signatures and the authority key\<close>

definition sigPayload :: "Ticket \<Rightarrow> payload" where
  "sigPayload t = ticketSigPayload (t_Token t) (t_ShortCode t) (t_IssuerDeviceID t) (t_DeviceName t) (t_CreatedAt t) (t_ExpiresAt t)"

text \<open>\<open>rnd\<close> is the seed the random source gives, \<open>None\<close> when it fails.\<close>

definition authorityPriv :: "prims \<Rightarrow> bytes option \<Rightarrow> bool \<Rightarrow> PairFiles \<Rightarrow> (pairing_error + bytes) \<times> PairFiles" where
  "authorityPriv pr rnd io s =
     (case authKeyFile s of
        Content data \<Rightarrow>
          if length data = 32 then (Inr (NewKeyFromSeed pr data), s)
          else if length data = 64 then (Inr data, s) else (Inl ErrKeySize, s)
      | Missing \<Rightarrow>
          (case rnd of
             None \<Rightarrow> (Inl ErrRandom, s)
           | Some seed \<Rightarrow> if \<not> io then (Inl ErrWrite, s)
                          else (Inr (NewKeyFromSeed pr seed), s\<lparr>authKeyFile := Content seed\<rparr>))
      | _ \<Rightarrow> (Inl ErrRead, s))"

definition AuthorityPublicKey :: "prims \<Rightarrow> bytes option \<Rightarrow> bool \<Rightarrow> PairFiles \<Rightarrow> (pairing_error + string) \<times> PairFiles" where
  "AuthorityPublicKey pr rnd io s =
     (case authorityPriv pr rnd io s of
        (Inl e, s') \<Rightarrow> (Inl e, s')
      | (Inr priv, s') \<Rightarrow> (Inr (StdEncode pr (Public pr priv)), s'))"

definition signCanonical :: "prims \<Rightarrow> bytes \<Rightarrow> payload \<Rightarrow> string" where
  "signCanonical pr priv v = RawURLEncode pr (Sign pr priv v)"

definition verifyCanonical :: "prims \<Rightarrow> bytes \<Rightarrow> payload \<Rightarrow> string \<Rightarrow> pairing_error option" where
  "verifyCanonical pr pub v sigB64 =
     (case RawURLDecode pr (TrimSpace sigB64) of
        None \<Rightarrow> Some ErrTampered
      | Some sig \<Rightarrow> if length sig \<noteq> 64 then Some ErrTampered
                    else if \<not> Verify pr pub v sig then Some ErrTampered else None)"

definition VerifyTicket :: "prims \<Rightarrow> bytes option \<Rightarrow> bool \<Rightarrow> PairFiles \<Rightarrow> Ticket option \<Rightarrow> pairing_error option \<times> PairFiles" where
  "VerifyTicket pr rnd io s ot =
     (case ot of
        None \<Rightarrow> (Some ErrTampered, s)
      | Some t \<Rightarrow>
          (case authorityPriv pr rnd io s of
             (Inl e, s') \<Rightarrow> (Some e, s')
           | (Inr priv, s') \<Rightarrow> (verifyCanonical pr (Public pr priv) (sigPayload t) (t_Sig t), s')))"

subsection \<open>Files\<close>

definition loadTickets :: "PairFiles \<Rightarrow> pairing_error + (string, Ticket) table" where
  "loadTickets s = (case ticketsFile s of
      Missing \<Rightarrow> Inr [] | Unreadable \<Rightarrow> Inl ErrRead | Malformed \<Rightarrow> Inl ErrParse | Content db \<Rightarrow> Inr db)"

definition loadDevices :: "PairFiles \<Rightarrow> pairing_error + PairedDevice list" where
  "loadDevices s = (case devicesFile s of
      Missing \<Rightarrow> Inr [] | Unreadable \<Rightarrow> Inl ErrRead | Malformed \<Rightarrow> Inl ErrParse | Content ds \<Rightarrow> Inr ds)"

definition saveTickets :: "bool \<Rightarrow> (string, Ticket) table \<Rightarrow> PairFiles \<Rightarrow> pairing_error option \<times> PairFiles" where
  "saveTickets io db s = (if io then (None, s\<lparr>ticketsFile := Content db\<rparr>) else (Some ErrWrite, s))"

definition saveDevices :: "bool \<Rightarrow> PairedDevice list \<Rightarrow> PairFiles \<Rightarrow> pairing_error option \<times> PairFiles" where
  "saveDevices io ds s = (if io then (None, s\<lparr>devicesFile := Content ds\<rparr>) else (Some ErrWrite, s))"

definition storageHints :: "PairFiles \<Rightarrow> pairing_error + ConnectionHints" where
  "storageHints s = (case storageFile s of
      Missing \<Rightarrow> Inr \<lparr>ch_Bucket = [], ch_Region = [], ch_Endpoint = [], ch_UseSSL = False\<rparr>
    | Unreadable \<Rightarrow> Inl ErrRead | Malformed \<Rightarrow> Inl ErrParse
    | Content c \<Rightarrow> Inr \<lparr>ch_Bucket = (if sc_Bucket c = [] then sc_BucketName c else sc_Bucket c),
                      ch_Region = sc_Region c, ch_Endpoint = sc_Endpoint c, ch_UseSSL = sc_UseSSL c\<rparr>)"

definition fingerprintPubKey :: "prims \<Rightarrow> string \<Rightarrow> pairing_error + (string \<times> string)" where
  "fingerprintPubKey pr b64 =
     (let b = TrimSpace b64
      in if b = [] then Inl ErrBadDeviceKey
         else case (case StdDecode pr b of Some raw \<Rightarrow> Some raw | None \<Rightarrow> RawURLDecode pr b) of
                None \<Rightarrow> Inl ErrBadDeviceKey
              | Some raw \<Rightarrow>
                  if length raw < 32 \<or> length raw > 512 then Inl ErrBadDeviceKey
                  else Inr (EncodeToString (Sum256 pr raw), StdEncode pr raw))"

definition pruneExpired :: "int \<Rightarrow> (string, Ticket) table \<Rightarrow> (string, Ticket) table" where
  "pruneExpired now db = filter (\<lambda>(tok, t). \<not> now > t_ExpiresAt t) db"

subsection \<open>Tokens\<close>

definition crockfordAlphabet :: string where
  "crockfordAlphabet = ''23456789ABCDEFGHJKMNPQRSTVWXYZ''"

text \<open>
  \<open>raw\<close> is the 32 random bytes and \<open>ns\<close> the eight random indices below the alphabet's
  size; either is missing when the random source fails.
\<close>

definition newToken :: "prims \<Rightarrow> bytes option \<Rightarrow> nat list option \<Rightarrow> pairing_error + (string \<times> string)" where
  "newToken pr raw ns =
     (case raw of
        None \<Rightarrow> Inl ErrRandom
      | Some bs \<Rightarrow>
          (case ns of
             None \<Rightarrow> Inl ErrRandom
           | Some is \<Rightarrow>
               let seg = (\<lambda>js. map (\<lambda>i. crockfordAlphabet ! (i mod length crockfordAlphabet)) js)
               in Inr (RawURLEncode pr bs, ''VULOS-'' @ seg (take 4 is) @ ''-'' @ seg (take 4 (drop 4 is)))))"

subsection \<open>Issue and Claim\<close>

definition clampTTL :: "int \<Rightarrow> int" where
  "clampTTL ttl = (let t = (if ttl \<le> 0 then DefaultTTL else ttl) in if t > MaxTTL then MaxTTL else t)"

record pair_env =
  e_seed :: "bytes option"
  e_token :: "bytes option"
  e_code :: "nat list option"
  e_io :: "nat \<Rightarrow> bool"
  e_now :: int
  e_later :: int

definition Issue :: "prims \<Rightarrow> pair_env \<Rightarrow> PairFiles \<Rightarrow> string \<Rightarrow> string \<Rightarrow> int \<Rightarrow> (pairing_error + Ticket) \<times> PairFiles" where
  "Issue pr e s issuerDeviceID deviceName ttl =
     (case authorityPriv pr (e_seed e) (e_io e 0) s of
        (Inl er, s1) \<Rightarrow> (Inl er, s1)
      | (Inr priv, s1) \<Rightarrow>
          (case newToken pr (e_token e) (e_code e) of
             Inl er \<Rightarrow> (Inl er, s1)
           | Inr (token, shortCode) \<Rightarrow>
               let t0 = \<lparr>t_Token = token, t_ShortCode = shortCode, t_IssuerDeviceID = TrimSpace issuerDeviceID,
                         t_DeviceName = TrimSpace deviceName, t_CreatedAt = e_now e, t_ExpiresAt = e_now e + clampTTL ttl, t_Sig = []\<rparr>;
                   t = t0\<lparr>t_Sig := signCanonical pr priv (sigPayload t0)\<rparr>
               in case loadTickets s1 of
                    Inl er \<Rightarrow> (Inl er, s1)
                  | Inr db \<Rightarrow>
                      (case saveTickets (e_io e 1) (upsert token t (pruneExpired (e_later e) db)) s1 of
                         (Some er, s2) \<Rightarrow> (Inl er, s2)
                       | (None, s2) \<Rightarrow> (Inr t, s2))))"

definition recordDevice :: "bool \<Rightarrow> PairFiles \<Rightarrow> PairedDevice \<Rightarrow> pairing_error option \<times> PairFiles" where
  "recordDevice io s d =
     (case loadDevices s of
        Inl er \<Rightarrow> (Some er, s)
      | Inr devices \<Rightarrow>
          (case List.extract (\<lambda>x. pd_DeviceID x = pd_DeviceID d) devices of
             Some (before, _, after) \<Rightarrow> saveDevices io (before @ d # after) s
           | None \<Rightarrow>
               if length devices \<ge> maxPairedDevices then (Some ErrCapacity, s)
               else saveDevices io (devices @ [d]) s))"

definition dropToken :: "string \<Rightarrow> (string, Ticket) table \<Rightarrow> (string, Ticket) table" where
  "dropToken token db = delete_where (\<lambda>k. k = token) db"

definition Claim ::
  "prims \<Rightarrow> pair_env \<Rightarrow> PairFiles \<Rightarrow> string \<Rightarrow> string \<Rightarrow> string \<Rightarrow> (pairing_error + ClaimResult) \<times> PairFiles" where
  "Claim pr e s tokenArg deviceName devicePubKeyB64 =
     (let token = TrimSpace tokenArg
      in if token = [] then (Inl ErrInvalid, s)
         else case fingerprintPubKey pr devicePubKeyB64 of
           Inl er \<Rightarrow> (Inl er, s)
         | Inr (fingerprint, canonicalPubB64) \<Rightarrow>
           (case authorityPriv pr (e_seed e) (e_io e 0) s of
              (Inl er, s1) \<Rightarrow> (Inl er, s1)
            | (Inr priv, s1) \<Rightarrow>
              (case storageHints s1 of
                 Inl er \<Rightarrow> (Inl er, s1)
               | Inr hints \<Rightarrow>
                 (case loadTickets s1 of
                    Inl er \<Rightarrow> (Inl er, s1)
                  | Inr db \<Rightarrow>
                    (case map_of db token of
                       None \<Rightarrow> (Inl ErrInvalid, s1)
                     | Some t \<Rightarrow>
                       if e_now e > t_ExpiresAt t
                       then (Inl ErrExpired, snd (saveTickets (e_io e 1) (dropToken token db) s1))
                       else if verifyCanonical pr (Public pr priv) (sigPayload t) (t_Sig t) \<noteq> None
                       then (Inl ErrTampered, snd (saveTickets (e_io e 1) (dropToken token db) s1))
                       else if t_IssuerDeviceID t \<noteq> [] \<and> fingerprint = t_IssuerDeviceID t then (Inl ErrSelfPair, s1)
                       else
                         (case saveTickets (e_io e 1) (dropToken token db) s1 of
                            (Some er, s2) \<Rightarrow> (Inl er, s2)
                          | (None, s2) \<Rightarrow>
                              let name = (if TrimSpace deviceName = [] then t_DeviceName t else TrimSpace deviceName);
                                  pairedAt = e_later e;
                                  approvalSig = signCanonical pr priv
                                    (attestationPayload ''pairing-enrolment-v1'' fingerprint canonicalPubB64 (t_IssuerDeviceID t) pairedAt);
                                  s3 = snd (recordDevice (e_io e 2) s2
                                    \<lparr>pd_DeviceID = fingerprint, pd_Name = name, pd_PublicKey = canonicalPubB64,
                                     pd_IssuerDeviceID = t_IssuerDeviceID t, pd_ApprovalSig = approvalSig, pd_PairedAt = pairedAt,
                                     pd_Revoked = False, pd_RevokedAt = None\<rparr>)
                              in (Inr \<lparr>cr_Status = ''enrolled'', cr_DeviceID = fingerprint, cr_IssuerDeviceID = t_IssuerDeviceID t,
                                       cr_ApprovalSig = approvalSig, cr_Hints = hints, cr_RequiresPassphrase = True\<rparr>, s3)))))))"

subsection \<open>The audit store\<close>

definition ListPairedDevices :: "PairFiles \<Rightarrow> pairing_error + PairedDevice list" where
  "ListPairedDevices s = loadDevices s"

definition GetPairedDevice :: "PairFiles \<Rightarrow> string \<Rightarrow> pairing_error + PairedDevice option" where
  "GetPairedDevice s deviceID =
     (case loadDevices s of Inl er \<Rightarrow> Inl er | Inr ds \<Rightarrow> Inr (find (\<lambda>d. pd_DeviceID d = deviceID) ds))"

definition revokeDev :: "int \<Rightarrow> string \<Rightarrow> PairedDevice \<Rightarrow> PairedDevice" where
  "revokeDev now deviceID d =
     (if pd_DeviceID d = deviceID \<and> \<not> pd_Revoked d then d\<lparr>pd_Revoked := True, pd_RevokedAt := Some now\<rparr> else d)"

definition MarkRevoked :: "int \<Rightarrow> bool \<Rightarrow> PairFiles \<Rightarrow> string \<Rightarrow> pairing_error option \<times> PairFiles" where
  "MarkRevoked now io s deviceID =
     (case loadDevices s of
        Inl er \<Rightarrow> (Some er, s)
      | Inr devices \<Rightarrow>
          if \<not> (\<exists>d \<in> set devices. pd_DeviceID d = deviceID) then (Some ErrUnknownDevice, s)
          else saveDevices io (map (revokeDev now deviceID) devices) s)"

definition ForgetPairedDevice :: "bool \<Rightarrow> PairFiles \<Rightarrow> string \<Rightarrow> (bool \<times> pairing_error option) \<times> PairFiles" where
  "ForgetPairedDevice io s deviceID =
     (case loadDevices s of
        Inl er \<Rightarrow> ((False, Some er), s)
      | Inr devices \<Rightarrow>
          if \<not> (\<exists>d \<in> set devices. pd_DeviceID d = deviceID) then ((False, None), s)
          else case saveDevices io (filter (\<lambda>d. pd_DeviceID d \<noteq> deviceID) devices) s of
                 (er, s') \<Rightarrow> ((True, er), s'))"

subsection \<open>What a successful or failed claim did\<close>

lemma authorityPriv_frame:
  assumes "authorityPriv pr rnd io s = (r, s')"
  shows "ticketsFile s' = ticketsFile s" "devicesFile s' = devicesFile s" "storageFile s' = storageFile s"
  using assms by (auto simp: authorityPriv_def split: diskFile.splits option.splits if_splits)

lemma recordDevice_frame: "ticketsFile (snd (recordDevice io s d)) = ticketsFile s" "authKeyFile (snd (recordDevice io s d)) = authKeyFile s"
  by (auto simp: recordDevice_def saveDevices_def split: sum.splits option.splits prod.splits)

lemma loadTickets_cong: "ticketsFile s' = ticketsFile s \<Longrightarrow> loadTickets s' = loadTickets s"
  by (simp add: loadTickets_def)

lemma Claim_Inr:
  assumes "Claim pr e s tokenArg name key = (Inr res, s')"
  obtains fp cpub priv s1 hints db t where "TrimSpace tokenArg \<noteq> []" "fingerprintPubKey pr key = Inr (fp, cpub)"
    "authorityPriv pr (e_seed e) (e_io e 0) s = (Inr priv, s1)" "storageHints s1 = Inr hints" "loadTickets s = Inr db"
    "map_of db (TrimSpace tokenArg) = Some t" "e_now e \<le> t_ExpiresAt t"
    "verifyCanonical pr (Public pr priv) (sigPayload t) (t_Sig t) = None"
    "\<not> (t_IssuerDeviceID t \<noteq> [] \<and> fp = t_IssuerDeviceID t)" "e_io e 1"
    "ticketsFile s' = Content (dropToken (TrimSpace tokenArg) db)" "authKeyFile s' = authKeyFile s1"
    "cr_DeviceID res = fp" "cr_IssuerDeviceID res = t_IssuerDeviceID t" "cr_RequiresPassphrase res" "cr_Hints res = hints"
    "devicesFile s' = devicesFile (snd (recordDevice (e_io e 2) s1
       \<lparr>pd_DeviceID = fp, pd_Name = (if TrimSpace name = [] then t_DeviceName t else TrimSpace name), pd_PublicKey = cpub,
        pd_IssuerDeviceID = t_IssuerDeviceID t, pd_ApprovalSig = cr_ApprovalSig res, pd_PairedAt = e_later e,
        pd_Revoked = False, pd_RevokedAt = None\<rparr>))"
proof -
  let ?tok = "TrimSpace tokenArg"
  have t: "?tok \<noteq> []" using assms by (auto simp: Claim_def Let_def split: if_splits)
  obtain fp cpub where fp: "fingerprintPubKey pr key = Inr (fp, cpub)"
    using assms t by (cases "fingerprintPubKey pr key") (auto simp: Claim_def Let_def)
  obtain priv s1 where a: "authorityPriv pr (e_seed e) (e_io e 0) s = (Inr priv, s1)"
    using assms t fp by (cases "authorityPriv pr (e_seed e) (e_io e 0) s"; cases "fst (authorityPriv pr (e_seed e) (e_io e 0) s)")
      (auto simp: Claim_def Let_def)
  note fr = authorityPriv_frame [OF a]
  obtain hints where h: "storageHints s1 = Inr hints" using assms t fp a
    by (cases "storageHints s1") (auto simp: Claim_def Let_def)
  obtain db where db: "loadTickets s1 = Inr db" using assms t fp a h
    by (cases "loadTickets s1") (auto simp: Claim_def Let_def)
  obtain tk where tk: "map_of db ?tok = Some tk" using assms t fp a h db
    by (cases "map_of db ?tok") (auto simp: Claim_def Let_def)
  have c: "\<not> e_now e > t_ExpiresAt tk" "verifyCanonical pr (Public pr priv) (sigPayload tk) (t_Sig tk) = None"
    "\<not> (t_IssuerDeviceID tk \<noteq> [] \<and> fp = t_IssuerDeviceID tk)" "e_io e 1"
    using assms t fp a h db tk by (auto simp: Claim_def Let_def saveTickets_def split: if_splits)
  have R: "devicesFile (snd (recordDevice io (s1\<lparr>ticketsFile := x\<rparr>) d)) = devicesFile (snd (recordDevice io s1 d))" for io x d
    by (simp add: recordDevice_def loadDevices_def saveDevices_def split: diskFile.splits option.splits sum.splits prod.splits)
  show thesis using assms t fp a h db tk c fr loadTickets_cong [OF fr(1)]
    by (intro that [OF t fp a h _ tk _ c(2,3)])
      (auto simp: Claim_def Let_def saveTickets_def recordDevice_frame R split: if_splits)
qed

end
