(* ===== verification/Pairing_Run.thy ===== *)
theory Pairing_Run
  imports Pairing
begin

text \<open>
  Sequences of calls on the pairing package and what they guarantee: a ticket is redeemed
  at most once per issue, a claim succeeds only for a live, signed, foreign ticket, a
  ticket that was issued can be claimed, and the audit store stays bounded.
\<close>

subsection \<open>Runs\<close>

datatype pair_call =
    CIssue pair_env string string int
  | CClaim pair_env string string string
  | CRevoke int bool string
  | CForget bool string
  | CPublicKey "bytes option" bool

datatype pair_event = Issued string | Claimed string | Other

definition pair_step :: "prims \<Rightarrow> pair_call \<Rightarrow> PairFiles \<Rightarrow> pair_event \<times> PairFiles" where
  "pair_step pr c s =
     (case c of
        CIssue e dev name ttl \<Rightarrow>
          (case Issue pr e s dev name ttl of (r, s') \<Rightarrow> (case r of Inl _ \<Rightarrow> Other | Inr t \<Rightarrow> Issued (t_Token t), s'))
      | CClaim e tok name key \<Rightarrow>
          (case Claim pr e s tok name key of (r, s') \<Rightarrow> (case r of Inl _ \<Rightarrow> Other | Inr _ \<Rightarrow> Claimed (TrimSpace tok), s'))
      | CRevoke now io d \<Rightarrow> (Other, snd (MarkRevoked now io s d))
      | CForget io d \<Rightarrow> (Other, snd (ForgetPairedDevice io s d))
      | CPublicKey rnd io \<Rightarrow> (Other, snd (AuthorityPublicKey pr rnd io s)))"

definition has_ticket :: "string \<Rightarrow> PairFiles \<Rightarrow> bool" where
  "has_ticket tok s \<longleftrightarrow> (\<exists>db. ticketsFile s = Content db \<and> tok \<in> fst ` set db)"

definition stored :: "PairFiles \<Rightarrow> Ticket set" where
  "stored s = (case ticketsFile s of Content db \<Rightarrow> snd ` set db | _ \<Rightarrow> {})"

subsection \<open>What each operation does to the files\<close>

lemma Issue_cases:
  assumes "Issue pr e s dev name ttl = (r, s')"
  obtains (Failed) er where "r = Inl er" "ticketsFile s' = ticketsFile s" "devicesFile s' = devicesFile s"
      "authKeyFile s' = authKeyFile s \<or> (\<exists>seed. e_seed e = Some seed \<and> authKeyFile s = Missing \<and> authKeyFile s' = Content seed)"
  | (Done) t priv s1 db bs code where "r = Inr t" "authorityPriv pr (e_seed e) (e_io e 0) s = (Inr priv, s1)"
      "loadTickets s = Inr db" "e_token e = Some bs" "newToken pr (e_token e) (e_code e) = Inr (t_Token t, code)"
      "t = \<lparr>t_Token = RawURLEncode pr bs, t_ShortCode = code, t_IssuerDeviceID = TrimSpace dev, t_DeviceName = TrimSpace name,
            t_CreatedAt = e_now e, t_ExpiresAt = e_now e + clampTTL ttl, t_Sig = signCanonical pr priv (sigPayload t)\<rparr>"
      "s' = s1\<lparr>ticketsFile := Content (upsert (t_Token t) t (pruneExpired (e_later e) db))\<rparr>"
proof (cases r)
  case (Inl er)
  from assms Inl show thesis
    by (intro Failed [of er])
      (auto simp: Issue_def Let_def authorityPriv_def saveTickets_def split: diskFile.splits option.splits if_splits sum.splits prod.splits)
next
  case (Inr t)
  obtain priv s1 where a: "authorityPriv pr (e_seed e) (e_io e 0) s = (Inr priv, s1)"
    using assms Inr by (cases "authorityPriv pr (e_seed e) (e_io e 0) s"; cases "fst (authorityPriv pr (e_seed e) (e_io e 0) s)")
      (auto simp: Issue_def)
  obtain tok code where n: "newToken pr (e_token e) (e_code e) = Inr (tok, code)"
    using assms Inr a by (cases "newToken pr (e_token e) (e_code e)") (auto simp: Issue_def)
  then obtain bs where bs: "e_token e = Some bs" "tok = RawURLEncode pr bs"
    by (auto simp: newToken_def Let_def split: option.splits)
  obtain db where db: "loadTickets s1 = Inr db" using assms Inr a n
    by (cases "loadTickets s1") (auto simp: Issue_def Let_def)
  have io: "e_io e 1" using assms Inr a n db by (auto simp: Issue_def Let_def saveTickets_def split: if_splits)
  have t: "t = \<lparr>t_Token = tok, t_ShortCode = code, t_IssuerDeviceID = TrimSpace dev, t_DeviceName = TrimSpace name,
            t_CreatedAt = e_now e, t_ExpiresAt = e_now e + clampTTL ttl, t_Sig = signCanonical pr priv (sigPayload t)\<rparr>"
    and s': "s' = s1\<lparr>ticketsFile := Content (upsert tok t (pruneExpired (e_later e) db))\<rparr>"
    using assms Inr a n db io by (auto simp: Issue_def Let_def saveTickets_def sigPayload_def)
  have tk: "t_Token t = tok" using arg_cong [OF t, of t_Token] by simp
  show thesis
    using Done [of t priv s1 db bs code] Inr a n db loadTickets_cong [OF authorityPriv_frame(1) [OF a]] bs t s' tk by simp
qed

lemma Claim_Inl:
  assumes "Claim pr e s tokenArg name key = (Inl er, s')"
  obtains (Kept) "ticketsFile s' = ticketsFile s" "devicesFile s' = devicesFile s"
  | (Dropped) db where "er \<in> {ErrExpired, ErrTampered}" "loadTickets s = Inr db" "devicesFile s' = devicesFile s"
      "ticketsFile s' = Content (dropToken (TrimSpace tokenArg) db)"
proof -
  obtain ra s1 where a: "authorityPriv pr (e_seed e) (e_io e 0) s = (ra, s1)" by (cases "authorityPriv pr (e_seed e) (e_io e 0) s")
  note fr = authorityPriv_frame [OF a] and lt = loadTickets_cong [OF authorityPriv_frame(1) [OF a]]
  show thesis
  proof (cases "ticketsFile s' = ticketsFile s \<and> devicesFile s' = devicesFile s")
    case False
    then obtain db where "er \<in> {ErrExpired, ErrTampered} \<and> loadTickets s = Inr db \<and> devicesFile s' = devicesFile s \<and>
        ticketsFile s' = Content (dropToken (TrimSpace tokenArg) db)"
      using assms a fr lt
      by (auto simp: Claim_def Let_def saveTickets_def recordDevice_frame split: if_splits sum.splits option.splits prod.splits)
    then show thesis by (intro Dropped) auto
  qed (intro Kept; simp)
qed

lemma Issue_effect: "Issue pr e s dev name ttl = (r, s') \<Longrightarrow> devicesFile s' = devicesFile s"
  by (erule Issue_cases) (auto dest: authorityPriv_frame)

lemma MarkRevoked_frame: "ticketsFile (snd (MarkRevoked now io s d)) = ticketsFile s" "authKeyFile (snd (MarkRevoked now io s d)) = authKeyFile s"
  by (auto simp: MarkRevoked_def saveDevices_def split: sum.splits)

lemma ForgetPairedDevice_frame: "ticketsFile (snd (ForgetPairedDevice io s d)) = ticketsFile s"
  "authKeyFile (snd (ForgetPairedDevice io s d)) = authKeyFile s"
  by (auto simp: ForgetPairedDevice_def saveDevices_def split: sum.splits prod.splits)

lemma AuthorityPublicKey_frame:
  "ticketsFile (snd (AuthorityPublicKey pr rnd io s)) = ticketsFile s" "devicesFile (snd (AuthorityPublicKey pr rnd io s)) = devicesFile s"
  by (auto simp: AuthorityPublicKey_def dest: authorityPriv_frame split: sum.splits prod.splits)

lemmas pair_frames = MarkRevoked_frame ForgetPairedDevice_frame AuthorityPublicKey_frame

subsection \<open>One-time tickets\<close>

lemma loadTickets_has: "loadTickets s = Inr db \<Longrightarrow> has_ticket k s \<longleftrightarrow> k \<in> fst ` set db"
  by (auto simp: loadTickets_def has_ticket_def split: diskFile.splits)

lemma keys_dropToken: "fst ` set (dropToken tok db) = fst ` set db - {tok}"
  by (force simp: dropToken_def delete_where_def)

lemma keys_upsert: "fst ` set (upsert k r t) = insert k (fst ` set t)"
  unfolding upsert_def by (induction t) auto

lemma keys_pruneExpired: "fst ` set (pruneExpired now db) \<subseteq> fst ` set db"
  by (auto simp: pruneExpired_def)

lemma pair_step_account:
  assumes "pair_step pr c s = (ev, s')"
  shows "of_bool (ev = Claimed k) + of_bool (has_ticket k s') \<le> of_bool (ev = Issued k) + (of_bool (has_ticket k s) :: nat)"
proof (cases c)
  case (CIssue e dev name ttl)
  then obtain r where i: "Issue pr e s dev name ttl = (r, s')" "ev = (case r of Inl _ \<Rightarrow> Other | Inr t \<Rightarrow> Issued (t_Token t))"
    using assms by (auto simp: pair_step_def split: prod.splits)
  from i(1) show ?thesis
  proof (cases rule: Issue_cases)
    case (Failed er)
    then show ?thesis using i(2) by (simp add: has_ticket_def)
  next
    case (Done t priv s1 db bs code)
    have "has_ticket k s' \<longleftrightarrow> k = t_Token t \<or> k \<in> fst ` set (pruneExpired (e_later e) db)"
      using Done(7) by (simp add: has_ticket_def keys_upsert)
    then show ?thesis using Done(1) i(2) keys_pruneExpired [of "e_later e" db] loadTickets_has [OF Done(3), of k]
      by (auto simp: of_bool_def)
  qed
next
  case (CClaim e tok name key)
  then obtain r where cl: "Claim pr e s tok name key = (r, s')" "ev = (case r of Inl _ \<Rightarrow> Other | Inr _ \<Rightarrow> Claimed (TrimSpace tok))"
    using assms by (auto simp: pair_step_def split: prod.splits)
  show ?thesis
  proof (cases r)
    case (Inl er)
    from cl(1) [unfolded Inl] show ?thesis
      by (cases rule: Claim_Inl) (use cl(2) Inl in \<open>auto simp: has_ticket_def keys_dropToken of_bool_def dest: loadTickets_has [unfolded has_ticket_def]\<close>)
  next
    case (Inr res)
    from cl(1) [unfolded Inr] obtain db t where db: "loadTickets s = Inr db" "map_of db (TrimSpace tok) = Some t"
      "ticketsFile s' = Content (dropToken (TrimSpace tok) db)" by (rule Claim_Inr)
    have "TrimSpace tok \<in> fst ` set db" using db(2) by (metis domI dom_map_of_conv_image_fst)
    then show ?thesis using db(3) loadTickets_has [OF db(1), of k] cl(2) Inr
      by (auto simp: has_ticket_def keys_dropToken of_bool_def)
  qed
qed (use assms in \<open>auto simp: pair_step_def has_ticket_def pair_frames\<close>)

interpretation tickets: token_store "pair_step pr" "\<lambda>k ev. ev = Issued k" "\<lambda>k ev. ev = Claimed k" has_ticket for pr
  by unfold_locales (rule pair_step_account)

text \<open>
  Claim C9. Over any sequence of issues, claims, revocations, removals and key reads, on any
  files and with any file-write failures, a token is redeemed at most as often as it was
  issued, counting once more if it was already stored at the start; so a ticket that was
  issued once enrols at most one device.
\<close>

theorem claim_single_use:
  "length (filter (\<lambda>ev. ev = Claimed k) (fst (runs (pair_step pr) cs s)))
     \<le> length (filter (\<lambda>ev. ev = Issued k) (fst (runs (pair_step pr) cs s))) + of_bool (has_ticket k s)"
  using tickets.runs_account [of pr cs s "fst (runs (pair_step pr) cs s)" "snd (runs (pair_step pr) cs s)" k]
  by simp

text \<open>
  When a claim succeeds, the ticket was stored under the trimmed token, had not
  expired, carries a signature of this box's authority key over its fields, and was not
  issued by the claiming device; the token is gone from the file, the answer names the
  fingerprint of the claimant's key, the ticket's issuer and the configured storage hints,
  and always asks for the passphrase.
\<close>

theorem claim_success_checks:
  assumes "Claim pr e s tok name key = (Inr res, s')"
  shows "\<exists>t priv s1 cpub. (\<exists>db. loadTickets s = Inr db \<and> map_of db (TrimSpace tok) = Some t)
    \<and> e_now e \<le> t_ExpiresAt t
    \<and> authorityPriv pr (e_seed e) (e_io e 0) s = (Inr priv, s1)
    \<and> verifyCanonical pr (Public pr priv) (sigPayload t) (t_Sig t) = None
    \<and> fingerprintPubKey pr key = Inr (cr_DeviceID res, cpub)
    \<and> (t_IssuerDeviceID t \<noteq> [] \<longrightarrow> cr_DeviceID res \<noteq> t_IssuerDeviceID t)
    \<and> cr_IssuerDeviceID res = t_IssuerDeviceID t \<and> storageHints s = Inr (cr_Hints res) \<and> cr_RequiresPassphrase res
    \<and> \<not> has_ticket (TrimSpace tok) s'"
proof -
  from assms obtain fp cpub priv s1 hints db t where *: "fingerprintPubKey pr key = Inr (fp, cpub)"
    "authorityPriv pr (e_seed e) (e_io e 0) s = (Inr priv, s1)" "storageHints s1 = Inr hints" "loadTickets s = Inr db"
    "map_of db (TrimSpace tok) = Some t" "e_now e \<le> t_ExpiresAt t"
    "verifyCanonical pr (Public pr priv) (sigPayload t) (t_Sig t) = None"
    "\<not> (t_IssuerDeviceID t \<noteq> [] \<and> fp = t_IssuerDeviceID t)"
    "ticketsFile s' = Content (dropToken (TrimSpace tok) db)"
    "cr_DeviceID res = fp" "cr_IssuerDeviceID res = t_IssuerDeviceID t" "cr_RequiresPassphrase res" "cr_Hints res = hints"
    by (rule Claim_Inr)
  have "storageHints s = Inr hints" using *(3) authorityPriv_frame(3) [OF *(2)] by (simp add: storageHints_def)
  then show ?thesis using * by (intro exI [of _ t] exI [of _ priv] exI [of _ s1] exI [of _ cpub]) (auto simp: has_ticket_def keys_dropToken)
qed

text \<open>
  A claim that fails records no device, and it removes no ticket except the
  claimed one when that is expired or not validly signed: an attempt by the issuer itself, a
  malformed key, a missing or unreadable file or a failed write leave every ticket to be
  claimed by another device.
\<close>

theorem claim_failure_frame:
  assumes "Claim pr e s tok name key = (Inl er, s')"
  shows "devicesFile s' = devicesFile s \<and> (k \<noteq> TrimSpace tok \<longrightarrow> has_ticket k s' = has_ticket k s)
    \<and> (er \<notin> {ErrExpired, ErrTampered} \<longrightarrow> ticketsFile s' = ticketsFile s)"
  using assms
proof (cases rule: Claim_Inl)
  case (Dropped db)
  then show ?thesis using loadTickets_has [OF Dropped(2), of k] by (auto simp: has_ticket_def keys_dropToken)
qed (simp add: has_ticket_def)

subsection \<open>The stored tickets\<close>

definition keyOf :: "prims \<Rightarrow> bytes \<Rightarrow> bytes" where
  "keyOf pr d = (if length d = 32 then NewKeyFromSeed pr d else d)"

definition ticket_ok :: "prims \<Rightarrow> bytes \<Rightarrow> string \<Rightarrow> Ticket \<Rightarrow> bool" where
  "ticket_ok pr d k t \<longleftrightarrow> k = t_Token t \<and> t_CreatedAt t < t_ExpiresAt t \<and> t_ExpiresAt t \<le> t_CreatedAt t + MaxTTL
     \<and> verifyCanonical pr (Public pr (keyOf pr d)) (sigPayload t) (t_Sig t) = None"

definition tickets_ok :: "prims \<Rightarrow> PairFiles \<Rightarrow> bool" where
  "tickets_ok pr s \<longleftrightarrow> (case authKeyFile s of
       Content d \<Rightarrow> length d \<in> {32, 64} \<and> (case ticketsFile s of Content db \<Rightarrow> \<forall>(k, t) \<in> set db. ticket_ok pr d k t | _ \<Rightarrow> True)
     | Missing \<Rightarrow> ticketsFile s = Missing
     | _ \<Rightarrow> False)"

text \<open>What the code relies on of \<open>ed25519\<close> and \<open>base64.RawURLEncoding\<close>.\<close>

definition prims_ok :: "prims \<Rightarrow> bool" where
  "prims_ok pr \<longleftrightarrow> (\<forall>priv v. length (Sign pr priv v) = 64 \<and> Verify pr (Public pr priv) v (Sign pr priv v))
     \<and> (\<forall>b. RawURLDecode pr (RawURLEncode pr b) = Some b) \<and> (\<forall>b. TrimSpace (RawURLEncode pr b) = RawURLEncode pr b)"

definition seed_ok :: "bytes option \<Rightarrow> bool" where
  "seed_ok r \<longleftrightarrow> (case r of None \<Rightarrow> True | Some b \<Rightarrow> length b = 32)"

definition pair_call_ok :: "pair_call \<Rightarrow> bool" where
  "pair_call_ok c \<longleftrightarrow> (case c of CIssue e _ _ _ \<Rightarrow> seed_ok (e_seed e) | CClaim e _ _ _ \<Rightarrow> seed_ok (e_seed e)
     | CPublicKey r _ \<Rightarrow> seed_ok r | _ \<Rightarrow> True)"

lemma verify_signed: "prims_ok pr \<Longrightarrow> verifyCanonical pr (Public pr priv) v (signCanonical pr priv v) = None"
  by (simp add: prims_ok_def verifyCanonical_def signCanonical_def)

lemma clampTTL_bounds: "0 < clampTTL ttl" "clampTTL ttl \<le> MaxTTL"
  by (auto simp: clampTTL_def DefaultTTL_def MaxTTL_def Let_def)

lemma tickets_ok_load:
  "tickets_ok pr s \<Longrightarrow> authKeyFile s = Content d \<Longrightarrow> loadTickets s = Inr db \<Longrightarrow> \<forall>(k, t) \<in> set db. ticket_ok pr d k t"
  by (auto simp: tickets_ok_def loadTickets_def split: diskFile.splits)

lemma authorityPriv_ok:
  assumes "authorityPriv pr rnd io s = (r, s1)" "tickets_ok pr s" "seed_ok rnd"
  shows "tickets_ok pr s1 \<and> (\<forall>priv. r = Inr priv \<longrightarrow> (\<exists>d. authKeyFile s1 = Content d \<and> priv = keyOf pr d))"
  using assms by (auto simp: authorityPriv_def tickets_ok_def keyOf_def seed_ok_def split: diskFile.splits option.splits if_splits)

lemma tickets_ok_set:
  assumes "tickets_ok pr s" "authKeyFile s' = authKeyFile s" "authKeyFile s = Content d" "ticketsFile s' = Content db" "\<forall>(k, t) \<in> set db. ticket_ok pr d k t"
  shows "tickets_ok pr s'"
  using assms by (simp add: tickets_ok_def)

lemma tickets_ok_cong:
  "tickets_ok pr s \<Longrightarrow> ticketsFile s' = ticketsFile s \<Longrightarrow> authKeyFile s' = authKeyFile s \<Longrightarrow> tickets_ok pr s'"
  unfolding tickets_ok_def by metis

lemma set_upsert: "set (upsert k r t) \<subseteq> insert (k, r) (set t)"
  unfolding upsert_def by (induction t) auto

lemma Issue_tickets_ok:
  assumes "prims_ok pr" "tickets_ok pr s" "seed_ok (e_seed e)" "Issue pr e s dev name ttl = (r, s')"
  shows "tickets_ok pr s'"
  using assms(4)
proof (cases rule: Issue_cases)
  case (Failed er)
  then show ?thesis using assms(2,3) by (auto simp: tickets_ok_def seed_ok_def split: diskFile.splits)
next
  case (Done t priv s1 db bs code)
  note ap = authorityPriv_ok [OF Done(2) assms(2,3)]
  then obtain d where d: "authKeyFile s1 = Content d" "priv = keyOf pr d" by auto
  have "loadTickets s1 = Inr db" using Done(3) loadTickets_cong [OF authorityPriv_frame(1) [OF Done(2)]] by simp
  then have db: "\<forall>(k, t) \<in> set db. ticket_ok pr d k t" using tickets_ok_load d ap by blast
  have t: "t_Sig t = signCanonical pr priv (sigPayload t)" "t_CreatedAt t = e_now e" "t_ExpiresAt t = e_now e + clampTTL ttl"
    using arg_cong [OF Done(6), of t_Sig] arg_cong [OF Done(6), of t_CreatedAt] arg_cong [OF Done(6), of t_ExpiresAt] by simp_all
  have new: "ticket_ok pr d (t_Token t) t"
    using clampTTL_bounds [of ttl] verify_signed [OF assms(1), of priv "sigPayload t"] d(2) by (simp add: ticket_ok_def t)
  have "\<forall>(k, u) \<in> set (upsert (t_Token t) t (pruneExpired (e_later e) db)). ticket_ok pr d k u"
    using set_upsert [of "t_Token t" t "pruneExpired (e_later e) db"] db new by (auto simp: pruneExpired_def)
  then show ?thesis using tickets_ok_set [of pr s1 s' d] ap d(1) Done(7) by simp
qed

lemma Claim_authKey:
  assumes "authorityPriv pr (e_seed e) (e_io e 0) s = (ra, s1)" "Claim pr e s tok name key = (r, s')"
  shows "(authKeyFile s' = authKeyFile s1 \<or> s' = s) \<and> (ticketsFile s' = ticketsFile s \<or> (\<exists>priv. ra = Inr priv))"
  using assms by (auto simp: Claim_def Let_def saveTickets_def recordDevice_frame dest: authorityPriv_frame(1) split: if_splits sum.splits option.splits prod.splits)

lemma Claim_tickets_ok:
  assumes "tickets_ok pr s" "seed_ok (e_seed e)" "Claim pr e s tok name key = (r, s')"
  shows "tickets_ok pr s'"
proof (cases "s' = s")
  case False
  obtain ra s1 where a: "authorityPriv pr (e_seed e) (e_io e 0) s = (ra, s1)" by (cases "authorityPriv pr (e_seed e) (e_io e 0) s")
  have k: "authKeyFile s' = authKeyFile s1" using Claim_authKey [OF a assms(3)] False by blast
  have ok: "tickets_ok pr s1" using authorityPriv_ok [OF a assms(1,2)] by simp
  have "ticketsFile s' = ticketsFile s \<or> (\<exists>db. loadTickets s = Inr db \<and> ticketsFile s' = Content (dropToken (TrimSpace tok) db))"
  proof (cases r)
    case (Inl er)
    from assms(3) [unfolded Inl] show ?thesis by (cases rule: Claim_Inl) auto
  next
    case (Inr res)
    from assms(3) [unfolded Inr] show ?thesis by (rule Claim_Inr) auto
  qed
  then consider "ticketsFile s' = ticketsFile s"
    | db d where "loadTickets s1 = Inr db" "ticketsFile s' = Content (dropToken (TrimSpace tok) db)" "authKeyFile s1 = Content d"
    using loadTickets_cong [OF authorityPriv_frame(1) [OF a]] Claim_authKey [OF a assms(3)] authorityPriv_ok [OF a assms(1,2)] by metis
  then show ?thesis
  proof cases
    case 1
    then show ?thesis using tickets_ok_cong [OF ok _ k] authorityPriv_frame(1) [OF a] by simp
  next
    case 2
    then show ?thesis using tickets_ok_set [OF ok k 2(3,2)] tickets_ok_load [OF ok 2(3,1)]
      by (auto simp: dropToken_def delete_where_def)
  qed
qed (use assms in simp)

lemma pair_step_tickets_ok:
  assumes "pair_call_ok c" "prims_ok pr \<longrightarrow> tickets_ok pr s" "pair_step pr c s = (ev, s')"
  shows "prims_ok pr \<longrightarrow> tickets_ok pr s'"
proof
  assume p: "prims_ok pr"
  then have ok: "tickets_ok pr s" using assms(2) by simp
  show "tickets_ok pr s'"
  proof (cases c)
    case (CIssue e dev name ttl)
    then show ?thesis using assms(1,3) Issue_tickets_ok [OF p ok, of e] by (auto simp: pair_step_def pair_call_ok_def split: prod.splits)
  next
    case (CClaim e tok name key)
    then show ?thesis using assms(1,3) Claim_tickets_ok [OF ok, of e] by (auto simp: pair_step_def pair_call_ok_def split: prod.splits)
  next
    case (CPublicKey r io)
    then show ?thesis using assms(1,3) authorityPriv_ok [OF _ ok, of r io] by (auto simp: pair_step_def pair_call_ok_def AuthorityPublicKey_def split: prod.splits sum.splits)
  qed (use assms tickets_ok_cong [OF ok] in \<open>auto simp: pair_step_def pair_frames\<close>)
qed

interpretation tickets_kept: kept "pair_step pr" pair_call_ok "\<lambda>s. prims_ok pr \<longrightarrow> tickets_ok pr s" for pr
  by unfold_locales (rule pair_step_tickets_ok)

subsection \<open>The audit store\<close>

definition devices_ok :: "PairFiles \<Rightarrow> bool" where
  "devices_ok s \<longleftrightarrow> (case devicesFile s of
      Content ds \<Rightarrow> distinct (map pd_DeviceID ds) \<and> length ds \<le> maxPairedDevices | _ \<Rightarrow> True)"

lemma devices_ok_cong: "devices_ok s \<Longrightarrow> devicesFile s' = devicesFile s \<Longrightarrow> devices_ok s'"
  by (simp add: devices_ok_def)

lemma recordDevice_ok: "devices_ok s \<Longrightarrow> devices_ok (snd (recordDevice io s d))"
  by (auto simp: devices_ok_def recordDevice_def loadDevices_def saveDevices_def extract_Some_iff extract_None_iff
      maxPairedDevices_def split: diskFile.splits option.splits prod.splits) (metis disjoint_iff image_eqI)

lemma revokeDev_id [simp]: "pd_DeviceID (revokeDev now i d) = pd_DeviceID d"
  by (simp add: revokeDev_def)

lemma MarkRevoked_ok: "devices_ok s \<Longrightarrow> devices_ok (snd (MarkRevoked now io s i))"
  by (auto simp: devices_ok_def MarkRevoked_def loadDevices_def saveDevices_def comp_def split: diskFile.splits)

lemma ForgetPairedDevice_ok: "devices_ok s \<Longrightarrow> devices_ok (snd (ForgetPairedDevice io s i))"
  by (auto simp: devices_ok_def ForgetPairedDevice_def loadDevices_def saveDevices_def distinct_map_filter
      split: diskFile.splits intro: order.trans [OF length_filter_le])

lemma Claim_devices_ok:
  assumes "devices_ok s" "Claim pr e s tok name key = (r, s')"
  shows "devices_ok s'"
proof (cases r)
  case (Inl er)
  from assms(2) [unfolded Inl] show ?thesis by (cases rule: Claim_Inl) (use assms(1) in \<open>auto simp: devices_ok_def\<close>)
next
  case (Inr res)
  from assms(2) [unfolded Inr] obtain d s1 where "devicesFile s' = devicesFile (snd (recordDevice (e_io e 2) s1 d))"
    "devicesFile s1 = devicesFile s" by (rule Claim_Inr) (blast dest: authorityPriv_frame(2))
  then show ?thesis using devices_ok_cong [OF recordDevice_ok] devices_ok_cong [OF assms(1)] by blast
qed

interpretation devices_kept: kept "pair_step pr" "\<lambda>_. True" devices_ok for pr
proof unfold_locales
  fix c s ev s'
  assume "devices_ok s" "pair_step pr c s = (ev, s')"
  then show "devices_ok s'"
    by (cases c) (auto simp: pair_step_def pair_frames split: prod.splits
      intro: Claim_devices_ok MarkRevoked_ok ForgetPairedDevice_ok devices_ok_cong Issue_effect)
qed

text \<open>
  Whatever calls are made, with whatever write failures, on a box that starts with
  no audit file, the list of paired devices never names a device twice and never holds more
  than \<open>maxPairedDevices\<close> records.
\<close>

theorem paired_devices_bounded:
  assumes "devicesFile s = Missing" "ListPairedDevices (snd (runs (pair_step pr) cs s)) = Inr ds"
  shows "distinct (map pd_DeviceID ds) \<and> length ds \<le> maxPairedDevices"
proof -
  have "devices_ok s" using assms(1) by (simp add: devices_ok_def)
  then have "devices_ok (snd (runs (pair_step pr) cs s))"
    using devices_kept.inv_runs [of cs s pr "fst (runs (pair_step pr) cs s)"] by (simp add: list_all_iff)
  then show ?thesis using assms(2) by (auto simp: ListPairedDevices_def loadDevices_def devices_ok_def split: diskFile.splits)
qed

text \<open>
  On a box that starts with no tickets and no authority key, after any calls, every
  stored ticket is filed under its own token, expires after its creation and at most
  \<open>MaxTTL\<close> later, and carries a signature that verifies under the authority key on disk.
  It relies on \<open>ed25519\<close> signatures verifying under the signer's public key, on unpadded
  URL base64 decoding what it encoded, and on 32-byte seeds from the random source.
\<close>

theorem stored_tickets_valid:
  assumes "prims_ok pr" "list_all pair_call_ok cs" "ticketsFile s = Missing" "authKeyFile s = Missing"
    and "ticketsFile (snd (runs (pair_step pr) cs s)) = Content db" "map_of db k = Some t"
  shows "k = t_Token t \<and> t_CreatedAt t < t_ExpiresAt t \<and> t_ExpiresAt t \<le> t_CreatedAt t + MaxTTL
    \<and> (\<exists>d. authKeyFile (snd (runs (pair_step pr) cs s)) = Content d
           \<and> verifyCanonical pr (Public pr (keyOf pr d)) (sigPayload t) (t_Sig t) = None)"
proof -
  have "tickets_ok pr s" using assms(3,4) by (simp add: tickets_ok_def)
  then have "tickets_ok pr (snd (runs (pair_step pr) cs s))"
    using tickets_kept.inv_runs [OF assms(2), of pr s "fst (runs (pair_step pr) cs s)"] assms(1) by simp
  then show ?thesis using assms(5) map_of_SomeD [OF assms(6)] by (auto simp: tickets_ok_def ticket_ok_def split: diskFile.splits)
qed

subsection \<open>An issued ticket can be claimed\<close>

lemma Claim_intro:
  assumes "TrimSpace tok \<noteq> []" "fingerprintPubKey pr key = Inr (fp, cpub)" "authorityPriv pr (e_seed e) (e_io e 0) s = (Inr priv, s1)"
    "storageHints s1 = Inr hints" "loadTickets s1 = Inr db" "map_of db (TrimSpace tok) = Some t" "e_now e \<le> t_ExpiresAt t"
    "verifyCanonical pr (Public pr priv) (sigPayload t) (t_Sig t) = None" "\<not> (t_IssuerDeviceID t \<noteq> [] \<and> fp = t_IssuerDeviceID t)" "e_io e 1"
  shows "\<exists>res s'. Claim pr e s tok name key = (Inr res, s')"
  using assms by (simp add: Claim_def Let_def saveTickets_def)

lemma recordDevice_get:
  assumes "loadDevices s = Inr ds" "length ds < maxPairedDevices"
  shows "find (\<lambda>x. pd_DeviceID x = pd_DeviceID d) (case devicesFile (snd (recordDevice True s d)) of Content xs \<Rightarrow> xs | _ \<Rightarrow> []) = Some d"
proof (cases "List.extract (\<lambda>x. pd_DeviceID x = pd_DeviceID d) ds")
  case None
  then have "\<forall>x \<in> set ds. pd_DeviceID x \<noteq> pd_DeviceID d" by (simp add: extract_None_iff)
  then have "find (\<lambda>x. pd_DeviceID x = pd_DeviceID d) (ds @ [d]) = Some d" by (induction ds) auto
  then show ?thesis using assms None by (simp add: recordDevice_def saveDevices_def)
next
  case (Some x)
  obtain b y a where x: "x = (b, y, a)" by (cases x)
  then have "\<forall>x \<in> set b. pd_DeviceID x \<noteq> pd_DeviceID d" using Some by (simp add: extract_Some_iff)
  then have "find (\<lambda>x. pd_DeviceID x = pd_DeviceID d) (b @ d # a) = Some d" by (induction b) auto
  then show ?thesis using assms Some x by (simp add: recordDevice_def saveDevices_def)
qed

text \<open>
  Claim C38. A ticket that \<open>Issue\<close> returned can be claimed right away, until it expires, by
  any device with a well-formed key other than the issuer: the claim succeeds when the
  storage file is readable and the ticket file can be written, and the device is then found
  in the audit store, not revoked, if that store is readable, has room and can be written.
\<close>

theorem issue_then_claim:
  assumes "prims_ok pr" "seed_ok (e_seed e)" "Issue pr e s dev name ttl = (Inr t, s1)" "t_Token t \<noteq> []"
    and "e_now e' \<le> t_ExpiresAt t" "fingerprintPubKey pr key = Inr (fp, cpub)" "TrimSpace dev \<noteq> [] \<longrightarrow> fp \<noteq> TrimSpace dev"
    and "storageHints s1 = Inr hints" "e_io e' 1"
  shows "\<exists>res s2. Claim pr e' s1 (t_Token t) name' key = (Inr res, s2) \<and> cr_DeviceID res = fp \<and> cr_Hints res = hints
    \<and> (\<forall>ds. loadDevices s1 = Inr ds \<longrightarrow> length ds < maxPairedDevices \<longrightarrow> e_io e' 2 \<longrightarrow>
         (\<exists>d. GetPairedDevice s2 fp = Inr (Some d) \<and> pd_PublicKey d = cpub \<and> \<not> pd_Revoked d))"
  using assms(3)
proof (cases rule: Issue_cases)
  case (Done u priv s0 db bs code)
  then have u: "u = t" by simp
  have f: "t_Token t = RawURLEncode pr bs" "t_IssuerDeviceID t = TrimSpace dev" "t_Sig t = signCanonical pr priv (sigPayload t)"
    using arg_cong [OF Done(6), of t_Token] arg_cong [OF Done(6), of t_IssuerDeviceID] arg_cong [OF Done(6), of t_Sig] u by simp_all
  have tr: "TrimSpace (t_Token t) = t_Token t" using assms(1) by (simp add: f(1) prims_ok_def)
  have a: "authorityPriv pr (e_seed e') (e_io e' 0) s1 = (Inr priv, s1)"
    using Done(2,7) assms(2) by (auto simp: authorityPriv_def seed_ok_def split: diskFile.splits if_splits option.splits)
  have l: "loadTickets s1 = Inr (upsert (t_Token t) t (pruneExpired (e_later e) db))" using Done(7) u by (simp add: loadTickets_def)
  have "\<exists>res s'. Claim pr e' s1 (t_Token t) name' key = (Inr res, s')"
    by (rule Claim_intro [OF _ assms(6) a assms(8) l _ assms(5) _ _ assms(9)])
      (use assms(4,7) tr f verify_signed [OF assms(1)] in \<open>auto simp: map_of_upsert\<close>)
  then obtain res s2 where c: "Claim pr e' s1 (t_Token t) name' key = (Inr res, s2)" by blast
  define d where "d = \<lparr>pd_DeviceID = fp, pd_Name = (if TrimSpace name' = [] then t_DeviceName t else TrimSpace name'), pd_PublicKey = cpub,
    pd_IssuerDeviceID = t_IssuerDeviceID t, pd_ApprovalSig = cr_ApprovalSig res, pd_PairedAt = e_later e', pd_Revoked = False, pd_RevokedAt = None\<rparr>"
  have r: "cr_DeviceID res = fp" "cr_Hints res = hints" "devicesFile s2 = devicesFile (snd (recordDevice (e_io e' 2) s1 d))"
    by (rule Claim_Inr [OF c]; use a l tr assms(6,8) in \<open>simp add: map_of_upsert d_def\<close>)+
  have "GetPairedDevice s2 fp = Inr (Some d)" if "loadDevices s1 = Inr ds" "length ds < maxPairedDevices" "e_io e' 2" for ds
  proof -
    have fd: "find (\<lambda>x. pd_DeviceID x = fp) (case devicesFile s2 of Content xs \<Rightarrow> xs | _ \<Rightarrow> []) = Some d"
      using recordDevice_get [OF that(1,2), of d] that(3) r(3) by (simp add: d_def)
    then show ?thesis by (cases "devicesFile s2") (simp_all add: GetPairedDevice_def loadDevices_def)
  qed
  then show ?thesis using c r by (auto simp: d_def)
qed simp

subsection \<open>Concrete runs\<close>

text \<open>A signature scheme and an encoding that meet \<open>prims_ok\<close>, and an empty box.\<close>

definition exPrims :: prims where
  "exPrims = \<lparr>NewKeyFromSeed = (\<lambda>s. s), Public = (\<lambda>k. k), Sign = (\<lambda>k v. replicate 64 CHR ''x''),
     Verify = (\<lambda>k v sig. sig = replicate 64 CHR ''x''), Sum256 = (\<lambda>b. take 4 b), StdEncode = (\<lambda>b. b), StdDecode = Some,
     RawURLEncode = (\<lambda>b. ''b'' @ b @ ''e''), RawURLDecode = (\<lambda>s. Some (butlast (tl s)))\<rparr>"

definition exFiles :: PairFiles where
  "exFiles = \<lparr>ticketsFile = Missing, devicesFile = Missing, storageFile = Missing, authKeyFile = Missing\<rparr>"

definition exEnv :: pair_env where
  "exEnv = \<lparr>e_seed = Some (replicate 32 CHR ''s''), e_token = Some ''tok'', e_code = Some [0, 1, 2, 3, 4, 5, 6, 7],
     e_io = (\<lambda>_. True), e_now = 5, e_later = 6\<rparr>"

definition exKey :: string where
  "exKey = replicate 32 CHR ''k''"

definition exTicket :: Ticket where
  "exTicket = \<lparr>t_Token = ''btoke'', t_ShortCode = ''VULOS-2345-6789'', t_IssuerDeviceID = ''laptop'', t_DeviceName = ''phone'',
     t_CreatedAt = 5, t_ExpiresAt = 5 + DefaultTTL, t_Sig = ''b'' @ replicate 64 CHR ''x'' @ ''e''\<rparr>"

lemma exPrims_ok: "prims_ok exPrims"
  by (auto simp: prims_ok_def exPrims_def TrimSpace_def is_space_def butlast_append)

lemma exIssue: "Issue exPrims exEnv exFiles ''laptop'' ''phone'' 0
    = (Inr exTicket, exFiles\<lparr>authKeyFile := Content (replicate 32 CHR ''s''), ticketsFile := Content [(''btoke'', exTicket)]\<rparr>)"
  by (simp add: Issue_def authorityPriv_def newToken_def exEnv_def exFiles_def exPrims_def exTicket_def Let_def loadTickets_def
      saveTickets_def pruneExpired_def upsert_def clampTTL_def signCanonical_def crockfordAlphabet_def TrimSpace_def is_space_def
      DefaultTTL_def MaxTTL_def)

lemma exRun: "runs (pair_step exPrims) [CIssue exEnv ''laptop'' ''phone'' 0] exFiles
    = ([Issued ''btoke''], exFiles\<lparr>authKeyFile := Content (replicate 32 CHR ''s''), ticketsFile := Content [(''btoke'', exTicket)]\<rparr>)"
  by (simp add: pair_step_def exIssue) (simp add: exTicket_def)

lemma exFingerprint: "fingerprintPubKey exPrims exKey = Inr (''6b6b6b6b'', exKey)"
  by code_simp

definition exPaired :: PairFiles where
  "exPaired = exFiles\<lparr>authKeyFile := Content (replicate 32 CHR ''s''), ticketsFile := Content [(''btoke'', exTicket)]\<rparr>"

lemma exTrim: "TrimSpace ''btoke'' = ''btoke''" "TrimSpace ''laptop'' = ''laptop''" "TrimSpace ''other'' = ''other''"
  by (simp_all add: TrimSpace_def is_space_def)

lemma exClaim: "\<exists>res s'. Claim exPrims exEnv exPaired ''btoke'' [] exKey = (Inr res, s')"
proof (rule Claim_intro [OF _ exFingerprint, where priv = "replicate 32 CHR ''s''" and ?s1.0 = exPaired and t = exTicket and db = "[(''btoke'', exTicket)]"])
  show "verifyCanonical exPrims (Public exPrims (replicate 32 CHR ''s'')) (sigPayload exTicket) (t_Sig exTicket) = None"
    using verify_signed [OF exPrims_ok, of "replicate 32 CHR ''s''" "sigPayload exTicket"] by (simp add: signCanonical_def exPrims_def exTicket_def)
qed (simp_all add: exTrim exPaired_def exFiles_def exEnv_def exTicket_def authorityPriv_def storageHints_def loadTickets_def DefaultTTL_def exPrims_def)

theorem claim_success_checks_witness:
  "\<exists>res s'. Claim exPrims exEnv exPaired ''btoke'' [] exKey = (Inr res, s') \<and> \<not> has_ticket ''btoke'' s' \<and> cr_RequiresPassphrase res
     \<and> cr_DeviceID res = ''6b6b6b6b''"
proof -
  obtain res s' where c: "Claim exPrims exEnv exPaired ''btoke'' [] exKey = (Inr res, s')" using exClaim by blast
  show ?thesis using claim_success_checks [OF c] c by (auto simp: exTrim exFingerprint)
qed

theorem claim_failure_frame_witness:
  "Claim exPrims exEnv exPaired ''other'' [] exKey = (Inl ErrInvalid, exPaired) \<and> has_ticket ''btoke'' exPaired"
proof -
  have c: "Claim exPrims exEnv exPaired ''other'' [] exKey = (Inl ErrInvalid, exPaired)"
    by (simp add: Claim_def exTrim exFingerprint authorityPriv_def exPaired_def exFiles_def storageHints_def loadTickets_def)
  show ?thesis using claim_failure_frame [OF c, of "''btoke''"] c by (simp add: has_ticket_def exPaired_def)
qed

theorem paired_devices_bounded_witness:
  "ListPairedDevices (snd (runs (pair_step exPrims) [CIssue exEnv ''laptop'' ''phone'' 0] exFiles)) = Inr []
     \<and> length ([] :: PairedDevice list) \<le> maxPairedDevices"
proof -
  have l: "ListPairedDevices (snd (runs (pair_step exPrims) [CIssue exEnv ''laptop'' ''phone'' 0] exFiles)) = Inr []"
    by (simp only: exRun snd_conv) (simp add: ListPairedDevices_def loadDevices_def exFiles_def)
  show ?thesis using paired_devices_bounded [OF _ l] l by (simp add: exFiles_def)
qed

theorem stored_tickets_valid_witness:
  "ticketsFile (snd (runs (pair_step exPrims) [CIssue exEnv ''laptop'' ''phone'' 0] exFiles)) = Content [(''btoke'', exTicket)]
     \<and> t_ExpiresAt exTicket \<le> t_CreatedAt exTicket + MaxTTL"
proof -
  have t: "ticketsFile (snd (runs (pair_step exPrims) [CIssue exEnv ''laptop'' ''phone'' 0] exFiles)) = Content [(''btoke'', exTicket)]"
    by (simp only: exRun snd_conv) simp
  have "list_all pair_call_ok [CIssue exEnv ''laptop'' ''phone'' 0]" by (simp add: pair_call_ok_def seed_ok_def exEnv_def)
  then show ?thesis using stored_tickets_valid [OF exPrims_ok _ _ _ t, of "''btoke''" exTicket] t by (simp add: exFiles_def)
qed

theorem issue_then_claim_witness:
  "\<exists>res s2. Claim exPrims exEnv exPaired (t_Token exTicket) [] exKey = (Inr res, s2) \<and> cr_DeviceID res = ''6b6b6b6b''
     \<and> (\<exists>d. GetPairedDevice s2 ''6b6b6b6b'' = Inr (Some d) \<and> \<not> pd_Revoked d)"
proof -
  have i: "Issue exPrims exEnv exFiles ''laptop'' ''phone'' 0 = (Inr exTicket, exPaired)" by (simp add: exIssue exPaired_def)
  have h: "storageHints exPaired = Inr \<lparr>ch_Bucket = [], ch_Region = [], ch_Endpoint = [], ch_UseSSL = False\<rparr>"
    by (simp add: storageHints_def exPaired_def exFiles_def)
  have l: "loadDevices exPaired = Inr []" by (simp add: loadDevices_def exPaired_def exFiles_def)
  have s: "seed_ok (e_seed exEnv)" "t_Token exTicket \<noteq> []" "e_now exEnv \<le> t_ExpiresAt exTicket" "e_io exEnv 1" "e_io exEnv 2"
    by (simp_all add: seed_ok_def exEnv_def exTicket_def DefaultTTL_def)
  have n: "TrimSpace ''laptop'' \<noteq> [] \<longrightarrow> ''6b6b6b6b'' \<noteq> TrimSpace ''laptop''" by (simp add: exTrim)
  have m: "length ([] :: PairedDevice list) < maxPairedDevices" by (simp add: maxPairedDevices_def)
  obtain res s2 where "Claim exPrims exEnv exPaired (t_Token exTicket) [] exKey = (Inr res, s2)" "cr_DeviceID res = ''6b6b6b6b''"
    "\<exists>d. GetPairedDevice s2 ''6b6b6b6b'' = Inr (Some d) \<and> pd_PublicKey d = exKey \<and> \<not> pd_Revoked d"
    using issue_then_claim [OF exPrims_ok s(1) i s(2,3) exFingerprint n h s(4), of "[]"] l m s(5) by blast
  then show ?thesis by blast
qed

end
