(* ===== verification/Snapshot.thy ===== *)
theory Snapshot
  imports Go_Text
begin

text \<open>
  Restore points of a box's bucket (\<open>backend/services/snapshot\<close>): content-addressed
  snapshots inside the bucket, verification, restore and retention with garbage collection.
  The bucket is the table of its objects; every call to the object store may be lost before
  or after it took effect, as the environment decides from the number of the call. SHA-256,
  gzip, JSON and the calendar are fields of the environment \<open>snap_env\<close>. Metering and log
  lines are left out. A time is a number of nanoseconds.
\<close>

subsection \<open>Types\<close>

definition artifactMarker :: string where
  "artifactMarker = ''_snapshots/''"

record ManifestEntry =
  me_Key :: string
  me_Size :: nat
  me_SHA256 :: string

record Manifest =
  mf_SnapshotID :: string
  mf_SourcePrefix :: string
  mf_Entries :: "ManifestEntry list"

record Index =
  ix_ID :: string
  ix_CreatedAt :: int
  ix_ParentID :: string
  ix_Kind :: string
  ix_SourcePrefix :: string
  ix_ObjectCount :: nat
  ix_LogicalBytes :: nat
  ix_BlobBytesAdded :: nat
  ix_ManifestKey :: string
  ix_ManifestSHA256 :: string

record Snapshotter =
  z_dataPfx :: string
  z_snapPfx :: string

datatype call_fate = Done | Lost | LostAfter

record snap_env =
  ze_sha :: "bytes \<Rightarrow> string"
  ze_gzip :: "bytes \<Rightarrow> bytes"
  ze_gunzip :: "bytes \<Rightarrow> bytes option"
  ze_manifest :: "Manifest \<Rightarrow> bytes"
  ze_unmanifest :: "bytes \<Rightarrow> Manifest option"
  ze_index :: "Index \<Rightarrow> bytes"
  ze_unindex :: "bytes \<Rightarrow> Index option"
  ze_day :: "int \<Rightarrow> string"
  ze_week :: "int \<Rightarrow> string"
  ze_fate :: "nat \<Rightarrow> call_fate"

datatype snap_error = ErrStore | ErrNoSuchKey | ErrDecode | ErrIntegrity | ErrSnapshotID | ErrUnsafeKey

record Bucket =
  objs :: "(string, bytes) table"
  calls :: nat

subsection \<open>Sequencing\<close>

type_synonym 'a snap = "(Bucket, snap_error, 'a) comp"

subsection \<open>The object store\<close>

definition callS :: "snap_env \<Rightarrow> ((string, bytes) table \<Rightarrow> snap_error + 'a) \<Rightarrow> ((string, bytes) table \<Rightarrow> (string, bytes) table) \<Rightarrow> 'a snap" where
  "callS e res eff b =
     (case ze_fate e (calls b) of
        Done \<Rightarrow> (res (objs b), \<lparr>objs = eff (objs b), calls = calls b + 1\<rparr>)
      | Lost \<Rightarrow> (Inl ErrStore, b\<lparr>calls := calls b + 1\<rparr>)
      | LostAfter \<Rightarrow> (Inl ErrStore, \<lparr>objs = eff (objs b), calls = calls b + 1\<rparr>))"

definition os_List :: "snap_env \<Rightarrow> string \<Rightarrow> (string \<times> nat) list snap" where
  "os_List e prefix = callS e (\<lambda>t. Inr (map (\<lambda>(k, v). (k, length v)) (sort_key fst (filter (\<lambda>(k, v). HasPrefix k prefix) t)))) (\<lambda>t. t)"

definition os_Get :: "snap_env \<Rightarrow> string \<Rightarrow> bytes snap" where
  "os_Get e key = callS e (\<lambda>t. case map_of t key of None \<Rightarrow> Inl ErrNoSuchKey | Some v \<Rightarrow> Inr v) (\<lambda>t. t)"

definition os_Put :: "snap_env \<Rightarrow> string \<Rightarrow> bytes \<Rightarrow> unit snap" where
  "os_Put e key v = callS e (\<lambda>t. Inr ()) (\<lambda>t. upsert key v t)"

definition os_Delete :: "snap_env \<Rightarrow> string \<Rightarrow> unit snap" where
  "os_Delete e key = callS e (\<lambda>t. Inr ()) (\<lambda>t. delete_where (\<lambda>k. k = key) t)"

definition os_Stat :: "snap_env \<Rightarrow> string \<Rightarrow> bool snap" where
  "os_Stat e key = callS e (\<lambda>t. Inr (map_of t key \<noteq> None)) (\<lambda>t. t)"

subsection \<open>Keys\<close>

definition trimSlashes :: "string \<Rightarrow> string" where
  "trimSlashes p = rev (dropWhile (\<lambda>c. c = CHR ''/'') (rev (dropWhile (\<lambda>c. c = CHR ''/'') p)))"

definition normalizePrefix :: "string \<Rightarrow> string" where
  "normalizePrefix p = (let q = trimSlashes p in if q = [] then [] else q @ ''/'')"

definition NewSnapshotter :: "string \<Rightarrow> Snapshotter" where
  "NewSnapshotter dataPrefix = (let dp = normalizePrefix dataPrefix in \<lparr>z_dataPfx = dp, z_snapPfx = dp @ artifactMarker\<rparr>)"

definition blobKey :: "Snapshotter \<Rightarrow> string \<Rightarrow> string" where
  "blobKey z hash = z_snapPfx z @ ''blobs/'' @ take 2 hash @ ''/'' @ hash"

definition manifestKey :: "Snapshotter \<Rightarrow> string \<Rightarrow> string" where
  "manifestKey z ident = z_snapPfx z @ ''manifests/'' @ ident @ ''.json.gz''"

definition indexKey :: "Snapshotter \<Rightarrow> string \<Rightarrow> string" where
  "indexKey z ident = z_snapPfx z @ ''index/'' @ ident @ ''.json''"

definition validSnapshotID :: "string \<Rightarrow> bool" where
  "validSnapshotID ident \<longleftrightarrow>
     \<not> (ident = [] \<or> CHR ''/'' \<in> set ident \<or> CHR 0x5C \<in> set ident \<or> Contains ident ''..'' \<or> CHR 0x00 \<in> set ident)"

fun splitSlash :: "string \<Rightarrow> string list" where
  "splitSlash [] = [[]]"
| "splitSlash (c # s) = (if c = CHR ''/'' then [] # splitSlash s
     else case splitSlash s of [] \<Rightarrow> [[c]] | seg # segs \<Rightarrow> (c # seg) # segs)"

fun joinSlash :: "string list \<Rightarrow> string" where
  "joinSlash [] = []"
| "joinSlash [s] = s"
| "joinSlash (s # t # r) = s @ CHR ''/'' # joinSlash (t # r)"

text \<open>\<open>path.Clean\<close> of a relative path: the segments kept so far are in reverse order.\<close>

fun cleanSegs :: "string list \<Rightarrow> string list \<Rightarrow> string list" where
  "cleanSegs [] acc = rev acc"
| "cleanSegs (seg # segs) acc =
     (if seg = [] \<or> seg = ''.'' then cleanSegs segs acc
      else if seg = ''..'' then (case acc of [] \<Rightarrow> cleanSegs segs [''..''] | k # ks \<Rightarrow> if k = ''..'' then cleanSegs segs (''..'' # acc) else cleanSegs segs ks)
      else cleanSegs segs (seg # acc))"

definition cleanRel :: "string \<Rightarrow> string" where
  "cleanRel p = (case cleanSegs (splitSlash p) [] of [] \<Rightarrow> ''.'' | segs \<Rightarrow> joinSlash segs)"

definition safeLiveKey :: "string \<Rightarrow> string \<Rightarrow> snap_error + string" where
  "safeLiveKey dataPfx rel =
     (if rel = [] then Inl ErrUnsafeKey
      else if CHR 0x00 \<in> set rel then Inl ErrUnsafeKey
      else if HasPrefix rel ''/'' then Inl ErrUnsafeKey
      else if list_ex (\<lambda>seg. seg = [] \<or> seg = ''.'' \<or> seg = ''..'') (splitSlash rel) then Inl ErrUnsafeKey
      else if cleanRel rel \<noteq> rel then Inl ErrUnsafeKey
      else if rel = artifactMarker \<or> HasPrefix rel artifactMarker then Inl ErrUnsafeKey
      else let full = dataPfx @ rel in if \<not> HasPrefix full dataPfx then Inl ErrUnsafeKey else Inr full)"

definition hexChars :: string where
  "hexChars = ''0123456789abcdef''"

definition validBlobHash :: "string \<Rightarrow> bool" where
  "validBlobHash h = (if length h \<noteq> 64 then False else list_all (\<lambda>c. c \<in> set hexChars) h)"

definition trimPrefix :: "string \<Rightarrow> string \<Rightarrow> string" where
  "trimPrefix s p = (if HasPrefix s p then drop (length p) s else s)"

definition HasSuffix :: "string \<Rightarrow> string \<Rightarrow> bool" where
  "HasSuffix s t \<longleftrightarrow> HasPrefix (rev s) (rev t)"

subsection \<open>Reading\<close>

definition liveObjects :: "snap_env \<Rightarrow> Snapshotter \<Rightarrow> string list snap" where
  "liveObjects e z = bindS (os_List e (z_dataPfx z)) (\<lambda>all. retS (filter (\<lambda>k. \<not> HasPrefix k (z_snapPfx z)) (map fst all)))"

definition hashObject :: "snap_env \<Rightarrow> string \<Rightarrow> (string \<times> bytes) snap" where
  "hashObject e key = bindS (os_Get e key) (\<lambda>raw. retS (ze_sha e raw, raw))"

definition loadIndex :: "snap_env \<Rightarrow> string \<Rightarrow> Index snap" where
  "loadIndex e key = bindS (os_Get e key) (\<lambda>raw. case ze_unindex e raw of None \<Rightarrow> failS ErrDecode | Some idx \<Rightarrow> retS idx)"

definition GetIndex :: "snap_env \<Rightarrow> Snapshotter \<Rightarrow> string \<Rightarrow> Index snap" where
  "GetIndex e z ident = (if \<not> validSnapshotID ident then failS ErrSnapshotID else loadIndex e (indexKey z ident))"

definition loadManifest :: "snap_env \<Rightarrow> Index \<Rightarrow> Manifest snap" where
  "loadManifest e idx = bindS (os_Get e (ix_ManifestKey idx)) (\<lambda>mgz.
     if ze_sha e mgz \<noteq> ix_ManifestSHA256 idx then failS ErrIntegrity
     else case ze_gunzip e mgz of
       None \<Rightarrow> failS ErrIntegrity
     | Some raw \<Rightarrow> (case ze_unmanifest e raw of None \<Rightarrow> failS ErrIntegrity | Some m \<Rightarrow> retS m))"

definition readBlob :: "snap_env \<Rightarrow> Snapshotter \<Rightarrow> string \<Rightarrow> (string \<times> bytes) snap" where
  "readBlob e z hash = bindS (os_Get e (blobKey z hash)) (\<lambda>comp.
     case ze_gunzip e comp of None \<Rightarrow> failS ErrDecode | Some raw \<Rightarrow> retS (ze_sha e raw, raw))"

fun loadIndexes :: "snap_env \<Rightarrow> string list \<Rightarrow> Index list snap" where
  "loadIndexes e [] = retS []"
| "loadIndexes e (k # ks) =
     (if \<not> HasSuffix k ''.json'' then loadIndexes e ks
      else bindS (loadIndex e k) (\<lambda>idx. bindS (loadIndexes e ks) (\<lambda>rest. retS (idx # rest))))"

definition ListIndexes :: "snap_env \<Rightarrow> Snapshotter \<Rightarrow> Index list snap" where
  "ListIndexes e z = bindS (os_List e (z_snapPfx z @ ''index/'')) (\<lambda>all.
     bindS (loadIndexes e (map fst all)) (\<lambda>out. retS (sort_key (\<lambda>i. - ix_CreatedAt i) out)))"

subsection \<open>Create\<close>

fun createLoop :: "snap_env \<Rightarrow> Snapshotter \<Rightarrow> string list \<Rightarrow> ManifestEntry list \<times> nat \<times> nat \<times> string list \<Rightarrow>
    (ManifestEntry list \<times> nat \<times> nat \<times> string list) snap" where
  "createLoop e z [] st = retS st"
| "createLoop e z (k # ks) (entries, logicalBytes, blobBytesAdded, writtenThisRun) =
     bindS (hashObject e k) (\<lambda>(hash, raw).
       let entries' = entries @ [\<lparr>me_Key = trimPrefix k (z_dataPfx z), me_Size = length raw, me_SHA256 = hash\<rparr>];
           logical' = logicalBytes + length raw
       in if hash \<in> set writtenThisRun then createLoop e z ks (entries', logical', blobBytesAdded, writtenThisRun)
          else bindS (os_Stat e (blobKey z hash)) (\<lambda>exists.
            if exists then createLoop e z ks (entries', logical', blobBytesAdded, hash # writtenThisRun)
            else let comp = ze_gzip e raw
                 in bindS (os_Put e (blobKey z hash) comp) (\<lambda>_.
                      createLoop e z ks (entries', logical', blobBytesAdded + length comp, hash # writtenThisRun))))"

definition Create :: "snap_env \<Rightarrow> Snapshotter \<Rightarrow> int \<Rightarrow> string \<Rightarrow> string \<Rightarrow> string \<Rightarrow> Index snap" where
  "Create e z now ident kind parentID =
     bindS (liveObjects e z) (\<lambda>ks.
     bindS (createLoop e z ks ([], 0, 0, [])) (\<lambda>(entries, logicalBytes, blobBytesAdded, _).
       let manifest = \<lparr>mf_SnapshotID = ident, mf_SourcePrefix = z_dataPfx z, mf_Entries = sort_key me_Key entries\<rparr>;
           mgz = ze_gzip e (ze_manifest e manifest);
           idx = \<lparr>ix_ID = ident, ix_CreatedAt = now, ix_ParentID = parentID, ix_Kind = kind, ix_SourcePrefix = z_dataPfx z,
                  ix_ObjectCount = length entries, ix_LogicalBytes = logicalBytes, ix_BlobBytesAdded = blobBytesAdded,
                  ix_ManifestKey = manifestKey z ident, ix_ManifestSHA256 = ze_sha e mgz\<rparr>
       in bindS (os_Put e (manifestKey z ident) mgz) (\<lambda>_.
          bindS (os_Put e (indexKey z ident) (ze_index e idx)) (\<lambda>_. retS idx))))"

subsection \<open>Verify and Restore\<close>

fun verifyEntries :: "snap_env \<Rightarrow> Snapshotter \<Rightarrow> ManifestEntry list \<Rightarrow> unit snap" where
  "verifyEntries e z [] = retS ()"
| "verifyEntries e z (en # ens) =
     (case safeLiveKey (z_dataPfx z) (me_Key en) of
        Inl _ \<Rightarrow> failS ErrIntegrity
      | Inr _ \<Rightarrow>
          if \<not> validBlobHash (me_SHA256 en) then failS ErrIntegrity
          else (\<lambda>b. case readBlob e z (me_SHA256 en) b of
                      (Inl _, b') \<Rightarrow> (Inl ErrIntegrity, b')
                    | (Inr (got, _), b') \<Rightarrow> if got \<noteq> me_SHA256 en then (Inl ErrIntegrity, b') else verifyEntries e z ens b'))"

definition Verify :: "snap_env \<Rightarrow> Snapshotter \<Rightarrow> string \<Rightarrow> unit snap" where
  "Verify e z ident = bindS (GetIndex e z ident) (\<lambda>idx.
     if ix_SourcePrefix idx \<noteq> z_dataPfx z then failS ErrIntegrity
     else bindS (loadManifest e idx) (\<lambda>m. verifyEntries e z (mf_Entries m)))"

record RestoreResult =
  rr_RestoredID :: string
  rr_ObjectsWritten :: nat
  rr_ObjectsDeleted :: nat
  rr_SafetySnapshotID :: string

fun restoreWrites :: "snap_env \<Rightarrow> Snapshotter \<Rightarrow> ManifestEntry list \<Rightarrow> string list \<Rightarrow> string list snap" where
  "restoreWrites e z [] want = retS want"
| "restoreWrites e z (en # ens) want =
     (case safeLiveKey (z_dataPfx z) (me_Key en) of
        Inl _ \<Rightarrow> failS ErrIntegrity
      | Inr full \<Rightarrow> bindS (readBlob e z (me_SHA256 en)) (\<lambda>(got, raw).
          if got \<noteq> me_SHA256 en then failS ErrIntegrity
          else bindS (os_Put e full raw) (\<lambda>_. restoreWrites e z ens (want @ [full]))))"

fun restoreDeletes :: "snap_env \<Rightarrow> string list \<Rightarrow> string list \<Rightarrow> nat \<Rightarrow> nat snap" where
  "restoreDeletes e want [] n = retS n"
| "restoreDeletes e want (k # ks) n =
     (if k \<in> set want then restoreDeletes e want ks n
      else bindS (os_Delete e k) (\<lambda>_. restoreDeletes e want ks (n + 1)))"

definition Restore :: "snap_env \<Rightarrow> Snapshotter \<Rightarrow> int \<Rightarrow> string \<Rightarrow> bool \<Rightarrow> string \<Rightarrow> RestoreResult snap" where
  "Restore e z now safetyID skipSafety ident =
     bindS (Verify e z ident) (\<lambda>_.
     bindS (GetIndex e z ident) (\<lambda>idx.
     bindS (loadManifest e idx) (\<lambda>m.
     bindS (if skipSafety then retS [] else bindS (Create e z now safetyID ''pre-restore'' ident) (\<lambda>s. retS (ix_ID s))) (\<lambda>sid.
     bindS (restoreWrites e z (mf_Entries m) []) (\<lambda>want.
     bindS (liveObjects e z) (\<lambda>live.
     bindS (restoreDeletes e want live 0) (\<lambda>n.
       retS \<lparr>rr_RestoredID = ident, rr_ObjectsWritten = length (mf_Entries m), rr_ObjectsDeleted = n, rr_SafetySnapshotID = sid\<rparr>)))))))"

subsection \<open>Retention\<close>

record Policy =
  KeepDaily :: int
  KeepWeekly :: int

definition DefaultPolicy :: Policy where
  "DefaultPolicy = \<lparr>KeepDaily = 7, KeepWeekly = 4\<rparr>"

record PruneResult =
  pz_Kept :: "string list"
  pz_Pruned :: "string list"
  pz_BlobsDeleted :: nat
  pz_BytesReclaimed :: nat

text \<open>The loop of \<open>plan\<close>: the days and weeks seen and the ids to keep.\<close>

fun planLoop :: "snap_env \<Rightarrow> Policy \<Rightarrow> Index list \<Rightarrow> string list \<times> string list \<times> string list \<Rightarrow> string list" where
  "planLoop e p [] (seenDay, seenWeek, keepSet) = keepSet"
| "planLoop e p (idx # rest) (seenDay, seenWeek, keepSet) =
     (let day = ze_day e (ix_CreatedAt idx);
          newDay = (int (length seenDay) < KeepDaily p \<and> day \<notin> set seenDay);
          wk = ze_week e (ix_CreatedAt idx);
          newWk = (int (length seenWeek) < KeepWeekly p \<and> wk \<notin> set seenWeek)
      in planLoop e p rest (if newDay then day # seenDay else seenDay, if newWk then wk # seenWeek else seenWeek,
                            if newDay \<or> newWk then ix_ID idx # keepSet else keepSet))"

definition plan :: "snap_env \<Rightarrow> Policy \<Rightarrow> Index list \<Rightarrow> string list \<times> string list" where
  "plan e p indexes =
     (case sort_key (\<lambda>i. - ix_CreatedAt i) indexes of
        [] \<Rightarrow> ([], [])
      | newest # rest \<Rightarrow>
          let keepSet = planLoop e p (newest # rest) ([], [], [ix_ID newest]);
              ids = map ix_ID (newest # rest)
          in (filter (\<lambda>i. i \<in> set keepSet) ids, filter (\<lambda>i. i \<notin> set keepSet) ids))"

definition blobHashFromKey :: "string \<Rightarrow> string" where
  "blobHashFromKey key =
     (if CHR ''/'' \<notin> set key then []
      else let h = rev (takeWhile (\<lambda>c. c \<noteq> CHR ''/'') (rev key)) in if \<not> validBlobHash h then [] else h)"

text \<open>\<open>byID\<close>: a later index with the same id replaces an earlier one; a missing id reads as the zero index.\<close>

definition zeroIndex :: Index where
  "zeroIndex = \<lparr>ix_ID = [], ix_CreatedAt = 0, ix_ParentID = [], ix_Kind = [], ix_SourcePrefix = [], ix_ObjectCount = 0,
     ix_LogicalBytes = 0, ix_BlobBytesAdded = 0, ix_ManifestKey = [], ix_ManifestSHA256 = []\<rparr>"

definition byID :: "Index list \<Rightarrow> string \<Rightarrow> Index" where
  "byID indexes ident = (case find (\<lambda>i. ix_ID i = ident) (rev indexes) of None \<Rightarrow> zeroIndex | Some i \<Rightarrow> i)"

fun pruneDeletes :: "snap_env \<Rightarrow> Snapshotter \<Rightarrow> Index list \<Rightarrow> string list \<Rightarrow> unit snap" where
  "pruneDeletes e z indexes [] = retS ()"
| "pruneDeletes e z indexes (ident # ids) =
     bindS (os_Delete e (ix_ManifestKey (byID indexes ident))) (\<lambda>_.
     bindS (os_Delete e (indexKey z ident)) (\<lambda>_. pruneDeletes e z indexes ids))"

fun markReferenced :: "snap_env \<Rightarrow> Index list \<Rightarrow> string list \<Rightarrow> string list snap" where
  "markReferenced e indexes [] = retS []"
| "markReferenced e indexes (ident # ids) =
     bindS (loadManifest e (byID indexes ident)) (\<lambda>m.
     bindS (markReferenced e indexes ids) (\<lambda>refs. retS (map me_SHA256 (mf_Entries m) @ refs)))"

fun sweepBlobs :: "snap_env \<Rightarrow> string list \<Rightarrow> (string \<times> nat) list \<Rightarrow> nat \<times> nat \<Rightarrow> (nat \<times> nat) snap" where
  "sweepBlobs e referenced [] (n, bytes) = retS (n, bytes)"
| "sweepBlobs e referenced ((k, sz) # bs) (n, bytes) =
     (let hash = blobHashFromKey k
      in if hash = [] \<or> hash \<in> set referenced then sweepBlobs e referenced bs (n, bytes)
         else bindS (os_Delete e k) (\<lambda>_. sweepBlobs e referenced bs (n + 1, bytes + sz)))"

definition Prune :: "snap_env \<Rightarrow> Snapshotter \<Rightarrow> Policy \<Rightarrow> PruneResult snap" where
  "Prune e z p =
     bindS (ListIndexes e z) (\<lambda>indexes.
       let (keep, prune) = plan e p indexes
       in bindS (pruneDeletes e z indexes prune) (\<lambda>_.
          bindS (markReferenced e indexes keep) (\<lambda>referenced.
          bindS (os_List e (z_snapPfx z @ ''blobs/'')) (\<lambda>blobs.
          bindS (sweepBlobs e referenced blobs (0, 0)) (\<lambda>(n, bytes).
            retS \<lparr>pz_Kept = keep, pz_Pruned = prune, pz_BlobsDeleted = n, pz_BytesReclaimed = bytes\<rparr>)))))"

subsection \<open>Scheduler and usage\<close>

definition NewScheduler :: "int \<Rightarrow> Policy \<Rightarrow> int \<times> Policy" where
  "NewScheduler interval policy =
     (if interval \<le> 0 then 24 * 3600 * 1000000000 else interval,
      if KeepDaily policy = 0 \<and> KeepWeekly policy = 0 then DefaultPolicy else policy)"

definition Scheduler_RunOnce :: "snap_env \<Rightarrow> Snapshotter \<Rightarrow> Policy \<Rightarrow> int \<Rightarrow> string \<Rightarrow> unit snap" where
  "Scheduler_RunOnce e z p now ident = bindS (Create e z now ident ''scheduled'' []) (\<lambda>_. bindS (Prune e z p) (\<lambda>_. retS ()))"

record Usage =
  us_BlobBytes :: nat
  us_BlobCount :: nat
  us_ManifestBytes :: nat
  us_IndexBytes :: nat
  us_IndexCount :: nat
  us_TotalBytes :: nat

definition addUsage :: "Snapshotter \<Rightarrow> string \<times> nat \<Rightarrow> Usage \<Rightarrow> Usage" where
  "addUsage z obj u =
     (let (key, sz) = obj;
          u1 = (if HasPrefix key (z_snapPfx z @ ''blobs/'') then u\<lparr>us_BlobBytes := us_BlobBytes u + sz, us_BlobCount := us_BlobCount u + 1\<rparr>
                else if HasPrefix key (z_snapPfx z @ ''manifests/'') then u\<lparr>us_ManifestBytes := us_ManifestBytes u + sz\<rparr>
                else if HasPrefix key (z_snapPfx z @ ''index/'') then u\<lparr>us_IndexBytes := us_IndexBytes u + sz, us_IndexCount := us_IndexCount u + 1\<rparr>
                else u)
      in u1\<lparr>us_TotalBytes := us_TotalBytes u1 + sz\<rparr>)"

definition StorageUsage :: "snap_env \<Rightarrow> Snapshotter \<Rightarrow> Usage snap" where
  "StorageUsage e z = bindS (os_List e (z_snapPfx z)) (\<lambda>all.
     retS (fold (addUsage z) all \<lparr>us_BlobBytes = 0, us_BlobCount = 0, us_ManifestBytes = 0, us_IndexBytes = 0, us_IndexCount = 0, us_TotalBytes = 0\<rparr>))"

end
