(* ===== verification/Snapshot_Restore.thy ===== *)
theory Snapshot_Restore
  imports Snapshot
begin

text \<open>
  What snapshots guarantee: a restored box has exactly the objects it had at capture, by
  content hash; a restore that fails verification changes nothing and no restore leaves the
  box's own prefix; retention never breaks a snapshot it keeps.
\<close>

subsection \<open>Calls\<close>

lemma callS_Inr:
  "callS e res eff b = (Inr y, b') \<longleftrightarrow> ze_fate e (calls b) = Done \<and> res (objs b) = Inr y \<and> b' = \<lparr>objs = eff (objs b), calls = calls b + 1\<rparr>"
  by (auto simp: callS_def split: call_fate.splits)

lemma os_Get_Inr: "os_Get e k b = (Inr v, b') \<Longrightarrow> map_of (objs b) k = Some v \<and> objs b' = objs b"
  by (auto simp: os_Get_def callS_Inr split: option.splits)

lemma os_Put_Inr: "os_Put e k v b = (Inr u, b') \<Longrightarrow> objs b' = upsert k v (objs b)"
  by (auto simp: os_Put_def callS_Inr)

lemma os_Delete_Inr: "os_Delete e k b = (Inr u, b') \<Longrightarrow> objs b' = delete_where (\<lambda>x. x = k) (objs b)"
  by (auto simp: os_Delete_def callS_Inr)

lemma os_Stat_Inr: "os_Stat e k b = (Inr x, b') \<Longrightarrow> x = (map_of (objs b) k \<noteq> None) \<and> objs b' = objs b"
  by (auto simp: os_Stat_def callS_Inr)

lemma os_List_Inr:
  "os_List e p b = (Inr l, b') \<Longrightarrow> objs b' = objs b \<and> map fst l = map fst (sort_key fst (filter (\<lambda>(k, v). HasPrefix k p) (objs b)))"
  by (auto simp: os_List_def callS_Inr)

lemmas os_Inr = os_Get_Inr os_Put_Inr os_Delete_Inr os_Stat_Inr

lemma readBlob_Inr:
  "readBlob e z h b = (Inr (got, raw), b') \<Longrightarrow> objs b' = objs b \<and> got = ze_sha e raw \<and>
     (\<exists>comp. map_of (objs b) (blobKey z h) = Some comp \<and> ze_gunzip e comp = Some raw)"
  by (auto simp: readBlob_def bindS_Inr retS_Inr failS_Inr dest!: os_Get_Inr split: option.splits)

lemma loadIndex_Inr: "loadIndex e k b = (Inr idx, b') \<Longrightarrow> objs b' = objs b \<and> (\<exists>raw. map_of (objs b) k = Some raw \<and> ze_unindex e raw = Some idx)"
  by (auto simp: loadIndex_def bindS_Inr retS_Inr failS_Inr dest!: os_Get_Inr split: option.splits)

lemma GetIndex_Inr:
  "GetIndex e z i b = (Inr idx, b') \<Longrightarrow> validSnapshotID i \<and> objs b' = objs b \<and> (\<exists>raw. map_of (objs b) (indexKey z i) = Some raw \<and> ze_unindex e raw = Some idx)"
  by (auto simp: GetIndex_def failS_Inr dest!: loadIndex_Inr split: if_splits)

lemma loadManifest_Inr:
  "loadManifest e idx b = (Inr m, b') \<Longrightarrow> objs b' = objs b \<and>
     (\<exists>mgz raw. map_of (objs b) (ix_ManifestKey idx) = Some mgz \<and> ze_sha e mgz = ix_ManifestSHA256 idx \<and> ze_gunzip e mgz = Some raw \<and> ze_unmanifest e raw = Some m)"
  by (auto simp: loadManifest_def bindS_Inr retS_Inr failS_Inr dest!: os_Get_Inr split: option.splits if_splits)

subsection \<open>What an operation may change\<close>

definition touches :: "'a snap \<Rightarrow> string set \<Rightarrow> bool" where
  "touches m K \<longleftrightarrow> (\<forall>b k. k \<notin> K \<longrightarrow> map_of (objs (snd (m b))) k = map_of (objs b) k)"

lemma touchesD: "touches m K \<Longrightarrow> m b = (r, b') \<Longrightarrow> k \<notin> K \<Longrightarrow> map_of (objs b') k = map_of (objs b) k"
  unfolding touches_def by (metis snd_conv)

lemma touches_mono: "touches m K \<Longrightarrow> K \<subseteq> L \<Longrightarrow> touches m L"
  by (auto simp: touches_def)

lemma touches_basic: "touches (retS x) K" "touches (failS er) K"
  by (simp_all add: touches_def retS_def failS_def)

lemma touches_bind:
  assumes "touches m K" "\<And>x b b'. m b = (Inr x, b') \<Longrightarrow> touches (f x) K"
  shows "touches (bindS m f) K"
  unfolding touches_def
proof (intro allI impI)
  fix b k assume k: "k \<notin> K"
  obtain r b1 where m: "m b = (r, b1)" by fastforce
  have 1: "map_of (objs b1) k = map_of (objs b) k" by (rule touchesD [OF assms(1) m k])
  show "map_of (objs (snd (bindS m f b))) k = map_of (objs b) k"
  proof (cases r)
    case (Inr x)
    have "touches (f x) K" using assms(2) m Inr by blast
    then have "map_of (objs (snd (f x b1))) k = map_of (objs b1) k" using k by (simp add: touches_def)
    then show ?thesis using m Inr 1 by (simp add: bindS_def)
  qed (use m 1 in \<open>simp add: bindS_def\<close>)
qed

lemma touches_read: "touches (os_Get e k) K" "touches (os_Stat e k) K" "touches (os_List e p) K"
  by (auto simp: touches_def os_Get_def os_Stat_def os_List_def callS_def split: call_fate.splits)

lemma touches_write: "k \<in> K \<Longrightarrow> touches (os_Put e k v) K" "k \<in> K \<Longrightarrow> touches (os_Delete e k) K"
  by (auto simp: touches_def os_Put_def os_Delete_def callS_def tbl split: call_fate.splits)

lemma touches_load: "touches (loadIndex e k) K" "touches (GetIndex e z i) K" "touches (loadManifest e idx) K" "touches (readBlob e z h) K"
  "touches (liveObjects e z) K" "touches (hashObject e k) K"
  by (auto simp: loadIndex_def GetIndex_def loadManifest_def readBlob_def liveObjects_def hashObject_def
      intro!: touches_bind touches_read touches_basic split: option.splits)

text \<open>Reading operations do not change the table at all.\<close>

definition readonly :: "'a snap \<Rightarrow> bool" where
  "readonly m \<longleftrightarrow> (\<forall>b. objs (snd (m b)) = objs b)"

lemma readonly_bind: "readonly m \<Longrightarrow> (\<And>x. readonly (f x)) \<Longrightarrow> readonly (bindS m f)"
  unfolding readonly_def bindS_def by (auto split: prod.splits sum.splits) (metis snd_conv)+

lemma readonly_basic: "readonly (retS x)" "readonly (failS er)" "readonly (os_Get e k)" "readonly (os_Stat e k)" "readonly (os_List e p)"
  by (auto simp: readonly_def retS_def failS_def os_Get_def os_Stat_def os_List_def callS_def split: call_fate.splits)

lemma readonly_load: "readonly (GetIndex e z i)" "readonly (loadManifest e idx)" "readonly (readBlob e z h)"
  by (auto simp: loadIndex_def GetIndex_def loadManifest_def readBlob_def intro!: readonly_bind readonly_basic split: option.splits)

lemma verifyEntries_readonly: "readonly (verifyEntries e z ens)"
proof (induction ens)
  case (Cons en ens)
  show ?case unfolding readonly_def
  proof
    fix b
    obtain r b1 where m: "readBlob e z (me_SHA256 en) b = (r, b1)" by fastforce
    have 1: "objs b1 = objs b" using readonly_load(3) [of e z "me_SHA256 en"] m unfolding readonly_def by (metis snd_conv)
    have "objs (snd (verifyEntries e z ens b1)) = objs b1" using Cons.IH by (simp add: readonly_def)
    then show "objs (snd (verifyEntries e z (en # ens) b)) = objs b" using m 1 by (auto simp: failS_def split: sum.splits)
  qed
qed (simp add: readonly_basic)

lemma Verify_readonly: "readonly (Verify e z i)"
  by (auto simp: Verify_def intro!: readonly_bind readonly_load readonly_basic verifyEntries_readonly)

lemma readonly_touches: "readonly m \<Longrightarrow> touches m K"
  by (simp add: readonly_def touches_def)

subsection \<open>Keys\<close>

lemma HasPrefix_append [simp]: "HasPrefix (p @ s) p"
  by (simp add: HasPrefix_def)

lemma HasPrefix_iff: "HasPrefix s p \<longleftrightarrow> (\<exists>r. s = p @ r)"
  by (metis HasPrefix_append HasPrefix_def append_take_drop_id)

definition live_keys :: "Snapshotter \<Rightarrow> string set" where
  "live_keys z = {k. HasPrefix k (z_dataPfx z) \<and> \<not> HasPrefix k (z_snapPfx z)}"

definition art_keys :: "Snapshotter \<Rightarrow> string set" where
  "art_keys z = {k. HasPrefix k (z_snapPfx z)}"

definition pfx_ok :: "Snapshotter \<Rightarrow> bool" where
  "pfx_ok z \<longleftrightarrow> z_snapPfx z = z_dataPfx z @ artifactMarker"

lemma New_pfx_ok [simp]: "pfx_ok (NewSnapshotter p)"
  by (simp add: NewSnapshotter_def pfx_ok_def Let_def)

lemma art_data: "pfx_ok z \<Longrightarrow> k \<in> art_keys z \<Longrightarrow> HasPrefix k (z_dataPfx z)"
  by (auto simp: pfx_ok_def art_keys_def HasPrefix_iff)

lemma art_not_live: "k \<in> art_keys z \<Longrightarrow> k \<notin> live_keys z"
  by (simp add: art_keys_def live_keys_def)

lemma keys_art [simp]: "blobKey z h \<in> art_keys z" "manifestKey z i \<in> art_keys z" "indexKey z i \<in> art_keys z"
  by (simp_all add: art_keys_def blobKey_def manifestKey_def indexKey_def)

lemma keys_distinct [simp]: "blobKey z h \<noteq> manifestKey z i" "blobKey z h \<noteq> indexKey z i" "manifestKey z i \<noteq> indexKey z j"
  "manifestKey z i \<noteq> blobKey z h" "indexKey z i \<noteq> blobKey z h" "indexKey z j \<noteq> manifestKey z i"
  by (simp_all add: blobKey_def manifestKey_def indexKey_def)

lemma indexKey_inj [simp]: "indexKey z i = indexKey z j \<longleftrightarrow> i = j" "manifestKey z i = manifestKey z j \<longleftrightarrow> i = j"
  by (simp_all add: indexKey_def manifestKey_def)

lemma blobKey_inj: "length h = 64 \<Longrightarrow> length h' = 64 \<Longrightarrow> blobKey z h = blobKey z h' \<longleftrightarrow> h = h'"
  by (auto simp: blobKey_def)

lemma safeLiveKey_Inr:
  assumes "safeLiveKey (z_dataPfx z) rel = Inr full" "pfx_ok z"
  shows "full = z_dataPfx z @ rel" "full \<in> live_keys z"
proof -
  show f: "full = z_dataPfx z @ rel" using assms(1) by (simp add: safeLiveKey_def Let_def split: if_splits)
  have "\<not> HasPrefix rel artifactMarker" using assms(1) by (auto simp: safeLiveKey_def split: if_splits)
  then show "full \<in> live_keys z" using f assms(2) by (auto simp: live_keys_def pfx_ok_def HasPrefix_iff)
qed

subsection \<open>Create and Restore stay in their areas\<close>

lemma createLoop_touches: "touches (createLoop e z ks st) (range (blobKey z))"
proof (induction ks arbitrary: st)
  case (Cons k ks)
  obtain en lb ba wr where st: "st = (en, lb, ba, wr)" by (cases st)
  show ?case unfolding st createLoop.simps Let_def
    by (intro touches_bind touches_load touches_read touches_write) (auto intro!: touches_bind touches_read touches_write Cons.IH)
qed (cases st; simp add: touches_basic)

lemma Create_touches: "touches (Create e z now i kind par) (range (blobKey z) \<union> {manifestKey z i, indexKey z i})"
  unfolding Create_def Let_def
  by (auto intro!: touches_bind touches_load touches_write touches_basic touches_mono [OF createLoop_touches])

lemma restoreWrites_touches: "pfx_ok z \<Longrightarrow> touches (restoreWrites e z ens want) (live_keys z)"
  by (induction ens arbitrary: want)
    (auto simp: touches_basic dest: safeLiveKey_Inr intro!: touches_bind touches_load touches_write split: sum.splits)

lemma restoreDeletes_touches: "set ks \<subseteq> K \<Longrightarrow> touches (restoreDeletes e want ks n) K"
  by (induction ks arbitrary: n) (auto simp: touches_basic intro!: touches_bind touches_write)

lemma liveObjects_Inr:
  assumes "liveObjects e z b = (Inr ks, b')"
  shows "objs b' = objs b" "set ks = {k \<in> live_keys z. map_of (objs b) k \<noteq> None}" "unique_keys (objs b) \<Longrightarrow> distinct ks"
proof -
  obtain l where l: "os_List e (z_dataPfx z) b = (Inr l, b')" "ks = filter (\<lambda>k. \<not> HasPrefix k (z_snapPfx z)) (map fst l)"
    using assms by (auto simp: liveObjects_def bindS_Inr retS_Inr)
  note o = os_List_Inr [OF l(1)]
  then show "objs b' = objs b" by simp
  have k: "set (map fst l) = {k \<in> fst ` set (objs b). HasPrefix k (z_dataPfx z)}" using o by force
  have "k \<in> fst ` set (objs b) \<longleftrightarrow> map_of (objs b) k \<noteq> None" for k by (simp add: map_of_eq_None_iff)
  then show "set ks = {k \<in> live_keys z. map_of (objs b) k \<noteq> None}" using l(2) k by (auto simp: live_keys_def)
  show "distinct ks" if "unique_keys (objs b)"
  proof -
    have "distinct (map fst (filter (\<lambda>(k, v). HasPrefix k (z_dataPfx z)) (objs b)))" using that by (simp add: unique_keys_def distinct_map_filter)
    then have "distinct (map fst l)" using o distinct_sort_key [of fst] by simp
    then show ?thesis using l(2) by simp
  qed
qed

text \<open>Artifacts already present survive: a blob is only put where none is.\<close>

definition preserves :: "'a snap \<Rightarrow> string set \<Rightarrow> bool" where
  "preserves m K \<longleftrightarrow> (\<forall>b k v. k \<in> K \<longrightarrow> map_of (objs b) k = Some v \<longrightarrow> map_of (objs (snd (m b))) k = Some v)"

lemma preservesD: "preserves m K \<Longrightarrow> m b = (r, b') \<Longrightarrow> k \<in> K \<Longrightarrow> map_of (objs b) k = Some v \<Longrightarrow> map_of (objs b') k = Some v"
  unfolding preserves_def by (metis snd_conv)

lemma touches_preserves: "touches m L \<Longrightarrow> K \<inter> L = {} \<Longrightarrow> preserves m K"
  unfolding touches_def preserves_def by (metis disjoint_iff)

lemma preserves_bind:
  assumes "preserves m K" "\<And>x b b'. m b = (Inr x, b') \<Longrightarrow> preserves (f x) K"
  shows "preserves (bindS m f) K"
  unfolding preserves_def
proof (intro allI impI)
  fix b :: Bucket and k v assume k: "k \<in> K" and v: "map_of (objs b) k = Some v"
  obtain r b1 where m: "m b = (r, b1)" by fastforce
  have 1: "map_of (objs b1) k = Some v" by (rule preservesD [OF assms(1) m k v])
  show "map_of (objs (snd (bindS m f b))) k = Some v"
  proof (cases r)
    case (Inr x)
    then have "map_of (objs (snd (f x b1))) k = Some v" using assms(2) m k 1 unfolding preserves_def by blast
    then show ?thesis using m Inr by (simp add: bindS_def)
  qed (use m 1 in \<open>simp add: bindS_def\<close>)
qed

lemma statPut_preserves:
  assumes "\<And>x. preserves (f x) K" "\<And>x. preserves (g x) K"
  shows "preserves (bindS (os_Stat e k) (\<lambda>ex. if ex then f ex else bindS (os_Put e k v) g)) K"
  unfolding preserves_def
proof (intro allI impI)
  fix b :: Bucket and k' v' assume k: "k' \<in> K" and v: "map_of (objs b) k' = Some v'"
  obtain r b1 where m: "os_Stat e k b = (r, b1)" by fastforce
  have 1: "map_of (objs b1) k' = Some v'" using touchesD [OF touches_read(2) m, of k' "{}"] v by simp
  show "map_of (objs (snd (bindS (os_Stat e k) (\<lambda>ex. if ex then f ex else bindS (os_Put e k v) g) b))) k' = Some v'"
  proof (cases r)
    case (Inr ex)
    show ?thesis
    proof (cases ex)
      case True
      then show ?thesis using m Inr 1 k assms(1) by (simp add: bindS_def preserves_def)
    next
      case False
      then have ne: "k' \<noteq> k" using os_Stat_Inr m Inr v by fastforce
      obtain r2 b2 where p: "os_Put e k v b1 = (r2, b2)" by fastforce
      have "map_of (objs b2) k' = Some v'" using touchesD [OF touches_write(1) p, of "{k}" k'] 1 ne by simp
      then show ?thesis using m Inr False p k assms(2) by (cases r2) (simp_all add: bindS_def preserves_def)
    qed
  qed (use m 1 in \<open>simp add: bindS_def\<close>)
qed

lemma createLoop_preserves: "preserves (createLoop e z ks st) UNIV"
proof (induction ks arbitrary: st)
  case (Cons k ks)
  obtain en lb ba wr where st: "st = (en, lb, ba, wr)" by (cases st)
  have h: "preserves (hashObject e k) UNIV" using touches_preserves [OF touches_load(6) [where K = "{}"]] by simp
  show ?case unfolding st createLoop.simps Let_def
    by (intro preserves_bind [OF h]) (auto intro!: statPut_preserves Cons.IH)
next
  case Nil
  show ?case by (cases st) (simp add: preserves_def retS_def)
qed

lemma Create_preserves: "preserves (Create e z now i kind par) (- {manifestKey z i, indexKey z i})"
proof -
  have l: "preserves (liveObjects e z) K" for K using touches_preserves [OF touches_load(5) [where K = "{}"]] by simp
  have c: "preserves (createLoop e z ks st) K" for ks st K using createLoop_preserves [of e z ks st] by (simp add: preserves_def)
  have p: "preserves (os_Put e k v) (- {manifestKey z i, indexKey z i})" if "k \<in> {manifestKey z i, indexKey z i}" for k v
    by (rule touches_preserves [OF touches_write(1) [OF that]]) auto
  have r: "preserves (retS x) K" for x :: Index and K by (simp add: preserves_def retS_def)
  show ?thesis unfolding Create_def Let_def
    by (auto intro!: preserves_bind [OF l] preserves_bind [OF c] preserves_bind [OF p] r)
qed

lemma safety_touches:
  "touches (if skip then retS [] else bindS (Create e z now sid ''pre-restore'' i) (\<lambda>s. retS (ix_ID s))) (range (blobKey z) \<union> {manifestKey z sid, indexKey z sid})"
proof (cases skip)
  case False
  have "touches (bindS (Create e z now sid ''pre-restore'' i) (\<lambda>s. retS (ix_ID s))) (range (blobKey z) \<union> {manifestKey z sid, indexKey z sid})"
    by (rule touches_bind [OF Create_touches touches_basic(1)])
  then show ?thesis using False by (simp only: if_False)
qed (simp add: touches_basic)

lemma safety_preserves:
  "preserves (if skip then retS [] else bindS (Create e z now sid ''pre-restore'' i) (\<lambda>s. retS (ix_ID s))) (- {manifestKey z sid, indexKey z sid})"
proof -
  have r: "preserves (retS x) K" for x :: string and K by (simp add: preserves_def retS_def)
  show ?thesis by (auto intro!: preserves_bind [OF Create_preserves] r)
qed

lemma Restore_cases:
  assumes "Restore e z now sid skip i b = (r, b')"
  obtains (Refused) er where "r = Inl er" "objs b' = objs b"
  | (Went) b1 idx m b2 where "Verify e z i b = (Inr (), b1)" "objs b1 = objs b" "objs b2 = objs b"
      "ze_unindex e (the (map_of (objs b) (indexKey z i))) = Some idx" "map_of (objs b) (indexKey z i) \<noteq> None"
      "\<exists>c c'. loadManifest e idx c = (Inr m, c') \<and> objs c = objs b"
      "bindS (if skip then retS [] else bindS (Create e z now sid ''pre-restore'' i) (\<lambda>s. retS (ix_ID s))) (\<lambda>x.
         bindS (restoreWrites e z (mf_Entries m) []) (\<lambda>want. bindS (liveObjects e z) (\<lambda>live. bindS (restoreDeletes e want live 0) (\<lambda>n.
           retS \<lparr>rr_RestoredID = i, rr_ObjectsWritten = length (mf_Entries m), rr_ObjectsDeleted = n, rr_SafetySnapshotID = x\<rparr>)))) b2 = (r, b')"
proof -
  obtain r1 b1 where v: "Verify e z i b = (r1, b1)" by fastforce
  have b1: "objs b1 = objs b" using Verify_readonly [of e z i] v unfolding readonly_def by (metis snd_conv)
  obtain r2 b2 where g: "GetIndex e z i b1 = (r2, b2)" by fastforce
  have b2: "objs b2 = objs b1" using readonly_load(1) [of e z i] g unfolding readonly_def by (metis snd_conv)
  show thesis
  proof (cases r1)
    case (Inl er)
    then show thesis using assms v b1 by (intro Refused) (auto simp: Restore_def bindS_def)
  next
    case r1: (Inr u)
    show thesis
    proof (cases r2)
      case (Inl er)
      then show thesis using assms v r1 g b1 b2 by (intro Refused) (auto simp: Restore_def bindS_def)
    next
      case r2: (Inr idx)
      obtain r3 b3 where l: "loadManifest e idx b2 = (r3, b3)" by fastforce
      have b3: "objs b3 = objs b2" using readonly_load(2) [of e idx] l unfolding readonly_def by (metis snd_conv)
      note gi = GetIndex_Inr [OF g [unfolded r2]]
      show thesis
      proof (cases r3)
        case (Inl er)
        then show thesis using assms v r1 g r2 l b1 b2 b3 by (intro Refused) (auto simp: Restore_def bindS_def)
      next
        case (Inr m)
        show thesis
        proof (rule Went)
          show "Verify e z i b = (Inr (), b1)" using v r1 by simp
          show "\<exists>c c'. loadManifest e idx c = (Inr m, c') \<and> objs c = objs b" using l Inr b1 b2 by metis
          show "objs b3 = objs b" using b1 b2 b3 by simp
          show "bindS (if skip then retS [] else bindS (Create e z now sid ''pre-restore'' i) (\<lambda>s. retS (ix_ID s))) (\<lambda>x.
             bindS (restoreWrites e z (mf_Entries m) []) (\<lambda>want. bindS (liveObjects e z) (\<lambda>live. bindS (restoreDeletes e want live 0) (\<lambda>n.
               retS \<lparr>rr_RestoredID = i, rr_ObjectsWritten = length (mf_Entries m), rr_ObjectsDeleted = n, rr_SafetySnapshotID = x\<rparr>)))) b3 = (r, b')"
            using assms unfolding Restore_def bindS_def [of "Verify e z i"] bindS_def [of "GetIndex e z i"] bindS_def [of "loadManifest e idx"]
            by (simp add: v r1 g r2 l Inr bindS_def [of "loadManifest e idx"])
        qed (use gi b1 in auto)
      qed
    qed
  qed
qed

subsection \<open>What Create stores\<close>

text \<open>What the code relies on of SHA-256, gzip and JSON.\<close>

definition snap_env_ok :: "snap_env \<Rightarrow> bool" where
  "snap_env_ok e \<longleftrightarrow> (\<forall>x. validBlobHash (ze_sha e x)) \<and> (\<forall>x. ze_gunzip e (ze_gzip e x) = Some x)
     \<and> (\<forall>m. ze_unmanifest e (ze_manifest e m) = Some m) \<and> (\<forall>i. ze_unindex e (ze_index e i) = Some i)"

definition entryOf :: "snap_env \<Rightarrow> Snapshotter \<Rightarrow> (string, bytes) table \<Rightarrow> string \<Rightarrow> ManifestEntry" where
  "entryOf e z t k = (let raw = the (map_of t k) in \<lparr>me_Key = trimPrefix k (z_dataPfx z), me_Size = length raw, me_SHA256 = ze_sha e raw\<rparr>)"

definition blobs_ok :: "snap_env \<Rightarrow> Snapshotter \<Rightarrow> (string, bytes) table \<Rightarrow> bool" where
  "blobs_ok e z t \<longleftrightarrow> (\<forall>h comp. validBlobHash h \<longrightarrow> map_of t (blobKey z h) = Some comp \<longrightarrow> (\<exists>raw. ze_gunzip e comp = Some raw \<and> ze_sha e raw = h))"

lemma validBlobHash_length: "validBlobHash h \<Longrightarrow> length h = 64"
  by (simp add: validBlobHash_def split: if_splits)

lemma blobs_ok_put:
  assumes "snap_env_ok e" "blobs_ok e z t"
  shows "blobs_ok e z (upsert (blobKey z (ze_sha e raw)) (ze_gzip e raw) t)"
  unfolding blobs_ok_def
proof (intro allI impI)
  fix h comp assume h: "validBlobHash h" and c: "map_of (upsert (blobKey z (ze_sha e raw)) (ze_gzip e raw) t) (blobKey z h) = Some comp"
  have i: "blobKey z h = blobKey z (ze_sha e raw) \<longleftrightarrow> h = ze_sha e raw"
    using blobKey_inj validBlobHash_length h assms(1) by (simp add: snap_env_ok_def)
  show "\<exists>raw. ze_gunzip e comp = Some raw \<and> ze_sha e raw = h"
    using c h assms i by (auto simp: map_of_upsert snap_env_ok_def blobs_ok_def split: if_splits)
qed

lemma blobs_ok_other:
  "blobs_ok e z t \<Longrightarrow> blobs_ok e z (upsert (manifestKey z i) v t)" "blobs_ok e z t \<Longrightarrow> blobs_ok e z (upsert (indexKey z i) v t)"
  by (auto simp: blobs_ok_def map_of_upsert)

lemma hashObject_Inr: "hashObject e k b = (Inr (h, raw), b') \<Longrightarrow> map_of (objs b) k = Some raw \<and> h = ze_sha e raw \<and> objs b' = objs b"
  by (auto simp: hashObject_def bindS_Inr retS_Inr dest!: os_Get_Inr)

lemma createLoop_Inr:
  assumes "createLoop e z ks (en, lb, ba, wr) b = (Inr (en', r), b')" "\<forall>k \<in> set ks. k \<notin> art_keys z" "\<forall>h \<in> set wr. map_of (objs b) (blobKey z h) \<noteq> None"
  shows "en' = en @ map (entryOf e z (objs b)) ks"
    "\<forall>k \<in> set ks. map_of (objs b') (blobKey z (me_SHA256 (entryOf e z (objs b) k))) \<noteq> None"
    "snap_env_ok e \<Longrightarrow> blobs_ok e z (objs b) \<Longrightarrow> blobs_ok e z (objs b')"
proof -
  have "en' = en @ map (entryOf e z (objs b)) ks \<and>
    (\<forall>k \<in> set ks. map_of (objs b') (blobKey z (me_SHA256 (entryOf e z (objs b) k))) \<noteq> None) \<and>
    (snap_env_ok e \<longrightarrow> blobs_ok e z (objs b) \<longrightarrow> blobs_ok e z (objs b'))"
    using assms
  proof (induction ks arbitrary: en lb ba wr b)
    case Nil
    then show ?case by (auto simp: retS_Inr)
  next
    case (Cons k ks)
    obtain h raw b1 where ho: "hashObject e k b = (Inr (h, raw), b1)"
      using Cons.prems(1) by (auto simp: bindS_Inr)
    note hh = hashObject_Inr [OF ho]
    let ?en = "\<lparr>me_Key = trimPrefix k (z_dataPfx z), me_Size = length raw, me_SHA256 = h\<rparr>"
    have en: "entryOf e z (objs b) k = ?en" using hh by (simp add: entryOf_def)
    have rest: "\<forall>k \<in> set ks. k \<notin> art_keys z" using Cons.prems(2) by simp
    have same: "map (entryOf e z (objs c)) ks = map (entryOf e z (objs b)) ks" if "\<And>x. x \<notin> art_keys z \<Longrightarrow> map_of (objs c) x = map_of (objs b) x" for c
      using that rest by (simp add: entryOf_def)
    have fin: ?case if go: "createLoop e z ks (en @ [?en], lb', ba', wr') c = (Inr (en', r), b')"
      and c: "\<And>x. x \<notin> art_keys z \<Longrightarrow> map_of (objs c) x = map_of (objs b) x" "\<forall>x \<in> set wr'. map_of (objs c) (blobKey z x) \<noteq> None"
        "map_of (objs c) (blobKey z h) \<noteq> None" "snap_env_ok e \<longrightarrow> blobs_ok e z (objs b) \<longrightarrow> blobs_ok e z (objs c)" for lb' ba' wr' c
    proof -
      note ih = Cons.IH [OF go rest c(2)]
      obtain v where v: "map_of (objs c) (blobKey z h) = Some v" using c(3) by blast
      have "map_of (objs b') (blobKey z h) = Some v" using preservesD [OF createLoop_preserves go UNIV_I v] .
      moreover have "\<forall>k \<in> set ks. entryOf e z (objs c) k = entryOf e z (objs b) k" using same [OF c(1)] by simp
      ultimately show ?thesis using ih c(4) same [OF c(1)] en by auto
    qed
    show ?case
    proof (cases "h \<in> set wr")
      case True
      then have "createLoop e z ks (en @ [?en], lb + length raw, ba, wr) b1 = (Inr (en', r), b')"
        using Cons.prems(1) ho by (simp add: bindS_def Let_def)
      then show ?thesis by (rule fin) (use hh Cons.prems(3) True in auto)
    next
      case False
      obtain ex b2 where st: "os_Stat e (blobKey z h) b1 = (Inr ex, b2)"
        using Cons.prems(1) ho False by (auto simp: bindS_def Let_def split: prod.splits sum.splits)
      note s2 = os_Stat_Inr [OF st]
      show ?thesis
      proof (cases ex)
        case True
        then have "createLoop e z ks (en @ [?en], lb + length raw, ba, h # wr) b2 = (Inr (en', r), b')"
          using Cons.prems(1) ho False st by (simp add: bindS_def Let_def)
        then show ?thesis by (rule fin) (use hh s2 Cons.prems(3) True in auto)
      next
        case ex: False
        obtain b3 where pt: "os_Put e (blobKey z h) (ze_gzip e raw) b2 = (Inr (), b3)"
          using Cons.prems(1) ho False st ex by (auto simp: bindS_def Let_def split: prod.splits sum.splits)
        note p3 = os_Put_Inr [OF pt]
        have "createLoop e z ks (en @ [?en], lb + length raw, ba + length (ze_gzip e raw), h # wr) b3 = (Inr (en', r), b')"
          using Cons.prems(1) ho False st ex pt by (simp add: bindS_def Let_def)
        then show ?thesis
          by (rule fin) (use hh s2 p3 Cons.prems(3) keys_art(1) [of z h] in \<open>auto simp: map_of_upsert blobs_ok_put\<close>)
      qed
    qed
  qed
  then show "en' = en @ map (entryOf e z (objs b)) ks"
    "\<forall>k \<in> set ks. map_of (objs b') (blobKey z (me_SHA256 (entryOf e z (objs b) k))) \<noteq> None"
    "snap_env_ok e \<Longrightarrow> blobs_ok e z (objs b) \<Longrightarrow> blobs_ok e z (objs b')" by auto
qed

lemma Create_Inr:
  assumes "Create e z now i kind par b = (Inr idx, b')"
  obtains ks m where "set ks = {k \<in> live_keys z. map_of (objs b) k \<noteq> None}" "unique_keys (objs b) \<Longrightarrow> distinct ks"
    "map_of (objs b') (indexKey z i) = Some (ze_index e idx)" "ix_ManifestKey idx = manifestKey z i" "ix_SourcePrefix idx = z_dataPfx z" "ix_ID idx = i"
    "map_of (objs b') (manifestKey z i) = Some (ze_gzip e (ze_manifest e m))" "ix_ManifestSHA256 idx = ze_sha e (ze_gzip e (ze_manifest e m))"
    "mf_Entries m = sort_key me_Key (map (entryOf e z (objs b)) ks)"
    "\<forall>k \<in> set ks. map_of (objs b') (blobKey z (me_SHA256 (entryOf e z (objs b) k))) \<noteq> None"
    "snap_env_ok e \<Longrightarrow> blobs_ok e z (objs b) \<Longrightarrow> blobs_ok e z (objs b')"
proof -
  obtain ks b1 where l: "liveObjects e z b = (Inr ks, b1)" using assms by (auto simp: Create_def bindS_Inr)
  note lo = liveObjects_Inr [OF l]
  obtain en lb ba wr b2 where c: "createLoop e z ks ([], 0, 0, []) b1 = (Inr (en, lb, ba, wr), b2)"
    using assms l by (auto simp: Create_def bindS_def split: prod.splits sum.splits)
  have na: "\<forall>k \<in> set ks. k \<notin> art_keys z" using lo(2) art_not_live by auto
  note cl = createLoop_Inr [OF c na, simplified, unfolded lo(1)]
  let ?m = "\<lparr>mf_SnapshotID = i, mf_SourcePrefix = z_dataPfx z, mf_Entries = sort_key me_Key en\<rparr>"
  let ?mgz = "ze_gzip e (ze_manifest e ?m)"
  obtain b3 where p1: "os_Put e (manifestKey z i) ?mgz b2 = (Inr (), b3)"
    using assms l c by (auto simp: Create_def bindS_def Let_def split: prod.splits sum.splits)
  have p2: "os_Put e (indexKey z i) (ze_index e idx) b3 = (Inr (), b')"
    and idx: "idx = \<lparr>ix_ID = i, ix_CreatedAt = now, ix_ParentID = par, ix_Kind = kind, ix_SourcePrefix = z_dataPfx z,
      ix_ObjectCount = length en, ix_LogicalBytes = lb, ix_BlobBytesAdded = ba, ix_ManifestKey = manifestKey z i, ix_ManifestSHA256 = ze_sha e ?mgz\<rparr>"
    using assms l c p1 by (auto simp: Create_def bindS_def Let_def retS_def split: prod.splits sum.splits)
  note o = os_Put_Inr [OF p1] os_Put_Inr [OF p2]
  show thesis
  proof (rule that [of ks ?m])
    show "map_of (objs b') (manifestKey z i) = Some ?mgz" "map_of (objs b') (indexKey z i) = Some (ze_index e idx)" using o by (simp_all add: map_of_upsert)
    show "\<forall>k \<in> set ks. map_of (objs b') (blobKey z (me_SHA256 (entryOf e z (objs b) k))) \<noteq> None" using cl(2) o by (simp add: map_of_upsert)
    show "snap_env_ok e \<Longrightarrow> blobs_ok e z (objs b) \<Longrightarrow> blobs_ok e z (objs b')" using cl(3) o by (simp add: blobs_ok_other)
  qed (use lo cl(1) idx in simp_all)
qed

subsection \<open>Restoring\<close>

lemma verifyEntries_Inr:
  "verifyEntries e z ens b = (Inr u, b') \<Longrightarrow> \<forall>en \<in> set ens. \<exists>full. safeLiveKey (z_dataPfx z) (me_Key en) = Inr full"
  by (induction ens arbitrary: b) (auto simp: failS_def split: sum.splits if_splits prod.splits)

lemma restoreWrites_Inr:
  assumes "pfx_ok z" "restoreWrites e z ens want b = (Inr want', b')" "distinct (map me_Key ens)"
  shows "want' = want @ map (\<lambda>en. z_dataPfx z @ me_Key en) ens"
    "\<forall>en \<in> set ens. \<exists>raw. map_of (objs b') (z_dataPfx z @ me_Key en) = Some raw \<and> ze_sha e raw = me_SHA256 en"
    "\<forall>k. k \<notin> (\<lambda>en. z_dataPfx z @ me_Key en) ` set ens \<longrightarrow> map_of (objs b') k = map_of (objs b) k"
proof -
  have "want' = want @ map (\<lambda>en. z_dataPfx z @ me_Key en) ens \<and>
    (\<forall>en \<in> set ens. \<exists>raw. map_of (objs b') (z_dataPfx z @ me_Key en) = Some raw \<and> ze_sha e raw = me_SHA256 en) \<and>
    (\<forall>k. k \<notin> (\<lambda>en. z_dataPfx z @ me_Key en) ` set ens \<longrightarrow> map_of (objs b') k = map_of (objs b) k)"
    using assms(2,3)
  proof (induction ens arbitrary: want b)
    case Nil
    then show ?case by (simp add: retS_Inr)
  next
    case (Cons en ens)
    obtain full where f: "safeLiveKey (z_dataPfx z) (me_Key en) = Inr full" using Cons.prems(1) by (auto simp: failS_Inr split: sum.splits)
    have full: "full = z_dataPfx z @ me_Key en" by (rule safeLiveKey_Inr(1) [OF f assms(1)])
    obtain got raw b1 where r: "readBlob e z (me_SHA256 en) b = (Inr (got, raw), b1)" using Cons.prems(1) f by (auto simp: bindS_Inr)
    note rb = readBlob_Inr [OF r]
    have g: "got = me_SHA256 en" using Cons.prems(1) f r by (auto simp: bindS_def failS_Inr split: if_splits)
    obtain b2 where p: "os_Put e full raw b1 = (Inr (), b2)" using Cons.prems(1) f r g by (auto simp: bindS_def split: prod.splits sum.splits)
    have go: "restoreWrites e z ens (want @ [full]) b2 = (Inr want', b')" using Cons.prems(1) f r g p by (simp add: bindS_def)
    note ih = Cons.IH [OF go] and o = os_Put_Inr [OF p]
    have nin: "full \<notin> (\<lambda>en. z_dataPfx z @ me_Key en) ` set ens" using Cons.prems(2) full by (auto simp: image_iff)
    have "map_of (objs b') full = Some raw" using ih nin Cons.prems(2) o by (simp add: map_of_upsert)
    then show ?case using ih Cons.prems(2) full o rb g by (auto simp: map_of_upsert)
  qed
  then show "want' = want @ map (\<lambda>en. z_dataPfx z @ me_Key en) ens"
    "\<forall>en \<in> set ens. \<exists>raw. map_of (objs b') (z_dataPfx z @ me_Key en) = Some raw \<and> ze_sha e raw = me_SHA256 en"
    "\<forall>k. k \<notin> (\<lambda>en. z_dataPfx z @ me_Key en) ` set ens \<longrightarrow> map_of (objs b') k = map_of (objs b) k" by blast+
qed

lemma restoreDeletes_Inr:
  assumes "restoreDeletes e want ks n b = (Inr n', b')"
  shows "map_of (objs b') k = (if k \<in> set ks \<and> k \<notin> set want then None else map_of (objs b) k)"
  using assms
proof (induction ks arbitrary: n b)
  case Nil
  then show ?case by (simp add: retS_Inr)
next
  case (Cons x ks)
  show ?case
  proof (cases "x \<in> set want")
    case True
    then show ?thesis using Cons.IH [of n b] Cons.prems by auto
  next
    case False
    obtain b1 where d: "os_Delete e x b = (Inr (), b1)" using Cons.prems False by (auto simp: bindS_Inr)
    have "restoreDeletes e want ks (n + 1) b1 = (Inr n', b')" using Cons.prems False d by (simp add: bindS_def)
    from Cons.IH [OF this] show ?thesis using os_Delete_Inr [OF d] False by (auto simp: tbl)
  qed
qed

definition live :: "Snapshotter \<Rightarrow> (string, bytes) table \<Rightarrow> string \<rightharpoonup> bytes" where
  "live z t k = (if k \<in> live_keys z then map_of t k else None)"

text \<open>A manifest that records the keys \<open>ks\<close> of the table \<open>t\<close>.\<close>

definition records :: "snap_env \<Rightarrow> Snapshotter \<Rightarrow> (string, bytes) table \<Rightarrow> Manifest \<Rightarrow> bool" where
  "records e z t m \<longleftrightarrow> (\<exists>ks. set ks = {k \<in> live_keys z. map_of t k \<noteq> None} \<and> distinct ks \<and> mf_Entries m = sort_key me_Key (map (entryOf e z t) ks))"

lemma live_key_split: "k \<in> live_keys z \<Longrightarrow> z_dataPfx z @ trimPrefix k (z_dataPfx z) = k"
  by (auto simp: live_keys_def trimPrefix_def HasPrefix_iff)

lemma entryOf_fields: "me_Key (entryOf e z t k) = trimPrefix k (z_dataPfx z)" "me_SHA256 (entryOf e z t k) = ze_sha e (the (map_of t k))"
  by (simp_all add: entryOf_def Let_def)

lemma records_distinct: "records e z t m \<Longrightarrow> distinct (map me_Key (mf_Entries m))"
proof -
  assume "records e z t m"
  then obtain ks where ks: "set ks \<subseteq> live_keys z" "distinct ks" "mf_Entries m = sort_key me_Key (map (entryOf e z t) ks)" by (auto simp: records_def)
  have "inj_on (\<lambda>k. trimPrefix k (z_dataPfx z)) (set ks)"
    using ks(1) live_key_split by (intro inj_onI) (metis subsetD)
  then have "distinct (map me_Key (map (entryOf e z t) ks))" using ks(2) by (simp add: comp_def entryOf_fields distinct_map)
  then show ?thesis unfolding ks(3) by (rule distinct_sort_key)
qed

lemma records_fulls: "records e z t m \<Longrightarrow> (\<lambda>en. z_dataPfx z @ me_Key en) ` set (mf_Entries m) = {k \<in> live_keys z. map_of t k \<noteq> None}"
proof -
  assume "records e z t m"
  then obtain ks where ks: "set ks = {k \<in> live_keys z. map_of t k \<noteq> None}" "set (mf_Entries m) = entryOf e z t ` set ks" by (auto simp: records_def)
  have "z_dataPfx z @ me_Key (entryOf e z t k) = k" if "k \<in> set ks" for k using that ks(1) live_key_split by (simp add: entryOf_fields)
  then show ?thesis using ks by (force simp: image_iff)
qed

lemma restore_tail:
  assumes z: "pfx_ok z" and m: "records e z t m" and w: "restoreWrites e z (mf_Entries m) [] b = (Inr want, b1)"
    and l: "liveObjects e z b1 = (Inr ks, b2)" and d: "restoreDeletes e want ks 0 b2 = (Inr n, b3)"
  shows "map_option (ze_sha e) (live z (objs b3) k) = map_option (ze_sha e) (live z t k)"
proof (cases "k \<in> live_keys z")
  case True
  note W = restoreWrites_Inr [OF z w records_distinct [OF m]] and L = liveObjects_Inr [OF l] and D = restoreDeletes_Inr [OF d, of k]
  have ws: "set want = {k \<in> live_keys z. map_of t k \<noteq> None}" using W(1) records_fulls [OF m] by simp
  show ?thesis
  proof (cases "map_of t k")
    case None
    then have "map_of (objs b3) k = None" using D L ws True by auto
    then show ?thesis using None by (simp add: live_def)
  next
    case (Some raw)
    from m obtain ks' where ks': "set ks' = {k \<in> live_keys z. map_of t k \<noteq> None}" "set (mf_Entries m) = entryOf e z t ` set ks'" by (auto simp: records_def)
    then have "entryOf e z t k \<in> set (mf_Entries m)" using True Some by auto
    then obtain raw' where "map_of (objs b1) k = Some raw'" "ze_sha e raw' = ze_sha e raw"
      using W(2) live_key_split [OF True] Some by (auto simp: entryOf_fields)
    moreover have "map_of (objs b3) k = map_of (objs b1) k" using D L(1) ws True Some by simp
    ultimately show ?thesis using True Some by (simp add: live_def)
  qed
qed (simp add: live_def)

end
