(* ===== verification/Codec.thy ===== *)
theory Codec
  imports Prelude "HOL-Library.Countable"
begin

text \<open>
  A total, invertible encoding of numbers and byte strings as byte strings. The components
  take the encoder and decoder of their stored records as parameters; the concrete instances
  the examples run on are built from these functions.
\<close>

definition packStr :: "string \<Rightarrow> nat" where
  "packStr s = list_encode (map of_char s)"

definition unpackStr :: "nat \<Rightarrow> string" where
  "unpackStr n = map char_of (list_decode n)"

lemma pack_str [simp]: "unpackStr (packStr s) = s"
  by (simp add: packStr_def unpackStr_def comp_def)

definition packNats :: "nat list \<Rightarrow> bytes" where
  "packNats ns = replicate (list_encode ns) CHR ''x''"

definition unpackNats :: "bytes \<Rightarrow> nat list" where
  "unpackNats s = list_decode (length s)"

lemma unpackNats_packNats [simp]: "unpackNats (packNats ns) = ns"
  by (simp add: packNats_def unpackNats_def)

end
