(* ===== verification/Snapshot_Roundtrip.thy ===== *)
theory Snapshot_Roundtrip
  imports Snapshot_Restore Codec
begin

text \<open>
  The round trip of a snapshot: a box restored to it has the captured objects, and when the
  object store answers every call the restore succeeds; a live object whose key restore
  refuses makes the whole snapshot unrestorable.
\<close>

subsection \<open>When the store answers every call\<close>

definition answers :: "snap_env \<Rightarrow> bool" where
  "answers e \<longleftrightarrow> (\<forall>n. ze_fate e n = Done)"

lemma get_ok: "answers e \<Longrightarrow> map_of (objs b) k = Some v \<Longrightarrow> \<exists>b'. os_Get e k b = (Inr v, b') \<and> objs b' = objs b"
  by (simp add: answers_def os_Get_def callS_def)

lemma put_ok: "answers e \<Longrightarrow> \<exists>b'. os_Put e k v b = (Inr (), b') \<and> objs b' = upsert k v (objs b)"
  by (simp add: answers_def os_Put_def callS_def)

lemma delete_ok: "answers e \<Longrightarrow> \<exists>b'. os_Delete e k b = (Inr (), b') \<and> objs b' = delete_where (\<lambda>x. x = k) (objs b)"
  by (simp add: answers_def os_Delete_def callS_def)

lemma stat_ok: "answers e \<Longrightarrow> \<exists>b'. os_Stat e k b = (Inr (map_of (objs b) k \<noteq> None), b') \<and> objs b' = objs b"
  by (simp add: answers_def os_Stat_def callS_def)

lemma liveObjects_ok: "answers e \<Longrightarrow> \<exists>ks b'. liveObjects e z b = (Inr ks, b')"
  by (simp add: answers_def liveObjects_def os_List_def callS_def bindS_def retS_def)

lemma readBlob_ok:
  assumes "answers e" "blobs_ok e z (objs b)" "validBlobHash h" "map_of (objs b) (blobKey z h) \<noteq> None"
  shows "\<exists>raw b'. readBlob e z h b = (Inr (h, raw), b') \<and> objs b' = objs b"
proof -
  obtain comp where c: "map_of (objs b) (blobKey z h) = Some comp" using assms(4) by blast
  then obtain raw where "ze_gunzip e comp = Some raw" "ze_sha e raw = h" using assms(2,3) by (auto simp: blobs_ok_def)
  then show ?thesis using get_ok [OF assms(1) c] by (auto simp: readBlob_def bindS_def retS_def)
qed

definition blob_ready :: "snap_env \<Rightarrow> Snapshotter \<Rightarrow> (string, bytes) table \<Rightarrow> ManifestEntry \<Rightarrow> bool" where
  "blob_ready e z t en \<longleftrightarrow> (\<exists>full. safeLiveKey (z_dataPfx z) (me_Key en) = Inr full) \<and> validBlobHash (me_SHA256 en) \<and> map_of t (blobKey z (me_SHA256 en)) \<noteq> None"

lemma verifyEntries_ok:
  assumes "answers e"
  shows "blobs_ok e z (objs b) \<Longrightarrow> \<forall>en \<in> set ens. blob_ready e z (objs b) en \<Longrightarrow> \<exists>b'. verifyEntries e z ens b = (Inr (), b') \<and> objs b' = objs b"
proof (induction ens arbitrary: b)
  case (Cons en ens)
  obtain full where f: "safeLiveKey (z_dataPfx z) (me_Key en) = Inr full" using Cons.prems(2) by (auto simp: blob_ready_def)
  obtain raw b1 where r: "readBlob e z (me_SHA256 en) b = (Inr (me_SHA256 en, raw), b1)" "objs b1 = objs b"
    using readBlob_ok [OF assms Cons.prems(1), of "me_SHA256 en"] Cons.prems(2) by (auto simp: blob_ready_def)
  obtain b' where "verifyEntries e z ens b1 = (Inr (), b')" "objs b' = objs b1" using Cons.IH [of b1] Cons.prems r(2) by auto
  then show ?case using f r Cons.prems(2) by (auto simp: blob_ready_def)
qed (simp add: retS_def)

lemma createLoop_ok:
  assumes "answers e"
  shows "\<forall>k \<in> set ks. k \<notin> art_keys z \<and> map_of (objs b) k \<noteq> None \<Longrightarrow> \<exists>st' b'. createLoop e z ks st b = (Inr st', b')"
proof (induction ks arbitrary: st b)
  case Nil
  then show ?case by (cases st) (simp add: retS_def)
next
  case (Cons k ks)
  obtain en lb ba wr where st: "st = (en, lb, ba, wr)" by (cases st)
  obtain raw where raw: "map_of (objs b) k = Some raw" using Cons.prems by auto
  obtain b1 where h: "hashObject e k b = (Inr (ze_sha e raw, raw), b1)" "objs b1 = objs b"
    using get_ok [OF assms raw] by (auto simp: hashObject_def bindS_def retS_def)
  let ?h = "ze_sha e raw"
  obtain b2 where s: "os_Stat e (blobKey z ?h) b1 = (Inr (map_of (objs b1) (blobKey z ?h) \<noteq> None), b2)" "objs b2 = objs b1"
    using stat_ok [OF assms] by blast
  obtain b3 where p: "os_Put e (blobKey z ?h) (ze_gzip e raw) b2 = (Inr (), b3)" "objs b3 = upsert (blobKey z ?h) (ze_gzip e raw) (objs b2)"
    using put_ok [OF assms] by blast
  have IH: "\<exists>st' b'. createLoop e z ks st1 c = (Inr st', b')" if "c \<in> {b1, b2, b3}" for st1 c
    using that Cons.prems h(2) s(2) p(2) by (intro Cons.IH) (auto simp: map_of_upsert)
  show ?case unfolding st using h(1) s(1) p(1) IH by (auto simp: bindS_def Let_def)
qed

lemma Create_ok:
  assumes "answers e"
  shows "\<exists>idx b'. Create e z now i kind par b = (Inr idx, b')"
proof -
  obtain ks b1 where l: "liveObjects e z b = (Inr ks, b1)" using liveObjects_ok [OF assms] by blast
  note lo = liveObjects_Inr [OF l]
  obtain en lb ba wr b2 where c: "createLoop e z ks ([], 0, 0, []) b1 = (Inr (en, lb, ba, wr), b2)"
    using createLoop_ok [OF assms, of ks z b1] lo art_not_live by fastforce
  show ?thesis using l c put_ok [OF assms] unfolding Create_def
    by (simp add: bindS_def Let_def retS_def split: prod.splits sum.splits) (metis Inr_not_Inl old.prod.inject)
qed

lemma restoreWrites_ok:
  assumes "answers e" "pfx_ok z"
  shows "blobs_ok e z (objs b) \<Longrightarrow> \<forall>en \<in> set ens. blob_ready e z (objs b) en \<Longrightarrow> \<exists>want' b'. restoreWrites e z ens want b = (Inr want', b')"
proof (induction ens arbitrary: want b)
  case (Cons en ens)
  obtain full where f: "safeLiveKey (z_dataPfx z) (me_Key en) = Inr full" using Cons.prems(2) by (auto simp: blob_ready_def)
  obtain raw b1 where r: "readBlob e z (me_SHA256 en) b = (Inr (me_SHA256 en, raw), b1)" "objs b1 = objs b"
    using readBlob_ok [OF assms(1) Cons.prems(1), of "me_SHA256 en"] Cons.prems(2) by (auto simp: blob_ready_def)
  obtain b2 where p: "os_Put e full raw b1 = (Inr (), b2)" "objs b2 = upsert full raw (objs b1)" using put_ok [OF assms(1)] by blast
  have "full \<notin> art_keys z" using safeLiveKey_Inr(2) [OF f assms(2)] art_not_live by blast
  then have "blobKey z h \<noteq> full" for h using keys_art(1) by blast
  then have same: "map_of (objs b2) (blobKey z h) = map_of (objs b) (blobKey z h)" for h using p(2) r(2) by (simp add: map_of_upsert)
  have "blobs_ok e z (objs b2)" "\<forall>en \<in> set ens. blob_ready e z (objs b2) en" using Cons.prems by (auto simp: blobs_ok_def blob_ready_def same)
  from Cons.IH [OF this, of "want @ [full]"] show ?case using f r p by (auto simp: bindS_def)
qed (simp add: retS_def)

lemma restoreDeletes_ok: "answers e \<Longrightarrow> \<exists>n' b'. restoreDeletes e want ks n b = (Inr n', b')"
proof (induction ks arbitrary: n b)
  case (Cons k ks)
  obtain b1 where "os_Delete e k b = (Inr (), b1)" using delete_ok [OF Cons.prems] by blast
  then show ?case using Cons.IH [OF Cons.prems] by (auto simp: bindS_def)
qed (simp add: retS_def)

subsection \<open>A stored snapshot\<close>

text \<open>The table \<open>t\<close> holds a snapshot \<open>i\<close> whose manifest \<open>m\<close> decodes.\<close>

definition holds_snapshot :: "snap_env \<Rightarrow> Snapshotter \<Rightarrow> (string, bytes) table \<Rightarrow> string \<Rightarrow> Manifest \<Rightarrow> bool" where
  "holds_snapshot e z t i m \<longleftrightarrow> (\<exists>raw idx mgz body. map_of t (indexKey z i) = Some raw \<and> ze_unindex e raw = Some idx \<and> ix_SourcePrefix idx = z_dataPfx z
     \<and> map_of t (ix_ManifestKey idx) = Some mgz \<and> ze_sha e mgz = ix_ManifestSHA256 idx \<and> ze_gunzip e mgz = Some body \<and> ze_unmanifest e body = Some m)"

lemma Create_holds:
  assumes "snap_env_ok e" "unique_keys (objs b0)" "Create e z now i kind par b0 = (Inr idx, b1)"
    and art: "\<forall>k. HasPrefix k (z_snapPfx z) \<longrightarrow> map_of (objs b2) k = map_of (objs b1) k"
  obtains m where "holds_snapshot e z (objs b2) i m" "records e z (objs b0) m"
    "\<forall>en \<in> set (mf_Entries m). validBlobHash (me_SHA256 en) \<and> map_of (objs b2) (blobKey z (me_SHA256 en)) \<noteq> None"
    "blobs_ok e z (objs b0) \<Longrightarrow> blobs_ok e z (objs b2)"
proof -
  have a: "k \<in> art_keys z \<Longrightarrow> map_of (objs b2) k = map_of (objs b1) k" for k using art by (simp add: art_keys_def)
  obtain ks m where c: "set ks = {k \<in> live_keys z. map_of (objs b0) k \<noteq> None}" "unique_keys (objs b0) \<Longrightarrow> distinct ks"
    "map_of (objs b1) (indexKey z i) = Some (ze_index e idx)" "ix_ManifestKey idx = manifestKey z i" "ix_SourcePrefix idx = z_dataPfx z" "ix_ID idx = i"
    "map_of (objs b1) (manifestKey z i) = Some (ze_gzip e (ze_manifest e m))" "ix_ManifestSHA256 idx = ze_sha e (ze_gzip e (ze_manifest e m))"
    "mf_Entries m = sort_key me_Key (map (entryOf e z (objs b0)) ks)"
    "\<forall>k \<in> set ks. map_of (objs b1) (blobKey z (me_SHA256 (entryOf e z (objs b0) k))) \<noteq> None"
    "snap_env_ok e \<Longrightarrow> blobs_ok e z (objs b0) \<Longrightarrow> blobs_ok e z (objs b1)"
    by (rule Create_Inr [OF assms(3)]) (rule that; assumption)
  show thesis
  proof (rule that [of m])
    show "holds_snapshot e z (objs b2) i m" unfolding holds_snapshot_def
      using c(3-8) a [of "indexKey z i"] a [of "manifestKey z i"] assms(1) by (auto simp: snap_env_ok_def)
    show "records e z (objs b0) m" using c(1,2,9) assms(2) by (auto simp: records_def)
    show "\<forall>en \<in> set (mf_Entries m). validBlobHash (me_SHA256 en) \<and> map_of (objs b2) (blobKey z (me_SHA256 en)) \<noteq> None"
      using c(9,10) assms(1) a [OF keys_art(1)] by (auto simp: entryOf_fields snap_env_ok_def)
    show "blobs_ok e z (objs b2)" if "blobs_ok e z (objs b0)" using c(11) [OF assms(1) that] a [OF keys_art(1)] by (simp add: blobs_ok_def)
  qed
qed

lemma Restore_manifest:
  assumes "Restore e z now sid skip i b = (Inr res, b')" "holds_snapshot e z (objs b) i m"
  obtains b1 b2 b3 b4 want ks n b5 where "restoreWrites e z (mf_Entries m) [] b2 = (Inr want, b3)" "liveObjects e z b3 = (Inr ks, b4)"
    "restoreDeletes e want ks 0 b4 = (Inr n, b')"
  using assms(1)
proof (cases rule: Restore_cases)
  case (Went b1 idx m' b2)
  obtain c c' where lm: "loadManifest e idx c = (Inr m', c')" "objs c = objs b" using Went(6) by blast
  have "m' = m" using loadManifest_Inr [OF lm(1)] lm(2) Went(4,5) assms(2) by (auto simp: holds_snapshot_def)
  then show thesis using Went(7) that by (auto simp: bindS_Inr retS_Inr)
qed simp

lemma loads_ok:
  assumes "answers e" "holds_snapshot e z (objs b) i m" "validSnapshotID i"
  shows "\<exists>idx b1. GetIndex e z i b = (Inr idx, b1) \<and> objs b1 = objs b \<and> ix_SourcePrefix idx = z_dataPfx z \<and>
    (\<forall>c. objs c = objs b \<longrightarrow> (\<exists>c'. loadManifest e idx c = (Inr m, c') \<and> objs c' = objs b))"
proof -
  obtain raw idx mgz body where h: "map_of (objs b) (indexKey z i) = Some raw" "ze_unindex e raw = Some idx" "ix_SourcePrefix idx = z_dataPfx z"
    "map_of (objs b) (ix_ManifestKey idx) = Some mgz" "ze_sha e mgz = ix_ManifestSHA256 idx" "ze_gunzip e mgz = Some body" "ze_unmanifest e body = Some m"
    using assms(2) by (auto simp: holds_snapshot_def)
  obtain b1 where "os_Get e (indexKey z i) b = (Inr raw, b1)" "objs b1 = objs b" using get_ok [OF assms(1) h(1)] by blast
  then have g: "GetIndex e z i b = (Inr idx, b1)" "objs b1 = objs b" using assms(3) h(2) by (simp_all add: GetIndex_def loadIndex_def bindS_def retS_def)
  have "\<exists>c'. loadManifest e idx c = (Inr m, c') \<and> objs c' = objs b" if "objs c = objs b" for c
    using get_ok [OF assms(1), of c "ix_ManifestKey idx" mgz] that h(4-7) by (auto simp: loadManifest_def bindS_def retS_def)
  then show ?thesis using g h(3) by blast
qed

lemma Restore_succeeds:
  assumes a: "answers e" and z: "pfx_ok z" and env: "snap_env_ok e" and v: "validSnapshotID i" and h: "holds_snapshot e z (objs b) i m"
    and r: "\<forall>en \<in> set (mf_Entries m). blob_ready e z (objs b) en" and bo: "blobs_ok e z (objs b)"
  shows "\<exists>res b'. Restore e z now sid skip i b = (Inr res, b')"
proof -
  obtain idx b1 where g: "GetIndex e z i b = (Inr idx, b1)" "objs b1 = objs b" "ix_SourcePrefix idx = z_dataPfx z"
    and lm: "\<And>c. objs c = objs b \<Longrightarrow> \<exists>c'. loadManifest e idx c = (Inr m, c') \<and> objs c' = objs b" using loads_ok [OF a h v] by blast
  obtain b2 where l2: "loadManifest e idx b1 = (Inr m, b2)" "objs b2 = objs b" using lm [OF g(2)] by blast
  obtain b3 where ve: "verifyEntries e z (mf_Entries m) b2 = (Inr (), b3)" "objs b3 = objs b"
    using verifyEntries_ok [OF a, of z b2 "mf_Entries m"] bo r l2(2) by auto
  have vf: "Verify e z i b = (Inr (), b3)" using g l2 ve by (simp add: Verify_def bindS_def)
  have h3: "holds_snapshot e z (objs b3) i m" using h ve(2) by simp
  obtain idx' b4 where g': "GetIndex e z i b3 = (Inr idx', b4)" "objs b4 = objs b3"
    and lm': "\<And>c. objs c = objs b3 \<Longrightarrow> \<exists>c'. loadManifest e idx' c = (Inr m, c') \<and> objs c' = objs b3" using loads_ok [OF a h3 v] by blast
  obtain b5 where l5: "loadManifest e idx' b4 = (Inr m, b5)" "objs b5 = objs b" using lm' [OF g'(2)] ve(2) by auto
  let ?s = "if skip then retS [] else bindS (Create e z now sid ''pre-restore'' i) (\<lambda>s. retS (ix_ID s))"
  obtain x b6 where s: "?s b5 = (Inr x, b6)"
    using Create_ok [OF a, of z now sid "''pre-restore''" i b5] by (cases skip) (auto simp: retS_def bindS_def)
  have pres: "map_of (objs b6) (blobKey z hh) = Some comp" if "map_of (objs b) (blobKey z hh) = Some comp" for hh comp
    using preservesD [OF safety_preserves s, of "blobKey z hh" comp] that l5(2) by simp
  have bo6: "blobs_ok e z (objs b6)"
  proof (cases skip)
    case False
    then obtain ix where "Create e z now sid ''pre-restore'' i b5 = (Inr ix, b6)" using s by (auto simp: bindS_Inr retS_Inr)
    from Create_Inr [OF this] show ?thesis using env bo l5(2) by metis
  qed (use s bo l5(2) in \<open>auto simp: retS_def\<close>)
  have r6: "\<forall>en \<in> set (mf_Entries m). blob_ready e z (objs b6) en" using r pres by (fastforce simp: blob_ready_def)
  obtain want b7 where w: "restoreWrites e z (mf_Entries m) [] b6 = (Inr want, b7)" using restoreWrites_ok [OF a z bo6 r6] by blast
  obtain ks b8 where lo: "liveObjects e z b7 = (Inr ks, b8)" using liveObjects_ok [OF a] by blast
  obtain n b9 where d: "restoreDeletes e want ks 0 b8 = (Inr n, b9)" using restoreDeletes_ok [OF a] by blast
  show ?thesis unfolding Restore_def bindS_go [of "Verify e z i", OF vf] bindS_go [of "GetIndex e z i", OF g'(1)] bindS_go [of "loadManifest e idx'", OF l5(1)]
      bindS_go [of ?s, OF s] bindS_go [of "restoreWrites e z (mf_Entries m) []", OF w] bindS_go [of "liveObjects e z", OF lo]
      bindS_go [of "restoreDeletes e want ks 0", OF d]
    by (simp add: retS_def)
qed

subsection \<open>The round trip\<close>

text \<open>
  Claim C7. Whatever happened to the box's live objects since, and whatever store calls are
  lost, a restore that reports success leaves exactly the live keys that were there when the
  snapshot was created, each with content of the same SHA-256; and when the store answers
  every call, stored blobs match their names and every captured key passes the safety check,
  the restore does succeed. It relies on gzip and JSON decoding what they encoded and on
  SHA-256 printing as 64 hexadecimal digits.
\<close>

theorem restore_returns_to_snapshot:
  assumes "snap_env_ok e" "unique_keys (objs b0)" "z = NewSnapshotter p" "validSnapshotID ident"
    and "Create e z now ident kind par b0 = (Inr idx, b1)" "\<forall>k. HasPrefix k (z_snapPfx z) \<longrightarrow> map_of (objs b2) k = map_of (objs b1) k"
  shows "(Restore e z now' sid skip ident b2 = (Inr res, b3) \<longrightarrow>
        (\<forall>k. map_option (ze_sha e) (live z (objs b3) k) = map_option (ze_sha e) (live z (objs b0) k)))
    \<and> ((\<forall>n. ze_fate e n = Done) \<and> blobs_ok e z (objs b0) \<and>
         (\<forall>k. live z (objs b0) k \<noteq> None \<longrightarrow> (\<exists>full. safeLiveKey (z_dataPfx z) (trimPrefix k (z_dataPfx z)) = Inr full)) \<longrightarrow>
       (\<exists>r b. Restore e z now' sid skip ident b2 = (Inr r, b)))"
proof -
  have z: "pfx_ok z" using assms(3) by simp
  obtain m where h: "holds_snapshot e z (objs b2) ident m" and rec: "records e z (objs b0) m"
    and en: "\<forall>en \<in> set (mf_Entries m). validBlobHash (me_SHA256 en) \<and> map_of (objs b2) (blobKey z (me_SHA256 en)) \<noteq> None"
    and bo: "blobs_ok e z (objs b0) \<Longrightarrow> blobs_ok e z (objs b2)"
    by (rule Create_holds [OF assms(1,2,5,6)]) (rule that; assumption)
  have 1: "map_option (ze_sha e) (live z (objs b3) k) = map_option (ze_sha e) (live z (objs b0) k)"
    if "Restore e z now' sid skip ident b2 = (Inr res, b3)" for k
    by (rule Restore_manifest [OF that h]) (rule restore_tail [OF z rec])
  have 2: "\<exists>r b. Restore e z now' sid skip ident b2 = (Inr r, b)"
    if a: "\<forall>n. ze_fate e n = Done" "blobs_ok e z (objs b0)"
      and safe: "\<forall>k. live z (objs b0) k \<noteq> None \<longrightarrow> (\<exists>full. safeLiveKey (z_dataPfx z) (trimPrefix k (z_dataPfx z)) = Inr full)"
  proof (rule Restore_succeeds [OF _ z assms(1,4) h _ bo [OF a(2)]])
    show "answers e" using a(1) by (simp add: answers_def)
    show "\<forall>en \<in> set (mf_Entries m). blob_ready e z (objs b2) en"
    proof
      fix en' assume i: "en' \<in> set (mf_Entries m)"
      then obtain k where k: "k \<in> live_keys z" "map_of (objs b0) k \<noteq> None" "en' = entryOf e z (objs b0) k" using rec by (auto simp: records_def)
      then have "live z (objs b0) k \<noteq> None" by (simp add: live_def)
      then show "blob_ready e z (objs b2) en'" using safe en i k(3) unfolding blob_ready_def by (metis entryOf_fields(1))
    qed
  qed
  show ?thesis using 1 2 by blast
qed

text \<open>
  One live object whose key the safety check refuses, such as the empty "folder"
  objects S3 tools create (keys ending in a slash), makes the whole snapshot unrestorable:
  \<open>Create\<close> reports success, and every restore of that snapshot is refused and changes
  nothing, although the box could be restored to all its other objects.
\<close>

theorem unsafe_key_blocks_restore:
  assumes "snap_env_ok e" "unique_keys (objs b0)" "Create e z now ident kind par b0 = (Inr idx, b1)"
    and "\<forall>k. HasPrefix k (z_snapPfx z) \<longrightarrow> map_of (objs b2) k = map_of (objs b1) k"
    and "live z (objs b0) k \<noteq> None" "safeLiveKey (z_dataPfx z) (trimPrefix k (z_dataPfx z)) = Inl er"
  shows "\<exists>er' b3. Restore e z now' sid skip ident b2 = (Inl er', b3) \<and> objs b3 = objs b2"
proof -
  obtain m where h: "holds_snapshot e z (objs b2) ident m" and rec: "records e z (objs b0) m" by (rule Create_holds [OF assms(1-4)])
  obtain ks where ks: "set ks = {k \<in> live_keys z. map_of (objs b0) k \<noteq> None}" "set (mf_Entries m) = entryOf e z (objs b0) ` set ks"
    using rec by (auto simp: records_def)
  have "k \<in> set ks" using assms(5) ks(1) by (auto simp: live_def split: if_splits)
  then have en: "entryOf e z (objs b0) k \<in> set (mf_Entries m)" using ks(2) by simp
  obtain r b3 where R: "Restore e z now' sid skip ident b2 = (r, b3)" by fastforce
  then show ?thesis
  proof (cases rule: Restore_cases)
    case (Went b1' idx' m' b2')
    obtain c c' ix where v: "loadManifest e ix c = (Inr m, c')" "verifyEntries e z (mf_Entries m) c' = (Inr (), b1')"
    proof -
      obtain ix c c' mm where g: "GetIndex e z ident b2 = (Inr ix, c)" "loadManifest e ix c = (Inr mm, c')" "verifyEntries e z (mf_Entries mm) c' = (Inr (), b1')"
        using Went(1) by (auto simp: Verify_def bindS_Inr failS_Inr split: if_splits)
      have "mm = m" using GetIndex_Inr [OF g(1)] loadManifest_Inr [OF g(2)] h by (auto simp: holds_snapshot_def)
      then show thesis using that g by blast
    qed
    have "\<exists>full. safeLiveKey (z_dataPfx z) (me_Key (entryOf e z (objs b0) k)) = Inr full" using verifyEntries_Inr [OF v(2)] en by blast
    then show ?thesis using assms(6) by (simp add: entryOf_fields)
  qed (use R in auto)
qed

subsection \<open>Restore is confined\<close>

text \<open>
  Claim C36. A restore is confined and fails closed, whatever store calls are lost and however
  the stored manifest was crafted: it never changes an object outside the box's data prefix;
  it keeps every snapshot artifact that was there, but for the manifest and index of its own
  safety snapshot; and when verification fails it fails with that error and changes nothing.
\<close>

theorem restore_confined:
  assumes "z = NewSnapshotter p" "Restore e z now sid skip ident b = (r, b')"
  shows "(\<not> HasPrefix k (z_dataPfx z) \<longrightarrow> map_of (objs b') k = map_of (objs b) k)
    \<and> (HasPrefix k (z_snapPfx z) \<and> map_of (objs b) k = Some v \<and> k \<noteq> manifestKey z sid \<and> k \<noteq> indexKey z sid \<longrightarrow> map_of (objs b') k = Some v)
    \<and> (fst (Verify e z ident b) = Inl er \<longrightarrow> r = Inl er \<and> objs b' = objs b)"
proof -
  have z: "pfx_ok z" using assms(1) by simp
  have last: "fst (Verify e z ident b) = Inl er \<longrightarrow> r = Inl er \<and> objs b' = objs b"
    using assms(2) Verify_readonly [of e z ident] by (auto simp: Restore_def bindS_def readonly_def split: prod.splits sum.splits dest!: spec [of _ b])
  let ?s = "if skip then retS [] else bindS (Create e z now sid ''pre-restore'' ident) (\<lambda>s. retS (ix_ID s))"
  let ?tail = "\<lambda>m x. bindS (restoreWrites e z (mf_Entries m) []) (\<lambda>want. bindS (liveObjects e z) (\<lambda>live. bindS (restoreDeletes e want live 0) (\<lambda>n.
           retS \<lparr>rr_RestoredID = ident, rr_ObjectsWritten = length (mf_Entries m), rr_ObjectsDeleted = n, rr_SafetySnapshotID = x\<rparr>)))"
  have tail: "touches (?tail m x) (live_keys z)" for m x
  proof (intro touches_bind restoreWrites_touches [OF z] touches_load touches_basic restoreDeletes_touches)
    fix ks b b' assume "liveObjects e z b = (Inr ks, b')"
    then show "set ks \<subseteq> live_keys z" using liveObjects_Inr(2) by fastforce
  qed
  have art: "HasPrefix k (z_snapPfx z) \<longrightarrow> k \<notin> live_keys z" "\<not> HasPrefix k (z_dataPfx z) \<longrightarrow> k \<notin> live_keys z \<union> art_keys z"
    using art_data [OF z, of k] by (auto simp: live_keys_def)
  from assms(2) show ?thesis
  proof (cases rule: Restore_cases)
    case (Refused er')
    then show ?thesis using last by simp
  next
    case (Went b1 idx m b2)
    have K: "range (blobKey z) \<union> {manifestKey z sid, indexKey z sid} \<subseteq> live_keys z \<union> art_keys z" using keys_art by blast
    have "touches (bindS ?s (?tail m)) (live_keys z \<union> art_keys z)"
      by (rule touches_bind [OF touches_mono [OF safety_touches K]]) (rule touches_mono [OF tail], blast)
    from touchesD [OF this Went(7)] have 1: "\<not> HasPrefix k (z_dataPfx z) \<longrightarrow> map_of (objs b') k = map_of (objs b) k"
      using art(2) Went(3) by simp
    have t: "preserves (?tail m x) (- {manifestKey z sid, indexKey z sid} \<inter> art_keys z)" for x
      by (rule touches_preserves [OF tail]) (use art_not_live in blast)
    have "preserves ?s (- {manifestKey z sid, indexKey z sid} \<inter> art_keys z)"
      using safety_preserves [of skip e z now sid ident] unfolding preserves_def by blast
    from preserves_bind [OF this t] have "preserves (bindS ?s (?tail m)) (- {manifestKey z sid, indexKey z sid} \<inter> art_keys z)" .
    from preservesD [OF this Went(7)] show ?thesis using 1 last Went(3) by (auto simp: art_keys_def)
  qed
qed

subsection \<open>A concrete bucket\<close>

definition packEntry :: "ManifestEntry \<Rightarrow> nat" where
  "packEntry en = prod_encode (packStr (me_Key en), prod_encode (me_Size en, packStr (me_SHA256 en)))"

definition unpackEntry :: "nat \<Rightarrow> ManifestEntry" where
  "unpackEntry n = (case prod_decode n of (k, r) \<Rightarrow> case prod_decode r of (s, h) \<Rightarrow> \<lparr>me_Key = unpackStr k, me_Size = s, me_SHA256 = unpackStr h\<rparr>)"

definition packManifest :: "Manifest \<Rightarrow> nat" where
  "packManifest m = prod_encode (packStr (mf_SnapshotID m), prod_encode (packStr (mf_SourcePrefix m), list_encode (map packEntry (mf_Entries m))))"

definition unpackManifest :: "nat \<Rightarrow> Manifest" where
  "unpackManifest n = (case prod_decode n of (i, r) \<Rightarrow> case prod_decode r of (p, es) \<Rightarrow>
     \<lparr>mf_SnapshotID = unpackStr i, mf_SourcePrefix = unpackStr p, mf_Entries = map unpackEntry (list_decode es)\<rparr>)"

definition packIndex :: "Index \<Rightarrow> nat" where
  "packIndex x = list_encode [packStr (ix_ID x), int_encode (ix_CreatedAt x), packStr (ix_ParentID x), packStr (ix_Kind x), packStr (ix_SourcePrefix x),
     ix_ObjectCount x, ix_LogicalBytes x, ix_BlobBytesAdded x, packStr (ix_ManifestKey x), packStr (ix_ManifestSHA256 x)]"

definition unpackIndex :: "nat \<Rightarrow> Index option" where
  "unpackIndex n = (case list_decode n of
     [i, c, pa, ki, so, oc, lb, bb, mk, ms] \<Rightarrow> Some \<lparr>ix_ID = unpackStr i, ix_CreatedAt = int_decode c, ix_ParentID = unpackStr pa, ix_Kind = unpackStr ki,
       ix_SourcePrefix = unpackStr so, ix_ObjectCount = oc, ix_LogicalBytes = lb, ix_BlobBytesAdded = bb, ix_ManifestKey = unpackStr mk,
       ix_ManifestSHA256 = unpackStr ms\<rparr>
   | _ \<Rightarrow> None)"

definition exSnap :: snap_env where
  "exSnap = \<lparr>ze_sha = (\<lambda>x. replicate 63 CHR ''0'' @ [if x = [] then CHR ''0'' else CHR ''1'']), ze_gzip = (\<lambda>x. x), ze_gunzip = Some,
     ze_manifest = (\<lambda>m. replicate (packManifest m) CHR ''x''), ze_unmanifest = (\<lambda>s. Some (unpackManifest (length s))),
     ze_index = (\<lambda>i. replicate (packIndex i) CHR ''x''), ze_unindex = (\<lambda>s. unpackIndex (length s)),
     ze_day = (\<lambda>t. FormatInt (t div 86400)), ze_week = (\<lambda>t. FormatInt (t div 604800)), ze_fate = (\<lambda>_. Done)\<rparr>"

lemma pack_entry [simp]: "unpackEntry (packEntry en) = en"
  by (simp add: packEntry_def unpackEntry_def)

lemma exSnap_ok: "snap_env_ok exSnap"
proof -
  have "unpackManifest (packManifest m) = m" for m by (simp add: packManifest_def unpackManifest_def comp_def)
  moreover have "unpackIndex (packIndex x) = Some x" for x by (simp add: packIndex_def unpackIndex_def del: list_encode.simps)
  ultimately show ?thesis by (auto simp: snap_env_ok_def exSnap_def validBlobHash_def hexChars_def list_all_iff)
qed

definition exSz :: Snapshotter where
  "exSz = NewSnapshotter ''os''"

lemma exSz_pfx: "z_dataPfx exSz = ''os/''" "z_snapPfx exSz = ''os/_snapshots/''"
  by code_simp+

theorem restore_returns_to_snapshot_witness:
  "\<exists>idx b1 res b3. Create exSnap exSz 5 ''s1'' ''manual'' [] \<lparr>objs = [(''os/a'', ''A'')], calls = 0\<rparr> = (Inr idx, b1)
     \<and> Restore exSnap exSz 6 ''s2'' False ''s1'' b1 = (Inr res, b3)
     \<and> map_option (ze_sha exSnap) (live exSz (objs b3) ''os/a'') = Some (ze_sha exSnap ''A'')"
proof -
  let ?b = "\<lparr>objs = [(''os/a'', ''A'')], calls = 0\<rparr>"
  have a: "answers exSnap" by (simp add: answers_def exSnap_def)
  obtain idx b1 where c: "Create exSnap exSz 5 ''s1'' ''manual'' [] ?b = (Inr idx, b1)" using Create_ok [OF a] by blast
  have u: "unique_keys (objs ?b)" by (simp add: unique_keys_def)
  have v: "validSnapshotID ''s1''" by (simp add: validSnapshotID_def HasPrefix_def)
  have bo: "blobs_ok exSnap exSz (objs ?b)" by (auto simp: blobs_ok_def blobKey_def exSz_pfx)
  have lv: "live exSz (objs ?b) k \<noteq> None \<longleftrightarrow> k = ''os/a''" for k
    by (auto simp: live_def live_keys_def exSz_pfx HasPrefix_def)
  have sf: "safeLiveKey ''os/'' (trimPrefix ''os/a'' ''os/'') = Inr ''os/a''" by code_simp
  note T = restore_returns_to_snapshot [OF exSnap_ok u exSz_def v c, of b1 6 "''s2''" False]
  have "\<exists>r b. Restore exSnap exSz 6 ''s2'' False ''s1'' b1 = (Inr r, b)"
    using T a bo lv sf unfolding answers_def exSz_pfx by auto
  then obtain r b where R: "Restore exSnap exSz 6 ''s2'' False ''s1'' b1 = (Inr r, b)" by blast
  then have "map_option (ze_sha exSnap) (live exSz (objs b) ''os/a'') = map_option (ze_sha exSnap) (live exSz (objs ?b) ''os/a'')" using T by blast
  also have "\<dots> = Some (ze_sha exSnap ''A'')" by (simp add: live_def live_keys_def exSz_pfx HasPrefix_def)
  finally show ?thesis using c R by blast
qed

theorem unsafe_key_blocks_restore_witness:
  "\<exists>idx b1 er b3. Create exSnap exSz 5 ''s1'' ''manual'' [] \<lparr>objs = [(''os/a'', ''A''), (''os/photos/'', [])], calls = 0\<rparr> = (Inr idx, b1)
     \<and> Restore exSnap exSz 6 ''s2'' False ''s1'' b1 = (Inl er, b3) \<and> objs b3 = objs b1"
proof -
  let ?b = "\<lparr>objs = [(''os/a'', ''A''), (''os/photos/'', [])], calls = 0\<rparr>"
  have a: "answers exSnap" by (simp add: answers_def exSnap_def)
  obtain idx b1 where c: "Create exSnap exSz 5 ''s1'' ''manual'' [] ?b = (Inr idx, b1)" using Create_ok [OF a] by blast
  have u: "unique_keys (objs ?b)" by (simp add: unique_keys_def)
  have l: "live exSz (objs ?b) ''os/photos/'' \<noteq> None" by (simp add: live_def live_keys_def exSz_pfx HasPrefix_def)
  have sf: "safeLiveKey (z_dataPfx exSz) (trimPrefix ''os/photos/'' (z_dataPfx exSz)) = Inl ErrUnsafeKey" by code_simp
  show ?thesis using unsafe_key_blocks_restore [OF exSnap_ok u c _ l sf, of b1 6 "''s2''" False] c by auto
qed

theorem restore_confined_witness:
  "\<exists>r b'. Restore exSnap exSz 6 ''s2'' False ''s1'' \<lparr>objs = [(''other/a'', ''A'')], calls = 0\<rparr> = (r, b') \<and> map_of (objs b') ''other/a'' = Some ''A''"
proof -
  obtain r b' where R: "Restore exSnap exSz 6 ''s2'' False ''s1'' \<lparr>objs = [(''other/a'', ''A'')], calls = 0\<rparr> = (r, b')" by fastforce
  show ?thesis using restore_confined [OF exSz_def R, of "''other/a''"] R by (simp add: exSz_pfx HasPrefix_def)
qed

end
