(* ===== verification/Snapshot_Prune.thy ===== *)
theory Snapshot_Prune
  imports Snapshot_Roundtrip
begin

text \<open>
  Retention: which snapshots \<open>plan\<close> keeps, against the grandfather-father-son rule written
  out, and that a completed \<open>Prune\<close> removes exactly the other snapshots and the blobs no
  survivor needs.
\<close>

subsection \<open>The plan\<close>

text \<open>The first element of each class of \<open>f\<close>, in list order.\<close>

fun firsts :: "('a \<Rightarrow> 'c) \<Rightarrow> 'a list \<Rightarrow> 'a list" where
  "firsts f [] = []"
| "firsts f (x # xs) = x # firsts f (filter (\<lambda>y. f y \<noteq> f x) xs)"

definition quota :: "('a \<Rightarrow> 'c) \<Rightarrow> int \<Rightarrow> 'c list \<Rightarrow> 'a list \<Rightarrow> 'a list" where
  "quota f n seen xs = take (nat (n - int (length seen))) (firsts f (filter (\<lambda>y. f y \<notin> set seen) xs))"

lemma quota_Nil [simp]: "quota f n seen [] = []"
  by (simp add: quota_def)

lemma quota_Cons:
  "quota f n seen (x # xs) = (if int (length seen) < n \<and> f x \<notin> set seen then x # quota f n (f x # seen) xs else quota f n seen xs)"
proof -
  have "nat (n - int (length seen)) = Suc (nat (n - int (Suc (length seen))))" if "int (length seen) < n" using that by linarith
  moreover have "filter (\<lambda>y. f y \<noteq> f x) (filter (\<lambda>y. f y \<notin> set seen) xs) = filter (\<lambda>y. f y \<notin> set (f x # seen)) xs"
    by (simp add: filter_filter) (meson)
  ultimately show ?thesis by (auto simp: quota_def)
qed

lemma planLoop_set:
  "set (planLoop e p s (sd, sw, ks)) = set ks \<union> ix_ID ` set (quota (\<lambda>i. ze_day e (ix_CreatedAt i)) (KeepDaily p) sd s)
     \<union> ix_ID ` set (quota (\<lambda>i. ze_week e (ix_CreatedAt i)) (KeepWeekly p) sw s)"
  by (induction s arbitrary: sd sw ks) (auto simp: Let_def quota_Cons)

text \<open>
  Claim C31. The one-pass \<open>plan\<close> is the grandfather-father-son rule: of the snapshots sorted
  from newest to oldest it keeps the newest one, the newest of each of the last
  \<open>KeepDaily\<close> days that have one and the newest of each of the last \<open>KeepWeekly\<close> ISO
  weeks that have one, and prunes all others (ids in sorted order; a count of zero or less
  keeps none of that class).
\<close>

theorem plan_grandfather_father_son:
  "plan e p indexes =
    (let s = sort_key (\<lambda>i. - ix_CreatedAt i) indexes;
         K = take 1 s @ take (nat (KeepDaily p)) (firsts (\<lambda>i. ze_day e (ix_CreatedAt i)) s)
             @ take (nat (KeepWeekly p)) (firsts (\<lambda>i. ze_week e (ix_CreatedAt i)) s)
     in (filter (\<lambda>i. i \<in> ix_ID ` set K) (map ix_ID s), filter (\<lambda>i. i \<notin> ix_ID ` set K) (map ix_ID s)))"
proof (cases "sort_key (\<lambda>i. - ix_CreatedAt i) indexes")
  case (Cons newest rest)
  have "set (planLoop e p (newest # rest) ([], [], [ix_ID newest])) = ix_ID ` set (take 1 (newest # rest) @
      take (nat (KeepDaily p)) (firsts (\<lambda>i. ze_day e (ix_CreatedAt i)) (newest # rest))
      @ take (nat (KeepWeekly p)) (firsts (\<lambda>i. ze_week e (ix_CreatedAt i)) (newest # rest)))"
    unfolding planLoop_set quota_def by (simp del: firsts.simps add: image_Un)
  then show ?thesis unfolding plan_def Cons Let_def by (simp del: planLoop.simps firsts.simps)
qed (simp add: plan_def)

lemma plan_parts:
  assumes "plan e p indexes = (keep, prune)"
  shows "set keep \<union> set prune = ix_ID ` set indexes \<and> set keep \<inter> set prune = {} \<and>
    (indexes \<noteq> [] \<longrightarrow> (\<exists>i \<in> set indexes. ix_ID i \<in> set keep \<and> (\<forall>j \<in> set indexes. ix_CreatedAt j \<le> ix_CreatedAt i)))"
proof (cases "sort_key (\<lambda>i. - ix_CreatedAt i) indexes")
  case Nil
  then show ?thesis using assms by (metis (no_types, lifting) empty_set image_empty inf_bot_left plan_def list.case(1) prod.inject set_sort sup_bot.right_neutral set_empty)
next
  case (Cons n r)
  define K where "K = set (planLoop e p (n # r) ([], [], [ix_ID n]))"
  have pl: "keep = filter (\<lambda>i. i \<in> K) (map ix_ID (n # r))" "prune = filter (\<lambda>i. i \<notin> K) (map ix_ID (n # r))"
    using assms unfolding plan_def Cons K_def Let_def by simp_all
  have s: "set indexes = set (n # r)" by (metis Cons set_sort)
  have "ix_ID n \<in> K" by (simp add: K_def planLoop_set del: planLoop.simps)
  then have k: "ix_ID n \<in> set keep" using pl(1) by simp
  have "sorted (map (\<lambda>i. - ix_CreatedAt i) (n # r))" using Cons sorted_sort_key [of "\<lambda>i. - ix_CreatedAt i" indexes] by simp
  then have "\<forall>j \<in> set indexes. ix_CreatedAt j \<le> ix_CreatedAt n" unfolding s by (auto simp: sorted_simps)
  moreover have "set keep \<union> set prune = ix_ID ` set indexes" "set keep \<inter> set prune = {}" unfolding pl s by auto
  ultimately show ?thesis using k s by auto
qed

subsection \<open>What each step of Prune does\<close>

lemma loadIndexes_Inr:
  "loadIndexes e ks b = (Inr out, b') \<Longrightarrow> objs b' = objs b \<and>
     set out = {idx. \<exists>k raw. k \<in> set ks \<and> HasSuffix k ''.json'' \<and> map_of (objs b) k = Some raw \<and> ze_unindex e raw = Some idx}"
proof (induction ks arbitrary: out b)
  case (Cons k ks)
  show ?case
  proof (cases "HasSuffix k ''.json''")
    case True
    then obtain idx b1 rest where l: "loadIndex e k b = (Inr idx, b1)" "loadIndexes e ks b1 = (Inr rest, b')" "out = idx # rest"
      using Cons.prems by (auto simp: bindS_Inr retS_Inr)
    note o = loadIndex_Inr [OF l(1)] and IH = Cons.IH [OF l(2)]
    then have "set rest = {idx. \<exists>k raw. k \<in> set ks \<and> HasSuffix k ''.json'' \<and> map_of (objs b) k = Some raw \<and> ze_unindex e raw = Some idx}" by simp
    then show ?thesis using o IH l(3) True by auto
  next
    case False
    then have "loadIndexes e ks b = (Inr out, b')" using Cons.prems by simp
    from Cons.IH [OF this] False show ?thesis by auto
  qed
qed (auto simp: retS_Inr)

lemma os_List_set: "os_List e p b = (Inr l, b') \<Longrightarrow> objs b' = objs b \<and> fst ` set l = {k. HasPrefix k p \<and> map_of (objs b) k \<noteq> None}"
proof -
  assume "os_List e p b = (Inr l, b')"
  note o = os_List_Inr [OF this]
  then have "fst ` set l = set (map fst (sort_key fst (filter (\<lambda>(k, v). HasPrefix k p) (objs b))))" by (metis set_map)
  also have "\<dots> = {k. HasPrefix k p \<and> map_of (objs b) k \<noteq> None}" by (force simp: map_of_eq_None_iff)
  finally show ?thesis using o by simp
qed

definition stored_indexes :: "snap_env \<Rightarrow> Snapshotter \<Rightarrow> (string, bytes) table \<Rightarrow> Index set" where
  "stored_indexes e z t = {idx. \<exists>k raw. HasPrefix k (z_snapPfx z @ ''index/'') \<and> HasSuffix k ''.json'' \<and> map_of t k = Some raw \<and> ze_unindex e raw = Some idx}"

lemma ListIndexes_Inr:
  assumes "ListIndexes e z b = (Inr out, b')"
  shows "objs b' = objs b" "set out = stored_indexes e z (objs b)"
proof -
  obtain all b1 ixs where l: "os_List e (z_snapPfx z @ ''index/'') b = (Inr all, b1)" "loadIndexes e (map fst all) b1 = (Inr ixs, b')"
    "out = sort_key (\<lambda>i. - ix_CreatedAt i) ixs" using assms by (auto simp: ListIndexes_def bindS_Inr retS_Inr)
  note o = os_List_set [OF l(1)] and L = loadIndexes_Inr [OF l(2)]
  then show "objs b' = objs b" by simp
  have "set (map fst all) = {k. HasPrefix k (z_snapPfx z @ ''index/'') \<and> map_of (objs b) k \<noteq> None}" using o by simp
  then show "set out = stored_indexes e z (objs b)" using L o l(3) unfolding stored_indexes_def by auto
qed

lemma pruneDeletes_Inr:
  "pruneDeletes e z ixs ids b = (Inr u, b') \<Longrightarrow>
    map_of (objs b') k = (if k \<in> (\<lambda>i. ix_ManifestKey (byID ixs i)) ` set ids \<union> indexKey z ` set ids then None else map_of (objs b) k)"
proof (induction ids arbitrary: b)
  case (Cons i ids)
  obtain b1 b2 where d: "os_Delete e (ix_ManifestKey (byID ixs i)) b = (Inr (), b1)" "os_Delete e (indexKey z i) b1 = (Inr (), b2)"
    "pruneDeletes e z ixs ids b2 = (Inr u, b')" using Cons.prems by (auto simp: bindS_Inr)
  show ?case using Cons.IH [OF d(3)] os_Delete_Inr [OF d(1)] os_Delete_Inr [OF d(2)] by (auto simp: tbl)
qed (simp add: retS_Inr)

definition loads_to :: "snap_env \<Rightarrow> (string, bytes) table \<Rightarrow> Index \<Rightarrow> Manifest set" where
  "loads_to e t idx = {m. \<exists>c c'. objs c = t \<and> loadManifest e idx c = (Inr m, c')}"

lemma loads_toI: "loadManifest e idx b = (Inr m, b') \<Longrightarrow> loads_to e (objs b) idx = {m}"
proof -
  assume l: "loadManifest e idx b = (Inr m, b')"
  have "m' = m" if "objs c = objs b" "loadManifest e idx c = (Inr m', c')" for m' c c'
    using loadManifest_Inr [OF l] loadManifest_Inr [OF that(2)] that(1) by auto
  then show ?thesis using l unfolding loads_to_def by blast
qed

lemma markReferenced_Inr:
  "markReferenced e ixs ids b = (Inr refs, b') \<Longrightarrow> objs b' = objs b \<and> (\<forall>i \<in> set ids. \<exists>m. loads_to e (objs b) (byID ixs i) = {m}) \<and>
    set refs = (\<Union>i \<in> set ids. \<Union>m \<in> loads_to e (objs b) (byID ixs i). me_SHA256 ` set (mf_Entries m))"
proof (induction ids arbitrary: b refs)
  case (Cons i ids)
  obtain m b1 rs where d: "loadManifest e (byID ixs i) b = (Inr m, b1)" "markReferenced e ixs ids b1 = (Inr rs, b')"
    "refs = map me_SHA256 (mf_Entries m) @ rs" using Cons.prems by (auto simp: bindS_Inr retS_Inr)
  have b1: "objs b1 = objs b" using loadManifest_Inr [OF d(1)] by simp
  show ?case using Cons.IH [OF d(2)] d(3) by (simp add: loads_toI [OF d(1)] b1)
qed (simp add: retS_Inr)

lemma sweepBlobs_Inr:
  "sweepBlobs e refs bs st b = (Inr r, b') \<Longrightarrow>
    map_of (objs b') k = (if k \<in> fst ` set bs \<and> blobHashFromKey k \<noteq> [] \<and> blobHashFromKey k \<notin> set refs then None else map_of (objs b) k)"
proof (induction e refs bs st arbitrary: b rule: sweepBlobs.induct)
  case (2 e refs k' sz bs n bytes)
  show ?case
  proof (cases "blobHashFromKey k' = [] \<or> blobHashFromKey k' \<in> set refs")
    case True
    then have "sweepBlobs e refs bs (n, bytes) b = (Inr r, b')" using 2(3) by (simp add: Let_def)
    from 2(1) [OF refl True this] True show ?thesis by auto
  next
    case False
    then obtain b1 where d: "os_Delete e k' b = (Inr (), b1)" "sweepBlobs e refs bs (n + 1, bytes + sz) b1 = (Inr r, b')"
      using 2(3) by (auto simp: Let_def bindS_Inr)
    from 2(2) [OF refl False d(2)] os_Delete_Inr [OF d(1)] False show ?thesis by (auto simp: tbl)
  qed
qed (simp add: retS_Inr)

lemma blobHash_blobKey: "validBlobHash h \<Longrightarrow> blobHashFromKey (blobKey z h) = h"
proof -
  assume v: "validBlobHash h"
  have "CHR ''/'' \<notin> set h" using v by (auto simp: validBlobHash_def hexChars_def list_all_iff split: if_splits)
  then have "takeWhile (\<lambda>c. c \<noteq> CHR ''/'') (rev (blobKey z h)) = rev h"
    by (auto simp: blobKey_def takeWhile_append)
  then show ?thesis using v by (simp add: blobHashFromKey_def blobKey_def)
qed

subsection \<open>Stored indexes\<close>

text \<open>Every stored index decodes to one that is stored under its own id and names its own manifest, as \<open>Create\<close> writes them.\<close>

definition index_ok :: "snap_env \<Rightarrow> Snapshotter \<Rightarrow> (string, bytes) table \<Rightarrow> bool" where
  "index_ok e z t \<longleftrightarrow> (\<forall>k raw idx. HasPrefix k (z_snapPfx z @ ''index/'') \<and> map_of t k = Some raw \<and> ze_unindex e raw = Some idx \<longrightarrow>
     k = indexKey z (ix_ID idx) \<and> ix_ManifestKey idx = manifestKey z (ix_ID idx) \<and> ix_SourcePrefix idx = z_dataPfx z)"

lemma stored_index:
  assumes "index_ok e z t" "idx \<in> stored_indexes e z t"
  shows "\<exists>raw. map_of t (indexKey z (ix_ID idx)) = Some raw \<and> ze_unindex e raw = Some idx" "ix_ManifestKey idx = manifestKey z (ix_ID idx)"
    "ix_SourcePrefix idx = z_dataPfx z"
  using assms by (auto simp: index_ok_def stored_indexes_def)

lemma index_stored:
  assumes "map_of t (indexKey z i) = Some raw" "ze_unindex e raw = Some idx"
  shows "idx \<in> stored_indexes e z t"
proof -
  have "HasPrefix (indexKey z i) (z_snapPfx z @ ''index/'')" "HasSuffix (indexKey z i) ''.json''"
    by (auto simp: indexKey_def HasSuffix_def HasPrefix_iff)
  then show ?thesis using assms by (auto simp: stored_indexes_def)
qed

lemma byID_stored:
  assumes "index_ok e z t" "set ixs = stored_indexes e z t" "idx \<in> set ixs"
  shows "byID ixs (ix_ID idx) = idx"
proof -
  have same: "j = idx" if "j \<in> set ixs" "ix_ID j = ix_ID idx" for j
    using stored_index(1) [OF assms(1), of j] stored_index(1) [OF assms(1), of idx] that assms(2,3) by auto
  obtain j where f: "find (\<lambda>i. ix_ID i = ix_ID idx) (rev ixs) = Some j"
    using assms(3) by (metis (mono_tags, lifting) find_None_iff not_Some_eq set_rev)
  then have "j \<in> set ixs \<and> ix_ID j = ix_ID idx" by (metis (mono_tags, lifting) find_Some_iff nth_mem set_rev)
  then show ?thesis using same f by (simp add: byID_def)
qed

subsection \<open>A completed Prune\<close>

lemma loads_toD:
  assumes "loads_to e t idx = {m}"
  shows "\<exists>mgz raw. map_of t (ix_ManifestKey idx) = Some mgz \<and> ze_sha e mgz = ix_ManifestSHA256 idx \<and> ze_gunzip e mgz = Some raw \<and> ze_unmanifest e raw = Some m"
proof -
  have "m \<in> loads_to e t idx" using assms by simp
  then show ?thesis using loadManifest_Inr unfolding loads_to_def by blast
qed

text \<open>The table a prune leaves: \<open>P\<close> are the pruned ids, \<open>R\<close> the hashes the survivors' manifests name.\<close>

lemma Prune_Inr:
  assumes ok: "index_ok e z (objs b)" and run: "Prune e z p b = (Inr res, b')"
  obtains ixs t1 where "set ixs = stored_indexes e z (objs b)" "plan e p ixs = (pz_Kept res, pz_Pruned res)"
    "\<And>k. map_of t1 k = (if k \<in> manifestKey z ` set (pz_Pruned res) \<union> indexKey z ` set (pz_Pruned res) then None else map_of (objs b) k)"
    "\<And>i. i \<in> set (pz_Kept res) \<Longrightarrow> \<exists>m. loads_to e t1 (byID ixs i) = {m}"
    "\<And>k. map_of (objs b') k = (if HasPrefix k (z_snapPfx z @ ''blobs/'') \<and> blobHashFromKey k \<noteq> [] \<and>
       blobHashFromKey k \<notin> (\<Union>i \<in> set (pz_Kept res). \<Union>m \<in> loads_to e t1 (byID ixs i). me_SHA256 ` set (mf_Entries m)) then None else map_of t1 k)"
proof -
  obtain ixs b1 keep prune b2 refs b3 bs b4 n bytes where d: "ListIndexes e z b = (Inr ixs, b1)" "plan e p ixs = (keep, prune)"
    "pruneDeletes e z ixs prune b1 = (Inr (), b2)" "markReferenced e ixs keep b2 = (Inr refs, b3)"
    "os_List e (z_snapPfx z @ ''blobs/'') b3 = (Inr bs, b4)" "sweepBlobs e refs bs (0, 0) b4 = (Inr (n, bytes), b')"
    "res = \<lparr>pz_Kept = keep, pz_Pruned = prune, pz_BlobsDeleted = n, pz_BytesReclaimed = bytes\<rparr>"
  proof -
    obtain ixs b1 where l: "ListIndexes e z b = (Inr ixs, b1)" using run by (auto simp: Prune_def bindS_Inr)
    obtain keep prune where pl: "plan e p ixs = (keep, prune)" by fastforce
    show thesis using run that l pl by (auto simp: Prune_def bindS_Inr retS_Inr)
  qed
  note L = ListIndexes_Inr [OF d(1)] and M = markReferenced_Inr [OF d(4)] and O = os_List_set [OF d(5)]
  have "set prune \<subseteq> ix_ID ` set ixs" using plan_parts [OF d(2)] by blast
  then have mk: "ix_ManifestKey (byID ixs i) = manifestKey z i" if "i \<in> set prune" for i
    using that byID_stored [OF ok L(2)] stored_index(2) [OF ok] L(2) by force
  show thesis
  proof (rule that [of ixs "objs b2"])
    show "map_of (objs b2) k = (if k \<in> manifestKey z ` set (pz_Pruned res) \<union> indexKey z ` set (pz_Pruned res) then None else map_of (objs b) k)" for k
      using pruneDeletes_Inr [OF d(3), of k] mk L(1) d(7) by (simp cong: image_cong)
    show "map_of (objs b') k = (if HasPrefix k (z_snapPfx z @ ''blobs/'') \<and> blobHashFromKey k \<noteq> [] \<and>
       blobHashFromKey k \<notin> (\<Union>i \<in> set (pz_Kept res). \<Union>m \<in> loads_to e (objs b2) (byID ixs i). me_SHA256 ` set (mf_Entries m)) then None else map_of (objs b2) k)" for k
      using sweepBlobs_Inr [OF d(6), of k] M O d(7) by auto
  qed (use L d M in auto)
qed

lemma Prune_tables:
  assumes "index_ok e z (objs b)" "Prune e z p b = (Inr res, b')"
  obtains R where
    "\<And>i. i \<in> set (pz_Kept res) \<Longrightarrow> \<exists>m. holds_snapshot e z (objs b) i m \<and> holds_snapshot e z (objs b') i m \<and> R i = me_SHA256 ` set (mf_Entries m)"
    "\<And>h. validBlobHash h \<Longrightarrow> map_of (objs b') (blobKey z h) = (if h \<in> \<Union> (R ` set (pz_Kept res)) then map_of (objs b) (blobKey z h) else None)"
    "\<And>i. i \<in> set (pz_Pruned res) \<Longrightarrow> map_of (objs b') (indexKey z i) = None \<and> map_of (objs b') (manifestKey z i) = None"
    "\<And>k. \<not> HasPrefix k (z_snapPfx z) \<Longrightarrow> map_of (objs b') k = map_of (objs b) k"
proof -
  obtain ixs t1 where ixs: "set ixs = stored_indexes e z (objs b)" and pl: "plan e p ixs = (pz_Kept res, pz_Pruned res)"
    and t1: "\<And>k. map_of t1 k = (if k \<in> manifestKey z ` set (pz_Pruned res) \<union> indexKey z ` set (pz_Pruned res) then None else map_of (objs b) k)"
    and ld: "\<And>i. i \<in> set (pz_Kept res) \<Longrightarrow> \<exists>m. loads_to e t1 (byID ixs i) = {m}"
    and t2: "\<And>k. map_of (objs b') k = (if HasPrefix k (z_snapPfx z @ ''blobs/'') \<and> blobHashFromKey k \<noteq> [] \<and>
       blobHashFromKey k \<notin> (\<Union>i \<in> set (pz_Kept res). \<Union>m \<in> loads_to e t1 (byID ixs i). me_SHA256 ` set (mf_Entries m)) then None else map_of t1 k)"
    by (rule Prune_Inr [OF assms]) (rule that; assumption)
  note parts = plan_parts [OF pl]
  define R where "R i = (\<Union>m \<in> loads_to e t1 (byID ixs i). me_SHA256 ` set (mf_Entries m))" for i
  have pfx: "\<not> HasPrefix (indexKey z i) (z_snapPfx z @ ''blobs/'')" "\<not> HasPrefix (manifestKey z i) (z_snapPfx z @ ''blobs/'')" for i
    by (auto simp: indexKey_def manifestKey_def HasPrefix_iff)
  show thesis
  proof (rule that [of R])
    fix i assume i: "i \<in> set (pz_Kept res)"
    obtain idx where x: "idx \<in> set ixs" "i = ix_ID idx" using i parts by blast
    have bi: "byID ixs i = idx" using byID_stored [OF assms(1) ixs x(1)] x(2) by simp
    obtain m where m: "loads_to e t1 idx = {m}" using ld [OF i] bi by metis
    have st: "idx \<in> stored_indexes e z (objs b)" using x ixs by simp
    have "i \<notin> set (pz_Pruned res)" using i parts by blast
    then have k: "map_of t1 (indexKey z i) = map_of (objs b) (indexKey z i)" "map_of t1 (manifestKey z i) = map_of (objs b) (manifestKey z i)"
      "map_of (objs b') (indexKey z i) = map_of (objs b) (indexKey z i)" "map_of (objs b') (manifestKey z i) = map_of (objs b) (manifestKey z i)"
      using pfx by (auto simp: t1 t2)
    have "holds_snapshot e z (objs b) i m" "holds_snapshot e z (objs b') i m"
      using loads_toD [OF m] stored_index [OF assms(1) st] k x(2) unfolding holds_snapshot_def by auto
    then show "\<exists>m. holds_snapshot e z (objs b) i m \<and> holds_snapshot e z (objs b') i m \<and> R i = me_SHA256 ` set (mf_Entries m)"
      using m bi by (auto simp: R_def)
  next
    fix h assume v: "validBlobHash h"
    have "HasPrefix (blobKey z h) (z_snapPfx z @ ''blobs/'')" "h \<noteq> []" using v by (auto simp: blobKey_def HasPrefix_iff validBlobHash_def)
    then show "map_of (objs b') (blobKey z h) = (if h \<in> \<Union> (R ` set (pz_Kept res)) then map_of (objs b) (blobKey z h) else None)"
      by (auto simp: t1 t2 R_def blobHash_blobKey [OF v])
  next
    fix k assume "\<not> HasPrefix k (z_snapPfx z)"
    then show "map_of (objs b') k = map_of (objs b) k" by (auto simp: t1 t2 indexKey_def manifestKey_def HasPrefix_iff)
  qed (simp add: t1 t2)
qed

lemma Prune_plan:
  assumes "index_ok e z (objs b)" "Prune e z p b = (Inr res, b')"
  shows "set (pz_Kept res) \<union> set (pz_Pruned res) = ix_ID ` stored_indexes e z (objs b)"
    "\<forall>i \<in> stored_indexes e z (objs b). \<exists>j \<in> stored_indexes e z (objs b). ix_ID j \<in> set (pz_Kept res) \<and> ix_CreatedAt i \<le> ix_CreatedAt j"
proof -
  obtain ixs where x: "set ixs = stored_indexes e z (objs b)" "plan e p ixs = (pz_Kept res, pz_Pruned res)" by (rule Prune_Inr [OF assms])
  note parts = plan_parts [OF x(2)]
  show "set (pz_Kept res) \<union> set (pz_Pruned res) = ix_ID ` stored_indexes e z (objs b)" using parts x(1) by simp
  show "\<forall>i \<in> stored_indexes e z (objs b). \<exists>j \<in> stored_indexes e z (objs b). ix_ID j \<in> set (pz_Kept res) \<and> ix_CreatedAt i \<le> ix_CreatedAt j"
    using parts by (cases "ixs = []") (auto simp flip: x(1))
qed

text \<open>
  Claim C30. A completed prune keeps every surviving snapshot whole: the listed ids split into
  kept and pruned, with a newest snapshot among the kept; each kept snapshot's index and
  manifest still read back to the same entries and every blob they name is as it was; the
  pruned ones are gone; every blob left is named by a kept snapshot (nothing leaks); and no
  object outside the snapshot area changes.
\<close>

theorem prune_keeps_survivors:
  assumes "index_ok e z (objs b)" "Prune e z p b = (Inr res, b')"
  shows "set (pz_Kept res) \<union> set (pz_Pruned res) = ix_ID ` stored_indexes e z (objs b)
    \<and> (\<forall>i \<in> stored_indexes e z (objs b). \<exists>j \<in> stored_indexes e z (objs b). ix_ID j \<in> set (pz_Kept res) \<and> ix_CreatedAt i \<le> ix_CreatedAt j)
    \<and> (\<forall>i \<in> set (pz_Kept res). \<exists>m. holds_snapshot e z (objs b) i m \<and> holds_snapshot e z (objs b') i m \<and>
         (\<forall>en \<in> set (mf_Entries m). validBlobHash (me_SHA256 en) \<longrightarrow> map_of (objs b') (blobKey z (me_SHA256 en)) = map_of (objs b) (blobKey z (me_SHA256 en))))
    \<and> (\<forall>i \<in> set (pz_Pruned res). map_of (objs b') (indexKey z i) = None \<and> map_of (objs b') (manifestKey z i) = None)
    \<and> (\<forall>h. validBlobHash h \<and> map_of (objs b') (blobKey z h) \<noteq> None \<longrightarrow>
         (\<exists>i \<in> set (pz_Kept res). \<exists>m. holds_snapshot e z (objs b') i m \<and> h \<in> me_SHA256 ` set (mf_Entries m)))
    \<and> (\<forall>k. \<not> HasPrefix k (z_snapPfx z) \<longrightarrow> map_of (objs b') k = map_of (objs b) k)"
proof -
  obtain R where keep: "\<And>i. i \<in> set (pz_Kept res) \<Longrightarrow> \<exists>m. holds_snapshot e z (objs b) i m \<and> holds_snapshot e z (objs b') i m \<and> R i = me_SHA256 ` set (mf_Entries m)"
    and blob: "\<And>h. validBlobHash h \<Longrightarrow> map_of (objs b') (blobKey z h) = (if h \<in> \<Union> (R ` set (pz_Kept res)) then map_of (objs b) (blobKey z h) else None)"
    and gone: "\<And>i. i \<in> set (pz_Pruned res) \<Longrightarrow> map_of (objs b') (indexKey z i) = None \<and> map_of (objs b') (manifestKey z i) = None"
    and out: "\<And>k. \<not> HasPrefix k (z_snapPfx z) \<Longrightarrow> map_of (objs b') k = map_of (objs b) k"
    by (rule Prune_tables [OF assms]) (rule that; assumption)
  have 1: "\<exists>m. holds_snapshot e z (objs b) i m \<and> holds_snapshot e z (objs b') i m \<and>
         (\<forall>en \<in> set (mf_Entries m). validBlobHash (me_SHA256 en) \<longrightarrow> map_of (objs b') (blobKey z (me_SHA256 en)) = map_of (objs b) (blobKey z (me_SHA256 en)))"
    if i: "i \<in> set (pz_Kept res)" for i
  proof -
    obtain m where m: "holds_snapshot e z (objs b) i m" "holds_snapshot e z (objs b') i m" "R i = me_SHA256 ` set (mf_Entries m)" using keep [OF i] by blast
    then have "me_SHA256 en \<in> \<Union> (R ` set (pz_Kept res))" if "en \<in> set (mf_Entries m)" for en using that i by blast
    then have "\<forall>en \<in> set (mf_Entries m). validBlobHash (me_SHA256 en) \<longrightarrow> map_of (objs b') (blobKey z (me_SHA256 en)) = map_of (objs b) (blobKey z (me_SHA256 en))"
      using blob by simp
    then show ?thesis using m(1,2) by blast
  qed
  have 2: "\<exists>i \<in> set (pz_Kept res). \<exists>m. holds_snapshot e z (objs b') i m \<and> h \<in> me_SHA256 ` set (mf_Entries m)"
    if "validBlobHash h \<and> map_of (objs b') (blobKey z h) \<noteq> None" for h
  proof -
    have "h \<in> \<Union> (R ` set (pz_Kept res))" 
    proof (rule ccontr)
      assume "h \<notin> \<Union> (R ` set (pz_Kept res))"
      then show False using that blob [of h] by simp
    qed
    then obtain i where "i \<in> set (pz_Kept res)" "h \<in> R i" by blast
    then show ?thesis using keep [of i] by metis
  qed
  show ?thesis using Prune_plan [OF assms] 1 2 gone out by blast
qed

subsection \<open>Two snapshots, one kept\<close>

definition exIdx :: "string \<Rightarrow> int \<Rightarrow> Index" where
  "exIdx i t = \<lparr>ix_ID = i, ix_CreatedAt = t, ix_ParentID = [], ix_Kind = ''manual'', ix_SourcePrefix = ''os/'', ix_ObjectCount = 1,
     ix_LogicalBytes = 1, ix_BlobBytesAdded = 1, ix_ManifestKey = manifestKey exSz i, ix_ManifestSHA256 = replicate 64 CHR ''a''\<rparr>"

definition exPrune :: snap_env where
  "exPrune = \<lparr>ze_sha = (\<lambda>x. replicate 64 CHR ''a''), ze_gzip = (\<lambda>x. x), ze_gunzip = Some, ze_manifest = mf_SnapshotID,
     ze_unmanifest = (\<lambda>s. Some \<lparr>mf_SnapshotID = s, mf_SourcePrefix = ''os/'',
        mf_Entries = [\<lparr>me_Key = ''k'', me_Size = 1, me_SHA256 = replicate 64 (if s = ''s1'' then CHR ''1'' else CHR ''2'')\<rparr>]\<rparr>),
     ze_index = ix_ID, ze_unindex = (\<lambda>s. Some (exIdx s (if s = ''s1'' then 1 else 2))),
     ze_day = (\<lambda>t. ''d''), ze_week = (\<lambda>t. ''w''), ze_fate = (\<lambda>_. Done)\<rparr>"

definition exPruneB :: Bucket where
  "exPruneB = \<lparr>objs = [(indexKey exSz ''s1'', ''s1''), (indexKey exSz ''s2'', ''s2''), (manifestKey exSz ''s1'', ''s1''), (manifestKey exSz ''s2'', ''s2''),
     (blobKey exSz (replicate 64 CHR ''1''), ''x''), (blobKey exSz (replicate 64 CHR ''2''), ''y'')], calls = 0\<rparr>"

lemma exPrune_index_ok: "index_ok exPrune exSz (objs exPruneB)"
  by (auto simp: index_ok_def exPrune_def exPruneB_def exIdx_def exSz_pfx indexKey_def manifestKey_def blobKey_def HasPrefix_def split: if_splits)

theorem prune_keeps_survivors_witness:
  "\<exists>res b'. Prune exPrune exSz \<lparr>KeepDaily = 1, KeepWeekly = 1\<rparr> exPruneB = (Inr res, b') \<and> pz_Kept res = [''s2''] \<and> pz_Pruned res = [''s1'']
     \<and> (\<exists>m. holds_snapshot exPrune exSz (objs b') ''s2'' m) \<and> map_of (objs b') (indexKey exSz ''s1'') = None"
proof -
  let ?r = "Prune exPrune exSz \<lparr>KeepDaily = 1, KeepWeekly = 1\<rparr> exPruneB"
  have "case ?r of (Inl _, _) \<Rightarrow> False | (Inr res, _) \<Rightarrow> pz_Kept res = [''s2''] \<and> pz_Pruned res = [''s1'']" by code_simp
  then obtain res b' where r: "?r = (Inr res, b')" "pz_Kept res = [''s2'']" "pz_Pruned res = [''s1'']" by (auto split: prod.splits sum.splits)
  then show ?thesis using prune_keeps_survivors [OF exPrune_index_ok r(1)] by auto
qed

end
