(* ===== verification/Go_Json.thy ===== *)
theory Go_Json
  imports Go_Text
begin

text \<open>
  Go's UTF-8 decoding (\<open>unicode/utf8\<close>) and the encoding of a string by \<open>json.Marshal\<close>, on
  byte strings. Shown: on valid UTF-8 the JSON form of a string is self-delimiting, that is,
  it can be read back, with what follows it, in one way only.
\<close>

subsection \<open>Runes\<close>

definition cont_byte :: "char \<Rightarrow> nat \<Rightarrow> nat \<Rightarrow> bool" where
  "cont_byte c lo hi \<longleftrightarrow> lo \<le> of_char c \<and> of_char c \<le> hi"

text \<open>The number of continuation bytes a leading byte asks for and the range of the first one.\<close>

definition lead_byte :: "nat \<Rightarrow> (nat \<times> nat \<times> nat) option" where
  "lead_byte b =
     (if 0xC2 \<le> b \<and> b \<le> 0xDF then Some (1, 0x80, 0xBF)
      else if b = 0xE0 then Some (2, 0xA0, 0xBF)
      else if b = 0xED then Some (2, 0x80, 0x9F)
      else if 0xE1 \<le> b \<and> b \<le> 0xEF then Some (2, 0x80, 0xBF)
      else if b = 0xF0 then Some (3, 0x90, 0xBF)
      else if 0xF1 \<le> b \<and> b \<le> 0xF3 then Some (3, 0x80, 0xBF)
      else if b = 0xF4 then Some (3, 0x80, 0x8F)
      else None)"

definition RuneError :: nat where
  "RuneError = 0xFFFD"

definition conts_ok :: "nat \<Rightarrow> nat \<Rightarrow> nat \<Rightarrow> string \<Rightarrow> bool" where
  "conts_ok n lo hi s \<longleftrightarrow> length (take n s) = n \<and> (case take n s of [] \<Rightarrow> True | c # cs \<Rightarrow> cont_byte c lo hi \<and> list_all (\<lambda>c. cont_byte c 0x80 0xBF) cs)"

definition rune_value :: "nat \<Rightarrow> nat \<Rightarrow> string \<Rightarrow> nat" where
  "rune_value b n s = foldl (\<lambda>r c. 64 * r + of_char c mod 64) (if n = 1 then b mod 32 else if n = 2 then b mod 16 else b mod 8) (take n s)"

text \<open>\<open>utf8.DecodeRune\<close> of \<open>c # s\<close>: the rune and its number of continuation bytes; \<open>(RuneError, 0)\<close> if it is not valid.\<close>

definition DecodeRune :: "char \<Rightarrow> string \<Rightarrow> nat \<times> nat" where
  "DecodeRune c s =
     (let b = of_char c in
      if b < 0x80 then (b, 0)
      else case lead_byte b of
        None \<Rightarrow> (RuneError, 0)
      | Some (n, lo, hi) \<Rightarrow> if conts_ok n lo hi s then (rune_value b n s, n) else (RuneError, 0))"

text \<open>The runes of a string, each with its bytes, as \<open>for _, r := range s\<close> visits them.\<close>

fun runes :: "string \<Rightarrow> (nat \<times> string) list" where
  "runes [] = []"
| "runes (c # s) = (let (r, n) = DecodeRune c s in (r, c # take n s) # runes (drop n s))"

definition bad_rune :: "nat \<times> string \<Rightarrow> bool" where
  "bad_rune p \<longleftrightarrow> fst p = RuneError \<and> length (snd p) = 1"

definition ValidString :: "string \<Rightarrow> bool" where
  "ValidString s \<longleftrightarrow> list_all (\<lambda>p. \<not> bad_rune p) (runes s)"

subsection \<open>JSON strings\<close>

definition quoteRune :: "nat \<times> string \<Rightarrow> string" where
  "quoteRune p =
     (let (r, bs) = p in
      if bad_rune p then CHR 0x5C # ''ufffd''
      else if r = 0x22 \<or> r = 0x5C then CHR 0x5C # bs
      else if r = 0x08 then CHR 0x5C # ''b''
      else if r = 0x0C then CHR 0x5C # ''f''
      else if r = 0x0A then CHR 0x5C # ''n''
      else if r = 0x0D then CHR 0x5C # ''r''
      else if r = 0x09 then CHR 0x5C # ''t''
      else if r < 0x20 \<or> r = 0x3C \<or> r = 0x3E \<or> r = 0x26 then CHR 0x5C # ''u00'' @ [hex_digit (r div 16), hex_digit (r mod 16)]
      else if r = 0x2028 \<or> r = 0x2029 then CHR 0x5C # ''u202'' @ [hex_digit (r mod 16)]
      else bs)"

definition json_quote :: "string \<Rightarrow> string" where
  "json_quote s = CHR 0x22 # concat (map quoteRune (runes s)) @ [CHR 0x22]"

subsection \<open>Self-delimiting\<close>

text \<open>What a rune read from a valid string looks like.\<close>

definition good_rune :: "nat \<times> string \<Rightarrow> bool" where
  "good_rune p \<longleftrightarrow> (\<exists>c cs. snd p = c # cs \<and> DecodeRune c cs = (fst p, length cs)) \<and> \<not> bad_rune p"

lemma DecodeRune_take: "DecodeRune c s = (r, n) \<Longrightarrow> DecodeRune c (take n s) = (r, n) \<and> length (take n s) = n"
  by (auto simp: DecodeRune_def Let_def conts_ok_def rune_value_def min_def split: if_splits option.splits prod.splits list.splits)

lemma runes_good: "ValidString s \<Longrightarrow> \<forall>p \<in> set (runes s). good_rune p"
proof (induction s rule: runes.induct)
  case (2 c s)
  obtain r n where d: "DecodeRune c s = (r, n)" by fastforce
  note t = DecodeRune_take [OF d]
  have "ValidString (drop n s)" "\<not> bad_rune (r, c # take n s)" using 2(2) d by (simp_all add: ValidString_def)
  then show ?case using 2(1) [OF d [symmetric]] d t by (auto simp: good_rune_def)
qed simp

lemma runes_concat: "concat (map snd (runes s)) = s"
proof (induction s rule: runes.induct)
  case (2 c s)
  obtain r n where d: "DecodeRune c s = (r, n)" by fastforce
  then show ?case using 2 [OF d [symmetric]] by simp
qed simp

lemma lead_unique:
  assumes "DecodeRune c s = (r, n)" "DecodeRune c t = (q, m)" "\<not> bad_rune (r, c # take n s)" "\<not> bad_rune (q, c # take m t)"
  shows "n = m"
  using assms by (auto simp: DecodeRune_def Let_def bad_rune_def RuneError_def split: if_splits option.splits prod.splits)

lemma rune_value_unfold:
  "rune_value b 1 [c] = 64 * (b mod 32) + of_char c mod 64"
  "rune_value b 2 [c, d] = 64 * (64 * (b mod 16) + of_char c mod 64) + of_char d mod 64"
  "rune_value b 3 [c, d, f] = 64 * (64 * (64 * (b mod 8) + of_char c mod 64) + of_char d mod 64) + of_char f mod 64"
  by (simp_all add: rune_value_def)

lemma lead_byte_ge: "lead_byte b = Some (n, lo, hi) \<Longrightarrow> 0x80 \<le> b \<and> n \<in> {1, 2, 3}"
  by (auto simp: lead_byte_def split: if_splits)

lemma length_1_3: "length s = 1 \<Longrightarrow> \<exists>a. s = [a]" "length s = 2 \<Longrightarrow> \<exists>a b. s = [a, b]" "length s = 3 \<Longrightarrow> \<exists>a b c. s = [a, b, c]"
  by (auto simp: length_Suc_conv numeral_2_eq_2 numeral_3_eq_3)

lemma mod_bits: "0xC0 \<le> b \<Longrightarrow> b < 0xE0 \<Longrightarrow> b mod 32 = (b - 0xC0 :: nat)" "0xE0 \<le> b \<Longrightarrow> b < 0xF0 \<Longrightarrow> b mod 16 = (b - 0xE0 :: nat)"
  "0xF0 \<le> b \<Longrightarrow> b < 0xF8 \<Longrightarrow> b mod 8 = (b - 0xF0 :: nat)" "0x80 \<le> b \<Longrightarrow> b < 0xC0 \<Longrightarrow> b mod 64 = (b - 0x80 :: nat)"
  by (rule mod_nat_eqI; simp)+

lemma multi_value_ge:
  assumes "lead_byte b = Some (n, lo, hi)" "conts_ok n lo hi s" "length s = n"
  shows "0x80 \<le> rune_value b n s"
proof -
  have n: "n \<in> {1, 2, 3}" using lead_byte_ge [OF assms(1)] by blast
  then consider a where "n = 1" "s = [a]" | a c where "n = 2" "s = [a, c]" | a c d where "n = 3" "s = [a, c, d]"
    using length_1_3 assms(3) by blast
  then show ?thesis
  proof cases
    case 1
    have "2 \<le> b mod 32" using assms(1) 1 by (auto simp: lead_byte_def mod_bits split: if_splits)
    then show ?thesis using 1 by (simp add: rune_value_unfold(1) [simplified])
  next
    case 2
    have "1 \<le> b mod 16 \<or> 32 \<le> of_char a mod (64 :: nat)"
      using assms(1,2) 2 by (auto simp: lead_byte_def conts_ok_def cont_byte_def mod_bits split: if_splits)
    then show ?thesis using 2 rune_value_unfold(2) [of b a c] by auto
  next
    case 3
    have "1 \<le> b mod 8 \<or> 16 \<le> of_char a mod (64 :: nat)"
      using assms(1,2) 3 by (auto simp: lead_byte_def conts_ok_def cont_byte_def mod_bits split: if_splits)
    then show ?thesis using 3 rune_value_unfold(3) [of b a c d] by auto
  qed
qed

lemma good_cases:
  assumes "good_rune (r, bs)"
  obtains (ascii) "r < 0x80" "bs = [char_of r]"
  | (multi) c cs n lo hi where "bs = c # cs" "lead_byte (of_char c) = Some (n, lo, hi)" "conts_ok n lo hi cs" "length cs = n" "r = rune_value (of_char c) n cs" "0x80 \<le> r"
proof -
  obtain c cs where b: "bs = c # cs" "DecodeRune c cs = (r, length cs)" "\<not> bad_rune (r, bs)" using assms by (auto simp: good_rune_def)
  show thesis
  proof (cases "of_char c < (0x80 :: nat)")
    case True
    then have "r = of_char c" "cs = []" using b by (auto simp: DecodeRune_def Let_def)
    then show thesis using ascii True b(1) by simp
  next
    case False
    then obtain n lo hi where l: "lead_byte (of_char c) = Some (n, lo, hi)" "conts_ok n lo hi cs" "length cs = n" "r = rune_value (of_char c) n cs"
      using b by (auto simp: DecodeRune_def Let_def bad_rune_def RuneError_def split: option.splits if_splits)
    then show thesis using multi b(1) multi_value_ge [OF l(1-3)] by blast
  qed
qed

lemma good_ascii: "good_rune (r, bs) \<Longrightarrow> r < 0x80 \<Longrightarrow> bs = [char_of r]"
  by (erule good_cases) auto

lemma char_consts: "char_of (0xE2 :: nat) = CHR 0xE2" "char_of (0x80 :: nat) = CHR 0x80" "char_of (0x22 :: nat) = CHR 0x22" "char_of (0x5C :: nat) = CHR 0x5C"
  by code_simp+

lemma good_separator:
  assumes "good_rune (r, bs)" "r = 0x2028 \<or> r = 0x2029"
  shows "bs = [CHR 0xE2, CHR 0x80, char_of (r - 0x1F80)]"
  using assms(1)
proof (cases rule: good_cases)
  case (multi c cs n lo hi)
  have "n \<in> {1, 2, 3}" using lead_byte_ge [OF multi(2)] by blast
  then consider a where "n = 1" "cs = [a]" | a d where "n = 2" "cs = [a, d]" | a d f where "n = 3" "cs = [a, d, f]"
    using length_1_3 multi(4) by blast
  then show ?thesis
  proof cases
    case 1
    have "of_char c mod 32 < (32 :: nat)" "of_char a mod 64 < (64 :: nat)" by simp_all
    then have "r < 2048" using 1 multi(5) by (simp add: rune_value_unfold(1) [simplified])
    then show ?thesis using assms(2) by auto
  next
    case 2
    let ?c = "of_char c :: nat" and ?a = "of_char a :: nat" and ?d = "of_char d :: nat"
    have v: "r = 64 * (64 * (?c mod 16) + ?a mod 64) + ?d mod 64" using 2 multi(5) by (simp add: rune_value_unfold(2) [simplified])
    have rg: "0xE0 \<le> ?c" "?c < 0xF0" "0x80 \<le> ?a" "?a < 0xC0" "0x80 \<le> ?d" "?d < 0xC0"
      using multi(2,3) 2 by (auto simp: lead_byte_def conts_ok_def cont_byte_def split: if_splits)
    define x y w where "x = ?c - 0xE0" and "y = ?a - 0x80" and "w = ?d - 0x80"
    then have xyw: "?c = 0xE0 + x" "?a = 0x80 + y" "?d = 0x80 + w" "x < 16" "y < 64" "w < 64" using rg by auto
    have e: "r = 4096 * x + 64 * y + w" using v rg xyw by (simp add: mod_bits)
    have r: "0x2028 \<le> r" "r \<le> 0x2029" using assms(2) by auto
    have "\<not> x \<le> 1" using e r xyw(4-6) by linarith
    moreover have "\<not> 3 \<le> x" using e r xyw(4-6) by linarith
    ultimately have x: "x = 2" by simp
    have "\<not> 1 \<le> y" using e r x by linarith
    then have "y = 0" "w = r - 0x2000" using e x by simp_all
    then have "?c = 0xE2" "?a = 0x80" "?d = r - 0x1F80" using xyw r x by simp_all
    then have "char_of ?c = CHR 0xE2" "char_of ?a = CHR 0x80" "char_of ?d = (char_of (r - 0x1F80) :: char)" by (simp_all add: char_consts)
    then show ?thesis using 2 multi(1) by simp
  next
    case 3
    let ?c = "of_char c :: nat" and ?a = "of_char a :: nat"
    have v: "r = 64 * (64 * (64 * (?c mod 8) + ?a mod 64) + of_char d mod 64) + of_char f mod 64" using 3 multi(5) by (simp add: rune_value_unfold(3) [simplified])
    have "1 \<le> ?c mod 8 \<or> 16 \<le> ?a mod 64"
      using multi(2,3) 3 by (auto simp: lead_byte_def conts_ok_def cont_byte_def mod_bits split: if_splits)
    then show ?thesis using v assms(2) by auto
  qed
qed (use assms(2) in auto)

lemma hex_digit_inj: "a < 16 \<Longrightarrow> b < 16 \<Longrightarrow> hex_digit a = hex_digit b \<longleftrightarrow> a = b"
proof -
  assume ab: "a < 16" "b < 16"
  have "of_char (hex_digit n) = (if n < 10 then 48 + n else 87 + n)" if "n < 16" for n using that by (simp add: hex_digit_def)
  then have "hex_digit a = hex_digit b \<Longrightarrow> (if a < 10 then 48 + a else 87 + a) = (if b < 10 then 48 + b else 87 + b)" using ab by metis
  then show ?thesis using ab by (auto split: if_splits)
qed

definition escaped :: "nat \<Rightarrow> bool" where
  "escaped r \<longleftrightarrow> r < 0x20 \<or> r \<in> {0x22, 0x26, 0x3C, 0x3E, 0x5C, 0x2028, 0x2029}"

text \<open>The characters after the backslash.\<close>

definition escape_tail :: "nat \<Rightarrow> string" where
  "escape_tail r =
     (if r = 0x22 \<or> r = 0x5C then [char_of r] else if r = 0x08 then ''b'' else if r = 0x0C then ''f'' else if r = 0x0A then ''n''
      else if r = 0x0D then ''r'' else if r = 0x09 then ''t''
      else if r < 0x80 then ''u00'' @ [hex_digit (r div 16), hex_digit (r mod 16)]
      else ''u202'' @ [hex_digit (r mod 16)])"

lemma quoteRune_escaped: "good_rune (r, bs) \<Longrightarrow> escaped r \<Longrightarrow> quoteRune (r, bs) = CHR 0x5C # escape_tail r"
  using good_ascii [of r bs] by (auto simp: quoteRune_def escaped_def escape_tail_def good_rune_def Let_def)

lemma quoteRune_plain: "good_rune (r, bs) \<Longrightarrow> \<not> escaped r \<Longrightarrow> quoteRune (r, bs) = bs"
  by (auto simp: quoteRune_def escaped_def good_rune_def Let_def)

lemma escape_tail_cases:
  assumes "escaped r"
  obtains (short) k where "escape_tail r = [k]" "(r, k) \<in> {(0x22, CHR 0x22), (0x5C, CHR 0x5C), (0x08, CHR ''b''), (0x0C, CHR ''f''), (0x0A, CHR ''n''), (0x0D, CHR ''r''), (0x09, CHR ''t'')}"
  | (low) "escape_tail r = ''u00'' @ [hex_digit (r div 16), hex_digit (r mod 16)]" "r < 0x80"
  | (sep) "escape_tail r = ''u202'' @ [hex_digit (r mod 16)]" "r \<in> {0x2028, 0x2029}"
proof -
  consider "r = 0x22" | "r = 0x5C" | "r = 0x08" | "r = 0x0C" | "r = 0x0A" | "r = 0x0D" | "r = 0x09" | "r \<in> {0x2028, 0x2029}"
    | "r \<notin> {0x22, 0x5C, 0x08, 0x0C, 0x0A, 0x0D, 0x09}" "r < 0x80" using assms by (auto simp: escaped_def) blast
  then show thesis by cases (use short low sep in \<open>auto simp: escape_tail_def char_consts\<close>)
qed

lemma escape_tail_split:
  assumes "escaped r" "escaped q" "escape_tail r @ x = escape_tail q @ y"
  shows "r = q \<and> x = y"
  using assms(1)
proof (cases rule: escape_tail_cases)
  case (short k)
  from assms(2) show ?thesis
  proof (cases rule: escape_tail_cases)
    case k': (short k')
    have "k = k'" "x = y" using short(1) k'(1) assms(3) by auto
    moreover have "r = q" using short(2) k'(2) \<open>k = k'\<close> by (elim insertE emptyE) simp_all
    ultimately show ?thesis by blast
  qed (use short assms(3) in auto)
next
  case low
  from assms(2) show ?thesis
  proof (cases rule: escape_tail_cases)
    case q: low
    have "r div 16 < 16" "q div 16 < 16" using low(2) q(2) by simp_all
    then have "r div 16 = q div 16" "r mod 16 = q mod 16" "x = y" using low(1) q(1) assms(3) by (simp_all add: hex_digit_inj)
    then show ?thesis by (metis div_mult_mod_eq)
  qed (use low assms(3) in auto)
next
  case sep
  from assms(2) show ?thesis by (cases rule: escape_tail_cases) (use sep assms(3) in \<open>auto simp: hex_digit_inj\<close>)
qed

lemma quoteRune_split:
  assumes p: "good_rune p" and q: "good_rune q" and e: "quoteRune p @ x = quoteRune q @ y"
  shows "p = q \<and> x = y"
proof -
  obtain r bs r' bs' where pq: "p = (r, bs)" "q = (r', bs')" by (cases p; cases q)
  obtain c cs c' cs' where cs: "bs = c # cs" "DecodeRune c cs = (r, length cs)" "bs' = c' # cs'" "DecodeRune c' cs' = (r', length cs')"
    using p q pq by (auto simp: good_rune_def)
  have plain: "c \<noteq> CHR 0x5C" if "good_rune (r, c # cs)" "\<not> escaped r" for r c cs
    using that by (auto simp: good_rune_def DecodeRune_def escaped_def)
  consider "escaped r" "escaped r'" | "escaped r" "\<not> escaped r'" | "\<not> escaped r" "escaped r'" | "\<not> escaped r" "\<not> escaped r'" by blast
  then show ?thesis
  proof cases
    case 1
    then have "r = r'" "x = y" using e p q pq escape_tail_split [of r r' x y] by (simp_all add: quoteRune_escaped)
    moreover have "bs = bs'"
      using 1(1) \<open>r = r'\<close> p q pq good_ascii [of r bs] good_ascii [of r bs'] good_separator [of r bs] good_separator [of r bs'] by (auto simp: escaped_def)
    ultimately show ?thesis using pq by simp
  next
    case 4
    then have b: "bs @ x = bs' @ y" using e p q pq by (simp add: quoteRune_plain)
    then have "length cs = length cs'" using lead_unique [of c cs r "length cs" cs' r' "length cs'"] cs p q pq by (auto simp: good_rune_def)
    then have "bs = bs'" "x = y" using b cs by auto
    then show ?thesis using cs pq by simp
  qed (use e p q pq cs plain in \<open>force simp: quoteRune_escaped quoteRune_plain\<close>)+
qed

lemma quoteRune_head: "good_rune p \<Longrightarrow> \<exists>c t. quoteRune p = c # t \<and> c \<noteq> CHR 0x22"
proof -
  assume p: "good_rune p"
  obtain r bs where pr: "p = (r, bs)" by (cases p)
  show ?thesis
  proof (cases "escaped r")
    case False
    then show ?thesis using p pr by (auto simp: quoteRune_plain good_rune_def DecodeRune_def escaped_def)
  qed (use p pr in \<open>simp add: quoteRune_escaped\<close>)
qed

lemma quoteRunes_split:
  "\<forall>p \<in> set ps. good_rune p \<Longrightarrow> \<forall>q \<in> set qs. good_rune q \<Longrightarrow>
     concat (map quoteRune ps) @ CHR 0x22 # x = concat (map quoteRune qs) @ CHR 0x22 # y \<Longrightarrow> ps = qs \<and> x = y"
proof (induction ps arbitrary: qs)
  case Nil
  then show ?case by (cases qs) (use quoteRune_head in force)+
next
  case (Cons p ps)
  show ?case
  proof (cases qs)
    case Nil
    then show ?thesis using Cons.prems quoteRune_head [of p] by auto
  next
    case (Cons q qs')
    then have "p = q \<and> concat (map quoteRune ps) @ CHR 0x22 # x = concat (map quoteRune qs') @ CHR 0x22 # y"
      using Cons.prems by (intro quoteRune_split) auto
    then show ?thesis using Cons.IH [of qs'] Cons.prems Cons by auto
  qed
qed

theorem json_quote_split:
  assumes "ValidString s" "ValidString t" "json_quote s @ x = json_quote t @ y"
  shows "s = t \<and> x = y"
proof -
  have "runes s = runes t \<and> x = y"
    using quoteRunes_split [OF runes_good [OF assms(1)] runes_good [OF assms(2)]] assms(3) by (simp add: json_quote_def)
  then show ?thesis using runes_concat by metis
qed

lemma ValidString_ascii: "list_all (\<lambda>c. of_char c < (0x80 :: nat)) s \<Longrightarrow> ValidString s"
proof (induction s)
  case (Cons c s)
  then have "DecodeRune c s = (of_char c, 0)" by (simp add: DecodeRune_def)
  then show ?case using Cons by (simp add: ValidString_def bad_rune_def RuneError_def)
qed (simp add: ValidString_def)

lemma json_quote_plain:
  assumes "list_all (\<lambda>c. of_char c < (0x80 :: nat) \<and> \<not> escaped (of_char c)) s"
  shows "json_quote s = CHR 0x22 # s @ [CHR 0x22]"
proof -
  have "concat (map quoteRune (runes s)) = s"
    using assms
  proof (induction s)
    case (Cons c s)
    have d: "DecodeRune c s = (of_char c, 0)" using Cons.prems by (simp add: DecodeRune_def)
    have "good_rune (of_char c, [c])" using Cons.prems by (simp add: good_rune_def DecodeRune_def bad_rune_def RuneError_def)
    then have "quoteRune (of_char c, [c]) = [c]" using Cons.prems by (simp add: quoteRune_plain)
    then show ?case using Cons d by simp
  qed simp
  then show ?thesis by (simp add: json_quote_def)
qed

end
