(* ===== verification/Signing_Json.thy ===== *)
theory Signing_Json
  imports Go_Json
begin

text \<open>
  The canonical JSON encoding every Vulos signature is computed over
  (\<open>backend/services/signing/signing.go\<close>): object keys sorted at every level, no white
  space, numbers kept digit for digit. A JSON value is the value \<open>json.Decoder\<close> with
  \<open>UseNumber\<close> returns; a Go map is an association list with distinct keys in any order.
  The encoder is given the JSON form of strings, \<open>quote\<close>; what it needs of it is the interface
  \<open>string_form\<close>, which Go's encoder on valid UTF-8 provides. Shown: the encoding does not
  depend on the order of keys, and it is injective, so a signature over canonical bytes
  authenticates exactly one value.
\<close>

datatype json = JNull | JBool bool | JNum string | JStr string | JArr "json list" | JObj "(string \<times> json) list"

fun joinComma :: "string list \<Rightarrow> string" where
  "joinComma [] = []"
| "joinComma [s] = s"
| "joinComma (s # t # r) = s @ '','' @ joinComma (t # r)"

definition encodeArray :: "string list \<Rightarrow> string" where
  "encodeArray elems = ''['' @ joinComma elems @ '']''"

definition encodeObject :: "(string \<Rightarrow> string) \<Rightarrow> (string \<times> string) list \<Rightarrow> string" where
  "encodeObject quote m = ''{'' @ joinComma (map (\<lambda>(k, v). quote k @ '':'' @ v) (sort_key fst m)) @ ''}''"

fun encodeCanonical :: "(string \<Rightarrow> string) \<Rightarrow> json \<Rightarrow> string" where
  "encodeCanonical quote (JObj m) = encodeObject quote (map (\<lambda>(k, v). (k, encodeCanonical quote v)) m)"
| "encodeCanonical quote (JArr a) = encodeArray (map (encodeCanonical quote) a)"
| "encodeCanonical quote (JNum n) = n"
| "encodeCanonical quote (JStr s) = quote s"
| "encodeCanonical quote (JBool b) = (if b then ''true'' else ''false'')"
| "encodeCanonical quote JNull = ''null''"

text \<open>Values whose objects list their keys in any order are equal up to \<open>sort_json\<close>.\<close>

fun sort_json :: "json \<Rightarrow> json" where
  "sort_json (JObj m) = JObj (sort_key fst (map (\<lambda>(k, v). (k, sort_json v)) m))"
| "sort_json (JArr a) = JArr (map sort_json a)"
| "sort_json v = v"

definition is_num :: "string \<Rightarrow> bool" where
  "is_num n \<longleftrightarrow> n \<noteq> [] \<and> list_all (\<lambda>c. is_digit c \<or> c \<in> {CHR ''-'', CHR ''+'', CHR ''.'', CHR ''e'', CHR ''E''}) n \<and> (is_digit (hd n) \<or> hd n = CHR ''-'')"

fun wf_json :: "(string \<Rightarrow> bool) \<Rightarrow> json \<Rightarrow> bool" where
  "wf_json V (JObj m) = (distinct (map fst m) \<and> (\<forall>(k, v) \<in> set m. V k \<and> wf_json V v))"
| "wf_json V (JArr a) = (\<forall>v \<in> set a. wf_json V v)"
| "wf_json V (JNum n) = is_num n"
| "wf_json V (JStr s) = V s"
| "wf_json V v = True"

fun srt :: "json \<Rightarrow> bool" where
  "srt (JObj m) = (sorted (map fst m) \<and> (\<forall>(k, v) \<in> set m. srt v))"
| "srt (JArr a) = (\<forall>v \<in> set a. srt v)"
| "srt v = True"

definition delim :: "string \<Rightarrow> bool" where
  "delim x \<longleftrightarrow> (case x of [] \<Rightarrow> True | c # _ \<Rightarrow> c \<in> {CHR '','', CHR '']'', CHR ''}''})"

fun kind :: "json \<Rightarrow> nat" where
  "kind JNull = 0"
| "kind (JBool b) = (if b then 1 else 2)"
| "kind (JNum n) = 3"
| "kind (JStr s) = 4"
| "kind (JArr a) = 5"
| "kind (JObj m) = 6"

definition char_kind :: "char \<Rightarrow> nat" where
  "char_kind c = (if c = CHR ''n'' then 0 else if c = CHR ''t'' then 1 else if c = CHR ''f'' then 2 else if c = CHR 0x22 then 4
     else if c = CHR ''['' then 5 else if c = CHR ''{'' then 6 else 3)"

lemma joinComma_Cons: "joinComma (s # r) = s @ concat (map (\<lambda>t. CHR '','' # t) r)"
  by (induction r arbitrary: s) auto

lemma sort_key_map: "(\<And>x. f' (g x) = f x) \<Longrightarrow> sort_key f' (map g xs) = map g (sort_key f xs)"
proof (induction xs)
  case (Cons x xs)
  have "insort_key f' (g x) (map g ys) = map g (insort_key f x ys)" for ys by (induction ys) (simp_all add: Cons.prems)
  then show ?case using Cons by simp
qed simp

lemma sort_key_sorted: "sorted (map f xs) \<Longrightarrow> sort_key f xs = xs"
  by (induction xs) (simp_all add: insort_is_Cons)

lemma srt_sort_json: "srt (sort_json v)"
proof (induction v)
  case (JObj m)
  have "sorted (map fst (sort_key fst (map (\<lambda>(k, v). (k, sort_json v)) m)))" by (rule sorted_sort_key)
  then show ?case using JObj by force
qed auto

lemma wf_sort_json: "wf_json V v \<Longrightarrow> wf_json V (sort_json v)"
proof (induction v)
  case (JObj m)
  have "distinct (map fst (map (\<lambda>(k, v). (k, sort_json v)) m))" using JObj.prems by (simp add: comp_def case_prod_beta)
  then have "distinct (map fst (sort_key fst (map (\<lambda>(k, v). (k, sort_json v)) m)))" by (rule distinct_sort_key)
  then show ?case using JObj by force
qed auto

text \<open>The encoding sees an object only up to the order of its keys.\<close>

lemma encode_sort_json: "encodeCanonical quote (sort_json v) = encodeCanonical quote v"
proof (induction v)
  case (JArr a)
  then show ?case by (simp add: comp_def cong: map_cong)
next
  case (JObj m)
  let ?g = "\<lambda>(k, v). (k, encodeCanonical quote v)" and ?h = "\<lambda>(k, v). (k, sort_json v)"
  have "map ?g (map ?h m) = map ?g m" using JObj.IH by force
  moreover have "sort_key fst (map ?g (sort_key fst (map ?h m))) = sort_key fst (map ?g (map ?h m))"
    using sort_key_map [of fst ?g fst "sort_key fst (map ?h m)"] sort_key_map [of fst ?g fst "map ?h m"] sorted_sort_key [of fst "map ?h m"]
    by (simp add: sort_key_sorted case_prod_beta)
  ultimately have "sort_key fst (map ?g (sort_key fst (map ?h m))) = sort_key fst (map ?g m)" by (rule subst)
  then show ?case by (simp only: sort_json.simps encodeCanonical.simps encodeObject_def)
qed simp_all

subsection \<open>Injectivity\<close>

text \<open>The form of a string is self-delimiting and starts with a quotation mark.\<close>

locale string_form =
  fixes quote :: "string \<Rightarrow> string" and V :: "string \<Rightarrow> bool"
  assumes quote_first: "\<exists>r. quote s = CHR 0x22 # r"
    and quote_split: "V s \<Longrightarrow> V t \<Longrightarrow> quote s @ x = quote t @ y \<Longrightarrow> s = t \<and> x = y"
begin

abbreviation enc :: "json \<Rightarrow> string" where
  "enc \<equiv> encodeCanonical quote"

lemma enc_first: "wf_json V v \<Longrightarrow> \<exists>c r. enc v = c # r \<and> char_kind c = kind v \<and> c \<notin> {CHR '']'', CHR ''}'', CHR '',''}"
proof (cases v)
  case (JNum n)
  assume "wf_json V v"
  then obtain c r where n: "n = c # r" "is_digit c \<or> c = CHR ''-''" using JNum by (cases n) (auto simp: is_num_def)
  then have "c \<notin> {CHR '']'', CHR ''}'', CHR '','', CHR ''{'', CHR ''['', CHR 0x22, CHR ''t'', CHR ''f'', CHR ''n''}" by (auto simp: is_digit_def)
  then show ?thesis using JNum n by (simp add: char_kind_def)
next
  case (JStr s)
  then show ?thesis using quote_first [of s] by (auto simp: char_kind_def)
qed (auto simp: encodeArray_def encodeObject_def char_kind_def)

lemma enc_kind:
  assumes "wf_json V v" "wf_json V w" "enc v @ x = enc w @ y"
  shows "kind w = kind v"
proof -
  obtain c r where "enc v = c # r" "char_kind c = kind v" using enc_first [OF assms(1)] by blast
  moreover obtain c' r' where "enc w = c' # r'" "char_kind c' = kind w" using enc_first [OF assms(2)] by blast
  ultimately show ?thesis using assms(3) by simp
qed

lemma num_split:
  assumes "is_num n" "is_num m" "n @ x = m @ y" "delim x" "delim y"
  shows "n = m \<and> x = y"
proof -
  let ?P = "\<lambda>c. c \<notin> {CHR '','', CHR '']'', CHR ''}''}"
  have "list_all ?P k" if "is_num k" for k using that by (auto simp: is_num_def list_all_iff is_digit_def)
  moreover have "takeWhile ?P (k @ z) = k" if "list_all ?P k" "delim z" for k z
    using that by (cases z) (auto simp: takeWhile_append list_all_iff delim_def)
  ultimately have "n = m" using assms by metis
  then show ?thesis using assms(3) by simp
qed

lemma items_split:
  assumes d: "\<And>a b u v. a \<in> set xs \<Longrightarrow> b \<in> set ys \<Longrightarrow> f a @ u = f b @ v \<Longrightarrow> delim u \<Longrightarrow> delim v \<Longrightarrow> a = b \<and> u = v"
    and c: "c = CHR '']'' \<or> c = CHR ''}''"
    and e: "concat (map (\<lambda>t. CHR '','' # f t) xs) @ c # x = concat (map (\<lambda>t. CHR '','' # f t) ys) @ c # y"
  shows "xs = ys \<and> x = y"
  using d e
proof (induction xs arbitrary: ys)
  case Nil
  then show ?case using c by (cases ys) auto
next
  case (Cons a xs)
  show ?case
  proof (cases ys)
    case Nil
    then show ?thesis using Cons.prems(2) c by auto
  next
    case ys: (Cons b ys')
    have dl: "delim (concat (map (\<lambda>t. CHR '','' # f t) zs) @ c # z)" for zs z using c by (cases zs) (auto simp: delim_def)
    have "a = b \<and> concat (map (\<lambda>t. CHR '','' # f t) xs) @ c # x = concat (map (\<lambda>t. CHR '','' # f t) ys') @ c # y"
      by (rule Cons.prems(1)) (use Cons.prems(2) ys dl in auto)
    moreover have "xs = ys' \<and> x = y"
      by (rule Cons.IH) (use Cons.prems(1) ys calculation in auto)
    ultimately show ?thesis using ys by simp
  qed
qed

lemma list_split:
  assumes d: "\<And>a b u v. a \<in> set xs \<Longrightarrow> b \<in> set ys \<Longrightarrow> f a @ u = f b @ v \<Longrightarrow> delim u \<Longrightarrow> delim v \<Longrightarrow> a = b \<and> u = v"
    and h: "\<And>a. a \<in> set xs \<union> set ys \<Longrightarrow> \<exists>k r. f a = k # r \<and> k \<noteq> c"
    and c: "c = CHR '']'' \<or> c = CHR ''}''"
    and e: "joinComma (map f xs) @ c # x = joinComma (map f ys) @ c # y"
  shows "xs = ys \<and> x = y"
proof (cases xs)
  case xs: Nil
  show ?thesis
  proof (cases ys)
    case (Cons b ys')
    then obtain k r where "f b = k # r" "k \<noteq> c" using h [of b] by auto
    then show ?thesis using e xs Cons by (simp add: joinComma_Cons)
  qed (use e xs in simp)
next
  case xs: (Cons a xs')
  show ?thesis
  proof (cases ys)
    case Nil
    obtain k r where "f a = k # r" "k \<noteq> c" using h [of a] xs by auto
    then show ?thesis using e xs Nil by (simp add: joinComma_Cons)
  next
    case ys: (Cons b ys')
    have "concat (map (\<lambda>t. CHR '','' # f t) (a # xs')) @ c # x = concat (map (\<lambda>t. CHR '','' # f t) (b # ys')) @ c # y"
      using e xs ys by (simp add: joinComma_Cons comp_def)
    then have "a # xs' = b # ys' \<and> x = y" using items_split [of "a # xs'" "b # ys'" f c x y] d c unfolding xs ys by blast
    then show ?thesis using xs ys by simp
  qed
qed

lemma pair_split:
  assumes "V k" "V k'" "\<And>u v. enc a @ u = enc b @ v \<Longrightarrow> delim u \<Longrightarrow> delim v \<Longrightarrow> a = b \<and> u = v"
    and "quote k @ '':'' @ enc a @ u = quote k' @ '':'' @ enc b @ v" "delim u" "delim v"
  shows "(k, a) = (k', b) \<and> u = v"
proof -
  have "k = k' \<and> '':'' @ enc a @ u = '':'' @ enc b @ v" by (rule quote_split [OF assms(1,2,4)])
  then show ?thesis using assms(3,5,6) by auto
qed

lemma enc_obj: "sorted (map fst m) \<Longrightarrow> enc (JObj m) = CHR ''{'' # joinComma (map (\<lambda>(k, v). quote k @ '':'' @ enc v) m) @ ''}''"
proof -
  assume "sorted (map fst m)"
  then have "sort_key fst (map (\<lambda>(k, v). (k, enc v)) m) = map (\<lambda>(k, v). (k, enc v)) m" by (intro sort_key_sorted) (simp add: comp_def case_prod_beta)
  then show ?thesis by (simp add: encodeObject_def comp_def case_prod_unfold)
qed

lemma enc_split:
  "wf_json V v \<Longrightarrow> wf_json V w \<Longrightarrow> srt v \<Longrightarrow> srt w \<Longrightarrow> enc v @ x = enc w @ y \<Longrightarrow> delim x \<Longrightarrow> delim y \<Longrightarrow> v = w \<and> x = y"
proof (induction v arbitrary: w x y)
  case (JObj m)
  obtain m' where w: "w = JObj m'" using enc_kind [OF JObj.prems(1,2,5)] by (cases w) (auto split: if_splits)
  have s: "sorted (map fst m)" "sorted (map fst m')" using JObj.prems(3,4) w by simp_all
  let ?f = "\<lambda>(k, v). quote k @ '':'' @ enc v"
  have e: "joinComma (map ?f m) @ CHR ''}'' # x = joinComma (map ?f m') @ CHR ''}'' # y"
    using JObj.prems(5) enc_obj [OF s(1)] enc_obj [OF s(2)] w by simp
  have "m = m' \<and> x = y"
  proof (rule list_split [where f = ?f and c = "CHR ''}''"])
    fix p q u v assume pq: "p \<in> set m" "q \<in> set m'" and eq: "?f p @ u = ?f q @ v" and dl: "delim u" "delim v"
    obtain k a k' b where ab: "p = (k, a)" "q = (k', b)" by (cases p; cases q)
    have "a \<in> Basic_BNFs.snds p" using ab by simp
    note IH = JObj.IH [OF pq(1) this, of b]
    have *: "wf_json V a" "wf_json V b" "srt a" "srt b" "V k" "V k'" using JObj.prems(1-4) w pq ab by auto
    show "p = q \<and> u = v" unfolding ab by (rule pair_split [OF *(5,6) IH [OF *(1-4)]]) (use eq ab dl in auto)
  next
    fix p assume "p \<in> set m \<union> set m'"
    obtain k a where "p = (k, a)" by (cases p)
    then show "\<exists>k r. ?f p = k # r \<and> k \<noteq> CHR ''}''" using quote_first [of k] by auto
  qed (use e in auto)
  then show ?case using w by simp
next
  case (JArr a)
  obtain a' where w: "w = JArr a'" using enc_kind [OF JArr.prems(1,2,5)] by (cases w) (auto split: if_splits)
  have e: "joinComma (map enc a) @ CHR '']'' # x = joinComma (map enc a') @ CHR '']'' # y" using JArr.prems(5) w by (simp add: encodeArray_def)
  have "a = a' \<and> x = y"
  proof (rule list_split [where f = enc and c = "CHR '']''"])
    fix p q u v assume "p \<in> set a" "q \<in> set a'" "enc p @ u = enc q @ v" "delim u" "delim v"
    then show "p = q \<and> u = v" using JArr.IH [of p q u v] JArr.prems(1-4) w by auto
  next
    fix p assume "p \<in> set a \<union> set a'"
    then have "wf_json V p" using JArr.prems(1,2) w by auto
    then show "\<exists>k r. enc p = k # r \<and> k \<noteq> CHR '']''" using enc_first by blast
  qed (use e in auto)
  then show ?case using w by simp
next
  case (JStr s)
  obtain s' where "w = JStr s'" using enc_kind [OF JStr.prems(1,2,5)] by (cases w) (auto split: if_splits)
  then show ?case using quote_split [of s s' x y] JStr.prems by simp
next
  case (JNum n)
  obtain n' where "w = JNum n'" using enc_kind [OF JNum.prems(1,2,5)] by (cases w) (auto split: if_splits)
  then show ?case using num_split [of n n' x y] JNum.prems by simp
next
  case (JBool b)
  have "w = JBool b" using enc_kind [OF JBool.prems(1,2,5)] by (cases w) (auto split: if_splits)
  then show ?case using JBool.prems by auto
next
  case JNull
  have "w = JNull" using enc_kind [OF JNull.prems(1,2,5)] by (cases w) (auto split: if_splits)
  then show ?case using JNull.prems by auto
qed

lemma enc_inj:
  assumes "wf_json V v" "wf_json V w" "enc v = enc w"
  shows "sort_json v = sort_json w"
  using enc_split [OF wf_sort_json [OF assms(1)] wf_sort_json [OF assms(2)] srt_sort_json srt_sort_json, of "[]" "[]"] assms(3)
  by (simp add: encode_sort_json delim_def)

end

interpretation go: string_form json_quote ValidString
proof
  show "\<exists>r. json_quote s = CHR 0x22 # r" for s by (simp add: json_quote_def)
  show "ValidString s \<Longrightarrow> ValidString t \<Longrightarrow> json_quote s @ x = json_quote t @ y \<Longrightarrow> s = t \<and> x = y" for s t x y
    by (rule json_quote_split)
qed

end
