(* ===== verification/Signing.thy ===== *)
theory Signing
  imports Signing_Json
begin

text \<open>
  Signatures, release certificates, the trust anchor and the persistent epoch floor
  (\<open>backend/services/signing\<close>). Ed25519, Base64, RFC 3339 times and \<open>json.Unmarshal\<close> into
  the structs are fields of the environment \<open>sign_env\<close>; so is the outcome of each I/O call,
  by its number. Canonical bytes are those of \<open>Signing_Json\<close> with Go's string encoding. A
  64-bit epoch is an integer; no operation here does arithmetic on it.
\<close>

subsection \<open>Types\<close>

record ReleaseCert =
  rc_ReleasePubKey :: string
  rc_KeyID :: string
  rc_NotAfter :: string
  rc_MinEpoch :: int
  rc_RootSig :: string

record CertBody =
  cb_ReleasePubKey :: string
  cb_KeyID :: string
  cb_NotAfter :: string
  cb_MinEpoch :: int

record EpochBumpMessage =
  eb_Type :: string
  eb_NewFloor :: int

record Signature =
  sg_Algorithm :: string
  sg_KeyID :: string
  sg_SigBytes :: bytes

record EpochStore =
  es_current :: int

record sign_env =
  se_ed25519 :: "bytes \<Rightarrow> bytes \<Rightarrow> bytes \<Rightarrow> bool"
  se_sign :: "bytes \<Rightarrow> bytes \<Rightarrow> bytes"
  se_b64 :: "bytes \<Rightarrow> string"
  se_unb64 :: "string \<Rightarrow> bytes option"
  se_rfc3339 :: "int \<Rightarrow> string"
  se_time :: "string \<Rightarrow> int option"
  se_cert :: "bytes \<Rightarrow> ReleaseCert option"
  se_unepoch :: "bytes \<Rightarrow> int option"
  se_io :: "nat \<Rightarrow> bool"

record epoch_disk =
  epoch_file :: "bytes option"
  ios :: nat

datatype sign_error = ErrIO | ErrSigFormat | ErrSigAlgorithm | ErrSigKeyID | ErrSigLength | ErrCertKey | ErrCertFields | ErrCertTime | ErrCertExpired
  | ErrCertEpoch | ErrCertEncoding | ErrCertSignature | ErrAnchor | ErrEpochParse | ErrEpochBelowFloor | ErrBumpType | ErrBumpSignature | ErrEmpty

subsection \<open>Canonical bytes\<close>

definition json_CertBody :: "CertBody \<Rightarrow> json" where
  "json_CertBody b = JObj [(''release_pubkey'', JStr (cb_ReleasePubKey b)), (''key_id'', JStr (cb_KeyID b)), (''not_after'', JStr (cb_NotAfter b)),
     (''min_epoch'', JNum (FormatInt (cb_MinEpoch b)))]"

definition json_EpochBump :: "EpochBumpMessage \<Rightarrow> json" where
  "json_EpochBump m = JObj [(''type'', JStr (eb_Type m)), (''new_floor'', JNum (FormatInt (eb_NewFloor m)))]"

definition Canonical :: "json \<Rightarrow> bytes" where
  "Canonical v = encodeCanonical json_quote v"

subsection \<open>Sign and verify\<close>

definition Verify_sig :: "sign_env \<Rightarrow> bytes \<Rightarrow> bytes \<Rightarrow> bytes \<Rightarrow> bool" where
  "Verify_sig e pub msg sig = (if length pub \<noteq> 32 \<or> length sig \<noteq> 64 then False else se_ed25519 e pub msg sig)"

definition Sign_sig :: "sign_env \<Rightarrow> bytes \<Rightarrow> bytes \<Rightarrow> bytes" where
  "Sign_sig e priv msg = se_sign e priv msg"

definition AlgorithmID :: string where
  "AlgorithmID = ''ed25519''"

definition sigFilePrefix :: string where
  "sigFilePrefix = ''vulos-sig-v1''"

definition MarshalSig :: "sign_env \<Rightarrow> Signature \<Rightarrow> sign_error + bytes" where
  "MarshalSig e s =
     (if sg_Algorithm s \<noteq> AlgorithmID then Inl ErrSigAlgorithm
      else if length (sg_SigBytes s) \<noteq> 64 then Inl ErrSigLength
      else if list_ex (\<lambda>c. c = CHR 0x0D \<or> c = CHR 0x0A) (sg_KeyID s) then Inl ErrSigKeyID
      else Inr (sigFilePrefix @ CHR 0x0A # ''algorithm: '' @ sg_Algorithm s @ CHR 0x0A # ''key-id: '' @ sg_KeyID s
                @ CHR 0x0A # ''sig: '' @ se_b64 e (sg_SigBytes s) @ [CHR 0x0A]))"

fun splitLines :: "string \<Rightarrow> string list" where
  "splitLines [] = [[]]"
| "splitLines (c # s) = (if c = CHR 0x0A then [] # splitLines s
     else case splitLines s of [] \<Rightarrow> [[c]] | l # ls \<Rightarrow> (c # l) # ls)"

definition trimRightNL :: "string \<Rightarrow> string" where
  "trimRightNL s = rev (dropWhile (\<lambda>c. c = CHR 0x0A) (rev s))"

definition sigField :: "string \<Rightarrow> (string \<rightharpoonup> string) \<Rightarrow> (string \<rightharpoonup> string)" where
  "sigField line m = (case SplitN2 CHR '':'' line of (_, None) \<Rightarrow> m | (k, Some v) \<Rightarrow> m(TrimSpace k \<mapsto> TrimSpace v))"

definition ParseSig :: "sign_env \<Rightarrow> bytes \<Rightarrow> sign_error + Signature" where
  "ParseSig e data =
     (case splitLines (trimRightNL data) of
        [] \<Rightarrow> Inl ErrSigFormat
      | header # rest \<Rightarrow>
          if length rest < 3 then Inl ErrSigFormat
          else if header \<noteq> sigFilePrefix then Inl ErrSigFormat
          else let fields = fold sigField rest Map.empty in
            case fields ''algorithm'' of None \<Rightarrow> Inl ErrSigFormat
            | Some algo \<Rightarrow>
                if algo \<noteq> AlgorithmID then Inl ErrSigAlgorithm
                else case fields ''key-id'' of None \<Rightarrow> Inl ErrSigFormat
                | Some keyID \<Rightarrow> (case fields ''sig'' of None \<Rightarrow> Inl ErrSigFormat
                    | Some sigB64 \<Rightarrow> (case se_unb64 e sigB64 of None \<Rightarrow> Inl ErrSigFormat
                        | Some sigBytes \<Rightarrow> if length sigBytes \<noteq> 64 then Inl ErrSigLength
                            else Inr \<lparr>sg_Algorithm = algo, sg_KeyID = keyID, sg_SigBytes = sigBytes\<rparr>)))"

subsection \<open>Release certificates\<close>

definition BodyOf :: "ReleaseCert \<Rightarrow> CertBody" where
  "BodyOf c = \<lparr>cb_ReleasePubKey = rc_ReleasePubKey c, cb_KeyID = rc_KeyID c, cb_NotAfter = rc_NotAfter c, cb_MinEpoch = rc_MinEpoch c\<rparr>"

definition IssueReleaseCert :: "sign_env \<Rightarrow> bytes \<Rightarrow> bytes \<Rightarrow> string \<Rightarrow> int \<Rightarrow> int \<Rightarrow> sign_error + ReleaseCert" where
  "IssueReleaseCert e rootPriv releasePub keyID notAfter minEpoch =
     (if length rootPriv \<noteq> 64 then Inl ErrCertKey
      else if length releasePub \<noteq> 32 then Inl ErrCertKey
      else if keyID = [] then Inl ErrCertFields
      else if minEpoch < 0 then Inl ErrCertEpoch
      else let body = \<lparr>cb_ReleasePubKey = EncodeToString releasePub, cb_KeyID = keyID, cb_NotAfter = se_rfc3339 e notAfter, cb_MinEpoch = minEpoch\<rparr>
           in Inr \<lparr>rc_ReleasePubKey = cb_ReleasePubKey body, rc_KeyID = cb_KeyID body, rc_NotAfter = cb_NotAfter body, rc_MinEpoch = cb_MinEpoch body,
                   rc_RootSig = se_b64 e (Sign_sig e rootPriv (Canonical (json_CertBody body)))\<rparr>)"

definition ValidateReleaseCertAt :: "sign_env \<Rightarrow> bytes \<Rightarrow> ReleaseCert \<Rightarrow> int \<Rightarrow> sign_error option" where
  "ValidateReleaseCertAt e rootPub cert now =
     (if length rootPub \<noteq> 32 then Some ErrCertKey
      else case se_time e (rc_NotAfter cert) of None \<Rightarrow> Some ErrCertTime
      | Some notAfter \<Rightarrow>
          if notAfter < now then Some ErrCertExpired
          else if rc_MinEpoch cert < 0 then Some ErrCertEpoch
          else case se_unb64 e (rc_RootSig cert) of None \<Rightarrow> Some ErrCertEncoding
          | Some sigBytes \<Rightarrow> if \<not> Verify_sig e rootPub (Canonical (json_CertBody (BodyOf cert))) sigBytes then Some ErrCertSignature else None)"

definition hexVal :: "char \<Rightarrow> nat option" where
  "hexVal c = (let n = (of_char c :: nat) in
     if 48 \<le> n \<and> n \<le> 57 then Some (n - 48) else if 97 \<le> n \<and> n \<le> 102 then Some (n - 87) else if 65 \<le> n \<and> n \<le> 70 then Some (n - 55) else None)"

fun DecodeHex :: "string \<Rightarrow> bytes option" where
  "DecodeHex [] = Some []"
| "DecodeHex [_] = None"
| "DecodeHex (a # b # s) = (case (hexVal a, hexVal b) of
     (Some x, Some y) \<Rightarrow> (case DecodeHex s of None \<Rightarrow> None | Some r \<Rightarrow> Some (char_of (16 * x + y) # r)) | _ \<Rightarrow> None)"

definition DecodePubKey :: "ReleaseCert \<Rightarrow> sign_error + bytes" where
  "DecodePubKey c = (case DecodeHex (rc_ReleasePubKey c) of None \<Rightarrow> Inl ErrCertKey | Some b \<Rightarrow> if length b \<noteq> 32 then Inl ErrCertKey else Inr b)"

definition ParseReleaseCert :: "sign_env \<Rightarrow> bytes \<Rightarrow> sign_error + ReleaseCert" where
  "ParseReleaseCert e data = (case se_cert e data of None \<Rightarrow> Inl ErrCertEncoding
     | Some cert \<Rightarrow> if rc_ReleasePubKey cert = [] \<or> rc_KeyID cert = [] \<or> rc_NotAfter cert = [] \<or> rc_RootSig cert = [] then Inl ErrCertFields else Inr cert)"

definition ReleaseKeyFromCert :: "sign_env \<Rightarrow> bytes \<Rightarrow> ReleaseCert \<Rightarrow> int \<Rightarrow> sign_error + bytes" where
  "ReleaseKeyFromCert e rootPub cert now = (case ValidateReleaseCertAt e rootPub cert now of Some er \<Rightarrow> Inl er | None \<Rightarrow> DecodePubKey cert)"

subsection \<open>The trust anchor\<close>

definition LoadAnchor :: "sign_env \<Rightarrow> bytes option \<Rightarrow> sign_error + bytes" where
  "LoadAnchor e anchorFile = (case anchorFile of None \<Rightarrow> Inl ErrAnchor
     | Some data \<Rightarrow> let line = TrimSpace data in
         if line = [] then Inl ErrAnchor
         else case se_unb64 e line of None \<Rightarrow> Inl ErrAnchor | Some raw \<Rightarrow> if length raw \<noteq> 32 then Inl ErrAnchor else Inr raw)"

definition EncodeAnchor :: "sign_env \<Rightarrow> bytes \<Rightarrow> string" where
  "EncodeAnchor e pub = se_b64 e pub @ [CHR 0x0A]"

definition VerifyWithAnchor :: "sign_env \<Rightarrow> bytes option \<Rightarrow> bytes \<Rightarrow> bytes \<Rightarrow> sign_error option" where
  "VerifyWithAnchor e anchorFile msg sig =
     (if msg = [] then Some ErrEmpty
      else if sig = [] then Some ErrEmpty
      else case LoadAnchor e anchorFile of Inl er \<Rightarrow> Some er
      | Inr pub \<Rightarrow> if \<not> Verify_sig e pub msg sig then Some ErrBumpSignature else None)"

subsection \<open>The epoch floor\<close>

text \<open>One I/O call; a failing call has no effect on the files of the model.\<close>

definition io :: "sign_env \<Rightarrow> ('z epoch_disk_scheme, sign_error, unit) comp" where
  "io e d = (if se_io e (ios d) then Inr () else Inl ErrIO, d\<lparr>ios := ios d + 1\<rparr>)"

text \<open>
  Writing a file through a temporary file: create, write, sync, close, rename. The target
  changes with the rename only; a failure removes the temporary file.
\<close>

definition atomicWrite :: "sign_env \<Rightarrow> ('z epoch_disk_scheme \<Rightarrow> 'z epoch_disk_scheme) \<Rightarrow> ('z epoch_disk_scheme, sign_error, unit) comp" where
  "atomicWrite e rename = bindS (io e) (\<lambda>_. bindS (io e) (\<lambda>_. bindS (io e) (\<lambda>_. bindS (io e) (\<lambda>_. bindS (io e) (\<lambda>_ d. (Inr (), rename d))))))"

definition json_epoch :: "int \<Rightarrow> bytes" where
  "json_epoch n = Canonical (JObj [(''floor'', JNum (FormatInt n))])"

definition writeFloor :: "sign_env \<Rightarrow> int \<Rightarrow> ('z epoch_disk_scheme, sign_error, unit) comp" where
  "writeFloor e n = atomicWrite e (\<lambda>d. d\<lparr>epoch_file := Some (json_epoch n)\<rparr>)"

text \<open>\<open>NewEpochStore\<close>: make the directory, read the file, create it when it is absent.\<close>

definition NewEpochStore :: "sign_env \<Rightarrow> ('z epoch_disk_scheme, sign_error, EpochStore) comp" where
  "NewEpochStore e = bindS (io e) (\<lambda>_ d. case epoch_file d of
       None \<Rightarrow> bindS (writeFloor e 0) (\<lambda>_. retS \<lparr>es_current = 0\<rparr>) d
     | Some data \<Rightarrow> bindS (io e) (\<lambda>_. case se_unepoch e data of None \<Rightarrow> failS ErrEpochParse | Some n \<Rightarrow> retS \<lparr>es_current = n\<rparr>) d)"

definition RaiseTo :: "sign_env \<Rightarrow> int \<Rightarrow> EpochStore \<Rightarrow> 'z epoch_disk_scheme \<Rightarrow> (sign_error + unit) \<times> EpochStore \<times> 'z epoch_disk_scheme" where
  "RaiseTo e n s d =
     (if n \<le> es_current s then (Inr (), s, d)
      else case writeFloor e n d of (Inl er, d') \<Rightarrow> (Inl er, s, d') | (Inr _, d') \<Rightarrow> (Inr (), s\<lparr>es_current := n\<rparr>, d'))"

definition RaiseFromReleaseCert :: "sign_env \<Rightarrow> bytes \<Rightarrow> ReleaseCert \<Rightarrow> int \<Rightarrow> EpochStore \<Rightarrow> 'z epoch_disk_scheme \<Rightarrow> (sign_error + unit) \<times> EpochStore \<times> 'z epoch_disk_scheme" where
  "RaiseFromReleaseCert e rootPub cert now s d =
     (case ValidateReleaseCertAt e rootPub cert now of Some er \<Rightarrow> (Inl er, s, d)
      | None \<Rightarrow> if rc_MinEpoch cert < 0 then (Inl ErrCertEpoch, s, d) else RaiseTo e (rc_MinEpoch cert) s d)"

definition AcceptEpoch :: "EpochStore \<Rightarrow> int \<Rightarrow> sign_error option" where
  "AcceptEpoch s claimed = (if claimed < es_current s then Some ErrEpochBelowFloor else None)"

definition BumpFloor :: "sign_env \<Rightarrow> bytes option \<Rightarrow> EpochBumpMessage \<Rightarrow> bytes \<Rightarrow> EpochStore \<Rightarrow> 'z epoch_disk_scheme \<Rightarrow> (sign_error + unit) \<times> EpochStore \<times> 'z epoch_disk_scheme" where
  "BumpFloor e anchorFile msg sig s d =
     (if eb_Type msg \<noteq> ''epoch-bump'' then (Inl ErrBumpType, s, d)
      else case VerifyWithAnchor e anchorFile (Canonical (json_EpochBump msg)) sig of Some er \<Rightarrow> (Inl er, s, d)
      | None \<Rightarrow> RaiseTo e (eb_NewFloor msg) s d)"

end
