(* ===== verification/Os_Slots.thy ===== *)
theory Os_Slots
  imports Signing
begin

text \<open>
  The two OS image slots and the boot state of a device
  (\<open>backend/services/osdist/slots.go\<close>), the update endpoints (\<open>handlers.go\<close>) and the
  boot counter of the init process (\<open>backend/cmd/init/main.go\<close>). The device's cache
  partition is \<open>os_disk\<close>: the contents of \<open>boot-state.json\<close> and of the files of both slots
  by slot and name. Temporary files are left out: every path removes them. The JSON form of
  the boot state is a parameter; whether an I/O call succeeds is decided by its number.
\<close>

subsection \<open>Types\<close>

record BootState =
  bs_Active :: string
  bs_Pending :: string
  bs_BootCounter :: int
  bs_LastKnownGood :: string

record os_disk = epoch_disk +
  boot_file :: "bytes option"
  slot_files :: "string \<times> string \<Rightarrow> bytes option"

record boot_env =
  be_sign :: sign_env
  be_boot :: "BootState \<Rightarrow> bytes"
  be_unboot :: "bytes \<Rightarrow> BootState option"

datatype slot_error = ErrInvalidSlot | ErrStagingActiveSlot | ErrNoPending | ErrNoLastKnownGood | ErrBootState | ErrBootParse | ErrSlotIO

definition SlotA :: string where
  "SlotA = ''a''"

definition SlotB :: string where
  "SlotB = ''b''"

definition SlotNone :: string where
  "SlotNone = []"

definition valid_slot :: "string \<Rightarrow> bool" where
  "valid_slot s \<longleftrightarrow> s = SlotA \<or> s = SlotB"

definition validate :: "BootState \<Rightarrow> slot_error option" where
  "validate bs =
     (if \<not> valid_slot (bs_Active bs) then Some ErrBootState
      else if bs_Pending bs \<noteq> SlotNone \<and> \<not> valid_slot (bs_Pending bs) then Some ErrBootState
      else if bs_LastKnownGood bs \<noteq> SlotNone \<and> \<not> valid_slot (bs_LastKnownGood bs) then Some ErrBootState
      else if bs_BootCounter bs < 0 then Some ErrBootState
      else None)"

subsection \<open>Load and Save\<close>

type_synonym 'a slots = "(os_disk, slot_error, 'a) comp"

definition slotIO :: "(os_disk, sign_error, 'a) comp \<Rightarrow> 'a slots" where
  "slotIO m d = (case m d of (Inl _, d') \<Rightarrow> (Inl ErrSlotIO, d') | (Inr x, d') \<Rightarrow> (Inr x, d'))"

definition NewSlotManager :: "boot_env \<Rightarrow> unit slots" where
  "NewSlotManager e = bindS (slotIO (io (be_sign e))) (\<lambda>_. slotIO (io (be_sign e)))"

definition Load :: "boot_env \<Rightarrow> BootState slots" where
  "Load e = bindS (slotIO (io (be_sign e))) (\<lambda>_ d. case boot_file d of
       None \<Rightarrow> (Inl ErrSlotIO, d)
     | Some data \<Rightarrow> (case be_unboot e data of None \<Rightarrow> (Inl ErrBootParse, d)
         | Some bs \<Rightarrow> (case validate bs of Some er \<Rightarrow> (Inl er, d) | None \<Rightarrow> (Inr bs, d))))"

definition Save :: "boot_env \<Rightarrow> BootState \<Rightarrow> unit slots" where
  "Save e bs = (case validate bs of Some er \<Rightarrow> failS er
     | None \<Rightarrow> slotIO (atomicWrite (be_sign e) (\<lambda>d. d\<lparr>boot_file := Some (be_boot e bs)\<rparr>)))"

subsection \<open>Slot operations\<close>

definition InactiveSlot :: "BootState \<Rightarrow> slot_error + string" where
  "InactiveSlot bs = (if bs_Active bs = SlotA then Inr SlotB else if bs_Active bs = SlotB then Inr SlotA else Inl ErrBootState)"

definition SlotDir :: "string \<Rightarrow> slot_error + string" where
  "SlotDir s = (if \<not> valid_slot s then Inl ErrInvalidSlot else Inr (''slot-'' @ s))"

text \<open>\<open>os.CreateTemp\<close> refuses a name with a path separator.\<close>

definition StageInto :: "boot_env \<Rightarrow> BootState \<Rightarrow> string \<Rightarrow> string \<Rightarrow> bytes \<Rightarrow> unit slots" where
  "StageInto e bs slot destName src =
     (if \<not> valid_slot slot then failS ErrInvalidSlot
      else if slot = bs_Active bs then failS ErrStagingActiveSlot
      else if CHR ''/'' \<in> set destName then failS ErrSlotIO
      else slotIO (atomicWrite (be_sign e) (\<lambda>d. d\<lparr>slot_files := (slot_files d)((slot, destName) := Some src)\<rparr>)))"

definition saved :: "boot_env \<Rightarrow> BootState \<Rightarrow> BootState slots" where
  "saved e next = bindS (Save e next) (\<lambda>_. retS next)"

definition SetPending :: "boot_env \<Rightarrow> BootState \<Rightarrow> string \<Rightarrow> BootState slots" where
  "SetPending e bs slot =
     (if \<not> valid_slot slot then failS ErrInvalidSlot
      else if slot = bs_Active bs then failS ErrStagingActiveSlot
      else saved e \<lparr>bs_Active = bs_Active bs, bs_Pending = slot, bs_BootCounter = 0, bs_LastKnownGood = bs_LastKnownGood bs\<rparr>)"

definition Flip :: "boot_env \<Rightarrow> BootState \<Rightarrow> BootState slots" where
  "Flip e bs =
     (if bs_Pending bs = SlotNone then failS ErrNoPending
      else saved e \<lparr>bs_Active = bs_Pending bs, bs_Pending = SlotNone, bs_BootCounter = 0, bs_LastKnownGood = bs_Active bs\<rparr>)"

definition Rollback :: "boot_env \<Rightarrow> BootState \<Rightarrow> BootState slots" where
  "Rollback e bs =
     (if bs_LastKnownGood bs = SlotNone then failS ErrNoLastKnownGood
      else saved e \<lparr>bs_Active = bs_LastKnownGood bs, bs_Pending = SlotNone, bs_BootCounter = 0, bs_LastKnownGood = bs_LastKnownGood bs\<rparr>)"

definition DefaultBootThreshold :: int where
  "DefaultBootThreshold = 3"

definition IncrementBootCounter :: "boot_env \<Rightarrow> BootState \<Rightarrow> BootState slots" where
  "IncrementBootCounter e bs = saved e (bs\<lparr>bs_BootCounter := wrap64 (bs_BootCounter bs + 1)\<rparr>)"

definition ShouldRollback :: "BootState \<Rightarrow> int \<Rightarrow> bool" where
  "ShouldRollback bs threshold =
     (let t = (if threshold \<le> 0 then DefaultBootThreshold else threshold)
      in if bs_LastKnownGood bs = SlotNone then False else t \<le> bs_BootCounter bs)"

definition MarkHealthy :: "boot_env \<Rightarrow> BootState \<Rightarrow> BootState slots" where
  "MarkHealthy e bs = saved e (bs\<lparr>bs_BootCounter := 0, bs_LastKnownGood := bs_Active bs\<rparr>)"

subsection \<open>The init process\<close>

text \<open>\<open>Atoi\<close> of the environment variable; an empty or unusable value selects the default.\<close>

definition bootThreshold :: "string \<Rightarrow> int" where
  "bootThreshold v = (if v \<noteq> [] then (case ParseInt v of Some n \<Rightarrow> if 0 < n then n else DefaultBootThreshold | None \<Rightarrow> DefaultBootThreshold) else DefaultBootThreshold)"

text \<open>
  The boot state init keeps in memory; \<open>None\<close> when slot management is unavailable or the
  counter could not be written. Every error is logged and the boot goes on.
\<close>

definition loadOrInit :: "boot_env \<Rightarrow> os_disk \<Rightarrow> BootState option \<times> os_disk" where
  "loadOrInit e d = (case Load e d of
       (Inr bs, d1) \<Rightarrow> (Some bs, d1)
     | (Inl _, d1) \<Rightarrow>
         let fresh = \<lparr>bs_Active = SlotA, bs_Pending = SlotNone, bs_BootCounter = 0, bs_LastKnownGood = SlotA\<rparr>
         in (case Save e fresh d1 of (Inl _, d2) \<Rightarrow> (None, d2) | (Inr _, d2) \<Rightarrow> (Some fresh, d2)))"

definition incrementBootCounter :: "boot_env \<Rightarrow> int \<Rightarrow> os_disk \<Rightarrow> BootState option \<times> os_disk" where
  "incrementBootCounter e threshold d0 =
     (case NewSlotManager e d0 of (Inl _, d1) \<Rightarrow> (None, d1)
      | (Inr _, d1) \<Rightarrow>
          (case loadOrInit e d1 of (None, d2) \<Rightarrow> (None, d2)
           | (Some bs, d2) \<Rightarrow>
               (case IncrementBootCounter e bs d2 of (Inl _, d3) \<Rightarrow> (None, d3)
                | (Inr bs1, d3) \<Rightarrow>
                    if ShouldRollback bs1 threshold
                    then (case Rollback e bs1 d3 of (Inl _, d4) \<Rightarrow> (Some bs1, d4) | (Inr rolled, d4) \<Rightarrow> (Some rolled, d4))
                    else (Some bs1, d3))))"

definition markBootHealthy :: "boot_env \<Rightarrow> BootState option \<Rightarrow> os_disk \<Rightarrow> os_disk" where
  "markBootHealthy e obs d = (case obs of None \<Rightarrow> d | Some bs \<Rightarrow> snd (MarkHealthy e bs d))"

subsection \<open>The update endpoints\<close>

record StatusStore =
  st_availableVersion :: string
  st_lastCheck :: "int option"
  st_lastError :: string

record UpdateStatus =
  us_RunningVersion :: string
  us_AvailableVersion :: string
  us_LastCheck :: "int option"
  us_LastError :: string
  us_Active :: string
  us_Pending :: string
  us_LastKnownGood :: string

definition NewStatusStore :: StatusStore where
  "NewStatusStore = \<lparr>st_availableVersion = [], st_lastCheck = None, st_lastError = []\<rparr>"

definition RecordSuccess :: "int \<Rightarrow> string \<Rightarrow> StatusStore \<Rightarrow> StatusStore" where
  "RecordSuccess now v s = s\<lparr>st_availableVersion := v, st_lastCheck := Some now, st_lastError := []\<rparr>"

definition RecordError :: "int \<Rightarrow> string \<Rightarrow> StatusStore \<Rightarrow> StatusStore" where
  "RecordError now msg s = s\<lparr>st_lastCheck := Some now, st_lastError := msg\<rparr>"

text \<open>A response is a status code or, for 200 and 202, its body.\<close>

definition handleUpdateStatus :: "boot_env \<Rightarrow> string \<Rightarrow> StatusStore option \<Rightarrow> os_disk \<Rightarrow> (nat + UpdateStatus) \<times> os_disk" where
  "handleUpdateStatus e runningVersion store d = (case Load e d of
       (Inl _, d') \<Rightarrow> (Inl 500, d')
     | (Inr bs, d') \<Rightarrow>
         (let status = \<lparr>us_RunningVersion = runningVersion, us_AvailableVersion = [], us_LastCheck = None, us_LastError = [],
                        us_Active = bs_Active bs, us_Pending = bs_Pending bs, us_LastKnownGood = bs_LastKnownGood bs\<rparr>
          in (Inr (case store of None \<Rightarrow> status
                   | Some s \<Rightarrow> status\<lparr>us_AvailableVersion := (if st_availableVersion s \<noteq> [] \<and> st_availableVersion s \<noteq> runningVersion then st_availableVersion s else []),
                                      us_LastCheck := st_lastCheck s, us_LastError := st_lastError s\<rparr>), d')))"

definition handleApply :: "boot_env \<Rightarrow> bool option \<Rightarrow> os_disk \<Rightarrow> (nat + string) \<times> os_disk" where
  "handleApply e isAdmin d =
     (if isAdmin = Some False then (Inl 403, d)
      else case Load e d of (Inl _, d') \<Rightarrow> (Inl 500, d')
      | (Inr bs, d') \<Rightarrow>
          if bs_Pending bs = SlotNone then (Inl 409, d')
          else case Flip e bs d' of (Inl _, d'') \<Rightarrow> (Inl 500, d'') | (Inr next, d'') \<Rightarrow> (Inr (bs_Active next), d''))"

end
