(* ===== verification/Os_Update.thy ===== *)
theory Os_Update
  imports Os_Slots
begin

text \<open>
  The OS update channel (\<open>backend/services/osdist\<close>: \<open>manifest.go\<close>, \<open>source.go\<close>,
  \<open>update.go\<close>): mirrors tried in order, the release certificate, the signed manifest, the
  image bound to its signed dm-verity root hash, staging and the periodic check. Outside the
  model are the network, the clock, \<open>veritysetup\<close> and \<open>json.Unmarshal\<close> into the structs:
  fields of \<open>upd_env\<close>, indexed by the number of the call where the answer may change. A
  \<open>time.Time\<close> of the manifest is the text its \<open>MarshalJSON\<close> gives.
\<close>

subsection \<open>The manifest\<close>

record StableManifest =
  sm_Channel :: string
  sm_Latest :: string
  sm_MinEpoch :: int
  sm_RootHash :: string
  sm_Size :: int
  sm_ReleasedAt :: string
  sm_Path :: string
  sm_IsSecurity :: bool
  sm_Severity :: string
  sm_Notes :: string

record ImagePayload =
  ip_Path :: string
  ip_RootHash :: string
  ip_Size :: int
  ip_MinEpoch :: int
  ip_ReleasedAt :: string

datatype up_error = ErrNoMirrors | ErrAllMirrorsFailed | ErrFetchBody | ErrReleaseCertMissing | ErrReleaseCertInvalid | ErrUpdateSig sign_error
  | ErrManifestMalformed | ErrSecuritySurface | ErrManifestSignature | ErrEpochTooLow | ErrAlreadyUpToDate | ErrUpdateSlot slot_error | ErrNoImagePayload
  | ErrHashMismatch | ErrImageBadSignature | ErrVerityUnavailable | ErrUpdateIO | ErrNewUpdater

definition Severities :: "string list" where
  "Severities = [''low'', ''medium'', ''high'', ''critical'']"

definition MaxNotesBytes :: nat where
  "MaxNotesBytes = 200"

definition validSeverity :: "string \<Rightarrow> bool" where
  "validSeverity s \<longleftrightarrow> list_ex (\<lambda>v. s = v) Severities"

text \<open>\<open>unicode.IsControl\<close>, and \<open>unicode.Is(unicode.Cf, r)\<close> with the table of Unicode 15.\<close>

definition IsControl :: "nat \<Rightarrow> bool" where
  "IsControl r \<longleftrightarrow> r < 0x20 \<or> 0x7F \<le> r \<and> r < 0xA0"

definition formatRanges :: "(nat \<times> nat) list" where
  "formatRanges = [(0xAD, 0xAD), (0x600, 0x605), (0x61C, 0x61C), (0x6DD, 0x6DD), (0x70F, 0x70F), (0x890, 0x891), (0x8E2, 0x8E2), (0x180E, 0x180E),
     (0x200B, 0x200F), (0x202A, 0x202E), (0x2060, 0x2064), (0x2066, 0x206F), (0xFEFF, 0xFEFF), (0xFFF9, 0xFFFB), (0x110BD, 0x110BD), (0x110CD, 0x110CD),
     (0x13430, 0x1343F), (0x1BCA0, 0x1BCA3), (0x1D173, 0x1D17A), (0xE0001, 0xE0001), (0xE0020, 0xE007F)]"

definition IsFormat :: "nat \<Rightarrow> bool" where
  "IsFormat r \<longleftrightarrow> list_ex (\<lambda>(lo, hi). lo \<le> r \<and> r \<le> hi) formatRanges"

text \<open>
  \<open>strings.ToLower\<close> maps letters outside ASCII too, but none of them to a byte of the two
  link markers, so the ASCII mapping finds the same notes.
\<close>

definition ValidateReleaseNotes :: "string \<Rightarrow> up_error option" where
  "ValidateReleaseNotes notes =
     (if notes = [] then None
      else if MaxNotesBytes < length notes then Some ErrSecuritySurface
      else if \<not> ValidString notes then Some ErrSecuritySurface
      else if list_ex (\<lambda>(r, _). IsControl r \<or> IsFormat r) (runes notes) then Some ErrSecuritySurface
      else if list_ex (\<lambda>link. Contains (ToLower notes) link) [''://'', ''www.''] then Some ErrSecuritySurface
      else None)"

definition ValidateSecuritySurface :: "bool \<Rightarrow> string \<Rightarrow> string \<Rightarrow> up_error option" where
  "ValidateSecuritySurface isSecurity severity notes =
     (if isSecurity \<and> \<not> validSeverity severity then Some ErrSecuritySurface
      else if \<not> isSecurity \<and> severity \<noteq> [] then Some ErrSecuritySurface
      else ValidateReleaseNotes notes)"

text \<open>\<open>omitempty\<close> drops a zero value.\<close>

definition omitempty :: "bool \<Rightarrow> string \<Rightarrow> json \<Rightarrow> (string \<times> json) list" where
  "omitempty zero k v = (if zero then [] else [(k, v)])"

definition json_manifest :: "StableManifest \<Rightarrow> json" where
  "json_manifest m = JObj ([(''channel'', JStr (sm_Channel m)), (''latest'', JStr (sm_Latest m)), (''min_epoch'', JNum (FormatInt (sm_MinEpoch m))),
     (''roothash'', JStr (sm_RootHash m)), (''size'', JNum (FormatInt (sm_Size m))), (''released_at'', JStr (sm_ReleasedAt m)), (''path'', JStr (sm_Path m))]
     @ omitempty (\<not> sm_IsSecurity m) ''is_security'' (JBool (sm_IsSecurity m)) @ omitempty (sm_Severity m = []) ''severity'' (JStr (sm_Severity m))
     @ omitempty (sm_Notes m = []) ''notes'' (JStr (sm_Notes m)))"

definition json_image :: "ImagePayload \<Rightarrow> json" where
  "json_image p = JObj [(''path'', JStr (ip_Path p)), (''roothash'', JStr (ip_RootHash p)), (''size'', JNum (FormatInt (ip_Size p))),
     (''min_epoch'', JNum (FormatInt (ip_MinEpoch p))), (''released_at'', JStr (ip_ReleasedAt p))]"

datatype http_answer = NoAnswer | Answer nat bytes bool

datatype verity_answer = VerityOk | VerityRejects | VerityAbsent

record upd_env =
  ue_boot :: boot_env
  ue_get :: "nat \<Rightarrow> string \<Rightarrow> http_answer"
  ue_clock :: "nat \<Rightarrow> int"
  ue_read :: "string \<Rightarrow> bytes option"
  ue_manifest :: "bytes \<Rightarrow> StableManifest option"
  ue_image :: "bytes \<Rightarrow> ImagePayload option"
  ue_verity :: "bytes \<Rightarrow> bytes \<Rightarrow> string \<Rightarrow> verity_answer"

abbreviation ue_sign :: "upd_env \<Rightarrow> sign_env" where
  "ue_sign e \<equiv> be_sign (ue_boot e)"

definition ParseAndVerify :: "upd_env \<Rightarrow> bytes \<Rightarrow> bytes \<Rightarrow> bytes \<Rightarrow> int \<Rightarrow> up_error + StableManifest" where
  "ParseAndVerify e data sig signerPub epochFloor =
     (case ue_manifest e data of None \<Rightarrow> Inl ErrManifestMalformed
      | Some m \<Rightarrow>
          if sm_Channel m = [] \<or> sm_Latest m = [] \<or> sm_RootHash m = [] \<or> sm_Path m = [] then Inl ErrManifestMalformed
          else case ValidateSecuritySurface (sm_IsSecurity m) (sm_Severity m) (sm_Notes m) of Some er \<Rightarrow> Inl er
          | None \<Rightarrow>
              if \<not> Verify_sig (ue_sign e) signerPub (Canonical (json_manifest m)) sig then Inl ErrManifestSignature
              else if sm_MinEpoch m < epochFloor then Inl ErrEpochTooLow
              else Inr m)"

definition ReleaseCertBucketPath :: string where
  "ReleaseCertBucketPath = ''os/release-cert.json''"

definition ManifestBucketPath :: string where
  "ManifestBucketPath = ''os/stable.json''"

definition ManifestSigBucketPath :: string where
  "ManifestSigBucketPath = ManifestBucketPath @ ''.sig''"

definition VersionPath :: "string \<Rightarrow> string" where
  "VersionPath version = ''os/'' @ version @ ''/os-core.squashfs''"

definition VersionHashtreePath :: "string \<Rightarrow> string" where
  "VersionHashtreePath version = ''os/'' @ version @ ''/os-core.hashtree''"

definition VersionSigPath :: "string \<Rightarrow> string" where
  "VersionSigPath version = VersionPath version @ ''.sig''"

subsection \<open>Mirrors\<close>

record Source =
  src_embeddedURLPath :: string
  src_override :: string
  src_mirrors :: "string list"

datatype SourceOption = WithOverride string | WithMirrors "string list" | WithEmbeddedURLPath string

definition applyOption :: "SourceOption \<Rightarrow> Source \<Rightarrow> Source" where
  "applyOption opt s = (case opt of
       WithOverride url \<Rightarrow> if url \<noteq> [] then s\<lparr>src_override := url\<rparr> else s
     | WithMirrors urls \<Rightarrow> s\<lparr>src_mirrors := src_mirrors s @ filter (\<lambda>u. u \<noteq> []) urls\<rparr>
     | WithEmbeddedURLPath path \<Rightarrow> if path \<noteq> [] then s\<lparr>src_embeddedURLPath := path\<rparr> else s)"

definition NewSource :: "string \<Rightarrow> SourceOption list \<Rightarrow> Source" where
  "NewSource envOverride opts =
     (let s = fold applyOption opts \<lparr>src_embeddedURLPath = ''/etc/vulos/os-bucket-url'', src_override = [], src_mirrors = []\<rparr>
      in if src_override s = [] \<and> envOverride \<noteq> [] then s\<lparr>src_override := envOverride\<rparr> else s)"

definition TrimRightSlash :: "string \<Rightarrow> string" where
  "TrimRightSlash u = rev (dropWhile (\<lambda>c. c = CHR ''/'') (rev u))"

definition addURL :: "string \<Rightarrow> string list \<Rightarrow> string list" where
  "addURL u0 out = (let u = TrimRightSlash (TrimSpace u0) in if u = [] \<or> u \<in> set out then out else out @ [u])"

definition Resolve :: "(string \<Rightarrow> bytes option) \<Rightarrow> Source \<Rightarrow> string list" where
  "Resolve readFile s =
     (let o1 = addURL (src_override s) []; o2 = (case readFile (src_embeddedURLPath s) of None \<Rightarrow> o1 | Some raw \<Rightarrow> addURL raw o1)
      in fold addURL (src_mirrors s) o2)"

subsection \<open>The updater\<close>

record UpdaterConfig =
  uc_Source :: Source
  uc_AnchorPub :: bytes
  uc_ReleaseCertPath :: string
  uc_EpochFloor :: int
  uc_RunningVersion :: string
  uc_Interval :: int
  uc_RebootPrompt :: bool

record up_state =
  up_disk :: os_disk
  up_epoch :: "EpochStore option"
  up_lastLatest :: string
  up_status :: "StatusStore option"
  up_prompts :: nat

type_synonym 'a upd = "(up_state, up_error, 'a) comp"

definition DefaultUpdateInterval :: int where
  "DefaultUpdateInterval = 4 * 3600 * 10 ^ 9"

definition AutoUpdateEnabled :: "string \<Rightarrow> bool" where
  "AutoUpdateEnabled v = (if ToLower (TrimSpace v) \<in> set [''0'', ''off'', ''false'', ''no'', ''disable'', ''disabled'', ''none''] then False else True)"

definition NewUpdater :: "bool \<Rightarrow> bool \<Rightarrow> UpdaterConfig \<Rightarrow> up_error + UpdaterConfig" where
  "NewUpdater hasSource hasSlotManager cfg =
     (if \<not> hasSource then Inl ErrNewUpdater
      else if \<not> hasSlotManager then Inl ErrNewUpdater
      else if uc_AnchorPub cfg = [] then Inl ErrNewUpdater
      else Inr (cfg\<lparr>uc_Interval := (if uc_Interval cfg \<le> 0 then DefaultUpdateInterval else uc_Interval cfg),
                    uc_ReleaseCertPath := (if uc_ReleaseCertPath cfg = [] then ''/etc/vulos/release-cert.json'' else uc_ReleaseCertPath cfg)\<rparr>))"

text \<open>One outside call takes the next number; \<open>upIO\<close> is a local I/O call that may fail.\<close>

definition tickU :: "up_state \<Rightarrow> up_state" where
  "tickU u = u\<lparr>up_disk := (up_disk u)\<lparr>ios := ios (up_disk u) + 1\<rparr>\<rparr>"

definition upIO :: "upd_env \<Rightarrow> unit upd" where
  "upIO e u = (if se_io (ue_sign e) (ios (up_disk u)) then Inr () else Inl ErrUpdateIO, tickU u)"

definition upNow :: "upd_env \<Rightarrow> int upd" where
  "upNow e u = (Inr (ue_clock e (ios (up_disk u))), tickU u)"

definition onSlots :: "'a slots \<Rightarrow> 'a upd" where
  "onSlots m u = (case m (up_disk u) of (Inl er, d) \<Rightarrow> (Inl (ErrUpdateSlot er), u\<lparr>up_disk := d\<rparr>) | (Inr x, d) \<Rightarrow> (Inr x, u\<lparr>up_disk := d\<rparr>))"

text \<open>The body of an answer with whether it can be read to its end.\<close>

fun fetchLoop :: "upd_env \<Rightarrow> string \<Rightarrow> string list \<Rightarrow> (bytes \<times> bool) upd" where
  "fetchLoop e relPath [] u = (Inl ErrAllMirrorsFailed, u)"
| "fetchLoop e relPath (base # rest) u = (case ue_get e (ios (up_disk u)) (base @ ''/'' @ relPath) of
     NoAnswer \<Rightarrow> fetchLoop e relPath rest (tickU u)
   | Answer status body whole \<Rightarrow> if status \<noteq> 200 then fetchLoop e relPath rest (tickU u) else (Inr (body, whole), tickU u))"

definition Fetch :: "upd_env \<Rightarrow> UpdaterConfig \<Rightarrow> string \<Rightarrow> (bytes \<times> bool) upd" where
  "Fetch e cfg relPath =
     (let candidates = Resolve (ue_read e) (uc_Source cfg)
      in if candidates = [] then failS ErrNoMirrors else fetchLoop e (dropWhile (\<lambda>c. c = CHR ''/'') relPath) candidates)"

definition fetchFile :: "upd_env \<Rightarrow> UpdaterConfig \<Rightarrow> string \<Rightarrow> bytes upd" where
  "fetchFile e cfg relPath = bindS (Fetch e cfg relPath) (\<lambda>(body, whole). if whole then retS body else failS ErrFetchBody)"

subsubsection \<open>The release key\<close>

definition floorInForce :: "UpdaterConfig \<Rightarrow> up_state \<Rightarrow> int" where
  "floorInForce cfg u = (case up_epoch u of None \<Rightarrow> uc_EpochFloor cfg | Some s \<Rightarrow> es_current s)"

definition certBytes :: "upd_env \<Rightarrow> UpdaterConfig \<Rightarrow> bytes upd" where
  "certBytes e cfg u = (case fetchFile e cfg ReleaseCertBucketPath u of
       (Inr data, u') \<Rightarrow> (Inr data, u')
     | (Inl _, u') \<Rightarrow> (case ue_read e (uc_ReleaseCertPath cfg) of None \<Rightarrow> (Inl ErrReleaseCertMissing, u') | Some local \<Rightarrow> (Inr local, u')))"

definition raiseFloor :: "upd_env \<Rightarrow> UpdaterConfig \<Rightarrow> ReleaseCert \<Rightarrow> int \<Rightarrow> int upd" where
  "raiseFloor e cfg cert floor u = (case up_epoch u of None \<Rightarrow> (Inr floor, u)
     | Some s \<Rightarrow>
         (case RaiseFromReleaseCert (ue_sign e) (uc_AnchorPub cfg) cert (ue_clock e (ios (up_disk u))) s (up_disk (tickU u)) of
            (Inl _, s', d) \<Rightarrow> (Inr floor, u\<lparr>up_epoch := Some s', up_disk := d\<rparr>)
          | (Inr _, s', d) \<Rightarrow> (Inr (if floor < rc_MinEpoch cert then rc_MinEpoch cert else floor), u\<lparr>up_epoch := Some s', up_disk := d\<rparr>)))"

definition certifiedReleaseKey :: "upd_env \<Rightarrow> UpdaterConfig \<Rightarrow> (bytes \<times> int) upd" where
  "certifiedReleaseKey e cfg u0 =
     (let floor = floorInForce cfg u0 in
      bindS (certBytes e cfg) (\<lambda>certData.
        case ParseReleaseCert (ue_sign e) certData of Inl _ \<Rightarrow> failS ErrReleaseCertInvalid
        | Inr cert \<Rightarrow> bindS (upNow e) (\<lambda>now.
            case ValidateReleaseCertAt (ue_sign e) (uc_AnchorPub cfg) cert now of Some _ \<Rightarrow> failS ErrReleaseCertInvalid
            | None \<Rightarrow>
                if rc_MinEpoch cert < floor then failS ErrReleaseCertInvalid
                else case DecodePubKey cert of Inl _ \<Rightarrow> failS ErrReleaseCertInvalid
                | Inr releasePub \<Rightarrow> bindS (raiseFloor e cfg cert floor) (\<lambda>floor'. retS (releasePub, floor')))) u0)"

subsubsection \<open>Manifest and image\<close>

definition setLastLatest :: "string \<Rightarrow> unit upd" where
  "setLastLatest v u = (Inr (), u\<lparr>up_lastLatest := v\<rparr>)"

definition fetchManifest :: "upd_env \<Rightarrow> UpdaterConfig \<Rightarrow> bytes \<Rightarrow> int \<Rightarrow> (StableManifest \<times> bytes) upd" where
  "fetchManifest e cfg releasePub floor =
     bindS (fetchFile e cfg ManifestBucketPath) (\<lambda>manifestData.
     bindS (fetchFile e cfg ManifestSigBucketPath) (\<lambda>sigFileData.
       case ParseSig (ue_sign e) sigFileData of Inl er \<Rightarrow> failS (ErrUpdateSig er)
       | Inr detachedSig \<Rightarrow>
           (case ParseAndVerify e manifestData (sg_SigBytes detachedSig) releasePub floor of Inl er \<Rightarrow> failS er
            | Inr manifest \<Rightarrow> bindS (setLastLatest (sm_Latest manifest)) (\<lambda>_. retS (manifest, manifestData)))))"

definition verityVerifyWithTool :: "verity_answer \<Rightarrow> up_error option" where
  "verityVerifyWithTool a = (case a of VerityAbsent \<Rightarrow> Some ErrVerityUnavailable | VerityRejects \<Rightarrow> Some ErrHashMismatch | VerityOk \<Rightarrow> None)"

definition bindByVerity :: "upd_env \<Rightarrow> UpdaterConfig \<Rightarrow> bytes \<Rightarrow> string \<Rightarrow> string \<Rightarrow> unit upd" where
  "bindByVerity e cfg img hashtreeRelPath rootHash u = (case fetchFile e cfg hashtreeRelPath u of
       (Inl _, u') \<Rightarrow> (Inl ErrVerityUnavailable, u')
     | (Inr hashtree, u') \<Rightarrow>
         bindS (upIO e) (\<lambda>_. bindS (upIO e) (\<lambda>_. bindS (upIO e) (\<lambda>_.
           case verityVerifyWithTool (ue_verity e img hashtree (ToLower (TrimSpace rootHash))) of Some er \<Rightarrow> failS er | None \<Rightarrow> retS ()))) u')"

definition osCoreName :: string where
  "osCoreName = ''os-core.squashfs''"

text \<open>The steps after the download: signature, binding, staging of the verified bytes.\<close>

definition verifyAndStage :: "upd_env \<Rightarrow> UpdaterConfig \<Rightarrow> string \<Rightarrow> ImagePayload \<Rightarrow> bytes \<Rightarrow> BootState \<Rightarrow> string \<Rightarrow> bytes \<Rightarrow> unit upd" where
  "verifyAndStage e cfg latest payload releasePub bs slot img =
     bindS (fetchFile e cfg (VersionSigPath latest)) (\<lambda>imgSigData.
       case ParseSig (ue_sign e) imgSigData of Inl er \<Rightarrow> failS (ErrUpdateSig er)
       | Inr detachedImgSig \<Rightarrow>
           if \<not> Verify_sig (ue_sign e) releasePub (Canonical (json_image payload)) (sg_SigBytes detachedImgSig) then failS ErrImageBadSignature
           else if int (length img) \<noteq> ip_Size payload then failS ErrHashMismatch
           else bindS (bindByVerity e cfg img (VersionHashtreePath latest) (ip_RootHash payload)) (\<lambda>_.
                bindS (upIO e) (\<lambda>_. onSlots (StageInto (ue_boot e) bs slot osCoreName img))))"

definition downloadToSlot :: "upd_env \<Rightarrow> UpdaterConfig \<Rightarrow> StableManifest \<Rightarrow> bytes \<Rightarrow> bytes \<Rightarrow> BootState \<Rightarrow> string \<Rightarrow> unit upd" where
  "downloadToSlot e cfg manifest manifestData releasePub bs slot =
     (let imagePath = VersionPath (sm_Latest manifest) in
      case ue_image e manifestData of None \<Rightarrow> failS ErrNoImagePayload
      | Some payload \<Rightarrow>
          if ip_RootHash payload = [] \<or> ip_Path payload = [] then failS ErrNoImagePayload
          else if ip_Path payload \<noteq> imagePath then failS ErrHashMismatch
          else case SlotDir slot of Inl er \<Rightarrow> failS (ErrUpdateSlot er)
          | Inr slotDir \<Rightarrow>
              bindS (Fetch e cfg imagePath) (\<lambda>(img, whole).
              bindS (upIO e) (\<lambda>_.
              if \<not> whole then failS ErrFetchBody
              else bindS (upIO e) (\<lambda>_. bindS (upIO e) (\<lambda>_. bindS (upIO e) (\<lambda>_.
                     verifyAndStage e cfg (sm_Latest manifest) payload releasePub bs slot img))))))"

definition rebootPrompt :: "UpdaterConfig \<Rightarrow> unit upd" where
  "rebootPrompt cfg u = (Inr (), if uc_RebootPrompt cfg then u\<lparr>up_prompts := up_prompts u + 1\<rparr> else u)"

definition CheckAndUpdate :: "upd_env \<Rightarrow> UpdaterConfig \<Rightarrow> unit upd" where
  "CheckAndUpdate e cfg =
     bindS (certifiedReleaseKey e cfg) (\<lambda>(releasePub, floor).
     bindS (fetchManifest e cfg releasePub floor) (\<lambda>(manifest, manifestData).
       if sm_Latest manifest = uc_RunningVersion cfg then failS ErrAlreadyUpToDate
       else bindS (onSlots (Load (ue_boot e))) (\<lambda>bs.
         case InactiveSlot bs of Inl er \<Rightarrow> failS (ErrUpdateSlot er)
         | Inr inactive \<Rightarrow>
             bindS (downloadToSlot e cfg manifest manifestData releasePub bs inactive) (\<lambda>_.
             bindS (onSlots (SetPending (ue_boot e) bs inactive)) (\<lambda>_. rebootPrompt cfg)))))"

text \<open>The log text of an error is left open: \<open>errText\<close>.\<close>

definition runOnce :: "upd_env \<Rightarrow> (up_error \<Rightarrow> string) \<Rightarrow> UpdaterConfig \<Rightarrow> up_state \<Rightarrow> up_state" where
  "runOnce e errText cfg u0 = (let (r, u) = CheckAndUpdate e cfg u0; now = ue_clock e (ios (up_disk u)) in
     case up_status u of None \<Rightarrow> u
     | Some st \<Rightarrow> tickU (u\<lparr>up_status := Some (case r of
           Inr _ \<Rightarrow> RecordSuccess now (up_lastLatest u) st
         | Inl er \<Rightarrow> if er = ErrAlreadyUpToDate then RecordSuccess now [] st else RecordError now (errText er) st)\<rparr>))"

end
