(* ===== verification/Os_Verify.thy ===== *)
theory Os_Verify
  imports Os_Update
begin

text \<open>
  The two ends of the signature chain. The offline signer (\<open>backend/cmd/sign/pki.go\<close>) and
  the boot-pipe manifest (\<open>services/osdist/bootpipe.go\<close>) on one side; on the other the boot
  gate: \<open>backend/cmd/verify/verifier.go\<close>, the dm-verity binding
  (\<open>backend/cmd/init/verity_bind.go\<close>) and init's \<open>verifyOSBeforeBoot\<close>. The files they read
  are given by their contents, \<open>None\<close> when they cannot be read.
\<close>

subsection \<open>The signer\<close>

record ManifestPayload =
  mp_Channel :: string
  mp_Latest :: string
  mp_MinEpoch :: int
  mp_Path :: string
  mp_ReleasedAt :: string
  mp_RootHash :: string
  mp_Size :: int
  mp_IsSecurity :: bool
  mp_Severity :: string
  mp_Notes :: string

definition json_payload :: "ManifestPayload \<Rightarrow> json" where
  "json_payload m = JObj ([(''channel'', JStr (mp_Channel m)), (''latest'', JStr (mp_Latest m)), (''min_epoch'', JNum (FormatInt (mp_MinEpoch m))),
     (''path'', JStr (mp_Path m)), (''released_at'', JStr (mp_ReleasedAt m)), (''roothash'', JStr (mp_RootHash m)), (''size'', JNum (FormatInt (mp_Size m)))]
     @ omitempty (\<not> mp_IsSecurity m) ''is_security'' (JBool (mp_IsSecurity m)) @ omitempty (mp_Severity m = []) ''severity'' (JStr (mp_Severity m))
     @ omitempty (mp_Notes m = []) ''notes'' (JStr (mp_Notes m)))"

datatype pki_error = ErrReleasePriv | ErrSignSurface up_error

definition SignImage :: "sign_env \<Rightarrow> bytes \<Rightarrow> string \<Rightarrow> ImagePayload \<Rightarrow> pki_error + Signature" where
  "SignImage e releasePriv keyID payload =
     (if length releasePriv \<noteq> 64 then Inl ErrReleasePriv
      else Inr \<lparr>sg_Algorithm = AlgorithmID, sg_KeyID = keyID, sg_SigBytes = Sign_sig e releasePriv (Canonical (json_image payload))\<rparr>)"

definition SignManifest :: "sign_env \<Rightarrow> bytes \<Rightarrow> string \<Rightarrow> ManifestPayload \<Rightarrow> pki_error + Signature" where
  "SignManifest e releasePriv keyID payload =
     (if length releasePriv \<noteq> 64 then Inl ErrReleasePriv
      else case ValidateSecuritySurface (mp_IsSecurity payload) (mp_Severity payload) (mp_Notes payload) of Some er \<Rightarrow> Inl (ErrSignSurface er)
      | None \<Rightarrow> Inr \<lparr>sg_Algorithm = AlgorithmID, sg_KeyID = keyID, sg_SigBytes = Sign_sig e releasePriv (Canonical (json_payload payload))\<rparr>)"

definition VerifyImage :: "sign_env \<Rightarrow> bytes \<Rightarrow> ImagePayload \<Rightarrow> Signature \<Rightarrow> bool" where
  "VerifyImage e releasePub payload sig = Verify_sig e releasePub (Canonical (json_image payload)) (sg_SigBytes sig)"

definition VerifyManifest :: "sign_env \<Rightarrow> bytes \<Rightarrow> ManifestPayload \<Rightarrow> Signature \<Rightarrow> bool" where
  "VerifyManifest e releasePub payload sig = Verify_sig e releasePub (Canonical (json_payload payload)) (sg_SigBytes sig)"

subsection \<open>The boot pipe\<close>

record ArtifactEntry =
  ae_Name :: string
  ae_URL :: string
  ae_SigURL :: string
  ae_Algorithm :: string

record BootPipeManifest =
  bp_Version :: int
  bp_Channel :: string
  bp_Artifacts :: "ArtifactEntry list"

datatype pipe_error = ErrBootPipeMalformed | ErrBootPipeBadSignature

definition json_artifact :: "ArtifactEntry \<Rightarrow> json" where
  "json_artifact a = JObj [(''name'', JStr (ae_Name a)), (''url'', JStr (ae_URL a)), (''sig_url'', JStr (ae_SigURL a)), (''algorithm'', JStr (ae_Algorithm a))]"

definition json_pipe :: "BootPipeManifest \<Rightarrow> json" where
  "json_pipe m = JObj [(''version'', JNum (FormatInt (bp_Version m))), (''channel'', JStr (bp_Channel m)), (''artifacts'', JArr (map json_artifact (bp_Artifacts m)))]"

fun validateArtifacts :: "string list \<Rightarrow> ArtifactEntry list \<Rightarrow> bool" where
  "validateArtifacts seen [] = True"
| "validateArtifacts seen (a # as) =
     (if ae_Name a = [] then False
      else if ae_URL a = [] then False
      else if ae_SigURL a = [] then False
      else if ae_Algorithm a \<noteq> AlgorithmID then False
      else if ae_Name a \<in> set seen then False
      else validateArtifacts (ae_Name a # seen) as)"

definition validatePipe :: "BootPipeManifest \<Rightarrow> pipe_error option" where
  "validatePipe m =
     (if bp_Version m \<noteq> 1 then Some ErrBootPipeMalformed
      else if bp_Channel m = [] then Some ErrBootPipeMalformed
      else if bp_Artifacts m = [] then Some ErrBootPipeMalformed
      else if \<not> validateArtifacts [] (bp_Artifacts m) then Some ErrBootPipeMalformed
      else None)"

definition SignBootPipe :: "sign_env \<Rightarrow> BootPipeManifest \<Rightarrow> bytes \<Rightarrow> pipe_error + bytes" where
  "SignBootPipe e m priv = (case validatePipe m of Some er \<Rightarrow> Inl er | None \<Rightarrow> Inr (Sign_sig e priv (Canonical (json_pipe m))))"

definition ParseAndVerifyBootPipe :: "sign_env \<Rightarrow> (bytes \<Rightarrow> BootPipeManifest option) \<Rightarrow> bytes \<Rightarrow> bytes \<Rightarrow> bytes \<Rightarrow> pipe_error + BootPipeManifest" where
  "ParseAndVerifyBootPipe e unmarshal data sig anchorPub =
     (case unmarshal data of None \<Rightarrow> Inl ErrBootPipeMalformed
      | Some m \<Rightarrow> (case validatePipe m of Some er \<Rightarrow> Inl er
          | None \<Rightarrow> if \<not> Verify_sig e anchorPub (Canonical (json_pipe m)) sig then Inl ErrBootPipeBadSignature else Inr m))"

subsection \<open>The verifier\<close>

datatype bind_error = ErrNoVerityDevice | ErrVerityStatus | ErrRootHashDiffers

datatype verify_error = ErrVerifyKey | ErrVerifyRead | ErrVerifySig sign_error | ErrVerifyCert sign_error | ErrVerifyFloor | ErrVerifyRecord sign_error
  | ErrVerifyImage | ErrNoRootHash | ErrNoBinder | ErrVerifyBind bind_error

definition VerifyStageFile :: "sign_env \<Rightarrow> bytes \<Rightarrow> bytes option \<Rightarrow> bytes option \<Rightarrow> verify_error option" where
  "VerifyStageFile e releasePub stageFile sigFile =
     (if length releasePub \<noteq> 32 then Some ErrVerifyKey
      else case stageFile of None \<Rightarrow> Some ErrVerifyRead
      | Some payload \<Rightarrow> (case sigFile of None \<Rightarrow> Some ErrVerifyRead
          | Some sigData \<Rightarrow> (case ParseSig e sigData of Inl er \<Rightarrow> Some (ErrVerifySig er)
              | Inr parsed \<Rightarrow> if \<not> Verify_sig e releasePub payload (sg_SigBytes parsed) then Some ErrVerifyImage else None)))"

record SquashfsVerifyConfig =
  vc_Anchor :: "bytes option"
  vc_Cert :: "bytes option"
  vc_Sig :: "bytes option"
  vc_ImagePayloadForSig :: ImagePayload
  vc_BindRootHash :: "(string \<Rightarrow> bind_error option) option"
  vc_EpochFloor :: int

text \<open>
  The epoch store, when there is one, and the disk its floor is written to. \<open>now\<close> and \<open>now'\<close>
  are the two readings of the clock.
\<close>

type_synonym floor_state = "EpochStore option \<times> os_disk"

definition recordFloor :: "sign_env \<Rightarrow> bytes \<Rightarrow> ReleaseCert \<Rightarrow> int \<Rightarrow> floor_state \<Rightarrow> sign_error option \<times> floor_state" where
  "recordFloor e anchorPub cert now w = (case fst w of None \<Rightarrow> (None, w)
     | Some s \<Rightarrow> (case RaiseFromReleaseCert e anchorPub cert now s (snd w) of
         (Inl er, s', d) \<Rightarrow> (Some er, Some s', d) | (Inr _, s', d) \<Rightarrow> (None, Some s', d)))"

definition verifyImageSig :: "sign_env \<Rightarrow> SquashfsVerifyConfig \<Rightarrow> ReleaseCert \<Rightarrow> verify_error option" where
  "verifyImageSig e cfg cert = (case DecodePubKey cert of Inl er \<Rightarrow> Some (ErrVerifyCert er)
     | Inr releasePub \<Rightarrow> (case vc_Sig cfg of None \<Rightarrow> Some ErrVerifyRead
         | Some sigData \<Rightarrow> (case ParseSig e sigData of Inl er \<Rightarrow> Some (ErrVerifySig er)
             | Inr parsedSig \<Rightarrow>
                 if \<not> Verify_sig e releasePub (Canonical (json_image (vc_ImagePayloadForSig cfg))) (sg_SigBytes parsedSig) then Some ErrVerifyImage else None)))"

definition verifyManifestSignature :: "sign_env \<Rightarrow> SquashfsVerifyConfig \<Rightarrow> int \<Rightarrow> int \<Rightarrow> floor_state \<Rightarrow> verify_error option \<times> floor_state" where
  "verifyManifestSignature e cfg now now' w =
     (case LoadAnchor e (vc_Anchor cfg) of Inl er \<Rightarrow> (Some (ErrVerifySig er), w)
      | Inr anchorPub \<Rightarrow> (case vc_Cert cfg of None \<Rightarrow> (Some ErrVerifyRead, w)
          | Some certData \<Rightarrow> (case ParseReleaseCert e certData of Inl er \<Rightarrow> (Some (ErrVerifyCert er), w)
              | Inr cert \<Rightarrow> (case ValidateReleaseCertAt e anchorPub cert now of Some er \<Rightarrow> (Some (ErrVerifyCert er), w)
                  | None \<Rightarrow>
                      if rc_MinEpoch cert < (case fst w of None \<Rightarrow> vc_EpochFloor cfg | Some s \<Rightarrow> es_current s) then (Some ErrVerifyFloor, w)
                      else (case recordFloor e anchorPub cert now' w of
                              (Some er, w') \<Rightarrow> (Some (ErrVerifyRecord er), w')
                            | (None, w') \<Rightarrow> (verifyImageSig e cfg cert, w'))))))"

definition VerifySquashfsBeforePivot :: "sign_env \<Rightarrow> SquashfsVerifyConfig \<Rightarrow> int \<Rightarrow> int \<Rightarrow> floor_state \<Rightarrow> verify_error option \<times> floor_state" where
  "VerifySquashfsBeforePivot e cfg now now' w0 = (case verifyManifestSignature e cfg now now' w0 of
       (Some er, w) \<Rightarrow> (Some er, w)
     | (None, w) \<Rightarrow>
         if ip_RootHash (vc_ImagePayloadForSig cfg) = [] then (Some ErrNoRootHash, w)
         else case vc_BindRootHash cfg of None \<Rightarrow> (Some ErrNoBinder, w)
         | Some bnd \<Rightarrow> (map_option ErrVerifyBind (bnd (ip_RootHash (vc_ImagePayloadForSig cfg))), w))"

subsection \<open>Binding to the running root\<close>

definition rootHashLine :: string where
  "rootHashLine = ''root hash:''"

fun parseLines :: "string list \<Rightarrow> string option" where
  "parseLines [] = None"
| "parseLines (line # rest) = (let f = TrimSpace line in
     if \<not> HasPrefix f rootHashLine then parseLines rest
     else let h = ToLower (TrimSpace (drop (length rootHashLine) f)) in
       if h = [] then None
       else if dropWhile (\<lambda>c. c \<in> set ''0123456789abcdef'') h \<noteq> [] then None
       else Some h)"

definition parseVeritysetupRootHash :: "string \<Rightarrow> string option" where
  "parseVeritysetupRootHash out = parseLines (splitLines out)"

text \<open>Whether the device node exists, and the output of \<open>veritysetup status\<close> if it succeeds.\<close>

record verity_probe =
  vp_device :: bool
  vp_status :: "string option"

definition activeVerityRootHash :: "verity_probe \<Rightarrow> bind_error + string" where
  "activeVerityRootHash p =
     (if \<not> vp_device p then Inl ErrNoVerityDevice
      else case vp_status p of None \<Rightarrow> Inl ErrVerityStatus
      | Some out \<Rightarrow> (case parseVeritysetupRootHash out of None \<Rightarrow> Inl ErrVerityStatus | Some h \<Rightarrow> Inr h))"

definition activeVerityBinder :: "verity_probe \<Rightarrow> string \<Rightarrow> bind_error option" where
  "activeVerityBinder p signedRootHash = (case activeVerityRootHash p of Inl er \<Rightarrow> Some er
     | Inr active \<Rightarrow> if ToLower (TrimSpace signedRootHash) \<noteq> active then Some ErrRootHashDiffers else None)"

subsection \<open>The boot gate\<close>

datatype boot_outcome = Halt | SignatureOnly | Verified

definition isLiveBoot :: "bytes option \<Rightarrow> bool" where
  "isLiveBoot cmdline = (case cmdline of None \<Rightarrow> False | Some data \<Rightarrow> Contains data ''vulos.live=1'')"

record boot_files =
  bf_manifest :: "bytes option"
  bf_manifestSig :: "bytes option"
  bf_releaseCert :: "bytes option"
  bf_anchor :: "bytes option"

text \<open>The four clock readings are those of the two calls of the verifier.\<close>

definition verifyOSBeforeBoot :: "upd_env \<Rightarrow> boot_files \<Rightarrow> verity_probe \<Rightarrow> (nat \<Rightarrow> int) \<Rightarrow> os_disk \<Rightarrow> boot_outcome \<times> os_disk" where
  "verifyOSBeforeBoot e f p clock d0 =
     (case bf_manifest f of None \<Rightarrow> (Halt, d0)
      | Some manifestData \<Rightarrow> (case ue_image e manifestData of None \<Rightarrow> (Halt, d0)
          | Some payload \<Rightarrow>
              if ip_RootHash payload = [] \<or> ip_Path payload = [] then (Halt, d0)
              else (case NewEpochStore (ue_sign e) d0 of (Inl _, d1) \<Rightarrow> (Halt, d1)
                | (Inr epochStore, d1) \<Rightarrow>
                    (let cfg = \<lparr>vc_Anchor = bf_anchor f, vc_Cert = bf_releaseCert f, vc_Sig = bf_manifestSig f, vc_ImagePayloadForSig = payload,
                                vc_BindRootHash = Some (activeVerityBinder p), vc_EpochFloor = 0\<rparr>
                     in case VerifySquashfsBeforePivot (ue_sign e) cfg (clock 0) (clock 1) (Some epochStore, d1) of
                          (None, w) \<Rightarrow> (Verified, snd w)
                        | (Some er, w) \<Rightarrow>
                            if er \<noteq> ErrVerifyBind ErrNoVerityDevice then (Halt, snd w)
                            else (case verifyManifestSignature (ue_sign e) cfg (clock 2) (clock 3) w of
                                    (Some _, w') \<Rightarrow> (Halt, snd w') | (None, w') \<Rightarrow> (SignatureOnly, snd w'))))))"

end
