(* ===== verification/Ota.thy ===== *)
theory Ota
  imports Os_Verify
begin

text \<open>
  The update client the server runs (\<open>backend/services/ota/ota.go\<close>): one channel URL, a check
  that authenticates the manifest and remembers it, and staging of the image it describes. The
  disk, the epoch floor and the counter of outside calls are those of the updater
  (\<open>up_state\<close>); the client adds its status and the last verified manifest with the key that
  signed it. \<open>json.Unmarshal\<close> into a map of raw values and into the signed payload are further
  parameters; the server's mutexes make each assignment block one step. The manifest struct
  has the fields of \<open>StableManifest\<close>. The human-readable \<open>Message\<close> of a stage result and the
  source and type tags of a notification are left out.
\<close>

record OtaStatus =
  os_Available :: bool
  os_CurrentVersion :: string
  os_LatestVersion :: string
  os_IsSecurity :: bool
  os_Severity :: string
  os_Notes :: string
  os_PublishedAt :: "string option"
  os_ChannelURL :: string
  os_CheckedAt :: "int option"
  os_LastError :: string

datatype ota_error = ErrUpdatesDisabled | ErrAnchorUnavailable | ErrCertInvalid | ErrEpochRejected | ErrOtaFetch | ErrOtaMalformed | ErrManifestBadSignature
  | ErrStagingNotConfigured | ErrOtaUpToDate | ErrNoVerifiedManifest | ErrNotImageInstall | ErrOtaSlot slot_error | ErrOtaUpdate up_error | ErrOtaSig sign_error

text \<open>\<open>zeroTime\<close> is the text a zero \<open>time.Time\<close> is encoded as; \<open>errText\<close> is \<open>err.Error()\<close>.\<close>

record ota_env =
  oe_upd :: upd_env
  oe_keys :: "bytes \<Rightarrow> string list option"
  oe_payload :: "bytes \<Rightarrow> ManifestPayload option"
  oe_zeroTime :: string
  oe_errText :: "ota_error \<Rightarrow> string"

record OtaClient =
  oc_channelURL :: string
  oc_anchorPath :: string
  oc_ReleaseCertPath :: string
  oc_SlotManager :: bool
  oc_RunningVersion :: string

record ota_state =
  ot_up :: up_state
  ot_store :: EpochStore
  ot_status :: OtaStatus
  ot_manifest :: "StableManifest option"
  ot_manifestData :: bytes
  ot_releaseKey :: "bytes option"

type_synonym 'a ota = "(ota_state, ota_error, 'a) comp"

definition DefaultChannelURL :: string where
  "DefaultChannelURL = []"

definition ResolveChannelURL :: "string \<Rightarrow> string \<Rightarrow> string" where
  "ResolveChannelURL envURL explicit =
     (let v = TrimRightSlash (TrimSpace explicit) in
      if v \<noteq> [] then v
      else let w = TrimRightSlash (TrimSpace envURL) in if w \<noteq> [] then w else DefaultChannelURL)"

record ClientConfig =
  cc_ChannelURL :: string
  cc_AnchorPath :: string
  cc_ReleaseCertPath :: string
  cc_EpochStore :: "EpochStore option"
  cc_SlotManager :: bool
  cc_RunningVersion :: string

definition DefaultAnchorPath :: string where
  "DefaultAnchorPath = ''/etc/vulos/trust-anchor.pub''"

definition DefaultReleaseCertPath :: string where
  "DefaultReleaseCertPath = ''/etc/vulos/release-cert.json''"

text \<open>The client and the state it starts in, on the disk \<open>u\<close> of the device.\<close>

definition NewClient :: "string \<Rightarrow> ClientConfig \<Rightarrow> up_state \<Rightarrow> (OtaClient \<times> ota_state) option" where
  "NewClient envURL cfg u =
     (case cc_EpochStore cfg of None \<Rightarrow> None
      | Some store \<Rightarrow>
          let c = \<lparr>oc_channelURL = ResolveChannelURL envURL (cc_ChannelURL cfg),
                   oc_anchorPath = (if cc_AnchorPath cfg = [] then DefaultAnchorPath else cc_AnchorPath cfg),
                   oc_ReleaseCertPath = (if cc_ReleaseCertPath cfg = [] then DefaultReleaseCertPath else cc_ReleaseCertPath cfg),
                   oc_SlotManager = cc_SlotManager cfg, oc_RunningVersion = cc_RunningVersion cfg\<rparr>;
              st = \<lparr>os_Available = False, os_CurrentVersion = cc_RunningVersion cfg, os_LatestVersion = [], os_IsSecurity = False, os_Severity = [], os_Notes = [],
                   os_PublishedAt = None, os_ChannelURL = oc_channelURL c, os_CheckedAt = None, os_LastError = []\<rparr>
          in Some (c, \<lparr>ot_up = u, ot_store = store, ot_status = st, ot_manifest = None, ot_manifestData = [], ot_releaseKey = None\<rparr>))"

definition Enabled :: "OtaClient \<Rightarrow> bool" where
  "Enabled c \<longleftrightarrow> oc_channelURL c \<noteq> []"

definition signedManifestKeys :: "string list" where
  "signedManifestKeys = [''channel'', ''latest'', ''min_epoch'', ''path'', ''released_at'', ''roothash'', ''size'', ''is_security'', ''severity'', ''notes'']"

definition canonicalSigned :: "ota_env \<Rightarrow> bytes \<Rightarrow> ota_error + bytes" where
  "canonicalSigned e data = (case oe_payload e data of None \<Rightarrow> Inl ErrOtaMalformed | Some p \<Rightarrow> Inr (Canonical (json_payload p)))"

definition parseManifest :: "ota_env \<Rightarrow> bytes \<Rightarrow> ota_error + StableManifest" where
  "parseManifest e data =
     (case oe_keys e data of None \<Rightarrow> Inl ErrOtaMalformed
      | Some ks \<Rightarrow>
          if list_ex (\<lambda>k. k \<notin> set signedManifestKeys) ks then Inl ErrOtaMalformed
          else case ue_manifest (oe_upd e) data of None \<Rightarrow> Inl ErrOtaMalformed
          | Some m \<Rightarrow>
              if sm_Channel m = [] \<or> sm_Latest m = [] \<or> sm_RootHash m = [] \<or> sm_Path m = [] then Inl ErrOtaMalformed
              else case ValidateSecuritySurface (sm_IsSecurity m) (sm_Severity m) (sm_Notes m) of Some _ \<Rightarrow> Inl ErrOtaMalformed | None \<Rightarrow> Inr m)"

subsection \<open>Fetching\<close>

definition onUp :: "(up_error \<Rightarrow> ota_error) \<Rightarrow> 'a upd \<Rightarrow> 'a ota" where
  "onUp er m s = (case m (ot_up s) of (Inl x, u) \<Rightarrow> (Inl (er x), s\<lparr>ot_up := u\<rparr>) | (Inr x, u) \<Rightarrow> (Inr x, s\<lparr>ot_up := u\<rparr>))"

definition fetchStream :: "ota_env \<Rightarrow> OtaClient \<Rightarrow> string \<Rightarrow> (bytes \<times> bool) upd" where
  "fetchStream e c relPath u =
     (case ue_get (oe_upd e) (ios (up_disk u)) (oc_channelURL c @ ''/'' @ dropWhile (\<lambda>x. x = CHR ''/'') relPath) of
        NoAnswer \<Rightarrow> (Inl ErrAllMirrorsFailed, tickU u)
      | Answer status body whole \<Rightarrow> if status \<noteq> 200 then (Inl ErrAllMirrorsFailed, tickU u) else (Inr (body, whole), tickU u))"

definition ota_fetch :: "ota_env \<Rightarrow> OtaClient \<Rightarrow> string \<Rightarrow> bytes upd" where
  "ota_fetch e c relPath = bindS (fetchStream e c relPath) (\<lambda>(body, whole). if whole then retS body else failS ErrFetchBody)"

definition otaCertBytes :: "ota_env \<Rightarrow> OtaClient \<Rightarrow> bytes upd" where
  "otaCertBytes e c u = (case ota_fetch e c ''release-cert.json'' u of
       (Inr data, u') \<Rightarrow> (Inr data, u')
     | (Inl _, u') \<Rightarrow> (case ue_read (oe_upd e) (oc_ReleaseCertPath c) of None \<Rightarrow> (Inl ErrReleaseCertMissing, u') | Some local \<Rightarrow> (Inr local, u')))"

subsection \<open>Check\<close>

definition otaNow :: "ota_env \<Rightarrow> int ota" where
  "otaNow e = onUp ErrOtaUpdate (upNow (oe_upd e))"

definition acceptEpoch :: "int \<Rightarrow> unit ota" where
  "acceptEpoch n s = (case AcceptEpoch (ot_store s) n of Some _ \<Rightarrow> (Inl ErrEpochRejected, s) | None \<Rightarrow> (Inr (), s))"

definition otaRaise :: "ota_env \<Rightarrow> bytes \<Rightarrow> ReleaseCert \<Rightarrow> int \<Rightarrow> unit ota" where
  "otaRaise e anchorPub cert now s =
     (case RaiseFromReleaseCert (ue_sign (oe_upd e)) anchorPub cert now (ot_store s) (up_disk (ot_up s)) of
        (Inl _, es, d) \<Rightarrow> (Inl ErrCertInvalid, s\<lparr>ot_store := es, ot_up := (ot_up s)\<lparr>up_disk := d\<rparr>\<rparr>)
      | (Inr _, es, d) \<Rightarrow> (Inr (), s\<lparr>ot_store := es, ot_up := (ot_up s)\<lparr>up_disk := d\<rparr>\<rparr>))"

definition trustedKey :: "ota_env \<Rightarrow> OtaClient \<Rightarrow> bytes ota" where
  "trustedKey e c =
     (case LoadAnchor (ue_sign (oe_upd e)) (ue_read (oe_upd e) (oc_anchorPath c)) of Inl _ \<Rightarrow> failS ErrAnchorUnavailable
      | Inr anchorPub \<Rightarrow>
          bindS (onUp (\<lambda>_. ErrCertInvalid) (otaCertBytes e c)) (\<lambda>certData.
            case ParseReleaseCert (ue_sign (oe_upd e)) certData of Inl _ \<Rightarrow> failS ErrCertInvalid
            | Inr cert \<Rightarrow> bindS (otaNow e) (\<lambda>now.
                case ReleaseKeyFromCert (ue_sign (oe_upd e)) anchorPub cert now of Inl _ \<Rightarrow> failS ErrCertInvalid
                | Inr releasePub \<Rightarrow>
                    bindS (acceptEpoch (rc_MinEpoch cert)) (\<lambda>_.
                    bindS (otaNow e) (\<lambda>now'.
                    bindS (otaRaise e anchorPub cert now') (\<lambda>_. retS releasePub))))))"

definition verifiedChannel :: "ota_env \<Rightarrow> OtaClient \<Rightarrow> bytes \<Rightarrow> (StableManifest \<times> bytes) ota" where
  "verifiedChannel e c releasePub =
     bindS (onUp (\<lambda>_. ErrOtaFetch) (ota_fetch e c ''stable.json'')) (\<lambda>manifestData.
     bindS (onUp (\<lambda>_. ErrOtaFetch) (ota_fetch e c ''stable.json.sig'')) (\<lambda>sigData.
       case ParseSig (ue_sign (oe_upd e)) sigData of Inl _ \<Rightarrow> failS ErrOtaMalformed
       | Inr detachedSig \<Rightarrow>
           (case parseManifest e manifestData of Inl er \<Rightarrow> failS er
            | Inr manifest \<Rightarrow>
                (case canonicalSigned e manifestData of Inl er \<Rightarrow> failS er
                 | Inr canonical \<Rightarrow>
                     if \<not> Verify_sig (ue_sign (oe_upd e)) releasePub canonical (sg_SigBytes detachedSig) then failS ErrManifestBadSignature
                     else bindS (acceptEpoch (sm_MinEpoch manifest)) (\<lambda>_. retS (manifest, manifestData))))))"

definition statusOf :: "ota_env \<Rightarrow> OtaClient \<Rightarrow> StableManifest \<Rightarrow> int \<Rightarrow> OtaStatus" where
  "statusOf e c manifest now =
     (let base = \<lparr>os_Available = (sm_Latest manifest \<noteq> oc_RunningVersion c), os_CurrentVersion = oc_RunningVersion c, os_LatestVersion = [], os_IsSecurity = False,
                  os_Severity = [], os_Notes = [], os_PublishedAt = None, os_ChannelURL = oc_channelURL c, os_CheckedAt = Some now, os_LastError = []\<rparr>
      in if os_Available base
         then base\<lparr>os_LatestVersion := sm_Latest manifest, os_IsSecurity := sm_IsSecurity manifest, os_Severity := sm_Severity manifest, os_Notes := sm_Notes manifest,
                   os_PublishedAt := (if sm_ReleasedAt manifest = oe_zeroTime e then None else Some (sm_ReleasedAt manifest))\<rparr>
         else base)"

definition recordVerified :: "ota_env \<Rightarrow> OtaClient \<Rightarrow> bytes \<Rightarrow> StableManifest \<times> bytes \<Rightarrow> int \<Rightarrow> OtaStatus ota" where
  "recordVerified e c releasePub md now s =
     (Inr (statusOf e c (fst md) now),
      s\<lparr>ot_status := statusOf e c (fst md) now, ot_manifest := Some (fst md), ot_manifestData := snd md, ot_releaseKey := Some releasePub\<rparr>)"

definition recordFailure :: "ota_env \<Rightarrow> ota_error \<Rightarrow> ota_state \<Rightarrow> ota_state" where
  "recordFailure e er s =
     s\<lparr>ot_status := (ot_status s)\<lparr>os_LastError := oe_errText e er, os_CheckedAt := Some (ue_clock (oe_upd e) (ios (up_disk (ot_up s))))\<rparr>, ot_up := tickU (ot_up s)\<rparr>"

definition checkBody :: "ota_env \<Rightarrow> OtaClient \<Rightarrow> OtaStatus ota" where
  "checkBody e c =
     (if oc_channelURL c = [] then failS ErrUpdatesDisabled
      else bindS (trustedKey e c) (\<lambda>releasePub.
           bindS (verifiedChannel e c releasePub) (\<lambda>md.
           bindS (otaNow e) (\<lambda>now. recordVerified e c releasePub md now))))"

definition Check :: "ota_env \<Rightarrow> OtaClient \<Rightarrow> OtaStatus ota" where
  "Check e c s = (case checkBody e c s of (Inl er, s') \<Rightarrow> (Inl er, recordFailure e er s') | (Inr st, s') \<Rightarrow> (Inr st, s'))"

subsection \<open>Stage\<close>

record StageResult =
  sr_Staged :: bool
  sr_Slot :: string
  sr_Version :: string

definition TrimSuffix :: "string \<Rightarrow> string \<Rightarrow> string" where
  "TrimSuffix s suf = (if length suf \<le> length s \<and> drop (length s - length suf) s = suf then take (length s - length suf) s else s)"

definition hashtreePathFor :: "string \<Rightarrow> string" where
  "hashtreePathFor imagePath = TrimSuffix imagePath ''.squashfs'' @ ''.hashtree''"

definition otaBindByVerity :: "ota_env \<Rightarrow> OtaClient \<Rightarrow> bytes \<Rightarrow> string \<Rightarrow> string \<Rightarrow> unit upd" where
  "otaBindByVerity e c img hashtreeRelPath rootHash u = (case ota_fetch e c hashtreeRelPath u of
       (Inl _, u') \<Rightarrow> (Inl ErrVerityUnavailable, u')
     | (Inr hashtree, u') \<Rightarrow>
         bindS (upIO (oe_upd e)) (\<lambda>_. bindS (upIO (oe_upd e)) (\<lambda>_. bindS (upIO (oe_upd e)) (\<lambda>_.
           case verityVerifyWithTool (ue_verity (oe_upd e) img hashtree (ToLower (TrimSpace rootHash))) of Some er \<Rightarrow> failS er | None \<Rightarrow> retS ()))) u')"

definition otaVerifyAndStage :: "ota_env \<Rightarrow> OtaClient \<Rightarrow> string \<Rightarrow> ImagePayload \<Rightarrow> bytes \<Rightarrow> BootState \<Rightarrow> string \<Rightarrow> bytes \<Rightarrow> unit upd" where
  "otaVerifyAndStage e c path payload releasePub bs slot img =
     bindS (ota_fetch e c (path @ ''.sig'')) (\<lambda>imgSigData.
       case ParseSig (ue_sign (oe_upd e)) imgSigData of Inl er \<Rightarrow> failS (ErrUpdateSig er)
       | Inr imgSig \<Rightarrow>
           if \<not> Verify_sig (ue_sign (oe_upd e)) releasePub (Canonical (json_image payload)) (sg_SigBytes imgSig) then failS ErrImageBadSignature
           else if int (length img) \<noteq> ip_Size payload then failS ErrHashMismatch
           else bindS (otaBindByVerity e c img (hashtreePathFor path) (ip_RootHash payload)) (\<lambda>_.
                bindS (upIO (oe_upd e)) (\<lambda>_. onSlots (StageInto (ue_boot (oe_upd e)) bs slot osCoreName img))))"

definition downloadAndVerify :: "ota_env \<Rightarrow> OtaClient \<Rightarrow> StableManifest \<Rightarrow> bytes \<Rightarrow> bytes \<Rightarrow> BootState \<Rightarrow> string \<Rightarrow> unit upd" where
  "downloadAndVerify e c manifest manifestData releasePub bs slot =
     (case ue_image (oe_upd e) manifestData of None \<Rightarrow> failS ErrNoImagePayload
      | Some payload \<Rightarrow>
          (case SlotDir slot of Inl er \<Rightarrow> failS (ErrUpdateSlot er)
           | Inr slotDir \<Rightarrow>
               bindS (fetchStream e c (sm_Path manifest)) (\<lambda>(img, whole).
               bindS (upIO (oe_upd e)) (\<lambda>_.
               if \<not> whole then failS ErrFetchBody
               else bindS (upIO (oe_upd e)) (\<lambda>_. bindS (upIO (oe_upd e)) (\<lambda>_. bindS (upIO (oe_upd e)) (\<lambda>_.
                      otaVerifyAndStage e c (sm_Path manifest) payload releasePub bs slot img)))))))"

definition verifiedFields :: "(StableManifest \<times> bytes \<times> bytes) ota" where
  "verifiedFields s = (case (ot_manifest s, ot_releaseKey s) of
       (Some m, Some k) \<Rightarrow> (if ot_manifestData s = [] then (Inl ErrNoVerifiedManifest, s) else (Inr (m, ot_manifestData s, k), s))
     | _ \<Rightarrow> (Inl ErrNoVerifiedManifest, s))"

definition Stage :: "ota_env \<Rightarrow> OtaClient \<Rightarrow> StageResult ota" where
  "Stage e c =
     (if \<not> oc_SlotManager c then failS ErrStagingNotConfigured
      else bindS (Check e c) (\<lambda>status.
        if \<not> os_Available status then failS ErrOtaUpToDate
        else bindS verifiedFields (\<lambda>(manifest, manifestData, releasePub).
             bindS (onUp (\<lambda>_. ErrNotImageInstall) (onSlots (Load (ue_boot (oe_upd e))))) (\<lambda>bs.
             case InactiveSlot bs of Inl er \<Rightarrow> failS (ErrOtaSlot er)
             | Inr inactive \<Rightarrow>
                 bindS (onUp ErrOtaUpdate (downloadAndVerify e c manifest manifestData releasePub bs inactive)) (\<lambda>_.
                 bindS (onUp ErrOtaUpdate (onSlots (SetPending (ue_boot (oe_upd e)) bs inactive))) (\<lambda>_.
                 retS \<lparr>sr_Staged = True, sr_Slot = inactive, sr_Version = sm_Latest manifest\<rparr>))))))"

subsection \<open>The server around it\<close>

text \<open>
  \<open>cmd/server/routes_ota.go\<close>: the callback of the poll loop, which notifies the owner of a
  new security version, and the two routes. The notification service is a list of what it was
  given; \<open>owner\<close> is what \<open>AdminUserID\<close> returns at that moment, empty for none; the
  administrator check and the step-up of a request are booleans.
\<close>

record Notification =
  nt_Title :: string
  nt_Body :: string
  nt_Level :: string
  nt_Priority :: string
  nt_UserID :: string

record ota_server =
  sv_client :: ota_state
  sv_lastNotified :: string
  sv_sent :: "Notification list"

definition securityNotice :: "OtaStatus \<Rightarrow> string \<Rightarrow> Notification" where
  "securityNotice status owner =
     \<lparr>nt_Title = ''Security update available'',
      nt_Body = (if os_Notes status \<noteq> [] then ''Security update '' @ os_LatestVersion status @ '': '' @ os_Notes status
                 else ''Security update '' @ os_LatestVersion status @ '' is available for your Vulos box. Review and stage it from Settings '' @ map char_of [226, 134, 146 :: nat] @ '' OS Update.''),
      nt_Level = ''urgent'', nt_Priority = ''high'', nt_UserID = owner\<rparr>"

definition onSecurityCheck :: "bool \<Rightarrow> string \<Rightarrow> OtaStatus \<Rightarrow> ota_server \<Rightarrow> ota_server" where
  "onSecurityCheck notifySvc owner status sv =
     (if \<not> os_Available status \<or> \<not> os_IsSecurity status \<or> os_LatestVersion status = [] then sv
      else if os_LatestVersion status = sv_lastNotified sv then sv
      else let sv1 = sv\<lparr>sv_lastNotified := os_LatestVersion status\<rparr> in
           if \<not> notifySvc then sv1
           else if owner = [] then sv1
           else sv1\<lparr>sv_sent := sv_sent sv1 @ [securityNotice status owner]\<rparr>)"

text \<open>One turn of the poll loop: \<open>Check\<close> returns the status it recorded, also when it failed.\<close>

definition pollOnce :: "ota_env \<Rightarrow> OtaClient \<Rightarrow> bool \<Rightarrow> string \<Rightarrow> ota_server \<Rightarrow> ota_server" where
  "pollOnce e c notifySvc owner sv =
     (let s' = snd (Check e c (sv_client sv)) in onSecurityCheck notifySvc owner (ot_status s') (sv\<lparr>sv_client := s'\<rparr>))"

fun otaStageStatus :: "ota_error \<Rightarrow> nat" where
  "otaStageStatus ErrOtaUpToDate = 409"
| "otaStageStatus ErrNotImageInstall = 409"
| "otaStageStatus ErrStagingNotConfigured = 503"
| "otaStageStatus ErrUpdatesDisabled = 503"
| "otaStageStatus _ = 502"

definition handleOtaStatus :: "bool \<Rightarrow> ota_server \<Rightarrow> nat + OtaStatus" where
  "handleOtaStatus isAdmin sv = (if \<not> isAdmin then Inl 403 else Inr (ot_status (sv_client sv)))"

definition handleOtaStage :: "ota_env \<Rightarrow> OtaClient \<Rightarrow> bool \<Rightarrow> bool \<Rightarrow> ota_server \<Rightarrow> (nat + StageResult) \<times> ota_server" where
  "handleOtaStage e c isAdmin stepup sv =
     (if \<not> isAdmin then (Inl 403, sv)
      else if \<not> stepup then (Inl 403, sv)
      else case Stage e c (sv_client sv) of
             (Inl er, s') \<Rightarrow> (Inl (otaStageStatus er), sv\<lparr>sv_client := s'\<rparr>)
           | (Inr res, s') \<Rightarrow> (Inr res, sv\<lparr>sv_client := s'\<rparr>))"

text \<open>What the server does to the client: its poll loop and the stage route, in any order.\<close>

inductive ota_step :: "ota_env \<Rightarrow> OtaClient \<Rightarrow> ota_server \<Rightarrow> ota_server \<Rightarrow> bool" for e c where
  poll: "Enabled c \<Longrightarrow> ota_step e c sv (pollOnce e c notifySvc owner sv)"
| stage: "ota_step e c sv (snd (handleOtaStage e c isAdmin stepup sv))"

end
