(* ===== verification/Signing_Run.thy ===== *)
theory Signing_Run
  imports Signing
begin

text \<open>
  What the signing layer guarantees: canonical bytes stand for one value, signature files and
  issued certificates read back, and the persisted epoch floor of a device only rises, and
  only on the word of the root key. One device file opened twice breaks the last guarantee.
\<close>

subsection \<open>Canonical bytes\<close>

text \<open>
  Claim C37. A signature over canonical bytes authenticates one value: two JSON values (with
  valid UTF-8 strings, well-formed numbers and distinct keys) have the same canonical bytes
  exactly when they are equal up to the order of object keys.
\<close>

theorem canonical_bytes_unambiguous:
  assumes "wf_json ValidString v" "wf_json ValidString w"
  shows "Canonical v = Canonical w \<longleftrightarrow> sort_json v = sort_json w"
proof
  assume "Canonical v = Canonical w"
  then show "sort_json v = sort_json w" using go.enc_inj [OF assms] by (simp add: Canonical_def)
next
  assume "sort_json v = sort_json w"
  then show "Canonical v = Canonical w" using encode_sort_json unfolding Canonical_def by metis
qed

theorem canonical_bytes_unambiguous_witness:
  "Canonical (JObj [(''b'', JNum ''1''), (''a'', JStr ''x'')]) = Canonical (JObj [(''a'', JStr ''x''), (''b'', JNum ''1'')])
   \<and> Canonical (JObj [(''a'', JStr ''x''), (''b'', JNum ''1'')]) \<noteq> Canonical (JObj [(''a'', JStr ''x''), (''b'', JNum ''2'')])"
proof -
  have wf: "wf_json ValidString (JObj [(''b'', JNum ''1''), (''a'', JStr ''x'')])" "wf_json ValidString (JObj [(''a'', JStr ''x''), (''b'', JNum ''1'')])"
    "wf_json ValidString (JObj [(''a'', JStr ''x''), (''b'', JNum ''2'')])" by (simp_all add: ValidString_ascii is_num_def is_digit_def)
  have "sort_json (JObj [(''b'', JNum ''1''), (''a'', JStr ''x'')]) = sort_json (JObj [(''a'', JStr ''x''), (''b'', JNum ''1'')])"
    "sort_json (JObj [(''a'', JStr ''x''), (''b'', JNum ''1'')]) \<noteq> sort_json (JObj [(''a'', JStr ''x''), (''b'', JNum ''2'')])" by code_simp+
  then show ?thesis using canonical_bytes_unambiguous [OF wf(1,2)] canonical_bytes_unambiguous [OF wf(2,3)] by blast
qed

lemma FormatInt_num: "is_num (FormatInt i)"
proof -
  have "\<exists>c s. format_nat n = c # s \<and> is_digit c \<and> list_all is_digit s" for n
    using format_nat_digits(1,2) [of n] by (cases "format_nat n") auto
  then obtain c s c' s' where "format_nat (nat i) = c # s" "is_digit c" "list_all is_digit s"
    "format_nat (nat (- i)) = c' # s'" "is_digit c'" "list_all is_digit s'" by metis
  then show ?thesis by (auto simp: FormatInt_def is_num_def list_all_iff)
qed

lemma cert_bytes_inj:
  assumes "ValidString (cb_ReleasePubKey b)" "ValidString (cb_KeyID b)" "ValidString (cb_NotAfter b)"
    "ValidString (cb_ReleasePubKey b')" "ValidString (cb_KeyID b')" "ValidString (cb_NotAfter b')"
    and "Canonical (json_CertBody b) = Canonical (json_CertBody b')"
  shows "b = b'"
proof -
  have k: "ValidString ''release_pubkey''" "ValidString ''key_id''" "ValidString ''not_after''" "ValidString ''min_epoch''" by (simp_all add: ValidString_ascii)
  have "wf_json ValidString (json_CertBody b)" "wf_json ValidString (json_CertBody b')"
    using assms(1-6) k FormatInt_num by (simp_all add: json_CertBody_def)
  then have "sort_json (json_CertBody b) = sort_json (json_CertBody b')" using go.enc_inj assms(7) unfolding Canonical_def by blast
  then show ?thesis by (simp add: json_CertBody_def FormatInt_inj)
qed

subsection \<open>Signature files and certificates read back\<close>

text \<open>Base64 decodes what it encoded, and its alphabet has no white space.\<close>

definition b64_ok :: "sign_env \<Rightarrow> bool" where
  "b64_ok e \<longleftrightarrow> (\<forall>x. se_unb64 e (se_b64 e x) = Some x \<and> list_all (\<lambda>c. \<not> is_space c) (se_b64 e x))"

lemma splitLines_join: "CHR 0x0A \<notin> set a \<Longrightarrow> splitLines (a @ CHR 0x0A # b) = a # splitLines b"
  by (induction a) (auto split: list.splits)

lemma splitLines_one: "CHR 0x0A \<notin> set a \<Longrightarrow> splitLines a = [a]"
  by (induction a) (auto split: list.splits)

lemma trimRightNL_snoc: "last x \<noteq> CHR 0x0A \<Longrightarrow> x \<noteq> [] \<Longrightarrow> trimRightNL (x @ [CHR 0x0A]) = x"
  by (cases x rule: rev_cases) (simp_all add: trimRightNL_def)

lemma TrimSpace_plain: "list_all (\<lambda>c. \<not> is_space c) s \<Longrightarrow> TrimSpace s = s"
proof -
  assume a: "list_all (\<lambda>c. \<not> is_space c) s"
  have d: "dropWhile is_space t = t" if "list_all (\<lambda>c. \<not> is_space c) t" for t using that by (cases t) auto
  have "list_all (\<lambda>c. \<not> is_space c) (rev s)" using a by (simp add: list_all_iff)
  then show ?thesis using d [OF a] d [of "rev s"] by (simp add: TrimSpace_def)
qed

lemma TrimSpace_blank: "TrimSpace (CHR '' '' # s) = TrimSpace s"
  by (simp add: TrimSpace_def is_space_def)

lemma sigField_line: "CHR '':'' \<notin> set k \<Longrightarrow> TrimSpace k = k \<Longrightarrow> sigField (k @ '': '' @ v) m = m(k \<mapsto> TrimSpace v)"
  using SplitN2_join [of "CHR '':''" k "CHR '' '' # v"] by (simp add: sigField_def TrimSpace_blank)

text \<open>
  A signature file reads back with the same algorithm and signature bytes and with the key id
  without surrounding white space.
\<close>

lemma ParseSig_MarshalSig:
  assumes "b64_ok e" "MarshalSig e s = Inr out"
  shows "ParseSig e out = Inr (s\<lparr>sg_KeyID := TrimSpace (sg_KeyID s)\<rparr>)"
proof -
  let ?b = "se_b64 e (sg_SigBytes s)"
  have al: "sg_Algorithm s = ''ed25519''" and ln: "length (sg_SigBytes s) = 64" and nk: "CHR 0x0A \<notin> set (sg_KeyID s)"
    and out: "out = (''vulos-sig-v1'' @ CHR 0x0A # (''algorithm: ed25519'' @ CHR 0x0A # ((''key-id'' @ '': '' @ sg_KeyID s) @ CHR 0x0A # (''sig'' @ '': '' @ ?b)))) @ [CHR 0x0A]"
    using assms(2) by (auto simp: MarshalSig_def AlgorithmID_def sigFilePrefix_def list_ex_iff split: if_splits)
  have b: "se_unb64 e ?b = Some (sg_SigBytes s)" "list_all (\<lambda>c. \<not> is_space c) ?b" using assms(1) by (simp_all add: b64_ok_def)
  have nb: "CHR 0x0A \<notin> set ?b" using b(2) by (auto simp: list_all_iff is_space_def)
  have "last (''sig'' @ '': '' @ ?b) \<noteq> CHR 0x0A" using nb by (cases ?b rule: rev_cases) auto
  then have t: "trimRightNL out = ''vulos-sig-v1'' @ CHR 0x0A # (''algorithm: ed25519'' @ CHR 0x0A # ((''key-id'' @ '': '' @ sg_KeyID s) @ CHR 0x0A # (''sig'' @ '': '' @ ?b)))"
    unfolding out by (intro trimRightNL_snoc) (simp_all add: last_append)
  have l: "splitLines (trimRightNL out) = [''vulos-sig-v1'', ''algorithm: ed25519'', ''key-id'' @ '': '' @ sg_KeyID s, ''sig'' @ '': '' @ ?b]"
    unfolding t using nk nb by (subst splitLines_join, simp)+ (simp add: splitLines_one)
  have f: "fold sigField [''algorithm: ed25519'', ''key-id'' @ '': '' @ sg_KeyID s, ''sig'' @ '': '' @ ?b] Map.empty =
      [''algorithm'' \<mapsto> ''ed25519'', ''key-id'' \<mapsto> TrimSpace (sg_KeyID s), ''sig'' \<mapsto> ?b]"
  proof -
    have "sigField ''algorithm: ed25519'' Map.empty = [''algorithm'' \<mapsto> ''ed25519'']"
      using sigField_line [of "''algorithm''" "''ed25519''"] by (simp add: TrimSpace_plain is_space_def)
    moreover have "sigField (''key-id'' @ '': '' @ v) m = m(''key-id'' \<mapsto> TrimSpace v)" "sigField (''sig'' @ '': '' @ v) m = m(''sig'' \<mapsto> TrimSpace v)" for v m
      by (rule sigField_line; simp add: TrimSpace_plain is_space_def)+
    ultimately show ?thesis using TrimSpace_plain [OF b(2)] by (simp only: fold_simps)
  qed
  show ?thesis unfolding ParseSig_def l using b(1) ln al by (simp only: list.case f) (simp add: sigFilePrefix_def AlgorithmID_def)
qed

lemma hexVal_digit: "n < 16 \<Longrightarrow> hexVal (hex_digit n) = Some n"
  by (auto simp: hexVal_def hex_digit_def Let_def)

lemma char_nibbles: "of_char c div 16 < (16 :: nat)" "of_char c mod 16 < (16 :: nat)"
  using less_mult_imp_div_less [of "of_char c" 16 16] nat_of_char_less_256 [of c] by simp_all

lemma DecodeHex_Encode: "DecodeHex (EncodeToString bs) = Some bs"
proof (induction bs)
  case (Cons c bs)
  have h: "hexVal (hex_digit (of_char c div 16)) = Some (of_char c div 16)" "hexVal (hex_digit (of_char c mod 16)) = Some (of_char c mod 16)"
    by (simp_all add: hexVal_digit char_nibbles)
  have "EncodeToString (c # bs) = hex_digit (of_char c div 16) # hex_digit (of_char c mod 16) # EncodeToString bs" by (simp add: EncodeToString_def Let_def)
  then show ?case using Cons h by (simp add: mult_div_mod_eq)
qed (simp add: EncodeToString_def)

text \<open>\<open>priv\<close> and \<open>pub\<close> are a key pair: signatures made with one verify with the other.\<close>

definition key_pair :: "sign_env \<Rightarrow> bytes \<Rightarrow> bytes \<Rightarrow> bool" where
  "key_pair e priv pub \<longleftrightarrow> length pub = 32 \<and> (\<forall>msg. length (se_sign e priv msg) = 64 \<and> se_ed25519 e pub msg (se_sign e priv msg))"

text \<open>
  A certificate issued at the key ceremony works: on every device that pins the
  root public key it validates until its expiry and hands out exactly the certified release
  key, and after that it is refused. It relies on Ed25519 verifying what it signed, Base64 and
  RFC 3339 times reading back.
\<close>

theorem issued_cert_validates:
  assumes "b64_ok e" "key_pair e rootPriv rootPub" "\<forall>t. se_time e (se_rfc3339 e t) = Some t"
    and "IssueReleaseCert e rootPriv releasePub keyID notAfter minEpoch = Inr cert"
  shows "ReleaseKeyFromCert e rootPub cert now = (if now \<le> notAfter then Inr releasePub else Inl ErrCertExpired) \<and> rc_MinEpoch cert = minEpoch"
proof -
  have c: "length releasePub = 32" "\<not> minEpoch < 0" "rc_ReleasePubKey cert = EncodeToString releasePub" "rc_NotAfter cert = se_rfc3339 e notAfter" "rc_MinEpoch cert = minEpoch"
    "rc_RootSig cert = se_b64 e (se_sign e rootPriv (Canonical (json_CertBody (BodyOf cert))))"
    using assms(4) by (auto simp: IssueReleaseCert_def Let_def Sign_sig_def BodyOf_def split: if_splits)
  have v: "Verify_sig e rootPub m (se_sign e rootPriv m)" for m using assms(2) by (simp add: key_pair_def Verify_sig_def)
  have "ValidateReleaseCertAt e rootPub cert now = (if now \<le> notAfter then None else Some ErrCertExpired)"
    using assms(1-3) c v by (simp add: ValidateReleaseCertAt_def key_pair_def b64_ok_def)
  then show ?thesis using c by (simp add: ReleaseKeyFromCert_def DecodePubKey_def DecodeHex_Encode)
qed

subsection \<open>The epoch floor\<close>

definition epoch_ok :: "sign_env \<Rightarrow> bool" where
  "epoch_ok e \<longleftrightarrow> (\<forall>n. se_unepoch e (json_epoch n) = Some n)"

definition floor_on_disk :: "sign_env \<Rightarrow> 'z epoch_disk_scheme \<Rightarrow> int option" where
  "floor_on_disk e d = (case epoch_file d of None \<Rightarrow> None | Some raw \<Rightarrow> se_unepoch e raw)"

lemma io_file [simp]: "epoch_file (snd (io e d)) = epoch_file d"
  by (simp add: io_def)

lemma atomicWrite_cases:
  assumes "atomicWrite e f d = (r, d')"
  obtains (ok) n where "r = Inr ()" "d' = f (d\<lparr>ios := n\<rparr>)" | (failed) n er where "r = Inl er" "d' = d\<lparr>ios := n\<rparr>"
  using assms by (auto simp: atomicWrite_def bindS_def io_def split: if_splits)

lemma writeFloor_cases:
  assumes "writeFloor e n d = (r, d')"
  obtains (ok) "r = Inr ()" "epoch_file d' = Some (json_epoch n)" | (failed) er where "r = Inl er" "epoch_file d' = epoch_file d"
  using assms unfolding writeFloor_def by (cases rule: atomicWrite_cases) auto

lemma RaiseTo_cases:
  assumes "RaiseTo e n s d = (r, s', d')"
  obtains (raised) "es_current s < n" "r = Inr ()" "es_current s' = n" "epoch_file d' = Some (json_epoch n)"
  | (kept) "s' = s" "epoch_file d' = epoch_file d" "r = Inr () \<longrightarrow> n \<le> es_current s"
proof (cases "n \<le> es_current s")
  case False
  obtain r1 d1 where w: "writeFloor e n d = (r1, d1)" by fastforce
  then show thesis by (cases rule: writeFloor_cases) (use assms False w raised kept in \<open>auto simp: RaiseTo_def\<close>)
qed (use assms kept in \<open>auto simp: RaiseTo_def\<close>)

lemma NewEpochStore_floor:
  assumes "epoch_ok e" "NewEpochStore e d = (Inr s, d')"
  shows "floor_on_disk e d' = Some (es_current s)" "floor_on_disk e d = Some n \<Longrightarrow> es_current s = n"
proof -
  have "floor_on_disk e d' = Some (es_current s) \<and> (\<forall>n. floor_on_disk e d = Some n \<longrightarrow> es_current s = n)"
  proof (cases "epoch_file d")
    case None
    then obtain d2 where w: "writeFloor e 0 (d\<lparr>ios := ios d + 1\<rparr>) = (Inr (), d2)" "s = \<lparr>es_current = 0\<rparr>" "d' = d2"
      using assms(2) by (auto simp: NewEpochStore_def bindS_Inr retS_Inr io_def split: if_splits)
    from w(1) show ?thesis by (cases rule: writeFloor_cases) (use w None assms(1) in \<open>auto simp: floor_on_disk_def epoch_ok_def\<close>)
  next
    case (Some data)
    then show ?thesis using assms(2) by (auto simp: NewEpochStore_def bindS_Inr retS_Inr failS_Inr io_def floor_on_disk_def split: option.splits if_splits)
  qed
  then show "floor_on_disk e d' = Some (es_current s)" "floor_on_disk e d = Some n \<Longrightarrow> es_current s = n" by blast+
qed

text \<open>
  The life of a device's floor, one process at a time: the running process may be replaced by
  one that opens the file again (a crash or a reboot), and it acts on certificates and bump
  messages, good or bad, at any time, whatever I/O calls fail.
\<close>

inductive estep :: "sign_env \<Rightarrow> bytes \<Rightarrow> bytes option \<Rightarrow> EpochStore \<times> epoch_disk \<Rightarrow> EpochStore \<times> epoch_disk \<Rightarrow> bool" for e root anchorFile where
  reopen: "NewEpochStore e d = (Inr s', d') \<Longrightarrow> estep e root anchorFile (s, d) (s', d')"
| cert: "RaiseFromReleaseCert e root c now s d = (r, s', d') \<Longrightarrow> estep e root anchorFile (s, d) (s', d')"
| bump: "BumpFloor e anchorFile m sig s d = (r, s', d') \<Longrightarrow> estep e root anchorFile (s, d) (s', d')"

text \<open>The root key signed that epochs below \<open>n\<close> are retired.\<close>

definition root_said :: "sign_env \<Rightarrow> bytes \<Rightarrow> bytes option \<Rightarrow> int \<Rightarrow> bool" where
  "root_said e root anchorFile n \<longleftrightarrow>
     (\<exists>b sig. cb_MinEpoch b = n \<and> Verify_sig e root (Canonical (json_CertBody b)) sig)
     \<or> (\<exists>pub sig. LoadAnchor e anchorFile = Inr pub \<and> Verify_sig e pub (Canonical (json_EpochBump \<lparr>eb_Type = ''epoch-bump'', eb_NewFloor = n\<rparr>)) sig)"

lemma Validate_None:
  assumes "ValidateReleaseCertAt e rootPub c now = None"
  shows "\<exists>sig. Verify_sig e rootPub (Canonical (json_CertBody (BodyOf c))) sig" "0 \<le> rc_MinEpoch c" "\<exists>t. se_time e (rc_NotAfter c) = Some t \<and> now \<le> t"
  using assms by (auto simp: ValidateReleaseCertAt_def split: if_splits option.splits)

lemma estep_floor:
  assumes "epoch_ok e" "estep e root anchorFile (s, d) (s', d')" "floor_on_disk e d = Some (es_current s)"
  shows "floor_on_disk e d' = Some (es_current s') \<and> es_current s \<le> es_current s' \<and> (es_current s' = es_current s \<or> root_said e root anchorFile (es_current s'))"
  using assms(2)
proof cases
  case reopen
  then show ?thesis using NewEpochStore_floor [OF assms(1) reopen] assms(3) by auto
next
  case (cert c now r)
  show ?thesis
  proof (cases "ValidateReleaseCertAt e root c now")
    case None
    then have "RaiseTo e (rc_MinEpoch c) s d = (r, s', d')" using cert Validate_None(2) [OF None] by (simp add: RaiseFromReleaseCert_def)
    then show ?thesis
    proof (cases rule: RaiseTo_cases)
      case raised
      have "root_said e root anchorFile (es_current s')" unfolding root_said_def
        using Validate_None(1) [OF None] raised(3) by (intro disjI1 exI [of _ "BodyOf c"]) (simp add: BodyOf_def)
      then show ?thesis using raised assms(1) by (simp add: floor_on_disk_def epoch_ok_def)
    qed (use assms(3) in \<open>simp add: floor_on_disk_def\<close>)
  qed (use cert assms(3) in \<open>simp add: RaiseFromReleaseCert_def\<close>)
next
  case (bump m sig r)
  show ?thesis
  proof (cases "eb_Type m = ''epoch-bump'' \<and> VerifyWithAnchor e anchorFile (Canonical (json_EpochBump m)) sig = None")
    case True
    then have "RaiseTo e (eb_NewFloor m) s d = (r, s', d')" using bump by (simp add: BumpFloor_def)
    then show ?thesis
    proof (cases rule: RaiseTo_cases)
      case raised
      have "m = \<lparr>eb_Type = ''epoch-bump'', eb_NewFloor = es_current s'\<rparr>" using True raised(3) by simp
      then have "root_said e root anchorFile (es_current s')" unfolding root_said_def
        using True by (auto simp: VerifyWithAnchor_def split: if_splits sum.splits)
      then show ?thesis using raised assms(1) by (simp add: floor_on_disk_def epoch_ok_def)
    qed (use assms(3) in \<open>simp add: floor_on_disk_def\<close>)
  qed (use bump assms(3) in \<open>auto simp: BumpFloor_def split: if_splits option.splits\<close>)
qed

text \<open>
  Claim C21. With one process using the floor file at a time, a device's epoch floor never
  falls, across crashes, reboots, failing writes and any certificates or bump messages
  presented to it; the file always holds the floor in force; and a floor above the first one
  was signed by the root key. It relies on the JSON record reading back.
\<close>

theorem epoch_floor_only_rises:
  assumes "epoch_ok e" "NewEpochStore e d0 = (Inr s, d)" "(estep e root anchorFile)\<^sup>*\<^sup>* (s, d) (s', d')"
  shows "floor_on_disk e d' = Some (es_current s') \<and> es_current s \<le> es_current s' \<and> (es_current s' = es_current s \<or> root_said e root anchorFile (es_current s'))"
  using assms(3)
proof (induction rule: rtranclp_induct2)
  case refl
  show ?case using NewEpochStore_floor(1) [OF assms(1,2)] by simp
next
  case (step s1 d1 s2 d2)
  then show ?case using estep_floor [OF assms(1) step(2)] by auto
qed

text \<open>
  Two stores open on the same floor file lose a revocation: after one of them has
  raised the floor, the other, which still caches the old value, accepts a certificate below
  the new floor and writes that lower value over it.
\<close>

theorem two_stores_lower_floor:
  fixes d :: epoch_disk
  assumes "epoch_ok e" "\<forall>n. se_io e n" "es_current s1 = f" "es_current s2 = f" "f < rc_MinEpoch c2" "rc_MinEpoch c2 < rc_MinEpoch c1"
    and "ValidateReleaseCertAt e root c1 now = None" "ValidateReleaseCertAt e root c2 now' = None"
    and "RaiseFromReleaseCert e root c1 now s1 d = (r1, s1', d1)" "AcceptEpoch s2 (rc_MinEpoch c2) = a" "RaiseFromReleaseCert e root c2 now' s2 d1 = (r2, s2', d2)"
  shows "floor_on_disk e d1 = Some (rc_MinEpoch c1) \<and> a = None \<and> r2 = Inr () \<and> floor_on_disk e d2 = Some (rc_MinEpoch c2)"
proof -
  have w: "\<exists>d'. writeFloor e n d = (Inr (), d') \<and> floor_on_disk e d' = Some n" for n and d :: epoch_disk
    using assms(1,2) by (simp add: writeFloor_def atomicWrite_def bindS_def io_def floor_on_disk_def epoch_ok_def)
  have rt: "\<exists>s' d'. RaiseTo e n s d = (Inr (), s', d') \<and> floor_on_disk e d' = Some n" if "es_current s < n" for n s and d :: epoch_disk
    using that w [of n d] by (auto simp: RaiseTo_def)
  show ?thesis using assms(3-11) rt [of s1 "rc_MinEpoch c1" d] rt [of s2 "rc_MinEpoch c2" d1] Validate_None(2) [OF assms(7)] Validate_None(2) [OF assms(8)]
    by (auto simp: RaiseFromReleaseCert_def AcceptEpoch_def)
qed

subsection \<open>A concrete environment\<close>

definition exB64 :: "bytes \<Rightarrow> string" where
  "exB64 x = EncodeToString x"

definition exUnepoch :: "bytes \<Rightarrow> int option" where
  "exUnepoch s = (case butlast (drop 9 s) of [] \<Rightarrow> None | c # r \<Rightarrow> Some (if c = CHR ''-'' then - int (parse_digits r) else int (parse_digits (c # r))))"

definition exSign :: sign_env where
  "exSign = \<lparr>se_ed25519 = (\<lambda>pub msg sig. sig = replicate 64 CHR ''s''), se_sign = (\<lambda>priv msg. replicate 64 CHR ''s''), se_b64 = exB64, se_unb64 = DecodeHex,
     se_rfc3339 = FormatInt, se_time = (\<lambda>s. case s of [] \<Rightarrow> None | c # r \<Rightarrow> Some (if c = CHR ''-'' then - int (parse_digits r) else int (parse_digits (c # r)))),
     se_cert = (\<lambda>_. None), se_unepoch = exUnepoch, se_io = (\<lambda>_. True)\<rparr>"

lemma hex_digit_plain: "n < 16 \<Longrightarrow> \<not> is_space (hex_digit n)"
proof
  assume n: "n < 16" and "is_space (hex_digit n)"
  then have "of_char (hex_digit n) \<le> (32 :: nat)" by (auto simp: is_space_def)
  then show False using n by (simp add: hex_digit_def split: if_splits)
qed

lemma exSign_b64: "b64_ok exSign"
proof -
  have "list_all (\<lambda>c. \<not> is_space c) (EncodeToString x)" for x
  proof (induction x)
    case (Cons c x)
    then show ?case using hex_digit_plain char_nibbles by (simp add: EncodeToString_def Let_def)
  qed (simp add: EncodeToString_def)
  then show ?thesis by (simp add: b64_ok_def exSign_def exB64_def DecodeHex_Encode)
qed

lemma FormatInt_parse: "(case FormatInt i of [] \<Rightarrow> None | c # r \<Rightarrow> Some (if c = CHR ''-'' then - int (parse_digits r) else int (parse_digits (c # r)))) = Some i"
proof (cases "i < 0")
  case False
  obtain c r where f: "format_nat (nat i) = c # r" using format_nat_digits(2) [of "nat i"] by (cases "format_nat (nat i)") auto
  have "c \<noteq> CHR ''-''" using format_nat_digits(3) [of "nat i"] f by simp
  then show ?thesis using False f parse_format_nat [of "nat i"] by (simp add: FormatInt_def)
qed (simp add: FormatInt_def parse_format_nat)

lemma json_epoch_eq: "json_epoch n = CHR ''{'' # CHR 0x22 # ''floor'' @ CHR 0x22 # '':'' @ FormatInt n @ ''}''"
  by (simp add: json_epoch_def Canonical_def encodeObject_def json_quote_plain escaped_def)

lemma exSign_epoch: "epoch_ok exSign"
proof -
  have "butlast (drop 9 (json_epoch n)) = FormatInt n" for n by (simp add: json_epoch_eq butlast_append)
  then show ?thesis using FormatInt_parse by (simp add: epoch_ok_def exSign_def exUnepoch_def)
qed

lemma exSign_time: "\<forall>t. se_time exSign (se_rfc3339 exSign t) = Some t"
  using FormatInt_parse by (simp add: exSign_def)

definition exPub :: bytes where
  "exPub = replicate 32 CHR ''k''"

lemma exSign_pair: "key_pair exSign priv exPub"
  by (simp add: key_pair_def exSign_def exPub_def)

lemma exIssueCert: "0 \<le> n \<Longrightarrow> \<exists>c. IssueReleaseCert exSign (replicate 64 CHR ''p'') exPub ''r'' 100 n = Inr c \<and> rc_MinEpoch c = n"
  by (simp add: IssueReleaseCert_def exPub_def Let_def)

theorem issued_cert_validates_witness:
  "\<exists>c. IssueReleaseCert exSign (replicate 64 CHR ''p'') exPub ''r'' 100 3 = Inr c \<and> ReleaseKeyFromCert exSign exPub c 50 = Inr exPub
     \<and> ReleaseKeyFromCert exSign exPub c 101 = Inl ErrCertExpired"
proof -
  obtain c where c: "IssueReleaseCert exSign (replicate 64 CHR ''p'') exPub ''r'' 100 3 = Inr c" using exIssueCert [of 3] by auto
  note T = issued_cert_validates [OF exSign_b64 exSign_pair exSign_time c]
  show ?thesis using c T [of 50] T [of 101] by simp
qed

theorem epoch_floor_only_rises_witness:
  "\<exists>s d s' d'. NewEpochStore exSign \<lparr>epoch_file = None, ios = 0\<rparr> = (Inr s, d) \<and> (estep exSign exPub None)\<^sup>*\<^sup>* (s, d) (s', d') \<and> es_current s' = 3
     \<and> floor_on_disk exSign d' = Some 3 \<and> root_said exSign exPub None 3"
proof -
  let ?d0 = "\<lparr>epoch_file = None, ios = 0\<rparr>"
  have n: "NewEpochStore exSign ?d0 = (Inr \<lparr>es_current = 0\<rparr>, \<lparr>epoch_file = Some (json_epoch 0), ios = 6\<rparr>)"
    by (simp add: NewEpochStore_def bindS_def io_def writeFloor_def atomicWrite_def retS_def exSign_def)
  obtain c where c: "IssueReleaseCert exSign (replicate 64 CHR ''p'') exPub ''r'' 100 3 = Inr c" "rc_MinEpoch c = 3" using exIssueCert [of 3] by auto
  have v: "ValidateReleaseCertAt exSign exPub c 50 = None"
    using issued_cert_validates [OF exSign_b64 exSign_pair exSign_time c(1), of 50] by (auto simp: ReleaseKeyFromCert_def split: option.splits)
  let ?s' = "\<lparr>es_current = 3\<rparr>" and ?d' = "\<lparr>epoch_file = Some (json_epoch 3), ios = 11\<rparr>"
  have "RaiseFromReleaseCert exSign exPub c 50 \<lparr>es_current = 0\<rparr> \<lparr>epoch_file = Some (json_epoch 0), ios = 6\<rparr> = (Inr (), ?s', ?d')"
    using c(2) v by (simp add: RaiseFromReleaseCert_def RaiseTo_def bindS_def io_def writeFloor_def atomicWrite_def exSign_def)
  then have st: "(estep exSign exPub None)\<^sup>*\<^sup>* (\<lparr>es_current = 0\<rparr>, \<lparr>epoch_file = Some (json_epoch 0), ios = 6\<rparr>) (?s', ?d')" by (intro r_into_rtranclp estep.cert)
  show ?thesis using epoch_floor_only_rises [OF exSign_epoch n st] n st by fastforce
qed

theorem two_stores_lower_floor_witness:
  "\<exists>c1 c2 s1' d1 s2' d2. RaiseFromReleaseCert exSign exPub c1 50 \<lparr>es_current = 0\<rparr> \<lparr>epoch_file = Some (json_epoch 0), ios = 0\<rparr> = (Inr (), s1', d1)
     \<and> floor_on_disk exSign d1 = Some 5 \<and> RaiseFromReleaseCert exSign exPub c2 50 \<lparr>es_current = 0\<rparr> d1 = (Inr (), s2', d2) \<and> floor_on_disk exSign d2 = Some 3"
proof -
  let ?d = "\<lparr>epoch_file = Some (json_epoch 0), ios = 0\<rparr>"
  obtain c1 c2 where c: "IssueReleaseCert exSign (replicate 64 CHR ''p'') exPub ''r'' 100 5 = Inr c1" "rc_MinEpoch c1 = 5"
    "IssueReleaseCert exSign (replicate 64 CHR ''p'') exPub ''r'' 100 3 = Inr c2" "rc_MinEpoch c2 = 3" using exIssueCert [of 5] exIssueCert [of 3] by auto
  have v: "ValidateReleaseCertAt exSign exPub c 50 = None" if "IssueReleaseCert exSign (replicate 64 CHR ''p'') exPub ''r'' 100 n = Inr c" for c n
    using issued_cert_validates [OF exSign_b64 exSign_pair exSign_time that, of 50] by (auto simp: ReleaseKeyFromCert_def split: option.splits)
  obtain r1 s1' d1 where r1: "RaiseFromReleaseCert exSign exPub c1 50 \<lparr>es_current = 0\<rparr> ?d = (r1, s1', d1)" by (cases "RaiseFromReleaseCert exSign exPub c1 50 \<lparr>es_current = 0\<rparr> ?d") auto
  obtain r2 s2' d2 where r2: "RaiseFromReleaseCert exSign exPub c2 50 \<lparr>es_current = 0\<rparr> d1 = (r2, s2', d2)" by (cases "RaiseFromReleaseCert exSign exPub c2 50 \<lparr>es_current = 0\<rparr> d1") auto
  have io: "\<forall>n. se_io exSign n" by (simp add: exSign_def)
  have r1': "r1 = Inr ()" using r1 c(2) v [OF c(1)] by (simp add: RaiseFromReleaseCert_def RaiseTo_def bindS_def io_def writeFloor_def atomicWrite_def exSign_def)
  show ?thesis using two_stores_lower_floor [OF exSign_epoch io _ _ _ _ v [OF c(1)] v [OF c(3)] r1 refl r2] c(2,4) r1 r2 r1' by fastforce
qed

end
