(* ===== verification/Os_Slots_Run.thy ===== *)
theory Os_Slots_Run
  imports Os_Slots Signing_Run Codec
begin

text \<open>
  The boot state machine of a device: boots, healthy marks, staging and applying updates in
  any order, with failing I/O. The boot state on disk stays well formed, the active slot's
  files are never written, and an update that does not come up is rolled back after as many
  boots as the threshold says; but an update applied on top of an unconfirmed one makes the
  unconfirmed slot the fallback, and staging before the reboot overwrites the slot the device
  runs from.
\<close>

subsection \<open>Single operations\<close>

definition boot_ok :: "boot_env \<Rightarrow> bool" where
  "boot_ok e \<longleftrightarrow> (\<forall>bs. be_unboot e (be_boot e bs) = Some bs)"

definition bootState :: "boot_env \<Rightarrow> os_disk \<Rightarrow> BootState option" where
  "bootState e d = (case boot_file d of None \<Rightarrow> None | Some raw \<Rightarrow> be_unboot e raw)"

lemma slotIO_io: "slotIO (io s) d = (r, d') \<Longrightarrow> boot_file d' = boot_file d \<and> slot_files d' = slot_files d"
  by (auto simp: slotIO_def io_def split: if_splits)

lemma slotIO_atomicWrite:
  assumes "slotIO (atomicWrite s f) d = (r, d')"
  obtains (ok) n where "r = Inr ()" "d' = f (d\<lparr>ios := n\<rparr>)" | (failed) n er where "r = Inl er" "d' = d\<lparr>ios := n\<rparr>"
proof -
  obtain r1 d1 where w: "atomicWrite s f d = (r1, d1)" by fastforce
  then have a: "(\<exists>n. r1 = Inr () \<and> d1 = f (d\<lparr>ios := n\<rparr>)) \<or> (\<exists>n er. r1 = Inl er \<and> d1 = d\<lparr>ios := n\<rparr>)"
    by (auto simp: atomicWrite_def bindS_def io_def split: if_splits)
  have "r = (case r1 of Inl _ \<Rightarrow> Inl ErrSlotIO | Inr x \<Rightarrow> Inr x)" "d' = d1" using assms w by (auto simp: slotIO_def split: sum.splits)
  then show thesis using a ok failed by auto
qed

lemma NewSlotManager_frame: "NewSlotManager e d = (r, d') \<Longrightarrow> boot_file d' = boot_file d \<and> slot_files d' = slot_files d"
  by (auto simp: NewSlotManager_def bindS_def slotIO_def io_def split: if_splits)

lemma Load_frame: "Load e d = (r, d') \<Longrightarrow> boot_file d' = boot_file d \<and> slot_files d' = slot_files d"
  by (auto simp: Load_def bindS_def slotIO_def io_def split: if_splits option.splits)

lemma Load_Inr: "Load e d = (Inr bs, d') \<Longrightarrow> bootState e d = Some bs \<and> validate bs = None"
  by (auto simp: Load_def bindS_def slotIO_def io_def bootState_def split: if_splits option.splits)

lemma Save_cases:
  assumes "Save e bs d = (r, d')"
  obtains (ok) "r = Inr ()" "validate bs = None" "boot_file d' = Some (be_boot e bs)" "slot_files d' = slot_files d"
  | (failed) er where "r = Inl er" "boot_file d' = boot_file d" "slot_files d' = slot_files d"
proof (cases "validate bs")
  case None
  then have "slotIO (atomicWrite (be_sign e) (\<lambda>d. d\<lparr>boot_file := Some (be_boot e bs)\<rparr>)) d = (r, d')" using assms by (simp add: Save_def)
  then show thesis by (cases rule: slotIO_atomicWrite) (use None ok failed in auto)
qed (use assms failed in \<open>auto simp: Save_def failS_def\<close>)

lemma saved_cases:
  assumes "saved e next d = (r, d')"
  obtains (ok) "r = Inr next" "validate next = None" "boot_file d' = Some (be_boot e next)" "slot_files d' = slot_files d"
  | (failed) er where "r = Inl er" "boot_file d' = boot_file d" "slot_files d' = slot_files d"
proof -
  obtain r1 d1 where s: "Save e next d = (r1, d1)" by fastforce
  then show thesis by (cases rule: Save_cases) (use assms s ok failed in \<open>auto simp: saved_def bindS_def retS_def\<close>)
qed

text \<open>Every operation that writes the boot state is \<open>saved\<close> of some next state, or fails at once.\<close>

lemma slot_ops:
  "SetPending e bs s d = (r, d') \<Longrightarrow> (\<exists>er. r = Inl er) \<and> d' = d \<or> saved e \<lparr>bs_Active = bs_Active bs, bs_Pending = s, bs_BootCounter = 0, bs_LastKnownGood = bs_LastKnownGood bs\<rparr> d = (r, d')"
  "Flip e bs d = (r, d') \<Longrightarrow> (\<exists>er. r = Inl er) \<and> d' = d \<or> saved e \<lparr>bs_Active = bs_Pending bs, bs_Pending = SlotNone, bs_BootCounter = 0, bs_LastKnownGood = bs_Active bs\<rparr> d = (r, d')"
  "Rollback e bs d = (r, d') \<Longrightarrow> (\<exists>er. r = Inl er) \<and> d' = d \<or> saved e \<lparr>bs_Active = bs_LastKnownGood bs, bs_Pending = SlotNone, bs_BootCounter = 0, bs_LastKnownGood = bs_LastKnownGood bs\<rparr> d = (r, d')"
  by (auto simp: SetPending_def Flip_def Rollback_def failS_def split: if_splits)

subsection \<open>The machine\<close>

inductive bstep :: "boot_env \<Rightarrow> int \<Rightarrow> os_disk \<times> BootState option \<Rightarrow> os_disk \<times> BootState option \<Rightarrow> bool" for e t where
  boot: "incrementBootCounter e t d = (m', d') \<Longrightarrow> bstep e t (d, m) (d', m')"
| healthy: "bstep e t (d, m) (markBootHealthy e m d, m)"
| applied: "handleApply e adm d = (r, d') \<Longrightarrow> bstep e t (d, m) (d', m)"
| stage: "Load e d = (Inr bs, d1) \<Longrightarrow> InactiveSlot bs = Inr s \<Longrightarrow> StageInto e bs s name img d1 = (r, d') \<Longrightarrow> bstep e t (d, m) (d', m)"
| pending: "Load e d = (Inr bs, d1) \<Longrightarrow> InactiveSlot bs = Inr s \<Longrightarrow> SetPending e bs s d1 = (r, d') \<Longrightarrow> bstep e t (d, m) (d', m)"

definition boot_inv :: "boot_env \<Rightarrow> os_disk \<times> BootState option \<Rightarrow> bool" where
  "boot_inv e w \<longleftrightarrow> (boot_file (fst w) \<noteq> None \<longrightarrow> (\<exists>bs. bootState e (fst w) = Some bs \<and> validate bs = None)) \<and> (\<forall>bs. snd w = Some bs \<longrightarrow> validate bs = None)"

text \<open>What an operation may do to the boot file: leave it or replace it by a valid state.\<close>

definition keeps_boot :: "boot_env \<Rightarrow> os_disk \<Rightarrow> os_disk \<Rightarrow> bool" where
  "keeps_boot e d d' \<longleftrightarrow> slot_files d' = slot_files d \<and> (boot_file d' = boot_file d \<or> (\<exists>bs. validate bs = None \<and> boot_file d' = Some (be_boot e bs)))"

interpretation kb: comp_frame "keeps_boot e" for e
  by unfold_locales (auto simp: keeps_boot_def)

lemmas keeps_boot_trans = kb.trans and keeps_boot_refl = kb.refl

lemma saved_keeps: "saved e next d = (r, d') \<Longrightarrow> keeps_boot e d d' \<and> (\<forall>bs. r = Inr bs \<longrightarrow> validate bs = None)"
  by (erule saved_cases) (auto simp: keeps_boot_def)

lemma Load_keeps: "Load e d = (r, d') \<Longrightarrow> keeps_boot e d d'"
  using Load_frame by (simp add: keeps_boot_def)

lemma NewSlotManager_keeps: "NewSlotManager e d = (r, d') \<Longrightarrow> keeps_boot e d d'"
  using NewSlotManager_frame by (simp add: keeps_boot_def)

lemma Save_keeps: "Save e bs d = (r, d') \<Longrightarrow> keeps_boot e d d' \<and> (\<forall>u. r = Inr u \<longrightarrow> validate bs = None)"
  by (erule Save_cases) (auto simp: keeps_boot_def)

lemma op_keeps:
  assumes "(\<exists>er. r = Inl er) \<and> d' = d \<or> saved e next d = (r, d')"
  shows "keeps_boot e d d' \<and> (\<forall>bs. r = Inr bs \<longrightarrow> validate bs = None)"
  using assms
proof
  assume "saved e next d = (r, d')"
  then show ?thesis by (rule saved_keeps)
qed (auto simp: keeps_boot_def)

lemmas SetPending_keeps = op_keeps [OF slot_ops(1)]
  and Flip_keeps = op_keeps [OF slot_ops(2)]
  and Rollback_keeps = op_keeps [OF slot_ops(3)]

lemma Increment_keeps: "IncrementBootCounter e bs d = (r, d') \<Longrightarrow> keeps_boot e d d' \<and> (\<forall>b. r = Inr b \<longrightarrow> validate b = None)"
  unfolding IncrementBootCounter_def by (rule saved_keeps)

lemma markBootHealthy_keeps: "keeps_boot e d (markBootHealthy e m d)"
proof (cases m)
  case (Some bs)
  obtain r d' where "MarkHealthy e bs d = (r, d')" by fastforce
  then show ?thesis using Some saved_keeps by (auto simp: markBootHealthy_def MarkHealthy_def)
qed (simp add: markBootHealthy_def keeps_boot_refl)

lemma handleApply_keeps: "handleApply e adm d = (r, d') \<Longrightarrow> keeps_boot e d d'"
proof -
  assume a: "handleApply e adm d = (r, d')"
  obtain rl d1 where l: "Load e d = (rl, d1)" by fastforce
  note kl = Load_keeps [OF l]
  show ?thesis
  proof (cases "adm = Some False \<or> (\<forall>bs. rl \<noteq> Inr bs \<or> bs_Pending bs = SlotNone)")
    case True
    then show ?thesis using a l kl keeps_boot_refl by (auto simp: handleApply_def split: sum.splits if_splits)
  next
    case False
    then obtain bs where bs: "rl = Inr bs" "bs_Pending bs \<noteq> SlotNone" "adm \<noteq> Some False" by blast
    obtain rf d2 where f: "Flip e bs d1 = (rf, d2)" by fastforce
    then have "d' = d2" using a l bs by (auto simp: handleApply_def split: sum.splits)
    then show ?thesis using keeps_boot_trans [OF kl] Flip_keeps [OF f] by blast
  qed
qed

lemma loadOrInit_keeps: "loadOrInit e d = (m, d') \<Longrightarrow> keeps_boot e d d'"
proof -
  assume a: "loadOrInit e d = (m, d')"
  obtain rl d1 where l: "Load e d = (rl, d1)" by fastforce
  show ?thesis
  proof (cases rl)
    case (Inl er)
    let ?fresh = "\<lparr>bs_Active = SlotA, bs_Pending = SlotNone, bs_BootCounter = 0, bs_LastKnownGood = SlotA\<rparr>"
    obtain rs d2 where sv: "Save e ?fresh d1 = (rs, d2)" by fastforce
    then have "d' = d2" using a l Inl by (auto simp: loadOrInit_def split: sum.splits)
    then show ?thesis using keeps_boot_trans [OF Load_keeps [OF l]] Save_keeps [OF sv] by blast
  qed (use a l Load_keeps [OF l] in \<open>auto simp: loadOrInit_def\<close>)
qed

lemma incrementBootCounter_keeps:
  assumes "incrementBootCounter e t d = (m, d')"
  shows "keeps_boot e d d' \<and> (\<forall>bs. m = Some bs \<longrightarrow> validate bs = None)"
proof -
  obtain r1 d1 where n: "NewSlotManager e d = (r1, d1)" by fastforce
  obtain lo d2 where lo: "loadOrInit e d1 = (lo, d2)" by fastforce
  have k: "keeps_boot e d d2" by (rule keeps_boot_trans [OF NewSlotManager_keeps [OF n] loadOrInit_keeps [OF lo]])
  show ?thesis
  proof (cases "r1 = Inr () \<and> lo \<noteq> None")
    case True
    then obtain bs where bs: "lo = Some bs" by blast
    obtain ri d3 where i: "IncrementBootCounter e bs d2 = (ri, d3)" by fastforce
    note k3 = keeps_boot_trans [OF k Increment_keeps [OF i, THEN conjunct1]]
    show ?thesis
    proof (cases ri)
      case (Inr bs1)
      obtain rr d4 where rb: "Rollback e bs1 d3 = (rr, d4)" by fastforce
      note k4 = keeps_boot_trans [OF k3 Rollback_keeps [OF rb, THEN conjunct1]]
      show ?thesis using assms n lo True bs i Inr rb k3 k4 Increment_keeps [OF i] Rollback_keeps [OF rb]
        by (auto simp: incrementBootCounter_def split: if_splits sum.splits)
    qed (use assms n lo True bs i k3 in \<open>auto simp: incrementBootCounter_def\<close>)
  next
    case False
    then show ?thesis using assms n lo k NewSlotManager_keeps [OF n] by (cases r1) (auto simp: incrementBootCounter_def)
  qed
qed

subsection \<open>Invariants\<close>

lemma keeps_stored: "boot_ok e \<Longrightarrow> keeps_boot e d d' \<Longrightarrow> bootState e d' = bootState e d \<and> boot_file d' = boot_file d \<or> (\<exists>bs. bootState e d' = Some bs \<and> validate bs = None)"
  by (auto simp: keeps_boot_def bootState_def boot_ok_def)

lemma StageInto_frame: "StageInto e bs s name img d = (r, d') \<Longrightarrow> boot_file d' = boot_file d \<and> (\<forall>k. fst k = bs_Active bs \<longrightarrow> slot_files d' k = slot_files d k)"
  by (auto simp: StageInto_def failS_def split: if_splits elim!: slotIO_atomicWrite)

lemma bstep_keeps:
  assumes "bstep e t (d, m) (d', m')"
  shows "(keeps_boot e d d' \<or> boot_file d' = boot_file d) \<and> (\<forall>bs k. bootState e d = Some bs \<longrightarrow> fst k = bs_Active bs \<longrightarrow> slot_files d' k = slot_files d k)
    \<and> (m' = m \<or> (\<forall>bs. m' = Some bs \<longrightarrow> validate bs = None))"
  using assms
proof cases
  case boot
  then show ?thesis using incrementBootCounter_keeps by (auto simp: keeps_boot_def)
next
  case healthy
  then show ?thesis using markBootHealthy_keeps [of e d m] by (auto simp: keeps_boot_def)
next
  case (applied adm r)
  then show ?thesis using handleApply_keeps [OF applied(2)] by (auto simp: keeps_boot_def)
next
  case (stage bs d1 s name img r)
  then show ?thesis using StageInto_frame [OF stage(4)] Load_frame [OF stage(2)] Load_Inr [OF stage(2)] by auto
next
  case (pending bs d1 s r)
  have "keeps_boot e d d'" by (rule keeps_boot_trans [OF Load_keeps [OF pending(2)] SetPending_keeps [OF pending(4), THEN conjunct1]])
  then show ?thesis using pending(1) by (auto simp: keeps_boot_def)
qed

text \<open>
  Claim C39. The boot state on disk is always well typed: after any sequence of boots, healthy
  marks, staged images and applied updates, with any I/O failures, the state file is absent or
  decodes to a state whose slots are legal and whose counter is not negative, and so is the
  state init holds in memory.
\<close>

theorem boot_state_always_valid:
  assumes "boot_ok e" "boot_inv e w" "(bstep e t)\<^sup>*\<^sup>* w w'"
  shows "boot_inv e w'"
  using assms(3,2)
proof (induction rule: rtranclp_induct)
  case (step x y)
  obtain d m d' m' where xy: "x = (d, m)" "y = (d', m')" by (cases x; cases y)
  note k = bstep_keeps [OF step(2) [unfolded xy]]
  have "bootState e d' = bootState e d \<and> boot_file d' = boot_file d \<or> (\<exists>bs. bootState e d' = Some bs \<and> validate bs = None)"
  proof (cases "keeps_boot e d d'")
    case False
    then have "boot_file d' = boot_file d" using k by blast
    then show ?thesis by (simp add: bootState_def)
  qed (rule keeps_stored [OF assms(1)])
  moreover have "boot_inv e (d, m)" using step(3,4) xy by simp
  ultimately show ?case using k unfolding xy boot_inv_def fst_conv snd_conv by metis
qed

text \<open>
  No step of the update machinery writes into the slot the boot state calls active,
  whatever I/O calls fail: a boot, a healthy mark, staging an image under any name, marking it
  pending and applying it all leave every file of that slot as it is, when an update check
  acts on the boot state as it finds it on disk.
\<close>

theorem active_slot_untouched:
  assumes "bstep e t (d, m) (d', m')" "bootState e d = Some bs"
  shows "slot_files d' (bs_Active bs, name) = slot_files d (bs_Active bs, name)"
  using bstep_keeps [OF assms(1)] assms(2) by simp

subsection \<open>When the disk answers\<close>

definition disk_answers :: "boot_env \<Rightarrow> bool" where
  "disk_answers e \<longleftrightarrow> (\<forall>n. se_io (be_sign e) n)"

lemma io_go: "disk_answers e \<Longrightarrow> slotIO (io (be_sign e)) d = (Inr (), d\<lparr>ios := ios d + 1\<rparr>)"
  by (simp add: disk_answers_def slotIO_def io_def)

lemma Load_go: "disk_answers e \<Longrightarrow> bootState e d = Some bs \<Longrightarrow> validate bs = None \<Longrightarrow> Load e d = (Inr bs, d\<lparr>ios := ios d + 1\<rparr>)"
  by (auto simp: Load_def bindS_def io_go bootState_def split: option.splits)

lemma saved_go: "disk_answers e \<Longrightarrow> validate next = None \<Longrightarrow> saved e next d = (Inr next, d\<lparr>boot_file := Some (be_boot e next), ios := ios d + 5\<rparr>)"
  by (simp add: saved_def Save_def bindS_def retS_def slotIO_def atomicWrite_def io_def disk_answers_def)

lemma stored_saved: "boot_ok e \<Longrightarrow> bootState e (d\<lparr>boot_file := Some (be_boot e bs), ios := n\<rparr>) = Some bs"
  by (simp add: bootState_def boot_ok_def)

lemma stored_ios: "bootState e (d\<lparr>ios := n\<rparr>) = bootState e d"
  by (simp add: bootState_def)

text \<open>The state one boot leaves on disk.\<close>

definition booted :: "int \<Rightarrow> BootState \<Rightarrow> BootState" where
  "booted t bs = (let bs1 = bs\<lparr>bs_BootCounter := bs_BootCounter bs + 1\<rparr> in if ShouldRollback bs1 t
     then \<lparr>bs_Active = bs_LastKnownGood bs, bs_Pending = SlotNone, bs_BootCounter = 0, bs_LastKnownGood = bs_LastKnownGood bs\<rparr> else bs1)"

lemma booted_valid: "validate bs = None \<Longrightarrow> validate (booted t bs) = None"
  by (auto simp: booted_def validate_def ShouldRollback_def Let_def SlotNone_def split: if_splits)

lemma incrementBootCounter_go:
  assumes "boot_ok e" "disk_answers e" "bootState e d = Some bs" "validate bs = None" "in_int64 (bs_BootCounter bs + 1)"
  shows "\<exists>n. incrementBootCounter e t d = (Some (booted t bs), d\<lparr>boot_file := Some (be_boot e (booted t bs)), ios := n\<rparr>)"
proof -
  let ?d1 = "d\<lparr>ios := ios d + 2\<rparr>" and ?bs1 = "bs\<lparr>bs_BootCounter := bs_BootCounter bs + 1\<rparr>"
  have n: "NewSlotManager e d = (Inr (), ?d1)" using io_go [OF assms(2)] by (simp add: NewSlotManager_def bindS_def)
  have l: "loadOrInit e ?d1 = (Some bs, d\<lparr>ios := ios d + 3\<rparr>)"
    using Load_go [OF assms(2) _ assms(4), of ?d1] assms(3) by (simp add: loadOrInit_def stored_ios)
  have v1: "validate ?bs1 = None" using assms(4) by (auto simp: validate_def split: if_splits)
  have i: "IncrementBootCounter e bs (d\<lparr>ios := ios d + 3\<rparr>) = (Inr ?bs1, d\<lparr>boot_file := Some (be_boot e ?bs1), ios := ios d + 8\<rparr>)"
    using saved_go [OF assms(2) v1, of "d\<lparr>ios := ios d + 3\<rparr>"] wrap64_id [OF assms(5)] by (simp add: IncrementBootCounter_def)
  show ?thesis
  proof (cases "ShouldRollback ?bs1 t")
    case True
    then have "bs_LastKnownGood ?bs1 \<noteq> SlotNone" by (auto simp: ShouldRollback_def)
    then show ?thesis using n l i True booted_valid [OF assms(4), of t]
        saved_go [OF assms(2), of "booted t bs" "d\<lparr>boot_file := Some (be_boot e ?bs1), ios := ios d + 8\<rparr>"]
      by (simp add: incrementBootCounter_def Rollback_def booted_def) (metis (no_types))
  qed (use n l i in \<open>auto simp: incrementBootCounter_def booted_def\<close>)
qed

definition boots :: "boot_env \<Rightarrow> int \<Rightarrow> nat \<Rightarrow> os_disk \<Rightarrow> os_disk" where
  "boots e t n = (\<lambda>d. snd (incrementBootCounter e t d)) ^^ n"

lemma boots_Suc: "boots e t (Suc n) d = snd (incrementBootCounter e t (boots e t n d))"
  by (simp add: boots_def)

lemma boots_slot_files: "slot_files (boots e t n d) = slot_files d"
proof (induction n)
  case (Suc n)
  obtain m d' where "incrementBootCounter e t (boots e t n d) = (m, d')" by fastforce
  with incrementBootCounter_keeps [OF this] Suc show ?case by (simp add: boots_Suc keeps_boot_def)
qed (simp add: boots_def)

lemma stored_boot_once:
  assumes "boot_ok e" "disk_answers e" "bootState e d = Some bs" "validate bs = None" "in_int64 (bs_BootCounter bs + 1)"
  shows "bootState e (snd (incrementBootCounter e t d)) = Some (booted t bs)"
  using incrementBootCounter_go [OF assms, of t] stored_saved [OF assms(1)] by force

text \<open>An unconfirmed active slot with a fallback, booted again and again.\<close>

lemma boots_count:
  assumes "boot_ok e" "disk_answers e" "bootState e d = Some bs" "validate bs = None" "bs_BootCounter bs = 0" "0 < t" "in_int64 t" "n < nat t"
  shows "bootState e (boots e t n d) = Some (bs\<lparr>bs_BootCounter := int n\<rparr>)"
  using assms(8)
proof (induction n)
  case 0
  then show ?case using assms(3,5) by (simp add: boots_def)
next
  case (Suc n)
  have "int n < t" using Suc.prems assms(6) by linarith
  then have r: "in_int64 (bs_BootCounter (bs\<lparr>bs_BootCounter := int n\<rparr>) + 1)" using assms(7) by (simp add: in_int64_def)
  have v: "validate (bs\<lparr>bs_BootCounter := int n\<rparr>) = None" using assms(4) by (auto simp: validate_def split: if_splits)
  have "\<not> ShouldRollback (bs\<lparr>bs_BootCounter := int n + 1\<rparr>) t" using Suc.prems assms(6) by (auto simp: ShouldRollback_def)
  then have "booted t (bs\<lparr>bs_BootCounter := int n\<rparr>) = bs\<lparr>bs_BootCounter := int (Suc n)\<rparr>" by (simp add: booted_def add.commute)
  then show ?case using stored_boot_once [OF assms(1,2) Suc.IH v r, of t] Suc.prems by (simp add: boots_Suc)
qed

lemma boots_threshold:
  assumes "boot_ok e" "disk_answers e" "bootState e d = Some bs" "validate bs = None" "bs_BootCounter bs = 0" "0 < t" "in_int64 t"
    "bs_LastKnownGood bs \<noteq> SlotNone"
  shows "bootState e (boots e t (nat t) d)
    = Some \<lparr>bs_Active = bs_LastKnownGood bs, bs_Pending = SlotNone, bs_BootCounter = 0, bs_LastKnownGood = bs_LastKnownGood bs\<rparr>"
proof -
  let ?n = "nat t - 1" and ?bs = "bs\<lparr>bs_BootCounter := t - 1\<rparr>"
  have t: "nat t = Suc ?n" using assms(6) by simp
  have s: "bootState e (boots e t ?n d) = Some ?bs" using boots_count [OF assms(1-7), of ?n] assms(6) by (simp add: nat_diff_distrib)
  have v: "validate ?bs = None" using assms(4,6) by (auto simp: validate_def split: if_splits)
  have "ShouldRollback (bs\<lparr>bs_BootCounter := t\<rparr>) t" using assms(6,8) by (simp add: ShouldRollback_def)
  then have "booted t ?bs = \<lparr>bs_Active = bs_LastKnownGood bs, bs_Pending = SlotNone, bs_BootCounter = 0, bs_LastKnownGood = bs_LastKnownGood bs\<rparr>"
    by (simp add: booted_def)
  then show ?thesis using stored_boot_once [OF assms(1,2) s v, of t] assms(7) boots_Suc [of e t ?n d] t by simp
qed

text \<open>The state an apply request leaves on disk.\<close>

definition flipped :: "BootState \<Rightarrow> BootState" where
  "flipped bs = \<lparr>bs_Active = bs_Pending bs, bs_Pending = SlotNone, bs_BootCounter = 0, bs_LastKnownGood = bs_Active bs\<rparr>"

lemma flipped_valid: "validate bs = None \<Longrightarrow> bs_Pending bs \<noteq> SlotNone \<Longrightarrow> validate (flipped bs) = None"
  by (auto simp: flipped_def validate_def split: if_splits)

lemma handleApply_go:
  assumes "disk_answers e" "bootState e d = Some bs" "validate bs = None" "bs_Pending bs \<noteq> SlotNone" "adm \<noteq> Some False"
  shows "handleApply e adm d = (Inr (bs_Pending bs), d\<lparr>boot_file := Some (be_boot e (flipped bs)), ios := ios d + 6\<rparr>)"
  using assms Load_go [OF assms(1-3)] saved_go [OF assms(1) flipped_valid [OF assms(3,4)], of "d\<lparr>ios := ios d + 1\<rparr>"]
  by (simp add: handleApply_def Flip_def flipped_def)

lemma flipped_simps [simp]: "bs_BootCounter (flipped bs) = 0" "bs_LastKnownGood (flipped bs) = bs_Active bs" "bs_Active (flipped bs) = bs_Pending bs"
  "bs_Pending (flipped bs) = SlotNone"
  by (simp_all add: flipped_def)

lemma active_not_none: "validate bs = None \<Longrightarrow> bs_Active bs \<noteq> SlotNone"
  by (auto simp: validate_def valid_slot_def SlotNone_def SlotA_def SlotB_def split: if_splits)

lemma applied_boots:
  assumes "boot_ok e" "disk_answers e" "bootState e d = Some bs" "validate bs = None" "bs_Pending bs \<noteq> SlotNone" "0 < t" "in_int64 t"
    "handleApply e adm d = (Inr s, d1)"
  shows "s = bs_Pending bs" "n < nat t \<Longrightarrow> bootState e (boots e t n d1) = Some ((flipped bs)\<lparr>bs_BootCounter := int n\<rparr>)"
    "bootState e (boots e t (nat t) d1) = Some \<lparr>bs_Active = bs_Active bs, bs_Pending = SlotNone, bs_BootCounter = 0, bs_LastKnownGood = bs_Active bs\<rparr>"
    "slot_files d1 = slot_files d"
proof -
  have "adm \<noteq> Some False" using assms(8) by (auto simp: handleApply_def)
  note a = handleApply_go [OF assms(2-5) this]
  have d1: "d1 = d\<lparr>boot_file := Some (be_boot e (flipped bs)), ios := ios d + 6\<rparr>" using a assms(8) by simp
  have st: "bootState e d1 = Some (flipped bs)" using stored_saved [OF assms(1)] d1 by simp
  note v = flipped_valid [OF assms(4,5)]
  show "s = bs_Pending bs" using a assms(8) by simp
  show "n < nat t \<Longrightarrow> bootState e (boots e t n d1) = Some ((flipped bs)\<lparr>bs_BootCounter := int n\<rparr>)"
    by (rule boots_count [OF assms(1,2) st v _ assms(6,7)]) simp_all
  show "bootState e (boots e t (nat t) d1) = Some \<lparr>bs_Active = bs_Active bs, bs_Pending = SlotNone, bs_BootCounter = 0, bs_LastKnownGood = bs_Active bs\<rparr>"
    using boots_threshold [OF assms(1,2) st v _ assms(6,7)] active_not_none [OF assms(4)] by simp
  show "slot_files d1 = slot_files d" using d1 by simp
qed

text \<open>
  Claim C10. An applied update that never reports itself healthy is rolled back: the device
  keeps trying the new slot, counting, for fewer boots than the threshold, and at the boot
  that reaches the threshold the slot that was active before the update is active again with
  the counter at zero. No boot touches a slot's files.
\<close>

theorem bad_update_rolled_back:
  assumes "boot_ok e" "disk_answers e" "bootState e d = Some bs" "validate bs = None" "bs_Pending bs \<noteq> SlotNone" "0 < t" "in_int64 t"
    "handleApply e adm d = (Inr s, d1)"
  shows "s = bs_Pending bs
    \<and> (\<forall>n < nat t. bootState e (boots e t n d1)
          = Some \<lparr>bs_Active = bs_Pending bs, bs_Pending = SlotNone, bs_BootCounter = int n, bs_LastKnownGood = bs_Active bs\<rparr>)
    \<and> bootState e (boots e t (nat t) d1) = Some \<lparr>bs_Active = bs_Active bs, bs_Pending = SlotNone, bs_BootCounter = 0, bs_LastKnownGood = bs_Active bs\<rparr>
    \<and> (\<forall>n. slot_files (boots e t n d1) = slot_files d)"
  using applied_boots [OF assms] by (simp add: boots_slot_files flipped_def)

subsection \<open>Two ways to lose the fallback\<close>

lemma InactiveSlot_valid: "validate bs = None \<Longrightarrow> \<exists>s. InactiveSlot bs = Inr s \<and> valid_slot s \<and> s \<noteq> bs_Active bs"
  by (auto simp: validate_def InactiveSlot_def valid_slot_def SlotA_def SlotB_def split: if_splits)

lemma two_slots: "valid_slot a \<Longrightarrow> valid_slot b \<Longrightarrow> valid_slot c \<Longrightarrow> a \<noteq> b \<Longrightarrow> c \<noteq> b \<Longrightarrow> c = a"
  by (auto simp: valid_slot_def)

text \<open>
  An update applied while the previous one is still unconfirmed makes the unconfirmed slot the
  fallback: after \<open>k\<close> boots of slot \<open>p\<close> without a healthy mark, the next update is staged into
  the other slot, and when it fails the device returns to \<open>p\<close>, recorded as last known good.
\<close>

theorem unconfirmed_slot_becomes_fallback:
  assumes "boot_ok e" "disk_answers e" "bootState e d = Some bs" "validate bs = None" "bs_Pending bs \<noteq> SlotNone" "0 < t" "in_int64 t"
    "handleApply e adm d = (Inr p, d1)" "k < nat t" "Load e (boots e t k d1) = (Inr bs2, d3)" "InactiveSlot bs2 = Inr q"
    "SetPending e bs2 q d3 = (Inr bs3, d4)" "handleApply e adm d4 = (Inr q', d5)"
  shows "q \<noteq> p \<and> bootState e (boots e t (nat t) d5) = Some \<lparr>bs_Active = p, bs_Pending = SlotNone, bs_BootCounter = 0, bs_LastKnownGood = p\<rparr>"
proof -
  note A = applied_boots [OF assms(1-8)]
  have bs2: "bootState e (boots e t k d1) = Some bs2" "validate bs2 = None" using Load_Inr [OF assms(10)] by blast+
  then have act: "bs_Active bs2 = p" using A(1) A(2) [OF assms(9)] by auto
  have qv: "valid_slot q" "q \<noteq> bs_Active bs2" using InactiveSlot_valid [OF bs2(2)] assms(11) by auto
  have sv: "saved e \<lparr>bs_Active = bs_Active bs2, bs_Pending = q, bs_BootCounter = 0, bs_LastKnownGood = bs_LastKnownGood bs2\<rparr> d3 = (Inr bs3, d4)"
    using slot_ops(1) [OF assms(12)] by simp
  from this have bs3: "bootState e d4 = Some bs3" "validate bs3 = None" "bs_Active bs3 = p" "bs_Pending bs3 = q"
    by (cases rule: saved_cases; use assms(1) act in \<open>auto simp: bootState_def boot_ok_def\<close>)+
  have "bs_Pending bs3 \<noteq> SlotNone" using bs3(4) qv(1) by (auto simp: valid_slot_def SlotNone_def SlotA_def SlotB_def)
  then show ?thesis using applied_boots(3) [OF assms(1,2) bs3(1,2) _ assms(6,7,13)] bs3(3) qv(2) act by simp
qed

text \<open>
  Between applying an update and the reboot the state already names the new slot as active, so
  staging the next image writes into the slot the device is running from, which is also its
  only fallback.
\<close>

theorem staging_after_apply_overwrites_fallback:
  assumes "boot_ok e" "disk_answers e" "bootState e d = Some bs" "validate bs = None" "bs_Pending bs \<noteq> SlotNone" "bs_Pending bs \<noteq> bs_Active bs"
    "handleApply e adm d = (Inr p, d1)" "CHR ''/'' \<notin> set name"
  shows "\<exists>bs1 d2 d3. Load e d1 = (Inr bs1, d2) \<and> bs_LastKnownGood bs1 = bs_Active bs \<and> InactiveSlot bs1 = Inr (bs_Active bs)
    \<and> StageInto e bs1 (bs_Active bs) name img d2 = (Inr (), d3) \<and> slot_files d3 (bs_Active bs, name) = Some img"
proof -
  have "adm \<noteq> Some False" using assms(7) by (auto simp: handleApply_def)
  then have d1: "d1 = d\<lparr>boot_file := Some (be_boot e (flipped bs)), ios := ios d + 6\<rparr>" using handleApply_go [OF assms(2-5)] assms(7) by simp
  note v = flipped_valid [OF assms(4,5)]
  have l: "Load e d1 = (Inr (flipped bs), d1\<lparr>ios := ios d1 + 1\<rparr>)" by (rule Load_go [OF assms(2) _ v]) (simp add: d1 stored_saved [OF assms(1)])
  obtain s where s: "InactiveSlot (flipped bs) = Inr s" "valid_slot s" "s \<noteq> bs_Active (flipped bs)" using InactiveSlot_valid [OF v] by blast
  have "valid_slot (bs_Active bs)" "valid_slot (bs_Pending bs)" using assms(4,5) by (auto simp: validate_def split: if_splits)
  then have "s = bs_Active bs" using two_slots [of "bs_Active bs" "bs_Pending bs" s] s assms(6) by simp
  moreover have "StageInto e (flipped bs) s name img (d1\<lparr>ios := ios d1 + 1\<rparr>) = (Inr (), d1\<lparr>slot_files := (slot_files d1)((s, name) := Some img), ios := ios d1 + 6\<rparr>)"
    using s assms(2,8) by (simp add: StageInto_def slotIO_def atomicWrite_def bindS_def io_def disk_answers_def)
  ultimately show ?thesis using l s(1) by simp
qed

text \<open>
  An update check works with the boot state it loaded at its start. When the administrator
  applies the pending slot \<open>q\<close> while the check downloads, the check then writes into \<open>q\<close>,
  the slot now active, and stores its old state back: the apply request is undone.
\<close>

theorem check_undoes_concurrent_apply:
  assumes "boot_ok e" "disk_answers e" "bootState e d = Some bs" "validate bs = None" "bs_Pending bs = q" "InactiveSlot bs = Inr q"
    "handleApply e adm d = (Inr p, d1)" "CHR ''/'' \<notin> set name"
  shows "\<exists>bs1 d2 next d3. bootState e d1 = Some bs1 \<and> bs_Active bs1 = q \<and> StageInto e bs q name img d1 = (Inr (), d2) \<and> slot_files d2 (q, name) = Some img
    \<and> SetPending e bs q d2 = (Inr next, d3) \<and> bootState e d3 = Some next \<and> bs_Active next = bs_Active bs \<and> bs_Pending next = q"
proof -
  obtain v: "valid_slot q" "q \<noteq> bs_Active bs" using InactiveSlot_valid [OF assms(4)] assms(6) by auto
  then have p: "bs_Pending bs \<noteq> SlotNone" using assms(5) by (auto simp: valid_slot_def SlotNone_def SlotA_def SlotB_def)
  have "adm \<noteq> Some False" using assms(7) by (auto simp: handleApply_def)
  then have d1: "d1 = d\<lparr>boot_file := Some (be_boot e (flipped bs)), ios := ios d + 6\<rparr>" using handleApply_go [OF assms(2-4) p] assms(7) by simp
  let ?next = "\<lparr>bs_Active = bs_Active bs, bs_Pending = q, bs_BootCounter = 0, bs_LastKnownGood = bs_LastKnownGood bs\<rparr>"
  let ?d2 = "d1\<lparr>slot_files := (slot_files d1)((q, name) := Some img), ios := ios d1 + 5\<rparr>"
  have s: "StageInto e bs q name img d1 = (Inr (), ?d2)"
    using v assms(2,8) by (simp add: StageInto_def slotIO_def atomicWrite_def bindS_def io_def disk_answers_def)
  have vn: "validate ?next = None" using assms(4) v(1) by (auto simp: validate_def split: if_splits)
  have "SetPending e bs q ?d2 = (Inr ?next, ?d2\<lparr>boot_file := Some (be_boot e ?next), ios := ios ?d2 + 5\<rparr>)"
    using saved_go [OF assms(2) vn, of ?d2] v by (simp add: SetPending_def)
  moreover have "bootState e d1 = Some (flipped bs)" using stored_saved [OF assms(1)] d1 by simp
  ultimately show ?thesis using s stored_saved [OF assms(1)] assms(5) by fastforce
qed

subsection \<open>A concrete device\<close>

definition exBoot :: boot_env where
  "exBoot = \<lparr>be_sign = exSign, be_boot = (\<lambda>bs. packNats [packStr (bs_Active bs), packStr (bs_Pending bs), int_encode (bs_BootCounter bs), packStr (bs_LastKnownGood bs)]),
     be_unboot = (\<lambda>s. case unpackNats s of [a, p, c, l] \<Rightarrow> Some \<lparr>bs_Active = unpackStr a, bs_Pending = unpackStr p, bs_BootCounter = int_decode c, bs_LastKnownGood = unpackStr l\<rparr> | _ \<Rightarrow> None)\<rparr>"

lemma exBoot_ok: "boot_ok exBoot"
  by (simp add: boot_ok_def exBoot_def del: list_encode.simps)

lemma exBoot_answers: "disk_answers exBoot"
  by (simp add: disk_answers_def exBoot_def exSign_def)

definition exState :: BootState where
  "exState = \<lparr>bs_Active = ''a'', bs_Pending = ''b'', bs_BootCounter = 0, bs_LastKnownGood = ''a''\<rparr>"

definition exDisk :: os_disk where
  "exDisk = \<lparr>epoch_file = None, ios = 0, boot_file = Some (be_boot exBoot exState), slot_files = (\<lambda>_. None)\<rparr>"

lemma exState_valid: "validate exState = None"
  by (simp add: validate_def exState_def valid_slot_def SlotA_def SlotB_def)

lemma exDisk_stored: "bootState exBoot exDisk = Some exState"
  using exBoot_ok by (simp add: bootState_def exDisk_def boot_ok_def)

lemma exApply: "\<exists>d1. handleApply exBoot (Some True) exDisk = (Inr ''b'', d1)"
  using handleApply_go [OF exBoot_answers exDisk_stored exState_valid, of "Some True"] by (auto simp: exState_def SlotNone_def)

theorem boot_state_always_valid_witness:
  "\<exists>d1. (bstep exBoot 3)\<^sup>*\<^sup>* (exDisk, None) (d1, None) \<and> boot_file d1 \<noteq> boot_file exDisk \<and> boot_inv exBoot (d1, None)"
proof -
  obtain d1 where d1: "handleApply exBoot (Some True) exDisk = (Inr ''b'', d1)" using exApply by blast
  then have st: "(bstep exBoot 3)\<^sup>*\<^sup>* (exDisk, None) (d1, None)" by (intro r_into_rtranclp bstep.applied)
  have "boot_inv exBoot (exDisk, None)" using exDisk_stored exState_valid by (simp add: boot_inv_def)
  note inv = boot_state_always_valid [OF exBoot_ok this st]
  have "bootState exBoot d1 \<noteq> bootState exBoot exDisk"
    using handleApply_go [OF exBoot_answers exDisk_stored exState_valid, of "Some True"] d1 stored_saved [OF exBoot_ok] exDisk_stored
    by (auto simp: exState_def SlotNone_def flipped_def)
  then have "boot_file d1 \<noteq> boot_file exDisk" by (auto simp: bootState_def)
  then show ?thesis using st inv by blast
qed

theorem active_slot_untouched_witness:
  "\<exists>d1. bstep exBoot 3 (exDisk, None) (d1, None) \<and> slot_files d1 (''b'', ''os'') = Some ''new'' \<and> slot_files d1 (''a'', ''os'') = slot_files exDisk (''a'', ''os'')"
proof -
  let ?d1 = "exDisk\<lparr>ios := 6, slot_files := (slot_files exDisk)((''b'', ''os'') := Some ''new'')\<rparr>"
  have l: "Load exBoot exDisk = (Inr exState, exDisk\<lparr>ios := 1\<rparr>)" using Load_go [OF exBoot_answers exDisk_stored exState_valid] by (simp add: exDisk_def)
  have i: "InactiveSlot exState = Inr ''b''" by (simp add: InactiveSlot_def exState_def SlotA_def SlotB_def)
  have "StageInto exBoot exState ''b'' ''os'' ''new'' (exDisk\<lparr>ios := 1\<rparr>) = (Inr (), ?d1)"
    by (simp add: StageInto_def exState_def valid_slot_def SlotA_def SlotB_def slotIO_def atomicWrite_def bindS_def io_def exBoot_def exSign_def)
  from bstep.stage [OF l i this] have st: "bstep exBoot 3 (exDisk, None) (?d1, None)" .
  show ?thesis using st active_slot_untouched [OF st exDisk_stored, of "''os''"] by (intro exI [of _ ?d1]) (simp add: exState_def)
qed

theorem bad_update_rolled_back_witness:
  "\<exists>d1. handleApply exBoot (Some True) exDisk = (Inr ''b'', d1)
     \<and> bootState exBoot (boots exBoot 3 2 d1) = Some \<lparr>bs_Active = ''b'', bs_Pending = [], bs_BootCounter = 2, bs_LastKnownGood = ''a''\<rparr>
     \<and> bootState exBoot (boots exBoot 3 3 d1) = Some \<lparr>bs_Active = ''a'', bs_Pending = [], bs_BootCounter = 0, bs_LastKnownGood = ''a''\<rparr>"
proof -
  obtain d1 where d1: "handleApply exBoot (Some True) exDisk = (Inr ''b'', d1)" using exApply by blast
  have p: "bs_Pending exState \<noteq> SlotNone" "(0 :: int) < 3" "in_int64 3" by (simp_all add: exState_def SlotNone_def in_int64_def)
  show ?thesis using bad_update_rolled_back [OF exBoot_ok exBoot_answers exDisk_stored exState_valid p d1] d1
    by (auto simp: exState_def SlotNone_def)
qed

end
