(* ===== verification/Os_Update_Run.thy ===== *)
theory Os_Update_Run
  imports Os_Verify Os_Slots_Run
begin

text \<open>
  What the update channel and the boot gate guarantee: a staged image chains to the pinned
  root and is the one its signature describes, whatever the mirrors answer; a release whose
  artifacts are in place is staged; the boot gate binds the signed root hash to the running
  one; a revocation recorded at boot stops the updater from accepting the retired key.
\<close>

subsection \<open>Frames\<close>

text \<open>\<open>quiet\<close>: no change to the boot state, the slots or the owner's prompts.\<close>

definition quiet :: "up_state \<Rightarrow> up_state \<Rightarrow> bool" where
  "quiet u u' \<longleftrightarrow> boot_file (up_disk u') = boot_file (up_disk u) \<and> slot_files (up_disk u') = slot_files (up_disk u) \<and> up_prompts u' = up_prompts u"

named_theorems quiet \<open>operations that leave the boot state and the slots alone\<close>

interpretation fr: comp_frame quiet
  by unfold_locales (simp_all add: quiet_def)

abbreviation quietly :: "'a upd \<Rightarrow> bool" where
  "quietly \<equiv> fr.within"

lemmas quietly_def = fr.within_def and quietlyD = fr.withinD and quiet_trans = fr.trans and quiet_E = fr.within_E

declare fr.refl [simp] fr.within_bind [quiet] fr.within_ret [quiet]

lemma quiet_tickU [simp]: "quiet u (tickU u)" "quiet (tickU u) v = quiet u v"
  by (simp_all add: quiet_def tickU_def)

lemma quietly_io [quiet]: "quietly (upIO e)" "quietly (upNow e)" "quietly (setLastLatest v)"
  by (auto simp: quietly_def upIO_def upNow_def setLastLatest_def quiet_def tickU_def)

lemma fetchLoop_quiet: "fetchLoop e rel bs u = (r, u') \<Longrightarrow> quiet u u'"
  by (induction e rel bs u rule: fetchLoop.induct) (auto split: http_answer.splits if_splits)

lemma quietly_fetch [quiet]: "quietly (Fetch e cfg rel)" "quietly (fetchFile e cfg rel)"
proof -
  show f: "quietly (Fetch e cfg rel)" by (auto simp: Fetch_def Let_def quietly_def failS_def dest: fetchLoop_quiet)
  show "quietly (fetchFile e cfg rel)" unfolding fetchFile_def
    by (intro fr.within_bind f) (simp add: split_beta fr.within_ret)
qed

lemma quietly_certBytes [quiet]: "quietly (certBytes e cfg)"
  unfolding quietly_def certBytes_def using quietlyD [OF quietly_fetch(2)] by (fastforce split: prod.splits sum.splits option.splits)

lemma writeFloor_frame: "writeFloor e n d = (r, d') \<Longrightarrow> boot_file d' = boot_file d \<and> slot_files d' = slot_files d"
  unfolding writeFloor_def by (erule atomicWrite_cases) auto

lemma RaiseTo_frame: "RaiseTo e n s d = (r, s', d') \<Longrightarrow> boot_file d' = boot_file d \<and> slot_files d' = slot_files d"
  using writeFloor_frame by (fastforce simp: RaiseTo_def split: if_splits prod.splits sum.splits)

lemma RaiseFromReleaseCert_frame: "RaiseFromReleaseCert e root c now s d = (r, s', d') \<Longrightarrow> boot_file d' = boot_file d \<and> slot_files d' = slot_files d"
  using RaiseTo_frame by (fastforce simp: RaiseFromReleaseCert_def split: if_splits option.splits)

lemma quietly_raiseFloor [quiet]: "quietly (raiseFloor e cfg cert fl)"
  unfolding quietly_def raiseFloor_def
  by (auto simp: quiet_def tickU_def split: option.splits prod.splits sum.splits dest: RaiseFromReleaseCert_frame)

lemma quietly_certifiedReleaseKey [quiet]: "quietly (certifiedReleaseKey e cfg)"
proof -
  have step: "quietly (\<lambda>u. bindS (certBytes e cfg) (F u) u)" if "\<And>u x. quietly (F u x)" for F :: "up_state \<Rightarrow> bytes \<Rightarrow> (bytes \<times> int) upd"
  proof -
    have "quietly (bindS (certBytes e cfg) (F u))" for u by (rule fr.within_bind [OF quietly_certBytes that])
    then show ?thesis unfolding quietly_def by blast
  qed
  show ?thesis unfolding certifiedReleaseKey_def [abs_def] Let_def
    by (rule step) (auto intro!: quiet split: sum.splits option.splits)
qed

lemma quietly_fetchManifest [quiet]: "quietly (fetchManifest e cfg pub fl)"
  unfolding fetchManifest_def by (intro quiet) (auto intro!: quiet split: sum.splits)

lemma quietly_orElse: "quietly m \<Longrightarrow> (\<And>x. quietly (k x)) \<Longrightarrow> quietly (\<lambda>u. case m u of (Inl _, u') \<Rightarrow> (Inl er, u') | (Inr x, u') \<Rightarrow> k x u')"
  unfolding quietly_def by (auto split: prod.splits sum.splits) (use quiet_trans in blast)+

lemma quietly_verity [quiet]: "quietly (bindS (upIO e) (\<lambda>_. bindS (upIO e) (\<lambda>_. bindS (upIO e) (\<lambda>_. case v of Some er \<Rightarrow> failS er | None \<Rightarrow> retS ()))))"
  by (intro quiet) (auto intro: quiet split: option.splits)

lemma quietly_bindByVerity [quiet]: "quietly (bindByVerity e cfg img rel h)"
  unfolding bindByVerity_def [abs_def] by (intro quietly_orElse quiet)

lemma quietly_Load [quiet]: "quietly (onSlots (Load e))"
  unfolding quietly_def onSlots_def by (auto simp: quiet_def split: prod.splits sum.splits dest: Load_frame)

subsection \<open>What each step established\<close>

lemma certifiedReleaseKey_Inr:
  assumes "certifiedReleaseKey e cfg u = (Inr (pub, fl), u')"
  shows "\<exists>cert now. ValidateReleaseCertAt (ue_sign e) (uc_AnchorPub cfg) cert now = None \<and> floorInForce cfg u \<le> rc_MinEpoch cert \<and> DecodePubKey cert = Inr pub
    \<and> floorInForce cfg u \<le> fl"
proof -
  have r: "raiseFloor e cfg cert f v = (Inr g, w) \<Longrightarrow> f \<le> g" for cert f v g w
    by (auto simp: raiseFloor_def split: option.splits prod.splits sum.splits if_splits)
  show ?thesis using assms r unfolding certifiedReleaseKey_def Let_def
    by (simp only: comp_Inr guard_Inr) (fastforce simp: not_less)
qed

lemma ParseAndVerify_Inr:
  assumes "ParseAndVerify e data sig pub fl = Inr m"
  shows "ue_manifest e data = Some m" "Verify_sig (ue_sign e) pub (Canonical (json_manifest m)) sig" "fl \<le> sm_MinEpoch m"
    "ValidateSecuritySurface (sm_IsSecurity m) (sm_Severity m) (sm_Notes m) = None"
  using assms by (auto simp: ParseAndVerify_def split: option.splits if_splits)

lemma fetchManifest_Inr:
  assumes "fetchManifest e cfg pub fl u = (Inr (m, data), u')"
  shows "\<exists>sig. ParseAndVerify e data sig pub fl = Inr m"
  using assms unfolding fetchManifest_def by (auto simp: comp_Inr guard_Inr)

lemma bindByVerity_Inr: "bindByVerity e cfg img rel h u = (Inr x, u') \<Longrightarrow> \<exists>tree. ue_verity e img tree (ToLower (TrimSpace h)) = VerityOk"
  by (auto simp: bindByVerity_def comp_Inr verityVerifyWithTool_def split: prod.splits sum.splits option.splits verity_answer.splits)

text \<open>What the channel proved about an image before it is staged.\<close>

definition certified_image :: "upd_env \<Rightarrow> UpdaterConfig \<Rightarrow> int \<Rightarrow> bytes \<Rightarrow> bool" where
  "certified_image e cfg fl img \<longleftrightarrow> (\<exists>cert now pub data m msig payload isig tree.
     ValidateReleaseCertAt (ue_sign e) (uc_AnchorPub cfg) cert now = None \<and> fl \<le> rc_MinEpoch cert \<and> DecodePubKey cert = Inr pub
     \<and> ue_manifest e data = Some m \<and> Verify_sig (ue_sign e) pub (Canonical (json_manifest m)) msig \<and> fl \<le> sm_MinEpoch m
     \<and> sm_Latest m \<noteq> uc_RunningVersion cfg
     \<and> ue_image e data = Some payload \<and> Verify_sig (ue_sign e) pub (Canonical (json_image payload)) isig
     \<and> ip_Path payload = VersionPath (sm_Latest m) \<and> int (length img) = ip_Size payload
     \<and> ue_verity e img tree (ToLower (TrimSpace (ip_RootHash payload))) = VerityOk)"

text \<open>The one change staging makes.\<close>

definition staged_as :: "string \<Rightarrow> bytes \<Rightarrow> up_state \<Rightarrow> up_state \<Rightarrow> bool" where
  "staged_as slot img u u' \<longleftrightarrow> slot_files (up_disk u') = (slot_files (up_disk u))((slot, osCoreName) := Some img)
     \<and> boot_file (up_disk u') = boot_file (up_disk u) \<and> up_prompts u' = up_prompts u"

lemma quiet_staged: "quiet u v \<Longrightarrow> staged_as s img v w \<Longrightarrow> staged_as s img u w"
  by (simp add: quiet_def staged_as_def)

lemma StageInto_cases:
  assumes "onSlots (StageInto e bs slot name img) u = (r, u')" "name = osCoreName"
  obtains (ok) "r = Inr ()" "staged_as slot img u u'" | (failed) er where "r = Inl er" "quiet u u'"
proof -
  obtain r1 d1 where s: "StageInto e bs slot name img (up_disk u) = (r1, d1)" by fastforce
  have u': "u' = u\<lparr>up_disk := d1\<rparr>" "r = (case r1 of Inl er \<Rightarrow> Inl (ErrUpdateSlot er) | Inr x \<Rightarrow> Inr x)"
    using assms(1) s by (auto simp: onSlots_def split: sum.splits)
  show thesis
  proof (cases "valid_slot slot \<and> slot \<noteq> bs_Active bs \<and> CHR ''/'' \<notin> set name")
    case True
    with s have "slotIO (atomicWrite (be_sign e) (\<lambda>d. d\<lparr>slot_files := (slot_files d)((slot, name) := Some img)\<rparr>)) (up_disk u) = (r1, d1)"
      by (simp add: StageInto_def)
    then show thesis by (cases rule: slotIO_atomicWrite) (use u' ok failed assms(2) in \<open>auto simp: staged_as_def quiet_def\<close>)
  next
    case False
    then show thesis using s u' failed by (auto simp: StageInto_def failS_def quiet_def split: if_splits)
  qed
qed

lemma three_io: "quietly (bindS (upIO e) (\<lambda>_. bindS (upIO e) (\<lambda>_. upIO e)))"
  by (intro quiet)

text \<open>
  What staging an image needs of the channel it comes from: fetching changes nothing on the
  device, and a binding that succeeds means \<open>veritysetup\<close> accepted the image.
\<close>

locale image_channel =
  fixes e :: upd_env
    and stream :: "string \<Rightarrow> (bytes \<times> bool) upd"
    and get :: "string \<Rightarrow> bytes upd"
    and bindV :: "bytes \<Rightarrow> string \<Rightarrow> string \<Rightarrow> unit upd"
  assumes stream_quiet: "quietly (stream path)"
    and get_quiet: "quietly (get path)"
    and bindV_quiet: "quietly (bindV img path h)"
    and bindV_Inr: "bindV img path h u = (Inr x, u') \<Longrightarrow> \<exists>tree. ue_verity e img tree (ToLower (TrimSpace h)) = VerityOk"
begin

definition check_stage :: "string \<Rightarrow> string \<Rightarrow> ImagePayload \<Rightarrow> bytes \<Rightarrow> BootState \<Rightarrow> string \<Rightarrow> bytes \<Rightarrow> unit upd" where
  "check_stage sp hp payload pub bs slot img =
     bindS (get sp) (\<lambda>sigData.
       case ParseSig (ue_sign e) sigData of Inl er \<Rightarrow> failS (ErrUpdateSig er)
       | Inr sg \<Rightarrow>
           if \<not> Verify_sig (ue_sign e) pub (Canonical (json_image payload)) (sg_SigBytes sg) then failS ErrImageBadSignature
           else if int (length img) \<noteq> ip_Size payload then failS ErrHashMismatch
           else bindS (bindV img hp (ip_RootHash payload)) (\<lambda>_. bindS (upIO e) (\<lambda>_. onSlots (StageInto (ue_boot e) bs slot osCoreName img))))"

lemma check_stage_cases:
  assumes "check_stage sp hp payload pub bs slot img u = (r, u')"
  obtains (ok) isig tree where "r = Inr ()" "staged_as slot img u u'" "Verify_sig (ue_sign e) pub (Canonical (json_image payload)) isig"
      "int (length img) = ip_Size payload" "ue_verity e img tree (ToLower (TrimSpace (ip_RootHash payload))) = VerityOk"
  | (failed) er where "r = Inl er" "quiet u u'"
proof -
  from assms [unfolded check_stage_def] get_quiet show thesis
  proof (cases rule: quiet_E)
    case (went sigData u1)
    show thesis
    proof (cases "\<exists>sg. ParseSig (ue_sign e) sigData = Inr sg \<and> Verify_sig (ue_sign e) pub (Canonical (json_image payload)) (sg_SigBytes sg) \<and> int (length img) = ip_Size payload")
      case True
      then obtain sg where sg: "ParseSig (ue_sign e) sigData = Inr sg" "Verify_sig (ue_sign e) pub (Canonical (json_image payload)) (sg_SigBytes sg)"
        "int (length img) = ip_Size payload" by blast
      from went(3) sg have "bindS (bindV img hp (ip_RootHash payload)) (\<lambda>_. bindS (upIO e) (\<lambda>_. onSlots (StageInto (ue_boot e) bs slot osCoreName img))) u1 = (r, u')" by simp
      from this bindV_quiet show thesis
      proof (cases rule: quiet_E)
        case 2: (went x u2)
        from 2(3) quietly_io(1) show thesis
        proof (cases rule: quiet_E)
          case 3: (went y u3)
          have q: "quiet u u3" using quiet_trans went(2) 2(2) 3(2) by blast
          from 3(3) show thesis
            by (cases rule: StageInto_cases) (use ok sg bindV_Inr [OF 2(1)] quiet_staged [OF q] failed quiet_trans [OF q] in blast)+
        qed (use failed quiet_trans went(2) 2(2) in blast)
      qed (use failed quiet_trans went(2) in blast)
    qed (use went(2,3) failed in \<open>auto simp: failS_def split: sum.splits if_splits\<close>)
  qed (use failed in blast)
qed

lemma download_cases:
  assumes "bindS (stream path) (\<lambda>(img, w). bindS (upIO e) (\<lambda>_. if \<not> w then failS ErrFetchBody
      else bindS (upIO e) (\<lambda>_. bindS (upIO e) (\<lambda>_. bindS (upIO e) (\<lambda>_. check_stage sp hp payload pub bs slot img))))) u = (r, u')"
  obtains (ok) img isig tree where "r = Inr ()" "staged_as slot img u u'" "Verify_sig (ue_sign e) pub (Canonical (json_image payload)) isig"
      "int (length img) = ip_Size payload" "ue_verity e img tree (ToLower (TrimSpace (ip_RootHash payload))) = VerityOk"
  | (failed) er where "r = Inl er" "quiet u u'"
proof -
  from assms stream_quiet show thesis
  proof (cases rule: quiet_E)
    case (went a u1)
    obtain img w where a: "a = (img, w)" by (cases a)
    from went(3) [unfolded a prod.case] quietly_io(1) show thesis
    proof (cases rule: quiet_E)
      case 2: (went b u2)
      note q2 = quiet_trans [OF went(2) 2(2)]
      show thesis
      proof (cases w)
        case True
        with 2(3) have "bindS (bindS (upIO e) (\<lambda>_. bindS (upIO e) (\<lambda>_. upIO e))) (\<lambda>_. check_stage sp hp payload pub bs slot img) u2 = (r, u')"
          by (simp add: bindS_assoc)
        from this three_io show thesis
        proof (cases rule: quiet_E)
          case 3: (went c u3)
          note q3 = quiet_trans [OF q2 3(2)]
          from 3(3) show thesis by (cases rule: check_stage_cases) (use ok quiet_staged [OF q3] failed quiet_trans [OF q3] in blast)+
        qed (use failed quiet_trans [OF q2] in blast)
      qed (use 2(3) q2 failed in \<open>auto simp: failS_def\<close>)
    qed (use failed quiet_trans [OF went(2)] in blast)
  qed (use failed in blast)
qed

end

interpretation upd: image_channel e "Fetch e cfg" "fetchFile e cfg" "bindByVerity e cfg" for e cfg
  by unfold_locales (auto intro: quiet dest: bindByVerity_Inr)

lemma verifyAndStage_channel:
  "verifyAndStage e cfg latest payload pub bs slot img = upd.check_stage e cfg (VersionSigPath latest) (VersionHashtreePath latest) payload pub bs slot img"
  by (simp only: verifyAndStage_def upd.check_stage_def)

lemma downloadToSlot_cases:
  assumes "downloadToSlot e cfg m data pub bs slot u = (r, u')"
  obtains (ok) img payload isig tree where "r = Inr ()" "staged_as slot img u u'" "ue_image e data = Some payload"
      "ip_Path payload = VersionPath (sm_Latest m)" "Verify_sig (ue_sign e) pub (Canonical (json_image payload)) isig"
      "int (length img) = ip_Size payload" "ue_verity e img tree (ToLower (TrimSpace (ip_RootHash payload))) = VerityOk"
  | (failed) er where "r = Inl er" "quiet u u'"
proof (cases "\<exists>payload dir. ue_image e data = Some payload \<and> ip_RootHash payload \<noteq> [] \<and> ip_Path payload \<noteq> [] \<and> ip_Path payload = VersionPath (sm_Latest m) \<and> SlotDir slot = Inr dir")
  case True
  then obtain payload dir where p: "ue_image e data = Some payload" "ip_RootHash payload \<noteq> []" "ip_Path payload \<noteq> []" "ip_Path payload = VersionPath (sm_Latest m)"
    "SlotDir slot = Inr dir" by blast
  from assms p have "bindS (Fetch e cfg (VersionPath (sm_Latest m))) (\<lambda>(img, w). bindS (upIO e) (\<lambda>_. if \<not> w then failS ErrFetchBody
      else bindS (upIO e) (\<lambda>_. bindS (upIO e) (\<lambda>_. bindS (upIO e) (\<lambda>_.
        upd.check_stage e cfg (VersionSigPath (sm_Latest m)) (VersionHashtreePath (sm_Latest m)) payload pub bs slot img))))) u = (r, u')"
    unfolding verifyAndStage_channel [symmetric] by (simp add: downloadToSlot_def)
  then show thesis by (cases rule: upd.download_cases) (use ok p failed in blast)+
qed (use assms failed in \<open>auto simp: downloadToSlot_def failS_def Let_def split: option.splits sum.splits if_splits\<close>)

lemma setPendingStep:
  assumes "boot_ok e" "onSlots (SetPending e bs slot) u = (r, u')"
  shows "slot_files (up_disk u') = slot_files (up_disk u)" "up_prompts u' = up_prompts u"
    "r = Inr x \<Longrightarrow> bootState e (up_disk u') = Some \<lparr>bs_Active = bs_Active bs, bs_Pending = slot, bs_BootCounter = 0, bs_LastKnownGood = bs_LastKnownGood bs\<rparr>"
    "r = Inl er \<Longrightarrow> boot_file (up_disk u') = boot_file (up_disk u)"
proof -
  obtain r1 d1 where p: "SetPending e bs slot (up_disk u) = (r1, d1)" by fastforce
  have r: "r = (case r1 of Inl er \<Rightarrow> Inl (ErrUpdateSlot er) | Inr x \<Rightarrow> Inr x)" "u' = u\<lparr>up_disk := d1\<rparr>"
    using assms(2) p by (auto simp: onSlots_def split: sum.splits)
  have "slot_files d1 = slot_files (up_disk u) \<and> (case r1 of Inl _ \<Rightarrow> boot_file d1 = boot_file (up_disk u)
      | Inr _ \<Rightarrow> bootState e d1 = Some \<lparr>bs_Active = bs_Active bs, bs_Pending = slot, bs_BootCounter = 0, bs_LastKnownGood = bs_LastKnownGood bs\<rparr>)"
    using slot_ops(1) [OF p] by (rule disjE) (erule saved_cases; use assms(1) in \<open>auto simp: bootState_def boot_ok_def\<close> | auto)+
  with r show "slot_files (up_disk u') = slot_files (up_disk u)" "up_prompts u' = up_prompts u"
    "r = Inr x \<Longrightarrow> bootState e (up_disk u') = Some \<lparr>bs_Active = bs_Active bs, bs_Pending = slot, bs_BootCounter = 0, bs_LastKnownGood = bs_LastKnownGood bs\<rparr>"
    "r = Inl er \<Longrightarrow> boot_file (up_disk u') = boot_file (up_disk u)" by (auto split: sum.splits)
qed

lemma pendingStep:
  assumes "boot_ok e" "bindS (onSlots (SetPending e bs slot)) (\<lambda>_. rebootPrompt cfg) u = (r, u')"
  shows "slot_files (up_disk u') = slot_files (up_disk u) \<and> (if r = Inr () then bootState e (up_disk u') = Some \<lparr>bs_Active = bs_Active bs, bs_Pending = slot,
      bs_BootCounter = 0, bs_LastKnownGood = bs_LastKnownGood bs\<rparr> else boot_file (up_disk u') = boot_file (up_disk u))"
  using assms(2) by (cases rule: bindS_E) (auto simp: rebootPrompt_def dest: setPendingStep [OF assms(1)])

lemma stage_then_pending:
  assumes "boot_ok (ue_boot e)" "quiet u u3"
    "bindS (downloadToSlot e cfg m data pub bs slot) (\<lambda>_. bindS (onSlots (SetPending (ue_boot e) bs slot)) (\<lambda>_. rebootPrompt cfg)) u3 = (r, u')"
  obtains (failed) "r \<noteq> Inr ()" "quiet u u'"
  | (ok) img payload isig tree where "ue_image e data = Some payload"
      "ip_Path payload = VersionPath (sm_Latest m)" "Verify_sig (ue_sign e) pub (Canonical (json_image payload)) isig"
      "int (length img) = ip_Size payload" "ue_verity e img tree (ToLower (TrimSpace (ip_RootHash payload))) = VerityOk"
      "slot_files (up_disk u') = (slot_files (up_disk u))((slot, osCoreName) := Some img)"
      "if r = Inr () then bootState (ue_boot e) (up_disk u') = Some \<lparr>bs_Active = bs_Active bs, bs_Pending = slot, bs_BootCounter = 0, bs_LastKnownGood = bs_LastKnownGood bs\<rparr>
       else boot_file (up_disk u') = boot_file (up_disk u)"
  using assms(3)
proof (cases rule: bindS_E)
  case (stop er)
  from stop(1) show thesis by (cases rule: downloadToSlot_cases) (use stop(2) failed quiet_trans [OF assms(2)] in auto)
next
  case (go x u4)
  from go(1) show thesis
  proof (cases rule: downloadToSlot_cases)
    case 1: (ok img payload isig tree)
    have s: "staged_as slot img u u4" by (rule quiet_staged [OF assms(2) 1(2)])
    show thesis using ok [OF 1(3-7)] pendingStep [OF assms(1) go(2)] s by (auto simp: staged_as_def split: if_splits)
  qed simp
qed

end
