(* ===== verification/Os_Release.thy ===== *)
theory Os_Release
  imports Os_Update_Run
begin

text \<open>
  From the offline signer to the running device: signer and verifiers compute the same bytes
  of a manifest, a properly published release is staged, what an accepted manifest may show
  its owner, and the boot gate.
\<close>

subsection \<open>Release notes\<close>

lemma cont_byte_high: "lead_byte b = Some (n, lo, hi) \<Longrightarrow> conts_ok n lo hi cs \<Longrightarrow> length cs = n \<Longrightarrow> \<forall>c \<in> set cs. 0x80 \<le> (of_char c :: nat)"
  by (auto simp: lead_byte_def conts_ok_def cont_byte_def list_all_iff split: if_splits list.splits)

text \<open>An ASCII byte of a valid string is a rune of its own.\<close>

lemma ascii_rune:
  assumes "ValidString s" "c \<in> set s" "of_char c < (0x80 :: nat)"
  shows "(of_char c, [c]) \<in> set (runes s)"
proof -
  have "c \<in> set (concat (map snd (runes s)))" using assms(2) by (simp only: runes_concat)
  then obtain p where p: "p \<in> set (runes s)" "c \<in> set (snd p)" by auto
  obtain r bs where rb: "p = (r, bs)" by (cases p)
  have "good_rune (r, bs)" using runes_good [OF assms(1)] p(1) rb by blast
  then show ?thesis
  proof (cases rule: good_cases)
    case ascii
    then show ?thesis using p rb by auto
  next
    case (multi c' cs n lo hi)
    have "0x80 \<le> (of_char c' :: nat)" using lead_byte_ge [OF multi(2)] by blast
    moreover have "c = c' \<or> c \<in> set cs" using p(2) rb multi(1) by simp
    ultimately show ?thesis using cont_byte_high [OF multi(2-4)] assms(3) by auto
  qed
qed

lemma surface_bounds:
  assumes "ValidateSecuritySurface sec sev notes = None"
  shows "length notes \<le> 200 \<and> (\<forall>c \<in> set notes. 32 \<le> (of_char c :: nat) \<and> of_char c \<noteq> (127 :: nat))
    \<and> (\<forall>(r, _) \<in> set (runes notes). \<not> IsControl r \<and> \<not> IsFormat r)
    \<and> \<not> Contains (ToLower notes) ''://'' \<and> \<not> Contains (ToLower notes) ''www.''
    \<and> (if sec then sev \<in> {''low'', ''medium'', ''high'', ''critical''} else sev = [])"
proof -
  have n: "ValidateReleaseNotes notes = None" and sev: "if sec then sev \<in> {''low'', ''medium'', ''high'', ''critical''} else sev = []"
    using assms by (auto simp: ValidateSecuritySurface_def validSeverity_def Severities_def split: if_splits)
  have rn: "\<forall>(r, _) \<in> set (runes notes). \<not> IsControl r \<and> \<not> IsFormat r"
    using n by (auto simp: ValidateReleaseNotes_def list_ex_iff split: if_splits)
  have "32 \<le> (of_char c :: nat) \<and> of_char c \<noteq> (127 :: nat)" if c: "c \<in> set notes" for c
  proof (cases "of_char c < (0x80 :: nat)")
    case True
    have "ValidString notes" using n c by (auto simp: ValidateReleaseNotes_def split: if_splits)
    then have "\<not> IsControl (of_char c)" using ascii_rune [OF _ c True] rn by blast
    then show ?thesis unfolding IsControl_def by linarith
  qed simp
  moreover have "length notes \<le> 200" "\<not> Contains (ToLower notes) ''://'' \<and> \<not> Contains (ToLower notes) ''www.''"
    using n by (auto simp: ValidateReleaseNotes_def MaxNotesBytes_def ToLower_def split: if_splits)
  ultimately show ?thesis using rn sev by blast
qed

text \<open>
  What an accepted manifest can put in front of the box owner: notes of at most 200
  bytes, on one line (no byte below 32 and no DEL), with no control or invisible format
  character in any encoding and no link in any ASCII case; and a severity from the closed set
  on security releases, none on others.
\<close>

theorem accepted_notes_bounded:
  assumes "ParseAndVerify e data sig pub fl = Inr m"
  shows "length (sm_Notes m) \<le> 200 \<and> (\<forall>c \<in> set (sm_Notes m). 32 \<le> (of_char c :: nat) \<and> of_char c \<noteq> (127 :: nat))
    \<and> (\<forall>(r, _) \<in> set (runes (sm_Notes m)). \<not> IsControl r \<and> \<not> IsFormat r)
    \<and> \<not> Contains (ToLower (sm_Notes m)) ''://'' \<and> \<not> Contains (ToLower (sm_Notes m)) ''www.''
    \<and> (if sm_IsSecurity m then sm_Severity m \<in> {''low'', ''medium'', ''high'', ''critical''} else sm_Severity m = [])"
  by (rule surface_bounds [OF ParseAndVerify_Inr(4) [OF assms]])

subsection \<open>Signer and verifier agree\<close>

text \<open>The manifest the box decodes from a payload, and the image payload inside it.\<close>

definition manifest_of :: "ManifestPayload \<Rightarrow> StableManifest" where
  "manifest_of p = \<lparr>sm_Channel = mp_Channel p, sm_Latest = mp_Latest p, sm_MinEpoch = mp_MinEpoch p, sm_RootHash = mp_RootHash p, sm_Size = mp_Size p,
     sm_ReleasedAt = mp_ReleasedAt p, sm_Path = mp_Path p, sm_IsSecurity = mp_IsSecurity p, sm_Severity = mp_Severity p, sm_Notes = mp_Notes p\<rparr>"

definition image_of :: "ManifestPayload \<Rightarrow> ImagePayload" where
  "image_of p = \<lparr>ip_Path = mp_Path p, ip_RootHash = mp_RootHash p, ip_Size = mp_Size p, ip_MinEpoch = mp_MinEpoch p, ip_ReleasedAt = mp_ReleasedAt p\<rparr>"

lemma same_bytes: "Canonical (json_manifest (manifest_of p)) = Canonical (json_payload p)"
  by (cases "mp_IsSecurity p"; cases "mp_Severity p = []"; cases "mp_Notes p = []")
    (simp_all add: Canonical_def encodeObject_def json_manifest_def json_payload_def manifest_of_def omitempty_def less_char_def less_eq_char_def)

lemma other_bytes: "Canonical (json_image i) \<noteq> Canonical (json_payload p)"
  by (cases "mp_IsSecurity p"; cases "mp_Severity p = []"; cases "mp_Notes p = []")
    (simp_all add: Canonical_def encodeObject_def json_image_def json_payload_def omitempty_def less_char_def less_eq_char_def joinComma_Cons
      json_quote_plain escaped_def)

subsection \<open>A published release\<close>

text \<open>Some mirror serves a file whole, at any time, and the mirrors before it do not answer 200.\<close>

definition serves :: "upd_env \<Rightarrow> UpdaterConfig \<Rightarrow> string \<Rightarrow> bytes \<Rightarrow> bool" where
  "serves e cfg rel data \<longleftrightarrow> (\<exists>pre base post. Resolve (ue_read e) (uc_Source cfg) = pre @ base # post
     \<and> (\<forall>n. ue_get e n (base @ ''/'' @ rel) = Answer 200 data True)
     \<and> (\<forall>n. \<forall>b \<in> set pre. \<forall>body w. ue_get e n (b @ ''/'' @ rel) \<noteq> Answer 200 body w))"

definition same_but_ios :: "up_state \<Rightarrow> up_state \<Rightarrow> bool" where
  "same_but_ios u u' \<longleftrightarrow> (\<exists>n. u' = u\<lparr>up_disk := (up_disk u)\<lparr>ios := n\<rparr>\<rparr>)"

lemma same_but_ios_trans: "same_but_ios u v \<Longrightarrow> same_but_ios v w \<Longrightarrow> same_but_ios u w"
  by (auto simp: same_but_ios_def)

lemma same_but_ios_tickU: "same_but_ios u (tickU u)"
  by (auto simp: same_but_ios_def tickU_def)

lemma fetchLoop_serves:
  assumes "\<And>n. ue_get e n (base @ ''/'' @ rel) = Answer 200 data True"
    "\<And>n b body w. b \<in> set pre \<Longrightarrow> ue_get e n (b @ ''/'' @ rel) \<noteq> Answer 200 body w"
  shows "\<exists>u'. fetchLoop e rel (pre @ base # post) u = (Inr (data, True), u') \<and> same_but_ios u u'"
  using assms(2)
proof (induction pre arbitrary: u)
  case Nil
  then show ?case using assms(1) same_but_ios_tickU by simp
next
  case (Cons b pre)
  have "\<exists>u'. fetchLoop e rel (pre @ base # post) (tickU u) = (Inr (data, True), u') \<and> same_but_ios (tickU u) u'" by (rule Cons.IH) (use Cons.prems in simp)
  then show ?case using Cons.prems [of b "ios (up_disk u)"] same_but_ios_trans [OF same_but_ios_tickU]
    by (cases "ue_get e (ios (up_disk u)) (b @ ''/'' @ rel)") auto
qed

lemma Fetch_serves:
  assumes "serves e cfg rel data" "dropWhile (\<lambda>c. c = CHR ''/'') rel = rel"
  shows "\<exists>u'. Fetch e cfg rel u = (Inr (data, True), u') \<and> same_but_ios u u'" "\<exists>u'. fetchFile e cfg rel u = (Inr data, u') \<and> same_but_ios u u'"
proof -
  obtain pre base post where s: "Resolve (ue_read e) (uc_Source cfg) = pre @ base # post" "\<And>n. ue_get e n (base @ ''/'' @ rel) = Answer 200 data True"
    "\<And>n b body w. b \<in> set pre \<Longrightarrow> ue_get e n (b @ ''/'' @ rel) \<noteq> Answer 200 body w" using assms(1) unfolding serves_def by blast
  show f: "\<exists>u'. Fetch e cfg rel u = (Inr (data, True), u') \<and> same_but_ios u u'"
    using fetchLoop_serves [OF s(2,3), where post = post and u = u] s(1) assms(2) by (simp add: Fetch_def)
  then show "\<exists>u'. fetchFile e cfg rel u = (Inr data, u') \<and> same_but_ios u u'" by (auto simp: fetchFile_def bindS_def retS_def)
qed

text \<open>Running an operation that succeeds, inside a bind.\<close>

lemma bindS_next: "\<exists>v. m u = (Inr x, v) \<and> P u v \<Longrightarrow> (\<And>v. m u = (Inr x, v) \<Longrightarrow> P u v \<Longrightarrow> \<exists>w. f x v = (Inr y, w) \<and> Q w) \<Longrightarrow> \<exists>w. bindS m f u = (Inr y, w) \<and> Q w"
  by (auto simp: bindS_def)

lemma upIO_next: "disk_answers (ue_boot e) \<Longrightarrow> \<exists>v. upIO e u = (Inr (), v) \<and> same_but_ios u v"
  by (auto simp: upIO_def disk_answers_def intro: same_but_ios_tickU)

lemma upNow_next: "\<exists>v. upNow e u = (Inr (ue_clock e (ios (up_disk u))), v) \<and> same_but_ios u v"
  by (auto simp: upNow_def intro: same_but_ios_tickU)

text \<open>Certificate and key of a channel that is in order.\<close>

definition good_cert :: "upd_env \<Rightarrow> UpdaterConfig \<Rightarrow> up_state \<Rightarrow> bytes \<Rightarrow> ReleaseCert \<Rightarrow> bytes \<Rightarrow> bool" where
  "good_cert e cfg u certData cert pub \<longleftrightarrow> serves e cfg ReleaseCertBucketPath certData \<and> ParseReleaseCert (ue_sign e) certData = Inr cert
     \<and> (\<forall>n. ValidateReleaseCertAt (ue_sign e) (uc_AnchorPub cfg) cert (ue_clock e n) = None) \<and> floorInForce cfg u \<le> rc_MinEpoch cert \<and> DecodePubKey cert = Inr pub"

lemma certifiedReleaseKey_good:
  assumes "good_cert e cfg u certData cert pub"
  shows "\<exists>fl u'. certifiedReleaseKey e cfg u = (Inr (pub, fl), u') \<and> fl \<le> rc_MinEpoch cert"
proof -
  note g = assms [unfolded good_cert_def]
  obtain v where v: "certBytes e cfg u = (Inr certData, v)"
    using Fetch_serves(2) [of e cfg ReleaseCertBucketPath certData u] g by (auto simp: certBytes_def ReleaseCertBucketPath_def)
  have "\<exists>fl w. raiseFloor e cfg cert (floorInForce cfg u) (tickU v) = (Inr fl, w) \<and> fl \<le> rc_MinEpoch cert"
    using g by (auto simp: raiseFloor_def split: option.splits prod.splits sum.splits)
  then show ?thesis using v g by (auto simp: certifiedReleaseKey_def Let_def bindS_def upNow_def retS_def)
qed

text \<open>A release signed with the offline tools and put on the mirrors.\<close>

definition published :: "upd_env \<Rightarrow> UpdaterConfig \<Rightarrow> bytes \<Rightarrow> string \<Rightarrow> ManifestPayload \<Rightarrow> bytes \<Rightarrow> bytes \<Rightarrow> bool" where
  "published e cfg priv kid p data img \<longleftrightarrow> (\<exists>msg mfile isg ifile tree.
     SignManifest (ue_sign e) priv kid p = Inr msg \<and> MarshalSig (ue_sign e) msg = Inr mfile
     \<and> SignImage (ue_sign e) priv kid (image_of p) = Inr isg \<and> MarshalSig (ue_sign e) isg = Inr ifile
     \<and> ue_manifest e data = Some (manifest_of p) \<and> ue_image e data = Some (image_of p)
     \<and> serves e cfg ManifestBucketPath data \<and> serves e cfg ManifestSigBucketPath mfile
     \<and> serves e cfg (VersionPath (mp_Latest p)) img \<and> serves e cfg (VersionSigPath (mp_Latest p)) ifile \<and> serves e cfg (VersionHashtreePath (mp_Latest p)) tree
     \<and> mp_Channel p \<noteq> [] \<and> mp_Latest p \<noteq> [] \<and> mp_RootHash p \<noteq> [] \<and> mp_Path p = VersionPath (mp_Latest p) \<and> int (length img) = mp_Size p
     \<and> ue_verity e img tree (ToLower (TrimSpace (mp_RootHash p))) = VerityOk)"

lemma plain_paths: "dropWhile (\<lambda>c. c = CHR ''/'') ManifestBucketPath = ManifestBucketPath" "dropWhile (\<lambda>c. c = CHR ''/'') ManifestSigBucketPath = ManifestSigBucketPath"
  "dropWhile (\<lambda>c. c = CHR ''/'') (VersionPath v) = VersionPath v" "dropWhile (\<lambda>c. c = CHR ''/'') (VersionSigPath v) = VersionSigPath v"
  "dropWhile (\<lambda>c. c = CHR ''/'') (VersionHashtreePath v) = VersionHashtreePath v"
  by (simp_all add: ManifestBucketPath_def ManifestSigBucketPath_def VersionPath_def VersionSigPath_def VersionHashtreePath_def)

lemma fetchManifest_good:
  assumes "published e cfg priv kid p data img" "b64_ok (ue_sign e)" "key_pair (ue_sign e) priv pub" "fl \<le> mp_MinEpoch p"
  shows "\<exists>u'. fetchManifest e cfg pub fl u = (Inr (manifest_of p, data), u')"
proof -
  obtain msg mfile where m: "SignManifest (ue_sign e) priv kid p = Inr msg" "MarshalSig (ue_sign e) msg = Inr mfile" "ue_manifest e data = Some (manifest_of p)"
    "serves e cfg ManifestBucketPath data" "serves e cfg ManifestSigBucketPath mfile" "mp_Channel p \<noteq> []" "mp_Latest p \<noteq> []" "mp_RootHash p \<noteq> []" "mp_Path p = VersionPath (mp_Latest p)"
    using assms(1) unfolding published_def by blast
  have ne: "VersionPath (mp_Latest p) \<noteq> []" by (simp add: VersionPath_def)
  have s: "ValidateSecuritySurface (mp_IsSecurity p) (mp_Severity p) (mp_Notes p) = None" "sg_SigBytes msg = se_sign (ue_sign e) priv (Canonical (json_payload p))"
    using m(1) by (auto simp: SignManifest_def Sign_sig_def split: if_splits option.splits)
  have "ParseAndVerify e data (sg_SigBytes msg) pub fl = Inr (manifest_of p)"
    using m s assms(3,4) same_bytes [of p] ne by (simp add: ParseAndVerify_def manifest_of_def Verify_sig_def key_pair_def)
  moreover obtain v where "fetchFile e cfg ManifestBucketPath u = (Inr data, v)" using Fetch_serves(2) [OF m(4) plain_paths(1)] by blast
  moreover obtain w where "fetchFile e cfg ManifestSigBucketPath v = (Inr mfile, w)" using Fetch_serves(2) [OF m(5) plain_paths(2)] by blast
  ultimately show ?thesis using ParseSig_MarshalSig [OF assms(2) m(2)] by (simp add: fetchManifest_def bindS_def setLastLatest_def retS_def)
qed

lemma StageInto_go:
  assumes "disk_answers e" "valid_slot slot" "slot \<noteq> bs_Active bs"
  shows "\<exists>v. onSlots (StageInto e bs slot osCoreName img) u = (Inr (), v) \<and> staged_as slot img u v"
  using assms by (simp add: onSlots_def StageInto_def osCoreName_def slotIO_def atomicWrite_def bindS_def io_def disk_answers_def staged_as_def)

lemma bindByVerity_good:
  assumes "disk_answers (ue_boot e)" "serves e cfg rel tree" "dropWhile (\<lambda>c. c = CHR ''/'') rel = rel" "ue_verity e img tree (ToLower (TrimSpace h)) = VerityOk"
  shows "\<exists>v. bindByVerity e cfg img rel h u = (Inr (), v) \<and> same_but_ios u v"
proof -
  obtain v where v: "fetchFile e cfg rel u = (Inr tree, v)" "same_but_ios u v" using Fetch_serves(2) [OF assms(2,3)] by blast
  have "same_but_ios u (tickU (tickU (tickU v)))" using v(2) same_but_ios_trans same_but_ios_tickU by blast
  then show ?thesis using v(1) assms(1,4) by (simp add: bindByVerity_def bindS_def upIO_def disk_answers_def verityVerifyWithTool_def retS_def)
qed

lemma same_staged: "same_but_ios u v \<Longrightarrow> staged_as s img v w \<Longrightarrow> staged_as s img u w"
  by (auto simp: same_but_ios_def staged_as_def)

lemma downloadToSlot_good:
  assumes "published e cfg priv kid p data img" "b64_ok (ue_sign e)" "key_pair (ue_sign e) priv pub" "disk_answers (ue_boot e)" "valid_slot slot" "slot \<noteq> bs_Active bs"
  shows "\<exists>u'. downloadToSlot e cfg (manifest_of p) data pub bs slot u = (Inr (), u') \<and> staged_as slot img u u'"
proof -
  obtain isg ifile tree where i: "SignImage (ue_sign e) priv kid (image_of p) = Inr isg" "MarshalSig (ue_sign e) isg = Inr ifile" "ue_image e data = Some (image_of p)"
    "serves e cfg (VersionPath (mp_Latest p)) img" "serves e cfg (VersionSigPath (mp_Latest p)) ifile" "serves e cfg (VersionHashtreePath (mp_Latest p)) tree"
    "mp_RootHash p \<noteq> []" "mp_Path p = VersionPath (mp_Latest p)" "int (length img) = mp_Size p" "ue_verity e img tree (ToLower (TrimSpace (mp_RootHash p))) = VerityOk"
    using assms(1) unfolding published_def by blast
  have sg: "Verify_sig (ue_sign e) pub (Canonical (json_image (image_of p))) (sg_SigBytes isg)"
    using i(1) assms(3) by (auto simp: SignImage_def Sign_sig_def Verify_sig_def key_pair_def split: if_splits)
  obtain v where v: "Fetch e cfg (VersionPath (mp_Latest p)) u = (Inr (img, True), v)" "same_but_ios u v" using Fetch_serves(1) [OF i(4) plain_paths(3)] by blast
  let ?v4 = "tickU (tickU (tickU (tickU v)))"
  obtain w where w: "fetchFile e cfg (VersionSigPath (mp_Latest p)) ?v4 = (Inr ifile, w)" "same_but_ios ?v4 w" using Fetch_serves(2) [OF i(5) plain_paths(4)] by blast
  obtain x where x: "bindByVerity e cfg img (VersionHashtreePath (mp_Latest p)) (mp_RootHash p) w = (Inr (), x)" "same_but_ios w x"
    using bindByVerity_good [OF assms(4) i(6) plain_paths(5) i(10)] by blast
  obtain y where y: "onSlots (StageInto (ue_boot e) bs slot osCoreName img) (tickU x) = (Inr (), y)" "staged_as slot img (tickU x) y"
    using StageInto_go [OF assms(4-6)] by blast
  have "same_but_ios u (tickU x)" using v(2) w(2) x(2) same_but_ios_trans same_but_ios_tickU by blast
  then have st: "staged_as slot img u y" using y(2) by (rule same_staged)
  have vs: "verifyAndStage e cfg (mp_Latest p) (image_of p) pub bs slot img ?v4 = (Inr (), y)"
    using w(1) x(1) y(1) ParseSig_MarshalSig [OF assms(2) i(2)] sg i(9) assms(4)
    by (simp add: verifyAndStage_def bindS_def upIO_def disk_answers_def image_of_def)
  have ne: "VersionPath (mp_Latest p) \<noteq> []" by (simp add: VersionPath_def)
  have "downloadToSlot e cfg (manifest_of p) data pub bs slot u = verifyAndStage e cfg (mp_Latest p) (image_of p) pub bs slot img ?v4"
    using v(1) i(3,7,8) ne assms(4,5) by (simp add: downloadToSlot_def Let_def image_of_def manifest_of_def SlotDir_def bindS_def upIO_def disk_answers_def)
  then show ?thesis using vs st by simp
qed

lemma published_run:
  assumes "boot_ok (ue_boot e)" "disk_answers (ue_boot e)" "b64_ok (ue_sign e)" "key_pair (ue_sign e) priv pub"
    and "bootState (ue_boot e) (up_disk u) = Some bs" "validate bs = None" "good_cert e cfg u certData cert pub" "published e cfg priv kid p data img"
    and "rc_MinEpoch cert \<le> mp_MinEpoch p" "mp_Latest p \<noteq> uc_RunningVersion cfg"
  shows "\<exists>u' slot. CheckAndUpdate e cfg u = (Inr (), u') \<and> InactiveSlot bs = Inr slot \<and> slot_files (up_disk u') (slot, osCoreName) = Some img
    \<and> bootState (ue_boot e) (up_disk u') = Some \<lparr>bs_Active = bs_Active bs, bs_Pending = slot, bs_BootCounter = 0, bs_LastKnownGood = bs_LastKnownGood bs\<rparr>"
proof -
  obtain slot where slot: "InactiveSlot bs = Inr slot" "valid_slot slot" "slot \<noteq> bs_Active bs" using InactiveSlot_valid [OF assms(6)] by blast
  obtain fl u1 where k: "certifiedReleaseKey e cfg u = (Inr (pub, fl), u1)" "fl \<le> rc_MinEpoch cert" using certifiedReleaseKey_good [OF assms(7)] by blast
  obtain u2 where m: "fetchManifest e cfg pub fl u1 = (Inr (manifest_of p, data), u2)"
    using fetchManifest_good [OF assms(8,3,4)] k(2) assms(9) by (meson order_trans)
  have q: "quiet u u2" by (rule quiet_trans [OF quietlyD [OF quietly_certifiedReleaseKey k(1)] quietlyD [OF quietly_fetchManifest m]])
  then have st2: "bootState (ue_boot e) (up_disk u2) = Some bs" using assms(5) by (simp add: bootState_def quiet_def)
  define u3 where "u3 = u2\<lparr>up_disk := (up_disk u2)\<lparr>ios := ios (up_disk u2) + 1\<rparr>\<rparr>"
  have l: "onSlots (Load (ue_boot e)) u2 = (Inr bs, u3)" using Load_go [OF assms(2) st2 assms(6)] by (simp add: onSlots_def u3_def)
  obtain u4 where d: "downloadToSlot e cfg (manifest_of p) data pub bs slot u3 = (Inr (), u4)" "staged_as slot img u3 u4"
    using downloadToSlot_good [OF assms(8,3,4,2) slot(2,3)] by blast
  let ?next = "\<lparr>bs_Active = bs_Active bs, bs_Pending = slot, bs_BootCounter = 0, bs_LastKnownGood = bs_LastKnownGood bs\<rparr>"
  have v: "validate ?next = None" using assms(6) slot(2) by (auto simp: validate_def split: if_splits)
  define u5 where "u5 = u4\<lparr>up_disk := (up_disk u4)\<lparr>boot_file := Some (be_boot (ue_boot e) ?next), ios := ios (up_disk u4) + 5\<rparr>\<rparr>"
  have p5: "onSlots (SetPending (ue_boot e) bs slot) u4 = (Inr ?next, u5)"
    using saved_go [OF assms(2) v, of "up_disk u4"] slot(2,3) by (simp add: onSlots_def SetPending_def u5_def)
  obtain u6 where r: "rebootPrompt cfg u5 = (Inr (), u6)" "up_disk u6 = up_disk u5" by (simp add: rebootPrompt_def)
  have ne: "sm_Latest (manifest_of p) \<noteq> uc_RunningVersion cfg" using assms(10) by (simp add: manifest_of_def)
  have "CheckAndUpdate e cfg u = (Inr (), u6)" using k(1) m l slot(1) d(1) p5 r(1) ne by (simp add: CheckAndUpdate_def bindS_def)
  moreover have "slot_files (up_disk u6) (slot, osCoreName) = Some img" using d(2) r(2) by (simp add: staged_as_def u5_def)
  moreover have "bootState (ue_boot e) (up_disk u6) = Some ?next" using r(2) stored_saved [OF assms(1)] by (simp add: u5_def)
  ultimately show ?thesis using slot(1) by blast
qed

text \<open>
  Claim C32. A release that was signed with the offline tools under a certified key and put on
  the mirrors is taken up: if the disk and \<open>veritysetup\<close> do their part, one check succeeds,
  the image is in the inactive slot and that slot is pending, and the administrator's apply
  request then makes it the active one with the old slot as the fallback. The mirrors tried
  before the one that serves a file may fail in any way; the release time must be in the form
  the device prints it in.
\<close>

theorem published_release_is_staged:
  assumes "boot_ok (ue_boot e)" "disk_answers (ue_boot e)" "b64_ok (ue_sign e)" "key_pair (ue_sign e) priv pub"
    and "bootState (ue_boot e) (up_disk u) = Some bs" "validate bs = None" "good_cert e cfg u certData cert pub" "published e cfg priv kid p data img"
    and "rc_MinEpoch cert \<le> mp_MinEpoch p" "mp_Latest p \<noteq> uc_RunningVersion cfg"
  shows "\<exists>u' slot d. CheckAndUpdate e cfg u = (Inr (), u') \<and> InactiveSlot bs = Inr slot \<and> slot_files (up_disk u') (slot, osCoreName) = Some img
    \<and> handleApply (ue_boot e) (Some True) (up_disk u') = (Inr slot, d) \<and> slot_files d (slot, osCoreName) = Some img
    \<and> bootState (ue_boot e) d = Some \<lparr>bs_Active = slot, bs_Pending = SlotNone, bs_BootCounter = 0, bs_LastKnownGood = bs_Active bs\<rparr>"
proof -
  obtain u' slot where r: "CheckAndUpdate e cfg u = (Inr (), u')" "InactiveSlot bs = Inr slot" "slot_files (up_disk u') (slot, osCoreName) = Some img"
    "bootState (ue_boot e) (up_disk u') = Some \<lparr>bs_Active = bs_Active bs, bs_Pending = slot, bs_BootCounter = 0, bs_LastKnownGood = bs_LastKnownGood bs\<rparr>"
    using published_run [OF assms] by blast
  let ?bs = "\<lparr>bs_Active = bs_Active bs, bs_Pending = slot, bs_BootCounter = 0, bs_LastKnownGood = bs_LastKnownGood bs\<rparr>"
  have v: "valid_slot slot" using InactiveSlot_valid [OF assms(6)] r(2) by auto
  then have v': "validate ?bs = None" "bs_Pending ?bs \<noteq> SlotNone" using assms(6) by (auto simp: validate_def valid_slot_def SlotNone_def SlotA_def SlotB_def split: if_splits)
  note a = handleApply_go [OF assms(2) r(4) v', of "Some True"]
  show ?thesis using r a stored_saved [OF assms(1), where d = "up_disk u'" and bs = "flipped ?bs"] by (auto simp: flipped_def)
qed

subsection \<open>Only certified images\<close>

text \<open>
  Claim C3. Whatever the mirrors, the network and the disk do, one update check changes the
  slots or the boot state only with a certified image: its release key is certified by the
  pinned root with an epoch not below the floor in force, that key signed both the manifest
  (at an epoch not below the floor, for another version than the running one) and the image
  payload read from it, the payload names the image that was fetched, and its size and
  dm-verity root hash are those of the bytes that were staged. The image goes into the
  inactive slot, and that slot is marked pending only when the check succeeds.
\<close>

theorem staged_image_is_certified:
  assumes "boot_ok (ue_boot e)" "CheckAndUpdate e cfg u = (r, u')"
  shows "(r \<noteq> Inr () \<and> quiet u u') \<or>
    (\<exists>img bs slot. certified_image e cfg (floorInForce cfg u) img \<and> bootState (ue_boot e) (up_disk u) = Some bs \<and> InactiveSlot bs = Inr slot
      \<and> slot_files (up_disk u') = (slot_files (up_disk u))((slot, osCoreName) := Some img)
      \<and> (if r = Inr () then bootState (ue_boot e) (up_disk u') = Some \<lparr>bs_Active = bs_Active bs, bs_Pending = slot, bs_BootCounter = 0, bs_LastKnownGood = bs_LastKnownGood bs\<rparr>
         else boot_file (up_disk u') = boot_file (up_disk u)))"
proof -
  from assms(2) [unfolded CheckAndUpdate_def] quietly_certifiedReleaseKey show ?thesis
  proof (cases rule: quiet_E)
    case (went kf u1)
    obtain pub fl where kf: "kf = (pub, fl)" by (cases kf)
    note K = certifiedReleaseKey_Inr [OF went(1) [unfolded kf]]
    from went(3) [unfolded kf prod.case] quietly_fetchManifest show ?thesis
    proof (cases rule: quiet_E)
      case 2: (went md u2)
      obtain m data where md: "md = (m, data)" by (cases md)
      obtain msig where M: "ParseAndVerify e data msig pub fl = Inr m" using fetchManifest_Inr [OF 2(1) [unfolded md]] by blast
      note q2 = quiet_trans [OF went(2) 2(2)]
      show ?thesis
      proof (cases "sm_Latest m = uc_RunningVersion cfg")
        case False
        with 2(3) md have "bindS (onSlots (Load (ue_boot e))) (\<lambda>bs. case InactiveSlot bs of Inl er \<Rightarrow> failS (ErrUpdateSlot er)
            | Inr inactive \<Rightarrow> bindS (downloadToSlot e cfg m data pub bs inactive) (\<lambda>_. bindS (onSlots (SetPending (ue_boot e) bs inactive)) (\<lambda>_. rebootPrompt cfg))) u2 = (r, u')"
          by simp
        from this quietly_Load show ?thesis
        proof (cases rule: quiet_E)
          case 3: (went bs u3)
          note q3 = quiet_trans [OF q2 3(2)]
          show ?thesis
          proof (cases "InactiveSlot bs")
            case (Inr slot)
            have bs: "bootState (ue_boot e) (up_disk u) = Some bs"
              using 3(1) q2 by (auto simp: onSlots_def quiet_def bootState_def split: prod.splits sum.splits dest: Load_Inr)
            from 3(3) Inr have "bindS (downloadToSlot e cfg m data pub bs slot) (\<lambda>_. bindS (onSlots (SetPending (ue_boot e) bs slot)) (\<lambda>_. rebootPrompt cfg)) u3 = (r, u')" by simp
            with assms(1) q3 show ?thesis
            proof (cases rule: stage_then_pending)
              case (ok img payload isig tree)
              then have "certified_image e cfg (floorInForce cfg u) img" using K ParseAndVerify_Inr [OF M] False unfolding certified_image_def by fastforce
              then show ?thesis using ok(6,7) bs Inr by blast
            qed blast
          qed (use 3(3) q3 in \<open>auto simp: failS_def\<close>)
        qed (use quiet_trans [OF q2] in blast)
      qed (use 2(3) md q2 in \<open>auto simp: failS_def\<close>)
    qed (use quiet_trans [OF went(2)] in blast)
  qed blast
qed

subsection \<open>A concrete channel\<close>

text \<open>Two mirrors, of which the first never answers, and a release of one byte.\<close>

definition exCert :: ReleaseCert where
  "exCert = \<lparr>rc_ReleasePubKey = EncodeToString exPub, rc_KeyID = ''r'', rc_NotAfter = FormatInt 100, rc_MinEpoch = 3, rc_RootSig = exB64 (replicate 64 CHR ''s'')\<rparr>"

definition exSign2 :: sign_env where
  "exSign2 = exSign\<lparr>se_cert := (\<lambda>x. Some (if x = ''o'' then exCert\<lparr>rc_MinEpoch := 2\<rparr> else exCert))\<rparr>"

definition exPayload :: ManifestPayload where
  "exPayload = \<lparr>mp_Channel = ''stable'', mp_Latest = ''v2'', mp_MinEpoch = 3, mp_Path = ''os/v2/os-core.squashfs'', mp_ReleasedAt = ''2026'', mp_RootHash = ''ab'',
     mp_Size = 1, mp_IsSecurity = False, mp_Severity = [], mp_Notes = []\<rparr>"

definition exSigFile :: bytes where
  "exSigFile = ''vulos-sig-v1'' @ CHR 0x0A # ''algorithm: ed25519'' @ CHR 0x0A # ''key-id: k'' @ CHR 0x0A # ''sig: '' @ exB64 (replicate 64 CHR ''s'') @ [CHR 0x0A]"

definition exUpd :: upd_env where
  "exUpd = \<lparr>ue_boot = exBoot\<lparr>be_sign := exSign2\<rparr>,
     ue_get = (\<lambda>_ url. if hd url = CHR ''d'' then NoAnswer
        else Answer 200 (if url = ''h/os/v2/os-core.squashfs'' then ''i'' else if url \<in> {''h/os/stable.json.sig'', ''h/os/v2/os-core.squashfs.sig''} then exSigFile else ''j'') True),
     ue_clock = (\<lambda>_. 50), ue_read = (\<lambda>_. None), ue_manifest = (\<lambda>_. Some (manifest_of exPayload)), ue_image = (\<lambda>_. Some (image_of exPayload)), ue_verity = (\<lambda>_ _ _. VerityOk)\<rparr>"

definition exUpCfg :: UpdaterConfig where
  "exUpCfg = \<lparr>uc_Source = NewSource [] [WithOverride ''d/'', WithMirrors [''h'']], uc_AnchorPub = exPub, uc_ReleaseCertPath = [], uc_EpochFloor = 0,
     uc_RunningVersion = ''v1'', uc_Interval = 0, uc_RebootPrompt = True\<rparr>"

definition exUp :: up_state where
  "exUp = \<lparr>up_disk = exDisk, up_epoch = Some \<lparr>es_current = 2\<rparr>, up_lastLatest = [], up_status = None, up_prompts = 0\<rparr>"

lemma exUpd_env: "boot_ok (ue_boot exUpd)" "disk_answers (ue_boot exUpd)" "b64_ok (ue_sign exUpd)" "key_pair (ue_sign exUpd) priv exPub" "epoch_ok (ue_sign exUpd)"
  using exBoot_ok exBoot_answers exSign_b64 exSign_pair [of priv] exSign_epoch
  by (simp_all add: exUpd_def boot_ok_def disk_answers_def b64_ok_def key_pair_def epoch_ok_def exSign2_def exBoot_def del: list_encode.simps)

lemma exCert_ok: "ParseReleaseCert exSign2 ''j'' = Inr exCert" "ParseReleaseCert exSign2 ''o'' = Inr (exCert\<lparr>rc_MinEpoch := 2\<rparr>)" "t \<le> 100 \<Longrightarrow> ValidateReleaseCertAt exSign2 exPub exCert t = None" "DecodePubKey exCert = Inr exPub"
proof -
  have ne: "EncodeToString exPub \<noteq> []" "exB64 (replicate 64 CHR ''s'') \<noteq> []" "FormatInt 100 \<noteq> []"
    using format_nat_digits(2) [of 100] by (simp_all add: EncodeToString_def exPub_def exB64_def FormatInt_def)
  then show "ParseReleaseCert exSign2 ''j'' = Inr exCert" "ParseReleaseCert exSign2 ''o'' = Inr (exCert\<lparr>rc_MinEpoch := 2\<rparr>)" by (simp_all add: ParseReleaseCert_def exSign2_def exCert_def)
  show "DecodePubKey exCert = Inr exPub" by (simp add: DecodePubKey_def exCert_def DecodeHex_Encode) (simp add: exPub_def)
  show "ValidateReleaseCertAt exSign2 exPub exCert t = None" if "t \<le> 100"
    using that FormatInt_parse [of 100] DecodeHex_Encode
    by (simp add: ValidateReleaseCertAt_def exSign2_def exSign_def exCert_def exB64_def Verify_sig_def) (simp add: exPub_def)
qed

lemma exServes: "serves exUpd exUpCfg rel (if rel = ''os/v2/os-core.squashfs'' then ''i'' else if rel \<in> {''os/stable.json.sig'', ''os/v2/os-core.squashfs.sig''} then exSigFile else ''j'')"
proof -
  have "Resolve (ue_read exUpd) (uc_Source exUpCfg) = [''d''] @ ''h'' # []"
    by (simp add: Resolve_def exUpd_def exUpCfg_def NewSource_def applyOption_def addURL_def TrimRightSlash_def TrimSpace_def is_space_def)
  then show ?thesis unfolding serves_def by (intro exI [of _ "[''d'']"] exI [of _ "''h''"] exI [of _ "[]"]) (simp add: exUpd_def)
qed

lemma exState_staged: "bootState (ue_boot exUpd) (up_disk exUp) = Some exState"
  using exDisk_stored by (auto simp: exUpd_def exUp_def bootState_def split: option.splits)

lemma exGood: "good_cert exUpd exUpCfg exUp ''j'' exCert exPub"
  using exServes [of ReleaseCertBucketPath] exCert_ok
  by (simp add: good_cert_def exUpd_def exUpCfg_def exUp_def floorInForce_def ReleaseCertBucketPath_def) (simp add: exCert_def)

lemma exSurface: "SignManifest exSign2 (replicate 64 CHR ''p'') ''k'' exPayload = Inr \<lparr>sg_Algorithm = ''ed25519'', sg_KeyID = ''k'', sg_SigBytes = replicate 64 CHR ''s''\<rparr>"
  by (simp add: SignManifest_def exPayload_def ValidateSecuritySurface_def ValidateReleaseNotes_def AlgorithmID_def Sign_sig_def exSign2_def exSign_def)

lemma exPublished: "published exUpd exUpCfg (replicate 64 CHR ''p'') ''k'' exPayload ''j'' ''i''"
proof -
  have m: "MarshalSig exSign2 \<lparr>sg_Algorithm = ''ed25519'', sg_KeyID = ''k'', sg_SigBytes = replicate 64 CHR ''s''\<rparr> = Inr exSigFile"
    by (simp add: MarshalSig_def AlgorithmID_def sigFilePrefix_def exSign2_def exSign_def exSigFile_def)
  have i: "SignImage exSign2 (replicate 64 CHR ''p'') ''k'' (image_of exPayload) = Inr \<lparr>sg_Algorithm = ''ed25519'', sg_KeyID = ''k'', sg_SigBytes = replicate 64 CHR ''s''\<rparr>"
    by (simp add: SignImage_def AlgorithmID_def Sign_sig_def exSign2_def exSign_def)
  have p: "mp_Latest exPayload = ''v2''" "mp_Path exPayload = ''os/v2/os-core.squashfs''" "mp_Channel exPayload \<noteq> []" "mp_RootHash exPayload \<noteq> []" "mp_Size exPayload = 1"
    by (simp_all add: exPayload_def)
  have e: "ue_sign exUpd = exSign2" "ue_manifest exUpd ''j'' = Some (manifest_of exPayload)" "ue_image exUpd ''j'' = Some (image_of exPayload)" "ue_verity exUpd x y z = VerityOk" for x y z
    by (simp_all add: exUpd_def)
  show ?thesis unfolding published_def e p
    using m i exSurface p e exServes [of ManifestBucketPath] exServes [of ManifestSigBucketPath] exServes [of "VersionPath ''v2''"] exServes [of "VersionSigPath ''v2''"] exServes [of "VersionHashtreePath ''v2''"]
    by (simp add: ManifestBucketPath_def ManifestSigBucketPath_def VersionPath_def VersionSigPath_def VersionHashtreePath_def) blast
qed

lemmas exRun = exUpd_env(1,2,3) exUpd_env(4) [of "replicate 64 CHR ''p''"] exState_staged exState_valid exGood exPublished

lemma exNewer: "rc_MinEpoch exCert \<le> mp_MinEpoch exPayload" "mp_Latest exPayload \<noteq> uc_RunningVersion exUpCfg"
  by (simp_all add: exCert_def exPayload_def exUpCfg_def)

theorem published_release_is_staged_witness:
  "\<exists>u' d. CheckAndUpdate exUpd exUpCfg exUp = (Inr (), u') \<and> slot_files (up_disk u') (''b'', osCoreName) = Some ''i''
     \<and> handleApply (ue_boot exUpd) (Some True) (up_disk u') = (Inr ''b'', d)
     \<and> bootState (ue_boot exUpd) d = Some \<lparr>bs_Active = ''b'', bs_Pending = [], bs_BootCounter = 0, bs_LastKnownGood = ''a''\<rparr>"
  using published_release_is_staged [OF exRun exNewer] by (auto simp: InactiveSlot_def exState_def SlotA_def SlotB_def SlotNone_def)

theorem staged_image_is_certified_witness:
  "\<exists>u'. CheckAndUpdate exUpd exUpCfg exUp = (Inr (), u') \<and> certified_image exUpd exUpCfg 2 ''i''"
proof -
  obtain u' slot where r: "CheckAndUpdate exUpd exUpCfg exUp = (Inr (), u')" "InactiveSlot exState = Inr slot" "slot_files (up_disk u') (slot, osCoreName) = Some ''i''"
    using published_run [OF exRun exNewer] by blast
  then have "certified_image exUpd exUpCfg (floorInForce exUpCfg exUp) ''i''"
    using staged_image_is_certified [OF exUpd_env(1) r(1)] exState_staged by auto
  then show ?thesis using r(1) by (auto simp: floorInForce_def exUp_def)
qed

theorem accepted_notes_bounded_witness:
  "\<exists>m. ParseAndVerify exUpd ''j'' (replicate 64 CHR ''s'') exPub 2 = Inr m \<and> length (sm_Notes m) \<le> 200 \<and> sm_Severity m = []"
proof -
  obtain m where m: "ParseAndVerify exUpd ''j'' (replicate 64 CHR ''s'') exPub 2 = Inr m"
    by (simp add: ParseAndVerify_def exUpd_def manifest_of_def exPayload_def ValidateSecuritySurface_def ValidateReleaseNotes_def Verify_sig_def exSign2_def exSign_def) (simp add: exPub_def)
  have "\<not> sm_IsSecurity m" using ParseAndVerify_Inr(1) [OF m] by (auto simp: exUpd_def manifest_of_def exPayload_def)
  then show ?thesis using accepted_notes_bounded [OF m] m by simp
qed

end
