(* ===== verification/Os_Boot.thy ===== *)
theory Os_Boot
  imports Os_Release
begin

text \<open>
  The boot gate: what a device that goes on booting has established, that the revocations it
  recorded bind the updater afterwards, and that the signature the release instructions
  produce for the manifest does not satisfy it.
\<close>

subsection \<open>The verifier\<close>

lemma recordFloor_Some:
  assumes "recordFloor e anchor cert now (Some s, d) = (r, w')"
  obtains s' d' where "w' = (Some s', d')" "es_current s \<le> es_current s'" "r = None \<Longrightarrow> rc_MinEpoch cert \<le> es_current s'"
    "epoch_ok e \<Longrightarrow> floor_on_disk e d = Some (es_current s) \<Longrightarrow> floor_on_disk e d' = Some (es_current s')"
proof -
  obtain rr s' d' where R: "RaiseFromReleaseCert e anchor cert now s d = (rr, s', d')" by (cases "RaiseFromReleaseCert e anchor cert now s d") auto
  have w: "w' = (Some s', d')" "r = None \<Longrightarrow> rr = Inr ()" using assms R by (auto simp: recordFloor_def split: sum.splits)
  show thesis
  proof (cases "ValidateReleaseCertAt e anchor cert now = None \<and> \<not> rc_MinEpoch cert < 0")
    case True
    then have "RaiseTo e (rc_MinEpoch cert) s d = (rr, s', d')" using R by (simp add: RaiseFromReleaseCert_def)
    then show thesis by (cases rule: RaiseTo_cases) (use that [OF w(1)] w(2) in \<open>auto simp: floor_on_disk_def epoch_ok_def\<close>)
  next
    case False
    then have "s' = s" "d' = d" "rr \<noteq> Inr ()" using R by (auto simp: RaiseFromReleaseCert_def split: option.splits if_splits)
    then show thesis using that [OF w(1)] w(2) by blast
  qed
qed

lemma verifyManifestSignature_Some:
  assumes "verifyManifestSignature e cfg now now' (Some s, d) = (r, w')" "epoch_ok e" "floor_on_disk e d = Some (es_current s)"
  obtains s' d' where "w' = (Some s', d')" "es_current s \<le> es_current s'" "floor_on_disk e d' = Some (es_current s')"
proof (cases "\<exists>anchor certData cert. LoadAnchor e (vc_Anchor cfg) = Inr anchor \<and> vc_Cert cfg = Some certData \<and> ParseReleaseCert e certData = Inr cert
    \<and> ValidateReleaseCertAt e anchor cert now = None \<and> es_current s \<le> rc_MinEpoch cert")
  case True
  then obtain anchor certData cert where c: "LoadAnchor e (vc_Anchor cfg) = Inr anchor" "vc_Cert cfg = Some certData" "ParseReleaseCert e certData = Inr cert"
    "ValidateReleaseCertAt e anchor cert now = None" "es_current s \<le> rc_MinEpoch cert" by blast
  obtain rr w2 where R: "recordFloor e anchor cert now' (Some s, d) = (rr, w2)" by (metis surj_pair)
  have "w' = w2" using assms(1) c R by (auto simp: verifyManifestSignature_def split: option.splits)
  with R show thesis by (elim recordFloor_Some) (use that assms(2,3) in auto)
next
  case False
  then have "w' = (Some s, d)" using assms(1) by (auto simp: verifyManifestSignature_def split: sum.splits option.splits if_splits)
  then show thesis using that assms(3) by blast
qed

lemma verifyManifestSignature_None:
  assumes "verifyManifestSignature e cfg now now' (Some s, d) = (None, w')" "epoch_ok e" "floor_on_disk e d = Some (es_current s)"
  obtains anchor certData cert pub sig s' d' where "LoadAnchor e (vc_Anchor cfg) = Inr anchor" "vc_Cert cfg = Some certData" "ParseReleaseCert e certData = Inr cert"
    "ValidateReleaseCertAt e anchor cert now = None" "es_current s \<le> rc_MinEpoch cert" "DecodePubKey cert = Inr pub"
    "Verify_sig e pub (Canonical (json_image (vc_ImagePayloadForSig cfg))) sig"
    "w' = (Some s', d')" "floor_on_disk e d' = Some (es_current s')" "rc_MinEpoch cert \<le> es_current s'"
proof -
  obtain anchor certData cert where c: "LoadAnchor e (vc_Anchor cfg) = Inr anchor" "vc_Cert cfg = Some certData" "ParseReleaseCert e certData = Inr cert"
    "ValidateReleaseCertAt e anchor cert now = None" "es_current s \<le> rc_MinEpoch cert"
    using assms(1) by (auto simp: verifyManifestSignature_def split: sum.splits option.splits if_splits)
  obtain rr w2 where R: "recordFloor e anchor cert now' (Some s, d) = (rr, w2)" by (metis surj_pair)
  have rr: "rr = None" "w' = w2" "verifyImageSig e cfg cert = None" using assms(1) c R by (auto simp: verifyManifestSignature_def split: option.splits)
  from R obtain s' d' where s': "w2 = (Some s', d')" "rc_MinEpoch cert \<le> es_current s'" "floor_on_disk e d' = Some (es_current s')"
    by (elim recordFloor_Some) (use rr(1) assms(2,3) in auto)
  have "\<exists>pub sig. DecodePubKey cert = Inr pub \<and> Verify_sig e pub (Canonical (json_image (vc_ImagePayloadForSig cfg))) sig"
    using rr(3) unfolding verifyImageSig_def by (simp split: sum.splits option.splits if_splits) blast
  then show thesis using that c s' rr(2) by blast
qed

lemma not_bind_error: "verifyManifestSignature e cfg now now' w = (Some er, w') \<Longrightarrow> er \<noteq> ErrVerifyBind b"
  by (auto simp: verifyManifestSignature_def verifyImageSig_def split: sum.splits option.splits prod.splits if_splits)

subsection \<open>The gate\<close>

text \<open>Everything a boot that went on has established, with the floor it left on disk.\<close>

lemma gate_cases:
  assumes "epoch_ok (ue_sign e)" "verifyOSBeforeBoot e f p clock d = (out, d')" "out \<noteq> Halt"
  obtains anchor certData cert pub sig data payload n where "LoadAnchor (ue_sign e) (bf_anchor f) = Inr anchor" "bf_releaseCert f = Some certData"
    "ParseReleaseCert (ue_sign e) certData = Inr cert" "ValidateReleaseCertAt (ue_sign e) anchor cert (clock 0) = None" "DecodePubKey cert = Inr pub"
    "bf_manifest f = Some data" "ue_image e data = Some payload" "Verify_sig (ue_sign e) pub (Canonical (json_image payload)) sig"
    "if out = Verified then activeVerityRootHash p = Inr (ToLower (TrimSpace (ip_RootHash payload))) else \<not> vp_device p"
    "floor_on_disk (ue_sign e) d' = Some n" "rc_MinEpoch cert \<le> n" "\<And>k. floor_on_disk (ue_sign e) d = Some k \<Longrightarrow> k \<le> rc_MinEpoch cert"
proof -
  obtain data payload s d1 where a: "bf_manifest f = Some data" "ue_image e data = Some payload" "NewEpochStore (ue_sign e) d = (Inr s, d1)"
    using assms(2,3) by (auto simp: verifyOSBeforeBoot_def split: option.splits if_splits prod.splits sum.splits)
  note fl = NewEpochStore_floor [OF assms(1) a(3)]
  define cfg where "cfg = \<lparr>vc_Anchor = bf_anchor f, vc_Cert = bf_releaseCert f, vc_Sig = bf_manifestSig f, vc_ImagePayloadForSig = payload,
    vc_BindRootHash = Some (activeVerityBinder p), vc_EpochFloor = 0\<rparr>"
  obtain r1 w1 where v1: "verifyManifestSignature (ue_sign e) cfg (clock 0) (clock 1) (Some s, d1) = (r1, w1)" by (metis surj_pair)
  obtain r2 w2 where v2: "verifyManifestSignature (ue_sign e) cfg (clock 2) (clock 3) w1 = (r2, w2)" by (metis surj_pair)
  have nb: "r1 \<noteq> Some (ErrVerifyBind b)" for b using not_bind_error v1 by blast
  have r1: "r1 = None" and o: "if out = Verified then activeVerityBinder p (ip_RootHash payload) = None \<and> d' = snd w1
      else activeVerityBinder p (ip_RootHash payload) = Some ErrNoVerityDevice \<and> d' = snd w2"
    using assms(2,3) a v1 v2 nb unfolding verifyOSBeforeBoot_def VerifySquashfsBeforePivot_def cfg_def Let_def
    by (auto split: option.splits if_splits prod.splits)
  have c: "vc_Anchor cfg = bf_anchor f" "vc_Cert cfg = bf_releaseCert f" "vc_ImagePayloadForSig cfg = payload" by (simp_all add: cfg_def)
  from v1 [unfolded r1] assms(1) fl(1) obtain anchor certData cert pub sig s' d2 where A: "LoadAnchor (ue_sign e) (bf_anchor f) = Inr anchor" "bf_releaseCert f = Some certData"
    "ParseReleaseCert (ue_sign e) certData = Inr cert" "ValidateReleaseCertAt (ue_sign e) anchor cert (clock 0) = None" "es_current s \<le> rc_MinEpoch cert"
    "DecodePubKey cert = Inr pub" "Verify_sig (ue_sign e) pub (Canonical (json_image payload)) sig"
    "w1 = (Some s', d2)" "floor_on_disk (ue_sign e) d2 = Some (es_current s')" "rc_MinEpoch cert \<le> es_current s'"
    by (rule verifyManifestSignature_None) (unfold c, rule that; assumption)
  from v2 [unfolded A(8)] assms(1) A(9) obtain s'' d3 where B: "w2 = (Some s'', d3)" "es_current s' \<le> es_current s''" "floor_on_disk (ue_sign e) d3 = Some (es_current s'')"
    by (rule verifyManifestSignature_Some)
  have "\<exists>n. floor_on_disk (ue_sign e) d' = Some n \<and> rc_MinEpoch cert \<le> n" using o A(8-10) B by (auto split: if_splits)
  then obtain n where n: "floor_on_disk (ue_sign e) d' = Some n" "rc_MinEpoch cert \<le> n" by blast
  have b: "if out = Verified then activeVerityRootHash p = Inr (ToLower (TrimSpace (ip_RootHash payload))) else \<not> vp_device p"
    using o by (auto simp: activeVerityBinder_def activeVerityRootHash_def split: if_splits sum.splits option.splits)
  show thesis by (rule that [OF A(1-4,6) a(1,2) A(7) b n]) (use fl(2) A(5) in blast)
qed

text \<open>
  Claim C14. A device that passes the boot gate runs what the root certified: the release
  certificate on it validates against the pinned anchor and is not below the epoch floor it
  had recorded, the certified key signed the image payload of its manifest, and the root hash
  in that payload is the one dm-verity enforces on the running root; only a device without a
  dm-verity root goes on with the signature alone. The floor on disk is then at least the
  certificate's epoch.
\<close>

theorem boot_gate_sound:
  assumes "epoch_ok (ue_sign e)" "verifyOSBeforeBoot e f p clock d = (out, d')" "out \<noteq> Halt"
  shows "\<exists>anchor certData cert pub sig data payload n. LoadAnchor (ue_sign e) (bf_anchor f) = Inr anchor \<and> bf_releaseCert f = Some certData
    \<and> ParseReleaseCert (ue_sign e) certData = Inr cert \<and> ValidateReleaseCertAt (ue_sign e) anchor cert (clock 0) = None \<and> DecodePubKey cert = Inr pub
    \<and> bf_manifest f = Some data \<and> ue_image e data = Some payload \<and> Verify_sig (ue_sign e) pub (Canonical (json_image payload)) sig
    \<and> (if out = Verified then activeVerityRootHash p = Inr (ToLower (TrimSpace (ip_RootHash payload))) else \<not> vp_device p)
    \<and> floor_on_disk (ue_sign e) d' = Some n \<and> rc_MinEpoch cert \<le> n \<and> (\<forall>k. floor_on_disk (ue_sign e) d = Some k \<longrightarrow> k \<le> rc_MinEpoch cert)"
  using gate_cases [OF assms] by metis

text \<open>
  Claim C26. A revocation seen at boot reaches the updater: after a boot that went on, an
  updater started on the same disk refuses a channel whose certificate is older than the one
  the device booted with, whatever signs it, and changes neither slots nor boot state.
\<close>

theorem retired_key_refused_after_boot:
  assumes "epoch_ok (ue_sign e)" "verifyOSBeforeBoot e f p clock d = (out, d1)" "out \<noteq> Halt"
    and "bf_releaseCert f = Some certData" "ParseReleaseCert (ue_sign e) certData = Inr cert"
    and "NewEpochStore (ue_sign e) d1 = (Inr s, d2)" "up_epoch u = Some s"
    and "serves e cfg ReleaseCertBucketPath old" "ParseReleaseCert (ue_sign e) old = Inr cert'" "rc_MinEpoch cert' < rc_MinEpoch cert"
  shows "\<exists>u'. CheckAndUpdate e cfg u = (Inl ErrReleaseCertInvalid, u') \<and> quiet u u'"
proof -
  from assms(1-3) obtain n where n: "floor_on_disk (ue_sign e) d1 = Some n" "rc_MinEpoch cert \<le> n"
    by (rule gate_cases) (use assms(4,5) in auto)
  have "es_current s = n" by (rule NewEpochStore_floor(2) [OF assms(1,6) n(1)])
  then have low: "rc_MinEpoch cert' < floorInForce cfg u" using assms(7,10) n(2) by (simp add: floorInForce_def)
  obtain v where v: "certBytes e cfg u = (Inr old, v)"
    using Fetch_serves(2) [OF assms(8), of u] by (auto simp: certBytes_def ReleaseCertBucketPath_def)
  have "certifiedReleaseKey e cfg u = (Inl ErrReleaseCertInvalid, tickU v)"
    using v assms(9) low by (auto simp: certifiedReleaseKey_def Let_def bindS_def upNow_def failS_def split: option.splits)
  then show ?thesis using quietlyD [OF quietly_certifiedReleaseKey, of e cfg u] by (simp add: CheckAndUpdate_def bindS_def)
qed

subsection \<open>Which signature the gate wants\<close>

text \<open>A signature over one message verifies no other message.\<close>

definition signs_only :: "sign_env \<Rightarrow> bytes \<Rightarrow> bytes \<Rightarrow> bool" where
  "signs_only e priv msg \<longleftrightarrow> (\<forall>pub m. m \<noteq> msg \<longrightarrow> \<not> se_ed25519 e pub m (se_sign e priv msg))"

text \<open>
  The signature file the release instructions ask for, made by \<open>sign-manifest\<close> over
  the manifest, halts every device that finds it beside its manifest at boot: the gate checks
  that file against the canonical bytes of the image payload, which are never those of the
  manifest payload.
\<close>

theorem manifest_signature_halts_boot:
  assumes "SignManifest (ue_sign e) priv kid mp = Inr ms" "signs_only (ue_sign e) priv (Canonical (json_payload mp))"
    and "bf_manifestSig f = Some sigFile" "ParseSig (ue_sign e) sigFile = Inr sg" "sg_SigBytes sg = sg_SigBytes ms"
  shows "fst (verifyOSBeforeBoot e f p clock d) = Halt"
proof -
  have sb: "sg_SigBytes sg = se_sign (ue_sign e) priv (Canonical (json_payload mp))"
    using assms(1,5) by (auto simp: SignManifest_def Sign_sig_def split: if_splits option.splits)
  have no: "\<not> Verify_sig (ue_sign e) pub (Canonical (json_image i)) (sg_SigBytes sg)" for pub i
    using assms(2) other_bytes sb by (simp add: signs_only_def Verify_sig_def)
  have img: "verifyImageSig (ue_sign e) cfg cert \<noteq> None" if "vc_Sig cfg = Some sigFile" for cfg cert
    using that assms(4) no by (auto simp: verifyImageSig_def split: sum.splits)
  have man: "\<exists>er w'. verifyManifestSignature (ue_sign e) cfg now now' w = (Some er, w')" if "vc_Sig cfg = Some sigFile" for cfg now now' w
    using img [OF that] by (auto simp: verifyManifestSignature_def split: sum.splits option.splits prod.splits)
  show ?thesis
  proof (cases "\<exists>data payload s d1. bf_manifest f = Some data \<and> ue_image e data = Some payload \<and> NewEpochStore (ue_sign e) d = (Inr s, d1)")
    case True
    then obtain data payload s d1 where a: "bf_manifest f = Some data" "ue_image e data = Some payload" "NewEpochStore (ue_sign e) d = (Inr s, d1)" by blast
    let ?cfg = "\<lparr>vc_Anchor = bf_anchor f, vc_Cert = bf_releaseCert f, vc_Sig = bf_manifestSig f, vc_ImagePayloadForSig = payload,
      vc_BindRootHash = Some (activeVerityBinder p), vc_EpochFloor = 0\<rparr>"
    obtain er w' where "verifyManifestSignature (ue_sign e) ?cfg (clock 0) (clock 1) (Some s, d1) = (Some er, w')"
      using man [of ?cfg "clock 0" "clock 1" "(Some s, d1)"] assms(3) by fastforce
    then show ?thesis using a not_bind_error by (simp add: verifyOSBeforeBoot_def VerifySquashfsBeforePivot_def)
  qed (auto simp: verifyOSBeforeBoot_def split: option.splits prod.splits sum.splits)
qed

subsection \<open>Concrete devices\<close>

lemma gate_env:
  assumes "ue_boot e' = ue_boot e" "ue_image e' = ue_image e"
  shows "verifyOSBeforeBoot e' f p c d = verifyOSBeforeBoot e f p c d"
  unfolding verifyOSBeforeBoot_def assms by (rule refl)

definition exBootFiles :: boot_files where
  "exBootFiles = \<lparr>bf_manifest = Some ''j'', bf_manifestSig = Some exSigFile, bf_releaseCert = Some ''j'', bf_anchor = Some (exB64 exPub)\<rparr>"

definition exProbe :: verity_probe where
  "exProbe = \<lparr>vp_device = True, vp_status = Some ''  root hash:  ab''\<rparr>"

lemma exAnchor: "LoadAnchor exSign2 (Some (exB64 exPub)) = Inr exPub"
proof -
  have "TrimSpace (exB64 exPub) = exB64 exPub" by (rule TrimSpace_plain) (use exSign_b64 in \<open>simp add: b64_ok_def exSign_def\<close>)
  moreover have "exB64 exPub \<noteq> []" by (simp add: exB64_def exPub_def EncodeToString_def)
  ultimately show ?thesis by (simp add: LoadAnchor_def exSign2_def exSign_def exB64_def DecodeHex_Encode) (simp add: exPub_def)
qed

lemma exFileSig: "ParseSig exSign2 exSigFile = Inr \<lparr>sg_Algorithm = ''ed25519'', sg_KeyID = ''k'', sg_SigBytes = replicate 64 CHR ''s''\<rparr>"
proof -
  have "MarshalSig exSign2 \<lparr>sg_Algorithm = ''ed25519'', sg_KeyID = ''k'', sg_SigBytes = replicate 64 CHR ''s''\<rparr> = Inr exSigFile"
    by (simp add: MarshalSig_def AlgorithmID_def sigFilePrefix_def exSign2_def exSign_def exSigFile_def)
  moreover have "TrimSpace ''k'' = ''k''" by (simp add: TrimSpace_def is_space_def)
  moreover have "b64_ok exSign2" using exUpd_env(3) by (simp add: exUpd_def)
  ultimately show ?thesis using ParseSig_MarshalSig by fastforce
qed

lemma exGate: "\<exists>d'. verifyOSBeforeBoot exUpd exBootFiles exProbe (\<lambda>_. 50) exDisk = (Verified, d')"
proof -
  have h: "activeVerityRootHash exProbe = Inr ''ab''"
    by (simp add: activeVerityRootHash_def exProbe_def parseVeritysetupRootHash_def Let_def TrimSpace_def is_space_def HasPrefix_def rootHashLine_def ToLower_def lower_char_def)
  have b: "activeVerityBinder exProbe ''ab'' = None" using h by (simp add: activeVerityBinder_def ToLower_def lower_char_def TrimSpace_def is_space_def)
  have n: "NewEpochStore exSign2 exDisk = (Inr \<lparr>es_current = 0\<rparr>, exDisk\<lparr>epoch_file := Some (json_epoch 0), ios := 6\<rparr>)"
    by (simp add: NewEpochStore_def bindS_def io_def writeFloor_def atomicWrite_def retS_def exSign2_def exSign_def exDisk_def)
  have r: "\<exists>s' d'. RaiseFromReleaseCert exSign2 exPub exCert 50 s d = (Inr (), s', d')" for s and d :: os_disk
    using exCert_ok(3) [of 50] by (simp add: RaiseFromReleaseCert_def RaiseTo_def writeFloor_def atomicWrite_def bindS_def io_def exSign2_def exSign_def exCert_def)
  let ?cfg = "\<lparr>vc_Anchor = bf_anchor exBootFiles, vc_Cert = bf_releaseCert exBootFiles, vc_Sig = bf_manifestSig exBootFiles, vc_ImagePayloadForSig = image_of exPayload,
    vc_BindRootHash = Some (activeVerityBinder exProbe), vc_EpochFloor = 0\<rparr>"
  have i: "verifyImageSig exSign2 ?cfg exCert = None"
    by (simp add: verifyImageSig_def exCert_ok exBootFiles_def exFileSig Verify_sig_def) (simp add: exSign2_def exSign_def exPub_def)
  let ?s = "Some \<lparr>es_current = 0\<rparr>" and ?d = "exDisk\<lparr>epoch_file := Some (json_epoch 0), ios := 6\<rparr>"
  obtain s' d' where "RaiseFromReleaseCert exSign2 exPub exCert 50 \<lparr>es_current = 0\<rparr> ?d = (Inr (), s', d')" using r by blast
  then have rf: "recordFloor exSign2 exPub exCert 50 (?s, ?d) = (None, Some s', d')" by (simp add: recordFloor_def)
  have me: "\<not> rc_MinEpoch exCert < 0" by (simp add: exCert_def)
  have w: "verifyManifestSignature exSign2 ?cfg 50 50 (?s, ?d) = (None, Some s', d')"
    using rf me i exCert_ok(1) exCert_ok(3) [of 50] exAnchor by (simp add: verifyManifestSignature_def exBootFiles_def)
  have p: "ip_RootHash (image_of exPayload) = ''ab''" "ip_Path (image_of exPayload) \<noteq> []" by (simp_all add: image_of_def exPayload_def)
  have "VerifySquashfsBeforePivot exSign2 ?cfg 50 50 (?s, ?d) = (None, Some s', d')" using w b p by (simp add: VerifySquashfsBeforePivot_def)
  moreover have "bf_manifest exBootFiles = Some ''j''" "ue_sign exUpd = exSign2" "ue_image exUpd ''j'' = Some (image_of exPayload)" by (simp_all add: exBootFiles_def exUpd_def)
  ultimately show ?thesis using n p by (simp add: verifyOSBeforeBoot_def)
qed

theorem boot_gate_sound_witness:
  "\<exists>d' n. verifyOSBeforeBoot exUpd exBootFiles exProbe (\<lambda>_. 50) exDisk = (Verified, d') \<and> floor_on_disk exSign2 d' = Some n \<and> 3 \<le> n"
proof -
  obtain d' where d': "verifyOSBeforeBoot exUpd exBootFiles exProbe (\<lambda>_. 50) exDisk = (Verified, d')" using exGate by blast
  have s: "ue_sign exUpd = exSign2" "rc_MinEpoch exCert = 3" by (simp_all add: exUpd_def exCert_def)
  have vh: "Verified \<noteq> Halt" "bf_releaseCert exBootFiles = Some ''j''" by (simp_all add: exBootFiles_def)
  show ?thesis using boot_gate_sound [OF exUpd_env(5) d' vh(1)] d' exCert_ok(1) s vh(2) by auto
qed

text \<open>A channel that still serves the certificate of epoch 2.\<close>

definition exOldUpd :: upd_env where
  "exOldUpd = exUpd\<lparr>ue_get := (\<lambda>_ _. Answer 200 ''o'' True)\<rparr>"

theorem retired_key_refused_after_boot_witness:
  "\<exists>d1 s d2 u'. verifyOSBeforeBoot exOldUpd exBootFiles exProbe (\<lambda>_. 50) exDisk = (Verified, d1) \<and> NewEpochStore exSign2 d1 = (Inr s, d2)
     \<and> CheckAndUpdate exOldUpd exUpCfg (exUp\<lparr>up_disk := d2, up_epoch := Some s\<rparr>) = (Inl ErrReleaseCertInvalid, u')"
proof -
  have env: "ue_sign exOldUpd = exSign2" "epoch_ok (ue_sign exOldUpd)" using exUpd_env(5) by (simp_all add: exOldUpd_def exUpd_def)
  obtain d1 where d1: "verifyOSBeforeBoot exOldUpd exBootFiles exProbe (\<lambda>_. 50) exDisk = (Verified, d1)"
    using exGate gate_env [of exOldUpd exUpd] by (auto simp: exOldUpd_def)
  obtain n where n: "floor_on_disk exSign2 d1 = Some n" using env(2) d1 by (rule gate_cases) (use env(1) in auto)
  then have "\<exists>s d2. NewEpochStore exSign2 d1 = (Inr s, d2)"
    by (auto simp: floor_on_disk_def NewEpochStore_def bindS_def io_def retS_def exSign2_def exSign_def split: option.splits)
  then obtain s d2 where s: "NewEpochStore exSign2 d1 = (Inr s, d2)" by blast
  have "Resolve (ue_read exOldUpd) (uc_Source exUpCfg) = [] @ ''d'' # [''h'']"
    by (simp add: Resolve_def exOldUpd_def exUpd_def exUpCfg_def NewSource_def applyOption_def addURL_def TrimRightSlash_def TrimSpace_def is_space_def)
  then have sv: "serves exOldUpd exUpCfg ReleaseCertBucketPath ''o''"
    unfolding serves_def by (intro exI [of _ "[]"] exI [of _ "''d''"] exI [of _ "[''h'']"]) (simp add: exOldUpd_def)
  have f: "bf_releaseCert exBootFiles = Some ''j''" "Verified \<noteq> Halt" "up_epoch (exUp\<lparr>up_disk := d2, up_epoch := Some s\<rparr>) = Some s" "rc_MinEpoch (exCert\<lparr>rc_MinEpoch := 2\<rparr>) < rc_MinEpoch exCert"
    by (simp_all add: exBootFiles_def exCert_def)
  note T = retired_key_refused_after_boot [OF env(2) d1 f(2,1), unfolded env(1), OF exCert_ok(1) s f(3) sv exCert_ok(2) f(4)]
  then show ?thesis using d1 s by blast
qed

text \<open>A signer whose signatures verify for their own message only, on the example's manifest.\<close>

definition exStrict :: sign_env where
  "exStrict = exSign2\<lparr>se_sign := (\<lambda>_ msg. replicate 64 (if msg = Canonical (json_payload exPayload) then CHR ''s'' else CHR ''t'')),
     se_ed25519 := (\<lambda>_ msg sig. msg = Canonical (json_payload exPayload) \<and> sig = replicate 64 CHR ''s'')\<rparr>"

theorem manifest_signature_halts_boot_witness:
  "\<exists>ms. SignManifest exStrict (replicate 64 CHR ''p'') ''k'' exPayload = Inr ms \<and> VerifyManifest exStrict exPub exPayload ms
     \<and> fst (verifyOSBeforeBoot (exUpd\<lparr>ue_boot := exBoot\<lparr>be_sign := exStrict\<rparr>\<rparr>) exBootFiles exProbe (\<lambda>_. 50) exDisk) = Halt"
proof -
  let ?ms = "\<lparr>sg_Algorithm = ''ed25519'', sg_KeyID = ''k'', sg_SigBytes = replicate 64 CHR ''s''\<rparr>" and ?e = "exUpd\<lparr>ue_boot := exBoot\<lparr>be_sign := exStrict\<rparr>\<rparr>"
  have e: "ue_sign ?e = exStrict" by simp
  have ms: "SignManifest exStrict (replicate 64 CHR ''p'') ''k'' exPayload = Inr ?ms"
    by (simp add: SignManifest_def ValidateSecuritySurface_def ValidateReleaseNotes_def AlgorithmID_def Sign_sig_def exStrict_def) (simp add: exPayload_def)
  have so: "signs_only exStrict (replicate 64 CHR ''p'') (Canonical (json_payload exPayload))" by (simp add: signs_only_def exStrict_def)
  have u: "se_unb64 exStrict = se_unb64 exSign2" by (simp add: exStrict_def)
  have "ParseSig exStrict exSigFile = ParseSig exSign2 exSigFile" unfolding ParseSig_def u by (rule refl)
  then have ps: "ParseSig exStrict exSigFile = Inr ?ms" using exFileSig by simp
  have v: "VerifyManifest exStrict exPub exPayload ?ms" by (simp add: VerifyManifest_def Verify_sig_def exStrict_def) (simp add: exPub_def)
  have f: "bf_manifestSig exBootFiles = Some exSigFile" by (simp add: exBootFiles_def)
  show ?thesis using manifest_signature_halts_boot [of ?e, unfolded e, OF ms so f ps] ms v by auto
qed

end
