(* ===== verification/Ota_Run.thy ===== *)
theory Ota_Run
  imports Ota Os_Boot
begin

text \<open>
  What the server's update client guarantees: what it shows its owner and what it stages was
  signed under the baked anchor at an epoch the device still accepts, and a check touches
  neither the slots nor the boot state.
\<close>

subsection \<open>Frames\<close>

text \<open>Within a check: the epoch floor may rise, the client's own fields and the slots stay.\<close>

definition ota_frame :: "ota_state \<Rightarrow> ota_state \<Rightarrow> bool" where
  "ota_frame s s' \<longleftrightarrow> quiet (ot_up s) (ot_up s') \<and> es_current (ot_store s) \<le> es_current (ot_store s')
     \<and> ot_status s' = ot_status s \<and> ot_manifest s' = ot_manifest s \<and> ot_manifestData s' = ot_manifestData s \<and> ot_releaseKey s' = ot_releaseKey s"

named_theorems ota_frames \<open>operations within the frame of a check\<close>

interpretation otf: comp_frame ota_frame
  by unfold_locales (auto simp: ota_frame_def intro: quiet_trans)

declare otf.refl [simp] otf.within_bind [ota_frames] otf.within_ret [ota_frames]

lemma onUp_within [ota_frames]: "quietly m \<Longrightarrow> otf.within (onUp er m)"
  by (auto simp: otf.within_def onUp_def ota_frame_def split: prod.splits sum.splits dest: quietlyD)

lemma quietly_fetchStream [quiet]: "quietly (fetchStream e c rel)"
  by (auto simp: quietly_def fetchStream_def split: http_answer.splits if_splits)

lemma quietly_ota_fetch [quiet]: "quietly (ota_fetch e c rel)"
  unfolding ota_fetch_def by (intro quiet) (auto intro: quiet split: prod.splits)

lemma quietly_otaCertBytes [quiet]: "quietly (otaCertBytes e c)"
  unfolding quietly_def otaCertBytes_def using quietlyD [OF quietly_ota_fetch] by (fastforce split: prod.splits sum.splits option.splits)

lemma otaNow_within [ota_frames]: "otf.within (otaNow e)"
  unfolding otaNow_def by (intro ota_frames quiet)

lemma acceptEpoch_within [ota_frames]: "otf.within (acceptEpoch n)"
  by (auto simp: otf.within_def acceptEpoch_def split: option.splits)

lemma RaiseFromReleaseCert_floor:
  assumes "RaiseFromReleaseCert e root cert now s d = (r, s', d')"
  shows "es_current s \<le> es_current s'" "r = Inr () \<Longrightarrow> rc_MinEpoch cert \<le> es_current s'"
proof -
  have "es_current s \<le> es_current s' \<and> (r = Inr () \<longrightarrow> rc_MinEpoch cert \<le> es_current s')"
  proof (cases "ValidateReleaseCertAt e root cert now = None \<and> 0 \<le> rc_MinEpoch cert")
    case True
    then have "RaiseTo e (rc_MinEpoch cert) s d = (r, s', d')" using assms by (simp add: RaiseFromReleaseCert_def)
    then show ?thesis by (cases rule: RaiseTo_cases) auto
  qed (use assms in \<open>auto simp: RaiseFromReleaseCert_def split: option.splits if_splits\<close>)
  then show "es_current s \<le> es_current s'" "r = Inr () \<Longrightarrow> rc_MinEpoch cert \<le> es_current s'" by blast+
qed

lemma otaRaise_within [ota_frames]: "otf.within (otaRaise e pub cert now)"
  unfolding otf.within_def otaRaise_def
  by (auto simp: ota_frame_def quiet_def split: prod.splits sum.splits dest: RaiseFromReleaseCert_frame RaiseFromReleaseCert_floor(1))

lemma trustedKey_within [ota_frames]: "otf.within (trustedKey e c)"
  unfolding trustedKey_def by (auto intro!: ota_frames quiet split: sum.splits)

lemma verifiedChannel_within [ota_frames]: "otf.within (verifiedChannel e c pub)"
  unfolding verifiedChannel_def by (auto intro!: ota_frames quiet split: sum.splits)

subsection \<open>What a check established\<close>

text \<open>
  The manifest \<open>m\<close> read from \<open>data\<close> is signed, in the signer's encoding, by a key the baked
  anchor certifies; certificate and manifest are at epochs the device accepts.
\<close>

definition ota_verified :: "ota_env \<Rightarrow> OtaClient \<Rightarrow> int \<Rightarrow> StableManifest \<Rightarrow> bytes \<Rightarrow> bytes \<Rightarrow> bool" where
  "ota_verified e c fl m data pub \<longleftrightarrow> (\<exists>anchorPub cert now p sig.
     LoadAnchor (ue_sign (oe_upd e)) (ue_read (oe_upd e) (oc_anchorPath c)) = Inr anchorPub
     \<and> ValidateReleaseCertAt (ue_sign (oe_upd e)) anchorPub cert now = None \<and> DecodePubKey cert = Inr pub
     \<and> parseManifest e data = Inr m \<and> oe_payload e data = Some p \<and> Verify_sig (ue_sign (oe_upd e)) pub (Canonical (json_payload p)) sig
     \<and> fl \<le> rc_MinEpoch cert \<and> rc_MinEpoch cert \<le> sm_MinEpoch m)"

lemma onUp_Inr: "onUp er m s = (Inr x, s') \<longleftrightarrow> (\<exists>u. m (ot_up s) = (Inr x, u) \<and> s' = s\<lparr>ot_up := u\<rparr>)"
  by (auto simp: onUp_def split: prod.splits sum.splits)

lemma acceptEpoch_Inr: "acceptEpoch n s = (Inr x, s') \<longleftrightarrow> s' = s \<and> es_current (ot_store s) \<le> n"
  by (auto simp: acceptEpoch_def AcceptEpoch_def split: option.splits)

lemma otaRaise_Inr: "otaRaise e pub cert now s = (Inr x, s') \<Longrightarrow> rc_MinEpoch cert \<le> es_current (ot_store s')"
  by (auto simp: otaRaise_def split: prod.splits sum.splits dest: RaiseFromReleaseCert_floor(2))

lemma ReleaseKeyFromCert_Inr: "ReleaseKeyFromCert e root cert now = Inr pub \<longleftrightarrow> ValidateReleaseCertAt e root cert now = None \<and> DecodePubKey cert = Inr pub"
  by (auto simp: ReleaseKeyFromCert_def split: option.splits)

lemmas ota_Inr = comp_Inr guard_Inr onUp_Inr acceptEpoch_Inr ReleaseKeyFromCert_Inr

lemma trustedKey_Inr:
  assumes "trustedKey e c s = (Inr pub, s1)"
  shows "\<exists>anchorPub cert now. LoadAnchor (ue_sign (oe_upd e)) (ue_read (oe_upd e) (oc_anchorPath c)) = Inr anchorPub
    \<and> ValidateReleaseCertAt (ue_sign (oe_upd e)) anchorPub cert now = None \<and> DecodePubKey cert = Inr pub
    \<and> es_current (ot_store s) \<le> rc_MinEpoch cert \<and> rc_MinEpoch cert \<le> es_current (ot_store s1)"
  using assms unfolding trustedKey_def otaNow_def by (simp only: ota_Inr) (fastforce dest: otaRaise_Inr)

lemma canonicalSigned_Inr: "canonicalSigned e data = Inr b \<longleftrightarrow> (\<exists>p. oe_payload e data = Some p \<and> b = Canonical (json_payload p))"
  by (auto simp: canonicalSigned_def split: option.splits)

lemma verifiedChannel_Inr:
  assumes "verifiedChannel e c pub s = (Inr (m, data), s1)"
  shows "\<exists>p sig. parseManifest e data = Inr m \<and> oe_payload e data = Some p \<and> Verify_sig (ue_sign (oe_upd e)) pub (Canonical (json_payload p)) sig
    \<and> es_current (ot_store s) \<le> sm_MinEpoch m"
  using assms unfolding verifiedChannel_def by (simp only: ota_Inr canonicalSigned_Inr) fastforce

text \<open>A check either records a verified manifest or only the error and the time.\<close>

lemma Check_cases:
  assumes "Check e c s = (r, s')"
  obtains (verified) m data pub now where "r = Inr (statusOf e c m now)" "ota_verified e c (es_current (ot_store s)) m data pub"
      "ot_status s' = statusOf e c m now" "ot_manifest s' = Some m" "ot_manifestData s' = data" "ot_releaseKey s' = Some pub"
      "quiet (ot_up s) (ot_up s')" "es_current (ot_store s) \<le> es_current (ot_store s')"
  | (failed) er s1 where "r = Inl er" "ota_frame s s1" "s' = recordFailure e er s1"
proof -
  obtain r1 s1 where b: "checkBody e c s = (r1, s1)" by fastforce
  show thesis
  proof (cases r1)
    case (Inl er)
    have "ota_frame s s1"
      using b Inl unfolding checkBody_def
      by (auto simp: failS_def split: if_splits elim!: bindS_E dest!: otf.withinD [OF trustedKey_within] otf.withinD [OF verifiedChannel_within] otf.withinD [OF otaNow_within]
          intro: otf.trans simp: recordVerified_def)
    then show thesis using failed assms b Inl by (auto simp: Check_def)
  next
    case (Inr st)
    from b Inr obtain pub s2 md s3 now s4 where k: "trustedKey e c s = (Inr pub, s2)" "verifiedChannel e c pub s2 = (Inr md, s3)" "otaNow e s3 = (Inr now, s4)"
      "recordVerified e c pub md now s4 = (Inr st, s1)" unfolding checkBody_def by (auto simp only: ota_Inr)
    obtain m data where md: "md = (m, data)" by (cases md)
    note f = otf.trans [OF otf.withinD [OF trustedKey_within k(1)] otf.trans [OF otf.withinD [OF verifiedChannel_within k(2)] otf.withinD [OF otaNow_within k(3)]]]
    have "ota_verified e c (es_current (ot_store s)) m data pub"
      using trustedKey_Inr [OF k(1)] verifiedChannel_Inr [OF k(2) [unfolded md]] unfolding ota_verified_def by fastforce
    then show thesis using verified k(4) f assms b Inr md by (auto simp: Check_def recordVerified_def ota_frame_def)
  qed
qed

subsection \<open>What Stage writes\<close>

lemma quietly_otaBindByVerity [quiet]: "quietly (otaBindByVerity e c img rel h)"
  unfolding otaBindByVerity_def [abs_def] by (intro quietly_orElse quiet)

lemma otaBindByVerity_Inr: "otaBindByVerity e c img rel h u = (Inr x, u') \<Longrightarrow> \<exists>tree. ue_verity (oe_upd e) img tree (ToLower (TrimSpace h)) = VerityOk"
  by (auto simp: otaBindByVerity_def comp_Inr verityVerifyWithTool_def split: prod.splits sum.splits option.splits verity_answer.splits)

interpretation otc: image_channel "oe_upd e" "fetchStream e c" "ota_fetch e c" "otaBindByVerity e c" for e c
  by unfold_locales (auto intro: quiet dest: otaBindByVerity_Inr)

lemma otaVerifyAndStage_channel:
  "otaVerifyAndStage e c path payload pub bs slot img = otc.check_stage e c (path @ ''.sig'') (hashtreePathFor path) payload pub bs slot img"
  by (simp only: otaVerifyAndStage_def otc.check_stage_def)

lemma downloadAndVerify_cases:
  assumes "downloadAndVerify e c m data pub bs slot u = (r, u')"
  obtains (ok) img payload isig tree where "r = Inr ()" "staged_as slot img u u'" "ue_image (oe_upd e) data = Some payload"
      "Verify_sig (ue_sign (oe_upd e)) pub (Canonical (json_image payload)) isig"
      "int (length img) = ip_Size payload" "ue_verity (oe_upd e) img tree (ToLower (TrimSpace (ip_RootHash payload))) = VerityOk"
  | (failed) er where "r = Inl er" "quiet u u'"
proof (cases "\<exists>payload dir. ue_image (oe_upd e) data = Some payload \<and> SlotDir slot = Inr dir")
  case True
  then obtain payload dir where p: "ue_image (oe_upd e) data = Some payload" "SlotDir slot = Inr dir" by blast
  from assms p have "bindS (fetchStream e c (sm_Path m)) (\<lambda>(img, w). bindS (upIO (oe_upd e)) (\<lambda>_. if \<not> w then failS ErrFetchBody
      else bindS (upIO (oe_upd e)) (\<lambda>_. bindS (upIO (oe_upd e)) (\<lambda>_. bindS (upIO (oe_upd e)) (\<lambda>_.
        otc.check_stage e c (sm_Path m @ ''.sig'') (hashtreePathFor (sm_Path m)) payload pub bs slot img))))) u = (r, u')"
    unfolding otaVerifyAndStage_channel [symmetric] by (simp add: downloadAndVerify_def)
  then show thesis by (cases rule: otc.download_cases) (use ok p failed in blast)+
qed (use assms failed in \<open>auto simp: downloadAndVerify_def failS_def split: option.splits sum.splits\<close>)

text \<open>After its check, \<open>Stage\<close> leaves the client's own fields alone.\<close>

definition only_up :: "ota_state \<Rightarrow> ota_state \<Rightarrow> bool" where
  "only_up s s' \<longleftrightarrow> (\<exists>u. s' = s\<lparr>ot_up := u\<rparr>)"

interpretation ou: comp_frame only_up
proof unfold_locales
  show "only_up s s" for s unfolding only_up_def by (rule exI [of _ "ot_up s"]) simp
qed (auto simp: only_up_def)

declare ou.refl [simp]

lemma onUp_only: "ou.within (onUp er m)"
  by (auto simp: ou.within_def only_up_def onUp_def split: prod.splits sum.splits)

lemma onUp_cases:
  assumes "onUp er m s = (r, s')"
  obtains (ok) x where "r = Inr x" "m (ot_up s) = (Inr x, ot_up s')" | (failed) y where "r = Inl (er y)" "m (ot_up s) = (Inl y, ot_up s')"
  using assms by (auto simp: onUp_def split: prod.splits sum.splits)

text \<open>What the client proved about an image before it is staged.\<close>

definition ota_image :: "ota_env \<Rightarrow> bytes \<Rightarrow> bytes \<Rightarrow> bytes \<Rightarrow> bool" where
  "ota_image e data pub img \<longleftrightarrow> (\<exists>payload isig tree. ue_image (oe_upd e) data = Some payload
     \<and> Verify_sig (ue_sign (oe_upd e)) pub (Canonical (json_image payload)) isig \<and> int (length img) = ip_Size payload
     \<and> ue_verity (oe_upd e) img tree (ToLower (TrimSpace (ip_RootHash payload))) = VerityOk)"

definition stageTail :: "ota_env \<Rightarrow> OtaClient \<Rightarrow> StableManifest \<Rightarrow> bytes \<Rightarrow> bytes \<Rightarrow> BootState \<Rightarrow> string \<Rightarrow> StageResult ota" where
  "stageTail e c m data pub bs slot =
     bindS (onUp ErrOtaUpdate (downloadAndVerify e c m data pub bs slot)) (\<lambda>_.
     bindS (onUp ErrOtaUpdate (onSlots (SetPending (ue_boot (oe_upd e)) bs slot))) (\<lambda>_. retS \<lparr>sr_Staged = True, sr_Slot = slot, sr_Version = sm_Latest m\<rparr>))"

lemma stageTail_cases:
  assumes "boot_ok (ue_boot (oe_upd e))" "stageTail e c m data pub bs slot s = (r, s')"
  obtains (failed) er where "r = Inl er" "quiet (ot_up s) (ot_up s')"
  | (ok) img where "ota_image e data pub img"
      "slot_files (up_disk (ot_up s')) = (slot_files (up_disk (ot_up s)))((slot, osCoreName) := Some img)"
      "case r of Inr res \<Rightarrow> res = \<lparr>sr_Staged = True, sr_Slot = slot, sr_Version = sm_Latest m\<rparr> \<and> bootState (ue_boot (oe_upd e)) (up_disk (ot_up s'))
         = Some \<lparr>bs_Active = bs_Active bs, bs_Pending = slot, bs_BootCounter = 0, bs_LastKnownGood = bs_LastKnownGood bs\<rparr>
       | Inl _ \<Rightarrow> boot_file (up_disk (ot_up s')) = boot_file (up_disk (ot_up s))"
  using assms(2) [unfolded stageTail_def]
proof (cases rule: bindS_E)
  case (stop er)
  from stop(1) show thesis
  proof (cases rule: onUp_cases)
    case 1: (failed y)
    from 1(2) show thesis by (cases rule: downloadAndVerify_cases) (use failed stop(2) in auto)
  qed simp
next
  case (go x s1)
  from go(1) obtain y where d: "downloadAndVerify e c m data pub bs slot (ot_up s) = (Inr y, ot_up s1)" by (cases rule: onUp_cases) auto
  then obtain img where img: "ota_image e data pub img" "staged_as slot img (ot_up s) (ot_up s1)"
    by (cases rule: downloadAndVerify_cases) (auto simp: ota_image_def)
  from go(2) show thesis
  proof (cases rule: bindS_E)
    case (stop er)
    from stop(1) obtain z where p: "onSlots (SetPending (ue_boot (oe_upd e)) bs slot) (ot_up s1) = (Inl z, ot_up s')" by (cases rule: onUp_cases) auto
    show thesis using ok [OF img(1)] img(2) setPendingStep [OF assms(1) p] stop(2) by (simp add: staged_as_def)
  next
    case 2: (go z s2)
    from 2(1) obtain w where p: "onSlots (SetPending (ue_boot (oe_upd e)) bs slot) (ot_up s1) = (Inr w, ot_up s2)" by (cases rule: onUp_cases) auto
    show thesis using ok [OF img(1)] img(2) setPendingStep [OF assms(1) p] 2(2) by (auto simp: staged_as_def retS_def)
  qed
qed

lemma Stage_cases:
  assumes "boot_ok (ue_boot (oe_upd e))" "Stage e c s = (r, s')"
  obtains (untouched) "s' = s" "r = Inl ErrStagingNotConfigured"
  | (unverified) er where "Check e c s = (Inl er, s')" "r = Inl er"
  | (refused) st s1 er where "Check e c s = (Inr st, s1)" "only_up s1 s'" "r = Inl er" "quiet (ot_up s1) (ot_up s')"
  | (staged) m data pub now s1 s2 bs slot where "Check e c s = (Inr (statusOf e c m now), s1)" "os_Available (statusOf e c m now)"
      "ota_verified e c (es_current (ot_store s)) m data pub" "only_up s1 s'"
      "bootState (ue_boot (oe_upd e)) (up_disk (ot_up s1)) = Some bs" "InactiveSlot bs = Inr slot" "quiet (ot_up s1) (ot_up s2)" "stageTail e c m data pub bs slot s2 = (r, s')"
proof (cases "oc_SlotManager c")
  case True
  let ?rest = "\<lambda>(m, data, pub). bindS (onUp (\<lambda>_. ErrNotImageInstall) (onSlots (Load (ue_boot (oe_upd e))))) (\<lambda>bs.
      case InactiveSlot bs of Inl er \<Rightarrow> failS (ErrOtaSlot er) | Inr slot \<Rightarrow> stageTail e c m data pub bs slot)"
  have "bindS (Check e c) (\<lambda>status. if \<not> os_Available status then failS ErrOtaUpToDate else bindS verifiedFields ?rest) s = (r, s')"
    using assms(2) True unfolding stageTail_def by (simp add: Stage_def)
  then show thesis
  proof (cases rule: bindS_E)
    case (go st s1)
    from go(1) obtain m data pub now where V: "st = statusOf e c m now" "ota_verified e c (es_current (ot_store s)) m data pub"
      "ot_manifest s1 = Some m" "ot_manifestData s1 = data" "ot_releaseKey s1 = Some pub" by (cases rule: Check_cases) auto
    show thesis
    proof (cases "os_Available st \<and> data \<noteq> []")
      case True
      with go(2) V have "?rest (m, data, pub) s1 = (r, s')" by (simp add: bindS_def verifiedFields_def)
      then show thesis unfolding prod.case
      proof (cases rule: bindS_E)
        case (stop er)
        from stop(1) obtain y where "onSlots (Load (ue_boot (oe_upd e))) (ot_up s1) = (Inl y, ot_up s')" by (cases rule: onUp_cases) auto
        then show thesis using refused [OF go(1)] ou.withinD [OF onUp_only stop(1)] quietlyD [OF quietly_Load] stop(2) by blast
      next
        case 2: (go bs s2)
        from 2(1) have l: "onSlots (Load (ue_boot (oe_upd e))) (ot_up s1) = (Inr bs, ot_up s2)" by (cases rule: onUp_cases) auto
        note q = quietlyD [OF quietly_Load l] and o = ou.withinD [OF onUp_only 2(1)]
        have bs: "bootState (ue_boot (oe_upd e)) (up_disk (ot_up s1)) = Some bs"
          using l by (auto simp: onSlots_def split: prod.splits sum.splits dest: Load_Inr)
        show thesis
        proof (cases "InactiveSlot bs")
          case (Inr slot)
          with 2(2) have t: "stageTail e c m data pub bs slot s2 = (r, s')" by simp
          have "only_up s2 s'" using t unfolding stageTail_def by (rule ou.withinD [rotated]) (intro ou.within_bind onUp_only ou.within_ret)
          then show thesis using staged [OF go(1) [unfolded V(1)]] True V bs Inr q t ou.trans [OF o] by blast
        qed (use 2(2) refused [OF go(1)] o q in \<open>auto simp: failS_def\<close>)
      qed
    qed (use go(2) V refused [OF go(1)] in \<open>auto simp: failS_def bindS_def verifiedFields_def split: if_splits\<close>)
  qed (use unverified in blast)
qed (use assms(2) untouched in \<open>auto simp: Stage_def failS_def\<close>)

text \<open>
  Claim C4. Whatever the channel and the disk do, \<open>Stage\<close> changes the slots or the boot state
  only with an image that is signed for this device: the baked anchor certifies the release key
  at an epoch not below the device's floor, that key signed the manifest (of another version
  than the running one, at an epoch not below the certificate's) in the form the offline tool
  signs, and the image payload in the same bytes, whose size and dm-verity root hash are those
  of the bytes staged. They go into the inactive slot, which is marked pending exactly when
  the call succeeds.
\<close>

theorem ota_stage_certified:
  assumes "boot_ok (ue_boot (oe_upd e))" "Stage e c s = (r, s')"
  shows "((\<exists>er. r = Inl er) \<and> quiet (ot_up s) (ot_up s')) \<or>
    (\<exists>m data pub img bs slot. ota_verified e c (es_current (ot_store s)) m data pub \<and> sm_Latest m \<noteq> oc_RunningVersion c \<and> ota_image e data pub img
      \<and> bootState (ue_boot (oe_upd e)) (up_disk (ot_up s)) = Some bs \<and> InactiveSlot bs = Inr slot
      \<and> slot_files (up_disk (ot_up s')) = (slot_files (up_disk (ot_up s)))((slot, osCoreName) := Some img)
      \<and> (case r of Inr res \<Rightarrow> res = \<lparr>sr_Staged = True, sr_Slot = slot, sr_Version = sm_Latest m\<rparr> \<and> bootState (ue_boot (oe_upd e)) (up_disk (ot_up s'))
            = Some \<lparr>bs_Active = bs_Active bs, bs_Pending = slot, bs_BootCounter = 0, bs_LastKnownGood = bs_LastKnownGood bs\<rparr>
          | Inl _ \<Rightarrow> boot_file (up_disk (ot_up s')) = boot_file (up_disk (ot_up s))))"
proof -
  have q: "quiet (ot_up s) (ot_up s1)" if "Check e c s = (r1, s1)" for r1 s1
    using that by (cases rule: Check_cases) (auto simp: ota_frame_def recordFailure_def quiet_def tickU_def)
  from assms show ?thesis
  proof (cases rule: Stage_cases)
    case (staged m data pub now s1 s2 bs slot)
    note q2 = quiet_trans [OF q [OF staged(1)] staged(7)]
    have l: "sm_Latest m \<noteq> oc_RunningVersion c" using staged(2) by (auto simp: statusOf_def Let_def split: if_splits)
    have b: "bootState (ue_boot (oe_upd e)) (up_disk (ot_up s)) = Some bs" using staged(5) q [OF staged(1)] by (simp add: bootState_def quiet_def)
    from assms(1) staged(8) show ?thesis
    proof (cases rule: stageTail_cases)
      case (ok img)
      then show ?thesis using staged(3,6) l b q2
        by (intro disjI2 exI [of _ m] exI [of _ data] exI [of _ pub] exI [of _ img] exI [of _ bs] exI [of _ slot]) (simp add: quiet_def split: sum.splits)
    qed (use quiet_trans [OF q2] in blast)
  next
    case (refused st s1 er)
    then show ?thesis using quiet_trans [OF q [OF refused(1)]] by blast
  qed (use q in auto)
qed

subsection \<open>What the owner sees\<close>

text \<open>
  \<open>encoding/json\<close> decodes the same text into the fields of the same name and type of both
  structs, so the manifest and the signed payload agree on them; the release time, whose types
  differ, is left out.
\<close>

definition decodes_alike :: "ota_env \<Rightarrow> bool" where
  "decodes_alike e \<longleftrightarrow> (\<forall>data m p. ue_manifest (oe_upd e) data = Some m \<longrightarrow> oe_payload e data = Some p \<longrightarrow>
     sm_Latest m = mp_Latest p \<and> sm_MinEpoch m = mp_MinEpoch p \<and> sm_IsSecurity m = mp_IsSecurity p \<and> sm_Severity m = mp_Severity p \<and> sm_Notes m = mp_Notes p)"

text \<open>A status that announces a release some certified key signed at an epoch not below \<open>fl\<close>.\<close>

definition signed_status :: "ota_env \<Rightarrow> OtaClient \<Rightarrow> int \<Rightarrow> OtaStatus \<Rightarrow> bool" where
  "signed_status e c fl st \<longleftrightarrow> os_LatestVersion st \<noteq> oc_RunningVersion c
     \<and> length (os_Notes st) \<le> 200 \<and> \<not> Contains (ToLower (os_Notes st)) ''://''
     \<and> (\<exists>anchorPub cert now pub p sig. LoadAnchor (ue_sign (oe_upd e)) (ue_read (oe_upd e) (oc_anchorPath c)) = Inr anchorPub
          \<and> ValidateReleaseCertAt (ue_sign (oe_upd e)) anchorPub cert now = None \<and> DecodePubKey cert = Inr pub
          \<and> Verify_sig (ue_sign (oe_upd e)) pub (Canonical (json_payload p)) sig \<and> fl \<le> rc_MinEpoch cert \<and> rc_MinEpoch cert \<le> mp_MinEpoch p
          \<and> os_LatestVersion st = mp_Latest p \<and> os_IsSecurity st = mp_IsSecurity p \<and> os_Severity st = mp_Severity p \<and> os_Notes st = mp_Notes p)"

lemma parseManifest_Inr:
  assumes "parseManifest e data = Inr m"
  shows "ue_manifest (oe_upd e) data = Some m" "ValidateSecuritySurface (sm_IsSecurity m) (sm_Severity m) (sm_Notes m) = None"
  using assms by (auto simp: parseManifest_def split: option.splits if_splits)

lemma verified_status:
  assumes "decodes_alike e" "ota_verified e c fl m data pub" "os_Available (statusOf e c m now)"
  shows "signed_status e c fl (statusOf e c m now)"
proof -
  from assms(2) obtain anchorPub cert now' p sig where v: "LoadAnchor (ue_sign (oe_upd e)) (ue_read (oe_upd e) (oc_anchorPath c)) = Inr anchorPub"
    "ValidateReleaseCertAt (ue_sign (oe_upd e)) anchorPub cert now' = None" "DecodePubKey cert = Inr pub" "parseManifest e data = Inr m" "oe_payload e data = Some p"
    "Verify_sig (ue_sign (oe_upd e)) pub (Canonical (json_payload p)) sig" "fl \<le> rc_MinEpoch cert" "rc_MinEpoch cert \<le> sm_MinEpoch m" unfolding ota_verified_def by blast
  note m = parseManifest_Inr [OF v(4)] and b = surface_bounds [OF parseManifest_Inr(2) [OF v(4)]]
  have st: "os_LatestVersion (statusOf e c m now) = sm_Latest m" "os_IsSecurity (statusOf e c m now) = sm_IsSecurity m"
    "os_Severity (statusOf e c m now) = sm_Severity m" "os_Notes (statusOf e c m now) = sm_Notes m" "sm_Latest m \<noteq> oc_RunningVersion c"
    using assms(3) by (auto simp: statusOf_def Let_def split: if_splits)
  have d: "sm_Latest m = mp_Latest p" "sm_MinEpoch m = mp_MinEpoch p" "sm_IsSecurity m = mp_IsSecurity p" "sm_Severity m = mp_Severity p" "sm_Notes m = mp_Notes p"
    using assms(1) m(1) v(5) unfolding decodes_alike_def by blast+
  show ?thesis unfolding signed_status_def st using st(5) b v(1-3,6-8) d by auto
qed

lemma signed_status_mono: "signed_status e c fl st \<Longrightarrow> fl' \<le> fl \<Longrightarrow> signed_status e c fl' st"
  unfolding signed_status_def by (meson order_trans)

definition ota_inv :: "ota_env \<Rightarrow> OtaClient \<Rightarrow> int \<Rightarrow> ota_server \<Rightarrow> bool" where
  "ota_inv e c fl sv \<longleftrightarrow> fl \<le> es_current (ot_store (sv_client sv))
     \<and> (os_Available (ot_status (sv_client sv)) \<longrightarrow> signed_status e c fl (ot_status (sv_client sv)))
     \<and> (\<forall>n \<in> set (sv_sent sv). \<exists>st owner. n = securityNotice st owner \<and> owner \<noteq> [] \<and> os_IsSecurity st \<and> signed_status e c fl st)"

lemma signed_status_fields: "signed_status e c fl (st\<lparr>os_LastError := x, os_CheckedAt := t\<rparr>) = signed_status e c fl st"
  by (simp add: signed_status_def)

lemma Check_inv:
  assumes "decodes_alike e" "ota_inv e c fl sv" "Check e c (sv_client sv) = (r, s')"
  shows "ota_inv e c fl (sv\<lparr>sv_client := s'\<rparr>)"
  using assms(3)
proof (cases rule: Check_cases)
  case (verified m data pub now)
  have fl: "fl \<le> es_current (ot_store (sv_client sv))" using assms(2) by (simp add: ota_inv_def)
  have "signed_status e c fl (ot_status s')" if "os_Available (ot_status s')"
    using signed_status_mono [OF verified_status [OF assms(1) verified(2)] fl] that verified(3) by simp
  then show ?thesis using assms(2) fl verified(8) by (simp add: ota_inv_def)
next
  case (failed er s1)
  then show ?thesis using assms(2) by (auto simp: ota_inv_def ota_frame_def recordFailure_def signed_status_fields)
qed

lemma Stage_inv:
  assumes "boot_ok (ue_boot (oe_upd e))" "decodes_alike e" "ota_inv e c fl sv" "Stage e c (sv_client sv) = (r, s')"
  shows "ota_inv e c fl (sv\<lparr>sv_client := s'\<rparr>)"
proof -
  have ou: "ota_inv e c fl (sv\<lparr>sv_client := s'\<rparr>)" if "Check e c (sv_client sv) = (r1, s1)" "only_up s1 s'" for r1 s1
    using Check_inv [OF assms(2,3) that(1)] that(2) by (auto simp: ota_inv_def only_up_def)
  from assms(1,4) show ?thesis by (cases rule: Stage_cases) (use ou Check_inv [OF assms(2,3)] assms(3) in auto)
qed

lemma step_inv:
  assumes "boot_ok (ue_boot (oe_upd e))" "decodes_alike e" "ota_step e c sv sv'" "ota_inv e c fl sv"
  shows "ota_inv e c fl sv'"
  using assms(3)
proof cases
  case (poll notifySvc owner)
  obtain r s' where k: "Check e c (sv_client sv) = (r, s')" by fastforce
  show ?thesis using Check_inv [OF assms(2,4) k] by (simp add: poll(1) pollOnce_def k onSecurityCheck_def Let_def) (auto simp: ota_inv_def)
next
  case (stage isAdmin stepup)
  obtain r s' where k: "Stage e c (sv_client sv) = (r, s')" by fastforce
  show ?thesis using Stage_inv [OF assms(1,2,4) k] assms(4) by (simp add: stage handleOtaStage_def k split: sum.splits)
qed

text \<open>
  Claim C18. Through any sequence of polls and stage requests from the start of the server,
  whatever the channel answers, an update shown as available and every security notice sent
  to the owner is one the release key signed: its version differs from the running one, its
  version, security flag, severity and notes are those of a payload signed by a key the baked
  anchor certifies, at epochs not below the floor the client started with, and the notes are
  short and carry no link. Failed checks never fake one, and the floor never falls.
\<close>

theorem ota_status_signed:
  assumes "boot_ok (ue_boot (oe_upd e))" "decodes_alike e"
    and "NewClient envURL cfg u = Some (c, s)" "(ota_step e c)\<^sup>*\<^sup>* \<lparr>sv_client = s, sv_lastNotified = [], sv_sent = []\<rparr> sv"
  shows "es_current (ot_store s) \<le> es_current (ot_store (sv_client sv))
    \<and> (os_Available (ot_status (sv_client sv)) \<longrightarrow> signed_status e c (es_current (ot_store s)) (ot_status (sv_client sv)))
    \<and> (\<forall>n \<in> set (sv_sent sv). \<exists>st owner. n = securityNotice st owner \<and> owner \<noteq> [] \<and> os_IsSecurity st \<and> signed_status e c (es_current (ot_store s)) st)"
proof -
  have "ota_inv e c (es_current (ot_store s)) sv" using assms(4)
  proof (induction rule: rtranclp_induct)
    case base
    show ?case using assms(3) by (auto simp: ota_inv_def NewClient_def Let_def split: option.splits)
  qed (rule step_inv [OF assms(1,2)])
  then show ?thesis by (simp add: ota_inv_def)
qed

subsection \<open>A concrete channel\<close>

text \<open>The release of the updater's example, announced as a security update.\<close>

definition exSec :: ManifestPayload where
  "exSec = exPayload\<lparr>mp_IsSecurity := True, mp_Severity := ''high'', mp_Notes := ''fix''\<rparr>"

definition exOta :: ota_env where
  "exOta = \<lparr>oe_upd = exUpd\<lparr>ue_get := \<lambda>_ url. Answer 200 (if url = ''h/os/v2/os-core.squashfs'' then ''i''
       else if url \<in> {''h/stable.json.sig'', ''h/os/v2/os-core.squashfs.sig''} then exSigFile else ''j'') True,
       ue_read := (\<lambda>_. Some (EncodeToString exPub)), ue_manifest := (\<lambda>_. Some (manifest_of exSec))\<rparr>,
     oe_keys = (\<lambda>_. Some signedManifestKeys), oe_payload = (\<lambda>_. Some exSec), oe_zeroTime = [], oe_errText = (\<lambda>_. ''e'')\<rparr>"

definition exCC :: ClientConfig where
  "exCC = \<lparr>cc_ChannelURL = ''h/'', cc_AnchorPath = [], cc_ReleaseCertPath = [], cc_EpochStore = Some \<lparr>es_current = 3\<rparr>, cc_SlotManager = True, cc_RunningVersion = ''v1''\<rparr>"

definition exCl :: OtaClient where
  "exCl = \<lparr>oc_channelURL = ''h'', oc_anchorPath = ''/etc/vulos/trust-anchor.pub'', oc_ReleaseCertPath = ''/etc/vulos/release-cert.json'', oc_SlotManager = True, oc_RunningVersion = ''v1''\<rparr>"

definition exOs :: ota_state where
  "exOs = \<lparr>ot_up = exUp, ot_store = \<lparr>es_current = 3\<rparr>, ot_status = \<lparr>os_Available = False, os_CurrentVersion = ''v1'', os_LatestVersion = [], os_IsSecurity = False, os_Severity = [],
     os_Notes = [], os_PublishedAt = None, os_ChannelURL = ''h'', os_CheckedAt = None, os_LastError = []\<rparr>, ot_manifest = None, ot_manifestData = [], ot_releaseKey = None\<rparr>"

lemma exNewClient: "NewClient [] exCC exUp = Some (exCl, exOs)"
  by (simp add: NewClient_def exCC_def exCl_def exOs_def ResolveChannelURL_def TrimRightSlash_def TrimSpace_def is_space_def DefaultAnchorPath_def DefaultReleaseCertPath_def)

lemma exOta_fields: "ue_sign (oe_upd exOta) = exSign2" "ue_boot (oe_upd exOta) = ue_boot exUpd" "ue_clock (oe_upd exOta) n = 50" "ue_image (oe_upd exOta) data = Some (image_of exPayload)"
    "ue_verity (oe_upd exOta) img tree h = VerityOk" "oe_payload exOta data = Some exSec" "ue_read (oe_upd exOta) path = Some (EncodeToString exPub)"
    "ue_sign exUpd = exSign2"
  by (simp_all add: exOta_def exUpd_def)

lemma exOta_env: "boot_ok (ue_boot (oe_upd exOta))" "decodes_alike exOta"
  using exUpd_env(1) by (simp_all add: exOta_fields decodes_alike_def) (simp add: exOta_def manifest_of_def)

definition exBody :: "string \<Rightarrow> bytes" where
  "exBody rel = (if rel = ''os/v2/os-core.squashfs'' then ''i'' else if rel \<in> {''stable.json.sig'', ''os/v2/os-core.squashfs.sig''} then exSigFile else ''j'')"

lemma exFetch: "hd rel \<noteq> CHR ''/'' \<Longrightarrow> fetchStream exOta exCl rel u = (Inr (exBody rel, True), tickU u)"
    "hd rel \<noteq> CHR ''/'' \<Longrightarrow> ota_fetch exOta exCl rel u = (Inr (exBody rel), tickU u)"
proof -
  assume r: "hd rel \<noteq> CHR ''/''"
  show f: "fetchStream exOta exCl rel u = (Inr (exBody rel, True), tickU u)"
    using r by (cases rel) (simp_all add: fetchStream_def exOta_def exCl_def exBody_def)
  show "ota_fetch exOta exCl rel u = (Inr (exBody rel), tickU u)"
    by (simp add: ota_fetch_def bindS_def f retS_def)
qed

lemma exNotes: "ValidateReleaseNotes ''fix'' = None"
proof -
  have r: "runes ''fix'' = [(102, ''f''), (105, ''i''), (120, ''x'')]" by (simp add: DecodeRune_def)
  have l: "ToLower ''fix'' = ''fix''" "\<not> Contains ''fix'' ''://''" "\<not> Contains ''fix'' ''www.''" by code_simp+
  have f: "\<not> IsFormat 102" "\<not> IsFormat 105" "\<not> IsFormat 120" by (simp_all add: IsFormat_def formatRanges_def)
  show ?thesis unfolding ValidateReleaseNotes_def ValidString_def r l by (simp add: l f MaxNotesBytes_def bad_rune_def RuneError_def IsControl_def del: Contains.simps)
qed

lemma exParse: "parseManifest exOta data = Inr (manifest_of exSec)"
  by (simp add: parseManifest_def exOta_def list_ex_iff manifest_of_def exSec_def exPayload_def ValidateSecuritySurface_def exNotes validSeverity_def Severities_def)

lemma exTrusted: "\<exists>u. trustedKey exOta exCl exOs = (Inr exPub, exOs\<lparr>ot_up := u\<rparr>) \<and> quiet exUp u"
proof -
  have "TrimSpace (EncodeToString exPub) = EncodeToString exPub" using exSign_b64 by (intro TrimSpace_plain) (simp add: b64_ok_def exSign_def exB64_def)
  moreover have "EncodeToString exPub \<noteq> []" "length exPub = 32" by (simp_all add: EncodeToString_def exPub_def)
  ultimately have a: "LoadAnchor exSign2 (Some (EncodeToString exPub)) = Inr exPub"
    using DecodeHex_Encode by (simp add: LoadAnchor_def exSign2_def exSign_def)
  have c: "otaCertBytes exOta exCl u = (Inr ''j'', tickU u)" for u
    by (simp add: otaCertBytes_def exFetch exBody_def)
  have k: "ReleaseKeyFromCert exSign2 exPub exCert 50 = Inr exPub" "rc_MinEpoch exCert = 3"
    using exCert_ok(3) [of 50] exCert_ok(4) by (simp_all add: ReleaseKeyFromCert_Inr) (simp add: exCert_def)
  show ?thesis
    by (simp add: trustedKey_def exOta_fields a c k exCert_ok bindS_def onUp_def otaNow_def upNow_def acceptEpoch_def AcceptEpoch_def otaRaise_def RaiseFromReleaseCert_def RaiseTo_def
        retS_def exOs_def) (auto simp: quiet_def tickU_def)
qed

lemma exVerified:
  assumes "es_current (ot_store s) = 3"
  shows "\<exists>u. verifiedChannel exOta exCl exPub s = (Inr (manifest_of exSec, ''j''), s\<lparr>ot_up := u\<rparr>) \<and> quiet (ot_up s) u"
proof -
  have c: "canonicalSigned exOta data = Inr (Canonical (json_payload exSec))" for data by (simp add: canonicalSigned_def exOta_fields)
  have v: "Verify_sig exSign2 exPub msg (replicate 64 CHR ''s'')" for msg by (simp add: Verify_sig_def exSign2_def exSign_def) (simp add: exPub_def)
  have m: "sm_MinEpoch (manifest_of exSec) = 3" by (simp add: manifest_of_def exSec_def exPayload_def)
  show ?thesis using assms
    by (simp add: verifiedChannel_def bindS_def onUp_def exFetch exBody_def exOta_fields exFileSig exParse c v acceptEpoch_def AcceptEpoch_def m retS_def) (auto simp: quiet_def tickU_def)
qed

lemma exCheck: "\<exists>s'. Check exOta exCl exOs = (Inr (statusOf exOta exCl (manifest_of exSec) 50), s') \<and> ot_manifest s' = Some (manifest_of exSec) \<and> ot_manifestData s' = ''j''
    \<and> ot_releaseKey s' = Some exPub"
proof -
  obtain u where t: "trustedKey exOta exCl exOs = (Inr exPub, exOs\<lparr>ot_up := u\<rparr>)" using exTrusted by blast
  obtain w where v: "verifiedChannel exOta exCl exPub (exOs\<lparr>ot_up := u\<rparr>) = (Inr (manifest_of exSec, ''j''), exOs\<lparr>ot_up := w\<rparr>)"
    using exVerified [of "exOs\<lparr>ot_up := u\<rparr>"] by (auto simp: exOs_def)
  have "oc_channelURL exCl \<noteq> []" by (simp add: exCl_def)
  then show ?thesis using t v by (simp add: Check_def checkBody_def bindS_def otaNow_def onUp_def upNow_def exOta_fields recordVerified_def)
qed

lemma exStatus: "os_Available (statusOf exOta exCl (manifest_of exSec) 50)" "os_IsSecurity (statusOf exOta exCl (manifest_of exSec) 50)"
    "os_LatestVersion (statusOf exOta exCl (manifest_of exSec) 50) = ''v2''" "os_Notes (statusOf exOta exCl (manifest_of exSec) 50) = ''fix''"
  by (simp_all add: statusOf_def manifest_of_def exSec_def exPayload_def exCl_def)

lemma exInit: "ota_step exOta exCl \<lparr>sv_client = exOs, sv_lastNotified = [], sv_sent = []\<rparr> (pollOnce exOta exCl True ''o'' \<lparr>sv_client = exOs, sv_lastNotified = [], sv_sent = []\<rparr>)"
  by (rule ota_step.poll) (simp add: Enabled_def exCl_def)

theorem ota_status_signed_witness:
  "\<exists>sv st. (ota_step exOta exCl)\<^sup>*\<^sup>* \<lparr>sv_client = exOs, sv_lastNotified = [], sv_sent = []\<rparr> sv \<and> sv_sent sv = [securityNotice st ''o''] \<and> os_LatestVersion st = ''v2'' \<and> signed_status exOta exCl 3 st"
proof -
  let ?sv = "pollOnce exOta exCl True ''o'' \<lparr>sv_client = exOs, sv_lastNotified = [], sv_sent = []\<rparr>"
  obtain s' where c: "Check exOta exCl exOs = (Inr (statusOf exOta exCl (manifest_of exSec) 50), s')" using exCheck by blast
  have st: "ot_status s' = statusOf exOta exCl (manifest_of exSec) 50" using c by (cases rule: Check_cases) auto
  have run: "(ota_step exOta exCl)\<^sup>*\<^sup>* \<lparr>sv_client = exOs, sv_lastNotified = [], sv_sent = []\<rparr> ?sv" using exInit by blast
  have sent: "sv_sent ?sv = [securityNotice (ot_status s') ''o'']" "sv_client ?sv = s'"
    using c st exStatus by (simp_all add: pollOnce_def onSecurityCheck_def)
  have "signed_status exOta exCl 3 (ot_status s')"
    using ota_status_signed [OF exOta_env exNewClient run] sent(2) st exStatus(1) by (simp add: exOs_def)
  then show ?thesis using run sent st exStatus by (intro exI [of _ ?sv] exI [of _ "ot_status s'"]) simp
qed

lemma exUpIO: "upIO (oe_upd exOta) u = (Inr (), tickU u)"
  using exUpd_env(2) by (simp add: upIO_def disk_answers_def exOta_fields)

lemma exDownload: "\<exists>v. downloadAndVerify exOta exCl (manifest_of exSec) ''j'' exPub exState ''b'' u = (Inr (), v) \<and> staged_as ''b'' ''i'' u v"
proof -
  have h: "hashtreePathFor ''os/v2/os-core.squashfs'' = ''os/v2/os-core.hashtree''" by (simp add: hashtreePathFor_def TrimSuffix_def)
  have p: "sm_Path (manifest_of exSec) = ''os/v2/os-core.squashfs''" "ip_Size (image_of exPayload) = 1" by (simp_all add: manifest_of_def image_of_def exSec_def exPayload_def)
  have bd: "otaBindByVerity exOta exCl ''i'' ''os/v2/os-core.hashtree'' r w = (Inr (), tickU (tickU (tickU (tickU w))))" for r w
    by (simp add: otaBindByVerity_def exFetch bindS_def exUpIO exOta_fields verityVerifyWithTool_def retS_def)
  have vs: "Verify_sig exSign2 exPub msg (replicate 64 CHR ''s'')" for msg by (simp add: Verify_sig_def exSign2_def exSign_def) (simp add: exPub_def)
  let ?w = "tickU (tickU (tickU (tickU (tickU (tickU (tickU (tickU (tickU (tickU (tickU u))))))))))"
  obtain v where v: "onSlots (StageInto (ue_boot exUpd) exState ''b'' osCoreName ''i'') ?w = (Inr (), v)" "staged_as ''b'' ''i'' ?w v"
    using StageInto_go [OF exUpd_env(2), of "''b''" exState "''i''" ?w] by (auto simp: valid_slot_def SlotA_def SlotB_def exState_def)
  have "downloadAndVerify exOta exCl (manifest_of exSec) ''j'' exPub exState ''b'' u = (Inr (), v)"
    using v(1) by (simp add: downloadAndVerify_def exOta_fields SlotDir_def valid_slot_def SlotA_def SlotB_def bindS_def exFetch exUpIO p otaVerifyAndStage_def h bd exBody_def exFileSig vs)
  moreover have "staged_as ''b'' ''i'' u v" using v(2) by (simp add: staged_as_def tickU_def)
  ultimately show ?thesis by blast
qed

theorem ota_stage_certified_witness:
  "\<exists>s' m data pub img. Stage exOta exCl exOs = (Inr \<lparr>sr_Staged = True, sr_Slot = ''b'', sr_Version = ''v2''\<rparr>, s') \<and> ota_verified exOta exCl 3 m data pub \<and> ota_image exOta data pub img
     \<and> slot_files (up_disk (ot_up s')) (''b'', osCoreName) = Some img"
proof -
  obtain s1 where c: "Check exOta exCl exOs = (Inr (statusOf exOta exCl (manifest_of exSec) 50), s1)" "ot_manifest s1 = Some (manifest_of exSec)" "ot_manifestData s1 = ''j''"
    "ot_releaseKey s1 = Some exPub" using exCheck by blast
  have "quiet exUp (ot_up s1)" using c(1) by (cases rule: Check_cases) (auto simp: exOs_def)
  then have b1: "bootState (ue_boot exUpd) (up_disk (ot_up s1)) = Some exState" using exState_staged by (simp add: bootState_def quiet_def)
  have l: "onSlots (Load (ue_boot exUpd)) (ot_up s1) = (Inr exState, tickU (ot_up s1))"
    using Load_go [OF exUpd_env(2) b1 exState_valid] by (simp add: onSlots_def tickU_def)
  obtain v where d: "downloadAndVerify exOta exCl (manifest_of exSec) ''j'' exPub exState ''b'' (tickU (ot_up s1)) = (Inr (), v)" using exDownload by blast
  let ?next = "\<lparr>bs_Active = ''a'', bs_Pending = ''b'', bs_BootCounter = 0, bs_LastKnownGood = ''a''\<rparr>"
  have n: "validate ?next = None" by (simp add: validate_def valid_slot_def SlotA_def SlotB_def)
  obtain w where p: "onSlots (SetPending (ue_boot exUpd) exState ''b'') v = (Inr ?next, w)"
    using saved_go [OF exUpd_env(2) n, of "up_disk v"] by (simp add: onSlots_def SetPending_def exState_def valid_slot_def SlotA_def SlotB_def)
  have "InactiveSlot exState = Inr ''b''" "oc_SlotManager exCl" "sm_Latest (manifest_of exSec) = ''v2''"
    by (simp_all add: InactiveSlot_def exState_def SlotA_def SlotB_def exCl_def manifest_of_def exSec_def exPayload_def)
  then have r: "Stage exOta exCl exOs = (Inr \<lparr>sr_Staged = True, sr_Slot = ''b'', sr_Version = ''v2''\<rparr>, s1\<lparr>ot_up := w\<rparr>)"
    using c d p l exStatus(1) by (simp add: Stage_def bindS_def verifiedFields_def onUp_def exOta_fields retS_def)
  have e3: "es_current (ot_store exOs) = 3" by (simp add: exOs_def)
  show ?thesis using ota_stage_certified [OF exOta_env(1) r] r unfolding e3 by auto blast
qed

end
