(* ===== verification/Bip39_Words.thy ===== *)
theory Bip39_Words
  imports Go_Text
begin

text \<open>
  The BIP39 word list (\<open>backend/internal/auth/wordlist.go\<close>), 128 words a definition, and the
  lookup table \<open>recovery.go\<close> builds from it. The list is strictly ascending, so the table
  inverts it, and its words are lower-case letters, so splitting a phrase at spaces finds them.
\<close>

definition words0 :: "string list" where
  "words0 = [
    ''abandon'', ''ability'', ''able'', ''about'', ''above'', ''absent'', ''absorb'', ''abstract'',
    ''absurd'', ''abuse'', ''access'', ''accident'', ''account'', ''accuse'', ''achieve'', ''acid'',
    ''acoustic'', ''acquire'', ''across'', ''act'', ''action'', ''actor'', ''actress'', ''actual'',
    ''adapt'', ''add'', ''addict'', ''address'', ''adjust'', ''admit'', ''adult'', ''advance'', ''advice'',
    ''aerobic'', ''affair'', ''afford'', ''afraid'', ''again'', ''age'', ''agent'', ''agree'', ''ahead'',
    ''aim'', ''air'', ''airport'', ''aisle'', ''alarm'', ''album'', ''alcohol'', ''alert'', ''alien'',
    ''all'', ''alley'', ''allow'', ''almost'', ''alone'', ''alpha'', ''already'', ''also'', ''alter'',
    ''always'', ''amateur'', ''amazing'', ''among'', ''amount'', ''amused'', ''analyst'', ''anchor'',
    ''ancient'', ''anger'', ''angle'', ''angry'', ''animal'', ''ankle'', ''announce'', ''annual'',
    ''another'', ''answer'', ''antenna'', ''antique'', ''anxiety'', ''any'', ''apart'', ''apology'',
    ''appear'', ''apple'', ''approve'', ''april'', ''arch'', ''arctic'', ''area'', ''arena'', ''argue'',
    ''arm'', ''armed'', ''armor'', ''army'', ''around'', ''arrange'', ''arrest'', ''arrive'', ''arrow'',
    ''art'', ''artefact'', ''artist'', ''artwork'', ''ask'', ''aspect'', ''assault'', ''asset'', ''assist'',
    ''assume'', ''asthma'', ''athlete'', ''atom'', ''attack'', ''attend'', ''attitude'', ''attract'',
    ''auction'', ''audit'', ''august'', ''aunt'', ''author'', ''auto'', ''autumn'', ''average'', ''avocado'']"

definition words1 :: "string list" where
  "words1 = [
    ''avoid'', ''awake'', ''aware'', ''away'', ''awesome'', ''awful'', ''awkward'', ''axis'', ''baby'',
    ''bachelor'', ''bacon'', ''badge'', ''bag'', ''balance'', ''balcony'', ''ball'', ''bamboo'', ''banana'',
    ''banner'', ''bar'', ''barely'', ''bargain'', ''barrel'', ''base'', ''basic'', ''basket'', ''battle'',
    ''beach'', ''bean'', ''beauty'', ''because'', ''become'', ''beef'', ''before'', ''begin'', ''behave'',
    ''behind'', ''believe'', ''below'', ''belt'', ''bench'', ''benefit'', ''best'', ''betray'', ''better'',
    ''between'', ''beyond'', ''bicycle'', ''bid'', ''bike'', ''bind'', ''biology'', ''bird'', ''birth'',
    ''bitter'', ''black'', ''blade'', ''blame'', ''blanket'', ''blast'', ''bleak'', ''bless'', ''blind'',
    ''blood'', ''blossom'', ''blouse'', ''blue'', ''blur'', ''blush'', ''board'', ''boat'', ''body'',
    ''boil'', ''bomb'', ''bone'', ''bonus'', ''book'', ''boost'', ''border'', ''boring'', ''borrow'',
    ''boss'', ''bottom'', ''bounce'', ''box'', ''boy'', ''bracket'', ''brain'', ''brand'', ''brass'',
    ''brave'', ''bread'', ''breeze'', ''brick'', ''bridge'', ''brief'', ''bright'', ''bring'', ''brisk'',
    ''broccoli'', ''broken'', ''bronze'', ''broom'', ''brother'', ''brown'', ''brush'', ''bubble'',
    ''buddy'', ''budget'', ''buffalo'', ''build'', ''bulb'', ''bulk'', ''bullet'', ''bundle'', ''bunker'',
    ''burden'', ''burger'', ''burst'', ''bus'', ''business'', ''busy'', ''butter'', ''buyer'', ''buzz'',
    ''cabbage'', ''cabin'', ''cable'']"

definition words2 :: "string list" where
  "words2 = [
    ''cactus'', ''cage'', ''cake'', ''call'', ''calm'', ''camera'', ''camp'', ''can'', ''canal'', ''cancel'',
    ''candy'', ''cannon'', ''canoe'', ''canvas'', ''canyon'', ''capable'', ''capital'', ''captain'', ''car'',
    ''carbon'', ''card'', ''cargo'', ''carpet'', ''carry'', ''cart'', ''case'', ''cash'', ''casino'',
    ''castle'', ''casual'', ''cat'', ''catalog'', ''catch'', ''category'', ''cattle'', ''caught'', ''cause'',
    ''caution'', ''cave'', ''ceiling'', ''celery'', ''cement'', ''census'', ''century'', ''cereal'',
    ''certain'', ''chair'', ''chalk'', ''champion'', ''change'', ''chaos'', ''chapter'', ''charge'',
    ''chase'', ''chat'', ''cheap'', ''check'', ''cheese'', ''chef'', ''cherry'', ''chest'', ''chicken'',
    ''chief'', ''child'', ''chimney'', ''choice'', ''choose'', ''chronic'', ''chuckle'', ''chunk'',
    ''churn'', ''cigar'', ''cinnamon'', ''circle'', ''citizen'', ''city'', ''civil'', ''claim'', ''clap'',
    ''clarify'', ''claw'', ''clay'', ''clean'', ''clerk'', ''clever'', ''click'', ''client'', ''cliff'',
    ''climb'', ''clinic'', ''clip'', ''clock'', ''clog'', ''close'', ''cloth'', ''cloud'', ''clown'',
    ''club'', ''clump'', ''cluster'', ''clutch'', ''coach'', ''coast'', ''coconut'', ''code'', ''coffee'',
    ''coil'', ''coin'', ''collect'', ''color'', ''column'', ''combine'', ''come'', ''comfort'', ''comic'',
    ''common'', ''company'', ''concert'', ''conduct'', ''confirm'', ''congress'', ''connect'', ''consider'',
    ''control'', ''convince'', ''cook'', ''cool'', ''copper'']"

definition words3 :: "string list" where
  "words3 = [
    ''copy'', ''coral'', ''core'', ''corn'', ''correct'', ''cost'', ''cotton'', ''couch'', ''country'',
    ''couple'', ''course'', ''cousin'', ''cover'', ''coyote'', ''crack'', ''cradle'', ''craft'', ''cram'',
    ''crane'', ''crash'', ''crater'', ''crawl'', ''crazy'', ''cream'', ''credit'', ''creek'', ''crew'',
    ''cricket'', ''crime'', ''crisp'', ''critic'', ''crop'', ''cross'', ''crouch'', ''crowd'', ''crucial'',
    ''cruel'', ''cruise'', ''crumble'', ''crunch'', ''crush'', ''cry'', ''crystal'', ''cube'', ''culture'',
    ''cup'', ''cupboard'', ''curious'', ''current'', ''curtain'', ''curve'', ''cushion'', ''custom'',
    ''cute'', ''cycle'', ''dad'', ''damage'', ''damp'', ''dance'', ''danger'', ''daring'', ''dash'',
    ''daughter'', ''dawn'', ''day'', ''deal'', ''debate'', ''debris'', ''decade'', ''december'', ''decide'',
    ''decline'', ''decorate'', ''decrease'', ''deer'', ''defense'', ''define'', ''defy'', ''degree'',
    ''delay'', ''deliver'', ''demand'', ''demise'', ''denial'', ''dentist'', ''deny'', ''depart'',
    ''depend'', ''deposit'', ''depth'', ''deputy'', ''derive'', ''describe'', ''desert'', ''design'',
    ''desk'', ''despair'', ''destroy'', ''detail'', ''detect'', ''develop'', ''device'', ''devote'',
    ''diagram'', ''dial'', ''diamond'', ''diary'', ''dice'', ''diesel'', ''diet'', ''differ'', ''digital'',
    ''dignity'', ''dilemma'', ''dinner'', ''dinosaur'', ''direct'', ''dirt'', ''disagree'', ''discover'',
    ''disease'', ''dish'', ''dismiss'', ''disorder'', ''display'', ''distance'', ''divert'', ''divide'']"

definition words4 :: "string list" where
  "words4 = [
    ''divorce'', ''dizzy'', ''doctor'', ''document'', ''dog'', ''doll'', ''dolphin'', ''domain'', ''donate'',
    ''donkey'', ''donor'', ''door'', ''dose'', ''double'', ''dove'', ''draft'', ''dragon'', ''drama'',
    ''drastic'', ''draw'', ''dream'', ''dress'', ''drift'', ''drill'', ''drink'', ''drip'', ''drive'',
    ''drop'', ''drum'', ''dry'', ''duck'', ''dumb'', ''dune'', ''during'', ''dust'', ''dutch'', ''duty'',
    ''dwarf'', ''dynamic'', ''eager'', ''eagle'', ''early'', ''earn'', ''earth'', ''easily'', ''east'',
    ''easy'', ''echo'', ''ecology'', ''economy'', ''edge'', ''edit'', ''educate'', ''effort'', ''egg'',
    ''eight'', ''either'', ''elbow'', ''elder'', ''electric'', ''elegant'', ''element'', ''elephant'',
    ''elevator'', ''elite'', ''else'', ''embark'', ''embody'', ''embrace'', ''emerge'', ''emotion'',
    ''employ'', ''empower'', ''empty'', ''enable'', ''enact'', ''end'', ''endless'', ''endorse'', ''enemy'',
    ''energy'', ''enforce'', ''engage'', ''engine'', ''enhance'', ''enjoy'', ''enlist'', ''enough'',
    ''enrich'', ''enroll'', ''ensure'', ''enter'', ''entire'', ''entry'', ''envelope'', ''episode'',
    ''equal'', ''equip'', ''era'', ''erase'', ''erode'', ''erosion'', ''error'', ''erupt'', ''escape'',
    ''essay'', ''essence'', ''estate'', ''eternal'', ''ethics'', ''evidence'', ''evil'', ''evoke'',
    ''evolve'', ''exact'', ''example'', ''excess'', ''exchange'', ''excite'', ''exclude'', ''excuse'',
    ''execute'', ''exercise'', ''exhaust'', ''exhibit'', ''exile'', ''exist'', ''exit'']"

definition words5 :: "string list" where
  "words5 = [
    ''exotic'', ''expand'', ''expect'', ''expire'', ''explain'', ''expose'', ''express'', ''extend'',
    ''extra'', ''eye'', ''eyebrow'', ''fabric'', ''face'', ''faculty'', ''fade'', ''faint'', ''faith'',
    ''fall'', ''false'', ''fame'', ''family'', ''famous'', ''fan'', ''fancy'', ''fantasy'', ''farm'',
    ''fashion'', ''fat'', ''fatal'', ''father'', ''fatigue'', ''fault'', ''favorite'', ''feature'',
    ''february'', ''federal'', ''fee'', ''feed'', ''feel'', ''female'', ''fence'', ''festival'', ''fetch'',
    ''fever'', ''few'', ''fiber'', ''fiction'', ''field'', ''figure'', ''file'', ''film'', ''filter'',
    ''final'', ''find'', ''fine'', ''finger'', ''finish'', ''fire'', ''firm'', ''first'', ''fiscal'',
    ''fish'', ''fit'', ''fitness'', ''fix'', ''flag'', ''flame'', ''flash'', ''flat'', ''flavor'', ''flee'',
    ''flight'', ''flip'', ''float'', ''flock'', ''floor'', ''flower'', ''fluid'', ''flush'', ''fly'',
    ''foam'', ''focus'', ''fog'', ''foil'', ''fold'', ''follow'', ''food'', ''foot'', ''force'', ''forest'',
    ''forget'', ''fork'', ''fortune'', ''forum'', ''forward'', ''fossil'', ''foster'', ''found'', ''fox'',
    ''fragile'', ''frame'', ''frequent'', ''fresh'', ''friend'', ''fringe'', ''frog'', ''front'', ''frost'',
    ''frown'', ''frozen'', ''fruit'', ''fuel'', ''fun'', ''funny'', ''furnace'', ''fury'', ''future'',
    ''gadget'', ''gain'', ''galaxy'', ''gallery'', ''game'', ''gap'', ''garage'', ''garbage'', ''garden'',
    ''garlic'', ''garment'']"

definition words6 :: "string list" where
  "words6 = [
    ''gas'', ''gasp'', ''gate'', ''gather'', ''gauge'', ''gaze'', ''general'', ''genius'', ''genre'',
    ''gentle'', ''genuine'', ''gesture'', ''ghost'', ''giant'', ''gift'', ''giggle'', ''ginger'',
    ''giraffe'', ''girl'', ''give'', ''glad'', ''glance'', ''glare'', ''glass'', ''glide'', ''glimpse'',
    ''globe'', ''gloom'', ''glory'', ''glove'', ''glow'', ''glue'', ''goat'', ''goddess'', ''gold'',
    ''good'', ''goose'', ''gorilla'', ''gospel'', ''gossip'', ''govern'', ''gown'', ''grab'', ''grace'',
    ''grain'', ''grant'', ''grape'', ''grass'', ''gravity'', ''great'', ''green'', ''grid'', ''grief'',
    ''grit'', ''grocery'', ''group'', ''grow'', ''grunt'', ''guard'', ''guess'', ''guide'', ''guilt'',
    ''guitar'', ''gun'', ''gym'', ''habit'', ''hair'', ''half'', ''hammer'', ''hamster'', ''hand'',
    ''happy'', ''harbor'', ''hard'', ''harsh'', ''harvest'', ''hat'', ''have'', ''hawk'', ''hazard'',
    ''head'', ''health'', ''heart'', ''heavy'', ''hedgehog'', ''height'', ''hello'', ''helmet'', ''help'',
    ''hen'', ''hero'', ''hidden'', ''high'', ''hill'', ''hint'', ''hip'', ''hire'', ''history'', ''hobby'',
    ''hockey'', ''hold'', ''hole'', ''holiday'', ''hollow'', ''home'', ''honey'', ''hood'', ''hope'',
    ''horn'', ''horror'', ''horse'', ''hospital'', ''host'', ''hotel'', ''hour'', ''hover'', ''hub'',
    ''huge'', ''human'', ''humble'', ''humor'', ''hundred'', ''hungry'', ''hunt'', ''hurdle'', ''hurry'',
    ''hurt'', ''husband'']"

definition words7 :: "string list" where
  "words7 = [
    ''hybrid'', ''ice'', ''icon'', ''idea'', ''identify'', ''idle'', ''ignore'', ''ill'', ''illegal'',
    ''illness'', ''image'', ''imitate'', ''immense'', ''immune'', ''impact'', ''impose'', ''improve'',
    ''impulse'', ''inch'', ''include'', ''income'', ''increase'', ''index'', ''indicate'', ''indoor'',
    ''industry'', ''infant'', ''inflict'', ''inform'', ''inhale'', ''inherit'', ''initial'', ''inject'',
    ''injury'', ''inmate'', ''inner'', ''innocent'', ''input'', ''inquiry'', ''insane'', ''insect'',
    ''inside'', ''inspire'', ''install'', ''intact'', ''interest'', ''into'', ''invest'', ''invite'',
    ''involve'', ''iron'', ''island'', ''isolate'', ''issue'', ''item'', ''ivory'', ''jacket'', ''jaguar'',
    ''jar'', ''jazz'', ''jealous'', ''jeans'', ''jelly'', ''jewel'', ''job'', ''join'', ''joke'',
    ''journey'', ''joy'', ''judge'', ''juice'', ''jump'', ''jungle'', ''junior'', ''junk'', ''just'',
    ''kangaroo'', ''keen'', ''keep'', ''ketchup'', ''key'', ''kick'', ''kid'', ''kidney'', ''kind'',
    ''kingdom'', ''kiss'', ''kit'', ''kitchen'', ''kite'', ''kitten'', ''kiwi'', ''knee'', ''knife'',
    ''knock'', ''know'', ''lab'', ''label'', ''labor'', ''ladder'', ''lady'', ''lake'', ''lamp'',
    ''language'', ''laptop'', ''large'', ''later'', ''latin'', ''laugh'', ''laundry'', ''lava'', ''law'',
    ''lawn'', ''lawsuit'', ''layer'', ''lazy'', ''leader'', ''leaf'', ''learn'', ''leave'', ''lecture'',
    ''left'', ''leg'', ''legal'', ''legend'', ''leisure'', ''lemon'', ''lend'']"

definition words8 :: "string list" where
  "words8 = [
    ''length'', ''lens'', ''leopard'', ''lesson'', ''letter'', ''level'', ''liar'', ''liberty'', ''library'',
    ''license'', ''life'', ''lift'', ''light'', ''like'', ''limb'', ''limit'', ''link'', ''lion'',
    ''liquid'', ''list'', ''little'', ''live'', ''lizard'', ''load'', ''loan'', ''lobster'', ''local'',
    ''lock'', ''logic'', ''lonely'', ''long'', ''loop'', ''lottery'', ''loud'', ''lounge'', ''love'',
    ''loyal'', ''lucky'', ''luggage'', ''lumber'', ''lunar'', ''lunch'', ''luxury'', ''lyrics'', ''machine'',
    ''mad'', ''magic'', ''magnet'', ''maid'', ''mail'', ''main'', ''major'', ''make'', ''mammal'', ''man'',
    ''manage'', ''mandate'', ''mango'', ''mansion'', ''manual'', ''maple'', ''marble'', ''march'',
    ''margin'', ''marine'', ''market'', ''marriage'', ''mask'', ''mass'', ''master'', ''match'',
    ''material'', ''math'', ''matrix'', ''matter'', ''maximum'', ''maze'', ''meadow'', ''mean'', ''measure'',
    ''meat'', ''mechanic'', ''medal'', ''media'', ''melody'', ''melt'', ''member'', ''memory'', ''mention'',
    ''menu'', ''mercy'', ''merge'', ''merit'', ''merry'', ''mesh'', ''message'', ''metal'', ''method'',
    ''middle'', ''midnight'', ''milk'', ''million'', ''mimic'', ''mind'', ''minimum'', ''minor'', ''minute'',
    ''miracle'', ''mirror'', ''misery'', ''miss'', ''mistake'', ''mix'', ''mixed'', ''mixture'', ''mobile'',
    ''model'', ''modify'', ''mom'', ''moment'', ''monitor'', ''monkey'', ''monster'', ''month'', ''moon'',
    ''moral'', ''more'', ''morning'']"

definition words9 :: "string list" where
  "words9 = [
    ''mosquito'', ''mother'', ''motion'', ''motor'', ''mountain'', ''mouse'', ''move'', ''movie'', ''much'',
    ''muffin'', ''mule'', ''multiply'', ''muscle'', ''museum'', ''mushroom'', ''music'', ''must'',
    ''mutual'', ''myself'', ''mystery'', ''myth'', ''naive'', ''name'', ''napkin'', ''narrow'', ''nasty'',
    ''nation'', ''nature'', ''near'', ''neck'', ''need'', ''negative'', ''neglect'', ''neither'', ''nephew'',
    ''nerve'', ''nest'', ''net'', ''network'', ''neutral'', ''never'', ''news'', ''next'', ''nice'',
    ''night'', ''noble'', ''noise'', ''nominee'', ''noodle'', ''normal'', ''north'', ''nose'', ''notable'',
    ''note'', ''nothing'', ''notice'', ''novel'', ''now'', ''nuclear'', ''number'', ''nurse'', ''nut'',
    ''oak'', ''obey'', ''object'', ''oblige'', ''obscure'', ''observe'', ''obtain'', ''obvious'', ''occur'',
    ''ocean'', ''october'', ''odor'', ''off'', ''offer'', ''office'', ''often'', ''oil'', ''okay'', ''old'',
    ''olive'', ''olympic'', ''omit'', ''once'', ''one'', ''onion'', ''online'', ''only'', ''open'',
    ''opera'', ''opinion'', ''oppose'', ''option'', ''orange'', ''orbit'', ''orchard'', ''order'',
    ''ordinary'', ''organ'', ''orient'', ''original'', ''orphan'', ''ostrich'', ''other'', ''outdoor'',
    ''outer'', ''output'', ''outside'', ''oval'', ''oven'', ''over'', ''own'', ''owner'', ''oxygen'',
    ''oyster'', ''ozone'', ''pact'', ''paddle'', ''page'', ''pair'', ''palace'', ''palm'', ''panda'',
    ''panel'', ''panic'', ''panther'', ''paper'']"

definition words10 :: "string list" where
  "words10 = [
    ''parade'', ''parent'', ''park'', ''parrot'', ''party'', ''pass'', ''patch'', ''path'', ''patient'',
    ''patrol'', ''pattern'', ''pause'', ''pave'', ''payment'', ''peace'', ''peanut'', ''pear'', ''peasant'',
    ''pelican'', ''pen'', ''penalty'', ''pencil'', ''people'', ''pepper'', ''perfect'', ''permit'',
    ''person'', ''pet'', ''phone'', ''photo'', ''phrase'', ''physical'', ''piano'', ''picnic'', ''picture'',
    ''piece'', ''pig'', ''pigeon'', ''pill'', ''pilot'', ''pink'', ''pioneer'', ''pipe'', ''pistol'',
    ''pitch'', ''pizza'', ''place'', ''planet'', ''plastic'', ''plate'', ''play'', ''please'', ''pledge'',
    ''pluck'', ''plug'', ''plunge'', ''poem'', ''poet'', ''point'', ''polar'', ''pole'', ''police'',
    ''pond'', ''pony'', ''pool'', ''popular'', ''portion'', ''position'', ''possible'', ''post'', ''potato'',
    ''pottery'', ''poverty'', ''powder'', ''power'', ''practice'', ''praise'', ''predict'', ''prefer'',
    ''prepare'', ''present'', ''pretty'', ''prevent'', ''price'', ''pride'', ''primary'', ''print'',
    ''priority'', ''prison'', ''private'', ''prize'', ''problem'', ''process'', ''produce'', ''profit'',
    ''program'', ''project'', ''promote'', ''proof'', ''property'', ''prosper'', ''protect'', ''proud'',
    ''provide'', ''public'', ''pudding'', ''pull'', ''pulp'', ''pulse'', ''pumpkin'', ''punch'', ''pupil'',
    ''puppy'', ''purchase'', ''purity'', ''purpose'', ''purse'', ''push'', ''put'', ''puzzle'', ''pyramid'',
    ''quality'', ''quantum'', ''quarter'', ''question'', ''quick'', ''quit'', ''quiz'']"

definition words11 :: "string list" where
  "words11 = [
    ''quote'', ''rabbit'', ''raccoon'', ''race'', ''rack'', ''radar'', ''radio'', ''rail'', ''rain'',
    ''raise'', ''rally'', ''ramp'', ''ranch'', ''random'', ''range'', ''rapid'', ''rare'', ''rate'',
    ''rather'', ''raven'', ''raw'', ''razor'', ''ready'', ''real'', ''reason'', ''rebel'', ''rebuild'',
    ''recall'', ''receive'', ''recipe'', ''record'', ''recycle'', ''reduce'', ''reflect'', ''reform'',
    ''refuse'', ''region'', ''regret'', ''regular'', ''reject'', ''relax'', ''release'', ''relief'',
    ''rely'', ''remain'', ''remember'', ''remind'', ''remove'', ''render'', ''renew'', ''rent'', ''reopen'',
    ''repair'', ''repeat'', ''replace'', ''report'', ''require'', ''rescue'', ''resemble'', ''resist'',
    ''resource'', ''response'', ''result'', ''retire'', ''retreat'', ''return'', ''reunion'', ''reveal'',
    ''review'', ''reward'', ''rhythm'', ''rib'', ''ribbon'', ''rice'', ''rich'', ''ride'', ''ridge'',
    ''rifle'', ''right'', ''rigid'', ''ring'', ''riot'', ''ripple'', ''risk'', ''ritual'', ''rival'',
    ''river'', ''road'', ''roast'', ''robot'', ''robust'', ''rocket'', ''romance'', ''roof'', ''rookie'',
    ''room'', ''rose'', ''rotate'', ''rough'', ''round'', ''route'', ''royal'', ''rubber'', ''rude'',
    ''rug'', ''rule'', ''run'', ''runway'', ''rural'', ''sad'', ''saddle'', ''sadness'', ''safe'', ''sail'',
    ''salad'', ''salmon'', ''salon'', ''salt'', ''salute'', ''same'', ''sample'', ''sand'', ''satisfy'',
    ''satoshi'', ''sauce'', ''sausage'', ''save'', ''say'']"

definition words12 :: "string list" where
  "words12 = [
    ''scale'', ''scan'', ''scare'', ''scatter'', ''scene'', ''scheme'', ''school'', ''science'',
    ''scissors'', ''scorpion'', ''scout'', ''scrap'', ''screen'', ''script'', ''scrub'', ''sea'', ''search'',
    ''season'', ''seat'', ''second'', ''secret'', ''section'', ''security'', ''seed'', ''seek'', ''segment'',
    ''select'', ''sell'', ''seminar'', ''senior'', ''sense'', ''sentence'', ''series'', ''service'',
    ''session'', ''settle'', ''setup'', ''seven'', ''shadow'', ''shaft'', ''shallow'', ''share'', ''shed'',
    ''shell'', ''sheriff'', ''shield'', ''shift'', ''shine'', ''ship'', ''shiver'', ''shock'', ''shoe'',
    ''shoot'', ''shop'', ''short'', ''shoulder'', ''shove'', ''shrimp'', ''shrug'', ''shuffle'', ''shy'',
    ''sibling'', ''sick'', ''side'', ''siege'', ''sight'', ''sign'', ''silent'', ''silk'', ''silly'',
    ''silver'', ''similar'', ''simple'', ''since'', ''sing'', ''siren'', ''sister'', ''situate'', ''six'',
    ''size'', ''skate'', ''sketch'', ''ski'', ''skill'', ''skin'', ''skirt'', ''skull'', ''slab'', ''slam'',
    ''sleep'', ''slender'', ''slice'', ''slide'', ''slight'', ''slim'', ''slogan'', ''slot'', ''slow'',
    ''slush'', ''small'', ''smart'', ''smile'', ''smoke'', ''smooth'', ''snack'', ''snake'', ''snap'',
    ''sniff'', ''snow'', ''soap'', ''soccer'', ''social'', ''sock'', ''soda'', ''soft'', ''solar'',
    ''soldier'', ''solid'', ''solution'', ''solve'', ''someone'', ''song'', ''soon'', ''sorry'', ''sort'',
    ''soul'', ''sound'', ''soup'']"

definition words13 :: "string list" where
  "words13 = [
    ''source'', ''south'', ''space'', ''spare'', ''spatial'', ''spawn'', ''speak'', ''special'', ''speed'',
    ''spell'', ''spend'', ''sphere'', ''spice'', ''spider'', ''spike'', ''spin'', ''spirit'', ''split'',
    ''spoil'', ''sponsor'', ''spoon'', ''sport'', ''spot'', ''spray'', ''spread'', ''spring'', ''spy'',
    ''square'', ''squeeze'', ''squirrel'', ''stable'', ''stadium'', ''staff'', ''stage'', ''stairs'',
    ''stamp'', ''stand'', ''start'', ''state'', ''stay'', ''steak'', ''steel'', ''stem'', ''step'',
    ''stereo'', ''stick'', ''still'', ''sting'', ''stock'', ''stomach'', ''stone'', ''stool'', ''story'',
    ''stove'', ''strategy'', ''street'', ''strike'', ''strong'', ''struggle'', ''student'', ''stuff'',
    ''stumble'', ''style'', ''subject'', ''submit'', ''subway'', ''success'', ''such'', ''sudden'',
    ''suffer'', ''sugar'', ''suggest'', ''suit'', ''summer'', ''sun'', ''sunny'', ''sunset'', ''super'',
    ''supply'', ''supreme'', ''sure'', ''surface'', ''surge'', ''surprise'', ''surround'', ''survey'',
    ''suspect'', ''sustain'', ''swallow'', ''swamp'', ''swap'', ''swarm'', ''swear'', ''sweet'', ''swift'',
    ''swim'', ''swing'', ''switch'', ''sword'', ''symbol'', ''symptom'', ''syrup'', ''system'', ''table'',
    ''tackle'', ''tag'', ''tail'', ''talent'', ''talk'', ''tank'', ''tape'', ''target'', ''task'', ''taste'',
    ''tattoo'', ''taxi'', ''teach'', ''team'', ''tell'', ''ten'', ''tenant'', ''tennis'', ''tent'', ''term'',
    ''test'', ''text'', ''thank'', ''that'']"

definition words14 :: "string list" where
  "words14 = [
    ''theme'', ''then'', ''theory'', ''there'', ''they'', ''thing'', ''this'', ''thought'', ''three'',
    ''thrive'', ''throw'', ''thumb'', ''thunder'', ''ticket'', ''tide'', ''tiger'', ''tilt'', ''timber'',
    ''time'', ''tiny'', ''tip'', ''tired'', ''tissue'', ''title'', ''toast'', ''tobacco'', ''today'',
    ''toddler'', ''toe'', ''together'', ''toilet'', ''token'', ''tomato'', ''tomorrow'', ''tone'',
    ''tongue'', ''tonight'', ''tool'', ''tooth'', ''top'', ''topic'', ''topple'', ''torch'', ''tornado'',
    ''tortoise'', ''toss'', ''total'', ''tourist'', ''toward'', ''tower'', ''town'', ''toy'', ''track'',
    ''trade'', ''traffic'', ''tragic'', ''train'', ''transfer'', ''trap'', ''trash'', ''travel'', ''tray'',
    ''treat'', ''tree'', ''trend'', ''trial'', ''tribe'', ''trick'', ''trigger'', ''trim'', ''trip'',
    ''trophy'', ''trouble'', ''truck'', ''true'', ''truly'', ''trumpet'', ''trust'', ''truth'', ''try'',
    ''tube'', ''tuition'', ''tumble'', ''tuna'', ''tunnel'', ''turkey'', ''turn'', ''turtle'', ''twelve'',
    ''twenty'', ''twice'', ''twin'', ''twist'', ''two'', ''type'', ''typical'', ''ugly'', ''umbrella'',
    ''unable'', ''unaware'', ''uncle'', ''uncover'', ''under'', ''undo'', ''unfair'', ''unfold'',
    ''unhappy'', ''uniform'', ''unique'', ''unit'', ''universe'', ''unknown'', ''unlock'', ''until'',
    ''unusual'', ''unveil'', ''update'', ''upgrade'', ''uphold'', ''upon'', ''upper'', ''upset'', ''urban'',
    ''urge'', ''usage'', ''use'', ''used'', ''useful'']"

definition words15 :: "string list" where
  "words15 = [
    ''useless'', ''usual'', ''utility'', ''vacant'', ''vacuum'', ''vague'', ''valid'', ''valley'', ''valve'',
    ''van'', ''vanish'', ''vapor'', ''various'', ''vast'', ''vault'', ''vehicle'', ''velvet'', ''vendor'',
    ''venture'', ''venue'', ''verb'', ''verify'', ''version'', ''very'', ''vessel'', ''veteran'', ''viable'',
    ''vibrant'', ''vicious'', ''victory'', ''video'', ''view'', ''village'', ''vintage'', ''violin'',
    ''virtual'', ''virus'', ''visa'', ''visit'', ''visual'', ''vital'', ''vivid'', ''vocal'', ''voice'',
    ''void'', ''volcano'', ''volume'', ''vote'', ''voyage'', ''wage'', ''wagon'', ''wait'', ''walk'',
    ''wall'', ''walnut'', ''want'', ''warfare'', ''warm'', ''warrior'', ''wash'', ''wasp'', ''waste'',
    ''water'', ''wave'', ''way'', ''wealth'', ''weapon'', ''wear'', ''weasel'', ''weather'', ''web'',
    ''wedding'', ''weekend'', ''weird'', ''welcome'', ''west'', ''wet'', ''whale'', ''what'', ''wheat'',
    ''wheel'', ''when'', ''where'', ''whip'', ''whisper'', ''wide'', ''width'', ''wife'', ''wild'', ''will'',
    ''win'', ''window'', ''wine'', ''wing'', ''wink'', ''winner'', ''winter'', ''wire'', ''wisdom'',
    ''wise'', ''wish'', ''witness'', ''wolf'', ''woman'', ''wonder'', ''wood'', ''wool'', ''word'', ''work'',
    ''world'', ''worry'', ''worth'', ''wrap'', ''wreck'', ''wrestle'', ''wrist'', ''write'', ''wrong'',
    ''yard'', ''year'', ''yellow'', ''you'', ''young'', ''youth'', ''zebra'', ''zero'', ''zone'', ''zoo'']"

definition bip39Words :: "string list" where
  "bip39Words = words0 @ words1 @ words2 @ words3 @ words4 @ words5 @ words6 @ words7 @ words8 @ words9 @ words10 @ words11 @ words12 @ words13 @ words14 @ words15"

text \<open>The table of \<open>init\<close>: for each position in turn, the word is mapped to it.\<close>

definition wordIndex :: "string \<rightharpoonup> nat" where
  "wordIndex = foldl (\<lambda>m (i, w). m(w \<mapsto> i)) Map.empty (List.enumerate 0 bip39Words)"

subsection \<open>The list is ascending\<close>

fun less_word :: "string \<Rightarrow> string \<Rightarrow> bool" where
  "less_word [] ys = (ys \<noteq> [])"
| "less_word (x # xs) [] = False"
| "less_word (x # xs) (y # ys) = (if x = y then less_word xs ys else (of_char x :: nat) < of_char y)"

fun ascending :: "string list \<Rightarrow> bool" where
  "ascending (x # y # ys) = (less_word x y \<and> ascending (y # ys))"
| "ascending _ = True"

definition letters :: "string \<Rightarrow> bool" where
  "letters w \<longleftrightarrow> w \<noteq> [] \<and> list_all (\<lambda>c. (97::nat) \<le> of_char c \<and> (of_char c :: nat) \<le> 122) w"

lemma less_word_trans: "less_word x y \<Longrightarrow> less_word y z \<Longrightarrow> less_word x z"
proof (induction x y arbitrary: z rule: less_word.induct)
  case (1 ys)
  then show ?case by (cases z; cases ys) auto
next
  case (3 x xs y ys)
  then show ?case by (cases z) (auto split: if_splits)
qed simp

lemma less_word_irrefl: "\<not> less_word x x"
  by (induction x) auto

lemma ascending_all: "ascending (x # ys) \<Longrightarrow> y \<in> set ys \<Longrightarrow> less_word x y"
proof (induction ys arbitrary: x)
  case (Cons z zs)
  then show ?case using less_word_trans by (cases "y = z") auto
qed simp

lemma ascending_distinct: "ascending xs \<Longrightarrow> distinct xs"
proof (induction xs)
  case (Cons x xs)
  then have "ascending xs" by (cases xs) auto
  then show ?case using Cons ascending_all less_word_irrefl by auto
qed simp

lemma ascending_append: "xs \<noteq> [] \<Longrightarrow> ys \<noteq> [] \<Longrightarrow> ascending (xs @ ys) \<longleftrightarrow> ascending xs \<and> less_word (last xs) (hd ys) \<and> ascending ys"
  by (induction xs rule: ascending.induct; cases ys) auto

text \<open>A stretch of the list: its first and last word, its size, its order.\<close>

definition stretch :: "string \<Rightarrow> string \<Rightarrow> nat \<Rightarrow> string list \<Rightarrow> bool" where
  "stretch a z n ws \<longleftrightarrow> 0 < n \<and> length ws = n \<and> hd ws = a \<and> last ws = z \<and> ascending ws \<and> list_all letters ws"

lemma stretch_join:
  assumes "stretch a b n xs" "stretch c d m ys" "less_word b c" "k = n + m"
  shows "stretch a d k (xs @ ys)"
proof -
  have "xs \<noteq> []" "ys \<noteq> []" using assms by (auto simp: stretch_def)
  then show ?thesis using assms by (auto simp: stretch_def ascending_append)
qed

lemma stretch0: "stretch ''abandon'' ''avocado'' 128 words0"
  unfolding words0_def stretch_def letters_def by simp

lemma stretch1: "stretch ''avoid'' ''cable'' 128 words1"
  unfolding words1_def stretch_def letters_def by simp

lemma stretch2: "stretch ''cactus'' ''copper'' 128 words2"
  unfolding words2_def stretch_def letters_def by simp

lemma stretch3: "stretch ''copy'' ''divide'' 128 words3"
  unfolding words3_def stretch_def letters_def by simp

lemma stretch4: "stretch ''divorce'' ''exit'' 128 words4"
  unfolding words4_def stretch_def letters_def by simp

lemma stretch5: "stretch ''exotic'' ''garment'' 128 words5"
  unfolding words5_def stretch_def letters_def by simp

lemma stretch6: "stretch ''gas'' ''husband'' 128 words6"
  unfolding words6_def stretch_def letters_def by simp

lemma stretch7: "stretch ''hybrid'' ''lend'' 128 words7"
  unfolding words7_def stretch_def letters_def by simp

lemma stretch8: "stretch ''length'' ''morning'' 128 words8"
  unfolding words8_def stretch_def letters_def by simp

lemma stretch9: "stretch ''mosquito'' ''paper'' 128 words9"
  unfolding words9_def stretch_def letters_def by simp

lemma stretch10: "stretch ''parade'' ''quiz'' 128 words10"
  unfolding words10_def stretch_def letters_def by simp

lemma stretch11: "stretch ''quote'' ''say'' 128 words11"
  unfolding words11_def stretch_def letters_def by simp

lemma stretch12: "stretch ''scale'' ''soup'' 128 words12"
  unfolding words12_def stretch_def letters_def by simp

lemma stretch13: "stretch ''source'' ''that'' 128 words13"
  unfolding words13_def stretch_def letters_def by simp

lemma stretch14: "stretch ''theme'' ''useful'' 128 words14"
  unfolding words14_def stretch_def letters_def by simp

lemma stretch15: "stretch ''useless'' ''zoo'' 128 words15"
  unfolding words15_def stretch_def letters_def by simp

lemma stretch_words: "stretch ''abandon'' ''zoo'' 2048 bip39Words"
proof -
  have s14: "stretch ''theme'' ''zoo'' 256 (words14 @ words15)"
    by (rule stretch_join [OF stretch14 stretch15]) simp_all
  have s13: "stretch ''source'' ''zoo'' 384 (words13 @ words14 @ words15)"
    by (rule stretch_join [OF stretch13 s14]) simp_all
  have s12: "stretch ''scale'' ''zoo'' 512 (words12 @ words13 @ words14 @ words15)"
    by (rule stretch_join [OF stretch12 s13]) simp_all
  have s11: "stretch ''quote'' ''zoo'' 640 (words11 @ words12 @ words13 @ words14 @ words15)"
    by (rule stretch_join [OF stretch11 s12]) simp_all
  have s10: "stretch ''parade'' ''zoo'' 768 (words10 @ words11 @ words12 @ words13 @ words14 @ words15)"
    by (rule stretch_join [OF stretch10 s11]) simp_all
  have s9: "stretch ''mosquito'' ''zoo'' 896 (words9 @ words10 @ words11 @ words12 @ words13 @ words14 @ words15)"
    by (rule stretch_join [OF stretch9 s10]) simp_all
  have s8: "stretch ''length'' ''zoo'' 1024 (words8 @ words9 @ words10 @ words11 @ words12 @ words13 @ words14 @ words15)"
    by (rule stretch_join [OF stretch8 s9]) simp_all
  have s7: "stretch ''hybrid'' ''zoo'' 1152 (words7 @ words8 @ words9 @ words10 @ words11 @ words12 @ words13 @ words14 @ words15)"
    by (rule stretch_join [OF stretch7 s8]) simp_all
  have s6: "stretch ''gas'' ''zoo'' 1280 (words6 @ words7 @ words8 @ words9 @ words10 @ words11 @ words12 @ words13 @ words14 @ words15)"
    by (rule stretch_join [OF stretch6 s7]) simp_all
  have s5: "stretch ''exotic'' ''zoo'' 1408 (words5 @ words6 @ words7 @ words8 @ words9 @ words10 @ words11 @ words12 @ words13 @ words14 @ words15)"
    by (rule stretch_join [OF stretch5 s6]) simp_all
  have s4: "stretch ''divorce'' ''zoo'' 1536 (words4 @ words5 @ words6 @ words7 @ words8 @ words9 @ words10 @ words11 @ words12 @ words13 @ words14 @ words15)"
    by (rule stretch_join [OF stretch4 s5]) simp_all
  have s3: "stretch ''copy'' ''zoo'' 1664 (words3 @ words4 @ words5 @ words6 @ words7 @ words8 @ words9 @ words10 @ words11 @ words12 @ words13 @ words14 @ words15)"
    by (rule stretch_join [OF stretch3 s4]) simp_all
  have s2: "stretch ''cactus'' ''zoo'' 1792 (words2 @ words3 @ words4 @ words5 @ words6 @ words7 @ words8 @ words9 @ words10 @ words11 @ words12 @ words13 @ words14 @ words15)"
    by (rule stretch_join [OF stretch2 s3]) simp_all
  have s1: "stretch ''avoid'' ''zoo'' 1920 (words1 @ words2 @ words3 @ words4 @ words5 @ words6 @ words7 @ words8 @ words9 @ words10 @ words11 @ words12 @ words13 @ words14 @ words15)"
    by (rule stretch_join [OF stretch1 s2]) simp_all
  have s0: "stretch ''abandon'' ''zoo'' 2048 (words0 @ words1 @ words2 @ words3 @ words4 @ words5 @ words6 @ words7 @ words8 @ words9 @ words10 @ words11 @ words12 @ words13 @ words14 @ words15)"
    by (rule stretch_join [OF stretch0 s1]) simp_all
  show ?thesis unfolding bip39Words_def by (rule s0)
qed

lemma length_words [simp]: "length bip39Words = 2048"
  using stretch_words by (simp add: stretch_def)

lemma distinct_words: "distinct bip39Words"
  using stretch_words ascending_distinct by (simp add: stretch_def)

lemma letters_word: "w \<in> set bip39Words \<Longrightarrow> letters w"
  using stretch_words by (simp add: stretch_def list_all_iff)

lemma index_fold: "foldl (\<lambda>m (i, w). m(w \<mapsto> i)) m es = m ++ map_of (rev (map prod.swap es))"
proof (induction es rule: rev_induct)
  case (snoc e es)
  then show ?case by (cases e) (auto simp: fun_eq_iff map_add_def split: option.splits)
qed simp

lemma wordIndex_iff: "wordIndex w = Some i \<longleftrightarrow> i < 2048 \<and> bip39Words ! i = w"
proof -
  let ?es = "map prod.swap (List.enumerate 0 bip39Words)"
  have d: "distinct (map fst ?es)" using distinct_words by (simp add: comp_def)
  have "map_of (rev ?es) = map_of ?es" using d by (subst map_of_inject_set) (simp_all flip: rev_map)
  then have "wordIndex w = map_of ?es w" unfolding wordIndex_def index_fold by simp
  then show ?thesis using d by (auto simp: in_set_conv_nth nth_enumerate_eq prod_eq_iff)
qed

lemma wordIndex_nth [simp]: "i < 2048 \<Longrightarrow> wordIndex (bip39Words ! i) = Some i"
  by (simp add: wordIndex_iff)

end
