(* ===== verification/Auth_Phrase.thy ===== *)
theory Auth_Phrase
  imports Bip39_Words
begin

text \<open>
  Recovery phrases (\<open>backend/internal/auth/recovery.go\<close>): 256 bits and a checksum byte as 24
  words of 11 bits, the check of a typed phrase, and the keys derived from it. SHA-256 and
  HMAC-SHA512 are parameters, as are HKDF and the Ed25519 key pair; PBKDF2 is the code's own.
  \<open>strings.Fields\<close> and \<open>strings.ToLower\<close> are modelled on ASCII text.
\<close>

subsection \<open>Bytes and words\<close>

datatype phrase_error = ErrEntropyLength | ErrWordCount | ErrUnknownWord | ErrChecksum | ErrRebuilt

function stringFields :: "string \<Rightarrow> string list" where
  "stringFields s = (case dropWhile is_space s of [] \<Rightarrow> []
     | c # cs \<Rightarrow> (c # takeWhile (\<lambda>x. \<not> is_space x) cs) # stringFields (dropWhile (\<lambda>x. \<not> is_space x) cs))"
  by auto

termination
proof (relation "measure length")
  fix s :: string and c cs
  assume "dropWhile is_space s = c # cs"
  then have "length cs < length s" using length_dropWhile_le [of is_space s] by simp
  then show "(dropWhile (\<lambda>x. \<not> is_space x) cs, s) \<in> measure length"
    using length_dropWhile_le [of "\<lambda>x. \<not> is_space x" cs] by simp
qed simp

declare stringFields.simps [simp del]

fun Join :: "string list \<Rightarrow> string \<Rightarrow> string" where
  "Join [] sep = []"
| "Join [w] sep = w"
| "Join (w # v # ws) sep = w @ sep @ Join (v # ws) sep"

text \<open>\<open>SetBytes\<close> and \<open>Bytes\<close> of \<open>math/big\<close>: big-endian, without leading zero bytes.\<close>

definition SetBytes :: "bytes \<Rightarrow> nat" where
  "SetBytes bs = foldl (\<lambda>n c. 256 * n + of_char c) 0 bs"

fun Bytes :: "nat \<Rightarrow> bytes" where
  "Bytes n = (if n = 0 then [] else Bytes (n div 256) @ [char_of (n mod 256)])"

declare Bytes.simps [simp del]

text \<open>The loop over \<open>i = 23, ..., 0\<close> that takes the last 11 bits for word \<open>i\<close>.\<close>

fun wordsOf :: "nat \<Rightarrow> nat \<Rightarrow> string list \<Rightarrow> string list" where
  "wordsOf 0 n ws = ws"
| "wordsOf (Suc i) n ws = wordsOf i (n div 2048) (bip39Words ! (n mod 2048) # ws)"

definition entropyToMnemonic :: "(bytes \<Rightarrow> bytes) \<Rightarrow> bytes \<Rightarrow> phrase_error + string" where
  "entropyToMnemonic sha entropy =
     (if length entropy \<noteq> 32 then Inl ErrEntropyLength
      else let entBytes = entropy @ [sha entropy ! 0] in Inr (Join (wordsOf 24 (SetBytes entBytes) []) '' ''))"

fun sumWords :: "string list \<Rightarrow> nat \<Rightarrow> phrase_error + nat" where
  "sumWords [] n = Inr n"
| "sumWords (w # ws) n = (case wordIndex w of None \<Rightarrow> Inl ErrUnknownWord | Some idx \<Rightarrow> sumWords ws (n * 2048 + idx))"

definition pad33 :: "bytes \<Rightarrow> bytes" where
  "pad33 raw = (if length raw < 33 then replicate (33 - length raw) (CHR 0x00) @ raw else raw)"

definition mnemonicToEntropy :: "(bytes \<Rightarrow> bytes) \<Rightarrow> string \<Rightarrow> phrase_error + bytes" where
  "mnemonicToEntropy sha mnemonic =
     (let ws = stringFields mnemonic in
      if length ws \<noteq> 24 then Inl ErrWordCount
      else case sumWords ws 0 of Inl e \<Rightarrow> Inl e
      | Inr n \<Rightarrow> let raw = pad33 (Bytes n); entropy = take 32 raw in
          if raw ! 32 \<noteq> sha entropy ! 0 then Inl ErrChecksum else Inr entropy)"

definition normaliseMnemonic :: "string \<Rightarrow> string" where
  "normaliseMnemonic m = Join (stringFields (ToLower m)) '' ''"

definition ValidateMnemonic :: "(bytes \<Rightarrow> bytes) \<Rightarrow> string \<Rightarrow> phrase_error option" where
  "ValidateMnemonic sha m0 =
     (let m = normaliseMnemonic m0; ws = stringFields m in
      if length ws \<noteq> 24 then Some ErrWordCount
      else if list_ex (\<lambda>w. wordIndex w = None) ws then Some ErrUnknownWord
      else case mnemonicToEntropy sha m of Inl e \<Rightarrow> Some e
      | Inr entropy \<Rightarrow> (case entropyToMnemonic sha entropy of Inl e \<Rightarrow> Some e
          | Inr rebuilt \<Rightarrow> if rebuilt \<noteq> m then Some ErrRebuilt else None))"

subsection \<open>Keys\<close>

text \<open>\<open>pbkdf2HMACSHA512\<close>, and \<open>pbkdf2SHA256\<close> of \<open>masterkey.go\<close>, which is the same code over another hash.\<close>

definition PutUint32 :: "nat \<Rightarrow> bytes" where
  "PutUint32 n = [char_of (n div 16777216 mod 256), char_of (n div 65536 mod 256), char_of (n div 256 mod 256), char_of (n mod 256)]"

definition xor_char :: "char \<Rightarrow> char \<Rightarrow> char" where
  "xor_char a b = char_of (Bit_Operations.xor (of_char a :: nat) (of_char b))"

definition xorInto :: "bytes \<Rightarrow> bytes \<Rightarrow> bytes" where
  "xorInto xored u = map2 xor_char xored u"

text \<open>The inner loop, entered with \<open>i = 1\<close>: \<open>n\<close> turns are left.\<close>

fun pbkdf2Loop :: "(bytes \<Rightarrow> bytes) \<Rightarrow> nat \<Rightarrow> bytes \<Rightarrow> bytes \<Rightarrow> bytes" where
  "pbkdf2Loop mac 0 u xored = xored"
| "pbkdf2Loop mac (Suc n) u xored = (let u' = mac u in pbkdf2Loop mac n u' (xorInto xored u'))"

definition pbkdf2Block :: "(bytes \<Rightarrow> bytes) \<Rightarrow> bytes \<Rightarrow> nat \<Rightarrow> nat \<Rightarrow> bytes" where
  "pbkdf2Block mac salt iter block = (let u = mac (salt @ PutUint32 block) in pbkdf2Loop mac (iter - 1) u u)"

definition pbkdf2 :: "nat \<Rightarrow> (bytes \<Rightarrow> bytes \<Rightarrow> bytes) \<Rightarrow> bytes \<Rightarrow> bytes \<Rightarrow> nat \<Rightarrow> nat \<Rightarrow> bytes" where
  "pbkdf2 hashLen hmac password salt iter keyLen =
     (let blocks = (keyLen + hashLen - 1) div hashLen in
      take keyLen (concat (map (pbkdf2Block (hmac password) salt iter) [1..<blocks + 1])))"

record key_prims =
  kp_sha256 :: "bytes \<Rightarrow> bytes"
  kp_hmac256 :: "bytes \<Rightarrow> bytes \<Rightarrow> bytes"
  kp_hmac512 :: "bytes \<Rightarrow> bytes \<Rightarrow> bytes"
  kp_hkdf :: "bytes \<Rightarrow> bytes \<Rightarrow> string \<Rightarrow> bytes"
  kp_ed25519 :: "bytes \<Rightarrow> bytes \<times> bytes"

definition pbkdf2HMACSHA512 :: "key_prims \<Rightarrow> bytes \<Rightarrow> bytes \<Rightarrow> nat \<Rightarrow> nat \<Rightarrow> bytes" where
  "pbkdf2HMACSHA512 k = pbkdf2 64 (kp_hmac512 k)"

definition pbkdf2SHA256 :: "key_prims \<Rightarrow> bytes \<Rightarrow> bytes \<Rightarrow> nat \<Rightarrow> nat \<Rightarrow> bytes" where
  "pbkdf2SHA256 k = pbkdf2 32 (kp_hmac256 k)"

definition deriveRecoverySeed :: "key_prims \<Rightarrow> string \<Rightarrow> bytes" where
  "deriveRecoverySeed k mnemonic = pbkdf2HMACSHA512 k mnemonic ''mnemonic'' 2048 64"

text \<open>Reading 32 bytes from HKDF-SHA256 never fails; a nil salt is the empty one.\<close>

definition deriveEd25519Key :: "key_prims \<Rightarrow> bytes \<Rightarrow> bytes \<times> bytes" where
  "deriveEd25519Key k seed = kp_ed25519 k (kp_hkdf k seed [] ''vulos-recovery-ed25519-keypair-v1'')"

definition deriveKeyringKey :: "key_prims \<Rightarrow> bytes \<Rightarrow> bytes" where
  "deriveKeyringKey k seed = kp_hkdf k seed [] ''vulos-recovery-keyring-root-v1''"

record RestoredKeys =
  rk_Ed25519PrivKey :: bytes
  rk_Ed25519PubKey :: bytes
  rk_KeyringRootKey :: bytes

definition RestoreFromMnemonic :: "key_prims \<Rightarrow> string \<Rightarrow> phrase_error + RestoredKeys" where
  "RestoreFromMnemonic k m0 =
     (let m = normaliseMnemonic m0 in
      case ValidateMnemonic (kp_sha256 k) m of Some e \<Rightarrow> Inl e
      | None \<Rightarrow> let seed = deriveRecoverySeed k m; (priv, pub) = deriveEd25519Key k seed in
          Inr \<lparr>rk_Ed25519PrivKey = priv, rk_Ed25519PubKey = pub, rk_KeyringRootKey = deriveKeyringKey k seed\<rparr>)"

subsection \<open>Numbers and phrases\<close>

lemma SetBytes_snoc: "SetBytes (bs @ [c]) = 256 * SetBytes bs + of_char c"
  by (simp add: SetBytes_def)

lemma of_char_less: "(of_char c :: nat) < 256"
  by (metis mod_less_divisor of_char_mod_256 zero_less_numeral)

lemma SetBytes_less: "SetBytes bs < 256 ^ length bs"
proof (induction bs rule: rev_induct)
  case (snoc c bs)
  have "256 * SetBytes bs + of_char c < 256 * 256 ^ length bs" using snoc of_char_less [of c] by linarith
  then show ?case by (simp add: SetBytes_snoc)
qed (simp add: SetBytes_def)

text \<open>The bytes of a number, padded: the digits below \<open>256\<^sup>k\<close>.\<close>

fun digits :: "nat \<Rightarrow> nat \<Rightarrow> bytes" where
  "digits 0 n = []"
| "digits (Suc k) n = digits k (n div 256) @ [char_of (n mod 256)]"

lemma length_digits [simp]: "length (digits k n) = k"
  by (induction k arbitrary: n) auto

lemma digits_SetBytes: "digits (length bs) (SetBytes bs) = bs"
proof (induction bs rule: rev_induct)
  case (snoc c bs)
  have "SetBytes (bs @ [c]) div 256 = SetBytes bs" "SetBytes (bs @ [c]) mod 256 = of_char c"
    using of_char_less [of c] by (simp_all add: SetBytes_snoc)
  then show ?case using snoc by simp
qed simp

lemma SetBytes_digits: "n < 256 ^ k \<Longrightarrow> SetBytes (digits k n) = n"
proof (induction k arbitrary: n)
  case (Suc k)
  then have "SetBytes (digits k (n div 256)) = n div 256" by (simp add: less_mult_imp_div_less mult.commute)
  then show ?case by (simp add: SetBytes_snoc)
qed (simp add: SetBytes_def)

lemma digits_0: "digits k 0 = replicate k (CHR 0x00)"
proof (induction k)
  case (Suc k)
  have "(char_of (0::nat) :: char) = CHR 0x00" by (simp add: char_of_def)
  then show ?case using Suc by (simp add: replicate_append_same)
qed simp

lemma Bytes_0 [simp]: "Bytes 0 = []"
  by (simp add: Bytes.simps)

lemma digits_Bytes: "n < 256 ^ k \<Longrightarrow> length (Bytes n) \<le> k \<and> digits k n = replicate (k - length (Bytes n)) (CHR 0x00) @ Bytes n"
proof (induction k arbitrary: n)
  case (Suc k)
  show ?case
  proof (cases "n = 0")
    case True
    then show ?thesis using digits_0 [of "Suc k"] by simp
  next
    case False
    have "length (Bytes (n div 256)) \<le> k" "digits k (n div 256) = replicate (k - length (Bytes (n div 256))) (CHR 0x00) @ Bytes (n div 256)"
      using Suc.IH [of "n div 256"] Suc.prems by (simp_all add: less_mult_imp_div_less mult.commute)
    then show ?thesis using False by (subst (1 2 3) Bytes.simps) (simp add: Suc_diff_le)
  qed
qed (simp add: Bytes.simps)

lemma pad33_Bytes: "n < 256 ^ 33 \<Longrightarrow> pad33 (Bytes n) = digits 33 n"
  using digits_Bytes [of n 33] by (auto simp: pad33_def)

text \<open>The indices of a phrase, and the phrase of the indices.\<close>

fun indices :: "nat \<Rightarrow> nat \<Rightarrow> nat list" where
  "indices 0 n = []"
| "indices (Suc k) n = indices k (n div 2048) @ [n mod 2048]"

definition ofIndices :: "nat list \<Rightarrow> nat \<Rightarrow> nat" where
  "ofIndices is n = foldl (\<lambda>n i. n * 2048 + i) n is"

lemma indices_facts: "length (indices k n) = k" "\<forall>i \<in> set (indices k n). i < 2048"
  by (induction k arbitrary: n) auto

lemma wordsOf_indices: "wordsOf k n ws = map ((!) bip39Words) (indices k n) @ ws"
  by (induction k arbitrary: n ws) auto

lemma ofIndices_indices: "n < 2048 ^ k \<Longrightarrow> ofIndices (indices k n) 0 = n"
proof (induction k arbitrary: n)
  case (Suc k)
  then have "ofIndices (indices k (n div 2048)) 0 = n div 2048" by (simp add: less_mult_imp_div_less mult.commute)
  then show ?case by (simp add: ofIndices_def)
qed (simp add: ofIndices_def)

lemma indices_ofIndices: "\<forall>i \<in> set is. i < 2048 \<Longrightarrow> indices (length is) (ofIndices is 0) = is \<and> ofIndices is 0 < 2048 ^ length is"
proof (induction "is" rule: rev_induct)
  case (snoc i "is")
  have "ofIndices (is @ [i]) 0 div 2048 = ofIndices is 0" "ofIndices (is @ [i]) 0 mod 2048 = i"
    using snoc.prems by (simp_all add: ofIndices_def)
  moreover have "ofIndices (is @ [i]) 0 < 2048 ^ Suc (length is)" using snoc by (simp add: ofIndices_def)
  ultimately show ?case using snoc by simp
qed (simp add: ofIndices_def)

lemma sumWords_indices: "\<forall>i \<in> set is. i < 2048 \<Longrightarrow> sumWords (map ((!) bip39Words) is) n = Inr (ofIndices is n)"
  by (induction "is" arbitrary: n) (auto simp: ofIndices_def)

lemma sumWords_known: "\<forall>w \<in> set ws. wordIndex w \<noteq> None \<Longrightarrow> \<exists>is. ws = map ((!) bip39Words) is \<and> (\<forall>i \<in> set is. i < 2048)"
proof (induction ws)
  case (Cons w ws)
  then obtain i "is" where "wordIndex w = Some i" "ws = map ((!) bip39Words) is" "\<forall>i \<in> set is. i < 2048" by auto
  then show ?case by (intro exI [of _ "i # is"]) (auto simp: wordIndex_iff)
qed simp

lemma sumWords_Inr: "sumWords ws n = Inr m \<Longrightarrow> \<forall>w \<in> set ws. wordIndex w \<noteq> None"
  by (induction ws arbitrary: n) (auto split: option.splits)

subsection \<open>Splitting and joining\<close>

definition plain_word :: "string \<Rightarrow> bool" where
  "plain_word w \<longleftrightarrow> w \<noteq> [] \<and> list_all (\<lambda>c. \<not> is_space c) w"

lemma stringFields_plain: "list_all plain_word (stringFields s)"
proof (induction s rule: stringFields.induct)
  case (1 s)
  show ?case
  proof (cases "dropWhile is_space s")
    case (Cons c cs)
    have "\<not> is_space c" using Cons hd_dropWhile [of is_space s] by auto
    then have "plain_word (c # takeWhile (\<lambda>x. \<not> is_space x) cs)" by (auto simp: plain_word_def list_all_iff dest: set_takeWhileD)
    then show ?thesis using 1 [OF Cons] Cons by (subst stringFields.simps) simp
  next
    case Nil
    show ?thesis by (subst stringFields.simps) (simp only: Nil list.case list.pred_inject)
  qed
qed

lemma stringFields_one: "plain_word w \<Longrightarrow> rest = [] \<or> is_space (hd rest) \<Longrightarrow> stringFields (w @ rest) = w # stringFields rest"
proof -
  assume w: "plain_word w" and r: "rest = [] \<or> is_space (hd rest)"
  obtain c cs where cs: "w = c # cs" "\<not> is_space c" "\<forall>x \<in> set cs. \<not> is_space x" using w by (cases w) (auto simp: plain_word_def list_all_iff)
  have "takeWhile (\<lambda>x. \<not> is_space x) rest = []" "dropWhile (\<lambda>x. \<not> is_space x) rest = rest" using r by (cases rest; simp)+
  then show ?thesis using cs by (subst stringFields.simps) (simp add: takeWhile_append2 dropWhile_append2)
qed

lemma stringFields_space: "stringFields (CHR '' '' # s) = stringFields s"
  by (subst (1 2) stringFields.simps) (simp add: is_space_def)

lemma Fields_Join: "list_all plain_word ws \<Longrightarrow> stringFields (Join ws '' '') = ws"
proof (induction ws "'' ''" rule: Join.induct)
  case 1
  show ?case by (simp add: stringFields.simps)
next
  case (2 w)
  then show ?case using stringFields_one [of w "[]"] by (simp add: stringFields.simps)
next
  case (3 w v ws)
  then show ?case using stringFields_one [of w "CHR '' '' # Join (v # ws) '' ''"] by (simp add: stringFields_space is_space_def)
qed

lemma lower_space: "is_space (lower_char c) \<longleftrightarrow> is_space c"
proof (cases "65 \<le> (of_char c :: nat) \<and> (of_char c :: nat) \<le> 90")
  case True
  then have "(of_char (lower_char c) :: nat) = of_char c + 32" by (simp add: lower_char_def)
  moreover have "is_space x \<Longrightarrow> (of_char x :: nat) \<le> 32" for x by (auto simp: is_space_def)
  ultimately have "\<not> is_space (lower_char c)" "\<not> is_space c" using True by fastforce+
  then show ?thesis by simp
next
  case False
  then show ?thesis by (auto simp: lower_char_def Let_def)
qed

lemma lower_idem: "lower_char (lower_char c) = lower_char c"
proof (cases "65 \<le> (of_char c :: nat) \<and> (of_char c :: nat) \<le> 90")
  case True
  then have "(of_char (lower_char c) :: nat) = of_char c + 32" by (simp add: lower_char_def)
  then show ?thesis using True by (simp add: lower_char_def [of "lower_char c"])
qed (auto simp: lower_char_def Let_def)

lemma stringFields_chars: "w \<in> set (stringFields s) \<Longrightarrow> set w \<subseteq> set s"
proof (induction s rule: stringFields.induct)
  case (1 s)
  show ?case
  proof (cases "dropWhile is_space s")
    case (Cons c cs)
    have sub: "set (c # cs) \<subseteq> set s" using Cons by (metis set_dropWhileD subsetI)
    consider "w = c # takeWhile (\<lambda>x. \<not> is_space x) cs" | "w \<in> set (stringFields (dropWhile (\<lambda>x. \<not> is_space x) cs))"
      using "1.prems" Cons by (subst (asm) stringFields.simps) auto
    then show ?thesis
    proof cases
      case 1
      then show ?thesis using sub by (auto dest: set_takeWhileD)
    next
      case 2
      then show ?thesis using "1.IH" [OF Cons] sub by (auto dest: set_dropWhileD)
    qed
  next
    case Nil
    then show ?thesis using "1.prems" by (subst (asm) stringFields.simps) (simp only: Nil list.case list.set empty_iff)
  qed
qed

lemma ToLower_Join: "ToLower (Join ws '' '') = Join (map ToLower ws) '' ''"
proof (induction ws "'' ''" rule: Join.induct)
  case (3 w v ws)
  have "lower_char (CHR '' '') = CHR '' ''" by (simp add: lower_char_def)
  then show ?case using 3 by (simp add: ToLower_def)
qed (simp_all add: ToLower_def)

lemma normalise_words:
  assumes "list_all plain_word ws" "map ToLower ws = ws"
  shows "normaliseMnemonic (Join ws '' '') = Join ws '' ''"
  using assms by (simp add: normaliseMnemonic_def ToLower_Join Fields_Join)

lemma normalise_idem: "normaliseMnemonic (normaliseMnemonic m) = normaliseMnemonic m"
proof -
  have "ToLower w = w" if "w \<in> set (stringFields (ToLower m))" for w
  proof -
    have "\<forall>c \<in> set w. lower_char c = c" using stringFields_chars [OF that] by (auto simp: ToLower_def lower_idem)
    then show ?thesis by (simp add: ToLower_def map_idI)
  qed
  then show ?thesis using normalise_words [OF stringFields_plain] by (simp add: normaliseMnemonic_def map_idI)
qed

lemma stringFields_normalise: "stringFields (normaliseMnemonic m) = stringFields (ToLower m)"
  by (simp add: normaliseMnemonic_def Fields_Join stringFields_plain)

lemma letters_plain:
  assumes "letters w"
  shows "plain_word w" "ToLower w = w"
proof -
  have l: "(97::nat) \<le> of_char c" if "c \<in> set w" for c using assms that by (auto simp: letters_def list_all_iff)
  have "is_space c \<Longrightarrow> (of_char c :: nat) \<le> 32" for c by (auto simp: is_space_def)
  then have "\<forall>c \<in> set w. \<not> is_space c" using l by fastforce
  then show "plain_word w" using assms by (simp add: plain_word_def letters_def list_all_iff)
  have "\<forall>c \<in> set w. lower_char c = c" using l by (force simp: lower_char_def Let_def)
  then show "ToLower w = w" by (simp add: ToLower_def map_idI)
qed

lemma phrase_words:
  assumes "\<forall>i \<in> set is. i < 2048"
  shows "list_all plain_word (map ((!) bip39Words) is)" "map ToLower (map ((!) bip39Words) is) = map ((!) bip39Words) is"
  using assms letters_plain letters_word by (auto simp: list_all_iff)

subsection \<open>A phrase and its bits\<close>

definition checked :: "(bytes \<Rightarrow> bytes) \<Rightarrow> bytes \<Rightarrow> nat" where
  "checked sha entropy = SetBytes (entropy @ [sha entropy ! 0])"

definition phraseOf :: "nat \<Rightarrow> string" where
  "phraseOf n = Join (map ((!) bip39Words) (indices 24 n)) '' ''"

lemma entropyToMnemonic_Inr: "entropyToMnemonic sha e = Inr m \<longleftrightarrow> length e = 32 \<and> m = phraseOf (checked sha e)"
  by (auto simp: entropyToMnemonic_def wordsOf_indices phraseOf_def checked_def)

lemma checked_less: "length e = 32 \<Longrightarrow> checked sha e < 256 ^ 33"
  using SetBytes_less [of "e @ [sha e ! 0]"] by (simp add: checked_def)

lemma phraseOf_facts:
  shows "stringFields (phraseOf n) = map ((!) bip39Words) (indices 24 n)" "normaliseMnemonic (phraseOf n) = phraseOf n"
  using phrase_words [OF indices_facts(2)] by (simp_all add: phraseOf_def Fields_Join normalise_words)

lemma sumWords_phraseOf: "n < 256 ^ 33 \<Longrightarrow> sumWords (stringFields (phraseOf n)) 0 = Inr n"
proof -
  assume "n < 256 ^ 33"
  moreover have "(256::nat) ^ 33 = 2048 ^ 24" by simp
  ultimately show ?thesis by (simp only: phraseOf_facts sumWords_indices [OF indices_facts(2)] ofIndices_indices)
qed

lemma mnemonicToEntropy_phraseOf:
  assumes "length e = 32"
  shows "mnemonicToEntropy sha (phraseOf (checked sha e)) = Inr e"
proof -
  have "digits 33 (checked sha e) = e @ [sha e ! 0]" using digits_SetBytes [of "e @ [sha e ! 0]"] assms by (simp add: checked_def del: digits.simps)
  then have "pad33 (Bytes (checked sha e)) = e @ [sha e ! 0]" using pad33_Bytes [OF checked_less [OF assms]] by simp
  then show ?thesis using assms sumWords_phraseOf [OF checked_less [OF assms]]
    by (simp add: mnemonicToEntropy_def phraseOf_facts(1) indices_facts(1) nth_append)
qed

lemma mnemonicToEntropy_Inr:
  assumes "mnemonicToEntropy sha m = Inr e"
  shows "length e = 32 \<and> stringFields m = stringFields (phraseOf (checked sha e))"
proof -
  obtain n where n: "length (stringFields m) = 24" "sumWords (stringFields m) 0 = Inr n" "pad33 (Bytes n) ! 32 = sha e ! 0" "e = take 32 (pad33 (Bytes n))"
    using assms by (auto simp: mnemonicToEntropy_def Let_def split: if_splits sum.splits)
  obtain "is" where i: "stringFields m = map ((!) bip39Words) is" "\<forall>i \<in> set is. i < 2048" using sumWords_known [OF sumWords_Inr [OF n(2)]] by blast
  have l: "length is = 24" using n(1) i(1) by simp
  have "n = ofIndices is 0" using n(2) sumWords_indices [OF i(2), of 0] i(1) by simp
  then have ix: "indices 24 n = is" "n < 2048 ^ 24" using indices_ofIndices [OF i(2)] l by auto
  then have lt: "n < 256 ^ 33" by simp
  then have d: "pad33 (Bytes n) = digits 33 n" by (rule pad33_Bytes)
  then have "length e = 32" using n(4) by simp
  moreover have "e @ [sha e ! 0] = digits 33 n" using n(3,4) d by (metis length_digits lessI numeral_eq_Suc pred_numeral_simps(3) take_Suc_conv_app_nth take_all_iff order.refl numeral_BitM semiring_norm(27,28))
  then have "checked sha e = n" using SetBytes_digits [OF lt] by (simp add: checked_def del: digits.simps)
  ultimately show ?thesis using ix(1) i(1) by (simp add: phraseOf_facts(1))
qed

lemma valid_iff: "ValidateMnemonic sha t = None \<longleftrightarrow> (\<exists>e. length e = 32 \<and> normaliseMnemonic t = phraseOf (checked sha e))"
proof
  assume "ValidateMnemonic sha t = None"
  then obtain e where "entropyToMnemonic sha e = Inr (normaliseMnemonic t)"
    by (auto simp: ValidateMnemonic_def Let_def split: if_splits sum.splits)
  then show "\<exists>e. length e = 32 \<and> normaliseMnemonic t = phraseOf (checked sha e)" by (auto simp: entropyToMnemonic_Inr)
next
  assume "\<exists>e. length e = 32 \<and> normaliseMnemonic t = phraseOf (checked sha e)"
  then obtain e where e: "length e = 32" "normaliseMnemonic t = phraseOf (checked sha e)" by blast
  then have "entropyToMnemonic sha e = Inr (normaliseMnemonic t)" by (simp add: entropyToMnemonic_Inr)
  moreover have "\<not> list_ex (\<lambda>w. wordIndex w = None) (stringFields (phraseOf n))" for n
    using indices_facts(2) [of 24 n] by (auto simp: phraseOf_facts list_ex_iff)
  ultimately show "ValidateMnemonic sha t = None"
    using e mnemonicToEntropy_phraseOf [OF e(1)] by (simp add: ValidateMnemonic_def phraseOf_facts(1) indices_facts(1))
qed

text \<open>
  Claim C24. A recovery phrase loses nothing: any 32 bytes have a phrase, the phrase gives the
  same 32 bytes back, and typed in any letter case and with any spacing it is accepted.
\<close>

theorem phrase_roundtrip:
  assumes "length entropy = 32"
  shows "\<exists>m. entropyToMnemonic sha entropy = Inr m \<and> mnemonicToEntropy sha m = Inr entropy
    \<and> (\<forall>typed. normaliseMnemonic typed = m \<longrightarrow> ValidateMnemonic sha typed = None)"
  using assms mnemonicToEntropy_phraseOf valid_iff by (intro exI [of _ "phraseOf (checked sha entropy)"]) (auto simp: entropyToMnemonic_Inr)

theorem phrase_roundtrip_witness:
  "length (replicate 32 (CHR ''k'')) = 32 \<and> (\<exists>m. entropyToMnemonic (\<lambda>b. rev b) (replicate 32 (CHR ''k'')) = Inr m
    \<and> mnemonicToEntropy (\<lambda>b. rev b) m = Inr (replicate 32 (CHR ''k''))
    \<and> (\<forall>typed. normaliseMnemonic typed = m \<longrightarrow> ValidateMnemonic (\<lambda>b. rev b) typed = None))"
  using phrase_roundtrip [of "replicate 32 (CHR ''k'')" "\<lambda>b. rev b"] by simp

text \<open>
  Claim C22. The check of a typed phrase accepts exactly the phrases the code issues: after
  normalisation it is the phrase of some 32 bytes, checksum included; and then the keys
  restored from it are those of the issued phrase.
\<close>

theorem valid_phrases_exact:
  "(ValidateMnemonic (kp_sha256 k) typed = None \<longleftrightarrow> (\<exists>entropy. entropyToMnemonic (kp_sha256 k) entropy = Inr (normaliseMnemonic typed)))
    \<and> RestoreFromMnemonic k typed = RestoreFromMnemonic k (normaliseMnemonic typed)"
  using valid_iff by (auto simp: entropyToMnemonic_Inr RestoreFromMnemonic_def normalise_idem)

end
