(* ===== verification/Auth_Key.thy ===== *)
theory Auth_Key
  imports Auth_Phrase
begin

text \<open>
  The master key of an account (\<open>backend/internal/auth/masterkey.go\<close>): 32 random bytes, kept
  only wrapped, once under the password and once under the recovery phrase. AES-GCM, HKDF and
  the JSON encodings are parameters; \<open>rnd i n\<close> is the \<open>i\<close>-th read of \<open>n\<close> bytes from the random
  source in a call, \<open>None\<close> if it fails. Zeroing of key material has no effect on results.
\<close>

record wrapSlot =
  ws_KDF :: string
  ws_Iter :: int
  ws_Salt :: bytes
  ws_IV :: bytes
  ws_CT :: bytes

record MasterKeyEnvelope =
  mk_Version :: int
  mk_Password :: wrapSlot
  mk_Phrase :: wrapSlot

datatype mk_error = MkRand | MkLength | MkEmptyPassword | MkMnemonic phrase_error | MkKDF | MkIter | MkCipher | MkNonce | MkUnwrap | MkParse | MkVersion | MkSlot

record mk_env =
  mk_prims :: key_prims
  mk_gcmSeal :: "bytes \<Rightarrow> bytes \<Rightarrow> bytes \<Rightarrow> string \<Rightarrow> bytes"
  mk_gcmOpen :: "bytes \<Rightarrow> bytes \<Rightarrow> bytes \<Rightarrow> string \<Rightarrow> bytes option"
  mk_marshal :: "MasterKeyEnvelope \<Rightarrow> bytes"
  mk_unmarshal :: "bytes \<Rightarrow> MasterKeyEnvelope option"
  mk_slotJSON :: "int \<Rightarrow> wrapSlot \<Rightarrow> bytes"
  mk_unslot :: "bytes \<Rightarrow> wrapSlot option"

type_synonym randoms = "nat \<Rightarrow> nat \<Rightarrow> bytes option"

definition MasterKeyLen :: nat where
  "MasterKeyLen = 32"

definition mkPBKDF2Iters :: nat where
  "mkPBKDF2Iters = 600000"

definition mkMinPBKDF2Iters :: int where
  "mkMinPBKDF2Iters = int mkPBKDF2Iters"

definition masterKeyEnvelopeVersion :: int where
  "masterKeyEnvelopeVersion = 1"

definition kdfPassword :: string where
  "kdfPassword = ''pbkdf2-sha256''"

definition kdfPhrase :: string where
  "kdfPhrase = ''bip39-hkdf-sha256''"

definition aadPasswordWrap :: string where
  "aadPasswordWrap = ''vulos-mk-pw-v1''"

definition aadPhraseWrap :: string where
  "aadPhraseWrap = ''vulos-mk-phrase-v1''"

definition hkdfPhraseInfo :: string where
  "hkdfPhraseInfo = ''vulos-masterkey-wrap-v1''"

definition hkdfZeroSalt :: bytes where
  "hkdfZeroSalt = replicate 32 (CHR 0x00)"

definition readFull :: "randoms \<Rightarrow> nat \<Rightarrow> nat \<Rightarrow> mk_error + bytes" where
  "readFull rnd i n = (case rnd i n of None \<Rightarrow> Inl MkRand | Some b \<Rightarrow> Inr b)"

definition ParseMasterKeyEnvelope :: "mk_env \<Rightarrow> bytes \<Rightarrow> mk_error + MasterKeyEnvelope" where
  "ParseMasterKeyEnvelope m blob = (case mk_unmarshal m blob of None \<Rightarrow> Inl MkParse
     | Some e \<Rightarrow> if mk_Version e \<noteq> masterKeyEnvelopeVersion then Inl MkVersion else Inr e)"

definition PasswordEnvelopeJSON :: "mk_env \<Rightarrow> MasterKeyEnvelope \<Rightarrow> bytes" where
  "PasswordEnvelopeJSON m e = mk_slotJSON m (mk_Version e) (mk_Password e)"

definition NewMasterKey :: "randoms \<Rightarrow> mk_error + bytes" where
  "NewMasterKey rnd = readFull rnd 0 MasterKeyLen"

definition cipher_key :: "bytes \<Rightarrow> bool" where
  "cipher_key key \<longleftrightarrow> length key = 16 \<or> length key = 24 \<or> length key = 32"

definition aesGCMSeal :: "mk_env \<Rightarrow> randoms \<Rightarrow> nat \<Rightarrow> bytes \<Rightarrow> bytes \<Rightarrow> string \<Rightarrow> mk_error + bytes \<times> bytes" where
  "aesGCMSeal m rnd i key plaintext aad =
     (if \<not> cipher_key key then Inl MkCipher
      else case readFull rnd i 12 of Inl er \<Rightarrow> Inl er | Inr iv \<Rightarrow> Inr (iv, mk_gcmSeal m key iv plaintext aad))"

definition aesGCMOpen :: "mk_env \<Rightarrow> bytes \<Rightarrow> bytes \<Rightarrow> bytes \<Rightarrow> string \<Rightarrow> mk_error + bytes" where
  "aesGCMOpen m key iv ct aad =
     (if \<not> cipher_key key then Inl MkCipher
      else if length iv \<noteq> 12 then Inl MkNonce
      else case mk_gcmOpen m key iv ct aad of None \<Rightarrow> Inl MkUnwrap
      | Some pt \<Rightarrow> if length pt \<noteq> MasterKeyLen then Inl MkLength else Inr pt)"

definition phraseWrapKey :: "mk_env \<Rightarrow> string \<Rightarrow> bytes" where
  "phraseWrapKey m mnemonic = kp_hkdf (mk_prims m) (deriveRecoverySeed (mk_prims m) (normaliseMnemonic mnemonic)) hkdfZeroSalt hkdfPhraseInfo"

definition sealUnderPassword :: "mk_env \<Rightarrow> randoms \<Rightarrow> nat \<Rightarrow> bytes \<Rightarrow> string \<Rightarrow> mk_error + wrapSlot" where
  "sealUnderPassword m rnd i mk password =
     (case readFull rnd i 16 of Inl er \<Rightarrow> Inl er
      | Inr salt \<Rightarrow> (case aesGCMSeal m rnd (i + 1) (pbkdf2SHA256 (mk_prims m) password salt mkPBKDF2Iters 32) mk aadPasswordWrap of Inl er \<Rightarrow> Inl er
         | Inr (iv, ct) \<Rightarrow> Inr \<lparr>ws_KDF = kdfPassword, ws_Iter = int mkPBKDF2Iters, ws_Salt = salt, ws_IV = iv, ws_CT = ct\<rparr>))"

definition sealUnderMnemonic :: "mk_env \<Rightarrow> randoms \<Rightarrow> nat \<Rightarrow> bytes \<Rightarrow> string \<Rightarrow> mk_error + wrapSlot" where
  "sealUnderMnemonic m rnd i mk mnemonic =
     (case aesGCMSeal m rnd i (phraseWrapKey m mnemonic) mk aadPhraseWrap of Inl er \<Rightarrow> Inl er
      | Inr (iv, ct) \<Rightarrow> Inr \<lparr>ws_KDF = kdfPhrase, ws_Iter = 0, ws_Salt = [], ws_IV = iv, ws_CT = ct\<rparr>)"

definition WrapMasterKey :: "mk_env \<Rightarrow> randoms \<Rightarrow> nat \<Rightarrow> bytes \<Rightarrow> string \<Rightarrow> string \<Rightarrow> mk_error + MasterKeyEnvelope" where
  "WrapMasterKey m rnd i mk password mnemonic =
     (if length mk \<noteq> MasterKeyLen then Inl MkLength
      else if password = [] then Inl MkEmptyPassword
      else case ValidateMnemonic (kp_sha256 (mk_prims m)) mnemonic of Some er \<Rightarrow> Inl (MkMnemonic er)
      | None \<Rightarrow> (case sealUnderPassword m rnd i mk password of Inl er \<Rightarrow> Inl er
         | Inr pw \<Rightarrow> (case sealUnderMnemonic m rnd (i + 2) mk mnemonic of Inl er \<Rightarrow> Inl er
            | Inr ph \<Rightarrow> Inr \<lparr>mk_Version = masterKeyEnvelopeVersion, mk_Password = pw, mk_Phrase = ph\<rparr>)))"

definition ProvisionKey :: "mk_env \<Rightarrow> randoms \<Rightarrow> string \<Rightarrow> mk_error + bytes \<times> string" where
  "ProvisionKey m rnd password =
     (case NewMasterKey rnd of Inl er \<Rightarrow> Inl er
      | Inr mk \<Rightarrow> (case readFull rnd 1 32 of Inl er \<Rightarrow> Inl er
         | Inr entropy \<Rightarrow> (case entropyToMnemonic (kp_sha256 (mk_prims m)) entropy of Inl er \<Rightarrow> Inl (MkMnemonic er)
            | Inr mnemonic \<Rightarrow> (case WrapMasterKey m rnd 2 mk password mnemonic of Inl er \<Rightarrow> Inl er
               | Inr env \<Rightarrow> Inr (mk_marshal m env, mnemonic)))))"

definition UnwrapWithPassword :: "mk_env \<Rightarrow> MasterKeyEnvelope \<Rightarrow> string \<Rightarrow> mk_error + bytes" where
  "UnwrapWithPassword m e password =
     (if ws_KDF (mk_Password e) \<noteq> kdfPassword then Inl MkKDF
      else if ws_Iter (mk_Password e) \<le> 0 then Inl MkIter
      else aesGCMOpen m (pbkdf2SHA256 (mk_prims m) password (ws_Salt (mk_Password e)) (nat (ws_Iter (mk_Password e))) 32)
             (ws_IV (mk_Password e)) (ws_CT (mk_Password e)) aadPasswordWrap)"

definition UnwrapWithMnemonic :: "mk_env \<Rightarrow> MasterKeyEnvelope \<Rightarrow> string \<Rightarrow> mk_error + bytes" where
  "UnwrapWithMnemonic m e mnemonic =
     (if ws_KDF (mk_Phrase e) \<noteq> kdfPhrase then Inl MkKDF
      else case ValidateMnemonic (kp_sha256 (mk_prims m)) mnemonic of Some er \<Rightarrow> Inl (MkMnemonic er)
      | None \<Rightarrow> aesGCMOpen m (phraseWrapKey m mnemonic) (ws_IV (mk_Phrase e)) (ws_CT (mk_Phrase e)) aadPhraseWrap)"

text \<open>The password slot is replaced, the phrase slot stays.\<close>

definition withPassword :: "MasterKeyEnvelope \<Rightarrow> wrapSlot \<Rightarrow> MasterKeyEnvelope" where
  "withPassword e pw = \<lparr>mk_Version = masterKeyEnvelopeVersion, mk_Password = pw, mk_Phrase = mk_Phrase e\<rparr>"

definition RewrapPassword :: "mk_env \<Rightarrow> randoms \<Rightarrow> MasterKeyEnvelope \<Rightarrow> string \<Rightarrow> string \<Rightarrow> mk_error + MasterKeyEnvelope" where
  "RewrapPassword m rnd e mnemonic newPassword =
     (if newPassword = [] then Inl MkEmptyPassword
      else case UnwrapWithMnemonic m e mnemonic of Inl er \<Rightarrow> Inl er
      | Inr mk \<Rightarrow> (case sealUnderPassword m rnd 0 mk newPassword of Inl er \<Rightarrow> Inl er | Inr pw \<Rightarrow> Inr (withPassword e pw)))"

definition RewrapPasswordWithPassword :: "mk_env \<Rightarrow> randoms \<Rightarrow> MasterKeyEnvelope \<Rightarrow> string \<Rightarrow> string \<Rightarrow> mk_error + MasterKeyEnvelope" where
  "RewrapPasswordWithPassword m rnd e oldPassword newPassword =
     (if newPassword = [] then Inl MkEmptyPassword
      else case UnwrapWithPassword m e oldPassword of Inl er \<Rightarrow> Inl er
      | Inr mk \<Rightarrow> (case sealUnderPassword m rnd 0 mk newPassword of Inl er \<Rightarrow> Inl er | Inr pw \<Rightarrow> Inr (withPassword e pw)))"

definition validatePasswordSlot :: "wrapSlot \<Rightarrow> bool" where
  "validatePasswordSlot s \<longleftrightarrow> ws_KDF s = kdfPassword \<and> \<not> ws_Iter s < mkMinPBKDF2Iters \<and> \<not> length (ws_Salt s) < 16
     \<and> length (ws_IV s) = 12 \<and> length (ws_CT s) = MasterKeyLen + 16"

definition RewrapPasswordFromClientSlot :: "mk_env \<Rightarrow> MasterKeyEnvelope \<Rightarrow> bytes \<Rightarrow> mk_error + MasterKeyEnvelope" where
  "RewrapPasswordFromClientSlot m e newPasswordSlotJSON =
     (case mk_unslot m newPasswordSlotJSON of None \<Rightarrow> Inl MkParse
      | Some slot \<Rightarrow> if \<not> validatePasswordSlot slot then Inl MkSlot else Inr (withPassword e slot))"

text \<open>The length is written modulo \<open>2\<^sup>3\<^sup>2\<close>.\<close>

definition appendLenPrefixed :: "bytes \<Rightarrow> bytes \<Rightarrow> bytes" where
  "appendLenPrefixed dst b = dst @ PutUint32 (length b mod 2 ^ 32) @ b"

definition contentInfo :: "string \<Rightarrow> string \<Rightarrow> bytes" where
  "contentInfo domain ident = appendLenPrefixed (appendLenPrefixed ''vulos-content:'' domain) ident"

definition DeriveContentKey :: "mk_env \<Rightarrow> bytes \<Rightarrow> string \<Rightarrow> string \<Rightarrow> mk_error + bytes" where
  "DeriveContentKey m masterKey domain ident =
     (if length masterKey \<noteq> MasterKeyLen then Inl MkLength else Inr (kp_hkdf (mk_prims m) masterKey hkdfZeroSalt (contentInfo domain ident)))"

subsection \<open>What the code relies on of the libraries\<close>

definition crypto_ok :: "mk_env \<Rightarrow> bool" where
  "crypto_ok m \<longleftrightarrow> (\<forall>k d. length (kp_hmac256 (mk_prims m) k d) = 32) \<and> (\<forall>k s i. length (kp_hkdf (mk_prims m) k s i) = 32)
     \<and> (\<forall>key iv pt aad. mk_gcmOpen m key iv (mk_gcmSeal m key iv pt aad) aad = Some pt) \<and> (\<forall>e. mk_unmarshal m (mk_marshal m e) = Some e)
     \<and> mk_unmarshal m [] = None"

definition rand_ok :: "randoms \<Rightarrow> bool" where
  "rand_ok rnd \<longleftrightarrow> (\<forall>i n b. rnd i n = Some b \<longrightarrow> length b = n)"

lemma readFull_Inr: "rand_ok rnd \<Longrightarrow> readFull rnd i n = Inr b \<Longrightarrow> length b = n"
  by (auto simp: rand_ok_def readFull_def split: option.splits)

lemma length_pbkdf2Loop: "\<forall>u. length (mac u) = n \<Longrightarrow> length x = n \<Longrightarrow> length (pbkdf2Loop mac k u x) = n"
  by (induction k arbitrary: u x) (simp_all add: xorInto_def Let_def)

lemma length_pbkdf2Block: "\<forall>u. length (mac u) = n \<Longrightarrow> length (pbkdf2Block mac salt iter b) = n"
  by (simp add: pbkdf2Block_def length_pbkdf2Loop Let_def)

lemma length_pbkdf2SHA256: "crypto_ok m \<Longrightarrow> length (pbkdf2SHA256 (mk_prims m) pw salt iter 32) = 32"
  by (simp add: pbkdf2SHA256_def pbkdf2_def crypto_ok_def length_pbkdf2Block)

lemma wrap_keys: "crypto_ok m \<Longrightarrow> cipher_key (pbkdf2SHA256 (mk_prims m) pw salt iter 32)" "crypto_ok m \<Longrightarrow> cipher_key (phraseWrapKey m p)"
  by (simp_all add: cipher_key_def length_pbkdf2SHA256) (simp add: crypto_ok_def phraseWrapKey_def)

lemma gcm_roundtrip:
  assumes "crypto_ok m" "rand_ok rnd" "length mk = 32" "aesGCMSeal m rnd i key mk aad = Inr (iv, ct)"
  shows "aesGCMOpen m key iv ct aad = Inr mk"
  using assms readFull_Inr by (auto simp: aesGCMSeal_def aesGCMOpen_def MasterKeyLen_def crypto_ok_def split: if_splits sum.splits)

lemma sealed_password:
  assumes "crypto_ok m" "rand_ok rnd" "length mk = 32" "sealUnderPassword m rnd i mk pw = Inr slot"
  shows "UnwrapWithPassword m (withPassword e slot) pw = Inr mk"
proof -
  obtain salt iv ct where s: "aesGCMSeal m rnd (i + 1) (pbkdf2SHA256 (mk_prims m) pw salt mkPBKDF2Iters 32) mk aadPasswordWrap = Inr (iv, ct)"
    "slot = \<lparr>ws_KDF = kdfPassword, ws_Iter = int mkPBKDF2Iters, ws_Salt = salt, ws_IV = iv, ws_CT = ct\<rparr>"
    using assms(4) by (auto simp: sealUnderPassword_def split: sum.splits)
  have "\<not> int mkPBKDF2Iters \<le> 0" by (simp add: mkPBKDF2Iters_def)
  then show ?thesis using gcm_roundtrip [OF assms(1-3) s(1)] s(2) by (simp add: UnwrapWithPassword_def withPassword_def)
qed

lemma sealed_phrase:
  assumes "crypto_ok m" "rand_ok rnd" "length mk = 32" "sealUnderMnemonic m rnd i mk phrase = Inr slot"
    and "ValidateMnemonic (kp_sha256 (mk_prims m)) phrase = None" "normaliseMnemonic typed = normaliseMnemonic phrase"
  shows "UnwrapWithMnemonic m \<lparr>mk_Version = v, mk_Password = pw, mk_Phrase = slot\<rparr> typed = Inr mk"
proof -
  have "ValidateMnemonic (kp_sha256 (mk_prims m)) typed = None" "phraseWrapKey m typed = phraseWrapKey m phrase"
    using assms(5,6) by (simp_all add: valid_iff phraseWrapKey_def)
  then show ?thesis using assms(4) gcm_roundtrip [OF assms(1-3)] by (auto simp: sealUnderMnemonic_def UnwrapWithMnemonic_def split: sum.splits)
qed

lemma Unwrap_length: "UnwrapWithMnemonic m e t = Inr mk \<Longrightarrow> length mk = 32" "UnwrapWithPassword m e t = Inr mk \<Longrightarrow> length mk = 32"
  by (auto simp: UnwrapWithMnemonic_def UnwrapWithPassword_def aesGCMOpen_def MasterKeyLen_def split: if_splits option.splits)

lemma Unwrap_withPassword: "UnwrapWithMnemonic m (withPassword e pw) t = UnwrapWithMnemonic m e t"
  by (simp add: UnwrapWithMnemonic_def withPassword_def cong: option.case_cong)

text \<open>Every way of replacing the password slot keeps the version and the phrase slot.\<close>

lemma rewraps:
  "RewrapPassword m rnd e ph pw = Inr e' \<Longrightarrow> \<exists>slot. e' = withPassword e slot"
  "RewrapPasswordWithPassword m rnd e old pw = Inr e' \<Longrightarrow> \<exists>slot. e' = withPassword e slot"
  "RewrapPasswordFromClientSlot m e js = Inr e' \<Longrightarrow> \<exists>slot. e' = withPassword e slot"
  by (auto simp: RewrapPassword_def RewrapPasswordWithPassword_def RewrapPasswordFromClientSlot_def split: if_splits sum.splits option.splits)

lemma ParseMasterKeyEnvelope_back: "crypto_ok m \<Longrightarrow> ParseMasterKeyEnvelope m (mk_marshal m (withPassword e pw)) = Inr (withPassword e pw)"
  by (simp add: crypto_ok_def ParseMasterKeyEnvelope_def withPassword_def)

lemma PutUint32_value: "n < 2 ^ 32 \<Longrightarrow> SetBytes (PutUint32 n) = n"
proof -
  assume n: "n < 2 ^ 32"
  have d: "n div 65536 = n div 256 div 256" "n div 16777216 = n div 256 div 256 div 256" using div_mult2_eq [of n 256 256] div_mult2_eq [of n 65536 256] by simp_all
  have "PutUint32 n = digits (Suc (Suc (Suc (Suc 0)))) n" unfolding PutUint32_def d by simp
  then show ?thesis using SetBytes_digits [of n "Suc (Suc (Suc (Suc 0)))"] n by simp
qed

lemma contentInfo_inj:
  assumes "contentInfo d i = contentInfo d' i'" "length d < 2 ^ 32" "length d' < 2 ^ 32"
  shows "d = d' \<and> i = i'"
proof -
  have four: "length (PutUint32 n) = 4" for n by (simp add: PutUint32_def)
  have inv: "n = k" if "PutUint32 n = PutUint32 k" "n < 2 ^ 32" "k < 2 ^ 32" for n k
    using that PutUint32_value by metis
  have e: "PutUint32 (length d) @ d @ PutUint32 (length i mod 2 ^ 32) @ i = PutUint32 (length d') @ d' @ PutUint32 (length i' mod 2 ^ 32) @ i'"
    using assms by (simp add: contentInfo_def appendLenPrefixed_def)
  then have "PutUint32 (length d) = PutUint32 (length d')" using four append_eq_append_conv by metis
  then have "length d = length d'" using inv assms by simp
  then show ?thesis using e four by (simp add: append_eq_append_conv)
qed

end
