(* ===== verification/Auth_Limit.thy ===== *)
theory Auth_Limit
  imports Go_Text
begin

text \<open>
  Brute-force protection (\<open>backend/services/auth/ratelimit.go\<close>): failures are counted per
  client address, and an address is banned when they reach a limit within a window. Times and
  durations are integers; each call reads the clock once, and the limiter's mutex makes each
  call one step. A request is seen through its remote address, its headers (the empty string
  for an absent one) and its cookies.
\<close>

record attemptRecord =
  ar_count :: int
  ar_firstAt :: int
  ar_lastAt :: int

record RateLimiter =
  rl_attempts :: "string \<rightharpoonup> attemptRecord"
  rl_bans :: "string \<rightharpoonup> int"
  rl_maxAttempts :: int
  rl_window :: int
  rl_banDuration :: int

definition NewRateLimiter :: "int \<Rightarrow> int \<Rightarrow> int \<Rightarrow> RateLimiter" where
  "NewRateLimiter maxAttempts window banDuration =
     \<lparr>rl_attempts = Map.empty, rl_bans = Map.empty, rl_maxAttempts = maxAttempts, rl_window = window, rl_banDuration = banDuration\<rparr>"

definition Minute :: int where
  "Minute = 60 * 1000000000"

definition DefaultRateLimiter :: RateLimiter where
  "DefaultRateLimiter = NewRateLimiter 5 (10 * Minute) (30 * Minute)"

definition RecordFailureIP :: "string \<Rightarrow> int \<Rightarrow> RateLimiter \<Rightarrow> RateLimiter" where
  "RecordFailureIP ip now rl =
     (case rl_attempts rl ip of
        None \<Rightarrow> rl\<lparr>rl_attempts := (rl_attempts rl)(ip \<mapsto> \<lparr>ar_count = 1, ar_firstAt = now, ar_lastAt = now\<rparr>)\<rparr>
      | Some rec \<Rightarrow>
          if now - ar_firstAt rec > rl_window rl
          then rl\<lparr>rl_attempts := (rl_attempts rl)(ip \<mapsto> \<lparr>ar_count = 1, ar_firstAt = now, ar_lastAt = now\<rparr>)\<rparr>
          else let rec' = rec\<lparr>ar_count := ar_count rec + 1, ar_lastAt := now\<rparr> in
            if ar_count rec' \<ge> rl_maxAttempts rl
            then rl\<lparr>rl_bans := (rl_bans rl)(ip \<mapsto> now + rl_banDuration rl), rl_attempts := (rl_attempts rl)(ip := None)\<rparr>
            else rl\<lparr>rl_attempts := (rl_attempts rl)(ip \<mapsto> rec')\<rparr>)"

definition RecordSuccessIP :: "string \<Rightarrow> RateLimiter \<Rightarrow> RateLimiter" where
  "RecordSuccessIP ip rl = rl\<lparr>rl_attempts := (rl_attempts rl)(ip := None)\<rparr>"

definition IsBanned :: "string \<Rightarrow> int \<Rightarrow> RateLimiter \<Rightarrow> bool \<times> RateLimiter" where
  "IsBanned ip now rl =
     (case rl_bans rl ip of
        None \<Rightarrow> (False, rl)
      | Some banUntil \<Rightarrow> if now > banUntil then (False, rl\<lparr>rl_bans := (rl_bans rl)(ip := None)\<rparr>) else (True, rl))"

definition Unban :: "string \<Rightarrow> RateLimiter \<Rightarrow> RateLimiter" where
  "Unban ip rl = rl\<lparr>rl_bans := (rl_bans rl)(ip := None), rl_attempts := (rl_attempts rl)(ip := None)\<rparr>"

definition BannedIPs :: "int \<Rightarrow> RateLimiter \<Rightarrow> string \<rightharpoonup> int" where
  "BannedIPs now rl = (\<lambda>ip. case rl_bans rl ip of Some until \<Rightarrow> if until > now then Some until else None | None \<Rightarrow> None)"

text \<open>One turn of the clean-up goroutine.\<close>

definition cleanup :: "int \<Rightarrow> RateLimiter \<Rightarrow> RateLimiter" where
  "cleanup now rl =
     rl\<lparr>rl_bans := (\<lambda>ip. case rl_bans rl ip of Some until \<Rightarrow> if now > until then None else Some until | None \<Rightarrow> None),
        rl_attempts := (\<lambda>ip. case rl_attempts rl ip of Some rec \<Rightarrow> if now - ar_lastAt rec > rl_window rl then None else Some rec | None \<Rightarrow> None)\<rparr>"

subsection \<open>The client address\<close>

record http_req =
  rq_Method :: string
  rq_Path :: string
  rq_Host :: string
  rq_RemoteAddr :: string
  rq_Header :: "string \<Rightarrow> string"
  rq_Cookie :: "string \<rightharpoonup> string"
  rq_Query :: "string \<Rightarrow> string"
  rq_TLS :: bool

text \<open>\<open>LastIndex\<close> splits at the last occurrence of a byte; \<open>SplitHostPort\<close> is \<open>net.SplitHostPort\<close>.\<close>

definition splitLast :: "char \<Rightarrow> string \<Rightarrow> (string \<times> string) option" where
  "splitLast c s = (if c \<notin> set s then None
     else Some (rev (tl (dropWhile (\<lambda>x. x \<noteq> c) (rev s))), rev (takeWhile (\<lambda>x. x \<noteq> c) (rev s))))"

definition SplitHostPort :: "string \<Rightarrow> (string \<times> string) option" where
  "SplitHostPort hostport =
     (case splitLast (CHR '':'') hostport of None \<Rightarrow> None
      | Some (before, port) \<Rightarrow>
          (case hostport of
             CHR ''['' # inner \<Rightarrow>
               if CHR '']'' \<notin> set inner then None
               else let host = takeWhile (\<lambda>x. x \<noteq> CHR '']'') inner; rest = tl (dropWhile (\<lambda>x. x \<noteq> CHR '']'') inner) in
                 if rest \<noteq> CHR '':'' # port then None
                 else if CHR ''['' \<in> set inner \<or> CHR '']'' \<in> set rest then None
                 else Some (host, port)
           | _ \<Rightarrow>
               if CHR '':'' \<in> set before then None
               else if CHR ''['' \<in> set hostport \<or> CHR '']'' \<in> set hostport then None
               else Some (before, port)))"

definition hostOf :: "string \<Rightarrow> string" where
  "hostOf addr = (case SplitHostPort addr of None \<Rightarrow> [] | Some (h, _) \<Rightarrow> h)"

definition fromTrustedProxy :: "string \<Rightarrow> bool" where
  "fromTrustedProxy remoteHost \<longleftrightarrow> remoteHost = ''127.0.0.1'' \<or> remoteHost = ''::1''"

text \<open>The last element of \<open>strings.Split(s, ",")\<close> and the first.\<close>

definition lastField :: "string \<Rightarrow> string" where
  "lastField s = rev (takeWhile (\<lambda>c. c \<noteq> CHR '','') (rev s))"

definition firstField :: "string \<Rightarrow> string" where
  "firstField s = takeWhile (\<lambda>c. c \<noteq> CHR '','') s"

definition fallbackIP :: "http_req \<Rightarrow> string" where
  "fallbackIP r = (case SplitHostPort (rq_RemoteAddr r) of None \<Rightarrow> rq_RemoteAddr r | Some (host, _) \<Rightarrow> host)"

definition extractIP :: "(string \<Rightarrow> bool) \<Rightarrow> http_req \<Rightarrow> string" where
  "extractIP isIP r =
     (if \<not> fromTrustedProxy (hostOf (rq_RemoteAddr r)) then fallbackIP r
      else let fly = TrimSpace (rq_Header r ''Fly-Client-IP''); xff = rq_Header r ''X-Forwarded-For'';
               rightmost = TrimSpace (lastField xff); xri = TrimSpace (rq_Header r ''X-Real-IP'') in
        if fly \<noteq> [] \<and> isIP fly then fly
        else if xff \<noteq> [] \<and> isIP rightmost then rightmost
        else if xri \<noteq> [] \<and> isIP xri then xri
        else fallbackIP r)"

text \<open>\<open>cmd/server/routes_stepup.go\<close> has an address function of its own.\<close>

definition stepupClientIP :: "http_req \<Rightarrow> string" where
  "stepupClientIP r =
     (let remoteHost = (case splitLast (CHR '':'') (rq_RemoteAddr r) of None \<Rightarrow> rq_RemoteAddr r | Some (h, _) \<Rightarrow> h) in
      if fromTrustedProxy remoteHost \<and> rq_Header r ''X-Forwarded-For'' \<noteq> []
      then TrimSpace (firstField (rq_Header r ''X-Forwarded-For''))
      else remoteHost)"

subsection \<open>What the limiter does to one address\<close>

text \<open>Well-formed at time \<open>now\<close>: counters are below the limit and no entry is from the future.\<close>

definition limiter_wf :: "int \<Rightarrow> RateLimiter \<Rightarrow> bool" where
  "limiter_wf now rl \<longleftrightarrow> 2 \<le> rl_maxAttempts rl \<and> rl_window rl \<le> rl_banDuration rl \<and>
     (\<forall>ip rec. rl_attempts rl ip = Some rec \<longrightarrow> 1 \<le> ar_count rec \<and> ar_count rec < rl_maxAttempts rl \<and> ar_firstAt rec \<le> ar_lastAt rec \<and> ar_lastAt rec \<le> now)"

lemma DefaultRateLimiter_wf: "limiter_wf now DefaultRateLimiter"
  by (simp add: limiter_wf_def DefaultRateLimiter_def NewRateLimiter_def Minute_def)

lemma limiter_wfD:
  assumes "limiter_wf now rl" "rl_attempts rl ip = Some rec"
  shows "1 \<le> ar_count rec" "ar_count rec < rl_maxAttempts rl" "ar_firstAt rec \<le> ar_lastAt rec" "ar_lastAt rec \<le> now" "rl_window rl \<le> rl_banDuration rl"
  using assms unfolding limiter_wf_def by blast+

lemma limiter_wf_later: "limiter_wf now rl \<Longrightarrow> now \<le> later \<Longrightarrow> limiter_wf later rl"
  unfolding limiter_wf_def by (meson order_trans)

text \<open>
  The failures one address can still have counted between \<open>a\<close> and \<open>a + window\<close>: none while it
  is banned past the end; what is left of a count that started in the interval; or what is left
  of an older count and a full count after it.
\<close>

definition allowance :: "int \<Rightarrow> string \<Rightarrow> RateLimiter \<Rightarrow> int" where
  "allowance a ip rl =
     (if \<exists>u. rl_bans rl ip = Some u \<and> a + rl_window rl \<le> u then 0
      else case rl_attempts rl ip of
             None \<Rightarrow> rl_maxAttempts rl
           | Some rec \<Rightarrow> if a \<le> ar_firstAt rec then rl_maxAttempts rl - ar_count rec else 2 * rl_maxAttempts rl - 1 - ar_count rec)"

definition same_limits :: "RateLimiter \<Rightarrow> RateLimiter \<Rightarrow> bool" where
  "same_limits rl rl' \<longleftrightarrow> rl_maxAttempts rl' = rl_maxAttempts rl \<and> rl_window rl' = rl_window rl \<and> rl_banDuration rl' = rl_banDuration rl"

text \<open>
  One step of the limiter at time \<open>now\<close> that \<open>costs\<close> the address so many counted failures:
  its entries stay well formed and the allowance pays for the cost.
\<close>

definition limited :: "string \<Rightarrow> int \<Rightarrow> int \<Rightarrow> RateLimiter \<Rightarrow> RateLimiter \<Rightarrow> bool" where
  "limited ip now cost rl rl' \<longleftrightarrow> same_limits rl rl' \<and> (limiter_wf now rl \<longrightarrow> limiter_wf now rl' \<and>
     (\<forall>a. a \<le> now \<longrightarrow> now \<le> a + rl_window rl \<longrightarrow> allowance a ip rl' + cost \<le> allowance a ip rl))"

named_theorems limited \<open>steps that respect the limit\<close>

lemma limited_refl [limited]: "limited ip now 0 rl rl"
  by (simp add: limited_def same_limits_def)

lemma limited_trans:
  assumes "limited ip now x rl rl1" "limited ip now y rl1 rl2"
  shows "limited ip now (x + y) rl rl2"
proof -
  have "allowance a ip rl2 + (x + y) \<le> allowance a ip rl" if "limiter_wf now rl" "a \<le> now" "now \<le> a + rl_window rl" for a
  proof -
    have "allowance a ip rl1 + x \<le> allowance a ip rl" "limiter_wf now rl1" "rl_window rl1 = rl_window rl"
      using assms(1) that unfolding limited_def same_limits_def by blast+
    moreover from this that have "allowance a ip rl2 + y \<le> allowance a ip rl1" using assms(2) unfolding limited_def by simp
    ultimately show ?thesis by simp
  qed
  then show ?thesis using assms unfolding limited_def same_limits_def by auto
qed

lemma limited_IsBanned [limited]: "limited ip now 0 rl (snd (IsBanned ip' now rl))"
  by (auto simp: limited_def same_limits_def IsBanned_def limiter_wf_def allowance_def split: option.splits if_splits)

lemma limited_cleanup [limited]: "limited ip now 0 rl (cleanup now rl)"
proof -
  have "limiter_wf now (cleanup now rl)" if "limiter_wf now rl"
    using that by (auto simp: limiter_wf_def cleanup_def split: option.splits if_splits)
  moreover have "allowance a ip (cleanup now rl) \<le> allowance a ip rl" if "limiter_wf now rl" "a \<le> now" "now \<le> a + rl_window rl" for a
  proof (cases "rl_attempts rl ip")
    case (Some rec)
    show ?thesis using Some that(2,3) limiter_wfD [OF that(1) Some] by (auto simp: allowance_def cleanup_def split: option.splits if_splits)
  qed (use that in \<open>auto simp: allowance_def cleanup_def limiter_wf_def split: option.splits if_splits\<close>)
  ultimately show ?thesis by (simp add: limited_def) (simp add: same_limits_def cleanup_def)
qed

text \<open>A counted failure of the address costs one, if the address was not banned.\<close>

lemma RecordFailureIP_wf:
  assumes "limiter_wf now rl"
  shows "limiter_wf now (RecordFailureIP ip' now rl)"
proof (cases "rl_attempts rl ip'")
  case (Some rec)
  note w = limiter_wfD [OF assms Some]
  have "2 \<le> rl_maxAttempts rl" "0 \<le> ar_count rec" "ar_firstAt rec \<le> now" using w by linarith+
  then show ?thesis using Some w(5) limiter_wfD(1-4) [OF assms] unfolding limiter_wf_def RecordFailureIP_def Let_def by auto
qed (use assms in \<open>simp add: RecordFailureIP_def limiter_wf_def\<close>)

lemma limited_failure:
  assumes "rl_bans rl ip = None \<or> cost = 0" "cost = (if ip' = ip then 1 else 0) \<or> cost = 0"
  shows "limited ip now cost rl (RecordFailureIP ip' now rl)"
proof -
  have "allowance a ip (RecordFailureIP ip' now rl) + cost \<le> allowance a ip rl" if wf: "limiter_wf now rl" and a: "a \<le> now" "now \<le> a + rl_window rl" for a
  proof (cases "ip' = ip")
    case True
    show ?thesis
    proof (cases "rl_attempts rl ip")
      case None
      then show ?thesis using True assms a by (auto simp: allowance_def RecordFailureIP_def)
    next
      case (Some rec)
      show ?thesis using True Some assms a limiter_wfD [OF wf Some] by (auto simp: allowance_def RecordFailureIP_def Let_def split: if_splits)
    qed
  qed (use assms in \<open>auto simp: allowance_def RecordFailureIP_def Let_def split: option.splits if_splits\<close>)
  then show ?thesis using RecordFailureIP_wf by (auto simp: limited_def) (auto simp: same_limits_def RecordFailureIP_def Let_def split: option.splits if_splits)
qed

lemma limited_other [limited]:
  "ip' \<noteq> ip \<Longrightarrow> limited ip now 0 rl (RecordSuccessIP ip' rl)" "ip' \<noteq> ip \<Longrightarrow> limited ip now 0 rl (Unban ip' rl)"
  by (auto simp: limited_def same_limits_def RecordSuccessIP_def Unban_def limiter_wf_def allowance_def split: option.splits)

lemma allowance_bound:
  assumes "limiter_wf now rl"
  shows "0 \<le> allowance a ip rl" "allowance a ip rl \<le> 2 * rl_maxAttempts rl - 2"
proof -
  have "0 \<le> allowance a ip rl \<and> allowance a ip rl \<le> 2 * rl_maxAttempts rl - 2"
  proof (cases "rl_attempts rl ip")
    case (Some rec)
    then have "1 \<le> ar_count rec" "ar_count rec < rl_maxAttempts rl" "2 \<le> rl_maxAttempts rl" using assms unfolding limiter_wf_def by blast+
    then show ?thesis using Some by (auto simp: allowance_def)
  qed (use assms in \<open>auto simp: allowance_def limiter_wf_def\<close>)
  then show "0 \<le> allowance a ip rl" "allowance a ip rl \<le> 2 * rl_maxAttempts rl - 2" by blast+
qed

end
