(* ===== verification/Auth_Store.thy ===== *)
theory Auth_Store
  imports Auth_Key Auth_Limit
begin

text \<open>
  Accounts, sessions and profiles (\<open>backend/services/auth\<close>: \<open>auth.go\<close>, \<open>profiles.go\<close>,
  \<open>sessions.go\<close>, \<open>profile_settings.go\<close>). The state is the working set in memory, which
  every method under the store's mutex reads and writes; the SQLite mirror, which is written
  after it and read at start-up, is left out, as in the mode without a database. bcrypt,
  HMAC and base64 are parameters. A Go map is an association list, and ranging over it visits
  its keys in the order \<open>ce_order\<close> picks for the call.
\<close>

record User =
  us_ID :: string
  us_Username :: string
  us_PasswordHash :: string
  us_Email :: string
  us_Name :: string
  us_Picture :: string
  us_Providers :: "(string, string) table"
  us_CreatedAt :: int
  us_LastLogin :: int
  us_Preferences :: "(string, string) table"

record Session =
  ss_ID :: string
  ss_UserID :: string
  ss_Email :: string
  ss_Name :: string
  ss_Picture :: string
  ss_Provider :: string
  ss_Token :: string
  ss_ExpiresAt :: int
  ss_CreatedAt :: int
  ss_DeviceID :: string

record Profile =
  pf_UserID :: string
  pf_Role :: string
  pf_DisplayName :: string
  pf_Avatar :: string
  pf_Theme :: string
  pf_Locale :: string
  pf_Timezone :: string
  pf_AIProvider :: string
  pf_AIModel :: string
  pf_AIAPIKey :: string
  pf_Initiative :: string
  pf_PinHash :: string
  pf_Settings :: "(string, string) table"
  pf_CreatedAt :: int
  pf_UpdatedAt :: int

record AuthStore =
  st_users :: "(string, User) table"
  st_sessions :: "(string, Session) table"
  st_profiles :: "(string, Profile) table"
  st_masterKeys :: "string \<rightharpoonup> bytes"

text \<open>What stays fixed, and what one call finds: the time, map order, random values, the outcome of each I/O call.\<close>

record auth_env =
  ae_secret :: bytes
  ae_hmac :: "bytes \<Rightarrow> bytes \<Rightarrow> bytes"
  ae_b64 :: "bytes \<Rightarrow> string"
  ae_unb64 :: "string \<Rightarrow> bytes option"
  ae_bcryptOK :: "string \<Rightarrow> string \<Rightarrow> bool"
  ae_mk :: mk_env

record call_env =
  ce_now :: int
  ce_order :: "string list \<Rightarrow> string list"
  ce_userID :: string
  ce_sessionID :: string
  ce_tokenBytes :: bytes
  ce_bcrypt :: "string \<Rightarrow> string"
  ce_pinSalt :: bytes
  ce_rand :: randoms
  ce_io :: "nat \<Rightarrow> bool"

definition ranged :: "call_env \<Rightarrow> (string, 'a) table \<Rightarrow> (string \<times> 'a) list" where
  "ranged c t = List.map_filter (\<lambda>k. map_option (Pair k) (map_of t k)) (ce_order c (map fst t))"

datatype store_error = ErrUsernameTaken | ErrUsernameShort | ErrPasswordShort | ErrPasswordLong | ErrHashBroken | ErrInvalidLogin
  | ErrUserNotFound | ErrWrongPassword | ErrProfileNotFound | ErrNoMasterKey | ErrMasterKeyExists | ErrMasterKeyInput | ErrMasterKey | ErrSaveBlob

definition minPasswordLength :: nat where
  "minPasswordLength = 12"

definition bcryptMaxBytes :: nat where
  "bcryptMaxBytes = 72"

definition RoleAdmin :: string where
  "RoleAdmin = ''admin''"

definition RoleUser :: string where
  "RoleUser = ''user''"

definition RoleGuest :: string where
  "RoleGuest = ''guest''"

definition Day :: int where
  "Day = 24 * 60 * Minute"

subsection \<open>Users and passwords\<close>

definition isbcryptHash :: "string \<Rightarrow> bool" where
  "isbcryptHash hash \<longleftrightarrow> HasPrefix hash ''$2''"

definition verifyPassword :: "auth_env \<Rightarrow> string \<Rightarrow> string \<Rightarrow> bool" where
  "verifyPassword e hash password \<longleftrightarrow> isbcryptHash hash \<and> ae_bcryptOK e hash password"

definition passwordLength :: "string \<Rightarrow> store_error option" where
  "passwordLength password = (if length password < minPasswordLength then Some ErrPasswordShort
     else if length password > bcryptMaxBytes then Some ErrPasswordLong else None)"

definition GetUser :: "string \<Rightarrow> AuthStore \<Rightarrow> User option" where
  "GetUser userID s = map_of (st_users s) userID"

definition GetUserByUsername :: "call_env \<Rightarrow> string \<Rightarrow> AuthStore \<Rightarrow> User option" where
  "GetUserByUsername c username s = (if username = [] then None else find (\<lambda>u. us_Username u = username) (map snd (ranged c (st_users s))))"

definition GetUserByEmail :: "call_env \<Rightarrow> string \<Rightarrow> AuthStore \<Rightarrow> User option" where
  "GetUserByEmail c email s = (if email = [] then None else find (\<lambda>u. us_Email u = email) (map snd (ranged c (st_users s))))"

definition HasAnyUsers :: "AuthStore \<Rightarrow> bool" where
  "HasAnyUsers s \<longleftrightarrow> length (st_users s) > 0"

definition ListUsernames :: "call_env \<Rightarrow> AuthStore \<Rightarrow> string list" where
  "ListUsernames c s = map (us_Username \<circ> snd) (ranged c (st_users s))"

definition ListUsersWithRoles :: "call_env \<Rightarrow> AuthStore \<Rightarrow> (string \<times> string) list" where
  "ListUsersWithRoles c s = map (\<lambda>(i, u). (us_Username u, case map_of (st_profiles s) i of Some p \<Rightarrow> pf_Role p | None \<Rightarrow> ''user'')) (ranged c (st_users s))"

definition DefaultProfile :: "int \<Rightarrow> string \<Rightarrow> string \<Rightarrow> Profile" where
  "DefaultProfile now userID displayName =
     \<lparr>pf_UserID = userID, pf_Role = RoleUser, pf_DisplayName = displayName, pf_Avatar = [], pf_Theme = ''dark'', pf_Locale = ''en'',
      pf_Timezone = ''UTC'', pf_AIProvider = [], pf_AIModel = [], pf_AIAPIKey = [], pf_Initiative = ''balanced'', pf_PinHash = [],
      pf_Settings = [], pf_CreatedAt = now, pf_UpdatedAt = now\<rparr>"

definition Register :: "auth_env \<Rightarrow> call_env \<Rightarrow> string \<Rightarrow> string \<Rightarrow> string \<Rightarrow> (AuthStore, store_error, User) comp" where
  "Register e c username password displayName s =
     (if list_ex (\<lambda>(_, u). us_Username u = username) (ranged c (st_users s)) then (Inl ErrUsernameTaken, s)
      else if length username < 2 then (Inl ErrUsernameShort, s)
      else case passwordLength password of Some er \<Rightarrow> (Inl er, s)
      | None \<Rightarrow>
        let hash = ce_bcrypt c password in
        if \<not> verifyPassword e hash password then (Inl ErrHashBroken, s)
        else let u = \<lparr>us_ID = ce_userID c, us_Username = username, us_PasswordHash = hash, us_Email = [], us_Name = displayName, us_Picture = [],
                      us_Providers = [], us_CreatedAt = ce_now c, us_LastLogin = ce_now c, us_Preferences = []\<rparr>;
                 users = upsert (us_ID u) u (st_users s);
                 role = (if length users = 1 then RoleAdmin else RoleUser);
                 p = (DefaultProfile (ce_now c) (us_ID u) displayName)\<lparr>pf_Role := role\<rparr>
             in (Inr u, s\<lparr>st_users := users, st_profiles := upsert (us_ID u) p (st_profiles s)\<rparr>))"

text \<open>The comparison with the dummy hash on the failing paths changes nothing.\<close>

definition Login :: "auth_env \<Rightarrow> call_env \<Rightarrow> string \<Rightarrow> string \<Rightarrow> (AuthStore, store_error, User) comp" where
  "Login e c username password s =
     (case find (\<lambda>(_, u). us_Username u = username) (ranged c (st_users s)) of
        None \<Rightarrow> (Inl ErrInvalidLogin, s)
      | Some (i, u) \<Rightarrow>
          if \<not> isbcryptHash (us_PasswordHash u) then (Inl ErrInvalidLogin, s)
          else if \<not> verifyPassword e (us_PasswordHash u) password then (Inl ErrInvalidLogin, s)
          else let u' = u\<lparr>us_LastLogin := ce_now c\<rparr> in (Inr u', s\<lparr>st_users := upsert i u' (st_users s)\<rparr>))"

definition VerifyUserPassword :: "auth_env \<Rightarrow> string \<Rightarrow> string \<Rightarrow> AuthStore \<Rightarrow> bool" where
  "VerifyUserPassword e userID password s =
     (case map_of (st_users s) userID of None \<Rightarrow> False
      | Some u \<Rightarrow> if \<not> isbcryptHash (us_PasswordHash u) then False else verifyPassword e (us_PasswordHash u) password)"

definition TouchLastLogin :: "call_env \<Rightarrow> string \<Rightarrow> AuthStore \<Rightarrow> AuthStore" where
  "TouchLastLogin c userID s = (case map_of (st_users s) userID of None \<Rightarrow> s
     | Some u \<Rightarrow> s\<lparr>st_users := upsert userID (u\<lparr>us_LastLogin := ce_now c\<rparr>) (st_users s)\<rparr>)"

subsection \<open>Sessions\<close>

definition generateToken :: "auth_env \<Rightarrow> call_env \<Rightarrow> string \<Rightarrow> string" where
  "generateToken e c userID =
     (let payload = userID @ '':'' @ ae_b64 e (ce_tokenBytes c) @ '':'' @ FormatInt (ce_now c)
      in ae_b64 e payload @ ''.'' @ ae_b64 e (ae_hmac e (ae_secret e) payload))"

definition firstProvider :: "call_env \<Rightarrow> (string, string) table \<Rightarrow> string" where
  "firstProvider c m = (case ranged c m of [] \<Rightarrow> [] | (k, _) # _ \<Rightarrow> k)"

definition CreateSession :: "auth_env \<Rightarrow> call_env \<Rightarrow> User \<Rightarrow> string \<Rightarrow> AuthStore \<Rightarrow> Session \<times> AuthStore" where
  "CreateSession e c user deviceID s =
     (case (if deviceID \<noteq> [] then find (\<lambda>(_, se). ss_UserID se = us_ID user \<and> ss_DeviceID se = deviceID \<and> ss_ExpiresAt se > ce_now c) (ranged c (st_sessions s)) else None) of
        Some (t, se) \<Rightarrow> let se' = se\<lparr>ss_ExpiresAt := ce_now c + 90 * Day\<rparr> in (se', s\<lparr>st_sessions := upsert t se' (st_sessions s)\<rparr>)
      | None \<Rightarrow>
          let token = generateToken e c (us_ID user);
              se = \<lparr>ss_ID = ce_sessionID c, ss_UserID = us_ID user, ss_Email = us_Email user, ss_Name = us_Name user, ss_Picture = us_Picture user,
                    ss_Provider = firstProvider c (us_Providers user), ss_Token = token, ss_ExpiresAt = ce_now c + 90 * Day, ss_CreatedAt = ce_now c, ss_DeviceID = deviceID\<rparr>
          in (se, s\<lparr>st_sessions := upsert token se (st_sessions s)\<rparr>))"

definition ValidateToken :: "int \<Rightarrow> string \<Rightarrow> AuthStore \<Rightarrow> Session option" where
  "ValidateToken now token s = (case map_of (st_sessions s) token of None \<Rightarrow> None | Some se \<Rightarrow> if ss_ExpiresAt se < now then None else Some se)"

definition RevokeSession :: "string \<Rightarrow> AuthStore \<Rightarrow> AuthStore" where
  "RevokeSession token s = s\<lparr>st_sessions := delete_where (\<lambda>t. t = token) (st_sessions s)\<rparr>"

text \<open>The loop that deletes the sessions of a user, all of them or all but one.\<close>

definition ownedBy :: "string \<Rightarrow> AuthStore \<Rightarrow> string \<Rightarrow> bool" where
  "ownedBy userID s t = (case map_of (st_sessions s) t of Some se \<Rightarrow> ss_UserID se = userID | None \<Rightarrow> False)"

definition RevokeAllSessions :: "string \<Rightarrow> AuthStore \<Rightarrow> AuthStore" where
  "RevokeAllSessions userID s = s\<lparr>st_sessions := delete_where (ownedBy userID s) (st_sessions s)\<rparr>"

definition RevokeOtherSessions :: "string \<Rightarrow> string \<Rightarrow> AuthStore \<Rightarrow> nat \<times> AuthStore" where
  "RevokeOtherSessions userID keepToken s =
     (let gone = (\<lambda>t. ownedBy userID s t \<and> t \<noteq> keepToken)
      in (length (filter gone (map fst (st_sessions s))), s\<lparr>st_sessions := delete_where gone (st_sessions s)\<rparr>))"

record SessionSummary =
  sy_ID :: string
  sy_DeviceID :: string
  sy_Provider :: string
  sy_CreatedAt :: int
  sy_ExpiresAt :: int
  sy_Current :: bool

definition ListSessionSummaries :: "call_env \<Rightarrow> string \<Rightarrow> string \<Rightarrow> AuthStore \<Rightarrow> SessionSummary list" where
  "ListSessionSummaries c userID currentToken s =
     map (\<lambda>(t, se). \<lparr>sy_ID = ss_ID se, sy_DeviceID = ss_DeviceID se, sy_Provider = ss_Provider se, sy_CreatedAt = ss_CreatedAt se, sy_ExpiresAt = ss_ExpiresAt se, sy_Current = (t = currentToken)\<rparr>)
       (filter (\<lambda>(_, se). ss_UserID se = userID \<and> \<not> ss_ExpiresAt se < ce_now c) (ranged c (st_sessions s)))"

definition ChangePassword :: "auth_env \<Rightarrow> call_env \<Rightarrow> string \<Rightarrow> string \<Rightarrow> string \<Rightarrow> (AuthStore, store_error, unit) comp" where
  "ChangePassword e c userID oldPassword newPassword s =
     (case map_of (st_users s) userID of None \<Rightarrow> (Inl ErrUserNotFound, s)
      | Some u \<Rightarrow>
          if us_PasswordHash u \<noteq> [] \<and> \<not> verifyPassword e (us_PasswordHash u) oldPassword then (Inl ErrWrongPassword, s)
          else case passwordLength newPassword of Some er \<Rightarrow> (Inl er, s)
          | None \<Rightarrow> (Inr (), s\<lparr>st_users := upsert userID (u\<lparr>us_PasswordHash := ce_bcrypt c newPassword\<rparr>) (st_users s),
                              st_sessions := delete_where (ownedBy userID s) (st_sessions s)\<rparr>))"

subsection \<open>Profiles\<close>

definition GetProfile :: "string \<Rightarrow> AuthStore \<Rightarrow> Profile option" where
  "GetProfile userID s = map_of (st_profiles s) userID"

definition SetProfile :: "call_env \<Rightarrow> Profile \<Rightarrow> AuthStore \<Rightarrow> AuthStore" where
  "SetProfile c p s = s\<lparr>st_profiles := upsert (pf_UserID p) (p\<lparr>pf_UpdatedAt := ce_now c\<rparr>) (st_profiles s)\<rparr>"

definition ListProfiles :: "call_env \<Rightarrow> AuthStore \<Rightarrow> Profile list" where
  "ListProfiles c s = map snd (ranged c (st_profiles s))"

definition DeleteProfile :: "string \<Rightarrow> (AuthStore, store_error, unit) comp" where
  "DeleteProfile userID s = (case map_of (st_profiles s) userID of None \<Rightarrow> (Inl ErrProfileNotFound, s)
     | Some _ \<Rightarrow> (Inr (), s\<lparr>st_profiles := delete_where (\<lambda>k. k = userID) (st_profiles s)\<rparr>))"

definition SetRole :: "call_env \<Rightarrow> string \<Rightarrow> string \<Rightarrow> (AuthStore, store_error, unit) comp" where
  "SetRole c userID role s = (case map_of (st_profiles s) userID of None \<Rightarrow> (Inl ErrProfileNotFound, s)
     | Some p \<Rightarrow> (Inr (), s\<lparr>st_profiles := upsert userID (p\<lparr>pf_Role := role, pf_UpdatedAt := ce_now c\<rparr>) (st_profiles s)\<rparr>))"

definition AdminCount :: "AuthStore \<Rightarrow> nat" where
  "AdminCount s = length (filter (\<lambda>(_, p). pf_Role p = RoleAdmin) (st_profiles s))"

text \<open>The user of the first admin profile visited, or else the first user visited.\<close>

definition at10FirstUser :: "call_env \<Rightarrow> AuthStore \<Rightarrow> User option" where
  "at10FirstUser c s =
     (case find (\<lambda>(_, p). pf_Role p = RoleAdmin) (ranged c (st_profiles s)) of
        Some (i, _) \<Rightarrow> map_of (st_users s) i
      | None \<Rightarrow> (case ranged c (st_users s) of [] \<Rightarrow> None | (_, u) # _ \<Rightarrow> Some u))"

definition AdminUserID :: "call_env \<Rightarrow> AuthStore \<Rightarrow> string" where
  "AdminUserID c s = (case at10FirstUser c s of Some u \<Rightarrow> us_ID u | None \<Rightarrow> [])"

subsection \<open>The lock-screen PIN of a profile\<close>

definition hashPIN :: "auth_env \<Rightarrow> string \<Rightarrow> string \<Rightarrow> string" where
  "hashPIN e pin salt = salt @ ''$'' @ EncodeToString (kp_sha256 (mk_prims (ae_mk e)) (salt @ '':'' @ pin))"

definition extractSalt :: "string \<Rightarrow> string" where
  "extractSalt hash = (case SplitN2 (CHR ''$'') hash of (a, None) \<Rightarrow> [] | (a, Some _) \<Rightarrow> a)"

definition SetPIN :: "auth_env \<Rightarrow> call_env \<Rightarrow> string \<Rightarrow> string \<Rightarrow> (AuthStore, store_error, unit) comp" where
  "SetPIN e c userID pin s = (case map_of (st_profiles s) userID of None \<Rightarrow> (Inl ErrProfileNotFound, s)
     | Some p \<Rightarrow> (Inr (), s\<lparr>st_profiles := upsert userID (p\<lparr>pf_PinHash := (if pin = [] then [] else hashPIN e pin (EncodeToString (ce_pinSalt c))), pf_UpdatedAt := ce_now c\<rparr>) (st_profiles s)\<rparr>))"

definition ValidatePIN :: "auth_env \<Rightarrow> string \<Rightarrow> string \<Rightarrow> AuthStore \<Rightarrow> bool" where
  "ValidatePIN e userID pin s = (case map_of (st_profiles s) userID of None \<Rightarrow> False
     | Some p \<Rightarrow> if pf_PinHash p = [] then True else pf_PinHash p = hashPIN e pin (extractSalt (pf_PinHash p)))"

definition HasPIN :: "string \<Rightarrow> AuthStore \<Rightarrow> bool" where
  "HasPIN userID s = (case map_of (st_profiles s) userID of None \<Rightarrow> False | Some p \<Rightarrow> pf_PinHash p \<noteq> [])"

subsection \<open>Free-form settings\<close>

definition MaxSettingKeys :: nat where
  "MaxSettingKeys = 64"

definition MaxSettingKeyLen :: nat where
  "MaxSettingKeyLen = 64"

definition MaxSettingValueLen :: nat where
  "MaxSettingValueLen = 512"

definition key_separator :: "char \<Rightarrow> bool" where
  "key_separator r \<longleftrightarrow> r \<in> set ''_-. /:''"

text \<open>\<open>strings.FieldsFunc\<close> with those separators.\<close>

fun keyTokens :: "string \<Rightarrow> string \<Rightarrow> string list" where
  "keyTokens [] acc = (if acc = [] then [] else [rev acc])"
| "keyTokens (c # cs) acc = (if key_separator c then (if acc = [] then keyTokens cs [] else rev acc # keyTokens cs []) else keyTokens cs (c # acc))"

definition settingsKeyIsSecret :: "string \<Rightarrow> bool" where
  "settingsKeyIsSecret key =
     (let k = ToLower key in
      list_ex (Contains k) [''secret'', ''password'', ''passwd'', ''credential'']
      \<or> list_ex (\<lambda>tok. tok \<in> set [''key'', ''apikey'', ''privatekey'', ''seckey'', ''token'', ''auth'', ''bearer'', ''pass'', ''pin'']) (keyTokens k []))"

datatype settings_error = ErrSettingEmptyKey | ErrSettingKeyLong | ErrSettingSecret | ErrSettingValueLong | ErrSettingCount

fun applyPatch :: "(string \<times> string) list \<Rightarrow> (string, string) table \<Rightarrow> settings_error + (string, string) table" where
  "applyPatch [] out = Inr out"
| "applyPatch ((k, v) # ps) out =
     (if k = [] then Inl ErrSettingEmptyKey
      else if length k > MaxSettingKeyLen then Inl ErrSettingKeyLong
      else if settingsKeyIsSecret k then Inl ErrSettingSecret
      else if v = [] then applyPatch ps (delete_where (\<lambda>x. x = k) out)
      else if length v > MaxSettingValueLen then Inl ErrSettingValueLong
      else applyPatch ps (upsert k v out))"

definition mergeSettings :: "call_env \<Rightarrow> (string, string) table \<Rightarrow> (string, string) table \<Rightarrow> settings_error + (string, string) table" where
  "mergeSettings c existing patch =
     (case applyPatch (ranged c patch) existing of Inl er \<Rightarrow> Inl er
      | Inr out \<Rightarrow> if length out > MaxSettingKeys then Inl ErrSettingCount else Inr out)"

end
