(* ===== verification/Auth_Recover.thy ===== *)
theory Auth_Recover
  imports Auth_Store
begin

text \<open>
  The master key beside the account (\<open>backend/services/auth/masterkey_store.go\<close>): the wrapped
  envelope of each user, its creation at sign-up, and the three ways to a new password. The
  blobs are a table whose reads and writes may fail (\<open>ce_io\<close>, in the order of the calls); the
  code takes a failed read for an absent row.
\<close>

definition SaveMasterKeyBlob :: "call_env \<Rightarrow> nat \<Rightarrow> string \<Rightarrow> bytes \<Rightarrow> (AuthStore, store_error, unit) comp" where
  "SaveMasterKeyBlob c i userID blob s =
     (if userID = [] \<or> blob = [] then (Inl ErrSaveBlob, s)
      else if \<not> ce_io c i then (Inl ErrSaveBlob, s)
      else (Inr (), s\<lparr>st_masterKeys := (st_masterKeys s)(userID \<mapsto> blob)\<rparr>))"

definition LoadMasterKeyBlob :: "call_env \<Rightarrow> nat \<Rightarrow> string \<Rightarrow> AuthStore \<Rightarrow> bytes" where
  "LoadMasterKeyBlob c i userID s = (if userID = [] \<or> \<not> ce_io c i then [] else case st_masterKeys s userID of None \<Rightarrow> [] | Some blob \<Rightarrow> blob)"

definition HasMasterKey :: "call_env \<Rightarrow> string \<Rightarrow> AuthStore \<Rightarrow> bool" where
  "HasMasterKey c userID s \<longleftrightarrow> length (LoadMasterKeyBlob c 0 userID s) > 0"

definition ProvisionMasterKey :: "auth_env \<Rightarrow> call_env \<Rightarrow> string \<Rightarrow> string \<Rightarrow> (AuthStore, store_error, string) comp" where
  "ProvisionMasterKey e c userID password s =
     (if userID = [] \<or> password = [] then (Inl ErrMasterKeyInput, s)
      else if HasMasterKey c userID s then (Inl ErrMasterKeyExists, s)
      else case ProvisionKey (ae_mk e) (ce_rand c) password of Inl _ \<Rightarrow> (Inl ErrMasterKey, s)
      | Inr (blob, phrase) \<Rightarrow> bindS (SaveMasterKeyBlob c 1 userID blob) (\<lambda>_. retS phrase) s)"

text \<open>Load, parse, change and save the envelope: the common part of the three resets.\<close>

definition rewrapBlob :: "auth_env \<Rightarrow> call_env \<Rightarrow> string \<Rightarrow> (MasterKeyEnvelope \<Rightarrow> mk_error + MasterKeyEnvelope) \<Rightarrow> (AuthStore, store_error, unit) comp" where
  "rewrapBlob e c userID f s =
     (case ParseMasterKeyEnvelope (ae_mk e) (LoadMasterKeyBlob c 0 userID s) of Inl _ \<Rightarrow> (Inl ErrMasterKey, s)
      | Inr env \<Rightarrow> (case f env of Inl _ \<Rightarrow> (Inl ErrMasterKey, s)
         | Inr newEnv \<Rightarrow> SaveMasterKeyBlob c 1 userID (mk_marshal (ae_mk e) newEnv) s))"

definition ResetPasswordWithPhrase :: "auth_env \<Rightarrow> call_env \<Rightarrow> string \<Rightarrow> string \<Rightarrow> string \<Rightarrow> (AuthStore, store_error, unit) comp" where
  "ResetPasswordWithPhrase e c userID mnemonic newPassword s =
     (if LoadMasterKeyBlob c 0 userID s = [] then (Inl ErrNoMasterKey, s)
      else rewrapBlob e c userID (\<lambda>env. RewrapPassword (ae_mk e) (ce_rand c) env mnemonic newPassword) s)"

definition RewrapMasterKeyOnPasswordChange :: "auth_env \<Rightarrow> call_env \<Rightarrow> string \<Rightarrow> string \<Rightarrow> string \<Rightarrow> (AuthStore, store_error, unit) comp" where
  "RewrapMasterKeyOnPasswordChange e c userID oldPassword newPassword s =
     (if LoadMasterKeyBlob c 0 userID s = [] then (Inr (), s)
      else rewrapBlob e c userID (\<lambda>env. RewrapPasswordWithPassword (ae_mk e) (ce_rand c) env oldPassword newPassword) s)"

definition PasswordEnvelope :: "auth_env \<Rightarrow> call_env \<Rightarrow> string \<Rightarrow> AuthStore \<Rightarrow> store_error + bytes" where
  "PasswordEnvelope e c userID s =
     (if LoadMasterKeyBlob c 0 userID s = [] then Inl ErrNoMasterKey
      else case ParseMasterKeyEnvelope (ae_mk e) (LoadMasterKeyBlob c 0 userID s) of Inl _ \<Rightarrow> Inl ErrMasterKey | Inr env \<Rightarrow> Inr (PasswordEnvelopeJSON (ae_mk e) env))"

text \<open>The new login password: the hash of the user's entry, and the sessions it ends.\<close>

definition resetLogin :: "call_env \<Rightarrow> string \<Rightarrow> User \<Rightarrow> string \<Rightarrow> (string \<Rightarrow> bool) \<Rightarrow> AuthStore \<Rightarrow> AuthStore" where
  "resetLogin c i u newPassword gone s =
     s\<lparr>st_users := upsert i (u\<lparr>us_PasswordHash := ce_bcrypt c newPassword\<rparr>) (st_users s), st_sessions := delete_where gone (st_sessions s)\<rparr>"

definition RecoverAccountWithPhrase :: "auth_env \<Rightarrow> call_env \<Rightarrow> string \<Rightarrow> string \<Rightarrow> string \<Rightarrow> (AuthStore, store_error, unit) comp" where
  "RecoverAccountWithPhrase e c username mnemonic newPassword s =
     (case passwordLength newPassword of Some er \<Rightarrow> (Inl er, s)
      | None \<Rightarrow>
        (case (if username = [] then None else find (\<lambda>(_, u). us_Username u = username) (ranged c (st_users s))) of
           None \<Rightarrow> (Inl ErrNoMasterKey, s)
         | Some (i, u) \<Rightarrow>
             bindS (ResetPasswordWithPhrase e c (us_ID u) mnemonic newPassword) (\<lambda>_ s1. (Inr (), resetLogin c i u newPassword (ownedBy (us_ID u) s1) s1)) s))"

definition ResetPasswordWithSessionKey :: "auth_env \<Rightarrow> call_env \<Rightarrow> string \<Rightarrow> string \<Rightarrow> bytes \<Rightarrow> string \<Rightarrow> (AuthStore, store_error, unit) comp" where
  "ResetPasswordWithSessionKey e c userID keepToken newPasswordSlotJSON newPassword s =
     (case passwordLength newPassword of Some er \<Rightarrow> (Inl er, s)
      | None \<Rightarrow>
        if LoadMasterKeyBlob c 0 userID s = [] then (Inl ErrNoMasterKey, s)
        else bindS (rewrapBlob e c userID (\<lambda>env. RewrapPasswordFromClientSlot (ae_mk e) env newPasswordSlotJSON)) (\<lambda>_ s1.
          case map_of (st_users s1) userID of None \<Rightarrow> (Inl ErrUserNotFound, s1)
          | Some u \<Rightarrow> (Inr (), resetLogin c userID u newPassword (\<lambda>t. ownedBy userID s1 t \<and> t \<noteq> keepToken) s1)) s)"

subsection \<open>What a phrase and a password open\<close>

definition phraseOpens :: "auth_env \<Rightarrow> string \<Rightarrow> string \<Rightarrow> bytes \<Rightarrow> AuthStore \<Rightarrow> bool" where
  "phraseOpens e userID phrase mk s \<longleftrightarrow> (\<exists>blob env. st_masterKeys s userID = Some blob \<and> ParseMasterKeyEnvelope (ae_mk e) blob = Inr env
     \<and> (\<forall>typed. normaliseMnemonic typed = normaliseMnemonic phrase \<longrightarrow> UnwrapWithMnemonic (ae_mk e) env typed = Inr mk))"

definition passwordOpens :: "auth_env \<Rightarrow> string \<Rightarrow> string \<Rightarrow> bytes \<Rightarrow> AuthStore \<Rightarrow> bool" where
  "passwordOpens e userID password mk s \<longleftrightarrow> (\<exists>blob env. st_masterKeys s userID = Some blob \<and> ParseMasterKeyEnvelope (ae_mk e) blob = Inr env
     \<and> UnwrapWithPassword (ae_mk e) env password = Inr mk)"

lemma SaveMasterKeyBlob_Inr: "SaveMasterKeyBlob c i uid blob s = (Inr (), s') \<longleftrightarrow> uid \<noteq> [] \<and> blob \<noteq> [] \<and> ce_io c i \<and> s' = s\<lparr>st_masterKeys := (st_masterKeys s)(uid \<mapsto> blob)\<rparr>"
  by (auto simp: SaveMasterKeyBlob_def)

lemma SaveMasterKeyBlob_Inl: "SaveMasterKeyBlob c i uid blob s = (Inl er, s') \<Longrightarrow> s' = s"
  by (auto simp: SaveMasterKeyBlob_def split: if_splits)

lemma LoadMasterKeyBlob_Some: "LoadMasterKeyBlob c i uid s \<noteq> [] \<Longrightarrow> st_masterKeys s uid = Some (LoadMasterKeyBlob c i uid s)"
  by (auto simp: LoadMasterKeyBlob_def split: if_splits option.splits)

lemma rewrapBlob_E:
  assumes "rewrapBlob e c uid f s = (r, s')"
  obtains er where "r = Inl er" "s' = s"
  | env env' where "r = Inr ()" "uid \<noteq> []" "ParseMasterKeyEnvelope (ae_mk e) (LoadMasterKeyBlob c 0 uid s) = Inr env" "f env = Inr env'"
      "s' = s\<lparr>st_masterKeys := (st_masterKeys s)(uid \<mapsto> mk_marshal (ae_mk e) env')\<rparr>"
  using assms by (auto simp: rewrapBlob_def SaveMasterKeyBlob_def split: sum.splits if_splits)

text \<open>Replacing the password slot of a user's envelope keeps what any phrase opens.\<close>

lemma phraseOpens_rewrap:
  assumes "crypto_ok (ae_mk e)" "phraseOpens e uid phrase mk s" "LoadMasterKeyBlob c 0 uid' s \<noteq> []"
    and "rewrapBlob e c uid' f s = (r, s')" "\<And>env env'. f env = Inr env' \<Longrightarrow> \<exists>slot. env' = withPassword env slot"
  shows "phraseOpens e uid phrase mk s'"
  using assms(4)
proof (cases rule: rewrapBlob_E)
  case (2 env env')
  show ?thesis
  proof (cases "uid' = uid")
    case True
    obtain slot where slot: "env' = withPassword env slot" using assms(5) 2(4) by blast
    obtain blob where "st_masterKeys s uid = Some blob" "ParseMasterKeyEnvelope (ae_mk e) blob = Inr env"
      "\<forall>typed. normaliseMnemonic typed = normaliseMnemonic phrase \<longrightarrow> UnwrapWithMnemonic (ae_mk e) env typed = Inr mk"
      using assms(2) 2(3) LoadMasterKeyBlob_Some [OF assms(3)] True by (auto simp: phraseOpens_def)
    then show ?thesis using 2(5) True slot assms(1) by (auto simp: phraseOpens_def ParseMasterKeyEnvelope_back Unwrap_withPassword)
  next
    case False
    then show ?thesis using assms(2) 2(5) by (auto simp: phraseOpens_def)
  qed
qed (use assms(2) in simp)

lemma phraseOpens_ResetPasswordWithPhrase:
  assumes "crypto_ok (ae_mk e)" "phraseOpens e uid phrase mk s" "ResetPasswordWithPhrase e c uid' ph pw s = (r, s')"
  shows "phraseOpens e uid phrase mk s'"
  using assms phraseOpens_rewrap [OF assms(1,2)] rewraps(1) by (auto simp: ResetPasswordWithPhrase_def split: if_splits)

lemma phraseOpens_RewrapMasterKeyOnPasswordChange:
  assumes "crypto_ok (ae_mk e)" "phraseOpens e uid phrase mk s" "RewrapMasterKeyOnPasswordChange e c uid' old pw s = (r, s')"
  shows "phraseOpens e uid phrase mk s'"
  using assms phraseOpens_rewrap [OF assms(1,2)] rewraps(2) by (auto simp: RewrapMasterKeyOnPasswordChange_def split: if_splits)

lemma resetLogin_keys [simp]: "st_masterKeys (resetLogin c i u pw gone s) = st_masterKeys s"
  by (simp add: resetLogin_def)

lemma bindS_kept:
  assumes "bindS m f s = (r, s')" "\<And>r1 s1. m s = (r1, s1) \<Longrightarrow> P s1" "\<And>x s1 r2 s2. P s1 \<Longrightarrow> f x s1 = (r2, s2) \<Longrightarrow> P s2"
  shows "P s'"
  using assms(1) by (cases rule: bindS_E) (use assms(2,3) in blast)+

lemma phraseOpens_resetLogin [simp]: "phraseOpens e uid phrase mk (resetLogin c i u pw gone s) = phraseOpens e uid phrase mk s"
  by (simp add: phraseOpens_def)

lemma phraseOpens_RecoverAccountWithPhrase:
  assumes "crypto_ok (ae_mk e)" "phraseOpens e uid phrase mk s" "RecoverAccountWithPhrase e c name ph pw s = (r, s')"
  shows "phraseOpens e uid phrase mk s'"
proof -
  consider "s' = s" | i u where "bindS (ResetPasswordWithPhrase e c (us_ID u) ph pw) (\<lambda>_ s1. (Inr (), resetLogin c i u pw (ownedBy (us_ID u) s1) s1)) s = (r, s')"
    using assms(3) unfolding RecoverAccountWithPhrase_def by (auto split: option.splits prod.splits)
  then show ?thesis
  proof cases
    case 2
    then show ?thesis by (rule bindS_kept) (use phraseOpens_ResetPasswordWithPhrase [OF assms(1,2)] in auto)
  qed (use assms(2) in simp)
qed

lemma phraseOpens_ResetPasswordWithSessionKey:
  assumes "crypto_ok (ae_mk e)" "phraseOpens e uid phrase mk s" "ResetPasswordWithSessionKey e c uid' keep js pw s = (r, s')"
  shows "phraseOpens e uid phrase mk s'"
proof -
  let ?f = "\<lambda>_ s1. case map_of (st_users s1) uid' of None \<Rightarrow> (Inl ErrUserNotFound, s1)
    | Some u \<Rightarrow> (Inr (), resetLogin c uid' u pw (\<lambda>t. ownedBy uid' s1 t \<and> t \<noteq> keep) s1)"
  consider "s' = s" | "LoadMasterKeyBlob c 0 uid' s \<noteq> []" "bindS (rewrapBlob e c uid' (\<lambda>env. RewrapPasswordFromClientSlot (ae_mk e) env js)) ?f s = (r, s')"
    using assms(3) unfolding ResetPasswordWithSessionKey_def by (auto split: option.splits if_splits)
  then show ?thesis
  proof cases
    case 2
    from 2(2) show ?thesis
    proof (rule bindS_kept)
      fix r1 s1 assume "rewrapBlob e c uid' (\<lambda>env. RewrapPasswordFromClientSlot (ae_mk e) env js) s = (r1, s1)"
      then show "phraseOpens e uid phrase mk s1" by (rule phraseOpens_rewrap [OF assms(1,2) 2(1)]) (rule rewraps(3))
    qed (auto split: option.splits)
  qed (use assms(2) in simp)
qed

lemma phraseOpens_ProvisionMasterKey:
  assumes "phraseOpens e uid phrase mk s" "ProvisionMasterKey e c uid' pw s = (r, s')" "uid' \<noteq> uid"
  shows "phraseOpens e uid phrase mk s'"
  using assms by (auto simp: ProvisionMasterKey_def SaveMasterKeyBlob_def phraseOpens_def retS_def split: if_splits sum.splits elim!: bindS_E)

text \<open>Provisioning gives an envelope both secrets open.\<close>

lemma provisioned:
  assumes "crypto_ok (ae_mk e)" "rand_ok (ce_rand c)" "ProvisionMasterKey e c uid pw s = (Inr phrase, s')"
  shows "\<exists>mk. phraseOpens e uid phrase mk s' \<and> passwordOpens e uid pw mk s'"
proof -
  let ?m = "ae_mk e"
  obtain blob where b: "ProvisionKey ?m (ce_rand c) pw = Inr (blob, phrase)" "SaveMasterKeyBlob c 1 uid blob s = (Inr (), s')"
    using assms(3) by (auto simp: ProvisionMasterKey_def retS_def split: if_splits sum.splits elim!: bindS_E)
  obtain mk entropy env where k: "NewMasterKey (ce_rand c) = Inr mk" "entropyToMnemonic (kp_sha256 (mk_prims ?m)) entropy = Inr phrase"
    "WrapMasterKey ?m (ce_rand c) 2 mk pw phrase = Inr env" "blob = mk_marshal ?m env"
    using b(1) by (auto simp: ProvisionKey_def split: sum.splits)
  have len: "length mk = 32" using readFull_Inr [OF assms(2)] k(1) by (simp add: NewMasterKey_def MasterKeyLen_def)
  obtain pwS phS where w: "ValidateMnemonic (kp_sha256 (mk_prims ?m)) phrase = None" "sealUnderPassword ?m (ce_rand c) 2 mk pw = Inr pwS"
    "sealUnderMnemonic ?m (ce_rand c) (2 + 2) mk phrase = Inr phS" "env = \<lparr>mk_Version = masterKeyEnvelopeVersion, mk_Password = pwS, mk_Phrase = phS\<rparr>"
    using k(3) by (auto simp: WrapMasterKey_def split: if_splits option.splits sum.splits)
  have e: "env = withPassword env pwS" using w(4) by (simp add: withPassword_def)
  have parse: "ParseMasterKeyEnvelope ?m blob = Inr env" using ParseMasterKeyEnvelope_back [OF assms(1), of env pwS] e k(4) by simp
  have "UnwrapWithPassword ?m env pw = Inr mk" using sealed_password [OF assms(1,2) len w(2), of env] e by simp
  moreover have "UnwrapWithMnemonic ?m env typed = Inr mk" if "normaliseMnemonic typed = normaliseMnemonic phrase" for typed
    using sealed_phrase [OF assms(1,2) len w(3,1) that] w(4) by simp
  ultimately show ?thesis using b(2) parse by (auto simp: SaveMasterKeyBlob_Inr phraseOpens_def passwordOpens_def)
qed

text \<open>A reset with the phrase makes the new password open the same key.\<close>

lemma reset_phrase_opens:
  assumes "crypto_ok (ae_mk e)" "rand_ok (ce_rand c)" "phraseOpens e uid phrase mk s" "normaliseMnemonic typed = normaliseMnemonic phrase"
    and "ResetPasswordWithPhrase e c uid typed pw s = (Inr (), s')"
  shows "passwordOpens e uid pw mk s'"
proof -
  let ?m = "ae_mk e"
  have l: "LoadMasterKeyBlob c 0 uid s \<noteq> []" and r: "rewrapBlob e c uid (\<lambda>env. RewrapPassword ?m (ce_rand c) env typed pw) s = (Inr (), s')"
    using assms(5) by (auto simp: ResetPasswordWithPhrase_def split: if_splits)
  obtain env where v: "ParseMasterKeyEnvelope ?m (LoadMasterKeyBlob c 0 uid s) = Inr env" "UnwrapWithMnemonic ?m env typed = Inr mk"
    using assms(3,4) LoadMasterKeyBlob_Some [OF l] by (auto simp: phraseOpens_def)
  obtain env' where n: "RewrapPassword ?m (ce_rand c) env typed pw = Inr env'" "s' = s\<lparr>st_masterKeys := (st_masterKeys s)(uid \<mapsto> mk_marshal ?m env')\<rparr>"
    using r v(1) by (auto elim!: rewrapBlob_E)
  obtain slot where s: "sealUnderPassword ?m (ce_rand c) 0 mk pw = Inr slot" "env' = withPassword env slot"
    using n(1) v(2) by (auto simp: RewrapPassword_def split: if_splits sum.splits)
  show ?thesis using sealed_password [OF assms(1,2) Unwrap_length(1) [OF v(2)] s(1)] n(2) s(2) assms(1)
    by (auto simp: passwordOpens_def ParseMasterKeyEnvelope_back)
qed

end
