(* ===== verification/Auth_Pin.thy ===== *)
theory Auth_Pin
  imports Auth_Limit
begin

text \<open>
  Login with a device PIN (\<open>backend/services/auth/devicepin.go\<close>): a random credential,
  encrypted under a key derived from the PIN, stands for a session token; wrong PINs are
  counted in a file, five of them lock the PIN for 15 minutes and the third lock is permanent.
  Argon2id, AES-GCM, the TPM and the JSON encodings are parameters, every I/O call may fail
  without an effect on the files, and each operation reads the clock once (the mutex makes it
  one step). \<open>None\<close> as a time is Go's zero time.
\<close>

record pinState =
  ps_Attempts :: int
  ps_LockoutCount :: int
  ps_LockedUntil :: "int option"
  ps_PermanentLock :: bool
  ps_SetByFullAuth :: bool

record pinEnvelope =
  pv_Version :: int
  pv_Salt :: bytes
  pv_Time :: nat
  pv_Memory :: nat
  pv_Threads :: nat
  pv_KeyLen :: nat
  pv_Ciphertext :: bytes
  pv_TPMWrapped :: bool

record pinGCMEnvelope =
  pg_Version :: int
  pg_Nonce :: bytes
  pg_Ciphertext :: bytes

datatype pin_error = ErrPINLocked | ErrPINPermanentLocked | ErrPINNotSet | ErrPINWrong | ErrPINTooShort | ErrPINTooLong | ErrPINNotDigits
  | ErrPINIO | ErrPINFormat | ErrPINCrypto | ErrPINSession | PINPanic

record pin_env =
  pn_io :: "nat \<Rightarrow> bool"
  pn_rand :: "nat \<Rightarrow> nat \<Rightarrow> bytes"
  pn_argon :: "bytes \<Rightarrow> bytes \<Rightarrow> nat \<Rightarrow> nat \<Rightarrow> nat \<Rightarrow> nat \<Rightarrow> bytes"
  pn_gcmSeal :: "bytes \<Rightarrow> bytes \<Rightarrow> bytes \<Rightarrow> bytes"
  pn_gcmOpen :: "bytes \<Rightarrow> bytes \<Rightarrow> bytes \<Rightarrow> bytes option"
  pn_tpm :: bool
  pn_tpmSeal :: "nat \<Rightarrow> bytes \<Rightarrow> bytes option"
  pn_tpmUnseal :: "nat \<Rightarrow> bytes \<Rightarrow> bytes option"
  pn_env :: "pinEnvelope \<Rightarrow> bytes"
  pn_unenv :: "bytes \<Rightarrow> pinEnvelope option"
  pn_gcm :: "pinGCMEnvelope \<Rightarrow> bytes"
  pn_ungcm :: "bytes \<Rightarrow> pinGCMEnvelope option"
  pn_state :: "pinState \<Rightarrow> bytes"
  pn_unstate :: "bytes \<Rightarrow> pinState option"
  pn_map :: "string \<Rightarrow> string \<Rightarrow> bytes"
  pn_unmap :: "bytes \<Rightarrow> (string \<rightharpoonup> string) option"
  pn_minLength :: nat

record pin_disk =
  pd_bin :: "bytes option"
  pd_salt :: "bytes option"
  pd_state :: "bytes option"
  pd_sessions :: "bytes option"
  pd_ios :: nat

type_synonym 'a pin = "(pin_disk, pin_error, 'a) comp"

definition pinMaxAttempts :: int where
  "pinMaxAttempts = 5"

definition pinLockoutDuration :: int where
  "pinLockoutDuration = 15 * Minute"

definition pinMaxLockouts :: int where
  "pinMaxLockouts = 3"

definition PINMaxLength :: nat where
  "PINMaxLength = 8"

definition DefaultPINMinLength :: nat where
  "DefaultPINMinLength = 4"

text \<open>The clamping of \<open>NewDevicePINService\<close>.\<close>

definition clampMinLength :: "int \<Rightarrow> nat" where
  "clampMinLength n = (let m = max n (int DefaultPINMinLength) in nat (min m (int PINMaxLength)))"

definition emptyState :: pinState where
  "emptyState = \<lparr>ps_Attempts = 0, ps_LockoutCount = 0, ps_LockedUntil = None, ps_PermanentLock = False, ps_SetByFullAuth = False\<rparr>"

subsection \<open>Files\<close>

definition pinIO :: "pin_env \<Rightarrow> unit pin" where
  "pinIO e d = (if pn_io e (pd_ios d) then Inr () else Inl ErrPINIO, d\<lparr>pd_ios := pd_ios d + 1\<rparr>)"

definition pinRand :: "pin_env \<Rightarrow> nat \<Rightarrow> bytes pin" where
  "pinRand e n = bindS (pinIO e) (\<lambda>_ d. (Inr (pn_rand e (pd_ios d) n), d))"

definition pinWrite :: "pin_env \<Rightarrow> (pin_disk \<Rightarrow> pin_disk) \<Rightarrow> unit pin" where
  "pinWrite e upd = bindS (pinIO e) (\<lambda>_. bindS (pinIO e) (\<lambda>_. bindS (pinIO e) (\<lambda>_ d. (Inr (), upd d))))"

definition pinRead :: "pin_env \<Rightarrow> (pin_disk \<Rightarrow> bytes option) \<Rightarrow> bytes option pin" where
  "pinRead e file = bindS (pinIO e) (\<lambda>_ d. (Inr (file d), d))"

definition hasPIN :: "pin_env \<Rightarrow> pin_disk \<Rightarrow> bool \<times> pin_disk" where
  "hasPIN e d = (pn_io e (pd_ios d) \<and> pd_bin d \<noteq> None, d\<lparr>pd_ios := pd_ios d + 1\<rparr>)"

definition writeState :: "pin_env \<Rightarrow> pinState \<Rightarrow> unit pin" where
  "writeState e st = pinWrite e (\<lambda>d. d\<lparr>pd_state := Some (pn_state e st)\<rparr>)"

definition readState :: "pin_env \<Rightarrow> pinState pin" where
  "readState e = bindS (pinRead e pd_state) (\<lambda>f. case f of None \<Rightarrow> retS emptyState
     | Some data \<Rightarrow> (case pn_unstate e data of None \<Rightarrow> failS ErrPINFormat | Some st \<Rightarrow> retS st))"

definition writeSessionMap :: "pin_env \<Rightarrow> string \<Rightarrow> string \<Rightarrow> unit pin" where
  "writeSessionMap e credHex token = pinWrite e (\<lambda>d. d\<lparr>pd_sessions := Some (pn_map e credHex token)\<rparr>)"

definition lookupSessionToken :: "pin_env \<Rightarrow> string \<Rightarrow> string pin" where
  "lookupSessionToken e credHex = bindS (pinRead e pd_sessions) (\<lambda>f.
     case (case f of None \<Rightarrow> Some Map.empty | Some data \<Rightarrow> pn_unmap e data) of None \<Rightarrow> failS ErrPINFormat
     | Some m \<Rightarrow> (case m credHex of None \<Rightarrow> failS ErrPINSession | Some token \<Rightarrow> retS token))"

definition loadOrCreateSalt :: "pin_env \<Rightarrow> bytes pin" where
  "loadOrCreateSalt e d =
     (case pinRead e pd_salt d of
        (Inr (Some data), d1) \<Rightarrow> if length data = 16 then (Inr data, d1)
          else bindS (pinRand e 16) (\<lambda>salt. bindS (pinWrite e (\<lambda>d. d\<lparr>pd_salt := Some salt\<rparr>)) (\<lambda>_. retS salt)) d1
      | (_, d1) \<Rightarrow> bindS (pinRand e 16) (\<lambda>salt. bindS (pinWrite e (\<lambda>d. d\<lparr>pd_salt := Some salt\<rparr>)) (\<lambda>_. retS salt)) d1)"

subsection \<open>Sealing\<close>

text \<open>A key of another length than 16, 24 or 32 bytes is no AES key; GCM panics on a nonce that is not 12 bytes.\<close>

definition aes_key :: "bytes \<Rightarrow> bool" where
  "aes_key key \<longleftrightarrow> length key = 16 \<or> length key = 24 \<or> length key = 32"

definition aesGCMEncrypt :: "pin_env \<Rightarrow> bytes \<Rightarrow> bytes \<Rightarrow> bytes pin" where
  "aesGCMEncrypt e key plaintext =
     (if \<not> aes_key key then failS ErrPINCrypto
      else bindS (pinRand e 12) (\<lambda>nonce. retS (pn_gcm e \<lparr>pg_Version = 1, pg_Nonce = nonce, pg_Ciphertext = pn_gcmSeal e key nonce plaintext\<rparr>)))"

definition aesGCMDecrypt :: "pin_env \<Rightarrow> bytes \<Rightarrow> bytes \<Rightarrow> pin_error + bytes" where
  "aesGCMDecrypt e key data =
     (case pn_ungcm e data of None \<Rightarrow> Inl ErrPINWrong
      | Some env \<Rightarrow>
          if \<not> aes_key key then Inl ErrPINWrong
          else if length (pg_Nonce env) \<noteq> 12 then Inl PINPanic
          else case pn_gcmOpen e key (pg_Nonce env) (pg_Ciphertext env) of None \<Rightarrow> Inl ErrPINWrong | Some pt \<Rightarrow> Inr pt)"

text \<open>\<open>argon2.IDKey\<close> panics when the number of passes or threads is zero.\<close>

definition argonKey :: "pin_env \<Rightarrow> string \<Rightarrow> pinEnvelope \<Rightarrow> bytes option" where
  "argonKey e pin env = (if pv_Time env < 1 \<or> pv_Threads env < 1 then None
     else Some (pn_argon e pin (pv_Salt env) (pv_Time env) (pv_Memory env) (pv_Threads env) (pv_KeyLen env)))"

definition tpmUnwrap :: "pin_env \<Rightarrow> pinEnvelope \<Rightarrow> bytes pin" where
  "tpmUnwrap e env d =
     (if \<not> pv_TPMWrapped env then (Inr (pv_Ciphertext env), d)
      else if \<not> pn_tpm e then (Inl ErrPINCrypto, d)
      else case pn_tpmUnseal e (pd_ios d) (pv_Ciphertext env) of
             None \<Rightarrow> (Inl ErrPINCrypto, d\<lparr>pd_ios := pd_ios d + 1\<rparr>) | Some ct \<Rightarrow> (Inr ct, d\<lparr>pd_ios := pd_ios d + 1\<rparr>))"

definition tryDecrypt :: "pin_env \<Rightarrow> string \<Rightarrow> string pin" where
  "tryDecrypt e pin =
     bindS (pinRead e pd_bin) (\<lambda>f. case f of None \<Rightarrow> failS ErrPINIO
     | Some envBytes \<Rightarrow> (case pn_unenv e envBytes of None \<Rightarrow> failS ErrPINFormat
        | Some env \<Rightarrow> bindS (tpmUnwrap e env) (\<lambda>ct.
            case argonKey e pin env of None \<Rightarrow> failS PINPanic
            | Some wrapKey \<Rightarrow> (case aesGCMDecrypt e wrapKey ct of Inl er \<Rightarrow> failS er
               | Inr cred \<Rightarrow> lookupSessionToken e (EncodeToString cred)))))"

subsection \<open>Operations\<close>

definition validatePINFormat :: "pin_env \<Rightarrow> string \<Rightarrow> pin_error option" where
  "validatePINFormat e pin =
     (if length pin < pn_minLength e then Some ErrPINTooShort
      else if length pin > PINMaxLength then Some ErrPINTooLong
      else if list_ex (\<lambda>c. \<not> is_digit c) pin then Some ErrPINNotDigits
      else None)"

definition removeFile :: "pin_env \<Rightarrow> (pin_disk \<Rightarrow> pin_disk) \<Rightarrow> unit pin" where
  "removeFile e upd = bindS (pinIO e) (\<lambda>_ d. (Inr (), upd d))"

definition clearPIN :: "pin_env \<Rightarrow> unit pin" where
  "clearPIN e = bindS (removeFile e (\<lambda>d. d\<lparr>pd_bin := None\<rparr>)) (\<lambda>_.
     bindS (removeFile e (\<lambda>d. d\<lparr>pd_state := None\<rparr>)) (\<lambda>_. removeFile e (\<lambda>d. d\<lparr>pd_sessions := None\<rparr>)))"

text \<open>A TPM that cannot seal is left out with a log line.\<close>

definition tpmWrap :: "pin_env \<Rightarrow> bytes \<Rightarrow> (bytes \<times> bool) pin" where
  "tpmWrap e ct d =
     (if \<not> pn_tpm e then (Inr (ct, False), d)
      else case pn_tpmSeal e (pd_ios d) ct of
             None \<Rightarrow> (Inr (ct, False), d\<lparr>pd_ios := pd_ios d + 1\<rparr>) | Some tpmCT \<Rightarrow> (Inr (tpmCT, True), d\<lparr>pd_ios := pd_ios d + 1\<rparr>))"

definition newEnvelope :: "bytes \<Rightarrow> bytes \<Rightarrow> bool \<Rightarrow> pinEnvelope" where
  "newEnvelope salt ct wrapped = \<lparr>pv_Version = 1, pv_Salt = salt, pv_Time = 3, pv_Memory = 64 * 1024, pv_Threads = 4, pv_KeyLen = 32, pv_Ciphertext = ct, pv_TPMWrapped = wrapped\<rparr>"

definition SetDevicePIN :: "pin_env \<Rightarrow> string \<Rightarrow> string \<Rightarrow> unit pin" where
  "SetDevicePIN e pin sessionToken =
     (if pin = [] then clearPIN e
      else case validatePINFormat e pin of Some er \<Rightarrow> failS er
      | None \<Rightarrow>
          bindS (loadOrCreateSalt e) (\<lambda>salt.
          bindS (pinRand e 32) (\<lambda>cred.
          bindS (aesGCMEncrypt e (pn_argon e pin salt 3 (64 * 1024) 4 32) cred) (\<lambda>ct.
          bindS (tpmWrap e ct) (\<lambda>(ct', wrapped).
          bindS (pinWrite e (\<lambda>d. d\<lparr>pd_bin := Some (pn_env e (newEnvelope salt ct' wrapped))\<rparr>)) (\<lambda>_.
          bindS (writeSessionMap e (EncodeToString cred) sessionToken) (\<lambda>_.
          writeState e (emptyState\<lparr>ps_SetByFullAuth := True\<rparr>))))))))"

text \<open>The checks before a PIN is tried, and the state the attempt starts from.\<close>

definition lockRefusal :: "int \<Rightarrow> pinState \<Rightarrow> pin_error option" where
  "lockRefusal now st =
     (if ps_PermanentLock st then Some ErrPINPermanentLocked
      else case ps_LockedUntil st of Some t \<Rightarrow> if now < t then Some ErrPINLocked else None | None \<Rightarrow> None)"

definition expireLock :: "int \<Rightarrow> pinState \<Rightarrow> pinState" where
  "expireLock now st = (case ps_LockedUntil st of
     Some t \<Rightarrow> if now > t then st\<lparr>ps_LockedUntil := None, ps_Attempts := 0\<rparr> else st | None \<Rightarrow> st)"

definition wrongPIN :: "int \<Rightarrow> pinState \<Rightarrow> pin_error \<times> pinState" where
  "wrongPIN now st0 =
     (let st = st0\<lparr>ps_Attempts := ps_Attempts st0 + 1\<rparr> in
      if ps_Attempts st \<ge> pinMaxAttempts then
        let st1 = st\<lparr>ps_LockoutCount := ps_LockoutCount st + 1, ps_Attempts := 0\<rparr> in
        if ps_LockoutCount st1 \<ge> pinMaxLockouts then (ErrPINPermanentLocked, st1\<lparr>ps_PermanentLock := True\<rparr>)
        else (ErrPINLocked, st1\<lparr>ps_LockedUntil := Some (now + pinLockoutDuration)\<rparr>)
      else (ErrPINWrong, st))"

text \<open>The error of \<open>writeState\<close> is discarded.\<close>

definition ValidateDevicePIN :: "pin_env \<Rightarrow> int \<Rightarrow> string \<Rightarrow> string pin" where
  "ValidateDevicePIN e now pin d =
     (case hasPIN e d of (False, d1) \<Rightarrow> (Inl ErrPINNotSet, d1)
      | (True, d1) \<Rightarrow>
        (case readState e d1 of (Inl er, d2) \<Rightarrow> (Inl er, d2)
         | (Inr st0, d2) \<Rightarrow>
           (case lockRefusal now st0 of Some er \<Rightarrow> (Inl er, d2)
            | None \<Rightarrow>
              let st = expireLock now st0 in
              (case tryDecrypt e pin d2 of
                 (Inl er, d3) \<Rightarrow> if er = PINPanic then (Inl PINPanic, d3)
                   else (Inl (fst (wrongPIN now st)), snd (writeState e (snd (wrongPIN now st)) d3))
               | (Inr token, d3) \<Rightarrow> (Inr token, snd (writeState e (st\<lparr>ps_Attempts := 0, ps_LockedUntil := None\<rparr>) d3))))))"

definition ResetLockout :: "pin_env \<Rightarrow> unit pin" where
  "ResetLockout e = writeState e emptyState"

record LockoutStatus =
  ls_Locked :: bool
  ls_PermanentLock :: bool
  ls_AttemptsLeft :: int
  ls_LockedUntil :: "int option"
  ls_LockoutCount :: int

definition LockStatus :: "pin_env \<Rightarrow> int \<Rightarrow> pin_disk \<Rightarrow> LockoutStatus \<times> pin_disk" where
  "LockStatus e now d =
     (case readState e d of
        (Inl _, d1) \<Rightarrow> (\<lparr>ls_Locked = True, ls_PermanentLock = True, ls_AttemptsLeft = 0, ls_LockedUntil = None, ls_LockoutCount = 0\<rparr>, d1)
      | (Inr st, d1) \<Rightarrow>
          (if ps_PermanentLock st then \<lparr>ls_Locked = True, ls_PermanentLock = True, ls_AttemptsLeft = 0, ls_LockedUntil = None, ls_LockoutCount = ps_LockoutCount st\<rparr>
           else if (case ps_LockedUntil st of Some t \<Rightarrow> now < t | None \<Rightarrow> False)
           then \<lparr>ls_Locked = True, ls_PermanentLock = False, ls_AttemptsLeft = 0, ls_LockedUntil = ps_LockedUntil st, ls_LockoutCount = ps_LockoutCount st\<rparr>
           else \<lparr>ls_Locked = False, ls_PermanentLock = False, ls_AttemptsLeft = max 0 (pinMaxAttempts - ps_Attempts st), ls_LockedUntil = None, ls_LockoutCount = ps_LockoutCount st\<rparr>, d1))"

end
