(* ===== verification/Auth_Http.thy ===== *)
theory Auth_Http
  imports Auth_Recover Auth_Pin
begin

text \<open>
  The HTTP side of \<open>backend/services/auth\<close> (\<open>handlers.go\<close>, \<open>session_handlers.go\<close>,
  \<open>admin_token.go\<close>) and the admin-token route of \<open>cmd/server\<close>: the middleware that decides who
  a request is from, and one function per handler. A body is what its JSON decodes to, \<open>None\<close>
  if it does not decode. The store's methods, the limiter's and the PIN service's are one step
  each; a request is served as one sequence of them. The handlers of the fingerprint reader are
  left out. A header that is absent is the empty string, and so is one that is present but
  empty; the code never tells them apart.
\<close>

record vk_result =
  vr_Valid :: bool
  vr_Account :: string
  vr_Products :: "string list"

record at10Record =
  at_Token :: string
  at_IssuedAt :: int
  at_RotatesAt :: int

record http_env =
  he_auth :: auth_env
  he_isIP :: "string \<Rightarrow> bool"
  he_HOME :: string
  he_VULOS_DATA_DIR :: string
  he_Abs :: "string \<Rightarrow> string"
  he_VULOS_DOMAIN :: string
  he_vk :: "(int \<Rightarrow> string \<Rightarrow> vk_result option) option"
  he_at10 :: "at10Record \<Rightarrow> bytes"
  he_unat10 :: "bytes \<Rightarrow> at10Record option"
  he_pin :: "pin_env option"

record auth_state =
  as_store :: AuthStore
  as_limiter :: RateLimiter
  as_pin :: pin_disk
  as_files :: "string \<rightharpoonup> bytes"

subsection \<open>Paths\<close>

text \<open>\<open>strings.Split\<close> at a byte, and \<open>path.Clean\<close>: empty and dot elements go, a double dot takes the element before it.\<close>

fun SplitAt :: "char \<Rightarrow> string \<Rightarrow> string \<Rightarrow> string list" where
  "SplitAt sep [] acc = [rev acc]"
| "SplitAt sep (c # cs) acc = (if c = sep then rev acc # SplitAt sep cs [] else SplitAt sep cs (c # acc))"

fun cleanElems :: "bool \<Rightarrow> string list \<Rightarrow> string list \<Rightarrow> string list" where
  "cleanElems rooted [] out = rev out"
| "cleanElems rooted (x # xs) out =
     (if x = [] \<or> x = ''.'' then cleanElems rooted xs out
      else if x = ''..'' then
        (case out of
           [] \<Rightarrow> cleanElems rooted xs (if rooted then [] else [''..''])
         | y # ys \<Rightarrow> if y = ''..'' then cleanElems rooted xs (''..'' # out) else cleanElems rooted xs ys)
      else cleanElems rooted xs (x # out))"

definition Clean :: "string \<Rightarrow> string" where
  "Clean p = (if p = [] then ''.''
     else let rooted = (hd p = CHR ''/''); out = Join (cleanElems rooted (SplitAt (CHR ''/'') p []) []) ''/''
          in if rooted then ''/'' @ out else if out = [] then ''.'' else out)"

definition hasSuffix :: "string \<Rightarrow> string \<Rightarrow> bool" where
  "hasSuffix s t \<longleftrightarrow> length t \<le> length s \<and> drop (length s - length t) s = t"

definition TrimPrefix :: "string \<Rightarrow> string \<Rightarrow> string" where
  "TrimPrefix s p = (if HasPrefix s p then drop (length p) s else s)"

subsection \<open>Which paths need no identity\<close>

definition publicPaths :: "string list" where
  "publicPaths = [
     ''/health'', ''/healthz'', ''/api/health'', ''/api/auth/me'', ''/api/auth/logout'', ''/api/auth/register'',
      ''/api/auth/login'', ''/api/auth/status'', ''/api/setup/status'', ''/api/setup/mode'', ''/api/setup/apps'',
      ''/api/setup/join-code'', ''/api/setup/join'', ''/api/setup/join/status'', ''/api/browser/status'', ''/manifest.json'',
      ''/api/identity/check'', ''/api/setup/device-profile'', ''/api/auth/masterkey/recover'', ''/api/auth/pin/unlock'',
      ''/api/auth/pin/status'', ''/api/auth/fingerprint/status'', ''/api/auth/fingerprint/verify'',
      ''/api/auth/passkey/login/begin'', ''/api/auth/passkey/login/finish'', ''/api/auth/qr/begin'', ''/api/auth/qr/poll'',
      ''/init-passphrase'', ''/api/files/peer/serve'', ''/api/files/internal/content-key'', ''/metrics'',
      ''/.well-known/vulos-id'', ''/api/peering/relay/deposit'', ''/api/peering/relay/pickup'', ''/api/peering/relay/ack'',
      ''/api/peering/relay/attest'', ''/api/peering/prekeys/claim'', ''/api/peering/prekeys/publish'',
      ''/api/peering/profile/notify-change'', ''/api/fleetid/vouch/request'']"

definition publicPrefixes :: "string list" where
  "publicPrefixes = [''/assets/'', ''/__pubweb__/'', ''/api/peering/inbound/'', ''/api/v1/'']"

definition isPublicPath :: "string \<Rightarrow> bool" where
  "isPublicPath rawPath \<longleftrightarrow> (let path = Clean rawPath in path \<in> set publicPaths \<or> list_ex (HasPrefix path) publicPrefixes)"

definition staticAsset :: "string \<Rightarrow> bool" where
  "staticAsset p \<longleftrightarrow> p = ''/'' \<or> p = ''/index.html'' \<or> HasPrefix p ''/assets/'' \<or> hasSuffix p ''.js'' \<or> hasSuffix p ''.css'' \<or> hasSuffix p ''.svg''
     \<or> hasSuffix p ''.png'' \<or> hasSuffix p ''.ico'' \<or> hasSuffix p ''.woff2'' \<or> p = ''/sw-proxy.js''"

subsection \<open>The admin token\<close>

definition AT10TokenPrefix :: string where
  "AT10TokenPrefix = ''vulos-admin-''"

definition AT10RotationDays :: int where
  "AT10RotationDays = 30"

definition at10TokenPath :: "string \<Rightarrow> string" where
  "at10TokenPath home = Clean (if home = [] then ''db/admin-token.json'' else home @ ''/db/admin-token.json'')"

definition at10Read :: "http_env \<Rightarrow> call_env \<Rightarrow> nat \<Rightarrow> string \<Rightarrow> auth_state \<Rightarrow> at10Record option" where
  "at10Read e c i home st = (if \<not> ce_io c i then None else case as_files st (at10TokenPath home) of None \<Rightarrow> None | Some data \<Rightarrow> he_unat10 e data)"

text \<open>Directory, temporary file and rename: the record is there or the file is as it was.\<close>

definition at10Write :: "http_env \<Rightarrow> call_env \<Rightarrow> nat \<Rightarrow> string \<Rightarrow> at10Record \<Rightarrow> auth_state \<Rightarrow> bool \<times> auth_state" where
  "at10Write e c i home rec st = (if ce_io c i \<and> ce_io c (i + 1) \<and> ce_io c (i + 2) then (True, st\<lparr>as_files := (as_files st)(at10TokenPath home \<mapsto> he_at10 e rec)\<rparr>) else (False, st))"

definition IssueAdminToken :: "http_env \<Rightarrow> call_env \<Rightarrow> string \<Rightarrow> auth_state \<Rightarrow> string option \<times> auth_state" where
  "IssueAdminToken e c home st =
     (case ce_rand c 0 32 of None \<Rightarrow> (None, st)
      | Some b \<Rightarrow>
          let tok = AT10TokenPrefix @ ae_b64 (he_auth e) b in
          (case at10Write e c 0 home \<lparr>at_Token = tok, at_IssuedAt = ce_now c, at_RotatesAt = ce_now c + AT10RotationDays * Day\<rparr> st of
             (False, st1) \<Rightarrow> (None, st1) | (True, st1) \<Rightarrow> (Some tok, st1)))"

definition ValidateAdminToken :: "http_env \<Rightarrow> call_env \<Rightarrow> string \<Rightarrow> string \<Rightarrow> auth_state \<Rightarrow> bool" where
  "ValidateAdminToken e c home presented st = (case at10Read e c 0 home st of None \<Rightarrow> False
     | Some rec \<Rightarrow> \<not> ce_now c > at_RotatesAt rec \<and> at_Token rec = presented)"

text \<open>\<open>datadir.Root\<close>, and \<open>os.UserHomeDir\<close> with its error dropped.\<close>

definition dataRoot :: "http_env \<Rightarrow> string" where
  "dataRoot e = (if he_VULOS_DATA_DIR e \<noteq> [] then he_Abs e (he_VULOS_DATA_DIR e)
     else if he_HOME e = [] then ''/root/.vulos'' else Clean (he_HOME e @ ''/.vulos''))"

definition UserHomeDir :: "http_env \<Rightarrow> string" where
  "UserHomeDir e = he_HOME e"

subsection \<open>The middleware\<close>

definition HeaderGet :: "http_req \<Rightarrow> string \<Rightarrow> string" where
  "HeaderGet r k = rq_Header r k"

definition HeaderSet :: "string \<Rightarrow> string \<Rightarrow> http_req \<Rightarrow> http_req" where
  "HeaderSet k v r = r\<lparr>rq_Header := (rq_Header r)(k := v)\<rparr>"

definition HeaderDel :: "string \<Rightarrow> http_req \<Rightarrow> http_req" where
  "HeaderDel k r = HeaderSet k [] r"

definition stripIdentity :: "http_req \<Rightarrow> http_req" where
  "stripIdentity r = HeaderDel ''X-Vulos-Entitlements-Products'' (HeaderDel ''X-User-Email'' (HeaderDel ''X-User-ID'' r))"

definition extractToken :: "http_req \<Rightarrow> string" where
  "extractToken r = (if HasPrefix (HeaderGet r ''Authorization'') ''Bearer '' then TrimPrefix (HeaderGet r ''Authorization'') ''Bearer ''
     else case rq_Cookie r ''vulos_session'' of Some v \<Rightarrow> v | None \<Rightarrow> [])"

definition actAs :: "string \<Rightarrow> string \<Rightarrow> http_req \<Rightarrow> http_req" where
  "actAs userID email r = HeaderSet ''X-User-Email'' email (HeaderSet ''X-User-ID'' userID r)"

definition adminAuth :: "http_env \<Rightarrow> call_env \<Rightarrow> auth_state \<Rightarrow> http_req \<Rightarrow> http_req" where
  "adminAuth e c st r =
     (if HasPrefix (HeaderGet r ''Authorization'') (''Bearer '' @ AT10TokenPrefix)
         \<and> ValidateAdminToken e c (UserHomeDir e) (TrimPrefix (HeaderGet r ''Authorization'') ''Bearer '') st
      then case at10FirstUser c (as_store st) of Some u \<Rightarrow> actAs (us_ID u) (us_Email u) r | None \<Rightarrow> r
      else r)"

definition HasProduct :: "string \<Rightarrow> vk_result \<Rightarrow> bool" where
  "HasProduct p res \<longleftrightarrow> p \<in> set (vr_Products res)"

text \<open>\<open>None\<close>: the request is refused with 401.\<close>

definition vkAuth :: "http_env \<Rightarrow> call_env \<Rightarrow> auth_state \<Rightarrow> http_req \<Rightarrow> http_req option" where
  "vkAuth e c st r =
     (case (if HeaderGet r ''X-User-ID'' = [] \<and> HasPrefix (HeaderGet r ''Authorization'') ''Bearer vk_'' then he_vk e else None) of
        None \<Rightarrow> Some r
      | Some introspect \<Rightarrow>
          (case introspect (ce_now c) (TrimPrefix (HeaderGet r ''Authorization'') ''Bearer '') of
             None \<Rightarrow> None
           | Some res \<Rightarrow>
               if \<not> vr_Valid res \<or> \<not> HasProduct ''os'' res then None
               else case GetUserByEmail c (vr_Account res) (as_store st) of
                 None \<Rightarrow> None
               | Some u \<Rightarrow> let r1 = actAs (us_ID u) (us_Email u) r in
                   Some (if vr_Products res \<noteq> [] then HeaderSet ''X-Vulos-Entitlements-Products'' (Join (vr_Products res) '','') r1 else r1)))"

text \<open>The request and whether a cookie authenticated it.\<close>

definition sessionAuth :: "call_env \<Rightarrow> auth_state \<Rightarrow> http_req \<Rightarrow> http_req \<times> bool" where
  "sessionAuth c st r =
     (if HeaderGet r ''X-User-ID'' \<noteq> [] \<or> extractToken r = [] then (r, False)
      else case ValidateToken (ce_now c) (extractToken r) (as_store st) of
        None \<Rightarrow> (r, False)
      | Some se \<Rightarrow> (actAs (ss_UserID se) (ss_Email se) r, HeaderGet r ''Authorization'' = []))"

definition mutating :: "http_req \<Rightarrow> bool" where
  "mutating r \<longleftrightarrow> rq_Method r \<in> set [''POST'', ''PUT'', ''PATCH'', ''DELETE'']"

definition csrfSafe :: "http_req \<Rightarrow> bool" where
  "csrfSafe r \<longleftrightarrow>
     (let jsonCT = HasPrefix (ToLower (TrimSpace (HeaderGet r ''Content-Type''))) ''application/json'';
          origin = HeaderGet r ''Origin'';
          sameOrigin = (origin = [] \<or> TrimPrefix (TrimPrefix origin ''https://'') ''http://'' = rq_Host r)
      in jsonCT \<or> sameOrigin)"

datatype auth_hook = OnUserCreated string string string | OnUserLogin string string string | OnRoleChanged string string | OnSignIn string string string
  | SensitiveAction string string string string

record Cookie =
  ck_Name :: string
  ck_Value :: string
  ck_Path :: string
  ck_Domain :: string
  ck_MaxAge :: int
  ck_HttpOnly :: bool
  ck_SameSiteNone :: bool
  ck_Secure :: bool

record safe_user =
  su_id :: string
  su_username :: string
  su_name :: string
  su_email :: string
  su_picture :: string
  su_created_at :: int

datatype auth_body = BError string | BStoreError store_error | BSettingsError settings_error | BPinError pin_error | BStatus string | BHasUsers bool | BUser safe_user | BLogin safe_user Session | BRegistered safe_user Session "string option"
  | BProvisioned bool | BEnvelope bytes | BMe safe_user string string int "Profile option" | BSessions "SessionSummary list" nat | BTookOver nat
  | BProfiles "Profile list" | BProfile Profile | BBans "string \<rightharpoonup> int" | BStats nat nat int int int | BPin bool bool | BLockout pin_error LockoutStatus | BOk
  | BPinStatus bool LockoutStatus | BNoPin | BAdminToken string int

record auth_resp =
  rs_Status :: int
  rs_Body :: auth_body
  rs_Cookie :: "Cookie option"
  rs_Hooks :: "auth_hook list"

definition writeJSON :: "auth_body \<Rightarrow> auth_resp" where
  "writeJSON b = \<lparr>rs_Status = 200, rs_Body = b, rs_Cookie = None, rs_Hooks = []\<rparr>"

definition writeErr :: "int \<Rightarrow> string \<Rightarrow> auth_resp" where
  "writeErr code msg = \<lparr>rs_Status = code, rs_Body = BError msg, rs_Cookie = None, rs_Hooks = []\<rparr>"

text \<open>\<open>Inl\<close>: the answer of the middleware; \<open>Inr\<close>: the request it hands on.\<close>

definition sessionMiddleware :: "http_env \<Rightarrow> call_env \<Rightarrow> auth_state \<Rightarrow> http_req \<Rightarrow> auth_resp + http_req" where
  "sessionMiddleware e c st r0 =
     (case vkAuth e c st (adminAuth e c st (stripIdentity r0)) of
        None \<Rightarrow> Inl (writeErr 401 ''unauthorized'')
      | Some r1 \<Rightarrow>
          (case sessionAuth c st r1 of (r2, authedViaCookie) \<Rightarrow>
             if authedViaCookie \<and> mutating r2 \<and> \<not> csrfSafe r2 then Inl (writeErr 403 ''csrf'')
             else if \<not> isPublicPath (rq_Path r2) \<and> HeaderGet r2 ''X-User-ID'' = [] \<and> \<not> staticAsset (rq_Path r2) then Inl (writeErr 401 ''unauthorized'')
             else Inr r2))"

definition Middleware :: "http_env \<Rightarrow> call_env \<Rightarrow> http_req \<Rightarrow> auth_state \<Rightarrow> (auth_resp + http_req) \<times> auth_state" where
  "Middleware e c r st =
     (case IsBanned (extractIP (he_isIP e) r) (ce_now c) (as_limiter st) of
        (True, rl) \<Rightarrow> (Inl (writeErr 429 ''too many failed attempts, try again later''), st\<lparr>as_limiter := rl\<rparr>)
      | (False, rl) \<Rightarrow> let st1 = st\<lparr>as_limiter := rl\<rparr> in (sessionMiddleware e c st1 r, st1))"

subsection \<open>The session cookie\<close>

definition stripPort :: "string \<Rightarrow> string" where
  "stripPort host = (case splitLast (CHR '':'') host of None \<Rightarrow> host
     | Some (before, _) \<Rightarrow> if before \<noteq> [] \<and> (CHR '']'' \<notin> set before \<or> last before = CHR '']'') then before else host)"

definition cookieDomain :: "http_env \<Rightarrow> http_req \<Rightarrow> string" where
  "cookieDomain e r =
     (if he_VULOS_DOMAIN e \<noteq> [] then (if HasPrefix (he_VULOS_DOMAIN e) ''.'' then he_VULOS_DOMAIN e else ''.'' @ he_VULOS_DOMAIN e)
      else let host = stripPort (rq_Host r); parts = SplitAt (CHR ''.'') host [] in
        if he_isIP e host then []
        else if length parts < 2 then []
        else if Contains (hd parts) ''--'' then (let base = Join (tl parts) ''.'' in if base = [] then [] else ''.'' @ base)
        else ''.'' @ host)"

definition sessionCookie :: "http_env \<Rightarrow> http_req \<Rightarrow> string \<Rightarrow> Cookie" where
  "sessionCookie e r token =
     (let isSecure = (rq_TLS r \<or> (fromTrustedProxy (hostOf (rq_RemoteAddr r)) \<and> HeaderGet r ''X-Forwarded-Proto'' = ''https''))
      in \<lparr>ck_Name = ''vulos_session'', ck_Value = token, ck_Path = ''/'', ck_Domain = cookieDomain e r, ck_MaxAge = 90 * 24 * 3600,
          ck_HttpOnly = True, ck_SameSiteNone = isSecure, ck_Secure = isSecure\<rparr>)"

definition withCookie :: "http_env \<Rightarrow> http_req \<Rightarrow> string \<Rightarrow> auth_resp \<Rightarrow> auth_resp" where
  "withCookie e r token resp = resp\<lparr>rs_Cookie := Some (sessionCookie e r token)\<rparr>"

subsection \<open>Sign-up, login and password\<close>

text \<open>The callbacks a handler invokes, when they are set, are listed in the answer.\<close>

definition withHooks :: "auth_hook list \<Rightarrow> auth_resp \<Rightarrow> auth_resp" where
  "withHooks hs resp = resp\<lparr>rs_Hooks := hs\<rparr>"

definition Safe :: "User \<Rightarrow> safe_user" where
  "Safe u = \<lparr>su_id = us_ID u, su_username = us_Username u, su_name = us_Name u, su_email = us_Email u, su_picture = us_Picture u, su_created_at = us_CreatedAt u\<rparr>"

definition caller :: "http_req \<Rightarrow> string" where
  "caller r = HeaderGet r ''X-User-ID''"

definition isAdmin :: "AuthStore \<Rightarrow> string \<Rightarrow> bool" where
  "isAdmin s userID = (case GetProfile userID s of Some p \<Rightarrow> pf_Role p = RoleAdmin | None \<Rightarrow> False)"

definition hookRole :: "AuthStore \<Rightarrow> string \<Rightarrow> string" where
  "hookRole s userID = (case GetProfile userID s of Some p \<Rightarrow> pf_Role p | None \<Rightarrow> ''user'')"

definition countFailure :: "http_env \<Rightarrow> call_env \<Rightarrow> http_req \<Rightarrow> auth_state \<Rightarrow> auth_state" where
  "countFailure e c r st = st\<lparr>as_limiter := RecordFailureIP (extractIP (he_isIP e) r) (ce_now c) (as_limiter st)\<rparr>"

definition countSuccess :: "http_env \<Rightarrow> http_req \<Rightarrow> auth_state \<Rightarrow> auth_state" where
  "countSuccess e r st = st\<lparr>as_limiter := RecordSuccessIP (extractIP (he_isIP e) r) (as_limiter st)\<rparr>"

text \<open>The check at the start of a handler that counts failures.\<close>

definition unlessBanned :: "http_env \<Rightarrow> call_env \<Rightarrow> http_req \<Rightarrow> (auth_state \<Rightarrow> auth_resp \<times> auth_state) \<Rightarrow> auth_state \<Rightarrow> auth_resp \<times> auth_state" where
  "unlessBanned e c r k st = (case IsBanned (extractIP (he_isIP e) r) (ce_now c) (as_limiter st) of
     (True, rl) \<Rightarrow> (writeErr 429 ''too many attempts'', st\<lparr>as_limiter := rl\<rparr>)
   | (False, rl) \<Rightarrow> k (st\<lparr>as_limiter := rl\<rparr>))"

definition handleAuthStatus :: "auth_state \<Rightarrow> auth_resp \<times> auth_state" where
  "handleAuthStatus st = (writeJSON (BHasUsers (HasAnyUsers (as_store st))), st)"

definition firstLogin :: "http_env \<Rightarrow> call_env \<Rightarrow> http_req \<Rightarrow> User \<Rightarrow> string \<Rightarrow> auth_hook list \<Rightarrow> auth_state \<Rightarrow> auth_resp \<times> auth_state" where
  "firstLogin e c r user password hooks st =
     (case CreateSession (he_auth e) c user [] (as_store st) of (se, s1) \<Rightarrow>
      case ProvisionMasterKey (he_auth e) c (us_ID user) password s1 of (res, s2) \<Rightarrow>
        (withHooks hooks (withCookie e r (ss_Token se) (writeJSON (BRegistered (Safe user) se (case res of Inl _ \<Rightarrow> None | Inr phrase \<Rightarrow> Some phrase)))),
         st\<lparr>as_store := s2\<rparr>))"

definition handleRegister :: "http_env \<Rightarrow> call_env \<Rightarrow> http_req \<Rightarrow> (string \<times> string \<times> string) option \<Rightarrow> auth_state \<Rightarrow> auth_resp \<times> auth_state" where
  "handleRegister e c r body = unlessBanned e c r (\<lambda>st.
     if HasAnyUsers (as_store st) \<and> caller r = [] then (writeErr 401 ''unauthorized'', st)
     else if HasAnyUsers (as_store st) \<and> \<not> isAdmin (as_store st) (caller r) then (writeErr 403 ''only admins can create users'', st)
     else case body of None \<Rightarrow> (writeErr 400 ''invalid request'', st)
     | Some (username, password, displayName) \<Rightarrow>
         (case Register (he_auth e) c username password displayName (as_store st) of
            (Inl er, s1) \<Rightarrow> (\<lparr>rs_Status = 400, rs_Body = BStoreError er, rs_Cookie = None, rs_Hooks = []\<rparr>, countFailure e c r (st\<lparr>as_store := s1\<rparr>))
          | (Inr user, s1) \<Rightarrow>
              let hooks = [OnUserCreated username password (hookRole s1 (us_ID user))] in
              if caller r = [] then firstLogin e c r user password hooks (st\<lparr>as_store := s1\<rparr>)
              else (withHooks hooks (writeJSON (BUser (Safe user))), st\<lparr>as_store := s1\<rparr>)))"

definition handleLocalLogin :: "http_env \<Rightarrow> call_env \<Rightarrow> http_req \<Rightarrow> (string \<times> string) option \<Rightarrow> auth_state \<Rightarrow> auth_resp \<times> auth_state" where
  "handleLocalLogin e c r body = unlessBanned e c r (\<lambda>st.
     case body of None \<Rightarrow> (writeErr 400 ''invalid request'', st)
     | Some (username, password) \<Rightarrow>
         (case Login (he_auth e) c username password (as_store st) of
            (Inl er, s1) \<Rightarrow> (\<lparr>rs_Status = 401, rs_Body = BStoreError er, rs_Cookie = None, rs_Hooks = []\<rparr>, countFailure e c r (st\<lparr>as_store := s1\<rparr>))
          | (Inr user, s1) \<Rightarrow>
              (case CreateSession (he_auth e) c user [] s1 of (se, s2) \<Rightarrow>
                 (withHooks [OnUserLogin username password (hookRole s1 (us_ID user)), OnSignIn (us_ID user) (extractIP (he_isIP e) r) (HeaderGet r ''User-Agent'')]
                    (withCookie e r (ss_Token se) (writeJSON (BLogin (Safe user) se))),
                  countSuccess e r (st\<lparr>as_store := s2\<rparr>)))))"

definition sensitive :: "http_env \<Rightarrow> http_req \<Rightarrow> string \<Rightarrow> string \<Rightarrow> auth_hook" where
  "sensitive e r userID action = SensitiveAction userID action (extractIP (he_isIP e) r) (HeaderGet r ''User-Agent'')"

text \<open>The decoder's error is dropped: the fields it did not reach are empty.\<close>

definition handleChangePassword :: "http_env \<Rightarrow> call_env \<Rightarrow> http_req \<Rightarrow> string \<Rightarrow> string \<Rightarrow> auth_state \<Rightarrow> auth_resp \<times> auth_state" where
  "handleChangePassword e c r oldPassword newPassword st =
     (if caller r = [] then (writeErr 401 ''unauthorized'', st)
      else case ChangePassword (he_auth e) c (caller r) oldPassword newPassword (as_store st) of
        (Inl er, s1) \<Rightarrow> (\<lparr>rs_Status = 400, rs_Body = BStoreError er, rs_Cookie = None, rs_Hooks = []\<rparr>, st\<lparr>as_store := s1\<rparr>)
      | (Inr _, s1) \<Rightarrow>
          (case RewrapMasterKeyOnPasswordChange (he_auth e) c (caller r) oldPassword newPassword s1 of (res, s2) \<Rightarrow>
             (withHooks (sensitive e r (caller r) ''password_change'' # (case res of Inl _ \<Rightarrow> [] | Inr _ \<Rightarrow> [sensitive e r (caller r) ''masterkey_reset'']))
                (writeJSON (BStatus ''password changed'')), st\<lparr>as_store := s2\<rparr>)))"

definition handleMasterKeyStatus :: "call_env \<Rightarrow> http_req \<Rightarrow> auth_state \<Rightarrow> auth_resp \<times> auth_state" where
  "handleMasterKeyStatus c r st = (if caller r = [] then writeErr 401 ''unauthorized'' else writeJSON (BProvisioned (HasMasterKey c (caller r) (as_store st))), st)"

definition handleMasterKeyEnvelope :: "http_env \<Rightarrow> call_env \<Rightarrow> http_req \<Rightarrow> auth_state \<Rightarrow> auth_resp \<times> auth_state" where
  "handleMasterKeyEnvelope e c r st =
     (if caller r = [] then writeErr 401 ''unauthorized''
      else case PasswordEnvelope (he_auth e) c (caller r) (as_store st) of Inl _ \<Rightarrow> writeErr 404 ''no master key'' | Inr env \<Rightarrow> writeJSON (BEnvelope env), st)"

definition handleMasterKeyRecover :: "http_env \<Rightarrow> call_env \<Rightarrow> http_req \<Rightarrow> (string \<times> string \<times> string) option \<Rightarrow> auth_state \<Rightarrow> auth_resp \<times> auth_state" where
  "handleMasterKeyRecover e c r body = unlessBanned e c r (\<lambda>st.
     case body of None \<Rightarrow> (writeErr 400 ''invalid request'', st)
     | Some (username, mnemonic, newPassword) \<Rightarrow>
         if username = [] \<or> mnemonic = [] \<or> newPassword = [] then (writeErr 422 ''username, mnemonic and new_password are required'', st)
         else case RecoverAccountWithPhrase (he_auth e) c username mnemonic newPassword (as_store st) of
           (Inl _, s1) \<Rightarrow> (writeErr 400 ''recovery failed: check your recovery phrase and try again'', countFailure e c r (st\<lparr>as_store := s1\<rparr>))
         | (Inr _, s1) \<Rightarrow>
             (withHooks (case GetUserByUsername c username s1 of Some u \<Rightarrow> [sensitive e r (us_ID u) ''recovery_used''] | None \<Rightarrow> [])
                (writeJSON (BStatus ''account recovered; sign in with your new password'')), countSuccess e r (st\<lparr>as_store := s1\<rparr>)))"

definition handleMasterKeyResetActive :: "http_env \<Rightarrow> call_env \<Rightarrow> http_req \<Rightarrow> (string \<times> bytes) option \<Rightarrow> auth_state \<Rightarrow> auth_resp \<times> auth_state" where
  "handleMasterKeyResetActive e c r body st =
     (if caller r = [] then (writeErr 401 ''unauthorized'', st)
      else case body of None \<Rightarrow> (writeErr 400 ''invalid request'', st)
      | Some (newPassword, slot) \<Rightarrow>
          if newPassword = [] \<or> slot = [] then (writeErr 422 ''new_password and password_slot are required'', st)
          else let keepToken = extractToken r in
            (case ResetPasswordWithSessionKey (he_auth e) c (caller r) keepToken slot newPassword (as_store st) of
               (Inl er, s1) \<Rightarrow> (if er = ErrNoMasterKey then writeErr 409 ''no master key held by this session; use your recovery phrase''
                 else \<lparr>rs_Status = 400, rs_Body = BStoreError er, rs_Cookie = None, rs_Hooks = []\<rparr>, st\<lparr>as_store := s1\<rparr>)
             | (Inr _, s1) \<Rightarrow>
                 (let resp = withHooks [sensitive e r (caller r) ''password_reset_active''] (writeJSON (BStatus ''password reset''))
                  in if keepToken \<noteq> [] then withCookie e r keepToken resp else resp, st\<lparr>as_store := s1\<rparr>)))"

subsection \<open>Sessions\<close>

definition mask :: string where
  "mask = concat (replicate 6 [CHR 0xE2, CHR 0x80, CHR 0xA2])"

definition sanitizeProfile :: "Profile \<Rightarrow> Profile" where
  "sanitizeProfile p = p\<lparr>pf_PinHash := [], pf_AIAPIKey := (if pf_AIAPIKey p \<noteq> [] then mask else []),
     pf_Settings := map (\<lambda>(k, v). (k, if v \<noteq> [] \<and> settingsKeyIsSecret k then mask else v)) (pf_Settings p)\<rparr>"

definition handleMe :: "call_env \<Rightarrow> http_req \<Rightarrow> auth_state \<Rightarrow> auth_resp \<times> auth_state" where
  "handleMe c r st =
     (if extractToken r = [] then writeErr 401 ''not authenticated''
      else case ValidateToken (ce_now c) (extractToken r) (as_store st) of None \<Rightarrow> writeErr 401 ''invalid or expired session''
      | Some se \<Rightarrow> (case GetUser (ss_UserID se) (as_store st) of None \<Rightarrow> writeErr 404 ''user not found''
         | Some u \<Rightarrow> writeJSON (BMe (Safe u) (ss_ID se) (ss_UserID se) (ss_ExpiresAt se) (map_option sanitizeProfile (GetProfile (ss_UserID se) (as_store st))))), st)"

definition handleLogout :: "http_env \<Rightarrow> call_env \<Rightarrow> http_req \<Rightarrow> auth_state \<Rightarrow> auth_resp \<times> auth_state" where
  "handleLogout e c r st =
     (let token = extractToken r;
          s1 = (if token = [] then as_store st
                else if rq_Query r ''all'' = ''true'' then
                  (case ValidateToken (ce_now c) token (as_store st) of Some se \<Rightarrow> RevokeAllSessions (ss_UserID se) (as_store st) | None \<Rightarrow> RevokeSession token (as_store st))
                else RevokeSession token (as_store st));
          resp = writeJSON (BStatus ''logged out'')
      in (resp\<lparr>rs_Cookie := Some ((sessionCookie e r [])\<lparr>ck_MaxAge := - 1\<rparr>)\<rparr>, st\<lparr>as_store := s1\<rparr>))"

definition handleListSessions :: "call_env \<Rightarrow> http_req \<Rightarrow> auth_state \<Rightarrow> auth_resp \<times> auth_state" where
  "handleListSessions c r st =
     (if caller r = [] then writeErr 401 ''unauthorized''
      else let sessions = ListSessionSummaries c (caller r) (extractToken r) (as_store st)
           in writeJSON (BSessions sessions (length (filter (\<lambda>s. \<not> sy_Current s) sessions))), st)"

definition handleRevokeOtherSessions :: "http_env \<Rightarrow> call_env \<Rightarrow> http_req \<Rightarrow> auth_state \<Rightarrow> auth_resp \<times> auth_state" where
  "handleRevokeOtherSessions e c r st =
     (if caller r = [] then (writeErr 401 ''unauthorized'', st)
      else if extractToken r = [] then (writeErr 401 ''no active session'', st)
      else if (case ValidateToken (ce_now c) (extractToken r) (as_store st) of None \<Rightarrow> True | Some se \<Rightarrow> ss_UserID se \<noteq> caller r) then (writeErr 401 ''invalid session'', st)
      else case RevokeOtherSessions (caller r) (extractToken r) (as_store st) of
        (revoked, s1) \<Rightarrow> (withCookie e r (extractToken r) (writeJSON (BTookOver revoked)), st\<lparr>as_store := s1\<rparr>))"

subsection \<open>Profiles\<close>

record profile_update =
  up_DisplayName :: "string option"
  up_Theme :: "string option"
  up_Locale :: "string option"
  up_Timezone :: "string option"
  up_AIProvider :: "string option"
  up_AIModel :: "string option"
  up_AIAPIKey :: "string option"
  up_Initiative :: "string option"
  up_Settings :: "(string, string) table option"

definition handleListProfiles :: "call_env \<Rightarrow> http_req \<Rightarrow> auth_state \<Rightarrow> auth_resp \<times> auth_state" where
  "handleListProfiles c r st =
     (if caller r = [] then writeErr 401 ''unauthorized''
      else if \<not> isAdmin (as_store st) (caller r) then writeErr 403 ''admin only''
      else writeJSON (BProfiles (map sanitizeProfile (ListProfiles c (as_store st)))), st)"

definition handleGetProfile :: "http_req \<Rightarrow> string \<Rightarrow> auth_state \<Rightarrow> auth_resp \<times> auth_state" where
  "handleGetProfile r userID st =
     (if caller r = [] then writeErr 401 ''not authenticated''
      else if caller r \<noteq> userID \<and> \<not> isAdmin (as_store st) (caller r) then writeErr 403 ''can only read your own profile''
      else case GetProfile userID (as_store st) of None \<Rightarrow> writeErr 404 ''profile not found'' | Some p \<Rightarrow> writeJSON (BProfile (sanitizeProfile p)), st)"

definition applyUpdate :: "profile_update \<Rightarrow> Profile \<Rightarrow> Profile" where
  "applyUpdate u p =
     (let or = (\<lambda>new old. case new of None \<Rightarrow> old | Some v \<Rightarrow> v) in
      p\<lparr>pf_DisplayName := or (up_DisplayName u) (pf_DisplayName p), pf_Theme := or (up_Theme u) (pf_Theme p), pf_Locale := or (up_Locale u) (pf_Locale p),
        pf_Timezone := or (up_Timezone u) (pf_Timezone p), pf_AIProvider := or (up_AIProvider u) (pf_AIProvider p), pf_AIModel := or (up_AIModel u) (pf_AIModel p),
        pf_AIAPIKey := or (up_AIAPIKey u) (pf_AIAPIKey p), pf_Initiative := or (up_Initiative u) (pf_Initiative p)\<rparr>)"

text \<open>The handler changes the stored profile in place, so the named fields stay changed when the settings are refused.\<close>

definition putProfile :: "string \<Rightarrow> Profile \<Rightarrow> AuthStore \<Rightarrow> AuthStore" where
  "putProfile userID p s = s\<lparr>st_profiles := upsert userID p (st_profiles s)\<rparr>"

definition handleUpdateProfile :: "call_env \<Rightarrow> http_req \<Rightarrow> string \<Rightarrow> profile_update option \<Rightarrow> auth_state \<Rightarrow> auth_resp \<times> auth_state" where
  "handleUpdateProfile c r userID body st =
     (if caller r = [] then (writeErr 401 ''not authenticated'', st)
      else if caller r \<noteq> userID \<and> \<not> isAdmin (as_store st) (caller r) then (writeErr 403 ''can only update your own profile'', st)
      else case GetProfile userID (as_store st) of None \<Rightarrow> (writeErr 404 ''profile not found'', st)
      | Some p \<Rightarrow> (case body of None \<Rightarrow> (writeErr 400 ''invalid request'', st)
         | Some upd \<Rightarrow>
             let p1 = applyUpdate upd p; st1 = st\<lparr>as_store := putProfile userID p1 (as_store st)\<rparr> in
             (case (case up_Settings upd of None \<Rightarrow> Inr (pf_Settings p1) | Some patch \<Rightarrow> mergeSettings c (pf_Settings p1) patch) of
                Inl er \<Rightarrow> (\<lparr>rs_Status = 400, rs_Body = BSettingsError er, rs_Cookie = None, rs_Hooks = []\<rparr>, st1)
              | Inr merged \<Rightarrow>
                  let p2 = p1\<lparr>pf_Settings := merged, pf_UpdatedAt := ce_now c\<rparr>
                  in (writeJSON (BProfile (sanitizeProfile p2)), st1\<lparr>as_store := SetProfile c p2 (putProfile userID p2 (as_store st1))\<rparr>))))"

definition handleDeleteProfile :: "http_req \<Rightarrow> string \<Rightarrow> auth_state \<Rightarrow> auth_resp \<times> auth_state" where
  "handleDeleteProfile r userID st =
     (if \<not> isAdmin (as_store st) (caller r) then (writeErr 403 ''admin only'', st)
      else if userID = caller r then (writeErr 400 ''cannot delete your own profile'', st)
      else case DeleteProfile userID (as_store st) of
        (Inl er, s1) \<Rightarrow> (\<lparr>rs_Status = 404, rs_Body = BStoreError er, rs_Cookie = None, rs_Hooks = []\<rparr>, st\<lparr>as_store := s1\<rparr>)
      | (Inr _, s1) \<Rightarrow> (writeJSON (BStatus ''deleted''), st\<lparr>as_store := s1\<rparr>))"

definition handleSetRole :: "http_env \<Rightarrow> call_env \<Rightarrow> http_req \<Rightarrow> string \<Rightarrow> string option \<Rightarrow> auth_state \<Rightarrow> auth_resp \<times> auth_state" where
  "handleSetRole e c r userID body st =
     (if \<not> isAdmin (as_store st) (caller r) then (writeErr 403 ''admin only'', st)
      else case body of None \<Rightarrow> (writeErr 400 ''invalid request'', st)
      | Some role \<Rightarrow>
          if role \<noteq> RoleAdmin \<and> role \<noteq> RoleUser \<and> role \<noteq> RoleGuest then (writeErr 400 ''invalid role: admin, user, or guest'', st)
          else case SetRole c userID role (as_store st) of
            (Inl er, s1) \<Rightarrow> (\<lparr>rs_Status = 404, rs_Body = BStoreError er, rs_Cookie = None, rs_Hooks = []\<rparr>, st\<lparr>as_store := s1\<rparr>)
          | (Inr _, s1) \<Rightarrow>
              (withHooks (sensitive e r userID ''role_change'' # (case GetUser userID s1 of Some u \<Rightarrow> [OnRoleChanged (us_Username u) role] | None \<Rightarrow> []))
                 (writeJSON (BStatus ''role updated'')), st\<lparr>as_store := s1\<rparr>))"

subsection \<open>Bans\<close>

definition handleListBans :: "call_env \<Rightarrow> http_req \<Rightarrow> auth_state \<Rightarrow> auth_resp \<times> auth_state" where
  "handleListBans c r st = (if \<not> isAdmin (as_store st) (caller r) then writeErr 403 ''admin only'' else writeJSON (BBans (BannedIPs (ce_now c) (as_limiter st))), st)"

definition handleUnban :: "http_req \<Rightarrow> string option \<Rightarrow> auth_state \<Rightarrow> auth_resp \<times> auth_state" where
  "handleUnban r body st =
     (if \<not> isAdmin (as_store st) (caller r) then (writeErr 403 ''admin only'', st)
      else case body of None \<Rightarrow> (writeErr 400 ''invalid request'', st)
      | Some ip \<Rightarrow> (writeJSON (BStatus ''unbanned''), st\<lparr>as_limiter := Unban ip (as_limiter st)\<rparr>))"

definition handleSecurityStats :: "http_req \<Rightarrow> auth_state \<Rightarrow> auth_resp \<times> auth_state" where
  "handleSecurityStats r st =
     (if \<not> isAdmin (as_store st) (caller r) then writeErr 403 ''admin only''
      else let rl = as_limiter st in writeJSON (BStats (card (dom (rl_attempts rl))) (card (dom (rl_bans rl))) (rl_maxAttempts rl) (rl_window rl) (rl_banDuration rl)), st)"

subsection \<open>PINs\<close>

definition handleSetPIN :: "http_env \<Rightarrow> call_env \<Rightarrow> http_req \<Rightarrow> string \<Rightarrow> auth_state \<Rightarrow> auth_resp \<times> auth_state" where
  "handleSetPIN e c r pin st =
     (if caller r = [] then (writeErr 401 ''not authenticated'', st)
      else case SetPIN (he_auth e) c (caller r) pin (as_store st) of
        (Inl er, s1) \<Rightarrow> (\<lparr>rs_Status = 400, rs_Body = BStoreError er, rs_Cookie = None, rs_Hooks = []\<rparr>, st\<lparr>as_store := s1\<rparr>)
      | (Inr _, s1) \<Rightarrow> (writeJSON (BStatus ''pin set''), st\<lparr>as_store := s1\<rparr>))"

definition handleValidatePIN :: "http_env \<Rightarrow> call_env \<Rightarrow> http_req \<Rightarrow> string option \<Rightarrow> auth_state \<Rightarrow> auth_resp \<times> auth_state" where
  "handleValidatePIN e c r body st =
     (if caller r = [] then (writeErr 401 ''not authenticated'', st)
      else unlessBanned e c r (\<lambda>st.
        case body of None \<Rightarrow> (writeErr 400 ''invalid request'', st)
        | Some pin \<Rightarrow>
            let valid = ValidatePIN (he_auth e) (caller r) pin (as_store st)
            in (writeJSON (BPin valid (HasPIN (caller r) (as_store st))), if valid then countSuccess e r st else countFailure e c r st)) st)"

definition handleDevicePINSet :: "http_env \<Rightarrow> http_req \<Rightarrow> string option \<Rightarrow> auth_state \<Rightarrow> auth_resp \<times> auth_state" where
  "handleDevicePINSet e r body st =
     (if caller r = [] then (writeErr 401 ''full-auth session required to set PIN'', st)
      else case he_pin e of None \<Rightarrow> (writeErr 503 ''device PIN service not configured'', st)
      | Some pe \<Rightarrow> (case body of None \<Rightarrow> (writeErr 400 ''invalid request'', st)
         | Some pin \<Rightarrow>
             if pin \<noteq> [] \<and> extractToken r = [] then (writeErr 401 ''no active session to wrap'', st)
             else case SetDevicePIN pe pin (extractToken r) (as_pin st) of
               (Inl er, d) \<Rightarrow> (\<lparr>rs_Status = 400, rs_Body = BPinError er, rs_Cookie = None, rs_Hooks = []\<rparr>, st\<lparr>as_pin := d\<rparr>)
             | (Inr _, d) \<Rightarrow> (writeJSON (BStatus ''ok''), st\<lparr>as_pin := d\<rparr>)))"

text \<open>A panic aborts the request without an answer: status 0.\<close>

definition handleDevicePINUnlock :: "http_env \<Rightarrow> call_env \<Rightarrow> http_req \<Rightarrow> string option \<Rightarrow> auth_state \<Rightarrow> auth_resp \<times> auth_state" where
  "handleDevicePINUnlock e c r body = unlessBanned e c r (\<lambda>st.
     case he_pin e of None \<Rightarrow> (writeErr 503 ''device PIN service not configured'', st)
     | Some pe \<Rightarrow> (case body of None \<Rightarrow> (writeErr 400 ''invalid request'', st)
        | Some pin \<Rightarrow>
            (case ValidateDevicePIN pe (ce_now c) pin (as_pin st) of
               (Inl er, d) \<Rightarrow>
                 if er = PINPanic then (\<lparr>rs_Status = 0, rs_Body = BPinError er, rs_Cookie = None, rs_Hooks = []\<rparr>, st\<lparr>as_pin := d\<rparr>)
                 else (case LockStatus pe (ce_now c) d of (ls, d1) \<Rightarrow>
                   (\<lparr>rs_Status = (if er = ErrPINPermanentLocked then 403 else if er = ErrPINLocked then 423 else 401), rs_Body = BLockout er ls, rs_Cookie = None, rs_Hooks = []\<rparr>,
                    countFailure e c r (st\<lparr>as_pin := d1\<rparr>)))
             | (Inr token, d) \<Rightarrow>
                 (case ValidateToken (ce_now c) token (as_store st) of
                    None \<Rightarrow> (writeErr 401 ''PIN session expired - please sign in with your password'', st\<lparr>as_pin := d\<rparr>)
                  | Some se \<Rightarrow> (withCookie e r (ss_Token se) (writeJSON BOk), countSuccess e r (st\<lparr>as_pin := d\<rparr>))))))"

definition handleDevicePINStatus :: "http_env \<Rightarrow> call_env \<Rightarrow> auth_state \<Rightarrow> auth_resp \<times> auth_state" where
  "handleDevicePINStatus e c st =
     (case he_pin e of None \<Rightarrow> (writeJSON BNoPin, st)
      | Some pe \<Rightarrow> (case LockStatus pe (ce_now c) (as_pin st) of (ls, d) \<Rightarrow> (case hasPIN pe d of (has, d1) \<Rightarrow> (writeJSON (BPinStatus has ls), st\<lparr>as_pin := d1\<rparr>))))"

subsection \<open>The admin-token route\<close>

definition handleAdminTokenRotate :: "http_env \<Rightarrow> call_env \<Rightarrow> http_req \<Rightarrow> auth_state \<Rightarrow> auth_resp \<times> auth_state" where
  "handleAdminTokenRotate e c r st =
     (if caller r = [] then (writeErr 401 ''unauthorized'', st)
      else if \<not> isAdmin (as_store st) (caller r) then (writeErr 403 ''admin only'', st)
      else case IssueAdminToken e c (dataRoot e) st of
        (None, st1) \<Rightarrow> (writeErr 500 ''admin-token rotate'', st1)
      | (Some tok, st1) \<Rightarrow> (writeJSON (BAdminToken tok (ce_now c + AT10RotationDays * Day)), st1))"

subsection \<open>Routes\<close>

datatype auth_op = OpAuthStatus | OpRegister "(string \<times> string \<times> string) option" | OpLogin "(string \<times> string) option" | OpChangePassword string string
  | OpMasterKeyStatus | OpMasterKeyEnvelope | OpMasterKeyRecover "(string \<times> string \<times> string) option" | OpMasterKeyResetActive "(string \<times> bytes) option"
  | OpMe | OpLogout | OpListSessions | OpRevokeOtherSessions
  | OpListProfiles | OpGetProfile string | OpUpdateProfile string "profile_update option" | OpDeleteProfile string | OpSetRole string "string option"
  | OpSetPIN string | OpValidatePIN "string option" | OpDevicePINSet "string option" | OpDevicePINUnlock "string option" | OpDevicePINStatus
  | OpListBans | OpUnban "string option" | OpSecurityStats | OpAdminTokenRotate

text \<open>The pattern of each route; a path value is one element, or the router would not have matched.\<close>

fun routeOf :: "auth_op \<Rightarrow> string \<times> string" where
  "routeOf OpAuthStatus = (''GET'', ''/api/auth/status'')"
| "routeOf (OpRegister _) = (''POST'', ''/api/auth/register'')"
| "routeOf (OpLogin _) = (''POST'', ''/api/auth/login'')"
| "routeOf (OpChangePassword _ _) = (''POST'', ''/api/auth/change-password'')"
| "routeOf OpMasterKeyStatus = (''GET'', ''/api/auth/masterkey/status'')"
| "routeOf OpMasterKeyEnvelope = (''GET'', ''/api/auth/masterkey/envelope'')"
| "routeOf (OpMasterKeyRecover _) = (''POST'', ''/api/auth/masterkey/recover'')"
| "routeOf (OpMasterKeyResetActive _) = (''POST'', ''/api/auth/masterkey/reset-active'')"
| "routeOf OpMe = (''GET'', ''/api/auth/me'')"
| "routeOf OpLogout = (''POST'', ''/api/auth/logout'')"
| "routeOf OpListSessions = (''GET'', ''/api/auth/sessions'')"
| "routeOf OpRevokeOtherSessions = (''POST'', ''/api/auth/sessions/revoke-others'')"
| "routeOf OpListProfiles = (''GET'', ''/api/profiles'')"
| "routeOf (OpGetProfile u) = (''GET'', ''/api/profiles/'' @ u)"
| "routeOf (OpUpdateProfile u _) = (''PUT'', ''/api/profiles/'' @ u)"
| "routeOf (OpDeleteProfile u) = (''DELETE'', ''/api/profiles/'' @ u)"
| "routeOf (OpSetRole u _) = (''PUT'', ''/api/profiles/'' @ u @ ''/role'')"
| "routeOf (OpSetPIN _) = (''POST'', ''/api/auth/pin/set'')"
| "routeOf (OpValidatePIN _) = (''POST'', ''/api/auth/pin/validate'')"
| "routeOf (OpDevicePINSet _) = (''POST'', ''/api/auth/pin/device/set'')"
| "routeOf (OpDevicePINUnlock _) = (''POST'', ''/api/auth/pin/unlock'')"
| "routeOf OpDevicePINStatus = (''GET'', ''/api/auth/pin/status'')"
| "routeOf OpListBans = (''GET'', ''/api/auth/security/bans'')"
| "routeOf (OpUnban _) = (''POST'', ''/api/auth/security/unban'')"
| "routeOf OpSecurityStats = (''GET'', ''/api/auth/security/stats'')"
| "routeOf OpAdminTokenRotate = (''POST'', ''/api/auth/admin-token/rotate'')"

fun handle :: "http_env \<Rightarrow> call_env \<Rightarrow> http_req \<Rightarrow> auth_op \<Rightarrow> auth_state \<Rightarrow> auth_resp \<times> auth_state" where
  "handle e c r OpAuthStatus = handleAuthStatus"
| "handle e c r (OpRegister b) = handleRegister e c r b"
| "handle e c r (OpLogin b) = handleLocalLogin e c r b"
| "handle e c r (OpChangePassword old new) = handleChangePassword e c r old new"
| "handle e c r OpMasterKeyStatus = handleMasterKeyStatus c r"
| "handle e c r OpMasterKeyEnvelope = handleMasterKeyEnvelope e c r"
| "handle e c r (OpMasterKeyRecover b) = handleMasterKeyRecover e c r b"
| "handle e c r (OpMasterKeyResetActive b) = handleMasterKeyResetActive e c r b"
| "handle e c r OpMe = handleMe c r"
| "handle e c r OpLogout = handleLogout e c r"
| "handle e c r OpListSessions = handleListSessions c r"
| "handle e c r OpRevokeOtherSessions = handleRevokeOtherSessions e c r"
| "handle e c r OpListProfiles = handleListProfiles c r"
| "handle e c r (OpGetProfile u) = handleGetProfile r u"
| "handle e c r (OpUpdateProfile u b) = handleUpdateProfile c r u b"
| "handle e c r (OpDeleteProfile u) = handleDeleteProfile r u"
| "handle e c r (OpSetRole u b) = handleSetRole e c r u b"
| "handle e c r (OpSetPIN pin) = handleSetPIN e c r pin"
| "handle e c r (OpValidatePIN b) = handleValidatePIN e c r b"
| "handle e c r (OpDevicePINSet b) = handleDevicePINSet e r b"
| "handle e c r (OpDevicePINUnlock b) = handleDevicePINUnlock e c r b"
| "handle e c r OpDevicePINStatus = handleDevicePINStatus e c"
| "handle e c r OpListBans = handleListBans c r"
| "handle e c r (OpUnban b) = handleUnban r b"
| "handle e c r OpSecurityStats = handleSecurityStats r"
| "handle e c r OpAdminTokenRotate = handleAdminTokenRotate e c r"

text \<open>A request on its route: the middleware, and the handler on the request it hands on.\<close>

definition requestFor :: "auth_op \<Rightarrow> http_req \<Rightarrow> http_req" where
  "requestFor op r = r\<lparr>rq_Method := fst (routeOf op), rq_Path := snd (routeOf op)\<rparr>"

definition serve :: "http_env \<Rightarrow> call_env \<times> http_req \<times> auth_op \<Rightarrow> auth_state \<Rightarrow> auth_resp \<times> auth_state" where
  "serve e q st = (case q of (c, r, op) \<Rightarrow>
     (case Middleware e c (requestFor op r) st of
        (Inl resp, st1) \<Rightarrow> (resp, st1)
      | (Inr r1, st1) \<Rightarrow> handle e c r1 op st1))"

text \<open>Who the middleware says a request is from.\<close>

definition identity :: "http_env \<Rightarrow> call_env \<Rightarrow> http_req \<Rightarrow> auth_state \<Rightarrow> string" where
  "identity e c r st = (case Middleware e c r st of (Inl _, _) \<Rightarrow> [] | (Inr r1, _) \<Rightarrow> caller r1)"

end
