(* ===== verification/Auth_Kept.thy ===== *)
theory Auth_Kept
  imports Auth_Http
begin

text \<open>
  What the handlers do to the store once for all properties: a predicate the store's methods
  keep is kept by every request. The methods only an administrator may reach, or the sign-up on
  a box without users, need to keep it only if the request is allowed to reach them.
\<close>

definition mayAdminister :: "AuthStore \<Rightarrow> string \<Rightarrow> bool" where
  "mayAdminister s userID \<longleftrightarrow> \<not> HasAnyUsers s \<or> isAdmin s userID"

locale store_kept =
  fixes e :: auth_env and c :: call_env and P :: "AuthStore \<Rightarrow> bool" and allowed :: bool
  assumes Register: "allowed \<Longrightarrow> P s \<Longrightarrow> Register e c n p d s = (ru, s') \<Longrightarrow> P s'"
    and Login: "P s \<Longrightarrow> Login e c n p s = (ru, s') \<Longrightarrow> P s'"
    and CreateSession: "P s \<Longrightarrow> (\<exists>k. map_of (st_users s) k = Some usr) \<Longrightarrow> CreateSession e c usr dev s = (se, s') \<Longrightarrow> P s'"
    and ChangePassword: "P s \<Longrightarrow> ChangePassword e c u old p s = (r, s') \<Longrightarrow> P s'"
    and Rewrap: "P s \<Longrightarrow> RewrapMasterKeyOnPasswordChange e c u old p s = (r, s') \<Longrightarrow> P s'"
    and Recover: "P s \<Longrightarrow> RecoverAccountWithPhrase e c n ph p s = (r, s') \<Longrightarrow> P s'"
    and Reset: "P s \<Longrightarrow> ResetPasswordWithSessionKey e c u keep js p s = (r, s') \<Longrightarrow> P s'"
    and Provision: "allowed \<Longrightarrow> P s \<Longrightarrow> ProvisionMasterKey e c (ce_userID c) p s = (res, s') \<Longrightarrow> P s'"
    and Revoke: "P s \<Longrightarrow> P (RevokeSession t s)"
    and RevokeAll: "P s \<Longrightarrow> P (RevokeAllSessions u s)"
    and RevokeOther: "P s \<Longrightarrow> P (snd (RevokeOtherSessions u t s))"
    and edit: "P s \<Longrightarrow> GetProfile u s = Some q \<Longrightarrow> pf_UserID q' = pf_UserID q \<Longrightarrow> pf_Role q' = pf_Role q \<Longrightarrow> P (putProfile u q' s)"
    and SetProfile: "P s \<Longrightarrow> GetProfile u s = Some q \<Longrightarrow> P (SetProfile c q s)"
    and Delete: "allowed \<Longrightarrow> P s \<Longrightarrow> DeleteProfile u s = (r, s') \<Longrightarrow> P s'"
    and SetRole: "allowed \<Longrightarrow> P s \<Longrightarrow> SetRole c u role s = (r, s') \<Longrightarrow> P s'"
begin

lemma SetPIN_kept: "P s \<Longrightarrow> SetPIN e c u pin s = (r, s') \<Longrightarrow> P s'"
proof -
  assume p: "P s" and s: "SetPIN e c u pin s = (r, s')"
  show "P s'"
  proof (cases "map_of (st_profiles s) u")
    case (Some q)
    let ?q = "q\<lparr>pf_PinHash := (if pin = [] then [] else hashPIN e pin (EncodeToString (ce_pinSalt c))), pf_UpdatedAt := ce_now c\<rparr>"
    have "s' = putProfile u ?q s" using s Some by (simp add: SetPIN_def putProfile_def)
    then show ?thesis using edit [OF p, of u q ?q] Some by (simp add: GetProfile_def)
  qed (use p s in \<open>simp add: SetPIN_def\<close>)
qed

end

lemma unlessBanned_E:
  assumes "unlessBanned e c r k st = (resp, st')"
  obtains rl where "IsBanned (extractIP (he_isIP e) r) (ce_now c) (as_limiter st) = (True, rl)" "resp = writeErr 429 ''too many attempts''" "st' = st\<lparr>as_limiter := rl\<rparr>"
  | rl where "IsBanned (extractIP (he_isIP e) r) (ce_now c) (as_limiter st) = (False, rl)" "k (st\<lparr>as_limiter := rl\<rparr>) = (resp, st')"
  using assms by (auto simp: unlessBanned_def split: prod.splits bool.splits)

lemma Register_user: "Register e c n p d s = (Inr u, s') \<Longrightarrow> us_ID u = ce_userID c \<and> map_of (st_users s') (ce_userID c) = Some u"
  by (auto simp: Register_def Let_def map_of_upsert split: if_splits option.splits)

lemma Login_user: "Login e c n p s = (Inr u, s') \<Longrightarrow> \<exists>k. map_of (st_users s') k = Some u"
proof -
  assume "Login e c n p s = (Inr u, s')"
  then obtain i where "s' = s\<lparr>st_users := upsert i u (st_users s)\<rparr>" by (auto simp: Login_def Let_def split: if_splits option.splits)
  then have "map_of (st_users s') i = Some u" by (simp add: map_of_upsert)
  then show ?thesis by blast
qed

lemma Record_store [simp]: "as_store (countFailure e c r st) = as_store st" "as_store (countSuccess e r st) = as_store st"
  by (simp_all add: countFailure_def countSuccess_def)

lemma applyUpdate_keeps [simp]: "pf_UserID (applyUpdate u p) = pf_UserID p" "pf_Role (applyUpdate u p) = pf_Role p"
  by (simp_all add: applyUpdate_def Let_def)

context store_kept
begin

lemma register_kept:
  assumes "he_auth h = e" "P (as_store st)" "mayAdminister (as_store st) (caller r) \<Longrightarrow> allowed" "handleRegister h c r b st = (resp, st')"
  shows "P (as_store st')"
  using assms(4) unfolding handleRegister_def
proof (cases rule: unlessBanned_E)
  case (2 rl)
  show ?thesis
  proof (cases "HasAnyUsers (as_store st) \<and> (caller r = [] \<or> \<not> isAdmin (as_store st) (caller r))")
    case False
    then have al: allowed using assms(3) by (auto simp: mayAdminister_def)
    show ?thesis
    proof (cases b)
      case (Some t)
      obtain n p d where t: "t = (n, p, d)" by (cases t)
      obtain x s1 where x: "Register e c n p d (as_store st) = (x, s1)" by fastforce
      have p1: "P s1" using Register [OF al assms(2) x] .
      show ?thesis
      proof (cases x)
        case (Inr u)
        have u: "us_ID u = ce_userID c" "map_of (st_users s1) (ce_userID c) = Some u" using Register_user x Inr by blast+
        obtain se s2 where cs: "CreateSession e c u [] s1 = (se, s2)" by fastforce
        obtain y s3 where pv: "ProvisionMasterKey e c (ce_userID c) p s2 = (y, s3)" by fastforce
        have "P s3" using Provision [OF al _ pv] CreateSession [OF p1 _ cs] u(2) by blast
        then show ?thesis using 2(2) False Some t x Inr p1 cs pv u(1) assms(1) by (auto simp: firstLogin_def Let_def split: if_splits)
      qed (use 2(2) False Some t x p1 assms(1) in \<open>auto split: if_splits\<close>)
    qed (use 2(2) False assms(2) in \<open>auto split: if_splits\<close>)
  qed (use 2(2) assms(2) in \<open>auto split: if_splits\<close>)
qed (use assms(2) in simp)

lemma login_kept:
  assumes "he_auth h = e" "P (as_store st)" "handleLocalLogin h c r b st = (resp, st')"
  shows "P (as_store st')"
  using assms(3) unfolding handleLocalLogin_def
proof (cases rule: unlessBanned_E)
  case (2 rl)
  show ?thesis
  proof (cases b)
    case (Some t)
    obtain n p where t: "t = (n, p)" by (cases t)
    obtain x s1 where x: "Login e c n p (as_store st) = (x, s1)" by fastforce
    have p1: "P s1" using Login [OF assms(2) x] .
    show ?thesis
    proof (cases x)
      case (Inr u)
      obtain se s2 where cs: "CreateSession e c u [] s1 = (se, s2)" by fastforce
      have "P s2" using CreateSession [OF p1 _ cs] Login_user x Inr by blast
      then show ?thesis using 2(2) Some t x Inr cs assms(1) by auto
    qed (use 2(2) Some t x p1 assms(1) in auto)
  qed (use 2(2) assms(2) in auto)
qed (use assms(2) in simp)

lemma change_kept:
  assumes "he_auth h = e" "P (as_store st)" "handleChangePassword h c r old new st = (resp, st')"
  shows "P (as_store st')"
proof -
  obtain x s1 where x: "ChangePassword e c (caller r) old new (as_store st) = (x, s1)" by fastforce
  obtain y s2 where y: "RewrapMasterKeyOnPasswordChange e c (caller r) old new s1 = (y, s2)" by fastforce
  have "P s1" "P s2" using ChangePassword [OF assms(2) x] Rewrap [OF _ y] by blast+
  then show ?thesis using assms x y by (auto simp: handleChangePassword_def split: if_splits sum.splits)
qed

lemma recover_kept:
  assumes "he_auth h = e" "P (as_store st)" "handleMasterKeyRecover h c r b st = (resp, st')"
  shows "P (as_store st')"
  using assms(3) unfolding handleMasterKeyRecover_def
proof (cases rule: unlessBanned_E)
  case (2 rl)
  show ?thesis
  proof (cases b)
    case (Some t)
    obtain n ph p where t: "t = (n, ph, p)" by (cases t)
    obtain x s1 where x: "RecoverAccountWithPhrase e c n ph p (as_store st) = (x, s1)" by fastforce
    have "P s1" using Recover [OF assms(2) x] .
    then show ?thesis using 2(2) Some t x assms(1,2) by (auto split: if_splits sum.splits)
  qed (use 2(2) assms(2) in auto)
qed (use assms(2) in simp)

lemma reset_kept:
  assumes "he_auth h = e" "P (as_store st)" "handleMasterKeyResetActive h c r b st = (resp, st')"
  shows "P (as_store st')"
proof (cases b)
  case (Some t)
  obtain p js where t: "t = (p, js)" by (cases t)
  obtain x s1 where x: "ResetPasswordWithSessionKey e c (caller r) (extractToken r) js p (as_store st) = (x, s1)" by fastforce
  have "P s1" using Reset [OF assms(2) x] .
  then show ?thesis using assms Some t x by (auto simp: handleMasterKeyResetActive_def Let_def split: if_splits sum.splits)
qed (use assms in \<open>auto simp: handleMasterKeyResetActive_def split: if_splits\<close>)

lemma logout_kept: "P (as_store st) \<Longrightarrow> handleLogout h c r st = (resp, st') \<Longrightarrow> P (as_store st')"
  using Revoke RevokeAll by (auto simp: handleLogout_def Let_def split: if_splits option.splits)

lemma revoke_kept: "P (as_store st) \<Longrightarrow> handleRevokeOtherSessions h c r st = (resp, st') \<Longrightarrow> P (as_store st')"
proof -
  assume p: "P (as_store st)" and h: "handleRevokeOtherSessions h c r st = (resp, st')"
  obtain n s1 where x: "RevokeOtherSessions (caller r) (extractToken r) (as_store st) = (n, s1)" by fastforce
  have "P s1" using RevokeOther [OF p, of "caller r" "extractToken r"] x by simp
  then show ?thesis using p h x unfolding handleRevokeOtherSessions_def by (auto split: if_splits)
qed

lemma update_kept: "P (as_store st) \<Longrightarrow> handleUpdateProfile c r u b st = (resp, st') \<Longrightarrow> P (as_store st')"
proof -
  assume p: "P (as_store st)" and h: "handleUpdateProfile c r u b st = (resp, st')"
  show ?thesis
  proof (cases "GetProfile u (as_store st)")
    case (Some q)
    have p1: "P (putProfile u (applyUpdate upd q) (as_store st))" for upd using edit [OF p Some] by simp
    have p2: "P (SetProfile c q2 (putProfile u q2 (putProfile u (applyUpdate upd q) (as_store st))))" if "pf_UserID q2 = pf_UserID q" "pf_Role q2 = pf_Role q" for upd q2
    proof -
      have "GetProfile u (putProfile u (applyUpdate upd q) (as_store st)) = Some (applyUpdate upd q)" by (simp add: GetProfile_def putProfile_def map_of_upsert)
      from edit [OF p1 this, of q2] that have "P (putProfile u q2 (putProfile u (applyUpdate upd q) (as_store st)))" by simp
      then show ?thesis by (rule SetProfile [of _ u]) (simp add: GetProfile_def putProfile_def map_of_upsert)
    qed
    show ?thesis
    proof (cases "caller r = [] \<or> (caller r \<noteq> u \<and> \<not> isAdmin (as_store st) (caller r)) \<or> b = None")
      case False
      then obtain upd where b: "b = Some upd" by auto
      have "handleUpdateProfile c r u b st =
          (case (case up_Settings upd of None \<Rightarrow> Inr (pf_Settings (applyUpdate upd q)) | Some patch \<Rightarrow> mergeSettings c (pf_Settings (applyUpdate upd q)) patch) of
             Inl er \<Rightarrow> (\<lparr>rs_Status = 400, rs_Body = BSettingsError er, rs_Cookie = None, rs_Hooks = []\<rparr>, st\<lparr>as_store := putProfile u (applyUpdate upd q) (as_store st)\<rparr>)
           | Inr m \<Rightarrow> let q2 = (applyUpdate upd q)\<lparr>pf_Settings := m, pf_UpdatedAt := ce_now c\<rparr> in
               (writeJSON (BProfile (sanitizeProfile q2)), st\<lparr>as_store := SetProfile c q2 (putProfile u q2 (putProfile u (applyUpdate upd q) (as_store st)))\<rparr>))"
        using False b Some by (auto simp: handleUpdateProfile_def Let_def split: sum.splits)
      then show ?thesis using h p1 [of upd] by (auto simp: Let_def split: sum.splits intro!: p2)
    qed (use h p Some in \<open>auto simp: handleUpdateProfile_def split: if_splits\<close>)
  qed (use h p in \<open>auto simp: handleUpdateProfile_def split: if_splits\<close>)
qed

lemma admin_kept:
  assumes "P (as_store st)" "mayAdminister (as_store st) (caller r) \<Longrightarrow> allowed"
  shows "handleDeleteProfile r u st = (resp, st') \<Longrightarrow> P (as_store st')" "handleSetRole h c r u b st = (resp, st') \<Longrightarrow> P (as_store st')"
proof -
  have al: "isAdmin (as_store st) (caller r) \<Longrightarrow> allowed" using assms(2) by (simp add: mayAdminister_def)
  show "handleDeleteProfile r u st = (resp, st') \<Longrightarrow> P (as_store st')"
    using Delete [OF al assms(1)] assms(1) by (auto simp: handleDeleteProfile_def split: if_splits prod.splits sum.splits)
  show "handleSetRole h c r u b st = (resp, st') \<Longrightarrow> P (as_store st')"
    using SetRole [OF al assms(1)] assms(1) by (auto simp: handleSetRole_def split: if_splits prod.splits sum.splits option.splits)
qed

lemma pin_kept: "he_auth h = e \<Longrightarrow> P (as_store st) \<Longrightarrow> handleSetPIN h c r pin st = (resp, st') \<Longrightarrow> P (as_store st')"
  using SetPIN_kept by (auto simp: handleSetPIN_def split: if_splits prod.splits sum.splits)

end

text \<open>The other handlers leave the store alone.\<close>

lemma validate_store: "handleValidatePIN h c r b st = (resp, st') \<Longrightarrow> as_store st' = as_store st"
  by (auto simp: handleValidatePIN_def Let_def split: if_splits option.splits elim!: unlessBanned_E)

lemma unlock_store: "handleDevicePINUnlock h c r b st = (resp, st') \<Longrightarrow> as_store st' = as_store st"
  unfolding handleDevicePINUnlock_def by (auto split: if_splits option.splits sum.splits prod.splits elim!: unlessBanned_E)

lemma rotate_store: "handleAdminTokenRotate h c r st = (resp, st') \<Longrightarrow> as_store st' = as_store st"
  by (auto simp: handleAdminTokenRotate_def IssueAdminToken_def at10Write_def Let_def split: if_splits option.splits prod.splits)

lemmas other_store = handleAuthStatus_def handleMasterKeyStatus_def handleMasterKeyEnvelope_def handleMe_def handleListSessions_def handleListProfiles_def
  handleGetProfile_def handleListBans_def handleSecurityStats_def handleDevicePINStatus_def handleUnban_def handleDevicePINSet_def

lemma Middleware_store: "Middleware h c r st = (x, st1) \<Longrightarrow> as_store st1 = as_store st"
  by (auto simp: Middleware_def Let_def split: prod.splits bool.splits)

context store_kept
begin

lemma handle_kept:
  assumes "he_auth h = e" "P (as_store st)" "mayAdminister (as_store st) (caller r) \<Longrightarrow> allowed" "handle h c r op st = (resp, st')"
  shows "P (as_store st')"
proof (cases op)
  case (OpRegister b)
  then show ?thesis using register_kept [OF assms(1-3)] assms(4) by simp
next
  case (OpLogin b)
  then show ?thesis using login_kept [OF assms(1,2)] assms(4) by simp
next
  case (OpChangePassword a b)
  then show ?thesis using change_kept [OF assms(1,2)] assms(4) by simp
next
  case (OpMasterKeyRecover b)
  then show ?thesis using recover_kept [OF assms(1,2)] assms(4) by simp
next
  case (OpMasterKeyResetActive b)
  then show ?thesis using reset_kept [OF assms(1,2)] assms(4) by simp
next
  case OpLogout
  then show ?thesis using logout_kept [OF assms(2)] assms(4) by simp
next
  case OpRevokeOtherSessions
  then show ?thesis using revoke_kept [OF assms(2)] assms(4) by simp
next
  case (OpUpdateProfile u b)
  then show ?thesis using update_kept [OF assms(2)] assms(4) by simp
next
  case (OpDeleteProfile u)
  then show ?thesis using admin_kept(1) [OF assms(2,3)] assms(4) by simp
next
  case (OpSetRole u b)
  then show ?thesis using admin_kept(2) [OF assms(2,3)] assms(4) by simp
next
  case (OpSetPIN p)
  then show ?thesis using pin_kept [OF assms(1,2)] assms(4) by simp
next
  case (OpValidatePIN b)
  then show ?thesis using validate_store assms(2,4) by simp
next
  case (OpDevicePINUnlock b)
  then show ?thesis using unlock_store assms(2,4) by simp
next
  case OpAdminTokenRotate
  then show ?thesis using rotate_store assms(2,4) by simp
qed (use assms(2,4) in \<open>auto simp: other_store split: if_splits option.splits prod.splits sum.splits\<close>)

lemma serve_kept:
  assumes "he_auth h = e" "P (as_store st)" "mayAdminister (as_store st) (identity h c (requestFor op r) st) \<Longrightarrow> allowed" "serve h (c, r, op) st = (resp, st')"
  shows "P (as_store st')"
proof -
  obtain x st1 where x: "Middleware h c (requestFor op r) st = (x, st1)" by fastforce
  note s1 = Middleware_store [OF x]
  show ?thesis
  proof (cases x)
    case (Inr r1)
    have "handle h c r1 op st1 = (resp, st')" using assms(4) x Inr by (simp add: serve_def)
    then show ?thesis using handle_kept [OF assms(1), of st1 r1] assms(2,3) s1 x Inr by (simp add: identity_def)
  qed (use assms(2,4) x s1 in \<open>simp add: serve_def\<close>)
qed

end

end
