(* ===== verification/Auth_Inv.thy ===== *)
theory Auth_Inv
  imports Auth_Kept
begin

text \<open>
  The invariant of the store and two predicates of an account, each shown to be kept by every
  request through the interface of \<open>Auth_Kept\<close>.
\<close>

definition fair_order :: "call_env \<Rightarrow> bool" where
  "fair_order c \<longleftrightarrow> (\<forall>ks. set (ce_order c ks) = set ks)"

definition users_ok :: "(string, User) table \<Rightarrow> bool" where
  "users_ok us \<longleftrightarrow> (\<forall>k u. map_of us k = Some u \<longrightarrow> us_ID u = k)
     \<and> (\<forall>k u k' u'. map_of us k = Some u \<longrightarrow> map_of us k' = Some u' \<longrightarrow> us_Username u = us_Username u' \<longrightarrow> k = k')"

definition sessions_ok :: "(string, User) table \<Rightarrow> (string, Session) table \<Rightarrow> bool" where
  "sessions_ok us ss \<longleftrightarrow> (\<forall>t se. map_of ss t = Some se \<longrightarrow> ss_Token se = t \<and> map_of us (ss_UserID se) \<noteq> None)"

definition profiles_ok :: "(string, Profile) table \<Rightarrow> bool" where
  "profiles_ok ps \<longleftrightarrow> (\<forall>k p. map_of ps k = Some p \<longrightarrow> pf_UserID p = k)"

definition store_wf :: "AuthStore \<Rightarrow> bool" where
  "store_wf s \<longleftrightarrow> users_ok (st_users s) \<and> sessions_ok (st_users s) (st_sessions s) \<and> profiles_ok (st_profiles s)"

lemma store_wfD:
  assumes "store_wf s"
  shows "map_of (st_users s) k = Some u \<Longrightarrow> us_ID u = k"
    "map_of (st_users s) k = Some u \<Longrightarrow> map_of (st_users s) k' = Some u' \<Longrightarrow> us_Username u = us_Username u' \<Longrightarrow> k = k'"
    "map_of (st_sessions s) t = Some se \<Longrightarrow> ss_Token se = t" "map_of (st_sessions s) t = Some se \<Longrightarrow> map_of (st_users s) (ss_UserID se) \<noteq> None"
    "map_of (st_profiles s) k = Some p \<Longrightarrow> pf_UserID p = k"
  using assms unfolding store_wf_def users_ok_def sessions_ok_def profiles_ok_def by blast+

lemma find_in: "find Q xs = Some x \<Longrightarrow> x \<in> set xs \<and> Q x"
  by (induction xs) (auto split: if_splits)

lemma mem_ranged: "(k, v) \<in> set (ranged c t) \<Longrightarrow> map_of t k = Some v"
  by (auto simp: ranged_def map_filter_def)

lemma ranged_mem: "fair_order c \<Longrightarrow> map_of t k = Some v \<Longrightarrow> (k, v) \<in> set (ranged c t)"
proof -
  assume f: "fair_order c" and m: "map_of t k = Some v"
  have "k \<in> set (ce_order c (map fst t))" using f map_of_SomeD [OF m] by (force simp: fair_order_def)
  then show ?thesis using m by (force simp: ranged_def map_filter_def)
qed

lemma find_ranged: "find Q (ranged c t) = Some (k, v) \<Longrightarrow> map_of t k = Some v \<and> Q (k, v)"
  using mem_ranged find_in by fast

lemma find_fair:
  assumes "fair_order c" "map_of t k = Some v" "Q (k, v)" "\<And>k' v'. map_of t k' = Some v' \<Longrightarrow> Q (k', v') \<Longrightarrow> k' = k"
  shows "find Q (ranged c t) = Some (k, v)"
proof (cases "find Q (ranged c t)")
  case None
  then show ?thesis using ranged_mem [OF assms(1,2)] assms(3) by (auto simp: find_None_iff)
next
  case (Some x)
  obtain k' v' where x: "x = (k', v')" by (cases x)
  have "map_of t k' = Some v'" "Q (k', v')" using find_ranged Some x by fast+
  then show ?thesis using assms(2,4) Some x by auto
qed

subsection \<open>Well-formed stores\<close>

lemma wf_masterKeys [simp]: "store_wf (s\<lparr>st_masterKeys := m\<rparr>) = store_wf s"
  by (simp add: store_wf_def)

lemma users_ok_edit:
  assumes "users_ok us" "map_of us i = Some u" "us_ID u' = us_ID u" "us_Username u' = us_Username u"
  shows "users_ok (upsert i u' us)"
proof -
  have old: "\<exists>v. map_of us k = Some v \<and> us_ID v = us_ID w \<and> us_Username v = us_Username w" if "map_of (upsert i u' us) k = Some w" for k w
    using that assms(2-4) by (auto simp: map_of_upsert split: if_splits)
  note ok = assms(1) [unfolded users_ok_def]
  have "us_ID w = k" if "map_of (upsert i u' us) k = Some w" for k w using old [OF that] ok by auto
  moreover have "k = k'" if k: "map_of (upsert i u' us) k = Some w" "map_of (upsert i u' us) k' = Some w'" "us_Username w = us_Username w'" for k w k' w'
  proof -
    obtain v v' where "map_of us k = Some v" "us_Username v = us_Username w" "map_of us k' = Some v'" "us_Username v' = us_Username w'"
      using old [OF k(1)] old [OF k(2)] by blast
    then show ?thesis using ok k(3) by auto
  qed
  ultimately show ?thesis unfolding users_ok_def by blast
qed

lemma sessions_ok_users: "sessions_ok us ss \<Longrightarrow> sessions_ok (upsert i u us) ss"
  by (simp add: sessions_ok_def map_of_upsert)

lemma wf_user:
  assumes "store_wf s" "map_of (st_users s) i = Some u" "us_ID u' = us_ID u" "us_Username u' = us_Username u"
  shows "store_wf (s\<lparr>st_users := upsert i u' (st_users s)\<rparr>)"
  using assms users_ok_edit sessions_ok_users by (simp add: store_wf_def)

lemma wf_delete: "store_wf s \<Longrightarrow> store_wf (s\<lparr>st_sessions := delete_where gone (st_sessions s)\<rparr>)"
  by (simp add: store_wf_def sessions_ok_def map_of_delete_where)

lemma wf_session: "store_wf s \<Longrightarrow> ss_Token se = t \<Longrightarrow> map_of (st_users s) (ss_UserID se) \<noteq> None \<Longrightarrow> store_wf (s\<lparr>st_sessions := upsert t se (st_sessions s)\<rparr>)"
  by (simp add: store_wf_def sessions_ok_def map_of_upsert)

lemma wf_profile: "store_wf s \<Longrightarrow> pf_UserID p = k \<Longrightarrow> store_wf (s\<lparr>st_profiles := upsert k p (st_profiles s)\<rparr>)"
  by (simp add: store_wf_def profiles_ok_def map_of_upsert)

lemma wf_resetLogin: "store_wf s \<Longrightarrow> map_of (st_users s) i = Some u \<Longrightarrow> store_wf (resetLogin c i u pw gone s)"
proof -
  assume w: "store_wf s" and u: "map_of (st_users s) i = Some u"
  have "store_wf (s\<lparr>st_users := upsert i (u\<lparr>us_PasswordHash := ce_bcrypt c pw\<rparr>) (st_users s)\<rparr>)" by (rule wf_user [OF w u]) simp_all
  from wf_delete [OF this, of gone] show ?thesis by (simp add: resetLogin_def)
qed

lemma wf_rewrap: "store_wf s \<Longrightarrow> rewrapBlob e c uid f s = (r, s') \<Longrightarrow> store_wf s' \<and> st_users s' = st_users s"
  by (auto elim!: rewrapBlob_E)

lemma Register_E:
  assumes "Register e c n p d s = (r, s')"
  obtains er where "r = Inl er" "s' = s"
  | u role where "r = Inr u" "us_ID u = ce_userID c" "us_Username u = n" "us_PasswordHash u = ce_bcrypt c p" "length n \<ge> 2"
      "\<not> list_ex (\<lambda>(_, u). us_Username u = n) (ranged c (st_users s))" "verifyPassword e (ce_bcrypt c p) p"
      "s' = s\<lparr>st_users := upsert (ce_userID c) u (st_users s), st_profiles := upsert (ce_userID c) ((DefaultProfile (ce_now c) (ce_userID c) d)\<lparr>pf_Role := role\<rparr>) (st_profiles s)\<rparr>"
  using assms unfolding Register_def by (auto simp: Let_def split: if_splits option.splits)

lemma wf_Register: "fair_order c \<Longrightarrow> store_wf s \<Longrightarrow> Register e c n p d s = (r, s') \<Longrightarrow> store_wf s'"
proof -
  assume f: "fair_order c" and w: "store_wf s" and r: "Register e c n p d s = (r, s')"
  from r show ?thesis
  proof (cases rule: Register_E)
    case (2 u role)
    have n: "us_Username v \<noteq> n" if "map_of (st_users s) k = Some v" for k v using ranged_mem [OF f that] 2(6) by (auto simp: list_ex_iff)
    have "users_ok (upsert (ce_userID c) u (st_users s))"
      using w n 2(2,3) unfolding store_wf_def users_ok_def map_of_upsert by (metis option.inject)
    then have "store_wf (s\<lparr>st_users := upsert (ce_userID c) u (st_users s)\<rparr>)" using w sessions_ok_users by (simp add: store_wf_def)
    from wf_profile [OF this, of "(DefaultProfile (ce_now c) (ce_userID c) d)\<lparr>pf_Role := role\<rparr>"] show ?thesis by (simp add: 2(8) DefaultProfile_def)
  qed (use w in simp)
qed

lemma Login_E:
  assumes "Login e c n p s = (r, s')"
  obtains "r = Inl ErrInvalidLogin" "s' = s"
  | i u where "map_of (st_users s) i = Some u" "us_Username u = n" "verifyPassword e (us_PasswordHash u) p" "r = Inr (u\<lparr>us_LastLogin := ce_now c\<rparr>)"
      "s' = s\<lparr>st_users := upsert i (u\<lparr>us_LastLogin := ce_now c\<rparr>) (st_users s)\<rparr>"
proof (cases "find (\<lambda>(_, u). us_Username u = n) (ranged c (st_users s))")
  case (Some x)
  obtain i u where x: "x = (i, u)" by (cases x)
  have "map_of (st_users s) i = Some u" "us_Username u = n" using find_ranged [OF Some [unfolded x]] by auto
  moreover have "Login e c n p s = (if \<not> verifyPassword e (us_PasswordHash u) p then (Inl ErrInvalidLogin, s)
      else (Inr (u\<lparr>us_LastLogin := ce_now c\<rparr>), s\<lparr>st_users := upsert i (u\<lparr>us_LastLogin := ce_now c\<rparr>) (st_users s)\<rparr>))"
    unfolding Login_def Some x Let_def by (simp add: verifyPassword_def)
  ultimately show ?thesis using assms that by (metis prod.inject)
next
  case None
  then have "Login e c n p s = (Inl ErrInvalidLogin, s)" unfolding Login_def by simp
  then show ?thesis using assms that(1) by (metis prod.inject)
qed

lemma CreateSession_E:
  assumes "CreateSession e c u dev s = (se, s')"
  obtains t where "s' = s\<lparr>st_sessions := upsert t se (st_sessions s)\<rparr>" "ss_UserID se = us_ID u" "ss_Token se = t \<or> (\<exists>se0. map_of (st_sessions s) t = Some se0 \<and> ss_Token se = ss_Token se0)"
proof (cases "if dev \<noteq> [] then find (\<lambda>(_, se). ss_UserID se = us_ID u \<and> ss_DeviceID se = dev \<and> ss_ExpiresAt se > ce_now c) (ranged c (st_sessions s)) else None")
  case None
  then have "s' = s\<lparr>st_sessions := upsert (generateToken e c (us_ID u)) se (st_sessions s)\<rparr>" "ss_UserID se = us_ID u" "ss_Token se = generateToken e c (us_ID u)"
    using assms unfolding CreateSession_def None Let_def by auto
  then show ?thesis using that by blast
next
  case (Some x)
  obtain t se0 where x: "x = (t, se0)" by (cases x)
  have "map_of (st_sessions s) t = Some se0" "ss_UserID se0 = us_ID u" using Some x by (auto dest!: find_ranged split: if_splits)
  moreover have "s' = s\<lparr>st_sessions := upsert t se (st_sessions s)\<rparr>" "ss_UserID se = ss_UserID se0" "ss_Token se = ss_Token se0"
    using assms unfolding CreateSession_def Some x Let_def by auto
  ultimately show ?thesis using that by auto
qed

lemma wf_CreateSession: "store_wf s \<Longrightarrow> map_of (st_users s) k = Some u \<Longrightarrow> CreateSession e c u dev s = (se, s') \<Longrightarrow> store_wf s'"
proof -
  assume w: "store_wf s" and u: "map_of (st_users s) k = Some u" and c: "CreateSession e c u dev s = (se, s')"
  from c obtain t where t: "s' = s\<lparr>st_sessions := upsert t se (st_sessions s)\<rparr>" "ss_UserID se = us_ID u"
    "ss_Token se = t \<or> (\<exists>se0. map_of (st_sessions s) t = Some se0 \<and> ss_Token se = ss_Token se0)" by (rule CreateSession_E)
  have "ss_Token se = t" using t(3) store_wfD(3) [OF w] by auto
  then show ?thesis unfolding t(1) by (rule wf_session [OF w]) (use t(2) u store_wfD(1) [OF w u] in auto)
qed

lemma ChangePassword_E:
  assumes "ChangePassword e c uid old p s = (r, s')"
  obtains er where "r = Inl er" "s' = s"
  | u where "r = Inr ()" "map_of (st_users s) uid = Some u" "us_PasswordHash u = [] \<or> verifyPassword e (us_PasswordHash u) old" "passwordLength p = None"
      "s' = resetLogin c uid u p (ownedBy uid s) s"
  using assms by (auto simp: ChangePassword_def resetLogin_def split: option.splits if_splits)

lemma Recover_E:
  assumes "RecoverAccountWithPhrase e c n ph p s = (r, s')"
  obtains er where "r = Inl er" "s' = s"
  | i u s1 where "r = Inr ()" "passwordLength p = None" "n \<noteq> []" "map_of (st_users s) i = Some u" "us_Username u = n" "ResetPasswordWithPhrase e c (us_ID u) ph p s = (Inr (), s1)"
      "s' = resetLogin c i u p (ownedBy (us_ID u) s1) s1"
proof (cases "passwordLength p")
  case None
  show ?thesis
  proof (cases "if n = [] then None else find (\<lambda>(_, u). us_Username u = n) (ranged c (st_users s))")
    case N: None
    then show ?thesis using assms that(1) None by (auto simp: RecoverAccountWithPhrase_def)
  next
    case (Some x)
    obtain i u where x: "x = (i, u)" by (cases x)
    have u: "map_of (st_users s) i = Some u" "us_Username u = n" "n \<noteq> []" using Some x by (auto dest!: find_ranged split: if_splits)
    have b: "bindS (ResetPasswordWithPhrase e c (us_ID u) ph p) (\<lambda>_ s1. (Inr (), resetLogin c i u p (ownedBy (us_ID u) s1) s1)) s = (r, s')"
      using assms unfolding RecoverAccountWithPhrase_def None Some x by simp
    from b show ?thesis
    proof (cases rule: bindS_E)
      case (stop er)
      then have "s' = s" by (auto simp: ResetPasswordWithPhrase_def split: if_splits elim!: rewrapBlob_E)
      then show ?thesis using that(1) stop(2) by blast
    next
      case (go y s1)
      then have "r = Inr ()" "s' = resetLogin c i u p (ownedBy (us_ID u) s1) s1" by simp_all
      then show ?thesis using that(2) [OF _ None u(3,1,2)] go(1) by (simp add: unit_eq)
    qed
  qed
qed (use assms that(1) in \<open>auto simp: RecoverAccountWithPhrase_def\<close>)

lemma ResetWithPhrase_store: "ResetPasswordWithPhrase e c uid ph p s = (r, s') \<Longrightarrow> \<exists>m. s' = s\<lparr>st_masterKeys := m\<rparr>"
  by (auto simp: ResetPasswordWithPhrase_def split: if_splits elim!: rewrapBlob_E intro: exI [of _ "st_masterKeys s"])

lemma ResetActive_E:
  assumes "ResetPasswordWithSessionKey e c uid keep js p s = (r, s')"
  obtains m er where "r = Inl er" "s' = s\<lparr>st_masterKeys := m\<rparr>"
  | m u where "r = Inr ()" "passwordLength p = None" "map_of (st_users s) uid = Some u" "s' = resetLogin c uid u p (\<lambda>t. ownedBy uid s t \<and> t \<noteq> keep) (s\<lparr>st_masterKeys := m\<rparr>)"
proof -
  let ?f = "\<lambda>_ s1. case map_of (st_users s1) uid of None \<Rightarrow> (Inl ErrUserNotFound, s1)
    | Some u \<Rightarrow> (Inr (), resetLogin c uid u p (\<lambda>t. ownedBy uid s1 t \<and> t \<noteq> keep) s1)"
  consider er where "r = Inl er" "s' = s" | "passwordLength p = None" "bindS (rewrapBlob e c uid (\<lambda>env. RewrapPasswordFromClientSlot (ae_mk e) env js)) ?f s = (r, s')"
    using assms unfolding ResetPasswordWithSessionKey_def by (auto split: option.splits if_splits)
  then show ?thesis
  proof cases
    case 1
    then show ?thesis using that(1) [of er "st_masterKeys s"] by simp
  next
    case 2
    have k: "\<exists>m. s1 = s\<lparr>st_masterKeys := m\<rparr>" if "rewrapBlob e c uid f s = (x, s1)" for f x s1
      using that by (auto elim!: rewrapBlob_E intro: exI [of _ "st_masterKeys s"])
    from 2(2) show ?thesis
    proof (cases rule: bindS_E)
      case (stop er)
      then show ?thesis using that(1) k by blast
    next
      case (go y s1)
      obtain m where m: "s1 = s\<lparr>st_masterKeys := m\<rparr>" using k [OF go(1)] by blast
      have o: "ownedBy uid s1 = ownedBy uid s" using m by (simp add: ownedBy_def fun_eq_iff)
      show ?thesis
      proof (cases "map_of (st_users s) uid")
        case None
        then show ?thesis using go(2) m that(1) [of ErrUserNotFound m] by simp
      next
        case (Some u)
        then have "r = Inr ()" "s' = resetLogin c uid u p (\<lambda>t. ownedBy uid s t \<and> t \<noteq> keep) (s\<lparr>st_masterKeys := m\<rparr>)" using go(2) m o by simp_all
        then show ?thesis using that(2) [OF _ 2(1) Some] by blast
      qed
    qed
  qed
qed

lemma Rewrap_store: "RewrapMasterKeyOnPasswordChange e c uid old p s = (r, s') \<Longrightarrow> \<exists>m. s' = s\<lparr>st_masterKeys := m\<rparr>"
  by (auto simp: RewrapMasterKeyOnPasswordChange_def split: if_splits elim!: rewrapBlob_E intro: exI [of _ "st_masterKeys s"])

lemma Provision_store: "ProvisionMasterKey e c uid p s = (r, s') \<Longrightarrow> \<exists>m. s' = s\<lparr>st_masterKeys := m\<rparr>"
  by (auto simp: ProvisionMasterKey_def SaveMasterKeyBlob_def retS_def split: if_splits sum.splits elim!: bindS_E intro: exI [of _ "st_masterKeys s"])

subsection \<open>The invariant is kept\<close>

text \<open>The order in which a call ranges over a map must visit every key.\<close>

interpretation wf: store_kept e c "\<lambda>s. fair_order c \<longrightarrow> store_wf s" True for e c
proof (unfold_locales, goal_cases)
  case (1 s n p d r s')
  then show ?case using wf_Register by blast
next
  case (2 s n p r s')
  from 2(2) show ?case by (cases rule: Login_E) (use 2(1) wf_user in auto)
next
  case (3 s u dev se s')
  then show ?case using wf_CreateSession by blast
next
  case (4 s u old p r s')
  from 4(2) show ?case by (cases rule: ChangePassword_E) (use 4(1) wf_resetLogin in auto)
next
  case (5 s u old p r s')
  then show ?case using Rewrap_store [OF 5(2)] by auto
next
  case (6 s n ph p r s')
  from 6(2) show ?case
  proof (cases rule: Recover_E)
    case (2 i u s1)
    obtain m where m: "s1 = s\<lparr>st_masterKeys := m\<rparr>" using ResetWithPhrase_store [OF 2(6)] by blast
    then show ?thesis using 2(4,7) 6(1) wf_resetLogin [of s1 i u] by simp
  qed (use 6(1) in simp)
next
  case (7 s u keep js p r s')
  from 7(2) show ?case
  proof (cases rule: ResetActive_E)
    case (2 m v)
    then show ?thesis using 7(1) wf_resetLogin [of "s\<lparr>st_masterKeys := m\<rparr>" u v] by simp
  qed (use 7(1) in simp)
next
  case (8 s p res s')
  then show ?case using Provision_store [OF 8(3)] by auto
next
  case (9 s t)
  then show ?case using wf_delete by (simp add: RevokeSession_def)
next
  case (10 s u)
  then show ?case using wf_delete by (simp add: RevokeAllSessions_def)
next
  case (11 s u t)
  then show ?case using wf_delete by (simp add: RevokeOtherSessions_def Let_def)
next
  case (12 s u q q')
  then show ?case using wf_profile [of s q' u] store_wfD(5) by (auto simp: putProfile_def GetProfile_def)
next
  case (13 s u q)
  then show ?case using wf_profile [of s "q\<lparr>pf_UpdatedAt := ce_now c\<rparr>" "pf_UserID q"] by (auto simp: SetProfile_def)
next
  case (14 s u r s')
  then show ?case by (auto simp: DeleteProfile_def store_wf_def profiles_ok_def map_of_delete_where split: option.splits if_splits)
next
  case (15 s u role r s')
  show ?case
  proof (cases "map_of (st_profiles s) u")
    case (Some p)
    have s': "s' = s\<lparr>st_profiles := upsert u (p\<lparr>pf_Role := role, pf_UpdatedAt := ce_now c\<rparr>) (st_profiles s)\<rparr>" using 15(3) Some by (simp add: SetRole_def)
    show ?thesis
    proof
      assume "fair_order c"
      then have w: "store_wf s" using 15(2) by simp
      show "store_wf s'" unfolding s' by (rule wf_profile [OF w]) (simp add: store_wfD(5) [OF w Some])
    qed
  qed (use 15(2,3) in \<open>simp add: SetRole_def\<close>)
qed

subsection \<open>Roles, names and phrases\<close>

definition roleOf :: "AuthStore \<Rightarrow> string \<Rightarrow> string option" where
  "roleOf s userID = map_option pf_Role (GetProfile userID s)"

text \<open>Requests that are not those of an administrator, on a box that has users, change no role.\<close>

definition roles_as :: "AuthStore \<Rightarrow> AuthStore \<Rightarrow> bool" where
  "roles_as s0 s \<longleftrightarrow> profiles_ok (st_profiles s) \<and> (\<forall>u. roleOf s u = roleOf s0 u)"

lemma roles_as_edit:
  assumes "roles_as s0 s" "map_of (st_profiles s) u = Some q" "pf_UserID q' = pf_UserID q" "pf_Role q' = pf_Role q"
  shows "roles_as s0 (s\<lparr>st_profiles := upsert u q' (st_profiles s)\<rparr>)"
proof -
  have "profiles_ok (upsert u q' (st_profiles s))" using assms by (auto simp: roles_as_def profiles_ok_def map_of_upsert)
  moreover have "roleOf (s\<lparr>st_profiles := upsert u q' (st_profiles s)\<rparr>) v = roleOf s v" for v using assms(2,4) by (simp add: roleOf_def GetProfile_def map_of_upsert)
  ultimately show ?thesis using assms(1) by (simp add: roles_as_def)
qed

lemma store_profiles:
  "Login e c n p s = (ru, s') \<Longrightarrow> st_profiles s' = st_profiles s"
  "CreateSession e c v dev s = (se, s') \<Longrightarrow> st_profiles s' = st_profiles s"
  "ChangePassword e c u old p s = (r, s') \<Longrightarrow> st_profiles s' = st_profiles s"
  "RewrapMasterKeyOnPasswordChange e c u old p s = (r, s') \<Longrightarrow> st_profiles s' = st_profiles s"
  "RecoverAccountWithPhrase e c n ph p s = (r, s') \<Longrightarrow> st_profiles s' = st_profiles s"
  "ResetPasswordWithSessionKey e c u keep js p s = (r, s') \<Longrightarrow> st_profiles s' = st_profiles s"
proof -
  show "Login e c n p s = (ru, s') \<Longrightarrow> st_profiles s' = st_profiles s" by (erule Login_E) simp_all
  show "CreateSession e c v dev s = (se, s') \<Longrightarrow> st_profiles s' = st_profiles s" by (erule CreateSession_E) simp
  show "ChangePassword e c u old p s = (r, s') \<Longrightarrow> st_profiles s' = st_profiles s" by (erule ChangePassword_E) (simp_all add: resetLogin_def)
  show "RewrapMasterKeyOnPasswordChange e c u old p s = (r, s') \<Longrightarrow> st_profiles s' = st_profiles s" by (drule Rewrap_store) auto
  show "RecoverAccountWithPhrase e c n ph p s = (r, s') \<Longrightarrow> st_profiles s' = st_profiles s" by (erule Recover_E) (auto simp: resetLogin_def dest: ResetWithPhrase_store)
  show "ResetPasswordWithSessionKey e c u keep js p s = (r, s') \<Longrightarrow> st_profiles s' = st_profiles s" by (erule ResetActive_E) (simp_all add: resetLogin_def)
qed

interpretation roles: store_kept e c "roles_as s0" False for e c s0
proof (unfold_locales, goal_cases)
  case (12 s u q q')
  then show ?case using roles_as_edit by (simp add: putProfile_def GetProfile_def)
next
  case (13 s u q)
  then have "pf_UserID q = u" by (auto simp: roles_as_def profiles_ok_def GetProfile_def)
  then show ?case using 13 roles_as_edit [of s0 s u q "q\<lparr>pf_UpdatedAt := ce_now c\<rparr>"] by (simp add: SetProfile_def GetProfile_def)
qed (auto simp: roles_as_def roleOf_def GetProfile_def RevokeSession_def RevokeAllSessions_def RevokeOtherSessions_def Let_def dest!: store_profiles)

text \<open>An account keeps its identifier and its name.\<close>

definition named :: "string \<Rightarrow> string \<Rightarrow> AuthStore \<Rightarrow> bool" where
  "named userID n s \<longleftrightarrow> map_option us_Username (map_of (st_users s) userID) = Some n"

lemmas named_edit = named_def map_of_upsert resetLogin_def

interpretation name: store_kept e c "\<lambda>s. ce_userID c \<noteq> i \<longrightarrow> named i n s" True for e c i n
proof (unfold_locales, goal_cases)
  case (1 s m p d r s')
  from 1(3) show ?case by (cases rule: Register_E) (use 1(2) in \<open>auto simp: named_edit\<close>)
next
  case (2 s m p r s')
  from 2(2) show ?case by (cases rule: Login_E) (use 2(1) in \<open>auto simp: named_edit\<close>)
next
  case (3 s u dev se s')
  from 3(3) show ?case by (rule CreateSession_E) (use 3(1) in \<open>simp add: named_def\<close>)
next
  case (4 s u old p r s')
  from 4(2) show ?case by (cases rule: ChangePassword_E) (use 4(1) in \<open>auto simp: named_edit\<close>)
next
  case (5 s u old p r s')
  then show ?case using Rewrap_store [OF 5(2)] by (auto simp: named_def)
next
  case (6 s m ph p r s')
  from 6(2) show ?case
  proof (cases rule: Recover_E)
    case (2 k u s1)
    then show ?thesis using 6(1) ResetWithPhrase_store [OF 2(6)] by (auto simp: named_edit)
  qed (use 6(1) in simp)
next
  case (7 s u keep js p r s')
  from 7(2) show ?case by (cases rule: ResetActive_E) (use 7(1) in \<open>auto simp: named_edit\<close>)
next
  case (8 s p res s')
  then show ?case using Provision_store [OF 8(3)] by (auto simp: named_def)
qed (auto simp: RevokeSession_def RevokeAllSessions_def RevokeOtherSessions_def Let_def putProfile_def SetProfile_def DeleteProfile_def SetRole_def named_def split: option.splits)

text \<open>And its recovery phrase keeps opening the same key.\<close>

lemma store_keys:
  "Register e c n p d s = (ru, s') \<Longrightarrow> st_masterKeys s' = st_masterKeys s"
  "Login e c n p s = (ru, s') \<Longrightarrow> st_masterKeys s' = st_masterKeys s"
  "CreateSession e c v dev s = (se, s') \<Longrightarrow> st_masterKeys s' = st_masterKeys s"
  "ChangePassword e c u old p s = (r, s') \<Longrightarrow> st_masterKeys s' = st_masterKeys s"
proof -
  show "Register e c n p d s = (ru, s') \<Longrightarrow> st_masterKeys s' = st_masterKeys s" by (erule Register_E) simp_all
  show "Login e c n p s = (ru, s') \<Longrightarrow> st_masterKeys s' = st_masterKeys s" by (erule Login_E) simp_all
  show "CreateSession e c v dev s = (se, s') \<Longrightarrow> st_masterKeys s' = st_masterKeys s" by (erule CreateSession_E) simp
  show "ChangePassword e c u old p s = (r, s') \<Longrightarrow> st_masterKeys s' = st_masterKeys s" by (erule ChangePassword_E) (simp_all add: resetLogin_def)
qed

interpretation phrase: store_kept e c "\<lambda>s. crypto_ok (ae_mk e) \<and> ce_userID c \<noteq> i \<longrightarrow> phraseOpens e i phrase mk s" True for e c i phrase mk
proof (unfold_locales, goal_cases)
  case (5 s u old p r s')
  then show ?case using phraseOpens_RewrapMasterKeyOnPasswordChange by blast
next
  case (6 s n ph p r s')
  then show ?case using phraseOpens_RecoverAccountWithPhrase by blast
next
  case (7 s u keep js p r s')
  then show ?case using phraseOpens_ResetPasswordWithSessionKey by blast
next
  case (8 s p res s')
  then show ?case using phraseOpens_ProvisionMasterKey by blast
qed (auto simp: phraseOpens_def RevokeSession_def RevokeAllSessions_def RevokeOtherSessions_def Let_def putProfile_def SetProfile_def DeleteProfile_def SetRole_def
  dest!: store_keys split: option.splits)

end
