(* ===== verification/Auth_Pin_Run.thy ===== *)
theory Auth_Pin_Run
  imports Auth_Pin Codec
begin

text \<open>
  What the PIN guarantees: a bound on the PINs anybody can try, and that exactly the PIN that
  was set opens the session.
\<close>

subsection \<open>A working disk\<close>

definition pin_works :: "pin_env \<Rightarrow> bool" where
  "pin_works e \<longleftrightarrow> (\<forall>n. pn_io e n) \<and> (\<forall>st. pn_unstate e (pn_state e st) = Some st)"

text \<open>The lock state a device is in.\<close>

definition lockState :: "pin_env \<Rightarrow> pin_disk \<Rightarrow> pinState option" where
  "lockState e d = (case pd_state d of None \<Rightarrow> Some emptyState | Some data \<Rightarrow> pn_unstate e data)"

text \<open>Everything but the counter of I/O calls and the lock state.\<close>

definition same_pin :: "pin_disk \<Rightarrow> pin_disk \<Rightarrow> bool" where
  "same_pin d d' \<longleftrightarrow> pd_bin d' = pd_bin d \<and> pd_salt d' = pd_salt d \<and> pd_sessions d' = pd_sessions d"

definition only_ios :: "pin_disk \<Rightarrow> pin_disk \<Rightarrow> bool" where
  "only_ios d d' \<longleftrightarrow> same_pin d d' \<and> pd_state d' = pd_state d"

interpretation pf: comp_frame only_ios
  by unfold_locales (auto simp: only_ios_def same_pin_def)

named_theorems pin_reads \<open>operations that change no file\<close>

declare pf.refl [simp] pf.within_bind [pin_reads] pf.within_ret [pin_reads]

lemma pinIO_reads [pin_reads]: "pf.within (pinIO e)"
  by (simp add: pf.within_def pinIO_def only_ios_def same_pin_def)

lemma pinRead_reads [pin_reads]: "pf.within (pinRead e f)"
  unfolding pinRead_def by (intro pf.within_bind pinIO_reads) (simp add: pf.within_def)

lemma tpmUnwrap_reads [pin_reads]: "pf.within (tpmUnwrap e env)"
  by (auto simp: pf.within_def tpmUnwrap_def only_ios_def same_pin_def split: option.splits)

lemma tryDecrypt_reads [pin_reads]: "pf.within (tryDecrypt e pin)"
  unfolding tryDecrypt_def lookupSessionToken_def
  by (auto intro!: pin_reads split: option.splits sum.splits)

lemma readState_works:
  assumes "pin_works e" "lockState e d = Some st"
  shows "\<exists>d'. readState e d = (Inr st, d') \<and> only_ios d d'"
  using assms by (auto simp: readState_def pinRead_def bindS_def pinIO_def pin_works_def lockState_def only_ios_def same_pin_def retS_def failS_def split: option.splits)

lemma writeState_works:
  assumes "pin_works e" "writeState e st d = (r, d')"
  shows "r = Inr ()" "lockState e d' = Some st" "same_pin d d'"
  using assms by (auto simp: writeState_def pinWrite_def bindS_def pinIO_def pin_works_def lockState_def same_pin_def)

subsection \<open>The lock\<close>

definition lock_wf :: "pinState \<Rightarrow> bool" where
  "lock_wf st \<longleftrightarrow> 0 \<le> ps_Attempts st \<and> ps_Attempts st < pinMaxAttempts \<and> 0 \<le> ps_LockoutCount st \<and> ps_LockoutCount st \<le> pinMaxLockouts
     \<and> (ps_PermanentLock st \<longleftrightarrow> ps_LockoutCount st = pinMaxLockouts)"

text \<open>
  The PINs that can still be tried. At the very instant a lock ends the code neither refuses
  a call nor clears the expired lock, so the wrong PINs of that instant are forgotten by the
  clearing that follows: up to four for each lock.
\<close>

definition triesLeft :: "pinState \<Rightarrow> int" where
  "triesLeft st = (if ps_PermanentLock st then 0 else let left = pinMaxLockouts - ps_LockoutCount st in
     (if ps_LockedUntil st = None then 5 * left - ps_Attempts st else 5 * left + 4 - ps_Attempts st) + 4 * (left - 1))"

text \<open>The same without those instants.\<close>

definition strictLeft :: "pinState \<Rightarrow> int" where
  "strictLeft st = (if ps_PermanentLock st then 0 else 5 * (pinMaxLockouts - ps_LockoutCount st) - (if ps_LockedUntil st = None then ps_Attempts st else 0))"

lemmas pin_consts = pinMaxAttempts_def pinMaxLockouts_def

lemma wrongPIN_counts:
  assumes "lock_wf st" "lockRefusal now st = None"
  shows "lock_wf (snd (wrongPIN now (expireLock now st)))" "triesLeft (snd (wrongPIN now (expireLock now st))) + 1 \<le> triesLeft st"
    "ps_LockedUntil st \<noteq> Some now \<Longrightarrow> strictLeft (snd (wrongPIN now (expireLock now st))) + 1 \<le> strictLeft st"
  using assms by (auto simp: wrongPIN_def expireLock_def lockRefusal_def lock_wf_def triesLeft_def strictLeft_def pin_consts Let_def split: option.splits if_splits)

lemma tries_nonneg: "lock_wf st \<Longrightarrow> 0 \<le> triesLeft st" "lock_wf st \<Longrightarrow> 0 \<le> strictLeft st"
  by (auto simp: lock_wf_def triesLeft_def strictLeft_def pin_consts Let_def)

text \<open>A PIN is tried: one is set and no lock refuses the call; and the call hits the end of a lock.\<close>

definition pinTried :: "pin_env \<Rightarrow> int \<Rightarrow> pin_disk \<Rightarrow> bool" where
  "pinTried e now d \<longleftrightarrow> pd_bin d \<noteq> None \<and> (\<exists>st. lockState e d = Some st \<and> lockRefusal now st = None)"

definition lockEnds :: "pin_env \<Rightarrow> int \<Rightarrow> pin_disk \<Rightarrow> bool" where
  "lockEnds e now d \<longleftrightarrow> (\<exists>st. lockState e d = Some st \<and> ps_LockedUntil st = Some now)"

record pin_event =
  pe_tried :: bool
  pe_edge :: bool
  pe_result :: "pin_error + string"

definition pinStep :: "pin_env \<Rightarrow> int \<times> string \<Rightarrow> pin_disk \<Rightarrow> pin_event \<times> pin_disk" where
  "pinStep e c d = (case ValidateDevicePIN e (fst c) (snd c) d of
     (r, d') \<Rightarrow> (\<lparr>pe_tried = pinTried e (fst c) d, pe_edge = lockEnds e (fst c) d, pe_result = r\<rparr>, d'))"

lemma lockState_frame: "only_ios d d' \<Longrightarrow> lockState e d' = lockState e d"
  by (simp add: only_ios_def lockState_def)

text \<open>A right PIN clears the attempts and an expired lock, but not the number of locks there were.\<close>

lemma rightPIN_counts:
  assumes "lock_wf st" "lockRefusal now st = None"
  defines "st' \<equiv> (expireLock now st)\<lparr>ps_Attempts := 0, ps_LockedUntil := None\<rparr>"
  shows "lock_wf st'" "triesLeft st' \<le> triesLeft st + 4" "strictLeft st' \<le> strictLeft st + 4"
  using assms(1,2) unfolding st'_def
  by (auto simp: expireLock_def lockRefusal_def lock_wf_def triesLeft_def strictLeft_def pin_consts Let_def split: option.splits if_splits)

definition wrongTry :: "pin_event \<Rightarrow> bool" where
  "wrongTry ev \<longleftrightarrow> pe_tried ev \<and> isl (pe_result ev)"

definition rightTry :: "pin_event \<Rightarrow> bool" where
  "rightTry ev \<longleftrightarrow> \<not> isl (pe_result ev)"

lemma pinStep_counts:
  assumes "pin_works e" "lockState e d = Some st" "lock_wf st" "pinStep e c d = (ev, d')" "pe_result ev \<noteq> Inl PINPanic"
  shows "\<exists>st'. lockState e d' = Some st' \<and> lock_wf st' \<and> triesLeft st' + of_bool (wrongTry ev) \<le> triesLeft st + 4 * of_bool (rightTry ev)
    \<and> (\<not> pe_edge ev \<longrightarrow> strictLeft st' + of_bool (wrongTry ev) \<le> strictLeft st + 4 * of_bool (rightTry ev))"
proof -
  define now pin where "now = fst c" and "pin = snd c"
  obtain res where v: "ValidateDevicePIN e now pin d = (res, d')" and ev: "ev = \<lparr>pe_tried = pinTried e now d, pe_edge = lockEnds e now d, pe_result = res\<rparr>"
    using assms(4) by (auto simp: pinStep_def now_def pin_def split: prod.splits)
  have np: "res \<noteq> Inl PINPanic" using assms(5) ev by simp
  define d1 where "d1 = d\<lparr>pd_ios := pd_ios d + 1\<rparr>"
  have o1: "only_ios d d1" by (simp add: d1_def only_ios_def same_pin_def)
  obtain d2 where r: "readState e d1 = (Inr st, d2)" "only_ios d1 d2" using readState_works [OF assms(1)] assms(2) lockState_frame [OF o1] by metis
  note o2 = pf.trans [OF o1 r(2)]
  have h: "hasPIN e d = (pd_bin d \<noteq> None, d1)" using assms(1) by (simp add: hasPIN_def pin_works_def d1_def)
  show ?thesis
  proof (cases "pinTried e now d")
    case False
    then have "only_ios d d'" "isl res" using assms(2) v h r(1) o1 o2 by (auto simp: ValidateDevicePIN_def pinTried_def split: option.splits bool.splits)
    then show ?thesis using assms(2,3) False lockState_frame ev by (auto simp: wrongTry_def)
  next
    case True
    then have t: "pd_bin d \<noteq> None" "lockRefusal now st = None" using assms(2) by (auto simp: pinTried_def)
    obtain r3 d3 where k: "tryDecrypt e pin d2 = (r3, d3)" by fastforce
    show ?thesis
    proof (cases r3)
      case (Inl er)
      let ?st = "snd (wrongPIN now (expireLock now st))"
      have "er \<noteq> PINPanic" using v h r(1) t k Inl np by (auto simp: ValidateDevicePIN_def Let_def)
      then have w: "d' = snd (writeState e ?st d3)" "isl res" using v h r(1) t k Inl by (auto simp: ValidateDevicePIN_def Let_def)
      then have "writeState e ?st d3 = (fst (writeState e ?st d3), d')" by simp
      note w' = writeState_works [OF assms(1) this]
      show ?thesis using w' w(2) wrongPIN_counts [OF assms(3) t(2)] ev assms(2) by (auto simp: lockEnds_def wrongTry_def rightTry_def)
    next
      case (Inr token)
      let ?st = "(expireLock now st)\<lparr>ps_Attempts := 0, ps_LockedUntil := None\<rparr>"
      have w: "d' = snd (writeState e ?st d3)" "\<not> isl res" using v h r(1) t k Inr by (auto simp: ValidateDevicePIN_def Let_def)
      then have "writeState e ?st d3 = (fst (writeState e ?st d3), d')" by simp
      note w' = writeState_works [OF assms(1) this]
      show ?thesis using w' w(2) rightPIN_counts [OF assms(3) t(2)] ev by (auto simp: wrongTry_def rightTry_def)
    qed
  qed
qed

lemma pin_runs_count:
  assumes "pin_works e" "runs (pinStep e) cs d = (es, d')" "\<forall>ev \<in> set es. pe_result ev \<noteq> Inl PINPanic" "lockState e d = Some st" "lock_wf st"
  shows "\<exists>st'. lock_wf st' \<and> triesLeft st' + int (length (filter wrongTry es)) \<le> triesLeft st + 4 * int (length (filter rightTry es))
      \<and> ((\<forall>ev \<in> set es. \<not> pe_edge ev) \<longrightarrow> strictLeft st' + int (length (filter wrongTry es)) \<le> strictLeft st + 4 * int (length (filter rightTry es)))"
  using assms(2-5)
proof (induction cs arbitrary: d es st)
  case (Cons c cs)
  obtain ev d1 where st: "pinStep e c d = (ev, d1)" by fastforce
  then obtain es1 where es: "runs (pinStep e) cs d1 = (es1, d')" "es = ev # es1" using Cons.prems(1) by (auto split: prod.splits)
  have np: "pe_result ev \<noteq> Inl PINPanic" "\<forall>ev \<in> set es1. pe_result ev \<noteq> Inl PINPanic" using Cons.prems(2) es(2) by auto
  obtain st1 where s1: "lockState e d1 = Some st1" "lock_wf st1" "triesLeft st1 + of_bool (wrongTry ev) \<le> triesLeft st + 4 * of_bool (rightTry ev)"
    "\<not> pe_edge ev \<longrightarrow> strictLeft st1 + of_bool (wrongTry ev) \<le> strictLeft st + 4 * of_bool (rightTry ev)"
    using pinStep_counts [OF assms(1) Cons.prems(3,4) st np(1)] by blast
  obtain st2 where s2: "lock_wf st2" "triesLeft st2 + int (length (filter wrongTry es1)) \<le> triesLeft st1 + 4 * int (length (filter rightTry es1))"
    "(\<forall>ev \<in> set es1. \<not> pe_edge ev) \<longrightarrow> strictLeft st2 + int (length (filter wrongTry es1)) \<le> strictLeft st1 + 4 * int (length (filter rightTry es1))"
    using Cons.IH [OF es(1) np(2) s1(1,2)] by blast
  show ?case using s1(3,4) s2 es(2) by (intro exI [of _ st2]) (auto simp: of_bool_def split: if_splits)
qed auto

text \<open>
  Claim C17. Take a device whose disk works, from the moment a PIN was set or its lock reset,
  and let PINs be typed at any times, right and wrong ones in any order. The wrong PINs the
  code tries are at most 15, plus four for every right PIN typed in between (a right PIN
  clears the attempts counted towards the next lock, not the number of locks so far): five, a lock of 15
  minutes, five more, another lock, five more, and the PIN is locked for good. If calls may
  also fall on the very nanosecond at which a lock ends, 23 instead of 15. Calls in which
  the service panics (a damaged PIN file) are left out.
\<close>

theorem pin_guesses_bounded:
  assumes "pin_works e" "lockState e d = Some st" "ps_Attempts st = 0" "ps_LockoutCount st = 0" "\<not> ps_PermanentLock st" "ps_LockedUntil st = None"
    and "runs (pinStep e) cs d = (es, d')" "\<forall>ev \<in> set es. pe_result ev \<noteq> Inl PINPanic"
  shows "length (filter wrongTry es) \<le> 23 + 4 * length (filter rightTry es)
    \<and> ((\<forall>ev \<in> set es. \<not> pe_edge ev) \<longrightarrow> length (filter wrongTry es) \<le> 15 + 4 * length (filter rightTry es))"
proof -
  have w: "lock_wf st" "triesLeft st = 23" "strictLeft st = 15" using assms(3-6) by (simp_all add: lock_wf_def triesLeft_def strictLeft_def pin_consts)
  obtain st' where "lock_wf st'" "triesLeft st' + int (length (filter wrongTry es)) \<le> triesLeft st + 4 * int (length (filter rightTry es))"
    "(\<forall>ev \<in> set es. \<not> pe_edge ev) \<longrightarrow> strictLeft st' + int (length (filter wrongTry es)) \<le> strictLeft st + 4 * int (length (filter rightTry es))"
    using pin_runs_count [OF assms(1,7,8,2) w(1)] by blast
  then show ?thesis using w(2,3) tries_nonneg [of st'] by auto
qed

text \<open>A device that stores its lock state, with one PIN set; every other PIN fails to decrypt.\<close>

definition packState :: "pinState \<Rightarrow> bytes" where
  "packState st = packNats ([int_encode (ps_Attempts st), int_encode (ps_LockoutCount st), of_bool (ps_PermanentLock st), of_bool (ps_SetByFullAuth st)]
     @ (case ps_LockedUntil st of None \<Rightarrow> [] | Some t \<Rightarrow> [int_encode t]))"

definition unpackState :: "bytes \<Rightarrow> pinState option" where
  "unpackState b = (case unpackNats b of a # l # p # f # ts \<Rightarrow>
     Some \<lparr>ps_Attempts = int_decode a, ps_LockoutCount = int_decode l, ps_LockedUntil = (case ts of [] \<Rightarrow> None | t # _ \<Rightarrow> Some (int_decode t)),
       ps_PermanentLock = (p = 1), ps_SetByFullAuth = (f = 1)\<rparr> | _ \<Rightarrow> None)"

lemma unpackState_pack: "unpackState (packState st) = Some st"
  by (cases st) (auto simp: packState_def unpackState_def split: option.splits)

definition demo_pin :: pin_env where
  "demo_pin = \<lparr>pn_io = (\<lambda>_. True), pn_rand = (\<lambda>i n. replicate n CHR ''r''), pn_argon = (\<lambda>p s t m h n. replicate n CHR ''k''), pn_gcmSeal = (\<lambda>k n p. p), pn_gcmOpen = (\<lambda>k n c. None),
     pn_tpm = False, pn_tpmSeal = (\<lambda>_ _. None), pn_tpmUnseal = (\<lambda>_ _. None), pn_env = (\<lambda>e. []), pn_unenv = (\<lambda>b. Some (newEnvelope [] [] False)),
     pn_gcm = (\<lambda>g. []), pn_ungcm = (\<lambda>b. Some \<lparr>pg_Version = 1, pg_Nonce = replicate 12 CHR ''n'', pg_Ciphertext = []\<rparr>), pn_state = packState, pn_unstate = unpackState,
     pn_map = (\<lambda>_ _. []), pn_unmap = (\<lambda>_. None), pn_minLength = 4\<rparr>"

theorem pin_guesses_bounded_witness:
  "\<exists>ev d'. runs (pinStep demo_pin) [(0, ''0000'')] \<lparr>pd_bin = Some [], pd_salt = None, pd_state = None, pd_sessions = None, pd_ios = 0\<rparr> = ([ev], d')
    \<and> wrongTry ev \<and> pe_result ev = Inl ErrPINWrong \<and> length (filter wrongTry [ev]) \<le> 15 + 4 * length (filter rightTry [ev])"
proof -
  let ?d = "\<lparr>pd_bin = Some [], pd_salt = None, pd_state = None, pd_sessions = None, pd_ios = 0\<rparr>"
  let ?ev = "\<lparr>pe_tried = True, pe_edge = False, pe_result = Inl ErrPINWrong\<rparr>"
  have w: "pin_works demo_pin" by (simp add: pin_works_def demo_pin_def unpackState_pack)
  have l: "lockState demo_pin ?d = Some emptyState" by (simp add: lockState_def)
  have k: "aes_key (replicate 32 c)" for c by (simp add: aes_key_def)
  have v: "fst (ValidateDevicePIN demo_pin 0 ''0000'' ?d) = Inl ErrPINWrong"
    by (simp add: ValidateDevicePIN_def hasPIN_def readState_def pinRead_def pinIO_def bindS_def retS_def failS_def lockRefusal_def expireLock_def tryDecrypt_def
      tpmUnwrap_def argonKey_def newEnvelope_def aesGCMDecrypt_def k wrongPIN_def emptyState_def pin_consts demo_pin_def)
  have t: "pinTried demo_pin 0 ?d" "\<not> lockEnds demo_pin 0 ?d" using l by (simp_all add: pinTried_def lockEnds_def lockRefusal_def emptyState_def)
  obtain d' where r: "runs (pinStep demo_pin) [(0, ''0000'')] ?d = ([?ev], d')"
    using v t by (cases "ValidateDevicePIN demo_pin 0 ''0000'' ?d") (simp add: pinStep_def)
  have "length (filter wrongTry [?ev]) \<le> 15 + 4 * length (filter rightTry [?ev])"
    using pin_guesses_bounded [OF w l _ _ _ _ r] by (simp add: emptyState_def)
  with r show ?thesis by (intro exI [of _ ?ev] exI [of _ d']) (simp add: wrongTry_def)
qed

text \<open>When the counter cannot be written the wrong PIN is forgotten, and the next one is tried as well.\<close>

lemma unwritten_lock_forgotten: "\<not> pn_io e (pd_ios d) \<Longrightarrow> pd_state (snd (writeState e st d)) = pd_state d"
  by (simp add: writeState_def pinWrite_def bindS_def pinIO_def)

end
