(* ===== verification/Auth_Demo.thy ===== *)
theory Auth_Demo
  imports Auth_Http Codec
begin

text \<open>
  A concrete box for the examples of the account theories: invertible encodings for the stored
  records, stand-ins for the cryptography with the properties the theorems ask of it, one
  administrator with a session, and a client on the local network.
\<close>

subsection \<open>Encodings\<close>

definition packSlot :: "wrapSlot \<Rightarrow> nat list" where
  "packSlot s = [packStr (ws_KDF s), int_encode (ws_Iter s), packStr (ws_Salt s), packStr (ws_IV s), packStr (ws_CT s)]"

fun unpackSlot :: "nat list \<Rightarrow> wrapSlot option" where
  "unpackSlot [k, i, s, v, t] = Some \<lparr>ws_KDF = unpackStr k, ws_Iter = int_decode i, ws_Salt = unpackStr s, ws_IV = unpackStr v, ws_CT = unpackStr t\<rparr>"
| "unpackSlot _ = None"

definition packEnvelope :: "MasterKeyEnvelope \<Rightarrow> bytes" where
  "packEnvelope e = packNats (int_encode (mk_Version e) # packSlot (mk_Password e) @ packSlot (mk_Phrase e))"

definition unpackEnvelope :: "bytes \<Rightarrow> MasterKeyEnvelope option" where
  "unpackEnvelope b = (case unpackNats b of [] \<Rightarrow> None
     | v # ns \<Rightarrow> (case (unpackSlot (take 5 ns), unpackSlot (drop 5 ns)) of
          (Some p, Some q) \<Rightarrow> Some \<lparr>mk_Version = int_decode v, mk_Password = p, mk_Phrase = q\<rparr> | _ \<Rightarrow> None))"

lemma unpackEnvelope_pack: "unpackEnvelope (packEnvelope e) = Some e"
  by (simp add: packEnvelope_def unpackEnvelope_def packSlot_def)

definition packToken :: "at10Record \<Rightarrow> bytes" where
  "packToken rec = packNats [packStr (at_Token rec), int_encode (at_IssuedAt rec), int_encode (at_RotatesAt rec)]"

definition unpackToken :: "bytes \<Rightarrow> at10Record option" where
  "unpackToken b = (case unpackNats b of [t, i, r] \<Rightarrow> Some \<lparr>at_Token = unpackStr t, at_IssuedAt = int_decode i, at_RotatesAt = int_decode r\<rparr> | _ \<Rightarrow> None)"

lemma unpackToken_pack: "unpackToken (packToken rec) = Some rec"
  by (simp add: packToken_def unpackToken_def)

subsection \<open>The box\<close>

definition demo_prims :: key_prims where
  "demo_prims = \<lparr>kp_sha256 = (\<lambda>b. take 32 (rev b @ replicate 32 CHR ''0'')), kp_hmac256 = (\<lambda>k d. take 32 (k @ d @ replicate 32 CHR ''0'')),
     kp_hmac512 = (\<lambda>k d. take 64 (k @ d @ replicate 64 CHR ''0'')), kp_hkdf = (\<lambda>k s i. take 32 (i @ k @ replicate 32 CHR ''0'')), kp_ed25519 = (\<lambda>s. (s, s))\<rparr>"

definition demo_mk :: mk_env where
  "demo_mk = \<lparr>mk_prims = demo_prims, mk_gcmSeal = (\<lambda>key iv pt aad. pt @ key), mk_gcmOpen = (\<lambda>key iv ct aad. if drop (length ct - length key) ct = key then Some (take (length ct - length key) ct) else None),
     mk_marshal = packEnvelope, mk_unmarshal = unpackEnvelope, mk_slotJSON = (\<lambda>v s. packNats (packSlot s)), mk_unslot = (\<lambda>b. unpackSlot (unpackNats b))\<rparr>"

lemma unpackEnvelope_Nil: "unpackEnvelope [] = None"
  by (simp add: unpackEnvelope_def unpackNats_def list_decode.simps)

lemma demo_crypto_ok: "crypto_ok demo_mk"
  by (simp add: crypto_ok_def demo_mk_def demo_prims_def unpackEnvelope_pack unpackEnvelope_Nil) (simp add: min_def)

definition demo_auth :: auth_env where
  "demo_auth = \<lparr>ae_secret = ''secret'', ae_hmac = (\<lambda>k d. k @ d), ae_b64 = (\<lambda>b. b), ae_unb64 = Some, ae_bcryptOK = (\<lambda>h p. h = ''$2'' @ p), ae_mk = demo_mk\<rparr>"

definition demo_http :: http_env where
  "demo_http = \<lparr>he_auth = demo_auth, he_isIP = (\<lambda>_. False), he_HOME = ''/root'', he_VULOS_DATA_DIR = [], he_Abs = (\<lambda>p. p), he_VULOS_DOMAIN = [],
     he_vk = None, he_at10 = packToken, he_unat10 = unpackToken, he_pin = None\<rparr>"

definition demo_call :: "int \<Rightarrow> string \<Rightarrow> call_env" where
  "demo_call now userID = \<lparr>ce_now = now, ce_order = (\<lambda>ks. ks), ce_userID = userID, ce_sessionID = ''s'', ce_tokenBytes = ''t'', ce_bcrypt = (\<lambda>p. ''$2'' @ p),
     ce_pinSalt = ''p'', ce_rand = (\<lambda>i n. Some (replicate n CHR ''r'')), ce_io = (\<lambda>_. True)\<rparr>"

definition demo_req :: http_req where
  "demo_req = \<lparr>rq_Method = [], rq_Path = [], rq_Host = ''box'', rq_RemoteAddr = ''10.0.0.9:1'', rq_Header = (\<lambda>_. []), rq_Cookie = (\<lambda>_. None), rq_Query = (\<lambda>_. []), rq_TLS = False\<rparr>"

definition demo_user :: User where
  "demo_user = \<lparr>us_ID = ''u1'', us_Username = ''ada'', us_PasswordHash = ''$2correct horse'', us_Email = [], us_Name = ''Ada'', us_Picture = [],
     us_Providers = [], us_CreatedAt = 0, us_LastLogin = 0, us_Preferences = []\<rparr>"

definition demo_session :: Session where
  "demo_session = \<lparr>ss_ID = ''s1'', ss_UserID = ''u1'', ss_Email = [], ss_Name = ''Ada'', ss_Picture = [], ss_Provider = [], ss_Token = ''tok'',
     ss_ExpiresAt = 90 * Day, ss_CreatedAt = 0, ss_DeviceID = []\<rparr>"

definition demo_store :: AuthStore where
  "demo_store = \<lparr>st_users = [(''u1'', demo_user)], st_sessions = [(''tok'', demo_session)],
     st_profiles = [(''u1'', (DefaultProfile 0 ''u1'' ''Ada'')\<lparr>pf_Role := RoleAdmin\<rparr>)], st_masterKeys = (\<lambda>_. None)\<rparr>"

definition demo_disk :: pin_disk where
  "demo_disk = \<lparr>pd_bin = None, pd_salt = None, pd_state = None, pd_sessions = None, pd_ios = 0\<rparr>"

definition demo_state :: auth_state where
  "demo_state = \<lparr>as_store = demo_store, as_limiter = DefaultRateLimiter, as_pin = demo_disk, as_files = (\<lambda>_. None)\<rparr>"

definition blank_state :: auth_state where
  "blank_state = demo_state\<lparr>as_store := \<lparr>st_users = [], st_sessions = [], st_profiles = [], st_masterKeys = (\<lambda>_. None)\<rparr>\<rparr>"

text \<open>The administrator's browser.\<close>

definition ada_req :: http_req where
  "ada_req = demo_req\<lparr>rq_Cookie := [''vulos_session'' \<mapsto> ''tok'']\<rparr>"

lemmas demo_defs = demo_auth_def demo_http_def demo_call_def demo_req_def demo_user_def demo_session_def demo_store_def demo_disk_def demo_state_def blank_state_def ada_req_def

lemma demo_unbanned [simp]: "IsBanned ip now DefaultRateLimiter = (False, DefaultRateLimiter)"
  by (simp add: IsBanned_def DefaultRateLimiter_def NewRateLimiter_def)

lemma ada_middleware:
  assumes "now \<le> 90 * Day"
  shows "Middleware demo_http (demo_call now u) (requestFor op ada_req) demo_state = (Inr (actAs ''u1'' [] (stripIdentity (requestFor op ada_req))), demo_state)"
  using assms
  by (simp add: Middleware_def sessionMiddleware_def adminAuth_def vkAuth_def sessionAuth_def extractToken_def HasPrefix_def TrimPrefix_def stripIdentity_def HeaderDel_def HeaderSet_def HeaderGet_def
    requestFor_def AT10TokenPrefix_def ValidateToken_def csrfSafe_def actAs_def mutating_def demo_defs Let_def)

end
