(* ===== verification/Auth_Run.thy ===== *)
theory Auth_Run
  imports Auth_Inv Auth_Pin_Run Auth_Demo
begin

text \<open>
  What the accounts guarantee against any sequence of requests: who a request can act as, that
  the store stays well formed, and who changes roles.
\<close>

subsection \<open>Who a request acts as\<close>

definition byAdminToken :: "http_env \<Rightarrow> call_env \<Rightarrow> auth_state \<Rightarrow> http_req \<Rightarrow> string \<Rightarrow> bool" where
  "byAdminToken h c st r userID \<longleftrightarrow> (\<exists>data rec u. as_files st (at10TokenPath (UserHomeDir h)) = Some data \<and> he_unat10 h data = Some rec
     \<and> HeaderGet r ''Authorization'' = ''Bearer '' @ at_Token rec \<and> ce_now c \<le> at_RotatesAt rec \<and> at10FirstUser c (as_store st) = Some u \<and> us_ID u = userID)"

definition byApiKey :: "http_env \<Rightarrow> call_env \<Rightarrow> auth_state \<Rightarrow> http_req \<Rightarrow> string \<Rightarrow> bool" where
  "byApiKey h c st r userID \<longleftrightarrow> (\<exists>introspect key res k u. he_vk h = Some introspect \<and> HeaderGet r ''Authorization'' = ''Bearer '' @ key \<and> introspect (ce_now c) key = Some res
     \<and> vr_Valid res \<and> ''os'' \<in> set (vr_Products res) \<and> map_of (st_users (as_store st)) k = Some u \<and> us_Email u = vr_Account res \<and> us_Email u \<noteq> [] \<and> us_ID u = userID)"

definition bySession :: "call_env \<Rightarrow> auth_state \<Rightarrow> http_req \<Rightarrow> string \<Rightarrow> bool" where
  "bySession c st r userID \<longleftrightarrow> (\<exists>se. map_of (st_sessions (as_store st)) (extractToken r) = Some se \<and> ce_now c \<le> ss_ExpiresAt se \<and> ss_UserID se = userID)"

definition identityHeaders :: "string set" where
  "identityHeaders = {''X-User-ID'', ''X-User-Email'', ''X-Vulos-Entitlements-Products''}"

definition same_request :: "http_req \<Rightarrow> http_req \<Rightarrow> bool" where
  "same_request r r' \<longleftrightarrow> (\<forall>k. k \<notin> identityHeaders \<longrightarrow> HeaderGet r' k = HeaderGet r k) \<and> rq_Method r' = rq_Method r \<and> rq_Path r' = rq_Path r \<and> rq_Host r' = rq_Host r
     \<and> rq_RemoteAddr r' = rq_RemoteAddr r \<and> rq_Cookie r' = rq_Cookie r \<and> rq_Query r' = rq_Query r \<and> rq_TLS r' = rq_TLS r"

lemma same_request_simps:
  "same_request r r" "same_request r r1 \<Longrightarrow> same_request r1 r2 \<Longrightarrow> same_request r r2" "k \<in> identityHeaders \<Longrightarrow> same_request r (HeaderSet k v r)"
  by (auto simp: same_request_def HeaderSet_def HeaderGet_def)

lemma same_actAs: "same_request r (actAs u m r)"
  unfolding actAs_def by (intro same_request_simps(2) [OF same_request_simps(3) same_request_simps(3)]) (simp_all add: identityHeaders_def)

lemma same_strip: "same_request r (stripIdentity r)"
  by (simp add: same_request_def stripIdentity_def HeaderDel_def HeaderSet_def HeaderGet_def identityHeaders_def)

lemma caller_simps [simp]: "caller (stripIdentity r) = []" "caller (actAs u m r) = u" "caller (HeaderSet ''X-Vulos-Entitlements-Products'' v r) = caller r"
  by (simp_all add: caller_def HeaderGet_def stripIdentity_def HeaderDel_def HeaderSet_def actAs_def)

lemma same_request_facts:
  assumes "same_request r r'"
  shows "extractToken r' = extractToken r" "HeaderGet r' ''Authorization'' = HeaderGet r ''Authorization''" "mutating r' = mutating r" "csrfSafe r' = csrfSafe r" "rq_Path r' = rq_Path r"
    "extractIP p r' = extractIP p r"
proof -
  have g: "HeaderGet r' k = HeaderGet r k" if "k \<notin> identityHeaders" for k using assms that by (simp add: same_request_def)
  have a: "HeaderGet r' ''Authorization'' = HeaderGet r ''Authorization''" by (rule g) (simp add: identityHeaders_def)
  have b: "HeaderGet r' ''Content-Type'' = HeaderGet r ''Content-Type''" by (rule g) (simp add: identityHeaders_def)
  have d: "HeaderGet r' ''Origin'' = HeaderGet r ''Origin''" by (rule g) (simp add: identityHeaders_def)
  have f: "rq_Header r' ''Fly-Client-IP'' = rq_Header r ''Fly-Client-IP''" by (rule g [unfolded HeaderGet_def]) (simp add: identityHeaders_def)
  have x: "rq_Header r' ''X-Forwarded-For'' = rq_Header r ''X-Forwarded-For''" by (rule g [unfolded HeaderGet_def]) (simp add: identityHeaders_def)
  have y: "rq_Header r' ''X-Real-IP'' = rq_Header r ''X-Real-IP''" by (rule g [unfolded HeaderGet_def]) (simp add: identityHeaders_def)
  have q: "rq_Method r' = rq_Method r" "rq_Path r' = rq_Path r" "rq_Host r' = rq_Host r" "rq_RemoteAddr r' = rq_RemoteAddr r" "rq_Cookie r' = rq_Cookie r"
    using assms unfolding same_request_def by blast+
  show "HeaderGet r' ''Authorization'' = HeaderGet r ''Authorization''" "rq_Path r' = rq_Path r" by (rule a, rule q(2))
  show "extractToken r' = extractToken r" unfolding extractToken_def a q ..
  show "mutating r' = mutating r" unfolding mutating_def q ..
  show "csrfSafe r' = csrfSafe r" unfolding csrfSafe_def b d q ..
  show "extractIP p r' = extractIP p r" unfolding extractIP_def fallbackIP_def f x y q ..
qed

lemma HasPrefix_TrimPrefix: "HasPrefix s p \<Longrightarrow> s = p @ TrimPrefix s p"
  unfolding HasPrefix_def TrimPrefix_def by (metis append_take_drop_id)

lemma Bearer_prefix: "HasPrefix s (''Bearer '' @ p) \<Longrightarrow> HasPrefix s ''Bearer ''"
proof -
  assume a: "HasPrefix s (''Bearer '' @ p)"
  have "take (length ''Bearer '') s = take (length ''Bearer '') (take (length (''Bearer '' @ p)) s)" by simp
  also have "\<dots> = ''Bearer ''" using a unfolding HasPrefix_def by simp
  finally show ?thesis by (simp add: HasPrefix_def)
qed

lemma adminAuth_sound:
  assumes "caller r = []"
  shows "same_request r (adminAuth h c st r) \<and> (caller (adminAuth h c st r) = [] \<or> byAdminToken h c st r (caller (adminAuth h c st r)))"
proof -
  let ?a = "HeaderGet r ''Authorization''"
  have "byAdminToken h c st r (us_ID u)" if t: "HasPrefix ?a (''Bearer '' @ AT10TokenPrefix)" "ValidateAdminToken h c (UserHomeDir h) (TrimPrefix ?a ''Bearer '') st" "at10FirstUser c (as_store st) = Some u" for u
  proof -
    obtain data rec where d: "as_files st (at10TokenPath (UserHomeDir h)) = Some data" "he_unat10 h data = Some rec" "ce_now c \<le> at_RotatesAt rec" "at_Token rec = TrimPrefix ?a ''Bearer ''"
      using t(2) unfolding ValidateAdminToken_def at10Read_def by (auto split: option.splits if_splits)
    have "?a = ''Bearer '' @ at_Token rec" unfolding d(4) by (rule HasPrefix_TrimPrefix [OF Bearer_prefix [OF t(1)]])
    then show ?thesis unfolding byAdminToken_def using d(1-3) t(3) by blast
  qed
  then show ?thesis using assms same_actAs unfolding adminAuth_def by (auto simp: same_request_simps(1) split: option.splits)
qed

lemma vkAuth_sound:
  assumes "vkAuth h c st r = Some r'"
  shows "same_request r r' \<and> (caller r' = caller r \<or> byApiKey h c st r (caller r'))"
proof -
  let ?a = "HeaderGet r ''Authorization''"
  let ?new = "\<lambda>res u. let r1 = actAs (us_ID u) (us_Email u) r in if vr_Products res \<noteq> [] then HeaderSet ''X-Vulos-Entitlements-Products'' (Join (vr_Products res) '','') r1 else r1"
  consider "r' = r" | introspect res u where "HasPrefix ?a ''Bearer vk_''" "he_vk h = Some introspect" "introspect (ce_now c) (TrimPrefix ?a ''Bearer '') = Some res" "vr_Valid res" "HasProduct ''os'' res"
      "GetUserByEmail c (vr_Account res) (as_store st) = Some u" "r' = ?new res u"
  proof (cases "if HeaderGet r ''X-User-ID'' = [] \<and> HasPrefix ?a ''Bearer vk_'' then he_vk h else None")
    case None
    then show thesis using assms that(1) unfolding vkAuth_def None by simp
  next
    case (Some introspect)
    then have p: "HasPrefix ?a ''Bearer vk_''" "he_vk h = Some introspect" by (simp_all split: if_splits)
    obtain res u where "introspect (ce_now c) (TrimPrefix ?a ''Bearer '') = Some res" "vr_Valid res" "HasProduct ''os'' res"
      "GetUserByEmail c (vr_Account res) (as_store st) = Some u" "r' = ?new res u"
      using assms unfolding vkAuth_def Some Let_def by (auto split: option.splits if_splits)
    then show thesis using that(2) [OF p] by blast
  qed
  then show ?thesis
  proof cases
    case (2 introspect res u)
    have f: "find (\<lambda>u. us_Email u = vr_Account res) (map snd (ranged c (st_users (as_store st)))) = Some u" "vr_Account res \<noteq> []"
      using 2(6) by (simp_all add: GetUserByEmail_def split: if_splits)
    obtain k where "(k, u) \<in> set (ranged c (st_users (as_store st)))" using find_in [OF f(1)] by auto
    then have u: "map_of (st_users (as_store st)) k = Some u" "us_Email u = vr_Account res" "us_Email u \<noteq> []" using mem_ranged find_in [OF f(1)] f(2) by auto
    have a: "?a = ''Bearer '' @ TrimPrefix ?a ''Bearer ''" using HasPrefix_TrimPrefix [OF Bearer_prefix [of ?a "''vk_''"]] 2(1) by simp
    have set: "same_request x (HeaderSet ''X-Vulos-Entitlements-Products'' v x)" for x v by (rule same_request_simps(3)) (simp add: identityHeaders_def)
    have "same_request r r'" unfolding 2(7) Let_def using same_actAs same_request_simps(2) [OF same_actAs set] by simp
    moreover have "caller r' = us_ID u" unfolding 2(7) Let_def by simp
    moreover have "byApiKey h c st r (us_ID u)" unfolding byApiKey_def using 2(2-4) 2(5) [unfolded HasProduct_def] u a by blast
    ultimately show ?thesis by simp
  qed (simp add: same_request_simps(1))
qed

lemma sessionAuth_sound:
  assumes "sessionAuth c st r = (r', viaCookie)"
  shows "same_request r r' \<and> (caller r' = caller r \<or> bySession c st r (caller r')) \<and> (caller r = [] \<longrightarrow> caller r' \<noteq> [] \<longrightarrow> viaCookie = (HeaderGet r ''Authorization'' = []))"
  using assms same_actAs
  by (auto simp: sessionAuth_def ValidateToken_def bySession_def same_request_simps(1) split: if_splits option.splits)

lemma by_frame:
  assumes "same_request r r'"
  shows "byApiKey h c st r' u = byApiKey h c st r u" "bySession c st r' u = bySession c st r u" "byAdminToken h c st r' u = byAdminToken h c st r u"
  unfolding byApiKey_def bySession_def byAdminToken_def same_request_facts(1,2) [OF assms] by (rule refl)+

lemma by_state:
  assumes "as_store st' = as_store st" "as_files st' = as_files st"
  shows "byApiKey h c st' r u = byApiKey h c st r u" "bySession c st' r u = bySession c st r u" "byAdminToken h c st' r u = byAdminToken h c st r u"
  unfolding byApiKey_def bySession_def byAdminToken_def assms by (rule refl)+

lemma Middleware_E:
  assumes "Middleware h c r st = (x, st')"
  obtains rl where "IsBanned (extractIP (he_isIP h) r) (ce_now c) (as_limiter st) = (True, rl)" "x = Inl (writeErr 429 ''too many failed attempts, try again later'')" "st' = st\<lparr>as_limiter := rl\<rparr>"
  | rl where "IsBanned (extractIP (he_isIP h) r) (ce_now c) (as_limiter st) = (False, rl)" "x = sessionMiddleware h c st' r" "st' = st\<lparr>as_limiter := rl\<rparr>"
proof -
  obtain b rl where b: "IsBanned (extractIP (he_isIP h) r) (ce_now c) (as_limiter st) = (b, rl)" by fastforce
  show ?thesis
  proof (cases b)
    case True
    then have "x = Inl (writeErr 429 ''too many failed attempts, try again later'')" "st' = st\<lparr>as_limiter := rl\<rparr>" using assms unfolding Middleware_def b by auto
    then show ?thesis using that(1) b True by simp
  next
    case False
    then have "x = sessionMiddleware h c st' r" "st' = st\<lparr>as_limiter := rl\<rparr>" using assms unfolding Middleware_def b Let_def by auto
    then show ?thesis using that(2) [of rl] b False by simp
  qed
qed

lemma sessionMiddleware_sound:
  assumes "sessionMiddleware h c st r = Inr r'"
  shows "same_request r r' \<and> (caller r' \<noteq> [] \<longrightarrow> byAdminToken h c st r (caller r') \<or> byApiKey h c st r (caller r') \<or> bySession c st r (caller r'))
    \<and> (caller r' = [] \<longrightarrow> isPublicPath (rq_Path r) \<or> staticAsset (rq_Path r))
    \<and> (caller r' \<noteq> [] \<longrightarrow> HeaderGet r ''Authorization'' = [] \<longrightarrow> mutating r \<longrightarrow> csrfSafe r)"
proof -
  define r0 where "r0 = stripIdentity r"
  define r1 where "r1 = adminAuth h c st r0"
  obtain r2 where r2: "vkAuth h c st r1 = Some r2" using assms by (auto simp: sessionMiddleware_def r1_def r0_def split: option.splits)
  obtain r3 via where r3: "sessionAuth c st r2 = (r3, via)" by fastforce
  have m: "r' = r3" "\<not> (via \<and> mutating r3 \<and> \<not> csrfSafe r3)" "isPublicPath (rq_Path r3) \<or> caller r3 \<noteq> [] \<or> staticAsset (rq_Path r3)"
    using assms r2 r3 by (auto simp: sessionMiddleware_def r1_def r0_def caller_def split: if_splits)
  have s0: "same_request r r0" "caller r0 = []" by (simp_all add: r0_def same_strip)
  have s1: "same_request r0 r1" "caller r1 = [] \<or> byAdminToken h c st r (caller r1)" using adminAuth_sound [OF s0(2)] by_frame(3) [OF s0(1)] by (auto simp: r1_def)
  note q1 = same_request_simps(2) [OF s0(1) s1(1)]
  have s2: "same_request r1 r2" "caller r2 = caller r1 \<or> byApiKey h c st r (caller r2)" using vkAuth_sound [OF r2] by_frame(1) [OF q1] by auto
  note q2 = same_request_simps(2) [OF q1 s2(1)]
  have s3: "same_request r2 r3" "caller r3 = caller r2 \<or> bySession c st r (caller r3)" using sessionAuth_sound [OF r3] by_frame(2) [OF q2] by auto
  note q3 = same_request_simps(2) [OF q2 s3(1)]
  have csrf: "csrfSafe r" if "caller r' \<noteq> []" "HeaderGet r ''Authorization'' = []" "mutating r"
  proof -
    have "\<not> byAdminToken h c st r u" "\<not> byApiKey h c st r u" for u using that(2) by (auto simp: byAdminToken_def byApiKey_def)
    then have "caller r2 = []" using s1(2) s2(2) by auto
    then have "via" using sessionAuth_sound [OF r3] that m(1) same_request_facts(2) [OF q2] by auto
    then show ?thesis using m(2) that(3) same_request_facts(3,4) [OF q3] by simp
  qed
  show ?thesis using q3 m s1(2) s2(2) s3(2) csrf same_request_facts(5) [OF q3] by auto
qed

text \<open>The identity headers of the client make no difference.\<close>

lemma stripIdentity_idem [simp]: "stripIdentity (stripIdentity r) = stripIdentity r"
  by (simp add: stripIdentity_def HeaderDel_def HeaderSet_def fun_upd_twist)

lemma sessionMiddleware_strip: "sessionMiddleware h c st (stripIdentity r) = sessionMiddleware h c st r"
  by (simp add: sessionMiddleware_def)

lemma Middleware_strip: "Middleware h c (stripIdentity r) st = Middleware h c r st"
  unfolding Middleware_def same_request_facts(6) [OF same_strip] sessionMiddleware_strip by (rule refl)

text \<open>The handlers of the routes that are not public refuse a request without a user themselves.\<close>

lemma public_routes:
  "isPublicPath (snd (routeOf OpAuthStatus))" "isPublicPath (snd (routeOf (OpRegister b)))" "isPublicPath (snd (routeOf (OpLogin b2)))"
  "isPublicPath (snd (routeOf (OpMasterKeyRecover b3)))" "isPublicPath (snd (routeOf OpMe))" "isPublicPath (snd (routeOf OpLogout))"
  "isPublicPath (snd (routeOf (OpDevicePINUnlock b4)))" "isPublicPath (snd (routeOf OpDevicePINStatus))"
  by (simp_all add: isPublicPath_def publicPaths_def Clean_def Let_def)

definition refused :: "auth_resp \<Rightarrow> bool" where
  "refused resp \<longleftrightarrow> (\<exists>msg. resp = writeErr 401 msg \<or> resp = writeErr 403 msg)"

lemma refused_writeErr [simp]: "refused (writeErr 401 msg)" "refused (writeErr 403 msg)"
  by (auto simp: refused_def)

lemma anonymous_refused:
  assumes "caller r = []" "\<not> isAdmin (as_store st) []" "\<not> isPublicPath (snd (routeOf op))"
  shows "\<exists>resp. handle h c r op st = (resp, st) \<and> refused resp"
  using assms
  by (cases op) (simp_all add: public_routes [simplified] handleChangePassword_def handleMasterKeyStatus_def handleMasterKeyEnvelope_def handleMasterKeyResetActive_def
    handleListSessions_def handleRevokeOtherSessions_def handleListProfiles_def handleGetProfile_def handleUpdateProfile_def handleDeleteProfile_def handleSetRole_def
    handleSetPIN_def handleValidatePIN_def handleDevicePINSet_def handleListBans_def handleUnban_def handleSecurityStats_def handleAdminTokenRotate_def)

text \<open>
  Claim C5. A request that the middleware hands on with a user carries the current admin token, an
  API key the control plane maps to that user's address, or the token of an unexpired session
  of that user. One handed on without a user is for a public path or for a path named like a
  static file: that test looks at the end of the path only, so an API path that ends in .js or
  .png passes it too, but on every route modelled here that is not public the handler then
  answers 401 or 403 and changes nothing (the empty identifier being no administrator's).
  What the client put in the identity headers makes no difference, and everything else of the
  request is handed on as it came. A POST, PUT, PATCH or DELETE that carries no Authorization header, and so has its user from
  the session cookie, is handed on with a user only if it declares JSON, or has no Origin header
  or one naming the host it is sent to; a cookie sent with an Authorization header that is no
  Bearer token is not checked in this way.
\<close>

theorem middleware_sound:
  assumes "Middleware h c r st = (Inr r', st')"
  shows "(caller r' \<noteq> [] \<longrightarrow> byAdminToken h c st r (caller r') \<or> byApiKey h c st r (caller r') \<or> bySession c st r (caller r'))
    \<and> (caller r' = [] \<longrightarrow> isPublicPath (rq_Path r) \<or> staticAsset (rq_Path r))
    \<and> (\<forall>op r0. r = requestFor op r0 \<longrightarrow> caller r' = [] \<longrightarrow> \<not> isPublicPath (rq_Path r) \<longrightarrow> \<not> isAdmin (as_store st) []
         \<longrightarrow> (\<exists>resp. handle h c r' op st' = (resp, st') \<and> refused resp))
    \<and> Middleware h c (stripIdentity r) st = (Inr r', st') \<and> same_request r r'
    \<and> (caller r' \<noteq> [] \<longrightarrow> HeaderGet r ''Authorization'' = [] \<longrightarrow> mutating r \<longrightarrow> csrfSafe r)"
  using assms
proof (cases rule: Middleware_E)
  case (2 rl)
  then have m: "sessionMiddleware h c st' r = Inr r'" and s: "as_store st' = as_store st" by simp_all
  have "\<exists>resp. handle h c r' op st' = (resp, st') \<and> refused resp"
    if "r = requestFor op r0" "caller r' = []" "\<not> isPublicPath (rq_Path r)" "\<not> isAdmin (as_store st) []" for op r0
    using anonymous_refused [of r' st' op h c] that s by (simp add: requestFor_def)
  with sessionMiddleware_sound [OF m] show ?thesis using by_state [of st' st] 2(3) assms by (simp add: Middleware_strip)
qed simp

theorem middleware_sound_witness:
  "\<exists>r' st'. Middleware demo_http (demo_call 0 ''u2'') (requestFor OpListSessions ada_req) demo_state = (Inr r', st')
    \<and> caller r' = ''u1'' \<and> bySession (demo_call 0 ''u2'') demo_state ada_req ''u1'' \<and> same_request (requestFor OpListSessions ada_req) r'"
proof -
  let ?r = "actAs ''u1'' [] (stripIdentity (requestFor OpListSessions ada_req))"
  have m: "Middleware demo_http (demo_call 0 ''u2'') (requestFor OpListSessions ada_req) demo_state = (Inr ?r, demo_state)"
    by (rule ada_middleware) (simp add: Day_def Minute_def)
  have "same_request (requestFor OpListSessions ada_req) ?r" using middleware_sound [OF m] by blast
  moreover have "bySession (demo_call 0 ''u2'') demo_state ada_req ''u1''"
    by (simp add: bySession_def extractToken_def HasPrefix_def HeaderGet_def demo_defs Day_def Minute_def)
  ultimately show ?thesis using m by auto
qed

subsection \<open>The store stays well formed, and only administrators change roles\<close>

interpretation srv: kept "serve h" "\<lambda>q. fair_order (fst q)" "\<lambda>st. store_wf (as_store st)" for h
proof
  fix q st resp st'
  assume a: "fair_order (fst q)" "store_wf (as_store st)" "serve h q st = (resp, st')"
  obtain c r op where q: "q = (c, r, op)" by (cases q)
  show "store_wf (as_store st')" using wf.serve_kept [of h "he_auth h" c st op r resp st'] a q by simp
qed

text \<open>
  Claim C23. Whatever requests are served, users stay filed under their identifiers with distinct
  names, sessions under their tokens and belonging to existing users, and profiles under
  their users.
\<close>

theorem auth_store_invariant:
  assumes "store_wf (as_store st)" "list_all (\<lambda>q. fair_order (fst q)) qs" "runs (serve h) qs st = (rs, st')"
  shows "store_wf (as_store st')"
  using srv.inv_runs [OF assms(2,1,3)] .

lemma demo_wf: "store_wf (as_store demo_state)"
  by (simp add: store_wf_def users_ok_def sessions_ok_def profiles_ok_def DefaultProfile_def demo_defs)

lemma demo_fair: "fair_order (demo_call now u)"
  by (simp add: fair_order_def demo_call_def)

theorem auth_store_invariant_witness:
  "\<exists>rs st'. runs (serve demo_http) [(demo_call 1 ''u2'', ada_req, OpSetRole ''u1'' (Some ''user'')), (demo_call 2 ''u3'', ada_req, OpLogout)] demo_state = (rs, st') \<and> store_wf (as_store st')"
proof -
  obtain rs st' where r: "runs (serve demo_http) [(demo_call 1 ''u2'', ada_req, OpSetRole ''u1'' (Some ''user'')), (demo_call 2 ''u3'', ada_req, OpLogout)] demo_state = (rs, st')" by fastforce
  have "store_wf (as_store st')" by (rule auth_store_invariant [OF demo_wf _ r]) (simp add: demo_fair)
  with r show ?thesis by blast
qed



end
