(* ===== verification/Auth_Race.thy ===== *)
theory Auth_Race
  imports Auth_Run "HOL-Library.Multiset"
begin

text \<open>
  Requests served at the same time. The server handles each request in a goroutine of its own,
  and the handlers of \<open>backend/services/auth/handlers.go\<close> hold no lock from the ban check to
  the counting of the outcome: the limiter and the store lock each call only. Here a request
  goes through its stages one step at a time, each step reads the clock itself, and any steps of other
  requests and of the clean-up goroutine come in between: the ban check of the limiter's
  middleware, the authentication, the ban check of the handler, the attempt itself (the store or
  the PIN service verifies the secret and does what follows from it), and the counting. A route
  that counts nothing is served in one step after the authentication.
\<close>

subsection \<open>Attempts\<close>

text \<open>What an attempt finds: it is counted as a failure, it resets the count, or neither.\<close>

datatype verdict = GuessedWrong | GuessedRight | NotGuessed

type_synonym attempt = "auth_resp \<times> verdict \<times> auth_state"

definition tryRegister :: "http_env \<Rightarrow> call_env \<Rightarrow> http_req \<Rightarrow> (string \<times> string \<times> string) option \<Rightarrow> auth_state \<Rightarrow> attempt" where
  "tryRegister e c r body st =
     (if HasAnyUsers (as_store st) \<and> caller r = [] then (writeErr 401 ''unauthorized'', NotGuessed, st)
      else if HasAnyUsers (as_store st) \<and> \<not> isAdmin (as_store st) (caller r) then (writeErr 403 ''only admins can create users'', NotGuessed, st)
      else case body of None \<Rightarrow> (writeErr 400 ''invalid request'', NotGuessed, st)
      | Some (username, password, displayName) \<Rightarrow>
          (case Register (he_auth e) c username password displayName (as_store st) of
             (Inl er, s1) \<Rightarrow> (\<lparr>rs_Status = 400, rs_Body = BStoreError er, rs_Cookie = None, rs_Hooks = []\<rparr>, GuessedWrong, st\<lparr>as_store := s1\<rparr>)
           | (Inr user, s1) \<Rightarrow>
               let hooks = [OnUserCreated username password (hookRole s1 (us_ID user))] in
               if caller r = [] then (case firstLogin e c r user password hooks (st\<lparr>as_store := s1\<rparr>) of (resp, st1) \<Rightarrow> (resp, NotGuessed, st1))
               else (withHooks hooks (writeJSON (BUser (Safe user))), NotGuessed, st\<lparr>as_store := s1\<rparr>)))"

definition tryLogin :: "http_env \<Rightarrow> call_env \<Rightarrow> http_req \<Rightarrow> (string \<times> string) option \<Rightarrow> auth_state \<Rightarrow> attempt" where
  "tryLogin e c r body st =
     (case body of None \<Rightarrow> (writeErr 400 ''invalid request'', NotGuessed, st)
      | Some (username, password) \<Rightarrow>
          (case Login (he_auth e) c username password (as_store st) of
             (Inl er, s1) \<Rightarrow> (\<lparr>rs_Status = 401, rs_Body = BStoreError er, rs_Cookie = None, rs_Hooks = []\<rparr>, GuessedWrong, st\<lparr>as_store := s1\<rparr>)
           | (Inr user, s1) \<Rightarrow>
               (case CreateSession (he_auth e) c user [] s1 of (se, s2) \<Rightarrow>
                  (withHooks [OnUserLogin username password (hookRole s1 (us_ID user)), OnSignIn (us_ID user) (extractIP (he_isIP e) r) (HeaderGet r ''User-Agent'')]
                     (withCookie e r (ss_Token se) (writeJSON (BLogin (Safe user) se))),
                   GuessedRight, st\<lparr>as_store := s2\<rparr>))))"

definition tryRecover :: "http_env \<Rightarrow> call_env \<Rightarrow> http_req \<Rightarrow> (string \<times> string \<times> string) option \<Rightarrow> auth_state \<Rightarrow> attempt" where
  "tryRecover e c r body st =
     (case body of None \<Rightarrow> (writeErr 400 ''invalid request'', NotGuessed, st)
      | Some (username, mnemonic, newPassword) \<Rightarrow>
          if username = [] \<or> mnemonic = [] \<or> newPassword = [] then (writeErr 422 ''username, mnemonic and new_password are required'', NotGuessed, st)
          else case RecoverAccountWithPhrase (he_auth e) c username mnemonic newPassword (as_store st) of
            (Inl _, s1) \<Rightarrow> (writeErr 400 ''recovery failed: check your recovery phrase and try again'', GuessedWrong, st\<lparr>as_store := s1\<rparr>)
          | (Inr _, s1) \<Rightarrow>
              (withHooks (case GetUserByUsername c username s1 of Some u \<Rightarrow> [sensitive e r (us_ID u) ''recovery_used''] | None \<Rightarrow> [])
                 (writeJSON (BStatus ''account recovered; sign in with your new password'')), GuessedRight, st\<lparr>as_store := s1\<rparr>))"

definition tryPIN :: "http_env \<Rightarrow> http_req \<Rightarrow> string option \<Rightarrow> auth_state \<Rightarrow> attempt" where
  "tryPIN e r body st =
     (case body of None \<Rightarrow> (writeErr 400 ''invalid request'', NotGuessed, st)
      | Some pin \<Rightarrow>
          let valid = ValidatePIN (he_auth e) (caller r) pin (as_store st)
          in (writeJSON (BPin valid (HasPIN (caller r) (as_store st))), if valid then GuessedRight else GuessedWrong, st))"

definition tryDevicePIN :: "http_env \<Rightarrow> call_env \<Rightarrow> http_req \<Rightarrow> string option \<Rightarrow> auth_state \<Rightarrow> attempt" where
  "tryDevicePIN e c r body st =
     (case he_pin e of None \<Rightarrow> (writeErr 503 ''device PIN service not configured'', NotGuessed, st)
      | Some pe \<Rightarrow> (case body of None \<Rightarrow> (writeErr 400 ''invalid request'', NotGuessed, st)
         | Some pin \<Rightarrow>
             (case ValidateDevicePIN pe (ce_now c) pin (as_pin st) of
                (Inl er, d) \<Rightarrow>
                  if er = PINPanic then (\<lparr>rs_Status = 0, rs_Body = BPinError er, rs_Cookie = None, rs_Hooks = []\<rparr>, NotGuessed, st\<lparr>as_pin := d\<rparr>)
                  else (case LockStatus pe (ce_now c) d of (ls, d1) \<Rightarrow>
                    (\<lparr>rs_Status = (if er = ErrPINPermanentLocked then 403 else if er = ErrPINLocked then 423 else 401), rs_Body = BLockout er ls, rs_Cookie = None, rs_Hooks = []\<rparr>,
                     GuessedWrong, st\<lparr>as_pin := d1\<rparr>))
              | (Inr token, d) \<Rightarrow>
                  (case ValidateToken (ce_now c) token (as_store st) of
                     None \<Rightarrow> (writeErr 401 ''PIN session expired - please sign in with your password'', NotGuessed, st\<lparr>as_pin := d\<rparr>)
                   | Some se \<Rightarrow> (withCookie e r (ss_Token se) (writeJSON BOk), GuessedRight, st\<lparr>as_pin := d\<rparr>)))))"

text \<open>No other route gets as far as an attempt.\<close>

fun attempt :: "http_env \<Rightarrow> call_env \<Rightarrow> http_req \<Rightarrow> auth_op \<Rightarrow> auth_state \<Rightarrow> attempt" where
  "attempt e c r (OpRegister b) st = tryRegister e c r b st"
| "attempt e c r (OpLogin b) st = tryLogin e c r b st"
| "attempt e c r (OpMasterKeyRecover b) st = tryRecover e c r b st"
| "attempt e c r (OpValidatePIN b) st = tryPIN e r b st"
| "attempt e c r (OpDevicePINUnlock b) st = tryDevicePIN e c r b st"
| "attempt e c r op st = (writeErr 404 ''not found'', NotGuessed, st)"

text \<open>The routes that ask the limiter, and what the PIN check asks before it.\<close>

definition guarded :: "auth_op \<Rightarrow> bool" where
  "guarded op \<longleftrightarrow> (case op of OpRegister _ \<Rightarrow> True | OpLogin _ \<Rightarrow> True | OpMasterKeyRecover _ \<Rightarrow> True | OpValidatePIN _ \<Rightarrow> True | OpDevicePINUnlock _ \<Rightarrow> True | _ \<Rightarrow> False)"

definition mayEnter :: "http_req \<Rightarrow> auth_op \<Rightarrow> bool" where
  "mayEnter r op \<longleftrightarrow> (case op of OpValidatePIN _ \<Rightarrow> caller r \<noteq> [] | _ \<Rightarrow> True)"

definition settle :: "http_env \<Rightarrow> call_env \<Rightarrow> http_req \<Rightarrow> verdict \<Rightarrow> auth_state \<Rightarrow> auth_state" where
  "settle e c r v st = (case v of GuessedWrong \<Rightarrow> countFailure e c r st | GuessedRight \<Rightarrow> countSuccess e r st | NotGuessed \<Rightarrow> st)"

text \<open>With nothing in between, the stages of a handler are the handler.\<close>

lemma settle_simps [simp]:
  "settle e c r GuessedWrong st = countFailure e c r st" "settle e c r GuessedRight st = countSuccess e r st" "settle e c r NotGuessed st = st"
  by (simp_all add: settle_def)

lemma unlessBanned_cong: "(\<And>st. k st = k' st) \<Longrightarrow> unlessBanned e c r k st = unlessBanned e c r k' st"
  by (simp add: unlessBanned_def split: prod.splits bool.splits)

lemma handle_in_stages:
  assumes "guarded op"
  shows "handle e c r op st = (if \<not> mayEnter r op then (writeErr 401 ''not authenticated'', st)
    else unlessBanned e c r (\<lambda>st. case attempt e c r op st of (resp, v, st1) \<Rightarrow> (resp, settle e c r v st1)) st)"
proof (cases op)
  case (OpRegister b)
  show ?thesis unfolding OpRegister handle.simps handleRegister_def
    by (auto simp: mayEnter_def tryRegister_def Let_def intro!: unlessBanned_cong split: option.splits sum.splits prod.splits)
next
  case (OpLogin b)
  show ?thesis unfolding OpLogin handle.simps handleLocalLogin_def
    by (auto simp: mayEnter_def tryLogin_def intro!: unlessBanned_cong split: option.splits sum.splits prod.splits)
next
  case (OpMasterKeyRecover b)
  show ?thesis unfolding OpMasterKeyRecover handle.simps handleMasterKeyRecover_def
    by (auto simp: mayEnter_def tryRecover_def intro!: unlessBanned_cong split: option.splits sum.splits prod.splits)
next
  case (OpValidatePIN b)
  show ?thesis unfolding OpValidatePIN handle.simps handleValidatePIN_def
    by (auto simp: mayEnter_def tryPIN_def Let_def intro!: unlessBanned_cong split: option.splits)
next
  case (OpDevicePINUnlock b)
  show ?thesis unfolding OpDevicePINUnlock handle.simps handleDevicePINUnlock_def
    by (auto simp: mayEnter_def tryDevicePIN_def intro!: unlessBanned_cong split: option.splits sum.splits prod.splits)
qed (use assms in \<open>simp_all add: guarded_def\<close>)

subsection \<open>The stages of a request\<close>

datatype flight = Admitted http_req auth_op | Identified http_req auth_op | Entered http_req auth_op | Tried http_req auth_op auth_resp verdict

fun flightReq :: "flight \<Rightarrow> http_req" where
  "flightReq (Admitted r op) = r"
| "flightReq (Identified r op) = r"
| "flightReq (Entered r op) = r"
| "flightReq (Tried r op resp v) = r"

definition flightIP :: "http_env \<Rightarrow> flight \<Rightarrow> string" where
  "flightIP h f = extractIP (he_isIP h) (flightReq f)"

text \<open>What a step shows: nothing, an attempt and what it found, a counting, or a lifted ban.\<close>

datatype race_what = Quiet | Guessed verdict | Counted verdict | Unbanned string

definition whatHappens :: "AuthStore \<Rightarrow> http_req \<Rightarrow> auth_op \<Rightarrow> race_what" where
  "whatHappens s r op = (case op of OpUnban (Some a) \<Rightarrow> if isAdmin s (caller r) then Unbanned a else Quiet | _ \<Rightarrow> Quiet)"

text \<open>The next stage of a request, or none when it is answered; the answer; and the new state.\<close>

fun advance :: "http_env \<Rightarrow> call_env \<Rightarrow> flight \<Rightarrow> auth_state \<Rightarrow> flight option \<times> race_what \<times> auth_resp option \<times> auth_state" where
  "advance h c (Admitted r op) st =
     (case sessionMiddleware h c st (requestFor op r) of
        Inl resp \<Rightarrow> (None, Quiet, Some resp, st) | Inr r1 \<Rightarrow> (Some (Identified r1 op), Quiet, None, st))"
| "advance h c (Identified r op) st =
     (if guarded op then
        if \<not> mayEnter r op then (None, Quiet, Some (writeErr 401 ''not authenticated''), st)
        else (case IsBanned (extractIP (he_isIP h) r) (ce_now c) (as_limiter st) of
          (True, rl) \<Rightarrow> (None, Quiet, Some (writeErr 429 ''too many attempts''), st\<lparr>as_limiter := rl\<rparr>)
        | (False, rl) \<Rightarrow> (Some (Entered r op), Quiet, None, st\<lparr>as_limiter := rl\<rparr>))
      else (case handle h c r op st of (resp, st1) \<Rightarrow> (None, whatHappens (as_store st) r op, Some resp, st1)))"
| "advance h c (Entered r op) st = (case attempt h c r op st of (resp, v, st1) \<Rightarrow> (Some (Tried r op resp v), Guessed v, None, st1))"
| "advance h c (Tried r op resp v) st = (None, Counted v, Some resp, settle h c r v st)"

record race_state =
  rc_auth :: auth_state
  rc_flights :: "flight multiset"

datatype race_action = Arrive http_req auth_op | Advance flight | Sweep

record race_event =
  re_ip :: string
  re_what :: race_what
  re_answer :: "auth_resp option"
  re_inFlight :: "string \<Rightarrow> nat"

definition inFlight :: "http_env \<Rightarrow> string \<Rightarrow> flight multiset \<Rightarrow> nat" where
  "inFlight h ip fs = size (filter_mset (\<lambda>f. flightIP h f = ip) fs)"

definition raceEvent :: "http_env \<Rightarrow> string \<Rightarrow> race_what \<Rightarrow> auth_resp option \<Rightarrow> race_state \<Rightarrow> race_event" where
  "raceEvent h ip what ans s = \<lparr>re_ip = ip, re_what = what, re_answer = ans, re_inFlight = (\<lambda>ip. inFlight h ip (rc_flights s))\<rparr>"

definition optFlight :: "flight option \<Rightarrow> flight multiset" where
  "optFlight x = (case x of None \<Rightarrow> {#} | Some f \<Rightarrow> {#f#})"

text \<open>One step of the server. \<open>Arrive\<close> is the limiter's middleware; to advance a request that is not there does nothing.\<close>

definition raceStep :: "http_env \<Rightarrow> call_env \<times> race_action \<Rightarrow> race_state \<Rightarrow> race_event \<times> race_state" where
  "raceStep h q s = (case q of (c, act) \<Rightarrow> let st = rc_auth s in
     (case act of
        Sweep \<Rightarrow> let s1 = s\<lparr>rc_auth := st\<lparr>as_limiter := cleanup (ce_now c) (as_limiter st)\<rparr>\<rparr> in (raceEvent h [] Quiet None s1, s1)
      | Arrive r op \<Rightarrow> let ip = extractIP (he_isIP h) r in
          (case IsBanned ip (ce_now c) (as_limiter st) of
             (True, rl) \<Rightarrow> let s1 = s\<lparr>rc_auth := st\<lparr>as_limiter := rl\<rparr>\<rparr> in
               (raceEvent h ip Quiet (Some (writeErr 429 ''too many failed attempts, try again later'')) s1, s1)
           | (False, rl) \<Rightarrow> let s1 = s\<lparr>rc_auth := st\<lparr>as_limiter := rl\<rparr>, rc_flights := add_mset (Admitted r op) (rc_flights s)\<rparr> in
               (raceEvent h ip Quiet None s1, s1))
      | Advance f \<Rightarrow>
          if f \<notin># rc_flights s then (raceEvent h [] Quiet None s, s)
          else (case advance h c f st of (next, what, ans, st1) \<Rightarrow>
            let s1 = s\<lparr>rc_auth := st1, rc_flights := rc_flights s - {#f#} + optFlight next\<rparr> in (raceEvent h (flightIP h f) what ans s1, s1))))"

definition actionTime :: "call_env \<times> race_action \<Rightarrow> int" where
  "actionTime q = ce_now (fst q)"

text \<open>A request whose stages follow each other at one time, with nothing in between, is served as \<open>serve\<close> says.\<close>

definition stages :: "http_env \<Rightarrow> call_env \<Rightarrow> http_req \<Rightarrow> auth_op \<Rightarrow> auth_state \<Rightarrow> auth_resp \<times> auth_state" where
  "stages h c r op st =
     (case IsBanned (extractIP (he_isIP h) r) (ce_now c) (as_limiter st) of
        (True, rl) \<Rightarrow> (writeErr 429 ''too many failed attempts, try again later'', st\<lparr>as_limiter := rl\<rparr>)
      | (False, rl) \<Rightarrow>
          (case advance h c (Admitted r op) (st\<lparr>as_limiter := rl\<rparr>) of
             (None, _, ans, st1) \<Rightarrow> (the ans, st1)
           | (Some f1, _, _, st1) \<Rightarrow>
               (case advance h c f1 st1 of
                  (None, _, ans, st2) \<Rightarrow> (the ans, st2)
                | (Some f2, _, _, st2) \<Rightarrow>
                    (case advance h c f2 st2 of
                       (None, _, ans, st3) \<Rightarrow> (the ans, st3)
                     | (Some f3, _, _, st3) \<Rightarrow> (case advance h c f3 st3 of (_, _, ans, st4) \<Rightarrow> (the ans, st4))))))"

lemma extractIP_requestFor [simp]: "extractIP f (requestFor op r) = extractIP f r"
  by (simp add: extractIP_def fallbackIP_def requestFor_def Let_def split: option.splits)

lemma stages_serve: "stages h c r op st = serve h (c, r, op) st"
proof (cases "IsBanned (extractIP (he_isIP h) r) (ce_now c) (as_limiter st)")
  case (Pair b rl)
  let ?st = "st\<lparr>as_limiter := rl\<rparr>"
  show ?thesis
  proof (cases b)
    case True
    then show ?thesis using Pair by (simp add: stages_def serve_def Middleware_def)
  next
    case False
    show ?thesis
    proof (cases "sessionMiddleware h c ?st (requestFor op r)")
      case (Inl resp)
      then show ?thesis using Pair False by (simp add: stages_def serve_def Middleware_def Let_def)
    next
      case (Inr r1)
      have s: "serve h (c, r, op) st = handle h c r1 op ?st" using False Pair Inr by (simp add: serve_def Middleware_def Let_def)
      show ?thesis unfolding s using False Pair Inr handle_in_stages [of op h c r1 ?st]
        by (auto simp: stages_def unlessBanned_def split: prod.splits bool.splits)
    qed
  qed
qed

end
