(* ===== verification/Auth_Throttle.thy ===== *)
theory Auth_Throttle
  imports Auth_Limit
begin

text \<open>
  The limiter (\<open>backend/services/auth/ratelimit.go\<close>) under requests in flight.
  A request that tries a secret asks \<open>IsBanned\<close>, tries it, and counts the outcome, and the limiter's
  mutex is free in between. Seen from one address, the limiter stands beside two numbers: the
  requests that have passed the check and not tried yet, and those that have tried a wrong
  secret and not counted it yet. A step leaves the address in peace (others are counted or
  banned, old entries go, a request ends without a guess), lets one of its requests in, or has one
  try a wrong secret or count it.
\<close>

definition longBan :: "int \<Rightarrow> string \<Rightarrow> RateLimiter \<Rightarrow> bool" where
  "longBan a ip rl \<longleftrightarrow> (\<exists>u. rl_bans rl ip = Some u \<and> a + rl_window rl \<le> u)"

definition steady :: "string \<Rightarrow> int \<Rightarrow> RateLimiter \<Rightarrow> RateLimiter \<Rightarrow> bool" where
  "steady ip now rl rl' \<longleftrightarrow> limited ip now 0 rl rl' \<and> (\<forall>a. a \<le> now \<longrightarrow> now \<le> a + rl_window rl \<longrightarrow> longBan a ip rl' = longBan a ip rl)"

inductive guard_step :: "string \<Rightarrow> int \<Rightarrow> bool \<Rightarrow> RateLimiter \<times> nat \<times> nat \<Rightarrow> RateLimiter \<times> nat \<times> nat \<Rightarrow> bool" for ip now where
  quiet: "steady ip now rl rl' \<Longrightarrow> en' \<le> en \<Longrightarrow> guard_step ip now False (rl, en, ow) (rl', en', ow)"
| enter: "IsBanned ip now rl = (False, rl') \<Longrightarrow> guard_step ip now False (rl, en, ow) (rl', Suc en, ow)"
| miss: "guard_step ip now True (rl, Suc en, ow) (rl, en, Suc ow)"
| count: "rl' = RecordFailureIP ip now rl \<Longrightarrow> guard_step ip now False (rl, en, Suc ow) (rl', en, ow)"

lemma steady_refl: "steady ip now rl rl"
  by (simp add: steady_def limited_refl)

lemma steady_IsBanned: "steady ip now rl (snd (IsBanned ip' now rl))"
  using limited_IsBanned by (auto simp: steady_def longBan_def IsBanned_def split: option.splits)

lemma steady_cleanup: "steady ip now rl (cleanup now rl)"
  using limited_cleanup by (auto simp: steady_def longBan_def cleanup_def split: option.splits)

lemma steady_other:
  assumes "ip' \<noteq> ip"
  shows "steady ip now rl (RecordFailureIP ip' now rl)" "steady ip now rl (RecordSuccessIP ip' rl)" "steady ip now rl (Unban ip' rl)"
  using assms limited_other [OF assms] limited_failure [of rl ip 0 ip' now]
  by (auto simp: steady_def longBan_def RecordFailureIP_def RecordSuccessIP_def Unban_def Let_def split: option.splits)

text \<open>What a counted failure does in the interval: it costs one, or it bans the address to the end and beyond.\<close>

lemma failure_costs:
  assumes "limiter_wf now rl" "a \<le> now" "now \<le> a + rl_window rl"
  shows "longBan a ip rl \<Longrightarrow> longBan a ip (RecordFailureIP ip now rl)"
    and "\<not> longBan a ip rl \<Longrightarrow> 1 \<le> allowance a ip rl"
    and "\<not> longBan a ip rl \<Longrightarrow> \<not> longBan a ip (RecordFailureIP ip now rl) \<Longrightarrow> allowance a ip (RecordFailureIP ip now rl) + 1 \<le> allowance a ip rl"
proof -
  have w: "2 \<le> rl_maxAttempts rl" "rl_window rl \<le> rl_banDuration rl" using assms(1) by (simp_all add: limiter_wf_def)
  show "longBan a ip rl \<Longrightarrow> longBan a ip (RecordFailureIP ip now rl)"
    using w assms(2) by (auto simp: longBan_def RecordFailureIP_def Let_def split: option.splits)
  show "\<not> longBan a ip rl \<Longrightarrow> 1 \<le> allowance a ip rl"
    using w limiter_wfD [OF assms(1), of ip] by (cases "rl_attempts rl ip") (force simp: longBan_def allowance_def)+
  show "\<not> longBan a ip rl \<Longrightarrow> \<not> longBan a ip (RecordFailureIP ip now rl) \<Longrightarrow> allowance a ip (RecordFailureIP ip now rl) + 1 \<le> allowance a ip rl"
  proof (cases "rl_attempts rl ip")
    case (Some rec)
    show "\<not> longBan a ip rl \<Longrightarrow> \<not> longBan a ip (RecordFailureIP ip now rl) \<Longrightarrow> allowance a ip (RecordFailureIP ip now rl) + 1 \<le> allowance a ip rl"
      using Some w assms(2,3) limiter_wfD [OF assms(1) Some] by (auto simp: longBan_def allowance_def RecordFailureIP_def Let_def split: if_splits)
  qed (use assms(2,3) in \<open>auto simp: longBan_def allowance_def RecordFailureIP_def\<close>)
qed

text \<open>
  The wrong guesses still to come when at most \<open>k\<close> requests of the address are in flight: under a ban to the
  end, those that have passed the check; otherwise the allowance and one in-flight request fewer
  than \<open>k\<close>, less what is tried and not counted.
\<close>

fun budget :: "nat \<Rightarrow> int \<Rightarrow> string \<Rightarrow> RateLimiter \<times> nat \<times> nat \<Rightarrow> int" where
  "budget k a ip (rl, en, ow) = (if longBan a ip rl then int en else allowance a ip rl + int k - 1 - int ow)"

lemma guard_step_budget:
  assumes "guard_step ip now g (rl, en, ow) (rl', en', ow')" "limiter_wf now rl" "a \<le> now" "now \<le> a + rl_window rl" "en + ow \<le> k"
  shows "limiter_wf now rl' \<and> same_limits rl rl' \<and> budget k a ip (rl', en', ow') + of_bool g \<le> budget k a ip (rl, en, ow)"
  using assms(1)
proof cases
  case quiet
  then have "limited ip now 0 rl rl'" "longBan a ip rl' = longBan a ip rl" using assms(3,4) by (simp_all add: steady_def)
  then show ?thesis using quiet assms(2-4) by (auto simp: limited_def)
next
  case enter
  have l: "limited ip now 0 rl rl'" using limited_IsBanned [of ip now rl ip] enter by simp
  have "\<not> longBan a ip rl" "\<not> longBan a ip rl'" using enter assms(4) by (auto simp: longBan_def IsBanned_def split: option.splits if_splits)
  then show ?thesis using l enter assms(2-4) by (auto simp: limited_def)
next
  case miss
  then show ?thesis using assms(2) by (auto simp: same_limits_def)
next
  case count
  note f = failure_costs [OF assms(2-4), of ip]
  have "same_limits rl rl'" using count by (auto simp: same_limits_def RecordFailureIP_def Let_def split: option.splits)
  moreover have "budget k a ip (rl', en', ow') + of_bool g \<le> budget k a ip (rl, en, ow)"
    using f count assms(5) by (cases "longBan a ip rl"; cases "longBan a ip rl'") auto
  ultimately show ?thesis using RecordFailureIP_wf [OF assms(2)] count by simp
qed

lemma guard_step_wf:
  assumes "guard_step ip now g (rl, en, ow) (rl', en', ow')" "limiter_wf now rl"
  shows "limiter_wf now rl' \<and> same_limits rl rl'"
  using assms(1)
proof cases
  case quiet
  then show ?thesis using assms(2) by (simp add: steady_def limited_def)
next
  case enter
  then show ?thesis using limited_IsBanned [of ip now rl ip] assms(2) by (simp add: limited_def)
next
  case miss
  then show ?thesis using assms(2) by (simp add: same_limits_def)
next
  case count
  then show ?thesis using RecordFailureIP_wf [OF assms(2)] by (auto simp: same_limits_def RecordFailureIP_def Let_def split: option.splits)
qed

lemma budget_bound:
  assumes "limiter_wf now rl" "en + ow \<le> k"
  shows "\<not> longBan a ip rl \<Longrightarrow> 1 \<le> allowance a ip rl \<Longrightarrow> 0 \<le> budget k a ip (rl, en, ow)" "longBan a ip rl \<Longrightarrow> 0 \<le> budget k a ip (rl, en, ow)"
    "budget k a ip (rl, en, ow) \<le> 2 * rl_maxAttempts rl - 3 + int k"
proof -
  have "2 \<le> rl_maxAttempts rl" using assms(1) by (simp add: limiter_wf_def)
  then show "\<not> longBan a ip rl \<Longrightarrow> 1 \<le> allowance a ip rl \<Longrightarrow> 0 \<le> budget k a ip (rl, en, ow)" "longBan a ip rl \<Longrightarrow> 0 \<le> budget k a ip (rl, en, ow)"
    "budget k a ip (rl, en, ow) \<le> 2 * rl_maxAttempts rl - 3 + int k"
    using allowance_bound [OF assms(1), of a ip] assms(2) by auto
qed

text \<open>
  A service that consults the limiter in this way: whatever a step does to it is a guarded step of every
  address the step does not relieve. Then the wrong guesses of one address are bounded by what the
  limiter allows and by the requests it has in flight at once.
\<close>

locale throttled =
  fixes step :: "'c \<Rightarrow> 's \<Rightarrow> 'e \<times> 's"
    and limiter :: "'s \<Rightarrow> RateLimiter"
    and at :: "'c \<Rightarrow> int"
    and guess relief :: "string \<Rightarrow> 'e \<Rightarrow> bool"
    and entered owed :: "string \<Rightarrow> 's \<Rightarrow> nat"
    and load :: "string \<Rightarrow> 'e \<Rightarrow> nat"
  assumes step_guarded: "step c s = (e, s') \<Longrightarrow> \<not> relief ip e \<Longrightarrow>
      guard_step ip (at c) (guess ip e) (limiter s, entered ip s, owed ip s) (limiter s', entered ip s', owed ip s')"
    and step_load: "step c s = (e, s') \<Longrightarrow> entered ip s' + owed ip s' \<le> load ip e"
begin

lemma guesses_within_budget:
  assumes "runs step cs s = (es, s')" "sorted (map at cs)" "\<forall>c \<in> set cs. t \<le> at c \<and> a \<le> at c \<and> at c \<le> a + rl_window (limiter s)"
    "\<forall>e \<in> set es. \<not> relief ip e" "\<forall>e \<in> set es. load ip e \<le> k" "entered ip s + owed ip s \<le> k" "limiter_wf t (limiter s)" "t \<le> a + rl_window (limiter s)" "a \<le> t"
  shows "int (length (filter (guess ip) es)) \<le> budget k a ip (limiter s, entered ip s, owed ip s)"
  using assms
proof (induction cs arbitrary: s es t)
  case Nil
  then show ?case using budget_bound(1,2) [OF Nil.prems(7,6), of a ip] failure_costs(2) [OF Nil.prems(7,9,8), of ip] by (cases "longBan a ip (limiter s)") simp_all
next
  case (Cons c cs)
  obtain e s1 where st: "step c s = (e, s1)" by (cases "step c s")
  obtain es1 where r: "runs step cs s1 = (es1, s')" "es = e # es1" using Cons.prems(1) st by (auto split: prod.splits)
  have g: "guard_step ip (at c) (guess ip e) (limiter s, entered ip s, owed ip s) (limiter s1, entered ip s1, owed ip s1)" using step_guarded [OF st] Cons.prems(4) r(2) by simp
  have tm: "a \<le> at c" "at c \<le> a + rl_window (limiter s)" "limiter_wf (at c) (limiter s)" using limiter_wf_later [OF Cons.prems(7)] Cons.prems(3) by simp_all
  have b: "limiter_wf (at c) (limiter s1)" "same_limits (limiter s) (limiter s1)"
    "budget k a ip (limiter s1, entered ip s1, owed ip s1) + of_bool (guess ip e) \<le> budget k a ip (limiter s, entered ip s, owed ip s)"
    using guard_step_budget [OF g tm(3,1,2) Cons.prems(6)] by blast+
  have w: "rl_window (limiter s1) = rl_window (limiter s)" using b(2) by (simp add: same_limits_def)
  have l: "entered ip s1 + owed ip s1 \<le> k" using step_load [OF st, of ip] Cons.prems(5) r(2) by fastforce
  have "int (length (filter (guess ip) es1)) \<le> budget k a ip (limiter s1, entered ip s1, owed ip s1)"
    by (rule Cons.IH [OF r(1), of "at c"]) (use Cons.prems(2-5) r(2) b(1) w l tm in auto)
  then show ?case using r(2) b(3) by (simp add: of_bool_def split: if_splits)
qed

lemma guesses_bounded:
  assumes "runs step cs s = (es, s')" "sorted (map at cs)" "\<forall>c \<in> set cs. t \<le> at c \<and> a \<le> at c \<and> at c \<le> a + rl_window (limiter s)"
    "\<forall>e \<in> set es. \<not> relief ip e" "\<forall>e \<in> set es. load ip e \<le> k" "entered ip s + owed ip s \<le> k" "limiter_wf t (limiter s)" "t \<le> a + rl_window (limiter s)" "a \<le> t"
  shows "int (length (filter (guess ip) es)) \<le> 2 * rl_maxAttempts (limiter s) - 3 + int k"
  using guesses_within_budget [OF assms] budget_bound(3) [OF assms(7,6), of a ip] by linarith

lemma runs_wf:
  assumes "runs step cs s = (es, s')" "sorted (map at cs)" "\<forall>c \<in> set cs. t0 \<le> at c \<and> at c \<le> t" "t0 \<le> t" "\<forall>e \<in> set es. \<exists>ip. \<not> relief ip e" "limiter_wf t0 (limiter s)"
  shows "limiter_wf t (limiter s') \<and> same_limits (limiter s) (limiter s')"
  using assms
proof (induction cs arbitrary: s es t0)
  case Nil
  then show ?case using limiter_wf_later by (auto simp: same_limits_def)
next
  case (Cons c cs)
  obtain e s1 where st: "step c s = (e, s1)" by (cases "step c s")
  obtain es1 where r: "runs step cs s1 = (es1, s')" "es = e # es1" using Cons.prems(1) st by (auto split: prod.splits)
  obtain ip where ip: "\<not> relief ip e" using Cons.prems(5) r(2) by auto
  have wf: "limiter_wf (at c) (limiter s1)" "same_limits (limiter s) (limiter s1)"
    using guard_step_wf [OF step_guarded [OF st ip]] limiter_wf_later [OF Cons.prems(6)] Cons.prems(3) by auto
  have "limiter_wf t (limiter s') \<and> same_limits (limiter s1) (limiter s')"
    by (rule Cons.IH [OF r(1) _ _ _ _ wf(1)]) (use Cons.prems(2-5) r(2) in auto)
  then show ?case using wf(2) by (auto simp: same_limits_def)
qed

end

end
