(* ===== verification/Auth_Guess.thy ===== *)
theory Auth_Guess
  imports Auth_Race Auth_Throttle
begin

text \<open>
  How many passwords, phrases and PINs one address can try when its requests run at the same
  time: every handler that asks the limiter counts what it finds, but only after trying.
\<close>

definition guessBy :: "string \<Rightarrow> race_event \<Rightarrow> bool" where
  "guessBy ip ev \<longleftrightarrow> re_ip ev = ip \<and> re_what ev = Guessed GuessedWrong"

text \<open>The address is relieved: a right guess resets its count, or an administrator lifts its ban.\<close>

definition relieves :: "string \<Rightarrow> race_event \<Rightarrow> bool" where
  "relieves ip ev \<longleftrightarrow> (re_ip ev = ip \<and> re_what ev = Counted GuessedRight) \<or> re_what ev = Unbanned ip"

text \<open>The requests of an address that have passed the check, and those whose failure is not yet counted.\<close>

definition hasEntered :: "flight \<Rightarrow> bool" where
  "hasEntered f \<longleftrightarrow> (case f of Entered _ _ \<Rightarrow> True | _ \<Rightarrow> False)"

definition owesFailure :: "flight \<Rightarrow> bool" where
  "owesFailure f \<longleftrightarrow> (case f of Tried _ _ _ v \<Rightarrow> v = GuessedWrong | _ \<Rightarrow> False)"

definition stageOf :: "http_env \<Rightarrow> (flight \<Rightarrow> bool) \<Rightarrow> string \<Rightarrow> race_state \<Rightarrow> nat" where
  "stageOf h p ip s = size (filter_mset (\<lambda>f. flightIP h f = ip \<and> p f) (rc_flights s))"

lemmas stage_simps = hasEntered_def owesFailure_def flightIP_def optFlight_def

lemma stages_inFlight: "stageOf h hasEntered ip s + stageOf h owesFailure ip s \<le> inFlight h ip (rc_flights s)"
proof -
  have "stageOf h hasEntered ip s + stageOf h owesFailure ip s \<le> size (filter_mset (\<lambda>f. flightIP h f = ip) fs)" if "rc_flights s = fs" for fs
    using that
  proof (induction fs arbitrary: s)
    case (add f fs)
    have "stageOf h hasEntered ip (s\<lparr>rc_flights := fs\<rparr>) + stageOf h owesFailure ip (s\<lparr>rc_flights := fs\<rparr>) \<le> size (filter_mset (\<lambda>f. flightIP h f = ip) fs)"
      by (rule add.IH) simp
    then show ?case using add.prems by (cases f) (auto simp: stageOf_def hasEntered_def owesFailure_def)
  qed (simp add: stageOf_def)
  then show ?thesis by (simp add: inFlight_def)
qed

subsection \<open>What a step does to the limiter\<close>

lemma unlessBanned_free: "rl_bans (as_limiter st) (extractIP (he_isIP h) r) = None \<Longrightarrow> unlessBanned h c r k st = k st"
  by (simp add: unlessBanned_def IsBanned_def)

lemma Record_limiter [simp]:
  "as_limiter (countFailure h c r st) = RecordFailureIP (extractIP (he_isIP h) r) (ce_now c) (as_limiter st)"
  "as_limiter (countSuccess h r st) = RecordSuccessIP (extractIP (he_isIP h) r) (as_limiter st)"
  by (simp_all add: countFailure_def countSuccess_def)

lemma rotate_limiter: "handleAdminTokenRotate h c r st = (resp, st') \<Longrightarrow> as_limiter st' = as_limiter st"
  by (auto simp: handleAdminTokenRotate_def IssueAdminToken_def at10Write_def Let_def split: if_splits option.splits prod.splits)

lemmas other_limiter = other_store handleChangePassword_def handleMasterKeyResetActive_def handleLogout_def handleRevokeOtherSessions_def handleDeleteProfile_def handleSetRole_def
  handleSetPIN_def handleUpdateProfile_def

lemma quiet_limiter:
  "handleChangePassword h c r old new st = (resp, st') \<Longrightarrow> as_limiter st' = as_limiter st"
  "handleMasterKeyResetActive h c r b st = (resp, st') \<Longrightarrow> as_limiter st' = as_limiter st"
  "handleUpdateProfile c r u upd st = (resp, st') \<Longrightarrow> as_limiter st' = as_limiter st"
  "handleSetRole h c r u role st = (resp, st') \<Longrightarrow> as_limiter st' = as_limiter st"
  "handleDeleteProfile r u st = (resp, st') \<Longrightarrow> as_limiter st' = as_limiter st"
  "handleSetPIN h c r pin st = (resp, st') \<Longrightarrow> as_limiter st' = as_limiter st"
  "handleLogout h c r st = (resp, st') \<Longrightarrow> as_limiter st' = as_limiter st"
  "handleRevokeOtherSessions h c r st = (resp, st') \<Longrightarrow> as_limiter st' = as_limiter st"
  "handleDevicePINSet h r body st = (resp, st') \<Longrightarrow> as_limiter st' = as_limiter st"
  "handleDevicePINStatus h c st = (resp, st') \<Longrightarrow> as_limiter st' = as_limiter st"
  by (auto simp: other_limiter Let_def split: if_splits option.splits sum.splits prod.splits)


text \<open>A route that counts nothing leaves the limiter alone, but for the one that lifts bans.\<close>

lemma unguarded_limiter:
  assumes "\<not> guarded op" "handle h c r op st = (resp, st')"
  shows "as_limiter st' = (case whatHappens (as_store st) r op of Unbanned a \<Rightarrow> Unban a (as_limiter st) | _ \<Rightarrow> as_limiter st)"
proof (cases op)
  case (OpUnban b)
  then show ?thesis using assms(2) by (auto simp: whatHappens_def handleUnban_def split: if_splits option.splits)
next
  case OpAdminTokenRotate
  then show ?thesis using assms(2) rotate_limiter by (simp add: whatHappens_def)
qed (use assms quiet_limiter in \<open>simp_all add: guarded_def whatHappens_def handleAuthStatus_def handleMasterKeyStatus_def handleMasterKeyEnvelope_def handleMe_def handleListSessions_def
    handleListProfiles_def handleGetProfile_def handleListBans_def handleSecurityStats_def\<close>)

text \<open>Trying a secret does not touch the limiter.\<close>

lemma attempt_limiter:
  assumes "attempt h c r op st = (resp, v, st')"
  shows "as_limiter st' = as_limiter st"
proof (cases op)
  case (OpRegister b)
  then show ?thesis using assms by (auto simp: tryRegister_def firstLogin_def Let_def split: if_splits option.splits sum.splits prod.splits)
next
  case (OpLogin b)
  then show ?thesis using assms by (auto simp: tryLogin_def split: option.splits sum.splits prod.splits)
next
  case (OpMasterKeyRecover b)
  then show ?thesis using assms by (auto simp: tryRecover_def split: if_splits option.splits sum.splits prod.splits)
next
  case (OpValidatePIN b)
  then show ?thesis using assms by (auto simp: tryPIN_def Let_def split: option.splits)
next
  case (OpDevicePINUnlock b)
  then show ?thesis using assms by (auto simp: tryDevicePIN_def split: if_splits option.splits sum.splits prod.splits)
qed (use assms in simp_all)

lemma IsBanned_False: "IsBanned ip now rl = (False, rl') \<Longrightarrow> rl_bans rl' ip = None"
  by (auto simp: IsBanned_def split: option.splits if_splits)

lemma advance_guarded:
  assumes "advance h c f st = (nx, what, ans, st')"
    and "\<not> (flightIP h f = ip \<and> what = Counted GuessedRight)" "what \<noteq> Unbanned ip"
  defines "n \<equiv> \<lambda>p fs. size (filter_mset (\<lambda>f. flightIP h f = ip \<and> p f) fs)"
  shows "guard_step ip (ce_now c) (flightIP h f = ip \<and> what = Guessed GuessedWrong)
    (as_limiter st, n hasEntered (add_mset f fs), n owesFailure (add_mset f fs)) (as_limiter st', n hasEntered (fs + optFlight nx), n owesFailure (fs + optFlight nx))"
proof (cases f)
  case (Admitted r op)
  then show ?thesis using assms(1) unfolding n_def
    by (auto intro!: guard_step.quiet [OF steady_refl] simp: stage_simps split: sum.splits)
next
  case (Identified r op)
  let ?ip = "extractIP (he_isIP h) r"
  show ?thesis
  proof (cases "guarded op \<and> mayEnter r op")
    case True
    obtain b rl where b: "IsBanned ?ip (ce_now c) (as_limiter st) = (b, rl)" by fastforce
    have sd: "steady ip (ce_now c) (as_limiter st) rl" using steady_IsBanned [of ip "ce_now c" "as_limiter st" ?ip] b by simp
    show ?thesis
    proof (cases "\<not> b \<and> ?ip = ip")
      case enters: True
      then show ?thesis using assms(1) Identified b True unfolding n_def
        by (auto simp: stage_simps intro: guard_step.enter)
    next
      case False
      then show ?thesis using assms(1) Identified b True unfolding n_def
        by (cases b) (auto simp: stage_simps intro!: guard_step.quiet [OF sd])
    qed
  next
    case False
    have sd: "steady ip (ce_now c) (as_limiter st) (as_limiter st')" if "\<not> guarded op"
      using unguarded_limiter [OF that] assms(1,3) Identified that steady_refl steady_other(3)
      by (auto split: prod.splits race_what.splits)
    show ?thesis using assms(1) Identified False unfolding n_def
      by (auto simp: stage_simps whatHappens_def intro!: guard_step.quiet [OF sd] guard_step.quiet [OF steady_refl] split: if_splits prod.splits auth_op.splits option.splits)
  qed
next
  case (Entered r op)
  obtain resp v st1 where a: "attempt h c r op st = (resp, v, st1)" by (cases "attempt h c r op st") auto
  have l: "as_limiter st' = as_limiter st" using attempt_limiter [OF a] assms(1) Entered a by simp
  show ?thesis
  proof (cases "v = GuessedWrong \<and> flightIP h f = ip")
    case True
    then show ?thesis using assms(1) Entered a l unfolding n_def by (auto simp: stage_simps intro: guard_step.miss)
  next
    case False
    then show ?thesis using assms(1) Entered a l unfolding n_def by (auto simp: stage_simps intro!: guard_step.quiet [OF steady_refl])
  qed
next
  case (Tried r op resp v)
  let ?ip = "extractIP (he_isIP h) r"
  show ?thesis
  proof (cases "v = GuessedWrong \<and> ?ip = ip")
    case True
    then show ?thesis using assms(1) Tried unfolding n_def by (auto simp: stage_simps intro: guard_step.count)
  next
    case False
    have "steady ip (ce_now c) (as_limiter st) (as_limiter st')" using assms(1,2) Tried False steady_refl steady_other(1,2)
      by (cases v) (auto simp: flightIP_def)
    from guard_step.quiet [OF this] show ?thesis using assms(1) Tried False unfolding n_def by (auto simp: stage_simps)
  qed
qed

lemma raceStep_guarded:
  assumes "raceStep h q s = (ev, s')" "\<not> relieves ip ev"
  shows "guard_step ip (actionTime q) (guessBy ip ev)
    (as_limiter (rc_auth s), stageOf h hasEntered ip s, stageOf h owesFailure ip s) (as_limiter (rc_auth s'), stageOf h hasEntered ip s', stageOf h owesFailure ip s')"
proof -
  obtain c act where q: "q = (c, act)" by (cases q)
  show ?thesis
  proof (cases act)
    case (Arrive r op)
    let ?ip = "extractIP (he_isIP h) r"
    obtain b rl where b: "IsBanned ?ip (ce_now c) (as_limiter (rc_auth s)) = (b, rl)" by fastforce
    have sd: "steady ip (ce_now c) (as_limiter (rc_auth s)) rl" using steady_IsBanned [of ip "ce_now c" "as_limiter (rc_auth s)" ?ip] b by simp
    show ?thesis using assms(1) q Arrive b
      by (cases b) (auto simp: raceStep_def raceEvent_def actionTime_def guessBy_def stageOf_def stage_simps Let_def intro!: guard_step.quiet [OF sd])
  next
    case Sweep
    then show ?thesis using assms(1) q
      by (auto simp: raceStep_def raceEvent_def actionTime_def guessBy_def stageOf_def Let_def intro!: guard_step.quiet [OF steady_cleanup])
  next
    case (Advance f)
    show ?thesis
    proof (cases "f \<in># rc_flights s")
      case False
      then show ?thesis using assms(1) q Advance
        by (auto simp: raceStep_def raceEvent_def actionTime_def guessBy_def intro!: guard_step.quiet [OF steady_refl])
    next
      case True
      then obtain fs where fs: "rc_flights s = add_mset f fs" by (meson mset_add)
      obtain nx what ans st1 where ad: "advance h c f (rc_auth s) = (nx, what, ans, st1)" by (cases "advance h c f (rc_auth s)") auto
      have s': "s' = s\<lparr>rc_auth := st1, rc_flights := fs + optFlight nx\<rparr>" "ev = raceEvent h (flightIP h f) what ans s'"
        using assms(1) q Advance ad fs by (auto simp: raceStep_def Let_def)
      have ev: "guessBy ip ev \<longleftrightarrow> flightIP h f = ip \<and> what = Guessed GuessedWrong" "\<not> (flightIP h f = ip \<and> what = Counted GuessedRight)" "what \<noteq> Unbanned ip"
        using assms(2) by (auto simp: s'(2) raceEvent_def guessBy_def relieves_def)
      show ?thesis unfolding ev(1) stageOf_def fs using advance_guarded [OF ad ev(2,3), of fs] s'(1) q by (simp add: actionTime_def)
    qed
  qed
qed

lemma raceStep_load: "raceStep h q s = (ev, s') \<Longrightarrow> re_inFlight ev ip = inFlight h ip (rc_flights s')"
  by (auto simp: raceStep_def raceEvent_def Let_def split: prod.splits race_action.splits bool.splits if_splits)

interpretation guard: throttled "raceStep h" "\<lambda>s. as_limiter (rc_auth s)" actionTime guessBy relieves "stageOf h hasEntered" "stageOf h owesFailure" "\<lambda>ip ev. re_inFlight ev ip" for h
proof
  fix q s ev s' ip
  assume a: "raceStep h q s = (ev, s')"
  show "stageOf h hasEntered ip s' + stageOf h owesFailure ip s' \<le> re_inFlight ev ip"
    unfolding raceStep_load [OF a] by (rule stages_inFlight)
  assume "\<not> relieves ip ev"
  from raceStep_guarded [OF a this] show "guard_step ip (actionTime q) (guessBy ip ev)
    (as_limiter (rc_auth s), stageOf h hasEntered ip s, stageOf h owesFailure ip s) (as_limiter (rc_auth s'), stageOf h hasEntered ip s', stageOf h owesFailure ip s')" .
qed

lemma someone_unrelieved: "\<exists>ip. \<not> relieves ip ev"
proof -
  obtain ip :: string where "ip \<notin> {re_ip ev, (case re_what ev of Unbanned a \<Rightarrow> a | _ \<Rightarrow> [])}"
    using ex_new_if_finite [OF infinite_UNIV_listI, of "{re_ip ev, (case re_what ev of Unbanned a \<Rightarrow> a | _ \<Rightarrow> [])}"] by auto
  then show ?thesis by (auto simp: relieves_def intro!: exI [of _ ip])
qed

text \<open>
  Claim C15. Guessing is throttled, as far as a check before the attempt and a count after it can do
  that for requests that run at the same time. Take any run of the server from its start, every
  request advancing stage by stage with anything in between, and any ten minutes of it in
  which at most k requests of one client address are in flight at once. On the login,
  recovery, PIN and sign-up routes the address tries at most 7 + k wrong secrets in that time, as
  long as no right guess of it is counted and no administrator lifts its ban: eight if it sends one request at
  a time, and all k of a burst. The old password that a signed-in user gives to change
  the password is not among these secrets: that route asks no limiter.
\<close>

theorem online_guesses_bounded:
  assumes "as_limiter (rc_auth s0) = DefaultRateLimiter" "runs (raceStep h) past s0 = (evs0, s)" "runs (raceStep h) qs s = (evs, s')"
    and "sorted (map actionTime past)" "sorted (map actionTime qs)" "\<forall>q \<in> set past. actionTime q \<le> t"
    and "\<forall>q \<in> set qs. t \<le> actionTime q \<and> actionTime q \<le> t + 10 * Minute" "\<forall>ev \<in> set evs. \<not> relieves ip ev"
    and "inFlight h ip (rc_flights s) \<le> k" "\<forall>ev \<in> set evs. re_inFlight ev ip \<le> k"
  shows "length (filter (guessBy ip) evs) \<le> 7 + k"
proof -
  define t0 where "t0 = Min (insert t (set (map actionTime past)))"
  have "t0 \<le> t" "\<forall>q \<in> set past. t0 \<le> actionTime q \<and> actionTime q \<le> t" using assms(6) by (auto simp: t0_def)
  then have wf: "limiter_wf t (as_limiter (rc_auth s))" "same_limits DefaultRateLimiter (as_limiter (rc_auth s))"
    using guard.runs_wf [OF assms(2,4), of t0 t] someone_unrelieved DefaultRateLimiter_wf assms(1) by auto
  have l: "rl_maxAttempts (as_limiter (rc_auth s)) = 5" "rl_window (as_limiter (rc_auth s)) = 10 * Minute"
    using wf(2) by (simp_all add: same_limits_def DefaultRateLimiter_def NewRateLimiter_def)
  have "int (length (filter (guessBy ip) evs)) \<le> 2 * rl_maxAttempts (as_limiter (rc_auth s)) - 3 + int k"
    by (rule guard.guesses_bounded [OF assms(3,5) _ assms(8,10) _ wf(1), of t])
      (use assms(7,9) l stages_inFlight [of h ip s] in \<open>simp_all add: Minute_def\<close>)
  then show ?thesis using l by simp
qed

subsection \<open>Two guesses at once\<close>

lemma anonymous_identified:
  assumes "HeaderGet r ''Authorization'' = []" "rq_Cookie r ''vulos_session'' = None" "isPublicPath (rq_Path r)"
  shows "sessionMiddleware h c st r = Inr (stripIdentity r)"
proof -
  note f = same_request_facts [OF same_strip [of r]]
  have "adminAuth h c st (stripIdentity r) = stripIdentity r" using assms(1) f(2) by (simp add: adminAuth_def HasPrefix_def)
  moreover have "vkAuth h c st (stripIdentity r) = Some (stripIdentity r)" using assms(1) f(2) by (simp add: vkAuth_def HasPrefix_def)
  moreover have "extractToken (stripIdentity r) = []" unfolding f(1) using assms(1,2) by (simp add: extractToken_def HasPrefix_def)
  ultimately show ?thesis using assms(3) f(5) by (simp add: sessionMiddleware_def sessionAuth_def)
qed

lemma anonymous_passes:
  assumes "HeaderGet r ''Authorization'' = []" "rq_Cookie r ''vulos_session'' = None" "isPublicPath (rq_Path r)" "rl_bans (as_limiter st) (extractIP (he_isIP h) r) = None"
  shows "Middleware h c r st = (Inr (stripIdentity r), st)"
  using assms(4) anonymous_identified [OF assms(1-3)] by (simp add: Middleware_def IsBanned_def)

lemma demo_ip: "extractIP f demo_req = ''10.0.0.9''"
  by (simp add: extractIP_def fallbackIP_def hostOf_def SplitHostPort_def splitLast_def fromTrustedProxy_def demo_req_def)

lemma public_login: "isPublicPath ''/api/auth/login''"
  by (simp add: isPublicPath_def publicPaths_def Clean_def Let_def)

definition guess_op :: auth_op where
  "guess_op = OpLogin (Some (''ada'', ''guess''))"

definition guess_req :: http_req where
  "guess_req = stripIdentity (requestFor guess_op demo_req)"

definition wrong_answer :: auth_resp where
  "wrong_answer = \<lparr>rs_Status = 401, rs_Body = BStoreError ErrInvalidLogin, rs_Cookie = None, rs_Hooks = []\<rparr>"

lemma guess_ip: "extractIP f guess_req = ''10.0.0.9''"
  using same_request_facts(6) [OF same_strip, of f "requestFor guess_op demo_req"] demo_ip by (simp add: guess_req_def)

lemma guess_stages:
  "advance demo_http (demo_call now u) (Admitted demo_req guess_op) st = (Some (Identified guess_req guess_op), Quiet, None, st)"
  "rl_bans (as_limiter st) ''10.0.0.9'' = None \<Longrightarrow> advance demo_http (demo_call now u) (Identified guess_req guess_op) st = (Some (Entered guess_req guess_op), Quiet, None, st)"
  "as_store st = demo_store \<Longrightarrow> advance demo_http (demo_call now u) (Entered guess_req guess_op) st = (Some (Tried guess_req guess_op wrong_answer GuessedWrong), Guessed GuessedWrong, None, st)"
  "advance demo_http (demo_call now u) (Tried guess_req guess_op wrong_answer GuessedWrong) st = (None, Counted GuessedWrong, Some wrong_answer, st\<lparr>as_limiter := RecordFailureIP ''10.0.0.9'' now (as_limiter st)\<rparr>)"
proof -
  have "sessionMiddleware demo_http (demo_call now u) st (requestFor guess_op demo_req) = Inr guess_req"
    unfolding guess_req_def by (rule anonymous_identified) (simp_all add: guess_op_def requestFor_def HeaderGet_def demo_req_def public_login)
  then show "advance demo_http (demo_call now u) (Admitted demo_req guess_op) st = (Some (Identified guess_req guess_op), Quiet, None, st)" by simp
  show "rl_bans (as_limiter st) ''10.0.0.9'' = None \<Longrightarrow> advance demo_http (demo_call now u) (Identified guess_req guess_op) st = (Some (Entered guess_req guess_op), Quiet, None, st)"
    by (simp add: guess_ip IsBanned_def guarded_def mayEnter_def guess_op_def)
  have l: "Login demo_auth (demo_call now u) ''ada'' ''guess'' demo_store = (Inl ErrInvalidLogin, demo_store)"
    by (simp add: Login_def ranged_def map_filter_def isbcryptHash_def verifyPassword_def HasPrefix_def demo_defs)
  show "as_store st = demo_store \<Longrightarrow> advance demo_http (demo_call now u) (Entered guess_req guess_op) st = (Some (Tried guess_req guess_op wrong_answer GuessedWrong), Guessed GuessedWrong, None, st)"
    using l by (cases st) (simp add: guess_op_def tryLogin_def wrong_answer_def demo_http_def)
  show "advance demo_http (demo_call now u) (Tried guess_req guess_op wrong_answer GuessedWrong) st = (None, Counted GuessedWrong, Some wrong_answer, st\<lparr>as_limiter := RecordFailureIP ''10.0.0.9'' now (as_limiter st)\<rparr>)"
    by (simp add: countFailure_def guess_ip) (simp add: demo_call_def)
qed

definition burst :: "(call_env \<times> race_action) list" where
  "burst = map (\<lambda>(now, act). (demo_call now ''u2'', act))
     [(1, Arrive demo_req guess_op), (1, Arrive demo_req guess_op), (2, Advance (Admitted demo_req guess_op)), (2, Advance (Admitted demo_req guess_op)),
      (3, Advance (Identified guess_req guess_op)), (3, Advance (Identified guess_req guess_op)), (4, Advance (Entered guess_req guess_op)), (4, Advance (Entered guess_req guess_op)),
      (5, Advance (Tried guess_req guess_op wrong_answer GuessedWrong)), (6, Advance (Tried guess_req guess_op wrong_answer GuessedWrong))]"

text \<open>Both requests of the burst pass the check before either is counted.\<close>

theorem online_guesses_bounded_witness:
  "\<exists>evs s'. runs (raceStep demo_http) burst \<lparr>rc_auth = demo_state, rc_flights = {#}\<rparr> = (evs, s') \<and> length (filter (guessBy ''10.0.0.9'') evs) = 2 \<and> length (filter (guessBy ''10.0.0.9'') evs) \<le> 7 + 2"
proof -
  let ?s = "\<lparr>rc_auth = demo_state, rc_flights = {#}\<rparr>"
  let ?ip = "''10.0.0.9''"
  have st: "as_store demo_state = demo_store" "as_limiter demo_state = DefaultRateLimiter" "rl_bans DefaultRateLimiter ?ip = None" "demo_state\<lparr>as_limiter := DefaultRateLimiter\<rparr> = demo_state"
    by (simp_all add: demo_state_def DefaultRateLimiter_def NewRateLimiter_def)
  obtain evs s' where r: "runs (raceStep demo_http) burst ?s = (evs, s')" by fastforce
  have e: "map (\<lambda>ev. (re_ip ev, re_what ev, re_inFlight ev ?ip)) evs = [(?ip, Quiet, 1), (?ip, Quiet, 2), (?ip, Quiet, 2), (?ip, Quiet, 2), (?ip, Quiet, 2), (?ip, Quiet, 2),
      (?ip, Guessed GuessedWrong, 2), (?ip, Guessed GuessedWrong, 2), (?ip, Counted GuessedWrong, 1), (?ip, Counted GuessedWrong, 0)]"
    using r st by (auto simp: burst_def raceStep_def raceEvent_def inFlight_def flightIP_def optFlight_def guess_stages guess_ip demo_ip Let_def simp del: advance.simps)
  have all: "\<forall>x \<in> set (map (\<lambda>ev. (re_ip ev, re_what ev, re_inFlight ev ?ip)) evs). snd (snd x) \<le> 2 \<and> fst (snd x) \<in> {Quiet, Guessed GuessedWrong, Counted GuessedWrong}"
    unfolding e by simp
  have two: "length (filter (guessBy ?ip) evs) = length (filter (\<lambda>x. fst x = ?ip \<and> fst (snd x) = Guessed GuessedWrong) (map (\<lambda>ev. (re_ip ev, re_what ev, re_inFlight ev ?ip)) evs))"
    by (simp add: filter_map comp_def guessBy_def [abs_def])
  have "length (filter (guessBy ?ip) evs) \<le> 7 + 2"
    by (rule online_guesses_bounded [of ?s demo_http "[]" "[]" ?s burst evs s' 0]) (use r st all in \<open>auto simp: relieves_def inFlight_def burst_def actionTime_def demo_call_def Minute_def\<close>)
  moreover have "length (filter (guessBy ?ip) evs) = 2" unfolding two e by simp
  ultimately show ?thesis using r by blast
qed

end
