(* ===== verification/Auth_Return.thy ===== *)
theory Auth_Return
  imports Auth_Guess
begin

text \<open>
  Ways back into an account: who can replace a password, that the recovery phrase always can,
  and where the admin token of the rotate route ends up.
\<close>

subsection \<open>The phrase resets the password\<close>

lemma pbkdf2_sealed:
  assumes "crypto_ok m" "\<forall>i n. rnd i n \<noteq> None"
  shows "\<exists>slot. sealUnderPassword m rnd i mk pw = Inr slot"
proof -
  obtain salt where s: "rnd i 16 = Some salt" using assms(2) by blast
  obtain iv where v: "rnd (i + 1) 12 = Some iv" using assms(2) by blast
  show ?thesis using wrap_keys(1) [OF assms(1)] s v by (simp add: sealUnderPassword_def aesGCMSeal_def readFull_def)
qed

lemma marshal_nonempty: "crypto_ok m \<Longrightarrow> mk_marshal m e \<noteq> []"
  unfolding crypto_ok_def by (metis option.distinct(1))

lemma ParseMasterKeyEnvelope_nonempty: "crypto_ok m \<Longrightarrow> ParseMasterKeyEnvelope m blob = Inr e \<Longrightarrow> blob \<noteq> []"
  by (auto simp: crypto_ok_def ParseMasterKeyEnvelope_def)

lemma phrase_resets:
  assumes "crypto_ok (ae_mk e)" "\<forall>i n. ce_rand c i n \<noteq> None" "\<forall>i. ce_io c i" "uid \<noteq> []" "pw \<noteq> []"
    and "phraseOpens e uid phrase mk s" "normaliseMnemonic typed = normaliseMnemonic phrase"
  shows "\<exists>s'. ResetPasswordWithPhrase e c uid typed pw s = (Inr (), s')"
proof -
  obtain blob env where b: "st_masterKeys s uid = Some blob" "ParseMasterKeyEnvelope (ae_mk e) blob = Inr env" "UnwrapWithMnemonic (ae_mk e) env typed = Inr mk"
    using assms(6,7) unfolding phraseOpens_def by blast
  have l: "LoadMasterKeyBlob c i uid s = blob" for i using b(1) assms(3,4) by (simp add: LoadMasterKeyBlob_def)
  obtain slot where "sealUnderPassword (ae_mk e) (ce_rand c) 0 mk pw = Inr slot" using pbkdf2_sealed [OF assms(1,2)] by blast
  then have "RewrapPassword (ae_mk e) (ce_rand c) env typed pw = Inr (withPassword env slot)" using b(3) assms(5) by (simp add: RewrapPassword_def)
  then show ?thesis using b(2) l ParseMasterKeyEnvelope_nonempty [OF assms(1) b(2)] marshal_nonempty [OF assms(1)] assms(3,4)
    by (simp add: ResetPasswordWithPhrase_def rewrapBlob_def SaveMasterKeyBlob_def)
qed

lemma opened_phrase_nonempty: "phraseOpens e uid phrase mk s \<Longrightarrow> normaliseMnemonic typed = normaliseMnemonic phrase \<Longrightarrow> typed \<noteq> []"
proof
  assume o: "phraseOpens e uid phrase mk s" "normaliseMnemonic typed = normaliseMnemonic phrase" and t: "typed = []"
  have "ValidateMnemonic (kp_sha256 (mk_prims (ae_mk e))) typed = None"
    using o unfolding phraseOpens_def UnwrapWithMnemonic_def by (auto split: if_splits option.splits)
  then obtain n where "normaliseMnemonic typed = phraseOf n" unfolding valid_iff by blast
  moreover have "normaliseMnemonic typed = []" using t by (simp add: normaliseMnemonic_def ToLower_def stringFields.simps)
  moreover have "stringFields [] = []" by (simp add: stringFields.simps)
  ultimately have "map ((!) bip39Words) (indices 24 n) = []" using phraseOf_facts(1) [of n] by simp
  then show False using indices_facts(1) [of 24 n] by simp
qed

text \<open>Recovering the account: the login works with the new password, which opens the same key, and every session is gone.\<close>

lemma account_recovered:
  assumes "crypto_ok (ae_mk e)" "rand_ok (ce_rand c)" "\<forall>i n. ce_rand c i n \<noteq> None" "\<forall>i. ce_io c i" "fair_order c" "store_wf s"
    and "named uid n s" "uid \<noteq> []" "n \<noteq> []" "phraseOpens e uid phrase mk s" "normaliseMnemonic typed = normaliseMnemonic phrase"
    and "passwordLength pw = None" "verifyPassword e (ce_bcrypt c pw) pw"
  shows "\<exists>s'. RecoverAccountWithPhrase e c n typed pw s = (Inr (), s') \<and> VerifyUserPassword e uid pw s' \<and> passwordOpens e uid pw mk s' \<and> (\<forall>t. \<not> ownedBy uid s' t)"
proof -
  obtain u where u: "map_of (st_users s) uid = Some u" "us_Username u = n" using assms(7) by (auto simp: named_def)
  have i: "us_ID u = uid" using store_wfD(1) [OF assms(6) u(1)] .
  have f: "find (\<lambda>(_, u). us_Username u = n) (ranged c (st_users s)) = Some (uid, u)"
    by (rule find_fair [OF assms(5) u(1)]) (use u store_wfD(2) [OF assms(6)] in auto)
  have "pw \<noteq> []" using assms(12) by (auto simp: passwordLength_def minPasswordLength_def split: if_splits)
  then obtain s1 where r: "ResetPasswordWithPhrase e c uid typed pw s = (Inr (), s1)" using phrase_resets [OF assms(1,3,4,8) _ assms(10,11)] by blast
  let ?s = "resetLogin c uid u pw (ownedBy uid s1) s1"
  have "RecoverAccountWithPhrase e c n typed pw s = (Inr (), ?s)" using assms(9,12) f r i by (simp add: RecoverAccountWithPhrase_def bindS_def)
  moreover have "VerifyUserPassword e uid pw ?s" using assms(13) by (simp add: VerifyUserPassword_def resetLogin_def map_of_upsert verifyPassword_def)
  moreover have "passwordOpens e uid pw mk ?s" using reset_phrase_opens [OF assms(1,2,10,11) r] by (simp add: passwordOpens_def)
  moreover have "\<not> ownedBy uid ?s t" for t by (simp add: ownedBy_def resetLogin_def map_of_delete_where)
  ultimately show ?thesis by blast
qed

lemma recover_served:
  assumes "HeaderGet r ''Authorization'' = []" "rq_Cookie r ''vulos_session'' = None" "rl_bans (as_limiter st) (extractIP (he_isIP h) r) = None"
    and "n \<noteq> []" "typed \<noteq> []" "pw \<noteq> []" "RecoverAccountWithPhrase (he_auth h) c n typed pw (as_store st) = (Inr (), s')"
  shows "\<exists>resp st'. serve h (c, r, OpMasterKeyRecover (Some (n, typed, pw))) st = (resp, st') \<and> rs_Status resp = 200 \<and> as_store st' = s'"
proof -
  let ?op = "OpMasterKeyRecover (Some (n, typed, pw))"
  have pub: "isPublicPath ''/api/auth/masterkey/recover''" by (simp add: isPublicPath_def publicPaths_def Clean_def Let_def)
  have "Middleware h c (requestFor ?op r) st = (Inr (stripIdentity (requestFor ?op r)), st)"
    by (rule anonymous_passes) (use assms(1-3) pub in \<open>simp_all add: requestFor_def HeaderGet_def\<close>, simp add: extractIP_requestFor [unfolded requestFor_def, of _ ?op, simplified])
  moreover have "rl_bans (as_limiter st) (extractIP (he_isIP h) (stripIdentity (requestFor ?op r))) = None"
    using assms(3) same_request_facts(6) [OF same_strip, of "he_isIP h" "requestFor ?op r"] by simp
  ultimately show ?thesis using assms(4-7)
    by (simp add: serve_def handleMasterKeyRecover_def unlessBanned_free withHooks_def writeJSON_def)
qed

subsection \<open>Sign-up issues the phrase\<close>

lemma registered_E:
  assumes "serve h (c, r, OpRegister (Some (n, p, d))) st = (resp, st')" "rs_Body resp = BRegistered su se (Some phrase)"
  obtains usr s1 se' s2 where "Register (he_auth h) c n p d (as_store st) = (Inr usr, s1)" "CreateSession (he_auth h) c usr [] s1 = (se', s2)"
    "ProvisionMasterKey (he_auth h) c (ce_userID c) p s2 = (Inr phrase, as_store st')"
proof -
  obtain x st1 where m: "Middleware h c (requestFor (OpRegister (Some (n, p, d))) r) st = (x, st1)" by fastforce
  note s1 = Middleware_store [OF m]
  have "\<exists>r1. x = Inr r1"
    using m by (cases rule: Middleware_E) (use assms m in \<open>auto simp: serve_def writeErr_def sessionMiddleware_def split: sum.splits option.splits prod.splits if_splits\<close>)
  then obtain r1 where x: "x = Inr r1" by blast
  have h: "handleRegister h c r1 (Some (n, p, d)) st1 = (resp, st')" using assms(1) m x by (simp add: serve_def)
  obtain y t1 where y: "Register (he_auth h) c n p d (as_store st) = (y, t1)" by fastforce
  from h show ?thesis unfolding handleRegister_def
  proof (cases rule: unlessBanned_E)
    case (2 rl)
    obtain usr where u: "y = Inr usr" using 2(2) y s1 assms(2) by (cases y) (auto simp: writeErr_def split: if_splits)
    have i: "us_ID usr = ce_userID c" using Register_user y u by blast
    obtain se' s2 where cs: "CreateSession (he_auth h) c usr [] t1 = (se', s2)" by fastforce
    obtain z s3 where pv: "ProvisionMasterKey (he_auth h) c (ce_userID c) p s2 = (z, s3)" by fastforce
    have "z = Inr phrase" "as_store st' = s3"
      using 2(2) y u s1 cs pv i assms(2) by (auto simp: firstLogin_def writeErr_def writeJSON_def withHooks_def withCookie_def Let_def split: if_splits sum.splits)
    then show ?thesis using that y u cs pv by simp
  qed (use assms(2) in \<open>simp add: writeErr_def\<close>)
qed

lemma registered_account:
  assumes "crypto_ok (ae_mk (he_auth h))" "rand_ok (ce_rand c)"
    and "serve h (c, r, OpRegister (Some (n, p, d))) st = (resp, st')" "rs_Body resp = BRegistered su se (Some phrase)"
  shows "named (ce_userID c) n (as_store st') \<and> ce_userID c \<noteq> [] \<and> n \<noteq> []
    \<and> (\<exists>mk. phraseOpens (he_auth h) (ce_userID c) phrase mk (as_store st') \<and> passwordOpens (he_auth h) (ce_userID c) p mk (as_store st'))"
proof -
  obtain usr s1 se' s2 where r: "Register (he_auth h) c n p d (as_store st) = (Inr usr, s1)" "CreateSession (he_auth h) c usr [] s1 = (se', s2)"
    "ProvisionMasterKey (he_auth h) c (ce_userID c) p s2 = (Inr phrase, as_store st')" using registered_E [OF assms(3,4)] .
  have u: "us_Username usr = n" "length n \<ge> 2" using r(1) by (auto elim!: Register_E)
  have "map_of (st_users s1) (ce_userID c) = Some usr" using Register_user [OF r(1)] by blast
  moreover have "st_users s2 = st_users s1" using r(2) by (rule CreateSession_E) simp
  moreover have "st_users (as_store st') = st_users s2" using Provision_store [OF r(3)] by auto
  ultimately have "named (ce_userID c) n (as_store st')" using u(1) by (simp add: named_def)
  moreover have "ce_userID c \<noteq> []" using r(3) by (auto simp: ProvisionMasterKey_def split: if_splits)
  ultimately show ?thesis using provisioned [OF assms(1,2) r(3)] u(2) by auto
qed

text \<open>The account keeps its name and its phrase through any requests that do not draw its identifier again.\<close>

interpretation acct: kept "serve h" "\<lambda>q. ce_userID (fst q) \<noteq> i"
  "\<lambda>st. crypto_ok (ae_mk (he_auth h)) \<and> named i n (as_store st) \<and> phraseOpens (he_auth h) i phrase mk (as_store st)" for h i n phrase mk
proof
  fix q st resp st'
  assume a: "ce_userID (fst q) \<noteq> i" "crypto_ok (ae_mk (he_auth h)) \<and> named i n (as_store st) \<and> phraseOpens (he_auth h) i phrase mk (as_store st)" "serve h q st = (resp, st')"
  obtain c r op where q: "q = (c, r, op)" by (cases q)
  have "named i n (as_store st')" using name.serve_kept [of h "he_auth h" c i n st op r resp st'] a q by simp
  moreover have "phraseOpens (he_auth h) i phrase mk (as_store st')" using phrase.serve_kept [of h "he_auth h" c i phrase mk st op r resp st'] a q by simp
  ultimately show "crypto_ok (ae_mk (he_auth h)) \<and> named i n (as_store st') \<and> phraseOpens (he_auth h) i phrase mk (as_store st')" using a(2) by simp
qed

text \<open>
  Claim C6. The recovery phrase always brings the account back. The phrase shown at sign-up,
  typed in any case and spacing, is accepted after any requests of anybody, password changes and
  resets included, from an address that is not banned: the new password signs the user in and
  opens the very master key the first password opened, and every earlier session is ended. The
  random source and the disk must work for the recovery itself, and no later account may draw
  the same identifier.
\<close>

theorem recovery_always_possible:
  assumes "crypto_ok (ae_mk (he_auth h))" "store_wf (as_store st0)"
    and "serve h (c0, r0, OpRegister (Some (n, p, d))) st0 = (resp0, st1)" "rs_Body resp0 = BRegistered su se (Some phrase)" "fair_order c0" "rand_ok (ce_rand c0)"
    and "runs (serve h) qs st1 = (rs, st2)" "list_all (\<lambda>q. fair_order (fst q) \<and> ce_userID (fst q) \<noteq> ce_userID c0) qs"
    and "fair_order c" "rand_ok (ce_rand c)" "\<forall>i k. ce_rand c i k \<noteq> None" "\<forall>i. ce_io c i" "verifyPassword (he_auth h) (ce_bcrypt c pw) pw"
    and "HeaderGet r ''Authorization'' = []" "rq_Cookie r ''vulos_session'' = None" "rl_bans (as_limiter st2) (extractIP (he_isIP h) r) = None"
    and "normaliseMnemonic typed = normaliseMnemonic phrase" "passwordLength pw = None"
  shows "\<exists>mk resp st3. passwordOpens (he_auth h) (ce_userID c0) p mk (as_store st1)
    \<and> serve h (c, r, OpMasterKeyRecover (Some (n, typed, pw))) st2 = (resp, st3) \<and> rs_Status resp = 200
    \<and> VerifyUserPassword (he_auth h) (ce_userID c0) pw (as_store st3) \<and> passwordOpens (he_auth h) (ce_userID c0) pw mk (as_store st3)
    \<and> (\<forall>t. \<not> ownedBy (ce_userID c0) (as_store st3) t)"
proof -
  let ?e = "he_auth h" and ?i = "ce_userID c0"
  obtain mk where k: "named ?i n (as_store st1)" "?i \<noteq> []" "n \<noteq> []" "phraseOpens ?e ?i phrase mk (as_store st1)" "passwordOpens ?e ?i p mk (as_store st1)"
    using registered_account [OF assms(1,6,3,4)] by blast
  have qs: "list_all (\<lambda>q. fair_order (fst q)) qs" "list_all (\<lambda>q. ce_userID (fst q) \<noteq> ?i) qs" using assms(8) by (simp_all add: list_all_iff)
  have w2: "store_wf (as_store st2)" using srv.inv_runs [OF qs(1) _ assms(7)] srv.inv_step [of "(c0, r0, OpRegister (Some (n, p, d)))", OF _ assms(2,3)] assms(5) by simp
  have k2: "named ?i n (as_store st2)" "phraseOpens ?e ?i phrase mk (as_store st2)" using acct.inv_runs [OF qs(2) _ assms(7)] assms(1) k(1,4) by blast+
  obtain s3 where s3: "RecoverAccountWithPhrase ?e c n typed pw (as_store st2) = (Inr (), s3)" "VerifyUserPassword ?e ?i pw s3" "passwordOpens ?e ?i pw mk s3" "\<forall>t. \<not> ownedBy ?i s3 t"
    using account_recovered [OF assms(1,10-12,9) w2 k2(1) k(2,3) k2(2) assms(17,18,13)] by blast
  have "pw \<noteq> []" using assms(18) by (auto simp: passwordLength_def minPasswordLength_def split: if_splits)
  then obtain resp st3 where "serve h (c, r, OpMasterKeyRecover (Some (n, typed, pw))) st2 = (resp, st3)" "rs_Status resp = 200" "as_store st3 = s3"
    using recover_served [OF assms(14-16) k(3) opened_phrase_nonempty [OF k2(2) assms(17)] _ s3(1)] by blast
  then show ?thesis using k(5) s3(2-4) by blast
qed

lemma phrase_sealed:
  assumes "crypto_ok m" "\<forall>i n. rnd i n \<noteq> None"
  shows "\<exists>slot. sealUnderMnemonic m rnd i mk phrase = Inr slot"
proof -
  obtain iv where v: "rnd i 12 = Some iv" using assms(2) by blast
  show ?thesis using wrap_keys(2) [OF assms(1)] v by (simp add: sealUnderMnemonic_def aesGCMSeal_def readFull_def)
qed

text \<open>Provisioning succeeds when the random source and the disk work.\<close>

lemma provision_succeeds:
  assumes "crypto_ok (ae_mk e)" "rand_ok (ce_rand c)" "\<forall>i n. ce_rand c i n \<noteq> None" "\<forall>i. ce_io c i" "uid \<noteq> []" "pw \<noteq> []" "st_masterKeys s uid = None"
  shows "\<exists>phrase s'. ProvisionMasterKey e c uid pw s = (Inr phrase, s')"
proof -
  let ?m = "ae_mk e" and ?sha = "kp_sha256 (mk_prims (ae_mk e))"
  obtain mk where mk: "ce_rand c 0 32 = Some mk" using assms(3) by blast
  obtain entropy where en: "ce_rand c 1 32 = Some entropy" using assms(3) by blast
  have len: "length mk = 32" "length entropy = 32" using assms(2) mk en unfolding rand_ok_def by blast+
  let ?p = "phraseOf (checked ?sha entropy)"
  have p: "entropyToMnemonic ?sha entropy = Inr ?p" using len(2) by (simp add: entropyToMnemonic_Inr)
  have v: "ValidateMnemonic ?sha ?p = None" unfolding valid_iff using len(2) phraseOf_facts(2) by blast
  obtain a b where "sealUnderPassword ?m (ce_rand c) 2 mk pw = Inr a" "sealUnderMnemonic ?m (ce_rand c) 4 mk ?p = Inr b"
    using pbkdf2_sealed [OF assms(1,3)] phrase_sealed [OF assms(1,3)] by blast
  then have "\<exists>env. WrapMasterKey ?m (ce_rand c) 2 mk pw ?p = Inr env" using v len(1) assms(6) by (simp add: WrapMasterKey_def MasterKeyLen_def)
  then obtain env where "WrapMasterKey ?m (ce_rand c) 2 mk pw ?p = Inr env" by blast
  then have "ProvisionKey ?m (ce_rand c) pw = Inr (mk_marshal ?m env, ?p)" using mk en p by (simp add: ProvisionKey_def NewMasterKey_def readFull_def MasterKeyLen_def)
  then show ?thesis using assms(4-7) marshal_nonempty [OF assms(1)]
    by (simp add: ProvisionMasterKey_def HasMasterKey_def LoadMasterKeyBlob_def SaveMasterKeyBlob_def bindS_def retS_def)
qed

definition ada_signup :: auth_op where
  "ada_signup = OpRegister (Some (''ada'', ''correct horse'', ''Ada''))"

lemma demo_public: "isPublicPath ''/api/auth/register''" "isPublicPath ''/api/auth/status''"
  by (simp_all add: isPublicPath_def publicPaths_def Clean_def Let_def)

lemma demo_rand: "rand_ok (ce_rand (demo_call now u))" "\<forall>i n. ce_rand (demo_call now u) i n \<noteq> None" "\<forall>i. ce_io (demo_call now u) i"
  by (simp_all add: rand_ok_def demo_call_def)

lemma demo_anonymous:
  assumes "isPublicPath (snd (routeOf op))" "rl_bans (as_limiter st) ''10.0.0.9'' = None"
  shows "Middleware demo_http c (requestFor op demo_req) st = (Inr (stripIdentity (requestFor op demo_req)), st)"
proof (rule anonymous_passes)
  show "isPublicPath (rq_Path (requestFor op demo_req))" using assms(1) by (simp add: requestFor_def)
  show "rl_bans (as_limiter st) (extractIP (he_isIP demo_http) (requestFor op demo_req)) = None" using assms(2) demo_ip by simp
qed (simp_all add: requestFor_def HeaderGet_def demo_req_def)

lemma ada_signed_up:
  "\<exists>resp st1 su se phrase. serve demo_http (demo_call 0 ''u1'', demo_req, ada_signup) blank_state = (resp, st1) \<and> rs_Body resp = BRegistered su se (Some phrase) \<and> as_limiter st1 = DefaultRateLimiter"
proof -
  let ?c = "demo_call 0 ''u1''" and ?r = "stripIdentity (requestFor ada_signup demo_req)"
  obtain usr s1 where g: "Register demo_auth ?c ''ada'' ''correct horse'' ''Ada'' (as_store blank_state) = (Inr usr, s1)" "st_masterKeys s1 = (\<lambda>_. None)"
    by (simp add: Register_def ranged_def passwordLength_def minPasswordLength_def bcryptMaxBytes_def verifyPassword_def isbcryptHash_def HasPrefix_def Let_def demo_defs map_filter_def)
  obtain se s2 where cs: "CreateSession demo_auth ?c usr [] s1 = (se, s2)" by fastforce
  have k: "crypto_ok (ae_mk demo_auth)" using demo_crypto_ok by (simp add: demo_auth_def)
  have "st_masterKeys s2 ''u1'' = None" using store_keys(3) [OF cs] g(2) by simp
  then obtain phrase s3 where pv: "ProvisionMasterKey demo_auth ?c ''u1'' ''correct horse'' s2 = (Inr phrase, s3)"
    using provision_succeeds [OF k demo_rand] by fastforce
  have i: "us_ID usr = ''u1''" using Register_user [OF g(1)] by (simp add: demo_call_def)
  have b: "as_limiter blank_state = DefaultRateLimiter" "\<not> HasAnyUsers (as_store blank_state)" by (simp_all add: demo_defs HasAnyUsers_def)
  have e: "he_auth demo_http = demo_auth" by (simp add: demo_http_def)
  have n: "rl_bans DefaultRateLimiter x = None" for x by (simp add: DefaultRateLimiter_def NewRateLimiter_def)
  have m: "Middleware demo_http ?c (requestFor ada_signup demo_req) blank_state = (Inr ?r, blank_state)"
    by (rule demo_anonymous) (simp_all add: ada_signup_def demo_public b n)
  show ?thesis unfolding serve_def prod.case m
    using g cs pv i b e n by (simp add: ada_signup_def handleRegister_def unlessBanned_free firstLogin_def withHooks_def withCookie_def writeJSON_def Let_def)
qed

theorem recovery_always_possible_witness:
  "\<exists>resp0 st1 su se phrase mk resp st3. serve demo_http (demo_call 0 ''u1'', demo_req, ada_signup) blank_state = (resp0, st1) \<and> rs_Body resp0 = BRegistered su se (Some phrase)
    \<and> serve demo_http (demo_call 9 ''u9'', demo_req, OpMasterKeyRecover (Some (''ada'', phrase, ''battery staple''))) (snd (runs (serve demo_http) [(demo_call 1 ''u2'', demo_req, OpAuthStatus)] st1)) = (resp, st3)
    \<and> rs_Status resp = 200 \<and> passwordOpens demo_auth ''u1'' ''battery staple'' mk (as_store st3)"
proof -
  obtain resp0 st1 su se phrase where r: "serve demo_http (demo_call 0 ''u1'', demo_req, ada_signup) blank_state = (resp0, st1)" "rs_Body resp0 = BRegistered su se (Some phrase)" "as_limiter st1 = DefaultRateLimiter"
    using ada_signed_up by blast
  have n: "rl_bans DefaultRateLimiter x = None" for x by (simp add: DefaultRateLimiter_def NewRateLimiter_def)
  have "Middleware demo_http (demo_call 1 ''u2'') (requestFor OpAuthStatus demo_req) st1 = (Inr (stripIdentity (requestFor OpAuthStatus demo_req)), st1)"
    by (rule demo_anonymous) (simp_all add: demo_public r(3) n)
  then obtain rs where q: "runs (serve demo_http) [(demo_call 1 ''u2'', demo_req, OpAuthStatus)] st1 = (rs, st1)" by (simp add: serve_def handleAuthStatus_def)
  have w: "store_wf (as_store blank_state)" by (simp add: store_wf_def users_ok_def sessions_ok_def profiles_ok_def blank_state_def)
  have "\<exists>mk resp st3. passwordOpens (he_auth demo_http) (ce_userID (demo_call 0 ''u1'')) ''correct horse'' mk (as_store st1)
    \<and> serve demo_http (demo_call 9 ''u9'', demo_req, OpMasterKeyRecover (Some (''ada'', phrase, ''battery staple''))) st1 = (resp, st3) \<and> rs_Status resp = 200
    \<and> VerifyUserPassword (he_auth demo_http) (ce_userID (demo_call 0 ''u1'')) ''battery staple'' (as_store st3)
    \<and> passwordOpens (he_auth demo_http) (ce_userID (demo_call 0 ''u1'')) ''battery staple'' mk (as_store st3) \<and> (\<forall>t. \<not> ownedBy (ce_userID (demo_call 0 ''u1'')) (as_store st3) t)"
  proof (rule recovery_always_possible [OF _ w r(1) [unfolded ada_signup_def] r(2) demo_fair demo_rand(1) q])
    show "crypto_ok (ae_mk (he_auth demo_http))" using demo_crypto_ok by (simp add: demo_http_def demo_auth_def)
  qed (simp_all add: fair_order_def rand_ok_def r(3) n verifyPassword_def isbcryptHash_def HasPrefix_def HeaderGet_def passwordLength_def minPasswordLength_def bcryptMaxBytes_def demo_defs)
  then show ?thesis using r(1,2) q by (auto simp: demo_http_def demo_call_def)
qed

end
