(* ===== verification/Auth_Takeover.thy ===== *)
theory Auth_Takeover
  imports Auth_Guess
begin

text \<open>
  Who can replace a password, and what becomes of the sessions; and where the admin token of
  the rotate route ends up.
\<close>

subsection \<open>Requests that leave every user's entry alone\<close>

lemmas quiet_ops = handleLogout_def handleRevokeOtherSessions_def handleUpdateProfile_def handleDeleteProfile_def handleSetRole_def handleSetPIN_def
  RevokeSession_def RevokeAllSessions_def RevokeOtherSessions_def putProfile_def SetProfile_def DeleteProfile_def SetRole_def SetPIN_def

lemma quiet_users:
  "handleLogout h c r st = (resp, st') \<Longrightarrow> st_users (as_store st') = st_users (as_store st)"
  "handleRevokeOtherSessions h c r st = (resp, st') \<Longrightarrow> st_users (as_store st') = st_users (as_store st)"
  "handleUpdateProfile c r u upd st = (resp, st') \<Longrightarrow> st_users (as_store st') = st_users (as_store st)"
  "handleDeleteProfile r u st = (resp, st') \<Longrightarrow> st_users (as_store st') = st_users (as_store st)"
  "handleSetRole h c r u role st = (resp, st') \<Longrightarrow> st_users (as_store st') = st_users (as_store st)"
  "handleSetPIN h c r pin st = (resp, st') \<Longrightarrow> st_users (as_store st') = st_users (as_store st)"
  by (auto simp: quiet_ops Let_def split: if_splits option.splits sum.splits prod.splits)

text \<open>The stored password hash of a user.\<close>

definition hashOf :: "AuthStore \<Rightarrow> string \<Rightarrow> string option" where
  "hashOf s userID = map_option us_PasswordHash (map_of (st_users s) userID)"

lemma hashOf_users: "st_users s' = st_users s \<Longrightarrow> hashOf s' uid = hashOf s uid"
  by (simp add: hashOf_def)

lemma hashOf_Login: "Login e c n p s = (x, s') \<Longrightarrow> hashOf s' uid = hashOf s uid"
  by (erule Login_E) (simp_all add: hashOf_def map_of_upsert)

lemma hashOf_CreateSession: "CreateSession e c u dev s = (se, s') \<Longrightarrow> hashOf s' uid = hashOf s uid"
  by (erule CreateSession_E) (simp add: hashOf_def)

lemma hashOf_Register: "Register e c n p d s = (x, s') \<Longrightarrow> ce_userID c \<noteq> uid \<Longrightarrow> hashOf s' uid = hashOf s uid"
  by (erule Register_E) (simp_all add: hashOf_def map_of_upsert)

lemma hashOf_Provision: "ProvisionMasterKey e c i p s = (x, s') \<Longrightarrow> hashOf s' uid = hashOf s uid"
  by (drule Provision_store) (auto simp: hashOf_def)

lemma hashOf_login_handler:
  assumes "handleLocalLogin h c r b st = (resp, st')"
  shows "hashOf (as_store st') uid = hashOf (as_store st) uid"
  using assms unfolding handleLocalLogin_def
  by (auto split: option.splits sum.splits prod.splits elim!: unlessBanned_E dest!: hashOf_Login [where uid = uid] hashOf_CreateSession [where uid = uid])

lemma hashOf_register_handler:
  assumes "handleRegister h c r b st = (resp, st')" "ce_userID c \<noteq> uid"
  shows "hashOf (as_store st') uid = hashOf (as_store st) uid"
  using assms(1) unfolding handleRegister_def firstLogin_def Let_def
  by (auto split: if_splits option.splits sum.splits prod.splits elim!: unlessBanned_E
    dest!: hashOf_Register [OF _ assms(2)] hashOf_CreateSession [where uid = uid] hashOf_Provision [where uid = uid])

subsection \<open>The three ways to a new password\<close>

lemma hashOf_resetLogin: "hashOf (resetLogin c i u pw gone s) uid = (if uid = i then Some (ce_bcrypt c pw) else hashOf s uid)"
  by (simp add: hashOf_def resetLogin_def map_of_upsert)

lemma ownedBy_resetLogin: "ownedBy uid (resetLogin c i u pw gone s) t \<longleftrightarrow> \<not> gone t \<and> ownedBy uid s t"
  by (simp add: ownedBy_def resetLogin_def map_of_delete_where)

lemma masterKeys_frame [simp]: "ownedBy uid (s\<lparr>st_masterKeys := m\<rparr>) = ownedBy uid s" "hashOf (s\<lparr>st_masterKeys := m\<rparr>) uid = hashOf s uid"
  by (simp_all add: ownedBy_def hashOf_def fun_eq_iff)

text \<open>What entitles the request of \<open>who\<close> to a new password for a user.\<close>

definition mayReset :: "auth_env \<Rightarrow> AuthStore \<Rightarrow> string \<Rightarrow> string \<Rightarrow> auth_op \<Rightarrow> bool" where
  "mayReset e s who userID op = (case op of
     OpChangePassword old new \<Rightarrow> who = userID \<and> (case map_of (st_users s) userID of None \<Rightarrow> False | Some u \<Rightarrow> us_PasswordHash u = [] \<or> verifyPassword e (us_PasswordHash u) old)
   | OpMasterKeyRecover (Some (n, phrase, new)) \<Rightarrow> named userID n s \<and> (case st_masterKeys s userID of None \<Rightarrow> False
       | Some blob \<Rightarrow> (case ParseMasterKeyEnvelope (ae_mk e) blob of Inl _ \<Rightarrow> False | Inr env \<Rightarrow> (case UnwrapWithMnemonic (ae_mk e) env phrase of Inl _ \<Rightarrow> False | Inr _ \<Rightarrow> True)))
   | OpMasterKeyResetActive (Some _) \<Rightarrow> who = userID
   | _ \<Rightarrow> False)"

lemma change_resets:
  assumes "handleChangePassword h c r old new st = (resp, st')" "hashOf (as_store st') uid \<noteq> hashOf (as_store st) uid"
  shows "mayReset (he_auth h) (as_store st) (caller r) uid (OpChangePassword old new) \<and> (\<forall>t. \<not> ownedBy uid (as_store st') t)"
proof -
  obtain x s1 where x: "ChangePassword (he_auth h) c (caller r) old new (as_store st) = (x, s1)" by fastforce
  obtain y s2 where y: "RewrapMasterKeyOnPasswordChange (he_auth h) c (caller r) old new s1 = (y, s2)" by fastforce
  obtain m where m: "s2 = s1\<lparr>st_masterKeys := m\<rparr>" using Rewrap_store [OF y] by blast
  have st': "as_store st' = as_store st \<or> as_store st' = s1 \<or> as_store st' = s2" using assms(1) x y by (auto simp: handleChangePassword_def split: if_splits sum.splits)
  from x show ?thesis
  proof (cases rule: ChangePassword_E)
    case (1 er)
    then show ?thesis using assms x st' m by (auto simp: handleChangePassword_def split: if_splits)
  next
    case (2 u)
    have "as_store st' = s2" using assms x y 2(1) by (auto simp: handleChangePassword_def split: if_splits)
    then have "uid = caller r" "\<not> ownedBy uid (as_store st') t" for t using assms(2) m 2(5) by (auto simp: hashOf_resetLogin ownedBy_resetLogin split: if_splits)
    then show ?thesis using 2(2,3) by (auto simp: mayReset_def)
  qed
qed

lemma ResetPasswordWithPhrase_opens:
  assumes "ResetPasswordWithPhrase e c uid phrase pw s = (Inr (), s')"
  shows "\<exists>blob env mk. st_masterKeys s uid = Some blob \<and> ParseMasterKeyEnvelope (ae_mk e) blob = Inr env \<and> UnwrapWithMnemonic (ae_mk e) env phrase = Inr mk"
proof -
  have l: "LoadMasterKeyBlob c 0 uid s \<noteq> []" and r: "rewrapBlob e c uid (\<lambda>env. RewrapPassword (ae_mk e) (ce_rand c) env phrase pw) s = (Inr (), s')"
    using assms by (auto simp: ResetPasswordWithPhrase_def split: if_splits)
  from r obtain env env' where v: "ParseMasterKeyEnvelope (ae_mk e) (LoadMasterKeyBlob c 0 uid s) = Inr env" "RewrapPassword (ae_mk e) (ce_rand c) env phrase pw = Inr env'"
    by (auto elim!: rewrapBlob_E)
  then obtain mk where "UnwrapWithMnemonic (ae_mk e) env phrase = Inr mk" by (auto simp: RewrapPassword_def split: if_splits sum.splits)
  then show ?thesis using LoadMasterKeyBlob_Some [OF l] v(1) by blast
qed

lemma recover_resets:
  assumes "store_wf (as_store st)" "handleMasterKeyRecover h c r b st = (resp, st')" "hashOf (as_store st') uid \<noteq> hashOf (as_store st) uid"
  shows "mayReset (he_auth h) (as_store st) who uid (OpMasterKeyRecover b) \<and> (\<forall>t. \<not> ownedBy uid (as_store st') t)"
proof -
  obtain n ph pw s1 where x: "b = Some (n, ph, pw)" "RecoverAccountWithPhrase (he_auth h) c n ph pw (as_store st) = (Inr (), s1)" "as_store st' = s1"
  proof -
    have "\<exists>n ph pw s1 y. b = Some (n, ph, pw) \<and> RecoverAccountWithPhrase (he_auth h) c n ph pw (as_store st) = (y, s1) \<and> as_store st' = s1"
      using assms(2,3) unfolding handleMasterKeyRecover_def by (auto split: option.splits if_splits sum.splits prod.splits elim!: unlessBanned_E)
    then obtain n ph pw s1 y where y: "b = Some (n, ph, pw)" "RecoverAccountWithPhrase (he_auth h) c n ph pw (as_store st) = (y, s1)" "as_store st' = s1" by blast
    have "y = Inr ()" using y(2) by (cases rule: Recover_E) (use y(3) assms(3) in auto)
    then show thesis using that y by simp
  qed
  from x(2) show ?thesis
  proof (cases rule: Recover_E)
    case (2 i u s2)
    obtain m where m: "s2 = (as_store st)\<lparr>st_masterKeys := m\<rparr>" using ResetWithPhrase_store [OF 2(6)] by blast
    have i: "us_ID u = i" using store_wfD(1) [OF assms(1) 2(4)] .
    have uid: "uid = i" using assms(3) x(3) 2(7) m by (auto simp: hashOf_resetLogin split: if_splits)
    then have "\<not> ownedBy uid (as_store st') t" for t using x(3) 2(7) i by (simp add: ownedBy_resetLogin)
    moreover have "named uid n (as_store st)" using 2(4,5) uid by (simp add: named_def)
    ultimately show ?thesis using ResetPasswordWithPhrase_opens [OF 2(6)] i uid x(1) by (auto simp: mayReset_def)
  qed simp
qed

lemma active_resets:
  assumes "handleMasterKeyResetActive h c r b st = (resp, st')" "hashOf (as_store st') uid \<noteq> hashOf (as_store st) uid"
  shows "mayReset (he_auth h) (as_store st) (caller r) uid (OpMasterKeyResetActive b) \<and> (\<forall>t. ownedBy uid (as_store st') t \<longrightarrow> t = extractToken r)"
proof -
  obtain pw js y s1 where x: "b = Some (pw, js)" "ResetPasswordWithSessionKey (he_auth h) c (caller r) (extractToken r) js pw (as_store st) = (y, s1)" "as_store st' = s1"
    using assms unfolding handleMasterKeyResetActive_def Let_def by (auto split: option.splits if_splits sum.splits prod.splits)
  from x(2) show ?thesis
  proof (cases rule: ResetActive_E)
    case (1 m er)
    then show ?thesis using assms(2) x(3) by simp
  next
    case (2 m u)
    have "uid = caller r" using assms(2) x(3) 2(4) by (auto simp: hashOf_resetLogin split: if_splits)
    moreover have "t = extractToken r" if "ownedBy uid (as_store st') t" for t using that x(3) 2(4) calculation by (auto simp: ownedBy_resetLogin)
    ultimately show ?thesis using x(1) by (auto simp: mayReset_def)
  qed
qed

lemma handle_resets:
  assumes "store_wf (as_store st)" "handle h c r op st = (resp, st')" "ce_userID c \<noteq> uid" "hashOf (as_store st') uid \<noteq> hashOf (as_store st) uid"
  shows "mayReset (he_auth h) (as_store st) (caller r) uid op \<and> (\<forall>t. ownedBy uid (as_store st') t \<longrightarrow> (\<exists>b. op = OpMasterKeyResetActive b) \<and> t = extractToken r)"
proof -
  have same: ?thesis if "st_users (as_store st') = st_users (as_store st)" using assms(4) hashOf_users [OF that] by simp
  show ?thesis
  proof (cases op)
    case (OpChangePassword a b)
    then show ?thesis using change_resets [OF _ assms(4)] assms(2) by simp
  next
    case (OpMasterKeyRecover b)
    then show ?thesis using recover_resets [OF assms(1) _ assms(4)] assms(2) by simp
  next
    case (OpMasterKeyResetActive b)
    then show ?thesis using active_resets [OF _ assms(4)] assms(2) by simp
  next
    case (OpRegister b)
    then show ?thesis using hashOf_register_handler [OF _ assms(3)] assms(2,4) by simp
  next
    case (OpLogin b)
    then show ?thesis using hashOf_login_handler assms(2,4) by simp
  next
    case (OpValidatePIN b)
    then show ?thesis using validate_store assms(2,4) by simp
  next
    case (OpDevicePINUnlock b)
    then show ?thesis using unlock_store assms(2,4) by simp
  next
    case OpAdminTokenRotate
    then show ?thesis using rotate_store assms(2,4) by simp
  next
    case OpLogout
    then show ?thesis using same quiet_users(1) assms(2) by simp
  next
    case OpRevokeOtherSessions
    then show ?thesis using same quiet_users(2) assms(2) by simp
  next
    case (OpUpdateProfile a b)
    then show ?thesis using same quiet_users(3) assms(2) by simp
  next
    case (OpDeleteProfile a)
    then show ?thesis using same quiet_users(4) assms(2) by simp
  next
    case (OpSetRole a b)
    then show ?thesis using same quiet_users(5) assms(2) by simp
  next
    case (OpSetPIN a)
    then show ?thesis using same quiet_users(6) assms(2) by simp
  qed (use assms(2,4) in \<open>auto simp: other_store split: if_splits option.splits prod.splits sum.splits\<close>)
qed

lemma extractToken_requestFor [simp]: "extractToken (requestFor op r) = extractToken r"
  by (simp add: extractToken_def requestFor_def HeaderGet_def)

text \<open>
  Claim C12. Nobody's password is replaced behind their back. A request after which the stored
  hash of an existing user differs is one the middleware identified as that user's own, carrying
  the old password (or the account had none) or the active-session reset, or it carries a phrase
  that opens that user's master key. And none of the user's sessions outlives the change, except
  the one that made an active-session reset.
\<close>

theorem password_reset_authorized:
  assumes "store_wf (as_store st)" "serve h (c, r, op) st = (resp, st')" "ce_userID c \<noteq> uid" "hashOf (as_store st') uid \<noteq> hashOf (as_store st) uid"
  shows "mayReset (he_auth h) (as_store st) (identity h c (requestFor op r) st) uid op
    \<and> (\<forall>t. ownedBy uid (as_store st') t \<longrightarrow> (\<exists>b. op = OpMasterKeyResetActive b) \<and> t = extractToken r)"
proof -
  obtain x st1 where m: "Middleware h c (requestFor op r) st = (x, st1)" by fastforce
  note s1 = Middleware_store [OF m]
  show ?thesis
  proof (cases x)
    case (Inl y)
    then show ?thesis using assms(2,4) m s1 by (simp add: serve_def)
  next
    case (Inr r1)
    have h: "handle h c r1 op st1 = (resp, st')" using assms(2) m Inr by (simp add: serve_def)
    have "sessionMiddleware h c st1 (requestFor op r) = Inr r1" using m by (cases rule: Middleware_E) (use Inr in simp_all)
    then have "same_request (requestFor op r) r1" by (rule sessionMiddleware_sound [THEN conjunct1])
    then have "extractToken r1 = extractToken r" using same_request_facts(1) by simp
    then show ?thesis using handle_resets [OF _ h assms(3)] assms(1,4) s1 m Inr by (simp add: identity_def)
  qed
qed

theorem password_reset_authorized_witness:
  "\<exists>resp st'. serve demo_http (demo_call 1 ''u2'', ada_req, OpChangePassword ''correct horse'' ''battery staple'') demo_state = (resp, st')
    \<and> hashOf (as_store st') ''u1'' = Some ''$2battery staple'' \<and> (\<forall>t. \<not> ownedBy ''u1'' (as_store st') t)"
proof -
  let ?op = "OpChangePassword ''correct horse'' ''battery staple''" and ?c = "demo_call 1 ''u2''"
  have m: "Middleware demo_http ?c (requestFor ?op ada_req) demo_state = (Inr (actAs ''u1'' [] (stripIdentity (requestFor ?op ada_req))), demo_state)"
    by (rule ada_middleware) (simp add: Day_def Minute_def)
  let ?s = "resetLogin ?c ''u1'' demo_user ''battery staple'' (ownedBy ''u1'' demo_store) demo_store"
  have p: "ChangePassword demo_auth ?c ''u1'' ''correct horse'' ''battery staple'' demo_store = (Inr (), ?s)"
    by (simp add: ChangePassword_def resetLogin_def verifyPassword_def isbcryptHash_def HasPrefix_def passwordLength_def minPasswordLength_def bcryptMaxBytes_def demo_defs)
  have k: "RewrapMasterKeyOnPasswordChange demo_auth ?c ''u1'' ''correct horse'' ''battery staple'' ?s = (Inr (), ?s)"
    by (simp add: RewrapMasterKeyOnPasswordChange_def LoadMasterKeyBlob_def resetLogin_def demo_store_def)
  have e: "he_auth demo_http = demo_auth" "as_store demo_state = demo_store" by (simp_all add: demo_http_def demo_state_def)
  obtain resp st' where sv: "serve demo_http (?c, ada_req, ?op) demo_state = (resp, st')" by fastforce
  have "as_store st' = ?s" using sv p k e unfolding serve_def prod.case m by (auto simp: handleChangePassword_def)
  then have h: "hashOf (as_store st') ''u1'' = Some ''$2battery staple''" by (simp add: hashOf_resetLogin demo_call_def)
  have h0: "hashOf (as_store demo_state) ''u1'' = Some ''$2correct horse''" by (simp add: hashOf_def demo_state_def demo_store_def demo_user_def)
  have "\<forall>t. ownedBy ''u1'' (as_store st') t \<longrightarrow> (\<exists>b. ?op = OpMasterKeyResetActive b) \<and> t = extractToken ada_req"
    by (rule password_reset_authorized [OF demo_wf sv, THEN conjunct2]) (simp_all add: demo_call_def h h0)
  then show ?thesis using sv h by auto
qed

subsection \<open>The file of the admin token\<close>

definition plainElem :: "string \<Rightarrow> bool" where
  "plainElem x \<longleftrightarrow> x \<noteq> [] \<and> x \<noteq> ''.'' \<and> x \<noteq> ''..'' \<and> CHR ''/'' \<notin> set x"

text \<open>The absolute path of the given elements.\<close>

definition rooted :: "string list \<Rightarrow> string" where
  "rooted es = ''/'' @ Join es ''/''"

lemma SplitAt_plain: "sep \<notin> set x \<Longrightarrow> SplitAt sep x acc = [rev acc @ x]"
  by (induction x arbitrary: acc) auto

lemma SplitAt_elem: "sep \<notin> set x \<Longrightarrow> SplitAt sep (x @ sep # q) acc = (rev acc @ x) # SplitAt sep q []"
  by (induction x arbitrary: acc) auto

lemma SplitAt_Join: "es \<noteq> [] \<Longrightarrow> list_all plainElem es \<Longrightarrow> SplitAt (CHR ''/'') (Join es ''/'') [] = es"
proof (induction es)
  case (Cons e es)
  have "CHR ''/'' \<notin> set e" using Cons.prems(2) by (simp add: plainElem_def)
  then show ?case using Cons by (cases es) (simp_all add: SplitAt_plain SplitAt_elem)
qed simp

lemma cleanElems_plain: "list_all plainElem es \<Longrightarrow> cleanElems b es out = rev out @ es"
  by (induction es arbitrary: out) (simp_all add: plainElem_def)

lemma Clean_rooted: "es \<noteq> [] \<Longrightarrow> list_all plainElem es \<Longrightarrow> Clean (rooted es) = rooted es"
  by (simp add: Clean_def rooted_def SplitAt_Join cleanElems_plain)

lemma Join_append: "es \<noteq> [] \<Longrightarrow> fs \<noteq> [] \<Longrightarrow> Join (es @ fs) sep = Join es sep @ sep @ Join fs sep"
proof (induction es sep rule: Join.induct)
  case (2 w sep)
  then show ?case by (cases fs) simp_all
qed simp_all

lemma rooted_append: "es \<noteq> [] \<Longrightarrow> rooted es @ ''/'' @ Join fs ''/'' = rooted (es @ fs)" if "fs \<noteq> []"
  using that by (simp add: rooted_def Join_append)

lemma rooted_inj: "es \<noteq> [] \<Longrightarrow> fs \<noteq> [] \<Longrightarrow> list_all plainElem es \<Longrightarrow> list_all plainElem fs \<Longrightarrow> rooted es = rooted fs \<Longrightarrow> es = fs"
  unfolding rooted_def using SplitAt_Join by (metis append_same_eq same_append_eq)

lemma token_paths_differ:
  assumes "es \<noteq> []" "list_all plainElem es" "he_HOME h = rooted es" "he_VULOS_DATA_DIR h = []"
  shows "at10TokenPath (dataRoot h) \<noteq> at10TokenPath (UserHomeDir h)"
proof -
  have pl: "plainElem ''.vulos''" "plainElem ''db''" "plainElem ''admin-token.json''" by (simp_all add: plainElem_def)
  have path: "at10TokenPath (rooted xs) = rooted (xs @ [''db'', ''admin-token.json''])" if "xs \<noteq> []" "list_all plainElem xs" for xs
  proof -
    have "rooted xs @ ''/db/admin-token.json'' = rooted (xs @ [''db'', ''admin-token.json''])" using rooted_append [OF _ that(1), of "[''db'', ''admin-token.json'']"] by simp
    then show ?thesis using Clean_rooted [of "xs @ [''db'', ''admin-token.json'']"] that pl by (simp add: at10TokenPath_def rooted_def)
  qed
  have "rooted es @ ''/.vulos'' = rooted (es @ [''.vulos''])" using rooted_append [OF _ assms(1), of "[''.vulos'']"] by simp
  then have root: "dataRoot h = rooted (es @ [''.vulos''])" using Clean_rooted [of "es @ [''.vulos'']"] assms pl by (simp add: dataRoot_def rooted_def)
  show ?thesis
  proof
    assume "at10TokenPath (dataRoot h) = at10TokenPath (UserHomeDir h)"
    then have "rooted (es @ [''.vulos'', ''db'', ''admin-token.json'']) = rooted (es @ [''db'', ''admin-token.json''])"
      using path [of "es @ [''.vulos'']"] path [OF assms(1,2)] root assms pl by (simp add: UserHomeDir_def)
    then have "es @ [''.vulos'', ''db'', ''admin-token.json''] = es @ [''db'', ''admin-token.json'']" by (rule rooted_inj [rotated 4]) (use assms pl in auto)
    then show False by simp
  qed
qed

text \<open>Only the rotate route writes the token file.\<close>

lemma Middleware_files: "Middleware h c r st = (x, st1) \<Longrightarrow> as_files st1 = as_files st"
  by (auto simp: Middleware_def Let_def split: prod.splits bool.splits)

lemma guarded_files:
  "handleRegister h c r b st = (resp, st') \<Longrightarrow> as_files st' = as_files st"
  "handleLocalLogin h c r b1 st = (resp, st') \<Longrightarrow> as_files st' = as_files st"
  "handleMasterKeyRecover h c r b2 st = (resp, st') \<Longrightarrow> as_files st' = as_files st"
  "handleValidatePIN h c r b3 st = (resp, st') \<Longrightarrow> as_files st' = as_files st"
  "handleDevicePINUnlock h c r b4 st = (resp, st') \<Longrightarrow> as_files st' = as_files st"
proof -
  have rec [simp]: "as_files (countFailure h c r st) = as_files st" "as_files (countSuccess h r st) = as_files st" for st
    by (simp_all add: countFailure_def countSuccess_def)
  show "handleRegister h c r b st = (resp, st') \<Longrightarrow> as_files st' = as_files st"
    unfolding handleRegister_def firstLogin_def Let_def by (auto split: if_splits option.splits sum.splits prod.splits elim!: unlessBanned_E)
  show "handleLocalLogin h c r b1 st = (resp, st') \<Longrightarrow> as_files st' = as_files st"
    unfolding handleLocalLogin_def by (auto split: option.splits sum.splits prod.splits elim!: unlessBanned_E)
  show "handleMasterKeyRecover h c r b2 st = (resp, st') \<Longrightarrow> as_files st' = as_files st"
    unfolding handleMasterKeyRecover_def by (auto split: if_splits option.splits sum.splits prod.splits elim!: unlessBanned_E)
  show "handleValidatePIN h c r b3 st = (resp, st') \<Longrightarrow> as_files st' = as_files st"
    by (auto simp: handleValidatePIN_def Let_def split: if_splits option.splits elim!: unlessBanned_E)
  show "handleDevicePINUnlock h c r b4 st = (resp, st') \<Longrightarrow> as_files st' = as_files st"
    unfolding handleDevicePINUnlock_def by (auto split: if_splits option.splits sum.splits prod.splits elim!: unlessBanned_E)
qed

lemma rotate_files: "handleAdminTokenRotate h c r st = (resp, st') \<Longrightarrow> p \<noteq> at10TokenPath (dataRoot h) \<Longrightarrow> as_files st' p = as_files st p"
  by (auto simp: handleAdminTokenRotate_def IssueAdminToken_def at10Write_def Let_def split: if_splits option.splits prod.splits)

lemma plain_files:
  "handleChangePassword h c r old new st = (resp, st') \<Longrightarrow> as_files st' = as_files st"
  "handleMasterKeyResetActive h c r b st = (resp, st') \<Longrightarrow> as_files st' = as_files st"
  "handleLogout h c r st = (resp, st') \<Longrightarrow> as_files st' = as_files st"
  "handleRevokeOtherSessions h c r st = (resp, st') \<Longrightarrow> as_files st' = as_files st"
  "handleUpdateProfile c r u upd st = (resp, st') \<Longrightarrow> as_files st' = as_files st"
  "handleDeleteProfile r u st = (resp, st') \<Longrightarrow> as_files st' = as_files st"
  "handleSetRole h c r u role st = (resp, st') \<Longrightarrow> as_files st' = as_files st"
  "handleSetPIN h c r pin st = (resp, st') \<Longrightarrow> as_files st' = as_files st"
  by (auto simp: other_limiter Let_def split: if_splits option.splits sum.splits prod.splits)

lemma handle_files:
  assumes "handle h c r op st = (resp, st')" "p \<noteq> at10TokenPath (dataRoot h)"
  shows "as_files st' p = as_files st p"
proof (cases op)
  case OpAdminTokenRotate
  then show ?thesis using rotate_files [OF _ assms(2)] assms(1) by simp
next
  case (OpRegister b)
  then show ?thesis using guarded_files(1) assms(1) by simp
next
  case (OpLogin b)
  then show ?thesis using guarded_files(2) assms(1) by simp
next
  case (OpMasterKeyRecover b)
  then show ?thesis using guarded_files(3) assms(1) by simp
next
  case (OpValidatePIN b)
  then show ?thesis using guarded_files(4) assms(1) by simp
next
  case (OpDevicePINUnlock b)
  then show ?thesis using guarded_files(5) assms(1) by simp
qed (use assms(1) in \<open>simp_all add: plain_files\<close>,
  use assms(1) in \<open>auto simp: other_store split: if_splits option.splits prod.splits sum.splits\<close>)

interpretation token_file: kept "serve h" "\<lambda>_. True" "\<lambda>st. p \<noteq> at10TokenPath (dataRoot h) \<longrightarrow> as_files st p = None" for h p
proof
  fix q st resp st'
  assume a: "p \<noteq> at10TokenPath (dataRoot h) \<longrightarrow> as_files st p = None" "serve h q st = (resp, st')"
  obtain c r op where q: "q = (c, r, op)" by (cases q)
  obtain x st1 where m: "Middleware h c (requestFor op r) st = (x, st1)" by fastforce
  show "p \<noteq> at10TokenPath (dataRoot h) \<longrightarrow> as_files st' p = None"
  proof (cases x)
    case (Inl y)
    then show ?thesis using a q m Middleware_files [OF m] by (simp add: serve_def)
  next
    case (Inr r1)
    then have "handle h c r1 op st1 = (resp, st')" using a(2) q m by (simp add: serve_def)
    then show ?thesis using handle_files a(1) Middleware_files [OF m] by simp
  qed
qed

text \<open>
  Claim C25. The admin token never works on a box with a home directory and no data directory
  of its own: the rotate route stores it under \<open>$HOME/.vulos/db\<close>, the middleware looks for it
  under \<open>$HOME/db\<close>. Whatever requests are served, rotations included, no later request is
  authenticated by an admin token, unless a file was already there.
\<close>

theorem rotated_admin_token_refused:
  assumes "he_HOME h = rooted es" "es \<noteq> []" "list_all plainElem es" "he_VULOS_DATA_DIR h = []"
    and "as_files st (at10TokenPath (UserHomeDir h)) = None" "runs (serve h) qs st = (rs, st')"
  shows "adminAuth h c st' r = r \<and> \<not> byAdminToken h c st' r u"
proof -
  have "at10TokenPath (UserHomeDir h) \<noteq> at10TokenPath (dataRoot h)" using token_paths_differ [OF assms(2,3,1,4)] by metis
  moreover have "list_all (\<lambda>_. True) qs" by (simp add: list_all_iff)
  ultimately have "as_files st' (at10TokenPath (UserHomeDir h)) = None" using token_file.inv_runs [OF _ _ assms(6), of "at10TokenPath (UserHomeDir h)"] assms(5) by simp
  then show ?thesis by (simp add: adminAuth_def ValidateAdminToken_def at10Read_def byAdminToken_def)
qed

theorem rotated_admin_token_refused_witness:
  "\<exists>resp tok until st'. serve demo_http (demo_call 1 ''u2'', ada_req, OpAdminTokenRotate) demo_state = (resp, st') \<and> rs_Body resp = BAdminToken tok until
    \<and> adminAuth demo_http (demo_call 2 ''u3'') st' (HeaderSet ''Authorization'' (''Bearer '' @ tok) demo_req) = HeaderSet ''Authorization'' (''Bearer '' @ tok) demo_req"
proof -
  let ?c = "demo_call 1 ''u2''"
  have m: "Middleware demo_http ?c (requestFor OpAdminTokenRotate ada_req) demo_state = (Inr (actAs ''u1'' [] (stripIdentity (requestFor OpAdminTokenRotate ada_req))), demo_state)"
    by (rule ada_middleware) (simp add: Day_def Minute_def)
  have ad: "isAdmin (as_store demo_state) ''u1''" by (simp add: isAdmin_def GetProfile_def demo_defs)
  obtain resp st' where sv: "serve demo_http (?c, ada_req, OpAdminTokenRotate) demo_state = (resp, st')" by fastforce
  have "\<exists>tok until. rs_Body resp = BAdminToken tok until" using sv ad unfolding serve_def prod.case m
    by (auto simp: handleAdminTokenRotate_def IssueAdminToken_def at10Write_def demo_call_def writeJSON_def Let_def)
  moreover have "adminAuth demo_http c st' r = r" for c r
    by (rule rotated_admin_token_refused [of demo_http "[''root'']" demo_state "[(?c, ada_req, OpAdminTokenRotate)]", THEN conjunct1])
      (use sv in \<open>simp_all add: demo_http_def rooted_def plainElem_def demo_state_def\<close>)
  ultimately show ?thesis using sv by blast
qed

end
