(* ===== verification/Auth_Stepup.thy ===== *)
theory Auth_Stepup
  imports Auth_Run
begin

text \<open>
  Step-up confirmation (\<open>backend/services/stepup/stepup.go\<close> and \<open>cmd/server/routes_stepup.go\<close>):
  a signed-in user proves the password again and gets a token that privileged handlers ask for
  in addition to the session. The token is a payload and its HMAC under a key derived from the
  secret file of the session tokens. HMAC-SHA256 and the unpadded URL-safe base64 are
  parameters. A failed write of a new secret leaves the file as it was or, when it was already
  opened, empty.
\<close>

record stepup_env =
  se_http :: http_env
  se_hmac :: "bytes \<Rightarrow> bytes \<Rightarrow> bytes"
  se_b64 :: "bytes \<Rightarrow> string"
  se_unb64 :: "string \<Rightarrow> bytes option"
  se_hasStore :: bool

record stepup_state =
  su_auth :: auth_state
  su_limiter :: RateLimiter

definition TTL :: int where
  "TTL = 5 * Minute"

definition CookieName :: string where
  "CookieName = ''vulos_stepup''"

definition headerName :: string where
  "headerName = ''X-Stepup-Token''"

definition domainLabel :: string where
  "domainLabel = ''vulos-stepup-token-v1''"

text \<open>Seconds since the epoch of a time in nanoseconds.\<close>

definition Unix :: "int \<Rightarrow> int" where
  "Unix t = t div 1000000000"

subsection \<open>The signing key\<close>

definition authSecretPath :: "http_env \<Rightarrow> string" where
  "authSecretPath h = Clean (dataRoot h @ ''/db/auth.key'')"

definition createSecret :: "http_env \<Rightarrow> call_env \<Rightarrow> auth_state \<Rightarrow> bytes option \<times> auth_state" where
  "createSecret h c st =
     (case ce_rand c 0 32 of None \<Rightarrow> (None, st)
      | Some secret \<Rightarrow>
          if \<not> ce_io c 1 \<or> \<not> ce_io c 2 then (None, st)
          else if \<not> ce_io c 3 then (None, st\<lparr>as_files := (as_files st)(authSecretPath h \<mapsto> [])\<rparr>)
          else (Some secret, st\<lparr>as_files := (as_files st)(authSecretPath h \<mapsto> secret)\<rparr>))"

definition authSecret :: "http_env \<Rightarrow> call_env \<Rightarrow> auth_state \<Rightarrow> bytes option \<times> auth_state" where
  "authSecret h c st =
     (case (if ce_io c 0 then as_files st (authSecretPath h) else None) of
        Some data \<Rightarrow> if length data \<ge> 32 then (Some data, st) else createSecret h c st
      | None \<Rightarrow> createSecret h c st)"

definition hmacKey :: "stepup_env \<Rightarrow> call_env \<Rightarrow> auth_state \<Rightarrow> bytes option \<times> auth_state" where
  "hmacKey e c st = (case authSecret (se_http e) c st of (secret, st1) \<Rightarrow> (map_option (\<lambda>s. se_hmac e s domainLabel) secret, st1))"

subsection \<open>Tokens\<close>

definition stepupPayload :: "string \<Rightarrow> int \<Rightarrow> string \<Rightarrow> string" where
  "stepupPayload userID expUnix nonce = userID @ ''|'' @ FormatInt expUnix @ ''|'' @ nonce"

definition Mint :: "stepup_env \<Rightarrow> call_env \<Rightarrow> string \<Rightarrow> auth_state \<Rightarrow> (string \<times> int) option \<times> auth_state" where
  "Mint e c userID st =
     (if TrimSpace userID = [] then (None, st)
      else case hmacKey e c st of
        (None, st1) \<Rightarrow> (None, st1)
      | (Some key, st1) \<Rightarrow>
          (case ce_rand c 1 16 of None \<Rightarrow> (None, st1)
           | Some nonce \<Rightarrow>
               let expires = ce_now c + TTL; payload = stepupPayload userID (Unix expires) (se_b64 e nonce)
               in (Some (se_b64 e payload @ ''.'' @ se_b64 e (se_hmac e key payload), expires), st1)))"

text \<open>The payload of a token and the signature it comes with.\<close>

definition tokenParts :: "stepup_env \<Rightarrow> string \<Rightarrow> (string \<times> bytes) option" where
  "tokenParts e token = (case SplitN2 (CHR ''.'') token of (_, None) \<Rightarrow> None
     | (a, Some b) \<Rightarrow> (case se_unb64 e a of None \<Rightarrow> None
        | Some payloadRaw \<Rightarrow> (case se_unb64 e b of None \<Rightarrow> None | Some sigGiven \<Rightarrow> Some (payloadRaw, sigGiven))))"

definition payloadValid :: "int \<Rightarrow> string \<Rightarrow> string \<Rightarrow> bool" where
  "payloadValid now payload userID = (case SplitN2 (CHR ''|'') payload of (_, None) \<Rightarrow> False
     | (uid, Some rest) \<Rightarrow> (case SplitN2 (CHR ''|'') rest of (_, None) \<Rightarrow> False
        | (expires, Some _) \<Rightarrow> uid = userID \<and> (case ParseInt expires of None \<Rightarrow> False | Some expUnix \<Rightarrow> \<not> Unix now > expUnix)))"

definition VerifyElevation :: "stepup_env \<Rightarrow> call_env \<Rightarrow> string \<Rightarrow> string \<Rightarrow> auth_state \<Rightarrow> bool \<times> auth_state" where
  "VerifyElevation e c token userID st =
     (if token = [] \<or> userID = [] then (False, st)
      else case hmacKey e c st of
        (None, st1) \<Rightarrow> (False, st1)
      | (Some key, st1) \<Rightarrow>
          (case tokenParts e token of None \<Rightarrow> False
           | Some (payload, sigGiven) \<Rightarrow> se_hmac e key payload = sigGiven \<and> payloadValid (ce_now c) payload userID, st1))"

definition tokenFromRequest :: "http_req \<Rightarrow> string" where
  "tokenFromRequest r = (case rq_Cookie r CookieName of
     Some v \<Rightarrow> if v \<noteq> [] then v else HeaderGet r headerName
   | None \<Rightarrow> HeaderGet r headerName)"

definition Require :: "stepup_env \<Rightarrow> call_env \<Rightarrow> http_req \<Rightarrow> auth_state \<Rightarrow> bool \<times> auth_state" where
  "Require e c r st =
     (if caller r = [] then (False, st)
      else if tokenFromRequest r = [] then (False, st)
      else VerifyElevation e c (tokenFromRequest r) (caller r) st)"

definition splitHostPort :: "string \<Rightarrow> string \<times> string" where
  "splitHostPort hostport = (case splitLast (CHR '':'') hostport of None \<Rightarrow> (hostport, []) | Some hp \<Rightarrow> hp)"

definition buildCookie :: "http_req \<Rightarrow> string \<Rightarrow> int \<Rightarrow> Cookie" where
  "buildCookie r token ttl =
     (let isSecure = (rq_TLS r \<or> (fromTrustedProxy (fst (splitHostPort (rq_RemoteAddr r))) \<and> HeaderGet r ''X-Forwarded-Proto'' = ''https''))
      in \<lparr>ck_Name = CookieName, ck_Value = token, ck_Path = ''/'', ck_Domain = [], ck_MaxAge = max 0 (ttl div 1000000000),
          ck_HttpOnly = True, ck_SameSiteNone = isSecure, ck_Secure = isSecure\<rparr>)"

subsection \<open>The route\<close>

text \<open>An answer that elevates names the user it elevates.\<close>

datatype stepup_resp = StepupRefused int string | Elevated string string int Cookie

definition handleStepupVerify :: "stepup_env \<Rightarrow> call_env \<Rightarrow> http_req \<Rightarrow> string option \<Rightarrow> stepup_state \<Rightarrow> stepup_resp \<times> stepup_state" where
  "handleStepupVerify e c r body st =
     (if caller r = [] then (StepupRefused 401 ''unauthorized'', st)
      else if \<not> se_hasStore e then (StepupRefused 403 ''step-up unavailable'', st)
      else case IsBanned (stepupClientIP r) (ce_now c) (su_limiter st) of
        (True, rl) \<Rightarrow> (StepupRefused 429 ''too many attempts'', st\<lparr>su_limiter := rl\<rparr>)
      | (False, rl) \<Rightarrow>
          (case body of None \<Rightarrow> (StepupRefused 400 ''invalid JSON body'', st\<lparr>su_limiter := rl\<rparr>)
           | Some password \<Rightarrow>
               if password = [] then (StepupRefused 400 ''password required'', st\<lparr>su_limiter := rl\<rparr>)
               else if \<not> VerifyUserPassword (he_auth (se_http e)) (caller r) password (as_store (su_auth st))
               then (StepupRefused 401 ''incorrect password'', st\<lparr>su_limiter := RecordFailureIP (stepupClientIP r) (ce_now c) rl\<rparr>)
               else let st1 = st\<lparr>su_limiter := RecordSuccessIP (stepupClientIP r) rl\<rparr> in
                 (case Mint e c (caller r) (su_auth st1) of
                    (None, a) \<Rightarrow> (StepupRefused 500 ''could not elevate session'', st1\<lparr>su_auth := a\<rparr>)
                  | (Some (token, expires), a) \<Rightarrow> (Elevated (caller r) token expires (buildCookie r token (expires - ce_now c)), st1\<lparr>su_auth := a\<rparr>))))"

definition stepupRequest :: "http_req \<Rightarrow> http_req" where
  "stepupRequest r = r\<lparr>rq_Method := ''POST'', rq_Path := ''/api/auth/stepup/verify''\<rparr>"

text \<open>The requests of the box: those of this route, and the others.\<close>

datatype box_call = Elevate call_env http_req "string option" | Ordinary call_env http_req auth_op

datatype box_answer = StepupAnswer stepup_resp | OrdinaryAnswer auth_resp

fun boxStep :: "stepup_env \<Rightarrow> box_call \<Rightarrow> stepup_state \<Rightarrow> box_answer \<times> stepup_state" where
  "boxStep e (Elevate c r body) st =
     (case Middleware (se_http e) c (stepupRequest r) (su_auth st) of
        (Inl resp, a) \<Rightarrow> (OrdinaryAnswer resp, st\<lparr>su_auth := a\<rparr>)
      | (Inr r1, a) \<Rightarrow> (case handleStepupVerify e c r1 body (st\<lparr>su_auth := a\<rparr>) of (resp, st1) \<Rightarrow> (StepupAnswer resp, st1)))"
| "boxStep e (Ordinary c r op) st =
     (case serve (se_http e) (c, r, op) (su_auth st) of (resp, a) \<Rightarrow> (OrdinaryAnswer resp, st\<lparr>su_auth := a\<rparr>))"

subsection \<open>Elevation follows the password\<close>

definition base64_ok :: "stepup_env \<Rightarrow> bool" where
  "base64_ok e \<longleftrightarrow> (\<forall>b. se_unb64 e (se_b64 e b) = Some b \<and> CHR ''.'' \<notin> set (se_b64 e b))"

lemma FormatInt_no_bar: "CHR ''|'' \<notin> set (FormatInt i)"
proof -
  have "\<not> is_digit (CHR ''|'')" by (simp add: is_digit_def)
  then have "CHR ''|'' \<notin> set (format_nat n)" for n using format_nat_digits(1) [of n] by (auto simp: list_all_iff)
  then show ?thesis by (simp add: FormatInt_def)
qed

lemma ParseInt_back: "ParseInt (FormatInt i) = Some j \<Longrightarrow> j = i"
proof -
  assume p: "ParseInt (FormatInt i) = Some j"
  obtain c cs where f: "format_nat (nat i) = c # cs" using format_nat_digits(2) by (cases "format_nat (nat i)") auto
  have c: "c \<noteq> CHR ''-''" "c \<noteq> CHR ''+''" using format_nat_digits(3) [of "nat i"] f by auto
  show ?thesis using p c f parse_format_nat [of "nat i"] parse_format_nat [of "nat (- i)"]
    by (auto simp: ParseInt_def FormatInt_def Let_def split: if_splits)
qed

lemma Unix_close: "Unix a \<le> Unix b \<Longrightarrow> a < b + 1000000000"
proof -
  define k :: int where "k = 1000000000"
  assume "Unix a \<le> Unix b"
  then have "a div k \<le> b div k" by (simp add: Unix_def k_def)
  moreover have "0 < k" by (simp add: k_def)
  ultimately have "k * (a div k) \<le> k * (b div k)" by (simp add: mult_left_mono)
  moreover have "k * (a div k) + a mod k = a" "k * (b div k) + b mod k = b" by simp_all
  moreover have "a mod k < k" "0 \<le> b mod k" using \<open>0 < k\<close> by simp_all
  ultimately have "a < b + k" by linarith
  then show ?thesis by (simp add: k_def)
qed

lemma payloadValid_payload:
  assumes "CHR ''|'' \<notin> set u" "payloadValid now (stepupPayload u x nonce) v"
  shows "v = u \<and> Unix now \<le> x"
proof -
  have "SplitN2 (CHR ''|'') (stepupPayload u x nonce) = (u, Some (FormatInt x @ CHR ''|'' # nonce))" using SplitN2_join [OF assms(1)] by (simp add: stepupPayload_def)
  moreover have "SplitN2 (CHR ''|'') (FormatInt x @ CHR ''|'' # nonce) = (FormatInt x, Some nonce)" using SplitN2_join [OF FormatInt_no_bar] .
  ultimately show ?thesis using assms(2) by (auto simp: payloadValid_def split: option.splits dest!: ParseInt_back)
qed

lemma Mint_token:
  assumes "base64_ok e" "Mint e c u st = (Some (tok, expires), st')"
  shows "\<exists>nonce sig. tokenParts e tok = Some (stepupPayload u (Unix (ce_now c + TTL)) nonce, sig)"
proof -
  obtain key nonce where "tok = (let payload = stepupPayload u (Unix (ce_now c + TTL)) (se_b64 e nonce) in se_b64 e payload @ ''.'' @ se_b64 e (se_hmac e key payload))"
    using assms(2) by (auto simp: Mint_def Let_def split: if_splits option.splits prod.splits)
  then show ?thesis using assms(1) SplitN2_join [of "CHR ''.''"] by (auto simp: base64_ok_def tokenParts_def Let_def)
qed

lemma runs_answer:
  assumes "runs step qs s = (es, s')" "ev \<in> set es"
  shows "\<exists>qs1 q qs2 es1 s1 s2. qs = qs1 @ q # qs2 \<and> runs step qs1 s = (es1, s1) \<and> step q s1 = (ev, s2)"
  using assms
proof (induction qs arbitrary: s es)
  case (Cons q qs)
  obtain e1 s1 where st: "step q s = (e1, s1)" by fastforce
  obtain es1 where r: "runs step qs s1 = (es1, s')" "es = e1 # es1" using Cons.prems(1) st by (auto split: prod.splits)
  show ?case
  proof (cases "ev = e1")
    case True
    then show ?thesis using st by (intro exI [of _ "[]"] exI [of _ q] exI [of _ qs] exI [of _ "[]"] exI [of _ s] exI [of _ s1]) simp
  next
    case False
    then have "ev \<in> set es1" using Cons.prems(2) r(2) by simp
    from Cons.IH [OF r(1) this] obtain qs1 q' qs2 es2 t1 t2 where "qs = qs1 @ q' # qs2" "runs step qs1 s1 = (es2, t1)" "step q' t1 = (ev, t2)" by blast
    then show ?thesis using st by (intro exI [of _ "q # qs1"] exI [of _ q'] exI [of _ qs2] exI [of _ "e1 # es2"] exI [of _ t1] exI [of _ t2]) simp
  qed
qed simp

lemma boxStep_elevates:
  assumes "boxStep e q st = (StepupAnswer (Elevated u tok expires ck), st')"
  shows "\<exists>c r pw a a'. q = Elevate c r (Some pw) \<and> u = identity (se_http e) c (stepupRequest r) (su_auth st) \<and> u \<noteq> []
    \<and> VerifyUserPassword (he_auth (se_http e)) u pw (as_store (su_auth st)) \<and> Mint e c u a = (Some (tok, expires), a')"
proof (cases q)
  case (Elevate c r body)
  obtain x a where m: "Middleware (se_http e) c (stepupRequest r) (su_auth st) = (x, a)" by fastforce
  obtain r1 where x: "x = Inr r1" using assms Elevate m by (cases x) auto
  have h: "handleStepupVerify e c r1 body (st\<lparr>su_auth := a\<rparr>) = (Elevated u tok expires ck, st')" using assms Elevate m x by (auto split: prod.splits)
  have i: "identity (se_http e) c (stepupRequest r) (su_auth st) = caller r1" using m x by (simp add: identity_def)
  obtain pw a' where "body = Some pw" "u = caller r1" "caller r1 \<noteq> []" "VerifyUserPassword (he_auth (se_http e)) u pw (as_store a)" "Mint e c u a = (Some (tok, expires), a')"
    using h by (auto simp: handleStepupVerify_def Let_def split: if_splits option.splits prod.splits bool.splits)
  then show ?thesis using Elevate i Middleware_store [OF m] by auto
qed (use assms in \<open>auto split: prod.splits\<close>)

text \<open>A request carries a payload with a signature that verifies; a payload was signed during a run.\<close>

definition carries :: "stepup_env \<Rightarrow> call_env \<Rightarrow> http_req \<Rightarrow> auth_state \<Rightarrow> string \<Rightarrow> bool" where
  "carries e c r st payload \<longleftrightarrow> (\<exists>key sig. fst (hmacKey e c st) = Some key \<and> tokenParts e (tokenFromRequest r) = Some (payload, sig) \<and> se_hmac e key payload = sig)"

definition signed :: "stepup_env \<Rightarrow> box_answer list \<Rightarrow> string \<Rightarrow> bool" where
  "signed e rs payload \<longleftrightarrow> (\<exists>u tok expires ck sig. StepupAnswer (Elevated u tok expires ck) \<in> set rs \<and> tokenParts e tok = Some (payload, sig))"

text \<open>
  Claim C16. An elevated request follows a recent password. Through any requests of anybody, a
  request passes the step-up check only if its user answered the step-up route with the right
  password, as the store had it then, and no more than five minutes ago, give or take the second
  the expiry is rounded to. The HMAC must not be forgeable (a signature that verifies is on a
  payload the box has signed) and no user identifier may contain a bar.
\<close>

theorem elevation_needs_password:
  assumes "base64_ok e" "runs (boxStep e) qs st = (rs, st')" "\<forall>u tok x ck. StepupAnswer (Elevated u tok x ck) \<in> set rs \<longrightarrow> CHR ''|'' \<notin> set u"
    and "\<forall>payload. carries e c r (su_auth st') payload \<longrightarrow> signed e rs payload" "fst (Require e c r (su_auth st'))"
  shows "\<exists>qs1 c0 r0 pw qs2 rs1 st1. qs = qs1 @ Elevate c0 r0 (Some pw) # qs2 \<and> runs (boxStep e) qs1 st = (rs1, st1)
    \<and> identity (se_http e) c0 (stepupRequest r0) (su_auth st1) = caller r
    \<and> VerifyUserPassword (he_auth (se_http e)) (caller r) pw (as_store (su_auth st1)) \<and> ce_now c < ce_now c0 + TTL + 1000000000"
proof -
  obtain key payload where p: "tokenParts e (tokenFromRequest r) = Some (payload, se_hmac e key payload)" "fst (hmacKey e c (su_auth st')) = Some key" "payloadValid (ce_now c) payload (caller r)"
    using assms(5) by (auto simp: Require_def VerifyElevation_def split: if_splits option.splits prod.splits)
  then have "signed e rs payload" using assms(4) by (auto simp: carries_def)
  then obtain u tok x ck sig where a: "StepupAnswer (Elevated u tok x ck) \<in> set rs" "tokenParts e tok = Some (payload, sig)" unfolding signed_def by blast
  obtain qs1 q qs2 rs1 st1 st2 where q: "qs = qs1 @ q # qs2" "runs (boxStep e) qs1 st = (rs1, st1)" "boxStep e q st1 = (StepupAnswer (Elevated u tok x ck), st2)"
    using runs_answer [OF assms(2) a(1)] by blast
  obtain c0 r0 pw b b' where v: "q = Elevate c0 r0 (Some pw)" "u = identity (se_http e) c0 (stepupRequest r0) (su_auth st1)"
    "VerifyUserPassword (he_auth (se_http e)) u pw (as_store (su_auth st1))" "Mint e c0 u b = (Some (tok, x), b')" using boxStep_elevates [OF q(3)] by blast
  obtain nonce where n: "payload = stepupPayload u (Unix (ce_now c0 + TTL)) nonce" using Mint_token [OF assms(1) v(4)] a(2) by auto
  have "CHR ''|'' \<notin> set u" using assms(3) a(1) by blast
  then have "caller r = u \<and> Unix (ce_now c) \<le> Unix (ce_now c0 + TTL)" using p(3) unfolding n by (rule payloadValid_payload)
  then have "identity (se_http e) c0 (stepupRequest r0) (su_auth st1) = caller r" "VerifyUserPassword (he_auth (se_http e)) (caller r) pw (as_store (su_auth st1))" "ce_now c < ce_now c0 + TTL + 1000000000"
    using v(2,3) Unix_close by simp_all
  then show ?thesis using q(1,2) v(1) by blast
qed

text \<open>A token just minted is accepted for its user until it expires: the secret it was signed with is on disk.\<close>

lemma authSecret_stable:
  assumes "authSecret h c st = (Some s, st1)" "rand_ok (ce_rand c)" "ce_io c' 0"
  shows "authSecret h c' st1 = (Some s, st1)"
proof -
  have "as_files st1 (authSecretPath h) = Some s \<and> length s \<ge> 32"
    using assms(1,2) by (auto simp: authSecret_def createSecret_def rand_ok_def split: if_splits option.splits)
  then show ?thesis using assms(3) by (simp add: authSecret_def)
qed

lemma Mint_verifies:
  assumes "base64_ok e" "Mint e c u st = (Some (tok, x), st1)" "rand_ok (ce_rand c)" "ce_io c' 0" "CHR ''|'' \<notin> set u" "in_int64 (Unix x)" "Unix (ce_now c') \<le> Unix x"
  shows "fst (VerifyElevation e c' tok u st1)" "tok \<noteq> []"
proof -
  obtain k0 nonce where k0: "hmacKey e c st = (Some k0, st1)" and x: "x = ce_now c + TTL" "TrimSpace u \<noteq> []"
    and t0: "tok = (let payload = stepupPayload u (Unix x) (se_b64 e nonce) in se_b64 e payload @ ''.'' @ se_b64 e (se_hmac e k0 payload))"
    using assms(2) by (auto simp: Mint_def Let_def split: if_splits option.splits prod.splits)
  obtain s where a: "authSecret (se_http e) c st = (Some s, st1)" and s: "k0 = se_hmac e s domainLabel" using k0 by (auto simp: hmacKey_def split: prod.splits)
  note t = t0 [unfolded s]
  have u: "u \<noteq> []" using x(2) by (auto simp: TrimSpace_def)
  let ?p = "stepupPayload u (Unix x) (se_b64 e nonce)"
  show n: "tok \<noteq> []" using t by (simp add: Let_def)
  have k: "hmacKey e c' st1 = (Some (se_hmac e s domainLabel), st1)" using authSecret_stable [OF a assms(3,4)] by (simp add: hmacKey_def)
  have parts: "tokenParts e tok = Some (?p, se_hmac e (se_hmac e s domainLabel) ?p)" using t assms(1) SplitN2_join [of "CHR ''.''"] by (auto simp: base64_ok_def tokenParts_def Let_def)
  have "SplitN2 (CHR ''|'') ?p = (u, Some (FormatInt (Unix x) @ CHR ''|'' # se_b64 e nonce))" using SplitN2_join [OF assms(5)] by (simp add: stepupPayload_def)
  moreover have "SplitN2 (CHR ''|'') (FormatInt (Unix x) @ CHR ''|'' # se_b64 e nonce) = (FormatInt (Unix x), Some (se_b64 e nonce))" using SplitN2_join [OF FormatInt_no_bar] .
  ultimately have "payloadValid (ce_now c') ?p u" using assms(6,7) ParseInt_FormatInt by (simp add: payloadValid_def)
  then show "fst (VerifyElevation e c' tok u st1)" using n u k parts by (simp add: VerifyElevation_def)
qed

definition demo_stepup :: stepup_env where
  "demo_stepup = \<lparr>se_http = demo_http, se_hmac = (\<lambda>k d. k @ d), se_b64 = (\<lambda>b. packNats [packStr b]),
     se_unb64 = (\<lambda>s. case unpackNats s of [n] \<Rightarrow> Some (unpackStr n) | _ \<Rightarrow> None), se_hasStore = True\<rparr>"

lemma demo_base64: "base64_ok demo_stepup"
  by (simp add: base64_ok_def demo_stepup_def) (simp add: packNats_def)

definition demo_box :: stepup_state where
  "demo_box = \<lparr>su_auth = demo_state, su_limiter = DefaultRateLimiter\<rparr>"

lemma demo_secret: "fst (authSecret demo_http (demo_call 1 ''u2'') demo_state) = Some (replicate 32 CHR ''r'')"
  by (simp add: authSecret_def createSecret_def demo_call_def demo_state_def)

lemma ada_elevated:
  "\<exists>tok a ck st'. boxStep demo_stepup (Elevate (demo_call 1 ''u2'') ada_req (Some ''correct horse'')) demo_box = (StepupAnswer (Elevated ''u1'' tok (1 + TTL) ck), st')
    \<and> Mint demo_stepup (demo_call 1 ''u2'') ''u1'' demo_state = (Some (tok, 1 + TTL), a) \<and> su_auth st' = a"
proof -
  let ?c = "demo_call 1 ''u2''"
  let ?r = "actAs ''u1'' [] (stripIdentity (stepupRequest ada_req))"
  have m: "Middleware demo_http ?c (stepupRequest ada_req) demo_state = (Inr ?r, demo_state)"
    by (simp add: Middleware_def sessionMiddleware_def adminAuth_def vkAuth_def sessionAuth_def extractToken_def HasPrefix_def TrimPrefix_def stripIdentity_def HeaderDel_def HeaderSet_def HeaderGet_def
      stepupRequest_def AT10TokenPrefix_def ValidateToken_def csrfSafe_def actAs_def mutating_def demo_defs Let_def Day_def Minute_def)
  have v: "VerifyUserPassword demo_auth ''u1'' ''correct horse'' demo_store"
    by (simp add: VerifyUserPassword_def verifyPassword_def isbcryptHash_def HasPrefix_def demo_defs)
  obtain s a where "authSecret demo_http ?c demo_state = (Some s, a)" using demo_secret by (cases "authSecret demo_http ?c demo_state") auto
  then have "\<exists>tok. Mint demo_stepup ?c ''u1'' demo_state = (Some (tok, 1 + TTL), a)"
    by (simp add: Mint_def hmacKey_def TrimSpace_def is_space_def Let_def demo_stepup_def) (simp add: demo_call_def Let_def)
  then obtain tok where mt: "Mint demo_stepup ?c ''u1'' demo_state = (Some (tok, 1 + TTL), a)" by blast
  have e: "he_auth (se_http demo_stepup) = demo_auth" "se_http demo_stepup = demo_http" "se_hasStore demo_stepup" "as_store demo_state = demo_store"
    by (simp_all add: demo_stepup_def demo_http_def demo_state_def)
  have "handleStepupVerify demo_stepup ?c ?r (Some ''correct horse'') demo_box = (Elevated ''u1'' tok (1 + TTL) (buildCookie ?r tok (1 + TTL - ce_now ?c)), demo_box\<lparr>su_limiter := RecordSuccessIP (stepupClientIP ?r) DefaultRateLimiter, su_auth := a\<rparr>)"
    using v mt e by (simp add: handleStepupVerify_def demo_box_def)
  then show ?thesis using m mt e(2) by (simp add: demo_box_def)
qed

theorem elevation_needs_password_witness:
  "\<exists>rs st' tok. runs (boxStep demo_stepup) [Elevate (demo_call 1 ''u2'') ada_req (Some ''correct horse'')] demo_box = (rs, st')
    \<and> fst (Require demo_stepup (demo_call 2 ''u3'') (HeaderSet headerName tok (actAs ''u1'' [] demo_req)) (su_auth st'))
    \<and> VerifyUserPassword demo_auth ''u1'' ''correct horse'' demo_store"
proof -
  let ?q = "Elevate (demo_call 1 ''u2'') ada_req (Some ''correct horse'')" and ?c = "demo_call 2 ''u3''"
  obtain tok a ck st' where x: "boxStep demo_stepup ?q demo_box = (StepupAnswer (Elevated ''u1'' tok (1 + TTL) ck), st')"
    "Mint demo_stepup (demo_call 1 ''u2'') ''u1'' demo_state = (Some (tok, 1 + TTL), a)" "su_auth st' = a" using ada_elevated by blast
  let ?r = "HeaderSet headerName tok (actAs ''u1'' [] demo_req)"
  have r: "runs (boxStep demo_stepup) [?q] demo_box = ([StepupAnswer (Elevated ''u1'' tok (1 + TTL) ck)], st')" using x(1) by simp
  have h: "caller ?r = ''u1''" "tokenFromRequest ?r = tok"
    by (simp_all add: caller_def tokenFromRequest_def HeaderGet_def HeaderSet_def headerName_def actAs_def demo_req_def)
  have v: "fst (VerifyElevation demo_stepup ?c tok ''u1'' a)" "tok \<noteq> []"
    using Mint_verifies [OF demo_base64 x(2), where c' = ?c] by (simp_all add: rand_ok_def demo_call_def Unix_def TTL_def Minute_def in_int64_def)
  have ok: "fst (Require demo_stepup ?c ?r (su_auth st'))" using v h x(3) by (simp add: Require_def)
  have "\<exists>qs1 c0 r0 pw qs2 rs1 st1. [?q] = qs1 @ Elevate c0 r0 (Some pw) # qs2 \<and> runs (boxStep demo_stepup) qs1 demo_box = (rs1, st1)
    \<and> identity (se_http demo_stepup) c0 (stepupRequest r0) (su_auth st1) = caller ?r
    \<and> VerifyUserPassword (he_auth (se_http demo_stepup)) (caller ?r) pw (as_store (su_auth st1)) \<and> ce_now ?c < ce_now c0 + TTL + 1000000000"
    by (rule elevation_needs_password [OF demo_base64 r _ _ ok]) (auto simp: carries_def signed_def h(2))
  then have "VerifyUserPassword demo_auth ''u1'' ''correct horse'' demo_store"
    using h(1) by (auto simp: Cons_eq_append_conv demo_box_def demo_state_def demo_stepup_def demo_http_def)
  then show ?thesis using r ok by blast
qed

end
