(* ===== verification/Spec2Isabelle.thy ===== *)
theory Spec2Isabelle
  imports Crdt_Spec Crdt_Exchange Crdt_Async Crdt_Width Lease_Run Pairing_Run Snapshot_Prune Ota_Run Auth_Return Auth_Takeover Auth_Stepup
begin

text \<open>
  Verification of the core of Vulos, a self-hosted personal cloud operating system
  (repository \<open>vul-os/vulos\<close>, Go sources under \<open>src/backend\<close>).

  \<^bold>\<open>The program and its parts.\<close> A person runs several boxes. Each box keeps its own replica
  of small shared state and reconciles it with its peers; object storage the boxes share holds
  leases and backups; a new device is admitted by pairing; and every box updates its operating
  system from signed images. People sign in to a box with a password, a PIN or a recovery phrase.
  Modelled are:
  \<^item> \<open>internal/crdtsync\<close>: a replicated store of registers, grow-only entries and counters
    ordered by a hybrid logical clock (\<open>types.go\<close>, \<open>policy.go\<close>, \<open>store.go\<close>), its HTTP
    endpoints (\<open>handlers.go\<close>), the signed envelopes of requests and answers
    (\<open>peerauth.go\<close>) and the loop that reconciles with peers (\<open>syncer.go\<close>);
  \<^item> \<open>services/lease\<close>: leases with fencing tokens on conditional writes of an object store, and
    their users;
  \<^item> \<open>services/pairing\<close>: one-time pairing tickets and the record of paired devices;
  \<^item> \<open>services/snapshot\<close>: content-addressed snapshots of a bucket prefix, restore, retention;
  \<^item> \<open>services/signing\<close>, \<open>services/osdist\<close>, \<open>cmd/verify\<close>, \<open>cmd/sign/pki.go\<close> and the boot
    part of \<open>cmd/init\<close>: canonical JSON, release certificates, the epoch floor, the two image
    slots with the boot counter, the update check, and the gate at boot;
  \<^item> \<open>services/ota\<close> and \<open>cmd/server/routes_ota.go\<close>: the server's own update client, which polls
    one channel, notifies the owner and stages an image;
  \<^item> \<open>services/auth\<close>, \<open>internal/auth\<close>, \<open>services/stepup\<close> and the routes for them in
    \<open>cmd/server\<close>: accounts, sessions and profiles, the brute-force limiter, the device PIN, the
    recovery phrase and the master key it unlocks, the middleware that says who a request is from,
    the handlers, the admin token and step-up confirmation.

  The parts meet where the code lets them meet: \<open>handlers.go\<close> calls the store and the
  authorizer, \<open>syncer.go\<close> calls the endpoints of a peer, jobs run under a lease, the updater
  uses signing and slots, the boot gate and both update clients share the epoch floor file and the
  slots, and every request passes the limiter and the middleware before a handler changes the
  account store.

  \<^bold>\<open>Theories.\<close> \<open>Prelude\<close> holds byte strings, the wrap-around of 64-bit integers, tables, the
  state-and-error computations \<open>comp\<close> and the interfaces shared below. \<open>Go_Text\<close> and
  \<open>Go_Json\<close> model the parts of Go's standard library the code uses; \<open>Codec\<close> is an invertible
  encoding the examples use.
  \<^item> \<open>Crdt_Types\<close>, \<open>Crdt_Policy\<close>, \<open>Crdt_Store\<close>: the definitions, one per Go method. The four
    SQLite tables are association lists keyed by their primary keys. \<open>Crdt_Merge\<close> and
    \<open>Crdt_Replica\<close> prove what each operation does to one domain and that the store invariant is
    kept; \<open>Crdt_Safety\<close> proves the guarantees of one replica against arbitrary callers and
    peers; \<open>Crdt_Width\<close> says when no stored sequence number outgrows its signed column;
    \<open>Crdt_Local\<close> is about local writes and the clock; \<open>Crdt_Delta\<close>, \<open>Crdt_Net\<close> and
    \<open>Crdt_Converge\<close> treat a network that loses, repeats and reorders answers, each answer one
    step; \<open>Crdt_Query\<close> has \<open>Delta\<close> and \<open>Snapshot\<close> query by query, as they take no lock, and \<open>Crdt_Async\<close>
    proves convergence when writes fall between the queries;
    \<open>Crdt_Spec\<close> is the abstract replica, a growing set merged by union, and the refinement.
    \<open>Peer_Auth\<close> and \<open>Peer_Guard\<close> are the envelopes and replay protection, \<open>Crdt_Sync\<close> and
    \<open>Crdt_Exchange\<close> the endpoints and the sync loop.
  \<^item> \<open>Lease\<close> and \<open>Lease_Run\<close>: the bucket is a map from keys to bodies with ETags; a history is
    any interleaving of calls of any boxes, each request or answer possibly lost.
  \<^item> \<open>Pairing\<close> and \<open>Pairing_Run\<close>: the two stores behind the package's mutexes, one step per call,
    any write failing.
  \<^item> \<open>Snapshot\<close>, \<open>Snapshot_Restore\<close>, \<open>Snapshot_Roundtrip\<close>, \<open>Snapshot_Prune\<close>: the object store
    with lost calls, create, verify, restore, retention and the sweep.
  \<^item> \<open>Signing_Json\<close>, \<open>Signing\<close>, \<open>Signing_Run\<close>: canonical bytes, signature files, certificates,
    the floor. \<open>Os_Slots\<close> and \<open>Os_Slots_Run\<close>: the boot state machine. \<open>Os_Update\<close> and
    \<open>Os_Update_Run\<close>: mirrors, manifest, download and staging. \<open>Os_Verify\<close>: the offline signer,
    the boot pipe and the verifier. \<open>Os_Release\<close> follows a release from the signer to the slot,
    \<open>Os_Boot\<close> proves the gate at boot and what it means for the updater. \<open>Ota\<close> and \<open>Ota_Run\<close>
    are the server's client and its runs.
  \<^item> \<open>Auth_Limit\<close>: the limiter and the client address; \<open>Auth_Throttle\<close>: what it bounds when calls
    overlap. \<open>Auth_Pin\<close>, \<open>Auth_Pin_Run\<close>: the PIN's four
    files, each operation fallible, and its lock. \<open>Bip39_Words\<close> (the 2048 words), \<open>Auth_Phrase\<close>
    (entropy and phrase), \<open>Auth_Key\<close> (the wrapped master key). \<open>Auth_Store\<close> and
    \<open>Auth_Recover\<close>: the working set of \<open>Store\<close> as a record of tables, one definition per
    method. \<open>Auth_Http\<close>: the middleware and one definition per handler; \<open>serve\<close> is one request
    from the limiter to the answer; \<open>Auth_Race\<close> has requests of several clients in stages, between
    which the handlers hold no lock. \<open>Auth_Kept\<close> proves once that what the store's methods keep
    every request keeps; \<open>Auth_Inv\<close> uses it for the store's invariant, roles, names and phrases.
    \<open>Auth_Run\<close>, \<open>Auth_Guess\<close>, \<open>Auth_Return\<close> and \<open>Auth_Takeover\<close> hold the guarantees against any
    requests, \<open>Auth_Stepup\<close> the elevation tokens, \<open>Auth_Demo\<close> a concrete box for the examples.

  \<^bold>\<open>Interfaces.\<close> \<open>merge_lattice\<close> states what makes a merge converge and is interpreted for
  registers and for counters; \<open>kept\<close> and \<open>token_store\<close> carry invariants and single use along
  runs and are interpreted for the pairing stores; \<open>string_form\<close> is what canonical JSON needs of
  the encoding of strings and is interpreted for Go's encoder on valid UTF-8; \<open>comp_frame\<close> is
  the frame of a fallible computation, interpreted for the boot state, the updater and the PIN's
  disk; \<open>image_channel\<close> is what a client of signed images promises and is interpreted for
  the updater and for the server's client; \<open>throttled\<close> bounds the guesses of one address, by those in flight at once, for
  any service whose stages treat the limiter as it must be treated, and is interpreted for the overlapping requests of the box;
  \<open>store_kept\<close> lists what a predicate must survive of the account store's methods, and is
  interpreted four times. \<open>kept\<close> is interpreted for the served requests as well.

  \<^bold>\<open>What is shown.\<close> Replication: convergence, progress, a gap-free log, permanence of grow-only
  entries, refinement of set union, reading one's writes, exact counters, and that only an
  authorised push changes a store, that no request is accepted twice and that LAN credentials
  never reach a WAN peer. Leases: fence tokens increase strictly and a superseded holder is
  refused. Pairing: a ticket is redeemed at most once, by whom it may be, and the device record
  is bounded. Snapshots: restore returns to the captured state, stays in its prefix, and a prune
  keeps what survivors need; the retention plan equals its rule. Updates: only certified images
  bound to their bytes are staged and only in the inactive slot, a published release is staged
  and applied, an update that does not come up is rolled back, the floor of accepted epochs
  only rises and binds updater and boot gate, and the gate passes only what the root certified;
  the server's client stages and announces only what the anchor's key chain signed. Accounts: a
  request acts as a user only with that user's session, key or the admin token; roles change only
  through administrators and passwords only through their owner or the phrase; the store stays
  consistent; guesses at the guarded routes are bounded per address by a constant plus those in flight at once, and wrong PINs by the right ones between them; the phrase of any 32 bytes is
  valid and no other text is, and it brings account and master key back after anything; an
  elevated request follows a recent password.
  Each property that has a hypothesis has a witness on concrete data beside it.

  \<^bold>\<open>Modelling.\<close> A Go string or byte slice is a list of bytes; an \<open>int64\<close> is an integer with
  \<open>wrap64\<close> where the code computes with it; errors are values of sum types and every early
  return is a branch. Clocks, randomness, the network, Ed25519, SHA-256, Base64, gzip, the JSON
  form of stored records and the outcome of each I/O call are parameters, fields of an
  environment record; what a property needs of them is a named hypothesis, such as \<open>b64_ok\<close>,
  \<open>key_pair\<close> or \<open>crypto_ok\<close>. A Go map that is ranged over is visited in an order the environment
  picks for the call, and \<open>fair_order\<close> says that it visits every key. Methods that hold a mutex throughout are one step. Requests to the
  account endpoints are one step as well, except where overlapping matters, for the bound on guesses. Sequence numbers of the replicated store are natural
  numbers; \<open>Crdt_Width\<close> keeps them below \<open>2 ^ 63\<close>. \<open>sort.Slice\<close> is a stable sort; its result differs from the code's only
  where keys are equal. A map the code only iterates to collect is an association
  list. Round trips of stored JSON assume text that is valid UTF-8.

  \<^bold>\<open>Bounds.\<close> No fuel is used: every loop is structural recursion over the data the code ranges
  over. The one bounded loop of the program, \<open>maxRoundsPerPeer\<close> (8 rounds of 2000 operations in
  each direction), is part of the model, and its property says when 8 rounds are enough. Rows of
  retention and mirrors are lists of any length.

  \<^bold>\<open>Where the code falls short.\<close> Some theorems show a defect on purpose: the clock wrapping
  below a received stamp, two boxes creating a lease at once, a live key that makes a snapshot
  unrestorable, two open epoch stores lowering the floor, an unconfirmed slot becoming the
  fallback, staging after apply overwriting it, a check undoing a concurrent apply, the
  manifest signature of the release instructions that the boot gate refuses, and the admin token
  that is written where the middleware does not look.

  \<^bold>\<open>Not modelled.\<close> Tickers, goroutines and cancellation around the loops; HTTP framing and SQL
  text; temporary files, which every path removes; the development key list of the signing
  package; the SQLite mirror of the account store, the fingerprint reader, the escrowed recovery
  kit and federated login; the installers, which add partitioning to the verification modelled
  here; multi-instance app sync, the SQL bridge of the replicated store, peering and the app
  registry, not reached yet; and the services that only drive the operating system, devices or external
  programs.
\<close>

end
